(* ===== verification/Prelude.thy ===== *)
theory Prelude
  imports Main "HOL-Library.Word" "HOL-Library.Code_Target_Numeral"
begin

text \<open>
  Shared vocabulary of the development: machine types, byte strings, little-endian
  integers, and the interface \<open>byte_codec\<close> that every fixed-width on-disk structure
  of the program implements. Bytes are \<^typ>\<open>char\<close> (exactly the 256 values of a C
  \<^verbatim>\<open>char\<close>), so text files such as \<^verbatim>\<open>/proc/<pid>/stat\<close> and binary records share
  one representation. Both supported hosts (x86-64 and aarch64) are little-endian, so
  \<^verbatim>\<open>memcpy\<close> of an integer is \<open>le_bytes\<close>.
\<close>

unbundle bit_operations_syntax

section \<open>Types\<close>

type_synonym bytes = string
type_synonym u8 = "8 word"
type_synonym u16 = "16 word"
type_synonym u32 = "32 word"
type_synonym u64 = "64 word"

text \<open>
  Every failing return of the program. The constructors are the \<^verbatim>\<open>errno\<close> values the code
  sets itself; \<open>EFAIL\<close> is a failing return (\<^verbatim>\<open>-1\<close> or \<^verbatim>\<open>NULL\<close>) that sets none.
\<close>

datatype err =
    EFAIL | EINVAL | EBADF | EBUSY | EIO | EPROTO | EOVERFLOW | EFBIG | ENOSPC
  | ENAMETOOLONG | ENOTSUP | ENOENT | EEXIST | ENOSYS | ESRCH | ECHILD | ETIMEDOUT | EINTR | EAGAIN | EPERM

named_theorems codec_simps \<open>lengths and round trips of the on-disk encodings\<close>
named_theorems step_simps \<open>field frames of the operations\<close>

abbreviation (input) INT_MAX :: nat where "INT_MAX \<equiv> 2147483647"
abbreviation (input) UINT32_MAX :: nat where "UINT32_MAX \<equiv> 4294967295"
abbreviation (input) SSIZE_MAX :: nat where "SSIZE_MAX \<equiv> 9223372036854775807"

abbreviation NUL :: char where "NUL \<equiv> CHR 0x00"
abbreviation NL :: char where "NL \<equiv> CHR 0x0A"
abbreviation TAB :: char where "TAB \<equiv> CHR 0x09"

text \<open>A failing step stops the computation, as an early return does.\<close>

definition ebind :: "'e + 'a \<Rightarrow> ('a \<Rightarrow> 'e + 'b) \<Rightarrow> 'e + 'b" where
  "ebind r f = (case r of Inl e \<Rightarrow> Inl e | Inr x \<Rightarrow> f x)"

lemma ebind_Inl [simp]: "ebind (Inl e) f = Inl e"
  by (simp add: ebind_def)

lemma ebind_Inr [simp]: "ebind (Inr x) f = f x"
  by (simp add: ebind_def)

lemma ebind_eq_Inr: "ebind r f = Inr y \<longleftrightarrow> (\<exists>x. r = Inr x \<and> f x = Inr y)"
  by (cases r) auto

section \<open>Lists\<close>

lemma takeWhile_append_stop:
  "(\<And>x. x \<in> set xs \<Longrightarrow> P x) \<Longrightarrow> \<not> P y \<Longrightarrow> takeWhile P (xs @ y # ys) = xs"
  by (induction xs) auto

lemma dropWhile_append_stop:
  "(\<And>x. x \<in> set xs \<Longrightarrow> P x) \<Longrightarrow> \<not> P y \<Longrightarrow> dropWhile P (xs @ y # ys) = y # ys"
  by (induction xs) auto

lemma takeWhile_neq_append [simp]: "c \<notin> set xs \<Longrightarrow> takeWhile (\<lambda>x. x \<noteq> c) (xs @ c # ys) = xs"
  by (induction xs) auto

lemma dropWhile_neq_append [simp]: "c \<notin> set xs \<Longrightarrow> dropWhile (\<lambda>x. x \<noteq> c) (xs @ c # ys) = c # ys"
  by (induction xs) auto

lemma takeWhile_neq_id: "c \<notin> set xs \<Longrightarrow> takeWhile (\<lambda>x. x \<noteq> c) xs = xs"
  by (induction xs) auto

lemma dropWhile_neq_Nil: "c \<notin> set xs \<Longrightarrow> dropWhile (\<lambda>x. x \<noteq> c) xs = []"
  by (induction xs) auto

lemma takeWhile_all: "(\<And>x. x \<in> set xs \<Longrightarrow> P x) \<Longrightarrow> takeWhile P xs = xs"
  by (simp add: takeWhile_eq_all_conv)

lemma dropWhile_id: "xs = [] \<or> \<not> P (hd xs) \<Longrightarrow> dropWhile P xs = xs"
  by (cases xs) auto

lemma takeWhile_not_length_less:
  "x \<in> set xs \<Longrightarrow> \<not> P x \<Longrightarrow> length (takeWhile P xs) < length xs"
  by (induction xs) auto

lemma drop_takeWhile_length:
  "drop (length (takeWhile P xs)) xs = dropWhile P xs"
  by (simp add: dropWhile_eq_drop)

section \<open>Little-endian integers\<close>

primrec le_bytes :: "nat \<Rightarrow> nat \<Rightarrow> bytes" where
  "le_bytes 0 x = []"
| "le_bytes (Suc n) x = char_of x # le_bytes n (x div 256)"

primrec le_val :: "bytes \<Rightarrow> nat" where
  "le_val [] = 0"
| "le_val (c # cs) = of_char c + 256 * le_val cs"

lemma length_le_bytes [simp, codec_simps]: "length (le_bytes n x) = n"
  by (induction n arbitrary: x) auto

lemma le_val_le_bytes: "le_val (le_bytes n x) = x mod 256 ^ n"
proof (induction n arbitrary: x)
  case 0
  show ?case by simp
next
  case (Suc n)
  have "x mod 256 + 256 * (x div 256 mod 256 ^ n) = x mod (256 * 256 ^ n)"
    by (simp add: mod_mult2_eq)
  then show ?case using Suc by simp
qed

lemma of_char_less: "(of_char c :: nat) < 256"
  by simp

lemma le_bytes_le_val: "length bs = n \<Longrightarrow> le_bytes n (le_val bs) = bs"
proof (induction bs arbitrary: n)
  case Nil
  then show ?case by simp
next
  case (Cons c cs)
  have "(of_char c + 256 * le_val cs) div 256 = le_val cs"
    using of_char_less [of c] by simp
  moreover have "char_of (of_char c + 256 * le_val cs) = c"
    by (metis char_of_char char_of_mod_256 mod_mult_self2)
  ultimately show ?case using Cons by auto
qed

lemma le_val_less: "le_val bs < 256 ^ length bs"
proof (induction bs)
  case Nil
  show ?case by simp
next
  case (Cons c cs)
  have "of_char c + 256 * le_val cs < 256 + 256 * le_val cs"
    using of_char_less [of c] by simp
  also have "\<dots> \<le> 256 * 256 ^ length cs"
    using Cons.IH by (metis Suc_leI mult_Suc_right mult_le_mono2)
  finally show ?case by simp
qed

definition put16 :: "u16 \<Rightarrow> bytes" where "put16 x = le_bytes 2 (unat x)"
definition put32 :: "u32 \<Rightarrow> bytes" where "put32 x = le_bytes 4 (unat x)"
definition put64 :: "u64 \<Rightarrow> bytes" where "put64 x = le_bytes 8 (unat x)"
definition get16 :: "bytes \<Rightarrow> u16" where "get16 bs = word_of_nat (le_val bs)"
definition get32 :: "bytes \<Rightarrow> u32" where "get32 bs = word_of_nat (le_val bs)"
definition get64 :: "bytes \<Rightarrow> u64" where "get64 bs = word_of_nat (le_val bs)"

lemma length_put [simp, codec_simps]:
  "length (put16 a) = 2" "length (put32 b) = 4" "length (put64 c) = 8"
  by (simp_all add: put16_def put32_def put64_def)

section \<open>The interface of a fixed-width encoding\<close>

text \<open>
  A structure the program copies to or from a file: \<open>enc\<close> is the \<^verbatim>\<open>memcpy\<close> out,
  \<open>dec\<close> the \<^verbatim>\<open>memcpy\<close> in, \<open>width\<close> its \<^verbatim>\<open>sizeof\<close>; \<open>valid\<close> says which model values are
  values of the C type (fixed-size arrays are lists).
\<close>

locale byte_codec =
  fixes enc :: "'a \<Rightarrow> bytes"
    and dec :: "bytes \<Rightarrow> 'a"
    and width :: nat
    and valid :: "'a \<Rightarrow> bool"
  assumes enc_length: "valid x \<Longrightarrow> length (enc x) = width"
    and dec_enc: "valid x \<Longrightarrow> dec (enc x) = x"
begin

lemma dec_prefix: "valid x \<Longrightarrow> dec (take width (enc x @ rest)) = x"
  by (simp add: enc_length dec_enc)

lemma drop_prefix: "valid x \<Longrightarrow> drop width (enc x @ rest) = rest"
  by (simp add: enc_length)

lemma enc_inj: "valid x \<Longrightarrow> valid y \<Longrightarrow> enc x = enc y \<Longrightarrow> x = y"
  by (metis dec_enc)

lemma enc_append_inj:
  "valid x \<Longrightarrow> valid y \<Longrightarrow> enc x @ r = enc y @ s \<Longrightarrow> x = y \<and> r = s"
  by (metis dec_prefix drop_prefix)

lemma length_concat_enc:
  "(\<And>x. x \<in> set xs \<Longrightarrow> valid x) \<Longrightarrow> length (concat (map enc xs)) = width * length xs"
  by (induction xs) (auto simp: enc_length)

lemma concat_enc_inj:
  "list_all valid xs \<Longrightarrow> list_all valid ys \<Longrightarrow> length xs = length ys \<Longrightarrow>
   concat (map enc xs) = concat (map enc ys) \<Longrightarrow> xs = ys"
proof (induction xs arbitrary: ys)
  case Nil
  then show ?case by simp
next
  case (Cons x xs)
  then obtain y ys' where "ys = y # ys'" by (cases ys) auto
  with Cons show ?case by (auto dest: enc_append_inj)
qed

end

text \<open>An encoding in which every byte string of the right length is a value.\<close>

locale total_codec = byte_codec +
  assumes enc_dec: "length bs = width \<Longrightarrow> enc (dec bs) = bs"
    and dec_valid: "length bs = width \<Longrightarrow> valid (dec bs)"
begin

lemma dec_inj:
  "length a = width \<Longrightarrow> length b = width \<Longrightarrow> dec a = dec b \<Longrightarrow> a = b"
  by (metis enc_dec)

end

interpretation c16: total_codec put16 get16 2 "\<lambda>_. True"
proof unfold_locales
  fix x :: u16 show "get16 (put16 x) = x"
    using unsigned_less [of x, where ?'a = nat] by (simp add: put16_def get16_def le_val_le_bytes)
next
  fix bs :: bytes assume "length bs = 2"
  then show "put16 (get16 bs) = bs"
    using le_val_less [of bs] by (simp add: put16_def get16_def unat_of_nat le_bytes_le_val)
qed simp_all

interpretation c32: total_codec put32 get32 4 "\<lambda>_. True"
proof unfold_locales
  fix x :: u32 show "get32 (put32 x) = x"
    using unsigned_less [of x, where ?'a = nat] by (simp add: put32_def get32_def le_val_le_bytes)
next
  fix bs :: bytes assume "length bs = 4"
  then show "put32 (get32 bs) = bs"
    using le_val_less [of bs] by (simp add: put32_def get32_def unat_of_nat le_bytes_le_val)
qed simp_all

interpretation c64: total_codec put64 get64 8 "\<lambda>_. True"
proof unfold_locales
  fix x :: u64 show "get64 (put64 x) = x"
    using unsigned_less [of x, where ?'a = nat] by (simp add: put64_def get64_def le_val_le_bytes)
next
  fix bs :: bytes assume "length bs = 8"
  then show "put64 (get64 bs) = bs"
    using le_val_less [of bs] by (simp add: put64_def get64_def unat_of_nat le_bytes_le_val)
qed simp_all

lemmas get_put [simp, codec_simps] =
  c16.dec_enc [OF TrueI] c32.dec_enc [OF TrueI] c64.dec_enc [OF TrueI]

lemma word64_less_of_nat:
  "a < 2 ^ 64 \<Longrightarrow> unat (word_of_nat a :: u64) = a"
  by (simp add: unat_of_nat)

end
