(* ===== verification/CLib.thy ===== *)
theory CLib
  imports Prelude
begin

text \<open>
  The C library functions the program calls on text: the \<^verbatim>\<open>strtol\<close> family, \<^verbatim>\<open>strtok_r\<close>
  with a blank as delimiter, \<^verbatim>\<open>strchr\<close> and \<^verbatim>\<open>strrchr\<close>, the conversions of \<^verbatim>\<open>sscanf\<close>
  that \<^verbatim>\<open>ProcMaps::Parse\<close> uses, \<^verbatim>\<open>strncpy\<close>, and the printing of an integer by
  \<^verbatim>\<open>snprintf\<close>. A C string is the list of its characters before the NUL. The lemmas are
  the round trips between printing and scanning that the parsers' properties rest on.
\<close>

section \<open>Characters\<close>

definition isspace :: "char \<Rightarrow> bool" where
  "isspace c \<longleftrightarrow> c = CHR '' '' \<or> c = TAB \<or> c = NL \<or> c = CHR 0x0B \<or> c = CHR 0x0C \<or> c = CHR 0x0D"

definition digit_val :: "nat \<Rightarrow> char \<Rightarrow> nat option" where
  "digit_val base c =
     (let n = (of_char c :: nat);
          d = (if 48 \<le> n \<and> n \<le> 57 then Some (n - 48)
               else if 97 \<le> n \<and> n \<le> 122 then Some (n - 87)
               else if 65 \<le> n \<and> n \<le> 90 then Some (n - 55)
               else None)
      in case d of None \<Rightarrow> None | Some v \<Rightarrow> if v < base then Some v else None)"

definition isdigit :: "nat \<Rightarrow> char \<Rightarrow> bool" where
  "isdigit base c \<longleftrightarrow> digit_val base c \<noteq> None"

definition digit_char :: "nat \<Rightarrow> char" where
  "digit_char d = char_of (if d < 10 then 48 + d else 87 + d)"

lemma digit_val_digit_char: "d < base \<Longrightarrow> base \<le> 16 \<Longrightarrow> digit_val base (digit_char d) = Some d"
  by (auto simp: digit_val_def digit_char_def Let_def)

lemma isdigit_digit_char: "d < base \<Longrightarrow> base \<le> 16 \<Longrightarrow> isdigit base (digit_char d)"
  by (simp add: isdigit_def digit_val_digit_char)

lemma isdigit_ascii:
  "isdigit base c \<Longrightarrow>
     48 \<le> (of_char c :: nat) \<and> (of_char c :: nat) \<le> 57 \<or>
     65 \<le> (of_char c :: nat) \<and> (of_char c :: nat) \<le> 90 \<or>
     97 \<le> (of_char c :: nat) \<and> (of_char c :: nat) < 87 + base"
  by (auto simp: isdigit_def digit_val_def Let_def split: if_splits)

lemma isdigit_not_space: "isdigit base c \<Longrightarrow> \<not> isspace c"
  using isdigit_ascii [of base c] by (auto simp: isspace_def)

lemma isdigit_not_sign:
  "isdigit base c \<Longrightarrow> c \<noteq> CHR ''-''" "isdigit base c \<Longrightarrow> c \<noteq> CHR ''+''"
  using isdigit_ascii [of base c] by auto

lemma isdigit_printable:
  "isdigit base c \<Longrightarrow> c \<noteq> NUL \<and> c \<noteq> NL \<and> c \<noteq> TAB \<and> c \<noteq> CHR '' '' \<and> c \<noteq> CHR ''('' \<and> c \<noteq> CHR '')''"
  using isdigit_ascii [of base c] by auto

lemma isdigit_not_x: "base \<le> 16 \<Longrightarrow> isdigit base c \<Longrightarrow> c \<noteq> CHR ''x'' \<and> c \<noteq> CHR ''X''"
  by (auto simp: isdigit_def digit_val_def)

section \<open>Printing and scanning integers\<close>

fun show_base :: "nat \<Rightarrow> nat \<Rightarrow> string" where
  "show_base base n =
     (if n < base \<or> base < 2 then [digit_char n]
      else show_base base (n div base) @ [digit_char (n mod base)])"

declare show_base.simps [simp del]

abbreviation show_dec :: "nat \<Rightarrow> string" where "show_dec \<equiv> show_base 10"
abbreviation show_hex :: "nat \<Rightarrow> string" where "show_hex \<equiv> show_base 16"

definition show_int :: "int \<Rightarrow> string" where
  "show_int z = (if z < 0 then CHR ''-'' # show_dec (nat (- z)) else show_dec (nat z))"

fun scan_digits :: "nat \<Rightarrow> nat \<Rightarrow> string \<Rightarrow> nat \<times> string" where
  "scan_digits base acc [] = (acc, [])"
| "scan_digits base acc (c # cs) =
     (case digit_val base c of
        None \<Rightarrow> (acc, c # cs)
      | Some d \<Rightarrow> scan_digits base (acc * base + d) cs)"

definition stops :: "nat \<Rightarrow> string \<Rightarrow> bool" where
  "stops base r \<longleftrightarrow> r = [] \<or> \<not> isdigit base (hd r)"

lemma scan_digits_stop: "stops base r \<Longrightarrow> scan_digits base acc r = (acc, r)"
  by (cases r) (auto simp: stops_def isdigit_def)

lemma scan_digits_length: "length (snd (scan_digits base acc s)) \<le> length s"
  by (induction base acc s rule: scan_digits.induct) (auto split: option.splits)

lemma scan_digits_show_gen:
  "2 \<le> base \<Longrightarrow> base \<le> 16 \<Longrightarrow>
   \<exists>k. \<forall>acc. scan_digits base acc (show_base base n @ r) = scan_digits base (acc * k + n) r"
proof (induction base n arbitrary: r rule: show_base.induct)
  case (1 base n)
  show ?case
  proof (cases "n < base")
    case True
    then show ?thesis using 1
      by (intro exI [of _ base]) (simp add: show_base.simps [of base n] digit_val_digit_char)
  next
    case False
    let ?d = "digit_char (n mod base)"
    from False 1 obtain k where
      k: "\<forall>acc. scan_digits base acc (show_base base (n div base) @ [?d] @ r)
            = scan_digits base (acc * k + n div base) ([?d] @ r)"
      by fastforce
    have "scan_digits base acc (show_base base n @ r) = scan_digits base (acc * (k * base) + n) r" for acc
      using False 1 k
      by (simp add: show_base.simps [of base n] digit_val_digit_char algebra_simps)
    then show ?thesis by blast
  qed
qed

lemma scan_digits_show:
  assumes "2 \<le> base" "base \<le> 16" "stops base r"
  shows "scan_digits base 0 (show_base base n @ r) = (n, r)"
  using scan_digits_show_gen [OF assms(1,2), of n r] scan_digits_stop [OF assms(3)] by auto

lemma show_base_digits: "2 \<le> base \<Longrightarrow> base \<le> 16 \<Longrightarrow> list_all (isdigit base) (show_base base n)"
proof (induction base n rule: show_base.induct)
  case (1 base n)
  then show ?case
    by (cases "n < base") (simp_all add: show_base.simps [of base n] isdigit_digit_char)
qed

lemma show_dec_chars: "c \<in> set (show_dec n) \<Longrightarrow> isdigit 10 c"
  using show_base_digits [of 10 n] by (auto simp: list_all_iff)

lemma stops_Nil [simp]: "stops b []"
  by (simp add: stops_def)

lemma stops_space [simp]: "stops b (CHR '' '' # r)"
  by (auto simp: stops_def isdigit_def digit_val_def)

lemma show_base_nonempty [simp]: "show_base base n \<noteq> []"
  by (subst show_base.simps) simp

lemma show_base_hd: "2 \<le> base \<Longrightarrow> base \<le> 16 \<Longrightarrow> isdigit base (hd (show_base base n))"
  by (metis show_base_digits show_base_nonempty list.pred_set hd_in_set)

section \<open>strtol, strtoul, strtoull\<close>

definition skip_0x :: "nat \<Rightarrow> string \<Rightarrow> string" where
  "skip_0x base s =
     (case s of
        z # x # h # r \<Rightarrow>
          if base = 16 \<and> z = CHR ''0'' \<and> (x = CHR ''x'' \<or> x = CHR ''X'') \<and> isdigit 16 h
          then h # r else s
      | _ \<Rightarrow> s)"

definition sign_of :: "string \<Rightarrow> bool \<times> string" where
  "sign_of s =
     (case s of
        c # r \<Rightarrow> if c = CHR ''-'' then (True, r) else if c = CHR ''+'' then (False, r) else (False, s)
      | [] \<Rightarrow> (False, s))"

text \<open>
  The subject sequence: optional blanks, an optional sign, for base 16 an optional
  \<^verbatim>\<open>0x\<close>, and at least one digit. \<open>None\<close> is \<^verbatim>\<open>end == text\<close> (no conversion).
\<close>

definition strto :: "nat \<Rightarrow> string \<Rightarrow> (bool \<times> nat \<times> string) option" where
  "strto base s =
     (let (neg, t) = sign_of (dropWhile isspace s);
          u = skip_0x base t
      in if stops base u then None
         else let (m, r) = scan_digits base 0 u in Some (neg, m, r))"

record 'v strto_result =
  sr_value :: 'v
  sr_end :: string
  sr_conv :: bool    \<comment> \<open>\<^verbatim>\<open>end != text\<close>\<close>
  sr_range :: bool   \<comment> \<open>\<^verbatim>\<open>errno == ERANGE\<close>\<close>

definition strtol :: "nat \<Rightarrow> string \<Rightarrow> int strto_result" where
  "strtol base s =
     (case strto base s of
        None \<Rightarrow> \<lparr>sr_value = 0, sr_end = s, sr_conv = False, sr_range = False\<rparr>
      | Some (neg, m, r) \<Rightarrow>
          let v = (if neg then - int m else int m)
          in if v > 2 ^ 63 - 1 then \<lparr>sr_value = 2 ^ 63 - 1, sr_end = r, sr_conv = True, sr_range = True\<rparr>
             else if v < - (2 ^ 63) then \<lparr>sr_value = - (2 ^ 63), sr_end = r, sr_conv = True, sr_range = True\<rparr>
             else \<lparr>sr_value = v, sr_end = r, sr_conv = True, sr_range = False\<rparr>)"

definition strtoull :: "nat \<Rightarrow> string \<Rightarrow> nat strto_result" where
  "strtoull base s =
     (case strto base s of
        None \<Rightarrow> \<lparr>sr_value = 0, sr_end = s, sr_conv = False, sr_range = False\<rparr>
      | Some (neg, m, r) \<Rightarrow>
          if m \<ge> 2 ^ 64 then \<lparr>sr_value = 2 ^ 64 - 1, sr_end = r, sr_conv = True, sr_range = True\<rparr>
          else \<lparr>sr_value = (if neg then (2 ^ 64 - m) mod 2 ^ 64 else m),
                 sr_end = r, sr_conv = True, sr_range = False\<rparr>)"

text \<open>\<^verbatim>\<open>unsigned long\<close> is 64 bits on both hosts, so \<^verbatim>\<open>strtoul\<close> is \<^verbatim>\<open>strtoull\<close>.\<close>

abbreviation strtoul :: "nat \<Rightarrow> string \<Rightarrow> nat strto_result" where
  "strtoul \<equiv> strtoull"

lemma sign_of_digit: "isdigit base c \<Longrightarrow> sign_of (c # r) = (False, c # r)"
  by (simp add: sign_of_def isdigit_not_sign)

lemma skip_0x_10 [simp]: "skip_0x 10 s = s"
  by (auto simp: skip_0x_def split: list.splits)

lemma dropWhile_space_show:
  "2 \<le> base \<Longrightarrow> base \<le> 16 \<Longrightarrow> dropWhile isspace (show_base base n @ r) = show_base base n @ r"
  using show_base_hd [of base n] isdigit_not_space
  by (cases "show_base base n") auto

lemma strto_show_dec: "stops 10 r \<Longrightarrow> strto 10 (show_dec n @ r) = Some (False, n, r)"
proof -
  assume r: "stops 10 r"
  obtain c cs where c: "show_dec n = c # cs" "isdigit 10 c"
    using show_base_hd [of 10 n] by (cases "show_dec n") auto
  then show ?thesis
    using r scan_digits_show [of 10 r n] dropWhile_space_show [of 10 n r]
    by (simp add: strto_def sign_of_digit stops_def del: scan_digits.simps dropWhile.simps)
qed

lemma strto_minus_dec: "stops 10 r \<Longrightarrow> strto 10 (CHR ''-'' # show_dec n @ r) = Some (True, n, r)"
proof -
  assume r: "stops 10 r"
  obtain c cs where c: "show_dec n = c # cs" "isdigit 10 c"
    using show_base_hd [of 10 n] by (cases "show_dec n") auto
  have "dropWhile isspace (CHR ''-'' # show_dec n @ r) = CHR ''-'' # show_dec n @ r"
    by (simp add: isspace_def)
  then show ?thesis
    using r c scan_digits_show [of 10 r n]
    by (simp add: strto_def sign_of_def stops_def del: scan_digits.simps dropWhile.simps)
qed

lemma strtol_show:
  assumes "stops 10 r" "- (2 ^ 63) \<le> z" "z \<le> 2 ^ 63 - 1"
  shows "strtol 10 (show_int z @ r) =
           \<lparr>sr_value = z, sr_end = r, sr_conv = True, sr_range = False\<rparr>"
  using assms by (auto simp: strtol_def show_int_def strto_show_dec strto_minus_dec)

lemma strtoul_show:
  "stops 10 r \<Longrightarrow> n < 2 ^ 64 \<Longrightarrow>
   strtoul 10 (show_dec n @ r) = \<lparr>sr_value = n, sr_end = r, sr_conv = True, sr_range = False\<rparr>"
  by (simp add: strtoull_def strto_show_dec)

lemma strtoull_value_less: "sr_value (strtoull base s) < 2 ^ 64"
  by (auto simp: strtoull_def split: option.splits)

lemma strtol_value_range: "- (2 ^ 63) \<le> sr_value (strtol base s) \<and> sr_value (strtol base s) \<le> 2 ^ 63 - 1"
  by (auto simp: strtol_def Let_def split: option.splits)

section \<open>strchr, strrchr, strtok\_r, strncpy\<close>

text \<open>The text before and after the first, or the last, occurrence of a character.\<close>

definition split_first :: "char \<Rightarrow> string \<Rightarrow> (string \<times> string) option" where
  "split_first c s =
     (case dropWhile (\<lambda>x. x \<noteq> c) s of [] \<Rightarrow> None | _ # r \<Rightarrow> Some (takeWhile (\<lambda>x. x \<noteq> c) s, r))"

fun split_last :: "char \<Rightarrow> string \<Rightarrow> (string \<times> string) option" where
  "split_last c [] = None"
| "split_last c (x # xs) =
     (case split_last c xs of
        Some (a, b) \<Rightarrow> Some (x # a, b)
      | None \<Rightarrow> if x = c then Some ([], xs) else None)"

text \<open>All tokens of repeated \<^verbatim>\<open>strtok_r(s, " ", ...)\<close>: maximal runs of other characters.\<close>

lemma length_dropWhile_Suc [termination_simp]: "length (dropWhile P xs) < Suc (length xs)"
  by (simp add: length_dropWhile_le le_imp_less_Suc)

fun tokens :: "string \<Rightarrow> string list" where
  "tokens [] = []"
| "tokens (c # cs) =
     (if c = CHR '' '' then tokens cs
      else (c # takeWhile (\<lambda>x. x \<noteq> CHR '' '') cs) # tokens (dropWhile (\<lambda>x. x \<noteq> CHR '' '') cs))"

definition strncpy :: "string \<Rightarrow> nat \<Rightarrow> bytes" where
  "strncpy s n = (let t = takeWhile (\<lambda>c. c \<noteq> NUL) s in take n t @ replicate (n - length t) NUL)"

lemma length_strncpy [simp, codec_simps]: "length (strncpy s n) = n"
  by (simp add: strncpy_def Let_def)

lemma split_first_append:
  "c \<notin> set a \<Longrightarrow> split_first c (a @ c # b) = Some (a, b)"
  by (simp add: split_first_def)

lemma split_last_None: "split_last c s = None \<longleftrightarrow> c \<notin> set s"
  by (induction s) (auto split: option.splits)

lemma split_last_append: "c \<notin> set b \<Longrightarrow> split_last c (a @ c # b) = Some (a, b)"
proof (induction a)
  case Nil
  then have "split_last c b = None" by (simp add: split_last_None)
  then show ?case by simp
next
  case (Cons x a)
  then show ?case by simp
qed

lemma split_last_Some: "split_last c s = Some (a, b) \<Longrightarrow> s = a @ c # b \<and> c \<notin> set b"
proof (induction s arbitrary: a b)
  case Nil
  then show ?case by simp
next
  case (Cons x xs)
  then show ?case
    by (auto split: option.splits if_splits simp: split_last_None)
qed

lemma tokens_token:
  assumes "t \<noteq> []" "CHR '' '' \<notin> set t" "r = [] \<or> hd r = CHR '' ''"
  shows "tokens (t @ r) = t # tokens r"
proof -
  obtain c cs where t: "t = c # cs" using assms(1) by (cases t) auto
  have "takeWhile (\<lambda>x. x \<noteq> CHR '' '') (cs @ r) = cs \<and> dropWhile (\<lambda>x. x \<noteq> CHR '' '') (cs @ r) = r"
    using assms t by (cases r) (auto simp: takeWhile_neq_id dropWhile_neq_Nil)
  then show ?thesis using assms t by auto
qed

lemma tokens_space [simp]: "tokens (CHR '' '' # r) = tokens r"
  by simp

text \<open>Fields separated by one blank come back as they are.\<close>

fun unwords :: "string list \<Rightarrow> string" where
  "unwords [] = []"
| "unwords [t] = t"
| "unwords (t # ts) = t @ CHR '' '' # unwords ts"

lemma tokens_unwords:
  "(\<And>t. t \<in> set ts \<Longrightarrow> t \<noteq> [] \<and> CHR '' '' \<notin> set t) \<Longrightarrow> tokens (unwords ts) = ts"
proof (induction ts rule: unwords.induct)
  case 1
  show ?case by simp
next
  case (2 t)
  then show ?case using tokens_token [of t "[]"] by simp
next
  case (3 t u us)
  then show ?case
    using tokens_token [of t "CHR '' '' # unwords (u # us)"] by simp
qed

section \<open>sscanf\<close>

text \<open>
  The conversions of glibc's \<^verbatim>\<open>sscanf\<close> that the program uses; \<open>None\<close> is a matching or
  input failure. \<^verbatim>\<open>%lx\<close> and \<^verbatim>\<open>%lu\<close> skip blanks, take an optional sign and (for
  \<^verbatim>\<open>%lx\<close>) an optional \<^verbatim>\<open>0x\<close>, whose \<^verbatim>\<open>0\<close> already counts as a digit; the value is
  \<^verbatim>\<open>strtoul\<close>'s, clamped at \<^verbatim>\<open>ULONG_MAX\<close> and negated modulo \<open>2 ^ 64\<close>.
\<close>

definition scan_prefix :: "nat \<Rightarrow> string \<Rightarrow> bool \<times> string" where
  "scan_prefix base s =
     (case s of
        z # x # r \<Rightarrow>
          if base = 16 \<and> z = CHR ''0'' \<and> (x = CHR ''x'' \<or> x = CHR ''X'') then (True, r) else (False, s)
      | _ \<Rightarrow> (False, s))"

definition scan_ulong :: "nat \<Rightarrow> string \<Rightarrow> (nat \<times> string) option" where
  "scan_ulong base s =
     (let (neg, t) = sign_of (dropWhile isspace s);
          (seen, u) = scan_prefix base t;
          (m, r) = scan_digits base 0 u
      in if \<not> seen \<and> stops base u then None
         else Some (if m \<ge> 2 ^ 64 then 2 ^ 64 - 1 else if neg then (2 ^ 64 - m) mod 2 ^ 64 else m, r))"

definition scan_str :: "nat \<Rightarrow> string \<Rightarrow> (string \<times> string) option" where
  "scan_str width s =
     (let t = dropWhile isspace s;
          w = take width (takeWhile (\<lambda>c. \<not> isspace c) t)
      in if w = [] then None else Some (w, drop (length w) t))"

definition scan_lit :: "char \<Rightarrow> string \<Rightarrow> string option" where
  "scan_lit c s = (case s of x # r \<Rightarrow> if x = c then Some r else None | [] \<Rightarrow> None)"

lemma scan_prefix_show:
  assumes "2 \<le> base" "base \<le> 16" "stops base r" "r = [] \<or> hd r \<noteq> CHR ''x'' \<and> hd r \<noteq> CHR ''X''"
  shows "scan_prefix base (show_base base n @ r) = (False, show_base base n @ r)"
proof -
  have d: "list_all (isdigit base) (show_base base n)" by (rule show_base_digits) fact+
  show ?thesis
  proof (cases "show_base base n" rule: remdups_adj.cases)
    case 1
    then show ?thesis by simp
  next
    case (2 c)
    then show ?thesis using assms(4) by (cases r) (auto simp: scan_prefix_def)
  next
    case (3 c d cs)
    with d isdigit_not_x [OF assms(2), of d] show ?thesis by (simp add: scan_prefix_def)
  qed
qed

lemma scan_ulong_show:
  assumes "2 \<le> base" "base \<le> 16" "stops base r" "n < 2 ^ 64"
    and "r = [] \<or> hd r \<noteq> CHR ''x'' \<and> hd r \<noteq> CHR ''X''"
  shows "scan_ulong base (show_base base n @ r) = Some (n, r)"
proof -
  obtain c cs where c: "show_base base n = c # cs" "isdigit base c"
    using show_base_hd [OF assms(1,2), of n] by (cases "show_base base n") auto
  have sg: "sign_of (show_base base n @ r) = (False, show_base base n @ r)"
    using c by (simp add: sign_of_digit)
  have "\<not> stops base (show_base base n @ r)"
    using c by (simp add: stops_def)
  then show ?thesis
    using assms scan_digits_show [OF assms(1-3), of n] dropWhile_space_show [OF assms(1,2), of n r]
    by (simp add: scan_ulong_def sg scan_prefix_show)
qed

lemma scan_ulong_space: "isspace c \<Longrightarrow> scan_ulong base (c # s) = scan_ulong base s"
  by (simp add: scan_ulong_def)

lemma scan_str_space: "isspace c \<Longrightarrow> scan_str w (c # s) = scan_str w s"
  by (simp add: scan_str_def)

lemma scan_str_word:
  assumes "length w = n" "0 < n" "list_all (\<lambda>c. \<not> isspace c) w" "r = [] \<or> isspace (hd r)"
  shows "scan_str n (w @ r) = Some (w, r)"
proof -
  obtain c cs where w: "w = c # cs" using assms by (cases w) auto
  have "takeWhile (\<lambda>c. \<not> isspace c) (w @ r) = w"
    using assms by (cases r) (auto simp: list_all_iff takeWhile_all takeWhile_append_stop)
  moreover have "dropWhile isspace (w @ r) = w @ r"
    using assms w by simp
  ultimately show ?thesis using assms w by (auto simp: scan_str_def Let_def)
qed

end
