(* ===== verification/ProcFs.thy ===== *)
theory ProcFs
  imports CLib
begin

text \<open>
  \<^verbatim>\<open>src/proc.h\<close> and \<^verbatim>\<open>src/proc.cc\<close>: reading a \<^verbatim>\<open>/proc\<close> file into a bounded buffer
  (\<^verbatim>\<open>ProcFile::ReadPid\<close>, \<^verbatim>\<open>Read\<close>, \<^verbatim>\<open>ReadPath\<close>) and the line reader \<^verbatim>\<open>ProcDecoder::readline\<close>.
  The decoders of maps, cmdline, auxv and status are in \<open>ProcDecode\<close>, that of stat is in
  \<open>StatDecode\<close>.
\<close>

section \<open>File types\<close>

datatype proc_type =
    PROC_TYPE_UNKNOWN | PROC_TYPE_CMDLINE | PROC_TYPE_STAT | PROC_TYPE_STATUS
  | PROC_TYPE_AUXV | PROC_TYPE_MAPS | PROC_TYPE_IO | PROC_TYPE_ENVIRON
  | PROC_TYPE_LIMITS | PROC_TYPE_MAX

fun proc_code :: "proc_type \<Rightarrow> u8" where
  "proc_code PROC_TYPE_UNKNOWN = 0"
| "proc_code PROC_TYPE_CMDLINE = 1"
| "proc_code PROC_TYPE_STAT = 2"
| "proc_code PROC_TYPE_STATUS = 3"
| "proc_code PROC_TYPE_AUXV = 4"
| "proc_code PROC_TYPE_MAPS = 5"
| "proc_code PROC_TYPE_IO = 6"
| "proc_code PROC_TYPE_ENVIRON = 7"
| "proc_code PROC_TYPE_LIMITS = 8"
| "proc_code PROC_TYPE_MAX = 9"

fun szProcType :: "proc_type \<Rightarrow> string option" where
  "szProcType PROC_TYPE_CMDLINE = Some ''cmdline''"
| "szProcType PROC_TYPE_STAT = Some ''stat''"
| "szProcType PROC_TYPE_STATUS = Some ''status''"
| "szProcType PROC_TYPE_AUXV = Some ''auxv''"
| "szProcType PROC_TYPE_MAPS = Some ''maps''"
| "szProcType PROC_TYPE_IO = Some ''io''"
| "szProcType PROC_TYPE_ENVIRON = Some ''environ''"
| "szProcType PROC_TYPE_LIMITS = Some ''limits''"
| "szProcType _ = None"

instantiation proc_type :: linorder
begin

definition less_eq_proc_type :: "proc_type \<Rightarrow> proc_type \<Rightarrow> bool" where
  "less_eq_proc_type a b \<longleftrightarrow> proc_code a \<le> proc_code b"

definition less_proc_type :: "proc_type \<Rightarrow> proc_type \<Rightarrow> bool" where
  "less_proc_type a b \<longleftrightarrow> proc_code a < proc_code b"

instance
proof
  fix a b :: proc_type
  show "a \<le> b \<Longrightarrow> b \<le> a \<Longrightarrow> a = b"
    by (cases a; cases b) (simp_all add: less_eq_proc_type_def word_le_nat_alt)
qed (auto simp: less_eq_proc_type_def less_proc_type_def)

end

section \<open>ProcFile\<close>

record ProcFile =
  f_size :: u32
  f_pid :: u32
  f_type :: u8
  f_data :: bytes

abbreviation (input) sizeof_ProcFile :: nat where "sizeof_ProcFile \<equiv> 9"

definition wf_ProcFile :: "ProcFile \<Rightarrow> bool" where
  "wf_ProcFile pf \<longleftrightarrow> length (f_data pf) = unat (f_size pf)"

text \<open>The bytes the decoders look at: \<^verbatim>\<open>f_data[0 .. f_size)\<close>.\<close>

definition pf_text :: "ProcFile \<Rightarrow> bytes" where
  "pf_text pf = take (unat (f_size pf)) (f_data pf)"

definition ProcFile_Size :: "ProcFile \<Rightarrow> nat" where
  "ProcFile_Size pf = sizeof_ProcFile + unat (f_size pf)"

lemma pf_text_wf: "wf_ProcFile pf \<Longrightarrow> pf_text pf = f_data pf"
  by (simp add: pf_text_def wf_ProcFile_def)

text \<open>
  An open \<^verbatim>\<open>/proc\<close> file: the bytes still to come, and what the next calls of \<^verbatim>\<open>read\<close> do.
  After the listed events every call returns as much as was asked for.
\<close>

datatype rd_event = Interrupted | Failing | Short nat

record proc_fd =
  fd_rest :: bytes
  fd_events :: "rd_event list"

datatype rd_result = RdEINTR | RdError | RdBytes bytes

definition read_fd :: "proc_fd \<Rightarrow> nat \<Rightarrow> rd_result \<times> proc_fd" where
  "read_fd fd n =
     (case fd_events fd of
        [] \<Rightarrow> (RdBytes (take n (fd_rest fd)), fd\<lparr>fd_rest := drop n (fd_rest fd)\<rparr>)
      | Interrupted # es \<Rightarrow> (RdEINTR, fd\<lparr>fd_events := es\<rparr>)
      | Failing # es \<Rightarrow> (RdError, fd\<lparr>fd_events := es\<rparr>)
      | Short k # es \<Rightarrow>
          let m = min n (max 1 k)
          in (RdBytes (take m (fd_rest fd)), fd\<lparr>fd_rest := drop m (fd_rest fd), fd_events := es\<rparr>))"

definition fd_measure :: "proc_fd \<Rightarrow> nat" where
  "fd_measure fd = length (fd_events fd) + length (fd_rest fd)"

lemma read_fd_EINTR: "read_fd fd n = (RdEINTR, fd') \<Longrightarrow> fd_measure fd' < fd_measure fd \<and> fd_rest fd' = fd_rest fd"
  by (auto simp: read_fd_def fd_measure_def Let_def split: list.splits rd_event.splits)

lemma read_fd_bytes:
  "read_fd fd n = (RdBytes bs, fd') \<Longrightarrow> fd_rest fd = bs @ fd_rest fd' \<and> length bs \<le> n"
  by (auto simp: read_fd_def Let_def split: list.splits rd_event.splits)

lemma read_fd_progress:
  "read_fd fd n = (RdBytes bs, fd') \<Longrightarrow> bs \<noteq> [] \<Longrightarrow> fd_measure fd' < fd_measure fd"
  by (auto simp: read_fd_def fd_measure_def Let_def split: list.splits rd_event.splits)

lemma read_fd_eof:
  "read_fd fd n = (RdBytes [], fd') \<Longrightarrow> 0 < n \<Longrightarrow> fd_rest fd = []"
  by (auto simp: read_fd_def Let_def min_def split: list.splits rd_event.splits if_splits)

text \<open>The probe for one more byte when the payload area is full.\<close>

function probe_loop :: "proc_fd \<Rightarrow> err + bool" where
  "probe_loop fd =
     (case read_fd fd 1 of
        (RdEINTR, fd') \<Rightarrow> probe_loop fd'
      | (RdError, _) \<Rightarrow> Inl EIO
      | (RdBytes bs, _) \<Rightarrow> Inr (bs \<noteq> []))"
  by pat_completeness auto
termination
  by (relation "measure fd_measure") (auto dest: read_fd_EINTR [OF sym])

text \<open>The loop of \<^verbatim>\<open>ReadPath\<close>: the payload read so far, and whether it was cut short.\<close>

function read_loop :: "proc_fd \<Rightarrow> nat \<Rightarrow> bytes \<Rightarrow> err + bytes \<times> bool" where
  "read_loop fd left data =
     (if left = 0 then
        (case probe_loop fd of Inl e \<Rightarrow> Inl e | Inr extra \<Rightarrow> Inr (data, extra))
      else
        (case read_fd fd (min 4096 left) of
           (RdEINTR, fd') \<Rightarrow> read_loop fd' left data
         | (RdError, _) \<Rightarrow> Inl EIO
         | (RdBytes bs, fd') \<Rightarrow>
             if bs = [] then Inr (data, False)
             else read_loop fd' (left - length bs) (data @ bs)))"
  by pat_completeness auto
termination
  by (relation "measure (\<lambda>(fd, left, data). fd_measure fd)")
     (auto dest: read_fd_EINTR [OF sym] read_fd_progress [OF sym])

declare probe_loop.simps [simp del] read_loop.simps [simp del]

text \<open>
  \<^verbatim>\<open>open_path\<close> is \<^verbatim>\<open>open(path, O_RDONLY)\<close>: \<open>None\<close> when it fails. The result is
  \<^verbatim>\<open>f_size\<close>, the payload and \<^verbatim>\<open>*out_truncated\<close>; \<^verbatim>\<open>f_pid\<close> and \<^verbatim>\<open>f_type\<close> are written by
  \<open>ReadPid\<close>. The NUL the code stores at \<^verbatim>\<open>f_data[len]\<close> is not part of the payload.
\<close>

definition ReadPath :: "(string \<Rightarrow> proc_fd option) \<Rightarrow> int \<Rightarrow> string \<Rightarrow> err + (u32 \<times> bytes) \<times> bool" where
  "ReadPath open_path buf_len path =
     (if buf_len < int sizeof_ProcFile + 1 then Inl EINVAL
      else case open_path path of
        None \<Rightarrow> Inl EFAIL
      | Some fd \<Rightarrow>
          (case read_loop fd (nat (buf_len - int sizeof_ProcFile - 1)) [] of
             Inl e \<Rightarrow> Inl e
           | Inr (data, truncated) \<Rightarrow> Inr ((word_of_nat (length data), data), truncated)))"

abbreviation (input) PATH_MAX :: nat where "PATH_MAX \<equiv> 128"

definition ProcFile_Read :: "(string \<Rightarrow> proc_fd option) \<Rightarrow> int \<Rightarrow> string \<Rightarrow> err + (u32 \<times> bytes) \<times> bool" where
  "ProcFile_Read open_path buf_len path =
     (if length path \<ge> PATH_MAX then Inl ENAMETOOLONG else ReadPath open_path buf_len path)"

definition proc_path :: "int \<Rightarrow> string \<Rightarrow> string" where
  "proc_path pid name = ''/proc/'' @ show_dec (nat pid) @ ''/'' @ name"

definition ReadPid :: "(string \<Rightarrow> proc_fd option) \<Rightarrow> int \<Rightarrow> int \<Rightarrow> proc_type \<Rightarrow> err + ProcFile \<times> bool" where
  "ReadPid open_path buf_len pid type =
     (if buf_len < int sizeof_ProcFile + 1 \<or> pid \<le> 0 \<or>
         type \<le> PROC_TYPE_UNKNOWN \<or> PROC_TYPE_MAX \<le> type then Inl EINVAL
      else case szProcType type of
        None \<Rightarrow> Inl EINVAL
      | Some name \<Rightarrow>
          (case ProcFile_Read open_path buf_len (proc_path pid name) of
             Inl e \<Rightarrow> Inl e
           | Inr ((len, data), truncated) \<Rightarrow>
               Inr (\<lparr>f_size = len, f_pid = word_of_int pid, f_type = proc_code type,
                     f_data = data\<rparr>, truncated)))"

section \<open>readline\<close>

text \<open>
  \<^verbatim>\<open>readline(cur, std::string&)\<close>: the line at \<^verbatim>\<open>cur\<close> and the cursor after the newlines
  that follow it. The C++ result is the length of the line; an empty line ends the
  callers' loops just as the end of the file does.
\<close>

definition readline :: "ProcFile option \<Rightarrow> int \<Rightarrow> string \<times> int" where
  "readline pf cur =
     (case pf of
        None \<Rightarrow> ([], cur)
      | Some p \<Rightarrow>
          if cur < 0 \<or> cur \<ge> sint (f_size p) then ([], cur)
          else
            let rest = drop (nat cur) (pf_text p);
                line = takeWhile (\<lambda>c. c \<noteq> NL) rest;
                after = dropWhile (\<lambda>c. c = NL) (drop (length line) rest)
            in (line, int (length (pf_text p)) - int (length after)))"

text \<open>\<^verbatim>\<open>readline(cur, char *out, size_t n)\<close>, which keeps at most \<open>n - 1\<close> characters.\<close>

definition readline_buf :: "ProcFile option \<Rightarrow> int \<Rightarrow> nat \<Rightarrow> string \<times> int" where
  "readline_buf pf cur n =
     (if n = 0 then ([], cur)
      else case pf of
        None \<Rightarrow> ([], cur)
      | Some p \<Rightarrow>
          if cur \<ge> sint (f_size p) then ([], cur)
          else
            let rest = drop (nat cur) (pf_text p);
                line = takeWhile (\<lambda>c. c \<noteq> NL) rest;
                after = dropWhile (\<lambda>c. c = NL) (drop (length line) rest)
            in (take (n - 1) line, int (length (pf_text p)) - int (length after)))"

definition pf_size :: "ProcFile option \<Rightarrow> int" where
  "pf_size pf = (case pf of None \<Rightarrow> 0 | Some p \<Rightarrow> int (length (pf_text p)))"

lemma readline_progress:
  assumes "readline pf cur = (line, cur')" "line \<noteq> []"
  shows "0 \<le> cur" "cur < cur'" "cur' \<le> pf_size pf"
proof -
  obtain p where p: "pf = Some p" "0 \<le> cur"
    using assms by (auto simp: readline_def split: option.splits if_splits)
  let ?rest = "drop (nat cur) (pf_text p)"
  have line: "line = takeWhile (\<lambda>c. c \<noteq> NL) ?rest"
    and cur': "cur' = int (length (pf_text p))
                 - int (length (dropWhile (\<lambda>c. c = NL) (drop (length line) ?rest)))"
    using assms p by (auto simp: readline_def Let_def split: if_splits)
  have "length (dropWhile (\<lambda>c. c = NL) (drop (length line) ?rest)) \<le> length ?rest - length line"
    by (metis length_dropWhile_le length_drop)
  moreover have "length line \<le> length ?rest"
    unfolding line by (rule length_takeWhile_le)
  moreover obtain k where "length line = Suc k" using assms(2) by (cases line) auto
  ultimately show "cur < cur'" "cur' \<le> pf_size pf" "0 \<le> cur"
    using p(2) by (auto simp: cur' p pf_size_def)
qed

text \<open>The lines the \<^verbatim>\<open>while (readline(cur, line))\<close> loops visit.\<close>

function file_lines :: "ProcFile option \<Rightarrow> int \<Rightarrow> string list" where
  "file_lines pf cur =
     (let (line, cur') = readline pf cur
      in if line = [] then [] else line # file_lines pf cur')"
  by pat_completeness auto
termination
proof (relation "measure (\<lambda>(pf, cur). nat (pf_size pf - cur))")
  fix pf cur p line cur'
  assume "p = readline pf cur" "(line, cur') = p" "line \<noteq> []"
  then have "cur < cur'" "cur' \<le> pf_size pf" using readline_progress [of pf cur line cur'] by auto
  then show "((pf, cur'), pf, cur) \<in> measure (\<lambda>(pf, cur). nat (pf_size pf - cur))" by simp
qed simp

declare file_lines.simps [simp del]

text \<open>The same lines as a function of the text alone.\<close>

function text_lines :: "string \<Rightarrow> string list" where
  "text_lines s =
     (let line = takeWhile (\<lambda>c. c \<noteq> NL) s
      in if line = [] then []
         else line # text_lines (dropWhile (\<lambda>c. c = NL) (drop (length line) s)))"
  by pat_completeness auto
termination
proof (relation "measure length")
  fix s line :: string
  assume "line = takeWhile (\<lambda>c. c \<noteq> NL) s" "line \<noteq> []"
  then obtain k where "length line = Suc k" "length line \<le> length s"
    using length_takeWhile_le [of "\<lambda>c. c \<noteq> NL" s] by (metis length_0_conv not0_implies_Suc)
  moreover have "length (dropWhile (\<lambda>c. c = NL) (drop (length line) s)) \<le> length s - length line"
    by (metis length_dropWhile_le length_drop)
  ultimately show "(dropWhile (\<lambda>c. c = NL) (drop (length line) s), s) \<in> measure length"
    by simp
qed simp

declare text_lines.simps [simp del]

lemma sint_f_size:
  assumes "wf_ProcFile p" "length (f_data p) \<le> INT_MAX"
  shows "sint (f_size p) = int (length (f_data p))"
proof -
  have u: "uint (f_size p) = int (length (f_data p))"
    using assms(1) by (simp add: wf_ProcFile_def)
  show ?thesis
    using assms(2) by (simp add: sint_uint u signed_take_bit_int_eq_self)
qed

section \<open>What ReadPid returns\<close>

lemma probe_loop_Inr: "probe_loop fd = Inr t \<Longrightarrow> t \<longleftrightarrow> fd_rest fd \<noteq> []"
proof (induction fd rule: probe_loop.induct)
  case (1 fd)
  then show ?case
    by (subst (asm) (2) probe_loop.simps)
       (auto split: prod.splits rd_result.splits dest: read_fd_EINTR read_fd_bytes read_fd_eof)
qed

lemma read_loop_Inr:
  "read_loop fd left data = Inr (d, t) \<Longrightarrow>
   d = data @ take left (fd_rest fd) \<and> (t \<longleftrightarrow> left < length (fd_rest fd))"
proof (induction fd left data rule: read_loop.induct)
  case (1 fd left data)
  show ?case
  proof (cases "left = 0")
    case True
    with "1.prems" show ?thesis
      by (subst (asm) read_loop.simps) (auto dest: probe_loop_Inr split: sum.splits)
  next
    case False
    obtain r fd' where r: "read_fd fd (min 4096 left) = (r, fd')" by fastforce
    show ?thesis
    proof (cases r)
      case RdEINTR
      with False r "1.prems" have "read_loop fd' left data = Inr (d, t)"
        by (subst (asm) read_loop.simps) simp
      with "1.IH"(1) [OF False r [symmetric] RdEINTR] show ?thesis
        using read_fd_EINTR [of fd "min 4096 left" fd'] r RdEINTR by simp
    next
      case RdError
      with False r "1.prems" show ?thesis by (subst (asm) read_loop.simps) simp
    next
      case (RdBytes bs)
      note fdb = read_fd_bytes [OF r [unfolded RdBytes]]
      show ?thesis
      proof (cases "bs = []")
        case True
        with False r RdBytes "1.prems" have "d = data \<and> \<not> t"
          by (subst (asm) read_loop.simps) simp
        with True False r RdBytes show ?thesis
          using read_fd_eof [of fd "min 4096 left" fd'] by simp
      next
        case bs: False
        with False r RdBytes "1.prems" have "read_loop fd' (left - length bs) (data @ bs) = Inr (d, t)"
          by (subst (asm) read_loop.simps) simp
        with "1.IH"(2) [OF False r [symmetric] RdBytes bs] fdb show ?thesis
          by auto
      qed
    qed
  qed
qed

lemma read_fd_not_failing:
  "read_fd fd n = (r, fd') \<Longrightarrow> Failing \<notin> set (fd_events fd) \<Longrightarrow>
   r \<noteq> RdError \<and> Failing \<notin> set (fd_events fd')"
  by (auto simp: read_fd_def Let_def split: list.splits rd_event.splits)

lemma probe_loop_not_failing: "Failing \<notin> set (fd_events fd) \<Longrightarrow> \<exists>t. probe_loop fd = Inr t"
proof (induction fd rule: probe_loop.induct)
  case (1 fd)
  then show ?case
    by (subst probe_loop.simps)
       (auto split: prod.splits rd_result.splits; metis read_fd_not_failing)
qed

lemma read_loop_not_failing:
  "Failing \<notin> set (fd_events fd) \<Longrightarrow> \<exists>dt. read_loop fd left data = Inr dt"
proof (induction fd left data rule: read_loop.induct)
  case (1 fd left data)
  then show ?case
    using probe_loop_not_failing [of fd]
    by (subst read_loop.simps)
       (auto split: prod.splits rd_result.splits sum.splits; metis read_fd_not_failing)
qed

text \<open>
  With a descriptor that never fails hard, whatever the sizes of the single reads and
  however often they are interrupted, the payload is the longest prefix that fits.
\<close>

lemma read_loop_complete:
  assumes "Failing \<notin> set (fd_events fd)"
  shows "read_loop fd left data =
           Inr (data @ take left (fd_rest fd), left < length (fd_rest fd))"
  using read_loop_not_failing [OF assms, of left data] read_loop_Inr [of fd left data] by fastforce

lemma ReadPid_wf:
  assumes "ReadPid op n pid ty = Inr (pf, t)" "n \<le> 2 ^ 31"
  shows "wf_ProcFile pf" "int (length (f_data pf)) + 10 \<le> n" "f_pid pf = word_of_int pid"
    "f_type pf = proc_code ty" "0 < pid"
proof -
  obtain fd d name where
    fd: "op (proc_path pid name) = Some fd" "read_loop fd (nat (n - 9 - 1)) [] = Inr (d, t)" "10 \<le> n" "0 < pid"
    and pf: "pf = \<lparr>f_size = word_of_nat (length d), f_pid = word_of_int pid,
               f_type = proc_code ty, f_data = d\<rparr>"
    using assms(1)
    by (auto simp: ReadPid_def ProcFile_Read_def ReadPath_def
        split: if_splits option.splits sum.splits prod.splits)
  have len: "int (length d) + 10 \<le> n"
    using read_loop_Inr [OF fd(2)] fd(3) by simp
  then have "length d < 2 ^ 32" using assms(2) by simp
  then show "wf_ProcFile pf" by (simp add: wf_ProcFile_def pf unat_of_nat)
  show "int (length (f_data pf)) + 10 \<le> n" "f_pid pf = word_of_int pid"
    "f_type pf = proc_code ty" "0 < pid"
    using len fd by (simp_all add: pf)
qed

section \<open>The lines of a file\<close>

lemma drop_length_suffix: "drop (length (zs @ ys) - length ys) (zs @ ys) = ys"
  by simp

lemma drop_dropWhile_drop:
  "drop (length xs - length (dropWhile P (drop k (drop m xs)))) xs = dropWhile P (drop k (drop m xs))"
  (is "drop (_ - length ?a) _ = _")
proof -
  have "xs = (take m xs @ take k (drop m xs) @ takeWhile P (drop k (drop m xs))) @ ?a"
    by (simp only: append_assoc takeWhile_dropWhile_id append_take_drop_id)
  then show ?thesis by (metis drop_length_suffix)
qed

lemma file_lines_text:
  assumes "wf_ProcFile p" "length (f_data p) \<le> INT_MAX" "0 \<le> cur"
  shows "file_lines (Some p) cur = text_lines (drop (nat cur) (f_data p))"
  using assms(3)
proof (induction "Some p" cur rule: file_lines.induct)
  case (1 cur)
  let ?rest = "drop (nat cur) (f_data p)"
  let ?line = "takeWhile (\<lambda>c. c \<noteq> NL) ?rest"
  let ?after = "dropWhile (\<lambda>c. c = NL) (drop (length ?line) ?rest)"
  show ?case
  proof (cases "cur < sint (f_size p)")
    case False
    then have "readline (Some p) cur = ([], cur)" by (simp add: readline_def)
    moreover have "?rest = []" using False sint_f_size [OF assms(1,2)] by simp
    ultimately show ?thesis by (simp add: file_lines.simps [of _ cur] text_lines.simps [of "[]"])
  next
    case True
    let ?cur' = "int (length (f_data p)) - int (length ?after)"
    have rl: "readline (Some p) cur = (?line, ?cur')"
      using True 1(2) by (simp add: readline_def pf_text_wf [OF assms(1)] Let_def)
    have le: "length ?after \<le> length (f_data p)"
      using length_dropWhile_le [of "\<lambda>c. c = NL" "drop (length ?line) ?rest"] by simp
    have suffix: "drop (nat ?cur') (f_data p) = ?after"
    proof -
      have "nat ?cur' = length (f_data p) - length ?after"
        by (simp only: of_nat_diff [OF le, symmetric] nat_int)
      then show ?thesis by (metis drop_dropWhile_drop)
    qed
    have fl: "file_lines (Some p) cur = (if ?line = [] then [] else ?line # file_lines (Some p) ?cur')"
      using file_lines.simps [of "Some p" cur] unfolding rl Let_def prod.case .
    have tl: "text_lines ?rest = (if ?line = [] then [] else ?line # text_lines ?after)"
      using text_lines.simps [of ?rest] unfolding Let_def .
    show ?thesis
    proof (cases "?line = []")
      case True
      then show ?thesis unfolding fl tl by simp
    next
      case False
      then have "file_lines (Some p) ?cur' = text_lines (drop (nat ?cur') (f_data p))"
        using 1(1) [OF rl [symmetric] refl] le by simp
      then show ?thesis unfolding fl tl suffix by simp
    qed
  qed
qed

lemma text_lines_Nil [simp]: "text_lines [] = []"
  by (simp add: text_lines.simps)

lemma text_lines_Cons:
  assumes "l \<noteq> []" "NL \<notin> set l" "r = [] \<or> hd r \<noteq> NL"
  shows "text_lines (l @ NL # r) = l # text_lines r"
  using assms by (subst text_lines.simps) (auto simp: dropWhile_id)

lemma text_lines_concat:
  "(\<And>l. l \<in> set ls \<Longrightarrow> l \<noteq> [] \<and> NL \<notin> set l) \<Longrightarrow>
   text_lines (concat (map (\<lambda>l. l @ [NL]) ls)) = ls"
proof (induction ls)
  case Nil
  show ?case by simp
next
  case (Cons l ls)
  have "concat (map (\<lambda>l. l @ [NL]) ls) = [] \<or> hd (concat (map (\<lambda>l. l @ [NL]) ls)) \<noteq> NL"
  proof (cases ls)
    case (Cons m ms)
    with Cons.prems [of m] show ?thesis by (cases m) auto
  qed simp
  then show ?case
    using Cons text_lines_Cons [of l "concat (map (\<lambda>l. l @ [NL]) ls)"] by simp
qed

lemma text_lines_no_NL: "l \<in> set (text_lines s) \<Longrightarrow> NL \<notin> set l \<and> l \<noteq> []"
proof (induction s rule: text_lines.induct)
  case (1 s)
  then show ?case
    by (subst (asm) (2) text_lines.simps) (auto simp: Let_def dest: set_takeWhileD split: if_splits)
qed

end
