(* ===== verification/ElfDefs.thy ===== *)
theory ElfDefs
  imports Prelude
begin

text \<open>
  The constants of \<^verbatim>\<open>src/elf_defs.h\<close> that the program uses, at the width of the typed
  constants that \<^verbatim>\<open>src/elf.h\<close> generates from the lists.
\<close>

section \<open>Identification\<close>

abbreviation (input) EI_NIDENT :: nat where "EI_NIDENT \<equiv> 16"

abbreviation ELFMAG :: bytes where
  "ELFMAG \<equiv> [CHR 0x7F, CHR ''E'', CHR ''L'', CHR ''F'']"

abbreviation ELFCLASS64 :: char where "ELFCLASS64 \<equiv> CHR 0x02"
abbreviation ELFDATA2LSB :: char where "ELFDATA2LSB \<equiv> CHR 0x01"
abbreviation EV_CURRENT :: char where "EV_CURRENT \<equiv> CHR 0x01"
abbreviation ELFOSABI_LINUX :: char where "ELFOSABI_LINUX \<equiv> CHR 0x03"

abbreviation ET_CORE :: u16 where "ET_CORE \<equiv> 4"
abbreviation EM_X86_64 :: u16 where "EM_X86_64 \<equiv> 62"
abbreviation EM_AARCH64 :: u16 where "EM_AARCH64 \<equiv> 183"

section \<open>Segments\<close>

abbreviation PT_LOAD :: u32 where "PT_LOAD \<equiv> 1"
abbreviation PT_NOTE :: u32 where "PT_NOTE \<equiv> 4"

abbreviation PF_X :: u32 where "PF_X \<equiv> 1"
abbreviation PF_W :: u32 where "PF_W \<equiv> 2"
abbreviation PF_R :: u32 where "PF_R \<equiv> 4"

section \<open>Notes and the auxiliary vector\<close>

abbreviation NT_PRSTATUS :: u32 where "NT_PRSTATUS \<equiv> 1"
abbreviation NT_FPREGSET :: u32 where "NT_FPREGSET \<equiv> 2"
abbreviation NT_PRPSINFO :: u32 where "NT_PRPSINFO \<equiv> 3"
abbreviation NT_AUXV :: u32 where "NT_AUXV \<equiv> 6"
abbreviation NT_X86_XSTATE :: u32 where "NT_X86_XSTATE \<equiv> 0x202"
abbreviation NT_SIGINFO :: u32 where "NT_SIGINFO \<equiv> 0x53494749"
abbreviation NT_FILE :: u32 where "NT_FILE \<equiv> 0x46494c45"

abbreviation AT_NULL :: u64 where "AT_NULL \<equiv> 0"
abbreviation AT_PAGESZ :: u64 where "AT_PAGESZ \<equiv> 6"
abbreviation AT_UID :: u64 where "AT_UID \<equiv> 11"
abbreviation AT_EUID :: u64 where "AT_EUID \<equiv> 12"
abbreviation AT_GID :: u64 where "AT_GID \<equiv> 13"
abbreviation AT_EGID :: u64 where "AT_EGID \<equiv> 14"

end
