(* ===== verification/ProcDecode.thy ===== *)
theory ProcDecode
  imports ProcFs ElfDefs
begin

text \<open>
  The decoders of \<^verbatim>\<open>src/proc.cc\<close> for maps, cmdline, auxv and status, each with the
  property that makes its result usable: a maps file yields ordered, disjoint, non-empty
  regions; a cmdline, an auxv and a status written by the kernel are read back.
\<close>

section \<open>maps\<close>

record MemRegion =
  start_addr :: u64
  end_addr :: u64
  r_offset :: u64
  dev_major :: u32
  dev_minor :: u32
  inode :: u64
  perms :: u32          \<comment> \<open>a 3-bit field\<close>
  is_private :: bool
  is_shared :: bool
  r_name :: string

text \<open>
  \<^verbatim>\<open>sscanf(line, "%lx-%lx %4s %lx %x:%x %lu %n", ...)\<close> when it returns 7: the seven
  values and \<^verbatim>\<open>consumed\<close>. A blank in the format skips any run of blanks.
\<close>

record maps_fields =
  mf_start :: nat
  mf_end :: nat
  mf_perm :: string
  mf_offset :: nat
  mf_major :: nat
  mf_minor :: nat
  mf_inode :: nat
  mf_consumed :: nat

definition sscanf_maps :: "string \<Rightarrow> maps_fields option" where
  "sscanf_maps line =
     (case scan_ulong 16 line of None \<Rightarrow> None | Some (a, s1) \<Rightarrow>
      case scan_lit CHR ''-'' s1 of None \<Rightarrow> None | Some s2 \<Rightarrow>
      case scan_ulong 16 s2 of None \<Rightarrow> None | Some (b, s3) \<Rightarrow>
      case scan_str 4 s3 of None \<Rightarrow> None | Some (perm, s4) \<Rightarrow>
      case scan_ulong 16 s4 of None \<Rightarrow> None | Some (off, s5) \<Rightarrow>
      case scan_ulong 16 s5 of None \<Rightarrow> None | Some (maj, s6) \<Rightarrow>
      case scan_lit CHR '':'' s6 of None \<Rightarrow> None | Some s7 \<Rightarrow>
      case scan_ulong 16 s7 of None \<Rightarrow> None | Some (mino, s8) \<Rightarrow>
      case scan_ulong 10 s8 of None \<Rightarrow> None | Some (ino, s9) \<Rightarrow>
      Some \<lparr>mf_start = a, mf_end = b, mf_perm = perm, mf_offset = off, mf_major = maj,
            mf_minor = mino, mf_inode = ino,
            mf_consumed = length line - length (dropWhile isspace s9)\<rparr>)"

definition perm_ok :: "string \<Rightarrow> bool" where
  "perm_ok p \<longleftrightarrow> length p = 4 \<and>
     (p ! 0 = CHR ''r'' \<or> p ! 0 = CHR ''-'') \<and> (p ! 1 = CHR ''w'' \<or> p ! 1 = CHR ''-'') \<and>
     (p ! 2 = CHR ''x'' \<or> p ! 2 = CHR ''-'') \<and> (p ! 3 = CHR ''p'' \<or> p ! 3 = CHR ''s'')"

definition perm_bits :: "string \<Rightarrow> u32" where
  "perm_bits p = (if p ! 0 = CHR ''r'' then PF_R else 0) OR
                 (if p ! 1 = CHR ''w'' then PF_W else 0) OR
                 (if p ! 2 = CHR ''x'' then PF_X else 0)"

definition map_name :: "string \<Rightarrow> nat \<Rightarrow> string" where
  "map_name line consumed =
     (if 0 < consumed \<and> consumed < length line
      then dropWhile (\<lambda>c. c = CHR '' '' \<or> c = TAB) (drop consumed line) else [])"

text \<open>The body of the loop of \<^verbatim>\<open>ProcMaps::Parse\<close> for one line, up to the region limit.\<close>

definition parse_maps_line :: "string \<Rightarrow> u64 \<Rightarrow> err + MemRegion" where
  "parse_maps_line line previous_end =
     (if NUL \<in> set line then Inl EFAIL
      else case sscanf_maps line of
        None \<Rightarrow> Inl EFAIL
      | Some f \<Rightarrow>
          let s = word_of_nat (mf_start f); e = word_of_nat (mf_end f)
          in if \<not> perm_ok (mf_perm f) \<or> e \<le> s \<or> s < previous_end then Inl EFAIL
             else Inr \<lparr>start_addr = s, end_addr = e, r_offset = word_of_nat (mf_offset f),
                       dev_major = word_of_nat (mf_major f), dev_minor = word_of_nat (mf_minor f),
                       inode = word_of_nat (mf_inode f), perms = perm_bits (mf_perm f),
                       is_private = (mf_perm f ! 3 = CHR ''p''),
                       is_shared = (mf_perm f ! 3 = CHR ''s''),
                       r_name = map_name line (mf_consumed f)\<rparr>)"

abbreviation (input) MAX_REGIONS :: nat where "MAX_REGIONS \<equiv> 1048576"

fun maps_loop :: "string list \<Rightarrow> u64 \<Rightarrow> MemRegion list \<Rightarrow> err + MemRegion list" where
  "maps_loop [] previous_end acc = Inr acc"
| "maps_loop (line # lines) previous_end acc =
     (case parse_maps_line line previous_end of
        Inl e \<Rightarrow> Inl e
      | Inr r \<Rightarrow>
          if length acc \<ge> MAX_REGIONS then Inl EFAIL
          else maps_loop lines (end_addr r) (acc @ [r]))"

definition ProcMaps_Parse :: "ProcFile option \<Rightarrow> err + MemRegion list" where
  "ProcMaps_Parse pf = maps_loop (file_lines pf 0) 0 []"

section \<open>cmdline\<close>

abbreviation (input) MAX_ARGV :: nat where "MAX_ARGV \<equiv> 16384"

lemma dropWhile_tail_shorter [termination_simp]:
  "dropWhile P s = c # r \<Longrightarrow> length r < length s"
  using length_dropWhile_le [of P s] by simp

function argv_loop :: "string \<Rightarrow> string list \<Rightarrow> string list \<times> string" where
  "argv_loop p argv =
     (if p = [] \<or> length argv \<ge> MAX_ARGV then (argv, p)
      else
        let arg = takeWhile (\<lambda>c. c \<noteq> NUL) p
        in (case dropWhile (\<lambda>c. c \<noteq> NUL) p of
              [] \<Rightarrow> (argv @ [arg], [])
            | _ # q \<Rightarrow> argv_loop q (argv @ [arg])))"
  by pat_completeness auto
termination
  by (relation "measure (\<lambda>(p, argv). length p)") (auto simp: dropWhile_tail_shorter)

declare argv_loop.simps [simp del]

definition ProcCmdline_Parse :: "ProcFile option \<Rightarrow> err + string list" where
  "ProcCmdline_Parse pf =
     (case pf of
        None \<Rightarrow> Inr []
      | Some p \<Rightarrow>
          let (argv, rest) = argv_loop (pf_text p) []
          in if rest \<noteq> [] then Inl EFAIL else Inr argv)"

section \<open>auxv\<close>

record ProcAuxv =
  av_uid :: u32
  av_gid :: u32
  av_euid :: u32
  av_egid :: u32
  av_page_size :: u64

definition id_ok :: "u64 \<Rightarrow> bool" where
  "id_ok v \<longleftrightarrow> unat v \<le> UINT32_MAX"

definition page_size_ok :: "u64 \<Rightarrow> bool" where
  "page_size_ok v \<longleftrightarrow> \<not> (v = 0 \<or> unat v > UINT32_MAX \<or> v AND (v - 1) \<noteq> 0)"

function auxv_loop :: "bytes \<Rightarrow> ProcAuxv \<Rightarrow> err + ProcAuxv" where
  "auxv_loop bs a =
     (if length bs < 16 then Inl EFAIL
      else
        let type = get64 (take 8 bs); val = get64 (take 8 (drop 8 bs)); rest = drop 16 bs
        in if type = AT_NULL then (if rest \<noteq> [] then Inl EFAIL else Inr a)
           else if type = AT_UID then
             (if \<not> id_ok val then Inl EFAIL else auxv_loop rest (a\<lparr>av_uid := ucast val\<rparr>))
           else if type = AT_GID then
             (if \<not> id_ok val then Inl EFAIL else auxv_loop rest (a\<lparr>av_gid := ucast val\<rparr>))
           else if type = AT_EUID then
             (if \<not> id_ok val then Inl EFAIL else auxv_loop rest (a\<lparr>av_euid := ucast val\<rparr>))
           else if type = AT_EGID then
             (if \<not> id_ok val then Inl EFAIL else auxv_loop rest (a\<lparr>av_egid := ucast val\<rparr>))
           else if type = AT_PAGESZ then
             (if \<not> page_size_ok val then Inl EFAIL else auxv_loop rest (a\<lparr>av_page_size := val\<rparr>))
           else auxv_loop rest a)"
  by pat_completeness auto
termination
  by (relation "measure (\<lambda>(bs, a). length bs)") auto

declare auxv_loop.simps [simp del]

definition auxv_init :: ProcAuxv where
  "auxv_init = \<lparr>av_uid = 0, av_gid = 0, av_euid = 0, av_egid = 0, av_page_size = 0\<rparr>"

definition ProcAuxv_Parse :: "ProcFile option \<Rightarrow> err + ProcAuxv" where
  "ProcAuxv_Parse pf =
     (case pf of
        None \<Rightarrow> Inl EFAIL
      | Some p \<Rightarrow>
          if unat (f_size p) < 16 \<or> unat (f_size p) mod 16 \<noteq> 0 then Inl EFAIL
          else auxv_loop (pf_text p) auxv_init)"

section \<open>status\<close>

record ProcStatus =
  ps_uid :: u32
  ps_gid :: u32

abbreviation blank :: "char \<Rightarrow> bool" where
  "blank c \<equiv> c = CHR '' '' \<or> c = TAB"

text \<open>The loop over the four ids of a line: real, effective, saved, file-system.\<close>

fun parse_ids :: "nat \<Rightarrow> string \<Rightarrow> (u32 list \<times> string) option" where
  "parse_ids 0 p = Some ([], p)"
| "parse_ids (Suc n) p =
     (let q = dropWhile blank p
      in if length q = length p \<or> stops 10 q then None
         else let r = strtoull 10 q
              in if \<not> sr_conv r \<or> sr_range r \<or> sr_value r > UINT32_MAX then None
                 else (case parse_ids n (sr_end r) of
                         None \<Rightarrow> None
                       | Some (vs, e) \<Rightarrow> Some (word_of_nat (sr_value r) # vs, e)))"

definition parse_id_line :: "string \<Rightarrow> u32 option" where
  "parse_id_line line =
     (case parse_ids 4 (drop 4 line) of
        None \<Rightarrow> None
      | Some (vs, p) \<Rightarrow> if dropWhile blank p \<noteq> [] then None else Some (vs ! 0))"

text \<open>\<open>Some\<close> for the two fields the loop has seen.\<close>

fun status_loop :: "string list \<Rightarrow> u32 option \<Rightarrow> u32 option \<Rightarrow> err + u32 option \<times> u32 option" where
  "status_loop [] uid gid = Inr (uid, gid)"
| "status_loop (line # lines) uid gid =
     (if take 4 line = ''Uid:'' then
        (if uid \<noteq> None then Inl EFAIL
         else case parse_id_line line of
                None \<Rightarrow> Inl EFAIL
              | Some v \<Rightarrow> status_loop lines (Some v) gid)
      else if take 4 line = ''Gid:'' then
        (if gid \<noteq> None then Inl EFAIL
         else case parse_id_line line of
                None \<Rightarrow> Inl EFAIL
              | Some v \<Rightarrow> status_loop lines uid (Some v))
      else status_loop lines uid gid)"

definition ProcStatus_Parse :: "ProcFile option \<Rightarrow> err + ProcStatus" where
  "ProcStatus_Parse pf =
     (case pf of
        None \<Rightarrow> Inl EFAIL
      | Some p \<Rightarrow>
          if f_size p = 0 \<or> NUL \<in> set (pf_text p) then Inl EFAIL
          else case status_loop (file_lines pf 0) None None of
            Inl e \<Rightarrow> Inl e
          | Inr (Some u, Some g) \<Rightarrow> Inr \<lparr>ps_uid = u, ps_gid = g\<rparr>
          | Inr _ \<Rightarrow> Inl EFAIL)"

section \<open>Properties of the maps decoder\<close>

definition region_ok :: "MemRegion \<Rightarrow> bool" where
  "region_ok r \<longleftrightarrow> start_addr r < end_addr r \<and> perms r \<le> 7 \<and> (is_shared r \<longleftrightarrow> \<not> is_private r)"

definition regions_ordered :: "MemRegion list \<Rightarrow> bool" where
  "regions_ordered rs \<longleftrightarrow>
     list_all region_ok rs \<and> sorted_wrt (\<lambda>a b. end_addr a \<le> start_addr b) rs"

lemma perm_bits_le: "perm_bits p \<le> 7"
  by (simp add: perm_bits_def)

lemma parse_maps_line_ok:
  "parse_maps_line line prev = Inr r \<Longrightarrow> region_ok r \<and> prev \<le> start_addr r"
  by (auto simp: parse_maps_line_def region_ok_def perm_bits_le perm_ok_def Let_def
      split: if_splits option.splits)

lemma maps_loop_ordered:
  assumes "maps_loop lines prev acc = Inr rs"
    and "regions_ordered acc" "\<forall>a \<in> set acc. end_addr a \<le> prev" "length acc \<le> MAX_REGIONS"
  shows "regions_ordered rs \<and> length rs \<le> MAX_REGIONS"
  using assms
proof (induction lines arbitrary: prev acc)
  case Nil
  then show ?case by simp
next
  case (Cons line lines)
  then obtain r where r: "parse_maps_line line prev = Inr r" "length acc < MAX_REGIONS"
    and rest: "maps_loop lines (end_addr r) (acc @ [r]) = Inr rs"
    by (auto split: sum.splits if_splits)
  have ok: "region_ok r" "prev \<le> start_addr r" using parse_maps_line_ok [OF r(1)] by auto
  have bound: "end_addr a \<le> start_addr r" if "a \<in> set acc" for a
    using that Cons.prems(3) ok(2) by fastforce
  have "regions_ordered (acc @ [r])"
    using Cons.prems(2) ok bound by (simp add: regions_ordered_def sorted_wrt_append)
  moreover have "\<forall>a \<in> set (acc @ [r]). end_addr a \<le> end_addr r"
    using bound ok by (fastforce simp: region_ok_def)
  ultimately show ?case
    using Cons.IH [OF rest] r(2) by simp
qed

lemma maps_parse_ordered:
  "ProcMaps_Parse pf = Inr rs \<Longrightarrow> regions_ordered rs \<and> length rs \<le> MAX_REGIONS"
  unfolding ProcMaps_Parse_def by (rule maps_loop_ordered) (auto simp: regions_ordered_def)

text \<open>
  The line the kernel prints for a region (\<^verbatim>\<open>fs/proc/task_mmu.c\<close>), with \<open>pad\<close> blanks more
  than the one that follows the inode number before the name.
\<close>

definition pad0 :: "nat \<Rightarrow> string \<Rightarrow> string" where
  "pad0 w s = replicate (w - length s) CHR ''0'' @ s"

definition perm_string :: "MemRegion \<Rightarrow> string" where
  "perm_string r =
     [if perms r AND PF_R \<noteq> 0 then CHR ''r'' else CHR ''-'',
      if perms r AND PF_W \<noteq> 0 then CHR ''w'' else CHR ''-'',
      if perms r AND PF_X \<noteq> 0 then CHR ''x'' else CHR ''-'',
      if is_private r then CHR ''p'' else CHR ''s'']"

definition maps_front :: "nat \<Rightarrow> MemRegion \<Rightarrow> string" where
  "maps_front pad r =
     pad0 8 (show_hex (unat (start_addr r))) @ ''-'' @ pad0 8 (show_hex (unat (end_addr r))) @
     '' '' @ perm_string r @ '' '' @ pad0 8 (show_hex (unat (r_offset r))) @
     '' '' @ pad0 2 (show_hex (unat (dev_major r))) @ '':'' @ pad0 2 (show_hex (unat (dev_minor r))) @
     '' '' @ show_dec (unat (inode r)) @ '' '' @ replicate pad CHR '' ''"

definition maps_line :: "nat \<Rightarrow> MemRegion \<Rightarrow> string" where
  "maps_line pad r = maps_front pad r @ r_name r"

definition name_ok :: "string \<Rightarrow> bool" where
  "name_ok s \<longleftrightarrow> NUL \<notin> set s \<and> NL \<notin> set s \<and> (s = [] \<or> \<not> isspace (hd s))"

lemma isdigit_0: "isdigit 16 CHR ''0''" "digit_val 16 CHR ''0'' = Some 0"
  by (simp_all add: isdigit_def digit_val_def)

lemma scan_digits_pad: "scan_digits 16 0 (replicate k CHR ''0'' @ s) = scan_digits 16 0 s"
  by (induction k) (simp_all add: isdigit_0)

lemma pad0_digits: "list_all (isdigit 16) (pad0 w (show_hex n))"
  using show_base_digits [of 16 n] by (auto simp: pad0_def list_all_iff isdigit_0)

lemma pad0_nonempty: "pad0 w (show_hex n) \<noteq> []"
  by (simp add: pad0_def)

lemma digits_no_prefix:
  assumes "s \<noteq> []" "list_all (isdigit 16) s" "r = [] \<or> hd r \<noteq> CHR ''x'' \<and> hd r \<noteq> CHR ''X''"
  shows "scan_prefix 16 (s @ r) = (False, s @ r)"
proof (cases s rule: remdups_adj.cases)
  case 1
  then show ?thesis using assms(1) by simp
next
  case (2 c)
  then show ?thesis using assms(3) by (cases r) (auto simp: scan_prefix_def)
next
  case (3 c d cs)
  with assms isdigit_not_x [of 16 d] show ?thesis by (simp add: scan_prefix_def)
qed

lemma scan_ulong_pad:
  assumes "stops 16 r" "r = [] \<or> hd r \<noteq> CHR ''x'' \<and> hd r \<noteq> CHR ''X''" "n < 2 ^ 64"
  shows "scan_ulong 16 (pad0 w (show_hex n) @ r) = Some (n, r)"
proof -
  let ?p = "pad0 w (show_hex n)"
  obtain c cs where c: "?p = c # cs" "isdigit 16 c"
    using pad0_digits [of w n] pad0_nonempty [of w n] by (cases ?p) auto
  have "dropWhile isspace (?p @ r) = ?p @ r" using c isdigit_not_space by simp
  moreover have "sign_of (?p @ r) = (False, ?p @ r)" using c sign_of_digit by simp
  moreover have "\<not> stops 16 (?p @ r)" using c by (simp add: stops_def)
  moreover have "scan_digits 16 0 (?p @ r) = (n, r)"
    using scan_digits_show [of 16 r n] assms(1) by (simp add: pad0_def scan_digits_pad)
  ultimately show ?thesis
    using assms(3) digits_no_prefix [OF pad0_nonempty pad0_digits assms(2), of w n]
    by (simp add: scan_ulong_def)
qed

lemma stops_sep [simp]:
  "stops 16 (CHR ''-'' # r)" "stops 16 (CHR '':'' # r)"
  by (auto simp: stops_def isdigit_def digit_val_def)

lemma isspace_simps [simp]: "isspace CHR '' ''" "\<not> isspace CHR ''-''" "\<not> isspace CHR '':''"
  by (auto simp: isspace_def)

lemma scan_lit_Cons [simp]: "scan_lit c (c # r) = Some r"
  by (simp add: scan_lit_def)

lemma perm_string_props:
  "length (perm_string r) = 4" "list_all (\<lambda>c. \<not> isspace c) (perm_string r)" "perm_ok (perm_string r)"
  by (auto simp: perm_string_def perm_ok_def isspace_def)

lemma perm_bits_string: "perms r \<le> 7 \<Longrightarrow> perm_bits (perm_string r) = perms r"
proof -
  assume "perms r \<le> 7"
  then have "unat (perms r) < 8" by (simp add: word_le_nat_alt)
  then have "unat (perms r) \<in> {0,1,2,3,4,5,6,7}" by auto
  then have "perms r \<in> {0,1,2,3,4,5,6,7}"
    by (auto simp: word_unat_eq_iff)
  then show ?thesis
    by (auto simp: perm_bits_def perm_string_def)
qed

lemma sscanf_maps_line:
  assumes "name_ok (r_name r)"
  shows "sscanf_maps (maps_line pad r) =
    Some \<lparr>mf_start = unat (start_addr r), mf_end = unat (end_addr r), mf_perm = perm_string r,
          mf_offset = unat (r_offset r), mf_major = unat (dev_major r), mf_minor = unat (dev_minor r),
          mf_inode = unat (inode r),
          mf_consumed = length (maps_line pad r) - length (r_name r)\<rparr>"
proof -
  have b64: "unat (w :: u64) < 18446744073709551616"
    and b32: "unat (v :: u32) < 18446744073709551616" for w v
    using unsigned_less [of w, where ?'a = nat] unsigned_less [of v, where ?'a = nat] by simp_all
  have name: "dropWhile isspace (replicate k CHR '' '' @ r_name r) = r_name r" for k
    using assms by (induction k) (auto simp: name_ok_def dropWhile_id)
  note perm = scan_str_word [OF perm_string_props(1) _ perm_string_props(2)]
  have ino: "scan_ulong 10 (show_dec n @ CHR '' '' # s) = Some (n, CHR '' '' # s)" if "n < 2 ^ 64" for n s
    using that by (intro scan_ulong_show) simp_all
  show ?thesis
    unfolding sscanf_maps_def maps_line_def maps_front_def
    by (simp add: scan_ulong_pad b64 b32 scan_str_space perm scan_ulong_space ino name)
qed

lemma map_name_line:
  assumes "name_ok (r_name r)"
  shows "map_name (maps_line pad r) (length (maps_line pad r) - length (r_name r)) = r_name r"
proof -
  have "maps_front pad r \<noteq> []" by (simp add: maps_front_def)
  then show ?thesis
    using assms by (auto simp: map_name_def maps_line_def name_ok_def isspace_def dropWhile_id)
qed

lemma pad0_printable:
  "NUL \<notin> set (pad0 w (show_hex n))" "NL \<notin> set (pad0 w (show_hex n))"
  using pad0_digits [of w n] isdigit_printable [of 16] by (auto simp: list_all_iff)

lemma show_dec_printable: "NUL \<notin> set (show_dec n)" "NL \<notin> set (show_dec n)"
  using show_base_digits [of 10 n] isdigit_printable [of 10] by (auto simp: list_all_iff)

lemma maps_line_printable:
  assumes "name_ok (r_name r)"
  shows "NUL \<notin> set (maps_line pad r)" "NL \<notin> set (maps_line pad r)" "maps_line pad r \<noteq> []"
  using assms
  by (simp_all add: maps_line_def maps_front_def pad0_printable show_dec_printable perm_string_def name_ok_def)

lemma parse_maps_line_render:
  assumes "region_ok r" "name_ok (r_name r)" "prev \<le> start_addr r"
  shows "parse_maps_line (maps_line pad r) prev = Inr r"
proof -
  have "perm_string r ! 3 = (if is_private r then CHR ''p'' else CHR ''s'')"
    by (simp add: perm_string_def)
  with assms show ?thesis
    by (auto simp: parse_maps_line_def maps_line_printable sscanf_maps_line map_name_line
        perm_string_props perm_bits_string region_ok_def Let_def)
qed

text \<open>
  The whole text. The padding is each line's own: a line without a name has none, and one with
  a name as many blanks as \<open>pad\<close> gives for its region. The kernel's own choice,
  \<open>column_pad\<close>, makes the name start in column 73, or one blank further than the front of a
  line that is longer than that.
\<close>

definition column_pad :: "MemRegion \<Rightarrow> nat" where
  "column_pad r = (72 - length (maps_front 0 r)) + 1"

definition kernel_line :: "(MemRegion \<Rightarrow> nat) \<Rightarrow> MemRegion \<Rightarrow> string" where
  "kernel_line pad r = maps_line (if r_name r = [] then 0 else pad r) r"

definition maps_text :: "(MemRegion \<Rightarrow> nat) \<Rightarrow> MemRegion list \<Rightarrow> string" where
  "maps_text pad rs = concat (map (\<lambda>l. l @ [NL]) (map (kernel_line pad) rs))"

lemma maps_loop_render:
  assumes "regions_ordered rs" "\<forall>r \<in> set rs. name_ok (r_name r) \<and> prev \<le> start_addr r"
    and "length acc + length rs \<le> MAX_REGIONS"
  shows "maps_loop (map (kernel_line pad) rs) prev acc = Inr (acc @ rs)"
  using assms
proof (induction rs arbitrary: prev acc)
  case Nil
  then show ?case by simp
next
  case (Cons r rs)
  have "maps_loop (map (kernel_line pad) rs) (end_addr r) (acc @ [r]) = Inr ((acc @ [r]) @ rs)"
    using Cons.prems by (intro Cons.IH) (auto simp: regions_ordered_def)
  moreover have "parse_maps_line (kernel_line pad r) prev = Inr r"
    using Cons.prems by (simp add: kernel_line_def parse_maps_line_render regions_ordered_def)
  ultimately show ?case using Cons.prems by simp
qed

lemma maps_parse_render:
  assumes "wf_ProcFile p" "f_data p = maps_text pad rs" "length (f_data p) \<le> INT_MAX"
    and "regions_ordered rs" "\<forall>r \<in> set rs. name_ok (r_name r)" "length rs \<le> MAX_REGIONS"
  shows "ProcMaps_Parse (Some p) = Inr rs"
proof -
  have "text_lines (maps_text pad rs) = map (kernel_line pad) rs"
    unfolding maps_text_def
    by (rule text_lines_concat) (use assms(5) maps_line_printable in \<open>auto simp: kernel_line_def\<close>)
  then have "file_lines (Some p) 0 = map (kernel_line pad) rs"
    by (simp add: file_lines_text [OF assms(1,3)] assms(2))
  then show ?thesis
    using maps_loop_render [of rs 0 "[]" pad] assms(4-6) by (simp add: ProcMaps_Parse_def)
qed

section \<open>Properties of the cmdline decoder\<close>

lemma argv_loop_args:
  assumes "\<forall>a \<in> set args. NUL \<notin> set a"
  shows "argv_loop (concat (map (\<lambda>a. a @ [NUL]) args)) argv =
    (let k = MAX_ARGV - length argv
     in (argv @ take k args, concat (map (\<lambda>a. a @ [NUL]) (drop k args))))"
  using assms
proof (induction args arbitrary: argv)
  case Nil
  then show ?case by (simp add: argv_loop.simps)
next
  case (Cons a args)
  show ?case
  proof (cases "length argv \<ge> MAX_ARGV")
    case True
    then show ?thesis by (simp add: argv_loop.simps [of _ argv])
  next
    case False
    then obtain k where k: "MAX_ARGV - length argv = Suc k" "MAX_ARGV - length (argv @ [a]) = k"
      by (cases "MAX_ARGV - length argv") auto
    have "argv_loop (concat (map (\<lambda>a. a @ [NUL]) (a # args))) argv =
          argv_loop (concat (map (\<lambda>a. a @ [NUL]) args)) (argv @ [a])"
      using False Cons.prems by (simp add: argv_loop.simps [of _ argv])
    then show ?thesis
      using Cons.IH [of "argv @ [a]"] Cons.prems k by simp
  qed
qed

lemma concat_NUL_Nil: "concat (map (\<lambda>a. a @ [NUL]) args) = [] \<longleftrightarrow> args = []"
  by (cases args) auto

lemma cmdline_parse_args:
  assumes "wf_ProcFile p" "f_data p = concat (map (\<lambda>a. a @ [NUL]) args)"
    and "\<forall>a \<in> set args. NUL \<notin> set a"
  shows "ProcCmdline_Parse (Some p) = (if length args \<le> MAX_ARGV then Inr args else Inl EFAIL)"
  using argv_loop_args [OF assms(3), of "[]"]
  by (simp add: ProcCmdline_Parse_def pf_text_wf [OF assms(1)] assms(2) concat_NUL_Nil)

section \<open>Properties of the auxv decoder\<close>

definition auxv_entry :: "u64 \<times> u64 \<Rightarrow> bytes" where
  "auxv_entry e = put64 (fst e) @ put64 (snd e)"

definition entry_ok :: "u64 \<times> u64 \<Rightarrow> bool" where
  "entry_ok e \<longleftrightarrow>
     (fst e \<in> {AT_UID, AT_GID, AT_EUID, AT_EGID} \<longrightarrow> id_ok (snd e)) \<and>
     (fst e = AT_PAGESZ \<longrightarrow> page_size_ok (snd e))"

definition auxv_last :: "u64 \<Rightarrow> (u64 \<times> u64) list \<Rightarrow> u64 \<Rightarrow> u64" where
  "auxv_last dflt kv key = (case map_of (rev kv) key of None \<Rightarrow> dflt | Some v \<Rightarrow> v)"

definition auxv_set :: "ProcAuxv \<Rightarrow> (u64 \<times> u64) \<Rightarrow> ProcAuxv" where
  "auxv_set a e =
     (if fst e = AT_UID then a\<lparr>av_uid := ucast (snd e)\<rparr>
      else if fst e = AT_GID then a\<lparr>av_gid := ucast (snd e)\<rparr>
      else if fst e = AT_EUID then a\<lparr>av_euid := ucast (snd e)\<rparr>
      else if fst e = AT_EGID then a\<lparr>av_egid := ucast (snd e)\<rparr>
      else if fst e = AT_PAGESZ then a\<lparr>av_page_size := snd e\<rparr> else a)"

lemma auxv_loop_entry:
  assumes "fst e \<noteq> AT_NULL"
  shows "auxv_loop (auxv_entry e @ bs) a =
           (if entry_ok e then auxv_loop bs (auxv_set a e) else Inl EFAIL)"
proof -
  have "take 8 (auxv_entry e @ bs) = put64 (fst e)" "take 8 (drop 8 (auxv_entry e @ bs)) = put64 (snd e)"
    "drop 16 (auxv_entry e @ bs) = bs" "\<not> length (auxv_entry e @ bs) < 16"
    by (simp_all add: auxv_entry_def)
  with assms show ?thesis
    by (subst auxv_loop.simps) (simp add: entry_ok_def auxv_set_def)
qed

lemma auxv_loop_null:
  "auxv_loop (auxv_entry (AT_NULL, v) @ bs) a = (if bs = [] then Inr a else Inl EFAIL)"
  by (subst auxv_loop.simps) (simp add: auxv_entry_def)

lemma auxv_loop_entries:
  assumes "\<forall>e \<in> set kv. fst e \<noteq> AT_NULL"
  shows "auxv_loop (concat (map auxv_entry kv) @ bs) a =
           (if list_all entry_ok kv then auxv_loop bs (foldl auxv_set a kv) else Inl EFAIL)"
  using assms by (induction kv arbitrary: a) (simp_all add: auxv_loop_entry)

text \<open>The values the fold leaves are those of the last entry of each type.\<close>

lemma foldl_auxv_set:
  "foldl auxv_set a kv =
     \<lparr>av_uid = (case map_of (rev kv) AT_UID of None \<Rightarrow> av_uid a | Some v \<Rightarrow> ucast v),
      av_gid = (case map_of (rev kv) AT_GID of None \<Rightarrow> av_gid a | Some v \<Rightarrow> ucast v),
      av_euid = (case map_of (rev kv) AT_EUID of None \<Rightarrow> av_euid a | Some v \<Rightarrow> ucast v),
      av_egid = (case map_of (rev kv) AT_EGID of None \<Rightarrow> av_egid a | Some v \<Rightarrow> ucast v),
      av_page_size = (case map_of (rev kv) AT_PAGESZ of None \<Rightarrow> av_page_size a | Some v \<Rightarrow> v)\<rparr>"
proof (induction kv rule: rev_induct)
  case Nil
  show ?case by simp
next
  case (snoc e kv)
  then show ?case by (cases e) (auto simp: auxv_set_def)
qed

definition auxv_of :: "(u64 \<times> u64) list \<Rightarrow> ProcAuxv" where
  "auxv_of kv =
     \<lparr>av_uid = ucast (auxv_last 0 kv AT_UID), av_gid = ucast (auxv_last 0 kv AT_GID),
      av_euid = ucast (auxv_last 0 kv AT_EUID), av_egid = ucast (auxv_last 0 kv AT_EGID),
      av_page_size = auxv_last 0 kv AT_PAGESZ\<rparr>"

lemma length_auxv_entries: "length (concat (map auxv_entry kv)) = 16 * length kv"
  by (induction kv) (simp_all add: auxv_entry_def)

lemma auxv_parse_entries:
  assumes "wf_ProcFile p"
    and "f_data p = concat (map auxv_entry kv) @ auxv_entry (AT_NULL, v) @ trailing"
    and "\<forall>e \<in> set kv. fst e \<noteq> AT_NULL"
  shows "ProcAuxv_Parse (Some p) =
           (if trailing = [] \<and> list_all entry_ok kv then Inr (auxv_of kv) else Inl EFAIL)"
proof -
  have len: "unat (f_size p) = 16 * length kv + 16 + length trailing"
    using assms(1,2) by (simp add: wf_ProcFile_def length_auxv_entries) (simp add: auxv_entry_def)
  have loop: "auxv_loop (f_data p) auxv_init =
      (if trailing = [] \<and> list_all entry_ok kv then Inr (foldl auxv_set auxv_init kv) else Inl EFAIL)"
    using auxv_loop_null [of v "[]"]
    by (simp add: assms(2) auxv_loop_entries [OF assms(3)] auxv_loop_null)
  have "foldl auxv_set auxv_init kv = auxv_of kv"
    by (simp add: foldl_auxv_set auxv_of_def auxv_last_def auxv_init_def split: option.splits)
  then show ?thesis
    using len loop by (auto simp: ProcAuxv_Parse_def pf_text_wf [OF assms(1)])
qed

section \<open>Properties of the status decoder\<close>

definition id_line :: "string \<Rightarrow> u32 list \<Rightarrow> string" where
  "id_line key ids = key @ concat (map (\<lambda>v. TAB # show_dec (unat v)) ids)"

lemma stops_TAB [simp]: "stops 10 (TAB # r)"
  by (simp add: stops_def isdigit_def digit_val_def)

lemma parse_ids_show:
  "parse_ids (length ids) (concat (map (\<lambda>v. TAB # show_dec (unat v)) ids)) = Some (ids, [])"
proof (induction ids)
  case Nil
  show ?case by simp
next
  case (Cons v ids)
  let ?rest = "concat (map (\<lambda>v. TAB # show_dec (unat v)) ids)"
  have stop: "stops 10 ?rest" by (cases ids) simp_all
  obtain c cs where c: "show_dec (unat v) = c # cs" "isdigit 10 c"
    using show_base_hd [of 10 "unat v"] by (cases "show_dec (unat v)") auto
  then have drop: "dropWhile blank (show_dec (unat v) @ ?rest) = show_dec (unat v) @ ?rest"
    using isdigit_printable [of 10 c] by simp
  have nstop: "\<not> stops 10 (show_dec (unat v) @ ?rest)" using c by (simp add: stops_def)
  have b: "unat v < 4294967296" using unsigned_less [of v, where ?'a = nat] by simp
  show ?case
    using Cons.IH strtoul_show [OF stop, of "unat v"] b drop nstop by simp
qed

lemma parse_id_line_show:
  "length key = 4 \<Longrightarrow> length ids = 4 \<Longrightarrow> parse_id_line (id_line key ids) = Some (ids ! 0)"
  using parse_ids_show [of ids] by (simp add: parse_id_line_def id_line_def)

definition plain_line :: "string \<Rightarrow> bool" where
  "plain_line l \<longleftrightarrow> take 4 l \<noteq> ''Uid:'' \<and> take 4 l \<noteq> ''Gid:''"

lemma status_loop_plain:
  "list_all plain_line ls \<Longrightarrow> status_loop (ls @ ms) u g = status_loop ms u g"
  by (induction ls) (auto simp: plain_line_def)

lemma NUL_concat_lines:
  "(\<And>l. l \<in> set ls \<Longrightarrow> NUL \<notin> set l) \<Longrightarrow> NUL \<notin> set (concat (map (\<lambda>l. l @ [NL]) ls))"
  by (induction ls) auto

lemma status_parse_lines:
  assumes "wf_ProcFile p" "length (f_data p) \<le> INT_MAX"
    and "f_data p = concat (map (\<lambda>l. l @ [NL]) (as @ [id_line ''Uid:'' uids] @ bs @ [id_line ''Gid:'' gids] @ cs))"
    and "list_all plain_line (as @ bs @ cs)" "length uids = 4" "length gids = 4"
    and "\<forall>l \<in> set (as @ bs @ cs). l \<noteq> [] \<and> NL \<notin> set l \<and> NUL \<notin> set l"
  shows "ProcStatus_Parse (Some p) = Inr \<lparr>ps_uid = uids ! 0, ps_gid = gids ! 0\<rparr>"
proof -
  let ?ls = "as @ [id_line ''Uid:'' uids] @ bs @ [id_line ''Gid:'' gids] @ cs"
  have printable: "l \<noteq> [] \<and> NL \<notin> set l \<and> NUL \<notin> set l" if "l \<in> set ?ls" for l
    using that assms(7) by (auto simp: id_line_def show_dec_printable split: if_splits)
  have lines: "file_lines (Some p) 0 = ?ls"
  proof -
    have "file_lines (Some p) 0 = text_lines (f_data p)"
      by (simp add: file_lines_text [OF assms(1,2)])
    also have "\<dots> = ?ls"
      unfolding assms(3) by (rule text_lines_concat) (use printable in blast)
    finally show ?thesis .
  qed
  have nonul: "NUL \<notin> set (pf_text p)"
    unfolding pf_text_wf [OF assms(1)] assms(3)
    by (rule NUL_concat_lines) (use printable in blast)
  have "f_data p \<noteq> []" by (simp add: assms(3))
  then have "f_size p \<noteq> 0" using assms(1) by (auto simp: wf_ProcFile_def)
  moreover have "status_loop ?ls None None = Inr (Some (uids ! 0), Some (gids ! 0))"
    using assms(4) parse_id_line_show [of "''Uid:''" uids] parse_id_line_show [of "''Gid:''" gids] assms(5,6)
      status_loop_plain [of cs "[]"]
    by (simp add: status_loop_plain) (simp add: id_line_def)
  ultimately show ?thesis
    using nonul by (simp only: ProcStatus_Parse_def lines) simp
qed

end
