(* ===== verification/StatDecode.thy ===== *)
theory StatDecode
  imports ProcFs
begin

text \<open>
  \<^verbatim>\<open>ProcStat::Parse\<close> of \<^verbatim>\<open>src/proc.cc\<close>: the record of \<^verbatim>\<open>/proc/<pid>/stat\<close>, whose second
  field is the task name in parentheses and may itself hold blanks, parentheses and
  newlines. The property is that a record printed the way the kernel prints it is read
  back field by field, whatever the name. \<open>host_page\<close> is \<^verbatim>\<open>sysconf(_SC_PAGESIZE)\<close>.
\<close>

record ProcStat =
  st_state :: nat          \<comment> \<open>the index in the kernel's \<^verbatim>\<open>task_state_array\<close>\<close>
  st_sname :: char
  st_comm :: string        \<comment> \<open>\<^verbatim>\<open>char comm[16]\<close> without its NUL\<close>
  st_pid :: int
  st_ppid :: int
  st_pgid :: int
  st_sid :: int
  st_stime :: nat
  st_utime :: nat
  st_cstime :: nat
  st_cutime :: nat
  st_vsize :: nat
  st_rss :: nat
  st_num_threads :: int
  st_flags :: nat
  st_nice :: int
  st_pending :: nat
  st_blocked :: nat

definition state_code :: "char \<Rightarrow> nat option" where
  "state_code c =
     (if c = CHR ''R'' then Some 0 else if c = CHR ''S'' then Some 1
      else if c = CHR ''D'' then Some 2 else if c = CHR ''T'' then Some 3
      else if c = CHR ''t'' then Some 4 else if c = CHR ''X'' then Some 5
      else if c = CHR ''Z'' then Some 6 else if c = CHR ''P'' then Some 7
      else if c = CHR ''I'' then Some 8
      else if c = CHR ''x'' then Some 5 else if c = CHR ''K'' then Some 2
      else if c = CHR ''W'' then Some 0 else None)"

text \<open>
  The text before the first parenthesis, the name, and the text after the last one:
  \<^verbatim>\<open>strchr(buf, '(')\<close> and \<^verbatim>\<open>strrchr(open, ')')\<close>.
\<close>

definition split_stat :: "string \<Rightarrow> (string \<times> string \<times> string) option" where
  "split_stat buf =
     (case split_first CHR ''('' buf of
        None \<Rightarrow> None
      | Some (before, from_open) \<Rightarrow>
          (case split_last CHR '')'' from_open of
             None \<Rightarrow> None
           | Some (inner, after) \<Rightarrow> Some (before, inner, after)))"

abbreviation (input) COMM_SIZE :: nat where "COMM_SIZE \<equiv> 16"

text \<open>
  \<^verbatim>\<open>array\<close> after tokenising: the pid, a null for the name, and at most 61 fields
  (\<^verbatim>\<open>idx\<close> from 2 while below \<^verbatim>\<open>ARRAYSIZE(array) - 1\<close>); with it \<^verbatim>\<open>comm\<close>.
\<close>

definition stat_fields :: "string \<Rightarrow> err + string \<times> string option list" where
  "stat_fields buf =
     (case split_stat buf of
        None \<Rightarrow> Inl EFAIL
      | Some (before, inner, after) \<Rightarrow>
          let line = takeWhile (\<lambda>c. c \<noteq> NL) after
          in if length line < length after \<and> Suc (length line) \<noteq> length after then Inl EFAIL
             else let comm = take (COMM_SIZE - 1) inner
                  in (case tokens before of
                        [pid] \<Rightarrow> Inr (comm, Some pid # None # map Some (take 61 (tokens after)))
                      | _ \<Rightarrow> Inl EFAIL))"

definition fld :: "string option list \<Rightarrow> nat \<Rightarrow> string" where
  "fld array idx =
     (if idx < length array then (case array ! idx of None \<Rightarrow> ''0'' | Some s \<Rightarrow> s) else ''0'')"

definition parse_signed :: "string option list \<Rightarrow> nat \<Rightarrow> err + int" where
  "parse_signed array idx =
     (let r = strtol 10 (fld array idx)
      in if \<not> sr_conv r \<or> sr_end r \<noteq> [] \<or> sr_range r then Inl EFAIL else Inr (sr_value r))"

definition parse_unsigned :: "string option list \<Rightarrow> nat \<Rightarrow> err + nat" where
  "parse_unsigned array idx =
     (if take 1 (fld array idx) = ''-'' then Inl EFAIL
      else let r = strtoul 10 (fld array idx)
           in if \<not> sr_conv r \<or> sr_end r \<noteq> [] \<or> sr_range r then Inl EFAIL else Inr (sr_value r))"

definition int_max :: int where "int_max = 2147483647"

text \<open>From the field array to the record: the state, the numbers, their ranges, the page conversion.\<close>

definition stat_values :: "int \<Rightarrow> string \<Rightarrow> string option list \<Rightarrow> err + ProcStat" where
  "stat_values host_page comm array =
     (if length array \<le> 31 then Inl EFAIL
      else if length (fld array 2) \<noteq> 1 then Inl EFAIL
      else case state_code (hd (fld array 2)) of
        None \<Rightarrow> Inl EFAIL
      | Some st \<Rightarrow>
          ebind (parse_signed array 0) (\<lambda>pid.
          ebind (parse_signed array 3) (\<lambda>ppid.
          ebind (parse_signed array 4) (\<lambda>pgid.
          ebind (parse_signed array 5) (\<lambda>sid.
          ebind (parse_unsigned array 8) (\<lambda>flags.
          ebind (parse_unsigned array 13) (\<lambda>utime.
          ebind (parse_unsigned array 14) (\<lambda>stime.
          ebind (parse_unsigned array 15) (\<lambda>cutime.
          ebind (parse_unsigned array 16) (\<lambda>cstime.
          ebind (parse_signed array 18) (\<lambda>nice.
          ebind (parse_signed array 19) (\<lambda>num_threads.
          ebind (parse_unsigned array 22) (\<lambda>vsize.
          ebind (parse_signed array 23) (\<lambda>rss.
          ebind (parse_unsigned array 30) (\<lambda>pending.
          ebind (parse_unsigned array 31) (\<lambda>blocked.
            if pid \<le> 0 \<or> pid > int_max \<or> ppid < 0 \<or> ppid > int_max \<or> pgid < 0 \<or>
               pgid > int_max \<or> sid < 0 \<or> sid > int_max \<or> nice < -20 \<or> nice > 19 \<or>
               num_threads \<le> 0 \<or> num_threads > int_max \<or> rss < 0 then Inl EFAIL
            else if host_page \<le> 0 \<or> rss > (2 ^ 64 - 1) div host_page then Inl EFAIL
            else Inr \<lparr>st_state = st, st_sname = hd (fld array 2), st_comm = comm,
                      st_pid = pid, st_ppid = ppid, st_pgid = pgid, st_sid = sid,
                      st_stime = stime, st_utime = utime, st_cstime = cstime,
                      st_cutime = cutime, st_vsize = vsize div 1024,
                      st_rss = nat rss * nat host_page div 1024,
                      st_num_threads = num_threads, st_flags = flags, st_nice = nice,
                      st_pending = pending, st_blocked = blocked\<rparr>))))))))))))))))"

definition ProcStat_Parse :: "int \<Rightarrow> ProcFile option \<Rightarrow> err + ProcStat" where
  "ProcStat_Parse host_page pf =
     (case pf of
        None \<Rightarrow> Inl EFAIL
      | Some p \<Rightarrow>
          if f_size p = 0 \<or> unat (f_size p) \<ge> 1024 then Inl EFAIL
          else if NUL \<in> set (pf_text p) then Inl EFAIL
          else case stat_fields (pf_text p) of
            Inl e \<Rightarrow> Inl e
          | Inr (comm, array) \<Rightarrow> stat_values host_page comm array)"

section \<open>What a parsed record satisfies\<close>

definition stat_ok :: "ProcStat \<Rightarrow> bool" where
  "stat_ok s \<longleftrightarrow> 0 < st_pid s \<and> st_pid s \<le> int_max \<and> 0 \<le> st_ppid s \<and> st_ppid s \<le> int_max \<and>
     0 \<le> st_pgid s \<and> st_pgid s \<le> int_max \<and> 0 \<le> st_sid s \<and> st_sid s \<le> int_max \<and>
     -20 \<le> st_nice s \<and> st_nice s \<le> 19 \<and> 0 < st_num_threads s \<and> st_num_threads s \<le> int_max \<and>
     state_code (st_sname s) = Some (st_state s) \<and> length (st_comm s) < COMM_SIZE \<and>
     st_utime s < 2 ^ 64 \<and> st_stime s < 2 ^ 64 \<and> st_cutime s < 2 ^ 64 \<and> st_cstime s < 2 ^ 64 \<and>
     st_flags s < 2 ^ 64 \<and> st_pending s < 2 ^ 64 \<and> st_blocked s < 2 ^ 64 \<and>
     st_rss s < 2 ^ 64"

lemma parse_unsigned_less: "parse_unsigned array i = Inr v \<Longrightarrow> v < 2 ^ 64"
  using strtoull_value_less [of 10 "fld array i"]
  by (auto simp: parse_unsigned_def Let_def split: if_splits)

lemma stat_fields_comm: "stat_fields buf = Inr (comm, array) \<Longrightarrow> length comm < COMM_SIZE"
  by (auto simp: stat_fields_def Let_def split: option.splits if_splits list.splits)

lemma rss_bytes_less:
  assumes "0 < p" "0 \<le> r" "r \<le> (2 ^ 64 - 1) div p"
  shows "nat r * nat p div 1024 < 2 ^ 64"
proof -
  have "r * p \<le> (2 ^ 64 - 1) div p * p"
    using assms by (simp only: mult_right_mono order_less_imp_le)
  also have "\<dots> \<le> 2 ^ 64 - 1"
    using assms(1) by (simp add: minus_mod_eq_div_mult [symmetric])
  finally have "r * p \<le> 2 ^ 64 - 1" .
  then have "nat r * nat p < 2 ^ 64"
    using assms by (simp add: nat_mult_distrib [symmetric] nat_less_iff)
  then show ?thesis by simp
qed

lemma stat_values_ok:
  assumes "stat_values host_page comm array = Inr s" "length comm < COMM_SIZE"
  shows "stat_ok s"
  using assms rss_bytes_less [of host_page]
  by (auto simp: stat_values_def stat_ok_def ebind_eq_Inr dest: parse_unsigned_less
      split: if_splits option.splits)

lemma stat_parse_ok: "ProcStat_Parse host_page pf = Inr s \<Longrightarrow> stat_ok s"
  by (auto simp: ProcStat_Parse_def dest: stat_fields_comm intro: stat_values_ok
      split: option.splits if_splits sum.splits)

section \<open>Reading back a record the kernel printed\<close>

definition field_ok :: "string \<Rightarrow> bool" where
  "field_ok t \<longleftrightarrow> t \<noteq> [] \<and> (\<forall>c \<in> set t. c \<noteq> CHR '' '' \<and> c \<noteq> CHR '')'' \<and> c \<noteq> NL \<and> c \<noteq> NUL)"

text \<open>
  The fields from the state on, as \<^verbatim>\<open>do_task_stat\<close> prints them; \<open>oth k\<close> is field number
  \<open>k + 1\<close> of those the program skips, \<open>vs\<close> the size in bytes, \<open>pages\<close> the resident pages.
\<close>

definition kernel_fields :: "ProcStat \<Rightarrow> nat \<Rightarrow> nat \<Rightarrow> (nat \<Rightarrow> string) \<Rightarrow> string list" where
  "kernel_fields s vs pages oth =
     [[st_sname s], show_int (st_ppid s), show_int (st_pgid s), show_int (st_sid s), oth 6, oth 7,
      show_dec (st_flags s), oth 9, oth 10, oth 11, oth 12, show_dec (st_utime s),
      show_dec (st_stime s), show_dec (st_cutime s), show_dec (st_cstime s), oth 17,
      show_int (st_nice s), show_int (st_num_threads s), oth 20, oth 21, show_dec vs,
      show_int (int pages), oth 24, oth 25, oth 26, oth 27, oth 28, oth 29,
      show_dec (st_pending s), show_dec (st_blocked s)]"

definition stat_text :: "int \<Rightarrow> string \<Rightarrow> string list \<Rightarrow> string" where
  "stat_text pid comm fs =
     show_int pid @ '' ('' @ comm @ '') '' @ unwords fs @ [NL]"

lemma field_ok_show: "field_ok (show_dec n)" "field_ok (show_int z)"
proof -
  show dec: "field_ok (show_dec n)" for n
    unfolding field_ok_def using isdigit_printable show_dec_chars by fastforce
  show "field_ok (show_int z)"
    using dec by (auto simp: show_int_def field_ok_def)
qed

lemma show_int_no_paren: "CHR ''('' \<notin> set (show_int z)"
  by (auto simp: show_int_def dest!: show_dec_chars isdigit_printable)

lemma unwords_snoc: "unwords (ts @ [l]) @ x = unwords (ts @ [l @ x])"
proof (induction ts rule: unwords.induct)
  case (2 t)
  then show ?case by (cases l) simp_all
qed simp_all

lemma set_unwords: "set (unwords ts) \<subseteq> insert CHR '' '' (\<Union> (set ` set ts))"
  by (induction ts rule: unwords.induct) auto

lemma unwords_avoids:
  "list_all field_ok ts \<Longrightarrow> NL \<notin> set (unwords ts) \<and> CHR '')'' \<notin> set (unwords ts) \<and> NUL \<notin> set (unwords ts)"
  using set_unwords [of ts] by (fastforce simp: list_all_iff field_ok_def)

lemma field_ok_token: "field_ok t \<Longrightarrow> t \<noteq> [] \<and> CHR '' '' \<notin> set t"
  by (auto simp: field_ok_def)

lemma stat_fields_text:
  assumes "list_all field_ok (ts @ [l])" "length comm < COMM_SIZE"
  shows "stat_fields (stat_text pid comm (ts @ [l])) =
           Inr (comm, Some (show_int pid) # None # map Some (take 61 (ts @ [l @ [NL]])))"
proof -
  let ?after = "'' '' @ unwords (ts @ [l]) @ [NL]"
  have av: "NL \<notin> set (unwords (ts @ [l]))" "CHR '')'' \<notin> set (unwords (ts @ [l]))"
    using unwords_avoids [OF assms(1)] by auto
  have eq: "stat_text pid comm (ts @ [l]) = (show_int pid @ '' '') @ CHR ''('' # (comm @ CHR '')'' # ?after)"
    by (simp add: stat_text_def)
  have "split_first CHR ''('' (stat_text pid comm (ts @ [l])) = Some (show_int pid @ '' '', comm @ CHR '')'' # ?after)"
    unfolding eq by (rule split_first_append) (simp add: show_int_no_paren)
  moreover have "split_last CHR '')'' (comm @ CHR '')'' # ?after) = Some (comm, ?after)"
    by (rule split_last_append) (use av in simp)
  ultimately have split: "split_stat (stat_text pid comm (ts @ [l])) = Some (show_int pid @ '' '', comm, ?after)"
    by (simp add: split_stat_def)
  have line: "takeWhile (\<lambda>c. c \<noteq> NL) (unwords (ts @ [l]) @ [NL]) = unwords (ts @ [l])"
    by (rule takeWhile_neq_append) (use av in simp)
  have "tokens (show_int pid @ '' '') = [show_int pid]"
    using field_ok_show(2) [of pid] by (subst tokens_token) (auto simp: field_ok_def)
  moreover have "tokens ?after = ts @ [l @ [NL]]"
  proof -
    have "t \<noteq> [] \<and> CHR '' '' \<notin> set t" if "t \<in> set (ts @ [l @ [NL]])" for t
    proof -
      from that consider "t \<in> set (ts @ [l])" | "t = l @ [NL]" by auto
      then show ?thesis
        using assms(1) by cases (auto simp: list_all_iff dest: field_ok_token)
    qed
    then have "tokens (unwords (ts @ [l @ [NL]])) = ts @ [l @ [NL]]" by (rule tokens_unwords)
    then show ?thesis by (simp add: unwords_snoc)
  qed
  ultimately show ?thesis
    using assms(2) by (simp add: stat_fields_def split line)
qed

lemma parse_signed_show:
  "fld array i = show_int z \<Longrightarrow> - (2 ^ 63) \<le> z \<Longrightarrow> z \<le> 2 ^ 63 - 1 \<Longrightarrow> parse_signed array i = Inr z"
  using strtol_show [of "[]" z] by (simp add: parse_signed_def)

lemma show_dec_not_minus: "take 1 (show_dec n) \<noteq> ''-''"
  using show_base_hd [of 10 n] isdigit_not_sign(1) [of 10] by (cases "show_dec n") auto

lemma parse_unsigned_show:
  "fld array i = show_dec n \<Longrightarrow> n < 2 ^ 64 \<Longrightarrow> parse_unsigned array i = Inr n"
  using strtoul_show [of "[]" n] show_dec_not_minus [of n] by (simp add: parse_unsigned_def)

lemma stat_values_kernel:
  assumes "stat_ok s" "vs < 2 ^ 64" "int pages \<le> 2 ^ 63 - 1"
    and "0 < host_page" "int pages \<le> (2 ^ 64 - 1) div host_page"
    and array: "array = Some (show_int (st_pid s)) # None # map Some (kernel_fields s vs pages oth @ rest)"
  shows "stat_values host_page (st_comm s) array =
           Inr (s\<lparr>st_vsize := vs div 1024, st_rss := pages * nat host_page div 1024\<rparr>)"
proof -
  note fields = array kernel_fields_def fld_def
  have i: "int_max \<le> 2 ^ 63 - 1" by (simp add: int_max_def)
  have signed: "parse_signed array 0 = Inr (st_pid s)" "parse_signed array 3 = Inr (st_ppid s)"
    "parse_signed array 4 = Inr (st_pgid s)" "parse_signed array 5 = Inr (st_sid s)"
    "parse_signed array 18 = Inr (st_nice s)" "parse_signed array 19 = Inr (st_num_threads s)"
    "parse_signed array 23 = Inr (int pages)"
    using assms(1,3) i by (auto intro!: parse_signed_show simp: fields stat_ok_def)
  have unsigned: "parse_unsigned array 8 = Inr (st_flags s)" "parse_unsigned array 13 = Inr (st_utime s)"
    "parse_unsigned array 14 = Inr (st_stime s)" "parse_unsigned array 15 = Inr (st_cutime s)"
    "parse_unsigned array 16 = Inr (st_cstime s)" "parse_unsigned array 22 = Inr vs"
    "parse_unsigned array 30 = Inr (st_pending s)" "parse_unsigned array 31 = Inr (st_blocked s)"
    using assms(1,2) by (auto intro!: parse_unsigned_show simp: fields stat_ok_def)
  have "fld array 2 = [st_sname s]" "\<not> length array \<le> 31" by (simp_all add: fields)
  then show ?thesis
    using assms(1,4,5) by (cases s) (auto simp: stat_values_def signed unsigned stat_ok_def)
qed

lemma stat_parse_kernel:
  assumes "wf_ProcFile p" "length (f_data p) < 1024"
    and "f_data p = stat_text (st_pid s) (st_comm s) (kernel_fields s vs pages oth @ rest)"
    and "stat_ok s" "NUL \<notin> set (st_comm s)" "\<forall>k. field_ok (oth k)" "list_all field_ok rest" "rest \<noteq> []"
    and "vs < 2 ^ 64" "int pages \<le> 2 ^ 63 - 1"
    and "0 < host_page" "int pages \<le> (2 ^ 64 - 1) div host_page"
  shows "ProcStat_Parse host_page (Some p) =
           Inr (s\<lparr>st_vsize := vs div 1024, st_rss := pages * nat host_page div 1024\<rparr>)"
proof -
  obtain ts l where rest: "rest = ts @ [l]" using assms(8) by (metis rev_exhaust)
  have sname: "field_ok [st_sname s]"
    using assms(4) by (auto simp: stat_ok_def field_ok_def state_code_def split: if_splits)
  have ok: "list_all field_ok ((kernel_fields s vs pages oth @ ts) @ [l])"
    using assms(6,7) sname by (simp add: rest kernel_fields_def field_ok_show)
  have "length (st_comm s) < COMM_SIZE" using assms(4) by (simp add: stat_ok_def)
  from stat_fields_text [OF ok this, of "st_pid s"]
  have sf: "stat_fields (f_data p) = Inr (st_comm s, Some (show_int (st_pid s)) # None #
      map Some (kernel_fields s vs pages oth @ take 31 (ts @ [l @ [NL]])))"
    by (simp add: assms(3) rest kernel_fields_def)
  have size: "unat (f_size p) = length (f_data p)" using assms(1) by (simp add: wf_ProcFile_def)
  moreover have "f_data p \<noteq> []" by (simp add: assms(3) stat_text_def)
  ultimately have "f_size p \<noteq> 0" by auto
  moreover have "NUL \<notin> set (pf_text p)"
    using unwords_avoids [OF ok] assms(5) field_ok_show(2) [of "st_pid s"]
    by (auto simp: pf_text_wf [OF assms(1)] assms(3) stat_text_def rest field_ok_def)
  moreover have "stat_values host_page (st_comm s) (Some (show_int (st_pid s)) # None #
      map Some (kernel_fields s vs pages oth @ take 31 (ts @ [l @ [NL]]))) =
      Inr (s\<lparr>st_vsize := vs div 1024, st_rss := pages * nat host_page div 1024\<rparr>)"
    by (rule stat_values_kernel [OF assms(4,9-12) refl])
  ultimately show ?thesis
    using assms(2) by (simp add: ProcStat_Parse_def pf_text_wf [OF assms(1)] sf size)
qed

end
