(* ===== verification/ProcProps.thy ===== *)
theory ProcProps
  imports ProcDecode StatDecode
begin

text \<open>
  The properties of the \<^verbatim>\<open>/proc\<close> readers and decoders, each with a run on concrete input.
\<close>

section \<open>Reading\<close>

lemma length_show_dec: "n < 10 ^ k \<Longrightarrow> 0 < k \<Longrightarrow> length (show_dec n) \<le> k"
proof (induction k arbitrary: n)
  case 0
  then show ?case by simp
next
  case (Suc k)
  show ?case
  proof (cases "n < 10")
    case True
    then show ?thesis by (subst show_base.simps) simp
  next
    case False
    then have "k \<noteq> 0" using Suc.prems by (cases k) auto
    moreover have "n div 10 < 10 ^ k" using Suc.prems(1) by (simp add: less_mult_imp_div_less mult.commute)
    ultimately have "length (show_dec (n div 10)) \<le> k" using Suc.IH by simp
    then show ?thesis using False by (subst show_base.simps) simp
  qed
qed

lemma proc_path_short:
  assumes "0 < pid" "pid \<le> 2147483647" "szProcType ty = Some nm"
  shows "length (proc_path pid nm) < PATH_MAX"
proof -
  have "nat pid < 10 ^ 10" using assms by simp
  then have "length (show_dec (nat pid)) \<le> 10" by (rule length_show_dec) simp
  moreover have "length nm \<le> 7" using assms(3) by (cases ty) auto
  ultimately show ?thesis by (simp add: proc_path_def)
qed

text \<open>
  C36: \<^verbatim>\<open>ProcFile::ReadPid\<close> returns the file. Whatever short reads and interruptions the
  kernel answers with, as long as no read fails the payload is the file's contents, cut
  at the buffer less the 9-byte header and the NUL, \<^verbatim>\<open>f_size\<close> is its length, and
  \<^verbatim>\<open>*out_truncated\<close> is set exactly when bytes were left over.
\<close>

theorem ReadPid_complete:
  assumes "0 < pid" "pid \<le> 2147483647" "szProcType ty = Some nm"
    and "op (proc_path pid nm) = Some fd" "Failing \<notin> set (fd_events fd)"
    and "10 \<le> n" "n \<le> 2147483647"
  shows "ReadPid op n pid ty =
    Inr (\<lparr>f_size = word_of_nat (min (nat n - 10) (length (fd_rest fd))), f_pid = word_of_int pid,
          f_type = proc_code ty, f_data = take (nat n - 10) (fd_rest fd)\<rparr>,
         nat n - 10 < length (fd_rest fd))"
proof -
  have ty: "\<not> (ty \<le> PROC_TYPE_UNKNOWN \<or> PROC_TYPE_MAX \<le> ty)"
    using assms(3) by (cases ty) (simp_all add: less_eq_proc_type_def word_le_nat_alt)
  have nn: "nat (n - 9 - 1) = nat n - 10" "nat (n - 10) = nat n - 10" by simp_all
  show ?thesis
    using assms ty proc_path_short [OF assms(1-3)]
    by (simp add: ReadPid_def ProcFile_Read_def ReadPath_def nn read_loop_complete [OF assms(5)] min.commute)
qed

definition sample_fd :: proc_fd where
  "sample_fd = \<lparr>fd_rest = ''sh'' @ [NUL] @ ''-c'' @ [NUL], fd_events = [Interrupted, Short 2, Interrupted]\<rparr>"

theorem ReadPid_complete_witness:
  "ReadPid (\<lambda>p. if p = ''/proc/42/cmdline'' then Some sample_fd else None) 4096 42 PROC_TYPE_CMDLINE =
     Inr (\<lparr>f_size = 6, f_pid = 42, f_type = 1, f_data = ''sh'' @ [NUL] @ ''-c'' @ [NUL]\<rparr>, False)"
proof -
  have p: "proc_path 42 ''cmdline'' = ''/proc/42/cmdline''" by code_simp
  show ?thesis
    using ReadPid_complete [of 42 PROC_TYPE_CMDLINE "''cmdline''"
        "\<lambda>p. if p = ''/proc/42/cmdline'' then Some sample_fd else None" sample_fd 4096]
    by (simp add: p sample_fd_def)
qed

section \<open>Decoding\<close>

text \<open>
  C37: Whatever the file holds, the regions \<^verbatim>\<open>ProcMaps::Parse\<close> returns are non-empty, in
  ascending order and pairwise disjoint, carry permissions of three bits, are either
  private or shared, and number at most 1048576.
\<close>

theorem maps_ordered:
  assumes "ProcMaps_Parse pf = Inr rs"
  shows "(\<forall>r \<in> set rs. start_addr r < end_addr r \<and> perms r \<le> 7 \<and> (is_shared r \<longleftrightarrow> \<not> is_private r)) \<and>
    (\<forall>i j. i < j \<and> j < length rs \<longrightarrow> end_addr (rs ! i) \<le> start_addr (rs ! j)) \<and> length rs \<le> 1048576"
  using maps_parse_ordered [OF assms]
  by (auto simp: regions_ordered_def region_ok_def list_all_iff sorted_wrt_iff_nth_less)

definition sample_region :: MemRegion where
  "sample_region = \<lparr>start_addr = 0x400000, end_addr = 0x401000, r_offset = 0, dev_major = 8, dev_minor = 1,
     inode = 99, perms = 5, is_private = True, is_shared = False, r_name = ''/bin/a b''\<rparr>"

definition heap_region :: MemRegion where
  "heap_region = \<lparr>start_addr = 0x7ff600000000, end_addr = 0x7ff600021000, r_offset = 0, dev_major = 0, dev_minor = 0,
     inode = 0, perms = 6, is_private = True, is_shared = False, r_name = []\<rparr>"

definition sample_maps :: ProcFile where
  "sample_maps = \<lparr>f_size = word_of_nat (length (maps_text column_pad [sample_region, heap_region])), f_pid = 1, f_type = 5,
     f_data = maps_text column_pad [sample_region, heap_region]\<rparr>"

lemma sample_maps_facts:
  "wf_ProcFile sample_maps" "length (f_data sample_maps) \<le> INT_MAX"
proof -
  have "length (f_data sample_maps) = 131" by code_simp
  then show "wf_ProcFile sample_maps" "length (f_data sample_maps) \<le> INT_MAX"
    by (simp_all add: wf_ProcFile_def sample_maps_def unat_of_nat)
qed

text \<open>
  C29: The decoder of \<^verbatim>\<open>/proc/<pid>/maps\<close> undoes the kernel's printer: from the text
  printed for any ordered, disjoint list of regions - a line without a name ending after the
  inode number, one with a name padded by any number of blanks of its own, such as those up
  to the kernel's name column (\<^term>\<open>column_pad\<close>), names possibly containing blanks -
  \<^verbatim>\<open>ProcMaps::Parse\<close> recovers the list.
\<close>

theorem maps_round_trip:
  assumes "wf_ProcFile p" "f_data p = maps_text pad rs" "length (f_data p) \<le> INT_MAX"
    and "regions_ordered rs" "\<forall>r \<in> set rs. name_ok (r_name r)" "length rs \<le> MAX_REGIONS"
  shows "ProcMaps_Parse (Some p) = Inr rs"
  by (rule maps_parse_render [OF assms])

theorem maps_round_trip_witness:
  "ProcMaps_Parse (Some sample_maps) = Inr [sample_region, heap_region]"
  by (rule maps_round_trip [where pad = column_pad, OF sample_maps_facts(1) _ sample_maps_facts(2)])
    (simp_all add: sample_maps_def regions_ordered_def region_ok_def sample_region_def heap_region_def name_ok_def isspace_def)

theorem maps_ordered_witness:
  "start_addr sample_region < end_addr sample_region \<and> perms sample_region \<le> 7 \<and>
   is_shared sample_region = (\<not> is_private sample_region)"
proof -
  have "ProcMaps_Parse (Some sample_maps) = Inr [sample_region, heap_region]"
    by (rule maps_parse_render [where pad = column_pad, OF sample_maps_facts(1) _ sample_maps_facts(2)])
      (simp_all add: sample_maps_def regions_ordered_def region_ok_def sample_region_def heap_region_def name_ok_def isspace_def)
  from maps_ordered [OF this] show ?thesis by (simp only: list.set ball_simps simp_thms)
qed

text \<open>
  \<^verbatim>\<open>ProcCmdline::Parse\<close> splits the argument area exactly: for any list of NUL-free
  arguments stored one after the other with a NUL each (empty ones included) it returns
  the list, and it fails, instead of dropping arguments, when there are more than 16384.
\<close>

theorem cmdline_exact:
  assumes "wf_ProcFile p" "f_data p = concat (map (\<lambda>a. a @ [NUL]) args)" "\<forall>a \<in> set args. NUL \<notin> set a"
  shows "ProcCmdline_Parse (Some p) = (if length args \<le> MAX_ARGV then Inr args else Inl EFAIL)"
  by (rule cmdline_parse_args [OF assms])

theorem cmdline_exact_witness:
  "ProcCmdline_Parse (Some \<lparr>f_size = 5, f_pid = 1, f_type = 1, f_data = ''ls'' @ [NUL, NUL] @ [NUL]\<rparr>) =
     Inr [''ls'', [], []]"
  using cmdline_exact [of "\<lparr>f_size = 5, f_pid = 1, f_type = 1, f_data = ''ls'' @ [NUL, NUL] @ [NUL]\<rparr>" "[''ls'', [], []]"]
  by (simp add: wf_ProcFile_def)

text \<open>
  C38: \<^verbatim>\<open>ProcAuxv::Parse\<close> accepts an auxiliary vector exactly when nothing follows the
  first \<^verbatim>\<open>AT_NULL\<close> entry, every id fits 32 bits and the page size is a power of two of at
  most 32 bits; it then returns the last value given for each key, 0 for a missing one.
\<close>

theorem auxv_exact:
  assumes "wf_ProcFile p"
    and "f_data p = concat (map auxv_entry kv) @ auxv_entry (AT_NULL, v) @ trailing"
    and "\<forall>e \<in> set kv. fst e \<noteq> AT_NULL"
  shows "ProcAuxv_Parse (Some p) =
           (if trailing = [] \<and> list_all entry_ok kv then Inr (auxv_of kv) else Inl EFAIL)"
  by (rule auxv_parse_entries [OF assms])

definition sample_auxv :: "(u64 \<times> u64) list" where
  "sample_auxv = [(AT_PAGESZ, 4096), (AT_UID, 1000)]"

definition sample_auxv_pf :: ProcFile where
  "sample_auxv_pf = \<lparr>f_size = 48, f_pid = 1, f_type = 4,
     f_data = concat (map auxv_entry sample_auxv) @ auxv_entry (AT_NULL, 0)\<rparr>"

theorem auxv_exact_witness:
  "ProcAuxv_Parse (Some sample_auxv_pf) =
     Inr \<lparr>av_uid = 1000, av_gid = 0, av_euid = 0, av_egid = 0, av_page_size = 4096\<rparr>"
proof -
  have wf: "wf_ProcFile sample_auxv_pf"
    by (simp add: wf_ProcFile_def sample_auxv_pf_def sample_auxv_def auxv_entry_def)
  have "list_all entry_ok sample_auxv" by code_simp
  moreover have "auxv_of sample_auxv = \<lparr>av_uid = 1000, av_gid = 0, av_euid = 0, av_egid = 0, av_page_size = 4096\<rparr>"
    by code_simp
  ultimately show ?thesis
    using auxv_exact [OF wf, of sample_auxv 0 "[]"] by (simp add: sample_auxv_pf_def sample_auxv_def)
qed

text \<open>
  \<^verbatim>\<open>ProcStatus::Parse\<close> finds the real user and group id: for a status text with one
  \<^verbatim>\<open>Uid:\<close> and one \<^verbatim>\<open>Gid:\<close> line of four tab-separated ids, in that order, among any
  other lines, it returns the first id of each.
\<close>

theorem status_ids:
  assumes "wf_ProcFile p" "length (f_data p) \<le> INT_MAX"
    and "f_data p = concat (map (\<lambda>l. l @ [NL]) (as @ [id_line ''Uid:'' uids] @ bs @ [id_line ''Gid:'' gids] @ cs))"
    and "list_all plain_line (as @ bs @ cs)" "length uids = 4" "length gids = 4"
    and "\<forall>l \<in> set (as @ bs @ cs). l \<noteq> [] \<and> NL \<notin> set l \<and> NUL \<notin> set l"
  shows "ProcStatus_Parse (Some p) = Inr \<lparr>ps_uid = uids ! 0, ps_gid = gids ! 0\<rparr>"
  by (rule status_parse_lines [OF assms])

definition sample_status :: "string" where
  "sample_status = concat (map (\<lambda>l. l @ [NL])
     [''Name: sh'', id_line ''Uid:'' [1000, 0, 0, 0], ''Pid: 1'', id_line ''Gid:'' [100, 5, 5, 5]])"

definition sample_status_pf :: ProcFile where
  "sample_status_pf = \<lparr>f_size = word_of_nat (length sample_status), f_pid = 1, f_type = 3, f_data = sample_status\<rparr>"

theorem status_ids_witness:
  "ProcStatus_Parse (Some sample_status_pf) = Inr \<lparr>ps_uid = 1000, ps_gid = 100\<rparr>"
proof -
  have len: "length sample_status < 1000" by code_simp
  have a: "wf_ProcFile sample_status_pf" "length (f_data sample_status_pf) \<le> INT_MAX"
    using len by (simp_all add: wf_ProcFile_def sample_status_pf_def unat_of_nat)
  have eq: "f_data sample_status_pf = concat (map (\<lambda>l. l @ [NL])
      ([''Name: sh''] @ [id_line ''Uid:'' [1000, 0, 0, 0]] @ [''Pid: 1''] @ [id_line ''Gid:'' [100, 5, 5, 5]] @ []))"
    by (simp add: sample_status_pf_def sample_status_def)
  from status_ids [OF a eq] show ?thesis by (simp add: plain_line_def)
qed

text \<open>
  What \<^verbatim>\<open>ProcStat::Parse\<close> returns is in range: positive pid and thread count,
  non-negative parent, group and session ids, all within \<^verbatim>\<open>int\<close>, a nice value from -20
  to 19, a state letter with its index, a name of at most 15 characters, and 64-bit
  counters, the resident size included.
\<close>

theorem stat_in_range:
  assumes "ProcStat_Parse host_page pf = Inr s"
  shows "0 < st_pid s \<and> st_pid s \<le> int_max \<and> 0 \<le> st_ppid s \<and> st_ppid s \<le> int_max \<and>
     0 \<le> st_pgid s \<and> st_pgid s \<le> int_max \<and> 0 \<le> st_sid s \<and> st_sid s \<le> int_max \<and>
     -20 \<le> st_nice s \<and> st_nice s \<le> 19 \<and> 0 < st_num_threads s \<and> st_num_threads s \<le> int_max \<and>
     state_code (st_sname s) = Some (st_state s) \<and> length (st_comm s) < 16 \<and>
     st_utime s < 2 ^ 64 \<and> st_stime s < 2 ^ 64 \<and> st_cutime s < 2 ^ 64 \<and> st_cstime s < 2 ^ 64 \<and>
     st_flags s < 2 ^ 64 \<and> st_pending s < 2 ^ 64 \<and> st_blocked s < 2 ^ 64 \<and> st_rss s < 2 ^ 64"
  using stat_parse_ok [OF assms] by (simp add: stat_ok_def)

definition sample_stat :: ProcStat where
  "sample_stat = \<lparr>st_state = 1, st_sname = CHR ''S'', st_comm = ''a) (b'' @ [NL], st_pid = 77, st_ppid = 1,
     st_pgid = 77, st_sid = 77, st_stime = 3, st_utime = 4, st_cstime = 5, st_cutime = 6, st_vsize = 8,
     st_rss = 16, st_num_threads = 2, st_flags = 64, st_nice = -5, st_pending = 0, st_blocked = 512\<rparr>"

definition sample_stat_text :: string where
  "sample_stat_text = stat_text 77 (st_comm sample_stat) (kernel_fields sample_stat 8192 4 (\<lambda>k. ''7'') @ [''0'', ''0''])"

definition sample_stat_pf :: ProcFile where
  "sample_stat_pf = \<lparr>f_size = word_of_nat (length sample_stat_text), f_pid = 77, f_type = 2, f_data = sample_stat_text\<rparr>"

lemma sample_stat_parse: "ProcStat_Parse 4096 (Some sample_stat_pf) = Inr sample_stat"
  by code_simp

theorem stat_in_range_witness: "0 < st_pid sample_stat \<and> st_nice sample_stat \<le> 19"
  using stat_in_range [OF sample_stat_parse] by simp

text \<open>
  C30: The decoder of \<^verbatim>\<open>/proc/<pid>/stat\<close> undoes the kernel's printer field by field,
  whatever the task name contains (parentheses, blanks, newlines): the name ends at the
  last closing parenthesis, and sizes are converted to KiB with the host's page size.
\<close>

theorem stat_round_trip:
  assumes "wf_ProcFile p" "length (f_data p) < 1024"
    and "f_data p = stat_text (st_pid s) (st_comm s) (kernel_fields s vs pages oth @ rest)"
    and "stat_ok s" "NUL \<notin> set (st_comm s)" "\<forall>k. field_ok (oth k)" "list_all field_ok rest" "rest \<noteq> []"
    and "vs < 2 ^ 64" "int pages \<le> 2 ^ 63 - 1"
    and "0 < host_page" "int pages \<le> (2 ^ 64 - 1) div host_page"
  shows "ProcStat_Parse host_page (Some p) =
           Inr (s\<lparr>st_vsize := vs div 1024, st_rss := pages * nat host_page div 1024\<rparr>)"
  by (rule stat_parse_kernel [OF assms])

theorem stat_round_trip_witness:
  "ProcStat_Parse 4096 (Some sample_stat_pf) = Inr (sample_stat\<lparr>st_vsize := 8192 div 1024, st_rss := 4 * nat 4096 div 1024\<rparr>)"
proof (rule stat_round_trip)
  have len: "length sample_stat_text < 1024" by code_simp
  show "wf_ProcFile sample_stat_pf" "length (f_data sample_stat_pf) < 1024"
    using len by (simp_all add: wf_ProcFile_def sample_stat_pf_def unat_of_nat)
  show "f_data sample_stat_pf = stat_text (st_pid sample_stat) (st_comm sample_stat)
      (kernel_fields sample_stat 8192 4 (\<lambda>k. ''7'') @ [''0'', ''0''])"
    by (simp add: sample_stat_pf_def sample_stat_text_def sample_stat_def)
  show "stat_ok sample_stat" by (simp add: stat_ok_def sample_stat_def int_max_def state_code_def)
qed (simp_all add: sample_stat_def field_ok_def isspace_def)

end
