(* ===== verification/Elf.thy ===== *)
theory Elf
  imports ElfDefs CLib
begin

text \<open>
  The ELF structures of \<^verbatim>\<open>src/elf.h\<close> that the program reads or writes, field by field and
  with their encodings, and the acore file header of \<^verbatim>\<open>src/core.h\<close>. Each encoding is an
  interpretation of \<open>byte_codec\<close> at the \<^verbatim>\<open>sizeof\<close> the source asserts.
\<close>

definition field_at :: "nat \<Rightarrow> nat \<Rightarrow> bytes \<Rightarrow> bytes" where
  "field_at n off bs = take n (drop off bs)"

section \<open>Program header\<close>

record Phdr =
  p_type :: u32
  p_flags :: u32
  p_offset :: u64
  p_vaddr :: u64
  p_paddr :: u64
  p_filesz :: u64
  p_memsz :: u64
  p_align :: u64

definition Phdr_zero :: Phdr where
  "Phdr_zero = \<lparr>p_type = 0, p_flags = 0, p_offset = 0, p_vaddr = 0, p_paddr = 0, p_filesz = 0,
                p_memsz = 0, p_align = 0\<rparr>"

abbreviation (input) sizeof_Phdr :: nat where "sizeof_Phdr \<equiv> 56"

definition put_phdr :: "Phdr \<Rightarrow> bytes" where
  "put_phdr p = put32 (p_type p) @ put32 (p_flags p) @ put64 (p_offset p) @ put64 (p_vaddr p) @
     put64 (p_paddr p) @ put64 (p_filesz p) @ put64 (p_memsz p) @ put64 (p_align p)"

definition get_phdr :: "bytes \<Rightarrow> Phdr" where
  "get_phdr bs =
     \<lparr>p_type = get32 (field_at 4 0 bs), p_flags = get32 (field_at 4 4 bs),
      p_offset = get64 (field_at 8 8 bs), p_vaddr = get64 (field_at 8 16 bs),
      p_paddr = get64 (field_at 8 24 bs), p_filesz = get64 (field_at 8 32 bs),
      p_memsz = get64 (field_at 8 40 bs), p_align = get64 (field_at 8 48 bs)\<rparr>"

interpretation cphdr: byte_codec put_phdr get_phdr 56 "\<lambda>_. True"
  by unfold_locales (simp_all add: put_phdr_def get_phdr_def field_at_def)

lemmas length_put_phdr [simp, codec_simps] = cphdr.enc_length [OF TrueI]
lemmas get_put_phdr [simp, codec_simps] = cphdr.dec_enc [OF TrueI]

section \<open>ELF header\<close>

record Ehdr =
  e_ident :: bytes
  e_type :: u16
  e_machine :: u16
  e_version :: u32
  e_entry :: u64
  e_phoff :: u64
  e_shoff :: u64
  e_flags :: u32
  e_ehsize :: u16
  e_phentsize :: u16
  e_phnum :: u16
  e_shentsize :: u16
  e_shnum :: u16
  e_shstrndx :: u16

abbreviation (input) sizeof_Ehdr :: nat where "sizeof_Ehdr \<equiv> 64"
abbreviation (input) sizeof_Shdr :: nat where "sizeof_Shdr \<equiv> 64"

text \<open>The constructor \<^verbatim>\<open>Elf64_Ehdr()\<close>.\<close>

definition Ehdr_new :: Ehdr where
  "Ehdr_new =
     \<lparr>e_ident = ELFMAG @ [ELFCLASS64, ELFDATA2LSB, EV_CURRENT, ELFOSABI_LINUX] @ replicate 8 NUL,
      e_type = ET_CORE, e_machine = EM_X86_64, e_version = 1, e_entry = 0, e_phoff = 64, e_shoff = 0,
      e_flags = 0, e_ehsize = of_nat sizeof_Ehdr, e_phentsize = of_nat sizeof_Phdr, e_phnum = 0,
      e_shentsize = of_nat sizeof_Shdr, e_shnum = 0, e_shstrndx = 0\<rparr>"

definition put_ehdr :: "Ehdr \<Rightarrow> bytes" where
  "put_ehdr e = e_ident e @ put16 (e_type e) @ put16 (e_machine e) @ put32 (e_version e) @
     put64 (e_entry e) @ put64 (e_phoff e) @ put64 (e_shoff e) @ put32 (e_flags e) @
     put16 (e_ehsize e) @ put16 (e_phentsize e) @ put16 (e_phnum e) @ put16 (e_shentsize e) @
     put16 (e_shnum e) @ put16 (e_shstrndx e)"

definition get_ehdr :: "bytes \<Rightarrow> Ehdr" where
  "get_ehdr bs =
     \<lparr>e_ident = field_at 16 0 bs, e_type = get16 (field_at 2 16 bs),
      e_machine = get16 (field_at 2 18 bs), e_version = get32 (field_at 4 20 bs),
      e_entry = get64 (field_at 8 24 bs), e_phoff = get64 (field_at 8 32 bs),
      e_shoff = get64 (field_at 8 40 bs), e_flags = get32 (field_at 4 48 bs),
      e_ehsize = get16 (field_at 2 52 bs), e_phentsize = get16 (field_at 2 54 bs),
      e_phnum = get16 (field_at 2 56 bs), e_shentsize = get16 (field_at 2 58 bs),
      e_shnum = get16 (field_at 2 60 bs), e_shstrndx = get16 (field_at 2 62 bs)\<rparr>"

definition wf_ehdr :: "Ehdr \<Rightarrow> bool" where
  "wf_ehdr e \<longleftrightarrow> length (e_ident e) = EI_NIDENT"

interpretation cehdr: byte_codec put_ehdr get_ehdr 64 wf_ehdr
  by unfold_locales (simp_all add: put_ehdr_def get_ehdr_def field_at_def wf_ehdr_def)

lemma wf_Ehdr_new [simp]: "wf_ehdr Ehdr_new" "wf_ehdr (Ehdr_new\<lparr>e_machine := m, e_phnum := n\<rparr>)"
  "wf_ehdr (Ehdr_new\<lparr>e_phnum := n, e_machine := m\<rparr>)"
  by (simp_all add: wf_ehdr_def Ehdr_new_def)

section \<open>Note header\<close>

record Nhdr =
  n_namesz :: u32
  n_descsz :: u32
  n_type :: u32

abbreviation (input) sizeof_Nhdr :: nat where "sizeof_Nhdr \<equiv> 12"

definition put_nhdr :: "Nhdr \<Rightarrow> bytes" where
  "put_nhdr h = put32 (n_namesz h) @ put32 (n_descsz h) @ put32 (n_type h)"

definition get_nhdr :: "bytes \<Rightarrow> Nhdr" where
  "get_nhdr bs =
     \<lparr>n_namesz = get32 (field_at 4 0 bs), n_descsz = get32 (field_at 4 4 bs),
      n_type = get32 (field_at 4 8 bs)\<rparr>"

interpretation cnhdr: byte_codec put_nhdr get_nhdr 12 "\<lambda>_. True"
  by unfold_locales (simp_all add: put_nhdr_def get_nhdr_def field_at_def)

lemmas length_put_nhdr [simp, codec_simps] = cnhdr.enc_length [OF TrueI]
lemmas get_put_nhdr [simp, codec_simps] = cnhdr.dec_enc [OF TrueI]

section \<open>Process status\<close>

text \<open>
  \<^verbatim>\<open>elf_siginfo64\<close>, \<^verbatim>\<open>prstatus64_timeval\<close> and the two \<^verbatim>\<open>elf_prstatus\<close> layouts. They differ in
  the general register set only, which the program copies as a block of bytes: 216 bytes
  on x86-64, 272 on aarch64. The padding the C layout has after \<^verbatim>\<open>pr_cursig\<close> and
  \<^verbatim>\<open>pr_fpvalid\<close> is zero, as the structure is value-initialised.
\<close>

record timeval64 =
  tv_sec :: u64
  tv_usec :: u64

record prstatus =
  pr_si_signo :: u32
  pr_si_code :: u32
  pr_si_errno :: u32
  pr_cursig :: u16
  pr_sigpend :: u64
  pr_sighold :: u64
  pr_pid :: u32
  pr_ppid :: u32
  pr_pgrp :: u32
  pr_sid :: u32
  pr_utime :: timeval64
  pr_stime :: timeval64
  pr_cutime :: timeval64
  pr_cstime :: timeval64
  pr_reg :: bytes
  pr_fpvalid :: u32

definition put_timeval :: "timeval64 \<Rightarrow> bytes" where
  "put_timeval t = put64 (tv_sec t) @ put64 (tv_usec t)"

definition get_timeval :: "bytes \<Rightarrow> timeval64" where
  "get_timeval bs = \<lparr>tv_sec = get64 (field_at 8 0 bs), tv_usec = get64 (field_at 8 8 bs)\<rparr>"

interpretation ctimeval: byte_codec put_timeval get_timeval 16 "\<lambda>_. True"
  by unfold_locales (simp_all add: put_timeval_def get_timeval_def field_at_def)

lemmas length_put_timeval [simp, codec_simps] = ctimeval.enc_length [OF TrueI]
lemmas get_put_timeval [simp, codec_simps] = ctimeval.dec_enc [OF TrueI]

definition put_prstatus :: "prstatus \<Rightarrow> bytes" where
  "put_prstatus p =
     put32 (pr_si_signo p) @ put32 (pr_si_code p) @ put32 (pr_si_errno p) @ put16 (pr_cursig p) @
     replicate 2 NUL @ put64 (pr_sigpend p) @ put64 (pr_sighold p) @ put32 (pr_pid p) @
     put32 (pr_ppid p) @ put32 (pr_pgrp p) @ put32 (pr_sid p) @ put_timeval (pr_utime p) @
     put_timeval (pr_stime p) @ put_timeval (pr_cutime p) @ put_timeval (pr_cstime p) @
     pr_reg p @ put32 (pr_fpvalid p) @ replicate 4 NUL"

definition get_prstatus :: "nat \<Rightarrow> bytes \<Rightarrow> prstatus" where
  "get_prstatus n bs =
     \<lparr>pr_si_signo = get32 (field_at 4 0 bs), pr_si_code = get32 (field_at 4 4 bs),
      pr_si_errno = get32 (field_at 4 8 bs), pr_cursig = get16 (field_at 2 12 bs),
      pr_sigpend = get64 (field_at 8 16 bs), pr_sighold = get64 (field_at 8 24 bs),
      pr_pid = get32 (field_at 4 32 bs), pr_ppid = get32 (field_at 4 36 bs),
      pr_pgrp = get32 (field_at 4 40 bs), pr_sid = get32 (field_at 4 44 bs),
      pr_utime = get_timeval (field_at 16 48 bs), pr_stime = get_timeval (field_at 16 64 bs),
      pr_cutime = get_timeval (field_at 16 80 bs), pr_cstime = get_timeval (field_at 16 96 bs),
      pr_reg = field_at n 112 bs, pr_fpvalid = get32 (field_at 4 (112 + n) bs)\<rparr>"

interpretation cprstatus: byte_codec put_prstatus "get_prstatus n" "120 + n" "\<lambda>p. length (pr_reg p) = n" for n
  by unfold_locales (simp_all add: put_prstatus_def get_prstatus_def field_at_def)

abbreviation (input) X64_REGS :: nat where "X64_REGS \<equiv> 216"
abbreviation (input) ARM64_REGS :: nat where "ARM64_REGS \<equiv> 272"
abbreviation (input) X64_FPREGS :: nat where "X64_FPREGS \<equiv> 512"
abbreviation (input) ARM64_FPREGS :: nat where "ARM64_FPREGS \<equiv> 528"
abbreviation (input) X86_XSTATE_MAX_SIZE :: nat where "X86_XSTATE_MAX_SIZE \<equiv> 2696"
abbreviation (input) SIGINFO_SIZE :: nat where "SIGINFO_SIZE \<equiv> 128"

lemma prstatus_sizes:
  "length (pr_reg p) = X64_REGS \<Longrightarrow> length (put_prstatus p) = 0x150"
  "length (pr_reg p) = ARM64_REGS \<Longrightarrow> length (put_prstatus p) = 0x188"
  by (simp_all add: cprstatus.enc_length [OF refl])

section \<open>Process information\<close>

record prpsinfo =
  pr_state :: char
  pr_sname :: char
  pr_zomb :: char
  pr_nice :: char
  pr_flag :: u64
  pr_uid :: u32
  pr_gid :: u32
  ps_pid :: u32
  ps_ppid :: u32
  ps_pgrp :: u32
  ps_sid :: u32
  pr_fname :: bytes
  pr_psargs :: bytes

abbreviation (input) ELF_PRARGSZ :: nat where "ELF_PRARGSZ \<equiv> 80"

definition put_prpsinfo :: "prpsinfo \<Rightarrow> bytes" where
  "put_prpsinfo p =
     [pr_state p, pr_sname p, pr_zomb p, pr_nice p] @ replicate 4 NUL @ put64 (pr_flag p) @
     put32 (pr_uid p) @ put32 (pr_gid p) @ put32 (ps_pid p) @ put32 (ps_ppid p) @
     put32 (ps_pgrp p) @ put32 (ps_sid p) @ pr_fname p @ pr_psargs p"

definition get_prpsinfo :: "bytes \<Rightarrow> prpsinfo" where
  "get_prpsinfo bs =
     \<lparr>pr_state = bs ! 0, pr_sname = bs ! 1, pr_zomb = bs ! 2, pr_nice = bs ! 3,
      pr_flag = get64 (field_at 8 8 bs), pr_uid = get32 (field_at 4 16 bs),
      pr_gid = get32 (field_at 4 20 bs), ps_pid = get32 (field_at 4 24 bs),
      ps_ppid = get32 (field_at 4 28 bs), ps_pgrp = get32 (field_at 4 32 bs),
      ps_sid = get32 (field_at 4 36 bs), pr_fname = field_at 16 40 bs,
      pr_psargs = field_at 80 56 bs\<rparr>"

interpretation cprpsinfo: byte_codec put_prpsinfo get_prpsinfo 136
  "\<lambda>p. length (pr_fname p) = 16 \<and> length (pr_psargs p) = ELF_PRARGSZ"
  by unfold_locales (simp_all add: put_prpsinfo_def get_prpsinfo_def field_at_def)

section \<open>Acore header\<close>

abbreviation (input) ARCH_X64 :: nat where "ARCH_X64 \<equiv> 0"
abbreviation (input) ARCH_AARCH64 :: nat where "ARCH_AARCH64 \<equiv> 1"
abbreviation (input) ARCH_MAX :: nat where "ARCH_MAX \<equiv> 2"
abbreviation (input) ACORE_MIN_VERSION :: nat where "ACORE_MIN_VERSION \<equiv> 1"
abbreviation (input) ACORE_VERSION :: nat where "ACORE_VERSION \<equiv> 6"

definition ACORE_MAGIC :: bytes where "ACORE_MAGIC = ''ARTHUR''"

record AcoreHeader =
  h_magic :: bytes
  h_version :: "12 word"
  h_arch :: "4 word"

definition AcoreHeader_new :: "nat \<Rightarrow> AcoreHeader" where
  "AcoreHeader_new arch =
     \<lparr>h_magic = ACORE_MAGIC, h_version = of_nat ACORE_VERSION, h_arch = of_nat arch\<rparr>"

text \<open>The two bit fields of \<^verbatim>\<open>m\<close>, version in the low twelve bits.\<close>

definition put_m :: "12 word \<Rightarrow> 4 word \<Rightarrow> bytes" where
  "put_m v a = put16 (word_of_nat (unat v + 4096 * unat a))"

definition get_m :: "bytes \<Rightarrow> 12 word \<times> 4 word" where
  "get_m bs = (let v = unat (get16 bs) in (word_of_nat v, word_of_nat (v div 4096)))"

definition put_acore_header :: "AcoreHeader \<Rightarrow> bytes" where
  "put_acore_header h = h_magic h @ put_m (h_version h) (h_arch h)"

lemma get_put_m: "get_m (put_m v a) = (v, a)"
proof -
  define n where "n = unat v + 4096 * unat a"
  have b: "unat v < 4096" "unat a < 16"
    using unsigned_less [of v, where ?'a = nat] unsigned_less [of a, where ?'a = nat] by simp_all
  have "n < 65536" using b by (simp add: n_def)
  then have u: "unat (word_of_nat n :: u16) = n" by (simp add: unat_of_nat)
  have "n mod 4096 = unat v" "n div 4096 = unat a" using b by (simp_all add: n_def)
  then have "(word_of_nat n :: 12 word) = v" "(word_of_nat (n div 4096) :: 4 word) = a"
    using b by (simp_all add: word_unat_eq_iff unat_of_nat)
  then show ?thesis by (simp add: get_m_def put_m_def Let_def u flip: n_def)
qed

lemma length_put_m [simp]: "length (put_m v a) = 2"
  by (simp add: put_m_def)

section \<open>Signals\<close>

definition is_core_dump_signal :: "int \<Rightarrow> bool" where
  "is_core_dump_signal sig \<longleftrightarrow> sig \<in> {6, 7, 8, 4, 3, 11, 31, 5, 24, 25}"

abbreviation (input) NSIG :: int where "NSIG \<equiv> 65"

end
