(* ===== verification/Notes.thy ===== *)
theory Notes
  imports Elf ProcDecode StatDecode
begin

text \<open>
  \<^verbatim>\<open>ProcessData\<close>, \<^verbatim>\<open>ThreadData\<close> and \<^verbatim>\<open>Note\<close> of \<^verbatim>\<open>src/core.h\<close> and \<^verbatim>\<open>src/core.cc\<close>: decoding the
  captured \<^verbatim>\<open>/proc\<close> files (\<^verbatim>\<open>ParseAll\<close>) and building the ELF notes of a core file
  (\<^verbatim>\<open>Note::allocate\<close>, \<^verbatim>\<open>fill_*\<close>, \<^verbatim>\<open>GenerateNotes\<close>). What the code learns from its host is a
  parameter: \<open>mem\<close>, whether an allocation of that size succeeds; the page size and the
  clock tick of \<^verbatim>\<open>sysconf\<close>.
\<close>

section \<open>Captured data\<close>

text \<open>
  A register set is the bytes the kernel returned for it. \<^verbatim>\<open>_siginfo\<close> is the 128 bytes of
  a \<^verbatim>\<open>siginfo_t\<close>, whose first three words are \<^verbatim>\<open>si_signo\<close>, \<^verbatim>\<open>si_errno\<close>, \<^verbatim>\<open>si_code\<close>.
\<close>

record ThreadData =
  td_pid :: u32
  td_arch :: nat
  td_regs :: bytes
  td_fpregs :: bytes
  td_xstate :: bytes
  td_siginfo :: bytes
  td_prstatus_signal :: int
  td_fp_valid :: bool
  td_sigpend :: u64
  td_sighold :: u64
  td_masks_valid :: bool
  td_stat :: "ProcFile option"
  td_d_stat :: "ProcStat option"

definition si_signo :: "ThreadData \<Rightarrow> int" where "si_signo t = sint (get32 (field_at 4 0 (td_siginfo t)))"
definition si_errno :: "ThreadData \<Rightarrow> u32" where "si_errno t = get32 (field_at 4 4 (td_siginfo t))"
definition si_code :: "ThreadData \<Rightarrow> u32" where "si_code t = get32 (field_at 4 8 (td_siginfo t))"

record ProcessData =
  pd_cmdline :: "ProcFile option"
  pd_auxv :: "ProcFile option"
  pd_maps :: "ProcFile option"
  pd_environ :: "ProcFile option"
  pd_io :: "ProcFile option"
  pd_limits :: "ProcFile option"
  pd_stat :: "ProcFile option"
  pd_d_cmdline :: "string list option"
  pd_d_maps :: "MemRegion list option"
  pd_d_auxv :: "ProcAuxv option"
  pd_d_stat :: "ProcStat option"
  pd_uid :: u32
  pd_gid :: u32
  pd_credentials_valid :: bool
  pd_threads :: "ThreadData list"
  pd_thrd_pid :: "int list"

definition ProcessData_new :: ProcessData where
  "ProcessData_new =
     \<lparr>pd_cmdline = None, pd_auxv = None, pd_maps = None, pd_environ = None, pd_io = None,
      pd_limits = None, pd_stat = None, pd_d_cmdline = None, pd_d_maps = None, pd_d_auxv = None,
      pd_d_stat = None, pd_uid = 0, pd_gid = 0, pd_credentials_valid = False, pd_threads = [],
      pd_thrd_pid = []\<rparr>"

text \<open>
  \<^verbatim>\<open>ParseAll\<close>. A stat record must be of the task it is stored for. After a failure the
  caller only frees the structure, so none is returned.
\<close>

fun parse_thread_stats :: "int \<Rightarrow> ThreadData list \<Rightarrow> err + ThreadData list" where
  "parse_thread_stats host_page [] = Inr []"
| "parse_thread_stats host_page (t # ts) =
     (case ProcStat_Parse host_page (td_stat t) of
        Inl e \<Rightarrow> Inl e
      | Inr s \<Rightarrow>
          if st_pid s \<noteq> sint (td_pid t) then Inl EFAIL
          else ebind (parse_thread_stats host_page ts) (\<lambda>ts'. Inr (t\<lparr>td_d_stat := Some s\<rparr> # ts')))"

definition parse_process_stat :: "int \<Rightarrow> ProcessData \<Rightarrow> err + ProcessData" where
  "parse_process_stat host_page pd =
     (case pd_stat pd of
        None \<Rightarrow> Inr pd
      | Some pf \<Rightarrow>
          (case ProcStat_Parse host_page (Some pf) of
             Inl e \<Rightarrow> Inl e
           | Inr s \<Rightarrow>
               if st_pid s \<noteq> sint (f_pid pf) then Inl EFAIL else Inr (pd\<lparr>pd_d_stat := Some s\<rparr>)))"

definition ParseAll :: "int \<Rightarrow> ProcessData \<Rightarrow> err + ProcessData" where
  "ParseAll host_page pd =
     ebind (ProcMaps_Parse (pd_maps pd)) (\<lambda>rs.
       if rs = [] then Inl EFAIL
       else
         ebind (ProcCmdline_Parse (pd_cmdline pd)) (\<lambda>argv.
         ebind (ProcAuxv_Parse (pd_auxv pd)) (\<lambda>av.
         ebind (parse_process_stat host_page
                  (pd\<lparr>pd_d_maps := Some rs, pd_d_cmdline := Some argv, pd_d_auxv := Some av\<rparr>)) (\<lambda>pd1.
           let pd2 = (if pd_credentials_valid pd1 then pd1
                      else pd1\<lparr>pd_uid := av_uid av, pd_gid := av_gid av, pd_credentials_valid := True\<rparr>)
           in ebind (parse_thread_stats host_page (pd_threads pd2)) (\<lambda>ts.
                Inr (pd2\<lparr>pd_threads := ts\<rparr>))))))"

section \<open>Notes\<close>

record Note =
  nt_type :: u32
  nt_data :: bytes     \<comment> \<open>empty for a null \<^verbatim>\<open>_data\<close>; its length is \<^verbatim>\<open>_size\<close>\<close>

definition Note_new :: "u32 \<Rightarrow> Note" where
  "Note_new t = \<lparr>nt_type = t, nt_data = []\<rparr>"

definition note_name :: "u32 \<Rightarrow> string" where
  "note_name t = (if t = NT_X86_XSTATE then ''LINUX'' else ''CORE'')"

definition note_namesz :: "u32 \<Rightarrow> u32" where
  "note_namesz t = (if t = NT_X86_XSTATE then 6 else 5)"

abbreviation (input) NOTE_PREFIX :: nat where "NOTE_PREFIX \<equiv> 20"

text \<open>The zeroed note with its header, \<^verbatim>\<open>_data\<close> after \<^verbatim>\<open>allocate\<close>; the payload starts at offset 20.\<close>

definition Note_allocate :: "(nat \<Rightarrow> bool) \<Rightarrow> nat \<Rightarrow> Note \<Rightarrow> err + Note" where
  "Note_allocate mem payload_size nt =
     (if payload_size > UINT32_MAX \<or> payload_size > 18446744073709551615 - NOTE_PREFIX then Inl EOVERFLOW
      else
        let raw = NOTE_PREFIX + payload_size in
        if raw > 18446744073709551615 - 3 then Inl EOVERFLOW
        else
          let n = (raw + 3) div 4 * 4 in
          if \<not> mem n then Inl EFAIL
          else Inr (nt\<lparr>nt_data :=
                 put_nhdr \<lparr>n_namesz = note_namesz (nt_type nt), n_descsz = word_of_nat payload_size,
                           n_type = nt_type nt\<rparr> @
                 strncpy (note_name (nt_type nt)) 8 @ replicate (n - NOTE_PREFIX) NUL\<rparr>))"

text \<open>\<^verbatim>\<open>memcpy\<close> of a payload to the address \<^verbatim>\<open>allocate\<close> returned.\<close>

definition note_fill :: "bytes \<Rightarrow> Note \<Rightarrow> Note" where
  "note_fill p nt =
     nt\<lparr>nt_data := take NOTE_PREFIX (nt_data nt) @ p @ drop (NOTE_PREFIX + length p) (nt_data nt)\<rparr>"

definition fill_with :: "(nat \<Rightarrow> bool) \<Rightarrow> bytes \<Rightarrow> Note \<Rightarrow> err + Note" where
  "fill_with mem p nt = ebind (Note_allocate mem (length p) nt) (\<lambda>nt'. Inr (note_fill p nt'))"

definition find_leader_stat :: "ThreadData list \<Rightarrow> int \<Rightarrow> ProcStat option" where
  "find_leader_stat ts pid =
     (case find (\<lambda>t. sint (td_pid t) = pid) ts of None \<Rightarrow> None | Some t \<Rightarrow> td_d_stat t)"

text \<open>The record \<^verbatim>\<open>NT_PRPSINFO\<close> describes: the process stat, or the leader's thread stat.\<close>

definition process_stat :: "ProcessData \<Rightarrow> int \<Rightarrow> ProcStat option" where
  "process_stat pd leader_pid =
     (case pd_d_stat pd of Some s \<Rightarrow> Some s | None \<Rightarrow> find_leader_stat (pd_threads pd) leader_pid)"

definition prpsinfo_of :: "ProcessData \<Rightarrow> ProcStat \<Rightarrow> bool \<Rightarrow> prpsinfo" where
  "prpsinfo_of pd s crashed =
     (let argv = (case pd_d_cmdline pd of None \<Rightarrow> [] | Some a \<Rightarrow> a);
          flag = (word_of_nat (st_flags s) :: u64);
          fname = (if st_comm s \<noteq> [] then st_comm s
                   else if st_pid s \<le> 0 \<and> argv \<noteq> [] then hd argv else []);
          args = concat (map (\<lambda>a. a @ '' '') argv)
      in \<lparr>pr_state = char_of (st_state s), pr_sname = st_sname s,
          pr_zomb = (if st_sname s = CHR ''Z'' then CHR 0x01 else NUL),
          pr_nice = char_of (nat (st_nice s mod 256)),
          pr_flag = (if crashed then flag OR 0x200 OR 0x400 else flag),
          pr_uid = pd_uid pd, pr_gid = pd_gid pd,
          ps_pid = word_of_int (st_pid s), ps_ppid = word_of_int (st_ppid s),
          ps_pgrp = word_of_int (st_pgid s), ps_sid = word_of_int (st_sid s),
          pr_fname = (strncpy fname 16)[15 := NUL], pr_psargs = (strncpy args 80)[79 := NUL]\<rparr>)"

definition fill_prpsinfo :: "(nat \<Rightarrow> bool) \<Rightarrow> ProcessData \<Rightarrow> int \<Rightarrow> bool \<Rightarrow> Note \<Rightarrow> err + Note" where
  "fill_prpsinfo mem pd leader_pid crashed nt =
     (case process_stat pd leader_pid of
        None \<Rightarrow> Inl EFAIL
      | Some s \<Rightarrow>
          if \<not> pd_credentials_valid pd then Inl EFAIL
          else fill_with mem (put_prpsinfo (prpsinfo_of pd s crashed)) nt)"

definition fill_auxv :: "(nat \<Rightarrow> bool) \<Rightarrow> ProcessData \<Rightarrow> Note \<Rightarrow> err + Note" where
  "fill_auxv mem pd nt =
     (case pd_auxv pd of
        None \<Rightarrow> Inl EFAIL
      | Some pf \<Rightarrow> if f_size pf = 0 then Inl EFAIL else fill_with mem (pf_text pf) nt)"

text \<open>The mappings \<^verbatim>\<open>NT_FILE\<close> lists: those with a name and an inode.\<close>

definition file_entries :: "MemRegion list \<Rightarrow> MemRegion list" where
  "file_entries rs = filter (\<lambda>r. r_name r \<noteq> [] \<and> 0 < inode r) rs"

fun file_addresses :: "u64 \<Rightarrow> MemRegion list \<Rightarrow> err + bytes" where
  "file_addresses page [] = Inr []"
| "file_addresses page (r # rs) =
     (if r_offset r mod page \<noteq> 0 then Inl EFAIL
      else ebind (file_addresses page rs) (\<lambda>bs.
             Inr (put64 (start_addr r) @ put64 (end_addr r) @ put64 (r_offset r div page) @ bs)))"

definition file_payload :: "u64 \<Rightarrow> MemRegion list \<Rightarrow> err + bytes" where
  "file_payload page rs =
     (if page = 0 \<or> page AND (page - 1) \<noteq> 0 then Inl EFAIL
      else ebind (file_addresses page rs) (\<lambda>addrs.
             Inr (put64 (word_of_nat (length rs)) @ put64 page @ addrs @
                  concat (map (\<lambda>r. r_name r @ [NUL]) rs))))"

definition fill_file :: "(nat \<Rightarrow> bool) \<Rightarrow> ProcessData \<Rightarrow> Note \<Rightarrow> err + Note" where
  "fill_file mem pd nt =
     (let rs = file_entries (case pd_d_maps pd of None \<Rightarrow> [] | Some rs \<Rightarrow> rs);
          page = (case pd_d_auxv pd of None \<Rightarrow> 0 | Some a \<Rightarrow> av_page_size a)
      in ebind (file_payload page rs) (\<lambda>p. fill_with mem p nt))"

definition jiffies_to_timeval :: "int \<Rightarrow> nat \<Rightarrow> timeval64" where
  "jiffies_to_timeval sc_clk_tck jiffies =
     (let clk = (if sc_clk_tck \<le> 0 then 100 else nat sc_clk_tck)
      in \<lparr>tv_sec = word_of_nat (jiffies div clk),
          tv_usec = word_of_nat (jiffies mod clk * (1000000 div clk))\<rparr>)"

definition prstatus_of :: "int \<Rightarrow> ThreadData \<Rightarrow> ProcStat \<Rightarrow> prstatus" where
  "prstatus_of clk_tck t s =
     (let sig = td_prstatus_signal t; own = sig \<noteq> 0 \<and> si_signo t = sig
      in \<lparr>pr_si_signo = word_of_int sig,
          pr_si_code = (if own then si_code t else 0), pr_si_errno = (if own then si_errno t else 0),
          pr_cursig = word_of_int sig,
          pr_sigpend = (if td_masks_valid t then td_sigpend t else word_of_nat (st_pending s)),
          pr_sighold = (if td_masks_valid t then td_sighold t else word_of_nat (st_blocked s)),
          pr_pid = word_of_int (st_pid s), pr_ppid = word_of_int (st_ppid s),
          pr_pgrp = word_of_int (st_pgid s), pr_sid = word_of_int (st_sid s),
          pr_utime = jiffies_to_timeval clk_tck (st_utime s),
          pr_stime = jiffies_to_timeval clk_tck (st_stime s),
          pr_cutime = jiffies_to_timeval clk_tck (st_cutime s),
          pr_cstime = jiffies_to_timeval clk_tck (st_cstime s),
          pr_reg = td_regs t, pr_fpvalid = (if td_fp_valid t then 1 else 0)\<rparr>)"

definition fill_prstatus :: "(nat \<Rightarrow> bool) \<Rightarrow> int \<Rightarrow> ThreadData \<Rightarrow> Note \<Rightarrow> err + Note" where
  "fill_prstatus mem clk_tck t nt =
     (case td_d_stat t of
        None \<Rightarrow> Inl EFAIL
      | Some s \<Rightarrow>
          if td_arch t = ARCH_X64 \<or> td_arch t = ARCH_AARCH64
          then fill_with mem (put_prstatus (prstatus_of clk_tck t s)) nt
          else Inl EFAIL)"

definition fill_fpregset :: "(nat \<Rightarrow> bool) \<Rightarrow> ThreadData \<Rightarrow> Note \<Rightarrow> err + Note" where
  "fill_fpregset mem t nt =
     (if td_arch t = ARCH_X64 \<or> td_arch t = ARCH_AARCH64 then fill_with mem (td_fpregs t) nt
      else Inl EFAIL)"

definition fill_siginfo :: "(nat \<Rightarrow> bool) \<Rightarrow> ThreadData \<Rightarrow> Note \<Rightarrow> err + Note" where
  "fill_siginfo mem t nt = fill_with mem (td_siginfo t) nt"

definition fill_x86_xstate :: "(nat \<Rightarrow> bool) \<Rightarrow> ThreadData \<Rightarrow> Note \<Rightarrow> err + Note" where
  "fill_x86_xstate mem t nt = fill_with mem (td_xstate t) nt"

definition fill_arm_sve :: "ThreadData \<Rightarrow> Note \<Rightarrow> err + Note" where
  "fill_arm_sve t nt = Inl EFAIL"

section \<open>GenerateNotes\<close>

text \<open>\<^verbatim>\<open>add_note\<close>: a note that was not filled is dropped, and is fatal if required.\<close>

definition add_note :: "err + Note \<Rightarrow> bool \<Rightarrow> Note list \<Rightarrow> bool \<times> Note list" where
  "add_note filled required notes =
     (case filled of
        Inl _ \<Rightarrow> (\<not> required, notes)
      | Inr nt \<Rightarrow> if nt_data nt = [] then (\<not> required, notes) else (True, notes @ [nt]))"

text \<open>The register notes of a thread whose floating-point state was captured.\<close>

definition register_notes :: "(nat \<Rightarrow> bool) \<Rightarrow> nat \<Rightarrow> ThreadData \<Rightarrow> Note list \<Rightarrow> Note list" where
  "register_notes mem arch t notes =
     (if td_fp_valid t
      then let n = snd (add_note (fill_fpregset mem t (Note_new NT_FPREGSET)) False notes)
           in if arch = ARCH_X64
              then snd (add_note (fill_x86_xstate mem t (Note_new NT_X86_XSTATE)) False n) else n
      else notes)"

definition thread_notes ::
    "(nat \<Rightarrow> bool) \<Rightarrow> int \<Rightarrow> nat \<Rightarrow> bool \<Rightarrow> ThreadData \<Rightarrow> Note list \<Rightarrow> bool \<times> Note list" where
  "thread_notes mem clk_tck arch siginfo_added t notes =
     (let (ok, n1) = add_note (fill_prstatus mem clk_tck t (Note_new NT_PRSTATUS)) True notes in
      if \<not> ok then (False, n1)
      else
        let n2 = register_notes mem arch t n1
        in if siginfo_added then (True, n2)
           else add_note (fill_siginfo mem t (Note_new NT_SIGINFO)) True n2)"

fun all_thread_notes ::
    "(nat \<Rightarrow> bool) \<Rightarrow> int \<Rightarrow> nat \<Rightarrow> bool \<Rightarrow> ThreadData list \<Rightarrow> Note list \<Rightarrow> bool \<times> Note list" where
  "all_thread_notes mem clk_tck arch added [] notes = (True, notes)"
| "all_thread_notes mem clk_tck arch added (t # ts) notes =
     (case thread_notes mem clk_tck arch added t notes of
        (False, n) \<Rightarrow> (False, n)
      | (True, n) \<Rightarrow> all_thread_notes mem clk_tck arch True ts n)"

fun notes_size :: "nat \<Rightarrow> Note list \<Rightarrow> err + nat" where
  "notes_size rc [] = Inr rc"
| "notes_size rc (nt # nts) =
     (if length (nt_data nt) > INT_MAX - rc then Inl EFAIL else notes_size (rc + length (nt_data nt)) nts)"

definition GenerateNotes ::
    "(nat \<Rightarrow> bool) \<Rightarrow> int \<Rightarrow> nat \<Rightarrow> int \<Rightarrow> int \<Rightarrow> ProcessData \<Rightarrow> err + nat \<times> Note list" where
  "GenerateNotes mem clk_tck arch pid crash_sig pd =
     (let (ok1, n1) = add_note (fill_prpsinfo mem pd pid (crash_sig \<noteq> 0) (Note_new NT_PRPSINFO)) True [] in
      if \<not> ok1 then Inl EFAIL
      else
        let (ok2, n2) = add_note (fill_auxv mem pd (Note_new NT_AUXV)) True n1 in
        if \<not> ok2 then Inl EFAIL
        else
          let (ok3, n3) = add_note (fill_file mem pd (Note_new NT_FILE)) True n2 in
          if \<not> ok3 then Inl EFAIL
          else
            let (ok4, n4) = all_thread_notes mem clk_tck arch False (pd_threads pd) n3 in
            if \<not> ok4 then Inl EFAIL
            else ebind (notes_size 0 n4) (\<lambda>n. Inr (n, n4)))"

end
