(* ===== verification/NoteProps.thy ===== *)
theory NoteProps
  imports Notes
begin

text \<open>
  The notes of a generated core, read the way a debugger reads them: the segment parses
  into the notes the specification lists, and the descriptors of \<^verbatim>\<open>NT_FILE\<close>,
  \<^verbatim>\<open>NT_PRSTATUS\<close> and \<^verbatim>\<open>NT_PRPSINFO\<close> give back what was captured.
\<close>

section \<open>The shape of a note\<close>

definition note_pad :: "nat \<Rightarrow> nat" where
  "note_pad n = (n + 3) div 4 * 4 - n"

lemma note_pad_less: "note_pad n < 4" "(n + note_pad n) mod 4 = 0"
proof -
  have "(n + 3) div 4 * 4 \<le> n + 3" "n \<le> (n + 3) div 4 * 4" by presburger+
  then have e: "n + note_pad n = (n + 3) div 4 * 4" "note_pad n \<le> 3" by (simp_all add: note_pad_def)
  then show "note_pad n < 4" by simp
  show "(n + note_pad n) mod 4 = 0" unfolding e by simp
qed

definition note_bytes :: "u32 \<Rightarrow> bytes \<Rightarrow> bytes" where
  "note_bytes t p =
     put_nhdr \<lparr>n_namesz = note_namesz t, n_descsz = word_of_nat (length p), n_type = t\<rparr> @
     strncpy (note_name t) 8 @ p @ replicate (note_pad (length p)) NUL"

lemma note_pad_20: "note_pad (20 + n) = note_pad n"
  unfolding note_pad_def by presburger

lemma fill_with_Inr:
  "fill_with mem p nt = Inr nt' \<longleftrightarrow>
     length p \<le> UINT32_MAX \<and> mem (20 + length p + note_pad (length p)) \<and>
     nt' = nt\<lparr>nt_data := note_bytes (nt_type nt) p\<rparr>"
proof (cases "length p \<le> UINT32_MAX")
  case False
  then show ?thesis by (simp add: fill_with_def Note_allocate_def)
next
  case True
  define k where "k = note_pad (length p)"
  have n: "(20 + length p + 3) div 4 * 4 = 20 + length p + k"
  proof -
    have "20 + length p \<le> (20 + length p + 3) div 4 * 4" by presburger
    then show ?thesis using note_pad_20 [of "length p"] by (simp add: note_pad_def k_def)
  qed
  have n': "(23 + length p) div 4 * 4 = 20 + length p + k" using n by simp
  have s: "20 + length p + k - 20 = length p + k" by simp
  have r: "drop (length p) (replicate (length p + k) NUL) = replicate k NUL" by simp
  show ?thesis
    using True
    by (auto simp: fill_with_def Note_allocate_def Let_def n n' note_fill_def note_bytes_def s r ebind_def
        simp flip: k_def)
qed

lemma fill_with_enough:
  "length p \<le> UINT32_MAX \<Longrightarrow> fill_with (\<lambda>n. True) p nt = Inr (nt\<lparr>nt_data := note_bytes (nt_type nt) p\<rparr>)"
  by (simp add: fill_with_Inr)

lemma length_note_bytes: "length (note_bytes t p) = 20 + length p + note_pad (length p)"
  by (simp add: note_bytes_def)

lemma note_bytes_nonempty [simp]: "note_bytes t p \<noteq> []"
  using length_note_bytes [of t p] by (metis add_is_0 list.size(3) zero_neq_numeral)

section \<open>Reading notes\<close>

text \<open>
  How a debugger walks a note segment: header, name and descriptor, each padded to four
  bytes. \<open>None\<close> for a segment that does not end with a note.
\<close>

function parse_notes :: "bytes \<Rightarrow> (string \<times> u32 \<times> bytes) list option" where
  "parse_notes bs =
     (if bs = [] then Some []
      else if length bs < 12 then None
      else
        let h = get_nhdr (take 12 bs); nn = unat (n_namesz h); dn = unat (n_descsz h);
            n = 12 + nn + note_pad nn + dn + note_pad dn
        in if length bs < n then None
           else
             (case parse_notes (drop n bs) of
                None \<Rightarrow> None
              | Some nts \<Rightarrow> Some ((take (nn - 1) (drop 12 bs), n_type h,
                                  take dn (drop (12 + nn + note_pad nn) bs)) # nts)))"
  by pat_completeness auto
termination by (relation "measure length") auto

declare parse_notes.simps [simp del]

lemma parse_notes_Nil [simp]: "parse_notes [] = Some []"
  by (simp add: parse_notes.simps)

lemma strncpy_names: "strncpy ''CORE'' 8 = ''CORE'' @ replicate 4 NUL" "strncpy ''LINUX'' 8 = ''LINUX'' @ replicate 3 NUL"
  by (simp_all add: strncpy_def numeral_eq_Suc)

lemma parse_notes_step:
  assumes "length p \<le> UINT32_MAX"
  shows "parse_notes (note_bytes t p @ rest) =
    map_option (\<lambda>nts. (note_name t, t, p) # nts) (parse_notes rest)"
proof -
  let ?h = "\<lparr>n_namesz = note_namesz t, n_descsz = word_of_nat (length p), n_type = t\<rparr>"
  let ?bs = "note_bytes t p @ rest"
  have bs: "?bs = put_nhdr ?h @ strncpy (note_name t) 8 @ p @ replicate (note_pad (length p)) NUL @ rest"
    by (simp add: note_bytes_def)
  have h: "get_nhdr (take 12 ?bs) = ?h" unfolding bs by simp
  have nn: "unat (note_namesz t) + note_pad (unat (note_namesz t)) = 8"
    by (simp add: note_namesz_def note_pad_def)
  have nn': "12 + unat (note_namesz t) + note_pad (unat (note_namesz t)) = 20" using nn by simp
  have dn: "unat (word_of_nat (length p) :: u32) = length p" using assms by (simp add: unat_of_nat)
  have nm: "take (unat (note_namesz t) - 1) (drop 12 ?bs) = note_name t"
    unfolding bs by (simp add: note_namesz_def note_name_def strncpy_names)
  have ds: "take (length p) (drop 20 ?bs) = p" unfolding bs by simp
  have dr: "drop (20 + length p + note_pad (length p)) ?bs = rest"
    by (simp add: length_note_bytes)
  have len: "\<not> length ?bs < 20 + length p + note_pad (length p)" "\<not> length ?bs < 12" "?bs \<noteq> []"
    by (simp_all add: length_note_bytes)
  show ?thesis
    by (subst parse_notes.simps)
      (simp only: len h Nhdr.simps nn' dn nm ds dr Let_def if_False option.case_eq_if map_option_case)
qed

definition note_ok :: "Note \<Rightarrow> bytes \<Rightarrow> bool" where
  "note_ok nt p \<longleftrightarrow> nt_data nt = note_bytes (nt_type nt) p \<and> length p \<le> UINT32_MAX"

section \<open>The notes of a core\<close>

type_synonym note_spec = "(u32 \<times> bytes) list"

definition opt_note :: "(nat \<Rightarrow> bool) \<Rightarrow> u32 \<Rightarrow> bytes \<Rightarrow> note_spec" where
  "opt_note mem t p =
     (if length p \<le> UINT32_MAX \<and> mem (20 + length p + note_pad (length p)) then [(t, p)] else [])"

text \<open>
  One thread: status, then, if its floating-point state was captured, the register sets,
  then the signal information of the first thread. A register note is left out if it
  cannot be allocated.
\<close>

definition thread_spec :: "(nat \<Rightarrow> bool) \<Rightarrow> int \<Rightarrow> nat \<Rightarrow> bool \<Rightarrow> ThreadData \<Rightarrow> note_spec" where
  "thread_spec mem clk arch first t =
     (NT_PRSTATUS, put_prstatus (prstatus_of clk t (the (td_d_stat t)))) #
     (if td_fp_valid t
      then opt_note mem NT_FPREGSET (td_fpregs t) @
           (if arch = ARCH_X64 then opt_note mem NT_X86_XSTATE (td_xstate t) else [])
      else []) @
     (if first then [(NT_SIGINFO, td_siginfo t)] else [])"

fun threads_spec :: "(nat \<Rightarrow> bool) \<Rightarrow> int \<Rightarrow> nat \<Rightarrow> bool \<Rightarrow> ThreadData list \<Rightarrow> note_spec" where
  "threads_spec mem clk arch first [] = []"
| "threads_spec mem clk arch first (t # ts) =
     thread_spec mem clk arch first t @ threads_spec mem clk arch False ts"

definition made :: "Note list \<Rightarrow> note_spec \<Rightarrow> bool" where
  "made nts sp \<longleftrightarrow> list_all2 (\<lambda>nt tp. nt_type nt = fst tp \<and> note_ok nt (snd tp)) nts sp"

lemma made_Nil [simp]: "made [] []"
  by (simp add: made_def)

lemma made_snoc: "made nts sp \<Longrightarrow> nt_type nt = t \<Longrightarrow> note_ok nt p \<Longrightarrow> made (nts @ [nt]) (sp @ [(t, p)])"
  by (simp add: made_def list_all2_appendI)

lemma add_note_fill:
  assumes "add_note (fill_with mem p (Note_new t)) required nts = (ok, nts')" "made nts sp"
  shows "made nts' (sp @ opt_note mem t p)" "ok \<longleftrightarrow> opt_note mem t p \<noteq> [] \<or> \<not> required"
proof -
  have "made nts' (sp @ opt_note mem t p) \<and> (ok \<longleftrightarrow> opt_note mem t p \<noteq> [] \<or> \<not> required)"
  proof (cases "fill_with mem p (Note_new t)")
    case (Inl e)
    then have "opt_note mem t p = []"
      using fill_with_Inr [of mem p "Note_new t"] by (auto simp: opt_note_def)
    then show ?thesis using assms Inl by (auto simp: add_note_def)
  next
    case (Inr nt)
    then have nt: "length p \<le> UINT32_MAX" "nt_type nt = t" "note_ok nt p" "nt_data nt \<noteq> []" "opt_note mem t p = [(t, p)]"
      using fill_with_Inr [of mem p "Note_new t" nt] by (auto simp: Note_new_def note_ok_def opt_note_def)
    then show ?thesis using assms Inr by (auto simp: add_note_def intro: made_snoc)
  qed
  then show "made nts' (sp @ opt_note mem t p)" "ok \<longleftrightarrow> opt_note mem t p \<noteq> [] \<or> \<not> required" by auto
qed

lemma add_note_required:
  assumes "add_note (fill_with mem p (Note_new t)) True nts = (True, nts')" "made nts sp"
  shows "made nts' (sp @ [(t, p)])"
  using add_note_fill [OF assms] by (auto simp: opt_note_def split: if_splits)

lemma add_note_Inl: "add_note (Inl e) True nts = (ok, nts') \<Longrightarrow> \<not> ok"
  by (simp add: add_note_def)

lemma add_note_optional:
  assumes "made nts sp"
  shows "made (snd (add_note (fill_with mem p (Note_new t)) False nts)) (sp @ opt_note mem t p)"
proof -
  obtain ok nts' where "add_note (fill_with mem p (Note_new t)) False nts = (ok, nts')" by fastforce
  with add_note_fill(1) [OF this assms] show ?thesis by simp
qed

lemma thread_notes_ok:
  assumes "thread_notes mem clk arch added t nts = (True, nts')" "made nts sp"
  shows "made nts' (sp @ thread_spec mem clk arch (\<not> added) t)"
proof -
  obtain ok n1 where a: "add_note (fill_prstatus mem clk t (Note_new NT_PRSTATUS)) True nts = (ok, n1)" by fastforce
  then have ok using assms(1) by (cases ok) (auto simp: thread_notes_def)
  then obtain s where s: "td_d_stat t = Some s" "td_arch t = ARCH_X64 \<or> td_arch t = ARCH_AARCH64"
    using a add_note_Inl [of _ nts ok n1] by (auto simp: fill_prstatus_def split: option.splits if_splits)
  let ?st = "put_prstatus (prstatus_of clk t s)"
  have "add_note (fill_with mem ?st (Note_new NT_PRSTATUS)) True nts = (True, n1)"
    using a s \<open>ok\<close> by (simp add: fill_prstatus_def)
  from add_note_required [OF this assms(2)] have m1: "made n1 (sp @ [(NT_PRSTATUS, ?st)])" .
  define regs where "regs = (if td_fp_valid t
      then opt_note mem NT_FPREGSET (td_fpregs t) @
           (if arch = ARCH_X64 then opt_note mem NT_X86_XSTATE (td_xstate t) else []) else [])"
  have fp: "fill_fpregset mem t (Note_new NT_FPREGSET) = fill_with mem (td_fpregs t) (Note_new NT_FPREGSET)"
    using s(2) by (simp add: fill_fpregset_def)
  have m2: "made (register_notes mem arch t n1) ((sp @ [(NT_PRSTATUS, ?st)]) @ regs)"
  proof (cases "td_fp_valid t")
    case True
    let ?n = "snd (add_note (fill_with mem (td_fpregs t) (Note_new NT_FPREGSET)) False n1)"
    have "made ?n ((sp @ [(NT_PRSTATUS, ?st)]) @ opt_note mem NT_FPREGSET (td_fpregs t))"
      by (rule add_note_optional [OF m1])
    from this add_note_optional [OF this, of mem "td_xstate t" NT_X86_XSTATE] show ?thesis
      using True by (simp add: register_notes_def regs_def fp fill_x86_xstate_def Let_def)
  next
    case False
    then show ?thesis using m1 by (simp add: register_notes_def regs_def)
  qed
  have r: "(if added then (True, register_notes mem arch t n1)
      else add_note (fill_siginfo mem t (Note_new NT_SIGINFO)) True (register_notes mem arch t n1)) = (True, nts')"
    using assms(1) a \<open>ok\<close> by (cases added) (simp_all add: thread_notes_def Let_def)
  show ?thesis
  proof (cases added)
    case True
    then show ?thesis using r m2 s(1) by (simp add: thread_spec_def regs_def)
  next
    case False
    then have "add_note (fill_with mem (td_siginfo t) (Note_new NT_SIGINFO)) True (register_notes mem arch t n1) = (True, nts')"
      using r by (simp add: fill_siginfo_def)
    from add_note_required [OF this m2] False s(1) show ?thesis by (simp add: thread_spec_def regs_def)
  qed
qed

lemma all_thread_notes_ok:
  "all_thread_notes mem clk arch added ts nts = (True, nts') \<Longrightarrow> made nts sp \<Longrightarrow>
   made nts' (sp @ threads_spec mem clk arch (\<not> added) ts)"
proof (induction ts arbitrary: nts sp added)
  case Nil
  then show ?case by simp
next
  case (Cons t ts)
  then obtain n where n: "thread_notes mem clk arch added t nts = (True, n)"
    "all_thread_notes mem clk arch True ts n = (True, nts')"
    by (auto split: prod.splits bool.splits)
  from Cons.IH [OF n(2) thread_notes_ok [OF n(1) Cons.prems(2)]] show ?case by simp
qed

lemma notes_size_sum: "notes_size rc nts = Inr n \<Longrightarrow> n = rc + length (concat (map nt_data nts)) \<and> (rc \<le> INT_MAX \<longrightarrow> n \<le> INT_MAX)"
proof (induction nts arbitrary: rc)
  case Nil
  then show ?case by simp
next
  case (Cons a nts)
  then have "\<not> length (nt_data a) > INT_MAX - rc" "notes_size (rc + length (nt_data a)) nts = Inr n"
    by (auto split: if_splits)
  with Cons.IH [OF this(2)] show ?case by auto
qed

definition core_spec ::
    "(nat \<Rightarrow> bool) \<Rightarrow> int \<Rightarrow> nat \<Rightarrow> int \<Rightarrow> int \<Rightarrow> ProcessData \<Rightarrow> ProcStat \<Rightarrow> ProcFile \<Rightarrow> bytes \<Rightarrow> note_spec" where
  "core_spec mem clk arch pid crash_sig pd s auxv files =
     [(NT_PRPSINFO, put_prpsinfo (prpsinfo_of pd s (crash_sig \<noteq> 0))), (NT_AUXV, pf_text auxv), (NT_FILE, files)] @
     threads_spec mem clk arch True (pd_threads pd)"

lemma GenerateNotes_made:
  assumes "GenerateNotes mem clk arch pid crash_sig pd = Inr (n, nts)" "pd_d_maps pd = Some rs" "pd_d_auxv pd = Some av"
  obtains s auxv files where "process_stat pd pid = Some s" "pd_auxv pd = Some auxv"
    "file_payload (av_page_size av) (file_entries rs) = Inr files"
    "made nts (core_spec mem clk arch pid crash_sig pd s auxv files)"
    "n = length (concat (map nt_data nts))" "n \<le> INT_MAX"
proof -
  obtain ok1 n1 where a1: "add_note (fill_prpsinfo mem pd pid (crash_sig \<noteq> 0) (Note_new NT_PRPSINFO)) True [] = (ok1, n1)"
    by fastforce
  obtain ok2 n2 where a2: "add_note (fill_auxv mem pd (Note_new NT_AUXV)) True n1 = (ok2, n2)" by fastforce
  obtain ok3 n3 where a3: "add_note (fill_file mem pd (Note_new NT_FILE)) True n2 = (ok3, n3)" by fastforce
  obtain ok4 n4 where a4: "all_thread_notes mem clk arch False (pd_threads pd) n3 = (ok4, n4)" by fastforce
  have oks: "ok1" "ok2" "ok3" "ok4" and sz: "notes_size 0 n4 = Inr n" "n4 = nts"
    using assms(1) a1 a2 a3 a4 by (auto simp: GenerateNotes_def ebind_eq_Inr split: if_splits)
  obtain s where s: "process_stat pd pid = Some s"
    "fill_prpsinfo mem pd pid (crash_sig \<noteq> 0) (Note_new NT_PRPSINFO) =
       fill_with mem (put_prpsinfo (prpsinfo_of pd s (crash_sig \<noteq> 0))) (Note_new NT_PRPSINFO)"
    using a1 oks(1) add_note_Inl [of _ "[]" ok1 n1]
    by (auto simp: fill_prpsinfo_def split: option.splits if_splits)
  obtain auxv where x: "pd_auxv pd = Some auxv"
    "fill_auxv mem pd (Note_new NT_AUXV) = fill_with mem (pf_text auxv) (Note_new NT_AUXV)"
    using a2 oks(2) add_note_Inl [of _ n1 ok2 n2] by (auto simp: fill_auxv_def split: option.splits if_splits)
  obtain files where f: "file_payload (av_page_size av) (file_entries rs) = Inr files"
    "fill_file mem pd (Note_new NT_FILE) = fill_with mem files (Note_new NT_FILE)"
    using a3 oks(3) assms(2,3) add_note_Inl [of _ n2 ok3 n3]
    by (cases "file_payload (av_page_size av) (file_entries rs)") (auto simp: fill_file_def Let_def)
  have "made n1 ([] @ [(NT_PRPSINFO, put_prpsinfo (prpsinfo_of pd s (crash_sig \<noteq> 0)))])"
    by (rule add_note_required [OF _ made_Nil]) (use a1 oks(1) s(2) in simp)
  then have "made n2 (([] @ [(NT_PRPSINFO, put_prpsinfo (prpsinfo_of pd s (crash_sig \<noteq> 0)))]) @ [(NT_AUXV, pf_text auxv)])"
    by (rule add_note_required [rotated]) (use a2 oks(2) x(2) in simp)
  then have "made n3 ((([] @ [(NT_PRPSINFO, put_prpsinfo (prpsinfo_of pd s (crash_sig \<noteq> 0)))]) @
      [(NT_AUXV, pf_text auxv)]) @ [(NT_FILE, files)])"
    by (rule add_note_required [rotated]) (use a3 oks(3) f(2) in simp)
  from all_thread_notes_ok [OF _ this, of mem clk arch False "pd_threads pd" n4] a4 oks(4)
  have "made nts (core_spec mem clk arch pid crash_sig pd s auxv files)" by (simp add: core_spec_def sz(2))
  moreover have "n = length (concat (map nt_data nts))" "n \<le> INT_MAX"
    using notes_size_sum [OF sz(1)] sz(2) by auto
  ultimately show ?thesis using s(1) x(1) f(1) that by blast
qed

lemma made_parse:
  "made nts sp \<Longrightarrow> parse_notes (concat (map nt_data nts)) = Some (map (\<lambda>(t, p). (note_name t, t, p)) sp)"
  unfolding made_def
proof (induction rule: list_all2_induct)
  case Nil
  then show ?case by simp
next
  case (Cons nt nts tp sp)
  then show ?case by (cases tp) (auto simp: note_ok_def parse_notes_step)
qed

section \<open>Descriptors\<close>

text \<open>A descriptor of \<^verbatim>\<open>NT_FILE\<close>: count, page size, ranges with their offset in pages, names.\<close>

fun read_ranges :: "nat \<Rightarrow> u64 \<Rightarrow> bytes \<Rightarrow> (u64 \<times> u64 \<times> u64) list \<times> bytes" where
  "read_ranges 0 page bs = ([], bs)"
| "read_ranges (Suc n) page bs =
     (let (es, rest) = read_ranges n page (drop 24 bs)
      in ((get64 (field_at 8 0 bs), get64 (field_at 8 8 bs), get64 (field_at 8 16 bs) * page) # es, rest))"

fun read_names :: "nat \<Rightarrow> bytes \<Rightarrow> string list" where
  "read_names 0 bs = []"
| "read_names (Suc n) bs = takeWhile (\<lambda>c. c \<noteq> NUL) bs # read_names n (tl (dropWhile (\<lambda>c. c \<noteq> NUL) bs))"

definition read_nt_file :: "bytes \<Rightarrow> u64 \<times> ((u64 \<times> u64 \<times> u64) \<times> string) list" where
  "read_nt_file bs =
     (let n = unat (get64 (field_at 8 0 bs)); page = get64 (field_at 8 8 bs);
          (es, rest) = read_ranges n page (drop 16 bs)
      in (page, zip es (read_names n rest)))"

lemma mod_zero_div_mult: "(a::u64) mod p = 0 \<Longrightarrow> a div p * p = a"
  using div_mult_mod_eq [of a p] by simp

lemma read_ranges_addresses:
  "file_addresses page rs = Inr addrs \<Longrightarrow>
   read_ranges (length rs) page (addrs @ rest) = (map (\<lambda>r. (start_addr r, end_addr r, r_offset r)) rs, rest)"
proof (induction rs arbitrary: addrs)
  case Nil
  then show ?case by simp
next
  case (Cons r rs)
  then obtain bs where bs: "file_addresses page rs = Inr bs" "r_offset r mod page = 0"
    "addrs = put64 (start_addr r) @ put64 (end_addr r) @ put64 (r_offset r div page) @ bs"
    by (auto simp: ebind_eq_Inr split: if_splits)
  from Cons.IH [OF bs(1)] bs(2) show ?case
    unfolding bs(3) by (simp add: field_at_def mod_zero_div_mult)
qed

lemma read_names_concat:
  "\<forall>r \<in> set rs. NUL \<notin> set (r_name r) \<Longrightarrow>
   read_names (length rs) (concat (map (\<lambda>r. r_name r @ [NUL]) rs)) = map r_name rs"
  by (induction rs) auto

lemma read_nt_file_payload:
  assumes "file_payload page rs = Inr p" "\<forall>r \<in> set rs. NUL \<notin> set (r_name r)" "length rs < 2 ^ 64"
  shows "read_nt_file p = (page, map (\<lambda>r. ((start_addr r, end_addr r, r_offset r), r_name r)) rs)"
proof -
  from assms(1) obtain addrs where a: "file_addresses page rs = Inr addrs"
    "p = put64 (word_of_nat (length rs)) @ put64 page @ addrs @ concat (map (\<lambda>r. r_name r @ [NUL]) rs)"
    by (auto simp: file_payload_def ebind_eq_Inr split: if_splits)
  have n: "unat (word_of_nat (length rs) :: u64) = length rs"
    by (rule word64_less_of_nat) (use assms(3) in simp)
  show ?thesis
    unfolding a(2)
    by (simp add: read_nt_file_def field_at_def n read_ranges_addresses [OF a(1)] read_names_concat [OF assms(2)]
        zip_map_map zip_same_conv_map)
qed

lemma parse_maps_line_name: "parse_maps_line line prev = Inr r \<Longrightarrow> NUL \<notin> set (r_name r)"
proof -
  assume r: "parse_maps_line line prev = Inr r"
  have "set (map_name line k) \<subseteq> set line" for k
    by (auto simp: map_name_def dest!: set_dropWhileD in_set_dropD)
  moreover have "NUL \<notin> set line \<and> (\<exists>k. r_name r = map_name line k)"
    using r by (auto simp: parse_maps_line_def Let_def split: if_splits option.splits)
  ultimately obtain k where "r_name r = map_name line k" "NUL \<notin> set line" "set (map_name line k) \<subseteq> set line"
    by blast
  then show ?thesis by auto
qed

lemma maps_loop_names:
  "maps_loop lines prev acc = Inr rs \<Longrightarrow> \<forall>r \<in> set acc. NUL \<notin> set (r_name r) \<Longrightarrow> \<forall>r \<in> set rs. NUL \<notin> set (r_name r)"
proof (induction lines arbitrary: prev acc)
  case Nil
  then show ?case by simp
next
  case (Cons line lines)
  from Cons.prems(1) obtain r where
    r: "parse_maps_line line prev = Inr r" "maps_loop lines (end_addr r) (acc @ [r]) = Inr rs"
    by (auto split: sum.splits if_splits)
  show ?case
    by (rule Cons.IH [OF r(2)]) (use Cons.prems(2) parse_maps_line_name [OF r(1)] in auto)
qed

lemma maps_parse_names: "ProcMaps_Parse pf = Inr rs \<Longrightarrow> \<forall>r \<in> set rs. NUL \<notin> set (r_name r)"
  unfolding ProcMaps_Parse_def by (rule maps_loop_names) auto

section \<open>The properties\<close>

text \<open>
  C28: When \<^verbatim>\<open>GenerateNotes\<close> succeeds on parsed process data, the notes, laid end to end,
  are a well-formed note segment of exactly the returned size, at most \<^verbatim>\<open>INT_MAX\<close>: reading
  it yields one \<^verbatim>\<open>NT_PRPSINFO\<close>, one \<^verbatim>\<open>NT_AUXV\<close> with the captured vector, one \<^verbatim>\<open>NT_FILE\<close>,
  then for every thread in order one \<^verbatim>\<open>NT_PRSTATUS\<close>, its register sets if its
  floating-point state is valid, and after the first thread's the only \<^verbatim>\<open>NT_SIGINFO\<close>.
\<close>

theorem generated_notes_parse:
  assumes "GenerateNotes mem clk arch pid crash_sig pd = Inr (n, nts)" "pd_d_maps pd = Some rs" "pd_d_auxv pd = Some av"
  shows "\<exists>s auxv files. process_stat pd pid = Some s \<and> pd_auxv pd = Some auxv \<and>
    file_payload (av_page_size av) (file_entries rs) = Inr files \<and>
    parse_notes (concat (map nt_data nts)) =
      Some (map (\<lambda>(t, p). (note_name t, t, p)) (core_spec mem clk arch pid crash_sig pd s auxv files)) \<and>
    n = length (concat (map nt_data nts)) \<and> n \<le> INT_MAX"
proof -
  obtain s auxv files where "process_stat pd pid = Some s" "pd_auxv pd = Some auxv"
    "file_payload (av_page_size av) (file_entries rs) = Inr files"
    "made nts (core_spec mem clk arch pid crash_sig pd s auxv files)"
    "n = length (concat (map nt_data nts))" "n \<le> INT_MAX"
    by (rule GenerateNotes_made [OF assms])
  with made_parse show ?thesis by blast
qed

definition sample_stat_rec :: ProcStat where
  "sample_stat_rec = \<lparr>st_state = 1, st_sname = CHR ''S'', st_comm = ''sh'', st_pid = 42, st_ppid = 1,
     st_pgid = 42, st_sid = 42, st_stime = 150, st_utime = 4, st_cstime = 0, st_cutime = 0, st_vsize = 8,
     st_rss = 16, st_num_threads = 1, st_flags = 64, st_nice = 0, st_pending = 0, st_blocked = 512\<rparr>"

definition sample_thread :: ThreadData where
  "sample_thread = \<lparr>td_pid = 42, td_arch = ARCH_X64, td_regs = replicate X64_REGS NUL,
     td_fpregs = replicate X64_FPREGS NUL, td_xstate = replicate X86_XSTATE_MAX_SIZE NUL,
     td_siginfo = put32 11 @ put32 0 @ put32 1 @ replicate 116 NUL, td_prstatus_signal = 11, td_fp_valid = False,
     td_sigpend = 0, td_sighold = 2 ^ 40, td_masks_valid = True, td_stat = None,
     td_d_stat = Some sample_stat_rec\<rparr>"

definition sample_map_entry :: MemRegion where
  "sample_map_entry = \<lparr>start_addr = 0x400000, end_addr = 0x402000, r_offset = 0x1000, dev_major = 8, dev_minor = 1,
     inode = 99, perms = 5, is_private = True, is_shared = False, r_name = ''/bin/sh''\<rparr>"

definition sample_process :: ProcessData where
  "sample_process = ProcessData_new\<lparr>pd_auxv := Some \<lparr>f_size = 2, f_pid = 42, f_type = 4, f_data = ''xy''\<rparr>,
     pd_d_cmdline := Some [''sh'', ''-c''], pd_d_maps := Some [sample_map_entry],
     pd_d_auxv := Some \<lparr>av_uid = 0, av_gid = 0, av_euid = 0, av_egid = 0, av_page_size = 4096\<rparr>,
     pd_uid := 7, pd_gid := 8, pd_credentials_valid := True, pd_threads := [sample_thread]\<rparr>"

lemma length_prpsinfo_of: "length (put_prpsinfo (prpsinfo_of pd s c)) = 136"
  by (rule cprpsinfo.enc_length) (simp add: prpsinfo_of_def Let_def)

lemma length_sample_prstatus: "length (put_prstatus (prstatus_of 100 sample_thread s)) = 336"
  using cprstatus.enc_length [of "prstatus_of 100 sample_thread s" 216]
  by (simp add: prstatus_of_def Let_def sample_thread_def)

lemma length_sample_siginfo: "length (td_siginfo sample_thread) = 128"
  by (simp add: sample_thread_def)

lemma sample_files:
  "file_payload 4096 (file_entries [sample_map_entry]) =
     Inr (put64 1 @ put64 4096 @ (put64 0x400000 @ put64 0x402000 @ put64 1) @ ''/bin/sh'' @ [NUL])"
  by (simp add: file_payload_def file_entries_def sample_map_entry_def)

lemma sample_notes_generated:
  "\<exists>n nts. GenerateNotes (\<lambda>n. True) 100 ARCH_X64 42 11 sample_process = Inr (n, nts)"
proof -
  have t: "td_d_stat sample_thread = Some sample_stat_rec" "td_arch sample_thread = ARCH_X64"
    "td_fp_valid sample_thread = False" "sint (td_pid sample_thread) = 42"
    by (simp_all add: sample_thread_def)
  have pd: "pd_d_stat sample_process = None" "pd_threads sample_process = [sample_thread]"
    "pd_credentials_valid sample_process" "pd_auxv sample_process = Some \<lparr>f_size = 2, f_pid = 42, f_type = 4, f_data = ''xy''\<rparr>"
    "pd_d_maps sample_process = Some [sample_map_entry]"
    "pd_d_auxv sample_process = Some \<lparr>av_uid = 0, av_gid = 0, av_euid = 0, av_egid = 0, av_page_size = 4096\<rparr>"
    by (simp_all add: sample_process_def ProcessData_new_def)
  have ps: "process_stat sample_process 42 = Some sample_stat_rec"
    by (simp add: process_stat_def find_leader_stat_def pd t)
  show ?thesis
    by (simp add: GenerateNotes_def fill_prpsinfo_def ps pd fill_with_enough length_prpsinfo_of add_note_def
        fill_auxv_def pf_text_def fill_file_def sample_files thread_notes_def fill_prstatus_def t
        length_sample_prstatus register_notes_def fill_siginfo_def length_sample_siginfo Note_new_def
        length_note_bytes note_pad_def)
qed

lemma sample_process_parsed:
  "pd_d_maps sample_process = Some [sample_map_entry]"
  "pd_d_auxv sample_process = Some \<lparr>av_uid = 0, av_gid = 0, av_euid = 0, av_egid = 0, av_page_size = 4096\<rparr>"
  by (simp_all add: sample_process_def)

theorem generated_notes_parse_witness:
  "\<exists>n out nts. GenerateNotes (\<lambda>n. True) 100 ARCH_X64 42 11 sample_process = Inr (n, out) \<and>
     parse_notes (concat (map nt_data out)) = Some nts \<and>
     map (\<lambda>n. fst (snd n)) nts = [NT_PRPSINFO, NT_AUXV, NT_FILE, NT_PRSTATUS, NT_SIGINFO]"
proof -
  obtain n out where g: "GenerateNotes (\<lambda>n. True) 100 ARCH_X64 42 11 sample_process = Inr (n, out)"
    using sample_notes_generated by blast
  from generated_notes_parse [OF g sample_process_parsed] g show ?thesis
    by (auto simp: core_spec_def sample_process_def thread_spec_def sample_thread_def comp_def)
qed

text \<open>
  C31: The \<^verbatim>\<open>NT_FILE\<close> note gives a debugger the file mappings back: from the descriptor it
  reads the target's page size and, for exactly the mappings that have a name and an
  inode, in order, the address range, the byte offset in the file (stored in pages) and
  the full name.
\<close>

theorem nt_file_round_trip:
  assumes "fill_file mem pd (Note_new NT_FILE) = Inr nt" "ProcMaps_Parse (pd_maps pd) = Inr rs"
    and "pd_d_maps pd = Some rs" "pd_d_auxv pd = Some av"
  shows "\<exists>p. parse_notes (nt_data nt) = Some [(''CORE'', NT_FILE, p)] \<and>
    read_nt_file p = (av_page_size av, map (\<lambda>r. ((start_addr r, end_addr r, r_offset r), r_name r)) (file_entries rs))"
proof -
  from assms obtain p where p: "file_payload (av_page_size av) (file_entries rs) = Inr p"
    "fill_with mem p (Note_new NT_FILE) = Inr nt"
    by (auto simp: fill_file_def Let_def ebind_eq_Inr)
  have nt: "nt_data nt = note_bytes NT_FILE p" "length p \<le> UINT32_MAX"
    using p(2) by (auto simp: fill_with_Inr Note_new_def)
  have "parse_notes (nt_data nt) = Some [(''CORE'', NT_FILE, p)]"
    using parse_notes_step [OF nt(2), of NT_FILE "[]"] nt(1) by (simp add: note_name_def)
  moreover have "\<forall>r \<in> set (file_entries rs). NUL \<notin> set (r_name r)"
    using maps_parse_names [OF assms(2)] by (simp add: file_entries_def)
  moreover have "length (file_entries rs) < 2 ^ 64"
  proof -
    have "length (file_entries rs) \<le> length rs" by (simp add: file_entries_def)
    moreover have "length rs \<le> 1048576" using maps_parse_ordered [OF assms(2)] by simp
    ultimately show ?thesis by simp
  qed
  ultimately show ?thesis using read_nt_file_payload [OF p(1)] by blast
qed

definition sample_maps_pf :: ProcFile where
  "sample_maps_pf = \<lparr>f_size = word_of_nat (length (maps_text column_pad [sample_map_entry])), f_pid = 42, f_type = 5,
     f_data = maps_text column_pad [sample_map_entry]\<rparr>"

theorem nt_file_round_trip_witness:
  "\<exists>nt p. fill_file (\<lambda>n. True) sample_process (Note_new NT_FILE) = Inr nt \<and>
     parse_notes (nt_data nt) = Some [(''CORE'', NT_FILE, p)] \<and>
     read_nt_file p = (4096, [((0x400000, 0x402000, 0x1000), ''/bin/sh'')])"
proof -
  let ?pd = "sample_process\<lparr>pd_maps := Some sample_maps_pf\<rparr>"
  obtain nt where nt: "fill_file (\<lambda>n. True) sample_process (Note_new NT_FILE) = Inr nt"
    by (simp add: fill_file_def sample_process_parsed sample_files fill_with_enough)
  then have f: "fill_file (\<lambda>n. True) ?pd (Note_new NT_FILE) = Inr nt" by (simp add: fill_file_def)
  have m: "ProcMaps_Parse (pd_maps ?pd) = Inr [sample_map_entry]"
  proof -
    have "ProcMaps_Parse (Some sample_maps_pf) = Inr [sample_map_entry]" by code_simp
    then show ?thesis by simp
  qed
  from nt_file_round_trip [OF f m] nt show ?thesis
    by (simp add: sample_process_def file_entries_def sample_map_entry_def)
qed

text \<open>
  C32: Every \<^verbatim>\<open>NT_PRSTATUS\<close> carries the thread's own state: a note that \<^verbatim>\<open>fill_prstatus\<close>
  produced for a thread with a full register image reads back as the thread's registers; the
  process, parent, group and session ids and the four times of its stat record; the
  process-level signal, with the code and error number of the thread's signal information when
  that is for the same, non-zero signal and zeros when it is not; the 64-bit signal masks when
  they were captured and those of the stat record when they were not; and whether floating
  point registers follow.
\<close>

theorem prstatus_round_trip:
  assumes "fill_prstatus mem clk t (Note_new NT_PRSTATUS) = Inr nt" "td_d_stat t = Some s"
    and "length (td_regs t) = n"
  shows "\<exists>p st. parse_notes (nt_data nt) = Some [(''CORE'', NT_PRSTATUS, p)] \<and> length p = 120 + n \<and>
    get_prstatus n p = st \<and> pr_reg st = td_regs t \<and>
    pr_pid st = word_of_int (st_pid s) \<and> pr_ppid st = word_of_int (st_ppid s) \<and>
    pr_pgrp st = word_of_int (st_pgid s) \<and> pr_sid st = word_of_int (st_sid s) \<and>
    pr_utime st = jiffies_to_timeval clk (st_utime s) \<and> pr_stime st = jiffies_to_timeval clk (st_stime s) \<and>
    pr_cutime st = jiffies_to_timeval clk (st_cutime s) \<and> pr_cstime st = jiffies_to_timeval clk (st_cstime s) \<and>
    pr_cursig st = word_of_int (td_prstatus_signal t) \<and> pr_si_signo st = word_of_int (td_prstatus_signal t) \<and>
    (pr_si_code st, pr_si_errno st) =
      (if td_prstatus_signal t \<noteq> 0 \<and> si_signo t = td_prstatus_signal t then (si_code t, si_errno t) else (0, 0)) \<and>
    (pr_sigpend st, pr_sighold st) =
      (if td_masks_valid t then (td_sigpend t, td_sighold t) else (word_of_nat (st_pending s), word_of_nat (st_blocked s))) \<and>
    pr_fpvalid st = (if td_fp_valid t then 1 else 0)"
proof -
  let ?st = "prstatus_of clk t s"
  have f: "fill_with mem (put_prstatus ?st) (Note_new NT_PRSTATUS) = Inr nt"
    using assms(1,2) by (auto simp: fill_prstatus_def split: if_splits)
  have reg: "length (pr_reg ?st) = n" using assms(3) by (simp add: prstatus_of_def Let_def)
  have nt: "nt_data nt = note_bytes NT_PRSTATUS (put_prstatus ?st)" "length (put_prstatus ?st) \<le> UINT32_MAX"
    using f by (auto simp: fill_with_Inr Note_new_def)
  have "parse_notes (nt_data nt) = Some [(''CORE'', NT_PRSTATUS, put_prstatus ?st)]"
    using parse_notes_step [OF nt(2), of NT_PRSTATUS "[]"] nt(1) by (simp add: note_name_def)
  moreover have "get_prstatus n (put_prstatus ?st) = ?st" "length (put_prstatus ?st) = 120 + n"
    using cprstatus.dec_enc [OF reg] cprstatus.enc_length [OF reg] by auto
  ultimately show ?thesis by (auto simp: prstatus_of_def Let_def)
qed

theorem prstatus_round_trip_witness:
  "\<exists>nt p. fill_prstatus (\<lambda>n. True) 100 sample_thread (Note_new NT_PRSTATUS) = Inr nt \<and>
     parse_notes (nt_data nt) = Some [(''CORE'', NT_PRSTATUS, p)] \<and>
     pr_cursig (get_prstatus 216 p) = 11 \<and> pr_sighold (get_prstatus 216 p) = 2 ^ 40"
proof -
  have t: "td_d_stat sample_thread = Some sample_stat_rec" "td_arch sample_thread = ARCH_X64"
    by (simp_all add: sample_thread_def)
  obtain nt where f: "fill_prstatus (\<lambda>n. True) 100 sample_thread (Note_new NT_PRSTATUS) = Inr nt"
    by (simp add: fill_prstatus_def t fill_with_enough length_sample_prstatus)
  from prstatus_round_trip [OF f t(1), of 216] f show ?thesis
    by (auto simp: sample_thread_def)
qed

end
