(* ===== verification/Stdio.thy ===== *)
theory Stdio
  imports Prelude
begin

text \<open>
  The C stdio calls the program makes on a \<^verbatim>\<open>FILE *\<close>. A file is its bytes and a position;
  what the operating system decides is in the record: the offset from which writes fail
  (a full disk, so that \<^verbatim>\<open>fwrite\<close> is short), the offset from which reads fail, whether
  the file can seek, and the outcomes of the final \<^verbatim>\<open>fflush\<close>, \<^verbatim>\<open>fsync\<close> and \<^verbatim>\<open>fclose\<close>
  (delayed \<^verbatim>\<open>ENOSPC\<close>).
\<close>

record FILE =
  fl_data :: bytes
  fl_pos :: nat
  fl_limit :: nat              \<comment> \<open>no byte can be stored at this offset or above\<close>
  fl_bad :: "nat option"       \<comment> \<open>reads from this offset fail\<close>
  fl_seekable :: bool
  fl_err :: bool               \<comment> \<open>\<^verbatim>\<open>ferror\<close>\<close>
  fl_eof :: bool               \<comment> \<open>\<^verbatim>\<open>feof\<close>\<close>
  fl_flush_ok :: bool
  fl_sync_ok :: bool
  fl_close_ok :: bool

definition fwrite :: "bytes \<Rightarrow> FILE \<Rightarrow> nat \<times> FILE" where
  "fwrite bs f =
     (let n = min (length bs) (fl_limit f - fl_pos f)
      in (n, f\<lparr>fl_data := take (fl_pos f) (fl_data f) @ take n bs @ drop (fl_pos f + n) (fl_data f),
               fl_pos := fl_pos f + n,
               fl_err := (fl_err f \<or> n < length bs)\<rparr>))"

definition readable :: "FILE \<Rightarrow> nat" where
  "readable f = (case fl_bad f of None \<Rightarrow> length (fl_data f) | Some b \<Rightarrow> min b (length (fl_data f)))"

definition read_fails :: "FILE \<Rightarrow> bool" where
  "read_fails f = (case fl_bad f of None \<Rightarrow> False | Some b \<Rightarrow> b \<le> length (fl_data f))"

definition fread :: "nat \<Rightarrow> FILE \<Rightarrow> bytes \<times> FILE" where
  "fread n f =
     (let got = take n (drop (fl_pos f) (take (readable f) (fl_data f)))
      in (got, f\<lparr>fl_pos := fl_pos f + length got,
                 fl_err := (fl_err f \<or> length got < n \<and> read_fails f),
                 fl_eof := (fl_eof f \<or> length got < n \<and> \<not> read_fails f)\<rparr>))"

definition fseek :: "nat \<Rightarrow> FILE \<Rightarrow> FILE option" where
  "fseek n f = (if fl_seekable f then Some (f\<lparr>fl_pos := n, fl_eof := False\<rparr>) else None)"

definition ftell :: "FILE \<Rightarrow> nat option" where
  "ftell f = (if fl_seekable f then Some (fl_pos f) else None)"

section \<open>Appending\<close>

definition at_end :: "FILE \<Rightarrow> bool" where
  "at_end f \<longleftrightarrow> fl_pos f = length (fl_data f)"

lemma fwrite_full:
  assumes "fwrite bs f = (length bs, f')" "at_end f"
  shows "fl_data f' = fl_data f @ bs" "at_end f'" "fl_err f' = fl_err f"
    "fl_limit f' = fl_limit f" "fl_seekable f' = fl_seekable f" "fl_bad f' = fl_bad f"
  using assms by (auto simp: fwrite_def at_end_def Let_def)

lemma fwrite_short:
  assumes "fwrite bs f = (n, f')" "n \<noteq> length bs"
  shows "fl_err f'" "n < length bs"
  using assms by (auto simp: fwrite_def Let_def)

lemma fwrite_at_end:
  "fwrite bs f = (n, f') \<Longrightarrow> at_end f \<Longrightarrow> fl_data f' = fl_data f @ take n bs \<and> at_end f' \<and> n \<le> length bs"
  by (auto simp: fwrite_def at_end_def Let_def)

lemma fwrite_frame [step_simps]:
  "fwrite bs f = (n, f') \<Longrightarrow>
     fl_limit f' = fl_limit f \<and> fl_bad f' = fl_bad f \<and> fl_seekable f' = fl_seekable f \<and>
     fl_eof f' = fl_eof f \<and> fl_flush_ok f' = fl_flush_ok f \<and> fl_sync_ok f' = fl_sync_ok f \<and>
     fl_close_ok f' = fl_close_ok f"
  by (auto simp: fwrite_def Let_def)

section \<open>Reading\<close>

definition healthy :: "FILE \<Rightarrow> bool" where
  "healthy f \<longleftrightarrow> fl_bad f = None \<and> \<not> fl_err f"

definition unread :: "FILE \<Rightarrow> bytes" where
  "unread f = drop (fl_pos f) (fl_data f)"

lemma fread_frame [step_simps]:
  "fread n f = (got, f') \<Longrightarrow>
     fl_data f' = fl_data f \<and> fl_bad f' = fl_bad f \<and> fl_seekable f' = fl_seekable f \<and>
     fl_pos f' = fl_pos f + length got \<and> length got \<le> n"
  by (auto simp: fread_def Let_def)

lemma fread_healthy:
  "healthy f \<Longrightarrow> fread n f = (got, f') \<Longrightarrow>
     got = take n (unread f) \<and> unread f' = drop n (unread f) \<and> healthy f' \<and>
     fl_eof f' = (fl_eof f \<or> length (unread f) < n)"
  by (auto simp: fread_def healthy_def unread_def readable_def read_fails_def Let_def min_def
      add.commute split: if_splits)

lemma fread_exact:
  assumes "healthy f" "unread f = bs @ rest" "length bs = n"
  obtains f' where "fread n f = (bs, f')" "healthy f'" "unread f' = rest" "fl_data f' = fl_data f"
    "fl_seekable f' = fl_seekable f" "fl_pos f' = fl_pos f + n" "fl_eof f' = fl_eof f"
proof -
  obtain got f' where r: "fread n f = (got, f')" by fastforce
  from fread_healthy [OF assms(1) r] assms
  have g: "got = bs" "healthy f'" "unread f' = rest" "fl_eof f' = fl_eof f" by auto
  from fread_frame [OF r] g assms
  have "fl_data f' = fl_data f" "fl_seekable f' = fl_seekable f" "fl_pos f' = fl_pos f + n" by auto
  with r g show ?thesis by (intro that [of f']) simp_all
qed

end
