(* ===== verification/Lz4Block.thy ===== *)
theory Lz4Block
  imports Stdio
begin

text \<open>
  \<^verbatim>\<open>src/lz4.h\<close>: block types, the packed three-byte block header and the buffer class
  \<^verbatim>\<open>Block\<close>; and from \<^verbatim>\<open>src/lz4.cc\<close> the CRC32 of a block. A pointer argument is an
  option, \<open>None\<close> for a null pointer with a non-zero size.
\<close>

section \<open>Block types\<close>

datatype block_type =
    BLOCK_TYPE_STREAM | BLOCK_TYPE_PROCESS | BLOCK_TYPE_THREAD
  | BLOCK_TYPE_FILE | BLOCK_TYPE_LOADS | BLOCK_TYPE_ELF

type_synonym u4 = "4 word"

fun block_code :: "block_type \<Rightarrow> nat" where
  "block_code BLOCK_TYPE_STREAM = 0"
| "block_code BLOCK_TYPE_PROCESS = 1"
| "block_code BLOCK_TYPE_THREAD = 2"
| "block_code BLOCK_TYPE_FILE = 3"
| "block_code BLOCK_TYPE_LOADS = 4"
| "block_code BLOCK_TYPE_ELF = 5"

abbreviation (input) BLOCK_TYPE_MAX :: nat where "BLOCK_TYPE_MAX \<equiv> 6"

definition szBlockType :: "nat \<Rightarrow> string option" where
  "szBlockType t =
     (if t = 0 then Some ''stream'' else if t = 1 then Some ''process''
      else if t = 2 then Some ''thread'' else if t = 3 then Some ''file''
      else if t = 4 then Some ''loads'' else if t = 5 then Some ''elf'' else None)"

lemma block_code_less [simp]: "block_code t < BLOCK_TYPE_MAX"
  by (cases t) simp_all

lemma block_code_inj [simp]: "block_code a = block_code b \<longleftrightarrow> a = b"
  by (cases a; cases b) simp_all

instantiation block_type :: linorder
begin

definition less_eq_block_type :: "block_type \<Rightarrow> block_type \<Rightarrow> bool" where
  "less_eq_block_type a b \<longleftrightarrow> block_code a \<le> block_code b"

definition less_block_type :: "block_type \<Rightarrow> block_type \<Rightarrow> bool" where
  "less_block_type a b \<longleftrightarrow> block_code a < block_code b"

instance
  by standard (auto simp: less_eq_block_type_def less_block_type_def)

end

section \<open>The block header\<close>

record BlockHeader =
  hdr_cont :: "1 word"
  hdr_type :: u4
  hdr_size :: "19 word"

definition BlockHeader_init :: BlockHeader where
  "BlockHeader_init = \<lparr>hdr_cont = 0, hdr_type = 0, hdr_size = 0\<rparr>"

definition TailMark :: BlockHeader where
  "TailMark = \<lparr>hdr_cont = 0, hdr_type = -1 AND 0xF, hdr_size = -1 AND 0x7FFFF\<rparr>"

definition isTailMark :: "BlockHeader \<Rightarrow> bool" where
  "isTailMark h \<longleftrightarrow> hdr_cont h = hdr_cont TailMark \<and> hdr_type h = hdr_type TailMark \<and>
                    hdr_size h = hdr_size TailMark"

text \<open>Bit fields of a little-endian word, lowest first, packed into three bytes.\<close>

definition put_hdr :: "BlockHeader \<Rightarrow> bytes" where
  "put_hdr h = le_bytes 3 (unat (hdr_cont h) + 2 * unat (hdr_type h) + 32 * unat (hdr_size h))"

definition get_hdr :: "bytes \<Rightarrow> BlockHeader" where
  "get_hdr bs =
     (let v = le_val bs
      in \<lparr>hdr_cont = word_of_nat v, hdr_type = word_of_nat (v div 2), hdr_size = word_of_nat (v div 32)\<rparr>)"

abbreviation (input) sizeof_BlockHeader :: nat where "sizeof_BlockHeader \<equiv> 3"

lemma length_put_hdr [simp, codec_simps]: "length (put_hdr h) = 3"
  by (simp add: put_hdr_def)

lemma hdr_value_less:
  "unat (hdr_cont h) + 2 * unat (hdr_type h) + 32 * unat (hdr_size h) < 2 ^ 24"
  using unsigned_less [of "hdr_cont h", where ?'a = nat] unsigned_less [of "hdr_type h", where ?'a = nat]
    unsigned_less [of "hdr_size h", where ?'a = nat] by simp

lemma hdr_fields:
  assumes "a < 2" "b < 16"
  shows "(a + 2 * b + 32 * c) mod 2 = a" "(a + 2 * b + 32 * c) div 2 mod 16 = b"
    "(a + 2 * b + 32 * c) div 32 = (c::nat)"
proof -
  show "(a + 2 * b + 32 * c) mod 2 = a" using assms by presburger
  have "(a + 2 * b + 32 * c) div 2 = b + 16 * c" using assms by presburger
  then show "(a + 2 * b + 32 * c) div 2 mod 16 = b" using assms by simp
  show "(a + 2 * b + 32 * c) div 32 = c" using assms by presburger
qed

lemma word_of_nat_eqI:
  "v mod 2 ^ LENGTH('a) = unat w \<Longrightarrow> word_of_nat v = (w :: 'a::len word)"
  by (simp only: word_unat_eq_iff unat_of_nat)

lemma get_hdr_put_hdr: "get_hdr (put_hdr h) = h"
proof -
  define v where "v = unat (hdr_cont h) + 2 * unat (hdr_type h) + 32 * unat (hdr_size h)"
  have b: "unat (hdr_cont h) < 2" "unat (hdr_type h) < 16" "unat (hdr_size h) < 524288"
    using unsigned_less [of "hdr_cont h", where ?'a = nat] unsigned_less [of "hdr_type h", where ?'a = nat]
      unsigned_less [of "hdr_size h", where ?'a = nat] by simp_all
  note f = hdr_fields [OF b(1,2), of "unat (hdr_size h)", folded v_def]
  have "le_val (put_hdr h) = v"
    using hdr_value_less [of h] by (simp add: put_hdr_def le_val_le_bytes v_def)
  moreover have "(word_of_nat v :: 1 word) = hdr_cont h"
    by (rule word_of_nat_eqI) (simp add: f)
  moreover have "(word_of_nat (v div 2) :: 4 word) = hdr_type h"
    by (rule word_of_nat_eqI) (simp add: f)
  moreover have "(word_of_nat (v div 32) :: 19 word) = hdr_size h"
    by (rule word_of_nat_eqI) (use b in \<open>simp add: f\<close>)
  ultimately show ?thesis by (cases h) (simp add: get_hdr_def Let_def)
qed

lemma hdr_split: "n < 16777216 \<Longrightarrow> n mod 2 + 2 * (n div 2 mod 16) + 32 * (n div 32 mod 524288) = (n::nat)"
proof -
  assume n: "n < 16777216"
  have "n div 32 mod 524288 = n div 32" using n by simp
  moreover have "n div 32 = n div 2 div 16" by (simp add: div_mult2_eq [symmetric])
  moreover have "n div 2 mod 16 + 16 * (n div 2 div 16) = n div 2" by simp
  moreover have "n mod 2 + 2 * (n div 2) = n" by simp
  ultimately show ?thesis by linarith
qed

lemma put_hdr_get_hdr:
  assumes "length bs = 3"
  shows "put_hdr (get_hdr bs) = bs"
proof -
  define n where "n = le_val bs"
  have "n < 16777216" using le_val_less [of bs] assms by (simp add: n_def)
  note h = hdr_split [OF this]
  have "put_hdr (get_hdr bs) = le_bytes 3 n"
    by (simp only: put_hdr_def get_hdr_def Let_def unat_of_nat BlockHeader.simps flip: n_def)
      (simp add: h)
  then show ?thesis using assms by (simp add: n_def le_bytes_le_val)
qed

interpretation chdr: total_codec put_hdr get_hdr 3 "\<lambda>_. True"
  by unfold_locales (simp_all add: get_hdr_put_hdr put_hdr_get_hdr)

lemmas get_put_hdr [simp, codec_simps] = chdr.dec_enc [OF TrueI]

lemma isTailMark_iff: "isTailMark h \<longleftrightarrow> h = TailMark"
  by (cases h) (auto simp: isTailMark_def TailMark_def)

section \<open>The block buffer\<close>

abbreviation (input) BLOCK_SIZE :: nat where "BLOCK_SIZE \<equiv> 65536"

text \<open>
  \<open>b_buf\<close> holds \<^verbatim>\<open>_buf[0 .. _length)\<close>; what lies behind \<^verbatim>\<open>_length\<close> is never read.
\<close>

record block =
  b_cur :: nat
  b_buf :: bytes

definition Block_Size :: "block \<Rightarrow> nat" where "Block_Size b = length (b_buf b) - b_cur b"
definition Block_Length :: "block \<Rightarrow> nat" where "Block_Length b = length (b_buf b)"
definition Block_Available :: "block \<Rightarrow> nat" where "Block_Available b = BLOCK_SIZE - length (b_buf b)"
definition Block_Clear :: "block \<Rightarrow> block" where "Block_Clear b = b\<lparr>b_cur := 0, b_buf := []\<rparr>"
definition Block_isEnd :: "block \<Rightarrow> bool" where "Block_isEnd b \<longleftrightarrow> b_cur b = length (b_buf b)"
definition Block_isEmpty :: "block \<Rightarrow> bool" where "Block_isEmpty b \<longleftrightarrow> length (b_buf b) = 0"
definition empty_block :: block where "empty_block = \<lparr>b_cur = 0, b_buf = []\<rparr>"

definition Block_Write :: "bytes option \<Rightarrow> block \<Rightarrow> (err + nat) \<times> block" where
  "Block_Write src b =
     (case src of
        None \<Rightarrow> (Inl EINVAL, b)
      | Some s \<Rightarrow>
          if length s = 0 then (Inr 0, b)
          else if length s > Block_Available b then (Inl ENOSPC, b)
          else (Inr (length s), b\<lparr>b_buf := b_buf b @ s\<rparr>))"

definition Block_Read :: "nat \<Rightarrow> block \<Rightarrow> (err + bytes) \<times> block" where
  "Block_Read n b =
     (if n = 0 then (Inr [], b)
      else if n > Block_Size b then (Inl ENOSPC, b)
      else let m = min n (Block_Size b)
           in (Inr (take m (drop (b_cur b) (b_buf b))), b\<lparr>b_cur := b_cur b + m\<rparr>))"

definition Block_Peek :: "nat \<Rightarrow> block \<Rightarrow> err + bytes" where
  "Block_Peek n b =
     (if n = 0 then Inr []
      else if n > Block_Size b then Inl ENOSPC
      else Inr (take n (drop (b_cur b) (b_buf b))))"

definition wf_block :: "block \<Rightarrow> bool" where
  "wf_block b \<longleftrightarrow> b_cur b \<le> length (b_buf b) \<and> length (b_buf b) \<le> BLOCK_SIZE"

definition block_rest :: "block \<Rightarrow> bytes" where
  "block_rest b = drop (b_cur b) (b_buf b)"

lemma Block_Clear_eq [simp]: "Block_Clear b = empty_block"
  by (cases b) (simp add: Block_Clear_def empty_block_def)

lemma Block_Size_rest: "Block_Size b = length (block_rest b)"
  by (simp add: Block_Size_def block_rest_def)

lemma wf_empty_block [simp]: "wf_block empty_block"
  by (simp add: wf_block_def empty_block_def)

lemma Block_Write_wf: "wf_block b \<Longrightarrow> Block_Write src b = (r, b') \<Longrightarrow> wf_block b'"
  by (auto simp: Block_Write_def wf_block_def Block_Available_def split: option.splits if_splits)

lemma Block_Read_wf: "wf_block b \<Longrightarrow> Block_Read n b = (r, b') \<Longrightarrow> wf_block b'"
  by (auto simp: Block_Read_def wf_block_def Block_Size_def Let_def split: if_splits)

lemma Block_Write_Inr:
  "Block_Write src b = (Inr n, b') \<Longrightarrow> \<exists>s. src = Some s \<and> n = length s \<and> b' = b\<lparr>b_buf := b_buf b @ s\<rparr>"
  by (cases b) (auto simp: Block_Write_def split: option.splits if_splits)

lemma Block_Read_Inr:
  "Block_Read n b = (Inr bs, b') \<Longrightarrow> wf_block b \<Longrightarrow>
     length bs = n \<and> block_rest b = bs @ block_rest b' \<and> b_buf b' = b_buf b"
  by (auto simp: Block_Read_def block_rest_def wf_block_def Block_Size_def min_def Let_def add.commute
      simp flip: drop_drop split: if_splits)

lemma Block_Read_prefix:
  "block_rest b = bs @ r \<Longrightarrow> Block_Read (length bs) b = (Inr bs, b\<lparr>b_cur := b_cur b + length bs\<rparr>)"
  by (cases b) (auto simp: Block_Read_def block_rest_def Block_Size_rest Let_def)

section \<open>CRC32\<close>

abbreviation (input) CRC_POLY :: u32 where "CRC_POLY \<equiv> 0xedb88320"

definition crc_bit :: "u32 \<Rightarrow> u32" where
  "crc_bit v = drop_bit 1 v XOR (if v AND 1 \<noteq> 0 then CRC_POLY else 0)"

definition crc_table :: "u32 list" where
  "crc_table = map (\<lambda>i. (crc_bit ^^ 8) (word_of_nat i)) [0..<256]"

definition crc_step :: "u32 \<Rightarrow> char \<Rightarrow> u32" where
  "crc_step crc b = crc_table ! unat ((crc XOR of_char b) AND 0xff) XOR drop_bit 8 crc"

definition crc32_update :: "u32 \<Rightarrow> bytes \<Rightarrow> u32" where
  "crc32_update crc bs = foldl crc_step crc bs"

definition block_checksum :: "BlockHeader \<Rightarrow> bytes \<Rightarrow> u32" where
  "block_checksum h bs = crc32_update (crc32_update 0xffffffff (put_hdr h)) bs XOR 0xffffffff"

end
