(* ===== verification/Lz4Stream.thy ===== *)
theory Lz4Stream
  imports Lz4Block ProcFs
begin

text \<open>
  \<^verbatim>\<open>class Lz4Stream\<close> of \<^verbatim>\<open>src/lz4.h\<close> and \<^verbatim>\<open>src/lz4.cc\<close>: the block stream every acore file
  and every checksummed test stream is written with and read from. One definition per
  member function, each a map from the stream to its result and the next stream; a
  result \<open>Inl e\<close> is a return of \<^verbatim>\<open>-1\<close> (or \<^verbatim>\<open>NULL\<close>) with \<^verbatim>\<open>errno\<close> \<open>e\<close>.

  The LZ4 library is a parameter: \<open>('e, 'd) lz4_codec\<close> holds its entry points, \<open>'e\<close> and
  \<open>'d\<close> its encoder and decoder states. The theory \<open>Lz4Reader\<close> states what is relied on.
\<close>

section \<open>The LZ4 library\<close>

record ('e, 'd) lz4_codec =
  LZ4_createStream :: "'e option"
  LZ4_initStream :: "'e \<Rightarrow> 'e option"
  LZ4_createStreamDecode :: "'d option"
  LZ4_decoderRingBufferSize :: "nat \<Rightarrow> int"
  LZ4_setStreamDecode :: "'d \<Rightarrow> 'd option"
  cd_malloc :: "nat \<Rightarrow> bool"
  LZ4_compress :: "'e \<Rightarrow> nat \<Rightarrow> bytes \<Rightarrow> nat \<Rightarrow> bytes option \<times> 'e"
    \<comment> \<open>\<^verbatim>\<open>LZ4_compress_fast_continue\<close>: state, index of the source buffer, source, capacity\<close>
  LZ4_decompress :: "'d \<Rightarrow> nat \<Rightarrow> bytes \<Rightarrow> nat \<Rightarrow> bytes option \<times> 'd"
    \<comment> \<open>\<^verbatim>\<open>LZ4_decompress_safe_continue\<close>: state, ring offset, source, capacity\<close>

definition LZ4_COMPRESSBOUND :: "nat \<Rightarrow> nat" where
  "LZ4_COMPRESSBOUND n = (if n > 0x7E000000 then 0 else n + n div 255 + 16)"

abbreviation (input) COMPRESS_BUF :: nat where "COMPRESS_BUF \<equiv> 65809"

lemma COMPRESS_BUF: "LZ4_COMPRESSBOUND BLOCK_SIZE = COMPRESS_BUF"
  by (simp add: LZ4_COMPRESSBOUND_def)

section \<open>The stream\<close>

datatype lz4_mode = LZ4_Compress | LZ4_Decompress

record ('e, 'd) stream =
  s_mode :: lz4_mode
  s_blocks :: "block list"
  s_index :: u64
  s_type :: int
  s_file :: "FILE option"
  s_enc :: "'e option"
  s_dec :: "'d option"
  s_ring :: nat               \<comment> \<open>\<^verbatim>\<open>_decode_ring_size\<close>\<close>
  s_off :: nat                \<comment> \<open>\<^verbatim>\<open>_decode_offset\<close>\<close>
  s_real :: u64
  s_fsize :: u64
  s_clean :: bool             \<comment> \<open>\<^verbatim>\<open>_eof_clean\<close>\<close>
  s_tail :: bool              \<comment> \<open>\<^verbatim>\<open>_tail_seen\<close>\<close>
  s_sums :: bool              \<comment> \<open>\<^verbatim>\<open>_block_checksums\<close>\<close>

abbreviation (input) MAX_RING_BUF :: nat where "MAX_RING_BUF \<equiv> 2"

definition Lz4Stream_new :: "lz4_mode \<Rightarrow> ('e, 'd) stream" where
  "Lz4Stream_new m =
     \<lparr>s_mode = m, s_blocks = replicate MAX_RING_BUF empty_block, s_index = 0,
      s_type = int (block_code BLOCK_TYPE_PROCESS), s_file = None, s_enc = None, s_dec = None,
      s_ring = 0, s_off = 0, s_real = 0, s_fsize = 0, s_clean = True, s_tail = False,
      s_sums = False\<rparr>"

definition cur_ix :: "('e, 'd) stream \<Rightarrow> nat" where
  "cur_ix st = unat (s_index st) mod MAX_RING_BUF"

definition CurrentBlock :: "('e, 'd) stream \<Rightarrow> block" where
  "CurrentBlock st = s_blocks st ! cur_ix st"

definition set_block :: "block \<Rightarrow> ('e, 'd) stream \<Rightarrow> ('e, 'd) stream" where
  "set_block b st = st\<lparr>s_blocks := (s_blocks st)[cur_ix st := b]\<rparr>"

definition ReleaseCodec :: "('e, 'd) stream \<Rightarrow> ('e, 'd) stream" where
  "ReleaseCodec st = st\<lparr>s_enc := None, s_dec := None, s_ring := 0, s_off := 0\<rparr>"

definition ResetState :: "('e, 'd) stream \<Rightarrow> ('e, 'd) stream" where
  "ResetState st =
     st\<lparr>s_index := 0, s_type := int (block_code BLOCK_TYPE_PROCESS), s_real := 0, s_fsize := 0,
        s_clean := True, s_tail := False, s_sums := False, s_off := 0,
        s_blocks := map Block_Clear (s_blocks st)\<rparr>"

definition InitCodec :: "('e, 'd) lz4_codec \<Rightarrow> ('e, 'd) stream \<Rightarrow> (err + unit) \<times> ('e, 'd) stream" where
  "InitCodec cdc st =
     (case s_mode st of
        LZ4_Compress \<Rightarrow>
          (case LZ4_createStream cdc of
             None \<Rightarrow> (Inl EFAIL, st\<lparr>s_enc := None\<rparr>)
           | Some e \<Rightarrow>
               (case LZ4_initStream cdc e of
                  None \<Rightarrow> (Inl EFAIL, st\<lparr>s_enc := Some e\<rparr>)
                | Some e' \<Rightarrow> (Inr (), st\<lparr>s_enc := Some e'\<rparr>)))
      | LZ4_Decompress \<Rightarrow>
          (case LZ4_createStreamDecode cdc of
             None \<Rightarrow> (Inl EFAIL, st\<lparr>s_dec := None\<rparr>)
           | Some d \<Rightarrow>
               let n = LZ4_decoderRingBufferSize cdc BLOCK_SIZE in
               if n \<le> 0 \<or> \<not> cd_malloc cdc (nat n) then (Inl EFAIL, st\<lparr>s_dec := Some d\<rparr>)
               else
                 (case LZ4_setStreamDecode cdc d of
                    None \<Rightarrow> (Inl EFAIL, st\<lparr>s_dec := Some d, s_ring := nat n\<rparr>)
                  | Some d' \<Rightarrow> (Inr (), st\<lparr>s_dec := Some d', s_ring := nat n\<rparr>))))"

text \<open>\<open>opened\<close> is the outcome of \<^verbatim>\<open>fopen\<close> on the path.\<close>

definition Open ::
    "('e, 'd) lz4_codec \<Rightarrow> FILE option \<Rightarrow> string option \<Rightarrow> ('e, 'd) stream \<Rightarrow>
     (err + unit) \<times> ('e, 'd) stream" where
  "Open cdc opened path st =
     (if path = None then (Inl EINVAL, st)
      else if s_file st \<noteq> None then (Inl EBUSY, st)
      else
        let st1 = ResetState (ReleaseCodec st) in
        case opened of
          None \<Rightarrow> (Inl EFAIL, st1)
        | Some f \<Rightarrow>
            (case InitCodec cdc (st1\<lparr>s_file := Some f\<rparr>) of
               (Inl e, st2) \<Rightarrow> (Inl e, ReleaseCodec (st2\<lparr>s_file := None\<rparr>))
             | (Inr _, st2) \<Rightarrow> (Inr (), st2)))"

text \<open>
  What \<^verbatim>\<open>OpenFd\<close> learns from the kernel: the flags of the descriptor (\<open>None\<close> when
  \<^verbatim>\<open>fcntl\<close> fails) and the stream \<^verbatim>\<open>fdopen\<close> returns.
\<close>

datatype access_mode = O_RDONLY | O_WRONLY | O_RDWR

record fd_info =
  fi_flags :: "(access_mode \<times> bool) option"     \<comment> \<open>access mode, \<^verbatim>\<open>O_PATH\<close>\<close>
  fi_fdopen :: "FILE option"

definition OpenFd ::
    "('e, 'd) lz4_codec \<Rightarrow> fd_info \<Rightarrow> int \<Rightarrow> ('e, 'd) stream \<Rightarrow> (err + unit) \<times> ('e, 'd) stream" where
  "OpenFd cdc info fd st =
     (if fd < 0 then (Inl EBADF, st)
      else if s_file st \<noteq> None then (Inl EBUSY, st)
      else
        case fi_flags info of
          None \<Rightarrow> (Inl EFAIL, st)
        | Some (acc, opath) \<Rightarrow>
            if opath then (Inl EBADF, st)
            else if \<not> (if s_mode st = LZ4_Compress then acc = O_WRONLY \<or> acc = O_RDWR
                       else acc = O_RDONLY \<or> acc = O_RDWR) then (Inl EBADF, st)
            else
              (case InitCodec cdc (ResetState (ReleaseCodec st)) of
                 (Inl e, st2) \<Rightarrow> (Inl e, ReleaseCodec st2)
               | (Inr _, st2) \<Rightarrow>
                   (case fi_fdopen info of
                      None \<Rightarrow> (Inl EFAIL, ReleaseCodec st2)
                    | Some f \<Rightarrow> (Inr (), st2\<lparr>s_file := Some f\<rparr>))))"

section \<open>Writing\<close>

definition Compress ::
    "('e, 'd) lz4_codec \<Rightarrow> BlockHeader \<Rightarrow> ('e, 'd) stream \<Rightarrow> (err + nat) \<times> ('e, 'd) stream" where
  "Compress cdc hdr st =
     (let b = CurrentBlock st in
      if Block_isEmpty b then (Inr 0, st)
      else
        case (s_enc st, s_file st) of
          (Some e, Some f) \<Rightarrow>
            (let (out, e') = LZ4_compress cdc e (cur_ix st) (b_buf b) COMPRESS_BUF;
                 st1 = st\<lparr>s_enc := Some e'\<rparr>
             in case out of
                  None \<Rightarrow> (Inl EFAIL, st1)
                | Some c \<Rightarrow>
                    if length c = 0 then (Inl EFAIL, st1)
                    else
                      let hdr' = hdr\<lparr>hdr_size := of_nat (length c)\<rparr>;
                          (n1, f1) = fwrite (put_hdr hdr') f
                      in if n1 \<noteq> sizeof_BlockHeader then (Inl EFAIL, st1\<lparr>s_file := Some f1\<rparr>)
                      else
                        let (n2, f2) = fwrite c f1
                        in if n2 \<noteq> length c then (Inl EFAIL, st1\<lparr>s_file := Some f2\<rparr>)
                        else
                          let (n3, f3) = (if s_sums st
                                          then fwrite (put32 (block_checksum hdr' (b_buf b))) f2
                                          else (4, f2))
                          in if n3 \<noteq> 4 then (Inl EFAIL, st1\<lparr>s_file := Some f3\<rparr>)
                          else
                            let st2 = set_block (Block_Clear b)
                                        (st1\<lparr>s_file := Some f3,
                                             s_real := s_real st + of_nat (Block_Length b),
                                             s_fsize := s_fsize st +
                                               of_nat (sizeof_BlockHeader + length c + (if s_sums st then 4 else 0))\<rparr>)
                            in (Inr (length c), st2\<lparr>s_index := s_index st + 1\<rparr>))
        | _ \<Rightarrow> (Inl EFAIL, st))"

definition Flush :: "('e, 'd) lz4_codec \<Rightarrow> ('e, 'd) stream \<Rightarrow> (err + nat) \<times> ('e, 'd) stream" where
  "Flush cdc st =
     (case (s_file st, s_enc st) of
        (Some f, Some e) \<Rightarrow>
          if fl_err f then (Inl EIO, st)
          else if Block_isEmpty (CurrentBlock st) then (Inr 0, st)
          else
            (case Compress cdc (BlockHeader_init\<lparr>hdr_type := word_of_int (s_type st)\<rparr>) st of
               (Inl e, st') \<Rightarrow> (Inl e, st')
             | (Inr _, st') \<Rightarrow> (Inr 0, st'))
      | _ \<Rightarrow> (Inl EBADF, st))"

definition SetBlock ::
    "('e, 'd) lz4_codec \<Rightarrow> int \<Rightarrow> ('e, 'd) stream \<Rightarrow> (err + nat) \<times> ('e, 'd) stream" where
  "SetBlock cdc t st =
     (if t < 0 \<or> t \<ge> int BLOCK_TYPE_MAX then (Inl EINVAL, st)
      else if s_file st = None \<or> s_enc st = None then (Inl EBADF, st)
      else if t \<noteq> s_type st \<and> \<not> Block_isEmpty (CurrentBlock st) then
        (case Flush cdc st of
           (Inl e, st') \<Rightarrow> (Inl e, st')
         | (Inr _, st') \<Rightarrow> (Inr 0, st'\<lparr>s_type := t\<rparr>))
      else (Inr 0, st\<lparr>s_type := t\<rparr>))"

definition EnableBlockChecksums ::
    "bool \<Rightarrow> ('e, 'd) stream \<Rightarrow> (err + nat) \<times> ('e, 'd) stream" where
  "EnableBlockChecksums on st =
     (if s_file st = None \<or> (s_enc st = None \<and> s_dec st = None) then (Inl EBADF, st)
      else if s_sums st = on then (Inr 0, st)
      else if s_index st \<noteq> 0 \<or> (s_enc st \<noteq> None \<and> \<not> Block_isEmpty (CurrentBlock st)) then (Inl EBUSY, st)
      else (Inr 0, st\<lparr>s_sums := on\<rparr>))"

definition WriteRaw ::
    "('e, 'd) lz4_codec \<Rightarrow> bytes option \<Rightarrow> ('e, 'd) stream \<Rightarrow> (err + nat) \<times> ('e, 'd) stream" where
  "WriteRaw cdc src st =
     (case (s_file st, s_enc st) of
        (Some f, Some e) \<Rightarrow>
          (case src of
             None \<Rightarrow> (Inl EINVAL, st)
           | Some s \<Rightarrow>
               if length s > INT_MAX then (Inl EINVAL, st)
               else if length s = 0 then (Inr 0, st)
               else if fl_err f then (Inl EIO, st)
               else
                 (case (if Block_isEmpty (CurrentBlock st) then (Inr 0, st) else Flush cdc st) of
                    (Inl e, st') \<Rightarrow> (Inl e, st')
                  | (Inr _, st') \<Rightarrow>
                      (case s_file st' of
                         None \<Rightarrow> (Inl EBADF, st')
                       | Some f' \<Rightarrow>
                           let (n, f2) = fwrite s f'
                           in (Inr n, st'\<lparr>s_file := Some f2, s_fsize := s_fsize st' + of_nat n\<rparr>))))
      | _ \<Rightarrow> (Inl EBADF, st))"

text \<open>The loop of \<^verbatim>\<open>Write\<close> for data that does not fit a block: fill a block, seal it.\<close>

function write_chunks ::
    "('e, 'd) lz4_codec \<Rightarrow> bytes \<Rightarrow> ('e, 'd) stream \<Rightarrow> (err + unit) \<times> ('e, 'd) stream" where
  "write_chunks cdc s st =
     (if s = [] then (Inr (), st)
      else
        let j = min BLOCK_SIZE (length s) in
        case Block_Write (Some (take j s)) (Block_Clear (CurrentBlock st)) of
          (Inl _, b) \<Rightarrow> (Inl EFAIL, set_block b st)
        | (Inr _, b) \<Rightarrow>
            (case Flush cdc (set_block b st) of
               (Inl e, st') \<Rightarrow> (Inl e, st')
             | (Inr _, st') \<Rightarrow> write_chunks cdc (drop j s) st'))"
  by pat_completeness auto
termination by (relation "measure (\<lambda>(cdc, s, st). length s)") auto

declare write_chunks.simps [simp del]

definition block_put :: "bytes \<Rightarrow> ('e, 'd) stream \<Rightarrow> (err + nat) \<times> ('e, 'd) stream" where
  "block_put s st =
     (case Block_Write (Some s) (CurrentBlock st) of
        (Inl e, b) \<Rightarrow> (Inl e, set_block b st)
      | (Inr n, b) \<Rightarrow> (Inr n, set_block b st))"

definition Write ::
    "('e, 'd) lz4_codec \<Rightarrow> bytes option \<Rightarrow> ('e, 'd) stream \<Rightarrow> (err + nat) \<times> ('e, 'd) stream" where
  "Write cdc src st =
     (case (s_file st, s_enc st) of
        (Some f, Some e) \<Rightarrow>
          (case src of
             None \<Rightarrow> (Inl EINVAL, st)
           | Some s \<Rightarrow>
               if length s > INT_MAX then (Inl EFAIL, st)
               else if length s = 0 then (Inr 0, st)
               else if fl_err f then (Inl EIO, st)
               else if length s \<le> Block_Available (CurrentBlock st) then block_put s st
               else
                 (case Flush cdc st of
                    (Inl e, st1) \<Rightarrow> (Inl e, st1)
                  | (Inr _, st1) \<Rightarrow>
                      if length s < BLOCK_SIZE then block_put s st1
                      else
                        (case write_chunks cdc s st1 of
                           (Inl e, st2) \<Rightarrow> (Inl e, st2)
                         | (Inr _, st2) \<Rightarrow> (Inr (length s), st2))))
      | _ \<Rightarrow> (Inl EBADF, st))"

text \<open>The loop of \<^verbatim>\<open>WriteBlock\<close>; \<open>hdr\<close> carries \<^verbatim>\<open>prev_cont\<close> from one block to the next.\<close>

function block_chunks ::
    "('e, 'd) lz4_codec \<Rightarrow> BlockHeader \<Rightarrow> bytes \<Rightarrow> ('e, 'd) stream \<Rightarrow> (err + unit) \<times> ('e, 'd) stream" where
  "block_chunks cdc hdr s st =
     (if s = [] then (Inr (), st)
      else
        let j = min BLOCK_SIZE (length s) in
        case Block_Write (Some (take j s)) (Block_Clear (CurrentBlock st)) of
          (Inl _, b) \<Rightarrow> (Inl EFAIL, set_block b st)
        | (Inr _, b) \<Rightarrow>
            (case Compress cdc hdr (set_block b st) of
               (Inl e, st') \<Rightarrow> (Inl e, st')
             | (Inr n, st') \<Rightarrow>
                 if n \<le> 0 then (Inl EFAIL, st')
                 else block_chunks cdc (hdr\<lparr>hdr_cont := 1\<rparr>) (drop j s) st'))"
  by pat_completeness auto
termination by (relation "measure (\<lambda>(cdc, hdr, s, st). length s)") auto

declare block_chunks.simps [simp del]

definition WriteBlock ::
    "('e, 'd) lz4_codec \<Rightarrow> bytes option \<Rightarrow> int \<Rightarrow> ('e, 'd) stream \<Rightarrow> (err + nat) \<times> ('e, 'd) stream" where
  "WriteBlock cdc src t st =
     (case src of
        None \<Rightarrow> (Inl EINVAL, st)
      | Some s \<Rightarrow>
          if t < 0 \<or> t \<ge> int BLOCK_TYPE_MAX then (Inl EINVAL, st)
          else if s_file st = None \<or> s_enc st = None then (Inl EBADF, st)
          else if length s > INT_MAX then (Inl EFAIL, st)
          else
            (case Flush cdc st of
               (Inl e, st1) \<Rightarrow> (Inl e, st1)
             | (Inr _, st1) \<Rightarrow>
                 (case block_chunks cdc (BlockHeader_init\<lparr>hdr_type := word_of_int t\<rparr>) s st1 of
                    (Inl e, st2) \<Rightarrow> (Inl e, st2)
                  | (Inr _, st2) \<Rightarrow> (Inr (length s), st2))))"

definition Sync :: "('e, 'd) lz4_codec \<Rightarrow> ('e, 'd) stream \<Rightarrow> (err + unit) \<times> ('e, 'd) stream" where
  "Sync cdc st =
     (if s_file st = None \<or> s_enc st = None then (Inl EBADF, st)
      else
        case Flush cdc st of
          (Inl e, st') \<Rightarrow> (Inl e, st')
        | (Inr _, st') \<Rightarrow>
            (case s_file st' of
               None \<Rightarrow> (Inl EBADF, st')
             | Some f \<Rightarrow> if fl_flush_ok f \<and> fl_sync_ok f then (Inr (), st') else (Inl EFAIL, st')))"

text \<open>\<^verbatim>\<open>Close\<close> also yields the file as \<^verbatim>\<open>fclose\<close> left it.\<close>

definition Close ::
    "('e, 'd) lz4_codec \<Rightarrow> ('e, 'd) stream \<Rightarrow> (err + unit) \<times> FILE option \<times> ('e, 'd) stream" where
  "Close cdc st =
     (case s_file st of
        None \<Rightarrow> (Inr (), None, ReleaseCodec st)
      | Some _ \<Rightarrow>
          let (r, st1) = (if s_enc st \<noteq> None then Flush cdc st else (Inr 0, st));
              closed = (case s_file st1 of Some f \<Rightarrow> fl_close_ok f | None \<Rightarrow> True);
              st2 = ReleaseCodec (st1\<lparr>s_file := None\<rparr>)
          in (if isl r \<or> \<not> closed then Inl EFAIL else Inr (), s_file st1, st2))"

section \<open>File position and raw bytes\<close>

definition Seek :: "int \<Rightarrow> ('e, 'd) stream \<Rightarrow> (err + unit) \<times> ('e, 'd) stream" where
  "Seek n st =
     (case s_file st of
        None \<Rightarrow> (Inl EBADF, st)
      | Some f \<Rightarrow>
          if n < 0 then (Inl EINVAL, st)
          else
            (case fseek (nat n) f of
               None \<Rightarrow> (Inl EFAIL, st)
             | Some f' \<Rightarrow> (Inr (), st\<lparr>s_file := Some f'\<rparr>)))"

definition Tell :: "('e, 'd) stream \<Rightarrow> err + nat" where
  "Tell st =
     (case s_file st of
        None \<Rightarrow> Inl EBADF
      | Some f \<Rightarrow> (case ftell f of None \<Rightarrow> Inl EFAIL | Some n \<Rightarrow> Inr n))"

definition ReadRaw :: "nat \<Rightarrow> ('e, 'd) stream \<Rightarrow> (err + bytes) \<times> ('e, 'd) stream" where
  "ReadRaw n st =
     (case (s_file st, s_dec st) of
        (Some f, Some d) \<Rightarrow>
          if n > INT_MAX then (Inl EINVAL, st)
          else if n = 0 then (Inr [], st)
          else let (got, f') = fread n f in (Inr got, st\<lparr>s_file := Some f'\<rparr>)
      | _ \<Rightarrow> (Inl EBADF, st))"

definition Peek :: "nat \<Rightarrow> ('e, 'd) stream \<Rightarrow> (err + bytes) \<times> ('e, 'd) stream" where
  "Peek n st =
     (if s_file st = None \<or> s_dec st = None then (Inl EBADF, st\<lparr>s_clean := False\<rparr>)
      else if n > INT_MAX then (Inl EINVAL, st)
      else if n = 0 then (Inr [], st)
      else
        case Tell st of
          Inl e \<Rightarrow> (Inl e, st)
        | Inr save \<Rightarrow>
            let (r, st1) = ReadRaw n st in
            case Seek (int save) st1 of
              (Inl e, st2) \<Rightarrow> (Inl e, st2\<lparr>s_clean := False\<rparr>)
            | (Inr _, st2) \<Rightarrow> (r, st2))"

definition VerifyPhysicalEof :: "('e, 'd) stream \<Rightarrow> (err + unit) \<times> ('e, 'd) stream" where
  "VerifyPhysicalEof st =
     (case s_file st of
        None \<Rightarrow> (Inl EFAIL, st\<lparr>s_clean := False\<rparr>)
      | Some f \<Rightarrow>
          if s_mode st \<noteq> LZ4_Decompress \<or> \<not> s_tail st then (Inl EFAIL, st\<lparr>s_clean := False\<rparr>)
          else if \<not> s_clean st then (Inl EPROTO, st)
          else
            let (got, f') = fread 1 f; st1 = st\<lparr>s_file := Some f'\<rparr> in
            if length got \<noteq> 0 then (Inl EFAIL, st1\<lparr>s_clean := False\<rparr>)
            else if fl_err f' \<or> \<not> fl_eof f' then (Inl EFAIL, st1\<lparr>s_clean := False\<rparr>)
            else (Inr (), st1))"

section \<open>Reading blocks\<close>

text \<open>Subtraction of \<^verbatim>\<open>size_t\<close>.\<close>

definition size_sub :: "nat \<Rightarrow> nat \<Rightarrow> nat" where
  "size_sub a b = (if b \<le> a then a - b else 18446744073709551616 + a - b)"

text \<open>The ring offset the next block is decoded at.\<close>

definition decode_offset :: "('e, 'd) stream \<Rightarrow> nat" where
  "decode_offset st = (if size_sub (s_ring st) (s_off st) < BLOCK_SIZE then 0 else s_off st)"

text \<open>
  From the compressed bytes of a block to the block: decode into the ring, check the
  CRC. \<open>stored\<close> is the checksum read from the file.
\<close>

definition decode_block ::
    "('e, 'd) lz4_codec \<Rightarrow> BlockHeader \<Rightarrow> bytes \<Rightarrow> u32 \<Rightarrow> ('e, 'd) stream \<Rightarrow>
     (BlockHeader \<times> block) option \<times> ('e, 'd) stream" where
  "decode_block cdc hdr c stored st =
     (let off = decode_offset st; st0 = st\<lparr>s_off := off\<rparr> in
      case s_dec st of
        None \<Rightarrow> (None, st0)
      | Some d \<Rightarrow>
          (let (out, d') = LZ4_decompress cdc d off c BLOCK_SIZE; st1 = st0\<lparr>s_dec := Some d'\<rparr> in
           case out of
             None \<Rightarrow> (None, st1\<lparr>s_clean := False\<rparr>)
           | Some raw \<Rightarrow>
               if length raw = 0 then (None, st1\<lparr>s_clean := False\<rparr>)
               else
                 let b = (Block_Clear (CurrentBlock st1))\<lparr>b_buf := raw\<rparr>;
                     st2 = set_block b (st1\<lparr>s_off := off + length raw\<rparr>)
                 in if s_sums st \<and> block_checksum hdr raw \<noteq> stored
                    then (None, set_block (Block_Clear b) (st2\<lparr>s_clean := False\<rparr>))
                    else (Some (hdr, b), st2)))"

definition ReadBlock ::
    "('e, 'd) lz4_codec \<Rightarrow> ('e, 'd) stream \<Rightarrow> (BlockHeader \<times> block) option \<times> ('e, 'd) stream" where
  "ReadBlock cdc st =
     (case (s_file st, s_dec st) of
        (Some f, Some d) \<Rightarrow>
          if \<not> s_clean st then (None, st)
          else if s_tail st then (None, st)
          else
            let st0 = st\<lparr>s_index := s_index st + 1\<rparr>;
                st1 = set_block (Block_Clear (CurrentBlock st0)) st0;
                (h, f1) = fread sizeof_BlockHeader f;
                st2 = st1\<lparr>s_file := Some f1\<rparr>
            in if length h \<noteq> sizeof_BlockHeader then
                 (None, st2\<lparr>s_clean := (length h = 0 \<and> \<not> fl_err f1)\<rparr>)
               else
                 let hdr = get_hdr h in
                 if isTailMark hdr then (None, st2\<lparr>s_clean := True, s_tail := True\<rparr>)
                 else if unat (hdr_size hdr) > COMPRESS_BUF then (None, st2\<lparr>s_clean := False\<rparr>)
                 else
                   let (c, f2) = fread (unat (hdr_size hdr)) f1; st3 = st2\<lparr>s_file := Some f2\<rparr> in
                   if length c \<noteq> unat (hdr_size hdr) then (None, st3\<lparr>s_clean := False\<rparr>)
                   else
                     let (k, f3) = (if s_sums st then fread 4 f2 else ([], f2));
                         st4 = st3\<lparr>s_file := Some f3\<rparr>
                     in if s_sums st \<and> length k \<noteq> 4 then (None, st4\<lparr>s_clean := False\<rparr>)
                        else decode_block cdc hdr c (if s_sums st then get32 k else 0) st4
      | _ \<Rightarrow> (None, st\<lparr>s_clean := False\<rparr>))"

section \<open>Files in the stream\<close>

abbreviation (input) MAX_PROC_FILE_SIZE :: nat where "MAX_PROC_FILE_SIZE \<equiv> 67108864"

definition put_pf :: "ProcFile \<Rightarrow> bytes" where
  "put_pf pf = put32 (f_size pf) @ put32 (f_pid pf) @ [char_of (unat (f_type pf))] @ f_data pf"

definition get_pf :: "bytes \<Rightarrow> ProcFile" where
  "get_pf bs =
     \<lparr>f_size = get32 (take 4 bs), f_pid = get32 (take 4 (drop 4 bs)),
      f_type = word_of_nat (of_char (bs ! 8)), f_data = drop 9 bs\<rparr>"

definition PutFile ::
    "('e, 'd) lz4_codec \<Rightarrow> ProcFile option \<Rightarrow> ('e, 'd) stream \<Rightarrow> (err + nat) \<times> ('e, 'd) stream" where
  "PutFile cdc pfo st =
     (case pfo of
        None \<Rightarrow> (Inl EINVAL, st)
      | Some pf \<Rightarrow>
          if s_file st = None \<or> s_enc st = None then (Inl EBADF, st)
          else if unat (f_size pf) > 18446744073709551615 - sizeof_ProcFile then (Inl EOVERFLOW, st)
          else
            let n = sizeof_ProcFile + unat (f_size pf) in
            if n > UINT32_MAX \<or> n > INT_MAX then (Inl EOVERFLOW, st)
            else if n > MAX_PROC_FILE_SIZE then (Inl EFBIG, st)
            else
              (case Flush cdc st of
                 (Inl e, st1) \<Rightarrow> (Inl e, st1)
               | (Inr _, st1) \<Rightarrow>
                   (case WriteRaw cdc (Some (put32 (word_of_nat n))) st1 of
                      (Inl e, st2) \<Rightarrow> (Inl e, st2)
                    | (Inr w, st2) \<Rightarrow>
                        if w \<noteq> 4 then (Inl EFAIL, st2)
                        else WriteBlock cdc (Some (take n (put_pf pf))) (int (block_code BLOCK_TYPE_FILE)) st2)))"

text \<open>
  The loop of \<^verbatim>\<open>GetFile\<close>: \<open>acc\<close> holds the \<^verbatim>\<open>i\<close> bytes read so far. A block that cannot
  be read ends the loop (\<open>Inr\<close>), a block that does not belong to the file fails.
  A returned block is never empty, so \<^verbatim>\<open>size - i\<close> decreases.
\<close>

function getfile_loop ::
    "('e, 'd) lz4_codec \<Rightarrow> nat \<Rightarrow> bytes \<Rightarrow> ('e, 'd) stream \<Rightarrow> (err + bytes) \<times> ('e, 'd) stream" where
  "getfile_loop cdc n acc st =
     (if length acc \<ge> n then (Inr acc, st)
      else
        case ReadBlock cdc st of
          (None, st1) \<Rightarrow> (Inr acc, st1)
        | (Some (hdr, b), st1) \<Rightarrow>
            if unat (hdr_type hdr) \<noteq> block_code BLOCK_TYPE_FILE then (Inl EFAIL, st1)
            else if (hdr_cont hdr \<noteq> 0) \<noteq> (length acc \<noteq> 0) then (Inl EFAIL, st1)
            else if Block_Size b > n - length acc then (Inl EFAIL, st1)
            else
              (case Block_Read (Block_Size b) b of
                 (Inl _, b') \<Rightarrow> (Inr acc, set_block b' st1)
               | (Inr got, b') \<Rightarrow>
                   if length got = 0 then (Inr acc, set_block b' st1)
                   else getfile_loop cdc n (acc @ got) (set_block b' st1)))"
  by pat_completeness auto
termination
  by (relation "measure (\<lambda>(cdc, n, acc, st). n - length acc)") (auto intro!: diff_less_mono2)

declare getfile_loop.simps [simp del]

definition GetFile ::
    "('e, 'd) lz4_codec \<Rightarrow> ('e, 'd) stream \<Rightarrow> (err + ProcFile) \<times> ('e, 'd) stream" where
  "GetFile cdc st =
     (if s_file st = None \<or> s_dec st = None then (Inl EBADF, st\<lparr>s_clean := False\<rparr>)
      else
        case ReadRaw 4 st of
          (Inl e, st1) \<Rightarrow> (Inl e, st1)
        | (Inr raw, st1) \<Rightarrow>
            if length raw \<noteq> 4 then (Inl EFAIL, st1)
            else
              let n = unat (get32 raw) in
              if n > MAX_PROC_FILE_SIZE then (Inl EFAIL, st1)
              else if n < sizeof_ProcFile then (Inl EFAIL, st1)
              else if \<not> cd_malloc cdc n then (Inl EFAIL, st1)
              else
                (case getfile_loop cdc n [] st1 of
                   (Inl e, st2) \<Rightarrow> (Inl e, st2)
                 | (Inr bs, st2) \<Rightarrow>
                     if length bs \<noteq> n then (Inl EFAIL, st2)
                     else
                       let pf = get_pf bs in
                       if n \<noteq> sizeof_ProcFile + unat (f_size pf) then (Inl EFAIL, st2)
                       else (Inr (pf\<lparr>f_size := word_of_nat (n - sizeof_ProcFile)\<rparr>), st2)))"

end
