(* ===== verification/Lz4Writer.thy ===== *)
theory Lz4Writer
  imports Lz4Stream
begin

text \<open>
  What the writing half of \<open>Lz4Stream\<close> promises. \<open>encode_blocks\<close> is the abstract file
  format: a sequence of logical blocks (continuation flag, type, data) to bytes. Every
  successful write appends the encoding of whole blocks to the file and keeps the rest
  pending; every failed write leaves the data before it intact.
\<close>

section \<open>The block format\<close>

type_synonym lblock = "1 word \<times> u4 \<times> bytes"

abbreviation lb_raw :: "lblock \<Rightarrow> bytes" where "lb_raw b \<equiv> snd (snd b)"

definition block_hdr :: "1 word \<Rightarrow> u4 \<Rightarrow> nat \<Rightarrow> BlockHeader" where
  "block_hdr c t n = \<lparr>hdr_cont = c, hdr_type = t, hdr_size = of_nat n\<rparr>"

definition frame :: "bool \<Rightarrow> BlockHeader \<Rightarrow> bytes \<Rightarrow> bytes \<Rightarrow> bytes" where
  "frame ck h c raw = put_hdr h @ c @ (if ck then put32 (block_checksum h raw) else [])"

fun encode_block ::
    "('e, 'd) lz4_codec \<Rightarrow> bool \<Rightarrow> nat \<Rightarrow> 'e \<Rightarrow> lblock \<Rightarrow> (bytes \<times> 'e) option" where
  "encode_block cdc ck ix e (cont, t, raw) =
     (case LZ4_compress cdc e ix raw COMPRESS_BUF of
        (None, e') \<Rightarrow> None
      | (Some c, e') \<Rightarrow>
          if c = [] then None else Some (frame ck (block_hdr cont t (length c)) c raw, e'))"

fun encode_blocks ::
    "('e, 'd) lz4_codec \<Rightarrow> bool \<Rightarrow> nat \<Rightarrow> 'e \<Rightarrow> lblock list \<Rightarrow> (bytes \<times> 'e) option" where
  "encode_blocks cdc ck ix e [] = Some ([], e)"
| "encode_blocks cdc ck ix e (b # bs) =
     (case encode_block cdc ck ix e b of
        None \<Rightarrow> None
      | Some (o1, e1) \<Rightarrow>
          (case encode_blocks cdc ck (Suc ix mod MAX_RING_BUF) e1 bs of
             None \<Rightarrow> None
           | Some (o2, e2) \<Rightarrow> Some (o1 @ o2, e2)))"

lemma encode_blocks_append:
  assumes "encode_blocks cdc ck ix e bs = Some (o1, e1)"
    and "encode_blocks cdc ck ((ix + length bs) mod 2) e1 cs = Some (o2, e2)" "ix < 2"
  shows "encode_blocks cdc ck ix e (bs @ cs) = Some (o1 @ o2, e2)"
  using assms
proof (induction bs arbitrary: ix e o1)
  case Nil
  then show ?case by simp
next
  case (Cons b bs)
  from Cons.prems(1) obtain p ea q where
    p: "encode_block cdc ck ix e b = Some (p, ea)"
      "encode_blocks cdc ck (Suc ix mod 2) ea bs = Some (q, e1)" "o1 = p @ q"
    by (auto split: option.splits)
  have "(Suc ix mod 2 + length bs) mod 2 = (ix + length (b # bs)) mod 2"
    by (simp add: mod_simps)
  then have "encode_blocks cdc ck (Suc ix mod 2) ea (bs @ cs) = Some (q @ o2, e2)"
    using Cons.IH [OF p(2)] Cons.prems(2) by simp
  then show ?case using p by simp
qed

text \<open>The blocks a byte string is cut into.\<close>

function chunks :: "bytes \<Rightarrow> bytes list" where
  "chunks s = (if s = [] then [] else take BLOCK_SIZE s # chunks (drop BLOCK_SIZE s))"
  by pat_completeness auto
termination by (relation "measure length") auto

declare chunks.simps [simp del]

lemma chunks_Nil [simp]: "chunks [] = []"
  by (simp add: chunks.simps)

lemma chunks_step: "s \<noteq> [] \<Longrightarrow> chunks s = take BLOCK_SIZE s # chunks (drop BLOCK_SIZE s)"
  by (subst chunks.simps) simp

lemma concat_chunks [simp]: "concat (chunks s) = s"
proof (induction s rule: chunks.induct)
  case (1 s)
  then show ?case by (cases "s = []") (simp_all add: chunks_step)
qed

lemma chunks_sizes: "c \<in> set (chunks s) \<Longrightarrow> c \<noteq> [] \<and> length c \<le> BLOCK_SIZE"
proof (induction s rule: chunks.induct)
  case (1 s)
  then show ?case by (cases "s = []") (auto simp: chunks_step)
qed

definition sound_blocks :: "lblock list \<Rightarrow> bool" where
  "sound_blocks bs \<longleftrightarrow> (\<forall>b \<in> set bs. lb_raw b \<noteq> [] \<and> length (lb_raw b) \<le> BLOCK_SIZE)"

lemma sound_blocks_simps [simp]:
  "sound_blocks []" "sound_blocks (b # bs) \<longleftrightarrow> lb_raw b \<noteq> [] \<and> length (lb_raw b) \<le> BLOCK_SIZE \<and> sound_blocks bs"
  "sound_blocks (as @ bs) \<longleftrightarrow> sound_blocks as \<and> sound_blocks bs"
  by (auto simp: sound_blocks_def)

section \<open>An open writer\<close>

definition pending :: "('e, 'd) stream \<Rightarrow> bytes" where
  "pending st = b_buf (CurrentBlock st)"

definition writer :: "('e, 'd) stream \<Rightarrow> bool" where
  "writer st \<longleftrightarrow>
     (\<exists>f. s_file st = Some f \<and> at_end f) \<and> s_enc st \<noteq> None \<and> length (s_blocks st) = 2 \<and>
     b_cur (CurrentBlock st) = 0 \<and> length (pending st) \<le> BLOCK_SIZE \<and>
     s_blocks st ! (1 - cur_ix st) = empty_block \<and> 0 \<le> s_type st \<and> s_type st < 6"

lemma cur_ix_less [simp]: "cur_ix st < 2"
  by (simp add: cur_ix_def)

lemma cur_ix_next: "cur_ix (st\<lparr>s_index := s_index st + 1\<rparr>) = Suc (cur_ix st) mod 2"
proof -
  have "unat (s_index st + 1) mod 2 = (unat (s_index st) + 1) mod 2"
    by (simp add: unat_word_ariths mod_mod_cancel)
  then show ?thesis by (simp add: cur_ix_def mod_simps)
qed

lemma cur_ix_update [simp]:
  "cur_ix (st\<lparr>s_file := a\<rparr>) = cur_ix st" "cur_ix (st\<lparr>s_enc := b\<rparr>) = cur_ix st"
  "cur_ix (st\<lparr>s_blocks := c\<rparr>) = cur_ix st" "cur_ix (st\<lparr>s_real := d\<rparr>) = cur_ix st"
  "cur_ix (st\<lparr>s_fsize := d\<rparr>) = cur_ix st" "cur_ix (st\<lparr>s_type := t\<rparr>) = cur_ix st"
  "cur_ix (st\<lparr>s_clean := v\<rparr>) = cur_ix st" "cur_ix (st\<lparr>s_dec := w\<rparr>) = cur_ix st"
  "cur_ix (st\<lparr>s_off := x\<rparr>) = cur_ix st" "cur_ix (st\<lparr>s_tail := v\<rparr>) = cur_ix st"
  "cur_ix (st\<lparr>s_sums := v\<rparr>) = cur_ix st"
  by (simp_all add: cur_ix_def)

lemma cur_ix_set_block [simp]: "cur_ix (set_block b st) = cur_ix st"
  by (simp add: set_block_def)

lemma CurrentBlock_set_block [simp]:
  "length (s_blocks st) = 2 \<Longrightarrow> CurrentBlock (set_block b st) = b"
  by (simp add: CurrentBlock_def set_block_def)

lemma set_block_frame [simp]:
  "s_file (set_block b st) = s_file st" "s_enc (set_block b st) = s_enc st"
  "s_dec (set_block b st) = s_dec st" "s_sums (set_block b st) = s_sums st"
  "s_type (set_block b st) = s_type st" "s_index (set_block b st) = s_index st"
  "s_clean (set_block b st) = s_clean st" "s_tail (set_block b st) = s_tail st"
  "s_ring (set_block b st) = s_ring st" "s_off (set_block b st) = s_off st"
  "s_mode (set_block b st) = s_mode st" "length (s_blocks (set_block b st)) = length (s_blocks st)"
  "s_real (set_block b st) = s_real st" "s_fsize (set_block b st) = s_fsize st"
  by (simp_all add: set_block_def)

lemma set_block_other [simp]:
  "s_blocks (set_block b st) ! (1 - cur_ix st) = s_blocks st ! (1 - cur_ix st)"
proof -
  have "cur_ix st \<noteq> 1 - cur_ix st" by arith
  then show ?thesis by (simp add: set_block_def)
qed

text \<open>
  \<open>appended cdc st bs st'\<close>: from \<open>st\<close> to \<open>st'\<close> the file grew by exactly the encoding of
  the blocks \<open>bs\<close>.
\<close>

definition appended :: "('e, 'd) lz4_codec \<Rightarrow> ('e, 'd) stream \<Rightarrow> lblock list \<Rightarrow> ('e, 'd) stream \<Rightarrow> bool" where
  "appended cdc st bs st' \<longleftrightarrow>
     (\<exists>f e f' e' out. s_file st = Some f \<and> s_enc st = Some e \<and> s_file st' = Some f' \<and> s_enc st' = Some e' \<and>
        encode_blocks cdc (s_sums st) (cur_ix st) e bs = Some (out, e') \<and>
        fl_data f' = fl_data f @ out \<and> fl_err f' = fl_err f \<and> fl_limit f' = fl_limit f) \<and>
     cur_ix st' = (cur_ix st + length bs) mod 2 \<and> s_sums st' = s_sums st"

lemma appended_refl: "writer st \<Longrightarrow> appended cdc st [] st"
  by (auto simp: appended_def writer_def)

lemma appended_trans:
  assumes "appended cdc st a st1" "appended cdc st1 b st2"
  shows "appended cdc st (a @ b) st2"
proof -
  from assms(1) obtain f e f1 e1 o1 where
    1: "s_file st = Some f" "s_enc st = Some e" "s_file st1 = Some f1" "s_enc st1 = Some e1"
      "encode_blocks cdc (s_sums st) (cur_ix st) e a = Some (o1, e1)"
      "fl_data f1 = fl_data f @ o1" "fl_err f1 = fl_err f" "fl_limit f1 = fl_limit f"
      "cur_ix st1 = (cur_ix st + length a) mod 2" "s_sums st1 = s_sums st"
    unfolding appended_def by blast
  from assms(2) 1 obtain f2 e2 o2 where
    2: "s_file st2 = Some f2" "s_enc st2 = Some e2"
      "encode_blocks cdc (s_sums st) ((cur_ix st + length a) mod 2) e1 b = Some (o2, e2)"
      "fl_data f2 = fl_data f1 @ o2" "fl_err f2 = fl_err f1" "fl_limit f2 = fl_limit f1"
      "cur_ix st2 = (cur_ix st1 + length b) mod 2" "s_sums st2 = s_sums st1"
    unfolding appended_def by auto
  have "encode_blocks cdc (s_sums st) (cur_ix st) e (a @ b) = Some (o1 @ o2, e2)"
    by (rule encode_blocks_append [OF 1(5) 2(3)]) simp
  then show ?thesis
    unfolding appended_def using 1 2 by (auto simp: mod_simps add.assoc)
qed

section \<open>Sealing a block\<close>

lemma Compress_Inr:
  assumes w: "writer st" and ne: "pending st \<noteq> []" and r: "Compress cdc hdr st = (Inr n, st')"
  shows "writer st'" "pending st' = []"
    "appended cdc st [(hdr_cont hdr, hdr_type hdr, pending st)] st'" "0 < n" "s_type st' = s_type st"
proof -
  from w obtain f e where f: "s_file st = Some f" "at_end f" and e: "s_enc st = Some e"
    and len: "length (s_blocks st) = 2" and oth: "s_blocks st ! (1 - cur_ix st) = empty_block"
    and ty: "0 \<le> s_type st" "s_type st < 6"
    unfolding writer_def by auto
  let ?b = "CurrentBlock st"
  have ne': "b_buf ?b \<noteq> []" using ne by (simp add: pending_def)
  obtain out e1 where c: "LZ4_compress cdc e (cur_ix st) (b_buf ?b) COMPRESS_BUF = (out, e1)" by fastforce
  from r ne' f e c obtain cb where cb: "out = Some cb" "cb \<noteq> []"
    by (cases out) (auto simp: Compress_def Block_isEmpty_def Let_def split: if_splits)
  define h where "h = hdr\<lparr>hdr_size := of_nat (length cb)\<rparr>"
  have h: "h = block_hdr (hdr_cont hdr) (hdr_type hdr) (length cb)"
    by (simp add: h_def block_hdr_def)
  obtain n1 f1 where w1: "fwrite (put_hdr h) f = (n1, f1)" by fastforce
  obtain n2 f2 where w2: "fwrite cb f1 = (n2, f2)" by fastforce
  obtain n3 f3 where w3: "(if s_sums st then fwrite (put32 (block_checksum h (b_buf ?b))) f2 else (4, f2)) = (n3, f3)"
    by fastforce
  have r': "n1 = 3 \<and> n2 = length cb \<and> n3 = 4 \<and> n = length cb \<and>
      st' = (set_block (Block_Clear ?b)
              (st\<lparr>s_enc := Some e1, s_file := Some f3, s_real := s_real st + of_nat (Block_Length ?b),
                  s_fsize := s_fsize st + of_nat (3 + length cb + (if s_sums st then 4 else 0))\<rparr>))
            \<lparr>s_index := s_index st + 1\<rparr>"
    using r ne' f e c cb w1 w2 w3
    by (auto simp: Compress_def Block_isEmpty_def Let_def h_def [symmetric] simp del: Block_Clear_eq
        split: if_splits prod.splits)
  then have ns: "n1 = length (put_hdr h)" "n2 = length cb" "n3 = 4" by simp_all
  note d1 = fwrite_full [OF w1 [unfolded ns] f(2)]
  note d2 = fwrite_full [OF w2 [unfolded ns] d1(2)]
  have d3: "fl_data f3 = fl_data f2 @ (if s_sums st then put32 (block_checksum h (b_buf ?b)) else [])"
      "at_end f3" "fl_err f3 = fl_err f2" "fl_limit f3 = fl_limit f2"
    using fwrite_full [OF _ d2(2), of "put32 (block_checksum h (b_buf ?b))" f3] w3 ns d2(2)
    by (auto split: if_splits)
  define st1 where "st1 = st\<lparr>s_enc := Some e1, s_file := Some f3, s_real := s_real st + of_nat (Block_Length ?b),
                  s_fsize := s_fsize st + of_nat (3 + length cb + (if s_sums st then 4 else 0))\<rparr>"
  have st': "st' = (set_block empty_block st1)\<lparr>s_index := s_index (set_block empty_block st1) + 1\<rparr>"
    using r' by (simp add: st1_def)
  have ix1: "cur_ix st1 = cur_ix st" by (simp add: st1_def)
  have ix: "cur_ix st' = Suc (cur_ix st) mod 2"
    unfolding st' cur_ix_next by (simp add: ix1)
  have bl: "s_blocks st' = (s_blocks st)[cur_ix st := empty_block]"
    by (simp add: st' st1_def set_block_def)
  have nix: "cur_ix st' = 1 - cur_ix st" "1 - cur_ix st' = cur_ix st" "cur_ix st \<noteq> 1 - cur_ix st"
    using ix cur_ix_less [of st] by (cases "cur_ix st"; simp)+
  have cb': "CurrentBlock st' = empty_block"
    using nix oth len by (simp add: CurrentBlock_def bl)
  have fe: "s_file st' = Some f3" "s_enc st' = Some e1" "s_type st' = s_type st" "s_sums st' = s_sums st"
    by (simp_all add: st' st1_def)
  show "pending st' = []" by (simp add: pending_def cb' empty_block_def)
  show "writer st'"
    using fe d3(2) ty cb' nix len by (simp add: writer_def pending_def bl empty_block_def)
  have "encode_block cdc (s_sums st) (cur_ix st) e (hdr_cont hdr, hdr_type hdr, pending st) =
      Some (frame (s_sums st) h cb (pending st), e1)"
    using c cb by (simp add: pending_def h)
  then show "appended cdc st [(hdr_cont hdr, hdr_type hdr, pending st)] st'"
    unfolding appended_def using f(1) e fe d1 d2 d3 ix by (simp add: frame_def pending_def)
  show "0 < n" "s_type st' = s_type st" using r' cb fe by auto
qed

lemma writer_set_block:
  assumes "writer st" "b_cur b = 0" "length (b_buf b) \<le> BLOCK_SIZE"
  shows "writer (set_block b st)" "pending (set_block b st) = b_buf b" "appended cdc st [] (set_block b st)"
proof -
  have l: "length (s_blocks st) = 2" using assms(1) by (simp add: writer_def)
  show p: "pending (set_block b st) = b_buf b" by (simp add: pending_def l)
  have "s_blocks st ! (Suc 0 - cur_ix st) = empty_block" using assms(1) by (simp add: writer_def)
  then show "writer (set_block b st)"
    using assms p l set_block_other [of b st] unfolding writer_def by simp
  show "appended cdc st [] (set_block b st)"
    using appended_refl [OF assms(1), of cdc] by (auto simp: appended_def)
qed

lemma set_block_set_type [simp]: "CurrentBlock (st\<lparr>s_type := t\<rparr>) = CurrentBlock st"
  by (simp add: CurrentBlock_def)

definition sealed :: "('e, 'd) stream \<Rightarrow> lblock list" where
  "sealed st = (if pending st = [] then [] else [(0, word_of_int (s_type st), pending st)])"

lemma concat_sealed [simp]: "concat (map lb_raw (sealed st)) = pending st"
  by (simp add: sealed_def)

lemma Flush_Inr:
  assumes w: "writer st" and r: "Flush cdc st = (Inr n, st')"
  shows "writer st'" "pending st' = []" "appended cdc st (sealed st) st'" "n = 0" "s_type st' = s_type st"
proof -
  from w obtain f e where fe: "s_file st = Some f" "s_enc st = Some e" by (auto simp: writer_def)
  let ?h = "BlockHeader_init\<lparr>hdr_type := word_of_int (s_type st)\<rparr>"
  have "writer st' \<and> pending st' = [] \<and> appended cdc st (sealed st) st' \<and> n = 0 \<and> s_type st' = s_type st"
  proof (cases "pending st = []")
    case True
    then have "st' = st" "n = 0"
      using r fe by (auto simp: Flush_def pending_def Block_isEmpty_def split: if_splits)
    then show ?thesis using w True appended_refl by (auto simp: sealed_def)
  next
    case False
    then obtain m where m: "Compress cdc ?h st = (Inr m, st')" and n: "n = 0"
      using r fe by (auto simp: Flush_def pending_def Block_isEmpty_def split: if_splits prod.splits sum.splits)
    show ?thesis
      using Compress_Inr [OF w False m] n False by (simp add: sealed_def BlockHeader_init_def)
  qed
  then show "writer st'" "pending st' = []" "appended cdc st (sealed st) st'" "n = 0" "s_type st' = s_type st"
    by blast+
qed

section \<open>Cutting data into blocks\<close>

fun lblocks :: "1 word \<Rightarrow> u4 \<Rightarrow> bytes list \<Rightarrow> lblock list" where
  "lblocks c t [] = []"
| "lblocks c t (x # xs) = (c, t, x) # lblocks 1 t xs"

lemma raws_lblocks [simp]: "map lb_raw (lblocks c t xs) = xs"
  by (induction xs arbitrary: c) auto

lemma length_lblocks [simp]: "length (lblocks c t xs) = length xs"
  by (induction xs arbitrary: c) auto

text \<open>Both loops store a full block into an empty one; \<open>fill\<close> is that step.\<close>

lemma fill_block:
  assumes "writer st" "s \<noteq> []"
  defines "j \<equiv> min BLOCK_SIZE (length s)"
  obtains b where "Block_Write (Some (take j s)) (Block_Clear (CurrentBlock st)) = (Inr j, b)"
    "writer (set_block b st)" "pending (set_block b st) = take BLOCK_SIZE s"
    "drop j s = drop BLOCK_SIZE s" "appended cdc st [] (set_block b st)"
proof -
  let ?b = "empty_block\<lparr>b_buf := take j s\<rparr>"
  have "Block_Write (Some (take j s)) (Block_Clear (CurrentBlock st)) = (Inr j, ?b)"
    using assms(2) by (auto simp: Block_Write_def Block_Available_def empty_block_def j_def)
  moreover have "take j s = take BLOCK_SIZE s" "drop j s = drop BLOCK_SIZE s"
    by (simp_all add: j_def min_def)
  moreover have "b_cur ?b = 0" "length (b_buf ?b) \<le> BLOCK_SIZE"
    by (simp_all add: empty_block_def j_def)
  ultimately show ?thesis
    using writer_set_block [OF assms(1), where b = ?b] by (intro that [of ?b]) simp_all
qed

lemma write_chunks_Inr:
  "writer st \<Longrightarrow> pending st = [] \<Longrightarrow> write_chunks cdc s st = (Inr (), st') \<Longrightarrow>
     writer st' \<and> pending st' = [] \<and> s_type st' = s_type st \<and>
     appended cdc st (map (\<lambda>c. (0, word_of_int (s_type st), c)) (chunks s)) st'"
proof (induction s arbitrary: st rule: chunks.induct)
  case (1 s)
  show ?case
  proof (cases "s = []")
    case True
    then show ?thesis using 1 appended_refl by (auto simp: write_chunks.simps [where s = "[]"])
  next
    case False
    let ?j = "min BLOCK_SIZE (length s)"
    obtain b where b: "Block_Write (Some (take ?j s)) (Block_Clear (CurrentBlock st)) = (Inr ?j, b)"
      "writer (set_block b st)" "pending (set_block b st) = take BLOCK_SIZE s"
      "drop ?j s = drop BLOCK_SIZE s" "appended cdc st [] (set_block b st)"
      using fill_block [OF "1.prems"(1) False] by blast
    from "1.prems"(3) False b obtain n st1 where
      fl: "Flush cdc (set_block b st) = (Inr n, st1)"
      and rec: "write_chunks cdc (drop BLOCK_SIZE s) st1 = (Inr (), st')"
      by (subst (asm) write_chunks.simps)
        (auto simp: Let_def simp del: Block_Clear_eq split: prod.splits sum.splits)
    note F = Flush_Inr [OF b(2) fl]
    have "sealed (set_block b st) = [(0, word_of_int (s_type st), take BLOCK_SIZE s)]"
      using b(3) False by (simp add: sealed_def)
    then have "appended cdc st [(0, word_of_int (s_type st), take BLOCK_SIZE s)] st1"
      using appended_trans [OF b(5) F(3)] by simp
    moreover have "writer st' \<and> pending st' = [] \<and> s_type st' = s_type st1 \<and>
       appended cdc st1 (map (\<lambda>c. (0, word_of_int (s_type st1), c)) (chunks (drop BLOCK_SIZE s))) st'"
      by (rule "1.IH" [OF False F(1,2) rec])
    ultimately show ?thesis
      using appended_trans F(5) False by (fastforce simp: chunks_step)
  qed
qed

lemma block_chunks_Inr:
  "writer st \<Longrightarrow> block_chunks cdc hdr s st = (Inr (), st') \<Longrightarrow> pending st = [] \<Longrightarrow>
     writer st' \<and> pending st' = [] \<and> s_type st' = s_type st \<and>
     appended cdc st (lblocks (hdr_cont hdr) (hdr_type hdr) (chunks s)) st'"
proof (induction s arbitrary: st hdr rule: chunks.induct)
  case (1 s)
  show ?case
  proof (cases "s = []")
    case True
    then show ?thesis using 1 appended_refl by (auto simp: block_chunks.simps [where s = "[]"])
  next
    case False
    let ?j = "min BLOCK_SIZE (length s)"
    obtain b where b: "Block_Write (Some (take ?j s)) (Block_Clear (CurrentBlock st)) = (Inr ?j, b)"
      "writer (set_block b st)" "pending (set_block b st) = take BLOCK_SIZE s"
      "drop ?j s = drop BLOCK_SIZE s" "appended cdc st [] (set_block b st)"
      using fill_block [OF "1.prems"(1) False] by blast
    from "1.prems"(2) False b obtain n st1 where
      fl: "Compress cdc hdr (set_block b st) = (Inr n, st1)"
      and rec: "block_chunks cdc (hdr\<lparr>hdr_cont := 1\<rparr>) (drop BLOCK_SIZE s) st1 = (Inr (), st')"
      by (subst (asm) block_chunks.simps)
        (auto simp: Let_def simp del: Block_Clear_eq split: prod.splits sum.splits if_splits)
    have ne: "pending (set_block b st) \<noteq> []" using b(3) False by simp
    note F = Compress_Inr [OF b(2) ne fl]
    have "appended cdc st [(hdr_cont hdr, hdr_type hdr, take BLOCK_SIZE s)] st1"
      using appended_trans [OF b(5) F(3)] b(3) by simp
    moreover have "writer st' \<and> pending st' = [] \<and> s_type st' = s_type st1 \<and>
       appended cdc st1 (lblocks 1 (hdr_type hdr) (chunks (drop BLOCK_SIZE s))) st'"
      using "1.IH" [OF False F(1) rec F(2)] by simp
    ultimately show ?thesis
      using appended_trans F(5) False by (fastforce simp: chunks_step)
  qed
qed

lemma WriteBlock_Inr:
  assumes w: "writer st" and r: "WriteBlock cdc (Some s) t st = (Inr n, st')"
  shows "writer st'" "pending st' = []" "n = length s" "s_type st' = s_type st"
    "appended cdc st (sealed st @ lblocks 0 (word_of_int t) (chunks s)) st'"
proof -
  from r obtain m st1 where f: "Flush cdc st = (Inr m, st1)"
    and c: "block_chunks cdc (BlockHeader_init\<lparr>hdr_type := word_of_int t\<rparr>) s st1 = (Inr (), st')"
    and n: "n = length s"
    by (auto simp: WriteBlock_def split: if_splits prod.splits sum.splits)
  note F = Flush_Inr [OF w f]
  note C = block_chunks_Inr [OF F(1) c F(2)]
  show "writer st'" "pending st' = []" "n = length s" "s_type st' = s_type st"
    using C F n by auto
  show "appended cdc st (sealed st @ lblocks 0 (word_of_int t) (chunks s)) st'"
    using C appended_trans [OF F(3)] by (simp add: BlockHeader_init_def)
qed

lemma block_put_fits:
  assumes w: "writer st" and s: "length s \<le> BLOCK_SIZE - length (pending st)" and r: "block_put s st = (x, st')"
  shows "x = Inr (length s)" "writer st'" "pending st' = pending st @ s" "appended cdc st [] st'"
    "s_type st' = s_type st"
proof -
  let ?b = "(CurrentBlock st)\<lparr>b_buf := pending st @ s\<rparr>"
  have "Block_Write (Some s) (CurrentBlock st) = (Inr (length s), ?b)"
    using s by (cases "CurrentBlock st") (auto simp: Block_Write_def Block_Available_def pending_def)
  then have x: "x = Inr (length s)" "st' = set_block ?b st"
    using r by (auto simp: block_put_def)
  have "b_cur ?b = 0" "length (b_buf ?b) \<le> BLOCK_SIZE"
    using w s by (auto simp: writer_def)
  note wb = writer_set_block [OF w this]
  show "x = Inr (length s)" "writer st'" "pending st' = pending st @ s" "appended cdc st [] st'"
    "s_type st' = s_type st"
    using x wb by auto
qed

text \<open>
  The logical content: \<open>emits cdc st bs st'\<close> says that between the two states the stream
  accepted exactly the bytes \<open>bs\<close>, some of them in the whole blocks added to the file,
  the rest in the current block.
\<close>

definition emits :: "('e, 'd) lz4_codec \<Rightarrow> ('e, 'd) stream \<Rightarrow> bytes \<Rightarrow> ('e, 'd) stream \<Rightarrow> bool" where
  "emits cdc st bs st' \<longleftrightarrow>
     (\<exists>blks. appended cdc st blks st' \<and> pending st @ bs = concat (map lb_raw blks) @ pending st' \<and>
        sound_blocks blks \<and> (\<forall>b \<in> set blks. fst b = 0 \<and> fst (snd b) = word_of_int (s_type st))) \<and>
     s_type st' = s_type st"

lemma emits_refl: "writer st \<Longrightarrow> emits cdc st [] st"
  using appended_refl by (fastforce simp: emits_def intro: exI [of _ "[]"])

lemma emits_trans:
  assumes "emits cdc st a st1" "emits cdc st1 b st2"
  shows "emits cdc st (a @ b) st2"
proof -
  from assms(1) obtain x where x: "appended cdc st x st1"
    "pending st @ a = concat (map lb_raw x) @ pending st1" "sound_blocks x"
    "\<forall>b \<in> set x. fst b = 0 \<and> fst (snd b) = word_of_int (s_type st)" "s_type st1 = s_type st"
    unfolding emits_def by blast
  from assms(2) obtain y where y: "appended cdc st1 y st2"
    "pending st1 @ b = concat (map lb_raw y) @ pending st2" "sound_blocks y"
    "\<forall>b \<in> set y. fst b = 0 \<and> fst (snd b) = word_of_int (s_type st1)" "s_type st2 = s_type st1"
    unfolding emits_def by blast
  have "pending st @ a @ b = concat (map lb_raw x) @ pending st1 @ b"
    using x(2) by (metis append.assoc)
  also have "\<dots> = concat (map lb_raw (x @ y)) @ pending st2" using y(2) by simp
  finally have "pending st @ a @ b = concat (map lb_raw (x @ y)) @ pending st2" .
  moreover have "appended cdc st (x @ y) st2" by (rule appended_trans [OF x(1) y(1)])
  moreover have "\<forall>b \<in> set (x @ y). fst b = 0 \<and> fst (snd b) = word_of_int (s_type st)"
    using x y by auto
  moreover have "sound_blocks (x @ y)" using x(3) y(3) by simp
  ultimately show ?thesis unfolding emits_def using x(5) y(5) by metis
qed

lemma sealed_sound: "writer st \<Longrightarrow> sound_blocks (sealed st)"
  by (auto simp: sealed_def writer_def)

lemma emits_sealed:
  "writer st \<Longrightarrow> appended cdc st (sealed st @ map (\<lambda>c. (0, word_of_int (s_type st), c)) cs) st' \<Longrightarrow>
   (\<And>c. c \<in> set cs \<Longrightarrow> c \<noteq> [] \<and> length c \<le> BLOCK_SIZE) \<Longrightarrow>
   s_type st' = s_type st \<Longrightarrow> bs = concat cs @ pending st' \<Longrightarrow> emits cdc st bs st'"
  unfolding emits_def
  by (rule conjI, rule exI [of _ "sealed st @ map (\<lambda>c. (0, word_of_int (s_type st), c)) cs"])
    (auto simp: comp_def sealed_sound, auto simp: sealed_def sound_blocks_def split: if_splits)

lemma Write_Inr:
  assumes w: "writer st" and r: "Write cdc (Some s) st = (Inr n, st')"
  shows "writer st' \<and> n = length s \<and> emits cdc st s st'"
proof -
  from w obtain f e where fe: "s_file st = Some f" "s_enc st = Some e" by (auto simp: writer_def)
  have av: "Block_Available (CurrentBlock st) = BLOCK_SIZE - length (pending st)"
    by (simp add: Block_Available_def pending_def)
  show ?thesis
  proof (cases "s = []")
    case True
    then show ?thesis using r fe w emits_refl by (auto simp: Write_def)
  next
    case ne: False
    show ?thesis
    proof (cases "length s \<le> BLOCK_SIZE - length (pending st)")
      case True
      then have "block_put s st = (Inr n, st')"
        using r fe ne by (simp add: Write_def av split: if_splits)
      from block_put_fits [OF w True this] show ?thesis
        unfolding emits_def by (auto intro!: exI [of _ "[]"])
    next
      case False
      then obtain m st1 where fl: "Flush cdc st = (Inr m, st1)"
        and rest: "(if length s < BLOCK_SIZE then block_put s st1
                    else case write_chunks cdc s st1 of (Inl e, st2) \<Rightarrow> (Inl e, st2)
                         | (Inr _, st2) \<Rightarrow> (Inr (length s), st2)) = (Inr n, st')"
        using r fe ne
        by (cases "Flush cdc st"; cases "fst (Flush cdc st)")
          (simp_all add: Write_def av split: if_splits)
      note F = Flush_Inr [OF w fl]
      show ?thesis
      proof (cases "length s < BLOCK_SIZE")
        case True
        then have "length s \<le> BLOCK_SIZE - length (pending st1)" "block_put s st1 = (Inr n, st')"
          using F rest by simp_all
        note B = block_put_fits [OF F(1) this]
        have "appended cdc st (sealed st @ map (\<lambda>c. (0, word_of_int (s_type st), c)) []) st'"
          using appended_trans [OF F(3) B(4)] by simp
        then have "emits cdc st s st'"
          by (rule emits_sealed [OF w]) (use B F in auto)
        then show ?thesis using B by auto
      next
        case False
        then have wc: "write_chunks cdc s st1 = (Inr (), st')" and n: "n = length s"
          using rest by (auto split: prod.splits sum.splits)
        note C = write_chunks_Inr [OF F(1,2) wc]
        have "appended cdc st (sealed st @ map (\<lambda>c. (0, word_of_int (s_type st), c)) (chunks s)) st'"
          using appended_trans [OF F(3), of _ st'] C F(5) by simp
        then have "emits cdc st s st'"
          by (rule emits_sealed [OF w]) (use C F chunks_sizes in auto)
        then show ?thesis using C n by simp
      qed
    qed
  qed
qed

section \<open>The interface of a byte sink\<close>

text \<open>
  What the metadata writers rely on: a \<open>put\<close> that succeeds stored all its bytes, in
  order. Its implementations are \<^verbatim>\<open>Lz4Stream::Write\<close> and the checked \<^verbatim>\<open>fwrite\<close>.
\<close>

fun put_all :: "(bytes \<Rightarrow> 's \<Rightarrow> (err + nat) \<times> 's) \<Rightarrow> bytes list \<Rightarrow> 's \<Rightarrow> (err + unit) \<times> 's" where
  "put_all put [] s = (Inr (), s)"
| "put_all put (b # bs) s =
     (case put b s of (Inl e, s') \<Rightarrow> (Inl e, s') | (Inr _, s') \<Rightarrow> put_all put bs s')"

locale byte_sink =
  fixes put :: "bytes \<Rightarrow> 's \<Rightarrow> (err + nat) \<times> 's"
    and emit :: "'s \<Rightarrow> bytes \<Rightarrow> 's \<Rightarrow> bool"
    and good :: "'s \<Rightarrow> bool"
  assumes emit_refl: "good s \<Longrightarrow> emit s [] s"
    and emit_trans: "emit s a s1 \<Longrightarrow> emit s1 b s2 \<Longrightarrow> emit s (a @ b) s2"
    and put_ok: "good s \<Longrightarrow> put bs s = (Inr n, s') \<Longrightarrow> good s' \<and> n = length bs \<and> emit s bs s'"
begin

lemma put_all_ok:
  "good s \<Longrightarrow> put_all put bss s = (Inr (), s') \<Longrightarrow> good s' \<and> emit s (concat bss) s'"
proof (induction bss arbitrary: s)
  case Nil
  then show ?case using emit_refl by simp
next
  case (Cons b bss)
  then obtain n s1 where p: "put b s = (Inr n, s1)" "put_all put bss s1 = (Inr (), s')"
    by (auto split: prod.splits sum.splits)
  from put_ok [OF Cons.prems(1) p(1)] Cons.IH [OF _ p(2)] emit_trans show ?case by auto
qed

lemma put_all_then:
  "put_all put (as @ bs) s =
     (case put_all put as s of (Inl e, s') \<Rightarrow> (Inl e, s') | (Inr _, s') \<Rightarrow> put_all put bs s')"
  by (induction as arbitrary: s) (auto split: prod.splits sum.splits)

end

definition Write_some :: "('e, 'd) lz4_codec \<Rightarrow> bytes \<Rightarrow> ('e, 'd) stream \<Rightarrow> (err + nat) \<times> ('e, 'd) stream" where
  "Write_some cdc s st = Write cdc (Some s) st"

text \<open>\<^verbatim>\<open>fwrite(p, 1, n, f) != n\<close> is the failure test of every direct write to a file.\<close>

definition fwrite_all :: "bytes \<Rightarrow> FILE \<Rightarrow> (err + nat) \<times> FILE" where
  "fwrite_all bs f = (case fwrite bs f of (n, f') \<Rightarrow> (if n = length bs then Inr n else Inl EFAIL, f'))"

interpretation lz4_sink: byte_sink "Write_some cdc" "emits cdc" writer for cdc :: "('e, 'd) lz4_codec"
  by unfold_locales (auto simp: Write_some_def emits_refl emits_trans Write_Inr)

interpretation file_sink: byte_sink fwrite_all
  "\<lambda>f bs f'. fl_data f' = fl_data f @ bs \<and> fl_err f' = fl_err f" at_end
  by unfold_locales (auto simp: fwrite_all_def dest: fwrite_full split: prod.splits if_splits)

section \<open>The other writers\<close>

lemma WriteRaw_Inr:
  assumes w: "writer st" and r: "WriteRaw cdc (Some s) st = (Inr n, st')" and ne: "s \<noteq> []"
  obtains mid f f' where "writer mid" "pending mid = []" "appended cdc st (sealed st) mid" "s_type mid = s_type st"
    "s_file mid = Some f" "s_file st' = Some f'" "fwrite s f = (n, f')"
    "st' = mid\<lparr>s_file := Some f', s_fsize := s_fsize mid + of_nat n\<rparr>"
proof -
  from w obtain f0 e where fe: "s_file st = Some f0" "s_enc st = Some e" by (auto simp: writer_def)
  obtain m mid where mid: "(if Block_isEmpty (CurrentBlock st) then (Inr 0, st) else Flush cdc st) = (Inr m, mid)"
    using r fe ne by (auto simp: WriteRaw_def split: if_splits prod.splits sum.splits)
  have M: "writer mid" "pending mid = []" "appended cdc st (sealed st) mid" "s_type mid = s_type st"
    using mid Flush_Inr [OF w, of cdc m mid] w appended_refl [OF w, of cdc]
    by (auto simp: Block_isEmpty_def sealed_def pending_def split: if_splits)
  then obtain f where f: "s_file mid = Some f" by (auto simp: writer_def)
  obtain k f' where k: "fwrite s f = (k, f')" by fastforce
  have "n = k" "st' = mid\<lparr>s_file := Some f', s_fsize := s_fsize mid + of_nat n\<rparr>"
    using r fe ne mid f k by (auto simp: WriteRaw_def simp del: if_splits split: if_splits)
  then show ?thesis using M f k by (intro that [of mid f f']) simp_all
qed

lemma SetBlock_Inr:
  assumes w: "writer st" and r: "SetBlock cdc t st = (Inr n, st')"
  shows "writer st' \<and> s_type st' = t \<and> 0 \<le> t \<and> t < 6 \<and>
    (if t = s_type st then st' = st else pending st' = [] \<and> appended cdc st (sealed st) st')"
proof -
  have t: "0 \<le> t" "t < 6" using r by (auto simp: SetBlock_def split: if_splits)
  show ?thesis
  proof (cases "t = s_type st \<or> pending st = []")
    case True
    then have "st' = st\<lparr>s_type := t\<rparr>"
      using r w by (auto simp: SetBlock_def writer_def pending_def Block_isEmpty_def split: if_splits)
    then show ?thesis
      using True w t appended_refl [OF w, of cdc]
      by (auto simp: writer_def pending_def sealed_def appended_def)
  next
    case False
    then obtain m st1 where f: "Flush cdc st = (Inr m, st1)" "st' = st1\<lparr>s_type := t\<rparr>"
      using r w by (auto simp: SetBlock_def writer_def pending_def Block_isEmpty_def split: if_splits prod.splits sum.splits)
    from Flush_Inr [OF w f(1)] f(2) t False show ?thesis
      by (auto simp: writer_def pending_def appended_def)
  qed
qed

lemma Sync_Inr:
  assumes w: "writer st" and r: "Sync cdc st = (Inr u, st')"
  shows "writer st' \<and> pending st' = [] \<and> appended cdc st (sealed st) st' \<and>
    (\<exists>f. s_file st' = Some f \<and> fl_flush_ok f \<and> fl_sync_ok f)"
proof -
  obtain m where f: "Flush cdc st = (Inr m, st')"
    using r by (auto simp: Sync_def split: if_splits prod.splits sum.splits option.splits)
  show ?thesis
    using Flush_Inr [OF w f] r f by (auto simp: Sync_def split: if_splits option.splits)
qed

lemma Close_Inr:
  assumes w: "writer st" and r: "Close cdc st = (Inr u, fo, st')"
  obtains st1 f where "fo = Some f" "s_file st1 = Some f" "pending st1 = []"
    "appended cdc st (sealed st) st1" "fl_close_ok f" "s_file st' = None" "s_enc st' = None"
proof -
  from w obtain f0 e where fe: "s_file st = Some f0" "s_enc st = Some e" by (auto simp: writer_def)
  obtain m st1 where f: "Flush cdc st = (Inr m, st1)"
    using r fe by (cases "Flush cdc st"; cases "fst (Flush cdc st)") (auto simp: Close_def Let_def)
  note F = Flush_Inr [OF w f]
  obtain f1 where f1: "s_file st1 = Some f1" using F(1) by (auto simp: writer_def)
  have "fo = Some f1" "fl_close_ok f1" "st' = ReleaseCodec (st1\<lparr>s_file := None\<rparr>)"
    using r fe f f1 by (auto simp: Close_def Let_def split: if_splits)
  then show ?thesis using f1 F by (intro that [of f1 st1]) (auto simp: ReleaseCodec_def)
qed

section \<open>Failures\<close>

text \<open>Once a write to the file was short, no later operation reports success.\<close>

definition failed :: "('e, 'd) stream \<Rightarrow> bool" where
  "failed st \<longleftrightarrow> (\<exists>f. s_file st = Some f \<and> fl_err f)"

lemma Flush_failed: "failed st \<Longrightarrow> s_enc st \<noteq> None \<Longrightarrow> Flush cdc st = (Inl EIO, st)"
  by (auto simp: failed_def Flush_def)

lemma Compress_Inl:
  assumes w: "writer st" and r: "Compress cdc hdr st = (Inl err, st')"
  shows "pending st' = pending st"
    "failed st' \<or> s_file st' = s_file st"
    "\<exists>f f' junk. s_file st = Some f \<and> s_file st' = Some f' \<and> fl_data f' = fl_data f @ junk"
proof -
  from w obtain f e where f: "s_file st = Some f" "at_end f" and e: "s_enc st = Some e"
    unfolding writer_def by auto
  let ?b = "CurrentBlock st"
  have ne: "\<not> Block_isEmpty ?b" using r by (auto simp: Compress_def Let_def)
  obtain out e1 where c: "LZ4_compress cdc e (cur_ix st) (b_buf ?b) COMPRESS_BUF = (out, e1)" by fastforce
  have *: "pending st' = pending st \<and> (failed st' \<or> s_file st' = s_file st) \<and>
    (\<exists>f f' junk. s_file st = Some f \<and> s_file st' = Some f' \<and> fl_data f' = fl_data f @ junk)"
  proof (cases "out = None \<or> out = Some []")
    case True
    then have "st' = st\<lparr>s_enc := Some e1\<rparr>" using r ne f e c by (auto simp: Compress_def Let_def)
    then show ?thesis using f by (simp add: pending_def CurrentBlock_def)
  next
    case False
    then obtain cb where cb: "out = Some cb" "cb \<noteq> []" by auto
    define h where "h = hdr\<lparr>hdr_size := of_nat (length cb)\<rparr>"
    obtain n1 f1 where w1: "fwrite (put_hdr h) f = (n1, f1)" by fastforce
    obtain n2 f2 where w2: "fwrite cb f1 = (n2, f2)" by fastforce
    obtain n3 f3 where w3: "fwrite (put32 (block_checksum h (b_buf ?b))) f2 = (n3, f3)" by fastforce
    have st': "(n1 \<noteq> 3 \<and> st' = st\<lparr>s_enc := Some e1, s_file := Some f1\<rparr>) \<or>
        (n1 = 3 \<and> n2 \<noteq> length cb \<and> st' = st\<lparr>s_enc := Some e1, s_file := Some f2\<rparr>) \<or>
        (n1 = 3 \<and> n2 = length cb \<and> n3 \<noteq> 4 \<and> st' = st\<lparr>s_enc := Some e1, s_file := Some f3\<rparr>)"
      using r ne f e c cb w1 w2 w3
      by (auto simp: Compress_def Let_def h_def [symmetric] split: if_splits)
    have a1: "fl_data f1 = fl_data f @ take n1 (put_hdr h)" "at_end f1" using fwrite_at_end [OF w1 f(2)] by auto
    have a2: "fl_data f2 = fl_data f1 @ take n2 cb" "at_end f2" using fwrite_at_end [OF w2 a1(2)] by auto
    have a3: "fl_data f3 = fl_data f2 @ take n3 (put32 (block_checksum h (b_buf ?b)))"
      using fwrite_at_end [OF w3 a2(2)] by auto
    from st' show ?thesis
    proof (elim disjE conjE)
      assume "n1 \<noteq> 3" and s: "st' = st\<lparr>s_enc := Some e1, s_file := Some f1\<rparr>"
      then have "fl_err f1" using fwrite_short(1) [OF w1] by simp
      then show ?thesis using s f a1 by (auto simp: pending_def CurrentBlock_def failed_def)
    next
      assume "n2 \<noteq> length cb" and s: "st' = st\<lparr>s_enc := Some e1, s_file := Some f2\<rparr>"
      then have "fl_err f2" using fwrite_short(1) [OF w2] by simp
      then show ?thesis using s f a1 a2 by (auto simp: pending_def CurrentBlock_def failed_def)
    next
      assume "n3 \<noteq> 4" and s: "st' = st\<lparr>s_enc := Some e1, s_file := Some f3\<rparr>"
      then have "fl_err f3" using fwrite_short(1) [OF w3] by simp
      then show ?thesis using s f a1 a2 a3 by (auto simp: pending_def CurrentBlock_def failed_def)
    qed
  qed
  then show "pending st' = pending st" "failed st' \<or> s_file st' = s_file st"
    "\<exists>f f' junk. s_file st = Some f \<and> s_file st' = Some f' \<and> fl_data f' = fl_data f @ junk" by blast+
qed

section \<open>Success\<close>

text \<open>
  With a destination of at least \<^verbatim>\<open>LZ4_COMPRESSBOUND\<close> bytes compression never fails
  (\<^verbatim>\<open>lz4.h\<close>), so a write fails for want of space only. \<open>BLOCK_COST\<close> bounds what one
  block takes in the file: header, compressed data, checksum.
\<close>

definition codec_total :: "('e, 'd) lz4_codec \<Rightarrow> bool" where
  "codec_total cdc \<longleftrightarrow>
     (\<forall>e ix raw. 0 < length raw \<and> length raw \<le> BLOCK_SIZE \<longrightarrow>
        (\<exists>c. fst (LZ4_compress cdc e ix raw COMPRESS_BUF) = Some c \<and> 0 < length c \<and> length c \<le> COMPRESS_BUF))"

abbreviation (input) BLOCK_COST :: nat where "BLOCK_COST \<equiv> 65816"

definition room :: "('e, 'd) stream \<Rightarrow> nat \<Rightarrow> bool" where
  "room st k \<longleftrightarrow> (\<exists>f. s_file st = Some f \<and> \<not> fl_err f \<and> length (fl_data f) + k \<le> fl_limit f)"

lemma room_mono: "room st k \<Longrightarrow> j \<le> k \<Longrightarrow> room st j"
  by (auto simp: room_def)

lemma room_set_block [simp]: "room (set_block b st) k = room st k"
  by (simp add: room_def)

lemma fwrite_room:
  "at_end f \<Longrightarrow> length (fl_data f) + length bs + k \<le> fl_limit f \<Longrightarrow> \<not> fl_err f \<Longrightarrow>
   \<exists>f'. fwrite bs f = (length bs, f') \<and> at_end f' \<and> \<not> fl_err f' \<and> length (fl_data f') + k \<le> fl_limit f'"
  by (auto simp: fwrite_def at_end_def Let_def min_def)

lemma Compress_room:
  assumes w: "writer st" and ne: "pending st \<noteq> []" and ct: "codec_total cdc" and rm: "room st (BLOCK_COST + k)"
  shows "\<exists>n st'. Compress cdc hdr st = (Inr n, st') \<and> room st' k"
proof -
  from w obtain f e where f: "s_file st = Some f" "at_end f" and e: "s_enc st = Some e"
    and len: "length (pending st) \<le> BLOCK_SIZE"
    unfolding writer_def by auto
  let ?b = "CurrentBlock st"
  have "0 < length (pending st)" using ne by simp
  then obtain cb e1 where c: "LZ4_compress cdc e (cur_ix st) (b_buf ?b) COMPRESS_BUF = (Some cb, e1)"
    "cb \<noteq> []" "length cb \<le> COMPRESS_BUF"
    using ct len unfolding codec_total_def pending_def
    by (metis length_greater_0_conv prod.collapse)
  define h where "h = hdr\<lparr>hdr_size := of_nat (length cb)\<rparr>"
  have "length (fl_data f) + length (put_hdr h) + (COMPRESS_BUF + 4 + k) \<le> fl_limit f" "\<not> fl_err f"
    using rm f by (auto simp: room_def)
  from fwrite_room [OF f(2) this] obtain f1 where
    f1: "fwrite (put_hdr h) f = (3, f1)" "at_end f1" "\<not> fl_err f1"
      "length (fl_data f1) + (COMPRESS_BUF + 4 + k) \<le> fl_limit f1" by auto
  have "length (fl_data f1) + length cb + (4 + k) \<le> fl_limit f1" using f1(4) c(3) by simp
  from fwrite_room [OF f1(2) this f1(3)] obtain f2 where
    f2: "fwrite cb f1 = (length cb, f2)" "at_end f2" "\<not> fl_err f2" "length (fl_data f2) + (4 + k) \<le> fl_limit f2"
    by auto
  let ?k = "put32 (block_checksum h (b_buf ?b))"
  have "length (fl_data f2) + length ?k + k \<le> fl_limit f2" using f2(4) by simp
  from fwrite_room [OF f2(2) this f2(3)] obtain f3 where
    f3: "fwrite ?k f2 = (4, f3)" "\<not> fl_err f3" "length (fl_data f3) + k \<le> fl_limit f3" by auto
  show ?thesis
  proof (cases "s_sums st")
    case True
    then show ?thesis
      using ne f e c f1 f2 f3 by (simp add: Compress_def Let_def pending_def Block_isEmpty_def room_def flip: h_def)
  next
    case False
    then show ?thesis
      using ne f e c f1 f2 by (simp add: Compress_def Let_def pending_def Block_isEmpty_def room_def flip: h_def)
  qed
qed

lemma Flush_room:
  assumes w: "writer st" and ct: "codec_total cdc" and rm: "room st (BLOCK_COST + k)"
  shows "\<exists>st'. Flush cdc st = (Inr 0, st') \<and> room st' k"
proof -
  from w obtain f e where fe: "s_file st = Some f" "s_enc st = Some e" by (auto simp: writer_def)
  have ok: "\<not> fl_err f" using rm fe by (auto simp: room_def)
  show ?thesis
  proof (cases "pending st = []")
    case True
    then show ?thesis
      using fe ok room_mono [OF rm, of k] by (simp add: Flush_def pending_def Block_isEmpty_def)
  next
    case False
    obtain n st' where "Compress cdc (BlockHeader_init\<lparr>hdr_type := word_of_int (s_type st)\<rparr>) st = (Inr n, st')"
      "room st' k" using Compress_room [OF w False ct rm] by blast
    then show ?thesis
      using fe ok False by (simp add: Flush_def pending_def Block_isEmpty_def)
  qed
qed

lemma write_chunks_room:
  "writer st \<Longrightarrow> codec_total cdc \<Longrightarrow> room st (BLOCK_COST * length (chunks s) + k) \<Longrightarrow>
   \<exists>st'. write_chunks cdc s st = (Inr (), st') \<and> room st' k"
proof (induction s arbitrary: st rule: chunks.induct)
  case (1 s)
  show ?case
  proof (cases "s = []")
    case True
    then show ?thesis using "1.prems" by (subst write_chunks.simps) simp
  next
    case False
    let ?j = "min BLOCK_SIZE (length s)"
    obtain b where b: "Block_Write (Some (take ?j s)) (Block_Clear (CurrentBlock st)) = (Inr ?j, b)"
      "writer (set_block b st)" "drop ?j s = drop BLOCK_SIZE s"
      using fill_block [OF "1.prems"(1) False] by blast
    have "room (set_block b st) (BLOCK_COST + (BLOCK_COST * length (chunks (drop BLOCK_SIZE s)) + k))"
      using "1.prems"(3) False by (simp add: chunks_step add.assoc)
    from Flush_room [OF b(2) "1.prems"(2) this] obtain st1 where
      st1: "Flush cdc (set_block b st) = (Inr 0, st1)"
        "room st1 (BLOCK_COST * length (chunks (drop BLOCK_SIZE s)) + k)" by blast
    have "writer st1" using Flush_Inr(1) [OF b(2) st1(1)] .
    from "1.IH" [OF False this "1.prems"(2) st1(2)] obtain st' where
      "write_chunks cdc (drop BLOCK_SIZE s) st1 = (Inr (), st')" "room st' k" by blast
    then show ?thesis
      using False b st1 by (subst write_chunks.simps) (simp add: Let_def del: Block_Clear_eq)
  qed
qed

lemma block_chunks_room:
  "writer st \<Longrightarrow> codec_total cdc \<Longrightarrow> room st (BLOCK_COST * length (chunks s) + k) \<Longrightarrow>
   \<exists>st'. block_chunks cdc hdr s st = (Inr (), st') \<and> room st' k"
proof (induction s arbitrary: st hdr rule: chunks.induct)
  case (1 s)
  show ?case
  proof (cases "s = []")
    case True
    then show ?thesis using "1.prems" by (subst block_chunks.simps) simp
  next
    case False
    let ?j = "min BLOCK_SIZE (length s)"
    obtain b where b: "Block_Write (Some (take ?j s)) (Block_Clear (CurrentBlock st)) = (Inr ?j, b)"
      "writer (set_block b st)" "drop ?j s = drop BLOCK_SIZE s" "pending (set_block b st) = take BLOCK_SIZE s"
      using fill_block [OF "1.prems"(1) False] by blast
    have ne: "pending (set_block b st) \<noteq> []" using b(4) False by simp
    have "room (set_block b st) (BLOCK_COST + (BLOCK_COST * length (chunks (drop BLOCK_SIZE s)) + k))"
      using "1.prems"(3) False by (simp add: chunks_step add.assoc)
    from Compress_room [OF b(2) ne "1.prems"(2) this] obtain n st1 where
      st1: "Compress cdc hdr (set_block b st) = (Inr n, st1)"
        "room st1 (BLOCK_COST * length (chunks (drop BLOCK_SIZE s)) + k)" by blast
    have "writer st1" "0 < n" using Compress_Inr [OF b(2) ne st1(1)] by auto
    from "1.IH" [OF False this(1) "1.prems"(2) st1(2)] obtain st' where
      "block_chunks cdc (hdr\<lparr>hdr_cont := 1\<rparr>) (drop BLOCK_SIZE s) st1 = (Inr (), st')" "room st' k" by blast
    then show ?thesis
      using False b st1 \<open>0 < n\<close>
      by (subst block_chunks.simps) (simp add: Let_def del: Block_Clear_eq)
  qed
qed

lemma WriteBlock_room:
  assumes w: "writer st" and ct: "codec_total cdc" and t: "0 \<le> t" "t < 6" and n: "length s \<le> INT_MAX"
    and rm: "room st (BLOCK_COST * (1 + length (chunks s)) + k)"
  shows "\<exists>st'. WriteBlock cdc (Some s) t st = (Inr (length s), st') \<and> room st' k"
proof -
  have "room st (BLOCK_COST + (BLOCK_COST * length (chunks s) + k))" using rm by (simp add: add.assoc)
  from Flush_room [OF w ct this] obtain st1 where
    st1: "Flush cdc st = (Inr 0, st1)" "room st1 (BLOCK_COST * length (chunks s) + k)" by blast
  from block_chunks_room [OF Flush_Inr(1) [OF w st1(1)] ct st1(2)] obtain st2 where
    "block_chunks cdc (BlockHeader_init\<lparr>hdr_type := word_of_int t\<rparr>) s st1 = (Inr (), st2)" "room st2 k" by blast
  then show ?thesis
    using st1 t n w by (auto simp: WriteBlock_def writer_def)
qed

end
