(* ===== verification/Lz4Reader.thy ===== *)
theory Lz4Reader
  imports Lz4Writer
begin

text \<open>
  What the reading half of \<open>Lz4Stream\<close> promises: bounds and error states of
  \<^verbatim>\<open>ReadBlock\<close> on arbitrary input, and, for input the writer produced, the blocks back in
  order. \<open>codec_ok\<close> collects what \<^verbatim>\<open>lz4.h\<close> documents about streaming with a double
  buffer on the encoder's side and a ring buffer on the decoder's.
\<close>

section \<open>The contract of the LZ4 library\<close>

definition ring_of :: "('e, 'd) lz4_codec \<Rightarrow> nat" where
  "ring_of cdc = nat (LZ4_decoderRingBufferSize cdc BLOCK_SIZE)"

definition ring_pos :: "('e, 'd) lz4_codec \<Rightarrow> nat \<Rightarrow> nat" where
  "ring_pos cdc p = (if ring_of cdc - p < BLOCK_SIZE then 0 else p)"

text \<open>
  \<open>sync e ix d p\<close>: encoder state \<open>e\<close>, about to compress from buffer \<open>ix\<close>, and decoder state
  \<open>d\<close>, whose last block ended at ring offset \<open>p\<close>, have seen the same blocks.
\<close>

definition codec_bounds :: "('e, 'd) lz4_codec \<Rightarrow> bool" where
  "codec_bounds cdc \<longleftrightarrow>
     (\<forall>e ix raw c e'. LZ4_compress cdc e ix raw COMPRESS_BUF = (Some c, e') \<longrightarrow> length c \<le> COMPRESS_BUF) \<and>
     (\<forall>d off c raw d'. LZ4_decompress cdc d off c BLOCK_SIZE = (Some raw, d') \<longrightarrow> length raw \<le> BLOCK_SIZE) \<and>
     BLOCK_SIZE \<le> ring_of cdc"

definition codec_inverse :: "('e, 'd) lz4_codec \<Rightarrow> ('e \<Rightarrow> nat \<Rightarrow> 'd \<Rightarrow> nat \<Rightarrow> bool) \<Rightarrow> bool" where
  "codec_inverse cdc sync \<longleftrightarrow>
     (\<forall>e ix d p raw c e'.
        sync e ix d p \<longrightarrow> 0 < length raw \<longrightarrow> length raw \<le> BLOCK_SIZE \<longrightarrow>
        LZ4_compress cdc e ix raw COMPRESS_BUF = (Some c, e') \<longrightarrow> c \<noteq> [] \<longrightarrow>
        (\<exists>d'. LZ4_decompress cdc d (ring_pos cdc p) c BLOCK_SIZE = (Some raw, d') \<and>
              sync e' (Suc ix mod 2) d' (ring_pos cdc p + length raw)))"

definition codec_start :: "('e, 'd) lz4_codec \<Rightarrow> ('e \<Rightarrow> nat \<Rightarrow> 'd \<Rightarrow> nat \<Rightarrow> bool) \<Rightarrow> bool" where
  "codec_start cdc sync \<longleftrightarrow>
     (\<forall>e0 e d0 d. LZ4_createStream cdc = Some e0 \<longrightarrow> LZ4_initStream cdc e0 = Some e \<longrightarrow>
        LZ4_createStreamDecode cdc = Some d0 \<longrightarrow> LZ4_setStreamDecode cdc d0 = Some d \<longrightarrow> sync e 0 d 0)"

definition codec_ok :: "('e, 'd) lz4_codec \<Rightarrow> ('e \<Rightarrow> nat \<Rightarrow> 'd \<Rightarrow> nat \<Rightarrow> bool) \<Rightarrow> bool" where
  "codec_ok cdc sync \<longleftrightarrow> codec_bounds cdc \<and> codec_inverse cdc sync \<and> codec_start cdc sync"

section \<open>An open reader\<close>

definition ring_ok :: "('e, 'd) lz4_codec \<Rightarrow> ('e, 'd) stream \<Rightarrow> bool" where
  "ring_ok cdc st \<longleftrightarrow> s_ring st = ring_of cdc \<and> s_off st \<le> s_ring st \<and> length (s_blocks st) = 2"

lemma decode_offset_pos: "ring_ok cdc st \<Longrightarrow> decode_offset st = ring_pos cdc (s_off st)"
  by (simp add: decode_offset_def ring_ok_def size_sub_def ring_pos_def)

lemma decode_offset_room:
  "ring_ok cdc st \<Longrightarrow> codec_bounds cdc \<Longrightarrow> decode_offset st + BLOCK_SIZE \<le> s_ring st"
  by (auto simp: decode_offset_pos ring_pos_def ring_ok_def codec_bounds_def)

definition reader :: "('e, 'd) lz4_codec \<Rightarrow> ('e, 'd) stream \<Rightarrow> bool" where
  "reader cdc st \<longleftrightarrow>
     (\<exists>f. s_file st = Some f \<and> healthy f) \<and> s_dec st \<noteq> None \<and> s_clean st \<and> \<not> s_tail st \<and> ring_ok cdc st"

lemma ring_ok_update [simp]:
  "ring_ok cdc (st\<lparr>s_file := a\<rparr>) = ring_ok cdc st" "ring_ok cdc (st\<lparr>s_index := b\<rparr>) = ring_ok cdc st"
  "ring_ok cdc (st\<lparr>s_clean := c\<rparr>) = ring_ok cdc st" "ring_ok cdc (st\<lparr>s_tail := c\<rparr>) = ring_ok cdc st"
  "ring_ok cdc (st\<lparr>s_dec := d\<rparr>) = ring_ok cdc st" "ring_ok cdc (set_block x st) = ring_ok cdc st"
  by (simp_all add: ring_ok_def)

lemma decode_offset_update [simp]:
  "decode_offset (st\<lparr>s_file := a\<rparr>) = decode_offset st" "decode_offset (st\<lparr>s_index := b\<rparr>) = decode_offset st"
  "decode_offset (st\<lparr>s_clean := c\<rparr>) = decode_offset st" "decode_offset (set_block x st) = decode_offset st"
  by (simp_all add: decode_offset_def)

section \<open>Arbitrary input\<close>

text \<open>A block that comes out: its data, its ring slot, its checksum.\<close>

lemma decode_block_Some:
  assumes "decode_block cdc hdr c k st = (Some (h, b), st')" "length (s_blocks st) = 2"
  obtains d d' where "s_dec st = Some d"
    "LZ4_decompress cdc d (decode_offset st) c BLOCK_SIZE = (Some (b_buf b), d')"
    "h = hdr" "b_cur b = 0" "b_buf b \<noteq> []" "s_sums st \<longrightarrow> block_checksum hdr (b_buf b) = k"
    "st' = set_block b (st\<lparr>s_dec := Some d', s_off := decode_offset st + length (b_buf b)\<rparr>)"
proof -
  from assms obtain d where d: "s_dec st = Some d"
    by (auto simp: decode_block_def Let_def split: option.splits)
  obtain out d' where o: "LZ4_decompress cdc d (decode_offset st) c BLOCK_SIZE = (out, d')" by fastforce
  from assms d o obtain raw where raw: "out = Some raw" "raw \<noteq> []"
    by (cases out) (auto simp: decode_block_def Let_def split: if_splits)
  have "h = hdr \<and> b = empty_block\<lparr>b_buf := raw\<rparr> \<and> (s_sums st \<longrightarrow> block_checksum hdr raw = k) \<and>
      st' = set_block b (st\<lparr>s_dec := Some d', s_off := decode_offset st + length raw\<rparr>)"
    using assms d o raw by (auto simp: decode_block_def Let_def split: if_splits)
  then show ?thesis using d o raw by (intro that [of d d']) (auto simp: empty_block_def)
qed

lemma decode_block_None:
  assumes "decode_block cdc hdr c k st = (None, st')" "s_dec st \<noteq> None"
  shows "\<not> s_clean st'" "s_file st' = s_file st" "s_sums st' = s_sums st" "s_tail st' = s_tail st"
    "codec_bounds cdc \<Longrightarrow> ring_ok cdc st \<Longrightarrow> ring_ok cdc st'"
proof -
  from assms(2) obtain d where d: "s_dec st = Some d" by auto
  obtain out d' where o: "LZ4_decompress cdc d (decode_offset st) c BLOCK_SIZE = (out, d')" by fastforce
  show "\<not> s_clean st'" "s_file st' = s_file st" "s_sums st' = s_sums st" "s_tail st' = s_tail st"
    using assms d o by (auto simp: decode_block_def Let_def split: option.splits if_splits)
  assume cb: "codec_bounds cdc" and r: "ring_ok cdc st"
  note room = decode_offset_room [OF r cb]
  have "\<And>raw. out = Some raw \<Longrightarrow> length raw \<le> BLOCK_SIZE" using cb o unfolding codec_bounds_def by blast
  then show "ring_ok cdc st'"
    using assms d o r room
    by (cases out) (auto simp: decode_block_def Let_def ring_ok_def split: if_splits)
qed

text \<open>
  The stages of \<^verbatim>\<open>ReadBlock\<close> on a live reader, in one place: what was read from the file
  when a block comes out.
\<close>

definition stage :: "('e, 'd) stream \<Rightarrow> FILE \<Rightarrow> ('e, 'd) stream" where
  "stage st f = (set_block empty_block (st\<lparr>s_index := s_index st + 1\<rparr>))\<lparr>s_file := Some f\<rparr>"

lemma stage_frame [simp]:
  "s_file (stage st f) = Some f" "s_dec (stage st f) = s_dec st" "s_sums (stage st f) = s_sums st"
  "s_clean (stage st f) = s_clean st" "s_tail (stage st f) = s_tail st" "s_off (stage st f) = s_off st"
  "s_mode (stage st f) = s_mode st" "s_ring (stage st f) = s_ring st"
  "length (s_blocks (stage st f)) = length (s_blocks st)" "ring_ok cdc (stage st f) = ring_ok cdc st"
  "decode_offset (stage st f) = decode_offset st" "(stage st f)\<lparr>s_file := Some g\<rparr> = stage st g"
  by (simp_all add: stage_def)

lemma ReadBlock_live:
  assumes "s_file st = Some f" "s_dec st = Some d" "s_clean st" "\<not> s_tail st"
  shows "ReadBlock cdc st =
     (let (h, f1) = fread 3 f in
      if length h \<noteq> 3 then (None, (stage st f1)\<lparr>s_clean := (length h = 0 \<and> \<not> fl_err f1)\<rparr>)
      else if isTailMark (get_hdr h) then (None, (stage st f1)\<lparr>s_clean := True, s_tail := True\<rparr>)
      else if unat (hdr_size (get_hdr h)) > COMPRESS_BUF then (None, (stage st f1)\<lparr>s_clean := False\<rparr>)
      else
        let (c, f2) = fread (unat (hdr_size (get_hdr h))) f1 in
        if length c \<noteq> unat (hdr_size (get_hdr h)) then (None, (stage st f2)\<lparr>s_clean := False\<rparr>)
        else
          let (k, f3) = (if s_sums st then fread 4 f2 else ([], f2)) in
          if s_sums st \<and> length k \<noteq> 4 then (None, (stage st f3)\<lparr>s_clean := False\<rparr>)
          else decode_block cdc (get_hdr h) c (if s_sums st then get32 k else 0) (stage st f3))"
  using assms unfolding ReadBlock_def
  by (simp add: Let_def stage_def [symmetric] case_prod_beta)

lemma ReadBlock_dead:
  "s_file st \<noteq> None \<Longrightarrow> s_dec st \<noteq> None \<Longrightarrow> \<not> s_clean st \<or> s_tail st \<Longrightarrow> ReadBlock cdc st = (None, st)"
  by (auto simp: ReadBlock_def)

lemma ReadBlock_Some:
  assumes r: "ReadBlock cdc st = (Some (hdr, b), st')" and len: "length (s_blocks st) = 2"
  obtains f d h f1 c f2 k f3 where "s_file st = Some f" "s_dec st = Some d" "s_clean st" "\<not> s_tail st"
    "fread 3 f = (h, f1)" "length h = 3" "hdr = get_hdr h" "\<not> isTailMark hdr" "unat (hdr_size hdr) \<le> COMPRESS_BUF"
    "fread (unat (hdr_size hdr)) f1 = (c, f2)" "length c = unat (hdr_size hdr)"
    "(if s_sums st then fread 4 f2 else ([], f2)) = (k, f3)" "s_sums st \<longrightarrow> length k = 4"
    "decode_block cdc hdr c (if s_sums st then get32 k else 0) (stage st f3) = (Some (hdr, b), st')"
proof -
  from r obtain f d where l: "s_file st = Some f" "s_dec st = Some d" "s_clean st" "\<not> s_tail st"
    by (auto simp: ReadBlock_def split: option.splits if_splits)
  obtain h f1 where h: "fread 3 f = (h, f1)" by fastforce
  obtain c f2 where c: "fread (unat (hdr_size (get_hdr h))) f1 = (c, f2)" by fastforce
  obtain k f3 where k: "(if s_sums st then fread 4 f2 else ([], f2)) = (k, f3)" by fastforce
  note eq = r [unfolded ReadBlock_live [OF l] h c k Let_def prod.case]
  have g: "length h = 3" "\<not> isTailMark (get_hdr h)" "unat (hdr_size (get_hdr h)) \<le> COMPRESS_BUF"
    "length c = unat (hdr_size (get_hdr h))" "s_sums st \<longrightarrow> length k = 4"
    and dec: "decode_block cdc (get_hdr h) c (if s_sums st then get32 k else 0) (stage st f3) = (Some (hdr, b), st')"
    using eq c k by (auto split: if_splits)
  have "length (s_blocks (stage st f3)) = 2" using len by simp
  then have "hdr = get_hdr h" using decode_block_Some [OF dec] by blast
  then show ?thesis using that [OF l h g(1)] g c k dec by auto
qed

text \<open>Whatever the file holds, a returned block is sound and the ring is never overrun.\<close>

lemma ReadBlock_sound:
  assumes r: "ReadBlock cdc st = (Some (hdr, b), st')" and ok: "ring_ok cdc st" and cb: "codec_bounds cdc"
  shows "wf_block b" "b_cur b = 0" "b_buf b \<noteq> []" "\<not> isTailMark hdr" "ring_ok cdc st'"
    "s_clean st'" "\<not> s_tail st'" "s_sums st' = s_sums st" "s_file st' \<noteq> None" "s_dec st' \<noteq> None"
proof -
  have len: "length (s_blocks st) = 2" using ok by (simp add: ring_ok_def)
  obtain f d h f1 c f2 k f3 where
    l: "s_clean st" "\<not> s_tail st" "\<not> isTailMark hdr"
      and dec: "decode_block cdc hdr c (if s_sums st then get32 k else 0) (stage st f3) = (Some (hdr, b), st')"
    using ReadBlock_Some [OF r len] by blast
  have "length (s_blocks (stage st f3)) = 2" using len by simp
  then obtain d1 d2 where
    "LZ4_decompress cdc d1 (decode_offset (stage st f3)) c BLOCK_SIZE = (Some (b_buf b), d2)"
    "b_cur b = 0" "b_buf b \<noteq> []"
    "st' = set_block b ((stage st f3)\<lparr>s_dec := Some d2, s_off := decode_offset (stage st f3) + length (b_buf b)\<rparr>)"
    by (rule decode_block_Some [OF dec])
  note D = this [unfolded stage_frame]
  have sz: "length (b_buf b) \<le> BLOCK_SIZE" using cb D(1) unfolding codec_bounds_def by blast
  show "wf_block b" "b_cur b = 0" "b_buf b \<noteq> []" using D sz by (simp_all add: wf_block_def)
  show "\<not> isTailMark hdr" by (fact l(3))
  have "decode_offset st + length (b_buf b) \<le> s_ring st"
    using decode_offset_room [OF ok cb] sz by simp
  moreover have "length (s_blocks (stage st f3)) = 2" using len by simp
  ultimately show "ring_ok cdc st'" using ok D(4) by (simp add: ring_ok_def)
  show "s_clean st'" "\<not> s_tail st'" "s_sums st' = s_sums st" "s_file st' \<noteq> None" "s_dec st' \<noteq> None"
    using D(4) l by simp_all
qed

lemma ReadBlock_None:
  assumes r: "ReadBlock cdc st = (None, st')" and ok: "ring_ok cdc st" and cb: "codec_bounds cdc"
    and open_in: "s_file st \<noteq> None" "s_dec st \<noteq> None"
  shows "ring_ok cdc st'" "s_file st' \<noteq> None"
    "\<not> s_clean st' \<or> s_tail st' \<or> (\<exists>f f'. s_file st = Some f \<and> fread 3 f = ([], f') \<and> s_file st' = Some f' \<and> \<not> fl_err f')"
proof -
  from open_in obtain f d where fd: "s_file st = Some f" "s_dec st = Some d" by auto
  have "ring_ok cdc st' \<and> s_file st' \<noteq> None \<and>
    (\<not> s_clean st' \<or> s_tail st' \<or> (\<exists>f f'. s_file st = Some f \<and> fread 3 f = ([], f') \<and> s_file st' = Some f' \<and> \<not> fl_err f'))"
  proof (cases "s_clean st \<and> \<not> s_tail st")
    case False
    then have "st' = st" using r ReadBlock_dead [OF open_in] by auto
    then show ?thesis using False ok open_in by auto
  next
    case True
    then have l: "s_clean st" "\<not> s_tail st" by auto
    obtain h f1 where h: "fread 3 f = (h, f1)" by fastforce
    obtain c f2 where c: "fread (unat (hdr_size (get_hdr h))) f1 = (c, f2)" by fastforce
    obtain k f3 where k: "(if s_sums st then fread 4 f2 else ([], f2)) = (k, f3)" by fastforce
    note eq = r [unfolded ReadBlock_live [OF fd l] h c k Let_def prod.case]
    let ?hdr = "get_hdr h"
    show ?thesis
    proof (cases "length h = 3")
      case False
      then have "st' = (stage st f1)\<lparr>s_clean := (length h = 0 \<and> \<not> fl_err f1)\<rparr>" using eq by simp
      then show ?thesis using fd h ok by auto
    next
      case l3: True
      consider (tail) "isTailMark ?hdr" | (big) "\<not> isTailMark ?hdr" "unat (hdr_size ?hdr) > COMPRESS_BUF"
        | (short) "\<not> isTailMark ?hdr" "\<not> unat (hdr_size ?hdr) > COMPRESS_BUF" "length c \<noteq> unat (hdr_size ?hdr)"
        | (sum) "\<not> isTailMark ?hdr" "\<not> unat (hdr_size ?hdr) > COMPRESS_BUF" "length c = unat (hdr_size ?hdr)"
            "s_sums st \<and> length k \<noteq> 4"
        | (dec) "\<not> isTailMark ?hdr" "\<not> unat (hdr_size ?hdr) > COMPRESS_BUF" "length c = unat (hdr_size ?hdr)"
            "\<not> (s_sums st \<and> length k \<noteq> 4)"
        by blast
      then show ?thesis
      proof cases
        case tail
        then have "st' = (stage st f1)\<lparr>s_clean := True, s_tail := True\<rparr>" using eq l3 by simp
        then show ?thesis using ok by simp
      next
        case big
        then have "st' = (stage st f1)\<lparr>s_clean := False\<rparr>" using eq l3 by simp
        then show ?thesis using ok by simp
      next
        case short
        then have "st' = (stage st f2)\<lparr>s_clean := False\<rparr>" using eq l3 by simp
        then show ?thesis using ok by simp
      next
        case sum
        then have "st' = (stage st f3)\<lparr>s_clean := False\<rparr>" using eq l3 by simp
        then show ?thesis using ok by simp
      next
        case dec
        then have "decode_block cdc ?hdr c (if s_sums st then get32 k else 0) (stage st f3) = (None, st')"
          using eq l3 by (auto split: if_splits)
        from decode_block_None [OF this] fd ok cb show ?thesis by simp
      qed
    qed
  qed
  then show "ring_ok cdc st'" "s_file st' \<noteq> None"
    "\<not> s_clean st' \<or> s_tail st' \<or> (\<exists>f f'. s_file st = Some f \<and> fread 3 f = ([], f') \<and> s_file st' = Some f' \<and> \<not> fl_err f')"
    by blast+
qed

section \<open>The interface of a block source\<close>

text \<open>
  What every loop that reads blocks until none comes relies on: each block uses up
  input, so the loop ends, and a dead source stays as it is.
\<close>

primrec take_blocks :: "('s \<Rightarrow> 'b option \<times> 's) \<Rightarrow> nat \<Rightarrow> 's \<Rightarrow> 'b list \<times> 's" where
  "take_blocks next_block 0 s = ([], s)"
| "take_blocks next_block (Suc n) s =
     (case next_block s of
        (None, s') \<Rightarrow> ([], s')
      | (Some b, s') \<Rightarrow> (let (bs, s2) = take_blocks next_block n s' in (b # bs, s2)))"

locale block_source =
  fixes next_block :: "'s \<Rightarrow> 'b option \<times> 's"
    and left :: "'s \<Rightarrow> nat"
    and dead :: "'s \<Rightarrow> bool"
    and good :: "'s \<Rightarrow> bool"
  assumes dead_stays: "good s \<Longrightarrow> dead s \<Longrightarrow> next_block s = (None, s)"
    and progress: "good s \<Longrightarrow> next_block s = (Some b, s') \<Longrightarrow> left s' < left s \<and> good s'"
begin

lemma take_blocks_bounded:
  "good s \<Longrightarrow> take_blocks next_block n s = (bs, s') \<Longrightarrow> length bs \<le> left s"
proof (induction n arbitrary: s bs)
  case 0
  then show ?case by simp
next
  case (Suc n)
  show ?case
  proof (cases "next_block s")
    case (Pair r s1)
    show ?thesis
    proof (cases r)
      case None
      then show ?thesis using Suc.prems Pair by simp
    next
      case (Some b)
      note p = progress [OF Suc.prems(1) Pair [unfolded Some]]
      from Suc.prems Pair Some obtain cs where cs: "take_blocks next_block n s1 = (cs, s')" "bs = b # cs"
        by (auto split: prod.splits)
      from Suc.IH [OF _ cs(1)] p cs(2) show ?thesis by auto
    qed
  qed
qed

lemma take_blocks_dead: "good s \<Longrightarrow> dead s \<Longrightarrow> take_blocks next_block n s = ([], s)"
  by (cases n) (auto simp: dead_stays)

end

definition stream_left :: "('e, 'd) stream \<Rightarrow> nat" where
  "stream_left st = (case s_file st of None \<Rightarrow> 0 | Some f \<Rightarrow> length (unread f))"

definition stream_dead :: "('e, 'd) stream \<Rightarrow> bool" where
  "stream_dead st \<longleftrightarrow> \<not> s_clean st \<or> s_tail st"

definition open_reader :: "('e, 'd) stream \<Rightarrow> bool" where
  "open_reader st \<longleftrightarrow> s_file st \<noteq> None \<and> s_dec st \<noteq> None \<and> length (s_blocks st) = 2"

lemma fread_unread: "fread n f = (got, f') \<Longrightarrow> length (unread f) = length got + length (unread f')"
  by (auto simp: fread_def unread_def readable_def Let_def min_def split: option.splits if_splits)

lemma ReadBlock_progress:
  assumes "ReadBlock cdc st = (Some hb, st')" "open_reader st"
  shows "stream_left st' < stream_left st" "open_reader st'"
proof -
  obtain hdr b where hb: "hb = (hdr, b)" by (cases hb)
  have len: "length (s_blocks st) = 2" using assms(2) by (simp add: open_reader_def)
  obtain f d h f1 c f2 k f3 where
    l: "s_file st = Some f" "fread 3 f = (h, f1)" "length h = 3"
      "fread (unat (hdr_size hdr)) f1 = (c, f2)" "(if s_sums st then fread 4 f2 else ([], f2)) = (k, f3)"
      and dec: "decode_block cdc hdr c (if s_sums st then get32 k else 0) (stage st f3) = (Some (hdr, b), st')"
    by (rule ReadBlock_Some [OF assms(1) [unfolded hb] len])
  have "length (s_blocks (stage st f3)) = 2" using len by simp
  then obtain d1 d2 where
    "LZ4_decompress cdc d1 (decode_offset (stage st f3)) c BLOCK_SIZE = (Some (b_buf b), d2)"
    "st' = set_block b ((stage st f3)\<lparr>s_dec := Some d2, s_off := decode_offset (stage st f3) + length (b_buf b)\<rparr>)"
    by (rule decode_block_Some [OF dec])
  then have st': "s_file st' = Some f3" "s_dec st' \<noteq> None" "length (s_blocks st') = 2" using len by simp_all
  have "length (unread f3) \<le> length (unread f2)"
    using l(5) fread_unread [of 4 f2 k f3] by (auto split: if_splits)
  moreover have "length (unread f2) \<le> length (unread f1)" using fread_unread [OF l(4)] by simp
  moreover have "length (unread f1) < length (unread f)" using fread_unread [OF l(2)] l(3) by simp
  ultimately show "stream_left st' < stream_left st" "open_reader st'"
    using l(1) st' by (auto simp: stream_left_def open_reader_def)
qed

interpretation lz4_source: block_source "ReadBlock cdc" stream_left stream_dead open_reader
  for cdc :: "('e, 'd) lz4_codec"
proof unfold_locales
  fix st :: "('e, 'd) stream" assume "open_reader st" "stream_dead st"
  then show "ReadBlock cdc st = (None, st)"
    by (auto simp: open_reader_def stream_dead_def intro!: ReadBlock_dead)
qed (use ReadBlock_progress in blast)

text \<open>
  How a reader comes to its end: cleanly, at the end of the file between two blocks, or else
  with the tail mark read or the stream marked as damaged. Both are final.
\<close>

definition clean_end :: "('e, 'd) stream \<Rightarrow> bool" where
  "clean_end st \<longleftrightarrow> \<not> stream_dead st \<and> (\<exists>f. s_file st = Some f \<and> unread f = [] \<and> \<not> read_fails f \<and> \<not> fl_err f)"

lemma fread_nothing:
  "fread (Suc n) f = (got, f') \<Longrightarrow>
     (got = [] \<and> \<not> fl_err f') = (unread f = [] \<and> \<not> read_fails f \<and> \<not> fl_err f) \<and>
     (unread f = [] \<and> \<not> read_fails f \<and> \<not> fl_err f \<longrightarrow> unread f' = [] \<and> \<not> read_fails f' \<and> \<not> fl_err f')"
  by (auto simp: fread_def Let_def unread_def readable_def read_fails_def split: option.splits)

lemma decode_block_open: "decode_block cdc hdr c k st = (r, st') \<Longrightarrow> open_reader st \<Longrightarrow> open_reader st'"
  by (auto simp: decode_block_def open_reader_def Let_def split: option.splits prod.splits if_splits)

lemma ReadBlock_stops:
  assumes r: "ReadBlock cdc st = (None, st')" and o: "open_reader st"
  shows "open_reader st' \<and> (if clean_end st then clean_end st' else stream_dead st')"
proof -
  obtain f d where fd: "s_file st = Some f" "s_dec st = Some d" and len: "length (s_blocks st) = 2"
    using o by (auto simp: open_reader_def)
  show ?thesis
  proof (cases "stream_dead st")
    case True
    then have "st' = st" using r ReadBlock_dead [of st cdc] fd by (auto simp: stream_dead_def)
    then show ?thesis using True o by (simp add: clean_end_def)
  next
    case False
    then have l: "s_clean st" "\<not> s_tail st" by (auto simp: stream_dead_def)
    obtain h f1 where h: "fread 3 f = (h, f1)" by fastforce
    obtain c f2 where c: "fread (unat (hdr_size (get_hdr h))) f1 = (c, f2)" by fastforce
    obtain k f3 where k: "(if s_sums st then fread 4 f2 else ([], f2)) = (k, f3)" by fastforce
    note eq = r [unfolded ReadBlock_live [OF fd l] h c k Let_def prod.case]
    have stage: "open_reader (stage st g)" for g using fd len by (simp add: open_reader_def)
    have "fread (Suc 2) f = (h, f1)" using h by (simp add: numeral_3_eq_3 numeral_2_eq_2)
    note F = fread_nothing [OF this]
    have ce: "clean_end st \<longleftrightarrow> h = [] \<and> \<not> fl_err f1" using F False fd by (simp add: clean_end_def)
    show ?thesis
    proof (cases "length h = 3")
      case no: False
      then have st': "st' = (stage st f1)\<lparr>s_clean := (length h = 0 \<and> \<not> fl_err f1)\<rparr>" using eq by simp
      show ?thesis
        using F False fd len l by (auto simp: st' clean_end_def stream_dead_def open_reader_def)
    next
      case l3: True
      then have nc: "\<not> clean_end st" using ce by auto
      show ?thesis
      proof (cases "decode_block cdc (get_hdr h) c (if s_sums st then get32 k else 0) (stage st f3) = (None, st')")
        case True
        have "s_dec (stage st f3) \<noteq> None" using fd by simp
        from decode_block_None(1) [OF True this] decode_block_open [OF True stage] nc show ?thesis
          by (simp add: stream_dead_def)
      next
        case no: False
        then show ?thesis using eq l3 nc fd len by (auto simp: stream_dead_def open_reader_def split: if_splits)
      qed
    qed
  qed
qed

lemma clean_end_none: "open_reader st \<Longrightarrow> clean_end st \<Longrightarrow> fst (ReadBlock cdc st) = None"
proof -
  assume o: "open_reader st" and c: "clean_end st"
  obtain f d where fd: "s_file st = Some f" "s_dec st = Some d" using o by (auto simp: open_reader_def)
  have l: "s_clean st" "\<not> s_tail st" "unread f = []" using c fd by (auto simp: clean_end_def stream_dead_def)
  obtain h f1 where h: "fread 3 f = (h, f1)" by fastforce
  have "h = []" using l(3) fread_unread [OF h] by simp
  then show ?thesis by (simp add: ReadBlock_live [OF fd l(1,2)] h)
qed

end
