(* ===== verification/Lz4RoundTrip.thy ===== *)
theory Lz4RoundTrip
  imports Lz4Reader
begin

text \<open>
  Reading back what the writer wrote: blocks (\<^verbatim>\<open>WriteBlock\<close>, \<^verbatim>\<open>Write\<close>), raw fields
  (\<^verbatim>\<open>WriteRaw\<close>), whole \<^verbatim>\<open>/proc\<close> files (\<^verbatim>\<open>PutFile\<close>), and the end of the stream.
\<close>

section \<open>A reader fed with encoded blocks\<close>

definition fed ::
    "('e, 'd) lz4_codec \<Rightarrow> ('e \<Rightarrow> nat \<Rightarrow> 'd \<Rightarrow> nat \<Rightarrow> bool) \<Rightarrow> bool \<Rightarrow> 'e \<Rightarrow> nat \<Rightarrow> ('e, 'd) stream \<Rightarrow> bytes \<Rightarrow> bool" where
  "fed cdc sync ck e ix st inp \<longleftrightarrow>
     reader cdc st \<and> s_sums st = ck \<and>
     (\<exists>f d. s_file st = Some f \<and> unread f = inp \<and> s_dec st = Some d \<and> sync e ix d (s_off st))"

lemma fed_set_block [simp]: "fed cdc sync ck e ix (set_block b st) inp = fed cdc sync ck e ix st inp"
  by (simp add: fed_def reader_def)

lemma fed_open: "fed cdc sync ck e ix st inp \<Longrightarrow> open_reader st"
  by (auto simp: fed_def reader_def open_reader_def ring_ok_def)

lemma block_hdr_size: "n \<le> COMPRESS_BUF \<Longrightarrow> unat (hdr_size (block_hdr c t n)) = n"
  by (simp add: block_hdr_def unat_of_nat)

lemma block_hdr_no_tail: "n \<le> COMPRESS_BUF \<Longrightarrow> \<not> isTailMark (block_hdr c t n)"
proof
  assume n: "n \<le> COMPRESS_BUF" and t: "isTailMark (block_hdr c t n)"
  have "unat (hdr_size TailMark) = 524287" by (simp add: TailMark_def)
  moreover have "unat (hdr_size (block_hdr c t n)) = unat (hdr_size TailMark)"
    using t by (simp add: isTailMark_def)
  ultimately show False using block_hdr_size [OF n, of c t] n by simp
qed

lemma ReadBlock_fed_exact:
  assumes fd: "fed cdc sync ck e ix st (out @ rest)" and ok: "codec_ok cdc sync"
    and enc: "encode_block cdc ck ix e (cont, t, raw) = Some (out, e')"
    and raw: "raw \<noteq> []" "length raw \<le> BLOCK_SIZE"
    and c0: "LZ4_compress cdc e ix raw COMPRESS_BUF = (Some c, e')"
  obtains st' where "ReadBlock cdc st = (Some (block_hdr cont t (length c), \<lparr>b_cur = 0, b_buf = raw\<rparr>), st')"
    "fed cdc sync ck e' (Suc ix mod 2) st' rest" "length c \<le> COMPRESS_BUF"
proof -
  from fd obtain f d where st: "reader cdc st" "s_sums st = ck" "s_file st = Some f" "unread f = out @ rest"
    "s_dec st = Some d" "sync e ix d (s_off st)" by (auto simp: fed_def)
  then have live: "s_clean st" "\<not> s_tail st" "healthy f" "ring_ok cdc st" by (auto simp: reader_def)
  have c: "LZ4_compress cdc e ix raw COMPRESS_BUF = (Some c, e')" "c \<noteq> []"
    and out: "out = frame ck (block_hdr cont t (length c)) c raw"
    using enc c0 by (auto split: if_splits)
  let ?h = "block_hdr cont t (length c)"
  have cb: "codec_bounds cdc" "codec_inverse cdc sync" using ok by (auto simp: codec_ok_def)
  have lc: "length c \<le> COMPRESS_BUF" using cb(1) c(1) unfolding codec_bounds_def by blast
  have "unread f = put_hdr ?h @ (c @ (if ck then put32 (block_checksum ?h raw) else []) @ rest)"
    using st(4) out by (simp add: frame_def)
  from fread_exact [OF live(3) this] obtain f1 where
    f1: "fread 3 f = (put_hdr ?h, f1)" "healthy f1"
      "unread f1 = c @ (if ck then put32 (block_checksum ?h raw) else []) @ rest" by auto
  from fread_exact [OF f1(2,3) refl] obtain f2 where
    f2: "fread (length c) f1 = (c, f2)" "healthy f2"
      "unread f2 = (if ck then put32 (block_checksum ?h raw) else []) @ rest" by auto
  obtain f3 where f3: "(if ck then fread 4 f2 else ([], f2)) = ((if ck then put32 (block_checksum ?h raw) else []), f3)"
    "healthy f3" "unread f3 = rest"
  proof (cases ck)
    case True
    then have "unread f2 = put32 (block_checksum ?h raw) @ rest" using f2(3) by simp
    from fread_exact [OF f2(2) this] obtain g where
      "fread 4 f2 = (put32 (block_checksum ?h raw), g)" "healthy g" "unread g = rest" by auto
    then show ?thesis using True that by auto
  next
    case False
    then show ?thesis using f2 that by auto
  qed
  have "length raw > 0" using raw(1) by simp
  then obtain d' where d': "LZ4_decompress cdc d (ring_pos cdc (s_off st)) c BLOCK_SIZE = (Some raw, d')"
    "sync e' (Suc ix mod 2) d' (ring_pos cdc (s_off st) + length raw)"
    using cb(2) st(6) raw(2) c unfolding codec_inverse_def by blast
  define st' where "st' = set_block (empty_block\<lparr>b_buf := raw\<rparr>)
     ((stage st f3)\<lparr>s_dec := Some d', s_off := ring_pos cdc (s_off st) + length raw\<rparr>)"
  have b: "empty_block\<lparr>b_buf := raw\<rparr> = \<lparr>b_cur = 0, b_buf = raw\<rparr>" by (simp add: empty_block_def)
  have "decode_block cdc ?h c (if ck then block_checksum ?h raw else 0) (stage st f3) =
      (Some (?h, \<lparr>b_cur = 0, b_buf = raw\<rparr>), st')"
    using st d' raw decode_offset_pos [OF live(4)]
    by (simp add: decode_block_def Let_def st'_def b)
  moreover have "ReadBlock cdc st = decode_block cdc ?h c (if ck then block_checksum ?h raw else 0) (stage st f3)"
    using f3(1) by (cases ck)
      (simp_all add: ReadBlock_live [OF st(3,5) live(1,2)] f1(1) f2(1) block_hdr_no_tail [OF lc] st(2)
        block_hdr_size [OF lc] linorder_not_less [THEN iffD2, OF lc])
  ultimately have R: "ReadBlock cdc st = (Some (?h, \<lparr>b_cur = 0, b_buf = raw\<rparr>), st')" by simp
  have "ring_ok cdc st'" using ReadBlock_sound(5) [OF R live(4) cb(1)] .
  then have "fed cdc sync ck e' (Suc ix mod 2) st' rest"
    using st d' f3 live by (simp add: fed_def reader_def st'_def)
  from that [OF R this lc] show ?thesis .
qed

lemma ReadBlock_fed:
  assumes fd: "fed cdc sync ck e ix st (out @ rest)" and ok: "codec_ok cdc sync"
    and enc: "encode_block cdc ck ix e (cont, t, raw) = Some (out, e')"
    and raw: "raw \<noteq> []" "length raw \<le> BLOCK_SIZE"
  obtains n st' where "ReadBlock cdc st = (Some (block_hdr cont t n, \<lparr>b_cur = 0, b_buf = raw\<rparr>), st')"
    "fed cdc sync ck e' (Suc ix mod 2) st' rest" "n \<le> COMPRESS_BUF"
proof -
  obtain c where "LZ4_compress cdc e ix raw COMPRESS_BUF = (Some c, e')"
    using enc by (auto split: option.splits prod.splits if_splits)
  then show ?thesis using ReadBlock_fed_exact [OF fd ok enc raw] that by metis
qed

text \<open>All blocks of a sequence, one \<^verbatim>\<open>ReadBlock\<close> after the other.\<close>

primrec read_blocks :: "('e, 'd) lz4_codec \<Rightarrow> nat \<Rightarrow> ('e, 'd) stream \<Rightarrow> lblock list option \<times> ('e, 'd) stream" where
  "read_blocks cdc 0 st = (Some [], st)"
| "read_blocks cdc (Suc n) st =
     (case ReadBlock cdc st of
        (None, st') \<Rightarrow> (None, st')
      | (Some (h, b), st') \<Rightarrow>
          (case read_blocks cdc n st' of
             (None, st2) \<Rightarrow> (None, st2)
           | (Some bs, st2) \<Rightarrow> (Some ((hdr_cont h, hdr_type h, block_rest b) # bs), st2)))"

lemma read_blocks_fed:
  assumes ok: "codec_ok cdc sync"
  shows "fed cdc sync ck e ix st (out @ rest) \<Longrightarrow> encode_blocks cdc ck ix e bs = Some (out, e') \<Longrightarrow>
    sound_blocks bs \<Longrightarrow> ix < 2 \<Longrightarrow>
    \<exists>st'. read_blocks cdc (length bs) st = (Some bs, st') \<and> fed cdc sync ck e' ((ix + length bs) mod 2) st' rest"
proof (induction bs arbitrary: e ix st out)
  case Nil
  then show ?case by simp
next
  case (Cons b bs)
  obtain cont t raw where b: "b = (cont, t, raw)" by (cases b)
  from Cons.prems(2) obtain o1 e1 o2 where
    enc: "encode_block cdc ck ix e (cont, t, raw) = Some (o1, e1)"
      "encode_blocks cdc ck (Suc ix mod 2) e1 bs = Some (o2, e')" "out = o1 @ o2"
    unfolding b by (auto simp del: encode_block.simps split: option.splits)
  have raw: "raw \<noteq> []" "length raw \<le> BLOCK_SIZE" using Cons.prems(3) by (auto simp: sound_blocks_def b)
  have "fed cdc sync ck e ix st (o1 @ (o2 @ rest))" using Cons.prems(1) enc(3) by simp
  from ReadBlock_fed [OF this ok enc(1) raw] obtain n st1 where
    r: "ReadBlock cdc st = (Some (block_hdr cont t n, \<lparr>b_cur = 0, b_buf = raw\<rparr>), st1)"
      "fed cdc sync ck e1 (Suc ix mod 2) st1 (o2 @ rest)" by metis
  have "sound_blocks bs" using Cons.prems(3) by (simp add: sound_blocks_def)
  from Cons.IH [OF r(2) enc(2) this] obtain st' where
    i: "read_blocks cdc (length bs) st1 = (Some bs, st')"
      "fed cdc sync ck e' ((Suc ix mod 2 + length bs) mod 2) st' rest" by auto
  have "(Suc ix mod 2 + length bs) mod 2 = (ix + length (b # bs)) mod 2" by (simp add: mod_simps)
  with i r b show ?case by (simp add: block_hdr_def block_rest_def)
qed

lemma ReadRaw_fed:
  assumes "fed cdc sync ck e ix st (bs @ rest)" "length bs = n" "n \<le> INT_MAX" "0 < n"
  obtains st' where "ReadRaw n st = (Inr bs, st')" "fed cdc sync ck e ix st' rest"
proof -
  from assms(1) obtain f d where st: "reader cdc st" "s_sums st = ck" "s_file st = Some f" "unread f = bs @ rest"
    "s_dec st = Some d" "sync e ix d (s_off st)" by (auto simp: fed_def)
  then have "healthy f" by (auto simp: reader_def)
  from fread_exact [OF this st(4) assms(2)] obtain f' where f': "fread n f = (bs, f')" "healthy f'" "unread f' = rest" by auto
  have "ReadRaw n st = (Inr bs, st\<lparr>s_file := Some f'\<rparr>)"
    using st assms f' by (simp add: ReadRaw_def)
  moreover have "fed cdc sync ck e ix (st\<lparr>s_file := Some f'\<rparr>) rest"
    using st f' by (simp add: fed_def reader_def)
  ultimately show ?thesis by (rule that)
qed

section \<open>The end of a stream\<close>

lemma ReadBlock_tail:
  assumes "fed cdc sync ck e ix st (put_hdr TailMark @ rest)"
  obtains st' f' where "ReadBlock cdc st = (None, st')" "s_tail st'" "s_clean st'" "s_file st' = Some f'"
    "healthy f'" "unread f' = rest" "s_mode st' = s_mode st" "s_dec st' = s_dec st"
proof -
  from assms obtain f d where st: "reader cdc st" "s_file st = Some f" "unread f = put_hdr TailMark @ rest"
    "s_dec st = Some d" by (auto simp: fed_def)
  then have live: "s_clean st" "\<not> s_tail st" "healthy f" by (auto simp: reader_def)
  from fread_exact [OF live(3) st(3) length_put_hdr] obtain f1 where
    f1: "fread 3 f = (put_hdr TailMark, f1)" "healthy f1" "unread f1 = rest" by auto
  have "isTailMark TailMark" by (simp add: isTailMark_def)
  then have r: "ReadBlock cdc st = (None, (stage st f1)\<lparr>s_clean := True, s_tail := True\<rparr>)"
    using ReadBlock_live [OF st(2,4) live(1,2), of cdc] f1 by simp
  show ?thesis by (rule that [OF r, of f1]) (simp_all add: f1)
qed

lemma fread_past_end: "healthy f \<Longrightarrow> unread f = [] \<Longrightarrow> fread 1 f = ([], f') \<Longrightarrow> fl_eof f' \<and> \<not> fl_err f'"
  using fread_healthy [of f 1 "[]" f'] by (auto simp: healthy_def)

lemma VerifyPhysicalEof_iff:
  assumes "s_file st = Some f" "healthy f" "s_mode st = LZ4_Decompress" "s_tail st" "s_clean st"
  shows "isl (fst (VerifyPhysicalEof st)) \<longleftrightarrow> unread f \<noteq> []"
proof -
  obtain got f' where r: "fread 1 f = (got, f')" by fastforce
  from fread_healthy [OF assms(2) r] have g: "got = take 1 (unread f)" "healthy f'"
    "fl_eof f' = (fl_eof f \<or> length (unread f) < 1)" by auto
  show ?thesis
    using assms r g by (cases "unread f") (auto simp: VerifyPhysicalEof_def Let_def healthy_def)
qed

section \<open>Files\<close>

lemma unat_u8_of_char: "unat (word_of_nat (of_char c) :: u8) = (of_char c :: nat)"
  using of_char_less [of c] by (simp add: unat_of_nat)

lemma u8_mod: "(word_of_nat (unat x mod 256) :: u8) = x"
  using unsigned_less [of x, where ?'a = nat] by simp

interpretation cpf: byte_codec "\<lambda>pf. put_pf pf" get_pf "9 + n" "\<lambda>pf. wf_ProcFile pf \<and> unat (f_size pf) = n"
  for n
proof unfold_locales
  fix pf :: ProcFile assume "wf_ProcFile pf \<and> unat (f_size pf) = n"
  then show "length (put_pf pf) = 9 + n" by (simp add: put_pf_def wf_ProcFile_def)
next
  fix pf :: ProcFile
  show "get_pf (put_pf pf) = pf"
    by (cases pf) (simp add: put_pf_def get_pf_def nth_append u8_mod)
qed

lemma length_put_pf: "wf_ProcFile pf \<Longrightarrow> length (put_pf pf) = 9 + unat (f_size pf)"
  using cpf.enc_length by blast

lemma get_put_pf: "wf_ProcFile pf \<Longrightarrow> get_pf (put_pf pf) = pf"
  using cpf.dec_enc by blast

lemma lblocks_raw_sound: "(\<And>c. c \<in> set cs \<Longrightarrow> c \<noteq> [] \<and> length c \<le> BLOCK_SIZE) \<Longrightarrow> sound_blocks (lblocks f t cs)"
proof -
  assume a: "\<And>c. c \<in> set cs \<Longrightarrow> c \<noteq> [] \<and> length c \<le> BLOCK_SIZE"
  have "lb_raw b \<in> set cs" if "b \<in> set (lblocks f t cs)" for b
    using that raws_lblocks [of f t cs] by (metis image_eqI list.set_map)
  then show ?thesis using a by (auto simp: sound_blocks_def)
qed

lemma getfile_loop_fed:
  assumes ok: "codec_ok cdc sync"
  shows "fed cdc sync ck e ix st (out @ rest) \<Longrightarrow>
    encode_blocks cdc ck ix e (lblocks (if acc = [] then 0 else 1) 3 cs) = Some (out, e') \<Longrightarrow>
    (\<And>c. c \<in> set cs \<Longrightarrow> c \<noteq> [] \<and> length c \<le> BLOCK_SIZE) \<Longrightarrow> ix < 2 \<Longrightarrow>
    length acc + length (concat cs) = n \<Longrightarrow>
    \<exists>st'. getfile_loop cdc n acc st = (Inr (acc @ concat cs), st') \<and>
          fed cdc sync ck e' ((ix + length cs) mod 2) st' rest"
proof (induction cs arbitrary: e ix st out acc)
  case Nil
  then show ?case by (subst getfile_loop.simps) simp
next
  case (Cons c cs)
  let ?k = "if acc = [] then 0 else 1 :: 1 word"
  have c: "c \<noteq> []" "length c \<le> BLOCK_SIZE" using Cons.prems(3) [of c] by auto
  from Cons.prems(2) obtain o1 e1 o2 where
    enc: "encode_block cdc ck ix e (?k, 3, c) = Some (o1, e1)"
      "encode_blocks cdc ck (Suc ix mod 2) e1 (lblocks 1 3 cs) = Some (o2, e')" "out = o1 @ o2"
    by (auto simp del: encode_block.simps split: option.splits)
  have "fed cdc sync ck e ix st (o1 @ (o2 @ rest))" using Cons.prems(1) enc(3) by simp
  from ReadBlock_fed [OF this ok enc(1) c] obtain m st1 where
    r: "ReadBlock cdc st = (Some (block_hdr ?k 3 m, \<lparr>b_cur = 0, b_buf = c\<rparr>), st1)"
      "fed cdc sync ck e1 (Suc ix mod 2) st1 (o2 @ rest)" by metis
  let ?b = "\<lparr>b_cur = length c, b_buf = c\<rparr>"
  have f1: "fed cdc sync ck e1 (Suc ix mod 2) (set_block ?b st1) (o2 @ rest)" using r(2) by simp
  have e2: "encode_blocks cdc ck (Suc ix mod 2) e1 (lblocks (if acc @ c = [] then 0 else 1) 3 cs) = Some (o2, e')"
    using enc(2) c by simp
  have len: "length (acc @ c) + length (concat cs) = n" using Cons.prems(5) by simp
  obtain st' where i: "getfile_loop cdc n (acc @ c) (set_block ?b st1) = (Inr ((acc @ c) @ concat cs), st')"
      "fed cdc sync ck e' ((Suc ix mod 2 + length cs) mod 2) st' rest"
    using Cons.IH [OF f1 e2 _ _ len] Cons.prems(3) by auto
  have "Block_Read (Block_Size \<lparr>b_cur = 0, b_buf = c\<rparr>) \<lparr>b_cur = 0, b_buf = c\<rparr> = (Inr c, ?b)"
    using c by (simp add: Block_Read_def Block_Size_def Let_def)
  moreover have "\<not> Block_Size \<lparr>b_cur = 0, b_buf = c\<rparr> > n - length acc" "\<not> n \<le> length acc"
    using len c by (auto simp: Block_Size_def)
  moreover have "unat (hdr_type (block_hdr ?k 3 m)) = 3" "hdr_cont (block_hdr ?k 3 m) \<noteq> 0 \<longleftrightarrow> acc \<noteq> []"
    by (simp_all add: block_hdr_def)
  ultimately have "getfile_loop cdc n acc st = getfile_loop cdc n (acc @ c) (set_block ?b st1)"
    using r(1) c by (subst getfile_loop.simps) (simp)
  moreover have "(Suc ix mod 2 + length cs) mod 2 = (ix + length (c # cs)) mod 2" by (simp add: mod_simps)
  ultimately show ?case using i by simp
qed

lemma GetFile_fed:
  assumes ok: "codec_ok cdc sync" and wf: "wf_ProcFile pf"
    and fd: "fed cdc sync ck e ix st (put32 (word_of_nat (ProcFile_Size pf)) @ out @ rest)"
    and enc: "encode_blocks cdc ck ix e (lblocks 0 3 (chunks (put_pf pf))) = Some (out, e')" and ix: "ix < 2"
    and max: "ProcFile_Size pf \<le> MAX_PROC_FILE_SIZE" and mem: "cd_malloc cdc (ProcFile_Size pf)"
  shows "\<exists>st'. GetFile cdc st = (Inr pf, st') \<and> fed cdc sync ck e' ((ix + length (chunks (put_pf pf))) mod 2) st' rest"
proof -
  define n where "n = ProcFile_Size pf"
  have n: "n = 9 + unat (f_size pf)" by (simp add: n_def ProcFile_Size_def)
  obtain st1 where r: "ReadRaw 4 st = (Inr (put32 (word_of_nat n)), st1)" "fed cdc sync ck e ix st1 (out @ rest)"
    by (rule ReadRaw_fed [OF fd, where n = 4]) (auto simp: n_def)
  have un: "unat (word_of_nat n :: u32) = n" using max by (simp add: unat_of_nat flip: n_def)
  have len: "length (put_pf pf) = n" using length_put_pf [OF wf] n by simp
  have "\<exists>st2. getfile_loop cdc n [] st1 = (Inr ([] @ concat (chunks (put_pf pf))), st2) \<and>
      fed cdc sync ck e' ((ix + length (chunks (put_pf pf))) mod 2) st2 rest"
    by (rule getfile_loop_fed [OF ok r(2)]) (use enc ix len chunks_sizes in auto)
  then obtain st2 where g: "getfile_loop cdc n [] st1 = (Inr (put_pf pf), st2)"
      "fed cdc sync ck e' ((ix + length (chunks (put_pf pf))) mod 2) st2 rest" by auto
  have pf: "pf\<lparr>f_size := word_of_nat (n - 9)\<rparr> = pf" by (simp add: n)
  have nine: "n = 9 + unat (f_size (get_pf (put_pf pf)))" "\<not> n < 9" using n get_put_pf [OF wf] by simp_all
  have "\<not> n > MAX_PROC_FILE_SIZE" "cd_malloc cdc n" using max mem by (simp_all add: n_def)
  moreover have "s_file st \<noteq> None" "s_dec st \<noteq> None" using fed_open [OF fd] by (simp_all add: open_reader_def)
  ultimately have "GetFile cdc st = (Inr ((get_pf (put_pf pf))\<lparr>f_size := word_of_nat (n - 9)\<rparr>), st2)"
    unfolding GetFile_def r(1)
    by (simp only: prod.case sum.case get_put length_put un Let_def g(1) len nine(2) nine(1) [symmetric]
        if_False if_True refl simp_thms not_False_eq_True de_Morgan_disj)
  with g(2) show ?thesis by (auto simp: get_put_pf [OF wf] pf)
qed

lemma WriteRaw_sealed:
  assumes "writer st" "pending st = []" "s_file st = Some f" "s \<noteq> []" "WriteRaw cdc (Some s) st = (Inr k, st')"
  obtains f' where "fwrite s f = (k, f')" "st' = st\<lparr>s_file := Some f', s_fsize := s_fsize st + of_nat k\<rparr>"
proof -
  obtain n f' where fw: "fwrite s f = (n, f')" by fastforce
  have e: "s_enc st \<noteq> None" "Block_isEmpty (CurrentBlock st)"
    using assms(1,2) by (auto simp: writer_def pending_def Block_isEmpty_def)
  then have "n = k \<and> st' = st\<lparr>s_file := Some f', s_fsize := s_fsize st + of_nat n\<rparr>"
    using assms(3-5) fw by (auto simp: WriteRaw_def split: if_splits)
  then show ?thesis using fw that by blast
qed

lemma PutFile_Inr:
  assumes w: "writer st" and wf: "wf_ProcFile pf" and r: "PutFile cdc (Some pf) st = (Inr n, st')"
  obtains mid mid' f f' where "appended cdc st (sealed st) mid" "s_file mid = Some f" "s_file mid' = Some f'"
    "s_enc mid' = s_enc mid" "cur_ix mid' = cur_ix mid" "s_sums mid' = s_sums mid"
    "fl_data f' = fl_data f @ put32 (word_of_nat (ProcFile_Size pf))"
    "appended cdc mid' (lblocks 0 3 (chunks (put_pf pf))) st'" "writer st'" "pending st' = []"
    "n = ProcFile_Size pf" "ProcFile_Size pf \<le> MAX_PROC_FILE_SIZE"
proof -
  let ?n = "9 + unat (f_size pf)" and ?s = "put32 (word_of_nat (9 + unat (f_size pf)))"
  have max: "?n \<le> MAX_PROC_FILE_SIZE"
    using r by (auto simp: PutFile_def Let_def split: if_splits)
  obtain m st1 where fl: "Flush cdc st = (Inr m, st1)"
    using r by (auto simp: PutFile_def Let_def split: if_splits prod.splits sum.splits)
  note F = Flush_Inr [OF w fl]
  obtain k st2 where raw: "WriteRaw cdc (Some ?s) st1 = (Inr k, st2)" "k = 4"
    and wb: "WriteBlock cdc (Some (take ?n (put_pf pf))) 3 st2 = (Inr n, st')"
    using r fl by (auto simp: PutFile_def Let_def split: if_splits prod.splits sum.splits)
  have tk: "take ?n (put_pf pf) = put_pf pf" using length_put_pf [OF wf] by simp
  have s4: "?s \<noteq> []" by (metis length_put(2) list.size(3) zero_neq_numeral)
  obtain f where f: "s_file st1 = Some f" using F(1) by (auto simp: writer_def)
  obtain f' where fw: "fwrite ?s f = (k, f')" "st2 = st1\<lparr>s_file := Some f', s_fsize := s_fsize st1 + of_nat k\<rparr>"
    by (rule WriteRaw_sealed [OF F(1,2) f s4 raw(1)])
  have R: "writer st1" "s_file st1 = Some f" "s_file st2 = Some f'" "fwrite ?s f = (k, f')"
    "st2 = st1\<lparr>s_file := Some f', s_fsize := s_fsize st1 + of_nat k\<rparr>"
    using F(1) f fw by simp_all
  have ae: "at_end f" using R(1,2) by (auto simp: writer_def)
  have "fwrite ?s f = (length ?s, f')" using R(4) raw(2) by simp
  note W = fwrite_full [OF this ae]
  have w2: "writer st2" "pending st2 = []" "sealed st2 = []"
    using F(1,2) R(5) W(2) by (auto simp: writer_def pending_def CurrentBlock_def sealed_def)
  note B = WriteBlock_Inr [OF w2(1) wb]
  show ?thesis
  proof (rule that [of st1 f st2 f'])
    show "appended cdc st (sealed st) st1" by (rule F(3))
    show "s_file st1 = Some f" "s_file st2 = Some f'" by (fact R(2), fact R(3))
    show "s_enc st2 = s_enc st1" "cur_ix st2 = cur_ix st1" "s_sums st2 = s_sums st1"
      using R(5) by simp_all
    show "fl_data f' = fl_data f @ put32 (word_of_nat (ProcFile_Size pf))"
      using W(1) by (simp add: ProcFile_Size_def)
    show "appended cdc st2 (lblocks 0 3 (chunks (put_pf pf))) st'"
      using B(5) w2(3) tk by simp
    show "writer st'" "pending st' = []" by (fact B(1), fact B(2))
    show "n = ProcFile_Size pf" using B(3) tk length_put_pf [OF wf] by (simp add: ProcFile_Size_def)
    show "ProcFile_Size pf \<le> MAX_PROC_FILE_SIZE" using max by (simp add: ProcFile_Size_def)
  qed
qed

section \<open>Reader and writer in step\<close>

definition new_bytes :: "('e, 'd) stream \<Rightarrow> ('e, 'd) stream \<Rightarrow> bytes" where
  "new_bytes st st' =
     (case (s_file st, s_file st') of
        (Some f, Some f') \<Rightarrow> drop (length (fl_data f)) (fl_data f')
      | _ \<Rightarrow> [])"

lemma appended_read_back:
  assumes ok: "codec_ok cdc sync" and a: "appended cdc st blks st'" and snd: "sound_blocks blks"
    and e: "s_enc st = Some e" and fd: "fed cdc sync (s_sums st) e (cur_ix st) rd (new_bytes st st' @ rest)"
  shows "\<exists>rd' e'. read_blocks cdc (length blks) rd = (Some blks, rd') \<and> s_enc st' = Some e' \<and>
    fed cdc sync (s_sums st') e' (cur_ix st') rd' rest"
proof -
  from a e obtain f f' e' out where s: "s_file st = Some f" "s_file st' = Some f'" "s_enc st' = Some e'"
    "encode_blocks cdc (s_sums st) (cur_ix st) e blks = Some (out, e')" "fl_data f' = fl_data f @ out"
    "cur_ix st' = (cur_ix st + length blks) mod 2" "s_sums st' = s_sums st"
    unfolding appended_def by auto
  then have "new_bytes st st' = out" by (simp add: new_bytes_def)
  with read_blocks_fed [OF ok _ s(4) snd cur_ix_less, of rd rest] fd s show ?thesis by auto
qed

lemma PutFile_read_back:
  assumes "codec_ok cdc sync" "writer st" "pending st = []" "s_enc st = Some e" "wf_ProcFile pf"
    and "PutFile cdc (Some pf) st = (Inr n, st')" "cd_malloc cdc n"
    and "fed cdc sync (s_sums st) e (cur_ix st) rd (new_bytes st st' @ rest)"
  shows "\<exists>rd' e'. GetFile cdc rd = (Inr pf, rd') \<and> s_enc st' = Some e' \<and>
     fed cdc sync (s_sums st') e' (cur_ix st') rd' rest"
proof -
  obtain mid mid' f f' where P: "appended cdc st (sealed st) mid" "s_file mid = Some f" "s_file mid' = Some f'"
    "s_enc mid' = s_enc mid" "cur_ix mid' = cur_ix mid" "s_sums mid' = s_sums mid"
    "fl_data f' = fl_data f @ put32 (word_of_nat (ProcFile_Size pf))"
    "appended cdc mid' (lblocks 0 3 (chunks (put_pf pf))) st'" "n = ProcFile_Size pf"
    "ProcFile_Size pf \<le> MAX_PROC_FILE_SIZE"
    by (rule PutFile_Inr [OF assms(2,5,6)])
  have "sealed st = []" using assms(3) by (simp add: sealed_def)
  with P(1) assms(4) obtain f0 where m: "s_file st = Some f0" "s_enc mid = Some e" "fl_data f = fl_data f0"
    "cur_ix mid = cur_ix st" "s_sums mid = s_sums st"
    using P(2) cur_ix_less [of st] unfolding appended_def by auto
  from P(8) P(3-6) m obtain f2 e2 out where s: "s_file st' = Some f2" "s_enc st' = Some e2"
    "encode_blocks cdc (s_sums st) (cur_ix st) e (lblocks 0 3 (chunks (put_pf pf))) = Some (out, e2)"
    "fl_data f2 = fl_data f' @ out" "cur_ix st' = (cur_ix st + length (chunks (put_pf pf))) mod 2"
    "s_sums st' = s_sums st"
    unfolding appended_def by auto
  have nb: "new_bytes st st' = put32 (word_of_nat (ProcFile_Size pf)) @ out"
    using m(1,3) s(1,4) P(7) by (simp add: new_bytes_def)
  have "fed cdc sync (s_sums st) e (cur_ix st) rd (put32 (word_of_nat (ProcFile_Size pf)) @ out @ rest)"
    using assms(8) by (simp add: nb)
  from GetFile_fed [OF assms(1,5) this s(3) cur_ix_less P(10)] assms(7) P(9) s
  show ?thesis by auto
qed

end
