(* ===== verification/AcoreMeta.thy ===== *)
theory AcoreMeta
  imports Notes Lz4RoundTrip
begin

text \<open>
  The metadata of an acore file, \<^verbatim>\<open>src/core.cc\<close>: \<^verbatim>\<open>WriteFileHeader\<close>, \<^verbatim>\<open>WriteProcessMeta\<close>,
  \<^verbatim>\<open>WriteThreadMeta\<close> on the capturing side, \<^verbatim>\<open>VerifyFileHeader\<close> and \<^verbatim>\<open>ReadMeta\<close> on the
  converting side. What the capture takes from the kernel is in \<open>capture_env\<close> and
  \<open>thread_env\<close>; an operation returns its result, the \<^verbatim>\<open>Coredump\<close> object and the stream.
\<close>

section \<open>The Coredump object\<close>

text \<open>
  The members these operations use; those of the monitor are left out. \<open>c_pid\<close> and the
  other \<^verbatim>\<open>pid_t\<close> members are values of \<^verbatim>\<open>int\<close>.
\<close>

record core =
  c_pid :: int
  c_core_pid :: int
  c_arch :: nat
  c_version :: nat
  c_crash_sig :: int
  c_crash_tid :: int              \<comment> \<open>\<^verbatim>\<open>_monitor_crash_tid\<close>\<close>
  c_process :: ProcessData
  c_ehdr :: Ehdr
  c_note_phdr :: Phdr
  c_notes :: "Note list"
  c_phdrs :: "Phdr list"
  c_offset_load :: int            \<comment> \<open>\<^verbatim>\<open>off_t\<close>\<close>

text \<open>The constructor; \<open>platform\<close> is the architecture the program is compiled for.\<close>

definition Coredump_new :: "nat \<Rightarrow> int \<Rightarrow> core" where
  "Coredump_new platform pid =
     \<lparr>c_pid = pid, c_core_pid = 0, c_arch = platform, c_version = ACORE_VERSION, c_crash_sig = 0,
      c_crash_tid = 0, c_process = ProcessData_new, c_ehdr = Ehdr_new, c_note_phdr = Phdr_zero,
      c_notes = [], c_phdrs = [], c_offset_load = 0\<rparr>"

abbreviation (input) BUFFER_SIZE :: nat where "BUFFER_SIZE \<equiv> 1048576"

section \<open>File header\<close>

definition WriteFileHeader ::
    "('e, 'd) lz4_codec \<Rightarrow> nat \<Rightarrow> ('e, 'd) stream \<Rightarrow> (err + unit) \<times> ('e, 'd) stream" where
  "WriteFileHeader cdc platform st =
     (case WriteRaw cdc (Some (put_acore_header (AcoreHeader_new platform))) st of
        (Inl e, st1) \<Rightarrow> (Inl e, st1)
      | (Inr n, st1) \<Rightarrow>
          if n \<noteq> 8 then (Inl EFAIL, st1)
          else
            (case EnableBlockChecksums True st1 of
               (Inl e, st2) \<Rightarrow> (Inl e, st2)
             | (Inr _, st2) \<Rightarrow> (Inr (), st2)))"

definition VerifyFileHeader :: "core \<Rightarrow> ('e, 'd) stream \<Rightarrow> (err + core) \<times> ('e, 'd) stream" where
  "VerifyFileHeader c st =
     (case ReadRaw 6 st of
        (Inl e, st1) \<Rightarrow> (Inl e, st1)
      | (Inr magic, st1) \<Rightarrow>
          if length magic \<noteq> 6 \<or> magic \<noteq> ACORE_MAGIC then (Inl EFAIL, st1)
          else
            (case ReadRaw 2 st1 of
               (Inl e, st2) \<Rightarrow> (Inl e, st2)
             | (Inr m, st2) \<Rightarrow>
                 let v = unat (fst (get_m m)); arch = unat (snd (get_m m)) in
                 if length m \<noteq> 2 \<or> v < ACORE_MIN_VERSION \<or> v > ACORE_VERSION then (Inl EFAIL, st2)
                 else if arch \<ge> ARCH_MAX then (Inl EFAIL, st2)
                 else
                   let c' = c\<lparr>c_arch := arch, c_version := v\<rparr> in
                   if v \<ge> 4 then
                     (case EnableBlockChecksums True st2 of
                        (Inl e, st3) \<Rightarrow> (Inl e, st3)
                      | (Inr _, st3) \<Rightarrow> (Inr c', st3))
                   else (Inr c', st2)))"

section \<open>Process metadata\<close>

record capture_env =
  ce_open :: "string \<Rightarrow> proc_fd option"
  ce_time :: "(bytes \<times> bytes) option"      \<comment> \<open>\<^verbatim>\<open>gettimeofday\<close>: \<^verbatim>\<open>timeval\<close> and \<^verbatim>\<open>timezone\<close>\<close>
  ce_uname :: "bytes option"               \<comment> \<open>\<^verbatim>\<open>uname\<close> into 512 zeroed bytes\<close>
  ce_host_page :: int

text \<open>\<^verbatim>\<open>ok = ok \&\& wr(p, n)\<close>, for the items of a list.\<close>

fun wr :: "('e, 'd) lz4_codec \<Rightarrow> bytes list \<Rightarrow> bool \<times> ('e, 'd) stream \<Rightarrow> bool \<times> ('e, 'd) stream" where
  "wr cdc [] s = s"
| "wr cdc (bs # items) (ok, st) =
     (if \<not> ok then wr cdc items (False, st)
      else
        case Write cdc (Some bs) st of
          (Inl _, st') \<Rightarrow> wr cdc items (False, st')
        | (Inr _, st') \<Rightarrow> wr cdc items (True, st'))"

definition read_credentials :: "capture_env \<Rightarrow> int \<Rightarrow> err + ProcStatus" where
  "read_credentials env source_pid =
     (case ReadPid (ce_open env) (int BUFFER_SIZE) source_pid PROC_TYPE_STATUS of
        Inl e \<Rightarrow> Inl e
      | Inr (pf, truncated) \<Rightarrow> if truncated then Inl EFAIL else ProcStatus_Parse (Some pf))"

definition write_process_block ::
    "('e, 'd) lz4_codec \<Rightarrow> capture_env \<Rightarrow> core \<Rightarrow> ('e, 'd) stream \<Rightarrow> (err + unit) \<times> ('e, 'd) stream" where
  "write_process_block cdc env c st =
     (case SetBlock cdc (int (block_code BLOCK_TYPE_PROCESS)) st of
        (Inl e, st0) \<Rightarrow> (Inl e, st0)
      | (Inr _, st0) \<Rightarrow>
          let s1 = wr cdc [put32 (word_of_int (c_pid c)), put32 (word_of_int (c_core_pid c)),
                           put32 (word_of_nat (length (pd_thrd_pid (c_process c))))] (True, st0)
          in case ce_time env of
               None \<Rightarrow> (Inl EFAIL, snd s1)
             | Some (tv, tz) \<Rightarrow>
                 let s2 = wr cdc [tv, tz] s1 in
                 case ce_uname env of
                   None \<Rightarrow> (Inl EFAIL, snd s2)
                 | Some ubuf \<Rightarrow>
                     let (ok, st3) = wr cdc [ubuf, put32 (pd_uid (c_process c)), put32 (pd_gid (c_process c)),
                                             put32 (word_of_int (c_crash_sig c))] s2
                     in if \<not> ok then (Inl EFAIL, st3)
                        else
                          (case Flush cdc st3 of
                             (Inl e, st4) \<Rightarrow> (Inl e, st4)
                           | (Inr _, st4) \<Rightarrow> (Inr (), st4)))"

text \<open>\<^verbatim>\<open>read_pid_checked\<close> up to the call of \<^verbatim>\<open>PutFile\<close>: read, refuse a truncated file, validate.\<close>

definition read_checked :: "capture_env \<Rightarrow> int \<Rightarrow> int \<Rightarrow> proc_type \<Rightarrow> err + ProcFile" where
  "read_checked env pid source_pid t =
     (case ReadPid (ce_open env) (int BUFFER_SIZE) (if t = PROC_TYPE_STAT then pid else source_pid) t of
        Inl e \<Rightarrow> Inl e
      | Inr (pf, truncated) \<Rightarrow>
          if truncated then Inl EFAIL
          else if t = PROC_TYPE_CMDLINE \<and> isl (ProcCmdline_Parse (Some pf)) then Inl EFAIL
          else if t = PROC_TYPE_AUXV \<and>
                  (case ProcAuxv_Parse (Some pf) of
                     Inl _ \<Rightarrow> True
                   | Inr a \<Rightarrow> av_page_size a = 0 \<or> av_page_size a AND (av_page_size a - 1) \<noteq> 0) then Inl EFAIL
          else if t = PROC_TYPE_STAT \<and>
                  (case ProcStat_Parse (ce_host_page env) (Some pf) of
                     Inl _ \<Rightarrow> True | Inr s \<Rightarrow> st_pid s \<noteq> pid) then Inl EFAIL
          else Inr (pf\<lparr>f_pid := word_of_int pid\<rparr>))"

fun put_checked ::
    "('e, 'd) lz4_codec \<Rightarrow> capture_env \<Rightarrow> int \<Rightarrow> int \<Rightarrow> proc_type list \<Rightarrow> ('e, 'd) stream \<Rightarrow>
     (err + unit) \<times> ('e, 'd) stream" where
  "put_checked cdc env pid source_pid [] st = (Inr (), st)"
| "put_checked cdc env pid source_pid (t # ts) st =
     (case read_checked env pid source_pid t of
        Inl e \<Rightarrow> (Inl e, st)
      | Inr pf \<Rightarrow>
          (case PutFile cdc (Some pf) st of
             (Inl e, st') \<Rightarrow> (Inl e, st')
           | (Inr _, st') \<Rightarrow> put_checked cdc env pid source_pid ts st'))"

definition read_maps :: "capture_env \<Rightarrow> int \<Rightarrow> int \<Rightarrow> err + ProcFile \<times> MemRegion list" where
  "read_maps env pid source_pid =
     (case ReadPid (ce_open env) (int BUFFER_SIZE) source_pid PROC_TYPE_MAPS of
        Inl e \<Rightarrow> Inl e
      | Inr (pf, truncated) \<Rightarrow>
          if truncated then Inl EFAIL
          else
            (case ProcMaps_Parse (Some pf) of
               Inl e \<Rightarrow> Inl e
             | Inr rs \<Rightarrow> if rs = [] then Inl EFAIL else Inr (pf\<lparr>f_pid := word_of_int pid\<rparr>, rs)))"

text \<open>The regions are the \<^verbatim>\<open>maps\<close> argument the caller gets back.\<close>

definition WriteProcessMeta ::
    "('e, 'd) lz4_codec \<Rightarrow> capture_env \<Rightarrow> int \<Rightarrow> core \<Rightarrow> ('e, 'd) stream \<Rightarrow>
     (err + MemRegion list) \<times> core \<times> ('e, 'd) stream" where
  "WriteProcessMeta cdc env source c st =
     (let source_pid = (if source = 0 then c_pid c else source); tids = pd_thrd_pid (c_process c) in
      if tids = [] \<or> length tids > UINT32_MAX then (Inl EFAIL, c, st)
      else if (\<exists>tid \<in> set tids. tid \<le> 0) \<or> \<not> distinct tids then (Inl EFAIL, c, st)
      else
        case read_credentials env source_pid of
          Inl e \<Rightarrow> (Inl e, c, st)
        | Inr ids \<Rightarrow>
            let c1 = c\<lparr>c_process := (c_process c)\<lparr>pd_uid := ps_uid ids, pd_gid := ps_gid ids,
                                                 pd_credentials_valid := True\<rparr>\<rparr>
            in (case write_process_block cdc env c1 st of
                  (Inl e, st1) \<Rightarrow> (Inl e, c1, st1)
                | (Inr _, st1) \<Rightarrow>
                    (case put_checked cdc env (c_pid c) source_pid [PROC_TYPE_CMDLINE, PROC_TYPE_AUXV] st1 of
                       (Inl e, st2) \<Rightarrow> (Inl e, c1, st2)
                     | (Inr _, st2) \<Rightarrow>
                         (case read_maps env (c_pid c) source_pid of
                            Inl e \<Rightarrow> (Inl e, c1, st2)
                          | Inr (pf, rs) \<Rightarrow>
                              (case PutFile cdc (Some pf) st2 of
                                 (Inl e, st3) \<Rightarrow> (Inl e, c1, st3)
                               | (Inr _, st3) \<Rightarrow>
                                   (case put_checked cdc env (c_pid c) source_pid
                                           [PROC_TYPE_ENVIRON, PROC_TYPE_IO, PROC_TYPE_LIMITS, PROC_TYPE_STAT] st3 of
                                      (Inl e, st4) \<Rightarrow> (Inl e, c1, st4)
                                    | (Inr _, st4) \<Rightarrow> (Inr rs, c1, st4)))))))"

section \<open>Thread metadata\<close>

text \<open>The line of a status file that starts with a key.\<close>

function key_line :: "string \<Rightarrow> string \<Rightarrow> string option" where
  "key_line key line =
     (if line = [] then None
      else if take (length key) line = key then Some line
      else
        case dropWhile (\<lambda>c. c \<noteq> NL) line of
          [] \<Rightarrow> None
        | _ # nxt \<Rightarrow> key_line key nxt)"
  by pat_completeness auto
termination
  by (relation "measure (\<lambda>(key, line). length line)") (auto simp: dropWhile_tail_shorter)

declare key_line.simps [simp del]

definition parse_status_mask :: "string \<Rightarrow> string \<Rightarrow> u64 option" where
  "parse_status_mask data key =
     (case key_line key (takeWhile (\<lambda>c. c \<noteq> NUL) data) of
        None \<Rightarrow> None
      | Some line \<Rightarrow>
          let p = dropWhile blank (drop (length key) line) in
          if stops 16 p then None
          else
            let r = strtoull 16 p;
                after = dropWhile (\<lambda>c. c = CHR '' '' \<or> c = TAB \<or> c = CHR 0x0D) (sr_end r)
            in if \<not> sr_conv r \<or> sr_range r then None
               else if after \<noteq> [] \<and> hd after \<noteq> NL then None
               else Some (word_of_nat (sr_value r)))"

text \<open>
  \<^verbatim>\<open>1\<close> for a caught or ignored signal, \<^verbatim>\<open>0\<close> for the default action, an error when
  \<^verbatim>\<open>/proc\<close> does not tell.
\<close>

definition signal_has_nondefault_disposition :: "(string \<Rightarrow> proc_fd option) \<Rightarrow> int \<Rightarrow> int \<Rightarrow> err + bool" where
  "signal_has_nondefault_disposition op pid sig =
     (if sig < 1 \<or> sig > 64 then Inl EINVAL
      else
        case ReadPid op (int BUFFER_SIZE) pid PROC_TYPE_STATUS of
          Inl e \<Rightarrow> Inl e
        | Inr (pf, truncated) \<Rightarrow>
            if truncated then Inl EFAIL
            else
              (case (parse_status_mask (f_data pf) ''SigCgt:'', parse_status_mask (f_data pf) ''SigIgn:'') of
                 (Some caught, Some ignored) \<Rightarrow>
                   Inr ((caught OR ignored) AND push_bit (nat (sig - 1)) 1 \<noteq> 0)
               | _ \<Rightarrow> Inl EPROTO))"

text \<open>What the ptrace requests on a stopped thread return, \<open>None\<close> for a failure.\<close>

record thread_env =
  te_regs :: "bytes option"
  te_fpregs :: "bytes option"
  te_siginfo :: "bytes option"
  te_xstate :: "bytes option"

definition regs_size :: "nat \<Rightarrow> nat" where
  "regs_size arch = (if arch = ARCH_AARCH64 then ARM64_REGS else X64_REGS)"

definition fpregs_size :: "nat \<Rightarrow> nat" where
  "fpregs_size arch = (if arch = ARCH_AARCH64 then ARM64_FPREGS else X64_FPREGS)"

definition zeroed :: "nat \<Rightarrow> bytes option \<Rightarrow> bytes" where
  "zeroed n r = (case r of None \<Rightarrow> replicate n NUL | Some bs \<Rightarrow> bs)"

text \<open>The part of \<^verbatim>\<open>WriteThreadMeta\<close> that collects the thread's state.\<close>

definition capture_thread ::
    "capture_env \<Rightarrow> thread_env \<Rightarrow> core \<Rightarrow> int \<Rightarrow> err + ThreadData" where
  "capture_thread env te c pid =
     (case te_regs te of
        None \<Rightarrow> Inl EFAIL
      | Some regs \<Rightarrow>
          if te_siginfo te = None \<and> c_crash_sig c \<noteq> 0 \<and> pid = c_crash_tid c then Inl EFAIL
          else
            (case ReadPid (ce_open env) (int BUFFER_SIZE) pid PROC_TYPE_STATUS of
               Inl e \<Rightarrow> Inl e
             | Inr (spf, truncated) \<Rightarrow>
                 if truncated then Inl EFAIL
                 else
                   (case (parse_status_mask (f_data spf) ''SigPnd:'', parse_status_mask (f_data spf) ''SigBlk:'') of
                      (Some pend, Some hold) \<Rightarrow>
                        Inr \<lparr>td_pid = word_of_int pid, td_arch = c_arch c, td_regs = regs,
                             td_fpregs = zeroed (fpregs_size (c_arch c)) (te_fpregs te),
                             td_xstate = (if c_arch c = ARCH_X64 then zeroed X86_XSTATE_MAX_SIZE (te_xstate te) else []),
                             td_siginfo = zeroed SIGINFO_SIZE (te_siginfo te),
                             td_prstatus_signal = c_crash_sig c,
                             td_fp_valid = (te_fpregs te \<noteq> None \<and> (c_arch c = ARCH_X64 \<longrightarrow> te_xstate te \<noteq> None)),
                             td_sigpend = pend, td_sighold = hold, td_masks_valid = True,
                             td_stat = None, td_d_stat = None\<rparr>
                    | _ \<Rightarrow> Inl EFAIL)))"

definition thread_items :: "nat \<Rightarrow> ThreadData \<Rightarrow> bytes list" where
  "thread_items arch t =
     [put32 (td_pid t), td_regs t, td_fpregs t, td_siginfo t] @
     (if arch = ARCH_X64 then [td_xstate t] else []) @
     [[if td_fp_valid t then CHR 0x01 else NUL], put64 (td_sigpend t), put64 (td_sighold t)]"

text \<open>The stat file of a thread, which must be that thread's.\<close>

definition read_thread_stat :: "capture_env \<Rightarrow> int \<Rightarrow> err + ProcFile" where
  "read_thread_stat env pid =
     (case ReadPid (ce_open env) (int BUFFER_SIZE) pid PROC_TYPE_STAT of
        Inl e \<Rightarrow> Inl e
      | Inr (pf, truncated) \<Rightarrow>
          if truncated then Inl EFAIL
          else
            (case ProcStat_Parse (ce_host_page env) (Some pf) of
               Inl e \<Rightarrow> Inl e
             | Inr s \<Rightarrow> if st_pid s \<noteq> pid then Inl EFAIL else Inr pf))"

definition WriteThreadMeta ::
    "('e, 'd) lz4_codec \<Rightarrow> capture_env \<Rightarrow> thread_env \<Rightarrow> core \<Rightarrow> int \<Rightarrow> ('e, 'd) stream \<Rightarrow>
     (err + unit) \<times> ('e, 'd) stream" where
  "WriteThreadMeta cdc env te c pid st =
     (case capture_thread env te c pid of
        Inl e \<Rightarrow> (Inl e, st)
      | Inr t \<Rightarrow>
          (case SetBlock cdc (int (block_code BLOCK_TYPE_THREAD)) st of
             (Inl e, st1) \<Rightarrow> (Inl e, st1)
           | (Inr _, st1) \<Rightarrow>
               let (ok, st2) = wr cdc (thread_items (c_arch c) t) (True, st1) in
               if \<not> ok then (Inl EFAIL, st2)
               else
                 (case Flush cdc st2 of
                    (Inl e, st3) \<Rightarrow> (Inl e, st3)
                  | (Inr _, st3) \<Rightarrow>
                      (case read_thread_stat env pid of
                         Inl e \<Rightarrow> (Inl e, st3)
                       | Inr pf \<Rightarrow>
                           (case PutFile cdc (Some pf) st3 of
                              (Inl e, st4) \<Rightarrow> (Inl e, st4)
                            | (Inr _, st4) \<Rightarrow> (Inr (), st4))))))"

text \<open>
  The threads of a dump as \<^verbatim>\<open>generate\<close> writes them: the one that controls the capture
  first, then the others in the order they were collected.
\<close>

definition thread_order :: "int \<Rightarrow> int list \<Rightarrow> int list" where
  "thread_order control tids = control # filter (\<lambda>tid. tid \<noteq> control) tids"

fun WriteThreads ::
    "('e, 'd) lz4_codec \<Rightarrow> capture_env \<Rightarrow> (int \<Rightarrow> thread_env) \<Rightarrow> core \<Rightarrow> int list \<Rightarrow> ('e, 'd) stream \<Rightarrow>
     (err + unit) \<times> ('e, 'd) stream" where
  "WriteThreads cdc env te c [] st = (Inr (), st)"
| "WriteThreads cdc env te c (tid # tids) st =
     (case WriteThreadMeta cdc env (te tid) c tid st of
        (Inl e, st1) \<Rightarrow> (Inl e, st1)
      | (Inr _, st1) \<Rightarrow> WriteThreads cdc env te c tids st1)"

end
