(* ===== verification/AcoreRead.thy ===== *)
theory AcoreRead
  imports AcoreMeta
begin

text \<open>
  \<^verbatim>\<open>Coredump::ReadMeta\<close> of \<^verbatim>\<open>src/core.cc\<close>: the process block, the \<^verbatim>\<open>/proc\<close> files of the
  process, and for every thread its block and its stat file.
\<close>

section \<open>Fixed-size fields of a block\<close>

text \<open>A sequence of \<^verbatim>\<open>buf->Read(p, n)\<close>, each of which has to return \<^verbatim>\<open>n\<close>.\<close>

fun take_fields :: "nat list \<Rightarrow> block \<Rightarrow> bytes list option \<times> block" where
  "take_fields [] b = (Some [], b)"
| "take_fields (n # ns) b =
     (case Block_Read n b of
        (Inl _, b1) \<Rightarrow> (None, b1)
      | (Inr bs, b1) \<Rightarrow>
          (case take_fields ns b1 of
             (None, b2) \<Rightarrow> (None, b2)
           | (Some fs, b2) \<Rightarrow> (Some (bs # fs), b2)))"

section \<open>The process block\<close>

text \<open>pid, core pid, thread count, \<^verbatim>\<open>timeval\<close>, \<^verbatim>\<open>timezone\<close>, \<^verbatim>\<open>uname\<close>; from version 5 uid, gid, crash signal.\<close>

definition process_fields :: "nat \<Rightarrow> nat list" where
  "process_fields version = [4, 4, 4, 16, 8, 512] @ (if version \<ge> 5 then [4, 4, 4] else [])"

text \<open>The result is the updated object and the thread count.\<close>

definition read_process_block :: "core \<Rightarrow> block \<Rightarrow> (err + core \<times> int) \<times> block" where
  "read_process_block c b =
     (case take_fields (process_fields (c_version c)) b of
        (None, b') \<Rightarrow> (Inl EFAIL, b')
      | (Some fs, b') \<Rightarrow>
          (let pid = sint (get32 (fs ! 0)); core_pid = sint (get32 (fs ! 1)); num = sint (get32 (fs ! 2));
               v5 = c_version c \<ge> 5; crash_sig = (if v5 then get32 (fs ! 8) else 0)
           in if crash_sig \<noteq> 0 \<and> \<not> is_core_dump_signal (sint crash_sig) then (Inl EFAIL, b')
              else if Block_Size b' \<noteq> 0 then (Inl EFAIL, b')
              else if pid \<le> 0 then (Inl EFAIL, b')
              else
                (Inr (c\<lparr>c_pid := pid, c_core_pid := core_pid, c_crash_sig := sint crash_sig,
                        c_process := (c_process c)
                          \<lparr>pd_uid := (if v5 then get32 (fs ! 6) else pd_uid (c_process c)),
                           pd_gid := (if v5 then get32 (fs ! 7) else pd_gid (c_process c)),
                           pd_credentials_valid := v5\<rparr>\<rparr>, num), b')))"

section \<open>The files of the process\<close>

definition process_file_types :: "nat \<Rightarrow> proc_type list" where
  "process_file_types version =
     [PROC_TYPE_CMDLINE, PROC_TYPE_AUXV, PROC_TYPE_MAPS, PROC_TYPE_ENVIRON, PROC_TYPE_IO, PROC_TYPE_LIMITS]
     @ (if version \<ge> 6 then [PROC_TYPE_STAT] else [])"

text \<open>\<open>n\<close> calls of \<^verbatim>\<open>GetFile\<close>, whose results are only looked at after the last one.\<close>

primrec get_files :: "('e, 'd) lz4_codec \<Rightarrow> nat \<Rightarrow> ('e, 'd) stream \<Rightarrow> ProcFile option list \<times> ('e, 'd) stream" where
  "get_files cdc 0 st = ([], st)"
| "get_files cdc (Suc n) st =
     (let (r, st1) = GetFile cdc st; (rs, st2) = get_files cdc n st1
      in ((case r of Inl _ \<Rightarrow> None | Inr pf \<Rightarrow> Some pf) # rs, st2))"

definition file_identity :: "int \<Rightarrow> proc_type \<Rightarrow> ProcFile \<Rightarrow> bool" where
  "file_identity pid t pf \<longleftrightarrow> f_type pf = proc_code t \<and> f_pid pf = word_of_int pid"

definition read_process_files :: "('e, 'd) lz4_codec \<Rightarrow> core \<Rightarrow> ('e, 'd) stream \<Rightarrow> (err + core) \<times> ('e, 'd) stream" where
  "read_process_files cdc c st =
     (let types = process_file_types (c_version c);
          (fs, st1) = get_files cdc (length types) st;
          pd = c_process c
      in if None \<in> set fs then (Inl EFAIL, st1)
         else if \<not> list_all2 (file_identity (c_pid c)) types (map the fs) then (Inl EFAIL, st1)
         else
           (Inr (c\<lparr>c_process := pd
                    \<lparr>pd_cmdline := fs ! 0, pd_auxv := fs ! 1, pd_maps := fs ! 2, pd_environ := fs ! 3,
                     pd_io := fs ! 4, pd_limits := fs ! 5,
                     pd_stat := (if c_version c \<ge> 6 then fs ! 6 else None)\<rparr>\<rparr>), st1))"

section \<open>A thread\<close>

definition thread_fields :: "nat \<Rightarrow> nat \<Rightarrow> nat list" where
  "thread_fields arch version =
     [4, regs_size arch, fpregs_size arch, SIGINFO_SIZE] @
     (if arch = ARCH_X64 then [X86_XSTATE_MAX_SIZE] else []) @
     (if version \<ge> 3 then [1, 8, 8] else [])"

text \<open>The fields of a thread block; \<open>k\<close> is the index of the first field of version 3.\<close>

definition thread_of_fields :: "core \<Rightarrow> bytes list \<Rightarrow> ThreadData" where
  "thread_of_fields c fs =
     (let x64 = (c_arch c = ARCH_X64); k = (if x64 then 5 else 4); v3 = c_version c \<ge> 3 in
      \<lparr>td_pid = get32 (fs ! 0), td_arch = c_arch c, td_regs = fs ! 1, td_fpregs = fs ! 2,
       td_xstate = (if x64 then fs ! 4 else []), td_siginfo = fs ! 3, td_prstatus_signal = 0,
       td_fp_valid = (if v3 then fs ! k \<noteq> [NUL] else True),
       td_sigpend = (if v3 then get64 (fs ! (k + 1)) else 0),
       td_sighold = (if v3 then get64 (fs ! (k + 2)) else 0),
       td_masks_valid = v3, td_stat = None, td_d_stat = None\<rparr>)"

definition fp_flag_bad :: "core \<Rightarrow> bytes list \<Rightarrow> bool" where
  "fp_flag_bad c fs \<longleftrightarrow>
     c_version c \<ge> 3 \<and> fs ! (if c_arch c = ARCH_X64 then 5 else 4) \<notin> {[NUL], [CHR 0x01]}"

text \<open>\<^verbatim>\<open>_prstatus_signal\<close>, for the thread with index \<open>i\<close>; an error for a signal that cannot be.\<close>

definition thread_signal :: "core \<Rightarrow> nat \<Rightarrow> ThreadData \<Rightarrow> err + int" where
  "thread_signal c i t =
     (if si_signo t < 0 \<or> si_signo t \<ge> NSIG then Inl EFAIL
      else if c_version c \<ge> 5 then
        if c_crash_sig c \<noteq> 0 \<and> i = 0 \<and> si_signo t \<noteq> c_crash_sig c then Inl EFAIL
        else Inr (c_crash_sig c)
      else Inr (if is_core_dump_signal (si_signo t) then si_signo t else 0))"

definition parse_thread_block :: "core \<Rightarrow> nat \<Rightarrow> block \<Rightarrow> (err + ThreadData) \<times> block" where
  "parse_thread_block c i b =
     (case take_fields (thread_fields (c_arch c) (c_version c)) b of
        (None, b') \<Rightarrow> (Inl EFAIL, b')
      | (Some fs, b') \<Rightarrow>
          if fp_flag_bad c fs then (Inl EFAIL, b')
          else if Block_Size b' \<noteq> 0 then (Inl EFAIL, b')
          else
            let t = thread_of_fields c fs in
            case thread_signal c i t of
              Inl e \<Rightarrow> (Inl e, b')
            | Inr sig \<Rightarrow> (Inr (t\<lparr>td_prstatus_signal := sig\<rparr>), b'))"

text \<open>\<^verbatim>\<open>THREAD_META_MAX\<close>: what all thread blocks and stat files together may take.\<close>

abbreviation (input) THREAD_META_MAX :: nat where "THREAD_META_MAX \<equiv> 536870912"

definition read_thread ::
    "('e, 'd) lz4_codec \<Rightarrow> core \<Rightarrow> nat \<Rightarrow> u32 set \<Rightarrow> nat \<Rightarrow> ('e, 'd) stream \<Rightarrow>
     (err + ThreadData \<times> nat) \<times> ('e, 'd) stream" where
  "read_thread cdc c i ids meta st =
     (case ReadBlock cdc st of
        (None, st1) \<Rightarrow> (Inl EFAIL, st1)
      | (Some (hdr, b), st1) \<Rightarrow>
          if unat (hdr_type hdr) \<noteq> block_code BLOCK_TYPE_THREAD then (Inl EFAIL, st1)
          else if hdr_cont hdr \<noteq> 0 then (Inl EFAIL, st1)
          else
            let meta1 = meta + Block_Length b in
            if meta1 > THREAD_META_MAX then (Inl EFAIL, st1)
            else
              (case parse_thread_block c i b of
                 (Inl e, b') \<Rightarrow> (Inl e, set_block b' st1)
               | (Inr t, b') \<Rightarrow>
                   if td_pid t = 0 \<or> td_pid t \<in> ids then (Inl EFAIL, set_block b' st1)
                   else
                     (case GetFile cdc (set_block b' st1) of
                        (Inl e, st2) \<Rightarrow> (Inl e, st2)
                      | (Inr pf, st2) \<Rightarrow>
                          if f_type pf \<noteq> proc_code PROC_TYPE_STAT \<or> f_pid pf \<noteq> td_pid t then (Inl EFAIL, st2)
                          else
                            let meta2 = meta1 + ProcFile_Size pf in
                            if meta2 > THREAD_META_MAX then (Inl EFAIL, st2)
                            else (Inr (t\<lparr>td_stat := Some pf\<rparr>, meta2), st2))))"

fun read_threads ::
    "('e, 'd) lz4_codec \<Rightarrow> core \<Rightarrow> nat \<Rightarrow> nat \<Rightarrow> nat \<Rightarrow> ThreadData list \<Rightarrow> ('e, 'd) stream \<Rightarrow>
     (err + ThreadData list) \<times> ('e, 'd) stream" where
  "read_threads cdc c 0 i meta ts st = (Inr ts, st)"
| "read_threads cdc c (Suc n) i meta ts st =
     (case read_thread cdc c i (td_pid ` set ts) meta st of
        (Inl e, st1) \<Rightarrow> (Inl e, st1)
      | (Inr (t, meta'), st1) \<Rightarrow> read_threads cdc c n (Suc i) meta' (ts @ [t]) st1)"

section \<open>ReadMeta\<close>

abbreviation (input) MAX_THREADS :: int where "MAX_THREADS \<equiv> 131072"

definition ReadMeta :: "('e, 'd) lz4_codec \<Rightarrow> core \<Rightarrow> ('e, 'd) stream \<Rightarrow> (err + core) \<times> ('e, 'd) stream" where
  "ReadMeta cdc c st =
     (case ReadBlock cdc st of
        (None, st1) \<Rightarrow> (Inl EFAIL, st1)
      | (Some (hdr, b), st1) \<Rightarrow>
          if unat (hdr_type hdr) \<noteq> block_code BLOCK_TYPE_PROCESS then (Inl EFAIL, st1)
          else if hdr_cont hdr \<noteq> 0 then (Inl EFAIL, st1)
          else
            (case read_process_block c b of
               (Inl e, b') \<Rightarrow> (Inl e, set_block b' st1)
             | (Inr (c1, num), b') \<Rightarrow>
                 (case read_process_files cdc c1 (set_block b' st1) of
                    (Inl e, st2) \<Rightarrow> (Inl e, st2)
                  | (Inr c2, st2) \<Rightarrow>
                      if num \<le> 0 \<or> num > MAX_THREADS then (Inl EFAIL, st2)
                      else
                        (case read_threads cdc c2 (nat num) 0 0 [] st2 of
                           (Inl e, st3) \<Rightarrow> (Inl e, st3)
                         | (Inr ts, st3) \<Rightarrow>
                             if c_version c2 < 6 \<and> word_of_int (c_pid c2) \<notin> td_pid ` set ts then (Inl EFAIL, st3)
                             else (Inr (c2\<lparr>c_process := (c_process c2)
                                          \<lparr>pd_threads := pd_threads (c_process c2) @ ts\<rparr>\<rparr>), st3)))))"

end
