(* ===== verification/Channel.thy ===== *)
theory Channel
  imports Lz4RoundTrip
begin

text \<open>
  The block stream as a channel: \<open>transfers st st' op r\<close> says that a reader in step with
  the writer state \<open>st\<close>, given the bytes the writer added until \<open>st'\<close>, returns \<open>r\<close> from the
  reading operation \<open>op\<close> and is then in step with \<open>st'\<close>. Transfers compose.
\<close>

definition idle :: "('e, 'd) stream \<Rightarrow> bool" where
  "idle st \<longleftrightarrow> writer st \<and> pending st = []"

definition grows :: "('e, 'd) stream \<Rightarrow> ('e, 'd) stream \<Rightarrow> bool" where
  "grows st st' \<longleftrightarrow>
     (\<exists>f f' out. s_file st = Some f \<and> s_file st' = Some f' \<and> fl_data f' = fl_data f @ out)"

lemma grows_trans: "grows st st1 \<Longrightarrow> grows st1 st2 \<Longrightarrow> grows st st2"
  by (auto simp: grows_def)

lemma new_bytes_trans: "grows st st1 \<Longrightarrow> grows st1 st2 \<Longrightarrow> new_bytes st st2 = new_bytes st st1 @ new_bytes st1 st2"
  by (auto simp: grows_def new_bytes_def)

lemma appended_grows: "appended cdc st bs st' \<Longrightarrow> grows st st'"
  by (auto simp: grows_def appended_def)

definition in_step ::
    "('e, 'd) lz4_codec \<Rightarrow> ('e \<Rightarrow> nat \<Rightarrow> 'd \<Rightarrow> nat \<Rightarrow> bool) \<Rightarrow> ('e, 'd) stream \<Rightarrow> ('e, 'd) stream \<Rightarrow> bytes \<Rightarrow> bool" where
  "in_step cdc sync st rd inp \<longleftrightarrow> (\<exists>e. s_enc st = Some e \<and> fed cdc sync (s_sums st) e (cur_ix st) rd inp)"

lemma in_step_set_block [simp]: "in_step cdc sync st (set_block b rd) inp = in_step cdc sync st rd inp"
  by (simp add: in_step_def)

lemma in_step_update [simp]: "in_step cdc sync (st\<lparr>s_type := t\<rparr>) rd inp = in_step cdc sync st rd inp"
  by (simp add: in_step_def)

definition transfers ::
    "('e, 'd) lz4_codec \<Rightarrow> ('e \<Rightarrow> nat \<Rightarrow> 'd \<Rightarrow> nat \<Rightarrow> bool) \<Rightarrow> ('e, 'd) stream \<Rightarrow> ('e, 'd) stream \<Rightarrow>
     (('e, 'd) stream \<Rightarrow> 'r \<times> ('e, 'd) stream) \<Rightarrow> 'r \<Rightarrow> bool" where
  "transfers cdc sync st st' op r \<longleftrightarrow>
     idle st' \<and> grows st st' \<and>
     (\<forall>rd rest. in_step cdc sync st rd (new_bytes st st' @ rest) \<longrightarrow>
        (\<exists>rd'. op rd = (r, rd') \<and> in_step cdc sync st' rd' rest))"

lemma transfersI:
  assumes "idle st'" "grows st st'"
    and "\<And>rd rest. in_step cdc sync st rd (new_bytes st st' @ rest) \<Longrightarrow>
      \<exists>rd'. op rd = (r, rd') \<and> in_step cdc sync st' rd' rest"
  shows "transfers cdc sync st st' op r"
  using assms by (simp add: transfers_def)

lemma transfersD:
  assumes "transfers cdc sync st st' op r" "in_step cdc sync st rd (new_bytes st st' @ rest)"
  obtains rd' where "op rd = (r, rd')" "in_step cdc sync st' rd' rest"
  using assms by (auto simp: transfers_def)

lemma transfers_idle: "transfers cdc sync st st' op r \<Longrightarrow> idle st'"
  by (simp add: transfers_def)

lemma transfers_bind:
  assumes a: "transfers cdc sync st st1 op r" and b: "transfers cdc sync st1 st2 op' r'"
    and k: "\<And>rd rd1. op rd = (r, rd1) \<Longrightarrow> whole rd = (case op' rd1 of (x, rd2) \<Rightarrow> (h x, rd2))"
  shows "transfers cdc sync st st2 whole (h r')"
proof (rule transfersI)
  have g: "grows st st1" "grows st1 st2" using a b by (simp_all add: transfers_def)
  show "idle st2" using b by (simp add: transfers_def)
  show "grows st st2" using g by (rule grows_trans)
  fix rd rest assume "in_step cdc sync st rd (new_bytes st st2 @ rest)"
  then have "in_step cdc sync st rd (new_bytes st st1 @ (new_bytes st1 st2 @ rest))"
    by (simp add: new_bytes_trans [OF g])
  with a obtain rd1 where 1: "op rd = (r, rd1)" "in_step cdc sync st1 rd1 (new_bytes st1 st2 @ rest)"
    by (rule transfersD)
  from b 1(2) obtain rd2 where 2: "op' rd1 = (r', rd2)" "in_step cdc sync st2 rd2 rest" by (rule transfersD)
  show "\<exists>rd'. whole rd = (h r', rd') \<and> in_step cdc sync st2 rd' rest"
    using k [OF 1(1)] 2 by simp
qed

lemma transfers_idle_refl: "idle st \<Longrightarrow> transfers cdc sync st st (\<lambda>rd. (r, rd)) r"
  by (auto simp: transfers_def grows_def new_bytes_def idle_def writer_def)

section \<open>A file\<close>

lemma PutFile_idle: "idle st \<Longrightarrow> wf_ProcFile pf \<Longrightarrow> PutFile cdc (Some pf) st = (Inr n, st') \<Longrightarrow>
    idle st' \<and> grows st st' \<and> n = ProcFile_Size pf \<and> n \<le> MAX_PROC_FILE_SIZE"
  unfolding idle_def
  by (elim conjE, rule PutFile_Inr) (auto simp: grows_def appended_def)

lemma file_transfer:
  assumes "codec_ok cdc sync" "idle st" "wf_ProcFile pf" "PutFile cdc (Some pf) st = (Inr n, st')"
    and "cd_malloc cdc (ProcFile_Size pf)"
  shows "transfers cdc sync st st' (GetFile cdc) (Inr pf)"
proof (rule transfersI)
  note P = PutFile_idle [OF assms(2-4)]
  show "idle st'" "grows st st'" using P by auto
  fix rd rest assume "in_step cdc sync st rd (new_bytes st st' @ rest)"
  then obtain e where e: "s_enc st = Some e" "fed cdc sync (s_sums st) e (cur_ix st) rd (new_bytes st st' @ rest)"
    by (auto simp: in_step_def)
  have "writer st" "pending st = []" "cd_malloc cdc n" using assms(2,5) P by (auto simp: idle_def)
  from PutFile_read_back [OF assms(1) this(1,2) e(1) assms(3,4) this(3) e(2)]
  show "\<exists>rd'. GetFile cdc rd = (Inr pf, rd') \<and> in_step cdc sync st' rd' rest"
    by (auto simp: in_step_def)
qed

section \<open>A block\<close>

text \<open>A block built with \<^verbatim>\<open>SetBlock\<close>, \<^verbatim>\<open>Write\<close>, \<^verbatim>\<open>Flush\<close> out of data that fits it.\<close>

lemma block_transfer:
  assumes ok: "codec_ok cdc sync" and st: "writer st" "pending st = raw" "raw \<noteq> []"
    and fl: "Flush cdc st = (Inr n, st')"
  shows "\<exists>k. transfers cdc sync st st' (ReadBlock cdc)
    (Some (block_hdr 0 (word_of_int (s_type st)) k, \<lparr>b_cur = 0, b_buf = raw\<rparr>))"
proof -
  note F = Flush_Inr [OF st(1) fl]
  let ?t = "word_of_int (s_type st) :: u4"
  have sealed: "sealed st = [(0, ?t, raw)]" using st by (simp add: sealed_def)
  then have "appended cdc st [(0, ?t, raw)] st'" using F(3) by simp
  then obtain f e f' e' out where a: "s_file st = Some f" "s_enc st = Some e" "s_file st' = Some f'" "s_enc st' = Some e'"
    "encode_blocks cdc (s_sums st) (cur_ix st) e [(0, ?t, raw)] = Some (out, e')" "fl_data f' = fl_data f @ out"
    "cur_ix st' = Suc (cur_ix st) mod 2" "s_sums st' = s_sums st"
    by (auto simp: appended_def)
  have enc: "encode_block cdc (s_sums st) (cur_ix st) e (0, ?t, raw) = Some (out, e')"
    using a(5) by (auto simp del: encode_block.simps split: option.splits)
  obtain c where c: "LZ4_compress cdc e (cur_ix st) raw COMPRESS_BUF = (Some c, e')"
    using enc by (auto split: option.splits prod.splits if_splits)
  have nb: "new_bytes st st' = out" using a by (simp add: new_bytes_def)
  have len: "length raw \<le> BLOCK_SIZE" using st by (auto simp: writer_def)
  show ?thesis
  proof (rule exI [of _ "length c"], rule transfersI)
    show "idle st'" "grows st st'" using F a by (auto simp: idle_def grows_def)
    fix rd rest assume "in_step cdc sync st rd (new_bytes st st' @ rest)"
    then have fd: "fed cdc sync (s_sums st) e (cur_ix st) rd (out @ rest)" using a(2) by (simp add: in_step_def nb)
    show "\<exists>rd'. ReadBlock cdc rd = (Some (block_hdr 0 ?t (length c), \<lparr>b_cur = 0, b_buf = raw\<rparr>), rd') \<and>
        in_step cdc sync st' rd' rest"
      by (rule ReadBlock_fed_exact [OF fd ok enc st(3) len c]) (use a in \<open>auto simp: in_step_def\<close>)
  qed
qed

end
