(* ===== verification/MetaRoundTrip.thy ===== *)
theory MetaRoundTrip
  imports AcoreRead Channel "HOL-Library.Multiset"
begin

text \<open>
  From the metadata writers to \<^verbatim>\<open>ReadMeta\<close>: each block and each file the capturing side
  writes is a transfer of the channel, and the reader's checks accept it.
\<close>

section \<open>Fields\<close>

lemma take_fields_concat:
  "map length fs = ns \<Longrightarrow> block_rest b = concat fs @ r \<Longrightarrow>
     \<exists>b'. take_fields ns b = (Some fs, b') \<and> block_rest b' = r"
proof (induction fs arbitrary: ns b)
  case Nil
  then show ?case by simp
next
  case (Cons f fs)
  let ?b = "b\<lparr>b_cur := b_cur b + length f\<rparr>"
  have rest: "block_rest b = f @ (concat fs @ r)" using Cons.prems(2) by simp
  have "block_rest ?b = drop (length f) (block_rest b)"
    by (simp add: block_rest_def add.commute)
  then have "block_rest ?b = concat fs @ r" by (simp add: rest)
  from Cons.IH [OF refl this] obtain b' where "take_fields (map length fs) ?b = (Some fs, b')" "block_rest b' = r" by auto
  then show ?case using Cons.prems(1) Block_Read_prefix [OF rest] by auto
qed

section \<open>Writing a block\<close>

lemma wr_False [simp]: "wr cdc items (False, st) = (False, st)"
  by (induction items) auto

lemma wr_append: "wr cdc (xs @ ys) s = wr cdc ys (wr cdc xs s)"
  by (induction xs arbitrary: s) (auto split: prod.splits sum.splits)

lemma Write_fits:
  assumes w: "writer st" and s: "length s \<le> BLOCK_SIZE - length (pending st)"
    and r: "Write cdc (Some s) st = (Inr n, st')"
  shows "writer st' \<and> pending st' = pending st @ s \<and> appended cdc st [] st' \<and> s_type st' = s_type st"
proof -
  from w obtain f e where fe: "s_file st = Some f" "s_enc st = Some e" by (auto simp: writer_def)
  show ?thesis
  proof (cases "s = []")
    case True
    then show ?thesis using r fe w appended_refl by (auto simp: Write_def)
  next
    case False
    have "length s \<le> Block_Available (CurrentBlock st)"
      using s by (simp add: Block_Available_def pending_def)
    then have "block_put s st = (Inr n, st')"
      using r fe False by (simp add: Write_def split: if_splits)
    from block_put_fits [OF w s this] show ?thesis by simp
  qed
qed

lemma wr_fits:
  "wr cdc items (True, st) = (True, st') \<Longrightarrow> writer st \<Longrightarrow>
   length (pending st) + length (concat items) \<le> BLOCK_SIZE \<Longrightarrow>
   writer st' \<and> pending st' = pending st @ concat items \<and> appended cdc st [] st' \<and> s_type st' = s_type st"
proof (induction items arbitrary: st)
  case Nil
  then show ?case using appended_refl by auto
next
  case (Cons x items)
  from Cons.prems(1) obtain n st1 where s: "Write cdc (Some x) st = (Inr n, st1)" "wr cdc items (True, st1) = (True, st')"
    by (auto split: prod.splits sum.splits)
  have "length x \<le> BLOCK_SIZE - length (pending st)" using Cons.prems(3) by simp
  note W = Write_fits [OF Cons.prems(2) this s(1)]
  have "length (pending st1) + length (concat items) \<le> BLOCK_SIZE" using W Cons.prems(3) by simp
  from Cons.IH [OF s(2) _ this] W show ?case
    using appended_trans [of cdc st "[]" st1 "[]" st'] by auto
qed

lemma appended_Nil:
  assumes "appended cdc st [] st1" "grows st1 st'"
  shows "grows st st'" "new_bytes st st' = new_bytes st1 st'"
    "in_step cdc sync st1 rd inp = in_step cdc sync st rd inp"
  using assms by (auto simp: appended_def grows_def new_bytes_def in_step_def)

lemma appended_Nil_transfers:
  assumes "appended cdc st [] st1" "transfers cdc sync st1 st' op r"
  shows "transfers cdc sync st st' op r"
proof -
  have g: "grows st1 st'" using assms(2) by (simp add: transfers_def)
  show ?thesis using assms(2) appended_Nil [OF assms(1) g] by (auto simp: transfers_def)
qed

lemma idle_set_type: "idle st \<Longrightarrow> SetBlock cdc t st = (Inr n, st0) \<Longrightarrow>
    writer st0 \<and> pending st0 = [] \<and> s_type st0 = t \<and> appended cdc st [] st0"
  using SetBlock_Inr [of st cdc t n st0] appended_refl [of st cdc]
  by (auto simp: idle_def sealed_def split: if_splits)

lemma send_block:
  assumes ok: "codec_ok cdc sync" and st: "idle st" "SetBlock cdc t st = (Inr m, st0)"
    and wr: "wr cdc items (True, st0) = (True, st1)" and fl: "Flush cdc st1 = (Inr n, st')"
    and len: "concat items \<noteq> []" "length (concat items) \<le> BLOCK_SIZE"
  shows "\<exists>k. transfers cdc sync st st' (ReadBlock cdc)
    (Some (block_hdr 0 (word_of_int t) k, \<lparr>b_cur = 0, b_buf = concat items\<rparr>))"
proof -
  note S = idle_set_type [OF st]
  have W: "writer st1" "pending st1 = concat items" "appended cdc st0 [] st1" "s_type st1 = t"
    using wr_fits [OF wr] S len by auto
  have a: "appended cdc st [] st1" using appended_trans [of cdc st "[]" st0 "[]" st1] S W(3) by simp
  from block_transfer [OF ok W(1,2) len(1) fl] W(4) appended_Nil_transfers [OF a] show ?thesis by metis
qed

section \<open>The process block\<close>

definition valid_core :: "core \<Rightarrow> bool" where
  "valid_core c \<longleftrightarrow>
     0 < c_pid c \<and> c_pid c \<le> 2147483647 \<and> -2147483648 \<le> c_core_pid c \<and> c_core_pid c \<le> 2147483647 \<and>
     c_arch c < ARCH_MAX \<and> c_version c = ACORE_VERSION \<and>
     (c_crash_sig c = 0 \<or> is_core_dump_signal (c_crash_sig c))"

text \<open>What \<^verbatim>\<open>gettimeofday\<close> and \<^verbatim>\<open>uname\<close> fill in has the size of the C structures.\<close>

definition sized_env :: "capture_env \<Rightarrow> bool" where
  "sized_env env \<longleftrightarrow>
     (case ce_time env of None \<Rightarrow> True | Some (tv, tz) \<Rightarrow> length tv = 16 \<and> length tz = 8) \<and>
     (case ce_uname env of None \<Rightarrow> True | Some u \<Rightarrow> length u = 512)"

definition process_items :: "core \<Rightarrow> bytes \<Rightarrow> bytes \<Rightarrow> bytes \<Rightarrow> bytes list" where
  "process_items c tv tz u =
     [put32 (word_of_int (c_pid c)), put32 (word_of_int (c_core_pid c)),
      put32 (word_of_nat (length (pd_thrd_pid (c_process c)))), tv, tz, u,
      put32 (pd_uid (c_process c)), put32 (pd_gid (c_process c)), put32 (word_of_int (c_crash_sig c))]"

lemma write_process_block_Inr:
  assumes "write_process_block cdc env c st = (Inr x, st')"
  obtains m st0 tv tz u st1 n where "ce_time env = Some (tv, tz)" "ce_uname env = Some u"
    "SetBlock cdc 1 st = (Inr m, st0)" "wr cdc (process_items c tv tz u) (True, st0) = (True, st1)"
    "Flush cdc st1 = (Inr n, st')"
proof -
  let ?a = "[put32 (word_of_int (c_pid c)), put32 (word_of_int (c_core_pid c)),
      put32 (word_of_nat (length (pd_thrd_pid (c_process c))))]"
  obtain m st0 where s: "SetBlock cdc 1 st = (Inr m, st0)"
    using assms by (auto simp: write_process_block_def simp del: wr.simps split: prod.splits sum.splits)
  obtain tv tz where t: "ce_time env = Some (tv, tz)"
    using assms s by (auto simp: write_process_block_def Let_def simp del: wr.simps split: prod.splits sum.splits option.splits)
  obtain u where u: "ce_uname env = Some u"
    using assms s t by (auto simp: write_process_block_def Let_def simp del: wr.simps split: prod.splits sum.splits option.splits)
  let ?c = "[u, put32 (pd_uid (c_process c)), put32 (pd_gid (c_process c)), put32 (word_of_int (c_crash_sig c))]"
  obtain ok st1 where w: "wr cdc ?c (wr cdc [tv, tz] (wr cdc ?a (True, st0))) = (ok, st1)" by fastforce
  have "ok \<and> (\<exists>n. Flush cdc st1 = (Inr n, st'))"
    using assms s t u w
    by (auto simp: write_process_block_def Let_def simp del: wr.simps split: prod.splits sum.splits if_splits)
  then obtain n where n: "ok" "Flush cdc st1 = (Inr n, st')" by blast
  have "process_items c tv tz u = ?a @ [tv, tz] @ ?c" by (simp add: process_items_def)
  then have "wr cdc (process_items c tv tz u) (True, st0) = (True, st1)"
    using w n(1) by (simp only: wr_append)
  from that [OF t u s this n(2)] show ?thesis .
qed

lemma sint_of_int32: "- 2147483648 \<le> i \<Longrightarrow> i \<le> 2147483647 \<Longrightarrow> sint (word_of_int i :: u32) = i"
  by (simp add: signed_take_bit_int_eq_self sint_sbintrunc')

lemma core_dump_range: "is_core_dump_signal i \<Longrightarrow> 0 < i \<and> i \<le> 2147483647"
  by (auto simp: is_core_dump_signal_def)

lemma read_process_block_put:
  assumes v: "valid_core c" and t: "length tv = 16" "length tz = 8" "length u = 512"
    and n: "length (pd_thrd_pid (c_process c)) \<le> 131072" and c0: "c_version c0 = ACORE_VERSION"
    and b: "block_rest b = concat (process_items c tv tz u)"
  shows "\<exists>b'. read_process_block c0 b =
    (Inr (c0\<lparr>c_pid := c_pid c, c_core_pid := c_core_pid c, c_crash_sig := c_crash_sig c,
             c_process := (c_process c0)\<lparr>pd_uid := pd_uid (c_process c), pd_gid := pd_gid (c_process c),
                                        pd_credentials_valid := True\<rparr>\<rparr>,
          int (length (pd_thrd_pid (c_process c)))), b')"
proof -
  have "map length (process_items c tv tz u) = process_fields (c_version c0)"
    using t c0 by (simp add: process_items_def process_fields_def)
  from take_fields_concat [OF this, of b "[]"] b obtain b' where
    tf: "take_fields (process_fields (c_version c0)) b = (Some (process_items c tv tz u), b')" "block_rest b' = []"
    by auto
  have sz: "Block_Size b' = 0" using tf(2) by (simp add: Block_Size_rest)
  have pid: "sint (word_of_int (c_pid c) :: u32) = c_pid c" "sint (word_of_int (c_core_pid c) :: u32) = c_core_pid c"
    using v by (auto intro!: sint_of_int32 simp: valid_core_def)
  have num: "sint (word_of_nat (length (pd_thrd_pid (c_process c))) :: u32) = int (length (pd_thrd_pid (c_process c)))"
    using sint_of_int32 [of "int (length (pd_thrd_pid (c_process c)))"] n by simp
  have sig: "sint (word_of_int (c_crash_sig c) :: u32) = c_crash_sig c"
    using v core_dump_range [of "c_crash_sig c"] by (intro sint_of_int32) (auto simp: valid_core_def)
  have sig0: "(word_of_int (c_crash_sig c) :: u32) \<noteq> 0 \<longrightarrow> is_core_dump_signal (c_crash_sig c)"
    using v by (auto simp: valid_core_def)
  have "0 < c_pid c" using v by (simp add: valid_core_def)
  then show ?thesis
    using tf(1) sz pid num sig sig0 c0
    by (auto simp: read_process_block_def Let_def process_items_def c32.dec_enc)
qed

section \<open>The files of the process\<close>

definition allocates :: "('e, 'd) lz4_codec \<Rightarrow> bool" where
  "allocates cdc \<longleftrightarrow> (\<forall>n. n \<le> MAX_PROC_FILE_SIZE \<longrightarrow> cd_malloc cdc n)"

lemma put_file_transfer:
  assumes "codec_ok cdc sync" "allocates cdc" "idle st" "wf_ProcFile pf" "PutFile cdc (Some pf) st = (Inr n, st')"
  shows "transfers cdc sync st st' (GetFile cdc) (Inr pf)"
proof (rule file_transfer [OF assms(1,3-5)])
  show "cd_malloc cdc (ProcFile_Size pf)"
    using PutFile_idle [OF assms(3-5)] assms(2) by (simp add: allocates_def)
qed

lemma read_checked_ok:
  assumes "read_checked env pid source t = Inr pf"
  shows "wf_ProcFile pf" "file_identity pid t pf"
proof -
  obtain qf where q: "ReadPid (ce_open env) (int BUFFER_SIZE) (if t = PROC_TYPE_STAT then pid else source) t = Inr (qf, False)"
    "pf = qf\<lparr>f_pid := word_of_int pid\<rparr>"
    using assms by (auto simp: read_checked_def split: sum.splits prod.splits if_splits)
  from ReadPid_wf [OF q(1)] q(2) show "wf_ProcFile pf" "file_identity pid t pf"
    by (simp_all add: wf_ProcFile_def file_identity_def)
qed

lemma read_maps_ok:
  assumes "read_maps env pid source = Inr (pf, rs)"
  shows "wf_ProcFile pf" "file_identity pid PROC_TYPE_MAPS pf" "ProcMaps_Parse (Some pf) = Inr rs" "rs \<noteq> []"
proof -
  obtain qf where q: "ReadPid (ce_open env) (int BUFFER_SIZE) source PROC_TYPE_MAPS = Inr (qf, False)"
    "pf = qf\<lparr>f_pid := word_of_int pid\<rparr>" "ProcMaps_Parse (Some qf) = Inr rs" "rs \<noteq> []"
    using assms by (auto simp: read_maps_def split: sum.splits prod.splits if_splits)
  from ReadPid_wf [OF q(1)] q(2) show "wf_ProcFile pf" "file_identity pid PROC_TYPE_MAPS pf"
    by (simp_all add: wf_ProcFile_def file_identity_def)
  have "wf_ProcFile qf" "length (f_data qf) \<le> INT_MAX" using ReadPid_wf [OF q(1)] by simp_all
  moreover from this have "wf_ProcFile pf" "length (f_data pf) \<le> INT_MAX" using q(2) by (simp_all add: wf_ProcFile_def)
  ultimately have "ProcMaps_Parse (Some pf) = ProcMaps_Parse (Some qf)"
    using q(2) by (simp add: ProcMaps_Parse_def file_lines_text)
  then show "ProcMaps_Parse (Some pf) = Inr rs" "rs \<noteq> []" using q by simp_all
qed

lemma get_files_Suc_transfer:
  assumes "transfers cdc sync st st1 (GetFile cdc) (Inr pf)" "transfers cdc sync st1 st' (get_files cdc n) fs"
  shows "transfers cdc sync st st' (get_files cdc (Suc n)) (Some pf # fs)"
proof (rule transfers_bind [where h = "\<lambda>fs. Some pf # fs", OF assms])
  fix rd rd1 assume "GetFile cdc rd = (Inr pf, rd1)"
  then show "get_files cdc (Suc n) rd = (case get_files cdc n rd1 of (x, rd2) \<Rightarrow> (Some pf # x, rd2))"
    by (simp add: Let_def split: prod.splits)
qed

lemma get_files_append:
  "get_files cdc (m + n) st =
     (case get_files cdc m st of (xs, st1) \<Rightarrow> case get_files cdc n st1 of (ys, st2) \<Rightarrow> (xs @ ys, st2))"
  by (induction m arbitrary: st) (auto simp: Let_def split: prod.splits)

lemma get_files_append_transfer:
  assumes "transfers cdc sync st st1 (get_files cdc m) xs" "transfers cdc sync st1 st' (get_files cdc n) ys"
  shows "transfers cdc sync st st' (get_files cdc (m + n)) (xs @ ys)"
  by (rule transfers_bind [where h = "\<lambda>ys. xs @ ys", OF assms]) (auto simp: get_files_append split: prod.splits)

lemma put_checked_transfer:
  assumes ok: "codec_ok cdc sync" "allocates cdc"
  shows "put_checked cdc env pid source ts st = (Inr (), st') \<Longrightarrow> idle st \<Longrightarrow>
    \<exists>fs. map (read_checked env pid source) ts = map Inr fs \<and>
      transfers cdc sync st st' (get_files cdc (length ts)) (map Some fs)"
proof (induction ts arbitrary: st)
  case Nil
  then show ?case using transfers_idle_refl [of st cdc sync "[]"] by simp
next
  case (Cons t ts)
  from Cons.prems(1) obtain pf n st1 where p: "read_checked env pid source t = Inr pf"
    "PutFile cdc (Some pf) st = (Inr n, st1)" "put_checked cdc env pid source ts st1 = (Inr (), st')"
    by (auto split: sum.splits prod.splits)
  note T = put_file_transfer [OF ok Cons.prems(2) read_checked_ok(1) [OF p(1)] p(2)]
  from Cons.IH [OF p(3) transfers_idle [OF T]] obtain fs where
    fs: "map (read_checked env pid source) ts = map Inr fs"
      "transfers cdc sync st1 st' (get_files cdc (length ts)) (map Some fs)" by auto
  have "transfers cdc sync st st' (get_files cdc (length (t # ts))) (map Some (pf # fs))"
    using get_files_Suc_transfer [OF T fs(2)] by simp
  then show ?case using p(1) fs(1) by (intro exI [of _ "pf # fs"]) (simp del: get_files.simps)
qed

section \<open>A thread\<close>

text \<open>The ptrace requests fill in whole register sets.\<close>

definition sized_thread :: "nat \<Rightarrow> thread_env \<Rightarrow> bool" where
  "sized_thread arch te \<longleftrightarrow>
     (\<forall>r. te_regs te = Some r \<longrightarrow> length r = regs_size arch) \<and>
     (\<forall>r. te_fpregs te = Some r \<longrightarrow> length r = fpregs_size arch) \<and>
     (\<forall>r. te_siginfo te = Some r \<longrightarrow> length r = SIGINFO_SIZE) \<and>
     (\<forall>r. te_xstate te = Some r \<longrightarrow> length r = X86_XSTATE_MAX_SIZE)"

definition stored_thread :: "capture_env \<Rightarrow> thread_env \<Rightarrow> core \<Rightarrow> int \<Rightarrow> err + ThreadData" where
  "stored_thread env te c tid =
     ebind (capture_thread env te c tid) (\<lambda>t. ebind (read_thread_stat env tid) (\<lambda>pf. Inr (t\<lparr>td_stat := Some pf\<rparr>)))"

definition thread_cost :: "nat \<Rightarrow> ThreadData \<Rightarrow> nat" where
  "thread_cost arch t =
     length (concat (thread_items arch t)) + (case td_stat t of None \<Rightarrow> 0 | Some pf \<Rightarrow> ProcFile_Size pf)"

lemma capture_thread_ok:
  assumes "capture_thread env te c tid = Inr t" "sized_thread (c_arch c) te" "c_arch c < ARCH_MAX"
  shows "td_pid t = word_of_int tid" "td_arch t = c_arch c" "td_prstatus_signal t = c_crash_sig c"
    "td_masks_valid t" "td_stat t = None" "td_d_stat t = None" "c_arch c \<noteq> ARCH_X64 \<Longrightarrow> td_xstate t = []"
    "length (td_regs t) = regs_size (c_arch c)" "length (td_fpregs t) = fpregs_size (c_arch c)"
    "length (td_siginfo t) = SIGINFO_SIZE" "c_arch c = ARCH_X64 \<Longrightarrow> length (td_xstate t) = X86_XSTATE_MAX_SIZE"
proof -
  obtain regs pend hold where
    r: "te_regs te = Some regs"
    and t: "t = \<lparr>td_pid = word_of_int tid, td_arch = c_arch c, td_regs = regs,
             td_fpregs = zeroed (fpregs_size (c_arch c)) (te_fpregs te),
             td_xstate = (if c_arch c = ARCH_X64 then zeroed X86_XSTATE_MAX_SIZE (te_xstate te) else []),
             td_siginfo = zeroed SIGINFO_SIZE (te_siginfo te), td_prstatus_signal = c_crash_sig c,
             td_fp_valid = (te_fpregs te \<noteq> None \<and> (c_arch c = ARCH_X64 \<longrightarrow> te_xstate te \<noteq> None)),
             td_sigpend = pend, td_sighold = hold, td_masks_valid = True, td_stat = None, td_d_stat = None\<rparr>"
    using assms(1) by (auto simp: capture_thread_def split: option.splits sum.splits prod.splits if_splits)
  have z: "\<And>n r. (\<forall>x. r = Some x \<longrightarrow> length x = n) \<Longrightarrow> length (zeroed n r) = n"
    by (auto simp: zeroed_def split: option.splits)
  show "td_pid t = word_of_int tid" "td_arch t = c_arch c" "td_prstatus_signal t = c_crash_sig c"
    "td_masks_valid t" "td_stat t = None" "td_d_stat t = None" "c_arch c \<noteq> ARCH_X64 \<Longrightarrow> td_xstate t = []"
    by (simp_all add: t)
  show "length (td_regs t) = regs_size (c_arch c)" using r assms(2) by (simp add: t sized_thread_def)
  show "length (td_fpregs t) = fpregs_size (c_arch c)" using assms(2) by (simp add: t sized_thread_def z)
  show "length (td_siginfo t) = SIGINFO_SIZE" using assms(2) by (simp add: t sized_thread_def z)
  show "c_arch c = ARCH_X64 \<Longrightarrow> length (td_xstate t) = X86_XSTATE_MAX_SIZE"
    using assms(2) by (simp add: t sized_thread_def z)
qed

lemma arch_cases: "(a :: nat) < ARCH_MAX \<Longrightarrow> a = ARCH_X64 \<or> a = ARCH_AARCH64"
  by arith

lemma thread_items_sizes:
  assumes "capture_thread env te c tid = Inr t" "sized_thread (c_arch c) te" "c_arch c < ARCH_MAX"
    and "c_version c0 \<ge> 3"
  shows "map length (thread_items (c_arch c) t) = thread_fields (c_arch c) (c_version c0)"
    "concat (thread_items (c_arch c) t) \<noteq> []" "length (concat (thread_items (c_arch c) t)) \<le> BLOCK_SIZE"
proof -
  note C = capture_thread_ok [OF assms(1-3)]
  show m: "map length (thread_items (c_arch c) t) = thread_fields (c_arch c) (c_version c0)"
    using C assms(4) by (simp add: thread_items_def thread_fields_def)
  have "length (concat (thread_items (c_arch c) t)) = sum_list (thread_fields (c_arch c) (c_version c0))"
    by (simp only: length_concat m)
  moreover have "0 < sum_list (thread_fields (c_arch c) (c_version c0)) \<and>
      sum_list (thread_fields (c_arch c) (c_version c0)) \<le> BLOCK_SIZE"
    using arch_cases [OF assms(3)] assms(4) by (auto simp: thread_fields_def regs_size_def fpregs_size_def)
  ultimately have "0 < length (concat (thread_items (c_arch c) t))"
    "length (concat (thread_items (c_arch c) t)) \<le> BLOCK_SIZE" by (simp_all only:)
  then show "concat (thread_items (c_arch c) t) \<noteq> []" "length (concat (thread_items (c_arch c) t)) \<le> BLOCK_SIZE"
    by (simp_all only: length_greater_0_conv not_False_eq_True)
qed

lemma thread_of_items:
  assumes "capture_thread env te c tid = Inr t" "sized_thread (c_arch c) te" "c_arch c < ARCH_MAX"
    and "c_version c0 \<ge> 3" "c_arch c0 = c_arch c"
  shows "thread_of_fields c0 (thread_items (c_arch c) t) = t\<lparr>td_prstatus_signal := 0\<rparr>"
    "\<not> fp_flag_bad c0 (thread_items (c_arch c) t)"
  using capture_thread_ok [OF assms(1-3)] assms(4,5) arch_cases [OF assms(3)]
  by (cases t; auto simp: thread_of_fields_def fp_flag_bad_def thread_items_def Let_def c32.dec_enc c64.dec_enc)+

text \<open>Which signals \<^verbatim>\<open>ReadMeta\<close> accepts for the thread with index \<open>i\<close>.\<close>

definition signal_fits :: "core \<Rightarrow> nat \<Rightarrow> ThreadData \<Rightarrow> bool" where
  "signal_fits c i t \<longleftrightarrow>
     0 \<le> si_signo t \<and> si_signo t < NSIG \<and> (c_crash_sig c \<noteq> 0 \<and> i = 0 \<longrightarrow> si_signo t = c_crash_sig c)"

lemma parse_thread_block_put:
  assumes t: "capture_thread env te c tid = Inr t" "sized_thread (c_arch c) te" "c_arch c < ARCH_MAX"
    and c0: "c_version c0 \<ge> 5" "c_arch c0 = c_arch c" "c_crash_sig c0 = c_crash_sig c"
    and sig: "signal_fits c0 i t" and b: "block_rest b = concat (thread_items (c_arch c) t)"
  shows "\<exists>b'. parse_thread_block c0 i b = (Inr t, b')"
proof -
  have v3: "c_version c0 \<ge> 3" using c0 by simp
  from take_fields_concat [OF thread_items_sizes(1) [OF t v3], of b "[]"] b obtain b' where
    tf: "take_fields (thread_fields (c_arch c0) (c_version c0)) b = (Some (thread_items (c_arch c) t), b')"
      "Block_Size b' = 0" by (auto simp: c0(2) Block_Size_rest)
  have si: "si_signo (t\<lparr>td_prstatus_signal := 0\<rparr>) = si_signo t" by (simp add: si_signo_def)
  have "thread_signal c0 i (t\<lparr>td_prstatus_signal := 0\<rparr>) = Inr (c_crash_sig c0)"
    using sig c0(1) by (auto simp: thread_signal_def signal_fits_def si)
  moreover have "t\<lparr>td_prstatus_signal := c_crash_sig c0\<rparr> = t"
    using capture_thread_ok(3) [OF t] c0(3) by (cases t) simp
  ultimately show ?thesis
    using tf thread_of_items [OF t v3 c0(2)] by (auto simp: parse_thread_block_def Let_def)
qed

lemma read_thread_stat_ok:
  assumes "read_thread_stat env tid = Inr pf"
  shows "wf_ProcFile pf" "f_type pf = proc_code PROC_TYPE_STAT" "f_pid pf = word_of_int tid"
proof -
  have "ReadPid (ce_open env) (int BUFFER_SIZE) tid PROC_TYPE_STAT = Inr (pf, False)"
    using assms by (auto simp: read_thread_stat_def split: sum.splits prod.splits if_splits)
  from ReadPid_wf [OF this] show "wf_ProcFile pf" "f_type pf = proc_code PROC_TYPE_STAT" "f_pid pf = word_of_int tid"
    by simp_all
qed

lemma WriteThreadMeta_Inr:
  assumes "WriteThreadMeta cdc env te c tid st = (Inr x, st')"
  obtains t m st0 st1 n st2 pf k where "capture_thread env te c tid = Inr t" "SetBlock cdc 2 st = (Inr m, st0)"
    "wr cdc (thread_items (c_arch c) t) (True, st0) = (True, st1)" "Flush cdc st1 = (Inr n, st2)"
    "read_thread_stat env tid = Inr pf" "PutFile cdc (Some pf) st2 = (Inr k, st')"
    "stored_thread env te c tid = Inr (t\<lparr>td_stat := Some pf\<rparr>)"
proof -
  obtain t where t: "capture_thread env te c tid = Inr t"
    using assms by (auto simp: WriteThreadMeta_def split: sum.splits)
  obtain m st0 where s: "SetBlock cdc 2 st = (Inr m, st0)"
    using assms t by (auto simp: WriteThreadMeta_def split: sum.splits prod.splits)
  obtain ok st1 where w: "wr cdc (thread_items (c_arch c) t) (True, st0) = (ok, st1)" by fastforce
  have ok: "ok" using assms t s w by (auto simp: WriteThreadMeta_def split: if_splits)
  obtain n st2 where f: "Flush cdc st1 = (Inr n, st2)"
    using assms t s w ok by (auto simp: WriteThreadMeta_def split: sum.splits prod.splits)
  obtain pf where p: "read_thread_stat env tid = Inr pf"
    using assms t s w ok f by (auto simp: WriteThreadMeta_def split: sum.splits)
  obtain k where k: "PutFile cdc (Some pf) st2 = (Inr k, st')"
    using assms t s w ok f p by (auto simp: WriteThreadMeta_def split: sum.splits prod.splits)
  show ?thesis
    using that [OF t s _ f p k] w ok t p by (simp add: stored_thread_def)
qed

text \<open>One thread: what \<^verbatim>\<open>WriteThreadMeta\<close> wrote, the loop body of \<^verbatim>\<open>ReadMeta\<close> reads.\<close>

lemma thread_transfer:
  assumes ok: "codec_ok cdc sync" "allocates cdc" and st: "idle st"
    and w: "WriteThreadMeta cdc env te c tid st = (Inr x, st')"
    and te: "sized_thread (c_arch c) te" "c_arch c < ARCH_MAX"
    and c0: "c_version c0 \<ge> 5" "c_arch c0 = c_arch c" "c_crash_sig c0 = c_crash_sig c"
    and tid: "(word_of_int tid :: u32) \<noteq> 0" "word_of_int tid \<notin> ids"
    and sig: "\<And>t. stored_thread env te c tid = Inr t \<Longrightarrow> signal_fits c0 i t \<and> meta + thread_cost (c_arch c) t \<le> THREAD_META_MAX"
  shows "\<exists>t. stored_thread env te c tid = Inr t \<and> td_pid t = word_of_int tid \<and>
    transfers cdc sync st st' (read_thread cdc c0 i ids meta) (Inr (t, meta + thread_cost (c_arch c) t))"
proof -
  obtain t m st0 st1 n st2 pf k where W: "capture_thread env te c tid = Inr t" "SetBlock cdc 2 st = (Inr m, st0)"
    "wr cdc (thread_items (c_arch c) t) (True, st0) = (True, st1)" "Flush cdc st1 = (Inr n, st2)"
    "read_thread_stat env tid = Inr pf" "PutFile cdc (Some pf) st2 = (Inr k, st')"
    "stored_thread env te c tid = Inr (t\<lparr>td_stat := Some pf\<rparr>)"
    by (rule WriteThreadMeta_Inr [OF w])
  let ?t = "t\<lparr>td_stat := Some pf\<rparr>" and ?raw = "concat (thread_items (c_arch c) t)"
  have v3: "c_version c0 \<ge> 3" using c0 by simp
  note I = thread_items_sizes [OF W(1) te v3]
  obtain q where B: "transfers cdc sync st st2 (ReadBlock cdc) (Some (block_hdr 0 2 q, \<lparr>b_cur = 0, b_buf = ?raw\<rparr>))"
    using send_block [OF ok(1) st W(2-4) I(2,3)] by auto
  note P = read_thread_stat_ok [OF W(5)]
  have F: "transfers cdc sync st2 st' (GetFile cdc) (Inr pf)"
    by (rule put_file_transfer [OF ok transfers_idle [OF B] P(1) W(6)])
  have pid: "td_pid t = word_of_int tid" "td_stat t = None" using capture_thread_ok [OF W(1) te] by simp_all
  have items: "thread_items (c_arch c) ?t = thread_items (c_arch c) t" by (simp add: thread_items_def)
  have cost: "thread_cost (c_arch c) ?t = length ?raw + ProcFile_Size pf" by (simp add: thread_cost_def items)
  have sg: "signal_fits c0 i t" "meta + length ?raw + ProcFile_Size pf \<le> THREAD_META_MAX"
    using sig [OF W(7)] cost by (simp_all add: signal_fits_def si_signo_def)
  obtain b' where pb: "parse_thread_block c0 i \<lparr>b_cur = 0, b_buf = ?raw\<rparr> = (Inr t, b')"
    using parse_thread_block_put [OF W(1) te c0 sg(1), of "\<lparr>b_cur = 0, b_buf = ?raw\<rparr>"]
    by (auto simp: block_rest_def)
  have "transfers cdc sync st st' (read_thread cdc c0 i ids meta) (Inr (?t, meta + thread_cost (c_arch c) ?t))"
  proof (rule transfersI)
    show "idle st'" by (rule transfers_idle [OF F])
    have g: "grows st st2" "grows st2 st'" using B F by (simp_all add: transfers_def)
    show "grows st st'" by (rule grows_trans [OF g])
    fix rd rest assume "in_step cdc sync st rd (new_bytes st st' @ rest)"
    then have "in_step cdc sync st rd (new_bytes st st2 @ (new_bytes st2 st' @ rest))"
      by (simp add: new_bytes_trans [OF g])
    with B obtain rd1 where 1: "ReadBlock cdc rd = (Some (block_hdr 0 2 q, \<lparr>b_cur = 0, b_buf = ?raw\<rparr>), rd1)"
      "in_step cdc sync st2 rd1 (new_bytes st2 st' @ rest)" by (rule transfersD)
    have "in_step cdc sync st2 (set_block b' rd1) (new_bytes st2 st' @ rest)" using 1(2) by simp
    with F obtain rd2 where 2: "GetFile cdc (set_block b' rd1) = (Inr pf, rd2)" "in_step cdc sync st' rd2 rest"
      by (rule transfersD)
    have "read_thread cdc c0 i ids meta rd = (Inr (?t, meta + thread_cost (c_arch c) ?t), rd2)"
      using 1(1) 2(1) pb sg(2) pid P tid cost
      by (simp add: read_thread_def block_hdr_def Block_Length_def)
    then show "\<exists>rd'. read_thread cdc c0 i ids meta rd = (Inr (?t, meta + thread_cost (c_arch c) ?t), rd') \<and>
        in_step cdc sync st' rd' rest" using 2(2) by simp
  qed
  then show ?thesis using W(7) pid by auto
qed

section \<open>All threads\<close>

definition stored_cost :: "capture_env \<Rightarrow> (int \<Rightarrow> thread_env) \<Rightarrow> core \<Rightarrow> int \<Rightarrow> nat" where
  "stored_cost env te c tid =
     (case stored_thread env (te tid) c tid of Inl _ \<Rightarrow> 0 | Inr t \<Rightarrow> thread_cost (c_arch c) t)"

definition signals_fit :: "capture_env \<Rightarrow> (int \<Rightarrow> thread_env) \<Rightarrow> core \<Rightarrow> nat \<Rightarrow> int list \<Rightarrow> bool" where
  "signals_fit env te c i tids \<longleftrightarrow>
     (\<forall>j < length tids. case stored_thread env (te (tids ! j)) c (tids ! j) of
        Inl _ \<Rightarrow> True | Inr t \<Rightarrow> signal_fits c (i + j) t)"

lemma signals_fit_Cons:
  "signals_fit env te c i (tid # tids) \<longleftrightarrow>
     (case stored_thread env (te tid) c tid of Inl _ \<Rightarrow> True | Inr t \<Rightarrow> signal_fits c i t) \<and>
     signals_fit env te c (Suc i) tids"
  by (auto simp: signals_fit_def less_Suc_eq_0_disj nth_Cons split: nat.splits sum.splits)

lemma signal_fits_cong: "c_crash_sig c0 = c_crash_sig c \<Longrightarrow> signal_fits c0 i t = signal_fits c i t"
  by (simp add: signal_fits_def)

lemma threads_transfer:
  assumes ok: "codec_ok cdc sync" "allocates cdc" and arch: "c_arch c < ARCH_MAX"
    and c0: "c_version c0 \<ge> 5" "c_arch c0 = c_arch c" "c_crash_sig c0 = c_crash_sig c"
  shows "WriteThreads cdc env te c tids st = (Inr x, st') \<Longrightarrow> idle st \<Longrightarrow>
    (\<And>tid. tid \<in> set tids \<Longrightarrow> sized_thread (c_arch c) (te tid)) \<Longrightarrow> signals_fit env te c i tids \<Longrightarrow>
    distinct (map (word_of_int :: int \<Rightarrow> u32) tids) \<Longrightarrow> (0 :: u32) \<notin> word_of_int ` set tids \<Longrightarrow>
    word_of_int ` set tids \<inter> td_pid ` set ts = {} \<Longrightarrow>
    meta + sum_list (map (stored_cost env te c) tids) \<le> THREAD_META_MAX \<Longrightarrow>
    \<exists>us. map (\<lambda>tid. stored_thread env (te tid) c tid) tids = map Inr us \<and>
      transfers cdc sync st st' (read_threads cdc c0 (length tids) i meta ts) (Inr (ts @ us))"
proof (induction tids arbitrary: st i meta ts)
  case Nil
  then show ?case using transfers_idle_refl [of st cdc sync "Inr ts"] by simp
next
  case (Cons tid tids)
  obtain y st1 where w: "WriteThreadMeta cdc env (te tid) c tid st = (Inr y, st1)"
    "WriteThreads cdc env te c tids st1 = (Inr x, st')"
    using Cons.prems(1) by (auto split: prod.splits sum.splits)
  have sz: "sized_thread (c_arch c) (te tid)" using Cons.prems(3) by simp
  have nz: "(word_of_int tid :: u32) \<noteq> 0" "word_of_int tid \<notin> td_pid ` set ts" using Cons.prems(6,7) by auto
  have fit: "signal_fits c0 i t \<and> meta + thread_cost (c_arch c) t \<le> THREAD_META_MAX"
    if "stored_thread env (te tid) c tid = Inr t" for t
    using that Cons.prems(4,8) signal_fits_cong [OF c0(3)] by (simp add: signals_fit_Cons stored_cost_def)
  from thread_transfer [OF ok Cons.prems(2) w(1) sz arch c0 nz, of i meta] fit obtain t where
    t: "stored_thread env (te tid) c tid = Inr t" "td_pid t = word_of_int tid"
      "transfers cdc sync st st1 (read_thread cdc c0 i (td_pid ` set ts) meta) (Inr (t, meta + thread_cost (c_arch c) t))"
    by blast
  let ?m = "meta + thread_cost (c_arch c) t"
  have p1: "\<And>tid. tid \<in> set tids \<Longrightarrow> sized_thread (c_arch c) (te tid)" using Cons.prems(3) by simp
  have p2: "signals_fit env te c (Suc i) tids" using Cons.prems(4) by (simp add: signals_fit_Cons)
  have p3: "distinct (map (word_of_int :: int \<Rightarrow> u32) tids)" "(0 :: u32) \<notin> word_of_int ` set tids" using Cons.prems(5,6) by auto
  have "word_of_int tid \<notin> (word_of_int ` set tids :: u32 set)" using Cons.prems(5) by simp
  then have p4: "word_of_int ` set tids \<inter> td_pid ` set (ts @ [t]) = {}" using Cons.prems(7) t(2) by auto
  have p5: "?m + sum_list (map (stored_cost env te c) tids) \<le> THREAD_META_MAX"
    using Cons.prems(8) stored_cost_def [of env te c tid] t(1) by simp
  from Cons.IH [OF w(2) transfers_idle [OF t(3)] p1 p2 p3 p4 p5] obtain us where
    us: "map (\<lambda>tid. stored_thread env (te tid) c tid) tids = map Inr us"
      "transfers cdc sync st1 st' (read_threads cdc c0 (length tids) (Suc i) ?m (ts @ [t])) (Inr ((ts @ [t]) @ us))"
    by blast
  have "transfers cdc sync st st' (read_threads cdc c0 (length (tid # tids)) i meta ts) (id (Inr ((ts @ [t]) @ us)))"
    by (rule transfers_bind [where h = id, OF t(3) us(2)]) (auto split: prod.splits)
  then show ?case using t(1) us(1) by (intro exI [of _ "t # us"]) (simp del: read_threads.simps)
qed

section \<open>ReadMeta\<close>

definition source_of :: "int \<Rightarrow> core \<Rightarrow> int" where
  "source_of source c = (if source = 0 then c_pid c else source)"

text \<open>The files of the process are the ones \<^verbatim>\<open>/proc\<close> gave the writer.\<close>

definition stored_files :: "capture_env \<Rightarrow> core \<Rightarrow> int \<Rightarrow> ProcessData \<Rightarrow> bool" where
  "stored_files env c source pd \<longleftrightarrow>
     (let rc = (\<lambda>t. read_checked env (c_pid c) (source_of source c) t) in
      (\<exists>f. pd_cmdline pd = Some f \<and> rc PROC_TYPE_CMDLINE = Inr f) \<and>
      (\<exists>f. pd_auxv pd = Some f \<and> rc PROC_TYPE_AUXV = Inr f) \<and>
      (\<exists>f. pd_maps pd = Some f \<and> map_sum id fst (read_maps env (c_pid c) (source_of source c)) = Inr f) \<and>
      (\<exists>f. pd_environ pd = Some f \<and> rc PROC_TYPE_ENVIRON = Inr f) \<and>
      (\<exists>f. pd_io pd = Some f \<and> rc PROC_TYPE_IO = Inr f) \<and>
      (\<exists>f. pd_limits pd = Some f \<and> rc PROC_TYPE_LIMITS = Inr f) \<and>
      (\<exists>f. pd_stat pd = Some f \<and> rc PROC_TYPE_STAT = Inr f))"

lemma WriteProcessMeta_Inr:
  assumes "WriteProcessMeta cdc env source c st = (Inr rs, c', st')"
  obtains ids st1 st2 pf k st3 where
    "read_credentials env (source_of source c) = Inr ids"
    "c' = c\<lparr>c_process := (c_process c)\<lparr>pd_uid := ps_uid ids, pd_gid := ps_gid ids, pd_credentials_valid := True\<rparr>\<rparr>"
    "write_process_block cdc env c' st = (Inr (), st1)"
    "put_checked cdc env (c_pid c) (source_of source c) [PROC_TYPE_CMDLINE, PROC_TYPE_AUXV] st1 = (Inr (), st2)"
    "read_maps env (c_pid c) (source_of source c) = Inr (pf, rs)" "PutFile cdc (Some pf) st2 = (Inr k, st3)"
    "put_checked cdc env (c_pid c) (source_of source c)
       [PROC_TYPE_ENVIRON, PROC_TYPE_IO, PROC_TYPE_LIMITS, PROC_TYPE_STAT] st3 = (Inr (), st')"
    "pd_thrd_pid (c_process c) \<noteq> []" "distinct (pd_thrd_pid (c_process c))" "\<forall>tid \<in> set (pd_thrd_pid (c_process c)). 0 < tid"
proof -
  let ?s = "source_of source c"
  have s: "(if source = 0 then c_pid c else source) = ?s" by (simp add: source_of_def)
  note W = assms [unfolded WriteProcessMeta_def Let_def s]
  have T: "pd_thrd_pid (c_process c) \<noteq> []" "distinct (pd_thrd_pid (c_process c))" "\<forall>tid \<in> set (pd_thrd_pid (c_process c)). 0 < tid"
    using W by (auto split: if_splits)
  let ?c = "\<lambda>ids. c\<lparr>c_process := (c_process c)\<lparr>pd_uid := ps_uid ids, pd_gid := ps_gid ids, pd_credentials_valid := True\<rparr>\<rparr>"
  obtain ids where a1: "read_credentials env ?s = Inr ids"
    using W by (auto split: if_splits sum.splits)
  have W1: "(case write_process_block cdc env (?c ids) st of
      (Inl e, st1) \<Rightarrow> (Inl e, ?c ids, st1)
    | (Inr _, st1) \<Rightarrow>
        (case put_checked cdc env (c_pid c) ?s [PROC_TYPE_CMDLINE, PROC_TYPE_AUXV] st1 of
           (Inl e, st2) \<Rightarrow> (Inl e, ?c ids, st2)
         | (Inr _, st2) \<Rightarrow>
             (case read_maps env (c_pid c) ?s of
                Inl e \<Rightarrow> (Inl e, ?c ids, st2)
              | Inr (pf, rs) \<Rightarrow>
                  (case PutFile cdc (Some pf) st2 of
                     (Inl e, st3) \<Rightarrow> (Inl e, ?c ids, st3)
                   | (Inr _, st3) \<Rightarrow>
                       (case put_checked cdc env (c_pid c) ?s
                               [PROC_TYPE_ENVIRON, PROC_TYPE_IO, PROC_TYPE_LIMITS, PROC_TYPE_STAT] st3 of
                          (Inl e, st4) \<Rightarrow> (Inl e, ?c ids, st4)
                        | (Inr _, st4) \<Rightarrow> (Inr rs, ?c ids, st4)))))) = (Inr rs, c', st')"
    using W T a1 by (simp del: put_checked.simps split: if_splits)
  obtain st1 where a2: "write_process_block cdc env (?c ids) st = (Inr (), st1)"
    using W1 by (auto simp del: put_checked.simps split: prod.splits sum.splits)
  obtain st2 where a3: "put_checked cdc env (c_pid c) ?s [PROC_TYPE_CMDLINE, PROC_TYPE_AUXV] st1 = (Inr (), st2)"
    using W1 a2 by (auto simp del: put_checked.simps split: prod.splits sum.splits)
  obtain pf rs' where a4: "read_maps env (c_pid c) ?s = Inr (pf, rs')"
    using W1 a2 a3 by (auto simp del: put_checked.simps split: prod.splits sum.splits)
  obtain k st3 where a5: "PutFile cdc (Some pf) st2 = (Inr k, st3)"
    using W1 a2 a3 a4 by (auto simp del: put_checked.simps split: prod.splits sum.splits)
  have "put_checked cdc env (c_pid c) ?s [PROC_TYPE_ENVIRON, PROC_TYPE_IO, PROC_TYPE_LIMITS, PROC_TYPE_STAT] st3
      = (Inr (), st') \<and> rs' = rs \<and> c' = ?c ids"
    using W1 a2 a3 a4 a5 by (auto simp del: put_checked.simps split: prod.splits sum.splits)
  with that [OF a1 _ _ a3 _ a5 _ T] a2 a4 show ?thesis by metis
qed

text \<open>The files, in the order \<^verbatim>\<open>ReadMeta\<close> calls \<^verbatim>\<open>GetFile\<close>.\<close>

lemma files_transfer:
  assumes ok: "codec_ok cdc sync" "allocates cdc" and st: "idle st1"
    and a: "put_checked cdc env pid s [PROC_TYPE_CMDLINE, PROC_TYPE_AUXV] st1 = (Inr (), st2)"
    and m: "read_maps env pid s = Inr (pf, rs)" "PutFile cdc (Some pf) st2 = (Inr k, st3)"
    and b: "put_checked cdc env pid s [PROC_TYPE_ENVIRON, PROC_TYPE_IO, PROC_TYPE_LIMITS, PROC_TYPE_STAT] st3 = (Inr (), st')"
  shows "\<exists>f0 f1 f3 f4 f5 f6.
    read_checked env pid s PROC_TYPE_CMDLINE = Inr f0 \<and> read_checked env pid s PROC_TYPE_AUXV = Inr f1 \<and>
    read_checked env pid s PROC_TYPE_ENVIRON = Inr f3 \<and> read_checked env pid s PROC_TYPE_IO = Inr f4 \<and>
    read_checked env pid s PROC_TYPE_LIMITS = Inr f5 \<and> read_checked env pid s PROC_TYPE_STAT = Inr f6 \<and>
    transfers cdc sync st1 st' (get_files cdc 7) (map Some [f0, f1, pf, f3, f4, f5, f6])"
proof -
  from put_checked_transfer [OF ok a st] obtain f0 f1 where 1:
    "read_checked env pid s PROC_TYPE_CMDLINE = Inr f0" "read_checked env pid s PROC_TYPE_AUXV = Inr f1"
    "transfers cdc sync st1 st2 (get_files cdc 2) (map Some [f0, f1])"
    by (auto simp: map_eq_Cons_conv numeral_2_eq_2 simp del: get_files.simps)
  have M: "transfers cdc sync st2 st3 (GetFile cdc) (Inr pf)"
    by (rule put_file_transfer [OF ok transfers_idle [OF 1(3)] read_maps_ok(1) [OF m(1)] m(2)])
  from put_checked_transfer [OF ok b transfers_idle [OF M]] obtain f3 f4 f5 f6 where 2:
    "read_checked env pid s PROC_TYPE_ENVIRON = Inr f3" "read_checked env pid s PROC_TYPE_IO = Inr f4"
    "read_checked env pid s PROC_TYPE_LIMITS = Inr f5" "read_checked env pid s PROC_TYPE_STAT = Inr f6"
    "transfers cdc sync st3 st' (get_files cdc 4) (map Some [f3, f4, f5, f6])"
    by (auto simp: map_eq_Cons_conv numeral_eq_Suc simp del: get_files.simps)
  have "transfers cdc sync st2 st' (get_files cdc (Suc 4)) (Some pf # map Some [f3, f4, f5, f6])"
    by (rule get_files_Suc_transfer [OF M 2(5)])
  from get_files_append_transfer [OF 1(3) this] 1 2 show ?thesis by (auto simp del: get_files.simps)
qed

lemma word_of_tid_inj:
  "0 < (a :: int) \<Longrightarrow> a \<le> 2147483647 \<Longrightarrow> 0 < b \<Longrightarrow> b \<le> 2147483647 \<Longrightarrow> (word_of_int a :: u32) = word_of_int b \<Longrightarrow> a = b"
proof -
  assume r: "0 < a" "a \<le> 2147483647" "0 < b" "b \<le> 2147483647" and e: "(word_of_int a :: u32) = word_of_int b"
  have a: "sint (word_of_int a :: u32) = a" by (rule sint_of_int32) (use r(1,2) in linarith)+
  have b: "sint (word_of_int b :: u32) = b" by (rule sint_of_int32) (use r(3,4) in linarith)+
  show "a = b" using arg_cong [OF e, of sint] unfolding a b .
qed

lemma distinct_tids:
  assumes "distinct tids" "\<forall>tid \<in> set tids. 0 < tid \<and> tid \<le> 2147483647"
  shows "distinct (map (word_of_int :: int \<Rightarrow> u32) tids)" "(0 :: u32) \<notin> word_of_int ` set tids"
proof -
  have "inj_on (word_of_int :: int \<Rightarrow> u32) (set tids)"
  proof (rule inj_onI)
    fix a b assume "a \<in> set tids" "b \<in> set tids" "(word_of_int a :: u32) = word_of_int b"
    then show "a = b" using assms(2) word_of_tid_inj [of a b] by blast
  qed
  then show "distinct (map (word_of_int :: int \<Rightarrow> u32) tids)" using assms(1) by (simp add: distinct_map)
  show "(0 :: u32) \<notin> word_of_int ` set tids"
  proof
    assume "(0 :: u32) \<in> word_of_int ` set tids"
    then obtain a where a: "a \<in> set tids" "(word_of_int a :: u32) = 0" by auto
    have "sint (word_of_int a :: u32) = a" by (rule sint_of_int32) (use assms(2) a(1) in auto)
    then show False using a assms(2) by auto
  qed
qed

lemma ReadMeta_transfer:
  assumes ok: "codec_ok cdc sync" "allocates cdc" and st: "idle st" and v: "valid_core c" "sized_env env"
    and w: "WriteProcessMeta cdc env source c st = (Inr rs, c', st1)"
    and tids: "WriteThreads cdc env te c' order st1 = (Inr u, st')"
    and order: "mset order = mset (pd_thrd_pid (c_process c))" "length order \<le> 131072"
      "\<forall>tid \<in> set order. tid \<le> 2147483647 \<and> sized_thread (c_arch c) (te tid)"
    and fit: "signals_fit env te c' 0 order" "sum_list (map (stored_cost env te c') order) \<le> THREAD_META_MAX"
    and c0: "c_version c0 = ACORE_VERSION" "c_arch c0 = c_arch c" "pd_threads (c_process c0) = []"
  shows "\<exists>cr. transfers cdc sync st st' (ReadMeta cdc c0) (Inr cr) \<and>
    c_pid cr = c_pid c \<and> c_core_pid cr = c_core_pid c \<and> c_crash_sig cr = c_crash_sig c \<and> c_arch cr = c_arch c \<and>
    map Inr (pd_threads (c_process cr)) = map (\<lambda>tid. stored_thread env (te tid) c' tid) order \<and>
    stored_files env c source (c_process cr) \<and> pd_credentials_valid (c_process cr) \<and>
    read_credentials env (source_of source c) =
      Inr \<lparr>ps_uid = pd_uid (c_process cr), ps_gid = pd_gid (c_process cr)\<rparr>"
proof -
  let ?s = "source_of source c"
  obtain ids st2 st3 pf k st4 where W: "read_credentials env ?s = Inr ids"
    "c' = c\<lparr>c_process := (c_process c)\<lparr>pd_uid := ps_uid ids, pd_gid := ps_gid ids, pd_credentials_valid := True\<rparr>\<rparr>"
    "write_process_block cdc env c' st = (Inr (), st2)"
    "put_checked cdc env (c_pid c) ?s [PROC_TYPE_CMDLINE, PROC_TYPE_AUXV] st2 = (Inr (), st3)"
    "read_maps env (c_pid c) ?s = Inr (pf, rs)" "PutFile cdc (Some pf) st3 = (Inr k, st4)"
    "put_checked cdc env (c_pid c) ?s [PROC_TYPE_ENVIRON, PROC_TYPE_IO, PROC_TYPE_LIMITS, PROC_TYPE_STAT] st4 = (Inr (), st1)"
    "pd_thrd_pid (c_process c) \<noteq> []" "distinct (pd_thrd_pid (c_process c))" "\<forall>tid \<in> set (pd_thrd_pid (c_process c)). 0 < tid"
    by (rule WriteProcessMeta_Inr [OF w])
  have same: "c_pid c' = c_pid c" "c_core_pid c' = c_core_pid c" "c_crash_sig c' = c_crash_sig c" "c_arch c' = c_arch c"
    "pd_thrd_pid (c_process c') = pd_thrd_pid (c_process c)" "pd_uid (c_process c') = ps_uid ids" "pd_gid (c_process c') = ps_gid ids"
    by (simp_all add: W(2))
  have v': "valid_core c'" using v(1) by (simp add: valid_core_def W(2))
  obtain m st0 tv tz un sb n where B: "ce_time env = Some (tv, tz)" "ce_uname env = Some un"
    "SetBlock cdc 1 st = (Inr m, st0)" "wr cdc (process_items c' tv tz un) (True, st0) = (True, sb)"
    "Flush cdc sb = (Inr n, st2)"
    by (rule write_process_block_Inr [OF W(3)])
  have sz: "length tv = 16" "length tz = 8" "length un = 512" using v(2) B by (simp_all add: sized_env_def)
  let ?raw = "concat (process_items c' tv tz un)"
  have raw: "?raw \<noteq> []" "length ?raw \<le> BLOCK_SIZE" using sz by (auto simp: process_items_def)
  obtain q where P: "transfers cdc sync st st2 (ReadBlock cdc) (Some (block_hdr 0 1 q, \<lparr>b_cur = 0, b_buf = ?raw\<rparr>))"
    using send_block [OF ok(1) st B(3-5) raw] by auto
  have len: "length (pd_thrd_pid (c_process c')) = length order" using order(1) same(5) by (metis mset_eq_length)
  define c1 where "c1 = c0\<lparr>c_pid := c_pid c, c_core_pid := c_core_pid c, c_crash_sig := c_crash_sig c,
      c_process := (c_process c0)\<lparr>pd_uid := ps_uid ids, pd_gid := ps_gid ids, pd_credentials_valid := True\<rparr>\<rparr>"
  obtain b' where pb: "read_process_block c0 \<lparr>b_cur = 0, b_buf = ?raw\<rparr> = (Inr (c1, int (length order)), b')"
    using read_process_block_put [OF v' sz _ c0(1), of "\<lparr>b_cur = 0, b_buf = ?raw\<rparr>"] len order(2) same
    by (auto simp: block_rest_def c1_def)
  from files_transfer [OF ok transfers_idle [OF P] W(4-7)] obtain f0 f1 f3 f4 f5 f6 where F:
    "read_checked env (c_pid c) ?s PROC_TYPE_CMDLINE = Inr f0" "read_checked env (c_pid c) ?s PROC_TYPE_AUXV = Inr f1"
    "read_checked env (c_pid c) ?s PROC_TYPE_ENVIRON = Inr f3" "read_checked env (c_pid c) ?s PROC_TYPE_IO = Inr f4"
    "read_checked env (c_pid c) ?s PROC_TYPE_LIMITS = Inr f5" "read_checked env (c_pid c) ?s PROC_TYPE_STAT = Inr f6"
    "transfers cdc sync st2 st1 (get_files cdc 7) (map Some [f0, f1, pf, f3, f4, f5, f6])" by blast
  define c2 where "c2 = c1\<lparr>c_process := (c_process c1)\<lparr>pd_cmdline := Some f0, pd_auxv := Some f1, pd_maps := Some pf,
      pd_environ := Some f3, pd_io := Some f4, pd_limits := Some f5, pd_stat := Some f6\<rparr>\<rparr>"
  have ver: "c_version c1 = 6" "c_pid c1 = c_pid c" using c0 by (simp_all add: c1_def)
  have ident: "list_all2 (file_identity (c_pid c1)) (process_file_types (c_version c1)) [f0, f1, pf, f3, f4, f5, f6]"
    using read_checked_ok(2) [OF F(1)] read_checked_ok(2) [OF F(2)] read_maps_ok(2) [OF W(5)] read_checked_ok(2) [OF F(3)]
      read_checked_ok(2) [OF F(4)] read_checked_ok(2) [OF F(5)] read_checked_ok(2) [OF F(6)]
    by (simp add: process_file_types_def ver)
  have pf: "read_process_files cdc c1 rd = (Inr c2, rd')"
    if "get_files cdc 7 rd = (map Some [f0, f1, pf, f3, f4, f5, f6], rd')" for rd rd'
  proof -
    have n7: "length (process_file_types 6) = 7" by (simp add: process_file_types_def)
    show ?thesis
      using ident that ver by (simp add: read_process_files_def n7 Let_def c2_def)
  qed
  have "set order = set (pd_thrd_pid (c_process c))" using order(1) by (rule mset_eq_setD)
  then have tid: "\<forall>tid \<in> set order. 0 < tid \<and> tid \<le> 2147483647" "distinct order"
    using order(3) W(10) mset_eq_imp_distinct_iff [OF order(1)] W(9) by auto
  have arch: "c_arch c' < ARCH_MAX" using v' by (simp add: valid_core_def)
  have c2: "c_version c2 \<ge> 5" "c_arch c2 = c_arch c'" "c_crash_sig c2 = c_crash_sig c'"
    using c0 by (simp_all add: c2_def c1_def same)
  have i2: "idle st1" by (rule transfers_idle [OF F(7)])
  have "\<exists>us. map (\<lambda>tid. stored_thread env (te tid) c' tid) order = map Inr us \<and>
      transfers cdc sync st1 st' (read_threads cdc c2 (length order) 0 0 []) (Inr ([] @ us))"
    by (rule threads_transfer [OF ok arch c2 tids i2 _ fit(1) distinct_tids [OF tid(2,1)]])
      (use order(3) fit(2) same in auto)
  then obtain us where T: "map (\<lambda>tid. stored_thread env (te tid) c' tid) order = map Inr us"
    "transfers cdc sync st1 st' (read_threads cdc c2 (length order) 0 0 []) (Inr us)" by auto
  have ne: "order \<noteq> []" using order(1) W(8) by auto
  define cr where "cr = c2\<lparr>c_process := (c_process c2)\<lparr>pd_threads := us\<rparr>\<rparr>"
  have "transfers cdc sync st st' (ReadMeta cdc c0) (Inr cr)"
  proof (rule transfersI)
    show "idle st'" by (rule transfers_idle [OF T(2)])
    have g: "grows st st2" "grows st2 st1" "grows st1 st'" using P F(7) T(2) by (simp_all add: transfers_def)
    have g2: "grows st2 st'" using grows_trans [OF g(2,3)] .
    show "grows st st'" using grows_trans [OF g(1) g2] .
    fix rd rest assume "in_step cdc sync st rd (new_bytes st st' @ rest)"
    then have "in_step cdc sync st rd (new_bytes st st2 @ (new_bytes st2 st1 @ (new_bytes st1 st' @ rest)))"
      by (simp add: new_bytes_trans [OF g(1) g2] new_bytes_trans [OF g(2,3)])
    with P obtain rd1 where 1: "ReadBlock cdc rd = (Some (block_hdr 0 1 q, \<lparr>b_cur = 0, b_buf = ?raw\<rparr>), rd1)"
      "in_step cdc sync st2 rd1 (new_bytes st2 st1 @ (new_bytes st1 st' @ rest))" by (rule transfersD)
    have "in_step cdc sync st2 (set_block b' rd1) (new_bytes st2 st1 @ (new_bytes st1 st' @ rest))" using 1(2) by simp
    with F(7) obtain rd2 where 2: "get_files cdc 7 (set_block b' rd1) = (map Some [f0, f1, pf, f3, f4, f5, f6], rd2)"
      "in_step cdc sync st1 rd2 (new_bytes st1 st' @ rest)" by (rule transfersD)
    from T(2) 2(2) obtain rd3 where 3: "read_threads cdc c2 (length order) 0 0 [] rd2 = (Inr us, rd3)"
      "in_step cdc sync st' rd3 rest" by (rule transfersD)
    have v6: "c_version c2 = 6" using c0(1) by (simp add: c2_def c1_def)
    have thr: "pd_threads (c_process c2) = []" using c0(3) by (simp add: c2_def c1_def)
    have "ReadMeta cdc c0 rd = (Inr cr, rd3)"
      using 1(1) pb pf [OF 2(1)] 3(1) order(2) ne v6 c0 thr
      by (simp add: ReadMeta_def block_hdr_def cr_def)
    then show "\<exists>rd'. ReadMeta cdc c0 rd = (Inr cr, rd') \<and> in_step cdc sync st' rd' rest" using 3(2) by simp
  qed
  moreover have "stored_files env c source (c_process cr)"
    using F W(5) by (simp add: stored_files_def cr_def c2_def)
  ultimately show ?thesis
    using T(1) W(1) c0 by (intro exI [of _ cr]) (simp add: cr_def c2_def c1_def)
qed

end
