(* ===== verification/NotesFit.thy ===== *)
theory NotesFit
  imports NoteProps MetaRoundTrip
begin

text \<open>
  When the notes of a core file can be built: \<^verbatim>\<open>ParseAll\<close> succeeds on what a capture
  stored, and \<^verbatim>\<open>GenerateNotes\<close> fails on it for want of memory only.
\<close>

section \<open>Notes whose payloads fit\<close>

definition spec_size :: "note_spec \<Rightarrow> nat" where
  "spec_size sp = (\<Sum>(t, p) \<leftarrow> sp. 20 + length p + note_pad (length p))"

lemma spec_size_simps [simp]:
  "spec_size [] = 0" "spec_size ((t, p) # sp) = 20 + length p + note_pad (length p) + spec_size sp"
  "spec_size (sp @ sp') = spec_size sp + spec_size sp'"
  by (simp_all add: spec_size_def)

lemma made_size: "made nts sp \<Longrightarrow> length (concat (map nt_data nts)) = spec_size sp"
  unfolding made_def
  by (induction rule: list_all2_induct) (auto simp: note_ok_def length_note_bytes spec_size_def split: prod.splits)

lemma notes_size_fits: "rc + length (concat (map nt_data nts)) \<le> INT_MAX \<Longrightarrow>
    notes_size rc nts = Inr (rc + length (concat (map nt_data nts)))"
  by (induction nts arbitrary: rc) auto

lemma add_note_fits:
  assumes "\<forall>n. mem n" "length p \<le> UINT32_MAX"
  shows "\<exists>nts'. add_note (fill_with mem p (Note_new t)) r nts = (True, nts')"
proof -
  have "fill_with mem p (Note_new t) = Inr ((Note_new t)\<lparr>nt_data := note_bytes t p\<rparr>)"
    unfolding fill_with_Inr using assms by (simp add: Note_new_def)
  then show ?thesis by (simp add: add_note_def)
qed

definition thread_ready :: "ThreadData \<Rightarrow> bool" where
  "thread_ready t \<longleftrightarrow> td_d_stat t \<noteq> None \<and> (td_arch t = ARCH_X64 \<or> td_arch t = ARCH_AARCH64) \<and>
     length (td_regs t) \<le> 272 \<and> length (td_fpregs t) \<le> 528 \<and> length (td_xstate t) \<le> 2696 \<and> length (td_siginfo t) = 128"

lemma length_put_prstatus: "length (put_prstatus p) = 120 + length (pr_reg p)"
  by (rule cprstatus.enc_length [OF refl])

lemma thread_notes_fit:
  assumes mem: "\<forall>n. mem n" and t: "thread_ready t"
  shows "\<exists>nts'. thread_notes mem clk arch added t nts = (True, nts')"
proof -
  obtain s where s: "td_d_stat t = Some s" "td_arch t = ARCH_X64 \<or> td_arch t = ARCH_AARCH64"
    using t by (auto simp: thread_ready_def)
  have "length (put_prstatus (prstatus_of clk t s)) \<le> UINT32_MAX"
    using t by (simp add: length_put_prstatus prstatus_of_def Let_def thread_ready_def)
  from add_note_fits [OF mem this, of NT_PRSTATUS True nts] obtain n1 where
    n1: "add_note (fill_prstatus mem clk t (Note_new NT_PRSTATUS)) True nts = (True, n1)"
    using s by (auto simp: fill_prstatus_def)
  have "length (td_siginfo t) \<le> UINT32_MAX" using t by (simp add: thread_ready_def)
  from add_note_fits [OF mem this, of NT_SIGINFO True "register_notes mem arch t n1"] n1 show ?thesis
    by (auto simp: thread_notes_def fill_siginfo_def Let_def)
qed

lemma all_thread_notes_fit:
  assumes mem: "\<forall>n. mem n"
  shows "\<forall>t \<in> set ts. thread_ready t \<Longrightarrow> \<exists>nts'. all_thread_notes mem clk arch added ts nts = (True, nts')"
proof (induction ts arbitrary: added nts)
  case (Cons t ts)
  have "thread_ready t" using Cons.prems by simp
  from thread_notes_fit [OF mem this] obtain n where "thread_notes mem clk arch added t nts = (True, n)" by blast
  with Cons show ?case by simp
qed simp

lemma GenerateNotes_fits:
  assumes mem: "\<forall>n. mem n" and s: "process_stat pd pid = Some s" "pd_credentials_valid pd"
    and av: "pd_auxv pd = Some auxv" "f_size auxv \<noteq> 0" "length (pf_text auxv) \<le> UINT32_MAX"
    and maps: "pd_d_maps pd = Some rs" "pd_d_auxv pd = Some a" "file_payload (av_page_size a) (file_entries rs) = Inr files"
      "length files \<le> UINT32_MAX"
    and thr: "\<forall>t \<in> set (pd_threads pd). thread_ready t"
    and fits: "spec_size (core_spec mem clk arch pid sig pd s auxv files) \<le> INT_MAX"
  shows "\<exists>n nts. GenerateNotes mem clk arch pid sig pd = Inr (n, nts)"
proof -
  let ?p = "put_prpsinfo (prpsinfo_of pd s (sig \<noteq> 0))"
  have l: "length ?p \<le> UINT32_MAX" by (simp add: length_prpsinfo_of)
  obtain n1 where 1: "add_note (fill_with mem ?p (Note_new NT_PRPSINFO)) True [] = (True, n1)"
    using add_note_fits [OF mem l] by blast
  obtain n2 where 2: "add_note (fill_with mem (pf_text auxv) (Note_new NT_AUXV)) True n1 = (True, n2)"
    using add_note_fits [OF mem av(3)] by blast
  obtain n3 where 3: "add_note (fill_with mem files (Note_new NT_FILE)) True n2 = (True, n3)"
    using add_note_fits [OF mem maps(4)] by blast
  obtain n4 where 4: "all_thread_notes mem clk arch False (pd_threads pd) n3 = (True, n4)"
    using all_thread_notes_fit [OF mem thr] by blast
  have "made n3 [(NT_PRPSINFO, ?p), (NT_AUXV, pf_text auxv), (NT_FILE, files)]"
    using add_note_required [OF 3 add_note_required [OF 2 add_note_required [OF 1 made_Nil]]] by simp
  from all_thread_notes_ok [OF 4 this] have "made n4 (core_spec mem clk arch pid sig pd s auxv files)"
    by (simp add: core_spec_def)
  from made_size [OF this] fits notes_size_fits [of 0 n4]
  have "notes_size 0 n4 = Inr (length (concat (map nt_data n4)))" by simp
  with 1 2 3 4 s av maps show ?thesis
    by (simp add: GenerateNotes_def fill_prpsinfo_def fill_auxv_def fill_file_def Let_def ebind_def)
qed

section \<open>How large the notes get\<close>

lemma note_cost: "20 + n + note_pad n \<le> n + 23"
  using note_pad_less(1) [of n] by simp

lemma opt_note_size: "spec_size (opt_note mem t p) \<le> length p + 23"
  using note_cost [of "length p"] by (simp add: opt_note_def)

lemma thread_spec_size:
  assumes "thread_ready t"
  shows "spec_size (thread_spec mem clk arch first t) \<le> 3836 + (if first then 151 else 0)"
proof -
  let ?st = "put_prstatus (prstatus_of clk t (the (td_d_stat t)))"
  have st: "length ?st \<le> 392"
    using assms by (simp add: length_put_prstatus prstatus_of_def Let_def thread_ready_def)
  then have "spec_size [(NT_PRSTATUS, ?st)] \<le> 415" using note_cost [of "length ?st"] by simp
  moreover have "spec_size (opt_note mem NT_FPREGSET (td_fpregs t)) \<le> 551"
    using opt_note_size [of mem NT_FPREGSET "td_fpregs t"] assms by (simp add: thread_ready_def)
  moreover have "spec_size (opt_note mem NT_X86_XSTATE (td_xstate t)) \<le> 2719"
    using opt_note_size [of mem NT_X86_XSTATE "td_xstate t"] assms by (simp add: thread_ready_def)
  moreover have "spec_size [(NT_SIGINFO, td_siginfo t)] \<le> 151"
    using note_cost [of "length (td_siginfo t)"] assms by (simp add: thread_ready_def)
  ultimately show ?thesis by (simp add: thread_spec_def)
qed

lemma threads_spec_size:
  "\<forall>t \<in> set ts. thread_ready t \<Longrightarrow>
     spec_size (threads_spec mem clk arch first ts) \<le> 3836 * length ts + (if first then 151 else 0)"
proof (induction ts arbitrary: first)
  case (Cons t ts)
  then have "thread_ready t" by simp
  from thread_spec_size [OF this, of mem clk arch first] Cons.IH [of False] Cons.prems show ?case by simp
qed simp

lemma text_lines_length: "sum_list (map length (text_lines s)) \<le> length s"
proof (induction s rule: text_lines.induct)
  case (1 s)
  let ?line = "takeWhile (\<lambda>c. c \<noteq> NL) s" and ?rest = "dropWhile (\<lambda>c. c = NL) (drop (length (takeWhile (\<lambda>c. c \<noteq> NL) s)) s)"
  show ?case
  proof (cases "?line = []")
    case True
    then show ?thesis by (simp add: text_lines.simps)
  next
    case False
    have "length ?rest \<le> length s - length ?line" by (metis length_dropWhile_le length_drop)
    moreover have "length ?line \<le> length s" by (rule length_takeWhile_le)
    ultimately show ?thesis
      using 1 [OF refl False] False by (simp add: text_lines.simps [of s] Let_def)
  qed
qed

lemma map_name_length: "length (map_name line k) \<le> length line"
proof -
  have "length (dropWhile (\<lambda>c. c = CHR '' '' \<or> c = TAB) (drop k line)) \<le> length (drop k line)" by (rule length_dropWhile_le)
  also have "\<dots> \<le> length line" by simp
  finally show ?thesis by (simp only: map_name_def split: if_split) simp
qed

lemma maps_loop_length:
  "maps_loop lines prev acc = Inr rs \<Longrightarrow>
     sum_list (map (\<lambda>r. length (r_name r)) rs) \<le> sum_list (map (\<lambda>r. length (r_name r)) acc) + sum_list (map length lines)"
proof (induction lines arbitrary: prev acc)
  case (Cons line lines)
  from Cons.prems obtain r where
    r: "parse_maps_line line prev = Inr r" "maps_loop lines (end_addr r) (acc @ [r]) = Inr rs"
    by (auto split: sum.splits if_splits)
  have "length (r_name r) \<le> length line"
    using r(1) map_name_length [of line] by (auto simp: parse_maps_line_def Let_def split: if_splits option.splits)
  with Cons.IH [OF r(2)] show ?case by simp
qed simp

lemma maps_names_length:
  assumes "ProcMaps_Parse (Some pf) = Inr rs" "wf_ProcFile pf" "length (f_data pf) \<le> INT_MAX"
  shows "sum_list (map (\<lambda>r. length (r_name r)) rs) \<le> length (f_data pf)"
proof -
  have "maps_loop (text_lines (f_data pf)) 0 [] = Inr rs"
    using assms by (simp add: ProcMaps_Parse_def file_lines_text)
  from maps_loop_length [OF this] text_lines_length [of "f_data pf"] show ?thesis by simp
qed

lemma file_addresses_total:
  "\<forall>r \<in> set rs. r_offset r mod page = 0 \<Longrightarrow> \<exists>bs. file_addresses page rs = Inr bs \<and> length bs = 24 * length rs"
  by (induction rs) (auto simp: ebind_def)

lemma filter_names_length: "sum_list (map (\<lambda>r. length (r_name r)) (filter P rs)) \<le> sum_list (map (\<lambda>r. length (r_name r)) rs)"
  by (induction rs) auto

lemma file_payload_total:
  assumes "page \<noteq> 0" "page AND (page - 1) = 0" "\<forall>r \<in> set rs. r_offset r mod page = 0"
  obtains p where "file_payload page (file_entries rs) = Inr p"
    "length p \<le> 16 + 25 * length rs + sum_list (map (\<lambda>r. length (r_name r)) rs)"
proof -
  let ?es = "file_entries rs"
  have "\<forall>r \<in> set ?es. r_offset r mod page = 0" using assms(3) by (simp add: file_entries_def)
  from file_addresses_total [OF this] obtain bs where bs: "file_addresses page ?es = Inr bs" "length bs = 24 * length ?es" by blast
  have "length (concat (map (\<lambda>r. r_name r @ [NUL]) ?es)) = sum_list (map (\<lambda>r. length (r_name r)) ?es) + length ?es"
    by (induction ?es arbitrary: rs) (auto simp: length_concat comp_def sum_list_Suc)
  moreover have "length ?es \<le> length rs" by (simp add: file_entries_def)
  moreover have "sum_list (map (\<lambda>r. length (r_name r)) ?es) \<le> sum_list (map (\<lambda>r. length (r_name r)) rs)"
    unfolding file_entries_def by (rule filter_names_length)
  ultimately show ?thesis using bs assms(1,2) by (intro that) (auto simp: file_payload_def ebind_def)
qed

end
