(* ===== verification/AcoreLoads.thy ===== *)
theory AcoreLoads
  imports AcoreRead
begin

text \<open>
  The memory image of an acore file, \<^verbatim>\<open>src/core.cc\<close>: the layout derived from the maps
  (\<^verbatim>\<open>expected_load_phdrs\<close>), the capture (\<^verbatim>\<open>WriteLoads\<close>, \<^verbatim>\<open>WriteElfHeader\<close>,
  \<^verbatim>\<open>WriteTailMark\<close>) and the conversion (\<^verbatim>\<open>ReadLoads\<close>, \<^verbatim>\<open>ReadElfHeader\<close>, the
  \<^verbatim>\<open>WriteElfHeader\<close> of the core file, \<^verbatim>\<open>makeroom\<close>).
\<close>

section \<open>The layout of the LOAD segments\<close>

definition load_phdr :: "nat \<Rightarrow> MemRegion \<Rightarrow> Phdr" where
  "load_phdr total_bytes r =
     Phdr_zero\<lparr>p_type := PT_LOAD, p_align := 1, p_flags := perms r, p_vaddr := start_addr r,
               p_memsz := end_addr r - start_addr r,
               p_filesz := (if perms r \<noteq> 0 then end_addr r - start_addr r else 0),
               p_offset := word_of_nat total_bytes\<rparr>"

text \<open>The program headers and the number of bytes; \<open>total_bytes\<close> is the sum so far.\<close>

fun load_phdrs :: "nat \<Rightarrow> MemRegion list \<Rightarrow> err + Phdr list \<times> nat" where
  "load_phdrs total_bytes [] = Inr ([], total_bytes)"
| "load_phdrs total_bytes (r # rs) =
     (let ph = load_phdr total_bytes r in
      if unat (p_filesz ph) > SSIZE_MAX - total_bytes then Inl EFAIL
      else
        (case load_phdrs (total_bytes + unat (p_filesz ph)) rs of
           Inl e \<Rightarrow> Inl e
         | Inr (phs, n) \<Rightarrow> Inr (ph # phs, n)))"

definition expected_load_phdrs :: "MemRegion list \<Rightarrow> err + Phdr list \<times> nat" where
  "expected_load_phdrs maps = load_phdrs 0 maps"

section \<open>The memory of the process\<close>

text \<open>
  \<^verbatim>\<open>/proc/<pid>/mem\<close>: the bytes that can be read, and what the next calls of \<^verbatim>\<open>pread\<close> do.
  After the listed events a call returns the readable bytes from its address on, at most
  as many as were asked for, and fails when the first one is unreadable.
\<close>

datatype mem_event = MemIntr | MemFail | MemEof | MemShort nat

record mem_fd =
  mf_byte :: "u64 \<Rightarrow> char option"
  mf_events :: "mem_event list"

datatype mem_result = MEINTR | MError | MBytes bytes

definition readable_bytes :: "(u64 \<Rightarrow> char option) \<Rightarrow> u64 \<Rightarrow> nat \<Rightarrow> bytes" where
  "readable_bytes mem a n =
     map the (takeWhile (\<lambda>x. x \<noteq> None) (map (\<lambda>i. mem (a + word_of_nat i)) [0..<n]))"

definition read_mem :: "(u64 \<Rightarrow> char option) \<Rightarrow> u64 \<Rightarrow> nat \<Rightarrow> mem_result" where
  "read_mem mem a n =
     (let bs = readable_bytes mem a n in if bs = [] \<and> n \<noteq> 0 then MError else MBytes bs)"

definition pread :: "mem_fd \<Rightarrow> nat \<Rightarrow> u64 \<Rightarrow> mem_result \<times> mem_fd" where
  "pread fd n a =
     (case mf_events fd of
        [] \<Rightarrow> (read_mem (mf_byte fd) a n, fd)
      | MemIntr # es \<Rightarrow> (MEINTR, fd\<lparr>mf_events := es\<rparr>)
      | MemFail # es \<Rightarrow> (MError, fd\<lparr>mf_events := es\<rparr>)
      | MemEof # es \<Rightarrow> (MBytes [], fd\<lparr>mf_events := es\<rparr>)
      | MemShort k # es \<Rightarrow> (read_mem (mf_byte fd) a (min n (max 1 k)), fd\<lparr>mf_events := es\<rparr>))"

lemma read_mem_length: "read_mem mem a n = MBytes bs \<Longrightarrow> length bs \<le> n"
proof -
  assume "read_mem mem a n = MBytes bs"
  then have "bs = readable_bytes mem a n" by (simp add: read_mem_def Let_def split: if_splits)
  then show ?thesis
    using length_takeWhile_le [of "\<lambda>x. x \<noteq> None" "map (\<lambda>i. mem (a + word_of_nat i)) [0..<n]"]
    by (simp add: readable_bytes_def)
qed

lemma read_mem_not_intr [simp]: "read_mem mem a n \<noteq> MEINTR"
  by (simp add: read_mem_def Let_def)

lemma pread_events:
  "pread fd n a = (r, fd') \<Longrightarrow>
     length (mf_events fd') \<le> length (mf_events fd) \<and> mf_byte fd' = mf_byte fd \<and>
     (r = MEINTR \<longrightarrow> length (mf_events fd') < length (mf_events fd)) \<and>
     (\<forall>bs. r = MBytes bs \<longrightarrow> length bs \<le> n)"
  by (auto simp: pread_def dest!: read_mem_length split: list.splits mem_event.splits)

text \<open>
  The loop that fills the buffer: \<open>acc\<close> holds the \<^verbatim>\<open>got\<close> bytes read so far. The result is
  those bytes and \<^verbatim>\<open>saw_eof\<close>; the zero filling of the rest is in \<open>read_chunk\<close>.
\<close>

function pread_loop :: "mem_fd \<Rightarrow> u64 \<Rightarrow> nat \<Rightarrow> bytes \<Rightarrow> (bytes \<times> bool) \<times> mem_fd" where
  "pread_loop fd addr req acc =
     (if length acc \<ge> req then ((acc, False), fd)
      else
        case pread fd (req - length acc) (addr + word_of_nat (length acc)) of
          (MEINTR, fd') \<Rightarrow> pread_loop fd' addr req acc
        | (MError, fd') \<Rightarrow> ((acc, False), fd')
        | (MBytes bs, fd') \<Rightarrow>
            if bs = [] then ((acc, True), fd') else pread_loop fd' addr req (acc @ bs))"
  by pat_completeness auto
termination
proof (relation "measure (\<lambda>(fd, addr, req, acc). length (mf_events fd) + (req - length acc))", goal_cases)
  case (2 fd addr req acc x fd')
  then show ?case by (auto dest: pread_events [OF sym])
next
  case (3 fd addr req acc x fd' bs)
  then show ?case by (cases bs) (auto dest: pread_events [OF sym])
qed simp

declare pread_loop.simps [simp del]

section \<open>WriteLoads\<close>

text \<open>The chunk as it is written: what was read, zeros up to \<open>req\<close>.\<close>

definition zero_fill :: "nat \<Rightarrow> bytes \<Rightarrow> bytes" where
  "zero_fill req bs = bs @ replicate (req - length bs) NUL"

text \<open>One chunk as blocks of \<^verbatim>\<open>BLOCK_SIZE\<close>; the result is the sum of what \<^verbatim>\<open>WriteBlock\<close> returned.\<close>

function write_chunk ::
    "('e, 'd) lz4_codec \<Rightarrow> bytes \<Rightarrow> nat \<Rightarrow> ('e, 'd) stream \<Rightarrow> (err + nat) \<times> ('e, 'd) stream" where
  "write_chunk cdc bs sz st =
     (if bs = [] then (Inr sz, st)
      else
        case WriteBlock cdc (Some (take BLOCK_SIZE bs)) (int (block_code BLOCK_TYPE_LOADS)) st of
          (Inl e, st1) \<Rightarrow> (Inl e, st1)
        | (Inr n, st1) \<Rightarrow> write_chunk cdc (drop BLOCK_SIZE bs) (sz + n) st1)"
  by pat_completeness auto
termination by (relation "measure (\<lambda>(cdc, bs, sz, st). length bs)") auto

declare write_chunk.simps [simp del]

text \<open>
  The \<^verbatim>\<open>for\<close> loop over a region, in steps of \<^verbatim>\<open>BUFFER_SIZE\<close>. \<open>addr\<close> is a \<^verbatim>\<open>uint64_t\<close> and
  may wrap around, so the loop is not known to end: \<^verbatim>\<open>None\<close> is a loop without an end.
\<close>

partial_function (option) write_region ::
    "('e, 'd) lz4_codec \<Rightarrow> u64 \<Rightarrow> u64 \<Rightarrow> nat \<Rightarrow> nat \<Rightarrow> mem_fd \<Rightarrow> ('e, 'd) stream \<Rightarrow>
     ((err + nat \<times> nat) \<times> mem_fd \<times> ('e, 'd) stream) option" where
  "write_region cdc addr end_a sz mem_size fd st =
     (if \<not> addr < end_a then Some (Inr (sz, mem_size), fd, st)
      else
        (let req = min (unat (end_a - addr)) BUFFER_SIZE; ((got, eof), fd1) = pread_loop fd addr req [] in
         if eof then Some (Inl EFAIL, fd1, st)
         else
           (case write_chunk cdc (zero_fill req got) sz st of
              (Inl e, st1) \<Rightarrow> Some (Inl e, fd1, st1)
            | (Inr size1, st1) \<Rightarrow>
                write_region cdc (addr + 1048576) end_a size1 (mem_size + length got) fd1 st1)))"

declare write_region.simps [code]

text \<open>The \<^verbatim>\<open>for\<close> loop over the maps; the result is \<^verbatim>\<open>file_size\<close> and \<^verbatim>\<open>mem_size\<close>.\<close>

fun write_regions ::
    "('e, 'd) lz4_codec \<Rightarrow> MemRegion list \<Rightarrow> Phdr list \<Rightarrow> nat \<Rightarrow> nat \<Rightarrow> mem_fd \<Rightarrow> core \<Rightarrow> ('e, 'd) stream \<Rightarrow>
     ((err + nat \<times> nat) \<times> core \<times> ('e, 'd) stream) option" where
  "write_regions cdc [] phs file_size mem_size fd c st =
     Some (if phs = [] then Inr (file_size, mem_size) else Inl EFAIL, c, st)"
| "write_regions cdc (r # rs) [] file_size mem_size fd c st = Some (Inl EFAIL, c, st)"
| "write_regions cdc (r # rs) (ph # phs) file_size mem_size fd c st =
     (case write_region cdc (start_addr r) (start_addr r + p_filesz ph) 0 mem_size fd st of
        None \<Rightarrow> None
      | Some (Inl e, fd1, st1) \<Rightarrow> Some (Inl e, c, st1)
      | Some (Inr (sz, mem_size1), fd1, st1) \<Rightarrow>
          if sz \<noteq> unat (p_filesz ph) then Some (Inl EFAIL, c, st1)
          else
            write_regions cdc rs phs (file_size + sz) mem_size1 fd1 (c\<lparr>c_phdrs := c_phdrs c @ [ph]\<rparr>) st1)"

text \<open>\<open>open_mem\<close> is \<^verbatim>\<open>open("/proc/<pid>/mem", O_RDONLY)\<close>.\<close>

definition WriteLoads ::
    "('e, 'd) lz4_codec \<Rightarrow> (int \<Rightarrow> mem_fd option) \<Rightarrow> int \<Rightarrow> MemRegion list \<Rightarrow> core \<Rightarrow> ('e, 'd) stream \<Rightarrow>
     ((err + unit) \<times> core \<times> ('e, 'd) stream) option" where
  "WriteLoads cdc open_mem pid maps c st =
     (case expected_load_phdrs maps of
        Inl e \<Rightarrow> Some (Inl e, c, st)
      | Inr (phs, total_bytes) \<Rightarrow>
          if phs = [] then Some (Inl EFAIL, c, st)
          else
            (case open_mem pid of
               None \<Rightarrow> Some (Inl EFAIL, c, st)
             | Some fd \<Rightarrow>
                 (case SetBlock cdc (int (block_code BLOCK_TYPE_LOADS)) st of
                    (Inl e, st1) \<Rightarrow> Some (Inl e, c, st1)
                  | (Inr _, st1) \<Rightarrow>
                      (case write_regions cdc maps phs 0 0 fd c st1 of
                         None \<Rightarrow> None
                       | Some (Inl e, c1, st2) \<Rightarrow> Some (Inl e, c1, st2)
                       | Some (Inr (file_size, mem_size), c1, st2) \<Rightarrow>
                           if file_size \<noteq> total_bytes then Some (Inl EFAIL, c1, st2)
                           else if mem_size = 0 then Some (Inl EFAIL, c1, st2)
                           else Some (Inr (), c1, st2)))))"

section \<open>WriteElfHeader and WriteTailMark\<close>

definition platform_machine :: "nat \<Rightarrow> u16" where
  "platform_machine platform = (if platform = ARCH_AARCH64 then EM_AARCH64 else EM_X86_64)"

fun write_phdrs :: "('e, 'd) lz4_codec \<Rightarrow> Phdr list \<Rightarrow> ('e, 'd) stream \<Rightarrow> (err + unit) \<times> ('e, 'd) stream" where
  "write_phdrs cdc [] st = (Inr (), st)"
| "write_phdrs cdc (ph # phs) st =
     (case Write cdc (Some (put_phdr ph)) st of
        (Inl e, st1) \<Rightarrow> (Inl e, st1)
      | (Inr _, st1) \<Rightarrow> write_phdrs cdc phs st1)"

definition WriteElfHeader ::
    "('e, 'd) lz4_codec \<Rightarrow> nat \<Rightarrow> core \<Rightarrow> ('e, 'd) stream \<Rightarrow> (err + unit) \<times> ('e, 'd) stream" where
  "WriteElfHeader cdc platform c st =
     (if length (c_phdrs c) \<ge> 0xFFFF then (Inl EFAIL, st)
      else
        case SetBlock cdc (int (block_code BLOCK_TYPE_ELF)) st of
          (Inl e, st1) \<Rightarrow> (Inl e, st1)
        | (Inr _, st1) \<Rightarrow>
            (case Write cdc (Some (put_ehdr (Ehdr_new\<lparr>e_phnum := word_of_nat (length (c_phdrs c)),
                                                       e_machine := platform_machine platform\<rparr>))) st1 of
               (Inl e, st2) \<Rightarrow> (Inl e, st2)
             | (Inr _, st2) \<Rightarrow>
                 (case write_phdrs cdc (c_phdrs c) st2 of
                    (Inl e, st3) \<Rightarrow> (Inl e, st3)
                  | (Inr _, st3) \<Rightarrow>
                      (case Flush cdc st3 of
                         (Inl e, st4) \<Rightarrow> (Inl e, st4)
                       | (Inr _, st4) \<Rightarrow> (Inr (), st4)))))"

definition WriteTailMark :: "('e, 'd) lz4_codec \<Rightarrow> ('e, 'd) stream \<Rightarrow> (err + unit) \<times> ('e, 'd) stream" where
  "WriteTailMark cdc st =
     (case WriteRaw cdc (Some (put_hdr TailMark)) st of
        (Inl e, st1) \<Rightarrow> (Inl e, st1)
      | (Inr n, st1) \<Rightarrow> if n \<noteq> sizeof_BlockHeader then (Inl EFAIL, st1) else (Inr (), st1))"

section \<open>ReadElfHeader\<close>

definition machine_mismatch :: "core \<Rightarrow> Ehdr \<Rightarrow> bool" where
  "machine_mismatch c e \<longleftrightarrow>
     c_arch c = ARCH_X64 \<and> e_machine e \<noteq> EM_X86_64 \<or> c_arch c = ARCH_AARCH64 \<and> e_machine e \<noteq> EM_AARCH64"

definition bad_ehdr :: "Ehdr \<Rightarrow> bool" where
  "bad_ehdr e \<longleftrightarrow>
     take 7 (e_ident e) \<noteq> ELFMAG @ [ELFCLASS64, ELFDATA2LSB, EV_CURRENT] \<or>
     e_type e \<noteq> ET_CORE \<or> e_version e \<noteq> 1 \<or> e_phoff e \<noteq> of_nat sizeof_Ehdr \<or>
     e_ehsize e \<noteq> of_nat sizeof_Ehdr \<or> e_phentsize e \<noteq> of_nat sizeof_Phdr \<or>
     e_shoff e \<noteq> 0 \<or> e_shnum e \<noteq> 0"

text \<open>The program headers of one block, behind those already read.\<close>

function read_phdrs :: "nat \<Rightarrow> Phdr list \<Rightarrow> block \<Rightarrow> (err + unit) \<times> Phdr list \<times> block" where
  "read_phdrs max_phdrs phs b =
     (if Block_Size b = 0 then (Inr (), phs, b)
      else if length phs \<ge> max_phdrs then (Inl EFAIL, phs, b)
      else
        case Block_Read sizeof_Phdr b of
          (Inl e, b1) \<Rightarrow> (Inl e, phs, b1)
        | (Inr bs, b1) \<Rightarrow>
            if p_type (get_phdr bs) \<noteq> PT_LOAD then (Inl EFAIL, phs, b1)
            else read_phdrs max_phdrs (phs @ [get_phdr bs]) b1)"
  by pat_completeness auto
termination
  by (relation "measure (\<lambda>(m, phs, b). m - length phs)") auto

declare read_phdrs.simps [simp del]

lemma read_phdrs_grows: "read_phdrs m phs b = (r, phs', b') \<Longrightarrow> length phs \<le> length phs'"
proof (induction m phs b arbitrary: r phs' b' rule: read_phdrs.induct)
  case (1 m phs b)
  show ?case
  proof (cases "Block_Size b = 0 \<or> length phs \<ge> m")
    case True
    then show ?thesis using "1.prems" by (subst (asm) read_phdrs.simps) (auto split: if_splits)
  next
    case False
    obtain x b1 where rd: "Block_Read sizeof_Phdr b = (x, b1)" by fastforce
    show ?thesis
    proof (cases "\<exists>bs. x = Inr bs \<and> p_type (get_phdr bs) = PT_LOAD")
      case True
      then obtain bs where x: "x = Inr bs" "p_type (get_phdr bs) = PT_LOAD" by blast
      have "read_phdrs m (phs @ [get_phdr bs]) b1 = (r, phs', b')"
        using "1.prems" False rd x by (subst (asm) read_phdrs.simps) simp
      from "1.IH" [OF _ _ rd [symmetric] x(1) _ this] False x show ?thesis by simp
    next
      case no: False
      then show ?thesis using "1.prems" False rd
        by (subst (asm) read_phdrs.simps) (auto split: sum.splits if_splits)
    qed
  qed
qed

lemma read_phdrs_pushes:
  assumes "read_phdrs m phs b = (Inr u, phs', b')" "0 < Block_Size b"
  shows "length phs < m" "length phs < length phs'"
proof -
  obtain x b1 where rd: "Block_Read sizeof_Phdr b = (x, b1)" by fastforce
  with assms show "length phs < m" "length phs < length phs'"
    using read_phdrs_grows [of m _ b1 "Inr u" phs' b']
    by (subst (asm) read_phdrs.simps; fastforce simp: less_eq_Suc_le split: sum.splits if_splits)+
qed

lemma ReadBlock_nonempty: "ReadBlock cdc st = (Some (h, b), st') \<Longrightarrow> 0 < Block_Size b"
  by (auto simp: ReadBlock_def decode_block_def Let_def Block_Size_def empty_block_def
      split: option.splits prod.splits if_splits)

text \<open>The loop over the ELF blocks, from a block already read. Each block adds a header.\<close>

definition blocks_left :: "nat \<Rightarrow> Phdr list \<Rightarrow> block \<Rightarrow> nat" where
  "blocks_left m phs b = 2 * (m - length phs) + (if Block_Size b = 0 then 1 else 0)"

lemma blocks_left_decreases:
  assumes "read_phdrs m phs b = (Inr u, phs1, b1)" "0 < Block_Size b2"
  shows "blocks_left m phs1 b2 < blocks_left m phs b"
proof (cases "Block_Size b = 0")
  case True
  then have "phs1 = phs" using assms(1) by (subst (asm) read_phdrs.simps) simp
  then show ?thesis using True assms(2) by (simp add: blocks_left_def)
next
  case False
  then show ?thesis using read_phdrs_pushes [OF assms(1)] assms(2) by (simp add: blocks_left_def)
qed

function elf_blocks ::
    "('e, 'd) lz4_codec \<Rightarrow> nat \<Rightarrow> Phdr list \<Rightarrow> block \<Rightarrow> ('e, 'd) stream \<Rightarrow>
     (err + unit) \<times> Phdr list \<times> ('e, 'd) stream" where
  "elf_blocks cdc max_phdrs phs b st =
     (case read_phdrs max_phdrs phs b of
        (Inl e, phs1, b1) \<Rightarrow> (Inl e, phs1, set_block b1 st)
      | (Inr _, phs1, b1) \<Rightarrow>
          (case Peek sizeof_BlockHeader (set_block b1 st) of
             (Inl e, st1) \<Rightarrow> (Inl e, phs1, st1)
           | (Inr h, st1) \<Rightarrow>
               if length h \<noteq> sizeof_BlockHeader then (Inr (), phs1, st1)
               else if unat (hdr_type (get_hdr h)) \<noteq> block_code BLOCK_TYPE_ELF then (Inr (), phs1, st1)
               else
                 (case ReadBlock cdc st1 of
                    (None, st2) \<Rightarrow> (Inl EFAIL, phs1, st2)
                  | (Some (hdr, b2), st2) \<Rightarrow> elf_blocks cdc max_phdrs phs1 b2 st2)))"
  by pat_completeness auto
termination
proof (relation "measure (\<lambda>(cdc, m, phs, b, st). blocks_left m phs b)", goal_cases)
  case 2
  then show ?case by (auto dest!: ReadBlock_nonempty [OF sym] simp: blocks_left_decreases [OF sym])
qed simp

declare elf_blocks.simps [simp del]

definition ReadElfHeader ::
    "('e, 'd) lz4_codec \<Rightarrow> nat \<Rightarrow> core \<Rightarrow> ('e, 'd) stream \<Rightarrow> (err + unit) \<times> core \<times> ('e, 'd) stream" where
  "ReadElfHeader cdc max_phdrs c st =
     (case ReadBlock cdc st of
        (None, st1) \<Rightarrow> (Inl EFAIL, c, st1)
      | (Some (hdr, b), st1) \<Rightarrow>
          if unat (hdr_type hdr) \<noteq> block_code BLOCK_TYPE_ELF then (Inl EFAIL, c, st1)
          else if hdr_cont hdr \<noteq> 0 then (Inl EFAIL, c, st1)
          else
            (case Block_Read sizeof_Ehdr b of
               (Inl e, b1) \<Rightarrow> (Inl e, c, set_block b1 st1)
             | (Inr bs, b1) \<Rightarrow>
                 let e = get_ehdr bs; c1 = c\<lparr>c_ehdr := e\<rparr> in
                 if machine_mismatch c e then (Inl EFAIL, c1, set_block b1 st1)
                 else if bad_ehdr e then (Inl EFAIL, c1, set_block b1 st1)
                 else
                   let (r, phs, st2) = elf_blocks cdc max_phdrs (c_phdrs c) b1 st1
                   in (r, c1\<lparr>c_phdrs := phs\<rparr>, st2)))"

section \<open>ReadLoads\<close>

function ReadLoads_loop ::
    "('e, 'd) lz4_codec \<Rightarrow> nat \<Rightarrow> nat \<Rightarrow> FILE \<Rightarrow> ('e, 'd) stream \<Rightarrow> (err + nat) \<times> FILE \<times> ('e, 'd) stream" where
  "ReadLoads_loop cdc expected loads_size fout st =
     (case Peek sizeof_BlockHeader st of
        (Inl e, st1) \<Rightarrow> (Inl e, fout, st1)
      | (Inr h, st1) \<Rightarrow>
          if length h \<noteq> sizeof_BlockHeader then (Inr loads_size, fout, st1)
          else if unat (hdr_type (get_hdr h)) \<noteq> block_code BLOCK_TYPE_LOADS then (Inr loads_size, fout, st1)
          else
            (case ReadBlock cdc st1 of
               (None, st2) \<Rightarrow> (Inl EFAIL, fout, st2)
             | (Some (hdr, b), st2) \<Rightarrow>
                 if loads_size > expected \<or> Block_Size b > expected - loads_size then (Inl EFAIL, fout, st2)
                 else
                   let (n, fout1) = fwrite (block_rest b) fout in
                   if n \<noteq> Block_Size b then (Inl EFAIL, fout1, st2)
                   else if Block_Size b > SSIZE_MAX - loads_size then (Inl EFAIL, fout1, st2)
                   else ReadLoads_loop cdc expected (loads_size + Block_Size b) fout1 st2))"
  by pat_completeness auto
termination
  by (relation "measure (\<lambda>(cdc, expected, n, fout, st). expected - n)")
     (auto dest!: ReadBlock_nonempty [OF sym])

declare ReadLoads_loop.simps [simp del]

definition ReadLoads ::
    "('e, 'd) lz4_codec \<Rightarrow> nat \<Rightarrow> FILE \<Rightarrow> ('e, 'd) stream \<Rightarrow> (err + nat) \<times> FILE \<times> ('e, 'd) stream" where
  "ReadLoads cdc expected fout st = ReadLoads_loop cdc expected 0 fout st"

section \<open>The core file\<close>

abbreviation (input) PAGE_SIZE :: nat where "PAGE_SIZE \<equiv> 4096"

function makeroom :: "FILE \<Rightarrow> nat \<Rightarrow> (err + unit) \<times> FILE" where
  "makeroom fout n =
     (if n = 0 then (Inr (), fout)
      else
        let (k, fout1) = fwrite (replicate (min PAGE_SIZE n) NUL) fout in
        if k = 0 then (Inl EFAIL, fout1) else makeroom fout1 (n - k))"
  by pat_completeness auto
termination by (relation "measure (\<lambda>(f, n). n)") auto

declare makeroom.simps [simp del]

text \<open>\<^verbatim>\<open>Coredump::WriteElfHeader(FILE *)\<close>; \<open>load_offset\<close> is the header as it is written.\<close>

definition load_offset :: "int \<Rightarrow> Phdr \<Rightarrow> err + Phdr" where
  "load_offset off ph =
     (if p_type ph = PT_LOAD then
        if off < 0 \<or> unat (p_offset ph) + nat off > 18446744073709551615 then Inl EFAIL
        else Inr (ph\<lparr>p_offset := p_offset ph + word_of_int off\<rparr>)
      else Inr ph)"

fun fwrite_phdrs :: "int \<Rightarrow> Phdr list \<Rightarrow> nat \<Rightarrow> FILE \<Rightarrow> (err + nat) \<times> FILE" where
  "fwrite_phdrs off [] rc fout = (Inr rc, fout)"
| "fwrite_phdrs off (ph # phs) rc fout =
     (case load_offset off ph of
        Inl e \<Rightarrow> (Inl e, fout)
      | Inr ph1 \<Rightarrow>
          let (n, fout1) = fwrite (put_phdr ph1) fout in
          if n \<noteq> sizeof_Phdr then (Inl EFAIL, fout1) else fwrite_phdrs off phs (rc + n) fout1)"

definition WriteElfHeader_core :: "core \<Rightarrow> FILE \<Rightarrow> (err + nat) \<times> FILE" where
  "WriteElfHeader_core c fout =
     (if length (c_phdrs c) \<ge> 0xFFFF then (Inl EFAIL, fout)
      else
        let (n, fout1) = fwrite (put_ehdr (Ehdr_new\<lparr>e_machine := e_machine (c_ehdr c),
                                                    e_phnum := word_of_nat (length (c_phdrs c))\<rparr>)) fout
        in if n \<noteq> sizeof_Ehdr then (Inl EFAIL, fout1)
           else fwrite_phdrs (c_offset_load c) (c_phdrs c) n fout1)"

end
