(* ===== verification/AtomicOutput.thy ===== *)
theory AtomicOutput
  imports CLib Stdio
begin

text \<open>
  Output files of \<^verbatim>\<open>src/core.cc\<close> that appear only when they are complete
  (\<^verbatim>\<open>create_atomic_output\<close>, \<^verbatim>\<open>commit_atomic_path\<close>, \<^verbatim>\<open>open_atomic_file\<close>,
  \<^verbatim>\<open>commit_atomic_file\<close>, \<^verbatim>\<open>same_file\<close>). A file system maps names to files; between two calls
  other processes may change it, and every call may fail.
\<close>

section \<open>The file system\<close>

text \<open>What \<^verbatim>\<open>lstat\<close> tells about a name, and the bytes of a regular file.\<close>

record fs_node =
  fn_reg :: bool
  fn_dev :: nat
  fn_ino :: nat
  fn_data :: bytes

type_synonym fs = "string \<Rightarrow> fs_node option"

definition fn_id :: "fs_node \<Rightarrow> nat \<times> nat" where
  "fn_id n = (fn_dev n, fn_ino n)"

text \<open>
  \<^verbatim>\<open>rename\<close> with \<^verbatim>\<open>RENAME_EXCHANGE\<close> and \<^verbatim>\<open>RENAME_NOREPLACE\<close>, \<^verbatim>\<open>link\<close> and \<^verbatim>\<open>unlink\<close>.
\<close>

definition fs_exchange :: "string \<Rightarrow> string \<Rightarrow> fs \<Rightarrow> err + fs" where
  "fs_exchange a b m =
     (if m a = None \<or> m b = None then Inl ENOENT else Inr (m(a := m b, b := m a)))"

definition fs_rename_new :: "string \<Rightarrow> string \<Rightarrow> fs \<Rightarrow> err + fs" where
  "fs_rename_new a b m =
     (if m a = None then Inl ENOENT else if m b \<noteq> None then Inl EEXIST else Inr (m(a := None, b := m a)))"

definition fs_link :: "string \<Rightarrow> string \<Rightarrow> fs \<Rightarrow> err + fs" where
  "fs_link a b m =
     (if m a = None then Inl ENOENT else if m b \<noteq> None then Inl EEXIST else Inr (m(b := m a)))"

definition fs_unlink :: "string \<Rightarrow> fs \<Rightarrow> err + fs" where
  "fs_unlink a m = (if m a = None then Inl ENOENT else Inr (m(a := None)))"

section \<open>Calls\<close>

text \<open>
  The calls, by their place in the code. \<open>os_before\<close> is what other processes do to the
  file system before a call, \<open>os_fails\<close> the error it fails with for another reason.
\<close>

datatype fs_call =
    LstatOutput | Fchmod | UnlinkUnsafe
  | LstatFinal | UnlinkChanged | ExchangeIn | LstatDisplaced | ExchangeBack | UnlinkOurs | UnlinkReplaced
  | RenameNew | LinkNew | UnlinkLink | UnlinkFailed | OpenDir | SyncDir | UnlinkUnsynced | UnlinkAborted
  | LstatSnapshot nat

record os_env =
  os_before :: "fs_call \<Rightarrow> fs \<Rightarrow> fs"
  os_fails :: "fs_call \<Rightarrow> err option"
  os_mkstemp :: "string \<Rightarrow> err + string"     \<comment> \<open>from the template to the name\<close>

definition os_call :: "os_env \<Rightarrow> fs_call \<Rightarrow> (fs \<Rightarrow> err + fs) \<Rightarrow> fs \<Rightarrow> (err + unit) \<times> fs" where
  "os_call os c f m =
     (let m1 = os_before os c m in
      case os_fails os c of
        Some e \<Rightarrow> (Inl e, m1)
      | None \<Rightarrow> (case f m1 of Inl e \<Rightarrow> (Inl e, m1) | Inr m2 \<Rightarrow> (Inr (), m2)))"

definition os_lstat :: "os_env \<Rightarrow> fs_call \<Rightarrow> string \<Rightarrow> fs \<Rightarrow> (err + fs_node) \<times> fs" where
  "os_lstat os c path m =
     (let m1 = os_before os c m in
      case os_fails os c of
        Some e \<Rightarrow> (Inl e, m1)
      | None \<Rightarrow> (case m1 path of None \<Rightarrow> (Inl ENOENT, m1) | Some n \<Rightarrow> (Inr n, m1)))"

section \<open>Creating an output\<close>

record AtomicOutputState =
  replace_existing :: bool
  initial_device :: nat
  initial_inode :: nat

definition AtomicOutputState_new :: AtomicOutputState where
  "AtomicOutputState_new = \<lparr>replace_existing = False, initial_device = 0, initial_inode = 0\<rparr>"

definition directory_prefix :: "string \<Rightarrow> string" where
  "directory_prefix path = (case split_last (CHR ''/'') path of None \<Rightarrow> [] | Some (d, _) \<Rightarrow> d @ ''/'')"

text \<open>The empty file \<^verbatim>\<open>mkstemp\<close> creates, with an inode number no file has.\<close>

definition fresh_node :: "nat \<Rightarrow> nat \<Rightarrow> fs_node" where
  "fresh_node dev ino = \<lparr>fn_reg = True, fn_dev = dev, fn_ino = ino, fn_data = []\<rparr>"

definition temp_name :: "os_env \<Rightarrow> string \<Rightarrow> err + string" where
  "temp_name os final_path =
     (case os_mkstemp os (final_path @ ''.tmp.XXXXXX'') of
        Inl ENAMETOOLONG \<Rightarrow> os_mkstemp os (directory_prefix final_path @ ''.arthur.tmp.XXXXXX'')
      | r \<Rightarrow> r)"

text \<open>
  \<open>fresh\<close> is the device and inode number of the new file. The result is the path of the
  temporary file and the state; \<^verbatim>\<open>fd\<close> stands for the file at that path.
\<close>

definition create_atomic_output ::
    "os_env \<Rightarrow> nat \<times> nat \<Rightarrow> string \<Rightarrow> fs \<Rightarrow> (err + string \<times> AtomicOutputState) \<times> fs" where
  "create_atomic_output os fresh final_path m =
     (let (r, m1) = os_lstat os LstatOutput final_path m in
      if (case r of Inl e \<Rightarrow> e \<noteq> ENOENT | Inr n \<Rightarrow> \<not> fn_reg n) then
        (Inl (case r of Inl e \<Rightarrow> e | Inr _ \<Rightarrow> EINVAL), m1)
      else
        let st = (case r of
                    Inl _ \<Rightarrow> AtomicOutputState_new
                  | Inr n \<Rightarrow> \<lparr>replace_existing = True, initial_device = fn_dev n, initial_inode = fn_ino n\<rparr>)
        in case temp_name os final_path of
             Inl e \<Rightarrow> (Inl e, m1)
           | Inr temp_path \<Rightarrow>
               let m2 = m1(temp_path := Some (fresh_node (fst fresh) (snd fresh))) in
               (case os_call os Fchmod (\<lambda>m. Inr m) m2 of
                  (Inl e, m3) \<Rightarrow> (Inl e, snd (os_call os UnlinkUnsafe (fs_unlink temp_path) m3))
                | (Inr _, m3) \<Rightarrow> (Inr (temp_path, st), m3)))"

section \<open>Committing an output\<close>

definition is_initial :: "AtomicOutputState \<Rightarrow> fs_node \<Rightarrow> bool" where
  "is_initial st n \<longleftrightarrow> fn_reg n \<and> fn_dev n = initial_device st \<and> fn_ino n = initial_inode st"

definition output_directory :: "string \<Rightarrow> string" where
  "output_directory path =
     (case split_last (CHR ''/'') path of None \<Rightarrow> ''.'' | Some (d, _) \<Rightarrow> if d = [] then ''/'' else d)"

definition sync_output_directory :: "os_env \<Rightarrow> string \<Rightarrow> fs \<Rightarrow> (err + unit) \<times> fs" where
  "sync_output_directory os path m =
     (case os_call os OpenDir (\<lambda>m. Inr m) m of
        (Inl e, m1) \<Rightarrow> (Inl e, m1)
      | (Inr _, m1) \<Rightarrow> os_call os SyncDir (\<lambda>m. Inr m) m1)"

text \<open>
  Replacing an existing file: \<open>Inl\<close> for a return inside the branch, otherwise the value
  of \<^verbatim>\<open>rename_rc\<close> and \<^verbatim>\<open>cleanup_rc\<close> after it.
\<close>

definition commit_replace ::
    "os_env \<Rightarrow> string \<Rightarrow> string \<Rightarrow> AtomicOutputState \<Rightarrow> fs \<Rightarrow> (err + (err + unit) \<times> bool) \<times> fs" where
  "commit_replace os temp_path final_path st m =
     (let (r, m1) = os_lstat os LstatFinal final_path m in
      if (case r of Inl _ \<Rightarrow> True | Inr n \<Rightarrow> \<not> is_initial st n) then
        (Inl EBUSY, snd (os_call os UnlinkChanged (fs_unlink temp_path) m1))
      else
        (case os_call os ExchangeIn (fs_exchange temp_path final_path) m1 of
           (Inl e, m2) \<Rightarrow> (Inr (Inl e, True), m2)
         | (Inr _, m2) \<Rightarrow>
             let (d, m3) = os_lstat os LstatDisplaced temp_path m2 in
             if (case d of Inl _ \<Rightarrow> True | Inr n \<Rightarrow> \<not> is_initial st n) then
               (case os_call os ExchangeBack (fs_exchange temp_path final_path) m3 of
                  (Inl e, m4) \<Rightarrow> (Inl e, m4)
                | (Inr _, m4) \<Rightarrow>
                    (Inl (case d of Inl e \<Rightarrow> e | Inr _ \<Rightarrow> EBUSY),
                     snd (os_call os UnlinkOurs (fs_unlink temp_path) m4)))
             else
               (let (u, m4) = os_call os UnlinkReplaced (fs_unlink temp_path) m3
                in (Inr (Inr (), \<not> isl u), m4))))"

definition commit_create ::
    "os_env \<Rightarrow> string \<Rightarrow> string \<Rightarrow> fs \<Rightarrow> ((err + unit) \<times> bool) \<times> fs" where
  "commit_create os temp_path final_path m =
     (case os_call os RenameNew (fs_rename_new temp_path final_path) m of
        (Inr _, m1) \<Rightarrow> ((Inr (), True), m1)
      | (Inl e, m1) \<Rightarrow>
          if e \<in> {ENOSYS, EINVAL, ENOTSUP} then
            (case os_call os LinkNew (fs_link temp_path final_path) m1 of
               (Inl e', m2) \<Rightarrow> ((Inl e', True), m2)
             | (Inr _, m2) \<Rightarrow>
                 let (u, m3) = os_call os UnlinkLink (fs_unlink temp_path) m2 in ((Inr (), \<not> isl u), m3))
          else ((Inl e, True), m1))"

definition commit_atomic_path ::
    "os_env \<Rightarrow> string \<Rightarrow> string \<Rightarrow> AtomicOutputState \<Rightarrow> fs \<Rightarrow> (err + unit) \<times> fs" where
  "commit_atomic_path os temp_path final_path st m =
     (let (r, m1) = (if replace_existing st then commit_replace os temp_path final_path st m
                     else let (x, m') = commit_create os temp_path final_path m in (Inr x, m'))
      in case r of
           Inl e \<Rightarrow> (Inl e, m1)
         | Inr (Inl e, _) \<Rightarrow> (Inl e, snd (os_call os UnlinkFailed (fs_unlink temp_path) m1))
         | Inr (Inr _, clean) \<Rightarrow>
             let (s, m2) = sync_output_directory os final_path m1
             in if clean \<and> \<not> isl s then (Inr (), m2) else (Inl EFAIL, m2))"

section \<open>Files\<close>

text \<open>\<open>opened\<close> is what \<^verbatim>\<open>fdopen\<close> makes of the descriptor.\<close>

definition open_atomic_file ::
    "os_env \<Rightarrow> nat \<times> nat \<Rightarrow> FILE option \<Rightarrow> string \<Rightarrow> fs \<Rightarrow>
     (err + FILE \<times> string \<times> AtomicOutputState) \<times> fs" where
  "open_atomic_file os fresh opened final_path m =
     (case create_atomic_output os fresh final_path m of
        (Inl e, m1) \<Rightarrow> (Inl e, m1)
      | (Inr (temp_path, st), m1) \<Rightarrow>
          (case opened of
             None \<Rightarrow> (Inl EFAIL, snd (os_call os UnlinkUnsafe (fs_unlink temp_path) m1))
           | Some f \<Rightarrow> (Inr (f, temp_path, st), m1)))"

text \<open>\<^verbatim>\<open>fclose\<close> makes the contents of the stream those of the file it was opened on.\<close>

definition store_file :: "string \<Rightarrow> bytes \<Rightarrow> fs \<Rightarrow> fs" where
  "store_file path data m = (case m path of None \<Rightarrow> m | Some n \<Rightarrow> m(path := Some (n\<lparr>fn_data := data\<rparr>)))"

definition commit_atomic_file ::
    "os_env \<Rightarrow> FILE \<Rightarrow> string \<Rightarrow> string \<Rightarrow> AtomicOutputState \<Rightarrow> fs \<Rightarrow> (err + unit) \<times> fs" where
  "commit_atomic_file os f temp_path final_path st m =
     (let synced = fl_flush_ok f \<and> fl_sync_ok f; m1 = store_file temp_path (fl_data f) m in
      if \<not> synced \<or> \<not> fl_close_ok f then
        (Inl EFAIL, snd (os_call os UnlinkUnsynced (fs_unlink temp_path) m1))
      else commit_atomic_path os temp_path final_path st m1)"

text \<open>\<open>stat\<close> gives device and inode number, \<open>None\<close> when it fails.\<close>

definition same_file :: "(string \<Rightarrow> (nat \<times> nat) option) \<Rightarrow> string \<Rightarrow> string \<Rightarrow> bool" where
  "same_file stat a b \<longleftrightarrow> a = b \<or> (stat a \<noteq> None \<and> stat a = stat b)"

end
