(* ===== verification/Convert.thy ===== *)
theory Convert
  imports AcoreLoads AtomicOutput
begin

text \<open>
  From an acore file to a core file: \<^verbatim>\<open>Coredump::decompress\<close> and \<^verbatim>\<open>cleanup_decompress\<close> of
  \<^verbatim>\<open>src/core.cc\<close>.
\<close>

section \<open>Clean-up\<close>

text \<open>Every buffer the object owns is released and its pointer reset.\<close>

definition cleanup_decompress :: "core \<Rightarrow> core" where
  "cleanup_decompress c =
     c\<lparr>c_notes := [], c_crash_sig := 0, c_phdrs := [],
       c_process := (c_process c)
         \<lparr>pd_d_maps := None, pd_d_cmdline := None, pd_d_auxv := None, pd_d_stat := None,
          pd_cmdline := None, pd_auxv := None, pd_maps := None, pd_environ := None, pd_io := None,
          pd_limits := None, pd_stat := None, pd_uid := 0, pd_gid := 0, pd_credentials_valid := False,
          pd_threads := []\<rparr>\<rparr>"

section \<open>The conversion\<close>

text \<open>
  What the conversion takes from its host: the opened input, the outcome of \<^verbatim>\<open>fdopen\<close> on
  the new output file and that file's identity, \<^verbatim>\<open>stat\<close>, allocation, \<^verbatim>\<open>sysconf\<close>.
\<close>

record convert_env =
  cv_in :: "FILE option"
  cv_out :: "FILE option"
  cv_fresh :: "nat \<times> nat"
  cv_stat :: "string \<Rightarrow> (nat \<times> nat) option"
  cv_os :: os_env
  cv_mem :: "nat \<Rightarrow> bool"
  cv_clk_tck :: int
  cv_host_page :: int

definition default_core_name :: "core \<Rightarrow> string" where
  "default_core_name c = ''core.'' @ show_dec (unat (word_of_int (c_pid c) :: u32))"

text \<open>The room for ELF header and program headers, in whole pages.\<close>

definition header_room :: "nat \<Rightarrow> err + nat" where
  "header_room phnum =
     (let n = sizeof_Ehdr + phnum * sizeof_Phdr + 4096 + 4095 in
      if n > 18446744073709551615 then Inl EFAIL else Inr (n div 4096 * 4096))"

fun fwrite_notes :: "Note list \<Rightarrow> FILE \<Rightarrow> (err + unit) \<times> FILE" where
  "fwrite_notes [] fout = (Inr (), fout)"
| "fwrite_notes (nt # nts) fout =
     (let (n, fout1) = fwrite (nt_data nt) fout in
      if n \<noteq> length (nt_data nt) then (Inl EFAIL, fout1) else fwrite_notes nts fout1)"

definition note_phdr :: "nat \<Rightarrow> nat \<Rightarrow> Phdr" where
  "note_phdr off n = Phdr_zero\<lparr>p_type := PT_NOTE, p_offset := word_of_nat off, p_filesz := word_of_nat n\<rparr>"

text \<open>
  The checks of the program headers of the ELF block: first against the maps, then their
  extents against the bytes written; \<open>e\<close> is \<^verbatim>\<open>expected\<close>, \<open>prev_end\<close> the end of the one before.
\<close>

definition phdrs_match :: "Ehdr \<Rightarrow> Phdr list \<Rightarrow> Phdr list \<Rightarrow> bool" where
  "phdrs_match eh phs expected \<longleftrightarrow>
     length phs = length expected + 1 \<and> unat (e_phnum eh) = length expected \<and> tl phs = expected"

fun check_extents :: "nat \<Rightarrow> int \<Rightarrow> Phdr list \<Rightarrow> nat \<Rightarrow> nat \<Rightarrow> err + nat" where
  "check_extents written off_load [] e prev_end = Inr e"
| "check_extents written off_load (ph # phs) e prev_end =
     (if p_type ph \<noteq> PT_LOAD then check_extents written off_load phs e prev_end
      else
        let off = unat (p_offset ph); filesz = unat (p_filesz ph) in
        if e + filesz > 18446744073709551615 then Inl EFAIL
        else if off > written \<or> filesz > written - off then Inl EFAIL
        else if off \<noteq> prev_end \<or> off + filesz > 18446744073709551615 then Inl EFAIL
        else if unat (word_of_int off_load :: u64) > 18446744073709551615 - off then Inl EFAIL
        else check_extents written off_load phs (e + filesz) (off + filesz))"

text \<open>The end of the input: a tail mark and nothing behind it.\<close>

definition input_complete :: "('e, 'd) lz4_codec \<Rightarrow> ('e, 'd) stream \<Rightarrow> bool \<times> ('e, 'd) stream" where
  "input_complete cdc st =
     (case ReadBlock cdc st of
        (Some _, st1) \<Rightarrow> (False, st1)
      | (None, st1) \<Rightarrow>
          if \<not> s_tail st1 then (False, st1)
          else let (r, st2) = VerifyPhysicalEof st1 in (\<not> isl r, st2))"

text \<open>
  The part of \<^verbatim>\<open>decompress\<close> that fills the output file, from the position \<^verbatim>\<open>p_elf\<close> on. A
  failure is a call of \<^verbatim>\<open>fail_core\<close>.
\<close>

definition write_core ::
    "('e, 'd) lz4_codec \<Rightarrow> convert_env \<Rightarrow> core \<Rightarrow> ('e, 'd) stream \<Rightarrow> FILE \<Rightarrow> (err + unit) \<times> core \<times> FILE" where
  "write_core cdc env c st fout =
     (case ftell fout of
        None \<Rightarrow> (Inl EFAIL, c, fout)
      | Some p_elf \<Rightarrow>
     (case ParseAll (cv_host_page env) (c_process c) of
        Inl e \<Rightarrow> (Inl e, c, fout)
      | Inr pd \<Rightarrow>
     let c1 = c\<lparr>c_process := pd\<rparr> in
     (case expected_load_phdrs (case pd_d_maps pd of None \<Rightarrow> [] | Some rs \<Rightarrow> rs) of
        Inl e \<Rightarrow> (Inl e, c1, fout)
      | Inr (expected_loads, expected_bytes) \<Rightarrow>
     if expected_loads = [] then (Inl EFAIL, c1, fout)
     else if length expected_loads + 1 \<ge> 0xFFFF then (Inl EFAIL, c1, fout)
     else
     (case header_room (length expected_loads + 1) of
        Inl e \<Rightarrow> (Inl e, c1, fout)
      | Inr reserved \<Rightarrow>
     (case makeroom fout reserved of
        (Inl e, f1) \<Rightarrow> (Inl e, c1, f1)
      | (Inr _, f1) \<Rightarrow>
     (case ftell f1 of
        None \<Rightarrow> (Inl EFAIL, c1, f1)
      | Some p_note \<Rightarrow>
     (case GenerateNotes (cv_mem env) (cv_clk_tck env) (c_arch c1) (c_pid c1) (c_crash_sig c1) pd of
        Inl e \<Rightarrow> (Inl e, c1, f1)
      | Inr (notes_bytes, notes) \<Rightarrow>
     let c2 = c1\<lparr>c_notes := notes, c_phdrs := c_phdrs c1 @ [note_phdr p_note notes_bytes]\<rparr> in
     (case fwrite_notes notes f1 of
        (Inl e, f2) \<Rightarrow> (Inl e, c2, f2)
      | (Inr _, f2) \<Rightarrow>
     (case ftell f2 of
        None \<Rightarrow> (Inl EFAIL, c2, f2)
      | Some off_load \<Rightarrow>
     let c3 = c2\<lparr>c_offset_load := int off_load\<rparr> in
     (case ReadLoads cdc expected_bytes f2 st of
        (Inl e, f3, st1) \<Rightarrow> (Inl e, c3, f3)
      | (Inr written, f3, st1) \<Rightarrow>
     (case ReadElfHeader cdc (length expected_loads + 1) c3 st1 of
        (Inl e, c4, st2) \<Rightarrow> (Inl e, c4, f3)
      | (Inr _, c4, st2) \<Rightarrow>
     if \<not> phdrs_match (c_ehdr c4) (c_phdrs c4) expected_loads then (Inl EFAIL, c4, f3)
     else
     (case check_extents written (int off_load) (c_phdrs c4) 0 0 of
        Inl e \<Rightarrow> (Inl e, c4, f3)
      | Inr e \<Rightarrow>
     if written \<noteq> e then (Inl EFAIL, c4, f3)
     else
     (case fseek p_elf f3 of
        None \<Rightarrow> (Inl EFAIL, c4, f3)
      | Some f4 \<Rightarrow>
     (case WriteElfHeader_core c4 f4 of
        (Inl e, f5) \<Rightarrow> (Inl e, c4, f5)
      | (Inr _, f5) \<Rightarrow>
     if fst (input_complete cdc st2) then (Inr (), c4, f5) else (Inl EFAIL, c4, f5)))))))))))))))"

definition decompress ::
    "('e, 'd) lz4_codec \<Rightarrow> convert_env \<Rightarrow> string \<Rightarrow> string option \<Rightarrow> core \<Rightarrow> fs \<Rightarrow> (err + unit) \<times> core \<times> fs" where
  "decompress cdc env in_file out_core c0 m =
     (let c = c0\<lparr>c_phdrs := []\<rparr> in
      case Open cdc (cv_in env) (Some in_file) (Lz4Stream_new LZ4_Decompress) of
        (Inl e, st) \<Rightarrow> (Inl e, c, m)
      | (Inr _, st) \<Rightarrow>
     (case VerifyFileHeader c st of
        (Inl e, st1) \<Rightarrow> (Inl e, c, m)
      | (Inr c1, st1) \<Rightarrow>
     (case ReadMeta cdc c1 st1 of
        (Inl e, st2) \<Rightarrow> (Inl e, cleanup_decompress c1, m)
      | (Inr c2, st2) \<Rightarrow>
     let final = (case out_core of None \<Rightarrow> default_core_name c2 | Some p \<Rightarrow> p) in
     if same_file (cv_stat env) in_file final then (Inl EFAIL, cleanup_decompress c2, m)
     else
     (case open_atomic_file (cv_os env) (cv_fresh env) (cv_out env) final m of
        (Inl e, m1) \<Rightarrow> (Inl e, cleanup_decompress c2, m1)
      | (Inr (fout, temp, out_state), m1) \<Rightarrow>
     (case write_core cdc env c2 st2 fout of
        (Inl e, c3, f) \<Rightarrow>
          (Inl EFAIL, cleanup_decompress c3, snd (os_call (cv_os env) UnlinkAborted (fs_unlink temp) m1))
      | (Inr _, c3, f) \<Rightarrow>
          let (r, m2) = commit_atomic_file (cv_os env) f temp final out_state m1
          in (r, cleanup_decompress c3, m2))))))"

end
