(* ===== verification/LoadsWrite.thy ===== *)
theory LoadsWrite
  imports AcoreLoads MetaRoundTrip
begin

text \<open>
  What the capture of the memory image writes: the layout of the LOAD segments, the bytes
  of every region, the blocks they are cut into, and the blocks of the ELF header.
\<close>

section \<open>The layout\<close>

text \<open>Consecutive segments: each starts where the one before it ends.\<close>

fun contiguous :: "nat \<Rightarrow> Phdr list \<Rightarrow> bool" where
  "contiguous off [] = True"
| "contiguous off (ph # phs) \<longleftrightarrow>
     unat (p_offset ph) = off \<and> contiguous (off + unat (p_filesz ph)) phs"

definition load_bytes :: "Phdr list \<Rightarrow> nat" where
  "load_bytes phs = sum_list (map (\<lambda>ph. unat (p_filesz ph)) phs)"

lemma load_bytes_simps [simp]:
  "load_bytes [] = 0" "load_bytes (ph # phs) = unat (p_filesz ph) + load_bytes phs"
  by (simp_all add: load_bytes_def)

lemma load_phdrs_layout:
  "load_phdrs n rs = Inr (phs, total_bytes) \<Longrightarrow> n \<le> SSIZE_MAX \<Longrightarrow>
     length phs = length rs \<and> contiguous n phs \<and> total_bytes = n + load_bytes phs \<and> total_bytes \<le> SSIZE_MAX \<and>
     list_all2 (\<lambda>r ph. ph = load_phdr (unat (p_offset ph)) r) rs phs"
proof (induction rs arbitrary: n phs)
  case Nil
  then show ?case by simp
next
  case (Cons r rs)
  let ?ph = "load_phdr n r"
  from Cons.prems obtain phs1 where p: "unat (p_filesz ?ph) \<le> SSIZE_MAX - n"
    "load_phdrs (n + unat (p_filesz ?ph)) rs = Inr (phs1, total_bytes)" "phs = ?ph # phs1"
    by (auto simp: Let_def not_less split: if_splits sum.splits)
  have "n + unat (p_filesz ?ph) \<le> SSIZE_MAX" using p(1) Cons.prems(2) by simp
  note I = Cons.IH [OF p(2) this]
  have "unat (p_offset ?ph) = n" using Cons.prems(2) by (simp add: load_phdr_def unat_of_nat)
  then show ?case using I p(3) by simp
qed

lemma load_phdr_fields [simp]:
  "p_type (load_phdr n r) = PT_LOAD" "p_vaddr (load_phdr n r) = start_addr r" "p_flags (load_phdr n r) = perms r"
  "p_filesz (load_phdr n r) = (if perms r \<noteq> 0 then end_addr r - start_addr r else 0)"
  "p_memsz (load_phdr n r) = end_addr r - start_addr r" "p_paddr (load_phdr n r) = 0" "p_align (load_phdr n r) = 1"
  by (simp_all add: load_phdr_def Phdr_zero_def)

lemma load_phdrs_succeeds:
  assumes "n + sum_list (map (\<lambda>r. unat (end_addr r - start_addr r)) rs) \<le> SSIZE_MAX"
  shows "\<exists>phs total_bytes. load_phdrs n rs = Inr (phs, total_bytes)"
  using assms
proof (induction rs arbitrary: n)
  case (Cons r rs)
  let ?z = "unat (p_filesz (load_phdr n r))"
  have z: "?z \<le> unat (end_addr r - start_addr r)" by simp
  then have "n + ?z + sum_list (map (\<lambda>r. unat (end_addr r - start_addr r)) rs) \<le> SSIZE_MAX" using Cons.prems by simp
  from Cons.IH [OF this] obtain phs t where "load_phdrs (n + ?z) rs = Inr (phs, t)" by blast
  moreover have "\<not> ?z > SSIZE_MAX - n" using Cons.prems z by (simp only: sum_list.Cons list.map not_less)
  ultimately show ?case by (simp add: Let_def del: load_phdr_fields)
qed simp

section \<open>Reading memory\<close>

text \<open>
  \<open>shows_mem strict mem a bs\<close>: the bytes are those of the memory from address \<open>a\<close> on, or,
  if not \<open>strict\<close>, zeros in the place of bytes that could not be read.
\<close>

definition shows_mem :: "bool \<Rightarrow> (u64 \<Rightarrow> char option) \<Rightarrow> u64 \<Rightarrow> bytes \<Rightarrow> bool" where
  "shows_mem strict mem a bs \<longleftrightarrow>
     (\<forall>i < length bs. mem (a + word_of_nat i) = Some (bs ! i) \<or> \<not> strict \<and> bs ! i = NUL)"

lemma shows_mem_Nil [simp]: "shows_mem strict mem a []"
  by (simp add: shows_mem_def)

lemma shows_mem_append:
  assumes "shows_mem strict mem a bs" "shows_mem strict mem (a + word_of_nat (length bs)) cs"
  shows "shows_mem strict mem a (bs @ cs)"
  unfolding shows_mem_def
proof (intro allI impI)
  fix i assume i: "i < length (bs @ cs)"
  show "mem (a + word_of_nat i) = Some ((bs @ cs) ! i) \<or> \<not> strict \<and> (bs @ cs) ! i = NUL"
  proof (cases "i < length bs")
    case True
    then show ?thesis using assms(1) by (auto simp: shows_mem_def nth_append)
  next
    case False
    then have a: "a + word_of_nat (length bs) + word_of_nat (i - length bs) = a + word_of_nat i" by simp
    have "i - length bs < length cs" using i False by auto
    with assms(2) have "mem (a + word_of_nat i) = Some (cs ! (i - length bs)) \<or> \<not> strict \<and> cs ! (i - length bs) = NUL"
      unfolding shows_mem_def a [symmetric] by blast
    then show ?thesis using False by (simp add: nth_append)
  qed
qed

lemma shows_mem_weaken: "shows_mem True mem a bs \<Longrightarrow> shows_mem strict mem a bs"
  by (auto simp: shows_mem_def)

lemma shows_mem_zeros: "shows_mem False mem a (replicate n NUL)"
  by (simp add: shows_mem_def)

lemma takeWhile_nth_holds: "i < length (takeWhile P xs) \<Longrightarrow> P (xs ! i)"
  by (metis nth_mem set_takeWhileD takeWhile_nth)

lemma readable_bytes_shows: "shows_mem True mem a (readable_bytes mem a n)"
proof -
  let ?xs = "map (\<lambda>i. mem (a + word_of_nat i)) [0..<n]"
  have "mem (a + word_of_nat i) = Some (readable_bytes mem a n ! i)" if i: "i < length (takeWhile (\<lambda>x. x \<noteq> None) ?xs)" for i
  proof -
    have "i < n" using i length_takeWhile_le [of "\<lambda>x. x \<noteq> None" ?xs] by simp
    moreover have "?xs ! i \<noteq> None" by (rule takeWhile_nth_holds [OF i])
    moreover have "takeWhile (\<lambda>x. x \<noteq> None) ?xs ! i = ?xs ! i" by (rule takeWhile_nth [OF i])
    ultimately show ?thesis using i by (auto simp: readable_bytes_def)
  qed
  then show ?thesis by (simp add: shows_mem_def readable_bytes_def)
qed

definition readable_range :: "(u64 \<Rightarrow> char option) \<Rightarrow> u64 \<Rightarrow> nat \<Rightarrow> bool" where
  "readable_range mem a n \<longleftrightarrow> (\<forall>i < n. mem (a + word_of_nat i) \<noteq> None)"

lemma readable_bytes_full:
  assumes "readable_range mem a m" "n \<le> m"
  shows "length (readable_bytes mem a n) = n"
proof -
  have "takeWhile (\<lambda>x. x \<noteq> None) (map (\<lambda>i. mem (a + word_of_nat i)) [0..<n]) = map (\<lambda>i. mem (a + word_of_nat i)) [0..<n]"
    using assms by (subst takeWhile_eq_all_conv) (auto simp: readable_range_def)
  then show ?thesis unfolding readable_bytes_def by (simp only: length_map length_upt diff_zero)
qed

lemma readable_range_shift:
  "readable_range mem a n \<Longrightarrow> k \<le> n \<Longrightarrow> readable_range mem (a + word_of_nat k) (n - k)"
  unfolding readable_range_def by (metis add.assoc less_diff_conv add.commute of_nat_add)

lemma readable_range_0 [simp]: "readable_range mem a 0"
  by (simp add: readable_range_def)

lemma readable_range_take: "readable_range mem a n \<Longrightarrow> k \<le> n \<Longrightarrow> readable_range mem a k"
  by (auto simp: readable_range_def)

text \<open>A call that returns bytes returns bytes of the memory, and at least one of them.\<close>

lemma read_mem_bytes:
  assumes "read_mem mem a n = MBytes bs" "0 < n"
  shows "shows_mem True mem a bs" "bs \<noteq> []" "length bs \<le> n"
  using assms readable_bytes_shows [of mem a n] read_mem_length [OF assms(1)]
  by (auto simp: read_mem_def Let_def split: if_splits)

lemma read_mem_readable: "readable_range mem a m \<Longrightarrow> n \<le> m \<Longrightarrow> 0 < n \<Longrightarrow> \<exists>bs. read_mem mem a n = MBytes bs"
  using readable_bytes_full [of mem a m n] by (auto simp: read_mem_def Let_def)

definition undisturbed :: "mem_fd \<Rightarrow> bool" where
  "undisturbed fd \<longleftrightarrow> MemFail \<notin> set (mf_events fd) \<and> MemEof \<notin> set (mf_events fd)"

lemma pread_cases:
  assumes "pread fd n a = (r, fd')" "0 < n"
  shows "mf_byte fd' = mf_byte fd" "undisturbed fd \<Longrightarrow> undisturbed fd'"
    "r = MBytes bs \<Longrightarrow> bs \<noteq> [] \<Longrightarrow> shows_mem True (mf_byte fd) a bs \<and> length bs \<le> n"
    "undisturbed fd \<Longrightarrow> readable_range (mf_byte fd) a n \<Longrightarrow> r = MEINTR \<or> (\<exists>bs. r = MBytes bs \<and> bs \<noteq> [])"
    "set (mf_events fd') \<subseteq> set (mf_events fd)" "r = MBytes [] \<Longrightarrow> MemEof \<in> set (mf_events fd)"
proof -
  have m: "0 < min n (max 1 k)" for k using assms(2) by simp
  have l: "r = read_mem (mf_byte fd) a (min n (max 1 k)) \<Longrightarrow> r = MBytes bs \<Longrightarrow>
      shows_mem True (mf_byte fd) a bs \<and> bs \<noteq> [] \<and> length bs \<le> n" for k bs
    using read_mem_bytes [of "mf_byte fd" a "min n (max 1 k)" bs] m by auto
  have l0: "r = read_mem (mf_byte fd) a n \<Longrightarrow> r = MBytes bs \<Longrightarrow>
      shows_mem True (mf_byte fd) a bs \<and> bs \<noteq> [] \<and> length bs \<le> n" for bs
    using read_mem_bytes [of "mf_byte fd" a n bs] assms(2) by auto
  show "mf_byte fd' = mf_byte fd" "undisturbed fd \<Longrightarrow> undisturbed fd'" "set (mf_events fd') \<subseteq> set (mf_events fd)"
    using assms(1) by (auto simp: pread_def undisturbed_def split: list.splits mem_event.splits)
  show "r = MBytes bs \<Longrightarrow> bs \<noteq> [] \<Longrightarrow> shows_mem True (mf_byte fd) a bs \<and> length bs \<le> n"
    using assms(1) l l0 by (auto simp: pread_def split: list.splits mem_event.splits)
  show "r = MBytes [] \<Longrightarrow> MemEof \<in> set (mf_events fd)"
    using assms(1) l l0 by (auto simp: pread_def split: list.splits mem_event.splits)
  assume u: "undisturbed fd" and rr: "readable_range (mf_byte fd) a n"
  have "\<exists>bs. read_mem (mf_byte fd) a (min n (max 1 k)) = MBytes bs \<and> bs \<noteq> []" for k
    using read_mem_readable [OF rr _ m, of k] read_mem_bytes(2) [OF _ m, of "mf_byte fd" a k] by auto
  moreover have "\<exists>bs. read_mem (mf_byte fd) a n = MBytes bs \<and> bs \<noteq> []"
    using read_mem_readable [OF rr _ assms(2)] read_mem_bytes(2) [OF _ assms(2)] by auto
  ultimately show "r = MEINTR \<or> (\<exists>bs. r = MBytes bs \<and> bs \<noteq> [])"
    using assms(1) u by (auto simp: pread_def undisturbed_def split: list.splits mem_event.splits)
qed

lemma pread_loop_shows:
  assumes "pread_loop fd addr req acc = ((got, eof), fd')" "length acc \<le> req" "shows_mem True (mf_byte fd) addr acc"
  shows "shows_mem True (mf_byte fd) addr got \<and> length got \<le> req \<and> mf_byte fd' = mf_byte fd \<and>
    (undisturbed fd \<longrightarrow> undisturbed fd') \<and> set (mf_events fd') \<subseteq> set (mf_events fd) \<and>
    (eof \<longrightarrow> MemEof \<in> set (mf_events fd)) \<and>
    (undisturbed fd \<and> readable_range (mf_byte fd) addr req \<longrightarrow> length got = req)"
  using assms
proof (induction fd addr req acc rule: pread_loop.induct)
  case (1 fd addr req acc)
  show ?case
  proof (cases "length acc \<ge> req")
    case True
    then show ?thesis using "1.prems" by (subst (asm) pread_loop.simps) auto
  next
    case False
    let ?n = "req - length acc" and ?a = "addr + word_of_nat (length acc)"
    obtain r fd1 where p: "pread fd ?n ?a = (r, fd1)" by fastforce
    have n: "0 < ?n" using False by simp
    note P = pread_cases [OF p n]
    have rr: "readable_range (mf_byte fd) addr req \<Longrightarrow> readable_range (mf_byte fd) ?a ?n"
      by (rule readable_range_shift) (use "1.prems"(2) in auto)
    show ?thesis
    proof (cases r)
      case MEINTR
      have "pread_loop fd1 addr req acc = ((got, eof), fd')"
        using "1.prems"(1) False p MEINTR by (subst (asm) pread_loop.simps) simp
      from "1.IH"(1) [OF False p [symmetric] MEINTR this] "1.prems"(2,3) P(1,2,5) show ?thesis by auto
    next
      case MError
      then have "got = acc" "\<not> eof" "fd' = fd1"
        using "1.prems"(1) False p by (subst (asm) pread_loop.simps, simp)+
      then show ?thesis using "1.prems"(2,3) P MError rr by auto
    next
      case (MBytes bs)
      show ?thesis
      proof (cases "bs = []")
        case True
        then have "got = acc" "eof" "fd' = fd1"
          using "1.prems"(1) False p MBytes by (subst (asm) pread_loop.simps, simp)+
        then show ?thesis using "1.prems"(2,3) P MBytes rr True by auto
      next
        case ne: False
        have l: "pread_loop fd1 addr req (acc @ bs) = ((got, eof), fd')"
          using "1.prems"(1) False p MBytes ne by (subst (asm) pread_loop.simps) simp
        have bs: "shows_mem True (mf_byte fd) ?a bs" "length bs \<le> ?n" using P(3) [OF MBytes ne] by auto
        have len: "length (acc @ bs) \<le> req" using bs(2) "1.prems"(2) by simp
        have "shows_mem True (mf_byte fd1) addr (acc @ bs)"
          using shows_mem_append [OF "1.prems"(3) bs(1)] by (simp add: P(1))
        from "1.IH"(2) [OF False p [symmetric] MBytes ne l len this] P(1,2,5) show ?thesis by auto
      qed
    qed
  qed
qed

text \<open>One chunk of a region, filled up with zeros.\<close>

lemma chunk_shows:
  assumes "pread_loop fd addr req [] = ((got, eof), fd')"
  shows "length (zero_fill req got) = req" "mf_byte fd' = mf_byte fd" "undisturbed fd \<Longrightarrow> undisturbed fd'"
    "set (mf_events fd') \<subseteq> set (mf_events fd)" "eof \<Longrightarrow> MemEof \<in> set (mf_events fd)" "length got \<le> req"
    "shows_mem False (mf_byte fd) addr (zero_fill req got)"
    "undisturbed fd \<Longrightarrow> readable_range (mf_byte fd) addr req \<Longrightarrow>
       shows_mem True (mf_byte fd) addr (zero_fill req got) \<and> length got = req"
proof -
  note P = pread_loop_shows [OF assms, simplified]
  show "length (zero_fill req got) = req" "mf_byte fd' = mf_byte fd" "undisturbed fd \<Longrightarrow> undisturbed fd'"
    "set (mf_events fd') \<subseteq> set (mf_events fd)" "eof \<Longrightarrow> MemEof \<in> set (mf_events fd)" "length got \<le> req"
    using P by (auto simp: zero_fill_def)
  show "shows_mem False (mf_byte fd) addr (zero_fill req got)"
    unfolding zero_fill_def by (rule shows_mem_append [OF _ shows_mem_zeros]) (use P shows_mem_weaken in blast)
  show "undisturbed fd \<Longrightarrow> readable_range (mf_byte fd) addr req \<Longrightarrow>
       shows_mem True (mf_byte fd) addr (zero_fill req got) \<and> length got = req"
    using P by (simp add: zero_fill_def)
qed

section \<open>Writing the blocks\<close>

definition load_blocks :: "bytes list \<Rightarrow> lblock list" where
  "load_blocks xs = map (\<lambda>x. (0, 4, x)) xs"

lemma load_blocks_append [simp]: "load_blocks (xs @ ys) = load_blocks xs @ load_blocks ys"
  by (simp add: load_blocks_def)

text \<open>From one idle state to another, exactly \<open>bs\<close> was written in LOADS blocks.\<close>

definition sends_loads :: "('e, 'd) lz4_codec \<Rightarrow> ('e, 'd) stream \<Rightarrow> bytes \<Rightarrow> ('e, 'd) stream \<Rightarrow> bool" where
  "sends_loads cdc st bs st' \<longleftrightarrow>
     idle st' \<and>
     (\<exists>xs. concat xs = bs \<and> (\<forall>x \<in> set xs. x \<noteq> [] \<and> length x \<le> BLOCK_SIZE) \<and> appended cdc st (load_blocks xs) st')"

lemma sends_loads_refl: "idle st \<Longrightarrow> sends_loads cdc st [] st"
  using appended_refl [of st cdc] by (auto simp: sends_loads_def idle_def load_blocks_def intro!: exI [of _ "[]"])

lemma sends_loads_trans: "sends_loads cdc st a st1 \<Longrightarrow> sends_loads cdc st1 b st2 \<Longrightarrow> sends_loads cdc st (a @ b) st2"
proof -
  assume "sends_loads cdc st a st1" "sends_loads cdc st1 b st2"
  then obtain xs ys where x: "concat xs = a" "\<forall>x \<in> set xs. x \<noteq> [] \<and> length x \<le> BLOCK_SIZE" "appended cdc st (load_blocks xs) st1"
    and y: "concat ys = b" "\<forall>x \<in> set ys. x \<noteq> [] \<and> length x \<le> BLOCK_SIZE" "appended cdc st1 (load_blocks ys) st2" "idle st2"
    unfolding sends_loads_def by blast
  have "appended cdc st (load_blocks (xs @ ys)) st2" using appended_trans [OF x(3) y(3)] by simp
  then show ?thesis unfolding sends_loads_def using x y by (intro conjI exI [of _ "xs @ ys"]) auto
qed

lemma sends_loads_idle: "sends_loads cdc st bs st' \<Longrightarrow> idle st'"
  by (simp add: sends_loads_def)

lemma WriteBlock_loads:
  assumes "idle st" "WriteBlock cdc (Some x) 4 st = (Inr n, st')" "x \<noteq> []" "length x \<le> BLOCK_SIZE"
  shows "n = length x" "sends_loads cdc st x st'"
proof -
  have w: "writer st" "sealed st = []" using assms(1) by (auto simp: idle_def sealed_def)
  note W = WriteBlock_Inr [OF w(1) assms(2)]
  have "chunks x = [x]" using assms(3,4) by (simp add: chunks_step)
  then have "appended cdc st (load_blocks [x]) st'" using W(5) w(2) by (simp add: load_blocks_def)
  then show "n = length x" "sends_loads cdc st x st'"
    using W assms(3,4) unfolding sends_loads_def idle_def by (auto intro!: exI [of _ "[x]"])
qed

lemma write_chunk_Inr:
  "idle st \<Longrightarrow> write_chunk cdc bs sz st = (Inr n, st') \<Longrightarrow> n = sz + length bs \<and> sends_loads cdc st bs st'"
proof (induction bs arbitrary: sz st rule: chunks.induct)
  case (1 bs)
  show ?case
  proof (cases "bs = []")
    case True
    then show ?thesis using "1.prems" sends_loads_refl by (subst (asm) write_chunk.simps) auto
  next
    case False
    let ?x = "take BLOCK_SIZE bs"
    obtain k st1 where w: "WriteBlock cdc (Some ?x) 4 st = (Inr k, st1)"
      "write_chunk cdc (drop BLOCK_SIZE bs) (sz + k) st1 = (Inr n, st')"
      using "1.prems"(2) False by (subst (asm) write_chunk.simps) (auto split: prod.splits sum.splits)
    have "?x \<noteq> []" "length ?x \<le> BLOCK_SIZE" using False by simp_all
    note W = WriteBlock_loads [OF "1.prems"(1) w(1) this]
    from "1.IH" [OF False sends_loads_idle [OF W(2)] w(2)] W sends_loads_trans [OF W(2)]
    have "n = sz + length ?x + length (drop BLOCK_SIZE bs) \<and> sends_loads cdc st (?x @ drop BLOCK_SIZE bs) st'" by blast
    then show ?thesis by simp
  qed
qed

text \<open>
  The result of the loop over a region of \<open>n\<close> bytes at address \<open>a\<close>, all of them written
  from \<open>st\<close> to \<open>st'\<close>; \<open>got\<close> of them were read.
\<close>

definition region_written ::
    "('e, 'd) lz4_codec \<Rightarrow> mem_fd \<Rightarrow> u64 \<Rightarrow> nat \<Rightarrow> nat \<Rightarrow> ('e, 'd) stream \<Rightarrow> bytes \<Rightarrow> ('e, 'd) stream \<Rightarrow> bool" where
  "region_written cdc fd a n got st bs st' \<longleftrightarrow>
     length bs = n \<and> got \<le> n \<and> sends_loads cdc st bs st' \<and> shows_mem False (mf_byte fd) a bs \<and>
     (undisturbed fd \<and> readable_range (mf_byte fd) a n \<longrightarrow> shows_mem True (mf_byte fd) a bs \<and> got = n)"

definition same_memory :: "mem_fd \<Rightarrow> mem_fd \<Rightarrow> bool" where
  "same_memory fd fd' \<longleftrightarrow>
     mf_byte fd' = mf_byte fd \<and> (undisturbed fd \<longrightarrow> undisturbed fd') \<and> set (mf_events fd') \<subseteq> set (mf_events fd)"

lemma same_memory_refl [simp]: "same_memory fd fd"
  by (simp add: same_memory_def)

lemma same_memory_trans: "same_memory fd fd1 \<Longrightarrow> same_memory fd1 fd2 \<Longrightarrow> same_memory fd fd2"
  by (auto simp: same_memory_def)

lemma region_written_step:
  assumes c: "pread_loop fd a req [] = ((got, eof), fd1)" and w: "sends_loads cdc st (zero_fill req got) st1"
    and r: "region_written cdc fd1 (a + word_of_nat req) n got1 st1 bs st'"
  shows "region_written cdc fd a (req + n) (length got + got1) st (zero_fill req got @ bs) st'"
proof -
  note C = chunk_shows [OF c]
  note R = r [unfolded region_written_def C(2)]
  have rr: "readable_range (mf_byte fd) a req \<and> readable_range (mf_byte fd) (a + word_of_nat req) n"
    if "readable_range (mf_byte fd) a (req + n)"
    using readable_range_take [OF that, of req] readable_range_shift [OF that, of req] by simp
  have "shows_mem False (mf_byte fd) a (zero_fill req got @ bs)"
    by (rule shows_mem_append) (use C R in auto)
  moreover have "shows_mem True (mf_byte fd) a (zero_fill req got @ bs) \<and> length got + got1 = req + n"
    if "undisturbed fd" "readable_range (mf_byte fd) a (req + n)"
  proof
    show "shows_mem True (mf_byte fd) a (zero_fill req got @ bs)"
      by (rule shows_mem_append) (use C(3,8) R rr that in \<open>simp_all add: C(1)\<close>)
    show "length got + got1 = req + n" using C(3,8) R rr that by simp
  qed
  ultimately show ?thesis
    unfolding region_written_def using C R sends_loads_trans [OF w] by auto
qed

lemma write_region_ends:
  assumes "unat e + 1048576 < 18446744073709551616" "a \<le> e"
  shows "\<exists>r fd' st'. write_region cdc a e sz ms fd st = Some (r, fd', st') \<and> same_memory fd fd' \<and>
    (\<forall>sz' ms'. idle st \<longrightarrow> r = Inr (sz', ms') \<longrightarrow>
       sz' = sz + unat (e - a) \<and> (\<exists>bs got. ms' = ms + got \<and> region_written cdc fd a (unat (e - a)) got st bs st'))"
  using assms(2)
proof (induction "unat (e - a)" arbitrary: a sz ms fd st rule: less_induct)
  case less
  show ?case
  proof (cases "a < e")
    case False
    then have "e - a = 0" using less.prems by simp
    moreover have "region_written cdc fd a 0 0 st [] st" if "idle st"
      using sends_loads_refl [OF that] by (simp add: region_written_def)
    ultimately show ?thesis using False by (subst write_region.simps) fastforce
  next
    case True
    let ?req = "min (unat (e - a)) BUFFER_SIZE" and ?a = "a + 1048576 :: u64"
    obtain got eof fd1 where c: "pread_loop fd a ?req [] = ((got, eof), fd1)" by (metis surj_pair)
    note C = chunk_shows [OF c]
    have sm: "same_memory fd fd1" using C by (simp add: same_memory_def)
    obtain x st1 where w: "write_chunk cdc (zero_fill ?req got) sz st = (x, st1)" by fastforce
    have eq: "write_region cdc a e sz ms fd st =
        (if eof then Some (Inl EFAIL, fd1, st)
         else case x of Inl er \<Rightarrow> Some (Inl er, fd1, st1)
              | Inr sz1 \<Rightarrow> write_region cdc ?a e sz1 (ms + length got) fd1 st1)"
      using True c w by (subst write_region.simps) (simp add: Let_def)
    show ?thesis
    proof (cases "eof \<or> isl x")
      case True
      then show ?thesis using sm unfolding eq by (cases x) auto
    next
      case False
      then obtain sz1 where x: "x = Inr sz1" by (cases x) auto
      have ua: "unat ?a = unat a + 1048576"
        using assms(1) True by (simp add: unat_word_ariths word_less_nat_alt)
      have dist: "unat (e - a) = unat e - unat a" using less.prems by (simp add: unat_sub)
      have wr: "n = sz + ?req \<and> sends_loads cdc st (zero_fill ?req got) st1" if "x = Inr n" "idle st" for n
        using write_chunk_Inr [OF that(2) w [unfolded that(1)]] by (simp add: C(1))
      show ?thesis
      proof (cases "?a \<le> e")
        case le: True
        have d: "unat (e - ?a) = unat e - unat a - 1048576" using le ua by (simp add: unat_sub)
        then have "unat (e - ?a) < unat (e - a)" using dist le ua by (simp add: word_le_nat_alt)
        note IH = less.hyps [OF this le, of sz1 "ms + length got" fd1 st1]
        obtain r fd' st' where i: "write_region cdc ?a e sz1 (ms + length got) fd1 st1 = Some (r, fd', st')"
          "same_memory fd1 fd'" and I: "\<And>sz' ms'. idle st1 \<Longrightarrow> r = Inr (sz', ms') \<Longrightarrow>
             sz' = sz1 + unat (e - ?a) \<and> (\<exists>bs got'. ms' = ms + length got + got' \<and>
               region_written cdc fd1 ?a (unat (e - ?a)) got' st1 bs st')"
          using IH by blast
        have rq: "?req = 1048576" "unat (e - a) = 1048576 + unat (e - ?a)"
          using d dist le ua by (simp_all add: word_le_nat_alt)
        have "sz' = sz + unat (e - a) \<and> (\<exists>bs got. ms' = ms + got \<and> region_written cdc fd a (unat (e - a)) got st bs st')"
          if id: "idle st" and res: "r = Inr (sz', ms')" for sz' ms'
        proof -
          have W: "sz1 = sz + ?req" "sends_loads cdc st (zero_fill ?req got) st1" using wr [OF x id] by auto
          obtain bs got' where b: "sz' = sz1 + unat (e - ?a)" "ms' = ms + length got + got'"
            "region_written cdc fd1 ?a (unat (e - ?a)) got' st1 bs st'"
            using I [OF sends_loads_idle [OF W(2)] res] by blast
          have "region_written cdc fd1 (a + word_of_nat ?req) (unat (e - ?a)) got' st1 bs st'" using b(3) by (simp add: rq(1))
          from region_written_step [OF c W(2) this] show ?thesis
            unfolding rq(2) using b W(1) rq(1) by (intro conjI exI [of _ "zero_fill ?req got @ bs"] exI [of _ "length got + got'"]) auto
        qed
        then show ?thesis using i same_memory_trans [OF sm i(2)] False x unfolding eq by auto
      next
        case gt: False
        then have lt: "unat e < unat a + 1048576" using ua by (simp add: word_le_nat_alt)
        have rq: "?req = unat (e - a)" using lt dist by simp
        have e: "write_region cdc ?a e sz1 (ms + length got) fd1 st1 = Some (Inr (sz1, ms + length got), fd1, st1)"
          using gt by (subst write_region.simps) auto
        have "sz1 = sz + unat (e - a) \<and> region_written cdc fd a (unat (e - a)) (length got) st (zero_fill ?req got) st1"
          if "idle st"
        proof -
          have W: "sz1 = sz + ?req" "sends_loads cdc st (zero_fill ?req got) st1" using wr [OF x that] by auto
          have "region_written cdc fd1 (a + word_of_nat ?req) 0 0 st1 [] st1"
            using sends_loads_refl [OF sends_loads_idle [OF W(2)]] by (simp add: region_written_def)
          from region_written_step [OF c W(2) this] W(1) rq show ?thesis by simp
        qed
        then show ?thesis using e sm False x unfolding eq by auto
      qed
    qed
  qed
qed

section \<open>WriteLoads\<close>

text \<open>Regions as the kernel has them: not inverted, and clear of the end of the address space.\<close>

definition bounded_maps :: "MemRegion list \<Rightarrow> bool" where
  "bounded_maps rs \<longleftrightarrow> (\<forall>r \<in> set rs. start_addr r \<le> end_addr r \<and> unat (end_addr r) + 1048576 < 18446744073709551616)"

definition readable_maps :: "(u64 \<Rightarrow> char option) \<Rightarrow> MemRegion list \<Rightarrow> bool" where
  "readable_maps mem rs \<longleftrightarrow>
     (\<forall>r \<in> set rs. perms r \<noteq> 0 \<longrightarrow> readable_range mem (start_addr r) (unat (end_addr r - start_addr r)))"

text \<open>\<open>captures strict mem phs datas\<close>: segment by segment, the data is the memory of the segment.\<close>

definition captures :: "bool \<Rightarrow> (u64 \<Rightarrow> char option) \<Rightarrow> Phdr list \<Rightarrow> bytes list \<Rightarrow> bool" where
  "captures strict mem phs datas \<longleftrightarrow>
     list_all2 (\<lambda>ph bs. length bs = unat (p_filesz ph) \<and> shows_mem strict mem (p_vaddr ph) bs) phs datas"

lemma captures_length: "captures strict mem phs datas \<Longrightarrow> length (concat datas) = load_bytes phs"
  unfolding captures_def by (induction rule: list_all2_induct) auto

lemma region_end:
  assumes "ph = load_phdr n r" "bounded_maps (r # rs)"
  shows "unat (start_addr r + p_filesz ph) + 1048576 < 18446744073709551616"
    "start_addr r \<le> start_addr r + p_filesz ph" "start_addr r + p_filesz ph - start_addr r = p_filesz ph"
proof -
  have "unat (start_addr r) + 1048576 < 18446744073709551616"
    using assms(2) by (auto simp: bounded_maps_def word_le_nat_alt)
  then show "unat (start_addr r + p_filesz ph) + 1048576 < 18446744073709551616"
    "start_addr r \<le> start_addr r + p_filesz ph" "start_addr r + p_filesz ph - start_addr r = p_filesz ph"
    using assms by (auto simp: bounded_maps_def)
qed

lemma write_regions_ends:
  "bounded_maps rs \<Longrightarrow> list_all2 (\<lambda>r ph. ph = load_phdr (unat (p_offset ph)) r) rs phs \<Longrightarrow>
   \<exists>r c' st'. write_regions cdc rs phs fs ms fd c st = Some (r, c', st') \<and>
    (\<forall>fs' ms'. idle st \<longrightarrow> r = Inr (fs', ms') \<longrightarrow>
       fs' = fs + load_bytes phs \<and> c' = c\<lparr>c_phdrs := c_phdrs c @ phs\<rparr> \<and>
       (\<exists>datas. captures False (mf_byte fd) phs datas \<and> sends_loads cdc st (concat datas) st' \<and>
          (undisturbed fd \<and> readable_maps (mf_byte fd) rs \<longrightarrow>
             captures True (mf_byte fd) phs datas \<and> ms' = ms + load_bytes phs)))"
proof (induction rs arbitrary: phs fs ms fd c st)
  case Nil
  then show ?case using sends_loads_refl by (auto simp: captures_def intro!: exI [of _ "[]"])
next
  case (Cons r rs)
  then obtain ph phs1 where phs: "phs = ph # phs1" "ph = load_phdr (unat (p_offset ph)) r"
    and rest: "list_all2 (\<lambda>r ph. ph = load_phdr (unat (p_offset ph)) r) rs phs1"
    by (cases phs) auto
  have ph: "p_vaddr ph = start_addr r" "p_filesz ph = (if perms r \<noteq> 0 then end_addr r - start_addr r else 0)"
    by (subst phs(2), simp)+
  note E = region_end [OF phs(2) Cons.prems(1)]
  let ?e = "start_addr r + p_filesz ph" and ?n = "unat (p_filesz ph)"
  obtain x fd1 st1 where w: "write_region cdc (start_addr r) ?e 0 ms fd st = Some (x, fd1, st1)" "same_memory fd fd1"
    and W: "\<And>sz ms1. idle st \<Longrightarrow> x = Inr (sz, ms1) \<Longrightarrow>
      sz = ?n \<and> (\<exists>bs got. ms1 = ms + got \<and> region_written cdc fd (start_addr r) ?n got st bs st1)"
    using write_region_ends [OF E(1,2), of cdc 0 ms fd st] unfolding E(3) add_0 by blast
  show ?case
  proof (cases x)
    case (Inl er)
    then show ?thesis using w phs by auto
  next
    case (Inr p)
    obtain sz ms1 where x: "x = Inr (sz, ms1)" using Inr by (cases p) auto
    let ?c = "c\<lparr>c_phdrs := c_phdrs c @ [ph]\<rparr>"
    have "bounded_maps rs" using Cons.prems(1) by (simp add: bounded_maps_def)
    from Cons.IH [OF this rest, of "fs + sz" ms1 fd1 ?c st1] obtain y c' st' where
      i: "write_regions cdc rs phs1 (fs + sz) ms1 fd1 ?c st1 = Some (y, c', st')"
      and I: "\<And>fs' ms'. idle st1 \<Longrightarrow> y = Inr (fs', ms') \<Longrightarrow>
        fs' = fs + sz + load_bytes phs1 \<and> c' = ?c\<lparr>c_phdrs := c_phdrs ?c @ phs1\<rparr> \<and>
        (\<exists>datas. captures False (mf_byte fd1) phs1 datas \<and> sends_loads cdc st1 (concat datas) st' \<and>
           (undisturbed fd1 \<and> readable_maps (mf_byte fd1) rs \<longrightarrow>
              captures True (mf_byte fd1) phs1 datas \<and> ms' = ms1 + load_bytes phs1))" by blast
    show ?thesis
    proof (cases "sz = ?n")
      case False
      then show ?thesis using w x phs W by auto
    next
      case True
      have eq: "write_regions cdc (r # rs) phs fs ms fd c st = Some (y, c', st')"
        using w x phs(1) True i by simp
      have "fs' = fs + load_bytes phs \<and> c' = c\<lparr>c_phdrs := c_phdrs c @ phs\<rparr> \<and>
         (\<exists>datas. captures False (mf_byte fd) phs datas \<and> sends_loads cdc st (concat datas) st' \<and>
            (undisturbed fd \<and> readable_maps (mf_byte fd) (r # rs) \<longrightarrow>
               captures True (mf_byte fd) phs datas \<and> ms' = ms + load_bytes phs))"
        if id: "idle st" and res: "y = Inr (fs', ms')" for fs' ms'
      proof -
        obtain bs got where b: "ms1 = ms + got" "region_written cdc fd (start_addr r) ?n got st bs st1"
          using W [OF id x] by blast
        note R = b(2) [unfolded region_written_def]
        have "idle st1" using R sends_loads_idle by blast
        from I [OF this res] obtain datas where d: "fs' = fs + sz + load_bytes phs1" "c' = ?c\<lparr>c_phdrs := c_phdrs ?c @ phs1\<rparr>"
          "captures False (mf_byte fd1) phs1 datas" "sends_loads cdc st1 (concat datas) st'"
          "undisturbed fd1 \<and> readable_maps (mf_byte fd1) rs \<longrightarrow>
              captures True (mf_byte fd1) phs1 datas \<and> ms' = ms1 + load_bytes phs1" by blast
        have m: "mf_byte fd1 = mf_byte fd" "undisturbed fd \<Longrightarrow> undisturbed fd1" using w(2) by (auto simp: same_memory_def)
        have rd: "readable_range (mf_byte fd) (start_addr r) ?n \<and> readable_maps (mf_byte fd) rs"
          if "readable_maps (mf_byte fd) (r # rs)"
          using that by (auto simp: readable_maps_def ph(2))
        have "sends_loads cdc st (concat (bs # datas)) st'" using sends_loads_trans [OF _ d(4)] R by (metis concat.simps(2))
        then show ?thesis
          using d m rd R b(1) True ph phs(1)
          by (intro conjI exI [of _ "bs # datas"]) (auto simp: captures_def)
      qed
      then show ?thesis using eq by blast
    qed
  qed
qed

lemma WriteLoads_ends:
  assumes "bounded_maps maps"
  shows "\<exists>r c' st'. WriteLoads cdc om pid maps c st = Some (r, c', st')"
proof -
  obtain x st1 where s: "SetBlock cdc 4 st = (x, st1)" by fastforce
  show ?thesis
  proof (cases "expected_load_phdrs maps")
    case (Inr p)
    obtain phs t where p: "expected_load_phdrs maps = Inr (phs, t)" using Inr by (cases p) auto
    have L: "list_all2 (\<lambda>r ph. ph = load_phdr (unat (p_offset ph)) r) maps phs"
      using load_phdrs_layout p by (auto simp: expected_load_phdrs_def)
    from write_regions_ends [OF assms L, of cdc 0 0 _ c st1] show ?thesis
      using s p by (auto simp: WriteLoads_def split: option.splits sum.splits) (metis option.distinct(1) | blast)+
  qed (simp add: WriteLoads_def)
qed

text \<open>A capture that succeeds wrote every byte of every segment.\<close>

lemma WriteLoads_Inr:
  assumes r: "WriteLoads cdc om pid maps c st = Some (Inr (), c', st')" and st: "idle st" and mp: "bounded_maps maps"
  obtains phs datas fd where "expected_load_phdrs maps = Inr (phs, load_bytes phs)" "phs \<noteq> []" "om pid = Some fd"
    "c' = c\<lparr>c_phdrs := c_phdrs c @ phs\<rparr>" "captures False (mf_byte fd) phs datas"
    "sends_loads cdc st (concat datas) st'" "load_bytes phs \<le> SSIZE_MAX" "contiguous 0 phs"
    "undisturbed fd \<Longrightarrow> readable_maps (mf_byte fd) maps \<Longrightarrow> captures True (mf_byte fd) phs datas"
    "list_all2 (\<lambda>r ph. ph = load_phdr (unat (p_offset ph)) r) maps phs"
proof -
  obtain phs t where p: "expected_load_phdrs maps = Inr (phs, t)" "phs \<noteq> []"
    using r by (auto simp: WriteLoads_def split: sum.splits if_splits)
  have L: "contiguous 0 phs" "t = load_bytes phs" "t \<le> SSIZE_MAX"
    "list_all2 (\<lambda>r ph. ph = load_phdr (unat (p_offset ph)) r) maps phs"
    using load_phdrs_layout [of 0 maps phs t] p by (auto simp: expected_load_phdrs_def)
  obtain fd n st1 where s: "om pid = Some fd" "SetBlock cdc 4 st = (Inr n, st1)"
    using r p by (auto simp: WriteLoads_def split: option.splits prod.splits sum.splits)
  obtain fs ms st2 where w: "write_regions cdc maps phs 0 0 fd c st1 = Some (Inr (fs, ms), c', st')"
    using r p s by (auto simp: WriteLoads_def split: option.splits prod.splits sum.splits if_splits)
  note S = idle_set_type [OF st s(2)]
  have id: "idle st1" using S by (simp add: idle_def)
  from write_regions_ends [OF mp L(4), of cdc 0 0 fd c st1] w id obtain datas where
    d: "c' = c\<lparr>c_phdrs := c_phdrs c @ phs\<rparr>" "captures False (mf_byte fd) phs datas" "sends_loads cdc st1 (concat datas) st'"
      "undisturbed fd \<and> readable_maps (mf_byte fd) maps \<longrightarrow> captures True (mf_byte fd) phs datas" by auto
  have "sends_loads cdc st [] st1" using S id by (auto simp: sends_loads_def load_blocks_def intro!: exI [of _ "[]"])
  from sends_loads_trans [OF this d(3)] have "sends_loads cdc st (concat datas) st'" by simp
  then show ?thesis using that [of phs fd datas] p L s d by auto
qed

end
