(* ===== verification/ReaderInv.thy ===== *)
theory ReaderInv
  imports AcoreLoads Lz4RoundTrip
begin

text \<open>
  Invariants of the reading side. Everything that reads an acore file goes through five
  operations of the stream; a property of the stream they keep is kept by \<^verbatim>\<open>GetFile\<close>,
  \<^verbatim>\<open>VerifyFileHeader\<close>, \<^verbatim>\<open>ReadMeta\<close>, \<^verbatim>\<open>ReadElfHeader\<close> and \<^verbatim>\<open>ReadLoads\<close>. Two such properties
  are used: the decoder's ring is intact, and the file can seek.
\<close>

locale reader_invariant =
  fixes cdc :: "('e, 'd) lz4_codec" and P :: "('e, 'd) stream \<Rightarrow> bool"
  assumes block: "ReadBlock cdc st = (x, st') \<Longrightarrow> P st \<Longrightarrow> P st'"
    and raw: "ReadRaw n st = (y, st') \<Longrightarrow> P st \<Longrightarrow> P st'"
    and seek: "Seek k st = (z, st') \<Longrightarrow> P st \<Longrightarrow> P st'"
    and frame: "P (set_block b st) = P st" "P (st\<lparr>s_clean := v\<rparr>) = P st" "P (st\<lparr>s_sums := v\<rparr>) = P st"
begin

lemma peek: "Peek n st = (r, st') \<Longrightarrow> P st \<Longrightarrow> P st'"
  by (auto simp: Peek_def frame split: if_splits sum.splits prod.splits dest: raw seek)

lemma getfile_loop: "getfile_loop cdc n acc st = (r, st') \<Longrightarrow> P st \<Longrightarrow> P st'"
proof (induction "n - length acc" arbitrary: acc st r st' rule: less_induct)
  case less
  obtain x st1 where rb: "ReadBlock cdc st = (x, st1)" by fastforce
  have ok: "P st1" by (rule block [OF rb less.prems(2)])
  have rec: "getfile_loop cdc n (acc @ got) (set_block b' st1) = (r, st') \<Longrightarrow> length acc < n \<Longrightarrow> got \<noteq> [] \<Longrightarrow> P st'"
    for got b' by (rule less.hyps [of "acc @ got"]) (auto simp: ok frame diff_less_mono2)
  from less.prems rb ok rec show ?case
    by (subst (asm) getfile_loop.simps)
      (auto simp: frame linorder_not_le split: if_splits option.splits sum.splits prod.splits)
qed

lemma getfile: "GetFile cdc st = (r, st') \<Longrightarrow> P st \<Longrightarrow> P st'"
  by (auto simp: GetFile_def Let_def frame split: if_splits sum.splits prod.splits dest: raw getfile_loop)

lemma get_files: "get_files cdc n st = (r, st') \<Longrightarrow> P st \<Longrightarrow> P st'"
  by (induction n arbitrary: st r) (auto simp: Let_def split: prod.splits dest: getfile)

lemma enable_sums: "EnableBlockChecksums on st = (r, st') \<Longrightarrow> P st \<Longrightarrow> P st'"
  by (auto simp: EnableBlockChecksums_def frame split: if_splits)

lemma file_header: "VerifyFileHeader c st = (r, st') \<Longrightarrow> P st \<Longrightarrow> P st'"
  by (auto simp: VerifyFileHeader_def Let_def split: if_splits sum.splits prod.splits dest: raw enable_sums)

lemma process_files: "read_process_files cdc c st = (r, st') \<Longrightarrow> P st \<Longrightarrow> P st'"
  by (auto simp: read_process_files_def Let_def split: if_splits prod.splits dest: get_files)

lemma thread: "read_thread cdc c i ids meta st = (r, st') \<Longrightarrow> P st \<Longrightarrow> P st'"
  by (auto simp: read_thread_def Let_def frame split: if_splits sum.splits prod.splits option.splits
      dest!: getfile block)

lemma threads: "read_threads cdc c n i meta ts st = (r, st') \<Longrightarrow> P st \<Longrightarrow> P st'"
  by (induction n arbitrary: i meta ts st) (auto split: sum.splits prod.splits dest: thread)

lemma read_meta: "ReadMeta cdc c st = (r, st') \<Longrightarrow> P st \<Longrightarrow> P st'"
  by (auto simp: ReadMeta_def frame split: if_splits sum.splits prod.splits option.splits
      dest!: block process_files threads)

lemma elf_blocks: "elf_blocks cdc m phs b st = (r, phs', st') \<Longrightarrow> P st \<Longrightarrow> P st'"
proof (induction "blocks_left m phs b" arbitrary: phs b st rule: less_induct)
  case less
  obtain x phs1 b1 where rp: "read_phdrs m phs b = (x, phs1, b1)" by (metis prod_cases3)
  obtain y st1 where pk: "Peek sizeof_BlockHeader (set_block b1 st) = (y, st1)" by fastforce
  have ok: "P st1" by (rule peek [OF pk]) (simp add: frame less.prems)
  have rec: "P st'" if "x = Inr u" "ReadBlock cdc st1 = (Some (hdr, b2), st2)"
      "elf_blocks cdc m phs1 b2 st2 = (r, phs', st')" for u hdr b2 st2
    using less.hyps [OF blocks_left_decreases that(3)] rp that(1) ReadBlock_nonempty [OF that(2)]
      block [OF that(2) ok] by blast
  from less.prems rp pk ok rec show ?case
    by (subst (asm) elf_blocks.simps)
      (auto simp: frame split: if_splits option.splits sum.splits prod.splits dest: block)
qed

lemma elf_header: "ReadElfHeader cdc m c st = (r, c', st') \<Longrightarrow> P st \<Longrightarrow> P st'"
  by (auto simp: ReadElfHeader_def Let_def frame split: if_splits sum.splits prod.splits option.splits
      dest!: block elf_blocks)

lemma loads_loop: "ReadLoads_loop cdc m n fout st = (r, fout', st') \<Longrightarrow> P st \<Longrightarrow> P st'"
proof (induction "m - n" arbitrary: n fout st rule: less_induct)
  case less
  obtain y st1 where pk: "Peek sizeof_BlockHeader st = (y, st1)" by fastforce
  have ok: "P st1" by (rule peek [OF pk less.prems(2)])
  have rec: "P st'" if "ReadBlock cdc st1 = (Some (hdr, b), st2)" "n \<le> m" "Block_Size b \<le> m - n"
      "ReadLoads_loop cdc m (n + Block_Size b) f st2 = (r, fout', st')" for hdr b st2 f
    using less.hyps [OF _ that(4)] ReadBlock_nonempty [OF that(1)] block [OF that(1) ok] that(2,3) by simp
  from less.prems pk ok rec show ?case
    by (subst (asm) ReadLoads_loop.simps)
      (auto simp: frame linorder_not_less split: if_splits option.splits sum.splits prod.splits dest: block)
qed

lemma loads: "ReadLoads cdc m fout st = (r, fout', st') \<Longrightarrow> P st \<Longrightarrow> P st'"
  by (auto simp: ReadLoads_def dest: loads_loop)

end

section \<open>The decoder's ring\<close>

lemma ReadBlock_ring_ok:
  assumes "ReadBlock cdc st = (x, st')" "ring_ok cdc st" "codec_bounds cdc"
  shows "ring_ok cdc st'"
proof (cases x)
  case None
  show ?thesis
  proof (cases "s_file st \<noteq> None \<and> s_dec st \<noteq> None")
    case True
    then show ?thesis using ReadBlock_None(1) [OF assms(1) [unfolded None] assms(2,3)] by simp
  next
    case False
    then have "st' = st\<lparr>s_clean := False\<rparr>"
      using assms(1) by (auto simp: ReadBlock_def split: option.splits)
    then show ?thesis using assms(2) by simp
  qed
next
  case (Some hb)
  then show ?thesis using ReadBlock_sound(5) [of cdc st "fst hb" "snd hb" st'] assms by simp
qed

interpretation ring: reader_invariant cdc "\<lambda>st. codec_bounds cdc \<longrightarrow> ring_ok cdc st"
  for cdc :: "('e, 'd) lz4_codec"
proof unfold_locales
  show "codec_bounds cdc \<longrightarrow> ring_ok cdc st'"
    if "ReadBlock cdc st = (x, st')" "codec_bounds cdc \<longrightarrow> ring_ok cdc st" for st st' x
    using that ReadBlock_ring_ok by blast
  show "codec_bounds cdc \<longrightarrow> ring_ok cdc st'"
    if "ReadRaw n st = (y, st')" "codec_bounds cdc \<longrightarrow> ring_ok cdc st" for n st st' y
    using that by (auto simp: ReadRaw_def split: option.splits if_splits prod.splits)
  show "codec_bounds cdc \<longrightarrow> ring_ok cdc st'"
    if "Seek k st = (z, st')" "codec_bounds cdc \<longrightarrow> ring_ok cdc st" for k st st' z
    using that by (auto simp: Seek_def split: option.splits if_splits)
qed (simp_all add: ring_ok_def)

section \<open>A file that can seek\<close>

definition seekable :: "('e, 'd) stream \<Rightarrow> bool" where
  "seekable st \<longleftrightarrow> (\<forall>f. s_file st = Some f \<longrightarrow> fl_seekable f)"

lemma ReadBlock_seekable:
  assumes "ReadBlock cdc st = (x, st')" "seekable st"
  shows "seekable st'"
proof -
  have d: "decode_block cdc hdr c k s = (y, s') \<Longrightarrow> s_file s' = s_file s" for hdr c k s y s'
    by (auto simp: decode_block_def Let_def split: option.splits prod.splits if_splits)
  from assms show ?thesis
    by (auto simp: ReadBlock_def seekable_def Let_def d split: option.splits prod.splits if_splits
        dest!: fread_frame)
qed

interpretation seeks: reader_invariant cdc seekable for cdc :: "('e, 'd) lz4_codec"
proof unfold_locales
  show "seekable st'" if "ReadBlock cdc st = (x, st')" "seekable st" for st st' x
    using that by (rule ReadBlock_seekable)
  show "seekable st'" if "ReadRaw n st = (y, st')" "seekable st" for n and st st' :: "('e, 'd) stream" and y
    using that by (auto simp: ReadRaw_def seekable_def split: option.splits if_splits prod.splits dest!: fread_frame)
  show "seekable st'" if "Seek k st = (z, st')" "seekable st" for k and st st' :: "('e, 'd) stream" and z
    using that by (auto simp: Seek_def seekable_def fseek_def split: option.splits if_splits)
qed (simp_all add: seekable_def)

end
