(* ===== verification/ElfTransfer.thy ===== *)
theory ElfTransfer
  imports LoadsWrite ReaderInv
begin

text \<open>
  The ELF header and the memory image through the stream: the blocks \<^verbatim>\<open>WriteElfHeader\<close>
  writes hold whole program headers, and \<^verbatim>\<open>ReadElfHeader\<close> and \<^verbatim>\<open>ReadLoads\<close> collect what
  was written until \<^verbatim>\<open>Peek\<close> shows a block of another type.
\<close>

section \<open>Items that are not split\<close>

text \<open>
  \<^verbatim>\<open>Write\<close> of items smaller than a block, from pending bytes \<open>p\<close>: the sealed blocks and
  the pending bytes.
\<close>

fun pack :: "bytes \<Rightarrow> bytes list \<Rightarrow> bytes list \<times> bytes" where
  "pack p [] = ([], p)"
| "pack p (x # xs) =
     (if length p + length x \<le> BLOCK_SIZE then pack (p @ x) xs
      else let (bs, q) = pack x xs in (p # bs, q))"

definition elf_lblocks :: "bytes list \<Rightarrow> lblock list" where
  "elf_lblocks xs = map (\<lambda>x. (0, 5, x)) xs"

lemma elf_lblocks_simps [simp]: "elf_lblocks [] = []" "elf_lblocks (x # xs) = (0, 5, x) # elf_lblocks xs"
  "elf_lblocks (xs @ ys) = elf_lblocks xs @ elf_lblocks ys" "length (elf_lblocks xs) = length xs"
  by (simp_all add: elf_lblocks_def)

lemma Write_spills:
  assumes w: "writer st" and s: "length s > BLOCK_SIZE - length (pending st)" "length s < BLOCK_SIZE"
    and r: "Write cdc (Some s) st = (Inr n, st')"
  shows "writer st' \<and> pending st' = s \<and> appended cdc st (sealed st) st' \<and> s_type st' = s_type st"
proof -
  from w obtain f e where fe: "s_file st = Some f" "s_enc st = Some e" by (auto simp: writer_def)
  have av: "Block_Available (CurrentBlock st) = BLOCK_SIZE - length (pending st)"
    by (simp add: Block_Available_def pending_def)
  have ne: "s \<noteq> []" using s(1) by auto
  obtain m st1 where fl: "Flush cdc st = (Inr m, st1)" and bp: "block_put s st1 = (Inr n, st')"
    using r fe ne s by (cases "Flush cdc st"; cases "fst (Flush cdc st)") (simp_all add: Write_def av split: if_splits)
  note F = Flush_Inr [OF w fl]
  have "length s \<le> BLOCK_SIZE - length (pending st1)" using F(2) s(2) by simp
  note B = block_put_fits [OF F(1) this bp]
  show ?thesis using B F(2,5) appended_trans [OF F(3) B(4)] by simp
qed

lemma write_phdrs_pack:
  "write_phdrs cdc phs st = (Inr (), st') \<Longrightarrow> writer st \<Longrightarrow> s_type st = 5 \<Longrightarrow> pending st \<noteq> [] \<Longrightarrow>
   pack (pending st) (map put_phdr phs) = (bs, q) \<Longrightarrow>
   writer st' \<and> pending st' = q \<and> q \<noteq> [] \<and> s_type st' = 5 \<and> appended cdc st (elf_lblocks bs) st'"
proof (induction phs arbitrary: st bs q)
  case Nil
  then show ?case using appended_refl by auto
next
  case (Cons ph phs)
  obtain n st1 where w: "Write cdc (Some (put_phdr ph)) st = (Inr n, st1)" "write_phdrs cdc phs st1 = (Inr (), st')"
    using Cons.prems(1) by (auto split: prod.splits sum.splits)
  have ne: "put_phdr ph \<noteq> []" by (metis length_put_phdr list.size(3) zero_neq_numeral)
  show ?case
  proof (cases "length (pending st) + 56 \<le> BLOCK_SIZE")
    case True
    then have "length (put_phdr ph) \<le> BLOCK_SIZE - length (pending st)" by simp
    note W = Write_fits [OF Cons.prems(2) this w(1)]
    have "pack (pending st1) (map put_phdr phs) = (bs, q)" using Cons.prems(5) True W by simp
    from Cons.IH [OF w(2) _ _ _ this] W Cons.prems(3,4) appended_trans [of cdc st "[]" st1] show ?thesis by auto
  next
    case False
    then have "length (put_phdr ph) > BLOCK_SIZE - length (pending st)" "length (put_phdr ph) < BLOCK_SIZE" by simp_all
    note W = Write_spills [OF Cons.prems(2) this w(1)]
    obtain cs where c: "pack (pending st1) (map put_phdr phs) = (cs, q)" "bs = pending st # cs"
      using Cons.prems(5) False W by (auto simp: Let_def split: prod.splits)
    have "sealed st = elf_lblocks [pending st]" using Cons.prems(3,4) by (simp add: sealed_def)
    then have a: "appended cdc st (elf_lblocks [pending st]) st1" using W by simp
    from Cons.IH [OF w(2) _ _ _ c(1)] W Cons.prems(3) ne appended_trans [OF a] c(2) show ?thesis by auto
  qed
qed

text \<open>The blocks hold whole headers.\<close>

definition phdr_bytes :: "Phdr list \<Rightarrow> bytes" where
  "phdr_bytes phs = concat (map put_phdr phs)"

lemma phdr_bytes_simps [simp]: "phdr_bytes [] = []" "phdr_bytes (p # ps) = put_phdr p @ phdr_bytes ps"
  "phdr_bytes (as @ cs) = phdr_bytes as @ phdr_bytes cs"
  by (simp_all add: phdr_bytes_def)

lemma length_phdr_bytes [simp]: "length (phdr_bytes ps) = 56 * length ps"
  by (induction ps) auto

lemma pack_groups:
  "pack (pre @ phdr_bytes cur) (map put_phdr phs) = (bs, q) \<Longrightarrow> length (pre @ phdr_bytes cur) \<le> BLOCK_SIZE \<Longrightarrow>
   \<exists>g gs. bs @ [q] = (pre @ phdr_bytes g) # map phdr_bytes gs \<and> g @ concat gs = cur @ phs \<and> (\<exists>h. g = cur @ h) \<and>
     (\<forall>x \<in> set gs. x \<noteq> []) \<and> (\<forall>x \<in> set (bs @ [q]). length x \<le> BLOCK_SIZE)"
proof (induction phs arbitrary: pre cur bs q)
  case Nil
  then show ?case by (intro exI [of _ cur] exI [of _ "[]"]) auto
next
  case (Cons ph phs)
  show ?case
  proof (cases "length (pre @ phdr_bytes cur) + 56 \<le> BLOCK_SIZE")
    case True
    then have pk: "pack (pre @ phdr_bytes (cur @ [ph])) (map put_phdr phs) = (bs, q)" using Cons.prems(1) by simp
    have len: "length (pre @ phdr_bytes (cur @ [ph])) \<le> BLOCK_SIZE" using True by simp
    have c: "(cur @ [ph]) @ xs = cur @ ph # xs" for xs by simp
    from Cons.IH [OF pk len, unfolded c] obtain g gs h where "bs @ [q] = (pre @ phdr_bytes g) # map phdr_bytes gs"
      "g @ concat gs = cur @ ph # phs" "g = cur @ ph # h" "\<forall>x \<in> set gs. x \<noteq> []"
      "\<forall>x \<in> set (bs @ [q]). length x \<le> BLOCK_SIZE" by blast
    then show ?thesis by blast
  next
    case False
    then obtain cs where c: "pack ([] @ phdr_bytes [ph]) (map put_phdr phs) = (cs, q)" "bs = (pre @ phdr_bytes cur) # cs"
      using Cons.prems(1) by (auto simp: Let_def split: prod.splits)
    have len: "length ([] @ phdr_bytes [ph]) \<le> BLOCK_SIZE" by simp
    from Cons.IH [OF c(1) len, unfolded append_Nil append_Cons] obtain g gs h where
      g: "cs @ [q] = phdr_bytes g # map phdr_bytes gs" "g @ concat gs = ph # phs"
      "g = ph # h" "\<forall>x \<in> set gs. x \<noteq> []" "\<forall>x \<in> set (cs @ [q]). length x \<le> BLOCK_SIZE" by blast
    then show ?thesis using c(2) Cons.prems(2) by (intro exI [of _ cur] exI [of _ "g # gs"]) auto
  qed
qed

text \<open>All blocks of \<^verbatim>\<open>WriteElfHeader\<close>: the ELF header, then the program headers.\<close>

lemma WriteElfHeader_Inr:
  assumes r: "WriteElfHeader cdc platform c st = (Inr (), st')" and st: "idle st"
  obtains g gs where "idle st'" "length (c_phdrs c) < 65535" "g @ concat gs = c_phdrs c" "\<forall>x \<in> set gs. x \<noteq> []"
    "\<forall>x \<in> set gs. 56 * length x \<le> BLOCK_SIZE" "64 + 56 * length g \<le> BLOCK_SIZE"
    "appended cdc st (elf_lblocks
       ((put_ehdr (Ehdr_new\<lparr>e_phnum := word_of_nat (length (c_phdrs c)), e_machine := platform_machine platform\<rparr>)
         @ phdr_bytes g) # map phdr_bytes gs)) st'"
proof -
  let ?e = "put_ehdr (Ehdr_new\<lparr>e_phnum := word_of_nat (length (c_phdrs c)), e_machine := platform_machine platform\<rparr>)"
  have e: "length ?e = 64" by (rule cehdr.enc_length) simp
  obtain m st1 n st2 k st3 where s: "length (c_phdrs c) < 65535" "SetBlock cdc 5 st = (Inr m, st1)"
    "Write cdc (Some ?e) st1 = (Inr n, st2)" "write_phdrs cdc (c_phdrs c) st2 = (Inr (), st3)" "Flush cdc st3 = (Inr k, st')"
    using r by (auto simp: WriteElfHeader_def split: if_splits prod.splits sum.splits)
  note S = idle_set_type [OF st s(2)]
  have "length ?e \<le> BLOCK_SIZE - length (pending st1)" using S e by simp
  note W = Write_fits [OF _ this s(3)]
  have p2: "pending st2 = ?e" "writer st2" "s_type st2 = 5" using W S by auto
  have e_ne: "?e \<noteq> []" using e by auto
  obtain bs q where pk: "pack (?e @ phdr_bytes []) (map put_phdr (c_phdrs c)) = (bs, q)" by fastforce
  then have "pack (pending st2) (map put_phdr (c_phdrs c)) = (bs, q)" using p2(1) by simp
  note P = write_phdrs_pack [OF s(4) p2(2,3) _ this]
  have P: "writer st3" "pending st3 = q" "q \<noteq> []" "s_type st3 = 5" "appended cdc st2 (elf_lblocks bs) st3"
    using P p2(1) e_ne by auto
  note F = Flush_Inr [OF P(1) s(5)]
  have sl: "sealed st3 = elf_lblocks [q]" using P by (simp add: sealed_def)
  have a2: "appended cdc st [] st2" using appended_trans [of cdc st "[]" st1 "[]" st2] W S by simp
  have "appended cdc st ([] @ elf_lblocks bs @ elf_lblocks [q]) st'"
    using appended_trans [OF a2 appended_trans [OF P(5)]] F(3) sl by simp
  then have a: "appended cdc st (elf_lblocks (bs @ [q])) st'" by simp
  have l: "length (?e @ phdr_bytes []) \<le> BLOCK_SIZE" using e by simp
  from pack_groups [OF pk l] obtain g gs where g: "bs @ [q] = (?e @ phdr_bytes g) # map phdr_bytes gs"
    "g @ concat gs = c_phdrs c" "\<forall>x \<in> set gs. x \<noteq> []" "\<forall>x \<in> set (bs @ [q]). length x \<le> BLOCK_SIZE" unfolding append_Nil by blast
  have "\<forall>x \<in> set gs. 56 * length x \<le> BLOCK_SIZE" "64 + 56 * length g \<le> BLOCK_SIZE"
    using g(4) e unfolding g(1) by auto
  then show ?thesis using that [of g gs] g a s(1) F by (simp add: idle_def)
qed

section \<open>Looking ahead\<close>

lemma Peek_fed_any:
  assumes "fed cdc sync ck e ix rd inp" "seekable rd" "0 < n" "n \<le> INT_MAX"
  obtains rd' where "Peek n rd = (Inr (take n inp), rd')" "fed cdc sync ck e ix rd' inp" "seekable rd'"
    "s_index rd' = s_index rd" "s_enc rd' = s_enc rd" "s_mode rd' = s_mode rd"
proof -
  from assms obtain f d where st: "reader cdc rd" "s_sums rd = ck" "s_file rd = Some f" "unread f = inp"
    "s_dec rd = Some d" "sync e ix d (s_off rd)" "fl_seekable f" by (auto simp: fed_def seekable_def)
  then have h: "healthy f" by (auto simp: reader_def)
  obtain got f1 where r: "fread n f = (got, f1)" by fastforce
  note R = fread_healthy [OF h r] and F = fread_frame [OF r]
  let ?f = "f1\<lparr>fl_pos := fl_pos f, fl_eof := False\<rparr>"
  have "Peek n rd = (Inr (take n inp), rd\<lparr>s_file := Some ?f\<rparr>)"
    using st R F r assms(3,4) by (simp add: Peek_def Tell_def ftell_def ReadRaw_def Seek_def fseek_def)
  moreover have "fed cdc sync ck e ix (rd\<lparr>s_file := Some ?f\<rparr>) inp" "seekable (rd\<lparr>s_file := Some ?f\<rparr>)"
    using st R F by (auto simp: fed_def reader_def healthy_def unread_def seekable_def)
  ultimately show ?thesis by (rule that) simp_all
qed

lemma Peek_fed:
  assumes "fed cdc sync ck e ix rd inp" "seekable rd"
  obtains rd' where "Peek sizeof_BlockHeader rd = (Inr (take 3 inp), rd')" "fed cdc sync ck e ix rd' inp" "seekable rd'"
  by (rule Peek_fed_any [OF assms, of 3]) auto

text \<open>\<open>stops_at t inp\<close>: what follows is not a block of type \<open>t\<close>.\<close>

definition stops_at :: "nat \<Rightarrow> bytes \<Rightarrow> bool" where
  "stops_at t inp \<longleftrightarrow> length inp < 3 \<or> unat (hdr_type (get_hdr (take 3 inp))) \<noteq> t"

lemma peeked_block:
  assumes "encode_block cdc ck ix e (c, t', raw) = Some (out, e')"
  obtains h where "take 3 (out @ rest) = put_hdr h" "unat (hdr_type h) = unat t'"
proof -
  obtain b where b: "out = frame ck (block_hdr c t' (length b)) b raw"
    using assms by (auto split: option.splits prod.splits if_splits)
  show ?thesis by (rule that [of "block_hdr c t' (length b)"]) (simp_all add: b frame_def, simp add: block_hdr_def)
qed

lemma stops_at_other:
  assumes "encode_block cdc ck ix e (c, t', raw) = Some (out, e')" "unat t' \<noteq> t"
  shows "stops_at t (out @ rest)"
  by (rule peeked_block [OF assms(1), of rest]) (use assms(2) in \<open>simp add: stops_at_def\<close>)

lemma stops_at_tail: "t \<noteq> 15 \<Longrightarrow> stops_at t (put_hdr TailMark @ rest)"
  by (simp add: stops_at_def) (simp add: TailMark_def)

section \<open>Reading the ELF blocks\<close>

lemma read_phdrs_all:
  "block_rest b = phdr_bytes g \<Longrightarrow> length phs + length g \<le> m \<Longrightarrow> \<forall>ph \<in> set g. p_type ph = PT_LOAD \<Longrightarrow>
   \<exists>b'. read_phdrs m phs b = (Inr (), phs @ g, b')"
proof (induction g arbitrary: phs b)
  case Nil
  then show ?case by (subst read_phdrs.simps) (simp add: Block_Size_rest)
next
  case (Cons ph g)
  let ?b = "b\<lparr>b_cur := b_cur b + 56\<rparr>"
  have r: "block_rest b = put_phdr ph @ phdr_bytes g" using Cons.prems(1) by simp
  have "block_rest ?b = drop 56 (block_rest b)" by (simp add: block_rest_def add.commute)
  then have r': "block_rest ?b = phdr_bytes g" by (simp add: r)
  have s: "Block_Size b \<noteq> 0" "\<not> length phs \<ge> m" using r Cons.prems(2) by (simp_all add: Block_Size_rest)
  have "Block_Read 56 b = (Inr (put_phdr ph), ?b)" using Block_Read_prefix [OF r] by simp
  then have "read_phdrs m phs b = read_phdrs m (phs @ [ph]) ?b"
    using s Cons.prems(3) by (subst read_phdrs.simps) simp
  moreover obtain b' where "read_phdrs m (phs @ [ph]) ?b = (Inr (), (phs @ [ph]) @ g, b')"
    using Cons.IH [OF r', of "phs @ [ph]"] Cons.prems(2,3) by auto
  ultimately show ?case by simp
qed

lemma elf_blocks_fed:
  assumes ok: "codec_ok cdc sync"
  shows "fed cdc sync ck e ix rd (out @ rest) \<Longrightarrow> seekable rd \<Longrightarrow>
    encode_blocks cdc ck ix e (elf_lblocks (map phdr_bytes gs)) = Some (out, e') \<Longrightarrow> ix < 2 \<Longrightarrow>
    \<forall>x \<in> set gs. x \<noteq> [] \<and> 56 * length x \<le> BLOCK_SIZE \<Longrightarrow> stops_at 5 rest \<Longrightarrow>
    block_rest b = phdr_bytes g \<Longrightarrow> length phs + length (g @ concat gs) \<le> m \<Longrightarrow>
    \<forall>ph \<in> set (g @ concat gs). p_type ph = PT_LOAD \<Longrightarrow>
    \<exists>rd'. elf_blocks cdc m phs b rd = (Inr (), phs @ g @ concat gs, rd') \<and>
      fed cdc sync ck e' ((ix + length gs) mod 2) rd' rest \<and> seekable rd'"
proof (induction gs arbitrary: e ix rd out b g phs)
  case Nil
  obtain b' where r: "read_phdrs m phs b = (Inr (), phs @ g, b')"
    using read_phdrs_all [OF Nil.prems(7), of phs m] Nil.prems(8,9) by auto
  have f: "fed cdc sync ck e ix (set_block b' rd) rest" "seekable (set_block b' rd)"
    using Nil.prems(1,2,3) by (simp_all add: seekable_def)
  obtain rd' where p: "Peek sizeof_BlockHeader (set_block b' rd) = (Inr (take 3 rest), rd')"
    "fed cdc sync ck e ix rd' rest" "seekable rd'" by (rule Peek_fed [OF f])
  show ?case using Nil.prems r p by (subst elf_blocks.simps) (auto simp: stops_at_def)
next
  case (Cons x gs)
  obtain b' where r: "read_phdrs m phs b = (Inr (), phs @ g, b')"
    using read_phdrs_all [OF Cons.prems(7), of phs m] Cons.prems(8,9) by auto
  obtain o1 e1 o2 where enc: "encode_block cdc ck ix e (0, 5, phdr_bytes x) = Some (o1, e1)"
    "encode_blocks cdc ck (Suc ix mod 2) e1 (elf_lblocks (map phdr_bytes gs)) = Some (o2, e')" "out = o1 @ o2"
    using Cons.prems(3) by (auto simp del: encode_block.simps split: option.splits)
  have f: "fed cdc sync ck e ix (set_block b' rd) (o1 @ (o2 @ rest))" "seekable (set_block b' rd)"
    using Cons.prems(1,2) enc(3) by (simp_all add: seekable_def)
  obtain h where h: "take 3 (o1 @ (o2 @ rest)) = put_hdr h" "unat (hdr_type h) = 5"
    by (rule peeked_block [OF enc(1), of "o2 @ rest"]) simp
  obtain rd1 where p: "Peek sizeof_BlockHeader (set_block b' rd) = (Inr (put_hdr h), rd1)"
    "fed cdc sync ck e ix rd1 (o1 @ (o2 @ rest))" "seekable rd1" by (rule Peek_fed [OF f, unfolded h(1)])
  have x: "phdr_bytes x \<noteq> []" "length (phdr_bytes x) \<le> BLOCK_SIZE"
    using Cons.prems(5) by (auto simp flip: length_greater_0_conv)
  obtain n rd2 where rb: "ReadBlock cdc rd1 = (Some (block_hdr 0 5 n, \<lparr>b_cur = 0, b_buf = phdr_bytes x\<rparr>), rd2)"
    "fed cdc sync ck e1 (Suc ix mod 2) rd2 (o2 @ rest)"
    by (rule ReadBlock_fed [OF p(2) ok enc(1) x])
  have sk: "seekable rd2" using ReadBlock_seekable [OF rb(1) p(3)] .
  have br: "block_rest \<lparr>b_cur = 0, b_buf = phdr_bytes x\<rparr> = phdr_bytes x" by (simp add: block_rest_def)
  have "elf_blocks cdc m phs b rd = elf_blocks cdc m (phs @ g) \<lparr>b_cur = 0, b_buf = phdr_bytes x\<rparr> rd2"
    by (subst elf_blocks.simps) (simp add: r p(1) rb(1) h)
  moreover obtain rd' where "elf_blocks cdc m (phs @ g) \<lparr>b_cur = 0, b_buf = phdr_bytes x\<rparr> rd2 =
      (Inr (), (phs @ g) @ x @ concat gs, rd')" "fed cdc sync ck e' ((Suc ix mod 2 + length gs) mod 2) rd' rest"
    "seekable rd'"
    using Cons.IH [OF rb(2) sk enc(2) _ _ Cons.prems(6) br, of "phs @ g"] Cons.prems(5,8,9) by auto
  moreover have "(Suc ix mod 2 + length gs) mod 2 = (ix + length (x # gs)) mod 2" by (simp add: mod_simps)
  ultimately show ?case by simp
qed

section \<open>Reading the memory image\<close>

text \<open>What writing does not change: the limits of the file and the outcome of closing it.\<close>

definition same_sink :: "FILE \<Rightarrow> FILE \<Rightarrow> bool" where
  "same_sink f f' \<longleftrightarrow>
     fl_limit f' = fl_limit f \<and> fl_seekable f' = fl_seekable f \<and> fl_flush_ok f' = fl_flush_ok f \<and>
     fl_sync_ok f' = fl_sync_ok f \<and> fl_close_ok f' = fl_close_ok f"

lemma same_sink_refl [simp]: "same_sink f f"
  by (simp add: same_sink_def)

lemma same_sink_trans [trans]: "same_sink f f1 \<Longrightarrow> same_sink f1 f2 \<Longrightarrow> same_sink f f2"
  by (simp add: same_sink_def)

lemma fwrite_sink: "fwrite bs f = (n, f') \<Longrightarrow> same_sink f f'"
  by (auto dest: fwrite_frame simp: same_sink_def)

lemma ReadLoads_fed:
  assumes ok: "codec_ok cdc sync"
  shows "fed cdc sync ck e ix rd (out @ rest) \<Longrightarrow> seekable rd \<Longrightarrow>
    encode_blocks cdc ck ix e (load_blocks xs) = Some (out, e') \<Longrightarrow> ix < 2 \<Longrightarrow>
    \<forall>x \<in> set xs. x \<noteq> [] \<and> length x \<le> BLOCK_SIZE \<Longrightarrow> stops_at 4 rest \<Longrightarrow>
    n + length (concat xs) \<le> m \<Longrightarrow> m \<le> SSIZE_MAX \<Longrightarrow> at_end fout \<Longrightarrow> \<not> fl_err fout \<Longrightarrow>
    length (fl_data fout) + length (concat xs) \<le> fl_limit fout \<Longrightarrow>
    \<exists>rd' fout'. ReadLoads_loop cdc m n fout rd = (Inr (n + length (concat xs)), fout', rd') \<and>
      fed cdc sync ck e' ((ix + length xs) mod 2) rd' rest \<and> seekable rd' \<and>
      fl_data fout' = fl_data fout @ concat xs \<and> at_end fout' \<and> \<not> fl_err fout' \<and> same_sink fout fout'"
proof (induction xs arbitrary: e ix rd out n fout)
  case Nil
  have f: "fed cdc sync ck e ix rd rest" using Nil.prems(1,3) by (simp add: load_blocks_def)
  obtain rd' where p: "Peek sizeof_BlockHeader rd = (Inr (take 3 rest), rd')" "fed cdc sync ck e ix rd' rest" "seekable rd'"
    by (rule Peek_fed [OF f Nil.prems(2)])
  show ?case using Nil.prems p by (subst ReadLoads_loop.simps) (auto simp: stops_at_def load_blocks_def)
next
  case (Cons x xs)
  obtain o1 e1 o2 where enc: "encode_block cdc ck ix e (0, 4, x) = Some (o1, e1)"
    "encode_blocks cdc ck (Suc ix mod 2) e1 (load_blocks xs) = Some (o2, e')" "out = o1 @ o2"
    using Cons.prems(3) by (auto simp: load_blocks_def simp del: encode_block.simps split: option.splits)
  have f: "fed cdc sync ck e ix rd (o1 @ (o2 @ rest))" using Cons.prems(1) enc(3) by simp
  obtain h where h: "take 3 (o1 @ (o2 @ rest)) = put_hdr h" "unat (hdr_type h) = 4"
    by (rule peeked_block [OF enc(1), of "o2 @ rest"]) simp
  obtain rd1 where p: "Peek sizeof_BlockHeader rd = (Inr (put_hdr h), rd1)"
    "fed cdc sync ck e ix rd1 (o1 @ (o2 @ rest))" "seekable rd1" by (rule Peek_fed [OF f Cons.prems(2), unfolded h(1)])
  have x: "x \<noteq> []" "length x \<le> BLOCK_SIZE" using Cons.prems(5) by auto
  obtain k rd2 where rb: "ReadBlock cdc rd1 = (Some (block_hdr 0 4 k, \<lparr>b_cur = 0, b_buf = x\<rparr>), rd2)"
    "fed cdc sync ck e1 (Suc ix mod 2) rd2 (o2 @ rest)"
    by (rule ReadBlock_fed [OF p(2) ok enc(1) x])
  have sk: "seekable rd2" using ReadBlock_seekable [OF rb(1) p(3)] .
  have bs: "Block_Size \<lparr>b_cur = 0, b_buf = x\<rparr> = length x" "block_rest \<lparr>b_cur = 0, b_buf = x\<rparr> = x"
    by (simp_all add: Block_Size_def block_rest_def)
  have "length (fl_data fout) + length x + length (concat xs) \<le> fl_limit fout" using Cons.prems(11) by simp
  from fwrite_room [OF Cons.prems(9) this Cons.prems(10)] obtain fout1 where
    w: "fwrite x fout = (length x, fout1)" "\<not> fl_err fout1" by blast
  note W = fwrite_full [OF w(1) Cons.prems(9)]
  have c: "n + length x + length (concat xs) \<le> m" using Cons.prems(7) by simp
  then have g: "\<not> (n > m \<or> length x > m - n)" "\<not> length x > SSIZE_MAX - n" using Cons.prems(8) by auto
  have "ReadLoads_loop cdc m n fout rd = ReadLoads_loop cdc m (n + length x) fout1 rd2"
    by (subst ReadLoads_loop.simps) (use g w(1) in \<open>simp add: p(1) rb(1) h bs\<close>)
  moreover have lim: "length (fl_data fout1) + length (concat xs) \<le> fl_limit fout1"
    using Cons.prems(11) W(1,4) by simp
  obtain rd' fout' where "ReadLoads_loop cdc m (n + length x) fout1 rd2 = (Inr (n + length x + length (concat xs)), fout', rd')"
    "fed cdc sync ck e' ((Suc ix mod 2 + length xs) mod 2) rd' rest" "seekable rd'"
    "fl_data fout' = fl_data fout1 @ concat xs" "at_end fout'" "\<not> fl_err fout'" "same_sink fout1 fout'"
    using Cons.IH [OF rb(2) sk enc(2) _ _ Cons.prems(6) c Cons.prems(8) W(2) w(2) lim] Cons.prems(5) by auto
  moreover have "(Suc ix mod 2 + length xs) mod 2 = (ix + length (x # xs)) mod 2" by (simp add: mod_simps)
  ultimately show ?case using W same_sink_trans [OF fwrite_sink [OF w(1)]] by (simp add: add.assoc)
qed

section \<open>Through the stream\<close>

lemma appended_in_step:
  assumes "appended cdc st bs st'" "in_step cdc sync st rd (new_bytes st st' @ rest)"
  obtains e out e' where "s_enc st = Some e" "s_enc st' = Some e'"
    "encode_blocks cdc (s_sums st) (cur_ix st) e bs = Some (out, e')"
    "fed cdc sync (s_sums st) e (cur_ix st) rd (out @ rest)" "new_bytes st st' = out"
    "cur_ix st' = (cur_ix st + length bs) mod 2" "s_sums st' = s_sums st"
proof -
  from assms(1) obtain f e f' e' out where a: "s_file st = Some f" "s_enc st = Some e" "s_file st' = Some f'"
    "s_enc st' = Some e'" "encode_blocks cdc (s_sums st) (cur_ix st) e bs = Some (out, e')"
    "fl_data f' = fl_data f @ out" "cur_ix st' = (cur_ix st + length bs) mod 2" "s_sums st' = s_sums st"
    unfolding appended_def by auto
  then have "new_bytes st st' = out" by (simp add: new_bytes_def)
  with a assms(2) show ?thesis by (intro that [of e e' out]) (auto simp: in_step_def)
qed

lemma loads_in_step:
  assumes ok: "codec_ok cdc sync" and s: "sends_loads cdc st bs st'"
    and r: "in_step cdc sync st rd (new_bytes st st' @ rest)" "seekable rd" and stop: "stops_at 4 rest"
    and m: "length bs \<le> m" "m \<le> SSIZE_MAX"
    and f: "at_end fout" "\<not> fl_err fout" "length (fl_data fout) + length bs \<le> fl_limit fout"
  obtains rd' fout' where "ReadLoads cdc m fout rd = (Inr (length bs), fout', rd')" "in_step cdc sync st' rd' rest"
    "seekable rd'" "fl_data fout' = fl_data fout @ bs" "at_end fout'" "\<not> fl_err fout'" "same_sink fout fout'"
proof -
  from s obtain xs where x: "concat xs = bs" "\<forall>x \<in> set xs. x \<noteq> [] \<and> length x \<le> BLOCK_SIZE"
    "appended cdc st (load_blocks xs) st'" by (auto simp: sends_loads_def)
  obtain e e' out where a: "s_enc st' = Some e'" "encode_blocks cdc (s_sums st) (cur_ix st) e (load_blocks xs) = Some (out, e')"
    "fed cdc sync (s_sums st) e (cur_ix st) rd (out @ rest)" "cur_ix st' = (cur_ix st + length (load_blocks xs)) mod 2"
    "s_sums st' = s_sums st" by (rule appended_in_step [OF x(3) r(1)])
  have l: "0 + length (concat xs) \<le> m" "length (fl_data fout) + length (concat xs) \<le> fl_limit fout"
    using m f x(1) by simp_all
  from ReadLoads_fed [OF ok a(3) r(2) a(2) cur_ix_less x(2) stop l(1) m(2) f(1,2) l(2)]
  show ?thesis using that a x(1) by (auto simp: ReadLoads_def in_step_def load_blocks_def)
qed

text \<open>The ELF header as the capture writes it.\<close>

definition capture_ehdr :: "nat \<Rightarrow> nat \<Rightarrow> Ehdr" where
  "capture_ehdr platform n = Ehdr_new\<lparr>e_phnum := word_of_nat n, e_machine := platform_machine platform\<rparr>"

lemma capture_ehdr_facts [simp]:
  "wf_ehdr (capture_ehdr platform n)" "\<not> bad_ehdr (capture_ehdr platform n)"
  "e_phnum (capture_ehdr platform n) = word_of_nat n" "e_machine (capture_ehdr platform n) = platform_machine platform"
  by (simp_all add: capture_ehdr_def bad_ehdr_def Ehdr_new_def wf_ehdr_def)

lemma capture_ehdr_machine: "c_arch c = platform \<Longrightarrow> platform < ARCH_MAX \<Longrightarrow> \<not> machine_mismatch c (capture_ehdr platform n)"
  by (auto simp: machine_mismatch_def platform_machine_def)

lemma elf_in_step:
  assumes ok: "codec_ok cdc sync" and w: "WriteElfHeader cdc platform cw st = (Inr (), st')" "idle st"
    and r: "in_step cdc sync st rd (new_bytes st st' @ rest)" "seekable rd" and stop: "stops_at 5 rest"
    and c: "c_arch c = platform" "platform < ARCH_MAX" and m: "length (c_phdrs c) + length (c_phdrs cw) \<le> m"
    and ld: "\<forall>ph \<in> set (c_phdrs cw). p_type ph = PT_LOAD"
  obtains rd' where "ReadElfHeader cdc m c rd =
      (Inr (), c\<lparr>c_ehdr := capture_ehdr platform (length (c_phdrs cw)), c_phdrs := c_phdrs c @ c_phdrs cw\<rparr>, rd')"
    "in_step cdc sync st' rd' rest" "seekable rd'" "idle st'" "length (c_phdrs cw) < 65535"
proof -
  obtain g gs where G: "idle st'" "length (c_phdrs cw) < 65535" "g @ concat gs = c_phdrs cw" "\<forall>x \<in> set gs. x \<noteq> []"
    "\<forall>x \<in> set gs. 56 * length x \<le> BLOCK_SIZE" "64 + 56 * length g \<le> BLOCK_SIZE"
    and a0: "appended cdc st (elf_lblocks ((put_ehdr (capture_ehdr platform (length (c_phdrs cw))) @ phdr_bytes g)
        # map phdr_bytes gs)) st'"
    by (rule WriteElfHeader_Inr [OF w, folded capture_ehdr_def])
  let ?eh = "capture_ehdr platform (length (c_phdrs cw))"
  let ?raw = "put_ehdr ?eh @ phdr_bytes g"
  have e: "length (put_ehdr ?eh) = 64" by (rule cehdr.enc_length) simp
  obtain e0 e' out where a: "s_enc st' = Some e'"
    "encode_blocks cdc (s_sums st) (cur_ix st) e0 (elf_lblocks (?raw # map phdr_bytes gs)) = Some (out, e')"
    "fed cdc sync (s_sums st) e0 (cur_ix st) rd (out @ rest)"
    "cur_ix st' = (cur_ix st + length (elf_lblocks (?raw # map phdr_bytes gs))) mod 2" "s_sums st' = s_sums st"
    by (rule appended_in_step [OF a0 r(1)])
  obtain o1 e1 o2 where enc: "encode_block cdc (s_sums st) (cur_ix st) e0 (0, 5, ?raw) = Some (o1, e1)"
    "encode_blocks cdc (s_sums st) (Suc (cur_ix st) mod 2) e1 (elf_lblocks (map phdr_bytes gs)) = Some (o2, e')" "out = o1 @ o2"
    using a(2) by (auto simp del: encode_block.simps split: option.splits)
  have f: "fed cdc sync (s_sums st) e0 (cur_ix st) rd (o1 @ (o2 @ rest))" using a(3) enc(3) by simp
  have raw: "?raw \<noteq> []" "length ?raw \<le> BLOCK_SIZE" using e G(6) by (auto simp flip: length_greater_0_conv)
  obtain n rd1 where rb: "ReadBlock cdc rd = (Some (block_hdr 0 5 n, \<lparr>b_cur = 0, b_buf = ?raw\<rparr>), rd1)"
    "fed cdc sync (s_sums st) e1 (Suc (cur_ix st) mod 2) rd1 (o2 @ rest)"
    by (rule ReadBlock_fed [OF f ok enc(1) raw])
  have sk: "seekable rd1" using ReadBlock_seekable [OF rb(1) r(2)] .
  let ?b = "\<lparr>b_cur = 64, b_buf = ?raw\<rparr>"
  have br: "block_rest ?b = phdr_bytes g" using e by (simp add: block_rest_def)
  have rd: "Block_Read 64 \<lparr>b_cur = 0, b_buf = ?raw\<rparr> = (Inr (put_ehdr ?eh), ?b)"
    using e by (simp add: Block_Read_def Block_Size_def Let_def)
  have gs: "\<forall>x \<in> set gs. x \<noteq> [] \<and> 56 * length x \<le> BLOCK_SIZE" using G by blast
  have lm: "length (c_phdrs c) + length (g @ concat gs) \<le> m" "\<forall>ph \<in> set (g @ concat gs). p_type ph = PT_LOAD"
    unfolding G(3) using m ld by auto
  have ix: "Suc (cur_ix st) mod 2 < 2" by simp
  obtain rd' where R: "elf_blocks cdc m (c_phdrs c) ?b rd1 = (Inr (), c_phdrs c @ g @ concat gs, rd')"
    "fed cdc sync (s_sums st) e' ((Suc (cur_ix st) mod 2 + length gs) mod 2) rd' rest" "seekable rd'"
    using elf_blocks_fed [OF ok rb(2) sk enc(2) ix gs stop br lm] by blast
  have t: "unat (hdr_type (block_hdr 0 5 n)) = 5" "hdr_cont (block_hdr 0 5 n) = 0" by (simp_all add: block_hdr_def)
  have "ReadElfHeader cdc m c rd = (Inr (), c\<lparr>c_ehdr := ?eh, c_phdrs := c_phdrs c @ c_phdrs cw\<rparr>, rd')"
    using capture_ehdr_machine [OF c]
    by (simp add: ReadElfHeader_def rb(1) t rd cehdr.dec_enc R(1) G(3) Let_def)
  moreover have "(Suc (cur_ix st) mod 2 + length gs) mod 2 = cur_ix st'"
    using a(4) by (simp add: mod_simps)
  ultimately show ?thesis using that [of rd'] a R G by (auto simp: in_step_def)
qed

text \<open>The end of the input.\<close>

lemma WriteTailMark_Inr:
  assumes "WriteTailMark cdc st = (Inr (), st')" "idle st"
  shows "idle st'" "new_bytes st st' = put_hdr TailMark" "grows st st'"
proof -
  obtain n where r: "WriteRaw cdc (Some (put_hdr TailMark)) st = (Inr n, st')" "n = 3"
    using assms(1) by (auto simp: WriteTailMark_def split: prod.splits sum.splits if_splits)
  from assms(2) obtain f where w: "writer st" "pending st = []" "s_file st = Some f" "at_end f"
    by (auto simp: idle_def writer_def)
  have ne: "put_hdr TailMark \<noteq> []" by (metis length_put_hdr list.size(3) zero_neq_numeral)
  obtain f' where f: "fwrite (put_hdr TailMark) f = (n, f')" "st' = st\<lparr>s_file := Some f', s_fsize := s_fsize st + of_nat n\<rparr>"
    by (rule WriteRaw_sealed [OF w(1-3) ne r(1)])
  have "fwrite (put_hdr TailMark) f = (length (put_hdr TailMark), f')" using f(1) r(2) by simp
  note F = fwrite_full [OF this w(4)]
  show "idle st'" using w F f(2) by (auto simp: idle_def writer_def pending_def CurrentBlock_def)
  show "new_bytes st st' = put_hdr TailMark" "grows st st'" using w F f(2) by (auto simp: new_bytes_def grows_def)
qed

lemma tail_in_step:
  assumes "in_step cdc sync st rd (put_hdr TailMark)" "s_mode rd = LZ4_Decompress"
  shows "\<exists>rd' rd2. ReadBlock cdc rd = (None, rd') \<and> s_tail rd' \<and> VerifyPhysicalEof rd' = (Inr (), rd2)"
proof -
  from assms(1) obtain e where "fed cdc sync (s_sums st) e (cur_ix st) rd (put_hdr TailMark @ [])" by (auto simp: in_step_def)
  then obtain rd' f where r: "ReadBlock cdc rd = (None, rd')" "s_tail rd'" "s_clean rd'" "s_file rd' = Some f"
    "healthy f" "unread f = []" "s_mode rd' = s_mode rd" by (rule ReadBlock_tail)
  have "\<not> isl (fst (VerifyPhysicalEof rd'))" using VerifyPhysicalEof_iff [OF r(4,5) _ r(2,3)] r assms(2) by simp
  then show ?thesis using r(1,2) by (cases "VerifyPhysicalEof rd'"; cases "fst (VerifyPhysicalEof rd')") auto
qed

end
