(* ===== verification/CoreFile.thy ===== *)
theory CoreFile
  imports Convert ElfTransfer
begin

text \<open>
  The core file \<^verbatim>\<open>decompress\<close> writes: the room reserved for the headers, the notes, the memory,
  and the headers put in front at the end; and what a debugger finds when it reads it.
\<close>

section \<open>Writing a file\<close>

text \<open>A stream without an error and with space for \<open>k\<close> more bytes after its end.\<close>

definition open_out :: "FILE \<Rightarrow> nat \<Rightarrow> bool" where
  "open_out f k \<longleftrightarrow> at_end f \<and> \<not> fl_err f \<and> fl_seekable f \<and> length (fl_data f) + k \<le> fl_limit f"

lemma fwrite_out:
  assumes "open_out f (length bs + k)"
  obtains f' where "fwrite bs f = (length bs, f')" "open_out f' k" "fl_data f' = fl_data f @ bs" "same_sink f f'"
proof -
  have "length (fl_data f) + length bs + k \<le> fl_limit f" using assms by (simp add: open_out_def)
  moreover have a: "at_end f" "\<not> fl_err f" "fl_seekable f" using assms by (simp_all add: open_out_def)
  ultimately obtain f' where w: "fwrite bs f = (length bs, f')" "at_end f'" "\<not> fl_err f'"
    "length (fl_data f') + k \<le> fl_limit f'" using fwrite_room by blast
  from fwrite_full [OF w(1) a(1)] w a fwrite_sink [OF w(1)] show ?thesis by (intro that [of f']) (auto simp: open_out_def)
qed

lemma open_out_mono: "open_out f k \<Longrightarrow> j \<le> k \<Longrightarrow> open_out f j"
  by (auto simp: open_out_def)

lemma makeroom_out:
  "open_out f (n + k) \<Longrightarrow> \<exists>f'. makeroom f n = (Inr (), f') \<and> open_out f' k \<and>
     fl_data f' = fl_data f @ replicate n NUL \<and> same_sink f f'"
proof (induction n arbitrary: f rule: less_induct)
  case (less n)
  show ?case
  proof (cases "n = 0")
    case True
    then show ?thesis using less.prems by (subst makeroom.simps) simp
  next
    case False
    let ?z = "replicate (min PAGE_SIZE n) NUL"
    have "open_out f (length ?z + (n - min PAGE_SIZE n + k))" using less.prems by simp
    then obtain f1 where w: "fwrite ?z f = (length ?z, f1)" "open_out f1 (n - min PAGE_SIZE n + k)"
      "fl_data f1 = fl_data f @ ?z" "same_sink f f1" by (rule fwrite_out)
    have "n - min PAGE_SIZE n < n" using False by simp
    from less.IH [OF this w(2)] obtain f' where r: "makeroom f1 (n - min PAGE_SIZE n) = (Inr (), f')" "open_out f' k"
      "fl_data f' = fl_data f1 @ replicate (n - min PAGE_SIZE n) NUL" "same_sink f1 f'" by blast
    have "makeroom f n = makeroom f1 (n - min PAGE_SIZE n)"
      using False w(1) by (subst makeroom.simps) (auto simp: Let_def min_def)
    moreover have "fl_data f @ replicate n NUL = fl_data f1 @ replicate (n - min PAGE_SIZE n) NUL"
      by (simp add: w(3) flip: replicate_add)
    ultimately show ?thesis using r same_sink_trans [OF w(4)] by auto
  qed
qed

definition notes_data :: "Note list \<Rightarrow> bytes" where
  "notes_data nts = concat (map nt_data nts)"

lemma fwrite_notes_out:
  "open_out f (length (notes_data nts) + k) \<Longrightarrow> \<exists>f'. fwrite_notes nts f = (Inr (), f') \<and> open_out f' k \<and>
     fl_data f' = fl_data f @ notes_data nts \<and> same_sink f f'"
proof (induction nts arbitrary: f)
  case Nil
  then show ?case by (simp add: notes_data_def)
next
  case (Cons nt nts)
  have "open_out f (length (nt_data nt) + (length (notes_data nts) + k))"
    using Cons.prems by (simp add: notes_data_def add.assoc)
  then obtain f1 where "fwrite (nt_data nt) f = (length (nt_data nt), f1)" "open_out f1 (length (notes_data nts) + k)"
    "fl_data f1 = fl_data f @ nt_data nt" "same_sink f f1" by (rule fwrite_out)
  with Cons.IH [of f1] same_sink_trans show ?case by (fastforce simp: notes_data_def)
qed

lemma notes_size_data: "notes_size rc nts = Inr n \<Longrightarrow> rc \<le> INT_MAX \<Longrightarrow> n = rc + length (notes_data nts) \<and> n \<le> INT_MAX"
proof (induction nts arbitrary: rc)
  case (Cons nt nts)
  then have "rc + length (nt_data nt) \<le> INT_MAX" "notes_size (rc + length (nt_data nt)) nts = Inr n"
    by (auto split: if_splits)
  from Cons.IH [OF this(2,1)] show ?case by (simp add: notes_data_def)
qed (simp add: notes_data_def)

lemma GenerateNotes_size:
  assumes "GenerateNotes mem clk arch pid sig pd = Inr (n, nts)"
  shows "n = length (notes_data nts)" "n \<le> INT_MAX"
proof -
  have "notes_size 0 nts = Inr n"
    using assms by (auto simp: GenerateNotes_def Let_def ebind_eq_Inr split: prod.splits if_splits)
  from notes_size_data [OF this] show "n = length (notes_data nts)" "n \<le> INT_MAX" by simp_all
qed

section \<open>Overwriting the room\<close>

lemma fwrite_over:
  assumes "fl_pos f + length bs \<le> length (fl_data f)" "length (fl_data f) \<le> fl_limit f"
  obtains f' where "fwrite bs f = (length bs, f')" "fl_pos f' = fl_pos f + length bs" "same_sink f f'"
    "fl_data f' = take (fl_pos f) (fl_data f) @ bs @ drop (fl_pos f + length bs) (fl_data f)"
proof -
  have "min (length bs) (fl_limit f - fl_pos f) = length bs" using assms by simp
  then have "fwrite bs f = (length bs, f\<lparr>fl_data := take (fl_pos f) (fl_data f) @ bs @ drop (fl_pos f + length bs) (fl_data f),
      fl_pos := fl_pos f + length bs, fl_err := fl_err f\<rparr>)"
    by (simp add: fwrite_def Let_def)
  then show ?thesis by (rule that) (simp_all add: same_sink_def)
qed

definition place :: "nat \<Rightarrow> Phdr \<Rightarrow> Phdr" where
  "place off ph = (if p_type ph = PT_LOAD then ph\<lparr>p_offset := p_offset ph + word_of_nat off\<rparr> else ph)"

lemma place_fields [simp]:
  "p_vaddr (place off ph) = p_vaddr ph" "p_filesz (place off ph) = p_filesz ph" "p_type (place off ph) = p_type ph"
  "p_memsz (place off ph) = p_memsz ph" "p_flags (place off ph) = p_flags ph"
  by (simp_all add: place_def)

lemma load_offset_place:
  "p_type ph = PT_LOAD \<Longrightarrow> unat (p_offset ph) + off \<le> 18446744073709551615 \<Longrightarrow>
     load_offset (int off) ph = Inr (place off ph)"
  by (simp add: load_offset_def place_def)

lemma load_offset_other: "p_type ph \<noteq> PT_LOAD \<Longrightarrow> load_offset off ph = Inr (place n ph)"
  by (simp add: load_offset_def place_def)

lemma fwrite_phdrs_over:
  "\<forall>ph \<in> set phs. p_type ph = PT_LOAD \<longrightarrow> unat (p_offset ph) + off \<le> 18446744073709551615 \<Longrightarrow>
   fl_pos f + 56 * length phs \<le> length (fl_data f) \<Longrightarrow> length (fl_data f) \<le> fl_limit f \<Longrightarrow>
   \<exists>n f'. fwrite_phdrs (int off) phs rc f = (Inr n, f') \<and>
     fl_data f' = take (fl_pos f) (fl_data f) @ phdr_bytes (map (place off) phs) @ drop (fl_pos f + 56 * length phs) (fl_data f) \<and>
     same_sink f f'"
proof (induction phs arbitrary: rc f)
  case Nil
  then show ?case by simp
next
  case (Cons ph phs)
  have lo: "load_offset (int off) ph = Inr (place off ph)"
    using Cons.prems(1) load_offset_place load_offset_other by (cases "p_type ph = PT_LOAD") auto
  have "fl_pos f + length (put_phdr (place off ph)) \<le> length (fl_data f)" using Cons.prems(2) by simp
  from fwrite_over [OF this Cons.prems(3)] obtain f1 where
    w: "fwrite (put_phdr (place off ph)) f = (56, f1)" "fl_pos f1 = fl_pos f + 56" "same_sink f f1"
      "fl_data f1 = take (fl_pos f) (fl_data f) @ put_phdr (place off ph) @ drop (fl_pos f + 56) (fl_data f)" by auto
  have len: "length (fl_data f1) = length (fl_data f)" using Cons.prems(2) by (simp add: w(4))
  have "fl_pos f1 + 56 * length phs \<le> length (fl_data f1)" "length (fl_data f1) \<le> fl_limit f1"
    using Cons.prems(2,3) len w by (simp_all add: same_sink_def)
  moreover have "\<forall>ph \<in> set phs. p_type ph = PT_LOAD \<longrightarrow> unat (p_offset ph) + off \<le> 18446744073709551615"
    using Cons.prems(1) by simp
  ultimately obtain n f' where i: "fwrite_phdrs (int off) phs (rc + 56) f1 = (Inr n, f')"
    "fl_data f' = take (fl_pos f1) (fl_data f1) @ phdr_bytes (map (place off) phs) @ drop (fl_pos f1 + 56 * length phs) (fl_data f1)"
    "same_sink f1 f'"
    using Cons.IH by blast
  have p: "fl_pos f \<le> length (fl_data f)" using Cons.prems(2) by simp
  have t: "take (fl_pos f1) (fl_data f1) = take (fl_pos f) (fl_data f) @ put_phdr (place off ph)"
    using p by (simp add: w(2,4))
  have d: "drop (fl_pos f1 + 56 * length phs) (fl_data f1) = drop (fl_pos f + 56 * length (ph # phs)) (fl_data f)"
    using p by (simp add: w(2,4) add.commute) (simp only: add.assoc)
  show ?case using lo w(1) i(1) same_sink_trans [OF w(3) i(3)] by (simp add: i(2) t d)
qed

lemma WriteElfHeader_core_over:
  assumes "length (c_phdrs c) < 65535" "c_offset_load c = int off" "fl_pos f = 0"
    and "\<forall>ph \<in> set (c_phdrs c). p_type ph = PT_LOAD \<longrightarrow> unat (p_offset ph) + off \<le> 18446744073709551615"
    and "64 + 56 * length (c_phdrs c) \<le> length (fl_data f)" "length (fl_data f) \<le> fl_limit f"
  shows "\<exists>n f'. WriteElfHeader_core c f = (Inr n, f') \<and>
     fl_data f' = put_ehdr (Ehdr_new\<lparr>e_machine := e_machine (c_ehdr c), e_phnum := word_of_nat (length (c_phdrs c))\<rparr>) @
       phdr_bytes (map (place off) (c_phdrs c)) @ drop (64 + 56 * length (c_phdrs c)) (fl_data f) \<and>
     same_sink f f'"
proof -
  let ?e = "put_ehdr (Ehdr_new\<lparr>e_machine := e_machine (c_ehdr c), e_phnum := word_of_nat (length (c_phdrs c))\<rparr>)"
  have e: "length ?e = 64" by (rule cehdr.enc_length) simp
  have "fl_pos f + length ?e \<le> length (fl_data f)" using assms(3,5) e by simp
  from fwrite_over [OF this assms(6)] obtain f1 where w: "fwrite ?e f = (64, f1)" "fl_pos f1 = 64" "same_sink f f1"
    "fl_data f1 = ?e @ drop 64 (fl_data f)" using assms(3) e by auto
  have l: "fl_pos f1 + 56 * length (c_phdrs c) \<le> length (fl_data f1)" "length (fl_data f1) \<le> fl_limit f1"
    using assms(5,6) w e by (simp_all add: same_sink_def)
  from fwrite_phdrs_over [OF assms(4) l, of 64] obtain n f' where
    "fwrite_phdrs (int off) (c_phdrs c) 64 f1 = (Inr n, f')"
    "fl_data f' = take 64 (fl_data f1) @ phdr_bytes (map (place off) (c_phdrs c)) @ drop (64 + 56 * length (c_phdrs c)) (fl_data f1)"
    "same_sink f1 f'"
    unfolding w(2) by blast
  moreover have "drop (64 + 56 * length (c_phdrs c)) (fl_data f1) = drop (64 + 56 * length (c_phdrs c)) (fl_data f)"
    using e by (simp add: w(4) add.commute)
  ultimately show ?thesis using assms(1,2) w e same_sink_trans [OF w(3)] by (auto simp: WriteElfHeader_core_def Let_def)
qed

section \<open>The checks on the program headers\<close>

lemma header_room_ok:
  assumes "n < 65536"
  obtains k where "header_room n = Inr k" "64 + 56 * n \<le> k" "k < 4194304"
proof -
  let ?m = "64 + n * 56 + 4096 + 4095"
  have "header_room n = Inr (?m div 4096 * 4096)" using assms by (simp add: header_room_def Let_def)
  moreover have "64 + 56 * n \<le> ?m div 4096 * 4096" using div_mult_mod_eq [of ?m 4096] mod_less_divisor [of 4096 ?m] by linarith
  moreover have "?m div 4096 * 4096 < 4194304" using assms div_times_less_eq_dividend [of ?m 4096] by linarith
  ultimately show ?thesis by (rule that)
qed

lemma contiguous_in_range:
  "contiguous n phs \<Longrightarrow> ph \<in> set phs \<Longrightarrow> unat (p_offset ph) + unat (p_filesz ph) \<le> n + load_bytes phs"
  by (induction phs arbitrary: n) fastforce+

lemma check_extents_ok:
  "contiguous n phs \<Longrightarrow> \<forall>ph \<in> set phs. p_type ph = PT_LOAD \<Longrightarrow> n + load_bytes phs \<le> w \<Longrightarrow> w \<le> SSIZE_MAX \<Longrightarrow>
   off \<le> 4611686018427387904 \<Longrightarrow> check_extents w (int off) phs n n = Inr (n + load_bytes phs)"
proof (induction phs arbitrary: n)
  case (Cons ph phs)
  have o: "unat (word_of_nat off :: u64) = off" using Cons.prems(5) by (simp add: unat_of_nat)
  have "check_extents w (int off) phs (n + unat (p_filesz ph)) (n + unat (p_filesz ph)) =
      Inr (n + unat (p_filesz ph) + load_bytes phs)"
    by (rule Cons.IH) (use Cons.prems in auto)
  moreover have "\<not> 18446744073709551615 - n < off" "\<not> w - n < unat (p_filesz ph)" using Cons.prems by auto
  ultimately show ?case using Cons.prems by (simp add: Let_def o add.assoc)
qed simp

lemma loads_are_loads: "list_all2 (\<lambda>r ph. ph = load_phdr (unat (p_offset ph)) r) maps phs \<Longrightarrow> \<forall>ph \<in> set phs. p_type ph = PT_LOAD"
  by (induction rule: list_all2_induct) (auto, metis load_phdr_fields(1))

section \<open>The core file\<close>

definition core_image :: "nat \<Rightarrow> nat \<Rightarrow> Phdr list \<Rightarrow> bytes \<Rightarrow> bytes \<Rightarrow> bytes" where
  "core_image platform reserved phs notes loads =
     (let all = note_phdr reserved (length notes) # map (place (reserved + length notes)) phs in
      put_ehdr (Ehdr_new\<lparr>e_machine := platform_machine platform, e_phnum := word_of_nat (length all)\<rparr>) @
      phdr_bytes all @ replicate (reserved - (64 + 56 * length all)) NUL @ notes @ loads)"

lemma note_phdr_type [simp]: "p_type (note_phdr off n) = PT_NOTE" "place k (note_phdr off n) = note_phdr off n"
  by (simp_all add: note_phdr_def place_def)

text \<open>
  \<open>carries\<close>: from the state \<open>s2\<close> the capture wrote the memory \<open>bs\<close>, the ELF block for the
  headers \<open>phs\<close>, the tail mark; the reader is at the beginning of that.
\<close>

definition carries ::
    "('e, 'd) lz4_codec \<Rightarrow> ('e \<Rightarrow> nat \<Rightarrow> 'd \<Rightarrow> nat \<Rightarrow> bool) \<Rightarrow> nat \<Rightarrow> Phdr list \<Rightarrow> bytes \<Rightarrow> ('e, 'd) stream \<Rightarrow> bool" where
  "carries cdc sync platform phs bs rd \<longleftrightarrow>
     (\<exists>s2 s3 s4 cw. sends_loads cdc s2 bs s3 \<and> WriteElfHeader cdc platform cw s3 = (Inr (), s4) \<and> c_phdrs cw = phs \<and>
        in_step cdc sync s2 rd (new_bytes s2 s3 @ new_bytes s3 s4 @ put_hdr TailMark)) \<and>
     seekable rd \<and> s_mode rd = LZ4_Decompress"

lemma elf_stops_loads:
  assumes "WriteElfHeader cdc platform c st = (Inr (), st')" "idle st"
  shows "stops_at 4 (new_bytes st st' @ rest)"
proof -
  obtain x xs where a: "appended cdc st (elf_lblocks (x # xs)) st'"
    using WriteElfHeader_Inr [OF assms] by metis
  then obtain f e f' e' out where s: "s_file st = Some f" "s_file st' = Some f'"
    "encode_blocks cdc (s_sums st) (cur_ix st) e (elf_lblocks (x # xs)) = Some (out, e')" "fl_data f' = fl_data f @ out"
    unfolding appended_def by auto
  then obtain o1 e1 o2 where "encode_block cdc (s_sums st) (cur_ix st) e (0, 5, x) = Some (o1, e1)" "out = o1 @ o2"
    by (auto simp del: encode_block.simps split: option.splits)
  moreover have "new_bytes st st' = out" using s by (simp add: new_bytes_def)
  ultimately show ?thesis using stops_at_other [of cdc _ _ e 0 5 x o1 e1 4 "o2 @ rest"] by simp
qed

lemma s_mode_ReadBlock: "ReadBlock cdc st = (x, st') \<Longrightarrow> s_mode st' = s_mode st"
proof -
  have d: "decode_block cdc hdr c k s = (y, s') \<Longrightarrow> s_mode s' = s_mode s" for hdr c k s y s'
    by (auto simp: decode_block_def Let_def split: option.splits prod.splits if_splits)
  show "ReadBlock cdc st = (x, st') \<Longrightarrow> s_mode st' = s_mode st"
    by (auto simp: ReadBlock_def Let_def d split: option.splits prod.splits if_splits)
qed

interpretation mode: reader_invariant cdc "\<lambda>st. s_mode st = m" for cdc :: "('e, 'd) lz4_codec" and m
proof unfold_locales
  show "s_mode st' = m" if "ReadBlock cdc st = (x, st')" "s_mode st = m" for st st' x
    using that s_mode_ReadBlock by metis
  show "s_mode st' = m" if "ReadRaw n st = (y, st')" "s_mode st = m" for n y and st st' :: "('e, 'd) stream"
    using that by (auto simp: ReadRaw_def split: option.splits if_splits prod.splits)
  show "s_mode st' = m" if "Seek k st = (z, st')" "s_mode st = m" for k z and st st' :: "('e, 'd) stream"
    using that by (auto simp: Seek_def split: option.splits if_splits)
qed simp_all

lemma write_core_ok:
  assumes ok: "codec_ok cdc sync" and car: "carries cdc sync platform phs bs rd"
    and c: "c_arch c = platform" "platform < ARCH_MAX" "c_phdrs c = []"
    and parse: "ParseAll (cv_host_page env) (c_process c) = Inr pd" "pd_d_maps pd = Some maps"
    and exp: "expected_load_phdrs maps = Inr (phs, load_bytes phs)" "phs \<noteq> []" "length phs + 1 < 65535"
    and bs: "length bs = load_bytes phs"
    and gen: "GenerateNotes (cv_mem env) (cv_clk_tck env) (c_arch c) (c_pid c) (c_crash_sig c) pd = Inr (nb, notes)"
    and f: "open_out fout (4194304 + nb + load_bytes phs)" "fl_data fout = []"
  shows "\<exists>reserved c' f'. write_core cdc env c rd fout = (Inr (), c', f') \<and>
    fl_data f' = core_image platform reserved phs (notes_data notes) bs \<and> 64 + 56 * (length phs + 1) \<le> reserved \<and> reserved < 4194304 \<and> same_sink fout f'"
proof -
  have L: "contiguous 0 phs" "load_bytes phs \<le> SSIZE_MAX" "\<forall>ph \<in> set phs. p_type ph = PT_LOAD"
    using load_phdrs_layout [of 0 maps phs "load_bytes phs"] exp loads_are_loads by (auto simp: expected_load_phdrs_def)
  have nb: "nb = length (notes_data notes)" "nb \<le> INT_MAX" using GenerateNotes_size [OF gen] by auto
  obtain s2 s3 s4 cw where S: "sends_loads cdc s2 bs s3" "WriteElfHeader cdc platform cw s3 = (Inr (), s4)" "c_phdrs cw = phs"
    "in_step cdc sync s2 rd (new_bytes s2 s3 @ new_bytes s3 s4 @ put_hdr TailMark)" "seekable rd" "s_mode rd = LZ4_Decompress"
    using car by (auto simp: carries_def)
  obtain R where R: "header_room (length phs + 1) = Inr R" "64 + 56 * (length phs + 1) \<le> R" "R < 4194304"
    by (rule header_room_ok [of "length phs + 1"]) (use exp(3) in auto)
  have "open_out fout (R + (nb + load_bytes phs))" by (rule open_out_mono [OF f(1)]) (use R in simp)
  from makeroom_out [OF this] f(2) obtain f1 where
    f1: "makeroom fout R = (Inr (), f1)" "open_out f1 (nb + load_bytes phs)" "fl_data f1 = replicate R NUL" "same_sink fout f1" by auto
  have t0: "ftell fout = Some 0" "ftell f1 = Some R"
    using f f1 by (simp_all add: ftell_def open_out_def at_end_def)
  have "open_out f1 (length (notes_data notes) + load_bytes phs)" using f1(2) nb by simp
  from fwrite_notes_out [OF this] f1(3) obtain f2 where
    f2: "fwrite_notes notes f1 = (Inr (), f2)" "open_out f2 (load_bytes phs)" "fl_data f2 = replicate R NUL @ notes_data notes" "same_sink f1 f2" by auto
  have t2: "ftell f2 = Some (R + nb)" using f2 nb by (simp add: ftell_def open_out_def at_end_def)
  have id3: "idle s3" by (rule sends_loads_idle [OF S(1)])
  have o2: "at_end f2" "\<not> fl_err f2" "length (fl_data f2) + length bs \<le> fl_limit f2" "fl_seekable f2"
    using f2(2) bs by (simp_all add: open_out_def)
  obtain rd1 f3 where r1: "ReadLoads cdc (load_bytes phs) f2 rd = (Inr (load_bytes phs), f3, rd1)"
    "in_step cdc sync s3 rd1 (new_bytes s3 s4 @ put_hdr TailMark)" "seekable rd1" "fl_data f3 = fl_data f2 @ bs"
    "at_end f3" "\<not> fl_err f3" "same_sink f2 f3"
    by (rule loads_in_step [OF ok S(1) S(4,5) elf_stops_loads [OF S(2) id3], of "load_bytes phs" f2])
       (use bs L(2) o2 in auto)
  let ?nph = "note_phdr R nb"
  let ?c3 = "c\<lparr>c_process := pd, c_notes := notes, c_phdrs := [?nph], c_offset_load := int (R + nb)\<rparr>"
  have stop: "stops_at 5 (put_hdr TailMark)" using stops_at_tail [of 5 "[]"] by simp
  let ?c4 = "?c3\<lparr>c_ehdr := capture_ehdr platform (length phs), c_phdrs := ?nph # phs\<rparr>"
  have i3: "in_step cdc sync s3 rd1 (new_bytes s3 s4 @ put_hdr TailMark)" by (fact r1(2))
  obtain rd2 where r2: "ReadElfHeader cdc (length phs + 1) ?c3 rd1 = (Inr (), ?c4, rd2)"
    "in_step cdc sync s4 rd2 (put_hdr TailMark)" "length phs < 65535"
    by (rule elf_in_step [OF ok S(2) id3 i3 r1(3) stop, of ?c3 "length phs + 1"]) (use c S(3) L(3) in auto)
  have md: "s_mode rd2 = LZ4_Decompress"
    using mode.elf_header [OF r2(1)] mode.loads [OF r1(1)] S(6) by blast
  have ic: "fst (input_complete cdc rd2)"
    using tail_in_step [OF r2(2) md] by (auto simp: input_complete_def)
  have pm: "phdrs_match (capture_ehdr platform (length phs)) (?nph # phs) phs"
    using r2(3) by (simp add: phdrs_match_def unat_of_nat)
  have ck: "check_extents (load_bytes phs) (int (R + nb)) (?nph # phs) 0 0 = Inr (load_bytes phs)"
    using check_extents_ok [OF L(1,3), of "load_bytes phs" "R + nb"] L(2) R(3) nb(2) by simp
  have d3: "fl_data f3 = replicate R NUL @ notes_data notes @ bs" using r1(4) f2(3) by simp
  let ?f4 = "f3\<lparr>fl_pos := 0, fl_eof := False\<rparr>"
  have f4: "fseek 0 f3 = Some ?f4" using o2(4) r1(7) by (simp add: fseek_def same_sink_def)
  have off: "c_offset_load ?c4 = int (R + nb)" "e_machine (c_ehdr ?c4) = platform_machine platform"
    "c_phdrs ?c4 = ?nph # phs" by simp_all
  have l4: "length (c_phdrs ?c4) < 65535" "64 + 56 * length (c_phdrs ?c4) \<le> length (fl_data ?f4)"
    "length (fl_data ?f4) \<le> fl_limit ?f4"
    using exp(3) R(2) d3 o2(3) r1(4,7) f2(3) by (simp_all add: same_sink_def)
  have inr: "\<forall>ph \<in> set (c_phdrs ?c4). p_type ph = PT_LOAD \<longrightarrow> unat (p_offset ph) + (R + nb) \<le> 18446744073709551615"
  proof (intro ballI impI)
    fix ph assume "ph \<in> set (c_phdrs ?c4)" "p_type ph = PT_LOAD"
    then have "ph \<in> set phs" by auto
    from contiguous_in_range [OF L(1) this] L(2) R(3) nb(2)
    show "unat (p_offset ph) + (R + nb) \<le> 18446744073709551615" by simp
  qed
  obtain n f5 where W: "WriteElfHeader_core ?c4 ?f4 = (Inr n, f5)"
    "fl_data f5 = put_ehdr (Ehdr_new\<lparr>e_machine := platform_machine platform, e_phnum := word_of_nat (length (?nph # phs))\<rparr>) @
       phdr_bytes (map (place (R + nb)) (?nph # phs)) @ drop (64 + 56 * length (?nph # phs)) (fl_data ?f4)" "same_sink ?f4 f5"
    using WriteElfHeader_core_over [OF l4(1) off(1) _ inr l4(2,3)] unfolding off by auto
  have img: "fl_data f5 = core_image platform R phs (notes_data notes) bs"
    using W(2) R(2) d3 nb(1) by (simp add: core_image_def Let_def)
  have snk: "same_sink fout f5"
    using f1(4) f2(4) r1(7) W(3) by (simp add: same_sink_def)
  have "write_core cdc env c rd fout = (Inr (), ?c4, f5)"
    using c(3) exp ic
    by (simp add: write_core_def t0 parse exp f1(1) gen f2(1) t2 Let_def r1(1) f4
        R(1) [simplified] r2(1) [simplified] pm [simplified] ck [simplified] W(1) [simplified])
  then show ?thesis using img R(2,3) snk by blast
qed

end
