(* ===== verification/MetaRoom.thy ===== *)
theory MetaRoom
  imports MetaRoundTrip
begin

text \<open>
  When the metadata writers succeed: given readable \<^verbatim>\<open>/proc\<close> files and enough room on the
  disk, every block and every file is written.
\<close>

lemma Flush_idle: "idle st \<Longrightarrow> room st k \<Longrightarrow> Flush cdc st = (Inr 0, st)"
  by (auto simp: idle_def writer_def Flush_def room_def pending_def Block_isEmpty_def)

lemma SetBlock_idle: "idle st \<Longrightarrow> 0 \<le> t \<Longrightarrow> t < 6 \<Longrightarrow> SetBlock cdc t st = (Inr 0, st\<lparr>s_type := t\<rparr>)"
  by (auto simp: idle_def writer_def SetBlock_def pending_def Block_isEmpty_def)

lemma idle_update: "idle st \<Longrightarrow> 0 \<le> t \<Longrightarrow> t < 6 \<Longrightarrow> idle (st\<lparr>s_type := t\<rparr>)"
  by (auto simp: idle_def writer_def pending_def)

lemma room_update [simp]: "room (st\<lparr>s_type := t\<rparr>) k = room st k"
  by (simp add: room_def)

lemma Write_room:
  assumes w: "writer st" and rm: "room st k" and s: "length s \<le> BLOCK_SIZE - length (pending st)"
  shows "\<exists>st'. Write cdc (Some s) st = (Inr (length s), st') \<and> room st' k"
proof -
  from w obtain f e where fe: "s_file st = Some f" "s_enc st = Some e" by (auto simp: writer_def)
  have ok: "\<not> fl_err f" using rm fe by (simp add: room_def)
  show ?thesis
  proof (cases "s = []")
    case True
    then show ?thesis using fe rm by (simp add: Write_def)
  next
    case False
    obtain x st' where b: "block_put s st = (x, st')" by fastforce
    note B = block_put_fits [OF w s b]
    have av: "Block_Available (CurrentBlock st) = BLOCK_SIZE - length (pending st)"
      by (simp add: Block_Available_def pending_def)
    have "Write cdc (Some s) st = (Inr (length s), st')"
      using fe ok False s b B(1) by (simp add: Write_def av)
    moreover have "room st' k" using rm B(4) fe by (auto simp: room_def appended_def)
    ultimately show ?thesis by blast
  qed
qed

lemma wr_room:
  "writer st \<Longrightarrow> room st k \<Longrightarrow> length (pending st) + length (concat items) \<le> BLOCK_SIZE \<Longrightarrow>
   \<exists>st'. wr cdc items (True, st) = (True, st') \<and> room st' k"
proof (induction items arbitrary: st)
  case (Cons x items)
  have x: "length x \<le> BLOCK_SIZE - length (pending st)" using Cons.prems(3) by simp
  from Write_room [OF Cons.prems(1,2) x] obtain st1 where
    s: "Write cdc (Some x) st = (Inr (length x), st1)" "room st1 k" by blast
  note W = Write_fits [OF Cons.prems(1) x s(1)]
  have "length (pending st1) + length (concat items) \<le> BLOCK_SIZE" using W Cons.prems(3) by simp
  from Cons.IH [OF _ s(2) this] W s(1) show ?case by simp
qed simp

lemma send_room:
  assumes st: "idle st" and ct: "codec_total cdc" and rm: "room st (BLOCK_COST + k)" and t: "0 \<le> t" "t < 6"
    and len: "length (concat items) \<le> BLOCK_SIZE"
  obtains st0 st1 st' where "SetBlock cdc t st = (Inr 0, st0)" "wr cdc items (True, st0) = (True, st1)"
    "Flush cdc st1 = (Inr 0, st')" "idle st'" "room st' k"
proof -
  let ?s = "st\<lparr>s_type := t\<rparr>"
  have i: "idle ?s" by (rule idle_update [OF st t])
  then have w: "writer ?s" "pending ?s = []" by (simp_all add: idle_def)
  have rm': "room ?s (BLOCK_COST + k)" using rm by simp
  from wr_room [OF w(1) rm', of items cdc] len w(2) obtain st1 where
    s1: "wr cdc items (True, ?s) = (True, st1)" "room st1 (BLOCK_COST + k)" by auto
  have w1: "writer st1" using wr_fits [OF s1(1) w(1)] w(2) len by simp
  from Flush_room [OF w1 ct s1(2)] obtain st' where f: "Flush cdc st1 = (Inr 0, st')" "room st' k" by blast
  have "idle st'" using Flush_Inr [OF w1 f(1)] by (simp add: idle_def)
  from that [OF SetBlock_idle [OF st t] s1(1) f(1) this f(2)] show ?thesis .
qed

definition file_cost :: "ProcFile \<Rightarrow> nat" where
  "file_cost pf = 4 + BLOCK_COST * (1 + length (chunks (put_pf pf)))"

lemma PutFile_room:
  assumes st: "idle st" and ct: "codec_total cdc" and wf: "wf_ProcFile pf" "ProcFile_Size pf \<le> MAX_PROC_FILE_SIZE"
    and rm: "room st (file_cost pf + k)"
  shows "\<exists>st'. PutFile cdc (Some pf) st = (Inr (ProcFile_Size pf), st') \<and> idle st' \<and> room st' k"
proof -
  let ?n = "9 + unat (f_size pf)" and ?c = "BLOCK_COST * (1 + length (chunks (put_pf pf)))"
  let ?s = "put32 (word_of_nat ?n)"
  have n: "ProcFile_Size pf = ?n" by (simp add: ProcFile_Size_def)
  obtain f e where fe: "s_file st = Some f" "at_end f" "s_enc st = Some e" using st by (auto simp: idle_def writer_def)
  have "length (fl_data f) + length ?s + (?c + k) \<le> fl_limit f" "\<not> fl_err f"
    using rm fe by (auto simp: room_def file_cost_def)
  from fwrite_room [OF fe(2) this] obtain f' where
    f': "fwrite ?s f = (4, f')" "at_end f'" "\<not> fl_err f'" "length (fl_data f') + (?c + k) \<le> fl_limit f'" by auto
  define st2 where "st2 = st\<lparr>s_file := Some f', s_fsize := s_fsize st + 4\<rparr>"
  have emp: "Block_isEmpty (CurrentBlock st)" using st by (simp add: idle_def pending_def Block_isEmpty_def)
  have "?s \<noteq> []" by (metis length_put(2) list.size(3) zero_neq_numeral)
  then have raw: "WriteRaw cdc (Some ?s) st = (Inr 4, st2)"
    using fe f' emp rm by (simp add: WriteRaw_def st2_def room_def)
  have i2: "idle st2" using st f'(2) by (auto simp: idle_def writer_def pending_def st2_def CurrentBlock_def)
  have r2: "room st2 (?c + k)" using f' by (simp add: room_def st2_def)
  have len: "length (put_pf pf) = ?n" using length_put_pf [OF wf(1)] .
  have w2: "writer st2" using i2 by (simp add: idle_def)
  have ni: "length (put_pf pf) \<le> INT_MAX" using wf(2) n len by simp
  obtain st' where wb: "WriteBlock cdc (Some (put_pf pf)) 3 st2 = (Inr (length (put_pf pf)), st')" "room st' k"
    using WriteBlock_room [OF w2 ct _ _ ni r2, of 3] by auto
  have "idle st'" using WriteBlock_Inr [OF w2 wb(1)] by (simp add: idle_def)
  have rm0: "room st 0" using rm room_mono by blast
  have "PutFile cdc (Some pf) st = (Inr ?n, st')"
    using fe wf(2) n raw wb(1) len Flush_idle [OF st rm0, of cdc] by (simp add: PutFile_def Let_def)
  with wb(2) \<open>idle st'\<close> n show ?thesis by auto
qed

text \<open>A file of at most 1 MiB takes at most 17 blocks.\<close>

lemma length_chunks: "length (chunks s) \<le> length s div BLOCK_SIZE + 1"
proof (induction s rule: chunks.induct)
  case (1 s)
  show ?case
  proof (cases "s = [] \<or> length s < BLOCK_SIZE")
    case True
    then show ?thesis by (cases "s = []") (simp_all add: chunks_step)
  next
    case False
    then have "length s = BLOCK_SIZE + length (drop BLOCK_SIZE s)" by simp
    then have "length s div BLOCK_SIZE = length (drop BLOCK_SIZE s) div BLOCK_SIZE + 1" by simp
    then show ?thesis using "1.IH" False by (simp add: chunks_step)
  qed
qed

abbreviation (input) FILE_COST :: nat where "FILE_COST \<equiv> 1184692"

lemma small_file_cost:
  assumes "wf_ProcFile pf" "length (f_data pf) + 10 \<le> BUFFER_SIZE"
  shows "file_cost pf \<le> FILE_COST" "ProcFile_Size pf \<le> MAX_PROC_FILE_SIZE"
proof -
  have n: "length (put_pf pf) = 9 + length (f_data pf)"
    using length_put_pf [OF assms(1)] assms(1) by (simp add: wf_ProcFile_def)
  have "length (chunks (put_pf pf)) \<le> 16"
  proof -
    have "length (put_pf pf) < 16 * BLOCK_SIZE" using n assms(2) by simp
    then have "length (put_pf pf) div BLOCK_SIZE < 16" by (rule less_mult_imp_div_less)
    then show ?thesis using length_chunks [of "put_pf pf"] by linarith
  qed
  then show "file_cost pf \<le> FILE_COST" by (simp add: file_cost_def)
  show "ProcFile_Size pf \<le> MAX_PROC_FILE_SIZE" using n assms by (simp add: ProcFile_Size_def wf_ProcFile_def)
qed

lemma put_small_file:
  assumes "idle st" "codec_total cdc" "wf_ProcFile pf" "length (f_data pf) + 10 \<le> BUFFER_SIZE" "room st (FILE_COST + k)"
  shows "\<exists>st'. PutFile cdc (Some pf) st = (Inr (ProcFile_Size pf), st') \<and> idle st' \<and> room st' k"
proof -
  note S = small_file_cost [OF assms(3,4)]
  have "room st (file_cost pf + k)" using room_mono [OF assms(5), of "file_cost pf + k"] S(1) by simp
  from PutFile_room [OF assms(1-3) S(2) this] show ?thesis .
qed

lemma read_checked_small:
  "read_checked env pid source t = Inr pf \<Longrightarrow> length (f_data pf) + 10 \<le> BUFFER_SIZE"
proof -
  assume "read_checked env pid source t = Inr pf"
  then obtain qf where q: "ReadPid (ce_open env) (int BUFFER_SIZE) (if t = PROC_TYPE_STAT then pid else source) t = Inr (qf, False)"
    "pf = qf\<lparr>f_pid := word_of_int pid\<rparr>"
    by (auto simp: read_checked_def split: sum.splits prod.splits if_splits)
  then show ?thesis using ReadPid_wf(2) [OF q(1)] by simp
qed

lemma read_maps_small: "read_maps env pid source = Inr (pf, rs) \<Longrightarrow> length (f_data pf) + 10 \<le> BUFFER_SIZE"
proof -
  assume "read_maps env pid source = Inr (pf, rs)"
  then obtain qf where q: "ReadPid (ce_open env) (int BUFFER_SIZE) source PROC_TYPE_MAPS = Inr (qf, False)"
    "pf = qf\<lparr>f_pid := word_of_int pid\<rparr>"
    by (auto simp: read_maps_def split: sum.splits prod.splits if_splits)
  then show ?thesis using ReadPid_wf(2) [OF q(1)] by simp
qed

lemma put_checked_room:
  assumes ct: "codec_total cdc"
  shows "idle st \<Longrightarrow> (\<And>t. t \<in> set ts \<Longrightarrow> \<exists>pf. read_checked env pid source t = Inr pf) \<Longrightarrow>
    room st (FILE_COST * length ts + k) \<Longrightarrow>
    \<exists>st'. put_checked cdc env pid source ts st = (Inr (), st') \<and> idle st' \<and> room st' k"
proof (induction ts arbitrary: st)
  case (Cons t ts)
  obtain pf where pf: "read_checked env pid source t = Inr pf" using Cons.prems(2) [of t] by auto
  have "room st (FILE_COST + (FILE_COST * length ts + k))" using Cons.prems(3) by (simp add: add.assoc)
  from put_small_file [OF Cons.prems(1) ct read_checked_ok(1) [OF pf] read_checked_small [OF pf] this] obtain st1 where
    s: "PutFile cdc (Some pf) st = (Inr (ProcFile_Size pf), st1)" "idle st1" "room st1 (FILE_COST * length ts + k)" by blast
  from Cons.IH [OF s(2) _ s(3)] Cons.prems(2) pf s(1) show ?case by auto
qed auto

section \<open>The process\<close>

definition proc_readable :: "capture_env \<Rightarrow> core \<Rightarrow> int \<Rightarrow> bool" where
  "proc_readable env c source \<longleftrightarrow>
     \<not> isl (read_credentials env (source_of source c)) \<and> ce_time env \<noteq> None \<and> ce_uname env \<noteq> None \<and>
     \<not> isl (read_maps env (c_pid c) (source_of source c)) \<and>
     list_all (\<lambda>t. \<not> isl (read_checked env (c_pid c) (source_of source c) t))
       [PROC_TYPE_CMDLINE, PROC_TYPE_AUXV, PROC_TYPE_ENVIRON, PROC_TYPE_IO, PROC_TYPE_LIMITS, PROC_TYPE_STAT]"

definition tids_ok :: "int list \<Rightarrow> bool" where
  "tids_ok tids \<longleftrightarrow> tids \<noteq> [] \<and> length tids \<le> UINT32_MAX \<and> list_all (\<lambda>tid. 0 < tid) tids \<and> distinct tids"

abbreviation (input) PROCESS_COST :: nat where "PROCESS_COST \<equiv> 8358660"

lemma not_isl: "\<not> isl x \<Longrightarrow> \<exists>y. x = Inr y"
  by (cases x) auto

lemma write_process_block_room:
  assumes st: "idle st" and ct: "codec_total cdc" and rm: "room st (BLOCK_COST + k)" and sz: "sized_env env"
    and e: "ce_time env \<noteq> None" "ce_uname env \<noteq> None"
  shows "\<exists>st'. write_process_block cdc env c st = (Inr (), st') \<and> idle st' \<and> room st' k"
proof -
  obtain tv tz u where t: "ce_time env = Some (tv, tz)" "ce_uname env = Some u" using e by fastforce
  then have l: "length tv = 16" "length tz = 8" "length u = 512" using sz by (simp_all add: sized_env_def)
  have "length (concat (process_items c tv tz u)) \<le> BLOCK_SIZE" using l by (simp add: process_items_def)
  from send_room [OF st ct rm _ _ this, of 1] obtain st0 st1 st' where
    s: "SetBlock cdc 1 st = (Inr 0, st0)" "wr cdc (process_items c tv tz u) (True, st0) = (True, st1)"
      "Flush cdc st1 = (Inr 0, st')" "idle st'" "room st' k" by auto
  let ?a = "[put32 (word_of_int (c_pid c)), put32 (word_of_int (c_core_pid c)),
      put32 (word_of_nat (length (pd_thrd_pid (c_process c))))]"
  let ?c = "[u, put32 (pd_uid (c_process c)), put32 (pd_gid (c_process c)), put32 (word_of_int (c_crash_sig c))]"
  have "process_items c tv tz u = ?a @ [tv, tz] @ ?c" by (simp add: process_items_def)
  then have "wr cdc ?c (wr cdc [tv, tz] (wr cdc ?a (True, st0))) = (True, st1)"
    using s(2) by (simp only: wr_append)
  then show ?thesis using s t by (simp add: write_process_block_def Let_def del: wr.simps)
qed

lemma WriteProcessMeta_room:
  assumes st: "idle st" and ct: "codec_total cdc" and rm: "room st (PROCESS_COST + k)" and sz: "sized_env env"
    and rd: "proc_readable env c source" and tids: "tids_ok (pd_thrd_pid (c_process c))"
  shows "\<exists>rs c' st'. WriteProcessMeta cdc env source c st = (Inr rs, c', st') \<and> idle st' \<and> room st' k \<and>
    c_pid c' = c_pid c \<and> c_arch c' = c_arch c \<and> c_crash_sig c' = c_crash_sig c \<and> c_crash_tid c' = c_crash_tid c"
proof -
  let ?s = "source_of source c"
  obtain ids where ids: "read_credentials env ?s = Inr ids" using rd not_isl by (force simp: proc_readable_def)
  obtain pf rs where m: "read_maps env (c_pid c) ?s = Inr (pf, rs)" using rd not_isl by (force simp: proc_readable_def)
  define c1 where "c1 = c\<lparr>c_process := (c_process c)\<lparr>pd_uid := ps_uid ids, pd_gid := ps_gid ids, pd_credentials_valid := True\<rparr>\<rparr>"
  have e: "ce_time env \<noteq> None" "ce_uname env \<noteq> None" using rd by (simp_all add: proc_readable_def)
  have "room st (BLOCK_COST + (FILE_COST * 2 + (FILE_COST + (FILE_COST * 4 + k))))" using rm by (simp add: add.assoc)
  from write_process_block_room [OF st ct this sz e] obtain st1 where
    1: "write_process_block cdc env c1 st = (Inr (), st1)" "idle st1" "room st1 (FILE_COST * 2 + (FILE_COST + (FILE_COST * 4 + k)))"
    by blast
  let ?ta = "[PROC_TYPE_CMDLINE, PROC_TYPE_AUXV]" and ?tb = "[PROC_TYPE_ENVIRON, PROC_TYPE_IO, PROC_TYPE_LIMITS, PROC_TYPE_STAT]"
  have ra: "\<And>t. t \<in> set ?ta \<Longrightarrow> \<exists>pf. read_checked env (c_pid c) ?s t = Inr pf"
    and rb: "\<And>t. t \<in> set ?tb \<Longrightarrow> \<exists>pf. read_checked env (c_pid c) ?s t = Inr pf"
    using rd not_isl by (auto simp: proc_readable_def)
  have "room st1 (FILE_COST * length ?ta + (FILE_COST + (FILE_COST * 4 + k)))" using 1(3) by (simp add: add.assoc)
  from put_checked_room [OF ct 1(2) ra this] obtain st2 where
    2: "put_checked cdc env (c_pid c) ?s ?ta st1 = (Inr (), st2)" "idle st2" "room st2 (FILE_COST + (FILE_COST * 4 + k))" by blast
  from put_small_file [OF 2(2) ct read_maps_ok(1) [OF m] read_maps_small [OF m] 2(3)] obtain st3 where
    3: "PutFile cdc (Some pf) st2 = (Inr (ProcFile_Size pf), st3)" "idle st3" "room st3 (FILE_COST * 4 + k)" by blast
  have "room st3 (FILE_COST * length ?tb + k)" using 3(3) by (simp add: add.assoc)
  from put_checked_room [OF ct 3(2) rb this] obtain st4 where
    4: "put_checked cdc env (c_pid c) ?s ?tb st3 = (Inr (), st4)" "idle st4" "room st4 k" by blast
  have t: "pd_thrd_pid (c_process c) \<noteq> []" "\<not> length (pd_thrd_pid (c_process c)) > UINT32_MAX"
    "\<not> (\<exists>tid \<in> set (pd_thrd_pid (c_process c)). tid \<le> 0)" "distinct (pd_thrd_pid (c_process c))"
    using tids by (auto simp: tids_ok_def list_all_iff)
  have s: "(if source = 0 then c_pid c else source) = ?s" by (simp add: source_of_def)
  have pid: "c_pid c1 = c_pid c" by (simp add: c1_def)
  have "WriteProcessMeta cdc env source c st = (Inr rs, c1, st4)"
    using t ids m 1(1) 2(1) 3(1) 4(1)
    by (simp add: WriteProcessMeta_def Let_def s pid c1_def [symmetric] del: put_checked.simps)
  moreover have "c_pid c1 = c_pid c \<and> c_arch c1 = c_arch c \<and> c_crash_sig c1 = c_crash_sig c \<and> c_crash_tid c1 = c_crash_tid c"
    by (simp add: c1_def)
  ultimately show ?thesis using 4 by blast
qed

section \<open>The threads\<close>

abbreviation (input) THREAD_COST :: nat where "THREAD_COST \<equiv> 1250508"

lemma WriteThreadMeta_room:
  assumes st: "idle st" and ct: "codec_total cdc" and rm: "room st (THREAD_COST + k)"
    and sz: "sized_thread (c_arch c) te" "c_arch c < ARCH_MAX" and rd: "\<not> isl (stored_thread env te c tid)"
  shows "\<exists>st'. WriteThreadMeta cdc env te c tid st = (Inr (), st') \<and> idle st' \<and> room st' k"
proof -
  obtain t pf where t: "capture_thread env te c tid = Inr t" "read_thread_stat env tid = Inr pf"
    using rd by (cases "capture_thread env te c tid"; cases "read_thread_stat env tid") (auto simp: stored_thread_def)
  have len: "length (concat (thread_items (c_arch c) t)) \<le> BLOCK_SIZE"
    using thread_items_sizes(3) [OF t(1) sz, of "c\<lparr>c_version := 6\<rparr>"] by simp
  have "room st (BLOCK_COST + (FILE_COST + k))" using rm by (simp add: add.assoc)
  from send_room [OF st ct this _ _ len, of 2] obtain st0 st1 st2 where
    s: "SetBlock cdc 2 st = (Inr 0, st0)" "wr cdc (thread_items (c_arch c) t) (True, st0) = (True, st1)"
      "Flush cdc st1 = (Inr 0, st2)" "idle st2" "room st2 (FILE_COST + k)" by auto
  have "ReadPid (ce_open env) (int BUFFER_SIZE) tid PROC_TYPE_STAT = Inr (pf, False)"
    using t(2) by (auto simp: read_thread_stat_def split: sum.splits prod.splits if_splits)
  then have small: "length (f_data pf) + 10 \<le> BUFFER_SIZE" using ReadPid_wf(2) by fastforce
  from put_small_file [OF s(4) ct read_thread_stat_ok(1) [OF t(2)] small s(5)] obtain st' where
    "PutFile cdc (Some pf) st2 = (Inr (ProcFile_Size pf), st')" "idle st'" "room st' k" by blast
  with s t show ?thesis by (auto simp: WriteThreadMeta_def simp del: wr.simps)
qed

lemma WriteThreads_room:
  assumes ct: "codec_total cdc" and arch: "c_arch c < ARCH_MAX"
  shows "idle st \<Longrightarrow> (\<And>tid. tid \<in> set tids \<Longrightarrow> sized_thread (c_arch c) (te tid) \<and> \<not> isl (stored_thread env (te tid) c tid)) \<Longrightarrow>
    room st (THREAD_COST * length tids + k) \<Longrightarrow>
    \<exists>st'. WriteThreads cdc env te c tids st = (Inr (), st') \<and> idle st' \<and> room st' k"
proof (induction tids arbitrary: st)
  case (Cons tid tids)
  have "room st (THREAD_COST + (THREAD_COST * length tids + k))" using Cons.prems(3) by (simp add: add.assoc)
  from WriteThreadMeta_room [OF Cons.prems(1) ct this _ arch, of "te tid" env tid] Cons.prems(2) [of tid] obtain st1 where
    s: "WriteThreadMeta cdc env (te tid) c tid st = (Inr (), st1)" "idle st1" "room st1 (THREAD_COST * length tids + k)"
    by auto
  from Cons.IH [OF s(2) _ s(3)] Cons.prems(2) s(1) show ?case by auto
qed auto

end
