(* ===== verification/MetaSafety.thy ===== *)
theory MetaSafety
  imports ReaderInv
begin

text \<open>
  What \<^verbatim>\<open>VerifyFileHeader\<close> and \<^verbatim>\<open>ReadMeta\<close> guarantee about an acore file nobody vouches
  for: when they succeed, the process and its threads meet the conditions the note
  builders rely on.
\<close>

section \<open>A thread\<close>

lemma take_fields_Some:
  "take_fields ns b = (Some fs, b') \<Longrightarrow> wf_block b \<Longrightarrow>
     map length fs = ns \<and> block_rest b = concat fs @ block_rest b' \<and> wf_block b'"
proof (induction ns arbitrary: b fs)
  case Nil
  then show ?case by simp
next
  case (Cons n ns)
  from Cons.prems(1) obtain bs b1 gs where r: "Block_Read n b = (Inr bs, b1)" "take_fields ns b1 = (Some gs, b')" "fs = bs # gs"
    by (auto split: prod.splits sum.splits option.splits)
  have "wf_block b1" using Block_Read_wf [OF Cons.prems(2) r(1)] .
  from Cons.IH [OF r(2) this] Block_Read_Inr [OF r(1) Cons.prems(2)] show ?case
    using r(3) by simp
qed

definition thread_sound :: "core \<Rightarrow> ThreadData \<Rightarrow> bool" where
  "thread_sound c t \<longleftrightarrow>
     td_pid t \<noteq> 0 \<and> td_arch t = c_arch c \<and> length (td_regs t) = regs_size (c_arch c) \<and>
     length (td_fpregs t) = fpregs_size (c_arch c) \<and> length (td_siginfo t) = SIGINFO_SIZE \<and>
     (c_arch c = ARCH_X64 \<longrightarrow> length (td_xstate t) = X86_XSTATE_MAX_SIZE) \<and>
     0 \<le> si_signo t \<and> si_signo t < NSIG \<and> (c_version c \<ge> 5 \<longrightarrow> td_prstatus_signal t = c_crash_sig c) \<and>
     (\<exists>pf. td_stat t = Some pf \<and> f_type pf = proc_code PROC_TYPE_STAT \<and> f_pid pf = td_pid t)"

definition thread_memory :: "ThreadData \<Rightarrow> nat" where
  "thread_memory t = (case td_stat t of None \<Rightarrow> 0 | Some pf \<Rightarrow> ProcFile_Size pf)"

lemma nth_of_map_length: "map length fs = ns \<Longrightarrow> i < length ns \<Longrightarrow> length (fs ! i) = ns ! i"
  by (metis length_map nth_map)

lemma parse_thread_block_sound:
  assumes "parse_thread_block c i b = (Inr t, b')" "wf_block b"
  shows "td_arch t = c_arch c" "length (td_regs t) = regs_size (c_arch c)"
    "length (td_fpregs t) = fpregs_size (c_arch c)" "length (td_siginfo t) = SIGINFO_SIZE"
    "c_arch c = ARCH_X64 \<Longrightarrow> length (td_xstate t) = X86_XSTATE_MAX_SIZE"
    "0 \<le> si_signo t" "si_signo t < NSIG" "c_version c \<ge> 5 \<Longrightarrow> td_prstatus_signal t = c_crash_sig c"
    "c_version c \<ge> 5 \<Longrightarrow> c_crash_sig c \<noteq> 0 \<Longrightarrow> i = 0 \<Longrightarrow> si_signo t = c_crash_sig c"
proof -
  obtain fs sig where p: "take_fields (thread_fields (c_arch c) (c_version c)) b = (Some fs, b')"
    "thread_signal c i (thread_of_fields c fs) = Inr sig" "t = (thread_of_fields c fs)\<lparr>td_prstatus_signal := sig\<rparr>"
    using assms(1) by (auto simp: parse_thread_block_def Let_def split: prod.splits option.splits if_splits sum.splits)
  have m: "map length fs = thread_fields (c_arch c) (c_version c)" using take_fields_Some [OF p(1) assms(2)] by simp
  let ?n = "thread_fields (c_arch c) (c_version c)"
  have len: "length ?n > 3" "c_arch c = ARCH_X64 \<Longrightarrow> length ?n > 4" by (auto simp: thread_fields_def)
  have l: "length (fs ! 1) = regs_size (c_arch c)" "length (fs ! 2) = fpregs_size (c_arch c)"
    "length (fs ! 3) = SIGINFO_SIZE" "c_arch c = ARCH_X64 \<Longrightarrow> length (fs ! 4) = X86_XSTATE_MAX_SIZE"
    using nth_of_map_length [OF m, of 1] nth_of_map_length [OF m, of 2] nth_of_map_length [OF m, of 3]
      nth_of_map_length [OF m, of 4] len by (auto simp: thread_fields_def)
  show "td_arch t = c_arch c" "length (td_regs t) = regs_size (c_arch c)"
    "length (td_fpregs t) = fpregs_size (c_arch c)" "length (td_siginfo t) = SIGINFO_SIZE"
    "c_arch c = ARCH_X64 \<Longrightarrow> length (td_xstate t) = X86_XSTATE_MAX_SIZE"
    using l by (simp_all add: p(3) thread_of_fields_def Let_def)
  have si: "\<And>u n. si_signo (u\<lparr>td_prstatus_signal := n\<rparr>) = si_signo u" by (simp add: si_signo_def)
  show "0 \<le> si_signo t" "si_signo t < NSIG" "c_version c \<ge> 5 \<Longrightarrow> td_prstatus_signal t = c_crash_sig c"
    "c_version c \<ge> 5 \<Longrightarrow> c_crash_sig c \<noteq> 0 \<Longrightarrow> i = 0 \<Longrightarrow> si_signo t = c_crash_sig c"
    using p(2) by (auto simp: p(3) si thread_signal_def split: if_splits)
qed

lemma thread_sound_stat:
  "thread_sound c (t\<lparr>td_stat := Some pf\<rparr>) \<longleftrightarrow>
     td_pid t \<noteq> 0 \<and> td_arch t = c_arch c \<and> length (td_regs t) = regs_size (c_arch c) \<and>
     length (td_fpregs t) = fpregs_size (c_arch c) \<and> length (td_siginfo t) = SIGINFO_SIZE \<and>
     (c_arch c = ARCH_X64 \<longrightarrow> length (td_xstate t) = X86_XSTATE_MAX_SIZE) \<and>
     0 \<le> si_signo t \<and> si_signo t < NSIG \<and> (c_version c \<ge> 5 \<longrightarrow> td_prstatus_signal t = c_crash_sig c) \<and>
     f_type pf = proc_code PROC_TYPE_STAT \<and> f_pid pf = td_pid t"
  by (simp add: thread_sound_def si_signo_def)

lemma read_thread_sound:
  assumes r: "read_thread cdc c i ids meta st = (Inr (t, meta'), st')" and ok: "ring_ok cdc st" and cb: "codec_bounds cdc"
  shows "thread_sound c t" "td_pid t \<notin> ids" "meta + thread_memory t \<le> meta'" "meta' \<le> THREAD_META_MAX" "ring_ok cdc st'"
    "c_version c \<ge> 5 \<Longrightarrow> c_crash_sig c \<noteq> 0 \<Longrightarrow> i = 0 \<Longrightarrow> si_signo t = c_crash_sig c"
proof -
  obtain hdr b st1 where rb: "ReadBlock cdc st = (Some (hdr, b), st1)"
    using r by (cases "ReadBlock cdc st"; cases "fst (ReadBlock cdc st)") (auto simp: read_thread_def)
  note S = ReadBlock_sound [OF rb ok cb]
  obtain u b' where pb: "parse_thread_block c i b = (Inr u, b')"
    using r rb by (auto simp: read_thread_def Let_def split: if_splits prod.splits sum.splits)
  note P = parse_thread_block_sound [OF pb S(1)]
  have id: "td_pid u \<noteq> 0" "td_pid u \<notin> ids"
    using r rb pb by (auto simp: read_thread_def Let_def split: if_splits)
  obtain pf where g: "GetFile cdc (set_block b' st1) = (Inr pf, st')"
    using r rb pb id by (auto simp: read_thread_def Let_def split: if_splits prod.splits sum.splits)
  have f: "f_type pf = proc_code PROC_TYPE_STAT" "f_pid pf = td_pid u" "t = u\<lparr>td_stat := Some pf\<rparr>"
    "meta' = meta + Block_Length b + ProcFile_Size pf" "meta' \<le> THREAD_META_MAX"
    using r rb pb id g by (auto simp: read_thread_def Let_def split: if_splits)
  show "thread_sound c t" using P id f by (simp add: f(3) thread_sound_stat)
  show "td_pid t \<notin> ids" using id f(3) by simp
  show "meta + thread_memory t \<le> meta'" "meta' \<le> THREAD_META_MAX" using f by (simp_all add: thread_memory_def)
  have "ring_ok cdc (set_block b' st1)" using S(5) by simp
  then show "ring_ok cdc st'" using ring.getfile [OF g] cb by simp
  show "c_version c \<ge> 5 \<Longrightarrow> c_crash_sig c \<noteq> 0 \<Longrightarrow> i = 0 \<Longrightarrow> si_signo t = c_crash_sig c"
    using P(9) by (simp add: f(3) si_signo_def)
qed

text \<open>The invariant of the thread loop.\<close>

definition threads_sound :: "core \<Rightarrow> nat \<Rightarrow> ThreadData list \<Rightarrow> bool" where
  "threads_sound c meta ts \<longleftrightarrow>
     (\<forall>t \<in> set ts. thread_sound c t) \<and> distinct (map td_pid ts) \<and> sum_list (map thread_memory ts) \<le> meta \<and>
     meta \<le> THREAD_META_MAX \<and>
     (c_version c \<ge> 5 \<and> c_crash_sig c \<noteq> 0 \<and> ts \<noteq> [] \<longrightarrow> si_signo (hd ts) = c_crash_sig c)"

lemma threads_sound_snoc:
  assumes "threads_sound c meta ts" "thread_sound c t" "td_pid t \<notin> td_pid ` set ts"
    and "meta + thread_memory t \<le> meta'" "meta' \<le> THREAD_META_MAX"
    and "c_version c \<ge> 5 \<Longrightarrow> c_crash_sig c \<noteq> 0 \<Longrightarrow> ts = [] \<Longrightarrow> si_signo t = c_crash_sig c"
  shows "threads_sound c meta' (ts @ [t])"
  using assms by (cases ts) (auto simp: threads_sound_def)

lemma read_threads_sound:
  assumes cb: "codec_bounds cdc"
  shows "read_threads cdc c n i meta ts st = (Inr us, st') \<Longrightarrow> ring_ok cdc st \<Longrightarrow> i = length ts \<Longrightarrow>
    threads_sound c meta ts \<Longrightarrow> (\<exists>meta'. threads_sound c meta' us) \<and> length us = n + length ts"
proof (induction n arbitrary: i meta ts st)
  case 0
  then show ?case by auto
next
  case (Suc n)
  obtain t meta1 st1 where r: "read_thread cdc c i (td_pid ` set ts) meta st = (Inr (t, meta1), st1)"
    "read_threads cdc c n (Suc i) meta1 (ts @ [t]) st1 = (Inr us, st')"
    using Suc.prems(1) by (auto split: prod.splits sum.splits)
  note R = read_thread_sound [OF r(1) Suc.prems(2) cb]
  have "threads_sound c meta1 (ts @ [t])"
    by (rule threads_sound_snoc [OF Suc.prems(4) R(1-4)]) (use R(6) Suc.prems(3) in auto)
  from Suc.IH [OF r(2) R(5) _ this] Suc.prems(3) show ?case by auto
qed

section \<open>ReadMeta\<close>

definition process_sound :: "core \<Rightarrow> bool" where
  "process_sound c \<longleftrightarrow>
     (let pd = c_process c; file = (\<lambda>t f. \<exists>pf. f = Some pf \<and> file_identity (c_pid c) t pf) in
      0 < c_pid c \<and> c_pid c \<le> 2147483647 \<and> (c_crash_sig c = 0 \<or> is_core_dump_signal (c_crash_sig c)) \<and>
      file PROC_TYPE_CMDLINE (pd_cmdline pd) \<and> file PROC_TYPE_AUXV (pd_auxv pd) \<and> file PROC_TYPE_MAPS (pd_maps pd) \<and>
      file PROC_TYPE_ENVIRON (pd_environ pd) \<and> file PROC_TYPE_IO (pd_io pd) \<and> file PROC_TYPE_LIMITS (pd_limits pd) \<and>
      (if c_version c \<ge> 6 then file PROC_TYPE_STAT (pd_stat pd) else pd_stat pd = None) \<and>
      (pd_credentials_valid pd \<longleftrightarrow> c_version c \<ge> 5))"

lemma read_process_block_sound:
  assumes "read_process_block c b = (Inr (c', n), b')"
  shows "0 < c_pid c'" "c_pid c' \<le> 2147483647" "c_crash_sig c' = 0 \<or> is_core_dump_signal (c_crash_sig c')"
    "c_version c' = c_version c" "c_arch c' = c_arch c" "pd_credentials_valid (c_process c') \<longleftrightarrow> c_version c \<ge> 5"
    "pd_threads (c_process c') = pd_threads (c_process c)"
proof -
  obtain fs where tf: "take_fields (process_fields (c_version c)) b = (Some fs, b')"
    using assms by (auto simp: read_process_block_def Let_def split: prod.splits option.splits if_splits)
  have s: "sint (x :: u32) \<le> 2147483647" for x using sint_lt [of x] by simp
  note A = assms [unfolded read_process_block_def tf prod.case option.case Let_def]
  show "0 < c_pid c'" "c_pid c' \<le> 2147483647" "c_version c' = c_version c" "c_arch c' = c_arch c"
    "pd_credentials_valid (c_process c') \<longleftrightarrow> c_version c \<ge> 5"
    "pd_threads (c_process c') = pd_threads (c_process c)"
    using A s by (auto split: if_splits)
  show "c_crash_sig c' = 0 \<or> is_core_dump_signal (c_crash_sig c')"
    using A by (auto split: if_splits)
qed

lemma process_types_5: "\<not> 6 \<le> v \<Longrightarrow> process_file_types v =
    [PROC_TYPE_CMDLINE, PROC_TYPE_AUXV, PROC_TYPE_MAPS, PROC_TYPE_ENVIRON, PROC_TYPE_IO, PROC_TYPE_LIMITS]"
  by (simp add: process_file_types_def)

lemma process_types_6: "6 \<le> v \<Longrightarrow> process_file_types v =
    [PROC_TYPE_CMDLINE, PROC_TYPE_AUXV, PROC_TYPE_MAPS, PROC_TYPE_ENVIRON, PROC_TYPE_IO, PROC_TYPE_LIMITS, PROC_TYPE_STAT]"
  by (simp add: process_file_types_def)

lemma Some_the: "None \<notin> set fs \<Longrightarrow> f \<in> set fs \<Longrightarrow> f = Some (the f)"
  by (cases f) auto

lemma list_all2_the:
  "None \<notin> set fs \<Longrightarrow> list_all2 P ts (map the fs) \<Longrightarrow> list_all2 (\<lambda>t f. \<exists>pf. f = Some pf \<and> P t pf) ts fs"
proof (induction fs arbitrary: ts)
  case (Cons f fs)
  then obtain t ts' where "ts = t # ts'" by (cases ts) auto
  moreover obtain pf where "f = Some pf" using Cons.prems by (cases f) auto
  ultimately show ?case using Cons by auto
qed simp

lemma read_process_files_sound:
  assumes r: "read_process_files cdc c st = (Inr c', st')" and ok: "ring_ok cdc st" "codec_bounds cdc"
    and c: "0 < c_pid c" "c_pid c \<le> 2147483647" "c_crash_sig c = 0 \<or> is_core_dump_signal (c_crash_sig c)"
      "pd_credentials_valid (c_process c) \<longleftrightarrow> c_version c \<ge> 5"
  shows "process_sound c'" "ring_ok cdc st'" "c_version c' = c_version c" "c_arch c' = c_arch c"
    "c_crash_sig c' = c_crash_sig c" "c_pid c' = c_pid c" "pd_threads (c_process c') = pd_threads (c_process c)"
proof -
  obtain fs where g: "get_files cdc (length (process_file_types (c_version c))) st = (fs, st')"
    and n: "None \<notin> set fs" and l: "list_all2 (file_identity (c_pid c)) (process_file_types (c_version c)) (map the fs)"
    and c': "c' = c\<lparr>c_process := (c_process c)
                    \<lparr>pd_cmdline := fs ! 0, pd_auxv := fs ! 1, pd_maps := fs ! 2, pd_environ := fs ! 3,
                     pd_io := fs ! 4, pd_limits := fs ! 5,
                     pd_stat := (if c_version c \<ge> 6 then fs ! 6 else None)\<rparr>\<rparr>"
    using r by (auto simp: read_process_files_def Let_def split: prod.splits if_splits)
  note L = list_all2_the [OF n l]
  have ent: "i < length (process_file_types (c_version c)) \<Longrightarrow>
      \<exists>pf. fs ! i = Some pf \<and> file_identity (c_pid c) (process_file_types (c_version c) ! i) pf" for i
    using L by (auto simp: list_all2_conv_all_nth)
  show "process_sound c'"
  proof (cases "6 \<le> c_version c")
    case True
    show ?thesis
      using c ent [of 0] ent [of 1] ent [of 2] ent [of 3] ent [of 4] ent [of 5] ent [of 6] True
      by (simp add: process_sound_def c' process_types_6 [OF True])
  next
    case False
    show ?thesis
      using c ent [of 0] ent [of 1] ent [of 2] ent [of 3] ent [of 4] ent [of 5] False
      by (simp add: process_sound_def c' process_types_5 [OF False])
  qed
  show "ring_ok cdc st'" using ring.get_files [OF g] ok by simp
  show "c_version c' = c_version c" "c_arch c' = c_arch c"
    "c_crash_sig c' = c_crash_sig c" "c_pid c' = c_pid c" "pd_threads (c_process c') = pd_threads (c_process c)"
    by (simp_all add: c')
qed

lemma ReadMeta_sound:
  assumes r: "ReadMeta cdc c st = (Inr c', st')" and ok: "ring_ok cdc st" and cb: "codec_bounds cdc"
    and c: "pd_threads (c_process c) = []"
  shows "process_sound c'" "\<exists>meta. threads_sound c' meta (pd_threads (c_process c'))"
    "pd_threads (c_process c') \<noteq> []" "length (pd_threads (c_process c')) \<le> 131072"
    "c_version c' = c_version c" "c_arch c' = c_arch c"
    "c_version c < 6 \<Longrightarrow> word_of_int (c_pid c') \<in> td_pid ` set (pd_threads (c_process c'))"
proof -
  obtain hdr b st1 where rb: "ReadBlock cdc st = (Some (hdr, b), st1)"
    using r by (cases "ReadBlock cdc st"; cases "fst (ReadBlock cdc st)") (auto simp: ReadMeta_def)
  note S = ReadBlock_sound [OF rb ok cb]
  obtain c1 num b' where pb: "read_process_block c b = (Inr (c1, num), b')"
    using r rb by (auto simp: ReadMeta_def split: if_splits prod.splits sum.splits)
  note P = read_process_block_sound [OF pb]
  obtain c2 st2 where pf: "read_process_files cdc c1 (set_block b' st1) = (Inr c2, st2)"
    using r rb pb by (auto simp: ReadMeta_def split: if_splits prod.splits sum.splits)
  have ok1: "ring_ok cdc (set_block b' st1)" using S(5) by simp
  have cr: "pd_credentials_valid (c_process c1) \<longleftrightarrow> c_version c1 \<ge> 5" using P(4,6) by simp
  note F = read_process_files_sound [OF pf ok1 cb P(1-3) cr]
  obtain us where th: "read_threads cdc c2 (nat num) 0 0 [] st2 = (Inr us, st')"
    and n: "0 < num" "num \<le> MAX_THREADS" and c': "c' = c2\<lparr>c_process := (c_process c2)\<lparr>pd_threads := us\<rparr>\<rparr>"
    and v: "c_version c2 < 6 \<longrightarrow> word_of_int (c_pid c2) \<in> td_pid ` set us"
    using r rb pb pf F(7) P(7) c by (auto simp: ReadMeta_def split: if_splits prod.splits sum.splits)
  have "threads_sound c2 0 []" by (simp add: threads_sound_def)
  from read_threads_sound [OF cb th F(2) _ this] obtain meta where
    T: "threads_sound c2 meta us" "length us = nat num" by auto
  show "process_sound c'" using F(1) by (simp add: c' process_sound_def Let_def)
  have "thread_sound c' = thread_sound c2" by (rule ext) (simp add: thread_sound_def c')
  then have "threads_sound c' meta us" using T(1) by (simp add: threads_sound_def c')
  then show "\<exists>meta. threads_sound c' meta (pd_threads (c_process c'))" by (auto simp: c')
  show "pd_threads (c_process c') \<noteq> []" "length (pd_threads (c_process c')) \<le> 131072"
    using T(2) n by (auto simp: c')
  show "c_version c' = c_version c" "c_arch c' = c_arch c" using F P by (simp_all add: c')
  show "c_version c < 6 \<Longrightarrow> word_of_int (c_pid c') \<in> td_pid ` set (pd_threads (c_process c'))"
    using v F P by (simp add: c')
qed

end
