(* ===== verification/Crc.thy ===== *)
theory Crc
  imports Lz4Block
begin

text \<open>
  The checksum of a block: the table-driven CRC32 of \<^verbatim>\<open>src/lz4.cc\<close> is the bitwise CRC, it is
  linear and every step is a bijection, so a block altered in up to four consecutive
  bytes never keeps its checksum.
\<close>

lemma and_one_odd: "(v::u32) AND 1 \<noteq> 0 \<longleftrightarrow> odd v"
  by (simp add: and_one_eq odd_iff_mod_2_eq_one)

lemma crc_bit_xor: "crc_bit (a XOR b) = crc_bit a XOR crc_bit b"
proof -
  have "odd (a XOR b) \<longleftrightarrow> odd a \<noteq> odd b" by (simp add: even_xor_iff)
  then show ?thesis
    unfolding crc_bit_def and_one_odd
    by (cases "odd a"; cases "odd b") (simp_all add: drop_bit_xor ac_simps)
qed

lemma crc_bit_zero: "crc_bit v = 0 \<longleftrightarrow> v = 0"
proof
  assume a: "crc_bit v = 0"
  have nb: "\<not> bit (drop_bit 1 v) 31"
    using bit_imp_le_length [of v 32] by (auto simp: bit_drop_bit_eq)
  have pb: "bit CRC_POLY 31" by simp
  have ev: "even v"
  proof (rule ccontr)
    assume o: "\<not> even v"
    then have "crc_bit v = drop_bit 1 v XOR CRC_POLY"
      by (simp only: crc_bit_def and_one_odd if_True not_False_eq_True)
    then have "bit (crc_bit v) 31" using nb pb by (simp only: bit_xor_iff) simp
    then show False using a by simp
  qed
  then have "drop_bit 1 v = 0" using a by (simp add: crc_bit_def and_one_odd)
  with ev show "v = 0"
    by (metis One_nat_def add_0 bits_ident parity_cases push_bit_of_0 take_bit_Suc_0)
next
  assume "v = 0"
  then show "crc_bit v = 0" by (simp add: crc_bit_def)
qed

lemma crc_bits_xor: "(crc_bit ^^ n) (a XOR b) = (crc_bit ^^ n) a XOR (crc_bit ^^ n) b"
  by (induction n) (simp_all add: crc_bit_xor)

lemma crc_bits_zero: "(crc_bit ^^ n) v = 0 \<longleftrightarrow> v = 0"
  by (induction n) (simp_all add: crc_bit_zero)

lemma xor_zero_iff: "(a::u32) XOR b = 0 \<longleftrightarrow> a = b"
  by (metis xor.assoc xor.left_neutral xor.right_neutral xor_self_eq)

lemma xor_right_cancel: "(a::u32) XOR c = b XOR c \<longleftrightarrow> a = b"
  by (metis xor.assoc xor.right_neutral xor_self_eq)

lemma of_char_word: "unat (of_char c :: u32) = of_char c"
proof -
  have "unat (of_nat (of_char c) :: u32) = of_char c" by (simp only: unat_of_nat) (rule mod_less, rule less_trans [OF of_char_less], simp)
  then show ?thesis by (simp only: of_nat_of_char)
qed

lemma crc_bits_eq: "(crc_bit ^^ n) a = (crc_bit ^^ n) b \<longleftrightarrow> a = b"
proof -
  have "(crc_bit ^^ n) a = (crc_bit ^^ n) b \<longleftrightarrow> (crc_bit ^^ n) (a XOR b) = 0"
    by (simp add: crc_bits_xor xor_zero_iff)
  also have "\<dots> \<longleftrightarrow> a = b" by (simp add: crc_bits_zero xor_zero_iff)
  finally show ?thesis .
qed

lemma crc_bits_shift: "take_bit n v = 0 \<Longrightarrow> (crc_bit ^^ n) v = drop_bit n v"
proof (induction n arbitrary: v)
  case 0
  then show ?case by simp
next
  case (Suc n)
  have ev: "even v"
    using Suc.prems by (metis bit_0 bit_0_eq bit_take_bit_iff zero_less_Suc bot_apply bot_bool_def)
  then have b: "crc_bit v = drop_bit 1 v" by (simp add: crc_bit_def and_one_odd)
  have "take_bit n (drop_bit 1 v) = 0"
    using Suc.prems by (metis Suc_eq_plus1_left add.commute drop_bit_of_0 drop_bit_take_bit add_diff_cancel_right' plus_1_eq_Suc)
  then have "(crc_bit ^^ n) (drop_bit 1 v) = drop_bit n (drop_bit 1 v)" by (rule Suc.IH)
  then show ?case by (simp add: funpow_swap1 b drop_bit_drop_bit del: funpow.simps add: funpow_Suc_right)
qed

lemma crc_step_bits: "crc_step crc b = (crc_bit ^^ 8) (crc XOR of_char b)"
proof -
  let ?v = "crc XOR of_char b" and ?lo = "(crc XOR of_char b) AND 0xff" and ?hi = "(crc XOR of_char b) AND NOT 0xff"
  have split: "?v = ?lo XOR ?hi"
    by (rule bit_word_eqI) (auto simp: bit_simps)
  have m: "(0xff :: u32) = mask 8" by (simp add: mask_eq_exp_minus_1)
  have lo: "?lo = take_bit 8 ?v" by (simp only: m take_bit_eq_mask)
  have "unat ?lo < 256"
    unfolding lo by (simp only: unsigned_take_bit_eq) (simp add: take_bit_eq_mod)
  then have tab: "crc_table ! unat ?lo = (crc_bit ^^ 8) ?lo"
    by (simp add: crc_table_def)
  have "take_bit 8 ?hi = 0" by (simp only: m) (rule bit_word_eqI, auto simp: bit_simps)
  then have "(crc_bit ^^ 8) ?hi = drop_bit 8 ?hi" by (rule crc_bits_shift)
  also have "\<dots> = drop_bit 8 ?v"
    by (simp only: m) (rule bit_word_eqI, auto simp: bit_simps dest: bit_imp_le_length)
  also have "\<dots> = drop_bit 8 crc XOR drop_bit 8 (of_char b)" by (simp add: drop_bit_xor)
  also have "drop_bit 8 (of_char b :: u32) = 0"
    by (simp only: word_unat_eq_iff unat_drop_bit_eq of_char_word) (simp add: drop_bit_eq_div)
  finally have hi: "(crc_bit ^^ 8) ?hi = drop_bit 8 crc" by simp
  have "(crc_bit ^^ 8) ?v = (crc_bit ^^ 8) ?lo XOR (crc_bit ^^ 8) ?hi"
    by (subst split) (rule crc_bits_xor)
  then show ?thesis unfolding crc_step_def tab hi by simp
qed

lemma crc_step_eq: "crc_step c x = crc_step d y \<longleftrightarrow> c XOR of_char x = d XOR of_char y"
  by (simp only: crc_step_bits crc_bits_eq)

lemma crc32_update_eq: "crc32_update c bs = crc32_update d bs \<longleftrightarrow> c = d"
proof (induction bs arbitrary: c d)
  case Nil
  then show ?case by (simp add: crc32_update_def)
next
  case (Cons b bs)
  have "crc_step c b = crc_step d b \<longleftrightarrow> c = d"
    by (simp add: crc_step_eq) (metis xor.assoc xor_self_eq xor.right_neutral)
  then show ?case using Cons by (simp add: crc32_update_def)
qed

section \<open>Four bytes at once\<close>

lemma of_char_nat: "(of_char c :: u32) = word_of_nat (of_char c)"
  by (simp only: of_nat_of_char)

lemma drop_low_byte:
  assumes "v < 2 ^ 24"
  shows "take_bit 8 (word_of_nat (256 * v) :: u32) = 0" "drop_bit 8 (word_of_nat (256 * v) :: u32) = word_of_nat v"
proof -
  have u: "unat (word_of_nat (256 * v) :: u32) = 256 * v" using assms by (simp only: unat_of_nat) simp
  show "take_bit 8 (word_of_nat (256 * v) :: u32) = 0"
    by (simp only: word_unat_eq_iff unsigned_take_bit_eq u) (simp add: take_bit_eq_mod)
  have "unat (drop_bit 8 (word_of_nat (256 * v) :: u32)) = v"
    by (simp only: unat_drop_bit_eq u) (simp add: drop_bit_eq_div)
  then show "drop_bit 8 (word_of_nat (256 * v) :: u32) = word_of_nat v"
    using assms by (simp only: word_unat_eq_iff unat_of_nat) simp
qed

lemma low_byte_xor:
  assumes "v < 2 ^ 24"
  shows "(word_of_nat (of_char b + 256 * v) :: u32) = of_char b XOR word_of_nat (256 * v)"
proof -
  have a: "of_char b AND (word_of_nat (256 * v) :: u32) = 0"
  proof -
    have "(of_char b :: u32) = take_bit 8 (of_char b)"
      using of_char_less [of b]
      by (simp only: word_unat_eq_iff unsigned_take_bit_eq of_char_word) (simp add: take_bit_eq_mod)
    moreover have "take_bit 8 x AND w = take_bit 8 x AND take_bit 8 w" for x w :: u32
      by (rule bit_word_eqI) (auto simp: bit_simps)
    ultimately have "of_char b AND (word_of_nat (256 * v) :: u32) = of_char b AND take_bit 8 (word_of_nat (256 * v))"
      by metis
    then show ?thesis by (simp only: drop_low_byte(1) [OF assms] and_zero_eq)
  qed
  have "(word_of_nat (of_char b + 256 * v) :: u32) = of_char b + word_of_nat (256 * v)"
    by (simp only: of_char_nat of_nat_add)
  also have "\<dots> = of_char b XOR word_of_nat (256 * v)"
    using a by (rule disjunctive_add_eq_xor)
  finally show ?thesis .
qed

lemma crc32_update_word:
  "length bs \<le> 4 \<Longrightarrow> crc32_update c bs = (crc_bit ^^ (8 * length bs)) (c XOR word_of_nat (le_val bs))"
proof (induction bs arbitrary: c)
  case Nil
  then show ?case by (simp add: crc32_update_def)
next
  case (Cons b bs)
  have l: "le_val bs < 2 ^ 24"
  proof -
    have "le_val bs < 256 ^ length bs" by (rule le_val_less)
    also have "(256::nat) ^ length bs \<le> 256 ^ 3" using Cons.prems by (intro power_increasing) simp_all
    finally show ?thesis by simp
  qed
  let ?w = "word_of_nat (256 * le_val bs) :: u32"
  have "(crc_bit ^^ 8) ?w = word_of_nat (le_val bs)"
    using crc_bits_shift [OF drop_low_byte(1) [OF l]] drop_low_byte(2) [OF l] by simp
  then have "(crc_bit ^^ 8) (c XOR of_char b) XOR word_of_nat (le_val bs) = (crc_bit ^^ 8) ((c XOR of_char b) XOR ?w)"
    by (simp only: crc_bits_xor)
  also have "(c XOR of_char b) XOR ?w = c XOR word_of_nat (le_val (b # bs))"
    by (simp only: le_val.simps low_byte_xor [OF l] xor.assoc)
  finally have st: "crc_step c b XOR word_of_nat (le_val bs) = (crc_bit ^^ 8) (c XOR word_of_nat (le_val (b # bs)))"
    by (simp only: crc_step_bits)
  have "crc32_update c (b # bs) = crc32_update (crc_step c b) bs" by (simp add: crc32_update_def)
  also have "\<dots> = (crc_bit ^^ (8 * length bs)) (crc_step c b XOR word_of_nat (le_val bs))"
    by (rule Cons.IH) (use Cons.prems in simp)
  also have "\<dots> = (crc_bit ^^ (8 * length bs + 8)) (c XOR word_of_nat (le_val (b # bs)))"
    by (simp only: st funpow_add comp_apply)
  also have "8 * length bs + 8 = 8 * length (b # bs)" by simp
  finally show ?case .
qed

lemma le_val_inj: "length a = length b \<Longrightarrow> le_val a = le_val b \<Longrightarrow> a = b"
  by (metis le_bytes_le_val)

lemma crc32_update_append: "crc32_update c (a @ b) = crc32_update (crc32_update c a) b"
  by (simp add: crc32_update_def)

lemma crc32_burst:
  assumes "length x = length y" "length x \<le> 4" "x \<noteq> y"
  shows "crc32_update c (pre @ x @ post) \<noteq> crc32_update c (pre @ y @ post)"
proof
  assume "crc32_update c (pre @ x @ post) = crc32_update c (pre @ y @ post)"
  then have "crc32_update (crc32_update c pre) x = crc32_update (crc32_update c pre) y"
    by (simp add: crc32_update_append crc32_update_eq)
  then have "crc32_update c pre XOR word_of_nat (le_val x) = crc32_update c pre XOR (word_of_nat (le_val y) :: u32)"
    using assms by (simp add: crc32_update_word crc_bits_eq)
  then have "(word_of_nat (le_val x) :: u32) = word_of_nat (le_val y)"
    by (metis xor.assoc xor.left_neutral xor_self_eq)
  moreover have "unat (word_of_nat (le_val z) :: u32) = le_val z" if "length z \<le> 4" for z
  proof -
    have "le_val z < 256 ^ length z" by (rule le_val_less)
    also have "(256::nat) ^ length z \<le> 256 ^ 4" using that by (intro power_increasing) simp_all
    finally show ?thesis by (simp only: unat_of_nat) simp
  qed
  ultimately have "le_val x = le_val y"
    using assms by metis
  then show False using assms le_val_inj by blast
qed

end
