(* ===== verification/Lz4Props.thy ===== *)
theory Lz4Props
  imports Lz4RoundTrip Crc
begin

text \<open>
  The properties of the block stream, each with a run on concrete input. The runs use
  \<open>counted\<close>, a codec that meets the contract of the LZ4 library: its blocks carry the
  number of the block, so a decoder that lost track rejects them.
\<close>

section \<open>A codec that meets the contract\<close>

definition counted :: "(nat, nat) lz4_codec" where
  "counted =
     \<lparr>LZ4_createStream = Some 0, LZ4_initStream = (\<lambda>e. Some 0), LZ4_createStreamDecode = Some 0,
      LZ4_decoderRingBufferSize = (\<lambda>n. 65550 + int n), LZ4_setStreamDecode = (\<lambda>d. Some 0),
      cd_malloc = (\<lambda>n. True),
      LZ4_compress = (\<lambda>e ix raw cap. if raw = [] \<or> length raw + 1 > cap then (None, e)
                                     else (Some (char_of e # raw), Suc e)),
      LZ4_decompress = (\<lambda>d off c cap. case c of
           [] \<Rightarrow> (None, d)
         | x # raw \<Rightarrow> if x = char_of d \<and> length raw \<le> cap then (Some raw, Suc d) else (None, d))\<rparr>"

definition counted_sync :: "nat \<Rightarrow> nat \<Rightarrow> nat \<Rightarrow> nat \<Rightarrow> bool" where
  "counted_sync e ix d p \<longleftrightarrow> e = d"

lemma counted_ok: "codec_ok counted counted_sync"
  by (auto simp: codec_ok_def codec_bounds_def codec_inverse_def codec_start_def counted_def counted_sync_def
      ring_of_def split: if_splits list.splits)

lemma counted_total: "codec_total counted"
  by (auto simp: codec_total_def counted_def)

definition disk :: "bytes \<Rightarrow> FILE" where
  "disk bs = \<lparr>fl_data = bs, fl_pos = 0, fl_limit = 10000000, fl_bad = None, fl_seekable = True, fl_err = False,
     fl_eof = False, fl_flush_ok = True, fl_sync_ok = True, fl_close_ok = True\<rparr>"

definition new_out :: "(nat, nat) stream" where
  "new_out = snd (Open counted (Some (disk [])) (Some ''acore'') (Lz4Stream_new LZ4_Compress))"

definition new_in :: "bytes \<Rightarrow> (nat, nat) stream" where
  "new_in bs = snd (Open counted (Some (disk bs)) (Some ''acore'') (Lz4Stream_new LZ4_Decompress))"

lemmas open_eval = Open_def Lz4Stream_new_def InitCodec_def ResetState_def ReleaseCodec_def counted_def Let_def

lemma new_out_eq: "new_out = (Lz4Stream_new LZ4_Compress)\<lparr>s_file := Some (disk []), s_enc := Some 0\<rparr>"
  by (simp add: new_out_def open_eval numeral_2_eq_2)

lemma new_in_eq: "new_in bs = (Lz4Stream_new LZ4_Decompress)\<lparr>s_file := Some (disk bs), s_dec := Some 0, s_ring := 131086\<rparr>"
  by (simp add: new_in_def open_eval numeral_2_eq_2)

lemma new_out_frame:
  "writer new_out" "pending new_out = []" "s_file new_out = Some (disk [])" "s_enc new_out = Some 0"
  "s_sums new_out = False" "cur_ix new_out = 0" "room new_out 10000000"
  by (simp_all add: new_out_eq writer_def Lz4Stream_new_def at_end_def disk_def CurrentBlock_def cur_ix_def
      empty_block_def pending_def room_def numeral_2_eq_2)

lemma new_in_fed: "fed counted counted_sync False 0 0 (new_in bs) bs"
  by (simp add: fed_def new_in_eq reader_def Lz4Stream_new_def disk_def healthy_def unread_def ring_ok_def
      counted_sync_def ring_of_def counted_def)

section \<open>Blocks\<close>

text \<open>
  C23: A byte string written with \<^verbatim>\<open>WriteBlock\<close> is read back unchanged: the bytes added to
  the file, put before any other bytes, make as many calls of \<^verbatim>\<open>ReadBlock\<close> as blocks were
  written return exactly those blocks, the first marked as a start and the others as its
  continuation, all of the given type, and leave the reader in step with the writer.
\<close>

theorem WriteBlock_read_back:
  assumes "codec_ok cdc sync" "writer st" "pending st = []" "s_enc st = Some e"
    and "WriteBlock cdc (Some s) t st = (Inr n, st')"
    and "fed cdc sync (s_sums st) e (cur_ix st) rd (new_bytes st st' @ rest)"
  shows "n = length s \<and>
    (\<exists>blks rd' e'. blks = lblocks 0 (word_of_int t) (chunks s) \<and> concat (map lb_raw blks) = s \<and>
       read_blocks cdc (length blks) rd = (Some blks, rd') \<and> s_enc st' = Some e' \<and>
       fed cdc sync (s_sums st') e' (cur_ix st') rd' rest)"
proof -
  note W = WriteBlock_Inr [OF assms(2,5)]
  let ?b = "lblocks 0 (word_of_int t) (chunks s)"
  have "appended cdc st ?b st'" using W(5) assms(3) by (simp add: sealed_def)
  moreover have "sound_blocks ?b" by (rule lblocks_raw_sound) (rule chunks_sizes)
  ultimately obtain rd' e' where "read_blocks cdc (length ?b) rd = (Some ?b, rd')" "s_enc st' = Some e'"
      "fed cdc sync (s_sums st') e' (cur_ix st') rd' rest"
    using appended_read_back [OF assms(1) _ _ assms(4,6)] by blast
  with W(3) show ?thesis by auto
qed

definition sample_out :: "(nat, nat) stream" where
  "sample_out = snd (WriteBlock counted (Some ''regs'') 2 new_out)"

lemma sample_out_eq: "WriteBlock counted (Some ''regs'') 2 new_out = (Inr 4, sample_out)"
  "new_bytes new_out sample_out = put_hdr (block_hdr 0 2 5) @ NUL # ''regs''"
proof -
  have "fst (WriteBlock counted (Some ''regs'') 2 new_out) = Inr 4" by code_simp
  then show "WriteBlock counted (Some ''regs'') 2 new_out = (Inr 4, sample_out)"
    by (simp add: sample_out_def prod_eq_iff)
  show "new_bytes new_out sample_out = put_hdr (block_hdr 0 2 5) @ NUL # ''regs''" by code_simp
qed

theorem WriteBlock_read_back_witness:
  "\<exists>rd'. read_blocks counted 1 (new_in (new_bytes new_out sample_out @ ''tail'')) = (Some [(0, 2, ''regs'')], rd')"
proof -
  have "fed counted counted_sync (s_sums new_out) 0 (cur_ix new_out)
      (new_in (new_bytes new_out sample_out @ ''tail'')) (new_bytes new_out sample_out @ ''tail'')"
    using new_in_fed by (simp add: new_out_frame)
  from WriteBlock_read_back [OF counted_ok new_out_frame(1,2,4) sample_out_eq(1) this]
  show ?thesis by (auto simp: chunks_step)
qed

text \<open>
  C24: A sequence of \<^verbatim>\<open>Write\<close> calls followed by \<^verbatim>\<open>Flush\<close> stores the concatenation of its
  arguments: however the bytes were cut into blocks, the blocks read back carry the
  stream's current type, none is empty or longer than a block, and their data in order
  is exactly what was written.
\<close>

theorem Write_sequence_read_back:
  assumes "codec_ok cdc sync" "writer st" "pending st = []" "s_enc st = Some e"
    and "put_all (Write_some cdc) bss st = (Inr (), st1)" "Flush cdc st1 = (Inr n, st2)"
    and "fed cdc sync (s_sums st) e (cur_ix st) rd (new_bytes st st2 @ rest)"
  shows "\<exists>blks rd' e'. read_blocks cdc (length blks) rd = (Some blks, rd') \<and>
     concat (map lb_raw blks) = concat bss \<and>
     (\<forall>b \<in> set blks. fst b = 0 \<and> fst (snd b) = word_of_int (s_type st) \<and>
        lb_raw b \<noteq> [] \<and> length (lb_raw b) \<le> BLOCK_SIZE) \<and>
     s_enc st2 = Some e' \<and> fed cdc sync (s_sums st2) e' (cur_ix st2) rd' rest"
proof -
  from lz4_sink.put_all_ok [OF assms(2,5)] have p: "writer st1" "emits cdc st (concat bss) st1" by auto
  note F = Flush_Inr [OF p(1) assms(6)]
  from p(2) obtain xs where x: "appended cdc st xs st1" "pending st @ concat bss = concat (map lb_raw xs) @ pending st1"
    "sound_blocks xs" "\<forall>b \<in> set xs. fst b = 0 \<and> fst (snd b) = word_of_int (s_type st)" "s_type st1 = s_type st"
    unfolding emits_def by blast
  let ?blks = "xs @ sealed st1"
  have "appended cdc st ?blks st2" by (rule appended_trans [OF x(1) F(3)])
  moreover have "sound_blocks ?blks" using x(3) sealed_sound [OF p(1)] by simp
  ultimately obtain rd' e' where "read_blocks cdc (length ?blks) rd = (Some ?blks, rd')" "s_enc st2 = Some e'"
      "fed cdc sync (s_sums st2) e' (cur_ix st2) rd' rest"
    using appended_read_back [OF assms(1) _ _ assms(4,7)] by blast
  moreover have "concat (map lb_raw ?blks) = concat bss" using x(2) assms(3) by simp
  moreover have "\<forall>b \<in> set ?blks. fst b = 0 \<and> fst (snd b) = word_of_int (s_type st) \<and>
      lb_raw b \<noteq> [] \<and> length (lb_raw b) \<le> BLOCK_SIZE"
    using x(3-5) sealed_sound [OF p(1)] by (auto simp: sound_blocks_def sealed_def split: if_splits)
  ultimately show ?thesis by blast
qed

definition written :: "(nat, nat) stream" where
  "written = snd (put_all (Write_some counted) [''ab'', ''c''] new_out)"

definition flushed :: "(nat, nat) stream" where
  "flushed = snd (Flush counted written)"

theorem Write_sequence_read_back_witness:
  "\<exists>blks rd'. read_blocks counted (length blks) (new_in (new_bytes new_out flushed)) = (Some blks, rd') \<and>
     concat (map lb_raw blks) = ''abc''"
proof -
  have "fst (put_all (Write_some counted) [''ab'', ''c''] new_out) = Inr ()" by code_simp
  then have w: "put_all (Write_some counted) [''ab'', ''c''] new_out = (Inr (), written)"
    by (simp add: written_def prod_eq_iff)
  have "fst (Flush counted written) = Inr 0" by code_simp
  then have f: "Flush counted written = (Inr 0, flushed)" by (simp add: flushed_def prod_eq_iff)
  have "fed counted counted_sync (s_sums new_out) 0 (cur_ix new_out) (new_in (new_bytes new_out flushed))
      (new_bytes new_out flushed @ [])"
    using new_in_fed by (simp add: new_out_frame)
  from Write_sequence_read_back [OF counted_ok new_out_frame(1,2,4) w f this] show ?thesis by auto
qed

text \<open>
  C22: \<^verbatim>\<open>GetFile\<close> undoes \<^verbatim>\<open>PutFile\<close>: a \<^verbatim>\<open>/proc\<close> file that \<^verbatim>\<open>PutFile\<close> accepted comes back
  with the same size, pid, type and contents, whatever follows it in the file, provided
  the reader can allocate it; reader and writer stay in step.
\<close>

theorem GetFile_PutFile:
  assumes "codec_ok cdc sync" "writer st" "pending st = []" "s_enc st = Some e" "wf_ProcFile pf"
    and "PutFile cdc (Some pf) st = (Inr n, st')" "cd_malloc cdc n"
    and "fed cdc sync (s_sums st) e (cur_ix st) rd (new_bytes st st' @ rest)"
  shows "\<exists>rd' e'. GetFile cdc rd = (Inr pf, rd') \<and> s_enc st' = Some e' \<and>
     fed cdc sync (s_sums st') e' (cur_ix st') rd' rest"
  by (rule PutFile_read_back [OF assms])

definition sample_pf :: ProcFile where
  "sample_pf = \<lparr>f_size = 3, f_pid = 42, f_type = 1, f_data = ''sh'' @ [NUL]\<rparr>"

definition put_out :: "(nat, nat) stream" where
  "put_out = snd (PutFile counted (Some sample_pf) new_out)"

theorem GetFile_PutFile_witness:
  "\<exists>rd'. GetFile counted (new_in (new_bytes new_out put_out @ ''more'')) = (Inr sample_pf, rd')"
proof -
  have "fst (PutFile counted (Some sample_pf) new_out) = Inr 12" by code_simp
  then have w: "PutFile counted (Some sample_pf) new_out = (Inr 12, put_out)"
    by (simp add: put_out_def prod_eq_iff)
  have wf: "wf_ProcFile sample_pf" by (simp add: wf_ProcFile_def sample_pf_def)
  have mem: "cd_malloc counted 12" by (simp add: counted_def)
  have "fed counted counted_sync (s_sums new_out) 0 (cur_ix new_out)
      (new_in (new_bytes new_out put_out @ ''more'')) (new_bytes new_out put_out @ ''more'')"
    using new_in_fed by (simp add: new_out_frame)
  from GetFile_PutFile [OF counted_ok new_out_frame(1,2,4) wf w mem this] show ?thesis by auto
qed

section \<open>Arbitrary input\<close>

lemma fread_healthy_split:
  "healthy f \<Longrightarrow> fread n f = (got, f') \<Longrightarrow> unread f = got @ unread f' \<and> healthy f'"
  using fread_healthy [of f n got f'] by simp

text \<open>
  C25: Whatever bytes the file holds, a block that \<^verbatim>\<open>ReadBlock\<close> returns is not empty and
  fits the 64 KiB buffer, its header is not the tail mark and announces at most the
  65809 bytes the read buffer holds, and the input it consumed is exactly that header,
  that many compressed bytes and, on a checksummed stream, the CRC32 of the header and
  the decoded data.
\<close>

theorem ReadBlock_input:
  assumes "ReadBlock cdc st = (Some (hdr, b), st')" "codec_bounds cdc" "reader cdc st"
  shows "wf_block b \<and> b_cur b = 0 \<and> b_buf b \<noteq> [] \<and> \<not> isTailMark hdr \<and>
    unat (hdr_size hdr) \<le> COMPRESS_BUF \<and>
    (\<exists>f f' c. s_file st = Some f \<and> s_file st' = Some f' \<and> length c = unat (hdr_size hdr) \<and>
       unread f = frame (s_sums st) hdr c (b_buf b) @ unread f')"
proof -
  have ok: "ring_ok cdc st" using assms(3) by (simp add: reader_def)
  note S = ReadBlock_sound [OF assms(1) ok assms(2)]
  have len: "length (s_blocks st) = 2" using ok by (simp add: ring_ok_def)
  obtain f d h f1 c f2 k f3 where R: "s_file st = Some f"
    "fread 3 f = (h, f1)" "length h = 3" "hdr = get_hdr h" "unat (hdr_size hdr) \<le> COMPRESS_BUF"
    "fread (unat (hdr_size hdr)) f1 = (c, f2)" "length c = unat (hdr_size hdr)"
    "(if s_sums st then fread 4 f2 else ([], f2)) = (k, f3)" "s_sums st \<longrightarrow> length k = 4"
    "decode_block cdc hdr c (if s_sums st then get32 k else 0) (stage st f3) = (Some (hdr, b), st')"
    by (rule ReadBlock_Some [OF assms(1) len])
  have "length (s_blocks (stage st f3)) = 2" using len by simp
  then obtain d1 d2 where "LZ4_decompress cdc d1 (decode_offset (stage st f3)) c BLOCK_SIZE = (Some (b_buf b), d2)"
    "s_sums (stage st f3) \<longrightarrow> block_checksum hdr (b_buf b) = (if s_sums st then get32 k else 0)"
    "st' = set_block b ((stage st f3)\<lparr>s_dec := Some d2, s_off := decode_offset (stage st f3) + length (b_buf b)\<rparr>)"
    by (rule decode_block_Some [OF R(10)])
  then have D: "s_file st' = Some f3" "s_sums st \<Longrightarrow> block_checksum hdr (b_buf b) = get32 k" by simp_all
  have h0: "healthy f" using assms(3) R(1) by (auto simp: reader_def)
  from fread_healthy_split [OF h0 R(2)] have u1: "unread f = h @ unread f1" "healthy f1" by auto
  from fread_healthy_split [OF u1(2) R(6)] have u2: "unread f1 = c @ unread f2" "healthy f2" by auto
  have u3: "unread f2 = (if s_sums st then put32 (block_checksum hdr (b_buf b)) else []) @ unread f3"
  proof (cases "s_sums st")
    case True
    then have "fread 4 f2 = (k, f3)" "length k = 4" using R(8,9) by auto
    with fread_healthy_split [OF u2(2) this(1)] D(2) [OF True] show ?thesis
      using True by (simp add: c32.enc_dec)
  next
    case False
    then show ?thesis using R(8) by auto
  qed
  have "put_hdr hdr = h" using R(3,4) by (simp add: put_hdr_get_hdr)
  then have "unread f = frame (s_sums st) hdr c (b_buf b) @ unread f3"
    using u1(1) u2(1) u3 by (simp add: frame_def)
  then show ?thesis using S R(1,5,7) D(1) by blast
qed

definition sample_in :: "bytes" where
  "sample_in = put_hdr (block_hdr 0 2 5) @ NUL # ''regs'' @ put_hdr TailMark"

theorem ReadBlock_input_witness:
  "\<exists>hdr b st'. ReadBlock counted (new_in sample_in) = (Some (hdr, b), st') \<and> wf_block b \<and> b_buf b = ''regs''"
proof -
  have a: "map_option (\<lambda>hb. b_buf (snd hb)) (fst (ReadBlock counted (new_in sample_in))) = Some ''regs''" by code_simp
  then obtain hdr b where hb: "fst (ReadBlock counted (new_in sample_in)) = Some (hdr, b)" "b_buf b = ''regs''" by auto
  then have r: "ReadBlock counted (new_in sample_in) = (Some (hdr, b), snd (ReadBlock counted (new_in sample_in)))"
    by (simp add: prod_eq_iff)
  have "reader counted (new_in sample_in)" using new_in_fed [of sample_in] by (simp add: fed_def)
  from ReadBlock_input [OF r _ this] counted_ok hb(2) r show ?thesis by (auto simp: codec_ok_def)
qed

text \<open>
  C27: The decoder never writes outside its ring: before every \<^verbatim>\<open>ReadBlock\<close> of an open
  reader the decode offset leaves room for a whole block, and the call, successful or
  not, on any input, keeps the invariant (offset within the ring, two block buffers).
\<close>

theorem decode_ring_safe:
  assumes "ring_ok cdc st" "codec_bounds cdc" "s_file st \<noteq> None" "s_dec st \<noteq> None"
  shows "decode_offset st + BLOCK_SIZE \<le> s_ring st \<and> ring_ok cdc (snd (ReadBlock cdc st))"
proof -
  obtain r st' where r: "ReadBlock cdc st = (r, st')" by fastforce
  have "ring_ok cdc st'"
  proof (cases r)
    case None
    then show ?thesis using ReadBlock_None(1) [OF _ assms(1,2,3,4)] r by blast
  next
    case (Some hb)
    then obtain hdr b where "ReadBlock cdc st = (Some (hdr, b), st')" using r by (cases hb) auto
    then show ?thesis using ReadBlock_sound(5) [OF _ assms(1,2)] by blast
  qed
  then show ?thesis using decode_offset_room [OF assms(1,2)] r by simp
qed

lemma new_in_ring: "ring_ok counted (new_in bs)" "s_file (new_in bs) \<noteq> None" "s_dec (new_in bs) \<noteq> None"
  using new_in_fed [of bs] by (auto simp: fed_def reader_def)

theorem decode_ring_safe_witness:
  "decode_offset (new_in sample_in) + 65536 \<le> 131086 \<and> ring_ok counted (snd (ReadBlock counted (new_in sample_in)))"
  using decode_ring_safe [OF new_in_ring(1) _ new_in_ring(2,3), of sample_in] counted_ok
  by (simp add: codec_ok_def new_in_eq [of sample_in])

text \<open>
  C35: Reading a stream ends and its end is final, on any input. \<^verbatim>\<open>ReadBlock\<close> returns at most
  as many blocks as the file has unread bytes. When it returns none without having found the
  clean end of the file between two blocks - a header or block cut short, an oversize block, a
  failed read, decompression or checksum, or the tail mark - the stream is marked as damaged or
  its tail as read, and every later call returns none and changes nothing, not even the file
  position. At the clean end every later call returns none too.
\<close>

theorem ReadBlock_ends:
  assumes "open_reader st"
  shows "length (fst (take_blocks (ReadBlock cdc) n st)) \<le> stream_left st \<and>
    (\<forall>st'. ReadBlock cdc st = (None, st') \<longrightarrow>
       (if clean_end st then \<not> stream_dead st' \<and> (\<forall>m. fst (take_blocks (ReadBlock cdc) m st') = [])
        else stream_dead st' \<and> (\<forall>m. take_blocks (ReadBlock cdc) m st' = ([], st'))))"
proof -
  obtain bs s1 where "take_blocks (ReadBlock cdc) n st = (bs, s1)" by fastforce
  then have "length (fst (take_blocks (ReadBlock cdc) n st)) \<le> stream_left st"
    using lz4_source.take_blocks_bounded [OF assms] by fastforce
  moreover have "if clean_end st then \<not> stream_dead st' \<and> (\<forall>m. fst (take_blocks (ReadBlock cdc) m st') = [])
      else stream_dead st' \<and> (\<forall>m. take_blocks (ReadBlock cdc) m st' = ([], st'))"
    if r: "ReadBlock cdc st = (None, st')" for st'
  proof -
    note S = ReadBlock_stops [OF r assms]
    have "fst (take_blocks (ReadBlock cdc) m st') = []" if "clean_end st'" for m
      using clean_end_none [of st' cdc] S that by (cases m) (auto split: prod.splits option.splits)
    then show ?thesis using S lz4_source.take_blocks_dead [of st' cdc] by (auto simp: clean_end_def)
  qed
  ultimately show ?thesis by blast
qed

text \<open>A file that ends inside a block.\<close>

definition cut_in :: bytes where
  "cut_in = put_hdr \<lparr>hdr_cont = 0, hdr_type = 1, hdr_size = 4\<rparr> @ ''re''"

theorem ReadBlock_ends_witness:
  "length (fst (take_blocks (ReadBlock counted) 7 (new_in sample_in))) \<le> 11 \<and>
   (\<forall>m. take_blocks (ReadBlock counted) m (snd (ReadBlock counted (new_in cut_in))) =
      ([], snd (ReadBlock counted (new_in cut_in))))"
proof -
  have o: "open_reader (new_in bs)" for bs using new_in_fed by (rule fed_open)
  have n: "fst (ReadBlock counted (new_in cut_in)) = None" by code_simp
  have "\<not> clean_end (new_in cut_in)"
    by (simp add: clean_end_def new_in_eq disk_def unread_def cut_in_def put_hdr_def)
  then have "\<forall>m. take_blocks (ReadBlock counted) m (snd (ReadBlock counted (new_in cut_in))) =
      ([], snd (ReadBlock counted (new_in cut_in)))"
    using ReadBlock_ends [OF o [of cut_in], of counted 0] n by (simp add: prod_eq_iff)
  with ReadBlock_ends [OF o [of sample_in], of counted 7] show ?thesis
    by (simp add: new_in_eq stream_left_def disk_def unread_def sample_in_def)
qed

text \<open>
  C34: The physical end check accepts exactly the streams that end at their tail mark:
  on a healthy decompressing stream whose tail mark has been read, \<^verbatim>\<open>VerifyPhysicalEof\<close>
  fails if and only if bytes follow.
\<close>

theorem VerifyPhysicalEof_exact:
  assumes "s_file st = Some f" "healthy f" "s_mode st = LZ4_Decompress" "s_tail st" "s_clean st"
  shows "isl (fst (VerifyPhysicalEof st)) \<longleftrightarrow> unread f \<noteq> []"
  by (rule VerifyPhysicalEof_iff [OF assms])

theorem VerifyPhysicalEof_exact_witness:
  "isl (fst (VerifyPhysicalEof ((new_in ''x'')\<lparr>s_tail := True\<rparr>)))"
  using VerifyPhysicalEof_exact [of "(new_in ''x'')\<lparr>s_tail := True\<rparr>" "disk ''x''"]
  by (simp add: new_in_eq Lz4Stream_new_def disk_def healthy_def unread_def)

section \<open>Writing that fails, and writing that cannot\<close>

text \<open>
  C26: After a short write nothing reports success any more. When the file is in error,
  \<^verbatim>\<open>Flush\<close>, \<^verbatim>\<open>Sync\<close>, \<^verbatim>\<open>Write\<close> and \<^verbatim>\<open>WriteRaw\<close> of data, \<^verbatim>\<open>WriteBlock\<close>, and \<^verbatim>\<open>PutFile\<close> of an
  acceptable file fail with \<^verbatim>\<open>EIO\<close> and leave the stream unchanged, and \<^verbatim>\<open>Close\<close> fails.
\<close>

theorem failed_stream_stays_failed:
  assumes "failed st" "s_enc st \<noteq> None" "s \<noteq> []" "length s \<le> INT_MAX" "0 \<le> t" "t < 6"
    and "ProcFile_Size pf \<le> MAX_PROC_FILE_SIZE"
  shows "Flush cdc st = (Inl EIO, st) \<and> Sync cdc st = (Inl EIO, st) \<and>
    Write cdc (Some s) st = (Inl EIO, st) \<and> WriteRaw cdc (Some s) st = (Inl EIO, st) \<and>
    WriteBlock cdc (Some s) t st = (Inl EIO, st) \<and> PutFile cdc (Some pf) st = (Inl EIO, st) \<and>
    fst (Close cdc st) = Inl EFAIL"
proof -
  obtain f e where fe: "s_file st = Some f" "fl_err f" "s_enc st = Some e"
    using assms(1,2) by (auto simp: failed_def)
  have fl: "Flush cdc st = (Inl EIO, st)" by (rule Flush_failed [OF assms(1,2)])
  moreover have "Sync cdc st = (Inl EIO, st)" using fe fl by (simp add: Sync_def)
  moreover have "Write cdc (Some s) st = (Inl EIO, st)" using fe assms(3,4) by (simp add: Write_def)
  moreover have "WriteRaw cdc (Some s) st = (Inl EIO, st)" using fe assms(3,4) by (simp add: WriteRaw_def)
  moreover have "WriteBlock cdc (Some s) t st = (Inl EIO, st)" using fe fl assms(4-6) by (simp add: WriteBlock_def)
  moreover have "PutFile cdc (Some pf) st = (Inl EIO, st)"
    using fe fl assms(7) by (simp add: PutFile_def ProcFile_Size_def Let_def)
  moreover have "fst (Close cdc st) = Inl EFAIL" using fe fl by (simp add: Close_def)
  ultimately show ?thesis by blast
qed

definition full_disk :: FILE where
  "full_disk = (disk [])\<lparr>fl_limit := 2\<rparr>"

definition broken_out :: "(nat, nat) stream" where
  "broken_out = snd (WriteBlock counted (Some ''regs'') 2 (new_out\<lparr>s_file := Some full_disk\<rparr>))"

theorem failed_stream_stays_failed_witness:
  "Flush counted broken_out = (Inl EIO, broken_out) \<and> fst (Close counted broken_out) = Inl EFAIL"
proof -
  have "map_option fl_err (s_file broken_out) = Some True" by code_simp
  moreover have "s_enc broken_out = Some 1" by code_simp
  ultimately have "failed broken_out" "s_enc broken_out \<noteq> None" by (auto simp: failed_def)
  from failed_stream_stays_failed [OF this, of "''x''" 0 sample_pf] show ?thesis
    by (simp add: ProcFile_Size_def sample_pf_def)
qed

text \<open>
  Writing does succeed. If compression of a non-empty block never fails, a
  \<^verbatim>\<open>WriteBlock\<close> of any string up to \<^verbatim>\<open>INT_MAX\<close> bytes returns its length whenever the file
  has 65816 bytes left per block, the current one included, and the space not
  accounted for is still free afterwards.
\<close>

theorem WriteBlock_succeeds:
  assumes "writer st" "codec_total cdc" "0 \<le> t" "t < 6" "length s \<le> INT_MAX"
    and "room st (BLOCK_COST * (1 + length (chunks s)) + k)"
  shows "\<exists>st'. WriteBlock cdc (Some s) t st = (Inr (length s), st') \<and> room st' k"
  by (rule WriteBlock_room [OF assms])

theorem WriteBlock_succeeds_witness:
  "\<exists>st'. WriteBlock counted (Some ''maps'') 3 new_out = (Inr (length ''maps''), st') \<and> room st' 9000000"
proof -
  have "room new_out (BLOCK_COST * (1 + length (chunks ''maps'')) + 9000000)"
    using room_mono [OF new_out_frame(7)] by (simp add: chunks_step)
  from WriteBlock_succeeds [OF new_out_frame(1) counted_total _ _ _ this, of 3] show ?thesis by simp
qed

text \<open>
  A \<^verbatim>\<open>/proc\<close> file that the reader would refuse is refused by the writer before
  anything happens: when the serialised size exceeds the 64 MiB cap of \<^verbatim>\<open>GetFile\<close>,
  \<^verbatim>\<open>PutFile\<close> fails with \<^verbatim>\<open>EFBIG\<close> or \<^verbatim>\<open>EOVERFLOW\<close> and neither the file nor the pending block
  has changed.
\<close>

theorem PutFile_oversize:
  assumes "s_file st \<noteq> None" "s_enc st \<noteq> None" "ProcFile_Size pf > MAX_PROC_FILE_SIZE"
  shows "PutFile cdc (Some pf) st = (Inl (if ProcFile_Size pf > INT_MAX then EOVERFLOW else EFBIG), st)"
proof -
  have "unat (f_size pf) < 4294967296" using unsigned_less [of "f_size pf", where ?'a = nat] by simp
  then show ?thesis using assms by (auto simp: PutFile_def ProcFile_Size_def Let_def)
qed

theorem PutFile_oversize_witness:
  "PutFile counted (Some (sample_pf\<lparr>f_size := 67108856\<rparr>)) new_out = (Inl EFBIG, new_out)"
  using PutFile_oversize [of new_out "sample_pf\<lparr>f_size := 67108856\<rparr>" counted]
  by (simp add: new_out_frame ProcFile_Size_def)

section \<open>Checksums\<close>

text \<open>
  C33: The block checksum detects every change confined to four consecutive bytes of the
  header and the data: two blocks whose header and data have the same length and differ
  only there have different checksums.
\<close>

theorem block_checksum_detects:
  assumes "put_hdr h @ raw = pre @ x @ post" "put_hdr h' @ raw' = pre @ y @ post"
    and "length x = length y" "length x \<le> 4" "x \<noteq> y"
  shows "block_checksum h raw \<noteq> block_checksum h' raw'"
proof -
  have u: "block_checksum g r = crc32_update 0xffffffff (put_hdr g @ r) XOR 0xffffffff" for g r
    by (simp add: block_checksum_def crc32_update_append)
  have "crc32_update 0xffffffff (put_hdr h @ raw) \<noteq> crc32_update 0xffffffff (put_hdr h' @ raw')"
    unfolding assms(1,2) by (rule crc32_burst [OF assms(3-5)])
  then show ?thesis unfolding u by (simp only: xor_right_cancel not_False_eq_True)
qed

theorem block_checksum_detects_witness:
  "block_checksum (block_hdr 0 2 5) ''regs'' \<noteq> block_checksum (block_hdr 0 2 5) ''rags''"
  by (rule block_checksum_detects [where pre = "put_hdr (block_hdr 0 2 5) @ ''r''" and x = "''e''" and y = "''a''"
        and post = "''gs''"]) simp_all

end
