(* ===== verification/AcoreProps.thy ===== *)
theory AcoreProps
  imports MetaRoom MetaSafety Lz4Props
begin

text \<open>
  The properties of the acore metadata, each with a run on a small process.
\<close>

section \<open>The file header\<close>

lemma ReadRaw_take:
  assumes "s_file st = Some f" "healthy f" "s_dec st \<noteq> None" "0 < n" "n \<le> INT_MAX"
  obtains f' where "ReadRaw n st = (Inr (take n (unread f)), st\<lparr>s_file := Some f'\<rparr>)" "healthy f'"
    "unread f' = drop n (unread f)"
proof -
  obtain got f' where r: "fread n f = (got, f')" by fastforce
  have "got = take n (unread f)" "healthy f'" "unread f' = drop n (unread f)"
    using fread_healthy [OF assms(2) r] by auto
  then show ?thesis using that [of f'] assms r by (auto simp: ReadRaw_def)
qed

abbreviation header_version :: "bytes \<Rightarrow> nat" where
  "header_version bs \<equiv> unat (fst (get_m (take 2 (drop 6 bs))))"

abbreviation header_arch :: "bytes \<Rightarrow> nat" where
  "header_arch bs \<equiv> unat (snd (get_m (take 2 (drop 6 bs))))"

definition header_ok :: "bytes \<Rightarrow> bool" where
  "header_ok bs \<longleftrightarrow>
     length bs \<ge> 8 \<and> take 6 bs = ACORE_MAGIC \<and> ACORE_MIN_VERSION \<le> header_version bs \<and>
     header_version bs \<le> ACORE_VERSION \<and> header_arch bs < ARCH_MAX"

lemma VerifyFileHeader_run:
  assumes "reader cdc st" "s_file st = Some f" "s_index st = 0" "s_enc st = None" "\<not> s_sums st"
  shows "\<exists>f'. healthy f' \<and> unread f' = drop 8 (unread f) \<and>
    (if header_ok (unread f) then
       VerifyFileHeader c st =
         (Inr (c\<lparr>c_arch := header_arch (unread f), c_version := header_version (unread f)\<rparr>),
          st\<lparr>s_file := Some f', s_sums := header_version (unread f) \<ge> 4\<rparr>)
     else isl (fst (VerifyFileHeader c st)))"
proof -
  have st: "healthy f" "s_dec st \<noteq> None" using assms by (auto simp: reader_def)
  obtain f1 where r1: "ReadRaw 6 st = (Inr (take 6 (unread f)), st\<lparr>s_file := Some f1\<rparr>)" "healthy f1"
    "unread f1 = drop 6 (unread f)"
    by (rule ReadRaw_take [OF assms(2) st, of 6]) auto
  let ?s1 = "st\<lparr>s_file := Some f1\<rparr>"
  have s1: "s_file ?s1 = Some f1" "s_dec ?s1 \<noteq> None" using st by simp_all
  obtain f2 where r2: "ReadRaw 2 ?s1 = (Inr (take 2 (unread f1)), ?s1\<lparr>s_file := Some f2\<rparr>)" "healthy f2"
    "unread f2 = drop 2 (unread f1)"
    by (rule ReadRaw_take [OF s1(1) r1(2) s1(2), of 2]) auto
  have en: "EnableBlockChecksums True (st\<lparr>s_file := Some f2\<rparr>) = (Inr 0, st\<lparr>s_file := Some f2, s_sums := True\<rparr>)"
    using assms st by (simp add: EnableBlockChecksums_def)
  have len: "length (take 6 (unread f)) = 6 \<and> length (take 2 (unread f1)) = 2 \<longleftrightarrow> length (unread f) \<ge> 8"
    using r1(3) by auto
  have mg: "length ACORE_MAGIC = 6" by (simp add: ACORE_MAGIC_def)
  let ?v = "unat (fst (get_m (take 2 (drop 6 (unread f)))))" and ?a = "unat (snd (get_m (take 2 (drop 6 (unread f)))))"
  show ?thesis
  proof (cases "take 6 (unread f) = ACORE_MAGIC \<and> length (unread f) \<ge> 8")
    case True
    then have l: "length (take 6 (unread f)) = 6" "length (take 2 (unread f1)) = 2" using len by auto
    have e: "VerifyFileHeader c st =
       (if ?v < ACORE_MIN_VERSION \<or> ?v > ACORE_VERSION then (Inl EFAIL, st\<lparr>s_file := Some f2\<rparr>)
        else if ?a \<ge> ARCH_MAX then (Inl EFAIL, st\<lparr>s_file := Some f2\<rparr>)
        else if ?v \<ge> 4 then (Inr (c\<lparr>c_arch := ?a, c_version := ?v\<rparr>), st\<lparr>s_file := Some f2, s_sums := True\<rparr>)
        else (Inr (c\<lparr>c_arch := ?a, c_version := ?v\<rparr>), st\<lparr>s_file := Some f2\<rparr>))"
      using True l r1 r2 en by (simp add: VerifyFileHeader_def Let_def)
    have u: "unread f2 = drop 8 (unread f)" using r1(3) r2(3) by simp
    have "\<not> s_sums (st\<lparr>s_file := Some f2\<rparr>)" using assms(5) by simp
    then have "st\<lparr>s_file := Some f2, s_sums := False\<rparr> = st\<lparr>s_file := Some f2\<rparr>" by (cases st) simp
    then have "if header_ok (unread f) then
        VerifyFileHeader c st = (Inr (c\<lparr>c_arch := ?a, c_version := ?v\<rparr>), st\<lparr>s_file := Some f2, s_sums := ?v \<ge> 4\<rparr>)
      else isl (fst (VerifyFileHeader c st))"
      using True unfolding e by (auto simp: header_ok_def)
    then show ?thesis using u r2(2) by blast
  next
    case False
    then have "fst (VerifyFileHeader c st) = Inl EFAIL"
      using r1 r2 mg len by (auto simp: VerifyFileHeader_def Let_def)
    then have "isl (fst (VerifyFileHeader c st))" by simp
    moreover have "\<not> header_ok (unread f)" using False by (auto simp: header_ok_def)
    moreover have "unread f2 = drop 8 (unread f)" using r1(3) r2(3) by simp
    ultimately show ?thesis using r2(2) by auto
  qed
qed

text \<open>
  \<^verbatim>\<open>VerifyFileHeader\<close> accepts a file exactly when it starts with the magic, a version
  from 1 to 6 and a known architecture; then the object holds that version and
  architecture, the eight bytes are consumed, and block checksums are on exactly from
  version 4.
\<close>

theorem VerifyFileHeader_exact:
  assumes "reader cdc st" "s_file st = Some f" "s_index st = 0" "s_enc st = None" "\<not> s_sums st"
  shows "case VerifyFileHeader c st of
      (Inl e, _) \<Rightarrow> \<not> header_ok (unread f)
    | (Inr c', st') \<Rightarrow> header_ok (unread f) \<and>
        c' = c\<lparr>c_arch := header_arch (unread f),
               c_version := header_version (unread f)\<rparr> \<and>
        (\<exists>f'. s_file st' = Some f' \<and> unread f' = drop 8 (unread f)) \<and> s_sums st' = (c_version c' \<ge> 4)"
proof -
  from VerifyFileHeader_run [OF assms, of c] obtain f' where "healthy f'" "unread f' = drop 8 (unread f)"
    "if header_ok (unread f) then
       VerifyFileHeader c st =
         (Inr (c\<lparr>c_arch := header_arch (unread f), c_version := header_version (unread f)\<rparr>),
          st\<lparr>s_file := Some f', s_sums := header_version (unread f) \<ge> 4\<rparr>)
     else isl (fst (VerifyFileHeader c st))" by blast
  then show ?thesis by (cases "VerifyFileHeader c st") (auto split: if_splits sum.splits)
qed

theorem VerifyFileHeader_exact_witness:
  "fst (VerifyFileHeader (Coredump_new 0 1) (new_in (ACORE_MAGIC @ [CHR 0x06, CHR 0x10]))) =
     Inr ((Coredump_new 0 1)\<lparr>c_arch := 1, c_version := 6\<rparr>)"
proof -
  let ?b = "ACORE_MAGIC @ [CHR 0x06, CHR 0x10]"
  have r: "reader counted (new_in ?b)" using new_in_fed [of ?b] by (simp add: fed_def)
  have h: "header_ok ?b" by code_simp
  have g: "unat (fst (get_m (take 2 (drop 6 ?b)))) = 6" "unat (snd (get_m (take 2 (drop 6 ?b)))) = 1" by code_simp+
  have st: "s_file (new_in ?b) = Some (disk ?b)" "s_index (new_in ?b) = 0" "s_enc (new_in ?b) = None" "\<not> s_sums (new_in ?b)"
    "unread (disk ?b) = ?b"
    by (simp_all add: new_in_eq Lz4Stream_new_def disk_def unread_def)
  show ?thesis
    using VerifyFileHeader_exact [OF r st(1-4), of "Coredump_new 0 1"] h g
    by (auto simp: st(5) split: prod.splits sum.splits)
qed

lemma WriteFileHeader_Inr:
  assumes "WriteFileHeader cdc platform st = (Inr u, st')" "idle st" "s_index st = 0" "\<not> s_sums st"
  shows "idle st'" "s_sums st'" "grows st st'" "new_bytes st st' = ACORE_MAGIC @ put_m 6 (of_nat platform)"
    "s_enc st' = s_enc st" "cur_ix st' = cur_ix st"
proof -
  let ?h = "ACORE_MAGIC @ put_m 6 (of_nat platform)"
  have w: "writer st" "pending st = []" using assms(2) by (simp_all add: idle_def)
  obtain f where f: "s_file st = Some f" "at_end f" using w by (auto simp: writer_def)
  have hd: "put_acore_header (AcoreHeader_new platform) = ?h" by (simp add: put_acore_header_def AcoreHeader_new_def)
  have l8: "length ?h = 8" by (simp add: ACORE_MAGIC_def)
  obtain n st1 where raw: "WriteRaw cdc (Some ?h) st = (Inr n, st1)" "n = 8"
    using assms(1) by (auto simp: WriteFileHeader_def hd split: prod.splits sum.splits if_splits)
  have "?h \<noteq> []" by (simp add: ACORE_MAGIC_def)
  then obtain f' where fw: "fwrite ?h f = (n, f')" "st1 = st\<lparr>s_file := Some f', s_fsize := s_fsize st + of_nat n\<rparr>"
    by (rule WriteRaw_sealed [OF w f(1) _ raw(1)])
  note F = fwrite_full [OF fw(1) [unfolded raw(2), folded l8] f(2)]
  have emp: "Block_isEmpty (CurrentBlock st1)" using w(2) by (simp add: fw(2) pending_def Block_isEmpty_def CurrentBlock_def)
  obtain st2 where st2: "EnableBlockChecksums True st1 = (Inr 0, st2)" "st2 = st1\<lparr>s_sums := True\<rparr>"
    using w assms(3,4) emp by (auto simp: EnableBlockChecksums_def fw(2) writer_def)
  have st': "st' = st2" using assms(1) raw st2(1) by (simp add: WriteFileHeader_def hd)
  show "idle st'" using assms(2) F(2) by (auto simp: st' st2(2) fw(2) idle_def writer_def pending_def CurrentBlock_def)
  show "new_bytes st st' = ?h" "grows st st'" using F(1) f(1) by (auto simp: new_bytes_def grows_def st' st2(2) fw(2))
  show "s_sums st'" "s_enc st' = s_enc st" "cur_ix st' = cur_ix st" by (simp_all add: st' st2(2) fw(2) cur_ix_def)
qed

lemma file_header_transfer:
  assumes "platform < ARCH_MAX" "idle st" "s_index st = 0" "\<not> s_sums st" "WriteFileHeader cdc platform st = (Inr u, st')"
    and "in_step cdc sync st rd (new_bytes st st' @ rest)" "s_index rd = 0" "s_enc rd = None"
  shows "idle st' \<and> s_sums st' \<and>
    (\<exists>rd'. VerifyFileHeader c rd = (Inr (c\<lparr>c_arch := platform, c_version := ACORE_VERSION\<rparr>), rd') \<and>
       in_step cdc sync st' rd' rest)"
proof -
  let ?h = "ACORE_MAGIC @ put_m 6 (of_nat platform)"
  note W = WriteFileHeader_Inr [OF assms(5,2,3,4)]
  have l8: "length ?h = 8" by (simp add: ACORE_MAGIC_def)
  from assms(6) obtain e where e: "s_enc st = Some e" "fed cdc sync (s_sums st) e (cur_ix st) rd (?h @ rest)"
    by (auto simp: in_step_def W(4))
  then obtain g d where rd: "reader cdc rd" "\<not> s_sums rd" "s_file rd = Some g" "unread g = ?h @ rest"
    "s_dec rd = Some d" "sync e (cur_ix st) d (s_off rd)" using assms(4) by (auto simp: fed_def)
  have "get_m (take 2 (drop 6 (?h @ rest))) = (6, of_nat platform)" using l8
    by (simp add: ACORE_MAGIC_def get_put_m)
  then have v: "header_version (?h @ rest) = 6" "header_arch (?h @ rest) = platform"
    using assms(1) by (simp_all add: unat_of_nat)
  have "header_ok (?h @ rest)" using assms(1) v by (simp add: header_ok_def) (simp add: ACORE_MAGIC_def)
  with VerifyFileHeader_run [OF rd(1,3) assms(7,8) rd(2), of c] rd(4) v l8 obtain g' where
    g': "healthy g'" "unread g' = rest"
      "VerifyFileHeader c rd = (Inr (c\<lparr>c_arch := platform, c_version := 6\<rparr>), rd\<lparr>s_file := Some g', s_sums := True\<rparr>)"
    by auto
  have "in_step cdc sync st' (rd\<lparr>s_file := Some g', s_sums := True\<rparr>) rest"
    using rd g' e(1) W(2,5,6) by (simp add: in_step_def fed_def reader_def ring_ok_def)
  then show ?thesis using W g'(3) by auto
qed

text \<open>
  \<^verbatim>\<open>VerifyFileHeader\<close> reads back what \<^verbatim>\<open>WriteFileHeader\<close> wrote, on either architecture:
  the current version, the writer's architecture, block checksums on at both ends, and
  reader and writer in step for the blocks that follow.
\<close>

theorem file_header_round_trip:
  assumes "platform < ARCH_MAX" "idle st" "s_index st = 0" "\<not> s_sums st" "WriteFileHeader cdc platform st = (Inr u, st')"
    and "in_step cdc sync st rd (new_bytes st st' @ rest)" "s_index rd = 0" "s_enc rd = None"
  shows "idle st' \<and> s_sums st' \<and>
    (\<exists>rd'. VerifyFileHeader c rd = (Inr (c\<lparr>c_arch := platform, c_version := ACORE_VERSION\<rparr>), rd') \<and>
       in_step cdc sync st' rd' rest)"
  by (rule file_header_transfer [OF assms])

lemma new_out_idle: "idle new_out" "room new_out 10000000"
  using new_out_frame by (simp_all add: idle_def)

lemma new_in_step: "in_step counted counted_sync new_out (new_in bs) bs"
  using new_in_fed new_out_frame by (auto simp: in_step_def)

theorem file_header_round_trip_witness:
  "fst (VerifyFileHeader (Coredump_new 0 9) (new_in (new_bytes new_out (snd (WriteFileHeader counted ARCH_AARCH64 new_out)) @ ''rest''))) =
     Inr ((Coredump_new 0 9)\<lparr>c_arch := ARCH_AARCH64, c_version := 6\<rparr>)"
proof -
  let ?st = "snd (WriteFileHeader counted ARCH_AARCH64 new_out)"
  have "fst (WriteFileHeader counted ARCH_AARCH64 new_out) = Inr ()" by code_simp
  then have w: "WriteFileHeader counted ARCH_AARCH64 new_out = (Inr (), ?st)" by (simp add: prod_eq_iff)
  have i: "s_index new_out = 0" "\<not> s_sums new_out" "s_index (new_in (new_bytes new_out ?st @ ''rest'')) = 0"
    "s_enc (new_in (new_bytes new_out ?st @ ''rest'')) = None"
    by (simp_all add: new_out_eq new_in_eq Lz4Stream_new_def)
  from file_header_round_trip [OF _ new_out_idle(1) i(1,2) w new_in_step i(3,4), of "Coredump_new 0 9"]
  show ?thesis by auto
qed

section \<open>Metadata\<close>

text \<open>
  C13: The metadata of a dump survives: whatever \<^verbatim>\<open>WriteProcessMeta\<close> and \<^verbatim>\<open>WriteThreadMeta\<close>
  stored, in any thread order, \<^verbatim>\<open>ReadMeta\<close> returns pid, crash signal, credentials, the
  seven \<^verbatim>\<open>/proc\<close> files and every thread (registers, FP state, signal information and
  masks, stat file) exactly as they were captured, and leaves the reader at what follows.
  Assumed: the structures the kernel fills in have their size, the reader can allocate,
  the threads number at most 131072 and take at most 512 MiB, and a crashed process
  lists the crashing thread first with the signal as its siginfo.
\<close>

theorem metadata_round_trip:
  assumes "codec_ok cdc sync" "allocates cdc" "idle st" "valid_core c" "sized_env env"
    and "WriteProcessMeta cdc env source c st = (Inr rs, c', st1)"
    and "WriteThreads cdc env te c' order st1 = (Inr u, st')"
    and "mset order = mset (pd_thrd_pid (c_process c))" "length order \<le> 131072"
    and "\<forall>tid \<in> set order. tid \<le> 2147483647 \<and> sized_thread (c_arch c) (te tid)"
    and "signals_fit env te c' 0 order" "sum_list (map (stored_cost env te c') order) \<le> THREAD_META_MAX"
    and "c_version c0 = ACORE_VERSION" "c_arch c0 = c_arch c" "pd_threads (c_process c0) = []"
    and "in_step cdc sync st rd (new_bytes st st' @ rest)"
  shows "\<exists>cr rd'. ReadMeta cdc c0 rd = (Inr cr, rd') \<and> in_step cdc sync st' rd' rest \<and>
    c_pid cr = c_pid c \<and> c_core_pid cr = c_core_pid c \<and> c_crash_sig cr = c_crash_sig c \<and>
    map Inr (pd_threads (c_process cr)) = map (\<lambda>tid. stored_thread env (te tid) c' tid) order \<and>
    stored_files env c source (c_process cr) \<and>
    read_credentials env (source_of source c) =
      Inr \<lparr>ps_uid = pd_uid (c_process cr), ps_gid = pd_gid (c_process cr)\<rparr>"
proof -
  from ReadMeta_transfer [OF assms(1-15)] obtain cr where
    t: "transfers cdc sync st st' (ReadMeta cdc c0) (Inr cr)" and
    r: "c_pid cr = c_pid c" "c_core_pid cr = c_core_pid c" "c_crash_sig cr = c_crash_sig c"
      "map Inr (pd_threads (c_process cr)) = map (\<lambda>tid. stored_thread env (te tid) c' tid) order"
      "stored_files env c source (c_process cr)"
      "read_credentials env (source_of source c) =
        Inr \<lparr>ps_uid = pd_uid (c_process cr), ps_gid = pd_gid (c_process cr)\<rparr>" by blast
  from t assms(16) obtain rd' where "ReadMeta cdc c0 rd = (Inr cr, rd')" "in_step cdc sync st' rd' rest"
    by (rule transfersD)
  with r show ?thesis by blast
qed

text \<open>A process with one thread, on an AArch64 host.\<close>

definition fd_of :: "string \<Rightarrow> proc_fd option" where
  "fd_of s = Some \<lparr>fd_rest = s, fd_events = []\<rparr>"

definition sample_proc :: "string \<Rightarrow> proc_fd option" where
  "sample_proc path =
     (if path = ''/proc/7/status'' then
        fd_of (''Uid:'' @ concat (replicate 4 (TAB # ''0'')) @ [NL] @ ''Gid:'' @ concat (replicate 4 (TAB # ''5'')) @ [NL] @
               ''SigPnd: 0'' @ [NL] @ ''SigBlk: 4'' @ [NL])
      else if path = ''/proc/7/cmdline'' then fd_of (''sh'' @ [NUL])
      else if path = ''/proc/7/auxv'' then fd_of (put64 AT_PAGESZ @ put64 4096 @ put64 AT_NULL @ put64 0)
      else if path = ''/proc/7/maps'' then fd_of (''1000-2000 r-xp 00000000 00:00 0'' @ [NL])
      else if path = ''/proc/7/environ'' then fd_of (''A=1'' @ [NUL])
      else if path = ''/proc/7/io'' then fd_of (''rchar: 0'' @ [NL])
      else if path = ''/proc/7/limits'' then fd_of (''Limit'' @ [NL])
      else if path = ''/proc/7/stat'' then
        fd_of (''7 (sh) S 1 7 7 0 0 0 0 0 0 0 1 2 0 0 20 0 1 0 5 8192 3 9 1 1 1 1 1 0 0 0'')
      else None)"

definition sample_env :: capture_env where
  "sample_env = \<lparr>ce_open = sample_proc, ce_time = Some (replicate 16 NUL, replicate 8 NUL),
     ce_uname = Some (replicate 512 NUL), ce_host_page = 4096\<rparr>"

definition sample_te :: "int \<Rightarrow> thread_env" where
  "sample_te tid = \<lparr>te_regs = Some (replicate 272 NUL), te_fpregs = None, te_siginfo = None, te_xstate = None\<rparr>"

definition sample_core :: core where
  "sample_core = (Coredump_new ARCH_AARCH64 7)\<lparr>c_process := ProcessData_new\<lparr>pd_thrd_pid := [7]\<rparr>\<rparr>"

lemma sample_facts:
  "codec_total counted" "allocates counted" "valid_core sample_core" "sized_env sample_env"
  "tids_ok (pd_thrd_pid (c_process sample_core))" "sized_thread (c_arch sample_core) (sample_te 7)"
  "c_arch sample_core < ARCH_MAX"
  using counted_total
  by (simp_all add: allocates_def counted_def valid_core_def sample_core_def Coredump_new_def sized_env_def
      sample_env_def tids_ok_def sized_thread_def sample_te_def regs_size_def)

lemma sample_readable: "proc_readable sample_env sample_core 0"
proof -
  have s: "source_of 0 sample_core = 7" "c_pid sample_core = 7" by (simp_all add: source_of_def sample_core_def Coredump_new_def)
  have "isl (read_credentials sample_env 7) = False" "isl (read_maps sample_env 7 7) = False"
    "isl (read_checked sample_env 7 7 PROC_TYPE_CMDLINE) = False" "isl (read_checked sample_env 7 7 PROC_TYPE_AUXV) = False"
    "isl (read_checked sample_env 7 7 PROC_TYPE_ENVIRON) = False" "isl (read_checked sample_env 7 7 PROC_TYPE_IO) = False"
    "isl (read_checked sample_env 7 7 PROC_TYPE_LIMITS) = False" "isl (read_checked sample_env 7 7 PROC_TYPE_STAT) = False"
    by code_simp+
  then show ?thesis unfolding proc_readable_def s by (simp add: sample_env_def)
qed

text \<open>The one thread of the process, with or without a \<^verbatim>\<open>siginfo\<close>.\<close>

lemma sample_thread_any:
  assumes "c_arch c = ARCH_AARCH64" "te = (sample_te 7)\<lparr>te_siginfo := x\<rparr>" "c_crash_sig c = 0 \<or> x \<noteq> None"
    and "\<forall>bs. x = Some bs \<longrightarrow> length bs = SIGINFO_SIZE"
  shows "\<exists>t. stored_thread sample_env te c 7 = Inr t \<and> td_siginfo t = zeroed SIGINFO_SIZE x \<and> thread_cost (c_arch c) t \<le> 2000"
proof -
  have "case ReadPid sample_proc 1048576 7 PROC_TYPE_STATUS of Inl _ \<Rightarrow> False
    | Inr (pf, tr) \<Rightarrow> \<not> tr \<and> parse_status_mask (f_data pf) ''SigPnd:'' = Some 0 \<and> parse_status_mask (f_data pf) ''SigBlk:'' = Some 4"
    by code_simp
  then obtain spf where spf: "ReadPid sample_proc 1048576 7 PROC_TYPE_STATUS = Inr (spf, False)"
    "parse_status_mask (f_data spf) ''SigPnd:'' = Some 0" "parse_status_mask (f_data spf) ''SigBlk:'' = Some 4"
    by (auto split: sum.splits prod.splits)
  have "case read_thread_stat sample_env 7 of Inl _ \<Rightarrow> False | Inr pf \<Rightarrow> ProcFile_Size pf \<le> 200" by code_simp
  then obtain pf where pf: "read_thread_stat sample_env 7 = Inr pf" "ProcFile_Size pf \<le> 200" by (auto split: sum.splits)
  obtain t where t: "capture_thread sample_env te c 7 = Inr t" "td_siginfo t = zeroed SIGINFO_SIZE x"
    using spf assms(1-3) by (auto simp: capture_thread_def sample_te_def sample_env_def)
  have sz: "sized_thread (c_arch c) te" "c_arch c < ARCH_MAX"
    using assms sample_facts by (simp_all add: sample_core_def Coredump_new_def sized_thread_def)
  have items: "thread_items (c_arch c) (t\<lparr>td_stat := Some pf\<rparr>) = thread_items (c_arch c) t" by (simp add: thread_items_def)
  have "map length (thread_items (c_arch c) t) = thread_fields (c_arch c) 6"
    using thread_items_sizes(1) [OF t(1) sz, of "c\<lparr>c_version := 6\<rparr>"] by simp
  then have "length (concat (thread_items (c_arch c) t)) = sum_list (thread_fields (c_arch c) 6)"
    by (simp only: length_concat)
  also have "\<dots> = 949" using assms(1) by (simp add: thread_fields_def regs_size_def fpregs_size_def)
  finally have "thread_cost (c_arch c) (t\<lparr>td_stat := Some pf\<rparr>) \<le> 2000"
    using pf(2) by (simp add: thread_cost_def items)
  then show ?thesis using t pf(1) by (simp add: stored_thread_def)
qed

lemma sample_thread_stored:
  assumes "c_arch c = ARCH_AARCH64" "c_crash_sig c = 0"
  shows "\<exists>t. stored_thread sample_env (sample_te 7) c 7 = Inr t \<and> signal_fits c 0 t \<and> thread_cost (c_arch c) t \<le> 2000"
proof -
  have "sample_te 7 = (sample_te 7)\<lparr>te_siginfo := None\<rparr>" by (simp add: sample_te_def)
  from sample_thread_any [OF assms(1) this] assms(2) obtain t where t: "stored_thread sample_env (sample_te 7) c 7 = Inr t"
    "td_siginfo t = replicate 128 NUL" "thread_cost (c_arch c) t \<le> 2000" by (auto simp: zeroed_def)
  have "le_val (take 4 (replicate 128 NUL)) = 0" by (simp add: numeral_eq_Suc)
  then have "si_signo t = 0" by (simp add: si_signo_def field_at_def t(2) get32_def)
  with t(1,3) assms(2) show ?thesis by (simp add: signal_fits_def)
qed

text \<open>
  C14: Capturing the metadata fails for want of disk space only: with readable, well-formed
  \<^verbatim>\<open>/proc\<close> files, a valid thread list and room for one block and seven files of at most
  1 MiB, \<^verbatim>\<open>WriteProcessMeta\<close> succeeds, keeps pid, architecture and crash data, and leaves
  nothing pending; so does writing the threads whose registers, masks and stat file
  could be read.
\<close>

theorem metadata_capture_succeeds:
  assumes "idle st" "codec_total cdc" "room st (PROCESS_COST + THREAD_COST * length order + k)" "sized_env env"
    and "proc_readable env c source" "tids_ok (pd_thrd_pid (c_process c))" "c_arch c < ARCH_MAX"
    and "\<And>tid c'. tid \<in> set order \<Longrightarrow> c_arch c' = c_arch c \<Longrightarrow> c_crash_sig c' = c_crash_sig c \<Longrightarrow>
      c_crash_tid c' = c_crash_tid c \<Longrightarrow>
      sized_thread (c_arch c) (te tid) \<and> \<not> isl (stored_thread env (te tid) c' tid)"
  shows "\<exists>rs c' st1 st'. WriteProcessMeta cdc env source c st = (Inr rs, c', st1) \<and>
    WriteThreads cdc env te c' order st1 = (Inr (), st') \<and> idle st' \<and> room st' k \<and>
    c_pid c' = c_pid c \<and> c_arch c' = c_arch c \<and> c_crash_sig c' = c_crash_sig c"
proof -
  have "room st (PROCESS_COST + (THREAD_COST * length order + k))" using assms(3) by (simp add: add.assoc)
  from WriteProcessMeta_room [OF assms(1,2) this assms(4-6)] obtain rs c' st1 where
    1: "WriteProcessMeta cdc env source c st = (Inr rs, c', st1)" "idle st1" "room st1 (THREAD_COST * length order + k)"
      "c_pid c' = c_pid c" "c_arch c' = c_arch c" "c_crash_sig c' = c_crash_sig c" "c_crash_tid c' = c_crash_tid c" by blast
  have "c_arch c' < ARCH_MAX" using 1(5) assms(7) by simp
  from WriteThreads_room [OF assms(2) this 1(2), of order te env k] assms(8) [of _ c'] 1 show ?thesis by auto
qed

lemma sample_capture:
  "\<exists>rs c' st1 st'. WriteProcessMeta counted sample_env 0 sample_core new_out = (Inr rs, c', st1) \<and>
    WriteThreads counted sample_env sample_te c' [7] st1 = (Inr (), st') \<and> c_arch c' = ARCH_AARCH64 \<and> c_crash_sig c' = 0"
proof -
  have "room new_out (PROCESS_COST + k)" if "k \<le> 1300000" for k using new_out_idle(2) that room_mono by fastforce
  from WriteProcessMeta_room [OF new_out_idle(1) sample_facts(1) this sample_facts(4) sample_readable sample_facts(5), of 1300000]
  obtain rs c' st1 where
    1: "WriteProcessMeta counted sample_env 0 sample_core new_out = (Inr rs, c', st1)" "idle st1" "room st1 1300000"
      "c_arch c' = ARCH_AARCH64" "c_crash_sig c' = 0" by (auto simp: sample_core_def Coredump_new_def)
  from sample_thread_stored [OF 1(4,5)] have s: "\<not> isl (stored_thread sample_env (sample_te 7) c' 7)" by auto
  have sz: "sized_thread (c_arch c') (sample_te 7)" "c_arch c' < ARCH_MAX"
    using 1(4) sample_facts by (simp_all add: sample_core_def Coredump_new_def)
  have "room st1 (THREAD_COST * length [7 :: int] + 0)" using room_mono [OF 1(3)] by simp
  from WriteThreads_room [OF sample_facts(1) sz(2) 1(2) _ this, of sample_te sample_env] s sz 1 show ?thesis by auto
qed

theorem metadata_capture_succeeds_witness:
  "\<exists>rs c' st1. WriteProcessMeta counted sample_env 0 sample_core new_out = (Inr rs, c', st1)"
proof -
  have rm: "room new_out (PROCESS_COST + THREAD_COST * length [7 :: int] + 0)"
    using room_mono [OF new_out_idle(2)] by simp
  have th: "sized_thread (c_arch sample_core) (sample_te tid) \<and> \<not> isl (stored_thread sample_env (sample_te tid) c' tid)"
    if "tid \<in> set [7]" "c_arch c' = c_arch sample_core" "c_crash_sig c' = c_crash_sig sample_core" for tid c'
  proof -
    have "c_arch c' = ARCH_AARCH64" "c_crash_sig c' = 0" using that by (simp_all add: sample_core_def Coredump_new_def)
    from sample_thread_stored [OF this] that(1) sample_facts(6) show ?thesis by auto
  qed
  from metadata_capture_succeeds [OF new_out_idle(1) sample_facts(1) rm sample_facts(4) sample_readable sample_facts(5,7) th]
  show ?thesis by blast
qed

lemma sample_written:
  assumes "WriteProcessMeta counted sample_env 0 sample_core new_out = (Inr rs, c', st1)"
    and "c_arch c' = ARCH_AARCH64" "c_crash_sig c' = 0"
  shows "mset [7] = mset (pd_thrd_pid (c_process sample_core))" "length [7 :: int] \<le> 131072"
    "\<forall>tid \<in> set [7]. tid \<le> 2147483647 \<and> sized_thread (c_arch sample_core) (sample_te tid)"
    "signals_fit sample_env sample_te c' 0 [7]" "sum_list (map (stored_cost sample_env sample_te c') [7]) \<le> THREAD_META_MAX"
    "c_version (Coredump_new ARCH_AARCH64 0) = ACORE_VERSION" "c_arch (Coredump_new ARCH_AARCH64 0) = c_arch sample_core"
    "pd_threads (c_process (Coredump_new ARCH_AARCH64 0)) = []" "c_pid sample_core = 7"
proof -
  obtain t where t: "stored_thread sample_env (sample_te 7) c' 7 = Inr t" "signal_fits c' 0 t" "thread_cost (c_arch c') t \<le> 2000"
    using sample_thread_stored [OF assms(2,3)] by blast
  then show "mset [7] = mset (pd_thrd_pid (c_process sample_core))" "length [7 :: int] \<le> 131072"
    "\<forall>tid \<in> set [7]. tid \<le> 2147483647 \<and> sized_thread (c_arch sample_core) (sample_te tid)"
    "signals_fit sample_env sample_te c' 0 [7]" "sum_list (map (stored_cost sample_env sample_te c') [7]) \<le> THREAD_META_MAX"
    "c_version (Coredump_new ARCH_AARCH64 0) = ACORE_VERSION" "c_arch (Coredump_new ARCH_AARCH64 0) = c_arch sample_core"
    "pd_threads (c_process (Coredump_new ARCH_AARCH64 0)) = []" "c_pid sample_core = 7"
    using sample_facts(6)
    by (simp_all add: sample_core_def Coredump_new_def ProcessData_new_def signals_fit_def stored_cost_def)
qed

theorem metadata_round_trip_witness:
  "\<exists>rs c' st1 st' cr rd'. WriteProcessMeta counted sample_env 0 sample_core new_out = (Inr rs, c', st1) \<and>
     WriteThreads counted sample_env sample_te c' [7] st1 = (Inr (), st') \<and>
     ReadMeta counted (Coredump_new ARCH_AARCH64 0) (new_in (new_bytes new_out st' @ ''loads'')) = (Inr cr, rd') \<and>
     c_pid cr = 7 \<and> length (pd_threads (c_process cr)) = 1 \<and> pd_uid (c_process cr) = 0 \<and> pd_gid (c_process cr) = 5"
proof -
  obtain rs c' st1 st' where c: "WriteProcessMeta counted sample_env 0 sample_core new_out = (Inr rs, c', st1)"
    "WriteThreads counted sample_env sample_te c' [7] st1 = (Inr (), st')" "c_arch c' = ARCH_AARCH64" "c_crash_sig c' = 0"
    using sample_capture by blast
  note h = sample_written [OF c(1,3,4)]
  have id: "read_credentials sample_env (source_of 0 sample_core) = Inr \<lparr>ps_uid = 0, ps_gid = 5\<rparr>"
    by code_simp
  from metadata_round_trip [OF counted_ok sample_facts(2) new_out_idle(1) sample_facts(3,4) c(1,2) h(1-8) new_in_step]
  obtain cr rd' where r: "ReadMeta counted (Coredump_new ARCH_AARCH64 0) (new_in (new_bytes new_out st' @ ''loads'')) = (Inr cr, rd')"
    "c_pid cr = c_pid sample_core" "map Inr (pd_threads (c_process cr)) = map (\<lambda>tid. stored_thread sample_env (sample_te tid) c' tid) [7]"
    "read_credentials sample_env (source_of 0 sample_core) =
      Inr \<lparr>ps_uid = pd_uid (c_process cr), ps_gid = pd_gid (c_process cr)\<rparr>" by blast
  have "length (pd_threads (c_process cr)) = 1" using arg_cong [OF r(3), of length] by simp
  with c(1,2) r h(9) id show ?thesis by auto
qed

text \<open>
  C20: Nothing but sound metadata is accepted. Whatever bytes an acore file holds, when
  \<^verbatim>\<open>ReadMeta\<close> succeeds the pid is positive, the crash signal is none or one that dumps
  core, every required \<^verbatim>\<open>/proc\<close> file is there, typed and owned by the process; there are
  1 to 131072 threads with distinct, non-zero ids, register sets of the architecture's
  size, a valid signal number and their own stat file; the stat files take at most
  512 MiB together; a crashed process starts with the crashing thread; and before
  version 6 the leader is among the threads.
\<close>

theorem ReadMeta_accepts:
  assumes "ReadMeta cdc c st = (Inr c', st')" "ring_ok cdc st" "codec_bounds cdc" "pd_threads (c_process c) = []"
  shows "process_sound c' \<and> (\<exists>meta. threads_sound c' meta (pd_threads (c_process c'))) \<and>
    pd_threads (c_process c') \<noteq> [] \<and> length (pd_threads (c_process c')) \<le> 131072 \<and>
    (c_version c < 6 \<longrightarrow> word_of_int (c_pid c') \<in> td_pid ` set (pd_threads (c_process c')))"
  using ReadMeta_sound [OF assms] by blast

theorem ReadMeta_accepts_witness:
  "\<exists>st' cr. fst (ReadMeta counted (Coredump_new ARCH_AARCH64 0) (new_in (new_bytes new_out st' @ ''loads''))) = Inr cr \<and>
     process_sound cr \<and> pd_threads (c_process cr) \<noteq> []"
proof -
  obtain rs c' st1 st' where c: "WriteProcessMeta counted sample_env 0 sample_core new_out = (Inr rs, c', st1)"
    "WriteThreads counted sample_env sample_te c' [7] st1 = (Inr (), st')" "c_arch c' = ARCH_AARCH64" "c_crash_sig c' = 0"
    using sample_capture by blast
  note h = sample_written [OF c(1,3,4)]
  obtain cr where t: "transfers counted counted_sync new_out st' (ReadMeta counted (Coredump_new ARCH_AARCH64 0)) (Inr cr)"
    using ReadMeta_transfer [OF counted_ok sample_facts(2) new_out_idle(1) sample_facts(3,4) c(1,2) h(1-8)] by blast
  let ?rd = "new_in (new_bytes new_out st' @ ''loads'')"
  obtain rd' where r: "ReadMeta counted (Coredump_new ARCH_AARCH64 0) ?rd = (Inr cr, rd')"
    by (rule transfersD [OF t new_in_step])
  have "ring_ok counted ?rd" using new_in_fed by (auto simp: fed_def reader_def)
  moreover have "codec_bounds counted" using counted_ok by (simp add: codec_ok_def)
  ultimately have "process_sound cr \<and> pd_threads (c_process cr) \<noteq> []"
    using ReadMeta_accepts [OF r _ _ h(8)] by blast
  moreover have "fst (ReadMeta counted (Coredump_new ARCH_AARCH64 0) ?rd) = Inr cr" by (simp only: r fst_conv)
  ultimately show ?thesis by blast
qed

end
