(* ===== verification/EndToEnd.thy ===== *)
theory EndToEnd
  imports NotesFit CoreFile AcoreProps
begin

text \<open>
  A dump and its conversion back to back: the part of \<^verbatim>\<open>Coredump::generate\<close> of
  \<^verbatim>\<open>src/core.cc\<close> that writes an acore (\<^verbatim>\<open>write_acore\<close>), and what \<^verbatim>\<open>decompress\<close> makes of it.
\<close>

section \<open>Parsing what was captured\<close>

lemma parse_same_text:
  assumes "f_size p = f_size q" "f_data p = f_data q"
  shows "pf_text p = pf_text q" "ProcCmdline_Parse (Some p) = ProcCmdline_Parse (Some q)"
    "ProcAuxv_Parse (Some p) = ProcAuxv_Parse (Some q)" "ProcStat_Parse h (Some p) = ProcStat_Parse h (Some q)"
  using assms by (simp_all add: pf_text_def ProcCmdline_Parse_def ProcAuxv_Parse_def ProcStat_Parse_def)

lemma read_checked_parses:
  assumes "read_checked env pid source t = Inr f"
  shows "t = PROC_TYPE_CMDLINE \<Longrightarrow> \<exists>argv. ProcCmdline_Parse (Some f) = Inr argv"
    "t = PROC_TYPE_AUXV \<Longrightarrow> \<exists>a. ProcAuxv_Parse (Some f) = Inr a \<and> av_page_size a \<noteq> 0 \<and> av_page_size a AND (av_page_size a - 1) = 0"
    "t = PROC_TYPE_STAT \<Longrightarrow> \<exists>s. ProcStat_Parse (ce_host_page env) (Some f) = Inr s \<and> st_pid s = pid"
    "f_pid f = word_of_int pid" "length (f_data f) \<le> 1048576"
proof -
  obtain qf where q: "ReadPid (ce_open env) (int BUFFER_SIZE) (if t = PROC_TYPE_STAT then pid else source) t = Inr (qf, False)"
    "f = qf\<lparr>f_pid := word_of_int pid\<rparr>"
    using assms by (auto simp: read_checked_def split: sum.splits prod.splits if_splits)
  note same = parse_same_text [of f qf]
  show "t = PROC_TYPE_CMDLINE \<Longrightarrow> \<exists>argv. ProcCmdline_Parse (Some f) = Inr argv"
    using assms q same by (cases "ProcCmdline_Parse (Some qf)") (auto simp: read_checked_def split: sum.splits prod.splits if_splits)
  show "t = PROC_TYPE_AUXV \<Longrightarrow> \<exists>a. ProcAuxv_Parse (Some f) = Inr a \<and> av_page_size a \<noteq> 0 \<and> av_page_size a AND (av_page_size a - 1) = 0"
    using assms q same by (auto simp: read_checked_def split: sum.splits prod.splits if_splits)
  show "t = PROC_TYPE_STAT \<Longrightarrow> \<exists>s. ProcStat_Parse (ce_host_page env) (Some f) = Inr s \<and> st_pid s = pid"
    using assms q same by (auto simp: read_checked_def split: sum.splits prod.splits if_splits)
  show "f_pid f = word_of_int pid" by (simp add: q(2))
  show "length (f_data f) \<le> 1048576" using ReadPid_wf(2) [OF q(1)] q(2) by simp
qed

lemma read_maps_parsed: "read_maps env pid source = Inr (f, rs) \<Longrightarrow> length (f_data f) \<le> 1048576"
  using ReadPid_wf(2) by (fastforce simp: read_maps_def split: sum.splits prod.splits if_splits)

lemma parse_stored_threads:
  "map Inr ts = map (\<lambda>tid. stored_thread env (te tid) c tid) order \<Longrightarrow>
   \<forall>tid \<in> set order. tid \<le> 2147483647 \<and> sized_thread (c_arch c) (te tid) \<Longrightarrow> c_arch c < ARCH_MAX \<Longrightarrow>
   \<exists>ts'. parse_thread_stats (ce_host_page env) ts = Inr ts' \<and> map (\<lambda>t. t\<lparr>td_d_stat := None\<rparr>) ts' = ts \<and>
     (\<forall>t \<in> set ts'. thread_ready t)"
proof (induction order arbitrary: ts)
  case Nil
  then show ?case by simp
next
  case (Cons tid order)
  then obtain t us where ts: "ts = t # us" "stored_thread env (te tid) c tid = Inr t"
    "map Inr us = map (\<lambda>tid. stored_thread env (te tid) c tid) order"
    by (cases ts) auto
  obtain t0 pf where t: "capture_thread env (te tid) c tid = Inr t0" "read_thread_stat env tid = Inr pf" "t = t0\<lparr>td_stat := Some pf\<rparr>"
    using ts(2) by (auto simp: stored_thread_def ebind_eq_Inr)
  note C = capture_thread_ok [OF t(1)]
  obtain qf where "ReadPid (ce_open env) (int BUFFER_SIZE) tid PROC_TYPE_STAT = Inr (qf, False)"
    using t(2) by (auto simp: read_thread_stat_def split: sum.splits prod.splits if_splits)
  from ReadPid_wf(5) [OF this] have "0 < tid" by simp
  then have tid: "0 < tid" "tid \<le> 2147483647" "sized_thread (c_arch c) (te tid)" using Cons.prems(2) by auto
  have p: "sint (td_pid t) = tid" using C(1) Cons.prems(3) tid sint_of_int32 [of tid] by (simp add: t(3))
  obtain s where s: "ProcStat_Parse (ce_host_page env) (Some pf) = Inr s" "st_pid s = tid"
    using t(2) by (auto simp: read_thread_stat_def split: sum.splits prod.splits if_splits)
  from Cons.IH [OF ts(3)] Cons.prems(2,3) obtain us' where
    us: "parse_thread_stats (ce_host_page env) us = Inr us'" "map (\<lambda>t. t\<lparr>td_d_stat := None\<rparr>) us' = us" "\<forall>t \<in> set us'. thread_ready t"
    by auto
  have "thread_ready (t\<lparr>td_d_stat := Some s\<rparr>)"
    using C tid(3) Cons.prems(3) arch_cases [OF Cons.prems(3)]
    by (cases "c_arch c = ARCH_X64") (auto simp: thread_ready_def t(3) regs_size_def fpregs_size_def)
  moreover have "td_d_stat t = None" using C tid(3) Cons.prems(3) by (simp add: t(3))
  ultimately show ?case
    using us p s by (simp add: ts(1) ebind_def t(3))
qed

definition source_maps :: "capture_env \<Rightarrow> core \<Rightarrow> int \<Rightarrow> err + MemRegion list" where
  "source_maps env c source = map_sum id snd (read_maps env (c_pid c) (source_of source c))"

lemma ParseAll_stored:
  assumes files: "stored_files env c source pd" and v: "valid_core c" and cred: "pd_credentials_valid pd"
    and thr: "map Inr (pd_threads pd) = map (\<lambda>tid. stored_thread env (te tid) c' tid) order"
      "\<forall>tid \<in> set order. tid \<le> 2147483647 \<and> sized_thread (c_arch c') (te tid)" "c_arch c' < ARCH_MAX"
  obtains maps argv a s ts f_av where
    "ParseAll (ce_host_page env) pd =
       Inr (pd\<lparr>pd_d_maps := Some maps, pd_d_cmdline := Some argv, pd_d_auxv := Some a, pd_d_stat := Some s, pd_threads := ts\<rparr>)"
    "source_maps env c source = Inr maps" "av_page_size a \<noteq> 0" "av_page_size a AND (av_page_size a - 1) = 0"
    "map (\<lambda>t. t\<lparr>td_d_stat := None\<rparr>) ts = pd_threads pd" "\<forall>t \<in> set ts. thread_ready t"
    "pd_auxv pd = Some f_av" "f_size f_av \<noteq> 0" "length (pf_text f_av) \<le> 1048576"
    "length maps \<le> 1048576" "sum_list (map (\<lambda>r. length (r_name r)) maps) \<le> 1048576"
    "ProcAuxv_Parse (Some f_av) = Inr a" "ProcStat_Parse (ce_host_page env) (pd_stat pd) = Inr s"
    "read_checked env (c_pid c) (source_of source c) PROC_TYPE_AUXV = Inr f_av"
proof -
  let ?rc = "read_checked env (c_pid c) (source_of source c)"
  obtain f0 f1 f2 f6 where f: "pd_cmdline pd = Some f0" "?rc PROC_TYPE_CMDLINE = Inr f0" "pd_auxv pd = Some f1"
    "?rc PROC_TYPE_AUXV = Inr f1" "pd_maps pd = Some f2" "map_sum id fst (read_maps env (c_pid c) (source_of source c)) = Inr f2"
    "pd_stat pd = Some f6" "?rc PROC_TYPE_STAT = Inr f6"
    using files by (auto simp: stored_files_def Let_def)
  obtain maps where m: "read_maps env (c_pid c) (source_of source c) = Inr (f2, maps)"
    using f(6) by (cases "read_maps env (c_pid c) (source_of source c)") (auto split: prod.splits)
  note M = read_maps_ok [OF m]
  obtain argv where a: "ProcCmdline_Parse (Some f0) = Inr argv" using read_checked_parses(1) [OF f(2)] by auto
  obtain av where av: "ProcAuxv_Parse (Some f1) = Inr av" "av_page_size av \<noteq> 0" "av_page_size av AND (av_page_size av - 1) = 0"
    using read_checked_parses(2) [OF f(4)] by auto
  obtain s where s: "ProcStat_Parse (ce_host_page env) (Some f6) = Inr s" "st_pid s = c_pid c"
    using read_checked_parses(3) [OF f(8)] by auto
  have pid: "sint (f_pid f6) = c_pid c"
    using read_checked_parses(4) [OF f(8)] v sint_of_int32 [of "c_pid c"] by (auto simp: valid_core_def)
  obtain ts where ts: "parse_thread_stats (ce_host_page env) (pd_threads pd) = Inr ts"
    "map (\<lambda>t. t\<lparr>td_d_stat := None\<rparr>) ts = pd_threads pd" "\<forall>t \<in> set ts. thread_ready t"
    using parse_stored_threads [OF thr] by blast
  have "ParseAll (ce_host_page env) pd =
       Inr (pd\<lparr>pd_d_maps := Some maps, pd_d_cmdline := Some argv, pd_d_auxv := Some av, pd_d_stat := Some s, pd_threads := ts\<rparr>)"
    using f M(3,4) a av s pid ts(1) cred by (simp add: ParseAll_def parse_process_stat_def ebind_def Let_def)
  moreover have "source_maps env c source = Inr maps" by (simp add: source_maps_def m)
  moreover have "f_size f1 \<noteq> 0" using av(1) by (auto simp: ProcAuxv_Parse_def split: if_splits)
  moreover have "length (pf_text f1) \<le> 1048576" using read_checked_parses(5) [OF f(4)] by (simp add: pf_text_def)
  moreover have "length maps \<le> 1048576" using maps_parse_ordered [OF M(3)] by simp
  moreover have "sum_list (map (\<lambda>r. length (r_name r)) maps) \<le> 1048576"
    using maps_names_length [OF M(3,1)] read_maps_parsed [OF m] by simp
  moreover have "ProcStat_Parse (ce_host_page env) (pd_stat pd) = Inr s" using s(1) f(7) by simp
  ultimately show ?thesis using that av ts(2,3) f(3,4) by blast
qed

text \<open>With page-aligned file mappings, at most 131072 threads and enough memory, the notes can be built.\<close>

lemma notes_of_stored:
  assumes mem: "\<forall>n. mem n" and pd: "pd_d_maps pd = Some maps" "pd_d_auxv pd = Some a" "pd_d_stat pd = Some s"
      "pd_credentials_valid pd" "pd_auxv pd = Some f" "f_size f \<noteq> 0" "length (pf_text f) \<le> 1048576"
    and page: "av_page_size a \<noteq> 0" "av_page_size a AND (av_page_size a - 1) = 0" "\<forall>r \<in> set maps. r_offset r mod av_page_size a = 0"
    and len: "length maps \<le> 1048576" "sum_list (map (\<lambda>r. length (r_name r)) maps) \<le> 1048576"
    and thr: "\<forall>t \<in> set (pd_threads pd). thread_ready t" "length (pd_threads pd) \<le> 131072"
  shows "\<exists>n nts. GenerateNotes mem clk arch pid sig pd = Inr (n, nts)"
proof -
  obtain files where fl: "file_payload (av_page_size a) (file_entries maps) = Inr files"
    "length files \<le> 16 + 25 * length maps + sum_list (map (\<lambda>r. length (r_name r)) maps)"
    by (rule file_payload_total [OF page])
  have f28: "length files \<le> 27262992" using fl(2) len by simp
  have "spec_size (core_spec mem clk arch pid sig pd s f files) \<le> 159 + (length (pf_text f) + 23) + (length files + 23) +
      (3836 * length (pd_threads pd) + 151)"
    using threads_spec_size [OF thr(1), of mem clk arch True] note_cost [of "length (pf_text f)"] note_cost [of "length files"]
      note_cost [of 136] by (simp add: core_spec_def length_prpsinfo_of)
  also have "\<dots> \<le> INT_MAX" using pd(7) f28 thr(2) by simp
  finally show ?thesis
    using GenerateNotes_fits [OF mem _ pd(4,5,6) _ pd(1,2) fl(1) _ thr(1)] pd(3,7) f28
    by (simp add: process_stat_def)
qed

section \<open>Writing an acore\<close>

text \<open>
  What \<^verbatim>\<open>generate\<close> writes after the file header, once the threads are stopped: \<open>control\<close> is
  \<^verbatim>\<open>control_tid\<close>, \<open>om\<close> opens a memory file.
\<close>

definition write_acore ::
    "('e, 'd) lz4_codec \<Rightarrow> capture_env \<Rightarrow> (int \<Rightarrow> thread_env) \<Rightarrow> (int \<Rightarrow> mem_fd option) \<Rightarrow> nat \<Rightarrow> int \<Rightarrow> core \<Rightarrow>
     ('e, 'd) stream \<Rightarrow> ((err + unit) \<times> core \<times> ('e, 'd) stream) option" where
  "write_acore cdc env te om platform control c st =
     (case WriteProcessMeta cdc env control c st of
        (Inl e, c1, st1) \<Rightarrow> Some (Inl e, c1, st1)
      | (Inr maps, c1, st1) \<Rightarrow>
     (case WriteThreads cdc env te c1 (thread_order control (pd_thrd_pid (c_process c1))) st1 of
        (Inl e, st2) \<Rightarrow> Some (Inl e, c1, st2)
      | (Inr _, st2) \<Rightarrow>
     (case WriteLoads cdc om control maps c1 st2 of
        None \<Rightarrow> None
      | Some (Inl e, c2, st3) \<Rightarrow> Some (Inl e, c2, st3)
      | Some (Inr _, c2, st3) \<Rightarrow>
     (case WriteElfHeader cdc platform c2 st3 of
        (Inl e, st4) \<Rightarrow> Some (Inl e, c2, st4)
      | (Inr _, st4) \<Rightarrow>
          (case WriteTailMark cdc st4 of
             (Inl e, st5) \<Rightarrow> Some (Inl e, c2, st5)
           | (Inr _, st5) \<Rightarrow> Some (Inr (), c2, st5))))))"

lemma write_acore_Inr:
  assumes "write_acore cdc env te om platform control c st = Some (Inr (), c', st')"
  obtains maps c1 st1 st2 st3 st4 where "WriteProcessMeta cdc env control c st = (Inr maps, c1, st1)"
    "WriteThreads cdc env te c1 (thread_order control (pd_thrd_pid (c_process c1))) st1 = (Inr (), st2)"
    "WriteLoads cdc om control maps c1 st2 = Some (Inr (), c', st3)" "WriteElfHeader cdc platform c' st3 = (Inr (), st4)"
    "WriteTailMark cdc st4 = (Inr (), st')"
  using assms by (auto simp: write_acore_def split: prod.splits sum.splits option.splits)

lemma filter_same: "distinct xs \<Longrightarrow> x \<in> set xs \<Longrightarrow> filter (\<lambda>y. y = x) xs = [x]"
proof (induction xs)
  case (Cons y ys)
  have "filter (\<lambda>y. y = x) ys = []" if "y = x" using Cons.prems(1) that by (auto simp: filter_empty_conv)
  with Cons show ?case by auto
qed simp

lemma thread_order_mset:
  assumes "distinct tids" "control \<in> set tids"
  shows "mset (thread_order control tids) = mset tids"
proof -
  have "mset tids = mset (filter (\<lambda>tid. tid = control) tids) + mset (filter (\<lambda>tid. tid \<noteq> control) tids)"
    by (induction tids) auto
  then show ?thesis using filter_same [OF assms] by (simp add: thread_order_def)
qed

text \<open>
  What the hosts of a capture provide, and what the format can hold. The threads are written
  in some order: the control thread first, or the one that crashed.
\<close>

record capture_setup =
  cs_env :: capture_env
  cs_te :: "int \<Rightarrow> thread_env"
  cs_mem :: "int \<Rightarrow> mem_fd option"
  cs_platform :: nat
  cs_control :: int
  cs_order :: "int list \<Rightarrow> int list"

definition capture_sound :: "capture_setup \<Rightarrow> core \<Rightarrow> bool" where
  "capture_sound s c \<longleftrightarrow>
     cs_platform s < ARCH_MAX \<and> c_arch c = cs_platform s \<and> c_phdrs c = [] \<and> valid_core c \<and> sized_env (cs_env s) \<and>
     cs_control s \<noteq> 0 \<and> cs_control s \<in> set (pd_thrd_pid (c_process c)) \<and> length (pd_thrd_pid (c_process c)) \<le> 131072 \<and>
     (\<forall>tid \<in> set (pd_thrd_pid (c_process c)). tid \<le> 2147483647 \<and> sized_thread (c_arch c) (cs_te s tid)) \<and>
     (\<forall>maps. source_maps (cs_env s) c (cs_control s) = Inr maps \<longrightarrow> bounded_maps maps)"

definition threads_fit :: "capture_setup \<Rightarrow> core \<Rightarrow> bool" where
  "threads_fit s c \<longleftrightarrow>
     (let order = cs_order s (pd_thrd_pid (c_process c)) in
      signals_fit (cs_env s) (cs_te s) c 0 order \<and>
      sum_list (map (stored_cost (cs_env s) (cs_te s) c) order) \<le> THREAD_META_MAX)"

text \<open>An acore, after its file header, in a stream.\<close>

definition acore_stream ::
    "('e, 'd) lz4_codec \<Rightarrow> capture_setup \<Rightarrow> core \<Rightarrow> ('e, 'd) stream \<Rightarrow> core \<Rightarrow> ('e, 'd) stream \<Rightarrow> bool" where
  "acore_stream cdc s c st c' st' \<longleftrightarrow>
     mset (cs_order s (pd_thrd_pid (c_process c))) = mset (pd_thrd_pid (c_process c)) \<and>
     (\<exists>maps c1 st1 st2 st3 st4. WriteProcessMeta cdc (cs_env s) (cs_control s) c st = (Inr maps, c1, st1) \<and>
        WriteThreads cdc (cs_env s) (cs_te s) c1 (cs_order s (pd_thrd_pid (c_process c1))) st1 = (Inr (), st2) \<and>
        WriteLoads cdc (cs_mem s) (cs_control s) maps c1 st2 = Some (Inr (), c', st3) \<and>
        WriteElfHeader cdc (cs_platform s) c' st3 = (Inr (), st4) \<and> WriteTailMark cdc st4 = (Inr (), st'))"

lemma write_acore_stream:
  assumes "write_acore cdc (cs_env s) (cs_te s) (cs_mem s) (cs_platform s) (cs_control s) c st = Some (Inr (), c', st')"
    and "cs_order s = thread_order (cs_control s)" "capture_sound s c"
  shows "acore_stream cdc s c st c' st'"
proof -
  obtain maps c1 st1 st2 st3 st4 where W: "WriteProcessMeta cdc (cs_env s) (cs_control s) c st = (Inr maps, c1, st1)"
    "WriteThreads cdc (cs_env s) (cs_te s) c1 (thread_order (cs_control s) (pd_thrd_pid (c_process c1))) st1 = (Inr (), st2)"
    "WriteLoads cdc (cs_mem s) (cs_control s) maps c1 st2 = Some (Inr (), c', st3)"
    "WriteElfHeader cdc (cs_platform s) c' st3 = (Inr (), st4)" "WriteTailMark cdc st4 = (Inr (), st')"
    by (rule write_acore_Inr [OF assms(1)])
  have "distinct (pd_thrd_pid (c_process c))" by (rule WriteProcessMeta_Inr [OF W(1)])
  moreover have "cs_control s \<in> set (pd_thrd_pid (c_process c))" using assms(3) by (simp add: capture_sound_def)
  ultimately have "mset (thread_order (cs_control s) (pd_thrd_pid (c_process c))) = mset (pd_thrd_pid (c_process c))"
    by (rule thread_order_mset)
  then show ?thesis unfolding acore_stream_def assms(2) using W by blast
qed

text \<open>From the opened streams on, reader and writer are in step.\<close>

lemma stored_thread_cong:
  assumes "c_arch c' = c_arch c" "c_crash_sig c' = c_crash_sig c" "c_crash_tid c' = c_crash_tid c"
  shows "stored_thread env te c' tid = stored_thread env te c tid" "signal_fits c' i t = signal_fits c i t"
    "stored_cost env tes c' tid = stored_cost env tes c tid" "signals_fit env tes c' i tids = signals_fit env tes c i tids"
proof -
  have s: "stored_thread env x c' tid = stored_thread env x c tid" for x tid
    by (simp only: stored_thread_def capture_thread_def assms)
  have f: "signal_fits c' i t = signal_fits c i t" for i t using assms by (simp add: signal_fits_def)
  show "stored_thread env te c' tid = stored_thread env te c tid" "signal_fits c' i t = signal_fits c i t"
    "stored_cost env tes c' tid = stored_cost env tes c tid" "signals_fit env tes c' i tids = signals_fit env tes c i tids"
    unfolding stored_cost_def signals_fit_def s f assms by (rule refl)+
qed

lemma opened_out:
  assumes "OpenFd cdc info fd (Lz4Stream_new LZ4_Compress) = (Inr (), st)" "fi_fdopen info = Some f" "at_end f"
  shows "idle st" "s_index st = 0" "\<not> s_sums st" "s_file st = Some f" "cur_ix st = 0"
    "\<exists>e0 e. LZ4_createStream cdc = Some e0 \<and> LZ4_initStream cdc e0 = Some e \<and> s_enc st = Some e"
  using assms
  by (auto simp: OpenFd_def Lz4Stream_new_def InitCodec_def ResetState_def ReleaseCodec_def idle_def writer_def pending_def
      CurrentBlock_def cur_ix_def empty_block_def numeral_2_eq_2 Block_Clear_def split: option.splits prod.splits if_splits sum.splits)

lemma opened_in:
  assumes "Open cdc (Some f) (Some path) (Lz4Stream_new LZ4_Decompress) = (Inr (), rd)" "healthy f"
    and "codec_bounds cdc"
  shows "reader cdc rd" "s_index rd = 0" "\<not> s_sums rd" "s_file rd = Some f" "s_enc rd = None" "s_mode rd = LZ4_Decompress"
    "fl_seekable f \<Longrightarrow> seekable rd" "s_off rd = 0"
    "\<exists>d0 d. LZ4_createStreamDecode cdc = Some d0 \<and> LZ4_setStreamDecode cdc d0 = Some d \<and> s_dec rd = Some d"
  using assms
  by (auto simp: Open_def Lz4Stream_new_def InitCodec_def ResetState_def ReleaseCodec_def Let_def reader_def ring_ok_def
      ring_of_def codec_bounds_def seekable_def numeral_2_eq_2 split: option.splits prod.splits if_splits sum.splits)

lemma opened_in_step:
  assumes "OpenFd cdc info fd (Lz4Stream_new LZ4_Compress) = (Inr (), st)" "fi_fdopen info = Some f" "at_end f"
    and "Open cdc (Some g) (Some path) (Lz4Stream_new LZ4_Decompress) = (Inr (), rd)" "healthy g" "codec_ok cdc sync"
  shows "in_step cdc sync st rd (unread g)"
proof -
  have cb: "codec_bounds cdc" using assms(6) by (simp add: codec_ok_def)
  note o = opened_out [OF assms(1-3)] and i = opened_in [OF assms(4,5) cb]
  from o(6) i(9) obtain e0 e d0 d where "LZ4_createStream cdc = Some e0" "LZ4_initStream cdc e0 = Some e" "s_enc st = Some e"
    "LZ4_createStreamDecode cdc = Some d0" "LZ4_setStreamDecode cdc d0 = Some d" "s_dec rd = Some d" by blast
  with assms(6) o i show ?thesis by (auto simp: in_step_def fed_def codec_ok_def codec_start_def)
qed

section \<open>Reading an acore back\<close>

lemma source_of_control: "control \<noteq> 0 \<Longrightarrow> source_of control c = control"
  by (simp add: source_of_def)

text \<open>What one gets out of an acore: metadata, and then the segments with the memory.\<close>

definition delivers ::
    "('e, 'd) lz4_codec \<Rightarrow> ('e \<Rightarrow> nat \<Rightarrow> 'd \<Rightarrow> nat \<Rightarrow> bool) \<Rightarrow> capture_setup \<Rightarrow> core \<Rightarrow> core \<Rightarrow> MemRegion list \<Rightarrow> Phdr list \<Rightarrow>
     bytes list \<Rightarrow> ('e, 'd) stream \<Rightarrow> bool" where
  "delivers cdc sync s c cr maps phs datas rd \<longleftrightarrow>
     carries cdc sync (cs_platform s) phs (concat datas) rd \<and>
     c_pid cr = c_pid c \<and> c_core_pid cr = c_core_pid c \<and> c_crash_sig cr = c_crash_sig c \<and> c_arch cr = c_arch c \<and>
     stored_files (cs_env s) c (cs_control s) (c_process cr) \<and> pd_credentials_valid (c_process cr) \<and>
     map Inr (pd_threads (c_process cr)) =
       map (\<lambda>tid. stored_thread (cs_env s) (cs_te s tid) c tid) (cs_order s (pd_thrd_pid (c_process c))) \<and>
     mset (cs_order s (pd_thrd_pid (c_process c))) = mset (pd_thrd_pid (c_process c)) \<and>
     source_maps (cs_env s) c (cs_control s) = Inr maps \<and> expected_load_phdrs maps = Inr (phs, load_bytes phs) \<and>
     phs \<noteq> [] \<and> length phs < 65535 \<and> load_bytes phs \<le> SSIZE_MAX \<and> contiguous 0 phs \<and>
     list_all2 (\<lambda>r ph. ph = load_phdr (unat (p_offset ph)) r) maps phs \<and>
     (\<exists>fd. cs_mem s (cs_control s) = Some fd \<and> captures False (mf_byte fd) phs datas \<and>
        (undisturbed fd \<and> readable_maps (mf_byte fd) maps \<longrightarrow> captures True (mf_byte fd) phs datas))"

lemma acore_written:
  assumes ok: "codec_ok cdc sync" "allocates cdc" and st0: "idle st0" "s_index st0 = 0" "\<not> s_sums st0"
    and snd: "capture_sound s c" "threads_fit s c"
    and hd: "WriteFileHeader cdc (cs_platform s) st0 = (Inr u, st1)"
    and w: "acore_stream cdc s c st1 c' st'"
    and c0: "pd_threads (c_process c0) = []"
  shows "idle st' \<and> (in_step cdc sync st0 rd (new_bytes st0 st') \<longrightarrow> seekable rd \<longrightarrow> s_mode rd = LZ4_Decompress \<longrightarrow> s_index rd = 0 \<longrightarrow>
    s_enc rd = None \<longrightarrow> (\<exists>rd1 cr rd2 maps phs datas. VerifyFileHeader c0 rd = (Inr (c0\<lparr>c_arch := cs_platform s, c_version := ACORE_VERSION\<rparr>), rd1) \<and>
    ReadMeta cdc (c0\<lparr>c_arch := cs_platform s, c_version := ACORE_VERSION\<rparr>) rd1 = (Inr cr, rd2) \<and>
    delivers cdc sync s c cr maps phs datas rd2))"
proof (intro conjI impI)
  let ?env = "cs_env s" and ?te = "cs_te s" and ?ctl = "cs_control s" and ?pl = "cs_platform s"
  let ?tids = "pd_thrd_pid (c_process c)" and ?c1 = "c0\<lparr>c_arch := ?pl, c_version := ACORE_VERSION\<rparr>"
  have S: "?pl < ARCH_MAX" "c_arch c = ?pl" "c_phdrs c = []" "valid_core c" "sized_env ?env" "?ctl \<noteq> 0"
    "?ctl \<in> set ?tids" "length ?tids \<le> 131072" "\<forall>tid \<in> set ?tids. tid \<le> 2147483647 \<and> sized_thread (c_arch c) (?te tid)"
    "\<And>maps. source_maps ?env c ?ctl = Inr maps \<Longrightarrow> bounded_maps maps"
    using snd(1) by (auto simp: capture_sound_def)
  obtain maps cw st2 st3 st4 st5 where W: "WriteProcessMeta cdc ?env ?ctl c st1 = (Inr maps, cw, st2)"
    "WriteThreads cdc ?env ?te cw (cs_order s (pd_thrd_pid (c_process cw))) st2 = (Inr (), st3)"
    "WriteLoads cdc (cs_mem s) ?ctl maps cw st3 = Some (Inr (), c', st4)" "WriteElfHeader cdc ?pl c' st4 = (Inr (), st5)"
    "WriteTailMark cdc st5 = (Inr (), st')" and ms: "mset (cs_order s ?tids) = mset ?tids"
    using w unfolding acore_stream_def by blast
  have so: "source_of ?ctl c = ?ctl" using S(6) by (simp add: source_of_def)
  obtain ids sa sb pf k sc where P: "read_credentials ?env (source_of ?ctl c) = Inr ids"
    "cw = c\<lparr>c_process := (c_process c)\<lparr>pd_uid := ps_uid ids, pd_gid := ps_gid ids, pd_credentials_valid := True\<rparr>\<rparr>"
    "write_process_block cdc ?env cw st1 = (Inr (), sa)"
    "put_checked cdc ?env (c_pid c) (source_of ?ctl c) [PROC_TYPE_CMDLINE, PROC_TYPE_AUXV] sa = (Inr (), sb)"
    "read_maps ?env (c_pid c) (source_of ?ctl c) = Inr (pf, maps)" "PutFile cdc (Some pf) sb = (Inr k, sc)"
    "put_checked cdc ?env (c_pid c) (source_of ?ctl c) [PROC_TYPE_ENVIRON, PROC_TYPE_IO, PROC_TYPE_LIMITS, PROC_TYPE_STAT] sc = (Inr (), st2)"
    "?tids \<noteq> []" "distinct ?tids" "\<forall>tid \<in> set ?tids. 0 < tid"
    by (rule WriteProcessMeta_Inr [OF W(1)])
  let ?order = "cs_order s ?tids"
  have cw: "pd_thrd_pid (c_process cw) = ?tids" "c_arch cw = c_arch c" "c_crash_sig cw = c_crash_sig c" "c_crash_tid cw = c_crash_tid c"
    "c_phdrs cw = []" using S(3) by (simp_all add: P(2))
  note cong = stored_thread_cong [OF cw(2-4)]
  have st: "set ?order = set ?tids" using ms by (rule mset_eq_setD)
  have lo: "length ?order \<le> 131072" using S(8) mset_eq_length [OF ms] by simp
  note H = WriteFileHeader_Inr [OF hd st0]
  have fit: "signals_fit ?env ?te cw 0 ?order" "sum_list (map (stored_cost ?env ?te cw) ?order) \<le> THREAD_META_MAX"
    using snd(2) by (simp_all add: threads_fit_def Let_def cong(4) ext [OF cong(3)])
  have tid: "\<forall>tid \<in> set ?order. tid \<le> 2147483647 \<and> sized_thread (c_arch c) (?te tid)" using S(9) st by simp
  have c1: "c_version ?c1 = ACORE_VERSION" "c_arch ?c1 = c_arch c" "pd_threads (c_process ?c1) = []" using S(2) c0 by simp_all
  from ReadMeta_transfer [OF ok H(1) S(4,5) W(1) W(2) [unfolded cw(1)] ms lo tid fit c1] obtain cr where
    T: "transfers cdc sync st1 st3 (ReadMeta cdc ?c1) (Inr cr)" and
    R: "c_pid cr = c_pid c" "c_core_pid cr = c_core_pid c" "c_crash_sig cr = c_crash_sig c" "c_arch cr = c_arch c"
      "map Inr (pd_threads (c_process cr)) = map (\<lambda>tid. stored_thread ?env (?te tid) cw tid) ?order"
      "stored_files ?env c ?ctl (c_process cr)" "pd_credentials_valid (c_process cr)" by blast
  have i3: "idle st3" by (rule transfers_idle [OF T])
  have sm: "source_maps ?env c ?ctl = Inr maps" by (simp add: source_maps_def P(5))
  obtain phs datas fd where L: "expected_load_phdrs maps = Inr (phs, load_bytes phs)" "phs \<noteq> []" "cs_mem s ?ctl = Some fd"
    "c' = cw\<lparr>c_phdrs := c_phdrs cw @ phs\<rparr>" "captures False (mf_byte fd) phs datas"
    "sends_loads cdc st3 (concat datas) st4" "load_bytes phs \<le> SSIZE_MAX" "contiguous 0 phs"
    "undisturbed fd \<Longrightarrow> readable_maps (mf_byte fd) maps \<Longrightarrow> captures True (mf_byte fd) phs datas"
    "list_all2 (\<lambda>r ph. ph = load_phdr (unat (p_offset ph)) r) maps phs"
    using WriteLoads_Inr [OF W(3) i3 S(10) [OF sm]] by blast
  have ph: "c_phdrs c' = phs" using L(4) cw(5) by simp
  have i4: "idle st4" by (rule sends_loads_idle [OF L(6)])
  obtain g gs where E: "idle st5" "length (c_phdrs c') < 65535" "appended cdc st4 (elf_lblocks
       ((put_ehdr (Ehdr_new\<lparr>e_phnum := word_of_nat (length (c_phdrs c')), e_machine := platform_machine ?pl\<rparr>)
         @ phdr_bytes g) # map phdr_bytes gs)) st5"
    by (rule WriteElfHeader_Inr [OF W(4) i4])
  note M = WriteTailMark_Inr [OF W(5) E(1)]
  have g34: "grows st3 st4" using L(6) by (auto simp: sends_loads_def intro: appended_grows)
  have g45: "grows st4 st5" using E(3) by (rule appended_grows)
  have g13: "grows st1 st3" using T by (simp add: transfers_def)
  have g35: "grows st3 st5" by (rule grows_trans [OF g34 g45])
  have g3: "grows st3 st'" by (rule grows_trans [OF g35 M(3)])
  have g1: "grows st1 st'" by (rule grows_trans [OF g13 g3])
  have nb3: "new_bytes st3 st' = new_bytes st3 st4 @ new_bytes st4 st5 @ put_hdr TailMark"
    using new_bytes_trans [OF g35 M(3)] new_bytes_trans [OF g34 g45] M(2) by simp
  have nb: "new_bytes st0 st' = new_bytes st0 st1 @ (new_bytes st1 st3 @ new_bytes st3 st')"
    using new_bytes_trans [OF H(3) g1] new_bytes_trans [OF g13 g3] by simp
  show "idle st'" by (rule M(1))
  assume rd: "in_step cdc sync st0 rd (new_bytes st0 st')" "seekable rd" "s_mode rd = LZ4_Decompress" "s_index rd = 0" "s_enc rd = None"
  have r0: "in_step cdc sync st0 rd (new_bytes st0 st1 @ (new_bytes st1 st3 @ new_bytes st3 st'))" using rd(1) nb by simp
  from file_header_transfer [OF S(1) st0 hd r0 rd(4,5), of c0] obtain rd1 where
    v: "VerifyFileHeader c0 rd = (Inr ?c1, rd1)" "in_step cdc sync st1 rd1 (new_bytes st1 st3 @ new_bytes st3 st')" by blast
  from T v(2) obtain rd2 where m: "ReadMeta cdc ?c1 rd1 = (Inr cr, rd2)" "in_step cdc sync st3 rd2 (new_bytes st3 st')"
    by (rule transfersD)
  have sk: "seekable rd2" using seeks.read_meta [OF m(1) seeks.file_header [OF v(1) rd(2)]] .
  have md: "s_mode rd2 = LZ4_Decompress" using mode.read_meta [OF m(1) mode.file_header [OF v(1) rd(3)]] .
  have "carries cdc sync ?pl phs (concat datas) rd2"
    unfolding carries_def using L(6) W(4) ph m(2) nb3 sk md by auto
  then have "delivers cdc sync s c cr maps phs datas rd2"
    unfolding delivers_def using R L sm E(2) ph cong(1) ms by auto
  with v(1) m(1) show "\<exists>rd1 cr rd2 maps phs datas. VerifyFileHeader c0 rd = (Inr ?c1, rd1) \<and> ReadMeta cdc ?c1 rd1 = (Inr cr, rd2) \<and>
      delivers cdc sync s c cr maps phs datas rd2" by blast
qed

lemmas acore_idle = acore_written [THEN conjunct1]
lemmas acore_delivers = acore_written [THEN conjunct2, rule_format]

end
