(* ===== verification/CoreView.thy ===== *)
theory CoreView
  imports EndToEnd
begin

text \<open>
  What a debugger finds in a core file: a reader of ELF files (its program headers and the
  bytes of a segment), applied to the file \<^verbatim>\<open>decompress\<close> writes.
\<close>

section \<open>A reader\<close>

definition elf_phdrs :: "bytes \<Rightarrow> Phdr list" where
  "elf_phdrs bs =
     (let eh = get_ehdr (take 64 bs)
      in map (\<lambda>i. get_phdr (field_at 56 (unat (e_phoff eh) + 56 * i) bs)) [0..<unat (e_phnum eh)])"

definition elf_segment :: "bytes \<Rightarrow> Phdr \<Rightarrow> bytes" where
  "elf_segment bs ph = take (unat (p_filesz ph)) (drop (unat (p_offset ph)) bs)"

definition elf_core_of :: "nat \<Rightarrow> bytes \<Rightarrow> bool" where
  "elf_core_of platform bs \<longleftrightarrow>
     (let eh = get_ehdr (take 64 bs)
      in take 4 (e_ident eh) = ELFMAG \<and> e_type eh = ET_CORE \<and> e_machine eh = platform_machine platform)"

lemma field_phdr_bytes:
  "i < length ps \<Longrightarrow> get_phdr (field_at 56 (56 * i) (phdr_bytes ps @ rest)) = ps ! i"
proof (induction ps arbitrary: i)
  case (Cons p ps)
  show ?case
  proof (cases i)
    case 0
    then show ?thesis by (simp add: field_at_def)
  next
    case (Suc j)
    then have "field_at 56 (56 * i) (phdr_bytes (p # ps) @ rest) = field_at 56 (56 * j) (phdr_bytes ps @ rest)"
      by (simp add: field_at_def)
    with Suc Cons show ?thesis by simp
  qed
qed simp

lemma elf_phdrs_put:
  assumes "length ps < 65536"
  shows "elf_phdrs (put_ehdr (Ehdr_new\<lparr>e_machine := m, e_phnum := word_of_nat (length ps)\<rparr>) @ phdr_bytes ps @ rest) = ps"
proof -
  let ?e = "Ehdr_new\<lparr>e_machine := m, e_phnum := word_of_nat (length ps)\<rparr>"
  have l: "length (put_ehdr ?e) = 64" by (rule cehdr.enc_length) simp
  have g: "get_ehdr (take 64 (put_ehdr ?e @ phdr_bytes ps @ rest)) = ?e" by (rule cehdr.dec_prefix) simp
  have n: "unat (e_phnum ?e) = length ps" "unat (e_phoff ?e) = 64" using assms by (simp_all add: unat_of_nat Ehdr_new_def)
  have f: "field_at 56 (64 + 56 * i) (put_ehdr ?e @ phdr_bytes ps @ rest) = field_at 56 (56 * i) (phdr_bytes ps @ rest)" for i
    using l by (simp add: field_at_def)
  have "elf_phdrs (put_ehdr ?e @ phdr_bytes ps @ rest) =
      map (\<lambda>i. get_phdr (field_at 56 (56 * i) (phdr_bytes ps @ rest))) [0..<length ps]"
    unfolding elf_phdrs_def Let_def g n f ..
  also have "\<dots> = map ((!) ps) [0..<length ps]" by (rule map_cong) (auto intro: field_phdr_bytes)
  finally show ?thesis by (simp add: map_nth)
qed

lemma segments_of_image:
  "contiguous k phs \<Longrightarrow> list_all2 (\<lambda>ph bs. length bs = unat (p_filesz ph)) phs datas \<Longrightarrow>
   \<forall>ph \<in> set phs. p_type ph = PT_LOAD \<Longrightarrow> k + load_bytes phs + off \<le> 18446744073709551615 \<Longrightarrow> length pre = off + k \<Longrightarrow>
   map (\<lambda>ph. elf_segment (pre @ concat datas @ post) (place off ph)) phs = datas"
proof (induction phs arbitrary: k datas pre)
  case (Cons ph phs)
  then obtain d ds where d: "datas = d # ds" "length d = unat (p_filesz ph)"
    "list_all2 (\<lambda>ph bs. length bs = unat (p_filesz ph)) phs ds" by (cases datas) auto
  have c: "unat (p_offset ph) = k" "contiguous (k + unat (p_filesz ph)) phs" using Cons.prems(1) by auto
  have o: "unat (p_offset (place off ph)) = k + off"
    using Cons.prems(3,4) c(1) by (simp add: place_def unat_word_ariths unat_of_nat)
  have "map (\<lambda>ph. elf_segment ((pre @ d) @ concat ds @ post) (place off ph)) phs = ds"
    by (rule Cons.IH [OF c(2) d(3)]) (use Cons.prems d(2) in auto)
  moreover have "elf_segment (pre @ concat (d # ds) @ post) (place off ph) = d"
    using o d(2) Cons.prems(5) by (simp add: elf_segment_def)
  ultimately show ?case by (simp add: d(1))
qed simp

lemma drop_at: "length p = n \<Longrightarrow> drop n (p @ q) = q"
  by simp

lemma core_image_reads:
  fixes nts :: bytes and platform :: nat
  assumes c: "contiguous 0 phs" "list_all2 (\<lambda>ph bs. length bs = unat (p_filesz ph)) phs datas"
      "\<forall>ph \<in> set phs. p_type ph = PT_LOAD" "load_bytes phs \<le> SSIZE_MAX" "length phs < 65535"
    and r: "64 + 56 * (length phs + 1) \<le> reserved" "reserved < 4194304" "length nts \<le> INT_MAX"
  defines "img \<equiv> core_image platform reserved phs nts (concat datas)"
  shows "elf_core_of platform img"
    "elf_phdrs img = note_phdr reserved (length nts) # map (place (reserved + length nts)) phs"
    "elf_segment img (note_phdr reserved (length nts)) = nts"
    "map (elf_segment img) (map (place (reserved + length nts)) phs) = datas"
proof -
  let ?all = "note_phdr reserved (length nts) # map (place (reserved + length nts)) phs"
  let ?e = "Ehdr_new\<lparr>e_machine := platform_machine platform, e_phnum := word_of_nat (length ?all)\<rparr>"
  let ?z = "replicate (reserved - (64 + 56 * length ?all)) NUL"
  have img: "img = put_ehdr ?e @ phdr_bytes ?all @ ?z @ nts @ concat datas"
    by (simp add: img_def core_image_def Let_def)
  have "length ?all < 65536" using c(5) by simp
  from elf_phdrs_put [OF this] show "elf_phdrs img = ?all" unfolding img .
  have "get_ehdr (take 64 img) = ?e" unfolding img by (rule cehdr.dec_prefix) simp
  then show "elf_core_of platform img" by (simp add: elf_core_of_def Let_def Ehdr_new_def)
  have l: "length (put_ehdr ?e) = 64" by (rule cehdr.enc_length) simp
  let ?pre = "put_ehdr ?e @ phdr_bytes ?all @ ?z"
  have pre: "length ?pre = reserved" using l r(1) by simp
  have n: "unat (p_offset (note_phdr reserved (length nts))) = reserved"
    "unat (p_filesz (note_phdr reserved (length nts))) = length nts"
    using r(2,3) by (simp_all add: note_phdr_def unat_of_nat)
  have i: "img = ?pre @ nts @ concat datas" unfolding img by simp
  show "elf_segment img (note_phdr reserved (length nts)) = nts"
    unfolding elf_segment_def n unfolding i drop_at [OF pre] by simp
  have "map (\<lambda>ph. elf_segment ((?pre @ nts) @ concat datas @ []) (place (reserved + length nts) ph)) phs = datas"
    by (rule segments_of_image [OF c(1-3)]) (use c(4) r pre in auto)
  then show "map (elf_segment img) (map (place (reserved + length nts)) phs) = datas"
    unfolding i by (simp add: comp_def)
qed

end
