(* ===== verification/AtomicProps.thy ===== *)
theory AtomicProps
  imports AtomicOutput
begin

text \<open>
  What an atomic output promises: without interference the output path holds its old file
  or the complete new one, whatever fails; another producer's file is put back or kept;
  and one race in which it is lost.
\<close>

section \<open>Calls without interference\<close>

definition alone :: "os_env \<Rightarrow> bool" where
  "alone os \<longleftrightarrow> (\<forall>c m. os_before os c m = m)"

definition quiet :: "os_env \<Rightarrow> bool" where
  "quiet os \<longleftrightarrow> alone os \<and> (\<forall>c. os_fails os c = None)"

lemma os_call_alone:
  "alone os \<Longrightarrow> os_call os c f m = (r, m') \<Longrightarrow> (m' = m \<and> isl r) \<or> (f m = Inr m' \<and> r = Inr ())"
  by (auto simp: os_call_def alone_def split: option.splits sum.splits)

lemma os_call_quiet [simp]:
  "quiet os \<Longrightarrow> os_call os c f m = (case f m of Inl e \<Rightarrow> (Inl e, m) | Inr m' \<Rightarrow> (Inr (), m'))"
  by (simp add: os_call_def quiet_def alone_def)

lemma os_lstat_quiet [simp]:
  "quiet os \<Longrightarrow> os_lstat os c p m = (case m p of None \<Rightarrow> Inl ENOENT | Some n \<Rightarrow> Inr n, m)"
  by (simp add: os_lstat_def quiet_def alone_def split: option.split)

lemma os_lstat_alone: "alone os \<Longrightarrow> os_lstat os c p m = (r, m') \<Longrightarrow> m' = m \<and> (r = Inr n \<longrightarrow> m p = Some n)"
  by (auto simp: os_lstat_def alone_def split: option.splits)

lemma fs_unlink_alone:
  assumes "alone os" "snd (os_call os c (fs_unlink t) m) = m'"
  shows "m' = m \<or> m' = m(t := None)"
proof -
  obtain r m1 where "os_call os c (fs_unlink t) m = (r, m1)" by fastforce
  with os_call_alone [OF assms(1) this] assms(2) show ?thesis by (auto simp: fs_unlink_def split: if_splits)
qed

lemma os_call_idle: "os_call os c Inr m = (r, m') \<Longrightarrow> alone os \<Longrightarrow> m' = m"
  by (auto dest: os_call_alone)

lemma sync_output_directory_alone: "alone os \<Longrightarrow> sync_output_directory os p m = (r, m') \<Longrightarrow> m' = m"
  by (auto simp: sync_output_directory_def split: prod.splits sum.splits dest!: os_call_idle)

section \<open>Committing\<close>

text \<open>
  \<open>settled temp final old new m m'\<close>: nothing but the two names changed, and the output is the
  old file or the new one.
\<close>

definition settled :: "string \<Rightarrow> string \<Rightarrow> fs \<Rightarrow> fs \<Rightarrow> bool" where
  "settled temp final m m' \<longleftrightarrow>
     (\<forall>x. x \<noteq> temp \<longrightarrow> x \<noteq> final \<longrightarrow> m' x = m x) \<and> (m' final = m final \<or> m' final = m temp)"

lemma settled_refl: "settled temp final m m"
  by (simp add: settled_def)

lemma settled_unlink: "settled temp final m m1 \<Longrightarrow> temp \<noteq> final \<Longrightarrow> settled temp final m (m1(temp := None))"
  by (auto simp: settled_def)

lemma settled_unlink_call:
  "alone os \<Longrightarrow> settled temp final m m1 \<Longrightarrow> temp \<noteq> final \<Longrightarrow> settled temp final m (snd (os_call os c (fs_unlink temp) m1))"
  using fs_unlink_alone [of os c temp m1] settled_unlink by fastforce

lemma commit_replace_alone:
  assumes os: "alone os" and ne: "temp \<noteq> final" and r: "commit_replace os temp final st m = (r, m')"
  shows "settled temp final m m'" "r = Inr (Inr (), True) \<Longrightarrow> m' final = m temp \<and> m' temp = None"
    "r = Inr (Inr (), c) \<Longrightarrow> m' final = m temp"
proof -
  obtain l m1 where l: "os_lstat os LstatFinal final m = (l, m1)" by fastforce
  then have m1: "m1 = m" using os_lstat_alone [OF os l] by auto
  note U = settled_unlink_call [OF os _ ne]
  have all: "settled temp final m m' \<and> (r = Inr (Inr (), True) \<longrightarrow> m' final = m temp \<and> m' temp = None) \<and>
      (\<forall>c. r = Inr (Inr (), c) \<longrightarrow> m' final = m temp)"
  proof (cases "case l of Inl _ \<Rightarrow> True | Inr n \<Rightarrow> \<not> is_initial st n")
    case True
    then show ?thesis using r l m1 U [OF settled_refl] by (auto simp: commit_replace_def)
  next
    case False
    obtain x m2 where x: "os_call os ExchangeIn (fs_exchange temp final) m = (x, m2)" by fastforce
    show ?thesis
    proof (cases x)
      case (Inl e)
      then have "m2 = m" using os_call_alone [OF os x] by auto
      then show ?thesis using r l m1 False x Inl settled_refl by (auto simp: commit_replace_def)
    next
      case (Inr u)
      then have m2: "m2 = m(temp := m final, final := m temp)"
        using os_call_alone [OF os x] by (auto simp: fs_exchange_def split: if_splits)
      then have s2: "settled temp final m m2" "m2 final = m temp" using ne by (auto simp: settled_def)
      obtain d m3 where d: "os_lstat os LstatDisplaced temp m2 = (d, m3)" by fastforce
      then have m3: "m3 = m2" using os_lstat_alone [OF os d] by auto
      show ?thesis
      proof (cases "case d of Inl _ \<Rightarrow> True | Inr n \<Rightarrow> \<not> is_initial st n")
        case True
        obtain y m4 where y: "os_call os ExchangeBack (fs_exchange temp final) m2 = (y, m4)" by fastforce
        have "m4 = m2 \<or> m4 = m2(temp := m2 final, final := m2 temp)"
          using os_call_alone [OF os y] by (auto simp: fs_exchange_def split: if_splits)
        then have "settled temp final m m4" using s2 ne m2 by (auto simp: settled_def)
        then show ?thesis
          using r l m1 False x Inr d m3 True y U by (cases y) (auto simp: commit_replace_def)
      next
        case F2: False
        obtain y m4 where y: "os_call os UnlinkReplaced (fs_unlink temp) m2 = (y, m4)" by fastforce
        have m4: "m4 = m2 \<and> isl y \<or> m4 = m2(temp := None)"
          using os_call_alone [OF os y] by (auto simp: fs_unlink_def split: if_splits)
        then have "settled temp final m m4" "m4 final = m temp" using s2 ne settled_unlink by auto
        then show ?thesis
          using r l m1 False x Inr d m3 F2 y m4 by (auto simp: commit_replace_def)
      qed
    qed
  qed
  then show "settled temp final m m'" "r = Inr (Inr (), True) \<Longrightarrow> m' final = m temp \<and> m' temp = None"
    "r = Inr (Inr (), c) \<Longrightarrow> m' final = m temp" by auto
qed

lemma commit_create_alone:
  assumes os: "alone os" and ne: "temp \<noteq> final" and r: "commit_create os temp final m = (r, m')"
  shows "settled temp final m m'" "r = (Inr (), True) \<Longrightarrow> m' final = m temp \<and> m' temp = None" "r = (Inr (), c) \<Longrightarrow> m' final = m temp"
proof -
  obtain x m1 where x: "os_call os RenameNew (fs_rename_new temp final) m = (x, m1)" by fastforce
  have all: "settled temp final m m' \<and> (r = (Inr (), True) \<longrightarrow> m' final = m temp \<and> m' temp = None) \<and>
      (\<forall>c. r = (Inr (), c) \<longrightarrow> m' final = m temp)"
  proof (cases x)
    case (Inr u)
    then have "m1 = m(temp := None, final := m temp)"
      using os_call_alone [OF os x] by (auto simp: fs_rename_new_def split: if_splits)
    then show ?thesis using r x Inr ne by (auto simp: commit_create_def settled_def)
  next
    case (Inl e)
    then have m1: "m1 = m" using os_call_alone [OF os x] by auto
    obtain y m2 where y: "os_call os LinkNew (fs_link temp final) m = (y, m2)" by fastforce
    show ?thesis
    proof (cases y)
      case (Inl e')
      then have "m2 = m" using os_call_alone [OF os y] by auto
      then show ?thesis using r x \<open>x = Inl e\<close> m1 y Inl settled_refl by (auto simp: commit_create_def split: if_splits)
    next
      case (Inr u)
      then have m2: "m2 = m(final := m temp)"
        using os_call_alone [OF os y] by (auto simp: fs_link_def split: if_splits)
      obtain z m3 where z: "os_call os UnlinkLink (fs_unlink temp) m2 = (z, m3)" by fastforce
      have "m3 = m2 \<and> isl z \<or> m3 = m2(temp := None)"
        using os_call_alone [OF os z] by (auto simp: fs_unlink_def split: if_splits)
      then show ?thesis
        using r x \<open>x = Inl e\<close> m1 y Inr z m2 ne settled_refl by (auto simp: commit_create_def settled_def split: if_splits)
    qed
  qed
  then show "settled temp final m m'" "r = (Inr (), True) \<Longrightarrow> m' final = m temp \<and> m' temp = None"
    "r = (Inr (), c) \<Longrightarrow> m' final = m temp" by auto
qed

lemma commit_path_settled:
  assumes os: "alone os" and ne: "temp \<noteq> final"
    and r: "commit_atomic_path os temp final st m = (r, m')"
  shows "settled temp final m m' \<and> (r = Inr () \<longrightarrow> m' final = m temp \<and> m' temp = None)"
proof -
  obtain x m1 where x: "(if replace_existing st then commit_replace os temp final st m
      else let (x, m') = commit_create os temp final m in (Inr x, m')) = (x, m1)" by fastforce
  have X: "settled temp final m m1" "x = Inr (Inr (), True) \<Longrightarrow> m1 final = m temp \<and> m1 temp = None"
  proof -
    have "settled temp final m m1 \<and> (x = Inr (Inr (), True) \<longrightarrow> m1 final = m temp \<and> m1 temp = None)"
      using x commit_replace_alone [OF os ne, of st m x m1] commit_create_alone [OF os ne, of m _ m1]
      by (auto split: if_splits prod.splits)
    then show "settled temp final m m1" "x = Inr (Inr (), True) \<Longrightarrow> m1 final = m temp \<and> m1 temp = None" by auto
  qed
  obtain s m2 where s: "sync_output_directory os final m1 = (s, m2)" by fastforce
  have m2: "m2 = m1" by (rule sync_output_directory_alone [OF os s])
  from r [unfolded commit_atomic_path_def x] X s m2 settled_unlink_call [OF os X(1) ne, of UnlinkFailed] show ?thesis
    by (auto split: sum.splits prod.splits if_splits)
qed

lemma commit_file_alone:
  assumes "alone os" "temp \<noteq> final" "m temp = Some n" "commit_atomic_file os f temp final st m = (r, m')"
  shows "(\<forall>x. x = temp \<or> x = final \<or> m' x = m x) \<and>
    (m' final = m final \<or>
       m' final = Some (n\<lparr>fn_data := fl_data f\<rparr>) \<and> fl_flush_ok f \<and> fl_sync_ok f \<and> fl_close_ok f) \<and>
    (isl r \<or> m' final = Some (n\<lparr>fn_data := fl_data f\<rparr>) \<and> m' temp = None)"
proof -
  let ?m = "m(temp := Some (n\<lparr>fn_data := fl_data f\<rparr>))"
  have st: "store_file temp (fl_data f) m = ?m" by (simp add: store_file_def assms(3))
  show ?thesis
  proof (cases "fl_flush_ok f \<and> fl_sync_ok f \<and> fl_close_ok f")
    case True
    then have "commit_atomic_path os temp final st ?m = (r, m')" using assms(4) by (simp add: commit_atomic_file_def st)
    from commit_path_settled [OF assms(1,2) this] True assms(2) show ?thesis by (cases r) (auto simp: settled_def)
  next
    case False
    then have "isl r" "m' = snd (os_call os UnlinkUnsynced (fs_unlink temp) ?m)"
      using assms(4) by (auto simp: commit_atomic_file_def st Let_def)
    with fs_unlink_alone [OF assms(1), of UnlinkUnsynced temp ?m m'] assms(2) show ?thesis by auto
  qed
qed

text \<open>Creating the temporary file changes no other name.\<close>

lemma create_alone:
  assumes "alone os" "create_atomic_output os fresh final m = (r, m')"
  shows "(\<forall>temp st. r = Inr (temp, st) \<longrightarrow> temp_name os final = Inr temp \<and> m' = m(temp := Some (fresh_node (fst fresh) (snd fresh)))) \<and>
    (\<forall>x. temp_name os final \<noteq> Inr x \<longrightarrow> m' x = m x)"
proof -
  obtain l m1 where l: "os_lstat os LstatOutput final m = (l, m1)" by fastforce
  then have m1: "m1 = m" using os_lstat_alone [OF assms(1) l] by auto
  show ?thesis
  proof (cases "temp_name os final")
    case (Inl e)
    then show ?thesis using assms(2) l m1 by (auto simp: create_atomic_output_def Let_def split: if_splits)
  next
    case (Inr temp)
    let ?m2 = "m(temp := Some (fresh_node (fst fresh) (snd fresh)))"
    obtain y m3 where y: "os_call os Fchmod (\<lambda>m. Inr m) ?m2 = (y, m3)" by fastforce
    then have m3: "m3 = ?m2" using os_call_idle [OF _ assms(1)] by blast
    have "x \<noteq> temp \<Longrightarrow> snd (os_call os UnlinkUnsafe (fs_unlink temp) ?m2) x = m x" for x
      using fs_unlink_alone [OF assms(1) refl, of UnlinkUnsafe temp ?m2] by auto
    then show ?thesis using assms(2) l m1 Inr y m3 by (cases y) (auto simp: create_atomic_output_def Let_def split: if_splits)
  qed
qed

lemma open_alone:
  assumes os: "alone os" and r: "open_atomic_file os fresh out final m = (r, m')"
  shows "(\<forall>f temp st. r = Inr (f, temp, st) \<longrightarrow> out = Some f \<and> temp_name os final = Inr temp \<and>
      m' = m(temp := Some (fresh_node (fst fresh) (snd fresh)))) \<and> (\<forall>x. temp_name os final \<noteq> Inr x \<longrightarrow> m' x = m x)"
proof -
  obtain x m1 where x: "create_atomic_output os fresh final m = (x, m1)" by fastforce
  note C = create_alone [OF os x]
  show ?thesis
  proof (cases x)
    case (Inl e)
    then show ?thesis using C r x by (auto simp: open_atomic_file_def)
  next
    case (Inr p)
    then obtain temp st where p: "x = Inr (temp, st)" by (cases p) auto
    then have m1: "temp_name os final = Inr temp" "m1 = m(temp := Some (fresh_node (fst fresh) (snd fresh)))" using C by auto
    have "y \<noteq> temp \<Longrightarrow> snd (os_call os UnlinkUnsafe (fs_unlink temp) m1) y = m y" for y
      using fs_unlink_alone [OF os refl, of UnlinkUnsafe temp m1] m1 by auto
    then show ?thesis using r x p m1 by (cases out) (auto simp: open_atomic_file_def)
  qed
qed

section \<open>When nothing fails\<close>

definition fits_output :: "fs \<Rightarrow> string \<Rightarrow> bool" where
  "fits_output m final \<longleftrightarrow> (case m final of None \<Rightarrow> True | Some n \<Rightarrow> fn_reg n)"

definition output_state :: "fs \<Rightarrow> string \<Rightarrow> AtomicOutputState" where
  "output_state m final =
     (case m final of None \<Rightarrow> AtomicOutputState_new
      | Some n \<Rightarrow> \<lparr>replace_existing = True, initial_device = fn_dev n, initial_inode = fn_ino n\<rparr>)"

lemma create_quiet:
  assumes "quiet os" "temp_name os final = Inr temp" "fits_output m final"
  shows "create_atomic_output os fresh final m =
    (Inr (temp, output_state m final), m(temp := Some (fresh_node (fst fresh) (snd fresh))))"
  using assms by (auto simp: create_atomic_output_def fits_output_def output_state_def Let_def split: option.splits)

lemma commit_path_quiet:
  assumes os: "quiet os" and t: "temp \<noteq> final" "m temp = None" and fit: "fits_output m final"
  shows "commit_atomic_path os temp final (output_state m final) (m(temp := Some n)) = (Inr (), m(final := Some n))"
proof -
  have sync: "sync_output_directory os final m' = (Inr (), m')" for m'
    using os by (simp add: sync_output_directory_def)
  have same: "m(temp := None, final := Some n) = m(final := Some n)" using t(2) by (auto simp: fun_eq_iff)
  show ?thesis
  proof (cases "m final")
    case None
    have "(m(temp := Some n))(temp := None, final := Some n) = m(final := Some n)" using same by simp
    with None os t sync show ?thesis
      by (simp add: commit_atomic_path_def output_state_def AtomicOutputState_new_def commit_create_def fs_rename_new_def)
  next
    case (Some o1)
    let ?st = "\<lparr>replace_existing = True, initial_device = fn_dev o1, initial_inode = fn_ino o1\<rparr>"
    have i: "is_initial ?st o1" using fit Some by (simp add: is_initial_def fits_output_def)
    have "(m(temp := Some o1, final := Some n))(temp := None) = m(final := Some n)"
      using same t(1) by (simp add: fun_upd_twist)
    with Some os t sync i show ?thesis
      by (simp add: commit_atomic_path_def output_state_def commit_replace_def fs_exchange_def fs_unlink_def Let_def)
  qed
qed

lemma commit_file_quiet:
  assumes "quiet os" "temp \<noteq> final" "m temp = None" "fits_output m final" "fl_flush_ok f" "fl_sync_ok f" "fl_close_ok f"
  shows "commit_atomic_file os f temp final (output_state m final) (m(temp := Some n)) =
    (Inr (), m(final := Some (n\<lparr>fn_data := fl_data f\<rparr>)))"
  using commit_path_quiet [OF assms(1-4)] assms(5-7) by (simp add: commit_atomic_file_def store_file_def)

section \<open>The properties\<close>

text \<open>
  C10: Committing an output is all or nothing, whatever call fails and at whatever point:
  with no other process at work, no name but the output's and the temporary one's is
  touched, the output path holds the file it held before or the complete new file - and
  the latter only if flushing, syncing and closing it succeeded; a commit that returns
  success has installed the new file and left no temporary file behind.
\<close>

theorem commit_all_or_nothing:
  assumes "alone os" "temp \<noteq> final" "m temp = Some n" "commit_atomic_file os f temp final st m = (r, m')"
  shows "(\<forall>x. x = temp \<or> x = final \<or> m' x = m x) \<and>
    (m' final = m final \<or>
       m' final = Some (n\<lparr>fn_data := fl_data f\<rparr>) \<and> fl_flush_ok f \<and> fl_sync_ok f \<and> fl_close_ok f) \<and>
    (isl r \<or> m' final = Some (n\<lparr>fn_data := fl_data f\<rparr>) \<and> m' temp = None)"
  using assms by (rule commit_file_alone)

definition calm_os :: os_env where
  "calm_os = \<lparr>os_before = \<lambda>c m. m, os_fails = \<lambda>c. None, os_mkstemp = \<lambda>t. Inr (t @ ''1'')\<rparr>"

definition sample_file :: "nat \<Rightarrow> string \<Rightarrow> fs_node" where
  "sample_file ino d = \<lparr>fn_reg = True, fn_dev = 1, fn_ino = ino, fn_data = d\<rparr>"

definition closed_file :: "string \<Rightarrow> FILE" where
  "closed_file d = \<lparr>fl_data = d, fl_pos = 0, fl_limit = 100, fl_bad = None, fl_seekable = True, fl_err = False,
     fl_eof = False, fl_flush_ok = True, fl_sync_ok = True, fl_close_ok = True\<rparr>"

theorem commit_all_or_nothing_witness:
  "snd (commit_atomic_file calm_os (closed_file ''new'') ''t'' ''out'' AtomicOutputState_new
     [''t'' \<mapsto> sample_file 9 []]) ''out'' = Some (sample_file 9 ''new'')"
proof -
  let ?m = "[''t'' \<mapsto> sample_file 9 []]"
  let ?r = "commit_atomic_file calm_os (closed_file ''new'') ''t'' ''out'' AtomicOutputState_new ?m"
  have a: "alone calm_os" by (simp add: alone_def calm_os_def)
  have "?r = (fst ?r, snd ?r)" by simp
  from commit_all_or_nothing [OF a _ _ this, of "sample_file 9 []"]
  have "isl (fst ?r) \<or> snd ?r ''out'' = Some ((sample_file 9 [])\<lparr>fn_data := ''new''\<rparr>)" by (auto simp: closed_file_def)
  moreover have "\<not> isl (fst ?r)" by code_simp
  ultimately show ?thesis by (simp add: sample_file_def)
qed

text \<open>
  C19: An output another process installs is not lost by the commit: a file that replaced
  the old one after it was inspected is exchanged back and the commit fails with EBUSY;
  a file created where there was none makes it fail with EEXIST. Either way the other
  process's file stays at the output path and the temporary file is removed.
\<close>

theorem foreign_output_survives:
  assumes "\<And>c. os_fails os c = None" "\<And>c m. c \<noteq> ExchangeIn \<Longrightarrow> c \<noteq> RenameNew \<Longrightarrow> os_before os c m = m"
    and "temp \<noteq> final" "m temp = Some ours"
    and "os_before os (if replace_existing st then ExchangeIn else RenameNew) m = m(final := Some other)"
    and "if replace_existing st then \<exists>old. m final = Some old \<and> is_initial st old \<and> \<not> is_initial st other else m final = None"
  shows "commit_atomic_path os temp final st m =
    (Inl (if replace_existing st then EBUSY else EEXIST), m(final := Some other, temp := None))"
proof (cases "replace_existing st")
  case True
  then obtain old where o: "m final = Some old" "is_initial st old" "\<not> is_initial st other" using assms(6) by auto
  have l: "os_lstat os LstatFinal final m = (Inr old, m)" using assms(1,2) o(1) by (simp add: os_lstat_def)
  let ?m2 = "m(final := Some ours, temp := Some other)"
  have x: "os_call os ExchangeIn (fs_exchange temp final) m = (Inr (), ?m2)"
    using assms(1,3-5) True by (simp add: os_call_def fs_exchange_def fun_upd_twist)
  have d: "os_lstat os LstatDisplaced temp ?m2 = (Inr other, ?m2)" using assms(1,2) by (simp add: os_lstat_def)
  let ?m4 = "m(final := Some other, temp := Some ours)"
  have y: "os_call os ExchangeBack (fs_exchange temp final) ?m2 = (Inr (), ?m4)"
    using assms(1-3) by (simp add: os_call_def fs_exchange_def fun_upd_twist)
  have u: "snd (os_call os UnlinkOurs (fs_unlink temp) ?m4) = m(final := Some other, temp := None)"
    using assms(1-3) by (simp add: os_call_def fs_unlink_def)
  have "commit_replace os temp final st m = (Inl EBUSY, m(final := Some other, temp := None))"
    using o u by (simp add: commit_replace_def l x d y Let_def)
  then show ?thesis using True by (simp add: commit_atomic_path_def)
next
  case False
  have x: "os_call os RenameNew (fs_rename_new temp final) m = (Inl EEXIST, m(final := Some other))"
    using assms(1,3-5) False by (simp add: os_call_def fs_rename_new_def)
  have u: "snd (os_call os UnlinkFailed (fs_unlink temp) (m(final := Some other))) = m(final := Some other, temp := None)"
    using assms(1-4) by (simp add: os_call_def fs_unlink_def)
  show ?thesis using False u by (simp add: commit_atomic_path_def commit_create_def x Let_def)
qed

text \<open>Another process installs its file just before the rename.\<close>

definition busy_os :: os_env where
  "busy_os = calm_os\<lparr>os_before := \<lambda>c m. if c \<in> {ExchangeIn, RenameNew} then m(''out'' := Some (sample_file 7 ''theirs'')) else m\<rparr>"

theorem foreign_output_survives_witness:
  "snd (commit_atomic_path busy_os ''t'' ''out'' \<lparr>replace_existing = True, initial_device = 1, initial_inode = 3\<rparr>
     [''t'' \<mapsto> sample_file 9 ''new'', ''out'' \<mapsto> sample_file 3 ''old'']) ''out'' = Some (sample_file 7 ''theirs'')"
proof -
  let ?st = "\<lparr>replace_existing = True, initial_device = 1, initial_inode = 3\<rparr>"
  let ?m = "[''t'' \<mapsto> sample_file 9 ''new'', ''out'' \<mapsto> sample_file 3 ''old'']"
  have "commit_atomic_path busy_os ''t'' ''out'' ?st ?m =
      (Inl (if replace_existing ?st then EBUSY else EEXIST), ?m(''out'' := Some (sample_file 7 ''theirs''), ''t'' := None))"
    by (rule foreign_output_survives) (auto simp: busy_os_def calm_os_def sample_file_def is_initial_def)
  then show ?thesis by simp
qed

text \<open>Two processes install a file, one just before each exchange.\<close>

definition racing_os :: os_env where
  "racing_os = calm_os\<lparr>os_before := \<lambda>c m.
     if c = ExchangeIn then m(''out'' := Some (sample_file 7 ''second''))
     else if c = ExchangeBack then m(''out'' := Some (sample_file 8 ''third'')) else m\<rparr>"

text \<open>
  One race loses a file. When a second process's file was displaced and, before the
  names are exchanged back, a third process installs its own file at the output path,
  the exchange moves that file to the temporary name and the clean-up unlinks it: the
  commit reports EBUSY, the second process's file is back, the third one's is gone.
\<close>

theorem rollback_loses_output:
  "commit_atomic_path racing_os ''t'' ''out'' \<lparr>replace_existing = True, initial_device = 1, initial_inode = 3\<rparr>
     [''t'' \<mapsto> sample_file 9 ''new'', ''out'' \<mapsto> sample_file 3 ''old''] =
   (Inl EBUSY, [''out'' \<mapsto> sample_file 7 ''second''])"
  by (simp add: commit_atomic_path_def commit_replace_def os_lstat_def os_call_def racing_os_def calm_os_def is_initial_def
      sample_file_def fs_exchange_def fs_unlink_def fun_upd_def fun_eq_iff)

end
