(* ===== verification/LoadsRoom.thy ===== *)
theory LoadsRoom
  imports EndToEnd MetaRoom
begin

text \<open>
  When the memory, the ELF block and the tail mark can be written: given a readable memory
  and room on the disk, \<^verbatim>\<open>WriteLoads\<close>, \<^verbatim>\<open>WriteElfHeader\<close> and \<^verbatim>\<open>WriteTailMark\<close> succeed.
\<close>

section \<open>The memory\<close>

definition blocks_of :: "nat \<Rightarrow> nat" where
  "blocks_of n = (n + 65535) div 65536"

lemma blocks_of_add: "blocks_of (65536 * m + n) = m + blocks_of n"
proof -
  have "65536 * m + n + 65535 = n + 65535 + m * 65536" by simp
  then show ?thesis unfolding blocks_of_def by (simp only: div_mult_self1 zero_neq_numeral simp_thms)
qed

lemma blocks_of_small: "0 < n \<Longrightarrow> n \<le> 65536 \<Longrightarrow> blocks_of n = 1"
  unfolding blocks_of_def by (rule div_nat_eqI) simp_all

lemma blocks_of_0 [simp]: "blocks_of 0 = 0"
  by (simp add: blocks_of_def)

lemma blocks_of_step: "0 < n \<Longrightarrow> blocks_of n = 1 + blocks_of (n - 65536)"
  using blocks_of_small [of n] blocks_of_add [of 1 "n - 65536"] by (cases "n \<le> 65536") simp_all

lemma write_chunk_room:
  "idle st \<Longrightarrow> codec_total cdc \<Longrightarrow> room st (131632 * blocks_of (length bs) + k) \<Longrightarrow>
   \<exists>st'. write_chunk cdc bs sz st = (Inr (sz + length bs), st') \<and> idle st' \<and> room st' k"
proof (induction bs arbitrary: sz st rule: chunks.induct)
  case (1 bs)
  show ?case
  proof (cases "bs = []")
    case True
    then show ?thesis using "1.prems" room_mono [OF "1.prems"(3), of k] by (subst write_chunk.simps) simp
  next
    case False
    let ?x = "take BLOCK_SIZE bs"
    have x: "?x \<noteq> []" "length ?x \<le> BLOCK_SIZE" "length ?x \<le> INT_MAX" using False by simp_all
    have "chunks ?x = [?x]" using x(1,2) by (simp add: chunks_step)
    moreover have "room st (131632 + (131632 * blocks_of (length (drop BLOCK_SIZE bs)) + k))"
      using "1.prems"(3) False blocks_of_step [of "length bs"] by (simp add: algebra_simps)
    ultimately have rm: "room st (BLOCK_COST * (1 + length (chunks ?x)) + (131632 * blocks_of (length (drop BLOCK_SIZE bs)) + k))"
      by simp
    have w: "writer st" using "1.prems"(1) by (simp add: idle_def)
    obtain st1 where b: "WriteBlock cdc (Some ?x) 4 st = (Inr (length ?x), st1)"
      "room st1 (131632 * blocks_of (length (drop BLOCK_SIZE bs)) + k)"
      using WriteBlock_room [OF w "1.prems"(2) _ _ x(3) rm, of 4] by auto
    have "idle st1" using WriteBlock_loads(2) [OF "1.prems"(1) b(1) x(1,2)] by (rule sends_loads_idle)
    from "1.IH" [OF False this "1.prems"(2) b(2), of "sz + length ?x"] obtain st' where
      r: "write_chunk cdc (drop BLOCK_SIZE bs) (sz + length ?x) st1 = (Inr (sz + length ?x + length (drop BLOCK_SIZE bs)), st')"
      "idle st'" "room st' k" by blast
    moreover have "sz + length ?x + length (drop BLOCK_SIZE bs) = sz + length bs" by simp
    ultimately show ?thesis using False b(1) by (subst write_chunk.simps) simp
  qed
qed

lemma write_region_room:
  assumes "unat e + 1048576 < 18446744073709551616" "codec_total cdc"
  shows "idle st \<Longrightarrow> a \<le> e \<Longrightarrow> MemEof \<notin> set (mf_events fd) \<Longrightarrow> room st (131632 * blocks_of (unat (e - a)) + k) \<Longrightarrow>
    \<exists>sz' ms' fd' st'. write_region cdc a e sz ms fd st = Some (Inr (sz', ms'), fd', st') \<and> idle st' \<and> room st' k \<and>
      MemEof \<notin> set (mf_events fd')"
proof (induction "unat (e - a)" arbitrary: a sz ms fd st rule: less_induct)
  case less
  show ?case
  proof (cases "a < e")
    case False
    then show ?thesis using less.prems room_mono [OF less.prems(4), of k] by (subst write_region.simps) auto
  next
    case True
    let ?req = "min (unat (e - a)) BUFFER_SIZE" and ?a = "a + 1048576 :: u64"
    obtain got eof fd1 where c: "pread_loop fd a ?req [] = ((got, eof), fd1)" by (metis surj_pair)
    note C = chunk_shows [OF c]
    have ev: "\<not> eof" "MemEof \<notin> set (mf_events fd1)" using C(4,5) less.prems(3) by auto
    have ua: "unat ?a = unat a + 1048576" using assms(1) True by (simp add: unat_word_ariths word_less_nat_alt)
    have dist: "unat (e - a) = unat e - unat a" using less.prems(2) by (simp add: unat_sub)
    have d: "unat (e - ?a) = unat e - unat a - 1048576" if "?a \<le> e" using that ua by (simp add: unat_sub)
    let ?rest = "if ?a \<le> e then 131632 * blocks_of (unat (e - ?a)) + k else k"
    have rm: "room st (131632 * blocks_of (length (zero_fill ?req got)) + ?rest)"
    proof (cases "?a \<le> e")
      case le: True
      then have q: "?req = 65536 * 16 + 0" "unat (e - a) = 65536 * 16 + unat (e - ?a)"
        using d [OF le] dist ua by (simp_all add: word_le_nat_alt)
      have b: "blocks_of (length (zero_fill ?req got)) = 16" "blocks_of (unat (e - a)) = 16 + blocks_of (unat (e - ?a))"
        unfolding q(2) using blocks_of_add [of 16 0] blocks_of_add [of 16 "unat (e - ?a)"] C(1) q(1) by simp_all
      show ?thesis using less.prems(4) le unfolding b by (simp add: add_mult_distrib2 add.assoc)
    next
      case gt: False
      then have "?req = unat (e - a)" using dist ua by (simp add: word_le_nat_alt)
      then show ?thesis using less.prems(4) gt unfolding C(1) by simp
    qed
    from write_chunk_room [OF less.prems(1) assms(2) rm, of sz] obtain st1 where
      w: "write_chunk cdc (zero_fill ?req got) sz st = (Inr (sz + ?req), st1)" "idle st1" "room st1 ?rest"
      unfolding C(1) by blast
    have eq: "write_region cdc a e sz ms fd st = write_region cdc ?a e (sz + ?req) (ms + length got) fd1 st1"
      using True c w ev by (subst write_region.simps) (simp add: Let_def)
    show ?thesis
    proof (cases "?a \<le> e")
      case le: True
      then have "unat (e - ?a) < unat (e - a)" using d [OF le] dist ua by (simp add: word_le_nat_alt)
      from less.hyps [OF this w(2) le ev(2), of "sz + ?req" "ms + length got"] w(3) le show ?thesis unfolding eq by simp
    next
      case gt: False
      then show ?thesis using w(2,3) ev(2) unfolding eq by (subst write_region.simps) auto
    qed
  qed
qed

definition loads_cost :: "Phdr list \<Rightarrow> nat" where
  "loads_cost phs = sum_list (map (\<lambda>ph. 131632 * blocks_of (unat (p_filesz ph))) phs)"

lemma write_regions_room:
  assumes ct: "codec_total cdc"
  shows "bounded_maps rs \<Longrightarrow> list_all2 (\<lambda>r ph. ph = load_phdr (unat (p_offset ph)) r) rs phs \<Longrightarrow> idle st \<Longrightarrow>
   MemEof \<notin> set (mf_events fd) \<Longrightarrow> room st (loads_cost phs + k) \<Longrightarrow>
   \<exists>fs' ms' c' st'. write_regions cdc rs phs fs ms fd c st = Some (Inr (fs', ms'), c', st') \<and> idle st' \<and> room st' k"
proof (induction rs arbitrary: phs fs ms fd c st)
  case Nil
  then show ?case by (simp add: loads_cost_def)
next
  case (Cons r rs)
  then obtain ph phs1 where phs: "phs = ph # phs1" "ph = load_phdr (unat (p_offset ph)) r"
    and rest: "list_all2 (\<lambda>r ph. ph = load_phdr (unat (p_offset ph)) r) rs phs1"
    by (cases phs) auto
  note E = region_end [OF phs(2) Cons.prems(1)]
  let ?e = "start_addr r + p_filesz ph" and ?n = "unat (p_filesz ph)"
  have "room st (131632 * blocks_of (unat (?e - start_addr r)) + (loads_cost phs1 + k))"
    using Cons.prems(5) by (simp add: phs(1) loads_cost_def E(3) add.assoc)
  from write_region_room [OF E(1) ct Cons.prems(3) E(2) Cons.prems(4) this, of 0 ms] obtain sz ms1 fd1 st1 where
    w: "write_region cdc (start_addr r) ?e 0 ms fd st = Some (Inr (sz, ms1), fd1, st1)" "idle st1" "room st1 (loads_cost phs1 + k)"
      "MemEof \<notin> set (mf_events fd1)" by blast
  have "sz = ?n" using write_region_ends [OF E(1,2), of cdc 0 ms fd st] w(1) Cons.prems(3) unfolding E(3) by auto
  moreover have "bounded_maps rs" using Cons.prems(1) by (simp add: bounded_maps_def)
  note Cons.IH [OF this rest w(2,4,3), of "fs + sz" ms1 "c\<lparr>c_phdrs := c_phdrs c @ [ph]\<rparr>"]
  ultimately show ?case using w(1) by (simp add: phs(1))
qed

lemma WriteLoads_room:
  assumes ct: "codec_total cdc" and st: "idle st" and mp: "bounded_maps maps"
    and e: "expected_load_phdrs maps = Inr (phs, n)" "0 < n"
    and fd: "om pid = Some fd" "undisturbed fd" "readable_maps (mf_byte fd) maps" and rm: "room st (loads_cost phs + k)"
  shows "\<exists>c' st'. WriteLoads cdc om pid maps c st = Some (Inr (), c', st') \<and> idle st' \<and> room st' k \<and> c_phdrs c' = c_phdrs c @ phs"
proof -
  have L: "n = load_bytes phs" "list_all2 (\<lambda>r ph. ph = load_phdr (unat (p_offset ph)) r) maps phs"
    using load_phdrs_layout [of 0 maps phs n] e by (auto simp: expected_load_phdrs_def)
  let ?s = "st\<lparr>s_type := 4\<rparr>"
  have s: "SetBlock cdc 4 st = (Inr 0, ?s)" "idle ?s" using SetBlock_idle [OF st] idle_update [OF st] by simp_all
  have rm1: "room ?s (loads_cost phs + k)" using rm by simp
  have ev: "MemEof \<notin> set (mf_events fd)" using fd(2) by (simp add: undisturbed_def)
  from write_regions_room [OF ct mp L(2) s(2) ev rm1, of 0 0 c] obtain fs' ms' c' st' where
    w: "write_regions cdc maps phs 0 0 fd c ?s = Some (Inr (fs', ms'), c', st')" "idle st'" "room st' k" by blast
  from write_regions_ends [OF mp L(2), of cdc 0 0 fd c ?s] w(1) s(2) fd(2,3)
  have r: "fs' = load_bytes phs" "ms' = load_bytes phs" "c' = c\<lparr>c_phdrs := c_phdrs c @ phs\<rparr>" by auto
  have "phs \<noteq> []" using e L(1) by auto
  then have "WriteLoads cdc om pid maps c st = Some (Inr (), c', st')"
    using e fd(1) s(1) w(1) r L(1) by (simp add: WriteLoads_def)
  then show ?thesis using w r by auto
qed

section \<open>The ELF block and the tail mark\<close>

lemma Write_item_room:
  assumes w: "writer st" and ct: "codec_total cdc" and rm: "room st (BLOCK_COST + k)" and s: "s \<noteq> []" "length s < BLOCK_SIZE"
  shows "\<exists>st'. Write cdc (Some s) st = (Inr (length s), st') \<and> writer st' \<and> room st' k"
proof (cases "length s \<le> BLOCK_SIZE - length (pending st)")
  case True
  from Write_room [OF w room_mono [OF rm] True, of k cdc] obtain st' where
    "Write cdc (Some s) st = (Inr (length s), st')" "room st' k" by auto
  with Write_fits [OF w True] show ?thesis by blast
next
  case False
  from w obtain f e where fe: "s_file st = Some f" "s_enc st = Some e" by (auto simp: writer_def)
  have ok: "\<not> fl_err f" using rm fe by (auto simp: room_def)
  have av: "Block_Available (CurrentBlock st) = BLOCK_SIZE - length (pending st)"
    by (simp add: Block_Available_def pending_def)
  from Flush_room [OF w ct rm] obtain st1 where f: "Flush cdc st = (Inr 0, st1)" "room st1 k" by blast
  note F = Flush_Inr [OF w f(1)]
  obtain x st2 where b: "block_put s st1 = (x, st2)" by fastforce
  have "length s \<le> BLOCK_SIZE - length (pending st1)" using F(2) s(2) by simp
  note B = block_put_fits [OF F(1) this b]
  have "Write cdc (Some s) st = (Inr (length s), st2)"
    using fe ok s False f(1) b B(1) by (simp add: Write_def av)
  moreover have "room st2 k" using f(2) B(4) by (auto simp: room_def appended_def)
  ultimately show ?thesis using B(2) by blast
qed

lemma write_phdrs_room:
  assumes ct: "codec_total cdc"
  shows "writer st \<Longrightarrow> room st (BLOCK_COST * length phs + k) \<Longrightarrow>
    \<exists>st'. write_phdrs cdc phs st = (Inr (), st') \<and> writer st' \<and> room st' k"
proof (induction phs arbitrary: st)
  case (Cons ph phs)
  have rm: "room st (BLOCK_COST + (BLOCK_COST * length phs + k))" using Cons.prems(2) by (simp add: algebra_simps)
  have ne: "put_phdr ph \<noteq> []" by (metis length_put_phdr list.size(3) zero_neq_numeral)
  obtain st1 where s: "Write cdc (Some (put_phdr ph)) st = (Inr (length (put_phdr ph)), st1)" "writer st1"
    "room st1 (BLOCK_COST * length phs + k)"
    using Write_item_room [OF Cons.prems(1) ct rm ne] by auto
  from Cons.IH [OF s(2,3)] s(1) show ?case by simp
qed simp

lemma WriteElfHeader_room:
  assumes ct: "codec_total cdc" and st: "idle st" and n: "length (c_phdrs c) < 65535"
    and rm: "room st (BLOCK_COST * (2 + length (c_phdrs c)) + k)"
  shows "\<exists>st'. WriteElfHeader cdc platform c st = (Inr (), st') \<and> idle st' \<and> room st' k"
proof -
  let ?e = "put_ehdr (Ehdr_new\<lparr>e_phnum := word_of_nat (length (c_phdrs c)), e_machine := platform_machine platform\<rparr>)"
  let ?s = "st\<lparr>s_type := 5\<rparr>"
  have e: "length ?e = 64" by (rule cehdr.enc_length) simp
  then have ne: "?e \<noteq> []" by auto
  have s: "SetBlock cdc 5 st = (Inr 0, ?s)" "writer ?s"
    using SetBlock_idle [OF st] idle_update [OF st] by (simp_all add: idle_def)
  have rm0: "room ?s (BLOCK_COST + (BLOCK_COST * length (c_phdrs c) + (BLOCK_COST + k)))" using rm by (simp add: algebra_simps)
  obtain st1 where w: "Write cdc (Some ?e) ?s = (Inr (length ?e), st1)" "writer st1" "room st1 (BLOCK_COST * length (c_phdrs c) + (BLOCK_COST + k))"
    using Write_item_room [OF s(2) ct rm0 ne] e by auto
  from write_phdrs_room [OF ct w(2,3)] obtain st2 where p: "write_phdrs cdc (c_phdrs c) st1 = (Inr (), st2)" "writer st2" "room st2 (BLOCK_COST + k)"
    by blast
  from Flush_room [OF p(2) ct p(3)] obtain st' where f: "Flush cdc st2 = (Inr 0, st')" "room st' k" by blast
  have "idle st'" using Flush_Inr [OF p(2) f(1)] by (simp add: idle_def)
  moreover have "WriteElfHeader cdc platform c st = (Inr (), st')"
    using n s(1) w(1) p(1) f(1) by (simp add: WriteElfHeader_def)
  ultimately show ?thesis using f(2) by blast
qed

lemma WriteTailMark_room:
  assumes st: "idle st" and rm: "room st (3 + k)"
  shows "\<exists>st'. WriteTailMark cdc st = (Inr (), st') \<and> idle st' \<and> room st' k"
proof -
  obtain f e where fe: "s_file st = Some f" "at_end f" "s_enc st = Some e" using st by (auto simp: idle_def writer_def)
  have l: "length (put_hdr TailMark) = 3" by simp
  have "length (fl_data f) + length (put_hdr TailMark) + k \<le> fl_limit f" "\<not> fl_err f" using rm fe by (auto simp: room_def)
  from fwrite_room [OF fe(2) this] l obtain f' where
    f': "fwrite (put_hdr TailMark) f = (3, f')" "at_end f'" "\<not> fl_err f'" "length (fl_data f') + k \<le> fl_limit f'" by auto
  have emp: "Block_isEmpty (CurrentBlock st)" using st by (simp add: idle_def pending_def Block_isEmpty_def)
  have ne: "put_hdr TailMark \<noteq> []" by (metis l list.size(3) zero_neq_numeral)
  let ?st' = "st\<lparr>s_file := Some f', s_fsize := s_fsize st + 3\<rparr>"
  have "WriteRaw cdc (Some (put_hdr TailMark)) st = (Inr 3, ?st')"
    using fe f' emp rm ne by (simp add: WriteRaw_def room_def)
  then have "WriteTailMark cdc st = (Inr (), ?st')" by (simp add: WriteTailMark_def)
  moreover have "idle ?st'" using st f'(2) by (auto simp: idle_def writer_def pending_def CurrentBlock_def)
  moreover have "room ?st' k" using f' by (simp add: room_def)
  ultimately show ?thesis by blast
qed

section \<open>The whole dump\<close>

abbreviation (input) dump_cost :: "nat \<Rightarrow> Phdr list \<Rightarrow> nat" where
  "dump_cost n phs \<equiv> PROCESS_COST + THREAD_COST * n + loads_cost phs + BLOCK_COST * (2 + length phs) + 3"

lemma length_thread_order: "distinct tids \<Longrightarrow> control \<in> set tids \<Longrightarrow> length (thread_order control tids) = length tids"
  using mset_eq_length [OF thread_order_mset] by blast

lemma write_acore_room:
  assumes st: "idle st" and ct: "codec_total cdc" and rm: "room st (dump_cost (length (pd_thrd_pid (c_process c))) phs + k)"
    and snd: "capture_sound s c"
    and pr: "proc_readable (cs_env s) c (cs_control s)" "tids_ok (pd_thrd_pid (c_process c))"
    and thr: "\<And>tid. tid \<in> set (pd_thrd_pid (c_process c)) \<Longrightarrow> \<not> isl (stored_thread (cs_env s) (cs_te s tid) c tid)"
    and mp: "source_maps (cs_env s) c (cs_control s) = Inr maps" "expected_load_phdrs maps = Inr (phs, n)" "0 < n" "length phs < 65535"
    and fd: "cs_mem s (cs_control s) = Some fd" "undisturbed fd" "readable_maps (mf_byte fd) maps"
  shows "\<exists>c' st'. write_acore cdc (cs_env s) (cs_te s) (cs_mem s) (cs_platform s) (cs_control s) c st = Some (Inr (), c', st') \<and>
    idle st' \<and> room st' k"
proof -
  let ?env = "cs_env s" and ?ctl = "cs_control s" and ?tids = "pd_thrd_pid (c_process c)"
  have S: "cs_platform s < ARCH_MAX" "c_arch c = cs_platform s" "c_phdrs c = []" "sized_env ?env" "?ctl \<noteq> 0" "?ctl \<in> set ?tids"
    "\<forall>tid \<in> set ?tids. tid \<le> 2147483647 \<and> sized_thread (c_arch c) (cs_te s tid)" "bounded_maps maps"
    using snd mp(1) by (auto simp: capture_sound_def)
  let ?k4 = "3 + k" let ?k3 = "BLOCK_COST * (2 + length phs) + ?k4" let ?k2 = "loads_cost phs + ?k3"
  let ?k1 = "THREAD_COST * length ?tids + ?k2"
  have "room st (PROCESS_COST + ?k1)" using rm by (simp add: algebra_simps)
  from WriteProcessMeta_room [OF st ct this S(4) pr] obtain rs cw st1 where
    1: "WriteProcessMeta cdc ?env ?ctl c st = (Inr rs, cw, st1)" "idle st1" "room st1 ?k1"
      "c_arch cw = c_arch c" "c_crash_sig cw = c_crash_sig c" "c_crash_tid cw = c_crash_tid c" by blast
  obtain ids sa sb pf j sc where P: "read_credentials ?env (source_of ?ctl c) = Inr ids"
    "cw = c\<lparr>c_process := (c_process c)\<lparr>pd_uid := ps_uid ids, pd_gid := ps_gid ids, pd_credentials_valid := True\<rparr>\<rparr>"
    "write_process_block cdc ?env cw st = (Inr (), sa)"
    "put_checked cdc ?env (c_pid c) (source_of ?ctl c) [PROC_TYPE_CMDLINE, PROC_TYPE_AUXV] sa = (Inr (), sb)"
    "read_maps ?env (c_pid c) (source_of ?ctl c) = Inr (pf, rs)" "PutFile cdc (Some pf) sb = (Inr j, sc)"
    "put_checked cdc ?env (c_pid c) (source_of ?ctl c) [PROC_TYPE_ENVIRON, PROC_TYPE_IO, PROC_TYPE_LIMITS, PROC_TYPE_STAT] sc = (Inr (), st1)"
    "?tids \<noteq> []" "distinct ?tids" "\<forall>tid \<in> set ?tids. 0 < tid"
    by (rule WriteProcessMeta_Inr [OF 1(1)])
  have rs: "rs = maps" using P(5) mp(1) by (simp add: source_maps_def)
  have cw: "pd_thrd_pid (c_process cw) = ?tids" "c_phdrs cw = []" using S(3) by (simp_all add: P(2))
  let ?order = "thread_order ?ctl ?tids"
  have so: "set ?order = set ?tids" using S(6) by (auto simp: thread_order_def)
  have "c_arch cw < ARCH_MAX" using S(1,2) 1(4) by simp
  moreover have "sized_thread (c_arch cw) (cs_te s tid) \<and> \<not> isl (stored_thread ?env (cs_te s tid) cw tid)" if "tid \<in> set ?order" for tid
    using that S(7) thr [of tid] stored_thread_cong(1) [OF 1(4-6)] 1(4) unfolding so by simp
  moreover have "room st1 (THREAD_COST * length ?order + ?k2)" using 1(3) length_thread_order [OF P(9) S(6)] by simp
  ultimately obtain st2 where 2: "WriteThreads cdc ?env (cs_te s) cw ?order st1 = (Inr (), st2)" "idle st2" "room st2 ?k2"
    using WriteThreads_room [OF ct _ 1(2), of cw ?order "cs_te s" ?env ?k2] by blast
  from WriteLoads_room [where om = "cs_mem s" and pid = ?ctl and k = ?k3 and c = cw, OF ct 2(2) S(8) mp(2,3) fd 2(3)] obtain c' st3 where
    3: "WriteLoads cdc (cs_mem s) ?ctl maps cw st2 = Some (Inr (), c', st3)" "idle st3" "room st3 ?k3" "c_phdrs c' = phs"
    unfolding cw(2) by auto
  have "length (c_phdrs c') < 65535" "room st3 (BLOCK_COST * (2 + length (c_phdrs c')) + ?k4)" using 3(3,4) mp(4) by simp_all
  from WriteElfHeader_room [OF ct 3(2) this] obtain st4 where
    4: "WriteElfHeader cdc (cs_platform s) c' st3 = (Inr (), st4)" "idle st4" "room st4 ?k4" by blast
  from WriteTailMark_room [OF 4(2,3)] obtain st' where 5: "WriteTailMark cdc st4 = (Inr (), st')" "idle st'" "room st' k" by blast
  have "write_acore cdc ?env (cs_te s) (cs_mem s) (cs_platform s) ?ctl c st = Some (Inr (), c', st')"
    by (simp add: write_acore_def 1(1) rs cw(1) 2(1) 3(1) 4(1) 5(1))
  then show ?thesis using 5 by blast
qed

end
