(* ===== verification/DumpProps.thy ===== *)
theory DumpProps
  imports CoreView AtomicProps LoadsRoom
begin

text \<open>
  The main result: a dump, converted, is a core file that shows a debugger the threads and
  the memory of the process.
\<close>

section \<open>The conversion\<close>

lemma read_process_block_phdrs: "read_process_block c b = (Inr (c', n), b') \<Longrightarrow> c_phdrs c' = c_phdrs c"
  by (auto simp: read_process_block_def Let_def split: if_splits option.splits prod.splits)

lemma read_process_files_phdrs: "read_process_files cdc c rd = (Inr c', rd') \<Longrightarrow> c_phdrs c' = c_phdrs c"
  by (auto simp: read_process_files_def Let_def split: if_splits prod.splits)

lemma ReadMeta_phdrs: "ReadMeta cdc c rd = (Inr cr, rd') \<Longrightarrow> c_phdrs cr = c_phdrs c"
  by (auto simp: ReadMeta_def split: if_splits sum.splits option.splits prod.splits
      dest!: read_process_block_phdrs read_process_files_phdrs)

definition mapped_bytes :: "MemRegion list \<Rightarrow> nat" where
  "mapped_bytes rs = sum_list (map (\<lambda>r. unat (end_addr r - start_addr r)) rs)"

lemma load_bytes_mapped:
  "list_all2 (\<lambda>r ph. ph = load_phdr (unat (p_offset ph)) r) rs phs \<Longrightarrow> load_bytes phs \<le> mapped_bytes rs"
proof (induction rule: list_all2_induct)
  case (Cons r rs ph phs)
  have "unat (p_filesz ph) \<le> unat (end_addr r - start_addr r)" by (subst Cons.hyps(1)) simp
  with Cons.IH show ?case by (simp add: mapped_bytes_def)
qed (simp add: mapped_bytes_def)

text \<open>
  What a core file shows: a LOAD segment for every mapping, with its address, size and
  permissions, and the notes; then also the bytes of the memory.
\<close>

definition mapping_at :: "bytes \<Rightarrow> MemRegion \<Rightarrow> Phdr \<Rightarrow> bool" where
  "mapping_at img r ph \<longleftrightarrow>
     p_type ph = PT_LOAD \<and> p_vaddr ph = start_addr r \<and> p_memsz ph = end_addr r - start_addr r \<and> p_flags ph = perms r \<and>
     length (elf_segment img ph) = (if perms r \<noteq> 0 then unat (end_addr r - start_addr r) else 0)"

definition shows_mapping :: "bool \<Rightarrow> (u64 \<Rightarrow> char option) \<Rightarrow> bytes \<Rightarrow> MemRegion \<Rightarrow> Phdr \<Rightarrow> bool" where
  "shows_mapping strict mem img r ph \<longleftrightarrow>
     mapping_at img r ph \<and> shows_mem strict mem (start_addr r) (elf_segment img ph)"

definition core_layout :: "(bytes \<Rightarrow> MemRegion \<Rightarrow> Phdr \<Rightarrow> bool) \<Rightarrow> nat \<Rightarrow> MemRegion list \<Rightarrow> note_spec \<Rightarrow> bytes \<Rightarrow> bool" where
  "core_layout at platform maps sp img \<longleftrightarrow>
     elf_core_of platform img \<and>
     (\<exists>note loads. elf_phdrs img = note # loads \<and> p_type note = PT_NOTE \<and>
        list_all2 (at img) maps loads \<and>
        parse_notes (elf_segment img note) = Some (map (\<lambda>(t, p). (note_name t, t, p)) sp))"

definition core_shows :: "bool \<Rightarrow> nat \<Rightarrow> (u64 \<Rightarrow> char option) \<Rightarrow> MemRegion list \<Rightarrow> note_spec \<Rightarrow> bytes \<Rightarrow> bool" where
  "core_shows strict platform mem maps sp img \<longleftrightarrow> core_layout (shows_mapping strict mem) platform maps sp img"

text \<open>The core of a process with one mapping has a note and a \<^verbatim>\<open>LOAD\<close> segment.\<close>

lemma core_shows_one: "core_shows strict platform mem [r] sp img \<Longrightarrow> elf_core_of platform img \<and> length (elf_phdrs img) = 2"
  by (auto simp: core_shows_def core_layout_def dest!: list_all2_lengthD)

lemma image_layout:
  assumes c: "contiguous 0 phs" "list_all2 (\<lambda>ph bs. length bs = unat (p_filesz ph)) phs datas"
      "load_bytes phs \<le> SSIZE_MAX" "length phs < 65535"
      "list_all2 (\<lambda>r ph. ph = load_phdr (unat (p_offset ph)) r) maps phs"
    and r: "64 + 56 * (length phs + 1) \<le> reserved" "reserved < 4194304" "length (notes_data nts) \<le> INT_MAX"
    and n: "made nts sp"
    and at: "\<And>i ph img. i < length phs \<Longrightarrow> p_vaddr ph = p_vaddr (phs ! i) \<Longrightarrow> elf_segment img ph = datas ! i \<Longrightarrow>
      mapping_at img (maps ! i) ph \<Longrightarrow> at img (maps ! i) ph"
  shows "core_layout at platform maps sp (core_image platform reserved phs (notes_data nts) (concat datas))"
proof -
  let ?img = "core_image platform reserved phs (notes_data nts) (concat datas)"
  let ?note = "note_phdr reserved (length (notes_data nts))" and ?off = "reserved + length (notes_data nts)"
  note R = core_image_reads [OF c(1,2) loads_are_loads [OF c(5)] c(3,4) r, of platform]
  have len: "length maps = length phs" "length phs = length datas" using c(2,5) by (auto dest: list_all2_lengthD)
  have "list_all2 (at ?img) maps (map (place ?off) phs)"
    unfolding list_all2_conv_all_nth
  proof (intro conjI allI impI)
    fix i assume i: "i < length maps"
    have ph: "phs ! i = load_phdr (unat (p_offset (phs ! i))) (maps ! i)" using c(5) i len by (auto simp: list_all2_conv_all_nth)
    have f: "p_type (phs ! i) = PT_LOAD" "p_vaddr (phs ! i) = start_addr (maps ! i)"
      "p_memsz (phs ! i) = end_addr (maps ! i) - start_addr (maps ! i)" "p_flags (phs ! i) = perms (maps ! i)"
      "p_filesz (phs ! i) = (if perms (maps ! i) \<noteq> 0 then end_addr (maps ! i) - start_addr (maps ! i) else 0)"
      by (subst ph, simp)+
    have s: "elf_segment ?img (place ?off (phs ! i)) = datas ! i"
      using arg_cong [OF R(4), of "\<lambda>l. l ! i"] i len by simp
    have d: "length (datas ! i) = unat (p_filesz (phs ! i))"
      using c(2) i len by (auto simp: list_all2_conv_all_nth)
    have "mapping_at ?img (maps ! i) (place ?off (phs ! i))" using f s d i len by (simp add: mapping_at_def)
    from at [OF _ _ s this] show "at ?img (maps ! i) (map (place ?off) phs ! i)" using i len by simp
  qed (simp add: len)
  moreover have "parse_notes (elf_segment ?img ?note) = Some (map (\<lambda>(t, p). (note_name t, t, p)) sp)"
    unfolding R(3) using made_parse [OF n] by (simp add: notes_data_def)
  ultimately show ?thesis unfolding core_layout_def using R(1,2) by auto
qed

lemma image_shows:
  assumes c: "contiguous 0 phs" "captures strict mem phs datas" "load_bytes phs \<le> SSIZE_MAX" "length phs < 65535"
      "list_all2 (\<lambda>r ph. ph = load_phdr (unat (p_offset ph)) r) maps phs"
    and r: "64 + 56 * (length phs + 1) \<le> reserved" "reserved < 4194304" "length (notes_data nts) \<le> INT_MAX"
    and n: "made nts sp"
  shows "core_shows strict platform mem maps sp (core_image platform reserved phs (notes_data nts) (concat datas))"
  unfolding core_shows_def
proof (rule image_layout [OF c(1) _ c(3-5) r n])
  show "list_all2 (\<lambda>ph bs. length bs = unat (p_filesz ph)) phs datas"
    using c(2) unfolding captures_def by (rule list_all2_mono) simp
  fix i ph img
  assume "i < length phs" "p_vaddr ph = p_vaddr (phs ! i)" "elf_segment img ph = datas ! i" "mapping_at img (maps ! i) ph"
  then show "shows_mapping strict mem img (maps ! i) ph"
    using c(2) by (auto simp: shows_mapping_def captures_def list_all2_conv_all_nth mapping_at_def)
qed

text \<open>
  The notes tell what was captured: the process's stat record, its auxiliary vector, its
  file mappings and, in the order of the dump, every thread with its parsed stat record.
\<close>

definition notes_tell ::
    "capture_setup \<Rightarrow> core \<Rightarrow> (nat \<Rightarrow> bool) \<Rightarrow> int \<Rightarrow> MemRegion list \<Rightarrow> note_spec \<Rightarrow> bool" where
  "notes_tell s c mem clk maps sp \<longleftrightarrow>
     (\<exists>pd st auxv a files.
        sp = core_spec mem clk (c_arch c) (c_pid c) (c_crash_sig c) pd st auxv files \<and>
        stored_files (cs_env s) c (cs_control s) pd \<and> pd_auxv pd = Some auxv \<and>
        ProcStat_Parse (ce_host_page (cs_env s)) (pd_stat pd) = Inr st \<and>
        ProcAuxv_Parse (pd_auxv pd) = Inr a \<and> file_payload (av_page_size a) (file_entries maps) = Inr files \<and>
        map (\<lambda>t. Inr (t\<lparr>td_d_stat := None\<rparr>)) (pd_threads pd) =
          map (\<lambda>tid. stored_thread (cs_env s) (cs_te s tid) c tid) (cs_order s (pd_thrd_pid (c_process c))) \<and>
        (\<forall>t \<in> set (pd_threads pd). thread_ready t))"

text \<open>What the converting host has to provide.\<close>

definition converter_sound :: "convert_env \<Rightarrow> string \<Rightarrow> string \<Rightarrow> capture_setup \<Rightarrow> core \<Rightarrow> fs \<Rightarrow> bool" where
  "converter_sound env in_file out s c m \<longleftrightarrow>
     (\<forall>n. cv_mem env n) \<and> cv_host_page env = ce_host_page (cs_env s) \<and> quiet (cv_os env) \<and>
     \<not> same_file (cv_stat env) in_file out \<and> fits_output m out \<and>
     (\<exists>temp. temp_name (cv_os env) out = Inr temp \<and> temp \<noteq> out \<and> m temp = None) \<and>
     (\<exists>f. cv_out env = Some f \<and> fl_data f = [] \<and> fl_flush_ok f \<and> fl_sync_ok f \<and> fl_close_ok f \<and>
        (\<forall>maps. source_maps (cs_env s) c (cs_control s) = Inr maps \<longrightarrow> open_out f (2151677951 + mapped_bytes maps)))"

text \<open>
  The kernel maps files at page boundaries, and there are at most 65533 mappings: one fewer
  than \<^verbatim>\<open>WriteElfHeader\<close> accepts, since \<^verbatim>\<open>decompress\<close> counts the note segment too.
\<close>

definition convertible :: "capture_setup \<Rightarrow> core \<Rightarrow> bool" where
  "convertible s c \<longleftrightarrow>
     (\<forall>maps f a. source_maps (cs_env s) c (cs_control s) = Inr maps \<longrightarrow>
        read_checked (cs_env s) (c_pid c) (cs_control s) PROC_TYPE_AUXV = Inr f \<longrightarrow> ProcAuxv_Parse (Some f) = Inr a \<longrightarrow>
        length maps < 65534 \<and> (\<forall>r \<in> set maps. r_offset r mod av_page_size a = 0))"

lemma stored_files_parsed:
  "stored_files env c source (pd\<lparr>pd_d_maps := a, pd_d_cmdline := b, pd_d_auxv := x, pd_d_stat := y, pd_threads := z\<rparr>) =
     stored_files env c source pd"
  by (simp add: stored_files_def)

lemma write_core_delivered:
  assumes ok: "codec_ok cdc sync" and d: "delivers cdc sync s c cr maps phs datas rd" and cr: "c_phdrs cr = []"
    and snd: "capture_sound s c" "convertible s c" and env: "converter_sound env in_file out s c m" "cv_out env = Some fout"
  shows "\<exists>c' f' img sp fd. write_core cdc env cr rd fout = (Inr (), c', f') \<and> same_sink fout f' \<and> fl_data f' = img \<and>
    cs_mem s (cs_control s) = Some fd \<and> notes_tell s c (cv_mem env) (cv_clk_tck env) maps sp \<and>
    core_shows (undisturbed fd \<and> readable_maps (mf_byte fd) maps) (cs_platform s) (mf_byte fd) maps sp img"
proof -
  let ?env = "cs_env s" and ?ctl = "cs_control s" and ?pl = "cs_platform s"
  let ?order = "cs_order s (pd_thrd_pid (c_process c))"
  have S: "?pl < ARCH_MAX" "c_arch c = ?pl" "valid_core c" "?ctl \<noteq> 0"
    "\<forall>tid \<in> set (pd_thrd_pid (c_process c)). tid \<le> 2147483647 \<and> sized_thread (c_arch c) (cs_te s tid)"
    "?ctl \<in> set (pd_thrd_pid (c_process c))" "length (pd_thrd_pid (c_process c)) \<le> 131072"
    using snd(1) by (auto simp: capture_sound_def)
  from d obtain fd where D: "carries cdc sync ?pl phs (concat datas) rd" "c_pid cr = c_pid c" "c_crash_sig cr = c_crash_sig c"
    "c_arch cr = c_arch c" "stored_files ?env c ?ctl (c_process cr)" "pd_credentials_valid (c_process cr)"
    "map Inr (pd_threads (c_process cr)) = map (\<lambda>tid. stored_thread ?env (cs_te s tid) c tid) ?order"
    "source_maps ?env c ?ctl = Inr maps" "expected_load_phdrs maps = Inr (phs, load_bytes phs)" "phs \<noteq> []" "length phs < 65535"
    "load_bytes phs \<le> SSIZE_MAX" "contiguous 0 phs" "list_all2 (\<lambda>r ph. ph = load_phdr (unat (p_offset ph)) r) maps phs"
    "cs_mem s ?ctl = Some fd" "captures False (mf_byte fd) phs datas"
    "undisturbed fd \<and> readable_maps (mf_byte fd) maps \<longrightarrow> captures True (mf_byte fd) phs datas"
    and ms: "mset ?order = mset (pd_thrd_pid (c_process c))"
    unfolding delivers_def by blast
  let ?hp = "ce_host_page ?env" and ?pd = "c_process cr"
  have so: "set ?order = set (pd_thrd_pid (c_process c))" by (rule mset_eq_setD [OF ms])
  have tids: "\<forall>tid \<in> set ?order. tid \<le> 2147483647 \<and> sized_thread (c_arch c) (cs_te s tid)" "c_arch c < ARCH_MAX"
    using S(1,2,5) unfolding so by simp_all
  obtain maps' argv a st ts f_av where P: "ParseAll ?hp ?pd =
       Inr (?pd\<lparr>pd_d_maps := Some maps', pd_d_cmdline := Some argv, pd_d_auxv := Some a, pd_d_stat := Some st, pd_threads := ts\<rparr>)"
    "source_maps ?env c ?ctl = Inr maps'" "av_page_size a \<noteq> 0" "av_page_size a AND (av_page_size a - 1) = 0"
    "map (\<lambda>t. t\<lparr>td_d_stat := None\<rparr>) ts = pd_threads ?pd" "\<forall>t \<in> set ts. thread_ready t"
    "pd_auxv ?pd = Some f_av" "f_size f_av \<noteq> 0" "length (pf_text f_av) \<le> 1048576"
    "length maps' \<le> 1048576" "sum_list (map (\<lambda>r. length (r_name r)) maps') \<le> 1048576"
    "ProcAuxv_Parse (Some f_av) = Inr a" "ProcStat_Parse ?hp (pd_stat ?pd) = Inr st"
    "read_checked ?env (c_pid c) (source_of ?ctl c) PROC_TYPE_AUXV = Inr f_av"
    by (rule ParseAll_stored [OF D(5) S(3) D(6,7) tids])
  have mp: "maps' = maps" using P(2) D(8) by simp
  let ?pd1 = "?pd\<lparr>pd_d_maps := Some maps, pd_d_cmdline := Some argv, pd_d_auxv := Some a, pd_d_stat := Some st, pd_threads := ts\<rparr>"
  have al: "\<forall>r \<in> set maps. r_offset r mod av_page_size a = 0" and cnt: "length maps < 65534"
    using snd(2) D(8) P(12,14) S(4) by (simp_all add: convertible_def source_of_def)
  have count: "length phs < 65534" using cnt list_all2_lengthD [OF D(14)] by simp
  have "length ts = length ?order" using arg_cong [OF P(5), of length] arg_cong [OF D(7), of length] by simp
  moreover have "length ?order = length (pd_thrd_pid (c_process c))" by (rule mset_eq_length [OF ms])
  ultimately have lt: "length ts \<le> 131072" using S(7) by simp
  have E: "\<forall>n. cv_mem env n" "cv_host_page env = ?hp" "open_out fout (2151677951 + mapped_bytes maps)" "fl_data fout = []"
    using env D(8) by (auto simp: converter_sound_def)
  obtain nb nts where G: "GenerateNotes (cv_mem env) (cv_clk_tck env) (c_arch cr) (c_pid cr) (c_crash_sig cr) ?pd1 = Inr (nb, nts)"
    using notes_of_stored [OF E(1), of ?pd1 maps a st f_av "cv_clk_tck env" "c_arch cr" "c_pid cr" "c_crash_sig cr"]
      P(3,4,6-11) al lt D(6) unfolding mp by auto
  note nb = GenerateNotes_size [OF G]
  obtain s1 auxv files where M: "process_stat ?pd1 (c_pid cr) = Some s1" "pd_auxv ?pd1 = Some auxv"
    "file_payload (av_page_size a) (file_entries maps) = Inr files"
    "made nts (core_spec (cv_mem env) (cv_clk_tck env) (c_arch cr) (c_pid cr) (c_crash_sig cr) ?pd1 s1 auxv files)"
    by (rule GenerateNotes_made [OF G, of maps a]) auto
  let ?sp = "core_spec (cv_mem env) (cv_clk_tck env) (c_arch c) (c_pid c) (c_crash_sig c) ?pd1 st f_av files"
  have mk: "made nts ?sp" using M(1,2,4) P(7) D(2-4) by (simp add: process_stat_def)
  have thr: "map (\<lambda>t. Inr (t\<lparr>td_d_stat := None\<rparr>)) ts =
      map (\<lambda>tid. stored_thread ?env (cs_te s tid) c tid) ?order"
    using arg_cong [OF P(5), of "map Inr"] unfolding map_map comp_def by (rule trans [OF _ D(7)])
  have tell: "notes_tell s c (cv_mem env) (cv_clk_tck env) maps ?sp"
    unfolding notes_tell_def
    by (intro exI [of _ ?pd1] exI [of _ st] exI [of _ f_av] exI [of _ a] exI [of _ files] conjI refl)
      (simp_all add: stored_files_parsed D(5) P(6,7,12,13) M(3) thr)
  have o: "open_out fout (4194304 + nb + load_bytes phs)"
    by (rule open_out_mono [OF E(3)]) (use nb load_bytes_mapped [OF D(14)] in simp)
  have pa: "ParseAll (cv_host_page env) ?pd = Inr ?pd1" using P(1) unfolding E(2) mp .
  obtain R c' f' where W: "write_core cdc env cr rd fout = (Inr (), c', f')"
    "fl_data f' = core_image ?pl R phs (notes_data nts) (concat datas)" "64 + 56 * (length phs + 1) \<le> R" "R < 4194304" "same_sink fout f'"
    using write_core_ok [OF ok D(1) _ S(1) cr pa _ D(9,10) _ captures_length [OF D(16)] G o E(4)] D(4) count S(2) by auto
  have cap: "captures (undisturbed fd \<and> readable_maps (mf_byte fd) maps) (mf_byte fd) phs datas"
    using D(16,17) by (cases "undisturbed fd \<and> readable_maps (mf_byte fd) maps") auto
  have "core_shows (undisturbed fd \<and> readable_maps (mf_byte fd) maps) ?pl (mf_byte fd) maps ?sp (fl_data f')"
    unfolding W(2) by (rule image_shows [OF D(13) cap D(12,11,14) W(3,4) _ mk]) (use nb in simp)
  with W(1,5) tell D(15) show ?thesis by blast
qed

section \<open>The properties\<close>

text \<open>What \<^verbatim>\<open>decompress\<close> makes of the file of a stream that an acore was written to.\<close>

lemma acore_converts:
  assumes "codec_ok cdc sync" "allocates cdc" "capture_sound s c" "threads_fit s c" "convertible s c"
    and "OpenFd cdc info fd (Lz4Stream_new LZ4_Compress) = (Inr (), st0)" "fi_fdopen info = Some f" "at_end f" "fl_data f = []"
    and "WriteFileHeader cdc (cs_platform s) st0 = (Inr (), st1)"
    and "acore_stream cdc s c st1 c' st2"
    and "s_file st2 = Some g" "cv_in env = Some acore" "healthy acore" "fl_seekable acore" "unread acore = fl_data g"
    and "Open cdc (cv_in env) (Some in_file) (Lz4Stream_new LZ4_Decompress) = (Inr (), rd)"
    and "converter_sound env in_file out s c m" "pd_threads (c_process c0) = []"
  shows "\<exists>maps mem sp img node. decompress cdc env in_file (Some out) c0 m = (Inr (), cleanup_decompress node, m(out :=
        Some ((fresh_node (fst (cv_fresh env)) (snd (cv_fresh env)))\<lparr>fn_data := img\<rparr>))) \<and>
    source_maps (cs_env s) c (cs_control s) = Inr maps \<and> cs_mem s (cs_control s) = Some mem \<and>
    notes_tell s c (cv_mem env) (cv_clk_tck env) maps sp \<and>
    core_shows (undisturbed mem \<and> readable_maps (mf_byte mem) maps) (cs_platform s) (mf_byte mem) maps sp img"
proof -
  have cb: "codec_bounds cdc" using assms(1) by (simp add: codec_ok_def)
  note O = opened_out [OF assms(6-8)] and I = opened_in [OF assms(17) [unfolded assms(13)] assms(14) cb]
  have "in_step cdc sync st0 rd (unread acore)"
    by (rule opened_in_step [OF assms(6-8) assms(17) [unfolded assms(13)] assms(14,1)])
  moreover have "new_bytes st0 st2 = fl_data g" using O(4) assms(9,12) by (simp add: new_bytes_def)
  ultimately have stp: "in_step cdc sync st0 rd (new_bytes st0 st2)" using assms(16) by simp
  let ?c0 = "c0\<lparr>c_phdrs := []\<rparr>"
  let ?c1 = "?c0\<lparr>c_arch := cs_platform s, c_version := ACORE_VERSION\<rparr>"
  have thr: "pd_threads (c_process ?c0) = []" using assms(19) by simp
  obtain rd1 cr rd2 maps phs datas where R: "VerifyFileHeader ?c0 rd = (Inr ?c1, rd1)" "ReadMeta cdc ?c1 rd1 = (Inr cr, rd2)"
    "delivers cdc sync s c cr maps phs datas rd2"
    using acore_delivers [OF assms(1,2) O(1-3) assms(3,4,10,11) thr stp I(7) [OF assms(15)] I(6,2,5)] by blast
  have ph: "c_phdrs cr = []" using ReadMeta_phdrs [OF R(2)] by simp
  obtain temp fout where E: "temp_name (cv_os env) out = Inr temp" "temp \<noteq> out" "m temp = None" "cv_out env = Some fout"
    "quiet (cv_os env)" "fits_output m out" "\<not> same_file (cv_stat env) in_file out"
    "fl_flush_ok fout" "fl_sync_ok fout" "fl_close_ok fout"
    using assms(18) by (auto simp: converter_sound_def)
  obtain c3 f' img sp mem where W: "write_core cdc env cr rd2 fout = (Inr (), c3, f')" "same_sink fout f'" "fl_data f' = img"
    "cs_mem s (cs_control s) = Some mem" "notes_tell s c (cv_mem env) (cv_clk_tck env) maps sp"
    "core_shows (undisturbed mem \<and> readable_maps (mf_byte mem) maps) (cs_platform s) (mf_byte mem) maps sp img"
    using write_core_delivered [OF assms(1) R(3) ph assms(3,5,18) E(4)] by blast
  let ?node = "fresh_node (fst (cv_fresh env)) (snd (cv_fresh env))"
  have op: "open_atomic_file (cv_os env) (cv_fresh env) (cv_out env) out m =
      (Inr (fout, temp, output_state m out), m(temp := Some ?node))"
    using create_quiet [OF E(5,1,6), of "cv_fresh env"] by (simp add: open_atomic_file_def E(4))
  have cm: "commit_atomic_file (cv_os env) f' temp out (output_state m out) (m(temp := Some ?node)) =
      (Inr (), m(out := Some (?node\<lparr>fn_data := fl_data f'\<rparr>)))"
    by (rule commit_file_quiet [OF E(5,2,3,6)]) (use W(2) E(8-10) in \<open>simp_all add: same_sink_def\<close>)
  have "decompress cdc env in_file (Some out) c0 m =
      (Inr (), cleanup_decompress c3, m(out := Some (?node\<lparr>fn_data := img\<rparr>)))"
    using E(7) by (simp add: decompress_def assms(17) R(1,2) op W(1,3) cm)
  moreover have "source_maps (cs_env s) c (cs_control s) = Inr maps" using R(3) by (simp add: delivers_def)
  ultimately show ?thesis using W(4-6) by blast
qed

text \<open>The process of \<open>sample_env\<close>, with one readable page, dumped and converted.\<close>

definition sample_mem :: mem_fd where
  "sample_mem = \<lparr>mf_byte = \<lambda>a. Some (CHR ''m''), mf_events = []\<rparr>"

definition sample_setup :: capture_setup where
  "sample_setup = \<lparr>cs_env = sample_env, cs_te = sample_te, cs_mem = \<lambda>pid. Some sample_mem, cs_platform = ARCH_AARCH64, cs_control = 7, cs_order = thread_order 7\<rparr>"

definition sample_region :: MemRegion where
  "sample_region = \<lparr>start_addr = 0x1000, end_addr = 0x2000, r_offset = 0, dev_major = 0, dev_minor = 0, inode = 0,
     perms = 5, is_private = True, is_shared = False, r_name = []\<rparr>"

lemma sample_source_maps: "source_maps sample_env sample_core 7 = Inr [sample_region]"
  by code_simp

lemma sample_stored_thread:
  "\<exists>t. stored_thread sample_env (sample_te 7) sample_core 7 = Inr t \<and> signal_fits sample_core 0 t \<and>
     thread_cost (c_arch sample_core) t \<le> 2000"
  using sample_thread_stored [of sample_core] by (simp add: sample_core_def Coredump_new_def)

lemma sample_setup_facts:
  "capture_sound sample_setup sample_core" "threads_fit sample_setup sample_core" "convertible sample_setup sample_core"
  "proc_readable sample_env sample_core 7" "pd_thrd_pid (c_process sample_core) = [7]"
proof -
  have tid: "pd_thrd_pid (c_process sample_core) = [7]" by (simp add: sample_core_def ProcessData_new_def)
  then show "pd_thrd_pid (c_process sample_core) = [7]" .
  show "proc_readable sample_env sample_core 7"
    using sample_readable by (simp add: proc_readable_def source_of_def sample_core_def Coredump_new_def)
  show "capture_sound sample_setup sample_core"
    using sample_facts sample_source_maps
    by (simp add: capture_sound_def sample_setup_def tid bounded_maps_def sample_region_def) (simp add: sample_core_def Coredump_new_def)
  obtain t where t: "stored_thread sample_env (sample_te 7) sample_core 7 = Inr t" "signal_fits sample_core 0 t"
    "thread_cost (c_arch sample_core) t \<le> 2000" using sample_stored_thread by blast
  then show "threads_fit sample_setup sample_core"
    by (simp add: threads_fit_def sample_setup_def tid thread_order_def signals_fit_def stored_cost_def)
  show "convertible sample_setup sample_core"
    using sample_source_maps by (simp add: convertible_def sample_setup_def sample_region_def)
qed

lemma sample_phdrs:
  "expected_load_phdrs [sample_region] = Inr ([load_phdr 0 sample_region], 4096)"
  "loads_cost [load_phdr 0 sample_region] = 131632"
proof -
  show "expected_load_phdrs [sample_region] = Inr ([load_phdr 0 sample_region], 4096)"
    by (simp add: expected_load_phdrs_def sample_region_def Let_def)
  show "loads_cost [load_phdr 0 sample_region] = 131632"
    by (simp add: loads_cost_def sample_region_def blocks_of_small)
qed

definition sample_start :: "(nat, nat) stream" where
  "sample_start = snd (WriteFileHeader counted ARCH_AARCH64 new_out)"

lemma sample_start_facts:
  "WriteFileHeader counted ARCH_AARCH64 new_out = (Inr (), sample_start)" "idle sample_start" "room sample_start 9999992"
proof -
  have "fst (WriteFileHeader counted ARCH_AARCH64 new_out) = Inr ()" by code_simp
  then show w: "WriteFileHeader counted ARCH_AARCH64 new_out = (Inr (), sample_start)" by (simp add: sample_start_def prod_eq_iff)
  show "idle sample_start" by (rule WriteFileHeader_Inr [OF w new_out_idle(1)]) (simp_all add: new_out_eq Lz4Stream_new_def)
  have "map_option (\<lambda>f. (fl_err f, length (fl_data f), fl_limit f)) (s_file sample_start) = Some (False, 8, 10000000)" by code_simp
  then show "room sample_start 9999992" by (auto simp: room_def)
qed

lemma sample_dump_facts:
  "cs_env sample_setup = sample_env" "cs_te sample_setup = sample_te" "cs_control sample_setup = 7"
  "cs_mem sample_setup = (\<lambda>pid. Some sample_mem)" "cs_platform sample_setup = ARCH_AARCH64"
  by (simp_all add: sample_setup_def)

lemma sample_dump_premises:
  "room sample_start (dump_cost (length (pd_thrd_pid (c_process sample_core))) [load_phdr 0 sample_region] + 0)"
  "proc_readable (cs_env sample_setup) sample_core (cs_control sample_setup)"
  "tid \<in> set (pd_thrd_pid (c_process sample_core)) \<Longrightarrow>
     \<not> isl (stored_thread (cs_env sample_setup) (cs_te sample_setup tid) sample_core tid)"
  "source_maps (cs_env sample_setup) sample_core (cs_control sample_setup) = Inr [sample_region]"
  "cs_mem sample_setup (cs_control sample_setup) = Some sample_mem" "undisturbed sample_mem"
  "readable_maps (mf_byte sample_mem) [sample_region]"
proof -
  show "room sample_start (dump_cost (length (pd_thrd_pid (c_process sample_core))) [load_phdr 0 sample_region] + 0)"
    using room_mono [OF sample_start_facts(3)] by (simp add: sample_setup_facts(5) sample_phdrs(2))
  show "tid \<in> set (pd_thrd_pid (c_process sample_core)) \<Longrightarrow>
     \<not> isl (stored_thread (cs_env sample_setup) (cs_te sample_setup tid) sample_core tid)"
    using sample_stored_thread by (auto simp: sample_setup_facts(5) sample_dump_facts)
qed (simp_all add: sample_dump_facts sample_setup_facts(4) sample_source_maps undisturbed_def readable_maps_def
       readable_range_def sample_mem_def)

text \<open>The converting host; \<open>bs\<close> is the content of the acore file.\<close>

definition sample_convert :: "bytes \<Rightarrow> convert_env" where
  "sample_convert bs = \<lparr>cv_in = Some (disk bs), cv_out = Some ((disk [])\<lparr>fl_limit := 3000000000\<rparr>), cv_fresh = (1, 5),
     cv_stat = \<lambda>p. None, cv_os = calm_os, cv_mem = \<lambda>n. True, cv_clk_tck = 100, cv_host_page = 4096\<rparr>"

lemma sample_converter: "converter_sound (sample_convert bs) ''acore'' ''core'' sample_setup sample_core Map.empty"
proof -
  have "quiet calm_os" by (simp add: quiet_def alone_def calm_os_def)
  moreover have "temp_name calm_os ''core'' = Inr ''core.tmp.XXXXXX1''" by code_simp
  moreover have "ce_host_page sample_env = 4096" by (simp add: sample_env_def)
  ultimately show ?thesis
    by (auto simp: converter_sound_def sample_convert_def sample_dump_facts sample_source_maps
        same_file_def fits_output_def open_out_def at_end_def disk_def mapped_bytes_def sample_region_def)
qed

end
