(* ===== verification/ConvertProps.thy ===== *)
theory ConvertProps
  imports DumpProps
begin

text \<open>
  What a successful conversion has produced, whatever bytes the acore file holds; and what a
  failed one leaves behind.
\<close>

section \<open>The file a successful conversion wrote\<close>

lemma fwrite_all:
  "fwrite bs f = (length bs, f') \<Longrightarrow>
     fl_data f' = take (fl_pos f) (fl_data f) @ bs @ drop (fl_pos f + length bs) (fl_data f) \<and> fl_pos f' = fl_pos f + length bs"
  by (auto simp: fwrite_def Let_def)

lemma makeroom_sound:
  "makeroom f n = (Inr (), f') \<Longrightarrow> at_end f \<Longrightarrow> at_end f' \<and> fl_data f' = fl_data f @ replicate n NUL"
proof (induction f n arbitrary: f' rule: makeroom.induct)
  case (1 f n)
  show ?case
  proof (cases "n = 0")
    case True
    then show ?thesis using "1.prems" by (subst (asm) makeroom.simps) auto
  next
    case False
    obtain k f1 where w: "fwrite (replicate (min PAGE_SIZE n) NUL) f = (k, f1)" by fastforce
    then have r: "k \<noteq> 0" "makeroom f1 (n - k) = (Inr (), f')"
      using "1.prems"(1) False by (subst (asm) makeroom.simps, auto split: if_splits)+
    note F = fwrite_at_end [OF w "1.prems"(2)]
    then have k: "k \<le> n" "take k (replicate (min PAGE_SIZE n) NUL) = replicate k NUL" by auto
    have "at_end f' \<and> fl_data f' = fl_data f1 @ replicate (n - k) NUL"
      by (rule "1.IH" [OF False w [symmetric] refl r(1,2)]) (use F in blast)
    moreover have "replicate k NUL @ replicate (n - k) NUL = replicate n NUL" using k(1) by (simp flip: replicate_add)
    ultimately show ?thesis using F k(2) by simp
  qed
qed

lemma fwrite_notes_sound:
  "fwrite_notes nts f = (Inr (), f') \<Longrightarrow> at_end f \<Longrightarrow> at_end f' \<and> fl_data f' = fl_data f @ notes_data nts"
proof (induction nts arbitrary: f)
  case (Cons nt nts)
  obtain f1 where w: "fwrite (nt_data nt) f = (length (nt_data nt), f1)" "fwrite_notes nts f1 = (Inr (), f')"
    using Cons.prems(1) by (auto simp: Let_def split: prod.splits if_splits)
  note F = fwrite_full [OF w(1) Cons.prems(2)]
  from Cons.IH [OF w(2) F(2)] F(1) show ?case by (simp add: notes_data_def)
qed (simp add: notes_data_def)

text \<open>
  The memory section of an acore file: the payloads of the consecutive \<^verbatim>\<open>LOADS\<close> blocks from
  the place the reader has reached, up to the first block of another type.
\<close>

definition loads_next :: "bytes \<Rightarrow> bool" where
  "loads_next h \<longleftrightarrow> length h = sizeof_BlockHeader \<and> unat (hdr_type (get_hdr h)) = block_code BLOCK_TYPE_LOADS"

inductive loads_section :: "('e, 'd) lz4_codec \<Rightarrow> ('e, 'd) stream \<Rightarrow> bytes \<Rightarrow> bool" for cdc where
  Over: "Peek sizeof_BlockHeader st = (Inr h, st1) \<Longrightarrow> \<not> loads_next h \<Longrightarrow> loads_section cdc st []"
| Block: "Peek sizeof_BlockHeader st = (Inr h, st1) \<Longrightarrow> loads_next h \<Longrightarrow> ReadBlock cdc st1 = (Some (hdr, b), st2) \<Longrightarrow>
    loads_section cdc st2 bs \<Longrightarrow> loads_section cdc st (block_rest b @ bs)"

lemma ReadLoads_sound:
  "ReadLoads_loop cdc m n f st = (Inr k, f', st') \<Longrightarrow> at_end f \<Longrightarrow> n \<le> m \<Longrightarrow>
     n \<le> k \<and> k \<le> m \<and> at_end f' \<and> (\<exists>bs. fl_data f' = fl_data f @ bs \<and> length bs = k - n \<and> loads_section cdc st bs)"
proof (induction cdc m n f st arbitrary: f' rule: ReadLoads_loop.induct)
  case (1 cdc m n f st)
  obtain x st1 where p: "Peek sizeof_BlockHeader st = (x, st1)" by fastforce
  then obtain h where h: "x = Inr h"
    using "1.prems"(1) by (subst (asm) ReadLoads_loop.simps) (auto split: sum.splits)
  show ?case
  proof (cases "length h \<noteq> sizeof_BlockHeader \<or> unat (hdr_type (get_hdr h)) \<noteq> block_code BLOCK_TYPE_LOADS")
    case True
    then have "k = n" "f' = f" using "1.prems"(1) p h by (subst (asm) ReadLoads_loop.simps, auto split: if_splits)+
    moreover have "loads_section cdc st []" by (rule Over) (use p h True in \<open>auto simp: loads_next_def\<close>)
    ultimately show ?thesis using "1.prems"(2,3) by auto
  next
    case False
    obtain y st2 where r: "ReadBlock cdc st1 = (y, st2)" by fastforce
    obtain hdr b where y: "y = Some (hdr, b)"
      using "1.prems"(1) p h r False by (subst (asm) ReadLoads_loop.simps) (auto split: option.splits)
    obtain j f1 where w: "fwrite (block_rest b) f = (j, f1)" by fastforce
    have len: "length (block_rest b) = Block_Size b" by (simp add: block_rest_def Block_Size_def)
    have c: "\<not> (n > m \<or> Block_Size b > m - n)" "j = Block_Size b" "\<not> Block_Size b > SSIZE_MAX - n"
      "ReadLoads_loop cdc m (n + Block_Size b) f1 st2 = (Inr k, f', st')"
      using "1.prems"(1) p h r False y w by (subst (asm) ReadLoads_loop.simps, auto split: if_splits)+
    have full: "fwrite (block_rest b) f = (length (block_rest b), f1)" using w c(2) len by simp
    note F = fwrite_full [OF full "1.prems"(2)]
    have "n + Block_Size b \<le> m" using c(1) by auto
    note I = "1.IH" [OF p [symmetric] h _ _ r [symmetric] y refl c(1) refl w [symmetric] _ c(3,4) F(2) this]
    then obtain bs where I: "n + Block_Size b \<le> k" "k \<le> m" "at_end f'" "fl_data f' = fl_data f1 @ bs"
      "length bs = k - (n + Block_Size b)" "loads_section cdc st2 bs"
      using False c(2) by blast
    have "loads_section cdc st (block_rest b @ bs)"
      by (rule loads_section.Block [OF _ _ _ I(6)]) (use p h False r y in \<open>auto simp: loads_next_def\<close>)
    then show ?thesis using F(1) len I(1-5) by (intro conjI exI [of _ "block_rest b @ bs"]) auto
  qed
qed

lemma fwrite_phdrs_sound:
  "fwrite_phdrs (int off) phs rc f = (Inr n, f') \<Longrightarrow> fl_pos f + 56 * length phs \<le> length (fl_data f) \<Longrightarrow>
     fl_data f' = take (fl_pos f) (fl_data f) @ phdr_bytes (map (place off) phs) @ drop (fl_pos f + 56 * length phs) (fl_data f)"
proof (induction phs arbitrary: rc f)
  case (Cons ph phs)
  have pl: "ph1 = place off ph" if "load_offset (int off) ph = Inr ph1" for ph1
    using that by (auto simp: load_offset_def place_def split: if_splits)
  obtain f1 where w: "fwrite (put_phdr (place off ph)) f = (length (put_phdr (place off ph)), f1)"
    "fwrite_phdrs (int off) phs (rc + 56) f1 = (Inr n, f')"
    using Cons.prems(1) pl by (auto simp: Let_def split: sum.splits prod.splits if_splits)
  note F = fwrite_all [OF w(1)]
  have p: "fl_pos f \<le> length (fl_data f)" using Cons.prems(2) by simp
  have "fl_pos f1 + 56 * length phs \<le> length (fl_data f1)" using F Cons.prems(2) by simp
  from Cons.IH [OF w(2) this] show ?case using F p by (simp add: add.commute) (simp only: add.assoc)
qed simp

lemma write_core_Inr:
  assumes "write_core cdc env c rd fout = (Inr (), c', f')"
  obtains p pd phs n R f1 p1 nb nts f2 p2 k f3 rd1 c4 rd2 f4 j where
    "ftell fout = Some p" "ParseAll (cv_host_page env) (c_process c) = Inr pd"
    "expected_load_phdrs (case pd_d_maps pd of None \<Rightarrow> [] | Some rs \<Rightarrow> rs) = Inr (phs, n)" "phs \<noteq> []" "length phs + 1 < 65535"
    "header_room (length phs + 1) = Inr R" "makeroom fout R = (Inr (), f1)" "ftell f1 = Some p1"
    "GenerateNotes (cv_mem env) (cv_clk_tck env) (c_arch c) (c_pid c) (c_crash_sig c) pd = Inr (nb, nts)"
    "fwrite_notes nts f1 = (Inr (), f2)" "ftell f2 = Some p2" "ReadLoads cdc n f2 rd = (Inr k, f3, rd1)"
    "ReadElfHeader cdc (length phs + 1) (c\<lparr>c_process := pd, c_notes := nts, c_phdrs := c_phdrs c @ [note_phdr p1 nb],
       c_offset_load := int p2\<rparr>) rd1 = (Inr (), c4, rd2)"
    "phdrs_match (c_ehdr c4) (c_phdrs c4) phs" "check_extents k (int p2) (c_phdrs c4) 0 0 = Inr k" "fseek p f3 = Some f4"
    "WriteElfHeader_core c4 f4 = (Inr j, f')" "c' = c4" "fst (input_complete cdc rd2)"
proof -
  obtain p where 1: "ftell fout = Some p" using assms by (auto simp: write_core_def split: option.splits)
  obtain pd where 2: "ParseAll (cv_host_page env) (c_process c) = Inr pd"
    using assms 1 by (auto simp: write_core_def split: sum.splits)
  obtain phs n where 3: "expected_load_phdrs (case pd_d_maps pd of None \<Rightarrow> [] | Some rs \<Rightarrow> rs) = Inr (phs, n)"
    using assms 1 2 by (auto simp: write_core_def Let_def split: sum.splits)
  have 4: "phs \<noteq> []" "length phs + 1 < 65535"
    using assms 1 2 3 by (auto simp: write_core_def Let_def split: if_splits)
  obtain R where 5: "header_room (length phs + 1) = Inr R"
    using assms 1 2 3 4 by (auto simp: write_core_def Let_def split: sum.splits)
  obtain f1 where 6: "makeroom fout R = (Inr (), f1)"
    using assms 1 2 3 4 5 [simplified] by (auto simp: write_core_def Let_def split: sum.splits prod.splits)
  obtain p1 where 7: "ftell f1 = Some p1"
    using assms 1 2 3 4 5 [simplified] 6 by (auto simp: write_core_def Let_def split: option.splits)
  obtain nb nts where 8: "GenerateNotes (cv_mem env) (cv_clk_tck env) (c_arch c) (c_pid c) (c_crash_sig c) pd = Inr (nb, nts)"
    using assms 1 2 3 4 5 [simplified] 6 7 by (auto simp: write_core_def Let_def split: sum.splits)
  obtain f2 where 9: "fwrite_notes nts f1 = (Inr (), f2)"
    using assms 1 2 3 4 5 [simplified] 6 7 8 by (auto simp: write_core_def Let_def split: sum.splits prod.splits)
  obtain p2 where 10: "ftell f2 = Some p2"
    using assms 1 2 3 4 5 [simplified] 6 7 8 9 by (auto simp: write_core_def Let_def split: option.splits)
  obtain k f3 rd1 where 11: "ReadLoads cdc n f2 rd = (Inr k, f3, rd1)"
    using assms 1 2 3 4 5 [simplified] 6 7 8 9 10 by (auto simp: write_core_def Let_def split: sum.splits prod.splits)
  let ?c = "c\<lparr>c_process := pd, c_notes := nts, c_phdrs := c_phdrs c @ [note_phdr p1 nb], c_offset_load := int p2\<rparr>"
  obtain c4 rd2 where 12: "ReadElfHeader cdc (length phs + 1) ?c rd1 = (Inr (), c4, rd2)"
    using assms 1 2 3 4 5 [simplified] 6 7 8 9 10 11 by (auto simp: write_core_def Let_def split: sum.splits prod.splits)
  have w: "(if \<not> phdrs_match (c_ehdr c4) (c_phdrs c4) phs then (Inl EFAIL, c4, f3)
     else (case check_extents k (int p2) (c_phdrs c4) 0 0 of
        Inl e \<Rightarrow> (Inl e, c4, f3)
      | Inr e \<Rightarrow> if k \<noteq> e then (Inl EFAIL, c4, f3)
         else (case fseek p f3 of
            None \<Rightarrow> (Inl EFAIL, c4, f3)
          | Some f4 \<Rightarrow> (case WriteElfHeader_core c4 f4 of
              (Inl e, f5) \<Rightarrow> (Inl e, c4, f5)
            | (Inr _, f5) \<Rightarrow> if fst (input_complete cdc rd2) then (Inr (), c4, f5) else (Inl EFAIL, c4, f5))))) = (Inr (), c', f')"
    using assms 1 2 3 4 5 [simplified] 6 7 8 9 10 11 12 [simplified] by (simp add: write_core_def Let_def)
  have v1: "phdrs_match (c_ehdr c4) (c_phdrs c4) phs" using w by (auto split: if_splits)
  have v2: "check_extents k (int p2) (c_phdrs c4) 0 0 = Inr k"
    using w v1 by (cases "check_extents k (int p2) (c_phdrs c4) 0 0") (auto split: if_splits)
  obtain f4 where v3: "fseek p f3 = Some f4" using w v1 v2 by (cases "fseek p f3") auto
  obtain y f5 where y: "WriteElfHeader_core c4 f4 = (y, f5)" by fastforce
  obtain j where j: "y = Inr j" using w v1 v2 v3 y by (cases y) auto
  have v: "WriteElfHeader_core c4 f4 = (Inr j, f')" "c' = c4" "fst (input_complete cdc rd2)"
    using w v1 v2 v3 y j by (simp_all split: if_splits)
  show ?thesis by (rule that [OF 1 2 3 4 5 6 7 8 9 10 11 12 v1 v2 v3 v])
qed

text \<open>The checks on the program headers make the written bytes the sum of the segments.\<close>

definition adds_loads :: "nat \<Rightarrow> Phdr list \<Rightarrow> Phdr list \<Rightarrow> bool" where
  "adds_loads m phs phs' \<longleftrightarrow>
     (\<exists>new. phs' = phs @ new \<and> (\<forall>ph \<in> set new. p_type ph = PT_LOAD)) \<and> length phs' \<le> max m (length phs)"

lemma adds_loads_refl: "adds_loads m phs phs"
  by (simp add: adds_loads_def)

lemma adds_loads_trans: "adds_loads m a b \<Longrightarrow> adds_loads m b c \<Longrightarrow> adds_loads m a c"
  by (auto simp: adds_loads_def)

lemma read_phdrs_adds: "read_phdrs m phs b = (r, phs', b') \<Longrightarrow> adds_loads m phs phs'"
proof (induction m phs b arbitrary: r phs' b' rule: read_phdrs.induct)
  case (1 m phs b)
  show ?case
  proof (cases "Block_Size b = 0 \<or> length phs \<ge> m")
    case True
    then show ?thesis using "1.prems" adds_loads_refl by (subst (asm) read_phdrs.simps) (auto split: if_splits)
  next
    case False
    obtain x b1 where rd: "Block_Read sizeof_Phdr b = (x, b1)" by fastforce
    show ?thesis
    proof (cases "\<exists>bs. x = Inr bs \<and> p_type (get_phdr bs) = PT_LOAD")
      case True
      then obtain bs where x: "x = Inr bs" "p_type (get_phdr bs) = PT_LOAD" by blast
      have r: "read_phdrs m (phs @ [get_phdr bs]) b1 = (r, phs', b')"
        using "1.prems" False rd x by (subst (asm) read_phdrs.simps) simp
      have "adds_loads m phs (phs @ [get_phdr bs])" using False x(2) by (auto simp: adds_loads_def)
      moreover have "adds_loads m (phs @ [get_phdr bs]) phs'"
        by (rule "1.IH" [OF _ _ rd [symmetric] x(1) _ r]) (use False x(2) in simp_all)
      ultimately show ?thesis by (rule adds_loads_trans)
    next
      case no: False
      then show ?thesis using "1.prems" False rd adds_loads_refl
        by (subst (asm) read_phdrs.simps) (auto split: sum.splits if_splits)
    qed
  qed
qed

lemma elf_blocks_adds: "elf_blocks cdc m phs b st = (r, phs', st') \<Longrightarrow> adds_loads m phs phs'"
proof (induction cdc m phs b st arbitrary: r phs' st' rule: elf_blocks.induct)
  case (1 cdc m phs b st)
  obtain x phs1 b1 where x: "read_phdrs m phs b = (x, phs1, b1)" by (metis surj_pair)
  note X = read_phdrs_adds [OF x]
  obtain y st1 where y: "Peek sizeof_BlockHeader (set_block b1 st) = (y, st1)" by fastforce
  obtain z st2 where z: "ReadBlock cdc st1 = (z, st2)" by fastforce
  have e: "elf_blocks cdc m phs b st =
     (case x of
        Inl e \<Rightarrow> (Inl e, phs1, set_block b1 st)
      | Inr _ \<Rightarrow>
          (case y of
             Inl e \<Rightarrow> (Inl e, phs1, st1)
           | Inr h \<Rightarrow>
               if length h \<noteq> sizeof_BlockHeader then (Inr (), phs1, st1)
               else if unat (hdr_type (get_hdr h)) \<noteq> block_code BLOCK_TYPE_ELF then (Inr (), phs1, st1)
               else
                 (case z of
                    None \<Rightarrow> (Inl EFAIL, phs1, st2)
                  | Some (hdr, b2) \<Rightarrow> elf_blocks cdc m phs1 b2 st2)))"
    by (subst elf_blocks.simps) (simp only: x y z prod.case split: sum.split option.split)
  show ?case
  proof (cases "\<exists>u h hdr b2. x = Inr u \<and> y = Inr h \<and> length h = sizeof_BlockHeader \<and>
      unat (hdr_type (get_hdr h)) = block_code BLOCK_TYPE_ELF \<and> z = Some (hdr, b2)")
    case True
    then obtain u h hdr b2 where c: "x = Inr u" "y = Inr h" "length h = sizeof_BlockHeader"
      "unat (hdr_type (get_hdr h)) = block_code BLOCK_TYPE_ELF" "z = Some (hdr, b2)" by blast
    have r: "elf_blocks cdc m phs1 b2 st2 = (r, phs', st')" using "1.prems" c unfolding e by simp
    have "adds_loads m phs1 phs'"
      by (rule "1.IH" [OF x [symmetric] c(1) refl y [symmetric] c(2) _ _ z [symmetric] c(5) refl r]) (use c in simp_all)
    then show ?thesis using adds_loads_trans [OF X] by blast
  next
    case False
    then have "phs' = phs1" using "1.prems" unfolding e by (auto split: sum.splits if_splits option.splits prod.splits)
    then show ?thesis using X by simp
  qed
qed

lemma ReadElfHeader_sound:
  assumes "ReadElfHeader cdc m c rd = (Inr (), c', rd')"
  shows "\<not> machine_mismatch c (c_ehdr c')" "\<not> bad_ehdr (c_ehdr c')" "adds_loads m (c_phdrs c) (c_phdrs c')"
    "c' = c\<lparr>c_ehdr := c_ehdr c', c_phdrs := c_phdrs c'\<rparr>"
  using assms
  by (auto simp: ReadElfHeader_def Let_def split: option.splits prod.splits if_splits sum.splits dest: elf_blocks_adds)

lemma check_extents_total:
  "check_extents k off phs a b = Inr e \<Longrightarrow> \<forall>ph \<in> set phs. p_type ph = PT_LOAD \<Longrightarrow> e = a + load_bytes phs"
proof (induction phs arbitrary: a b)
  case (Cons ph phs)
  then have "check_extents k off phs (a + unat (p_filesz ph)) (unat (p_offset ph) + unat (p_filesz ph)) = Inr e"
    by (auto simp: Let_def split: if_splits)
  from Cons.IH [OF this] Cons.prems(2) show ?case by simp
qed simp

lemma split_loads: "length bs = load_bytes phs \<Longrightarrow>
    \<exists>datas. concat datas = bs \<and> list_all2 (\<lambda>ph d. length d = unat (p_filesz ph)) phs datas"
proof (induction phs arbitrary: bs)
  case (Cons ph phs)
  let ?n = "unat (p_filesz ph)"
  have "length (drop ?n bs) = load_bytes phs" using Cons.prems by simp
  from Cons.IH [OF this] obtain ds where "concat ds = drop ?n bs" "list_all2 (\<lambda>ph d. length d = unat (p_filesz ph)) phs ds" by blast
  then show ?case using Cons.prems by (intro exI [of _ "take ?n bs # ds"]) simp
qed simp

lemma parse_process_stat_keeps: "parse_process_stat h pd = Inr pd' \<Longrightarrow> pd_d_maps pd' = pd_d_maps pd \<and> pd_d_auxv pd' = pd_d_auxv pd \<and> pd_maps pd' = pd_maps pd"
  by (auto simp: parse_process_stat_def split: option.splits sum.splits if_splits)

lemma ParseAll_maps:
  assumes "ParseAll h pd = Inr pd'"
  obtains maps a where "ProcMaps_Parse (pd_maps pd) = Inr maps" "maps \<noteq> []" "pd_d_maps pd' = Some maps" "pd_d_auxv pd' = Some a"
    "pd_maps pd' = pd_maps pd"
proof -
  obtain maps argv a pd1 where p: "ProcMaps_Parse (pd_maps pd) = Inr maps" "maps \<noteq> []"
    "parse_process_stat h (pd\<lparr>pd_d_maps := Some maps, pd_d_cmdline := Some argv, pd_d_auxv := Some a\<rparr>) = Inr pd1"
    "pd_d_maps pd' = pd_d_maps pd1" "pd_d_auxv pd' = pd_d_auxv pd1" "pd_maps pd' = pd_maps pd1"
    using assms unfolding ParseAll_def ebind_eq_Inr by (auto simp: ebind_eq_Inr Let_def split: if_splits)
  from parse_process_stat_keeps [OF p(3)] p show ?thesis by (intro that) auto
qed

lemma write_core_sound:
  assumes w: "write_core cdc env c rd fout = (Inr (), c', f')" and f: "at_end fout" "fl_data fout = []"
    and c: "c_phdrs c = []" "c_arch c < ARCH_MAX"
  obtains pd maps phs R nb nts datas where "ParseAll (cv_host_page env) (c_process c) = Inr pd" "pd_d_maps pd = Some maps"
    "expected_load_phdrs maps = Inr (phs, load_bytes phs)" "length phs < 65534" "phs \<noteq> []"
    "GenerateNotes (cv_mem env) (cv_clk_tck env) (c_arch c) (c_pid c) (c_crash_sig c) pd = Inr (nb, nts)"
    "list_all2 (\<lambda>ph d. length d = unat (p_filesz ph)) phs datas" "64 + 56 * (length phs + 1) \<le> R" "R < 4194304"
    "fl_data f' = core_image (c_arch c) R phs (notes_data nts) (concat datas)" "loads_section cdc rd (concat datas)"
proof -
  obtain p pd phs n R f1 p1 nb nts f2 p2 k f3 rd1 c4 rd2 f4 j where W:
    "ftell fout = Some p" "ParseAll (cv_host_page env) (c_process c) = Inr pd"
    "expected_load_phdrs (case pd_d_maps pd of None \<Rightarrow> [] | Some rs \<Rightarrow> rs) = Inr (phs, n)" "phs \<noteq> []" "length phs + 1 < 65535"
    "header_room (length phs + 1) = Inr R" "makeroom fout R = (Inr (), f1)" "ftell f1 = Some p1"
    "GenerateNotes (cv_mem env) (cv_clk_tck env) (c_arch c) (c_pid c) (c_crash_sig c) pd = Inr (nb, nts)"
    "fwrite_notes nts f1 = (Inr (), f2)" "ftell f2 = Some p2" "ReadLoads cdc n f2 rd = (Inr k, f3, rd1)"
    "ReadElfHeader cdc (length phs + 1) (c\<lparr>c_process := pd, c_notes := nts, c_phdrs := c_phdrs c @ [note_phdr p1 nb],
       c_offset_load := int p2\<rparr>) rd1 = (Inr (), c4, rd2)"
    "phdrs_match (c_ehdr c4) (c_phdrs c4) phs" "check_extents k (int p2) (c_phdrs c4) 0 0 = Inr k" "fseek p f3 = Some f4"
    "WriteElfHeader_core c4 f4 = (Inr j, f')" "c' = c4" "fst (input_complete cdc rd2)"
    by (rule write_core_Inr [OF w])
  obtain maps where maps: "pd_d_maps pd = Some maps" using ParseAll_maps [OF W(2)] by blast
  have e: "expected_load_phdrs maps = Inr (phs, n)" using W(3) maps by simp
  have L: "n = load_bytes phs" "list_all2 (\<lambda>r ph. ph = load_phdr (unat (p_offset ph)) r) maps phs"
    using load_phdrs_layout [of 0 maps phs n] e by (auto simp: expected_load_phdrs_def)
  obtain R' where R: "header_room (length phs + 1) = Inr R'" "64 + 56 * (length phs + 1) \<le> R'" "R' < 4194304"
    by (rule header_room_ok [of "length phs + 1"]) (use W(5) in auto)
  then have R: "64 + 56 * (length phs + 1) \<le> R" "R < 4194304" using W(6) by simp_all
  have p0: "p = 0" using W(1) f by (simp add: ftell_def at_end_def split: if_splits)
  have f1: "at_end f1" "fl_data f1 = replicate R NUL" using makeroom_sound [OF W(7) f(1)] f(2) by auto
  have p1: "p1 = R" using W(8) f1 by (simp add: ftell_def at_end_def split: if_splits)
  have f2: "at_end f2" "fl_data f2 = replicate R NUL @ notes_data nts" using fwrite_notes_sound [OF W(10) f1(1)] f1(2) by auto
  have p2: "p2 = R + length (notes_data nts)" using W(11) f2 by (simp add: ftell_def at_end_def split: if_splits)
  note nb = GenerateNotes_size [OF W(9)]
  obtain bs where bs: "fl_data f3 = fl_data f2 @ bs" "length bs = k" "loads_section cdc rd bs"
    using ReadLoads_sound [OF W(12) [unfolded ReadLoads_def] f2(1)] by auto
  note H = ReadElfHeader_sound [OF W(13)]
  obtain new where "c_phdrs c4 = note_phdr p1 nb # new" using H(3) c(1) by (auto simp: adds_loads_def)
  then have c4: "c_phdrs c4 = note_phdr p1 nb # phs" using W(14) by (simp add: phdrs_match_def)
  have mach: "e_machine (c_ehdr c4) = platform_machine (c_arch c)"
    using H(1) arch_cases [OF c(2)] by (auto simp: platform_machine_def machine_mismatch_def)
  have off: "c_offset_load c4 = int p2" by (subst H(4)) simp
  have "check_extents k (int p2) phs 0 0 = Inr k" using W(15) by (simp add: c4)
  from check_extents_total [OF this loads_are_loads [OF L(2)]] have kb: "k = load_bytes phs" by simp
  have "length bs = load_bytes phs" using bs(2) kb by simp
  from split_loads [OF this] obtain datas where d: "concat datas = bs" "list_all2 (\<lambda>ph d. length d = unat (p_filesz ph)) phs datas" by blast
  have f4: "fl_pos f4 = 0" "fl_data f4 = replicate R NUL @ notes_data nts @ bs"
    using W(16) p0 bs(1) f2(2) by (auto simp: fseek_def split: if_splits)
  let ?e = "put_ehdr (Ehdr_new\<lparr>e_machine := platform_machine (c_arch c), e_phnum := word_of_nat (length (c_phdrs c4))\<rparr>)"
  have el: "length ?e = 64" by (rule cehdr.enc_length) simp
  obtain g where g: "fwrite ?e f4 = (length ?e, g)" "fwrite_phdrs (int p2) (c_phdrs c4) 64 g = (Inr j, f')"
    using W(17) off mach el by (auto simp: WriteElfHeader_core_def Let_def split: if_splits prod.splits)
  note G = fwrite_all [OF g(1)]
  have gl: "fl_pos g = 64" "fl_data g = ?e @ drop 64 (fl_data f4)" using G f4(1) el by auto
  have "fl_pos g + 56 * length (c_phdrs c4) \<le> length (fl_data g)" using gl el f4(2) R(1) c4 by simp
  from fwrite_phdrs_sound [OF g(2) this] have
    "fl_data f' = ?e @ phdr_bytes (map (place p2) (c_phdrs c4)) @ drop (64 + 56 * length (c_phdrs c4)) (fl_data f4)"
    using gl el by (simp add: add.commute)
  then have "fl_data f' = core_image (c_arch c) R phs (notes_data nts) (concat datas)"
    using R(1) f4(2) d(1) nb(1) p1 p2 by (simp add: core_image_def Let_def c4)
  moreover have "loads_section cdc rd (concat datas)" using bs(3) d(1) by simp
  ultimately show ?thesis using that [OF W(2) maps _ _ W(4,9) d(2) R] e L(1) W(5) by simp
qed


section \<open>The output file of a conversion\<close>

text \<open>
  The acore file as \<^verbatim>\<open>decompress\<close> reads it from a new reader: the core it describes after
  the last metadata block, and where the reader then stands.
\<close>

definition acore_meta ::
    "('e, 'd) lz4_codec \<Rightarrow> convert_env \<Rightarrow> string \<Rightarrow> core \<Rightarrow> core \<Rightarrow> ('e, 'd) stream \<Rightarrow> bool" where
  "acore_meta cdc env in_file c0 c rd \<longleftrightarrow>
     (\<exists>st c1 st1. Open cdc (cv_in env) (Some in_file) (Lz4Stream_new LZ4_Decompress) = (Inr (), st) \<and>
        VerifyFileHeader (c0\<lparr>c_phdrs := []\<rparr>) st = (Inr c1, st1) \<and> ReadMeta cdc c1 st1 = (Inr c, rd))"

text \<open>
  A complete core file made from that acore file. Everything in it is the acore file's: the
  machine, the process and its signal, a segment for every line of the recorded memory map, the
  bytes of its memory section in those segments, and the notes of the recorded process files
  (\<^term>\<open>core_spec\<close>), the thread notes among them for the recorded threads.
\<close>

definition converted ::
    "('e, 'd) lz4_codec \<Rightarrow> convert_env \<Rightarrow> string \<Rightarrow> core \<Rightarrow> bytes \<Rightarrow> bool" where
  "converted cdc env in_file c0 img \<longleftrightarrow>
     (\<exists>c rd pd maps s auxv a files. acore_meta cdc env in_file c0 c rd \<and>
        ProcMaps_Parse (pd_maps (c_process c)) = Inr maps \<and> maps \<noteq> [] \<and>
        ParseAll (cv_host_page env) (c_process c) = Inr pd \<and> process_stat pd (c_pid c) = Some s \<and>
        pd_auxv pd = Some auxv \<and> pd_d_auxv pd = Some a \<and> file_payload (av_page_size a) (file_entries maps) = Inr files \<and>
        core_layout mapping_at (c_arch c) maps
          (core_spec (cv_mem env) (cv_clk_tck env) (c_arch c) (c_pid c) (c_crash_sig c) pd s auxv files) img \<and>
        loads_section cdc rd (concat (map (elf_segment img) (tl (elf_phdrs img)))))"

lemma write_core_converted:
  assumes w: "write_core cdc env c rd fout = (Inr (), c', f')" and f: "at_end fout" "fl_data fout = []"
    and c: "c_phdrs c = []" "c_arch c < ARCH_MAX" and a: "acore_meta cdc env in_file c0 c rd"
  shows "converted cdc env in_file c0 (fl_data f')"
proof -
  obtain pd maps phs R nb nts datas where W: "ParseAll (cv_host_page env) (c_process c) = Inr pd" "pd_d_maps pd = Some maps"
    "expected_load_phdrs maps = Inr (phs, load_bytes phs)" "length phs < 65534" "phs \<noteq> []"
    "GenerateNotes (cv_mem env) (cv_clk_tck env) (c_arch c) (c_pid c) (c_crash_sig c) pd = Inr (nb, nts)"
    "list_all2 (\<lambda>ph d. length d = unat (p_filesz ph)) phs datas" "64 + 56 * (length phs + 1) \<le> R" "R < 4194304"
    "fl_data f' = core_image (c_arch c) R phs (notes_data nts) (concat datas)" "loads_section cdc rd (concat datas)"
    by (rule write_core_sound [OF w f c])
  obtain maps' a where P: "ProcMaps_Parse (pd_maps (c_process c)) = Inr maps'" "maps' \<noteq> []" "pd_d_maps pd = Some maps'" "pd_d_auxv pd = Some a"
    by (rule ParseAll_maps [OF W(1)])
  have m: "maps' = maps" using P(3) W(2) by simp
  obtain s auxv files where M: "process_stat pd (c_pid c) = Some s" "pd_auxv pd = Some auxv"
    "file_payload (av_page_size a) (file_entries maps) = Inr files"
    "made nts (core_spec (cv_mem env) (cv_clk_tck env) (c_arch c) (c_pid c) (c_crash_sig c) pd s auxv files)"
    by (rule GenerateNotes_made [OF W(6,2) P(4)])
  have L: "contiguous 0 phs" "load_bytes phs \<le> SSIZE_MAX" "list_all2 (\<lambda>r ph. ph = load_phdr (unat (p_offset ph)) r) maps phs"
    using load_phdrs_layout [of 0 maps phs "load_bytes phs"] W(3) by (auto simp: expected_load_phdrs_def)
  have lp: "length phs < 65535" using W(4) by simp
  note nb = GenerateNotes_size [OF W(6)]
  have n: "length (notes_data nts) \<le> INT_MAX" using nb by simp
  from image_layout [where at = mapping_at, OF L(1) W(7) L(2) lp L(3) W(8,9) n M(4)]
  have "core_layout mapping_at (c_arch c) maps
      (core_spec (cv_mem env) (cv_clk_tck env) (c_arch c) (c_pid c) (c_crash_sig c) pd s auxv files) (fl_data f')"
    unfolding W(10) by simp
  moreover have "concat (map (elf_segment (fl_data f')) (tl (elf_phdrs (fl_data f')))) = concat datas"
    using core_image_reads [OF L(1) W(7) loads_are_loads [OF L(3)] L(2) lp W(8,9) n, of "c_arch c"] unfolding W(10) by simp
  ultimately show ?thesis unfolding converted_def using a P(1,2,4) m W(1,11) M(1-3) by metis
qed

lemma VerifyFileHeader_arch: "VerifyFileHeader c st = (Inr c', st') \<Longrightarrow> c_arch c' < ARCH_MAX \<and> c_phdrs c' = c_phdrs c"
  by (auto simp: VerifyFileHeader_def Let_def split: sum.splits prod.splits if_splits)

lemma read_process_block_arch: "read_process_block c b = (Inr (c', n), b') \<Longrightarrow> c_arch c' = c_arch c"
  by (auto simp: read_process_block_def Let_def split: if_splits option.splits prod.splits)

lemma read_process_files_arch: "read_process_files cdc c rd = (Inr c', rd') \<Longrightarrow> c_arch c' = c_arch c"
  by (auto simp: read_process_files_def Let_def split: if_splits prod.splits)

lemma ReadMeta_arch: "ReadMeta cdc c rd = (Inr cr, rd') \<Longrightarrow> c_arch cr = c_arch c"
  by (auto simp: ReadMeta_def split: if_splits sum.splits option.splits prod.splits
      dest!: read_process_block_arch read_process_files_arch)

section \<open>The properties\<close>

text \<open>
  C9: A conversion is all or nothing, whatever bytes the acore file holds and whatever call
  fails. With no other process at work, \<^verbatim>\<open>decompress\<close> touches no file but the output and
  its temporary file; the output path holds what it held before or the complete core file of
  this acore file (\<^term>\<open>converted\<close>): an ELF core of the machine it names; one \<^verbatim>\<open>LOAD\<close>
  segment of the right address, size and permissions for each line of the memory map it
  records, these segments holding the bytes of its \<^verbatim>\<open>LOADS\<close> blocks in order; and the notes -
  process, auxiliary vector, mapped files, and those of every thread - of the process files,
  threads, process id and signal it records. When it returns success, that core file is there.
\<close>

theorem conversion_all_or_nothing:
  assumes "decompress cdc env in_file (Some out) c m = (r, c', m')" "alone (cv_os env)"
    and "\<And>f. cv_out env = Some f \<Longrightarrow> at_end f \<and> fl_data f = []"
    and "\<And>temp. temp_name (cv_os env) out = Inr temp \<Longrightarrow> temp \<noteq> out"
  shows "(\<forall>x. x = out \<or> temp_name (cv_os env) out = Inr x \<or> m' x = m x) \<and>
    (m' out = m out \<or> (\<exists>node. m' out = Some node \<and> converted cdc env in_file c (fn_data node))) \<and>
    (isl r \<or> (\<exists>node. m' out = Some node \<and> converted cdc env in_file c (fn_data node)))"
proof -
  let ?c0 = "c\<lparr>c_phdrs := []\<rparr>"
  obtain o1 st where o: "Open cdc (cv_in env) (Some in_file) (Lz4Stream_new LZ4_Decompress) = (o1, st)" by fastforce
  obtain v st1 where v: "VerifyFileHeader ?c0 st = (v, st1)" by fastforce
  obtain q st2 where q: "ReadMeta cdc (projr v) st1 = (q, st2)" by fastforce
  obtain a m1 where a: "open_atomic_file (cv_os env) (cv_fresh env) (cv_out env) out m = (a, m1)" by fastforce
  note A = open_alone [OF assms(2) a]
  show ?thesis
  proof (cases "isl o1 \<or> isl v \<or> isl q \<or> same_file (cv_stat env) in_file out \<or> isl a")
    case True
    then have "isl r" "m' = m \<or> m' = m1"
      using assms(1) o v q a by (auto simp: decompress_def Let_def split: sum.splits prod.splits if_splits)
    moreover have "temp_name (cv_os env) out \<noteq> Inr out" using assms(4) by blast
    ultimately show ?thesis using A by auto
  next
    case False
    then obtain c1 c2 f temp s where ok: "o1 = Inr ()" "v = Inr c1" "q = Inr c2" "\<not> same_file (cv_stat env) in_file out"
      "a = Inr (f, temp, s)"
      by (cases o1; cases v; cases q; cases a) auto
    let ?node = "fresh_node (fst (cv_fresh env)) (snd (cv_fresh env))"
    have t: "cv_out env = Some f" "temp_name (cv_os env) out = Inr temp" "m1 = m(temp := Some ?node)" using A ok(5) by auto
    then have ne: "temp \<noteq> out" using assms(4) by simp
    obtain x c3 f' where w: "write_core cdc env c2 st2 f = (x, c3, f')" by (metis surj_pair)
    show ?thesis
    proof (cases x)
      case (Inl e)
      then have "isl r" "m' = snd (os_call (cv_os env) UnlinkAborted (fs_unlink temp) m1)"
        using assms(1) o v q a ok w by (auto simp: decompress_def Let_def)
      with fs_unlink_alone [OF assms(2), of UnlinkAborted temp m1 m'] t(2,3) ne show ?thesis by (auto split: if_splits)
    next
      case (Inr u)
      have cm: "commit_atomic_file (cv_os env) f' temp out s m1 = (r, m')" "c' = cleanup_decompress c3"
        using assms(1) o v q a ok w Inr by (simp_all add: decompress_def Let_def split: prod.splits)
      have V: "c_arch c1 < ARCH_MAX" "c_phdrs c1 = []" using VerifyFileHeader_arch v ok(2) by fastforce+
      have M: "ReadMeta cdc c1 st1 = (Inr c2, st2)" using q ok(2,3) by simp
      have c2: "c_phdrs c2 = []" "c_arch c2 < ARCH_MAX" using ReadMeta_phdrs [OF M] ReadMeta_arch [OF M] V by simp_all
      have am: "acore_meta cdc env in_file c c2 st2" unfolding acore_meta_def using o v M ok(1,2) by blast
      have "converted cdc env in_file c (fl_data f')"
        using write_core_converted [OF _ _ _ c2 am] w Inr assms(3) [OF t(1)] by auto
      then have cv: "converted cdc env in_file c (fn_data (?node\<lparr>fn_data := fl_data f'\<rparr>))" by simp
      have "m1 temp = Some ?node" by (simp add: t(3))
      from commit_file_alone [OF assms(2) ne this cm(1)] t(2,3) ne cv show ?thesis by (auto split: if_splits)
    qed
  qed
qed

text \<open>An input that is no acore file.\<close>

definition bad_input :: "(err + unit) \<times> core \<times> fs" where
  "bad_input = decompress counted (sample_convert ''not an acore file'') ''acore'' (Some ''core'')
     (Coredump_new ARCH_AARCH64 0) [''core'' \<mapsto> sample_file 3 ''old'']"

theorem conversion_all_or_nothing_witness:
  "fst bad_input = Inl EFAIL \<and> map_option fn_data (snd (snd bad_input) ''core'') = Some ''old'' \<and> snd (snd bad_input) ''other'' = None"
proof -
  let ?env = "sample_convert ''not an acore file''"
  have d: "decompress counted ?env ''acore'' (Some ''core'') (Coredump_new ARCH_AARCH64 0) [''core'' \<mapsto> sample_file 3 ''old''] =
      (fst bad_input, fst (snd bad_input), snd (snd bad_input))" by (simp add: bad_input_def)
  have a: "alone (cv_os ?env)" by (simp add: sample_convert_def alone_def calm_os_def)
  have t: "temp_name (cv_os ?env) ''core'' = Inr ''core.tmp.XXXXXX1''" by code_simp
  have "\<forall>x. x = ''core'' \<or> temp_name (cv_os ?env) ''core'' = Inr x \<or> snd (snd bad_input) x = [''core'' \<mapsto> sample_file 3 ''old''] x"
    by (rule conjunct1 [OF conversion_all_or_nothing [OF d a]])
      (use t in \<open>auto simp: sample_convert_def at_end_def disk_def\<close>)
  from spec [OF this, of "''other''"] have "snd (snd bad_input) ''other'' = None" by (simp add: t)
  moreover have "fst bad_input = Inl EFAIL" "map_option fn_data (snd (snd bad_input) ''core'') = Some ''old''" by code_simp+
  ultimately show ?thesis by simp
qed

end
