(* ===== verification/Cli.thy ===== *)
theory Cli
  imports CLib
begin

text \<open>
  \<^verbatim>\<open>main\<close> of \<^verbatim>\<open>src/arthur.cc\<close>: from the argument vector to the one operation that is run,
  or to the exit status of a rejected command line. \<^verbatim>\<open>getopt_long\<close> is the GNU one: options
  and operands may be mixed, short options be clustered, long ones abbreviated, and
  \<^verbatim>\<open>--\<close> ends the options.
\<close>

section \<open>getopt\_long\<close>

text \<open>The option string \<^verbatim>\<open>hvp:mc:o:1234567890\<close> and the table of long options.\<close>

definition option_arg :: "char \<Rightarrow> bool option" where
  "option_arg ch =
     (if ch \<in> {CHR ''p'', CHR ''c'', CHR ''o''} then Some True
      else if ch \<in> {CHR ''h'', CHR ''v'', CHR ''m''} \<or> ch \<in> set ''1234567890'' then Some False
      else None)"

definition longopts :: "(string \<times> bool \<times> char) list" where
  "longopts =
     [(''help'', False, CHR ''h''), (''pid'', True, CHR ''p''), (''merge'', False, CHR ''m''),
      (''core'', True, CHR ''c''), (''output'', True, CHR ''o''), (''version'', False, CHR ''v'')]"

text \<open>An option as \<^verbatim>\<open>getopt_long\<close> returns it, with \<^verbatim>\<open>optarg\<close>; \<open>BadOpt\<close> is \<^verbatim>\<open>'?'\<close>.\<close>

datatype opt = Opt char "string option" | BadOpt

text \<open>What an argument asks for: complete options, then possibly one that takes the next argument.\<close>

fun short_cluster :: "string \<Rightarrow> opt list \<times> char option" where
  "short_cluster [] = ([], None)"
| "short_cluster (ch # r) =
     (case option_arg ch of
        None \<Rightarrow> (case short_cluster r of (os, n) \<Rightarrow> (BadOpt # os, n))
      | Some False \<Rightarrow> (case short_cluster r of (os, n) \<Rightarrow> (Opt ch None # os, n))
      | Some True \<Rightarrow> if r = [] then ([], Some ch) else ([Opt ch (Some r)], None))"

definition is_prefix :: "string \<Rightarrow> string \<Rightarrow> bool" where
  "is_prefix a b \<longleftrightarrow> take (length a) b = a"

definition long_option :: "string \<Rightarrow> opt list \<times> char option" where
  "long_option s =
     (let name = takeWhile (\<lambda>x. x \<noteq> CHR ''='') s;
          value = (case dropWhile (\<lambda>x. x \<noteq> CHR ''='') s of [] \<Rightarrow> None | _ # v \<Rightarrow> Some v);
          exact = filter (\<lambda>(n, _). n = name) longopts;
          found = (if exact \<noteq> [] then exact else filter (\<lambda>(n, _). is_prefix name n) longopts)
      in case found of
           [(n, arg, ch)] \<Rightarrow>
             (case (arg, value) of
                (True, None) \<Rightarrow> ([], Some ch)
              | (True, Some v) \<Rightarrow> ([Opt ch (Some v)], None)
              | (False, None) \<Rightarrow> ([Opt ch None], None)
              | (False, Some v) \<Rightarrow> ([BadOpt], None))
         | _ \<Rightarrow> ([BadOpt], None))"

fun getopt :: "string list \<Rightarrow> opt list \<times> string list" where
  "getopt [] = ([], [])"
| "getopt (a # as) =
     (if a = ''--'' then ([], as)
      else if length a < 2 \<or> hd a \<noteq> CHR ''-'' then (case getopt as of (evs, ops) \<Rightarrow> (evs, a # ops))
      else
        case (if take 2 a = ''--'' then long_option (drop 2 a) else short_cluster (tl a)) of
          (os, None) \<Rightarrow> (case getopt as of (evs, ops) \<Rightarrow> (os @ evs, ops))
        | (os, Some ch) \<Rightarrow>
            (case as of
               [] \<Rightarrow> (os @ [BadOpt], [])
             | v # as' \<Rightarrow> (case getopt as' of (evs, ops) \<Rightarrow> (os @ Opt ch (Some v) # evs, ops))))"

section \<open>The option loop\<close>

datatype ARTHUR_OP = ARTHUR_OP_GENERATE | ARTHUR_OP_DECOMPRESS | ARTHUR_OP_MERGE

record ArthurCfg =
  cf_pid :: int
  cf_op :: ARTHUR_OP
  cf_metafile :: "string option"
  cf_output :: "string option"
  cf_mode :: nat

text \<open>The configuration and the counters of the loop.\<close>

record cli_state = ArthurCfg +
  mode_set :: nat
  pid_set :: nat
  output_set :: nat
  op_set :: nat

definition cli_init :: cli_state where
  "cli_init = \<lparr>cf_pid = 0, cf_op = ARTHUR_OP_GENERATE, cf_metafile = None, cf_output = None, cf_mode = 0,
     mode_set = 0, pid_set = 0, output_set = 0, op_set = 0\<rparr>"

definition parse_pid :: "string \<Rightarrow> int option" where
  "parse_pid arg =
     (let r = strtol 10 arg; v = sr_value r in
      if \<not> sr_conv r \<or> sr_end r \<noteq> [] \<or> sr_range r \<or> v \<le> 0 \<or> v > 2147483647 then None else Some v)"

text \<open>One turn: \<open>Inl\<close> is the value \<^verbatim>\<open>main\<close> returns or exits with.\<close>

definition set_mode :: "nat \<Rightarrow> cli_state \<Rightarrow> int + cli_state" where
  "set_mode n s = Inr (s\<lparr>cf_mode := n, mode_set := mode_set s + 1\<rparr>)"

definition handle_opt :: "opt \<Rightarrow> cli_state \<Rightarrow> int + cli_state" where
  "handle_opt e s =
     (case e of
        BadOpt \<Rightarrow> Inl (-1)
      | Opt ch arg \<Rightarrow>
          let optarg = (case arg of None \<Rightarrow> [] | Some v \<Rightarrow> v) in
          if ch = CHR ''p'' then
            (if pid_set s + 1 > 1 then Inl 2
             else case parse_pid optarg of
                    None \<Rightarrow> Inl 2
                  | Some v \<Rightarrow> Inr (s\<lparr>cf_pid := v, pid_set := pid_set s + 1\<rparr>))
          else if ch = CHR ''m'' then Inr (s\<lparr>cf_op := ARTHUR_OP_MERGE, op_set := op_set s + 1\<rparr>)
          else if ch = CHR ''c'' then
            Inr (s\<lparr>cf_op := ARTHUR_OP_DECOMPRESS, cf_metafile := Some optarg, op_set := op_set s + 1\<rparr>)
          else if ch = CHR ''o'' then
            (if output_set s + 1 > 1 then Inl 2
             else Inr (s\<lparr>cf_output := Some optarg, output_set := output_set s + 1\<rparr>))
          else if ch = CHR ''0'' then set_mode 0 s
          else if ch = CHR ''1'' then set_mode 1 s
          else if ch = CHR ''2'' then set_mode 2 s
          else if ch = CHR ''3'' then set_mode 3 s
          else if ch = CHR ''h'' \<or> ch = CHR ''v'' then Inl 0
          else Inl (-1))"

fun option_loop :: "opt list \<Rightarrow> cli_state \<Rightarrow> int + cli_state" where
  "option_loop [] s = Inr s"
| "option_loop (e # evs) s = (case handle_opt e s of Inl rc \<Rightarrow> Inl rc | Inr s' \<Rightarrow> option_loop evs s')"

section \<open>Checks and dispatch\<close>

text \<open>\<open>Quit\<close> is the value \<^verbatim>\<open>main\<close> returns; the others are the call it makes.\<close>

datatype command =
    Quit int
  | Forkcore int string bool      \<comment> \<open>\<^verbatim>\<open>forkcore(fout, sys_core)\<close>\<close>
  | Generate int string
  | Monitor int string
  | Decompress string "string option"
  | TestCompress string string
  | TestDecompress string string

text \<open>The conflicts checked after the loop, in the order of the code.\<close>

definition conflict :: "cli_state \<Rightarrow> nat \<Rightarrow> int option" where
  "conflict s operand_count =
     (if mode_set s > 1 then Some (-1)
      else if op_set s > 1 then Some 2
      else if cf_pid s \<noteq> 0 \<and> cf_op s \<noteq> ARTHUR_OP_GENERATE then Some 2
      else if mode_set s \<noteq> 0 \<and> cf_op s \<noteq> ARTHUR_OP_GENERATE then Some 2
      else if pid_set s \<noteq> 0 \<and> cf_pid s \<le> 0 then Some 2
      else if cf_pid s \<noteq> 0 \<and> operand_count \<noteq> 0 then Some 2
      else if cf_op s = ARTHUR_OP_DECOMPRESS \<and> operand_count \<noteq> 0 then Some 2
      else if cf_op s = ARTHUR_OP_MERGE \<and> operand_count \<noteq> 2 then Some 2
      else if cf_pid s = 0 \<and> cf_op s = ARTHUR_OP_GENERATE \<and> cf_mode s = 1 \<and> operand_count \<noteq> 1 then Some 2
      else if cf_pid s = 0 \<and> cf_op s = ARTHUR_OP_GENERATE \<and> cf_mode s = 2 \<and>
          operand_count \<noteq> (if cf_output s \<noteq> None then 1 else 2) then Some 2
      else None)"

text \<open>\<open>sigchld_ok\<close>: the outcome of \<^verbatim>\<open>sigaction\<close>; \<open>malloc_ok\<close>: that of the one allocation.\<close>

definition dispatch :: "bool \<Rightarrow> bool \<Rightarrow> cli_state \<Rightarrow> string list \<Rightarrow> command" where
  "dispatch sigchld_ok malloc_ok s ops =
     (if cf_pid s \<noteq> 0 then
        let fout = (case cf_output s of Some f \<Rightarrow> f | None \<Rightarrow> ''acore.'' @ show_dec (nat (cf_pid s))) in
        if cf_mode s = 0 then Forkcore (cf_pid s) fout False
        else if cf_mode s = 1 then Generate (cf_pid s) fout
        else if cf_mode s = 2 then Forkcore (cf_pid s) fout True
        else if cf_mode s = 3 then (if sigchld_ok then Monitor (cf_pid s) fout else Quit (-1))
        else Quit 1
      else if cf_op s = ARTHUR_OP_DECOMPRESS then
        Decompress (case cf_metafile s of Some f \<Rightarrow> f | None \<Rightarrow> []) (cf_output s)
      else if cf_op s = ARTHUR_OP_MERGE then Quit (-1)
      else if ops = [] then Quit 2
      else if cf_mode s = 1 then
        (case cf_output s of
           Some out \<Rightarrow> TestCompress (hd ops) out
         | None \<Rightarrow> if malloc_ok then TestCompress (hd ops) (hd ops @ ''.z4'') else Quit 2)
      else if cf_mode s = 2 then
        (case cf_output s of
           None \<Rightarrow> if tl ops = [] then Quit 2 else TestDecompress (hd ops) (hd (tl ops))
         | Some out \<Rightarrow> if tl ops \<noteq> [] then Quit 2 else TestDecompress (hd ops) out)
      else Quit 2)"

definition arthur_main :: "bool \<Rightarrow> bool \<Rightarrow> string list \<Rightarrow> command" where
  "arthur_main sigchld_ok malloc_ok argv =
     (case getopt argv of
        (evs, ops) \<Rightarrow>
          (case option_loop evs cli_init of
             Inl rc \<Rightarrow> Quit rc
           | Inr s \<Rightarrow>
               (case conflict s (length ops) of
                  Some rc \<Rightarrow> Quit rc
                | None \<Rightarrow> dispatch sigchld_ok malloc_ok s ops)))"

end
