(* ===== verification/CliProps.thy ===== *)
theory CliProps
  imports Cli
begin

text \<open>
  The command line, read declaratively: which operation a set of options and operands
  asks for, and that \<^verbatim>\<open>main\<close> runs exactly that.
\<close>

section \<open>What the options say\<close>

definition arg_of :: "char \<Rightarrow> opt \<Rightarrow> string list" where
  "arg_of ch e = (case e of BadOpt \<Rightarrow> [] | Opt c v \<Rightarrow> if c = ch then [case v of None \<Rightarrow> [] | Some a \<Rightarrow> a] else [])"

definition mode_of :: "opt \<Rightarrow> nat list" where
  "mode_of e = (case e of BadOpt \<Rightarrow> [] | Opt c v \<Rightarrow>
     if c = CHR ''0'' then [0] else if c = CHR ''1'' then [1] else if c = CHR ''2'' then [2] else if c = CHR ''3'' then [3] else [])"

definition op_of :: "opt \<Rightarrow> ARTHUR_OP list" where
  "op_of e = (case e of BadOpt \<Rightarrow> [] | Opt c v \<Rightarrow>
     if c = CHR ''c'' then [ARTHUR_OP_DECOMPRESS] else if c = CHR ''m'' then [ARTHUR_OP_MERGE] else [])"

definition args :: "char \<Rightarrow> opt list \<Rightarrow> string list" where "args ch evs = concat (map (arg_of ch) evs)"
definition modes :: "opt list \<Rightarrow> nat list" where "modes evs = concat (map mode_of evs)"
definition main_ops :: "opt list \<Rightarrow> ARTHUR_OP list" where "main_ops evs = concat (map op_of evs)"

lemma args_simps [simp]: "args ch [] = []" "args ch (e # evs) = arg_of ch e @ args ch evs"
  "modes [] = []" "modes (e # evs) = mode_of e @ modes evs"
  "main_ops [] = []" "main_ops (e # evs) = op_of e @ main_ops evs"
  by (simp_all add: args_def modes_def main_ops_def)

definition served :: "opt \<Rightarrow> bool" where
  "served e \<longleftrightarrow> (case e of BadOpt \<Rightarrow> False | Opt c v \<Rightarrow> c \<in> set ''pmco0123'')"

definition last_or :: "'a \<Rightarrow> 'a list \<Rightarrow> 'a" where
  "last_or d xs = (if xs = [] then d else last xs)"

lemma last_or_simps [simp]: "last_or d [] = d" "last_or d (x # xs) = last_or x xs"
  by (simp_all add: last_or_def)

text \<open>The loop fails on the first bad option, and otherwise the last option of a kind wins.\<close>

definition loop_ok :: "opt list \<Rightarrow> cli_state \<Rightarrow> bool" where
  "loop_ok evs s \<longleftrightarrow> (\<forall>e \<in> set evs. served e) \<and>
     (length (args CHR ''p'' evs) = 0 \<or> pid_set s + length (args CHR ''p'' evs) \<le> 1) \<and>
     (length (args CHR ''o'' evs) = 0 \<or> output_set s + length (args CHR ''o'' evs) \<le> 1) \<and>
     (\<forall>a \<in> set (args CHR ''p'' evs). parse_pid a \<noteq> None)"

definition loop_end :: "opt list \<Rightarrow> cli_state \<Rightarrow> cli_state" where
  "loop_end evs s = s
     \<lparr>cf_pid := last_or (cf_pid s) (map (\<lambda>a. the (parse_pid a)) (args CHR ''p'' evs)),
      cf_op := last_or (cf_op s) (main_ops evs),
      cf_metafile := last_or (cf_metafile s) (map Some (args CHR ''c'' evs)),
      cf_output := last_or (cf_output s) (map Some (args CHR ''o'' evs)),
      cf_mode := last_or (cf_mode s) (modes evs),
      mode_set := mode_set s + length (modes evs), pid_set := pid_set s + length (args CHR ''p'' evs),
      output_set := output_set s + length (args CHR ''o'' evs), op_set := op_set s + length (main_ops evs)\<rparr>"

lemmas opt_defs = handle_opt_def set_mode_def loop_ok_def loop_end_def served_def arg_of_def mode_of_def op_of_def

lemma handle_opt_Inr: "handle_opt e s = Inr s' \<longleftrightarrow> loop_ok [e] s \<and> s' = loop_end [e] s"
proof (cases e)
  case BadOpt
  then show ?thesis by (simp add: opt_defs)
next
  case (Opt c v)
  consider "c = CHR ''p''" | "c = CHR ''o''" | "c = CHR ''m''" | "c = CHR ''c''" | "c = CHR ''0''" | "c = CHR ''1''"
    | "c = CHR ''2''" | "c = CHR ''3''" | "c \<notin> set ''pmco0123''" by auto
  then show ?thesis
    by cases (auto simp: Opt opt_defs split: option.split)
qed

lemma loop_end_Cons: "loop_end (e # evs) s = loop_end evs (loop_end [e] s)"
proof -
  have l: "last_or d (xs @ ys) = last_or (last_or d xs) ys" for d :: 'a and xs ys by (simp add: last_or_def)
  show ?thesis by (simp add: loop_end_def add.assoc) (simp add: last_or_def)
qed

lemma loop_ok_Cons: "loop_ok (e # evs) s \<longleftrightarrow> loop_ok [e] s \<and> loop_ok evs (loop_end [e] s)"
  unfolding loop_ok_def by (auto simp: loop_end_def)

lemma option_loop_Inr: "option_loop evs s = Inr s' \<longleftrightarrow> loop_ok evs s \<and> s' = loop_end evs s"
proof (induction evs arbitrary: s)
  case Nil
  show ?case by (auto simp: loop_ok_def loop_end_def)
next
  case (Cons e evs)
  show ?case
  proof (cases "handle_opt e s")
    case (Inl rc)
    then have "\<not> loop_ok [e] s" using handle_opt_Inr [of e s] by auto
    then show ?thesis using Inl loop_ok_Cons [of e evs s] by simp
  next
    case (Inr s1)
    then have "loop_ok [e] s" "s1 = loop_end [e] s" using handle_opt_Inr by blast+
    then show ?thesis using Inr Cons.IH [of s1] loop_ok_Cons [of e evs s] loop_end_Cons [of e evs s] by simp
  qed
qed

lemma metafile_given: "length (args CHR ''c'' evs) \<le> length (main_ops evs) \<and>
    (main_ops evs = [ARTHUR_OP_DECOMPRESS] \<longrightarrow> (\<exists>f. args CHR ''c'' evs = [f])) \<and> (main_ops evs = [] \<longrightarrow> args CHR ''c'' evs = [])"
proof (induction evs)
  case (Cons e evs)
  then show ?case by (cases e) (auto simp: arg_of_def op_of_def split: if_splits option.splits)
qed simp

section \<open>The contract\<close>

definition out_name :: "int \<Rightarrow> opt list \<Rightarrow> string" where
  "out_name pid evs = (case args CHR ''o'' evs of [] \<Rightarrow> ''acore.'' @ show_dec (nat pid) | f # _ \<Rightarrow> f)"

definition captures_pid :: "opt list \<Rightarrow> string list \<Rightarrow> int \<Rightarrow> bool" where
  "captures_pid evs ops pid \<longleftrightarrow> main_ops evs = [] \<and> ops = [] \<and> (\<exists>a. args CHR ''p'' evs = [a] \<and> parse_pid a = Some pid)"

definition requested :: "opt list \<Rightarrow> string list \<Rightarrow> command \<Rightarrow> bool" where
  "requested evs ops cmd \<longleftrightarrow>
     (\<forall>e \<in> set evs. served e) \<and> length (args CHR ''o'' evs) \<le> 1 \<and>
     (let pids = args CHR ''p'' evs; outs = args CHR ''o'' evs in
      case cmd of
        Quit rc \<Rightarrow> False
      | Forkcore pid f sys \<Rightarrow>
          captures_pid evs ops pid \<and> f = out_name pid evs \<and> (if sys then modes evs = [2] else modes evs = [] \<or> modes evs = [0])
      | Generate pid f \<Rightarrow> captures_pid evs ops pid \<and> f = out_name pid evs \<and> modes evs = [1]
      | Monitor pid f \<Rightarrow> captures_pid evs ops pid \<and> f = out_name pid evs \<and> modes evs = [3]
      | Decompress file out \<Rightarrow>
          pids = [] \<and> main_ops evs = [ARTHUR_OP_DECOMPRESS] \<and> args CHR ''c'' evs = [file] \<and> modes evs = [] \<and> ops = [] \<and>
          out = (case outs of [] \<Rightarrow> None | f # _ \<Rightarrow> Some f)
      | TestCompress i z \<Rightarrow>
          pids = [] \<and> main_ops evs = [] \<and> modes evs = [1] \<and> ops = [i] \<and> z = (case outs of [] \<Rightarrow> i @ ''.z4'' | f # _ \<Rightarrow> f)
      | TestDecompress i z \<Rightarrow>
          pids = [] \<and> main_ops evs = [] \<and> modes evs = [2] \<and> (if outs = [] then ops = [i, z] else ops = [i] \<and> outs = [z]))"

lemma parse_pid_pos: "parse_pid a = Some v \<Longrightarrow> 0 < v \<and> v \<le> 2147483647"
  by (auto simp: parse_pid_def Let_def split: if_splits)

lemma requested_loop_ok: "requested evs ops cmd \<Longrightarrow> loop_ok evs cli_init"
  by (auto simp: requested_def loop_ok_def cli_init_def captures_pid_def Let_def split: command.splits)

lemma modes_range: "m \<in> set (modes evs) \<Longrightarrow> m < 4"
proof (induction evs)
  case (Cons e evs)
  then show ?case by (cases e) (auto simp: mode_of_def split: if_splits)
qed simp

lemma op_kinds: "x \<in> set (main_ops evs) \<Longrightarrow> x \<noteq> ARTHUR_OP_GENERATE"
  by (induction evs) (auto simp: op_of_def split: opt.splits if_splits)

text \<open>What the loop leaves when it ends, with at most one \<^verbatim>\<open>-p\<close> and one \<^verbatim>\<open>-o\<close>.\<close>

lemma list_01: "length xs \<le> 1 \<longleftrightarrow> xs = [] \<or> (\<exists>x. xs = [x])"
  by (cases xs; cases "tl xs") auto

lemma list_012: obtains "xs = []" | x where "xs = [x]" | "1 < length xs"
  by (cases xs; cases "tl xs") auto

lemma after_loop:
  assumes "loop_ok evs cli_init"
  shows "length (args CHR ''o'' evs) \<le> 1" "(\<forall>e \<in> set evs. served e)"
    "args CHR ''p'' evs = [] \<or> (\<exists>a v. args CHR ''p'' evs = [a] \<and> parse_pid a = Some v \<and> 0 < v)"
proof -
  show "length (args CHR ''o'' evs) \<le> 1" "(\<forall>e \<in> set evs. served e)" using assms by (auto simp: loop_ok_def cli_init_def)
  have "length (args CHR ''p'' evs) \<le> 1" using assms by (auto simp: loop_ok_def cli_init_def)
  then show "args CHR ''p'' evs = [] \<or> (\<exists>a v. args CHR ''p'' evs = [a] \<and> parse_pid a = Some v \<and> 0 < v)"
    using assms parse_pid_pos unfolding list_01 by (fastforce simp: loop_ok_def)
qed

lemma requested_capture:
  assumes "loop_ok evs cli_init" "args CHR ''p'' evs = [a]" "parse_pid a = Some v" "0 < v"
  defines "s \<equiv> loop_end evs cli_init"
  shows "requested evs ops cmd \<longleftrightarrow>
    conflict s (length ops) = None \<and> dispatch True True s ops = cmd \<and> (\<forall>rc. cmd \<noteq> Quit rc)"
proof -
  note A = after_loop [OF assms(1)]
  have pid: "cf_pid s = v" "pid_set s = 1" using assms(2,3) by (simp_all add: s_def loop_end_def cli_init_def)
  show ?thesis
  proof (cases "main_ops evs = [] \<and> ops = [] \<and> length (modes evs) \<le> 1")
    case False
    have "main_ops evs = [] \<or> 1 < length (main_ops evs) \<or> cf_op s \<noteq> ARTHUR_OP_GENERATE"
      by (rule list_012 [of "main_ops evs"]) (use op_kinds [of _ evs] in \<open>auto simp: s_def loop_end_def\<close>)
    then have "conflict s (length ops) \<noteq> None"
      using False pid assms(4) by (auto simp: conflict_def s_def loop_end_def cli_init_def)
    moreover have "\<not> requested evs ops cmd" using False assms(2)
      by (cases cmd) (auto simp: requested_def captures_pid_def split: if_splits)
    ultimately show ?thesis by simp
  next
    case True
    then have op: "cf_op s = ARTHUR_OP_GENERATE" "op_set s = 0" by (simp_all add: s_def loop_end_def cli_init_def)
    obtain m where m: "modes evs = [] \<and> m = 0 \<or> modes evs = [m]" "m < 4"
      using True modes_range [of _ evs] unfolding list_01 by fastforce
    have ms: "cf_mode s = m" "mode_set s \<le> 1" using m True by (auto simp: s_def loop_end_def cli_init_def)
    have c: "conflict s (length ops) = None" using pid op ms True assms(4) by (simp add: conflict_def)
    have out: "out_name v evs = (case cf_output s of Some f \<Rightarrow> f | None \<Rightarrow> ''acore.'' @ show_dec (nat v))"
      using A(1) unfolding list_01 by (auto simp: out_name_def s_def loop_end_def cli_init_def)
    have "m = 0 \<or> m = 1 \<or> m = 2 \<or> m = 3" using m(2) by auto
    then show ?thesis
      using c ms(1) pid(1) m True A(1,2) assms(2-4) out
      by (cases cmd) (auto simp: requested_def captures_pid_def dispatch_def Let_def)
  qed
qed

lemma requested_convert:
  assumes "loop_ok evs cli_init" "args CHR ''p'' evs = []" "main_ops evs \<noteq> []"
  defines "s \<equiv> loop_end evs cli_init"
  shows "requested evs ops cmd \<longleftrightarrow>
    conflict s (length ops) = None \<and> dispatch True True s ops = cmd \<and> (\<forall>rc. cmd \<noteq> Quit rc)"
proof -
  note A = after_loop [OF assms(1)]
  have pid: "cf_pid s = 0" "pid_set s = 0" using assms(2) by (simp_all add: s_def loop_end_def cli_init_def)
  obtain x where x: "cf_op s = x" "x = last (main_ops evs)" using assms(3) by (simp add: s_def loop_end_def last_or_def)
  then have "x \<noteq> ARTHUR_OP_GENERATE" using op_kinds [OF last_in_set [OF assms(3)]] by simp
  then have gen: "x = ARTHUR_OP_DECOMPRESS \<or> x = ARTHUR_OP_MERGE" by (cases x) auto
  have counts: "op_set s = length (main_ops evs)" "mode_set s = length (modes evs)"
    "cf_output s = (case args CHR ''o'' evs of [] \<Rightarrow> None | f # _ \<Rightarrow> Some f)"
    using A(1) unfolding list_01 by (auto simp: s_def loop_end_def cli_init_def)
  show ?thesis
  proof (cases "main_ops evs = [ARTHUR_OP_DECOMPRESS] \<and> modes evs = [] \<and> ops = []")
    case True
    then obtain f where f: "args CHR ''c'' evs = [f]" using metafile_given [of evs] by auto
    have c: "conflict s (length ops) = None" using True counts pid x by (simp add: conflict_def)
    have "cf_metafile s = Some f" using f by (simp add: s_def loop_end_def)
    then have "dispatch True True s ops = Decompress f (cf_output s)" using pid x True by (simp add: dispatch_def)
    then show ?thesis using c True A(1,2) assms(2) f counts(3)
      by (cases cmd) (auto simp: requested_def captures_pid_def)
  next
    case False
    have "\<not> requested evs ops cmd" using False assms(3) by (cases cmd) (auto simp: requested_def captures_pid_def Let_def)
    moreover have "conflict s (length ops) \<noteq> None \<or> dispatch True True s ops = Quit (-1)"
    proof (cases "1 < length (main_ops evs)")
      case True
      then show ?thesis using counts by (simp add: conflict_def)
    next
      case one: False
      then have "main_ops evs = [x]" using x(2) assms(3) by (cases "main_ops evs"; cases "tl (main_ops evs)") auto
      then show ?thesis using False gen counts pid x(1) by (auto simp: conflict_def dispatch_def)
    qed
    ultimately show ?thesis by auto
  qed
qed

lemma requested_test:
  assumes "loop_ok evs cli_init" "args CHR ''p'' evs = []" "main_ops evs = []"
  defines "s \<equiv> loop_end evs cli_init"
  shows "requested evs ops cmd \<longleftrightarrow>
    conflict s (length ops) = None \<and> dispatch True True s ops = cmd \<and> (\<forall>rc. cmd \<noteq> Quit rc)"
proof -
  note A = after_loop [OF assms(1)]
  have st: "cf_pid s = 0" "pid_set s = 0" "cf_op s = ARTHUR_OP_GENERATE" "op_set s = 0" "mode_set s = length (modes evs)"
    "cf_output s = (case args CHR ''o'' evs of [] \<Rightarrow> None | f # _ \<Rightarrow> Some f)"
    using A(1) assms(2,3) unfolding list_01 by (auto simp: s_def loop_end_def cli_init_def)
  have md: "cf_mode s = last_or 0 (modes evs)" by (simp add: s_def loop_end_def cli_init_def)
  show ?thesis
  proof (cases "modes evs = [1] \<and> length ops = 1 \<or>
      modes evs = [2] \<and> length ops = (if args CHR ''o'' evs = [] then 2 else 1)")
    case True
    have "(\<exists>i. ops = [i]) \<or> (\<exists>i z. ops = [i, z])"
      using True by (auto simp: length_Suc_conv numeral_2_eq_2 split: if_splits)
    with True show ?thesis using st md A(1,2) assms(2,3) unfolding list_01
      by (cases cmd) (auto simp: requested_def captures_pid_def conflict_def dispatch_def Let_def split: if_splits)
  next
    case False
    have "\<not> requested evs ops cmd" using False assms(2,3) by (cases cmd) (auto simp: requested_def captures_pid_def Let_def)
    moreover have "conflict s (length ops) \<noteq> None \<or> (\<exists>rc. dispatch True True s ops = Quit rc)"
    proof (cases "1 < length (modes evs)")
      case True
      then show ?thesis using st by (simp add: conflict_def)
    next
      case one: False
      then have "modes evs = [] \<or> modes evs = [last_or 0 (modes evs)]"
        by (cases "modes evs"; cases "tl (modes evs)") auto
      then show ?thesis using False st md by (auto simp: conflict_def dispatch_def split: if_splits list.splits)
    qed
    ultimately show ?thesis by auto
  qed
qed

section \<open>The property\<close>

text \<open>
  C16: \<^verbatim>\<open>main\<close> runs the operation the command line asks for and nothing else. Unless an
  allocation or \<^verbatim>\<open>sigaction\<close> fails, it calls \<^verbatim>\<open>forkcore\<close>, \<^verbatim>\<open>generate\<close>, \<^verbatim>\<open>monitor\<close>,
  \<^verbatim>\<open>decompress\<close>, \<^verbatim>\<open>test_compress\<close> or \<^verbatim>\<open>test_decompress\<close> with given arguments if and only
  if the options and operands, in whatever order they come, form exactly one request for
  that call: one valid process id or one \<^verbatim>\<open>-c\<close> or neither, at most one mode and one \<^verbatim>\<open>-o\<close>,
  and the operands the operation takes. Everything else is an exit.
\<close>

theorem main_runs_requested:
  "(arthur_main True True argv = cmd \<and> (\<forall>rc. cmd \<noteq> Quit rc)) = requested (fst (getopt argv)) (snd (getopt argv)) cmd"
proof -
  obtain evs ops where g: "getopt argv = (evs, ops)" by fastforce
  let ?s = "loop_end evs cli_init"
  show ?thesis
  proof (cases "loop_ok evs cli_init")
    case False
    then obtain rc where "option_loop evs cli_init = Inl rc"
      using option_loop_Inr [of evs cli_init] by (cases "option_loop evs cli_init") auto
    then have "arthur_main True True argv = Quit rc" by (simp add: arthur_main_def g)
    then show ?thesis using False requested_loop_ok [of evs ops cmd] by (auto simp: g)
  next
    case True
    then have "option_loop evs cli_init = Inr ?s" using option_loop_Inr by blast
    then have m: "arthur_main True True argv = (case conflict ?s (length ops) of Some rc \<Rightarrow> Quit rc | None \<Rightarrow> dispatch True True ?s ops)"
      by (simp add: arthur_main_def g)
    have "requested evs ops cmd \<longleftrightarrow>
      conflict ?s (length ops) = None \<and> dispatch True True ?s ops = cmd \<and> (\<forall>rc. cmd \<noteq> Quit rc)"
      using after_loop(3) [OF True] requested_capture [OF True] requested_convert [OF True] requested_test [OF True] by blast
    then show ?thesis by (auto simp: m g split: option.splits)
  qed
qed
end
