(* ===== verification/Kernel.thy ===== *)
theory Kernel
  imports AcoreLoads
begin

text \<open>
  The kernel as the program sees it. A run is a \<open>history\<close>, the newest call first; the kernel
  answers every call by a function of the history before it, so any behaviour of the kernel
  and of the processes it runs is such a function. The \<open>sys_\<close> definitions make a call and
  record it. Also the register image of \<^verbatim>\<open>src/elf.h\<close>, the wait status macros and the
  helpers of \<^verbatim>\<open>src/core.cc\<close> that only look at a task. The model is that of the x86-64 build.
\<close>

section \<open>Registers\<close>

record x64_regs =
  r15 :: u64
  r14 :: u64
  r13 :: u64
  r12 :: u64
  rbp :: u64
  rbx :: u64
  r11 :: u64
  r10 :: u64
  r9 :: u64
  r8 :: u64
  rax :: u64
  rcx :: u64
  rdx :: u64
  rsi :: u64
  rdi :: u64
  orig_rax :: u64
  rip :: u64
  cs :: u64
  eflags :: u64
  rsp :: u64
  ss :: u64
  fs_base :: u64
  gs_base :: u64
  ds :: u64
  es :: u64
  fs :: u64
  gs :: u64

definition get_rc :: "x64_regs \<Rightarrow> u64" where "get_rc r = rax r"
definition set_pc :: "u64 \<Rightarrow> x64_regs \<Rightarrow> x64_regs" where "set_pc v r = r\<lparr>rip := v\<rparr>"

text \<open>\<^verbatim>\<open>set_arg0\<close> to \<^verbatim>\<open>set_arg5\<close>.\<close>

definition set_arg :: "nat \<Rightarrow> u64 \<Rightarrow> x64_regs \<Rightarrow> x64_regs" where
  "set_arg i v r =
     (if i = 0 then r\<lparr>rdi := v\<rparr> else if i = 1 then r\<lparr>rsi := v\<rparr> else if i = 2 then r\<lparr>rdx := v\<rparr>
      else if i = 3 then r\<lparr>rcx := v\<rparr> else if i = 4 then r\<lparr>r8 := v\<rparr> else r\<lparr>r9 := v\<rparr>)"

section \<open>Wait statuses\<close>

definition WIFSTOPPED :: "nat \<Rightarrow> bool" where "WIFSTOPPED s \<longleftrightarrow> s mod 256 = 127"
definition WSTOPSIG :: "nat \<Rightarrow> int" where "WSTOPSIG s = int (s div 256 mod 256)"
definition WIFEXITED :: "nat \<Rightarrow> bool" where "WIFEXITED s \<longleftrightarrow> s mod 128 = 0"
definition WIFSIGNALED :: "nat \<Rightarrow> bool" where "WIFSIGNALED s \<longleftrightarrow> s mod 128 \<noteq> 0 \<and> s mod 128 \<noteq> 127"
definition WTERMSIG :: "nat \<Rightarrow> int" where "WTERMSIG s = int (s mod 128)"
definition stop_event :: "nat \<Rightarrow> nat" where "stop_event s = s div 65536 mod 65536"

text \<open>The status of a stop with a signal and an event code.\<close>

definition stopped_status :: "nat \<Rightarrow> nat \<Rightarrow> nat" where
  "stopped_status sig ev = ev * 65536 + sig * 256 + 127"

lemma stopped_status_simps [simp]:
  assumes "sig < 256" "ev < 65536"
  shows "WIFSTOPPED (stopped_status sig ev)" "WSTOPSIG (stopped_status sig ev) = int sig"
    "stop_event (stopped_status sig ev) = ev" "\<not> WIFEXITED (stopped_status sig ev)" "\<not> WIFSIGNALED (stopped_status sig ev)"
proof -
  have "(ev * 65536 + sig * 256 + 127) mod 256 = (127 + (ev * 256 + sig) * 256) mod 256" by (simp add: algebra_simps)
  then have "(ev * 65536 + sig * 256 + 127) mod 256 = 127" by (simp only: mod_mult_self1) simp
  then show "WIFSTOPPED (stopped_status sig ev)" by (simp add: WIFSTOPPED_def stopped_status_def)
  have "(ev * 65536 + sig * 256 + 127) mod 128 = (127 + (ev * 512 + sig * 2) * 128) mod 128" by (simp add: algebra_simps)
  then have m: "(ev * 65536 + sig * 256 + 127) mod 128 = 127" by (simp only: mod_mult_self1) simp
  then show "\<not> WIFEXITED (stopped_status sig ev)" "\<not> WIFSIGNALED (stopped_status sig ev)"
    by (simp_all add: WIFEXITED_def WIFSIGNALED_def stopped_status_def)
  have "(ev * 65536 + sig * 256 + 127) div 256 = ev * 256 + sig" by (rule div_nat_eqI) simp_all
  then show "WSTOPSIG (stopped_status sig ev) = int sig" using assms(1) by (simp add: WSTOPSIG_def stopped_status_def)
  have "(ev * 65536 + sig * 256 + 127) div 65536 = ev" by (rule div_nat_eqI) (use assms(1) in simp_all)
  then show "stop_event (stopped_status sig ev) = ev" using assms(2) by (simp add: stop_event_def stopped_status_def)
qed

lemma wait_status_cases: "WIFEXITED s \<or> WIFSIGNALED s \<or> s mod 128 = 127"
  by (auto simp: WIFEXITED_def WIFSIGNALED_def)

lemma stopped_not_dead: "WIFSTOPPED s \<Longrightarrow> \<not> WIFEXITED s \<and> \<not> WIFSIGNALED s"
proof -
  assume "WIFSTOPPED s"
  then have "s mod 256 mod 128 = 127" by (simp add: WIFSTOPPED_def)
  then have "s mod 128 = 127" by (simp add: mod_mod_cancel)
  then show ?thesis by (simp add: WIFEXITED_def WIFSIGNALED_def)
qed

abbreviation (input) SIGTRAP :: int where "SIGTRAP \<equiv> 5"
abbreviation (input) SIGKILL :: int where "SIGKILL \<equiv> 9"
abbreviation (input) SIGSEGV :: int where "SIGSEGV \<equiv> 11"
abbreviation (input) SIGCHLD :: int where "SIGCHLD \<equiv> 17"
abbreviation (input) SIGCONT :: int where "SIGCONT \<equiv> 18"
abbreviation (input) SIGSTOP :: int where "SIGSTOP \<equiv> 19"

definition job_control_signal :: "int \<Rightarrow> bool" where
  "job_control_signal sig \<longleftrightarrow> sig = 19 \<or> sig = 20 \<or> sig = 21 \<or> sig = 22"

abbreviation (input) PTRACE_EVENT_FORK :: nat where "PTRACE_EVENT_FORK \<equiv> 1"
abbreviation (input) PTRACE_EVENT_VFORK :: nat where "PTRACE_EVENT_VFORK \<equiv> 2"
abbreviation (input) PTRACE_EVENT_CLONE :: nat where "PTRACE_EVENT_CLONE \<equiv> 3"
abbreviation (input) PTRACE_EVENT_EXEC :: nat where "PTRACE_EVENT_EXEC \<equiv> 4"
abbreviation (input) PTRACE_EVENT_EXIT :: nat where "PTRACE_EVENT_EXIT \<equiv> 6"
abbreviation (input) PTRACE_EVENT_STOP :: nat where "PTRACE_EVENT_STOP \<equiv> 128"

section \<open>Calls and histories\<close>

text \<open>The fields of \<^verbatim>\<open>siginfo_t\<close> the code looks at.\<close>

record siginfo =
  sg_signo :: int
  sg_code :: int
  sg_pid :: int
  sg_status :: int

abbreviation (input) SI_USER :: int where "SI_USER \<equiv> 0"
abbreviation (input) SI_TKILL :: int where "SI_TKILL \<equiv> - 6"
abbreviation (input) SI_KERNEL :: int where "SI_KERNEL \<equiv> 128"
abbreviation (input) CLD_EXITED :: int where "CLD_EXITED \<equiv> 1"
abbreviation (input) CLD_KILLED :: int where "CLD_KILLED \<equiv> 2"
abbreviation (input) CLD_DUMPED :: int where "CLD_DUMPED \<equiv> 3"
abbreviation (input) CLD_TRAPPED :: int where "CLD_TRAPPED \<equiv> 4"
abbreviation (input) CLD_STOPPED :: int where "CLD_STOPPED \<equiv> 5"

text \<open>The \<^verbatim>\<open>ptrace\<close> requests that change a tracee; \<open>Asked\<close> is a call that only looks.\<close>

datatype request =
    ATTACH | SEIZE nat | DETACH int | CONT int | INTERRUPT | LISTEN | SETOPTIONS nat
  | POKEDATA u64 u64 | SETREGS x64_regs | SETXSTATE bytes

datatype call =
    Ctl int request bool                 \<comment> \<open>done or failed\<close>
  | Waited int "nat option"              \<comment> \<open>the status it consumed\<close>
  | Killed int int bool
  | Wrote int u64 bytes nat              \<comment> \<open>the number of bytes written\<close>
  | Slept
  | Woken "int option"                   \<comment> \<open>the signal it took\<close>
  | Asked

type_synonym history = "call list"

record kern =
  k_clock :: "history \<Rightarrow> int"                     \<comment> \<open>\<^verbatim>\<open>CLOCK_MONOTONIC\<close> in ms\<close>
  k_self :: int
  k_ctl :: "history \<Rightarrow> int \<Rightarrow> request \<Rightarrow> err + unit"
  k_getregs :: "history \<Rightarrow> int \<Rightarrow> err + x64_regs"
  k_getxstate :: "history \<Rightarrow> int \<Rightarrow> err + bytes"
  k_peek :: "history \<Rightarrow> int \<Rightarrow> u64 \<Rightarrow> err + u64"
  k_siginfo :: "history \<Rightarrow> int \<Rightarrow> err + siginfo"
  k_eventmsg :: "history \<Rightarrow> int \<Rightarrow> err + u64"
  k_waitpid :: "history \<Rightarrow> int \<Rightarrow> err + nat option" \<comment> \<open>\<open>None\<close>: no status yet (\<^verbatim>\<open>WNOHANG\<close>)\<close>
  k_waitid :: "history \<Rightarrow> int \<Rightarrow> err + siginfo option" \<comment> \<open>with \<^verbatim>\<open>WNOHANG | WNOWAIT\<close>\<close>
  k_kill :: "history \<Rightarrow> int \<Rightarrow> int \<Rightarrow> err + unit"
  k_write :: "history \<Rightarrow> int \<Rightarrow> u64 \<Rightarrow> bytes \<Rightarrow> err + nat" \<comment> \<open>\<^verbatim>\<open>pwrite\<close> to \<^verbatim>\<open>/proc/pid/mem\<close>\<close>
  k_status :: "history \<Rightarrow> int \<Rightarrow> err + string \<times> bool \<times> bool" \<comment> \<open>\<^verbatim>\<open>/proc/pid/status\<close>; read, closed without error\<close>
  k_tasks :: "history \<Rightarrow> int \<Rightarrow> err + string list \<times> err option" \<comment> \<open>\<^verbatim>\<open>/proc/pid/task\<close>; error of \<^verbatim>\<open>readdir\<close> or \<^verbatim>\<open>closedir\<close>\<close>
  k_access :: "history \<Rightarrow> int \<Rightarrow> int \<Rightarrow> err + unit" \<comment> \<open>of \<^verbatim>\<open>/proc/pid/task/tid\<close>\<close>
  k_capture :: "history \<Rightarrow> capture_env"
  k_threads :: "history \<Rightarrow> int \<Rightarrow> thread_env"
  k_mem :: "history \<Rightarrow> int \<Rightarrow> mem_fd option"
  k_text :: "history \<Rightarrow> string \<Rightarrow> (string \<times> bool) option" \<comment> \<open>a file read as text, with \<^verbatim>\<open>ferror\<close>\<close>
  k_now :: "history \<Rightarrow> nat"                       \<comment> \<open>\<^verbatim>\<open>time(NULL)\<close>\<close>
  k_block :: "history \<Rightarrow> err + unit"               \<comment> \<open>\<^verbatim>\<open>sigprocmask\<close>\<close>
  k_sigwait :: "history \<Rightarrow> err + int"              \<comment> \<open>\<^verbatim>\<open>sigwaitinfo\<close>\<close>

definition succeeds :: "err + 'a \<Rightarrow> bool" where
  "succeeds r = (case r of Inl _ \<Rightarrow> False | Inr _ \<Rightarrow> True)"

lemma succeeds_simps [simp]: "\<not> succeeds (Inl e)" "succeeds (Inr x)"
  by (simp_all add: succeeds_def)

definition sys_ctl :: "kern \<Rightarrow> int \<Rightarrow> request \<Rightarrow> history \<Rightarrow> (err + unit) \<times> history" where
  "sys_ctl K pid req h = (let r = k_ctl K h pid req in (r, Ctl pid req (succeeds r) # h))"

definition sys_getregs :: "kern \<Rightarrow> int \<Rightarrow> history \<Rightarrow> (err + x64_regs) \<times> history" where
  "sys_getregs K pid h = (k_getregs K h pid, Asked # h)"

definition sys_getxstate :: "kern \<Rightarrow> int \<Rightarrow> history \<Rightarrow> (err + bytes) \<times> history" where
  "sys_getxstate K pid h = (k_getxstate K h pid, Asked # h)"

definition sys_peek :: "kern \<Rightarrow> int \<Rightarrow> u64 \<Rightarrow> history \<Rightarrow> (err + u64) \<times> history" where
  "sys_peek K pid a h = (k_peek K h pid a, Asked # h)"

definition sys_siginfo :: "kern \<Rightarrow> int \<Rightarrow> history \<Rightarrow> (err + siginfo) \<times> history" where
  "sys_siginfo K pid h = (k_siginfo K h pid, Asked # h)"

definition sys_eventmsg :: "kern \<Rightarrow> int \<Rightarrow> history \<Rightarrow> (err + u64) \<times> history" where
  "sys_eventmsg K pid h = (k_eventmsg K h pid, Asked # h)"

definition sys_waitpid :: "kern \<Rightarrow> int \<Rightarrow> history \<Rightarrow> (err + nat option) \<times> history" where
  "sys_waitpid K pid h =
     (let r = k_waitpid K h pid in (r, Waited pid (case r of Inl _ \<Rightarrow> None | Inr s \<Rightarrow> s) # h))"

definition sys_waitid :: "kern \<Rightarrow> int \<Rightarrow> history \<Rightarrow> (err + siginfo option) \<times> history" where
  "sys_waitid K pid h = (k_waitid K h pid, Asked # h)"

definition sys_kill :: "kern \<Rightarrow> int \<Rightarrow> int \<Rightarrow> history \<Rightarrow> (err + unit) \<times> history" where
  "sys_kill K pid sig h = (let r = k_kill K h pid sig in (r, Killed pid sig (succeeds r) # h))"

definition sys_write :: "kern \<Rightarrow> int \<Rightarrow> u64 \<Rightarrow> bytes \<Rightarrow> history \<Rightarrow> (err + nat) \<times> history" where
  "sys_write K pid a bs h =
     (let r = k_write K h pid a bs in (r, Wrote pid a bs (case r of Inl _ \<Rightarrow> 0 | Inr n \<Rightarrow> n) # h))"

definition sys_sigwait :: "kern \<Rightarrow> history \<Rightarrow> (err + int) \<times> history" where
  "sys_sigwait K h = (let r = k_sigwait K h in (r, Woken (case r of Inl _ \<Rightarrow> None | Inr s \<Rightarrow> Some s) # h))"

lemmas sys_ask_defs = sys_getregs_def sys_getxstate_def sys_peek_def sys_siginfo_def sys_eventmsg_def sys_waitid_def

end
