(* ===== verification/Ptrace.thy ===== *)
theory Ptrace
  imports Kernel "HOL-Library.Monad_Syntax"
begin

text \<open>
  The \<^verbatim>\<open>pt_\<close> functions of \<^verbatim>\<open>src/core.cc\<close>: waiting for a stop, releasing a tracee, its
  registers, and \<^verbatim>\<open>pt_call\<close>, the call of a function in the target. A loop that polls until a
  deadline need not end, so its result is an option, \<open>None\<close> if it runs forever. An error is
  the \<^verbatim>\<open>errno\<close> of the failed call.
\<close>

section \<open>pt\_wait\<close>

text \<open>An error comes with the terminal status that was consumed, if there was one.\<close>

partial_function (option) wait_loop ::
    "kern \<Rightarrow> int \<Rightarrow> int \<Rightarrow> history \<Rightarrow> ((err \<times> nat option + nat) \<times> history) option" where
  "wait_loop K pid t0 h =
     (if k_clock K h - t0 > 10000 then Some (Inl (ETIMEDOUT, None), h)
      else
        case sys_waitpid K pid h of
          (Inl e, h1) \<Rightarrow> if e = EINTR then wait_loop K pid t0 h1 else Some (Inl (e, None), h1)
        | (Inr None, h1) \<Rightarrow> wait_loop K pid t0 (Slept # h1)
        | (Inr (Some status), h1) \<Rightarrow>
            if WIFSTOPPED status then Some (Inr status, h1) else Some (Inl (ESRCH, Some status), h1))"

definition pt_wait :: "kern \<Rightarrow> int \<Rightarrow> history \<Rightarrow> ((err \<times> nat option + nat) \<times> history) option" where
  "pt_wait K pid h = wait_loop K pid (k_clock K h) h"

section \<open>Who traces a task\<close>

text \<open>\<^verbatim>\<open>fgets\<close> into \<open>n + 1\<close> bytes, to the end of the text.\<close>

function fgets_lines :: "nat \<Rightarrow> string \<Rightarrow> string list" where
  "fgets_lines n s =
     (if s = [] \<or> n = 0 then []
      else
        let p = takeWhile (\<lambda>c. c \<noteq> NL) (take n s);
            l = (if length p < length (take n s) then p @ [NL] else p)
        in l # fgets_lines n (drop (length l) s))"
  by pat_completeness auto
termination
proof (relation "measure (\<lambda>(n, s). length s)")
  fix n :: nat and s :: string and p l
  assume a: "\<not> (s = [] \<or> n = 0)" "p = takeWhile (\<lambda>c. c \<noteq> NL) (take n s)"
    "l = (if length p < length (take n s) then p @ [NL] else p)"
  then have "0 < length (take n s)" by simp
  then have "0 < length l" using a(3) by (cases "length p < length (take n s)") auto
  then show "((n, drop (length l) s), (n, s)) \<in> measure (\<lambda>(n, s). length s)" using a(1) by simp
qed simp

declare fgets_lines.simps [simp del]

text \<open>\<^verbatim>\<open>sscanf(line, "TracerPid:\t\%d", \&tracer)\<close>.\<close>

definition tracer_line :: "string \<Rightarrow> int option" where
  "tracer_line line =
     (if take 10 line \<noteq> ''TracerPid:'' then None
      else let r = strtol 10 (drop 10 line) in if sr_conv r then Some (sint (word_of_int (sr_value r) :: u32)) else None)"

definition saw_tracer :: "string \<Rightarrow> int option" where
  "saw_tracer text =
     (case filter (\<lambda>l. tracer_line l \<noteq> None) (fgets_lines 255 text) of [] \<Rightarrow> None | l # _ \<Rightarrow> tracer_line l)"

text \<open>\<open>Some True\<close> for 1, \<open>Some False\<close> for 0, \<open>None\<close> for -1.\<close>

definition trace_ownership :: "kern \<Rightarrow> int \<Rightarrow> history \<Rightarrow> bool option \<times> history" where
  "trace_ownership K pid h =
     (case k_status K h pid of
        Inl e \<Rightarrow> (if e = ENOENT \<or> e = ESRCH then Some False else None)
      | Inr (text, clean, closed) \<Rightarrow>
          (case saw_tracer text of
             None \<Rightarrow> None
           | Some tracer \<Rightarrow> if \<not> clean \<or> \<not> closed then None else Some (tracer = k_self K)),
      Asked # h)"

section \<open>Detaching\<close>

definition detach_failed :: "kern \<Rightarrow> int \<Rightarrow> err \<Rightarrow> history \<Rightarrow> (err + unit) \<times> history" where
  "detach_failed K pid e h =
     (if e = ESRCH then
        (case trace_ownership K pid h of
           (Some False, h1) \<Rightarrow> (Inl ESRCH, h1)
         | (Some True, h1) \<Rightarrow> (Inl EBUSY, h1)
         | (None, h1) \<Rightarrow> (Inl EIO, h1))
      else (Inl e, h))"

definition pt_detach :: "kern \<Rightarrow> int \<Rightarrow> int \<Rightarrow> history \<Rightarrow> (err + unit) \<times> history" where
  "pt_detach K pid sig h =
     (case sys_ctl K pid (DETACH sig) h of
        (Inr _, h1) \<Rightarrow> (Inr (), h1)
      | (Inl e, h1) \<Rightarrow>
          if e = EINTR \<or> e = EIO then
            (case sys_ctl K pid (DETACH sig) h1 of
               (Inr _, h2) \<Rightarrow> (Inr (), h2)
             | (Inl e, h2) \<Rightarrow> detach_failed K pid e h2)
          else detach_failed K pid e h1)"

definition pt_stop_if_running :: "kern \<Rightarrow> int \<Rightarrow> history \<Rightarrow> ((err \<times> nat option + nat) \<times> history) option" where
  "pt_stop_if_running K pid h =
     (case sys_ctl K pid INTERRUPT h of
        (Inr _, h1) \<Rightarrow> pt_wait K pid h1
      | (Inl _, h1) \<Rightarrow>
          (case sys_kill K pid SIGSTOP h1 of
             (Inl e, h2) \<Rightarrow> Some (Inl (e, None), h2)
           | (Inr _, h2) \<Rightarrow> pt_wait K pid h2))"

definition pt_setregs :: "kern \<Rightarrow> int \<Rightarrow> x64_regs \<Rightarrow> history \<Rightarrow> (err + unit) \<times> history" where
  "pt_setregs K pid regs h =
     (case sys_ctl K pid (SETREGS regs) h of
        (Inr _, h1) \<Rightarrow> (Inr (), h1)
      | (Inl e, h1) \<Rightarrow> if e = EINTR \<or> e = EIO then sys_ctl K pid (SETREGS regs) h1 else (Inl e, h1))"

section \<open>Looking at a stop\<close>

definition regs_has_restart_return :: "x64_regs \<Rightarrow> bool" where
  "regs_has_restart_return regs \<longleftrightarrow> sint (get_rc regs) \<le> - 512 \<and> sint (get_rc regs) \<ge> - 516"

definition detect_leader_death :: "kern \<Rightarrow> int \<Rightarrow> history \<Rightarrow> int \<times> history" where
  "detect_leader_death K pid h =
     (case sys_waitid K pid h of
        (Inr (Some si), h1) \<Rightarrow>
          (if sg_code si = CLD_KILLED \<or> sg_code si = CLD_DUMPED then sg_status si
           else if sg_code si = CLD_EXITED then - 2
           else if (sg_code si = CLD_STOPPED \<or> sg_code si = CLD_TRAPPED) \<and> is_core_dump_signal (sg_status si) then sg_status si
           else 0, h1)
      | (_, h1) \<Rightarrow> (0, h1))"

definition probe_siginfo :: "kern \<Rightarrow> int \<Rightarrow> history \<Rightarrow> int \<times> history" where
  "probe_siginfo K pid h =
     (case sys_siginfo K pid h of
        (Inr si, h1) \<Rightarrow>
          (if is_core_dump_signal (sg_signo si) \<and> (sg_code si = SI_USER \<or> sg_code si = SI_TKILL) then sg_signo si else 0, h1)
      | (Inl _, h1) \<Rightarrow> (0, h1))"

definition probe_crash_stop :: "kern \<Rightarrow> int \<Rightarrow> history \<Rightarrow> int \<times> history" where
  "probe_crash_stop K pid h =
     (let (p, h1) = sys_waitid K pid h in
      case p of
        Inr (Some si) \<Rightarrow>
          if (sg_code si = CLD_STOPPED \<or> sg_code si = CLD_TRAPPED) \<and> is_core_dump_signal (sg_status si) then (sg_status si, h1)
          else probe_siginfo K pid h1
      | _ \<Rightarrow> probe_siginfo K pid h1)"

definition disposition :: "kern \<Rightarrow> int \<Rightarrow> int \<Rightarrow> history \<Rightarrow> (err + bool) \<times> history" where
  "disposition K pid sig h = (signal_has_nondefault_disposition (ce_open (k_capture K h)) pid sig, Asked # h)"

text \<open>Is the tracee stopped at the default notification that \<open>child\<close> has ended?\<close>

definition is_default_snapshot_exit :: "kern \<Rightarrow> int \<Rightarrow> int \<Rightarrow> history \<Rightarrow> bool \<times> history" where
  "is_default_snapshot_exit K pid child h =
     (if child \<le> 0 then (False, h)
      else
        case sys_siginfo K pid h of
          (Inl _, h1) \<Rightarrow> (False, h1)
        | (Inr si, h1) \<Rightarrow>
            if sg_signo si = SIGCHLD \<and> sg_pid si = child \<and>
               (sg_code si = CLD_EXITED \<or> sg_code si = CLD_KILLED \<or> sg_code si = CLD_DUMPED)
            then (let (d, h2) = disposition K pid SIGCHLD h1 in (d = Inr False, h2))
            else (False, h1))"

section \<open>The snapshot child\<close>

definition pt_child_skip_int3 :: "kern \<Rightarrow> int \<Rightarrow> u64 \<Rightarrow> int \<Rightarrow> history \<Rightarrow> history" where
  "pt_child_skip_int3 K child inject_page inject_exit_off h =
     (if child \<le> 0 \<or> inject_page = 0 \<or> inject_exit_off \<le> 0 then h
      else
        case sys_getregs K child h of
          (Inl _, h1) \<Rightarrow> h1
        | (Inr cregs, h1) \<Rightarrow> snd (pt_setregs K child (cregs\<lparr>rip := inject_page + word_of_int inject_exit_off\<rparr>) h1))"

text \<open>Up to \<open>n\<close> polls for the end of a killed child; a stop is continued with the signal.\<close>

fun reap_killed :: "kern \<Rightarrow> int \<Rightarrow> nat \<Rightarrow> history \<Rightarrow> (err + unit) \<times> history" where
  "reap_killed K pid 0 h = (Inl ETIMEDOUT, h)"
| "reap_killed K pid (Suc n) h =
     (case sys_waitpid K pid h of
        (Inr (Some status), h1) \<Rightarrow>
          if WIFEXITED status \<or> WIFSIGNALED status then (Inr (), h1)
          else if WIFSTOPPED status then
            (case sys_ctl K pid (CONT SIGKILL) h1 of
               (Inl e, h2) \<Rightarrow> if e \<noteq> ESRCH then (Inl e, h2) else reap_killed K pid n h2
             | (Inr _, h2) \<Rightarrow> reap_killed K pid n h2)
          else reap_killed K pid n h1
      | (Inl e, h1) \<Rightarrow>
          if e = EINTR then reap_killed K pid n h1
          else if e = ECHILD \<or> e = ESRCH then (Inr (), h1)
          else (Inl e, h1)
      | (Inr None, h1) \<Rightarrow> reap_killed K pid n (Slept # h1))"

text \<open>Is it certain that the task is gone or traced by another process?\<close>

definition not_ours :: "kern \<Rightarrow> int \<Rightarrow> history \<Rightarrow> bool \<times> history" where
  "not_ours K pid h =
     (case k_status K h pid of
        Inl e \<Rightarrow> e = ENOENT \<or> e = ESRCH
      | Inr (text, clean, _) \<Rightarrow> (case saw_tracer text of None \<Rightarrow> False | Some tracer \<Rightarrow> clean \<and> tracer \<noteq> k_self K),
      Asked # h)"

definition kill_and_reap :: "kern \<Rightarrow> int \<Rightarrow> history \<Rightarrow> (err + unit) \<times> history" where
  "kill_and_reap K pid h =
     (case sys_kill K pid SIGKILL h of
        (Inl e, h1) \<Rightarrow> if e \<noteq> ESRCH then (Inl e, h1) else reap_killed K pid 1000 h1
      | (Inr _, h1) \<Rightarrow> reap_killed K pid 1000 h1)"

definition pt_terminate_tracee :: "kern \<Rightarrow> int \<Rightarrow> history \<Rightarrow> (err + unit) \<times> history" where
  "pt_terminate_tracee K pid h =
     (if pid \<le> 0 then (Inr (), h)
      else
        case pt_detach K pid SIGKILL h of
          (Inr _, h1) \<Rightarrow> (Inr (), h1)
        | (Inl e, h1) \<Rightarrow>
            if e = ESRCH then
              (case not_ours K pid h1 of
                 (True, h2) \<Rightarrow> (Inr (), h2)
               | (False, h2) \<Rightarrow> kill_and_reap K pid h2)
            else kill_and_reap K pid h1)"

section \<open>pt\_call\<close>

text \<open>
  What the call has saved of the target, to put it back: the word at the return slot, the
  sixteen words of the red zone, the extended state.
\<close>

record saved =
  sv_slot :: "(u64 \<times> u64) list"
  sv_red :: "(u64 \<times> u64) list"
  sv_xstate :: "bytes option"

text \<open>Every word is written, also after a failure.\<close>

fun poke_words :: "kern \<Rightarrow> int \<Rightarrow> (u64 \<times> u64) list \<Rightarrow> history \<Rightarrow> bool \<times> history" where
  "poke_words K pid [] h = (True, h)"
| "poke_words K pid ((a, w) # ws) h =
     (let (r, h1) = sys_ctl K pid (POKEDATA a w) h;
          (ok, h2) = poke_words K pid ws h1
      in (succeeds r \<and> ok, h2))"

definition restore_saved :: "kern \<Rightarrow> int \<Rightarrow> saved \<Rightarrow> history \<Rightarrow> bool \<times> history" where
  "restore_saved K pid sv h =
     (let (ok1, h1) = poke_words K pid (sv_slot sv) h;
          (ok2, h2) = poke_words K pid (sv_red sv) h1
      in case sv_xstate sv of
           None \<Rightarrow> (ok1 \<and> ok2, h2)
         | Some x \<Rightarrow> let (r, h3) = sys_ctl K pid (SETXSTATE x) h2 in (ok1 \<and> ok2 \<and> succeeds r, h3))"

text \<open>\<open>CallFailed\<close> is -1, \<open>RecoveryFailed\<close> is \<^verbatim>\<open>PT_CALL_RECOVERY_FAILED\<close>; the output parameters.\<close>

datatype call_result = Called x64_regs | CallFailed | RecoveryFailed

record call_out =
  co_rsp :: u64
  co_word :: u64
  co_child :: u64
  co_death :: int
  co_signal :: int

definition call_out_none :: call_out where
  "call_out_none = \<lparr>co_rsp = 0, co_word = 0, co_child = 0, co_death = 0, co_signal = 0\<rparr>"

definition call_fail :: "kern \<Rightarrow> int \<Rightarrow> saved \<Rightarrow> history \<Rightarrow> call_result \<times> history" where
  "call_fail K pid sv h =
     (let (ok, h1) = restore_saved K pid sv h in (if ok then CallFailed else RecoveryFailed, h1))"

fun peek_words :: "kern \<Rightarrow> int \<Rightarrow> u64 list \<Rightarrow> history \<Rightarrow> (err + (u64 \<times> u64) list) \<times> history" where
  "peek_words K pid [] h = (Inr [], h)"
| "peek_words K pid (a # as) h =
     (case sys_peek K pid a h of
        (Inl e, h1) \<Rightarrow> (Inl e, h1)
      | (Inr w, h1) \<Rightarrow>
          (case peek_words K pid as h1 of
             (Inl e, h2) \<Rightarrow> (Inl e, h2)
           | (Inr ws, h2) \<Rightarrow> (Inr ((a, w) # ws), h2)))"

definition red_zone_words :: "u64 \<Rightarrow> u64 list" where
  "red_zone_words sp = map (\<lambda>i. sp - 128 + word_of_nat i * 8) [0..<16]"

definition inject_slot :: "u64 \<Rightarrow> u64" where
  "inject_slot sp = sp - 8 - (sp AND 0xf)"

text \<open>What a status means for the call in progress.\<close>

datatype verdict = Finished | Aborted | Resume

definition crash_verdict :: "kern \<Rightarrow> int \<Rightarrow> history \<Rightarrow> verdict \<times> history" where
  "crash_verdict K pid h =
     (case sys_siginfo K pid h of
        (Inl _, h1) \<Rightarrow> (Aborted, h1)
      | (Inr si, h1) \<Rightarrow> (if sg_code si = SI_USER \<or> sg_code si = SI_TKILL then Aborted else Finished, h1))"

definition fork_event :: "kern \<Rightarrow> int \<Rightarrow> nat \<Rightarrow> call_out \<Rightarrow> history \<Rightarrow> verdict \<times> call_out \<times> history" where
  "fork_event K pid status out h =
     (if status div 256 \<noteq> 5 + PTRACE_EVENT_FORK * 256 then (Resume, out, h)
      else
        case sys_eventmsg K pid h of
          (Inl _, h1) \<Rightarrow> (Aborted, out, h1)
        | (Inr msg, h1) \<Rightarrow> (Resume, out\<lparr>co_child := msg\<rparr>, h1))"

definition stop_verdict :: "kern \<Rightarrow> int \<Rightarrow> int \<Rightarrow> nat \<Rightarrow> call_out \<Rightarrow> history \<Rightarrow> verdict \<times> call_out \<times> history" where
  "stop_verdict K pid reaping_child status out h =
     (let sig = WSTOPSIG status in
      if \<not> WIFSTOPPED status then (Resume, out, h)
      else if sig = SIGSEGV then (let (v, h1) = crash_verdict K pid h in (v, out, h1))
      else if stop_event status \<noteq> 0 then fork_event K pid status out h
      else if is_core_dump_signal sig then (Aborted, out, h)
      else
        let (expected, h1) = (if sig = SIGCHLD then is_default_snapshot_exit K pid reaping_child h else (False, h))
        in if \<not> expected then (Aborted, out\<lparr>co_signal := sig\<rparr>, h1) else fork_event K pid status out h1)"

text \<open>Resume the target and wait until the call is over; \<open>status\<close> is the last one seen.\<close>

definition died :: "nat \<Rightarrow> int" where
  "died status = (if WIFSIGNALED status then WTERMSIG status else - 2)"

partial_function (option) inject_loop ::
    "kern \<Rightarrow> int \<Rightarrow> int \<Rightarrow> int \<Rightarrow> nat \<Rightarrow> call_out \<Rightarrow> history \<Rightarrow> (bool \<times> call_out \<times> history) option" where
  "inject_loop K pid reaping_child t0 status out h =
     (if k_clock K h - t0 > 10000 then
        (case pt_stop_if_running K pid h of None \<Rightarrow> None | Some (_, h1) \<Rightarrow> Some (False, out, h1))
      else
        case stop_verdict K pid reaping_child status out h of
          (Finished, out1, h1) \<Rightarrow> Some (True, out1, h1)
        | (Aborted, out1, h1) \<Rightarrow> Some (False, out1, h1)
        | (Resume, out1, h1) \<Rightarrow>
            (case sys_ctl K pid (CONT 0) h1 of
               (Inl _, h2) \<Rightarrow> Some (False, out1\<lparr>co_death := - 2\<rparr>, h2)
             | (Inr _, h2) \<Rightarrow>
                 (case pt_wait K pid h2 of
                    None \<Rightarrow> None
                  | Some (Inl (e, terminal), h3) \<Rightarrow>
                      let out2 = (case terminal of None \<Rightarrow> out1 | Some s \<Rightarrow> out1\<lparr>co_death := died s\<rparr>)
                      in if e = ETIMEDOUT
                         then (case pt_stop_if_running K pid h3 of None \<Rightarrow> None | Some (_, h4) \<Rightarrow> Some (False, out2, h4))
                         else Some (False, out2, h3)
                  | Some (Inr s, h3) \<Rightarrow> inject_loop K pid reaping_child t0 s out1 h3)))"

definition set_args :: "u64 list \<Rightarrow> x64_regs \<Rightarrow> x64_regs" where
  "set_args argv regs = foldl (\<lambda>r (i, v). set_arg i v r) regs (enumerate 0 argv)"

text \<open>The target is prepared: registers with the call, and what to put back.\<close>

definition prepare_call ::
    "kern \<Rightarrow> int \<Rightarrow> u64 \<Rightarrow> u64 list \<Rightarrow> history \<Rightarrow> bool \<times> saved \<times> call_out \<times> history" where
  "prepare_call K pid func argv h =
     (let sv0 = \<lparr>sv_slot = [], sv_red = [], sv_xstate = None\<rparr> in
      case sys_getregs K pid h of
        (Inl _, h1) \<Rightarrow> (False, sv0, call_out_none, h1)
      | (Inr regs, h1) \<Rightarrow>
     (case sys_getxstate K pid h1 of
        (Inl _, h2) \<Rightarrow> (False, sv0, call_out_none, h2)
      | (Inr x, h2) \<Rightarrow>
          let sv1 = sv0\<lparr>sv_xstate := Some x\<rparr>; inject_rsp = inject_slot (rsp regs) in
     (case sys_peek K pid inject_rsp h2 of
        (Inl _, h3) \<Rightarrow> (False, sv1, call_out_none, h3)
      | (Inr word, h3) \<Rightarrow>
          let sv2 = sv1\<lparr>sv_slot := [(inject_rsp, word)]\<rparr> in
     (case peek_words K pid (red_zone_words (rsp regs)) h3 of
        (Inl _, h4) \<Rightarrow> (False, sv2, call_out_none, h4)
      | (Inr red, h4) \<Rightarrow>
          let sv3 = sv2\<lparr>sv_red := red\<rparr> in
     (case sys_ctl K pid (POKEDATA inject_rsp 0) h4 of
        (Inl _, h5) \<Rightarrow> (False, sv3, call_out_none, h5)
      | (Inr _, h5) \<Rightarrow>
          let out = call_out_none\<lparr>co_rsp := inject_rsp, co_word := word\<rparr> in
     (case pt_setregs K pid (set_args argv (set_pc func (regs\<lparr>rsp := inject_rsp\<rparr>))) h5 of
        (Inl _, h6) \<Rightarrow> (False, sv3, out, h6)
      | (Inr _, h6) \<Rightarrow> (True, sv3, out, h6)))))))"

definition pt_call ::
    "kern \<Rightarrow> int \<Rightarrow> u64 \<Rightarrow> u64 list \<Rightarrow> int \<Rightarrow> history \<Rightarrow> (call_result \<times> call_out \<times> history) option" where
  "pt_call K pid func argv reaping_child h =
     (case prepare_call K pid func argv h of
        (False, sv, out, h1) \<Rightarrow> (case call_fail K pid sv h1 of (r, h2) \<Rightarrow> Some (r, out, h2))
      | (True, sv, out, h1) \<Rightarrow>
          (case inject_loop K pid reaping_child (k_clock K h1) 0 out h1 of
             None \<Rightarrow> None
           | Some (False, out1, h2) \<Rightarrow> (case call_fail K pid sv h2 of (r, h3) \<Rightarrow> Some (r, out1, h3))
           | Some (True, out1, h2) \<Rightarrow>
               (case sys_getregs K pid h2 of
                  (Inl _, h3) \<Rightarrow> (case call_fail K pid sv h3 of (r, h4) \<Rightarrow> Some (r, out1, h4))
                | (Inr oregs, h3) \<Rightarrow>
                    (case restore_saved K pid sv h3 of
                       (ok, h4) \<Rightarrow> Some (if ok then Called oregs else RecoveryFailed, out1, h4)))))"

section \<open>Writing, attaching, stopping\<close>

definition pt_write :: "kern \<Rightarrow> int \<Rightarrow> u64 \<Rightarrow> bytes \<Rightarrow> history \<Rightarrow> (err + unit) \<times> history" where
  "pt_write K pid dest src h =
     (case sys_write K pid dest src h of
        (Inl e, h1) \<Rightarrow> (Inl e, h1)
      | (Inr n, h1) \<Rightarrow> (if n = length src then Inr () else Inl EFAIL, h1))"

text \<open>The signal an attach stop has intercepted, 0 if it is the stop of the attach itself.\<close>

definition attach_signal :: "kern \<Rightarrow> int \<Rightarrow> nat \<Rightarrow> history \<Rightarrow> (err + int) \<times> history" where
  "attach_signal K pid status h =
     (if stop_event status \<noteq> 0 then (Inr 0, h)
      else if WSTOPSIG status \<noteq> SIGSTOP then (Inr (WSTOPSIG status), h)
      else
        case sys_siginfo K pid h of
          (Inr si, h1) \<Rightarrow> (Inr (if sg_code si \<noteq> SI_KERNEL then SIGSTOP else 0), h1)
        | (Inl e, h1) \<Rightarrow> (if e \<noteq> EINVAL then Inl e else Inr 0, h1))"

definition attach_cleanup :: "kern \<Rightarrow> int \<Rightarrow> err \<Rightarrow> err \<Rightarrow> history \<Rightarrow> history" where
  "attach_cleanup K pid wait_errno cleanup_errno h =
     (if wait_errno \<noteq> ESRCH \<and> cleanup_errno \<noteq> ESRCH then
        let h1 = (if cleanup_errno = ETIMEDOUT then snd (sys_kill K pid SIGCONT h) else h)
        in snd (sys_ctl K pid (DETACH 0) h1)
      else h)"

text \<open>The stop has been waited for; \<open>wait_errno\<close> is the error of the first wait.\<close>

definition attach_stopped :: "kern \<Rightarrow> int \<Rightarrow> err option \<Rightarrow> nat \<Rightarrow> history \<Rightarrow> (err + int) \<times> history" where
  "attach_stopped K pid wait_errno status h =
     (case attach_signal K pid status h of
        (Inl e, h1) \<Rightarrow>
          (Inl (case wait_errno of None \<Rightarrow> e | Some w \<Rightarrow> w), snd (pt_detach K pid 0 h1))
      | (Inr relay, h1) \<Rightarrow>
          (case wait_errno of
             Some w \<Rightarrow> (Inl w, snd (pt_detach K pid relay h1))
           | None \<Rightarrow> (Inr relay, h1)))"

text \<open>The result is the signal to relay; every caller asks for it.\<close>

definition pt_attach :: "kern \<Rightarrow> int \<Rightarrow> history \<Rightarrow> ((err + int) \<times> history) option" where
  "pt_attach K pid h =
     (case sys_ctl K pid ATTACH h of
        (Inl e, h1) \<Rightarrow> Some (Inl e, h1)
      | (Inr _, h1) \<Rightarrow>
     (case pt_wait K pid h1 of
        None \<Rightarrow> None
      | Some (Inr status, h2) \<Rightarrow> Some (attach_stopped K pid None status h2)
      | Some (Inl (w, _), h2) \<Rightarrow>
          let failed = (\<lambda>e h. (Inl (if w = ETIMEDOUT then EAGAIN else w), attach_cleanup K pid w e h))
          in if w = ESRCH \<or> w = ETIMEDOUT then Some (failed w h2)
             else
               (case pt_wait K pid h2 of
                  None \<Rightarrow> None
                | Some (Inl (e, _), h3) \<Rightarrow> Some (failed e h3)
                | Some (Inr status, h3) \<Rightarrow> Some (attach_stopped K pid (Some w) status h3))))"

definition pt_int :: "kern \<Rightarrow> int \<Rightarrow> history \<Rightarrow> ((err \<times> nat option + nat) \<times> history) option" where
  "pt_int K pid h =
     (case sys_ctl K pid INTERRUPT h of
        (Inl e, h1) \<Rightarrow> Some (Inl (e, None), h1)
      | (Inr _, h1) \<Rightarrow> pt_wait K pid h1)"

definition pt_cont :: "kern \<Rightarrow> int \<Rightarrow> history \<Rightarrow> (err + unit) \<times> history" where
  "pt_cont K pid h = sys_ctl K pid (CONT 0) h"
end
