(* ===== verification/Tracees.thy ===== *)
theory Tracees
  imports Ptrace "HOL-Library.AList"
begin

text \<open>
  The threads of the target: the helpers of \<^verbatim>\<open>src/core.cc\<close> that list and inspect them, and
  \<^verbatim>\<open>Coredump::monitor_threads\<close>, which puts every one of them under \<^verbatim>\<open>PTRACE_SEIZE\<close> or none. A
  \<^verbatim>\<open>std::set<pid_t>\<close> is the sorted list of its elements, so that loops visit them in order.
\<close>

section \<open>State\<close>

definition tid_insert :: "int \<Rightarrow> int list \<Rightarrow> int list" where "tid_insert t ts = insort_insert t ts"
definition tid_erase :: "int \<Rightarrow> int list \<Rightarrow> int list" where "tid_erase t ts = filter (\<lambda>x. x \<noteq> t) ts"

text \<open>The members of \<^verbatim>\<open>Coredump\<close> that the tracing code uses, and \<^verbatim>\<open>_process._thrd_pid\<close>.\<close>

record mon =
  m_pid :: int
  m_tids :: "int list"                   \<comment> \<open>\<^verbatim>\<open>_monitor_tids\<close>\<close>
  m_relay :: "(int \<times> int) list"         \<comment> \<open>\<^verbatim>\<open>_monitor_relay_signals\<close>\<close>
  m_leader_exited :: bool
  m_crash_tid :: int
  m_recovery_failed :: bool
  m_options :: nat
  m_thrd :: "int list"
  m_bound :: u64                         \<comment> \<open>the static variable of \<^verbatim>\<open>arthur_max_user_va\<close>\<close>

definition mon_new :: "int \<Rightarrow> mon" where
  "mon_new pid = \<lparr>m_pid = pid, m_tids = [], m_relay = [], m_leader_exited = False, m_crash_tid = 0,
     m_recovery_failed = False, m_options = 0, m_thrd = [], m_bound = 0\<rparr>"

text \<open>The signal to hand on to a thread when it is released, 0 for none.\<close>

definition relay_of :: "mon \<Rightarrow> int \<Rightarrow> int" where
  "relay_of m tid = (case map_of (m_relay m) tid of None \<Rightarrow> 0 | Some sig \<Rightarrow> sig)"

definition set_relay :: "int \<Rightarrow> int \<Rightarrow> mon \<Rightarrow> mon" where
  "set_relay tid sig m = m\<lparr>m_relay := AList.update tid sig (m_relay m)\<rparr>"

section \<open>Listing and inspecting\<close>

definition task_tid :: "string \<Rightarrow> int option" where
  "task_tid name =
     (if take 1 name = ''.'' then None
      else
        let r = strtol 10 name in
        if \<not> sr_conv r \<or> sr_end r \<noteq> [] \<or> sr_value r \<le> 0 \<or> sr_range r \<or> sr_value r > int INT_MAX then None
        else Some (sr_value r))"

definition list_task_tids :: "kern \<Rightarrow> int \<Rightarrow> history \<Rightarrow> (err + int list) \<times> history" where
  "list_task_tids K leader h =
     (case k_tasks K h leader of
        Inl e \<Rightarrow> Inl e
      | Inr (names, failure) \<Rightarrow>
          (case failure of
             Some e \<Rightarrow> Inl e
           | None \<Rightarrow> Inr (foldr tid_insert (List.map_filter task_tid names) [])),
      Asked # h)"

definition traced_by_self :: "kern \<Rightarrow> int \<Rightarrow> history \<Rightarrow> bool \<times> history" where
  "traced_by_self K tid h = (let (r, h1) = trace_ownership K tid h in (r = Some True, h1))"

definition task_is_zombie :: "kern \<Rightarrow> int \<Rightarrow> history \<Rightarrow> (err + bool) \<times> history" where
  "task_is_zombie K tid h =
     (case ReadPid (ce_open (k_capture K h)) 4096 tid PROC_TYPE_STAT of
        Inl e \<Rightarrow> Inl e
      | Inr (file, truncated) \<Rightarrow>
          if truncated then Inl EOVERFLOW
          else
            (case ProcStat_Parse (ce_host_page (k_capture K h)) (Some file) of
               Inl _ \<Rightarrow> Inl EPROTO
             | Inr stat \<Rightarrow> if st_pid stat \<noteq> tid then Inl EPROTO else Inr (st_sname stat = CHR ''Z'')),
      Asked # h)"

text \<open>\<open>Some True\<close> for 1, \<open>Some False\<close> for 0, \<open>None\<close> for -1.\<close>

definition belongs_to_thread_group :: "kern \<Rightarrow> int \<Rightarrow> int \<Rightarrow> history \<Rightarrow> bool option \<times> history" where
  "belongs_to_thread_group K leader tid h =
     (case k_access K h leader tid of
        Inr _ \<Rightarrow> Some True
      | Inl e \<Rightarrow> if e = ENOENT \<or> e = ESRCH then Some False else None,
      Asked # h)"

section \<open>monitor\_threads\<close>

text \<open>Seize every thread that is not seized yet; \<open>False\<close> is the jump to \<^verbatim>\<open>fail\<close>.\<close>

fun seize_all :: "kern \<Rightarrow> int \<Rightarrow> int list \<Rightarrow> mon \<Rightarrow> history \<Rightarrow> bool \<times> mon \<times> history" where
  "seize_all K leader [] m h = (True, m, h)"
| "seize_all K leader (tid # tids) m h =
     (if tid = leader \<and> m_leader_exited m \<or> tid \<in> set (m_tids m) then seize_all K leader tids m h
      else
        case sys_ctl K tid (SEIZE (m_options m)) h of
          (Inr _, h1) \<Rightarrow> seize_all K leader tids (m\<lparr>m_tids := tid_insert tid (m_tids m)\<rparr>) h1
        | (Inl e, h1) \<Rightarrow>
            let (dead, h2) =
                  (if tid = leader \<and> (e = ESRCH \<or> e = EPERM)
                   then (let (z, h') = task_is_zombie K leader h1 in (z = Inr True, h')) else (False, h1))
            in if dead then seize_all K leader tids (m\<lparr>m_leader_exited := True\<rparr>) h2
               else if e = ESRCH then seize_all K leader tids m h2
               else
                 let (mine, h3) = (if e = EPERM then traced_by_self K tid h2 else (False, h2))
                 in if mine then seize_all K leader tids (m\<lparr>m_tids := tid_insert tid (m_tids m)\<rparr>) h3
                    else (False, m, h3))"

fun seize_rounds :: "nat \<Rightarrow> kern \<Rightarrow> int \<Rightarrow> mon \<Rightarrow> history \<Rightarrow> bool \<times> mon \<times> history" where
  "seize_rounds 0 K leader m h = (False, m, h)"
| "seize_rounds (Suc n) K leader m h =
     (case list_task_tids K leader h of
        (Inl _, h1) \<Rightarrow> (False, m, h1)
      | (Inr observed, h1) \<Rightarrow>
          (case seize_all K leader observed m h1 of
             (False, m1, h2) \<Rightarrow> (False, m1, h2)
           | (True, m1, h2) \<Rightarrow>
               if m_tids m1 = [] \<or> \<not> m_leader_exited m1 \<and> leader \<notin> set (m_tids m1) then (False, m1, h2)
               else if length (m_tids m1) = length (m_tids m) then (True, m1, h2)
               else seize_rounds n K leader m1 h2))"

text \<open>Undo: stop each thread again, then detach it with the signal it was stopped for.\<close>

definition stop_to_detach :: "kern \<Rightarrow> int \<Rightarrow> history \<Rightarrow> (nat option \<times> history) option" where
  "stop_to_detach K tid h =
     (case sys_ctl K tid INTERRUPT h of
        (Inl _, h1) \<Rightarrow> Some (None, h1)
      | (Inr _, h1) \<Rightarrow>
     (case pt_wait K tid h1 of
        None \<Rightarrow> None
      | Some (Inr s, h2) \<Rightarrow> Some (Some s, h2)
      | Some (Inl (e, _), h2) \<Rightarrow>
          if e \<noteq> ESRCH \<and> e \<noteq> ETIMEDOUT then
            (case pt_wait K tid h2 of
               None \<Rightarrow> None
             | Some (Inr s, h3) \<Rightarrow> Some (Some s, h3)
             | Some (Inl _, h3) \<Rightarrow> Some (None, h3))
          else Some (None, h2)))"

definition startup_relay :: "nat option \<Rightarrow> int" where
  "startup_relay status =
     (case status of None \<Rightarrow> 0 | Some s \<Rightarrow> if WIFSTOPPED s \<and> s div 65536 = 0 then WSTOPSIG s else 0)"

fun undo_seize :: "kern \<Rightarrow> int list \<Rightarrow> history \<Rightarrow> history option" where
  "undo_seize K [] h = Some h"
| "undo_seize K (tid # tids) h =
     (case stop_to_detach K tid h of
        None \<Rightarrow> None
      | Some (status, h1) \<Rightarrow> undo_seize K tids (snd (pt_detach K tid (startup_relay status) h1)))"

abbreviation (input) MONITOR_OPTIONS :: nat where "MONITOR_OPTIONS \<equiv> 64 + 8 + 16" \<comment> \<open>exit, clone, exec\<close>

definition monitor_threads :: "kern \<Rightarrow> int \<Rightarrow> mon \<Rightarrow> history \<Rightarrow> (bool \<times> mon \<times> history) option" where
  "monitor_threads K leader m h =
     (let m0 = m\<lparr>m_tids := [], m_options := MONITOR_OPTIONS\<rparr> in
      case task_is_zombie K leader h of
        (Inl _, h1) \<Rightarrow> Some (False, m0, h1)
      | (Inr zombie, h1) \<Rightarrow>
          (case seize_rounds 64 K leader (m0\<lparr>m_leader_exited := zombie\<rparr>) h1 of
             (True, m1, h2) \<Rightarrow> Some (True, m1, h2)
           | (False, m1, h2) \<Rightarrow>
               (case undo_seize K (m_tids m1) h2 of
                  None \<Rightarrow> None
                | Some h3 \<Rightarrow> Some (False, m1\<lparr>m_tids := []\<rparr>, h3))))"

end
