(* ===== verification/Collect.thy ===== *)
theory Collect
  imports Tracees
begin

text \<open>
  \<^verbatim>\<open>Coredump::collect_threads\<close> and \<^verbatim>\<open>restore_target_after_fail\<close> of \<^verbatim>\<open>src/core.cc\<close>: stop every
  thread of the target for a snapshot, and let it go again when the snapshot fails. Under
  the monitor the threads are seized already and each stop may be the target's own; without
  it they are attached one by one.
\<close>

section \<open>Stops under the monitor\<close>

text \<open>The local variables of the collection.\<close>

record stop_state =
  s_stopped :: "int list"
  s_group :: "int list"       \<comment> \<open>\<^verbatim>\<open>group_stopped\<close>\<close>
  s_fatal :: int              \<comment> \<open>\<^verbatim>\<open>fatal_sig\<close>\<close>
  s_error :: bool             \<comment> \<open>\<^verbatim>\<open>stop_error\<close>\<close>

definition stops_none :: stop_state where
  "stops_none = \<lparr>s_stopped = [], s_group = [], s_fatal = 0, s_error = False\<rparr>"

definition stop_failed :: "stop_state \<times> mon \<Rightarrow> stop_state \<times> mon" where
  "stop_failed sm = (case sm of (st, m) \<Rightarrow> (st\<lparr>s_error := True\<rparr>, m\<lparr>m_recovery_failed := True\<rparr>))"

text \<open>\<^verbatim>\<open>(pid_t)child\<close>.\<close>

definition as_pid :: "u64 \<Rightarrow> int" where
  "as_pid c = sint (ucast c :: u32)"

text \<open>A clone event: the child is owned at once, and released if it is no thread of the target.\<close>

definition record_clone ::
    "kern \<Rightarrow> int \<Rightarrow> int \<Rightarrow> stop_state \<times> mon \<Rightarrow> history \<Rightarrow> ((stop_state \<times> mon) \<times> history) option" where
  "record_clone K leader tid sm h =
     (case sys_eventmsg K tid h of
        (Inl _, h1) \<Rightarrow> Some (stop_failed sm, h1)
      | (Inr child, h1) \<Rightarrow>
          if child = 0 then Some (stop_failed sm, h1)
          else
            let c = as_pid child; st = fst sm; m = (snd sm)\<lparr>m_tids := tid_insert c (m_tids (snd sm))\<rparr> in
            (case belongs_to_thread_group K leader c h1 of
               (None, h2) \<Rightarrow> Some (stop_failed (st, m), h2)
             | (Some True, h2) \<Rightarrow> Some ((st, m), h2)
             | (Some False, h2) \<Rightarrow>
                 (case pt_wait K c h2 of
                    None \<Rightarrow> None
                  | Some (Inl _, h3) \<Rightarrow> Some (stop_failed (st, m), h3)
                  | Some (Inr _, h3) \<Rightarrow>
                      (case pt_detach K c 0 h3 of
                         (Inl _, h4) \<Rightarrow> Some (stop_failed (st, m), h4)
                       | (Inr _, h4) \<Rightarrow> Some ((st, m\<lparr>m_tids := tid_erase c (m_tids m)\<rparr>), h4)))))"

text \<open>A signal of the target: fatal if it dumps core by default, else to be handed on.\<close>

definition record_signal :: "kern \<Rightarrow> int \<Rightarrow> int \<Rightarrow> int \<Rightarrow> stop_state \<times> mon \<Rightarrow> history \<Rightarrow> (stop_state \<times> mon) \<times> history" where
  "record_signal K leader tid sig sm h =
     (let (st, m) = sm; relay = set_relay tid sig m in
      if \<not> is_core_dump_signal sig then ((st, relay), h)
      else
        case disposition K leader sig h of
          (Inl _, h1) \<Rightarrow> (stop_failed (st, relay), h1)
        | (Inr True, h1) \<Rightarrow> ((st, relay), h1)
        | (Inr False, h1) \<Rightarrow>
            (if s_fatal st = 0 then (st\<lparr>s_fatal := sig\<rparr>, m\<lparr>m_crash_tid := tid\<rparr>) else (st, m), h1))"

definition record_stop ::
    "kern \<Rightarrow> int \<Rightarrow> int \<Rightarrow> nat \<Rightarrow> stop_state \<times> mon \<Rightarrow> history \<Rightarrow> ((stop_state \<times> mon) \<times> history) option" where
  "record_stop K leader tid status sm h =
     (if \<not> WIFSTOPPED status then Some (sm, h)
      else
        let ev = stop_event status; sig = WSTOPSIG status;
            sm1 = (if ev = PTRACE_EVENT_STOP \<and> job_control_signal sig
                   then (fst sm\<lparr>s_group := tid_insert tid (s_group (fst sm))\<rparr>, snd sm) else sm)
        in case (if ev = PTRACE_EVENT_CLONE then record_clone K leader tid sm1 h
                 else if ev = 0 \<and> tid \<noteq> m_crash_tid (snd sm1) then Some (record_signal K leader tid sig sm1 h)
                 else Some (sm1, h)) of
             None \<Rightarrow> None
           | Some ((st, m), h1) \<Rightarrow> Some ((st\<lparr>s_stopped := tid_insert tid (s_stopped st)\<rparr>, m), h1))"

section \<open>Collecting under the monitor\<close>

text \<open>
  Seize the threads that are new; \<open>False\<close> is the return of -1. The last test is of the
  \<^verbatim>\<open>errno\<close> that \<^verbatim>\<open>traced_by_self\<close> has left.
\<close>

fun seize_new :: "kern \<Rightarrow> int list \<Rightarrow> mon \<Rightarrow> history \<Rightarrow> bool \<times> mon \<times> history" where
  "seize_new K [] m h = (True, m, h)"
| "seize_new K (tid # tids) m h =
     (if tid \<in> set (m_tids m) then seize_new K tids m h
      else
        case sys_ctl K tid (SEIZE (m_options m)) h of
          (Inr _, h1) \<Rightarrow> seize_new K tids (m\<lparr>m_tids := tid_insert tid (m_tids m)\<rparr>) h1
        | (Inl e, h1) \<Rightarrow>
            let (mine, h2) = (if e = EPERM then traced_by_self K tid h1 else (False, h1))
            in if mine then seize_new K tids (m\<lparr>m_tids := tid_insert tid (m_tids m)\<rparr>) h2
               else if e = ESRCH \<or> e = EPERM \<and> k_status K h1 tid = Inl ESRCH then seize_new K tids m h2
               else (False, m, h2))"

text \<open>Has the thread vanished? \<^verbatim>\<open>kill(tid, 0)\<close> fails with \<^verbatim>\<open>ESRCH\<close>.\<close>

definition vanished :: "kern \<Rightarrow> int \<Rightarrow> history \<Rightarrow> bool \<times> history" where
  "vanished K tid h = (let (r, h1) = sys_kill K tid 0 h in (r = Inl ESRCH, h1))"

definition stop_running ::
    "kern \<Rightarrow> int \<Rightarrow> int \<Rightarrow> stop_state \<times> mon \<Rightarrow> history \<Rightarrow> (bool \<times> (stop_state \<times> mon) \<times> history) option" where
  "stop_running K leader tid sm h =
     (let (st, m) = sm; gone = (st, m\<lparr>m_tids := tid_erase tid (m_tids m)\<rparr>) in
      case sys_getregs K tid h of
        (Inr _, h1) \<Rightarrow> Some (True, (st\<lparr>s_stopped := tid_insert tid (s_stopped st)\<rparr>, m), h1)
      | (Inl _, h1) \<Rightarrow>
     (case sys_ctl K tid INTERRUPT h1 of
        (Inl e, h2) \<Rightarrow>
          let (v, h3) = (if e = ESRCH then vanished K tid h2 else (False, h2))
          in Some (v, if v then gone else sm, h3)
      | (Inr _, h2) \<Rightarrow>
     (case pt_wait K tid h2 of
        None \<Rightarrow> None
      | Some (Inl _, h3) \<Rightarrow> let (v, h4) = vanished K tid h3 in Some (v, if v then gone else sm, h4)
      | Some (Inr status, h3) \<Rightarrow>
          (case record_stop K leader tid status sm h3 of
             None \<Rightarrow> None
           | Some (sm1, h4) \<Rightarrow> Some (\<not> s_error (fst sm1), sm1, h4)))))"

definition stop_one ::
    "kern \<Rightarrow> int \<Rightarrow> int \<Rightarrow> stop_state \<times> mon \<Rightarrow> history \<Rightarrow> (bool \<times> (stop_state \<times> mon) \<times> history) option" where
  "stop_one K leader tid sm h =
     (let (st, m) = sm in
      if tid \<in> set (s_stopped st) \<or> m_leader_exited m \<and> tid = leader then Some (True, sm, h)
      else if tid = m_crash_tid m then Some (True, (st\<lparr>s_stopped := tid_insert tid (s_stopped st)\<rparr>, m), h)
      else
        case sys_waitpid K tid h of
          (Inr (Some status), h1) \<Rightarrow>
            if WIFEXITED status \<or> WIFSIGNALED status
            then Some (tid \<noteq> leader, (st, m\<lparr>m_tids := tid_erase tid (m_tids m)\<rparr>), h1)
            else
              (case record_stop K leader tid status sm h1 of
                 None \<Rightarrow> None
               | Some (sm1, h2) \<Rightarrow> Some (\<not> s_error (fst sm1), sm1, h2))
        | (_, h1) \<Rightarrow> stop_running K leader tid sm h1)"

fun stop_all ::
    "kern \<Rightarrow> int \<Rightarrow> int list \<Rightarrow> stop_state \<times> mon \<Rightarrow> history \<Rightarrow> (bool \<times> (stop_state \<times> mon) \<times> history) option" where
  "stop_all K leader [] sm h = Some (True, sm, h)"
| "stop_all K leader (tid # tids) sm h =
     (case stop_one K leader tid sm h of
        None \<Rightarrow> None
      | Some (False, sm1, h1) \<Rightarrow> Some (False, sm1, h1)
      | Some (True, sm1, h1) \<Rightarrow> stop_all K leader tids sm1 h1)"

text \<open>Job control has stopped the target: keep those stops, release the others.\<close>

fun keep_group_stop :: "kern \<Rightarrow> stop_state \<Rightarrow> int list \<Rightarrow> mon \<Rightarrow> history \<Rightarrow> mon \<times> history" where
  "keep_group_stop K st [] m h = (m, h)"
| "keep_group_stop K st (tid # tids) m h =
     (let (r, h1) = (if tid \<in> set (s_group st) then sys_ctl K tid LISTEN h else sys_ctl K tid (CONT (relay_of m tid)) h)
      in keep_group_stop K st tids (if succeeds r \<or> r = Inl ESRCH then m else m\<lparr>m_recovery_failed := True\<rparr>) h1)"

datatype collected = Collected | CollectFailed | Fatal int | GroupStopSkipped

definition finish_collect :: "kern \<Rightarrow> int \<Rightarrow> int list \<Rightarrow> stop_state \<times> mon \<Rightarrow> history \<Rightarrow> collected \<times> mon \<times> history" where
  "finish_collect K leader confirm sm h =
     (let (st, m) = sm;
          m1 = m\<lparr>m_tids := filter (\<lambda>tid. tid \<in> set confirm \<or> m_leader_exited m \<and> tid = leader) (m_tids m),
                 m_thrd := confirm\<rparr>
      in if s_fatal st \<noteq> 0 then (Fatal (s_fatal st), m1, h)
         else if s_group st \<noteq> [] \<and> m_crash_tid m1 = 0 then
           (let (m2, h1) = keep_group_stop K st confirm m1 h
            in (GroupStopSkipped, m2\<lparr>m_relay := [], m_thrd := []\<rparr>, h1))
         else if m_relay m1 \<noteq> [] then (CollectFailed, m1, h)
         else (Collected, m1, h))"

definition live_tids :: "int \<Rightarrow> mon \<Rightarrow> int list \<Rightarrow> int list" where
  "live_tids leader m tids = (if m_leader_exited m then tid_erase leader tids else tids)"

fun collect_rounds ::
    "nat \<Rightarrow> kern \<Rightarrow> int \<Rightarrow> stop_state \<times> mon \<Rightarrow> history \<Rightarrow> (collected \<times> mon \<times> history) option" where
  "collect_rounds 0 K leader sm h = Some (CollectFailed, snd sm, h)"
| "collect_rounds (Suc n) K leader sm h =
     (case list_task_tids K leader h of
        (Inl _, h1) \<Rightarrow> Some (CollectFailed, snd sm, h1)
      | (Inr observed, h1) \<Rightarrow>
     (case seize_new K (live_tids leader (snd sm) observed) (snd sm) h1 of
        (False, m1, h2) \<Rightarrow> Some (CollectFailed, m1, h2)
      | (True, m1, h2) \<Rightarrow>
     (case stop_all K leader (m_tids m1) (fst sm, m1) h2 of
        None \<Rightarrow> None
      | Some (False, sm2, h3) \<Rightarrow> Some (CollectFailed, snd sm2, h3)
      | Some (True, sm2, h3) \<Rightarrow>
     (case list_task_tids K leader h3 of
        (Inl _, h4) \<Rightarrow> Some (CollectFailed, snd sm2, h4)
      | (Inr listed, h4) \<Rightarrow>
          let confirm = live_tids leader (snd sm2) listed
          in if \<forall>tid \<in> set confirm. tid \<in> set (m_tids (snd sm2)) \<and> tid \<in> set (s_stopped (fst sm2))
             then Some (finish_collect K leader confirm sm2 h4)
             else collect_rounds n K leader sm2 h4))))"


section \<open>Collecting without the monitor\<close>

text \<open>
  Attach the threads that are new. A thread that has gone is skipped, one that cannot be
  stopped is left out for good; any other error gives up.
\<close>

fun attach_new ::
    "kern \<Rightarrow> int list \<Rightarrow> int list \<times> int list \<times> mon \<Rightarrow> history \<Rightarrow> (bool \<times> (int list \<times> int list \<times> mon) \<times> history) option" where
  "attach_new K [] s h = Some (True, s, h)"
| "attach_new K (tid # tids) (stopped, unavailable, m) h =
     (if tid \<in> set stopped \<or> tid \<in> set unavailable then attach_new K tids (stopped, unavailable, m) h
      else
        case pt_attach K tid h of
          None \<Rightarrow> None
        | Some (Inl e, h1) \<Rightarrow>
            if e = ESRCH then attach_new K tids (stopped, unavailable, m) h1
            else if e = EAGAIN then attach_new K tids (stopped, tid_insert tid unavailable, m) h1
            else Some (False, (stopped, unavailable, m), h1)
        | Some (Inr relay, h1) \<Rightarrow>
            let m1 = m\<lparr>m_thrd := m_thrd m @ [tid]\<rparr>
            in attach_new K tids (tid_insert tid stopped, unavailable, if relay \<noteq> 0 then set_relay tid relay m1 else m1) h1)"

fun attach_rounds ::
    "nat \<Rightarrow> kern \<Rightarrow> int \<Rightarrow> int \<Rightarrow> int list \<times> int list \<times> mon \<Rightarrow> history \<Rightarrow> (collected \<times> mon \<times> history) option" where
  "attach_rounds 0 K leader attached (stopped, unavailable, m) h = Some (CollectFailed, m, h)"
| "attach_rounds (Suc n) K leader attached (stopped, unavailable, m) h =
     (case list_task_tids K leader h of
        (Inl _, h1) \<Rightarrow> Some (CollectFailed, m, h1)
      | (Inr observed, h1) \<Rightarrow>
          if attached \<notin> set observed then Some (CollectFailed, m, h1)
          else
     (case attach_new K observed (stopped, unavailable, m) h1 of
        None \<Rightarrow> None
      | Some (False, (_, _, m1), h2) \<Rightarrow> Some (CollectFailed, m1, h2)
      | Some (True, (stopped1, unavailable1, m1), h2) \<Rightarrow>
     (case list_task_tids K leader h2 of
        (Inl _, h3) \<Rightarrow> Some (CollectFailed, m1, h3)
      | (Inr confirm, h3) \<Rightarrow>
          if attached \<notin> set confirm then Some (CollectFailed, m1, h3)
          else if \<forall>tid \<in> set confirm. tid \<in> set stopped1 \<or> tid \<in> set unavailable1 then
            (if attached \<noteq> leader
             then (let (z, h4) = task_is_zombie K leader h3 in Some (if z \<noteq> Inr True then CollectFailed else Collected, m1, h4))
             else Some (Collected, m1, h3))
          else attach_rounds n K leader attached (stopped1, unavailable1, m1) h3)))"

definition collect_threads :: "kern \<Rightarrow> int \<Rightarrow> int \<Rightarrow> mon \<Rightarrow> history \<Rightarrow> (collected \<times> mon \<times> history) option" where
  "collect_threads K leader attached_tid m h =
     (let m0 = m\<lparr>m_thrd := []\<rparr> in
      if m_tids m0 \<noteq> [] then collect_rounds 64 K leader (stops_none, m0\<lparr>m_relay := []\<rparr>) h
      else
        let attached = (if attached_tid = 0 then leader else attached_tid)
        in attach_rounds 64 K leader attached
             ([attached], if attached \<noteq> leader then [leader] else [], m0\<lparr>m_thrd := [attached]\<rparr>) h)"

section \<open>Giving the target back\<close>

text \<open>Detach every thread of a list with its relayed signal; the result is whether all went well.\<close>

fun detach_all :: "kern \<Rightarrow> mon \<Rightarrow> int list \<Rightarrow> history \<Rightarrow> bool \<times> history" where
  "detach_all K m [] h = (True, h)"
| "detach_all K m (tid # tids) h =
     (let (r, h1) = pt_detach K tid (relay_of m tid) h; (ok, h2) = detach_all K m tids h1
      in ((succeeds r \<or> r = Inl ESRCH) \<and> ok, h2))"

text \<open>Continue every thread of a list but the leader.\<close>

fun cont_all :: "kern \<Rightarrow> int list \<Rightarrow> mon \<Rightarrow> history \<Rightarrow> mon \<times> history" where
  "cont_all K [] m h = (m, h)"
| "cont_all K (tid # tids) m h =
     (if tid = m_pid m then cont_all K tids m h
      else
        let (r, h1) = sys_ctl K tid (CONT (relay_of m tid)) h
        in cont_all K tids (if succeeds r \<or> r = Inl ESRCH then m else m\<lparr>m_recovery_failed := True\<rparr>) h1)"

definition restore_target_after_fail :: "kern \<Rightarrow> mon \<Rightarrow> history \<Rightarrow> mon \<times> history" where
  "restore_target_after_fail K m h =
     (if m_tids m = [] then (m\<lparr>m_thrd := [], m_relay := []\<rparr>, snd (detach_all K m (m_thrd m) h))
      else
        let (m1, h1) = cont_all K (m_tids m) m h;
            (r1, h2) = sys_ctl K (m_pid m) (SETOPTIONS (m_options m)) h1;
            (r2, h3) = sys_ctl K (m_pid m) (CONT (relay_of m (m_pid m))) h2;
            bad = (\<lambda>r. \<not> succeeds r \<and> r \<noteq> Inl ESRCH)
        in (m1\<lparr>m_thrd := [], m_relay := [], m_recovery_failed := m_recovery_failed m1 \<or> bad r1 \<or> bad r2\<rparr>, h3))"
end
