(* ===== verification/RemoteSym.thy ===== *)
theory RemoteSym
  imports AcoreLoads CLib
begin

text \<open>
  Finding a function of the target's C library: \<^verbatim>\<open>get_module_address\<close> and
  \<^verbatim>\<open>get_remote_sym_address\<close> of \<^verbatim>\<open>src/core.cc\<close>. The first scans the lines of
  \<^verbatim>\<open>/proc/pid/maps\<close>, the second the ELF image in the target's memory: program headers,
  dynamic section, hash table, symbol table. All of it is data of the target and may be
  damaged or hostile, so every table has a bound and every address a check. The target's
  memory is a map from addresses to readable bytes; \<^verbatim>\<open>pread\<close> on \<^verbatim>\<open>/proc/pid/mem\<close> yields
  the readable bytes before the first hole.
\<close>

section \<open>get\_module\_address\<close>

text \<open>One line of the map: the base address of the mapping, if its file is the module.\<close>

definition module_line :: "string \<Rightarrow> string \<Rightarrow> u64 option" where
  "module_line so_path line =
     (case dropWhile (\<lambda>c. c \<noteq> CHR ''/'') line of
        [] \<Rightarrow> None
      | path \<Rightarrow>
          let bname = (case split_last (CHR ''/'') path of None \<Rightarrow> path | Some (_, b) \<Rightarrow> b);
              find_len = length so_path
          in if take find_len bname \<noteq> so_path then None
             else case drop find_len bname of
                    [] \<Rightarrow> None
                  | c # _ \<Rightarrow>
                      if c \<noteq> CHR ''-'' \<and> c \<noteq> CHR ''.'' then None
                      else
                        let r = strtoull 16 line in
                        if \<not> sr_conv r \<or> take 1 (sr_end r) \<noteq> ''-'' \<or> sr_range r then None
                        else Some (word_of_nat (sr_value r)))"

text \<open>The first such line; \<open>None\<close> for the lines is a failed \<^verbatim>\<open>fopen\<close>.\<close>

fun first_module :: "string \<Rightarrow> string list \<Rightarrow> u64" where
  "first_module so_path [] = 0"
| "first_module so_path (l # ls) = (case module_line so_path l of Some a \<Rightarrow> a | None \<Rightarrow> first_module so_path ls)"

definition get_module_address :: "string list option \<Rightarrow> string \<Rightarrow> u64" where
  "get_module_address maps so_path = (case maps of None \<Rightarrow> 0 | Some ls \<Rightarrow> first_module so_path ls)"

section \<open>Structures\<close>

record Elf64_Sym =
  st_name :: u32
  st_info :: u8
  st_other :: u8
  st_shndx :: u16
  st_val :: u64
  st_size :: u64

definition put_sym :: "Elf64_Sym \<Rightarrow> bytes" where
  "put_sym s = put32 (st_name s) @ le_bytes 1 (unat (st_info s)) @ le_bytes 1 (unat (st_other s)) @
     put16 (st_shndx s) @ put64 (st_val s) @ put64 (st_size s)"

definition get_sym :: "bytes \<Rightarrow> Elf64_Sym" where
  "get_sym bs =
     \<lparr>st_name = get32 (field_at 4 0 bs), st_info = word_of_nat (le_val (field_at 1 4 bs)),
      st_other = word_of_nat (le_val (field_at 1 5 bs)), st_shndx = get16 (field_at 2 6 bs),
      st_val = get64 (field_at 8 8 bs), st_size = get64 (field_at 8 16 bs)\<rparr>"

lemma get_put_u8: "word_of_nat (le_val (le_bytes 1 (unat (x :: u8)))) = x"
  using unsigned_less [of x, where ?'a = nat] by (simp add: le_val_le_bytes)

interpretation csym: byte_codec put_sym get_sym 24 "\<lambda>_. True"
  by unfold_locales (simp_all add: put_sym_def get_sym_def field_at_def get_put_u8 [unfolded One_nat_def] del: le_bytes.simps)

record Elf64_Dyn =
  d_tag :: u64
  d_un :: u64

definition put_dyn :: "Elf64_Dyn \<Rightarrow> bytes" where
  "put_dyn d = put64 (d_tag d) @ put64 (d_un d)"

definition get_dyn :: "bytes \<Rightarrow> Elf64_Dyn" where
  "get_dyn bs = \<lparr>d_tag = get64 (field_at 8 0 bs), d_un = get64 (field_at 8 8 bs)\<rparr>"

interpretation cdyn: byte_codec put_dyn get_dyn 16 "\<lambda>_. True"
  by unfold_locales (simp_all add: put_dyn_def get_dyn_def field_at_def)

lemmas sym_dyn_codec [simp, codec_simps] =
  csym.enc_length [OF TrueI] csym.dec_enc [OF TrueI] cdyn.enc_length [OF TrueI] cdyn.dec_enc [OF TrueI]

abbreviation (input) sizeof_Dyn :: nat where "sizeof_Dyn \<equiv> 16"
abbreviation (input) sizeof_Sym :: nat where "sizeof_Sym \<equiv> 24"
abbreviation (input) UINT64_MAX :: u64 where "UINT64_MAX \<equiv> 18446744073709551615"

abbreviation (input) ARTHUR_MAX_SYM :: nat where "ARTHUR_MAX_SYM \<equiv> 1048576"
abbreviation (input) ARTHUR_MAX_NBUCKETS :: nat where "ARTHUR_MAX_NBUCKETS \<equiv> 1048576"
abbreviation (input) ARTHUR_MAX_BLOOM :: nat where "ARTHUR_MAX_BLOOM \<equiv> 1048576"
abbreviation (input) ARTHUR_MAX_CHAIN :: nat where "ARTHUR_MAX_CHAIN \<equiv> 1048576"
abbreviation (input) ARTHUR_MAX_DYN :: nat where "ARTHUR_MAX_DYN \<equiv> 4096"
abbreviation (input) ARTHUR_MAX_STRTAB :: u64 where "ARTHUR_MAX_STRTAB \<equiv> 67108864"
abbreviation (input) ARTHUR_PT_DYNAMIC :: u32 where "ARTHUR_PT_DYNAMIC \<equiv> 2"

text \<open>A \<^verbatim>\<open>pread\<close> that has to deliver all \<open>n\<close> bytes.\<close>

type_synonym memory = "u64 \<Rightarrow> char option"

definition read_all :: "memory \<Rightarrow> u64 \<Rightarrow> nat \<Rightarrow> bytes option" where
  "read_all mem a n = (let bs = readable_bytes mem a n in if length bs = n then Some bs else None)"

section \<open>Program headers\<close>

definition remote_phdrs :: "memory \<Rightarrow> u64 \<Rightarrow> Phdr list option" where
  "remote_phdrs mem base =
     (case read_all mem base sizeof_Ehdr of
        None \<Rightarrow> None
      | Some bs \<Rightarrow>
          let eh = get_ehdr bs; n = unat (e_phnum eh) in
          if take 4 (e_ident eh) \<noteq> ELFMAG \<or> unat (e_phentsize eh) \<noteq> sizeof_Phdr \<or> base > UINT64_MAX - e_phoff eh then None
          else
            (case read_all mem (base + e_phoff eh) (n * sizeof_Phdr) of
               None \<Rightarrow> None
             | Some ps \<Rightarrow> Some (map (\<lambda>i. get_phdr (field_at sizeof_Phdr (i * sizeof_Phdr) ps)) [0..<n])))"

text \<open>The load bias, and address and size of the dynamic section.\<close>

definition load_bias :: "u64 \<Rightarrow> Phdr list \<Rightarrow> u64 option" where
  "load_bias base phdrs =
     (case filter (\<lambda>p. p_type p = PT_LOAD) phdrs of
        [] \<Rightarrow> None
      | p # _ \<Rightarrow> if base < p_vaddr p then None else Some (base - p_vaddr p))"

definition dynamic_section :: "u64 \<Rightarrow> Phdr list \<Rightarrow> (u64 \<times> u64) option" where
  "dynamic_section bias phdrs =
     (case filter (\<lambda>p. p_type p = ARTHUR_PT_DYNAMIC) phdrs of
        [] \<Rightarrow> None
      | p # _ \<Rightarrow>
          if bias > UINT64_MAX - p_vaddr p then None
          else if bias + p_vaddr p = 0 \<or> unat (p_memsz p) < sizeof_Dyn then None
          else Some (bias + p_vaddr p, p_memsz p))"

section \<open>The dynamic section\<close>

record dyn_info =
  symtab :: u64
  strtab :: u64
  strsz :: u64
  syment :: u64
  hash :: u64
  gnu_hash :: u64

definition dyn_none :: dyn_info where
  "dyn_none = \<lparr>symtab = 0, strtab = 0, strsz = 0, syment = 24, hash = 0, gnu_hash = 0\<rparr>"

definition dyn_set :: "u64 \<Rightarrow> u64 \<Rightarrow> u64 \<Rightarrow> dyn_info \<Rightarrow> dyn_info" where
  "dyn_set tag ptr val di =
     (if tag = 6 then di\<lparr>symtab := ptr\<rparr>
      else if tag = 5 then di\<lparr>strtab := ptr\<rparr>
      else if tag = 10 then di\<lparr>strsz := val\<rparr>
      else if tag = 11 then di\<lparr>syment := val\<rparr>
      else if tag = 4 then di\<lparr>hash := ptr\<rparr>
      else if tag = 0x6ffffef5 then di\<lparr>gnu_hash := ptr\<rparr>
      else di)"

text \<open>
  The entries from the \<open>i\<close>-th on, until \<^verbatim>\<open>DT_NULL\<close>. A pointer below the base is one the
  dynamic linker has not relocated.
\<close>

function dyn_loop :: "memory \<Rightarrow> u64 \<Rightarrow> u64 \<Rightarrow> u64 \<Rightarrow> nat \<Rightarrow> nat \<Rightarrow> dyn_info \<Rightarrow> dyn_info option" where
  "dyn_loop mem base bias dyn_vaddr entries i di =
     (if i \<ge> entries then None
      else if i > unat ((UINT64_MAX - dyn_vaddr) div 16) then None
      else
        case read_all mem (dyn_vaddr + word_of_nat i * 16) sizeof_Dyn of
          None \<Rightarrow> None
        | Some bs \<Rightarrow>
            let dyn = get_dyn bs; ptr = d_un dyn in
            if d_tag dyn = 0 then Some di
            else if ptr \<noteq> 0 \<and> ptr < base then
              (if bias > UINT64_MAX - ptr then None
               else dyn_loop mem base bias dyn_vaddr entries (i + 1) (dyn_set (d_tag dyn) (ptr + bias) (d_un dyn) di))
            else dyn_loop mem base bias dyn_vaddr entries (i + 1) (dyn_set (d_tag dyn) ptr (d_un dyn) di))"
  by pat_completeness auto
termination by (relation "measure (\<lambda>(mem, base, bias, dv, entries, i, di). entries - i)") auto

declare dyn_loop.simps [simp del]

definition read_dynamic :: "memory \<Rightarrow> u64 \<Rightarrow> u64 \<Rightarrow> u64 \<times> u64 \<Rightarrow> dyn_info option" where
  "read_dynamic mem base bias sec =
     (case dyn_loop mem base bias (fst sec) (min (unat (snd sec) div sizeof_Dyn) ARTHUR_MAX_DYN) 0 dyn_none of
        None \<Rightarrow> None
      | Some di \<Rightarrow>
          if symtab di = 0 \<or> strtab di = 0 \<or> strsz di = 0 \<or> strsz di > ARTHUR_MAX_STRTAB \<or> unat (syment di) \<noteq> sizeof_Sym
          then None else Some di)"

section \<open>The number of symbols\<close>

definition read_u32 :: "memory \<Rightarrow> u64 \<Rightarrow> u32 option" where
  "read_u32 mem a = map_option get32 (read_all mem a 4)"

definition sysv_count :: "memory \<Rightarrow> u64 \<Rightarrow> nat option" where
  "sysv_count mem h =
     (if h > UINT64_MAX - 4 then None
      else case (read_u32 mem h, read_u32 mem (h + 4)) of
             (Some nbucket, Some nchain) \<Rightarrow>
               if nbucket = 0 \<or> unat nbucket > ARTHUR_MAX_NBUCKETS \<or> nchain = 0 \<or> unat nchain > ARTHUR_MAX_SYM then None
               else Some (unat nchain)
           | _ \<Rightarrow> None)"

text \<open>
  Along one chain, from symbol \<open>idx\<close> to the entry with the end bit: the largest chain index
  and the number of steps so far, over all chain_tab.
\<close>

function gnu_chain :: "memory \<Rightarrow> u64 \<Rightarrow> u32 \<Rightarrow> u32 \<Rightarrow> nat \<Rightarrow> u32 \<Rightarrow> nat \<Rightarrow> (u32 \<times> nat) option" where
  "gnu_chain mem chain_tab symoffset idx steps max_chain total_steps =
     (if idx < symoffset \<or> steps \<ge> ARTHUR_MAX_CHAIN then None
      else
        let c = idx - symoffset;
            max_chain' = (if c > max_chain then c else max_chain);
            chain_addr = chain_tab + ucast c * 4
        in if chain_addr < chain_tab then None
           else
             case read_u32 mem chain_addr of
               None \<Rightarrow> None
             | Some chain \<Rightarrow>
                 if total_steps + 1 > ARTHUR_MAX_SYM then None
                 else if chain AND 1 \<noteq> 0 then Some (max_chain', total_steps + 1)
                 else gnu_chain mem chain_tab symoffset (idx + 1) (steps + 1) max_chain' (total_steps + 1))"
  by pat_completeness auto
termination by (relation "measure (\<lambda>(mem, chain_tab, so, idx, steps, mc, ts). ARTHUR_MAX_CHAIN - steps)") auto

declare gnu_chain.simps [simp del]

function gnu_buckets :: "memory \<Rightarrow> u64 \<Rightarrow> u64 \<Rightarrow> u32 \<Rightarrow> nat \<Rightarrow> nat \<Rightarrow> bool \<times> u32 \<times> nat \<Rightarrow> (bool \<times> u32) option" where
  "gnu_buckets mem buckets chain_tab symoffset nbuckets b (saw_bucket, max_chain, total_steps) =
     (if b \<ge> nbuckets then Some (saw_bucket, max_chain)
      else
        let bucket_addr = buckets + word_of_nat b * 4 in
        if bucket_addr < buckets then None
        else
          case read_u32 mem bucket_addr of
            None \<Rightarrow> None
          | Some idx \<Rightarrow>
              if idx = 0 then gnu_buckets mem buckets chain_tab symoffset nbuckets (b + 1) (saw_bucket, max_chain, total_steps)
              else if idx < symoffset then None
              else
                (case gnu_chain mem chain_tab symoffset idx 0 max_chain total_steps of
                   None \<Rightarrow> None
                 | Some (mc, ts) \<Rightarrow> gnu_buckets mem buckets chain_tab symoffset nbuckets (b + 1) (True, mc, ts)))"
  by pat_completeness auto
termination by (relation "measure (\<lambda>(mem, bu, ch, so, n, b, st). n - b)") auto

declare gnu_buckets.simps [simp del]

definition gnu_count :: "memory \<Rightarrow> u64 \<Rightarrow> nat option" where
  "gnu_count mem g =
     (case read_all mem g 16 of
        None \<Rightarrow> None
      | Some bs \<Rightarrow>
          let nbuckets = get32 (field_at 4 0 bs); symoffset = get32 (field_at 4 4 bs); bloom_size = get32 (field_at 4 8 bs);
              buckets = g + 16 + ucast bloom_size * 8; chain_tab = buckets + ucast nbuckets * 4
          in if nbuckets = 0 \<or> unat nbuckets > ARTHUR_MAX_NBUCKETS \<or> bloom_size = 0 \<or> unat bloom_size > ARTHUR_MAX_BLOOM \<or>
                symoffset = 0 \<or> unat symoffset > ARTHUR_MAX_SYM \<or> g > UINT64_MAX - 16 \<or>
                ucast bloom_size * 8 > UINT64_MAX - (g + 16) then None
             else if ucast nbuckets * 4 > UINT64_MAX - buckets then None
             else
               (case gnu_buckets mem buckets chain_tab symoffset (unat nbuckets) 0 (False, 0, 0) of
                  None \<Rightarrow> None
                | Some (saw_bucket, max_chain) \<Rightarrow>
                    if saw_bucket \<and> unat symoffset + unat max_chain + 1 > ARTHUR_MAX_SYM then None
                    else Some (if saw_bucket then unat symoffset + unat max_chain + 1 else unat symoffset)))"

definition symbol_count :: "memory \<Rightarrow> dyn_info \<Rightarrow> nat option" where
  "symbol_count mem di =
     (if hash di \<noteq> 0 then sysv_count mem (hash di)
      else if gnu_hash di \<noteq> 0 then gnu_count mem (gnu_hash di)
      else None)"

section \<open>The search\<close>

text \<open>Both tables must be readable to their last byte.\<close>

definition tables_complete :: "memory \<Rightarrow> dyn_info \<Rightarrow> nat \<Rightarrow> bool" where
  "tables_complete mem di sym_count \<longleftrightarrow>
     \<not> sym_count - 1 > unat ((UINT64_MAX - symtab di) div syment di) \<and>
     \<not> symtab di + word_of_nat (sym_count - 1) * syment di > UINT64_MAX - 23 \<and>
     read_all mem (symtab di + word_of_nat (sym_count - 1) * syment di + 23) 1 \<noteq> None \<and>
     \<not> strtab di > UINT64_MAX - (strsz di - 1) \<and>
     read_all mem (strtab di + strsz di - 1) 1 \<noteq> None"

text \<open>The name of a symbol, if it can be read and is at most 254 characters long.\<close>

definition symbol_name :: "memory \<Rightarrow> dyn_info \<Rightarrow> u32 \<Rightarrow> string option" where
  "symbol_name mem di n =
     (let off = ucast n :: u64 in
      if off = 0 \<or> off \<ge> strsz di \<or> strtab di > UINT64_MAX - off then None
      else
        let r = readable_bytes mem (strtab di + off) (min (unat (strsz di - off)) 255)
        in if NUL \<in> set r then Some (takeWhile (\<lambda>c. c \<noteq> NUL) r) else None)"

definition defined_function :: "Elf64_Sym \<Rightarrow> bool" where
  "defined_function sy \<longleftrightarrow>
     (st_info sy AND 0xf = 2 \<or> st_info sy AND 0xf = 0) \<and> st_shndx sy \<noteq> 0 \<and> st_val sy \<noteq> 0"

function symbol_loop :: "memory \<Rightarrow> dyn_info \<Rightarrow> u64 \<Rightarrow> string \<Rightarrow> nat \<Rightarrow> nat \<Rightarrow> u64" where
  "symbol_loop mem di bias func_name sym_count i =
     (if i \<ge> sym_count \<or> i > unat ((UINT64_MAX - symtab di) div syment di) then 0
      else
        case read_all mem (symtab di + word_of_nat i * syment di) sizeof_Sym of
          None \<Rightarrow> 0
        | Some bs \<Rightarrow>
            let sy = get_sym bs in
            if defined_function sy \<and> symbol_name mem di (st_name sy) = Some func_name then
              (if bias > UINT64_MAX - st_val sy then 0 else bias + st_val sy)
            else symbol_loop mem di bias func_name sym_count (i + 1))"
  by pat_completeness auto
termination by (relation "measure (\<lambda>(mem, di, bias, f, n, i). n - i)") auto

declare symbol_loop.simps [simp del]

text \<open>\<open>None\<close> for the memory is a failed \<^verbatim>\<open>open\<close>; the result 0 is ``not found''.\<close>

definition get_remote_sym_address :: "memory option \<Rightarrow> u64 \<Rightarrow> string \<Rightarrow> u64" where
  "get_remote_sym_address opened base func_name =
     (if base = 0 then 0
      else case opened of None \<Rightarrow> 0 | Some mem \<Rightarrow>
        (case remote_phdrs mem base of None \<Rightarrow> 0 | Some phdrs \<Rightarrow>
        (case load_bias base phdrs of None \<Rightarrow> 0 | Some bias \<Rightarrow>
        (case dynamic_section bias phdrs of None \<Rightarrow> 0 | Some sec \<Rightarrow>
        (case read_dynamic mem base bias sec of None \<Rightarrow> 0 | Some di \<Rightarrow>
        (case symbol_count mem di of None \<Rightarrow> 0 | Some sym_count \<Rightarrow>
           if sym_count = 0 \<or> \<not> tables_complete mem di sym_count then 0
           else symbol_loop mem di bias func_name sym_count 0))))))"

end
