(* ===== verification/Snapshot.thy ===== *)
theory Snapshot
  imports Collect RemoteSym
begin

text \<open>
  What \<^verbatim>\<open>forkcore\<close> and \<^verbatim>\<open>forkcore_m\<close> of \<^verbatim>\<open>src/core.cc\<close> share: the test whether a fork of the
  target shows its memory, the bound of a plausible address, the functions to inject, and the
  restoration of a target whose injection failed.
\<close>

section \<open>Can a fork be used?\<close>

text \<open>The addresses and the permissions \<^verbatim>\<open>sscanf(line, "\%llx-\%llx \%4s", ...)\<close> finds.\<close>

definition smaps_region :: "string \<Rightarrow> (u64 \<times> u64 \<times> string) option" where
  "smaps_region line =
     (case scan_ulong 16 line of None \<Rightarrow> None | Some (a, s1) \<Rightarrow>
      case scan_lit CHR ''-'' s1 of None \<Rightarrow> None | Some s2 \<Rightarrow>
      case scan_ulong 16 s2 of None \<Rightarrow> None | Some (b, s3) \<Rightarrow>
      case scan_str 4 s3 of None \<Rightarrow> None | Some (perm, _) \<Rightarrow>
        if (word_of_nat a :: u64) < word_of_nat b \<and> length perm = 4
        then Some (word_of_nat a, word_of_nat b, perm) else None)"

definition region_captured :: "string \<Rightarrow> bool" where
  "region_captured perm \<longleftrightarrow> perm ! 0 = CHR ''r'' \<or> perm ! 1 = CHR ''w'' \<or> perm ! 2 = CHR ''x''"

text \<open>The words of a line, as \<^verbatim>\<open>operator>>\<close> yields them.\<close>

function blank_words :: "string \<Rightarrow> string list" where
  "blank_words s =
     (case dropWhile isspace s of
        [] \<Rightarrow> []
      | t \<Rightarrow> takeWhile (\<lambda>c. \<not> isspace c) t # blank_words (dropWhile (\<lambda>c. \<not> isspace c) t))"
  by pat_completeness auto
termination
proof (relation "measure length", goal_cases)
  case (2 s c t)
  have "\<not> isspace c" using 2 by (metis hd_dropWhile list.distinct(1) list.sel(1))
  then have "length (dropWhile (\<lambda>c. \<not> isspace c) (c # t)) \<le> length t" by (simp add: length_dropWhile_le)
  moreover have "length (c # t) \<le> length s" using 2 by (metis length_dropWhile_le)
  ultimately show ?case by simp
qed simp

declare blank_words.simps [simp del]

text \<open>
  The loop over \<^verbatim>\<open>smaps\<close>: the captured mappings, their \<^verbatim>\<open>VmFlags\<close> lines, whether the current
  mapping is captured; stopped by a mapping that a fork does not copy.
\<close>

fun smaps_loop :: "string list \<Rightarrow> nat \<times> nat \<times> bool \<Rightarrow> (nat \<times> nat) option" where
  "smaps_loop [] (mappings, flags, current) = Some (mappings, flags)"
| "smaps_loop (line # lines) (mappings, flags, current) =
     (case smaps_region line of
        Some (_, _, perm) \<Rightarrow>
          let c = region_captured perm in smaps_loop lines (if c then mappings + 1 else mappings, flags, c)
      | None \<Rightarrow>
          if \<not> current \<or> take 8 line \<noteq> ''VmFlags:'' then smaps_loop lines (mappings, flags, current)
          else if ''dc'' \<in> set (blank_words (drop 8 line)) \<or> ''wf'' \<in> set (blank_words (drop 8 line)) then None
          else smaps_loop lines (mappings, flags + 1, current))"

definition text_lines :: "string \<Rightarrow> string list" where "text_lines s = fgets_lines (length s) s"

definition fork_snapshot_requires_direct_capture :: "kern \<Rightarrow> int \<Rightarrow> MemRegion list \<Rightarrow> history \<Rightarrow> bool \<times> history" where
  "fork_snapshot_requires_direct_capture K pid maps h =
     (case sys_getregs K pid h of
        (Inl _, h1) \<Rightarrow> (True, h1)
      | (Inr regs, h1) \<Rightarrow>
          if regs_has_restart_return regs then (True, h1)
          else if \<exists>r \<in> set maps. perms r \<noteq> 0 \<and> is_shared r then (True, h1)
          else
            (case k_text K h1 (proc_path pid ''smaps'') of
               None \<Rightarrow> True
             | Some (text, bad) \<Rightarrow>
                 (case smaps_loop (text_lines text) (0, 0, False) of
                    None \<Rightarrow> True
                  | Some (mappings, flags) \<Rightarrow> bad \<or> mappings = 0 \<or> flags \<noteq> mappings),
             Asked # h1))"

section \<open>The injection\<close>

text \<open>The machine code between \<^verbatim>\<open>inject_begin\<close> and \<^verbatim>\<open>inject_end\<close>, and the offset of \<^verbatim>\<open>inject_exit\<close>.\<close>

record shellcode =
  sc_code :: bytes
  sc_exit :: int

text \<open>The highest address of Arthur's own mappings, computed once.\<close>

definition maps_range :: "string \<Rightarrow> (u64 \<times> u64) option" where
  "maps_range line =
     (case scan_ulong 16 line of None \<Rightarrow> None | Some (a, s1) \<Rightarrow>
      case scan_lit CHR ''-'' s1 of None \<Rightarrow> None | Some s2 \<Rightarrow>
      case scan_ulong 16 s2 of None \<Rightarrow> None | Some (b, _) \<Rightarrow> Some (word_of_nat a, word_of_nat b))"

definition highest_end :: "string list \<Rightarrow> u64" where
  "highest_end lines =
     foldl (\<lambda>hi line. case maps_range line of Some (a, b) \<Rightarrow> if b > hi then b else hi | None \<Rightarrow> hi) 0 lines"

definition arthur_max_user_va :: "kern \<Rightarrow> mon \<Rightarrow> history \<Rightarrow> u64 \<times> mon \<times> history" where
  "arthur_max_user_va K m h =
     (if m_bound m \<noteq> 0 then (m_bound m, m, h)
      else
        let hi = (case k_text K h ''/proc/self/maps'' of None \<Rightarrow> 0 | Some (text, _) \<Rightarrow> highest_end (fgets_lines 255 text));
            bound = (if hi > 0x00007FFFFFFFFFFF then hi else 0x00007FFFFFFFFFFF)
        in (bound, m\<lparr>m_bound := bound\<rparr>, Asked # h))"

definition implausible_page :: "kern \<Rightarrow> u64 \<Rightarrow> mon \<Rightarrow> history \<Rightarrow> bool \<times> mon \<times> history" where
  "implausible_page K page m h =
     (if page = 0 \<or> page AND 0xfff \<noteq> 0 \<or> page < 0x10000 then (True, m, h)
      else (case arthur_max_user_va K m h of (bound, m1, h1) \<Rightarrow> (page > bound, m1, h1)))"

text \<open>\<^verbatim>\<open>mmap\<close>, \<^verbatim>\<open>munmap\<close> and \<^verbatim>\<open>waitpid\<close> of the target; 0 for one that is not found.\<close>

definition inject_symbols :: "kern \<Rightarrow> int \<Rightarrow> history \<Rightarrow> (u64 \<times> u64 \<times> u64) \<times> history" where
  "inject_symbols K pid h =
     (let base = get_module_address (map_option (\<lambda>(text, _). text_lines text) (k_text K h (proc_path pid ''maps''))) ''libc'';
          sym = get_remote_sym_address (map_option mf_byte (k_mem K h pid)) base
      in ((sym ''mmap'', sym ''munmap'', sym ''waitpid''), Asked # h))"

definition MMAP_ARGS :: "u64 list" where "MMAP_ARGS = [0, 0x1000, 7, 0x22, 0, 0]"

abbreviation (input) TRACEFORK :: nat where "TRACEFORK \<equiv> 2"

section \<open>Writing\<close>

text \<open>The metadata: the process as \<open>source\<close> shows it, thread \<open>first\<close>, then the others.\<close>

definition write_meta ::
    "('e, 'd) lz4_codec \<Rightarrow> capture_env \<Rightarrow> (int \<Rightarrow> thread_env) \<Rightarrow> int \<Rightarrow> (int list \<Rightarrow> int) \<Rightarrow> core \<Rightarrow> ('e, 'd) stream \<Rightarrow>
     (err + MemRegion list) \<times> core \<times> ('e, 'd) stream" where
  "write_meta cdc env te source first c st =
     (case WriteProcessMeta cdc env source c st of
        (Inl e, c1, st1) \<Rightarrow> (Inl e, c1, st1)
      | (Inr maps, c1, st1) \<Rightarrow>
          let tids = pd_thrd_pid (c_process c1) in
          (case WriteThreads cdc env te c1 (first tids # filter (\<lambda>tid. tid \<noteq> first tids) tids) st1 of
             (Inl e, st2) \<Rightarrow> (Inl e, c1, st2)
           | (Inr _, st2) \<Rightarrow> (Inr maps, c1, st2)))"

text \<open>The memory of \<open>pid\<close>, the ELF block, the tail mark.\<close>

definition write_image ::
    "('e, 'd) lz4_codec \<Rightarrow> (int \<Rightarrow> mem_fd option) \<Rightarrow> nat \<Rightarrow> int \<Rightarrow> MemRegion list \<Rightarrow> core \<Rightarrow> ('e, 'd) stream \<Rightarrow>
     ((err + unit) \<times> core \<times> ('e, 'd) stream) option" where
  "write_image cdc om platform pid maps c st =
     (case WriteLoads cdc om pid maps c st of
        None \<Rightarrow> None
      | Some (Inl e, c1, st1) \<Rightarrow> Some (Inl e, c1, st1)
      | Some (Inr _, c1, st1) \<Rightarrow>
     (case WriteElfHeader cdc platform c1 st1 of
        (Inl e, st2) \<Rightarrow> Some (Inl e, c1, st2)
      | (Inr _, st2) \<Rightarrow> (case WriteTailMark cdc st2 of (r, st3) \<Rightarrow> Some (r, c1, st3))))"

end
