(* ===== verification/TestStream.thy ===== *)
theory TestStream
  imports Convert Lz4Reader
begin

text \<open>
  The file compressor of \<^verbatim>\<open>src/core.cc\<close>: \<^verbatim>\<open>Coredump::test_compress\<close>,
  \<^verbatim>\<open>Coredump::test_decompress\<close> and the two helpers that give a compressed stream an atomic
  output file, \<^verbatim>\<open>open_atomic_lz4\<close> and \<^verbatim>\<open>commit_atomic_lz4\<close>.
\<close>

section \<open>A compressed output file\<close>

text \<open>\<open>info\<close> is what \<^verbatim>\<open>OpenFd\<close> learns about the descriptor \<open>fd\<close> of the temporary file.\<close>

definition open_atomic_lz4 ::
    "('e, 'd) lz4_codec \<Rightarrow> os_env \<Rightarrow> nat \<times> nat \<Rightarrow> fd_info \<Rightarrow> nat \<Rightarrow> string \<Rightarrow> ('e, 'd) stream \<Rightarrow> fs \<Rightarrow>
     (err + string \<times> AtomicOutputState) \<times> ('e, 'd) stream \<times> fs" where
  "open_atomic_lz4 cdc os fresh info fd final_path st m =
     (case create_atomic_output os fresh final_path m of
        (Inl e, m1) \<Rightarrow> (Inl e, st, m1)
      | (Inr (temp_path, state), m1) \<Rightarrow>
          (case OpenFd cdc info (int fd) st of
             (Inl e, st1) \<Rightarrow> (Inl e, st1, snd (os_call os UnlinkUnsafe (fs_unlink temp_path) m1))
           | (Inr _, st1) \<Rightarrow> (Inr (temp_path, state), st1, m1)))"

text \<open>The bytes of the stream's file become those of the temporary file when it is closed.\<close>

definition store_closed :: "string \<Rightarrow> FILE option \<Rightarrow> fs \<Rightarrow> fs" where
  "store_closed path f m = (case f of None \<Rightarrow> m | Some f \<Rightarrow> store_file path (fl_data f) m)"

definition commit_atomic_lz4 ::
    "('e, 'd) lz4_codec \<Rightarrow> os_env \<Rightarrow> ('e, 'd) stream \<Rightarrow> string \<Rightarrow> string \<Rightarrow> AtomicOutputState \<Rightarrow> fs \<Rightarrow>
     (err + unit) \<times> fs" where
  "commit_atomic_lz4 cdc os st temp_path final_path state m =
     (let (sync_rc, st1) = Sync cdc st;
          (close_rc, f, st2) = Close cdc st1;
          m1 = store_closed temp_path f m
      in if isl sync_rc \<or> isl close_rc then
           (Inl EFAIL, snd (os_call os UnlinkUnsynced (fs_unlink temp_path) m1))
         else commit_atomic_path os temp_path final_path state m1)"

section \<open>Compressing a file\<close>

definition TEST_STREAM_MAGIC :: bytes where
  "TEST_STREAM_MAGIC = ''ARTHZ4'' @ [CHR 0x00, CHR 0x04]"

text \<open>The inner loop: the bytes of one \<^verbatim>\<open>fread\<close>, a block at most at a time.\<close>

function write_pieces ::
    "('e, 'd) lz4_codec \<Rightarrow> bytes \<Rightarrow> ('e, 'd) stream \<Rightarrow> (err + unit) \<times> ('e, 'd) stream" where
  "write_pieces cdc buf st =
     (if buf = [] then (Inr (), st)
      else
        case Write cdc (Some (take BLOCK_SIZE buf)) st of
          (Inl e, st1) \<Rightarrow> (Inl e, st1)
        | (Inr n, st1) \<Rightarrow> if n = 0 then (Inl EFAIL, st1) else write_pieces cdc (drop BLOCK_SIZE buf) st1)"
  by pat_completeness auto
termination by (relation "measure (\<lambda>(cdc, buf, st). length buf)") auto

declare write_pieces.simps [simp del]

abbreviation (input) COPY_BUF :: nat where "COPY_BUF \<equiv> 4096"

lemma fread_shrinks: "fread n f = (got, f') \<Longrightarrow> got \<noteq> [] \<Longrightarrow> length (unread f') < length (unread f)"
  by (auto simp: fread_def unread_def readable_def Let_def split: option.splits)

function compress_loop ::
    "('e, 'd) lz4_codec \<Rightarrow> FILE \<Rightarrow> ('e, 'd) stream \<Rightarrow> (err + unit) \<times> ('e, 'd) stream" where
  "compress_loop cdc fin st =
     (case fread COPY_BUF fin of
        (buf, fin1) \<Rightarrow>
          if buf = [] then (if fl_err fin1 then Inl EFAIL else Inr (), st)
          else
            (case write_pieces cdc buf st of
               (Inl e, st1) \<Rightarrow> (Inl e, st1)
             | (Inr _, st1) \<Rightarrow>
                 if length buf < COPY_BUF then (if fl_err fin1 then Inl EFAIL else Inr (), st1)
                 else compress_loop cdc fin1 st1))"
  by pat_completeness auto
termination
  by (relation "measure (\<lambda>(cdc, fin, st). length (unread fin))") (auto dest: fread_shrinks [OF sym])

declare compress_loop.simps [simp del]

text \<open>
  The header, the data, the tail mark. \<^verbatim>\<open>EnableBlockChecksums\<close> and \<^verbatim>\<open>SetBlock\<close> are called
  whatever \<^verbatim>\<open>WriteRaw\<close> returned, the rest only while nothing failed.
\<close>

definition compress_stream ::
    "('e, 'd) lz4_codec \<Rightarrow> FILE \<Rightarrow> ('e, 'd) stream \<Rightarrow> (err + unit) \<times> ('e, 'd) stream" where
  "compress_stream cdc fin st =
     (let (w, st1) = WriteRaw cdc (Some TEST_STREAM_MAGIC) st;
          (c, st2) = EnableBlockChecksums True st1;
          (b, st3) = (if isl c then (Inl EFAIL, st2) else SetBlock cdc (int (block_code BLOCK_TYPE_STREAM)) st2)
      in if w \<noteq> Inr (length TEST_STREAM_MAGIC) \<or> isl c \<or> isl b then (Inl EFAIL, st3)
      else
        case compress_loop cdc fin st3 of
          (Inl e, st4) \<Rightarrow> (Inl e, st4)
        | (Inr _, st4) \<Rightarrow>
            (case Flush cdc st4 of
               (Inl e, st5) \<Rightarrow> (Inl e, st5)
             | (Inr _, st5) \<Rightarrow> WriteTailMark cdc st5))"

definition test_compress ::
    "('e, 'd) lz4_codec \<Rightarrow> convert_env \<Rightarrow> fd_info \<Rightarrow> nat \<Rightarrow> string \<Rightarrow> string \<Rightarrow> fs \<Rightarrow> (err + unit) \<times> fs" where
  "test_compress cdc env info fd in_file out_file m =
     (if same_file (cv_stat env) in_file out_file then (Inl EFAIL, m)
      else
        case cv_in env of
          None \<Rightarrow> (Inl EFAIL, m)
        | Some fin \<Rightarrow>
            (case open_atomic_lz4 cdc (cv_os env) (cv_fresh env) info fd out_file (Lz4Stream_new LZ4_Compress) m of
               (Inl e, st, m1) \<Rightarrow> (Inl e, m1)
             | (Inr (temp, state), st, m1) \<Rightarrow>
                 (case compress_stream cdc fin st of
                    (Inr _, st1) \<Rightarrow> commit_atomic_lz4 cdc (cv_os env) st1 temp out_file state m1
                  | (Inl e, st1) \<Rightarrow>
                      let (rc, f, st2) = Close cdc st1; m2 = store_closed temp f m1
                      in (Inl e, snd (os_call (cv_os env) UnlinkAborted (fs_unlink temp) m2)))))"

section \<open>Decompressing a stream\<close>

lemma decode_block_file: "decode_block cdc hdr c k st = (x, st') \<Longrightarrow> s_file st' = s_file st"
  by (auto simp: decode_block_def Let_def split: option.splits prod.splits if_splits)

lemma ReadBlock_shrinks: "ReadBlock cdc st = (Some hb, st') \<Longrightarrow> stream_left st' < stream_left st"
proof -
  assume r: "ReadBlock cdc st = (Some hb, st')"
  then obtain f d where l: "s_file st = Some f" "s_dec st = Some d" "s_clean st" "\<not> s_tail st"
    by (auto simp: ReadBlock_def split: option.splits if_splits)
  obtain h f1 where h: "fread 3 f = (h, f1)" by fastforce
  obtain c f2 where c: "fread (unat (hdr_size (get_hdr h))) f1 = (c, f2)" by fastforce
  obtain k f3 where k: "(if s_sums st then fread 4 f2 else ([], f2)) = (k, f3)" by fastforce
  have "length h = 3 \<and> s_file st' = Some f3"
    using r l h c k by (auto simp: ReadBlock_def Let_def split: if_splits dest!: decode_block_file)
  moreover have "length (unread f3) \<le> length (unread f2)"
    using k fread_unread [of 4 f2 k f3] by (auto split: if_splits)
  moreover have "length (unread f2) \<le> length (unread f1)" using fread_unread [OF c] by simp
  moreover have "length (unread f1) < length (unread f)" if "length h = 3" using fread_unread [OF h] that by simp
  ultimately show ?thesis using l(1) by (simp add: stream_left_def)
qed

function decompress_loop ::
    "('e, 'd) lz4_codec \<Rightarrow> bool \<Rightarrow> FILE \<Rightarrow> ('e, 'd) stream \<Rightarrow> (err + unit) \<times> FILE \<times> ('e, 'd) stream" where
  "decompress_loop cdc typed_stream fout st =
     (case ReadBlock cdc st of
        (None, st1) \<Rightarrow>
          if \<not> s_clean st1 \<or> \<not> s_tail st1 then (Inl EFAIL, fout, st1)
          else (case VerifyPhysicalEof st1 of (r, st2) \<Rightarrow> (if isl r then Inl EFAIL else Inr (), fout, st2))
      | (Some (hdr, b), st1) \<Rightarrow>
          if typed_stream \<and> unat (hdr_type hdr) \<noteq> block_code BLOCK_TYPE_STREAM then (Inl EFAIL, fout, st1)
          else
            (case fwrite (block_rest b) fout of
               (n, fout1) \<Rightarrow>
                 if n \<noteq> Block_Size b then (Inl EFAIL, fout1, st1)
                 else decompress_loop cdc typed_stream fout1 st1))"
  by pat_completeness auto
termination
  by (relation "measure (\<lambda>(cdc, typed, fout, st). stream_left st)") (auto dest: ReadBlock_shrinks [OF sym])

declare decompress_loop.simps [simp del]

text \<open>The optional header: with the magic number the blocks are typed and carry checksums.\<close>

definition stream_header :: "('e, 'd) stream \<Rightarrow> (err + bool) \<times> ('e, 'd) stream" where
  "stream_header st =
     (case Peek (length TEST_STREAM_MAGIC) st of
        (Inl e, st1) \<Rightarrow> (Inl e, st1)
      | (Inr magic, st1) \<Rightarrow>
          if magic \<noteq> TEST_STREAM_MAGIC then (Inr False, st1)
          else
            (case ReadRaw (length TEST_STREAM_MAGIC) st1 of
               (Inl e, st2) \<Rightarrow> (Inl e, st2)
             | (Inr got, st2) \<Rightarrow>
                 if length got \<noteq> length TEST_STREAM_MAGIC then (Inl EFAIL, st2)
                 else
                   (case EnableBlockChecksums True st2 of
                      (Inl e, st3) \<Rightarrow> (Inl e, st3)
                    | (Inr _, st3) \<Rightarrow> (Inr True, st3))))"

definition test_decompress ::
    "('e, 'd) lz4_codec \<Rightarrow> convert_env \<Rightarrow> string \<Rightarrow> string \<Rightarrow> fs \<Rightarrow> (err + unit) \<times> fs" where
  "test_decompress cdc env in_file out_file m =
     (if same_file (cv_stat env) in_file out_file then (Inl EFAIL, m)
      else
        case Open cdc (cv_in env) (Some in_file) (Lz4Stream_new LZ4_Decompress) of
          (Inl e, st) \<Rightarrow> (Inl e, m)
        | (Inr _, st) \<Rightarrow>
            (case stream_header st of
               (Inl e, st1) \<Rightarrow> (Inl e, m)
             | (Inr typed, st1) \<Rightarrow>
                 (case open_atomic_file (cv_os env) (cv_fresh env) (cv_out env) out_file m of
                    (Inl e, m1) \<Rightarrow> (Inl e, m1)
                  | (Inr (fout, temp, state), m1) \<Rightarrow>
                      (case decompress_loop cdc typed fout st1 of
                         (Inr _, fout1, st2) \<Rightarrow> commit_atomic_file (cv_os env) fout1 temp out_file state m1
                       | (Inl e, fout1, st2) \<Rightarrow>
                           (Inl e, snd (os_call (cv_os env) UnlinkAborted (fs_unlink temp) (store_file temp (fl_data fout1) m1)))))))"

end
