(* ===== verification/Generate.thy ===== *)
theory Generate
  imports Collect EndToEnd TestStream
begin

text \<open>
  \<^verbatim>\<open>Coredump::generate\<close> of \<^verbatim>\<open>src/core.cc\<close>, the dump of mode 1: attach and stop every thread,
  write the acore to a temporary file, release the threads, install the file. What the
  kernel shows of the stopped target (its files in \<^verbatim>\<open>/proc\<close>, registers, memory) is that of
  the history at which the writing starts.
\<close>

section \<open>The control thread\<close>

text \<open>The leader has exited: the first live worker that can be attached.\<close>

fun attach_worker :: "kern \<Rightarrow> int \<Rightarrow> int list \<Rightarrow> history \<Rightarrow> ((err + int \<times> int) \<times> history) option" where
  "attach_worker K pid [] h = Some (Inl EFAIL, h)"
| "attach_worker K pid (tid # tids) h =
     (if tid = pid then attach_worker K pid tids h
      else
        case task_is_zombie K tid h of
          (z, h1) \<Rightarrow>
            if z = Inr True then attach_worker K pid tids h1
            else
              (case pt_attach K tid h1 of
                 None \<Rightarrow> None
               | Some (Inr relay, h2) \<Rightarrow> Some (Inr (tid, relay), h2)
               | Some (Inl e, h2) \<Rightarrow>
                   if e = ESRCH \<or> e = EAGAIN then attach_worker K pid tids h2 else Some (Inl e, h2)))"

definition attach_control :: "kern \<Rightarrow> int \<Rightarrow> history \<Rightarrow> ((err + int \<times> int) \<times> history) option" where
  "attach_control K pid h =
     (case task_is_zombie K pid h of
        (z, h1) \<Rightarrow>
          if z = Inr True then
            (case list_task_tids K pid h1 of
               (Inl e, h2) \<Rightarrow> Some (Inl EFAIL, h2)
             | (Inr candidates, h2) \<Rightarrow> attach_worker K pid candidates h2)
          else
            (case pt_attach K pid h1 of
               None \<Rightarrow> None
             | Some (Inl e, h2) \<Rightarrow> Some (Inl e, h2)
             | Some (Inr relay, h2) \<Rightarrow> Some (Inr (pid, relay), h2)))"

section \<open>generate\<close>

text \<open>\<^verbatim>\<open>out.Close(); unlink(corefile)\<close>.\<close>

definition discard_output ::
    "('e, 'd) lz4_codec \<Rightarrow> os_env \<Rightarrow> string \<Rightarrow> ('e, 'd) stream \<Rightarrow> fs \<Rightarrow> fs" where
  "discard_output cdc os temp st m =
     (let (rc, f, st1) = Close cdc st
      in snd (os_call os UnlinkAborted (fs_unlink temp) (store_closed temp f m)))"

definition detach_collected_threads :: "kern \<Rightarrow> mon \<Rightarrow> history \<Rightarrow> bool \<times> mon \<times> history" where
  "detach_collected_threads K m h =
     (let (ok, h1) = detach_all K m (m_thrd m) h in (ok, m\<lparr>m_thrd := [], m_relay := []\<rparr>, h1))"

text \<open>The cleared members of a capture, and its threads.\<close>

definition capture_core :: "core \<Rightarrow> int list \<Rightarrow> core" where
  "capture_core c tids =
     c\<lparr>c_phdrs := [], c_core_pid := 0, c_crash_sig := 0, c_process := (c_process c)\<lparr>pd_thrd_pid := tids\<rparr>\<rparr>"

text \<open>From the attach to the release; \<open>Inr\<close> has the stream with the finished acore.\<close>

definition capture ::
    "kern \<Rightarrow> ('e, 'd) lz4_codec \<Rightarrow> nat \<Rightarrow> core \<Rightarrow> mon \<Rightarrow> ('e, 'd) stream \<Rightarrow> history \<Rightarrow>
     (bool \<times> ('e, 'd) stream \<times> mon \<times> history) option" where
  "capture K cdc platform c m st h =
     (case attach_control K (m_pid m) h of
        None \<Rightarrow> None
      | Some (Inl _, h1) \<Rightarrow> Some (False, st, m, h1)
      | Some (Inr (control, relay), h1) \<Rightarrow>
          let m1 = (if relay \<noteq> 0 then set_relay control relay m else m) in
     (case collect_threads K (m_pid m) control m1 h1 of
        None \<Rightarrow> None
      | Some (r, m2, h2) \<Rightarrow>
          if r \<noteq> Collected then Some (False, st, snd (detach_collected_threads K m2 h2))
          else
     (case write_acore cdc (k_capture K h2) (k_threads K h2) (k_mem K h2) platform control (capture_core c (m_thrd m2)) st of
        None \<Rightarrow> None
      | Some (Inl _, _, st1) \<Rightarrow> Some (False, st1, snd (detach_collected_threads K m2 h2))
      | Some (Inr _, _, st1) \<Rightarrow>
          (case detach_collected_threads K m2 h2 of (ok, m3, h3) \<Rightarrow> Some (ok, st1, m3, h3)))))"

definition generate ::
    "kern \<Rightarrow> ('e, 'd) lz4_codec \<Rightarrow> os_env \<Rightarrow> nat \<times> nat \<Rightarrow> fd_info \<Rightarrow> nat \<Rightarrow> nat \<Rightarrow> core \<Rightarrow> mon \<Rightarrow> string \<Rightarrow>
     history \<Rightarrow> fs \<Rightarrow> ((err + unit) \<times> mon \<times> history \<times> fs) option" where
  "generate K cdc os fresh info fd platform c m corefile h files =
     (let m0 = m\<lparr>m_relay := []\<rparr> in
      case open_atomic_lz4 cdc os fresh info fd corefile (Lz4Stream_new LZ4_Compress) files of
        (Inl e, _, files1) \<Rightarrow> Some (Inl EFAIL, m0, h, files1)
      | (Inr (temp, state), st, files1) \<Rightarrow>
     (case WriteFileHeader cdc platform st of
        (Inl e, st1) \<Rightarrow> Some (Inl EFAIL, m0, h, discard_output cdc os temp st1 files1)
      | (Inr _, st1) \<Rightarrow>
     (case capture K cdc platform c m0 st1 h of
        None \<Rightarrow> None
      | Some (False, st2, m1, h1) \<Rightarrow> Some (Inl EFAIL, m1, h1, discard_output cdc os temp st2 files1)
      | Some (True, st2, m1, h1) \<Rightarrow>
          (case commit_atomic_lz4 cdc os st2 temp corefile state files1 of
             (r, files2) \<Rightarrow> Some (r, m1, h1, files2)))))"

end
