(* ===== verification/Forkcore.thy ===== *)
theory Forkcore
  imports Snapshot Generate
begin

text \<open>
  \<^verbatim>\<open>Coredump::forkcore\<close> of \<^verbatim>\<open>src/core.cc\<close>, the default dump: stop every thread, write the
  metadata, make the leader call \<^verbatim>\<open>fork\<close>, release the target, and write the memory of the
  child, which is a copy of the target's at the stop. With \<open>sys_core\<close> (mode 2) the child is
  left to dump itself. A fork that would not show the memory, or a target without the
  functions to inject, is dumped directly. (The warnings before a mode-2 dump are not modelled.)
\<close>

section \<open>Stopping the target\<close>

definition fork_collect :: "kern \<Rightarrow> mon \<Rightarrow> history \<Rightarrow> (bool \<times> mon \<times> history) option" where
  "fork_collect K m h =
     (let pid = m_pid m in
      case pt_attach K pid h of
        None \<Rightarrow> None
      | Some (Inl _, h1) \<Rightarrow> Some (False, m, h1)
      | Some (Inr relay, h1) \<Rightarrow>
          (case collect_threads K pid 0 (if relay \<noteq> 0 then set_relay pid relay m else m) h1 of
             None \<Rightarrow> None
           | Some (r, m2, h2) \<Rightarrow>
               if r \<noteq> Collected \<or> map_of (m_relay m2) pid \<noteq> None
               then Some (False, restore_target_after_fail K m2 h2) else Some (True, m2, h2)))"

section \<open>Injecting\<close>

text \<open>A call has failed: the registers as they were, the signal it met to be handed on.\<close>

definition inject_abort :: "kern \<Rightarrow> x64_regs \<Rightarrow> int \<Rightarrow> mon \<Rightarrow> history \<Rightarrow> mon \<times> history" where
  "inject_abort K saved sig m h =
     (let (r, h1) = pt_setregs K (m_pid m) saved h;
          (sig1, h2) = (if sig = 0 then probe_crash_stop K (m_pid m) h1 else (sig, h1))
      in restore_target_after_fail K (if sig1 \<noteq> 0 then set_relay (m_pid m) sig1 m else m) h2)"

definition inject_undo :: "kern \<Rightarrow> x64_regs \<Rightarrow> mon \<Rightarrow> history \<Rightarrow> mon \<times> history" where
  "inject_undo K saved m h = (let (r, h1) = pt_setregs K (m_pid m) saved h in restore_target_after_fail K m h1)"

text \<open>A page for the code; \<open>None\<close> if the dump is given up.\<close>

definition inject_mmap ::
    "kern \<Rightarrow> u64 \<Rightarrow> x64_regs \<Rightarrow> mon \<Rightarrow> history \<Rightarrow> (u64 option \<times> mon \<times> history) option" where
  "inject_mmap K r_mmap saved m h =
     (case pt_call K (m_pid m) r_mmap MMAP_ARGS 0 h of
        None \<Rightarrow> None
      | Some (r, out, h1) \<Rightarrow>
          (case r of
             Called regs \<Rightarrow>
               (case implausible_page K (get_rc regs) m h1 of
                  (True, m1, h2) \<Rightarrow> Some (None, inject_undo K saved m1 h2)
                | (False, m1, h2) \<Rightarrow> Some (Some (get_rc regs), m1, snd (sys_getregs K (m_pid m) h2)))
           | _ \<Rightarrow> Some (None, inject_abort K saved (co_signal out) m h1)))"

text \<open>The fork; the word the call has overwritten is put back in the child.\<close>

definition inject_fork ::
    "kern \<Rightarrow> shellcode \<Rightarrow> bool \<Rightarrow> u64 \<Rightarrow> x64_regs \<Rightarrow> mon \<Rightarrow> history \<Rightarrow> (int option \<times> mon \<times> history) option" where
  "inject_fork K sc sys_core page saved m h =
     (case pt_write K (m_pid m) page (sc_code sc) h of
        (Inl _, h1) \<Rightarrow> Some (None, inject_undo K saved m h1)
      | (Inr _, h1) \<Rightarrow>
     (case pt_call K (m_pid m) page [] 0 h1 of
        None \<Rightarrow> None
      | Some (Called regs, out, h2) \<Rightarrow>
          let child = as_pid (get_rc regs) in
          if child \<le> 0 then Some (None, inject_undo K saved m h2)
          else if co_rsp out = 0 then Some (Some child, m, h2)
          else
            (case sys_ctl K child (POKEDATA (co_rsp out) (co_word out)) h2 of
               (Inr _, h3) \<Rightarrow> Some (Some child, m, h3)
             | (Inl _, h3) \<Rightarrow>
                 if sys_core then Some (Some child, m, h3)
                 else Some (None, inject_undo K saved m
                        (snd (pt_terminate_tracee K child (pt_child_skip_int3 K child page (sc_exit sc) h3)))))
      | Some (_, out, h2) \<Rightarrow>
          Some (None, inject_abort K saved (co_signal out) m
            (if 0 < co_child out \<and> \<not> sys_core then snd (pt_terminate_tracee K (as_pid (co_child out)) h2) else h2))))"

text \<open>The signal the leader was stopped by during the call, 0 for none.\<close>

definition inject_munmap :: "kern \<Rightarrow> u64 \<Rightarrow> u64 \<Rightarrow> mon \<Rightarrow> history \<Rightarrow> (int \<times> history) option" where
  "inject_munmap K r_munmap page m h =
     (case pt_call K (m_pid m) r_munmap [page, 0x1000] 0 h of
        None \<Rightarrow> None
      | Some (Called _, _, h1) \<Rightarrow> Some (0, h1)
      | Some (_, out, h1) \<Rightarrow> Some (if co_signal out = 0 then probe_crash_stop K (m_pid m) h1 else (co_signal out, h1)))"

text \<open>End the child, if it is traced.\<close>

definition end_child :: "kern \<Rightarrow> bool \<Rightarrow> int \<Rightarrow> history \<Rightarrow> bool \<times> history" where
  "end_child K sys_core child h =
     (if sys_core then (True, h) else (case pt_terminate_tracee K child h of (r, h1) \<Rightarrow> (succeeds r, h1)))"

text \<open>The registers of the leader are put back and every thread is released.\<close>

definition fork_release ::
    "kern \<Rightarrow> bool \<Rightarrow> int \<Rightarrow> x64_regs \<Rightarrow> int \<Rightarrow> mon \<Rightarrow> history \<Rightarrow> bool \<times> mon \<times> history" where
  "fork_release K sys_core child saved sig m h =
     (case pt_setregs K (m_pid m) saved h of
        (Inl _, h1) \<Rightarrow> (False, restore_target_after_fail K m (snd (end_child K sys_core child h1)))
      | (Inr _, h1) \<Rightarrow>
          let (ok, h2) = detach_all K (if sig \<noteq> 0 then set_relay (m_pid m) sig m else m) (m_thrd m) h1;
              m1 = m\<lparr>m_thrd := [], m_relay := []\<rparr>
          in if ok then (True, m1, h2) else (False, m1, snd (end_child K sys_core child h2)))"

text \<open>
  From the stopped target to the released one; the result is the child and the page of the
  code, \<open>None\<close> if the dump is given up.
\<close>

definition fork_target ::
    "kern \<Rightarrow> shellcode \<Rightarrow> bool \<Rightarrow> u64 \<times> u64 \<times> u64 \<Rightarrow> mon \<Rightarrow> history \<Rightarrow> ((int \<times> u64) option \<times> mon \<times> history) option" where
  "fork_target K sc sys_core syms m h =
     (let pid = m_pid m; give_up = (\<lambda>h. Some (None, restore_target_after_fail K m h)) in
      case (if sys_core then (Inr (), h) else sys_ctl K pid (SETOPTIONS (m_options m OR TRACEFORK)) h) of
        (Inl _, h1) \<Rightarrow> give_up h1
      | (Inr _, h1) \<Rightarrow>
     (case sys_getregs K pid h1 of
        (Inl _, h2) \<Rightarrow> give_up h2
      | (Inr saved, h2) \<Rightarrow>
     (case inject_mmap K (fst syms) saved m h2 of
        None \<Rightarrow> None
      | Some (None, m1, h3) \<Rightarrow> Some (None, m1, h3)
      | Some (Some page, m1, h3) \<Rightarrow>
     (case inject_fork K sc sys_core page saved m1 h3 of
        None \<Rightarrow> None
      | Some (None, m2, h4) \<Rightarrow> Some (None, m2, h4)
      | Some (Some child, m2, h4) \<Rightarrow>
     (case inject_munmap K (fst (snd syms)) page m2 h4 of
        None \<Rightarrow> None
      | Some (sig, h5) \<Rightarrow>
          (case fork_release K sys_core child saved sig m2 h5 of
             (ok, m3, h6) \<Rightarrow> Some (if ok then Some (child, page) else None, m3, h6)))))))"

section \<open>The end of the child\<close>

text \<open>The target is made to wait for its dead child; \<open>False\<close> if it could not be restored.\<close>

definition reap_call :: "kern \<Rightarrow> bool \<Rightarrow> u64 \<Rightarrow> int \<Rightarrow> int \<Rightarrow> x64_regs \<Rightarrow> history \<Rightarrow> (bool \<times> history) option" where
  "reap_call K sys_core r_waitpid pid child saved h =
     (let finish = (\<lambda>sig h.
        let (r, h1) = pt_setregs K pid saved h; (d, h2) = pt_detach K pid sig h1
        in Some (succeeds r \<and> (succeeds d \<or> d = Inl ESRCH), h2))
      in if regs_has_restart_return saved then finish 0 h
         else
           case pt_call K pid r_waitpid [word_of_int child, 0, 0] (if sys_core then 0 else child) h of
             None \<Rightarrow> None
           | Some (Called _, _, h1) \<Rightarrow> finish 0 h1
           | Some (_, out, h1) \<Rightarrow>
               (let (sig, h2) = (if co_signal out = 0 then probe_crash_stop K pid h1 else (co_signal out, h1)) in finish sig h2))"

definition reap_child :: "kern \<Rightarrow> bool \<Rightarrow> u64 \<Rightarrow> int \<Rightarrow> int \<Rightarrow> history \<Rightarrow> (bool \<times> history) option" where
  "reap_child K sys_core r_waitpid pid child h =
     (let release = (\<lambda>sig h. let (d, h1) = pt_detach K pid sig h in Some (succeeds d \<or> d = Inl ESRCH, h1)) in
      case pt_attach K pid h of
        None \<Rightarrow> None
      | Some (Inl _, h1) \<Rightarrow> Some (True, h1)
      | Some (Inr relay, h1) \<Rightarrow>
          let (expected, h2) =
                (if relay \<noteq> 0 \<and> \<not> sys_core \<and> relay = SIGCHLD then is_default_snapshot_exit K pid child h1 else (False, h1))
          in if relay \<noteq> 0 \<and> \<not> expected then release relay h2
             else
               (case sys_getregs K pid h2 of
                  (Inl _, h3) \<Rightarrow> release 0 h3
                | (Inr saved, h3) \<Rightarrow> reap_call K sys_core r_waitpid pid child saved h3))"

section \<open>forkcore\<close>

definition fork_direct ::
    "kern \<Rightarrow> ('e, 'd) lz4_codec \<Rightarrow> nat \<Rightarrow> MemRegion list \<Rightarrow> core \<Rightarrow> mon \<Rightarrow> ('e, 'd) stream \<Rightarrow> history \<Rightarrow>
     (bool \<times> ('e, 'd) stream \<times> mon \<times> history) option" where
  "fork_direct K cdc platform maps c m st h =
     (case write_image cdc (k_mem K h) platform (m_pid m) maps c st of
        None \<Rightarrow> None
      | Some (r, _, st1) \<Rightarrow>
          (case detach_all K m (m_thrd m) h of
             (ok, h1) \<Rightarrow> Some (succeeds r \<and> ok, st1, m\<lparr>m_thrd := [], m_relay := []\<rparr>, h1)))"

text \<open>The memory of the child (mode 0), its end, and the last restoration of the target.\<close>

definition fork_image ::
    "kern \<Rightarrow> ('e, 'd) lz4_codec \<Rightarrow> nat \<Rightarrow> shellcode \<Rightarrow> bool \<Rightarrow> u64 \<Rightarrow> int \<times> u64 \<Rightarrow> MemRegion list \<Rightarrow> core \<Rightarrow> mon \<Rightarrow>
     ('e, 'd) stream \<Rightarrow> history \<Rightarrow> (bool \<times> ('e, 'd) stream \<times> mon \<times> history) option" where
  "fork_image K cdc platform sc sys_core r_waitpid child_page maps c m st h =
     (let (child, page) = child_page;
          kill_child = (\<lambda>h. end_child K sys_core child (pt_child_skip_int3 K child page (sc_exit sc) h))
      in case (if sys_core then Some (Inr (), c, st) else write_image cdc (k_mem K h) platform child maps c st) of
           None \<Rightarrow> None
         | Some (Inl _, _, st1) \<Rightarrow> Some (False, st1, m, snd (kill_child h))
         | Some (Inr _, _, st1) \<Rightarrow>
             (case kill_child h of
                (ended, h1) \<Rightarrow>
                  (case reap_child K sys_core r_waitpid (m_pid m) child h1 of
                     None \<Rightarrow> None
                   | Some (restored, h2) \<Rightarrow> Some (ended \<and> restored, st1, m, h2))))"

definition fork_capture ::
    "kern \<Rightarrow> ('e, 'd) lz4_codec \<Rightarrow> nat \<Rightarrow> shellcode \<Rightarrow> bool \<Rightarrow> core \<Rightarrow> mon \<Rightarrow> ('e, 'd) stream \<Rightarrow> history \<Rightarrow>
     (bool \<times> ('e, 'd) stream \<times> mon \<times> history) option" where
  "fork_capture K cdc platform sc sys_core c m st h =
     (case fork_collect K m h of
        None \<Rightarrow> None
      | Some (False, m1, h1) \<Rightarrow> Some (False, st, m1, h1)
      | Some (True, m1, h1) \<Rightarrow>
     (case write_meta cdc (k_capture K h1) (k_threads K h1) 0 (\<lambda>_. m_pid m) (capture_core c (m_thrd m1)) st of
        (Inl _, _, st1) \<Rightarrow> Some (False, st1, restore_target_after_fail K m1 h1)
      | (Inr maps, c1, st1) \<Rightarrow>
          let (direct, h2) = (if sys_core then (False, h1) else fork_snapshot_requires_direct_capture K (m_pid m) maps h1);
              (syms, h3) = (if direct then ((0, 0, 0), h2) else inject_symbols K (m_pid m) h2);
              missing = (fst syms = 0 \<or> fst (snd syms) = 0 \<or> snd (snd syms) = 0)
          in if direct \<or> missing \<and> \<not> sys_core then fork_direct K cdc platform maps c1 m1 st1 h3
             else if missing then Some (False, st1, restore_target_after_fail K m1 h3)
             else
               (case fork_target K sc sys_core syms m1 h3 of
                  None \<Rightarrow> None
                | Some (None, m2, h4) \<Rightarrow> Some (False, st1, m2, h4)
                | Some (Some child_page, m2, h4) \<Rightarrow>
                    fork_image K cdc platform sc sys_core (snd (snd syms)) child_page maps
                      (c1\<lparr>c_core_pid := fst child_page\<rparr>) m2 st1 h4)))"

definition forkcore ::
    "kern \<Rightarrow> ('e, 'd) lz4_codec \<Rightarrow> os_env \<Rightarrow> nat \<times> nat \<Rightarrow> fd_info \<Rightarrow> nat \<Rightarrow> nat \<Rightarrow> shellcode \<Rightarrow> bool \<Rightarrow> core \<Rightarrow> mon \<Rightarrow>
     string \<Rightarrow> history \<Rightarrow> fs \<Rightarrow> ((err + unit) \<times> mon \<times> history \<times> fs) option" where
  "forkcore K cdc os fresh info fd platform sc sys_core c m corefile h files =
     (let (zombie, h0) = (if sys_core then (Inr False, h) else task_is_zombie K (m_pid m) h); m0 = m\<lparr>m_relay := []\<rparr> in
      if zombie = Inr True then generate K cdc os fresh info fd platform c m corefile h0 files
      else
        case open_atomic_lz4 cdc os fresh info fd corefile (Lz4Stream_new LZ4_Compress) files of
          (Inl e, _, files1) \<Rightarrow> Some (Inl EFAIL, m0, h0, files1)
        | (Inr (temp, state), st, files1) \<Rightarrow>
       (case (if sys_core then (Inr (), st) else WriteFileHeader cdc platform st) of
          (Inl e, st1) \<Rightarrow> Some (Inl EFAIL, m0, h0, discard_output cdc os temp st1 files1)
        | (Inr _, st1) \<Rightarrow>
       (case fork_capture K cdc platform sc sys_core c m0 st1 h0 of
          None \<Rightarrow> None
        | Some (False, st2, m1, h1) \<Rightarrow> Some (Inl EFAIL, m1, h1, discard_output cdc os temp st2 files1)
        | Some (True, st2, m1, h1) \<Rightarrow>
            (case commit_atomic_lz4 cdc os st2 temp corefile state files1 of
               (r, files2) \<Rightarrow> Some (r, m1, h1, files2)))))"

end
