(* ===== verification/ForkcoreM.thy ===== *)
theory ForkcoreM
  imports Forkcore
begin

text \<open>
  \<^verbatim>\<open>Coredump::forkcore_m\<close> of \<^verbatim>\<open>src/core.cc\<close>: the snapshot of a monitored target, which stays
  traced. Every outcome of the target's own - a signal, a crash, a group stop, its death -
  during the snapshot has to be kept: relayed, or returned to the monitor. The result is the
  code's return value; a negative one is -1 (failed), -2 (the leader is gone), -3 (dumped, and
  the target is in a group stop) or -5 (not dumped because of a group stop), a positive one is
  a signal.
\<close>

section \<open>Failed requests\<close>

definition flag_if :: "bool \<Rightarrow> mon \<Rightarrow> mon" where
  "flag_if b m = (if b then m\<lparr>m_recovery_failed := True\<rparr> else m)"

definition bad_request :: "err + unit \<Rightarrow> bool" where
  "bad_request r \<longleftrightarrow> \<not> succeeds r \<and> r \<noteq> Inl ESRCH"

definition restore_saved_gprs :: "kern \<Rightarrow> x64_regs \<Rightarrow> mon \<Rightarrow> history \<Rightarrow> mon \<times> history" where
  "restore_saved_gprs K saved m h = (let (r, h1) = pt_setregs K (m_pid m) saved h in (flag_if (\<not> succeeds r) m, h1))"

definition undo_m :: "kern \<Rightarrow> x64_regs \<Rightarrow> mon \<Rightarrow> history \<Rightarrow> mon \<times> history" where
  "undo_m K saved m h = (let (m1, h1) = restore_saved_gprs K saved m h in restore_target_after_fail K m1 h1)"

text \<open>
  The leader was stopped by a signal during a call: one that dumps core by default is kept
  for the monitor, any other is handed on. The result is the return value.
\<close>

definition settle_signal :: "kern \<Rightarrow> int \<Rightarrow> mon \<Rightarrow> history \<Rightarrow> int \<times> mon \<times> history" where
  "settle_signal K sig m h =
     (let (d, h1) = (if is_core_dump_signal sig then disposition K (m_pid m) sig h else (Inr True, h)) in
      if d = Inr False then
        let (r, h2) = sys_ctl K (m_pid m) (SETOPTIONS (m_options m)) h1
        in (sig, flag_if (bad_request r) (m\<lparr>m_crash_tid := m_pid m\<rparr>), h2)
      else (- 1, restore_target_after_fail K (set_relay (m_pid m) sig (flag_if (isl d) m)) h1))"

definition mmap_failed :: "kern \<Rightarrow> x64_regs \<Rightarrow> call_out \<Rightarrow> mon \<Rightarrow> history \<Rightarrow> int \<times> mon \<times> history" where
  "mmap_failed K saved out m h =
     (let pid = m_pid m in
      if co_signal out \<noteq> 0 then
        let (m1, h1) = restore_saved_gprs K saved m h
        in (- 1, restore_target_after_fail K (set_relay pid (co_signal out) m1) h1)
      else
        let (crash, h1) = probe_crash_stop K pid h in
        if crash \<noteq> 0 then
          let (d, h2) = disposition K pid crash h1 in
          if d = Inr False then
            (crash, m\<lparr>m_crash_tid := pid\<rparr>, snd (sys_ctl K pid (SETOPTIONS (m_options m)) h2))
          else
            let (m1, h3) = restore_saved_gprs K saved m h2
            in (- 1, restore_target_after_fail K (flag_if (isl d) (set_relay pid crash m1)) h3)
        else
          let (death, h2) = (if co_death out \<noteq> 0 then (co_death out, h1) else detect_leader_death K pid h1) in
          if death \<noteq> 0 then
            (if is_core_dump_signal death then (death, m\<lparr>m_crash_tid := pid\<rparr>, h2) else (- 2, m, h2))
          else (- 1, undo_m K saved m h2))"

section \<open>Injecting\<close>

text \<open>\<open>Inl\<close> is the return value of a snapshot that is given up.\<close>

definition inject_mmap_m ::
    "kern \<Rightarrow> u64 \<Rightarrow> x64_regs \<Rightarrow> mon \<Rightarrow> history \<Rightarrow> ((int + u64) \<times> mon \<times> history) option" where
  "inject_mmap_m K r_mmap saved m h =
     (case pt_call K (m_pid m) r_mmap MMAP_ARGS 0 h of
        None \<Rightarrow> None
      | Some (r, out, h1) \<Rightarrow>
          (case r of
             Called regs \<Rightarrow>
               (case implausible_page K (get_rc regs) m h1 of
                  (True, m1, h2) \<Rightarrow> Some (Inl (- 1), undo_m K saved m1 h2)
                | (False, m1, h2) \<Rightarrow> Some (Inr (get_rc regs), m1, snd (sys_getregs K (m_pid m) h2)))
           | _ \<Rightarrow>
               (case mmap_failed K saved out (flag_if (r = RecoveryFailed) m) h1 of
                  (rc, m1, h2) \<Rightarrow> Some (Inl rc, m1, h2))))"

definition end_child_m :: "kern \<Rightarrow> int \<Rightarrow> mon \<Rightarrow> history \<Rightarrow> mon \<times> history" where
  "end_child_m K child m h = (let (r, h1) = pt_terminate_tracee K child h in (flag_if (\<not> succeeds r) m, h1))"

definition fork_failed :: "kern \<Rightarrow> bool \<Rightarrow> x64_regs \<Rightarrow> call_out \<Rightarrow> mon \<Rightarrow> history \<Rightarrow> int \<times> mon \<times> history" where
  "fork_failed K sys_core saved out m h =
     (let (m1, h1) = (if 0 < co_child out \<and> \<not> sys_core then end_child_m K (as_pid (co_child out)) m h else (m, h));
          (m2, h2) = restore_saved_gprs K saved m1 h1;
          (sig, h3) = (if co_signal out = 0 then probe_crash_stop K (m_pid m) h2 else (co_signal out, h2))
      in if sig \<noteq> 0 then settle_signal K sig m2 h3 else (- 1, restore_target_after_fail K m2 h3))"

definition inject_fork_m ::
    "kern \<Rightarrow> shellcode \<Rightarrow> bool \<Rightarrow> u64 \<Rightarrow> x64_regs \<Rightarrow> mon \<Rightarrow> history \<Rightarrow> ((int + int) \<times> mon \<times> history) option" where
  "inject_fork_m K sc sys_core page saved m h =
     (case pt_write K (m_pid m) page (sc_code sc) h of
        (Inl _, h1) \<Rightarrow> Some (Inl (- 1), undo_m K saved m h1)
      | (Inr _, h1) \<Rightarrow>
     (case pt_call K (m_pid m) page [] 0 h1 of
        None \<Rightarrow> None
      | Some (Called regs, out, h2) \<Rightarrow>
          let child = as_pid (get_rc regs) in
          if child \<le> 0 then Some (Inl (- 1), undo_m K saved m h2)
          else if co_rsp out = 0 then Some (Inr child, m, h2)
          else
            (case sys_ctl K child (POKEDATA (co_rsp out) (co_word out)) h2 of
               (Inr _, h3) \<Rightarrow> Some (Inr child, m, h3)
             | (Inl _, h3) \<Rightarrow>
                 if sys_core then Some (Inr child, m, h3)
                 else
                   let (m1, h4) = end_child_m K child m (pt_child_skip_int3 K child page (sc_exit sc) h3)
                   in Some (Inl (- 1), undo_m K saved m1 h4))
      | Some (r, out, h2) \<Rightarrow>
          (case fork_failed K sys_core saved out (flag_if (r = RecoveryFailed) m) h2 of
             (rc, m1, h3) \<Rightarrow> Some (Inl rc, m1, h3))))"

text \<open>\<open>Some rc\<close> gives the snapshot up.\<close>

definition inject_munmap_m ::
    "kern \<Rightarrow> shellcode \<Rightarrow> bool \<Rightarrow> u64 \<Rightarrow> u64 \<Rightarrow> int \<Rightarrow> x64_regs \<Rightarrow> mon \<Rightarrow> history \<Rightarrow> (int option \<times> mon \<times> history) option" where
  "inject_munmap_m K sc sys_core r_munmap page child saved m h =
     (case pt_call K (m_pid m) r_munmap [page, 0x1000] 0 h of
        None \<Rightarrow> None
      | Some (Called _, _, h1) \<Rightarrow> Some (None, m, h1)
      | Some (r, out, h1) \<Rightarrow>
          let m1 = flag_if (r = RecoveryFailed) m;
              (sig, h2) = (if co_signal out = 0 then probe_crash_stop K (m_pid m) h1 else (co_signal out, h1))
          in if sig = 0 then Some (None, m1, h2)
             else
               let h3 = pt_child_skip_int3 K child page (sc_exit sc) h2;
                   (m2, h4) = (if sys_core then (m1, h3) else end_child_m K child m1 h3);
                   (m3, h5) = restore_saved_gprs K saved m2 h4
               in (case settle_signal K sig m3 h5 of (rc, m4, h6) \<Rightarrow> Some (Some rc, m4, h6)))"

section \<open>Resuming the target\<close>

text \<open>The threads but the leader go on with their signals; they are detached if not monitored.\<close>

fun resume_others :: "kern \<Rightarrow> int list \<Rightarrow> mon \<Rightarrow> history \<Rightarrow> mon \<times> history" where
  "resume_others K [] m h = (m, h)"
| "resume_others K (tid # tids) m h =
     (if tid = m_pid m then resume_others K tids m h
      else
        let (r, h1) = (if m_tids m = [] then pt_detach K tid (relay_of m tid) h
                       else sys_ctl K tid (CONT (relay_of m tid)) h)
        in resume_others K tids (flag_if (bad_request r) m) h1)"

fun cont_every :: "kern \<Rightarrow> int list \<Rightarrow> mon \<Rightarrow> history \<Rightarrow> mon \<times> history" where
  "cont_every K [] m h = (m, h)"
| "cont_every K (tid # tids) m h =
     (let (r, h1) = sys_ctl K tid (CONT (relay_of m tid)) h in cont_every K tids (flag_if (bad_request r) m) h1)"

definition resume_target :: "kern \<Rightarrow> bool \<Rightarrow> int \<Rightarrow> x64_regs \<Rightarrow> mon \<Rightarrow> history \<Rightarrow> bool \<times> mon \<times> history" where
  "resume_target K sys_core child saved m h =
     (case pt_setregs K (m_pid m) saved h of
        (Inl _, h1) \<Rightarrow> (False, flag_if True m, snd (end_child K sys_core child h1))
      | (Inr _, h1) \<Rightarrow>
          let (m1, h2) = resume_others K (m_thrd m) m h1;
              (r, h3) = pt_cont K (m_pid m) h2;
              m2 = (flag_if (bad_request r \<and> m_tids m1 \<noteq> []) m1)\<lparr>m_thrd := [], m_relay := []\<rparr>
          in if m_recovery_failed m2 then (False, m2, snd (end_child K sys_core child h3)) else (True, m2, h3))"

text \<open>
  The dump has failed while the target runs: end the child, stop the leader without consuming
  what it stopped for, clear the fork option.
\<close>

partial_function (option) await_stop :: "kern \<Rightarrow> int \<Rightarrow> int \<Rightarrow> history \<Rightarrow> (siginfo option \<times> history) option" where
  "await_stop K pid t0 h =
     (if k_clock K h - t0 \<ge> 10000 then Some (None, h)
      else
        case sys_waitid K pid h of
          (Inl e, h1) \<Rightarrow> if e \<noteq> EINTR then Some (None, h1) else await_stop K pid t0 (Slept # h1)
        | (Inr (Some si), h1) \<Rightarrow> if sg_pid si = pid then Some (Some si, h1) else await_stop K pid t0 (Slept # h1)
        | (Inr None, h1) \<Rightarrow> await_stop K pid t0 (Slept # h1))"

definition recover_after_resume :: "kern \<Rightarrow> shellcode \<Rightarrow> int \<Rightarrow> u64 \<Rightarrow> mon \<Rightarrow> history \<Rightarrow> (mon \<times> history) option" where
  "recover_after_resume K sc child page m h =
     (let pid = m_pid m; (m1, h1) = end_child_m K child m (pt_child_skip_int3 K child page (sc_exit sc) h) in
      case sys_ctl K pid INTERRUPT h1 of
        (Inl _, h2) \<Rightarrow> Some (flag_if True m1, h2)
      | (Inr _, h2) \<Rightarrow>
          (case await_stop K pid (k_clock K h2) h2 of
             None \<Rightarrow> None
           | Some (p, h3) \<Rightarrow>
               if (case p of None \<Rightarrow> True | Some si \<Rightarrow> sg_code si \<noteq> CLD_TRAPPED \<and> sg_code si \<noteq> CLD_STOPPED)
               then Some (flag_if True m1, h3)
               else let (r, h4) = sys_ctl K pid (SETOPTIONS (m_options m)) h3 in Some (flag_if (\<not> succeeds r) m1, h4)))"


section \<open>After the dump\<close>

text \<open>One status of the leader, if there is one.\<close>

partial_function (option) poll_status :: "kern \<Rightarrow> int \<Rightarrow> history \<Rightarrow> ((err + nat option) \<times> history) option" where
  "poll_status K pid h =
     (case sys_waitpid K pid h of
        (Inl e, h1) \<Rightarrow> if e = EINTR then poll_status K pid h1 else Some (Inl e, h1)
      | (Inr s, h1) \<Rightarrow> Some (Inr s, h1))"

text \<open>
  The status the leader has, else the one it gets when it is interrupted; \<open>None\<close> if that fails.
  The flag is \<^verbatim>\<open>wait_status_failed\<close>.
\<close>

definition leader_status :: "kern \<Rightarrow> mon \<Rightarrow> history \<Rightarrow> (nat option \<times> bool \<times> mon \<times> history) option" where
  "leader_status K m h =
     (case poll_status K (m_pid m) h of
        None \<Rightarrow> None
      | Some (Inr (Some s), h1) \<Rightarrow> Some (Some s, False, m, h1)
      | Some (r, h1) \<Rightarrow>
          (case pt_int K (m_pid m) h1 of
             None \<Rightarrow> None
           | Some (Inl _, h2) \<Rightarrow> Some (None, True, flag_if True m, h2)
           | Some (Inr s, h2) \<Rightarrow> Some (Some s, isl r, flag_if (isl r) m, h2)))"

text \<open>What the leader was found in: \<open>ws_sig\<close> is 0 but for a signal of the target.\<close>

record window =
  ws_stopped :: bool
  ws_event :: bool         \<comment> \<open>\<^verbatim>\<open>stopped_at_ptrace_event\<close>\<close>
  ws_group :: bool
  ws_interrupt :: bool
  ws_sig :: int

definition window_of :: "nat option \<Rightarrow> window" where
  "window_of status =
     (case status of
        None \<Rightarrow> \<lparr>ws_stopped = False, ws_event = False, ws_group = False, ws_interrupt = False, ws_sig = 0\<rparr>
      | Some s \<Rightarrow>
          if \<not> WIFSTOPPED s then \<lparr>ws_stopped = False, ws_event = False, ws_group = False, ws_interrupt = False, ws_sig = 0\<rparr>
          else
            let sig = WSTOPSIG s; ev = stop_event s; intr = (ev = PTRACE_EVENT_STOP \<and> sig = SIGTRAP)
            in \<lparr>ws_stopped = True, ws_event = (ev \<noteq> 0 \<and> \<not> intr), ws_group = (ev = PTRACE_EVENT_STOP \<and> job_control_signal sig),
                ws_interrupt = intr, ws_sig = if ev \<noteq> 0 then 0 else sig\<rparr>)"

text \<open>A child made in the window is detached, so that it is not left behind.\<close>

definition window_child :: "kern \<Rightarrow> nat option \<Rightarrow> mon \<Rightarrow> history \<Rightarrow> mon \<times> history" where
  "window_child K status m h =
     (case status of
        None \<Rightarrow> (m, h)
      | Some s \<Rightarrow>
          if WIFSTOPPED s \<and> (stop_event s = PTRACE_EVENT_FORK \<or> stop_event s = PTRACE_EVENT_VFORK \<or> stop_event s = PTRACE_EVENT_CLONE)
          then
            (case sys_eventmsg K (m_pid m) h of
               (Inl _, h1) \<Rightarrow> (flag_if True m, h1)
             | (Inr child, h1) \<Rightarrow>
                 if child = 0 then (flag_if True m, h1)
                 else (let (r, h2) = pt_detach K (as_pid child) 0 h1 in (flag_if (bad_request r) m, h2)))
          else (m, h))"

definition snapshot_child_signal :: "kern \<Rightarrow> int \<Rightarrow> window \<Rightarrow> mon \<Rightarrow> history \<Rightarrow> bool \<times> history" where
  "snapshot_child_signal K child w m h =
     (if ws_sig w \<noteq> SIGCHLD \<or> ws_event w then (False, h)
      else
        case sys_siginfo K (m_pid m) h of
          (Inl _, h1) \<Rightarrow> (False, h1)
        | (Inr si, h1) \<Rightarrow>
            (sg_signo si = SIGCHLD \<and> sg_pid si = child \<and>
             (sg_code si = CLD_EXITED \<or> sg_code si = CLD_KILLED \<or> sg_code si = CLD_DUMPED), h1))"

text \<open>The signal to return, the one to hand on, whether the stop is settled.\<close>

record settled_stop =
  st_sig :: int
  st_relay :: int
  st_preserved :: bool

text \<open>A crash met by the injected \<^verbatim>\<open>waitpid\<close>.\<close>

definition crash_after_wait :: "kern \<Rightarrow> settled_stop \<Rightarrow> mon \<Rightarrow> history \<Rightarrow> settled_stop \<times> mon \<times> history" where
  "crash_after_wait K z m h =
     (case probe_siginfo K (m_pid m) h of
        (ic, h1) \<Rightarrow>
          if ic = 0 then (z, m, h1)
          else
            let (d, h2) = disposition K (m_pid m) ic h1
            in if d = Inr False then (z\<lparr>st_sig := ic, st_preserved := True\<rparr>, m, h2)
               else (z\<lparr>st_relay := ic, st_preserved := True\<rparr>, flag_if (isl d) m, h2))"

definition wait_child_m ::
    "kern \<Rightarrow> bool \<Rightarrow> u64 \<Rightarrow> int \<Rightarrow> settled_stop \<Rightarrow> mon \<Rightarrow> history \<Rightarrow> (settled_stop \<times> mon \<times> history) option" where
  "wait_child_m K sys_core r_waitpid child z m h =
     (let pid = m_pid m in
      case sys_getregs K pid h of
        (Inl _, h1) \<Rightarrow> Some (z, flag_if True m, h1)
      | (Inr saved, h1) \<Rightarrow>
     (case (if regs_has_restart_return saved then Some (Called saved, call_out_none, h1)
            else pt_call K pid r_waitpid [word_of_int child, 0, 0] (if sys_core then 0 else child) h1) of
        None \<Rightarrow> None
      | Some (r, out, h2) \<Rightarrow>
          let failed_call = (r = CallFailed \<or> r = RecoveryFailed);
              z1 = (if failed_call \<and> co_signal out \<noteq> 0 then z\<lparr>st_relay := co_signal out, st_preserved := True\<rparr> else z);
              (m2, h3) = restore_saved_gprs K saved (flag_if (r = RecoveryFailed) m) h2
          in Some (crash_after_wait K z1 m2 h3)))"

definition settle_window ::
    "kern \<Rightarrow> bool \<Rightarrow> u64 \<Rightarrow> int \<Rightarrow> bool \<Rightarrow> window \<Rightarrow> bool \<Rightarrow> mon \<Rightarrow> history \<Rightarrow> (settled_stop \<times> mon \<times> history) option" where
  "settle_window K sys_core r_waitpid child unknown w child_signal m h =
     (let sig = ws_sig w; z = \<lparr>st_sig = sig, st_relay = 0, st_preserved = False\<rparr>;
          hand_on = \<lparr>st_sig = 0, st_relay = sig, st_preserved = True\<rparr>
      in case (if unknown \<or> ws_group w \<or> ws_event w then Some (z, m, h)
               else if ws_stopped w \<and> is_core_dump_signal sig then
                 (let (d, h1) = disposition K (m_pid m) sig h
                  in Some (if d = Inr False then (z, m, h1) else (hand_on, flag_if (isl d) m, h1)))
               else if sig \<noteq> 0 \<and> \<not> child_signal then Some (hand_on, m, h)
               else wait_child_m K sys_core r_waitpid child z m h) of
           None \<Rightarrow> None
         | Some (z1, m1, h1) \<Rightarrow>
             Some (if child_signal \<and> \<not> st_preserved z1 then z1\<lparr>st_relay := SIGCHLD, st_sig := 0, st_preserved := True\<rparr> else z1,
                   m1, h1))"

text \<open>The leader goes on, listens in its group stop, or stays stopped with a crash.\<close>

definition resume_leader :: "kern \<Rightarrow> window \<Rightarrow> settled_stop \<Rightarrow> mon \<Rightarrow> history \<Rightarrow> mon \<times> history" where
  "resume_leader K w z m h =
     (let pid = m_pid m;
          (r, h1) = sys_ctl K pid (SETOPTIONS (m_options m)) h; m1 = flag_if (bad_request r) m;
          request = (if ws_group w then Some LISTEN
                     else if st_preserved z then (if st_relay z \<noteq> 0 then Some (CONT (st_relay z)) else None)
                     else if \<not> ws_stopped w \<or> ws_event w \<or> ws_interrupt w then Some (CONT 0) else None)
      in case request of
           None \<Rightarrow> (m1, h1)
         | Some req \<Rightarrow> (let (r2, h2) = sys_ctl K pid req h1 in (flag_if (bad_request r2) m1, h2)))"

section \<open>forkcore\_m\<close>

text \<open>\<open>Drop rc\<close>: no file, return \<open>rc\<close>. \<open>Keep rc\<close>: install the file, then return \<open>rc\<close>.\<close>

datatype snap_end = Drop int | Keep int

text \<open>The rest of the dump, once the target goes on.\<close>

definition finish_m ::
    "kern \<Rightarrow> bool \<Rightarrow> u64 \<Rightarrow> int \<Rightarrow> mon \<Rightarrow> history \<Rightarrow> (snap_end \<times> mon \<times> history) option" where
  "finish_m K sys_core r_waitpid child m h =
     (case leader_status K m h of
        None \<Rightarrow> None
      | Some (status, unknown, m1, h1) \<Rightarrow>
          if (case status of None \<Rightarrow> False | Some s \<Rightarrow> WIFSIGNALED s) then Some (Drop (WTERMSIG (the status)), m1, h1)
          else if (case status of None \<Rightarrow> False | Some s \<Rightarrow> WIFEXITED s) then Some (Drop (- 2), m1, h1)
          else
            let w = window_of status; (m2, h2) = window_child K status m1 h1;
                (child_signal, h3) = snapshot_child_signal K child w m2 h2
            in (case settle_window K sys_core r_waitpid child unknown w child_signal m2 h3 of
                  None \<Rightarrow> None
                | Some (z, m3, h4) \<Rightarrow>
                    let (m4, h5) = resume_leader K w z m3 h4
                    in Some (if m_recovery_failed m4 then Drop (- 1) else Keep (if ws_group w then - 3 else st_sig z), m4, h5)))"

definition image_m ::
    "kern \<Rightarrow> ('e, 'd) lz4_codec \<Rightarrow> nat \<Rightarrow> shellcode \<Rightarrow> bool \<Rightarrow> u64 \<Rightarrow> int \<Rightarrow> u64 \<Rightarrow> MemRegion list \<Rightarrow> core \<Rightarrow> ('e, 'd) stream \<Rightarrow>
     mon \<Rightarrow> history \<Rightarrow> (snap_end \<times> ('e, 'd) stream \<times> mon \<times> history) option" where
  "image_m K cdc platform sc sys_core r_waitpid child page maps c st m h =
     (case (if sys_core then Some (Inr (), c, st) else write_image cdc (k_mem K h) platform child maps c st) of
        None \<Rightarrow> None
      | Some (Inl _, _, st1) \<Rightarrow>
          (case recover_after_resume K sc child page m h of None \<Rightarrow> None | Some (m1, h1) \<Rightarrow> Some (Drop (- 1), st1, m1, h1))
      | Some (Inr _, _, st1) \<Rightarrow>
          let (m1, h1) = end_child_m K child m (pt_child_skip_int3 K child page (sc_exit sc) h)
          in (case finish_m K sys_core r_waitpid child m1 h1 of None \<Rightarrow> None | Some (e, m2, h2) \<Rightarrow> Some (e, st1, m2, h2)))"

text \<open>The injected fork, from the stopped target to the end.\<close>

definition fork_m ::
    "kern \<Rightarrow> ('e, 'd) lz4_codec \<Rightarrow> nat \<Rightarrow> shellcode \<Rightarrow> bool \<Rightarrow> u64 \<times> u64 \<times> u64 \<Rightarrow> MemRegion list \<Rightarrow> core \<Rightarrow> ('e, 'd) stream \<Rightarrow>
     mon \<Rightarrow> history \<Rightarrow> (snap_end \<times> ('e, 'd) stream \<times> mon \<times> history) option" where
  "fork_m K cdc platform sc sys_core syms maps c st m h =
     (let pid = m_pid m; give_up = (\<lambda>h. Some (Drop (- 1), st, restore_target_after_fail K m h)) in
      case (if sys_core then (Inr (), h) else sys_ctl K pid (SETOPTIONS (m_options m OR TRACEFORK)) h) of
        (Inl _, h1) \<Rightarrow> give_up h1
      | (Inr _, h1) \<Rightarrow>
     (case sys_getregs K pid h1 of
        (Inl _, h2) \<Rightarrow> give_up h2
      | (Inr saved, h2) \<Rightarrow>
     (case inject_mmap_m K (fst syms) saved m h2 of
        None \<Rightarrow> None
      | Some (Inl rc, m1, h3) \<Rightarrow> Some (Drop rc, st, m1, h3)
      | Some (Inr page, m1, h3) \<Rightarrow>
     (case inject_fork_m K sc sys_core page saved m1 h3 of
        None \<Rightarrow> None
      | Some (Inl rc, m2, h4) \<Rightarrow> Some (Drop rc, st, m2, h4)
      | Some (Inr child, m2, h4) \<Rightarrow>
     (case inject_munmap_m K sc sys_core (fst (snd syms)) page child saved m2 h4 of
        None \<Rightarrow> None
      | Some (Some rc, m3, h5) \<Rightarrow> Some (Drop rc, st, m3, h5)
      | Some (None, m3, h5) \<Rightarrow>
     (case resume_target K sys_core child saved m3 h5 of
        (False, m4, h6) \<Rightarrow> Some (Drop (- 1), st, m4, h6)
      | (True, m4, h6) \<Rightarrow>
          image_m K cdc platform sc sys_core (snd (snd syms)) child page maps (c\<lparr>c_core_pid := child\<rparr>) st m4 h6))))))"

definition direct_m ::
    "kern \<Rightarrow> ('e, 'd) lz4_codec \<Rightarrow> nat \<Rightarrow> int \<Rightarrow> MemRegion list \<Rightarrow> core \<Rightarrow> ('e, 'd) stream \<Rightarrow> mon \<Rightarrow> history \<Rightarrow>
     (snap_end \<times> ('e, 'd) stream \<times> mon \<times> history) option" where
  "direct_m K cdc platform tid maps c st m h =
     (case write_image cdc (k_mem K h) platform tid maps c st of
        None \<Rightarrow> None
      | Some (Inl _, _, st1) \<Rightarrow> Some (Drop (- 1), st1, restore_target_after_fail K m h)
      | Some (Inr _, _, st1) \<Rightarrow>
          let (m1, h1) = cont_every K (m_thrd m) m h; m2 = m1\<lparr>m_relay := [], m_thrd := []\<rparr>
          in Some (if m_recovery_failed m2 then Drop (- 1) else Keep 0, st1, m2, h1))"

definition snapshot_tid :: "mon \<Rightarrow> int" where
  "snapshot_tid m =
     (if \<not> m_leader_exited m then m_pid m
      else case filter (\<lambda>tid. tid \<noteq> m_pid m) (m_tids m) of [] \<Rightarrow> 0 | tid # _ \<Rightarrow> tid)"

text \<open>Stop every thread; \<open>Inl\<close> is the end of a snapshot that is given up.\<close>

definition collect_m :: "kern \<Rightarrow> mon \<Rightarrow> history \<Rightarrow> ((int + unit) \<times> mon \<times> history) option" where
  "collect_m K m h =
     (if snapshot_tid m = 0 then Some (Inl (- 1), m, h)
      else
        case sys_ctl K (snapshot_tid m) INTERRUPT h of
          (Inl _, h1) \<Rightarrow> Some (Inl (- 1), m, h1)
        | (Inr _, h1) \<Rightarrow>
            (case collect_threads K (m_pid m) 0 m h1 of
               None \<Rightarrow> None
             | Some (r, m1, h2) \<Rightarrow>
                 (case r of
                    Collected \<Rightarrow> Some (Inr (), m1, h2)
                  | GroupStopSkipped \<Rightarrow> Some (Inl (- 5), m1, h2)
                  | CollectFailed \<Rightarrow> Some (Inl (- 1), restore_target_after_fail K m1 h2)
                  | Fatal sig \<Rightarrow>
                      if 0 < sig \<and> m_tids m1 \<noteq> [] then Some (Inl sig, m1, h2)
                      else Some (Inl (- 1), restore_target_after_fail K m1 h2))))"

definition snapshot_m ::
    "kern \<Rightarrow> ('e, 'd) lz4_codec \<Rightarrow> nat \<Rightarrow> shellcode \<Rightarrow> bool \<Rightarrow> core \<Rightarrow> mon \<Rightarrow> ('e, 'd) stream \<Rightarrow> history \<Rightarrow>
     (snap_end \<times> ('e, 'd) stream \<times> mon \<times> history) option" where
  "snapshot_m K cdc platform sc sys_core c m st h =
     (case collect_m K m h of
        None \<Rightarrow> None
      | Some (Inl rc, m1, h1) \<Rightarrow> Some (Drop rc, st, m1, h1)
      | Some (Inr _, m1, h1) \<Rightarrow>
          let tid = snapshot_tid m; first = (\<lambda>tids. if tid \<in> set tids then tid else hd tids) in
     (case write_meta cdc (k_capture K h1) (k_threads K h1) tid first (capture_core c (m_thrd m1)) st of
        (Inl _, _, st1) \<Rightarrow> Some (Drop (- 1), st1, restore_target_after_fail K m1 h1)
      | (Inr maps, c1, st1) \<Rightarrow>
          let (direct, h2) = (if sys_core then (False, h1) else if m_leader_exited m1 then (True, h1)
                              else fork_snapshot_requires_direct_capture K (m_pid m1) maps h1);
              (syms, h3) = (if direct then ((0, 0, 0), h2) else inject_symbols K (m_pid m1) h2);
              missing = (fst syms = 0 \<or> fst (snd syms) = 0 \<or> snd (snd syms) = 0)
          in if direct \<or> missing \<and> \<not> sys_core then direct_m K cdc platform (first (m_thrd m1)) maps c1 st1 m1 h3
             else if missing then Some (Drop (- 1), st1, restore_target_after_fail K m1 h3)
             else fork_m K cdc platform sc sys_core syms maps c1 st1 m1 h3))"

definition forkcore_m ::
    "kern \<Rightarrow> ('e, 'd) lz4_codec \<Rightarrow> os_env \<Rightarrow> nat \<times> nat \<Rightarrow> fd_info \<Rightarrow> nat \<Rightarrow> nat \<Rightarrow> shellcode \<Rightarrow> bool \<Rightarrow> core \<Rightarrow> mon \<Rightarrow>
     string \<Rightarrow> history \<Rightarrow> fs \<Rightarrow> (int \<times> mon \<times> history \<times> fs) option" where
  "forkcore_m K cdc os fresh info fd platform sc sys_core c m corefile h files =
     (let m0 = m\<lparr>m_recovery_failed := False\<rparr> in
      case open_atomic_lz4 cdc os fresh info fd corefile (Lz4Stream_new LZ4_Compress) files of
        (Inl e, _, files1) \<Rightarrow> Some (- 1, m0, h, files1)
      | (Inr (temp, state), st, files1) \<Rightarrow>
     (case (if sys_core then (Inr (), st) else WriteFileHeader cdc platform st) of
        (Inl e, st1) \<Rightarrow> Some (- 1, m0, h, discard_output cdc os temp st1 files1)
      | (Inr _, st1) \<Rightarrow>
     (case snapshot_m K cdc platform sc sys_core c m0 st1 h of
        None \<Rightarrow> None
      | Some (Drop rc, st2, m1, h1) \<Rightarrow> Some (rc, m1, h1, discard_output cdc os temp st2 files1)
      | Some (Keep rc, st2, m1, h1) \<Rightarrow>
          (case commit_atomic_lz4 cdc os st2 temp corefile state files1 of
             (Inl _, files2) \<Rightarrow> Some (- 1, m1, h1, files2)
           | (Inr _, files2) \<Rightarrow> Some (rc, m1, h1, files2)))))"
end
