(* ===== verification/Monitor.thy ===== *)
theory Monitor
  imports ForkcoreM
begin

text \<open>
  The two local functions of \<^verbatim>\<open>Coredump::monitor\<close> (\<^verbatim>\<open>src/core.cc\<close>): the one that releases every
  monitored thread and the one that takes every wait status there is and answers it: resume
  the thread with its signal, follow clones and exec, keep a group stop, or note a crash.
\<close>

section \<open>State\<close>

text \<open>\<^verbatim>\<open>exit_sig\<close> and \<^verbatim>\<open>process_in_group_stop\<close>, the variables the local functions share.\<close>

record watch =
  w_mon :: mon
  w_exit :: int
  w_group :: bool

text \<open>\<^verbatim>\<open>crash_found\<close> is set together with \<^verbatim>\<open>exit_sig\<close>.\<close>

definition crash_found :: "watch \<Rightarrow> bool" where "crash_found w \<longleftrightarrow> w_exit w \<noteq> 0"

definition add_tid :: "int \<Rightarrow> mon \<Rightarrow> mon" where "add_tid tid m = m\<lparr>m_tids := tid_insert tid (m_tids m)\<rparr>"
definition drop_tid :: "int \<Rightarrow> mon \<Rightarrow> mon" where "drop_tid tid m = m\<lparr>m_tids := tid_erase tid (m_tids m)\<rparr>"

abbreviation (input) on_mon :: "(mon \<Rightarrow> mon) \<Rightarrow> watch \<Rightarrow> watch" where "on_mon f w \<equiv> w\<lparr>w_mon := f (w_mon w)\<rparr>"

section \<open>Releasing the threads\<close>

text \<open>A thread that was interrupted: its status, and whether the release has failed.\<close>

definition wait_stopped_for_detach :: "kern \<Rightarrow> int \<Rightarrow> history \<Rightarrow> (nat option \<times> bool \<times> history) option" where
  "wait_stopped_for_detach K tid h =
     (case pt_wait K tid h of
        None \<Rightarrow> None
      | Some (Inr s, h1) \<Rightarrow> Some (Some s, False, h1)
      | Some (Inl (e, _), h1) \<Rightarrow>
          if e = ESRCH \<or> e = ETIMEDOUT then Some (None, True, h1)
          else
            (case await_stop K tid (k_clock K h1) h1 of
               None \<Rightarrow> None
             | Some (None, h2) \<Rightarrow> Some (None, True, h2)
             | Some (Some si, h2) \<Rightarrow>
                 Some (if sg_code si = CLD_TRAPPED \<or> sg_code si = CLD_STOPPED then Some (nat (sg_status si) * 256 + 127) else None,
                       True, h2)))"

text \<open>A thread that is stopped but has no status to read gets one that is not its own.\<close>

definition read_stopped_status :: "kern \<Rightarrow> int \<Rightarrow> history \<Rightarrow> ((nat \<times> bool) \<times> bool \<times> history) option" where
  "read_stopped_status K tid h =
     (case poll_status K tid h of
        None \<Rightarrow> None
      | Some (Inr (Some s), h1) \<Rightarrow> Some ((s, False), False, h1)
      | Some (r, h1) \<Rightarrow> Some ((stopped_status 19 0, True), isl r, h1))"

text \<open>\<open>None\<close>: go on with the next thread.\<close>

definition stop_for_detach :: "kern \<Rightarrow> int \<Rightarrow> history \<Rightarrow> ((nat \<times> bool) option \<times> bool \<times> history) option" where
  "stop_for_detach K tid h =
     (case sys_getregs K tid h of
        (Inr _, h1) \<Rightarrow>
          (case read_stopped_status K tid h1 of None \<Rightarrow> None | Some (s, bad, h2) \<Rightarrow> Some (Some s, bad, h2))
      | (Inl _, h1) \<Rightarrow>
          (case sys_ctl K tid INTERRUPT h1 of
             (Inl e, h2) \<Rightarrow> Some (None, e \<noteq> ESRCH, h2)
           | (Inr _, h2) \<Rightarrow>
               (case wait_stopped_for_detach K tid h2 of
                  None \<Rightarrow> None
                | Some (s, bad, h3) \<Rightarrow> Some (map_option (\<lambda>s. (s, False)) s, bad, h3))))"

definition detach_status :: "kern \<Rightarrow> mon \<Rightarrow> int \<Rightarrow> history \<Rightarrow> ((nat \<times> bool) option \<times> bool \<times> history) option" where
  "detach_status K m tid h =
     (case sys_waitpid K tid h of
        (Inr (Some s), h1) \<Rightarrow> Some (Some (s, False), False, h1)
      | (Inr None, h1) \<Rightarrow>
          let (dead, h2) = (if tid = m_pid m \<and> m_leader_exited m then (let (z, h') = task_is_zombie K tid h1 in (z = Inr True, h'))
                            else (False, h1))
          in if dead then Some (None, False, h2) else stop_for_detach K tid h2
      | (Inl e, h1) \<Rightarrow>
          (case stop_for_detach K tid h1 of
             None \<Rightarrow> None
           | Some (s, bad, h2) \<Rightarrow> Some (s, bad \<or> e \<noteq> ECHILD \<and> e \<noteq> ESRCH, h2)))"

text \<open>The child of a clone event has to be released as well.\<close>

definition detach_clone :: "kern \<Rightarrow> int \<Rightarrow> nat \<Rightarrow> history \<Rightarrow> int option \<times> bool \<times> history" where
  "detach_clone K tid s h =
     (if stop_event s \<noteq> PTRACE_EVENT_CLONE then (None, False, h)
      else
        case sys_eventmsg K tid h of
          (Inl _, h1) \<Rightarrow> (None, True, h1)
        | (Inr child, h1) \<Rightarrow> if child = 0 then (None, True, h1) else (Some (as_pid child), False, h1))"

definition detach_relay :: "nat \<times> bool \<Rightarrow> int" where
  "detach_relay = (\<lambda>(s, synthetic). if WIFSTOPPED s \<and> stop_event s = 0 \<and> \<not> synthetic then WSTOPSIG s else 0)"

partial_function (option) detach_pending ::
    "kern \<Rightarrow> int list \<Rightarrow> mon \<Rightarrow> bool \<Rightarrow> history \<Rightarrow> (bool \<times> mon \<times> history) option" where
  "detach_pending K tids m bad h =
     (case tids of
        [] \<Rightarrow> Some (bad, m\<lparr>m_tids := []\<rparr>, h)
      | tid # rest \<Rightarrow>
          (case detach_status K m tid h of
             None \<Rightarrow> None
           | Some (None, b, h1) \<Rightarrow> detach_pending K rest m (bad \<or> b) h1
           | Some (Some s, b, h1) \<Rightarrow>
               (case detach_clone K tid (fst s) h1 of
                  (child, b1, h2) \<Rightarrow>
                    (case pt_detach K tid (detach_relay s) h2 of
                       (r, h3) \<Rightarrow>
                         (case child of
                            None \<Rightarrow> detach_pending K rest m (bad \<or> b \<or> b1 \<or> bad_request r) h3
                          | Some c \<Rightarrow>
                              detach_pending K (tid_insert c rest) (add_tid c m) (bad \<or> b \<or> b1 \<or> bad_request r) h3)))))"

text \<open>\<open>True\<close> if it failed for a thread.\<close>

definition detach_monitored_threads :: "kern \<Rightarrow> mon \<Rightarrow> history \<Rightarrow> (bool \<times> mon \<times> history) option" where
  "detach_monitored_threads K m h = detach_pending K (m_tids m) m False h"

section \<open>Answering a status\<close>

text \<open>The result of a drain: 0, 1, 2 and -1.\<close>

datatype drained = Calm | Crashed | Ended | Broken

text \<open>What becomes of the loop over the threads.\<close>

datatype drain_step = Skip | Progress | Rebuild | Leave drained

definition resume_tid :: "kern \<Rightarrow> int \<Rightarrow> int \<Rightarrow> watch \<Rightarrow> history \<Rightarrow> drain_step \<times> watch \<times> history" where
  "resume_tid K tid sig w h =
     (let (r, h1) = sys_ctl K tid (CONT sig) h in (if succeeds r then Progress else Leave Broken, w, h1))"

text \<open>Once a crash was found the process is left stopped.\<close>

definition go_on :: "kern \<Rightarrow> int \<Rightarrow> int \<Rightarrow> watch \<Rightarrow> history \<Rightarrow> drain_step \<times> watch \<times> history" where
  "go_on K tid sig w h = (if crash_found w then (Progress, w, h) else resume_tid K tid sig w h)"

definition wait_error :: "kern \<Rightarrow> int \<Rightarrow> err \<Rightarrow> watch \<Rightarrow> history \<Rightarrow> drain_step \<times> watch \<times> history" where
  "wait_error K tid e w h =
     (let pid = m_pid (w_mon w); gone = (e = ECHILD \<or> e = ESRCH);
          (retired, h1) = (if tid \<noteq> pid \<and> gone then (let (b, h') = belongs_to_thread_group K pid tid h in (b = Some False, h'))
                           else (False, h))
      in if retired then (Progress, on_mon (drop_tid tid) w, h1)
         else
           let (vanished, h2) = (if gone then (let (r, h') = sys_kill K tid 0 h1 in (r = Inl ESRCH, h')) else (False, h1))
           in if vanished then (if tid = pid then Leave Ended else Progress, on_mon (drop_tid tid) w, h2)
              else (Leave Broken, w, h2))"

definition thread_gone :: "int \<Rightarrow> nat \<Rightarrow> watch \<Rightarrow> drain_step \<times> watch" where
  "thread_gone tid s w =
     (if WIFSIGNALED s \<and> is_core_dump_signal (WTERMSIG s) then Leave Broken
      else if tid = m_pid (w_mon w) then Leave Ended else Progress,
      on_mon (drop_tid tid) w)"

definition exec_event :: "kern \<Rightarrow> int \<Rightarrow> watch \<Rightarrow> history \<Rightarrow> drain_step \<times> watch \<times> history" where
  "exec_event K tid w h =
     (let m = w_mon w; w1 = w\<lparr>w_mon := m\<lparr>m_tids := [m_pid m], m_leader_exited := False, m_relay := []\<rparr>, w_group := False\<rparr>
      in case go_on K tid 0 w1 h of
           (Progress, w2, h1) \<Rightarrow> (Rebuild, w2, h1)
         | r \<Rightarrow> r)"

definition clone_event :: "kern \<Rightarrow> int \<Rightarrow> watch \<Rightarrow> history \<Rightarrow> (drain_step \<times> watch \<times> history) option" where
  "clone_event K tid w h =
     (case sys_eventmsg K tid h of
        (Inl _, h1) \<Rightarrow> Some (Leave Broken, w, h1)
      | (Inr msg, h1) \<Rightarrow>
          if msg = 0 then Some (Leave Broken, w, h1)
          else
            let child = as_pid msg; w1 = on_mon (add_tid child) w in
            (case pt_wait K child h1 of
               None \<Rightarrow> None
             | Some (Inl _, h2) \<Rightarrow> Some (Leave Broken, w1, h2)
             | Some (Inr _, h2) \<Rightarrow>
                 Some (case belongs_to_thread_group K (m_pid (w_mon w)) child h2 of
                         (None, h3) \<Rightarrow> (Leave Broken, w1, h3)
                       | (Some False, h3) \<Rightarrow>
                           (case pt_detach K child 0 h3 of
                              (r, h4) \<Rightarrow>
                                if bad_request r then (Leave Broken, w1, h4) else go_on K tid 0 (on_mon (drop_tid child) w1) h4)
                       | (Some True, h3) \<Rightarrow>
                           (case go_on K tid 0 w1 h3 of
                              (Progress, w2, h4) \<Rightarrow> go_on K child 0 w2 h4
                            | r \<Rightarrow> r))))"

definition other_event :: "kern \<Rightarrow> int \<Rightarrow> nat \<Rightarrow> int \<Rightarrow> watch \<Rightarrow> history \<Rightarrow> drain_step \<times> watch \<times> history" where
  "other_event K tid ev sig w h =
     (if ev = PTRACE_EVENT_STOP \<and> job_control_signal sig then
        (case sys_ctl K tid LISTEN h of
           (Inl _, h1) \<Rightarrow> (Leave Broken, w, h1)
         | (Inr _, h1) \<Rightarrow> (Progress, w\<lparr>w_group := True\<rparr>, h1))
      else if crash_found w then (Progress, w, h)
      else resume_tid K tid 0 (if ev = PTRACE_EVENT_STOP \<and> sig = SIGTRAP then w\<lparr>w_group := False\<rparr> else w) h)"

text \<open>A signal: hand it on, unless it is one the process dies of with a core.\<close>

definition signal_stop :: "kern \<Rightarrow> int \<Rightarrow> int \<Rightarrow> watch \<Rightarrow> history \<Rightarrow> drain_step \<times> watch \<times> history" where
  "signal_stop K tid sig w h =
     (if is_core_dump_signal sig then
        (case disposition K (m_pid (w_mon w)) sig h of
           (Inl _, h1) \<Rightarrow> (Leave Broken, w, snd (sys_ctl K tid (CONT sig) h1))
         | (Inr True, h1) \<Rightarrow> resume_tid K tid sig w h1
         | (Inr False, h1) \<Rightarrow>
             (Progress,
              if crash_found w then w else w\<lparr>w_exit := sig, w_mon := (w_mon w)\<lparr>m_crash_tid := tid\<rparr>\<rparr>, h1))
      else go_on K tid sig (if sig = SIGCONT \<and> \<not> crash_found w then w\<lparr>w_group := False\<rparr> else w) h)"

definition drain_status :: "kern \<Rightarrow> int \<Rightarrow> nat \<Rightarrow> watch \<Rightarrow> history \<Rightarrow> (drain_step \<times> watch \<times> history) option" where
  "drain_status K tid s w h =
     (let sig = WSTOPSIG s; ev = stop_event s in
      if WIFEXITED s \<or> WIFSIGNALED s then (let (d, w1) = thread_gone tid s w in Some (d, w1, h))
      else if \<not> WIFSTOPPED s then Some (Progress, w, h)
      else if ev = PTRACE_EVENT_EXEC then Some (exec_event K tid w h)
      else if ev = PTRACE_EVENT_CLONE \<or> ev = PTRACE_EVENT_FORK \<or> ev = PTRACE_EVENT_VFORK then clone_event K tid w h
      else if ev = PTRACE_EVENT_EXIT then
        Some (go_on K tid 0 (if tid = m_pid (w_mon w) then on_mon (\<lambda>m. m\<lparr>m_leader_exited := True\<rparr>) w else w) h)
      else if ev \<noteq> 0 then Some (other_event K tid ev sig w h)
      else Some (signal_stop K tid sig w h))"

definition drain_one :: "kern \<Rightarrow> int \<Rightarrow> watch \<Rightarrow> history \<Rightarrow> (drain_step \<times> watch \<times> history) option" where
  "drain_one K tid w h =
     (case sys_waitpid K tid h of
        (Inr None, h1) \<Rightarrow> Some (Skip, w, h1)
      | (Inl e, h1) \<Rightarrow> if e = EINTR then Some (Skip, w, h1) else Some (wait_error K tid e w h1)
      | (Inr (Some s), h1) \<Rightarrow> drain_status K tid s w h1)"

section \<open>drain\_monitor\_events\<close>

fun drain_pass :: "kern \<Rightarrow> int list \<Rightarrow> bool \<Rightarrow> watch \<Rightarrow> history \<Rightarrow> (drained option \<times> bool \<times> watch \<times> history) option" where
  "drain_pass K [] progress w h = Some (None, progress, w, h)"
| "drain_pass K (tid # tids) progress w h =
     (case drain_one K tid w h of
        None \<Rightarrow> None
      | Some (Skip, w1, h1) \<Rightarrow> drain_pass K tids progress w1 h1
      | Some (Progress, w1, h1) \<Rightarrow> drain_pass K tids True w1 h1
      | Some (Rebuild, w1, h1) \<Rightarrow> Some (None, True, w1, h1)
      | Some (Leave d, w1, h1) \<Rightarrow> Some (Some d, True, w1, h1))"

text \<open>No thread is left: those that are traced nevertheless are taken over.\<close>

fun adopt :: "kern \<Rightarrow> int list \<Rightarrow> mon \<Rightarrow> history \<Rightarrow> bool \<times> mon \<times> history" where
  "adopt K [] m h = (True, m, h)"
| "adopt K (tid # tids) m h =
     (case traced_by_self K tid h of
        (True, h1) \<Rightarrow> adopt K tids (add_tid tid m) h1
      | (False, h1) \<Rightarrow>
          (case task_is_zombie K tid h1 of
             (z, h2) \<Rightarrow>
               if z = Inr True \<or> z = Inl ENOENT \<or> z = Inl ESRCH then adopt K tids m h2 else (False, m, h2)))"

definition reconcile :: "kern \<Rightarrow> mon \<Rightarrow> history \<Rightarrow> drained option \<times> mon \<times> history" where
  "reconcile K m h =
     (case list_task_tids K (m_pid m) h of
        (Inl e, h1) \<Rightarrow> (Some (if e = ENOENT \<or> e = ESRCH then Ended else Broken), m, h1)
      | (Inr remaining, h1) \<Rightarrow>
          (case adopt K remaining m h1 of
             (False, m1, h2) \<Rightarrow> (Some Broken, m1, h2)
           | (True, m1, h2) \<Rightarrow> (if m_tids m1 = [] then Some Ended else None, m1, h2)))"

partial_function (option) drain_monitor_events :: "kern \<Rightarrow> watch \<Rightarrow> history \<Rightarrow> (drained \<times> watch \<times> history) option" where
  "drain_monitor_events K w h =
     (case drain_pass K (m_tids (w_mon w)) False w h of
        None \<Rightarrow> None
      | Some (Some d, _, w1, h1) \<Rightarrow> Some (d, w1, h1)
      | Some (None, progress, w1, h1) \<Rightarrow>
          if m_tids (w_mon w1) = [] then
            (case reconcile K (w_mon w1) h1 of
               (Some d, m2, h2) \<Rightarrow> Some (d, w1\<lparr>w_mon := m2\<rparr>, h2)
             | (None, m2, h2) \<Rightarrow> drain_monitor_events K (w1\<lparr>w_mon := m2\<rparr>) h2)
          else if progress then drain_monitor_events K w1 h1
          else Some (if crash_found w1 then Crashed else Calm, w1, h1))"

end
