(* ===== verification/MonitorRun.thy ===== *)
theory MonitorRun
  imports Monitor
begin

text \<open>
  \<^verbatim>\<open>Coredump::monitor\<close> of \<^verbatim>\<open>src/core.cc\<close>: seize every thread, answer their stops, dump on
  \<^verbatim>\<open>SIGUSR1\<close>, leave on \<^verbatim>\<open>SIGTERM\<close> and \<^verbatim>\<open>SIGINT\<close>, and write an acore of the process when a
  thread dies of a signal. The state is that of the main loop; what the system gives a new
  file may depend on the moment. (The old signal mask, restored at the end, is not modelled.)
\<close>

record outputs =
  op_os :: "history \<Rightarrow> os_env"
  op_fresh :: "history \<Rightarrow> nat \<times> nat"
  op_info :: "history \<Rightarrow> fd_info"
  op_fd :: nat

record watch_loop =
  wl_watch :: watch
  wl_signal :: int                        \<comment> \<open>\<^verbatim>\<open>signal_forkcore\<close>\<close>
  wl_seq :: u32                           \<comment> \<open>\<^verbatim>\<open>dump_seq\<close>\<close>
  wl_dump :: bool                         \<comment> \<open>\<^verbatim>\<open>dump_requested\<close>\<close>

abbreviation (input) SIGUSR1 :: int where "SIGUSR1 \<equiv> 10"
abbreviation (input) SIGTERM :: int where "SIGTERM \<equiv> 15"
abbreviation (input) SIGINT :: int where "SIGINT \<equiv> 2"
abbreviation (input) GROUP_STOP_SENTINEL :: int where "GROUP_STOP_SENTINEL \<equiv> - 3"
abbreviation (input) SNAPSHOT_GROUP_STOP_SKIPPED :: int where "SNAPSHOT_GROUP_STOP_SKIPPED \<equiv> - 5"

section \<open>Leaving\<close>

text \<open>\<^verbatim>\<open>out.Close()\<close> and \<^verbatim>\<open>unlink(corefile)\<close>: whether the first succeeds, whether the file is gone.\<close>

definition remove_output ::
    "('e, 'd) lz4_codec \<Rightarrow> os_env \<Rightarrow> string \<Rightarrow> ('e, 'd) stream \<Rightarrow> fs \<Rightarrow> bool \<times> bool \<times> fs" where
  "remove_output cdc os temp st files =
     (let (rc, f, st1) = Close cdc st; (u, files1) = os_call os UnlinkAborted (fs_unlink temp) (store_closed temp f files)
      in (succeeds rc, u = Inr () \<or> u = Inl ENOENT, files1))"

definition leave_failed ::
    "kern \<Rightarrow> ('e, 'd) lz4_codec \<Rightarrow> outputs \<Rightarrow> string \<Rightarrow> ('e, 'd) stream \<Rightarrow> mon \<Rightarrow> history \<Rightarrow> fs \<Rightarrow>
     (int \<times> mon \<times> history \<times> fs) option" where
  "leave_failed K cdc op temp st m h files =
     (case detach_monitored_threads K m h of
        None \<Rightarrow> None
      | Some (bad, m1, h1) \<Rightarrow> Some (- 1, m1, h1, discard_output cdc (op_os op h1) temp st files))"

text \<open>The target is gone, or Arthur is told to go: the result is 0 if all is tidy.\<close>

definition leave_tidy ::
    "kern \<Rightarrow> ('e, 'd) lz4_codec \<Rightarrow> outputs \<Rightarrow> bool \<Rightarrow> string \<Rightarrow> ('e, 'd) stream \<Rightarrow> mon \<Rightarrow> history \<Rightarrow> fs \<Rightarrow>
     (int \<times> mon \<times> history \<times> fs) option" where
  "leave_tidy K cdc op check_close temp st m h files =
     (case detach_monitored_threads K m h of
        None \<Rightarrow> None
      | Some (bad, m1, h1) \<Rightarrow>
          (case remove_output cdc (op_os op h1) temp st files of
             (closed, removed, files1) \<Rightarrow>
               Some (if \<not> bad \<and> removed \<and> (check_close \<longrightarrow> closed) then 0 else - 1, m1, h1, files1)))"

section \<open>A dump on request\<close>

definition dump_directory :: "string \<Rightarrow> string" where
  "dump_directory path =
     (case split_last (CHR ''/'') path of
        None \<Rightarrow> []
      | Some (d, _) \<Rightarrow> let d' = (if d = [] then ''/'' else d) in if last d' = CHR ''/'' then d' else d' @ ''/'')"

definition dump_name :: "int \<Rightarrow> nat \<Rightarrow> u32 \<Rightarrow> string" where
  "dump_name pid time seq =
     ''acore.'' @ show_dec (nat pid) @ ''.'' @ show_dec (time mod 2 ^ 32) @ ''.'' @ show_dec (unat seq)"

text \<open>A name no file has, of \<open>n\<close> that are tried.\<close>

fun unique_dump ::
    "nat \<Rightarrow> os_env \<Rightarrow> string \<Rightarrow> int \<Rightarrow> nat \<Rightarrow> u32 \<Rightarrow> fs \<Rightarrow> string option \<times> u32 \<times> fs" where
  "unique_dump 0 os dir pid time seq files = (None, seq, files)"
| "unique_dump (Suc n) os dir pid time seq files =
     (let path = dir @ dump_name pid time seq in
      case os_lstat os (LstatSnapshot (unat seq)) path files of
        (Inl e, files1) \<Rightarrow> (if e = ENOENT then Some path else None, seq + 1, files1)
      | (Inr _, files1) \<Rightarrow> unique_dump n os dir pid time (seq + 1) files1)"

text \<open>Go on with the loop, return, or write the acore of the crash.\<close>

datatype turn = Again watch_loop | Return int mon | Collect watch_loop

definition returned :: "(int \<times> mon \<times> history \<times> fs) option \<Rightarrow> (turn \<times> history \<times> fs) option" where
  "returned r = (case r of None \<Rightarrow> None | Some (rc, m, h, files) \<Rightarrow> Some (Return rc m, h, files))"

definition dump_turn ::
    "kern \<Rightarrow> ('e, 'd) lz4_codec \<Rightarrow> outputs \<Rightarrow> nat \<Rightarrow> shellcode \<Rightarrow> core \<Rightarrow> string \<Rightarrow> ('e, 'd) stream \<Rightarrow> watch_loop \<Rightarrow>
     history \<Rightarrow> fs \<Rightarrow> (turn \<times> history \<times> fs) option" where
  "dump_turn K cdc op platform sc c temp st s h files =
     (let s0 = s\<lparr>wl_dump := False\<rparr>; w = wl_watch s; m = w_mon w in
      if w_group w then Some (Again s0, h, files)
      else
        case unique_dump 10000 (op_os op h) (dump_directory temp) (m_pid m) (k_now K h) (wl_seq s) files of
          (None, seq, files1) \<Rightarrow> Some (Again (s0\<lparr>wl_seq := seq\<rparr>), Asked # h, files1)
        | (Some path, seq, files1) \<Rightarrow>
            let h1 = Asked # h in
            (case forkcore_m K cdc (op_os op h1) (op_fresh op h1) (op_info op h1) (op_fd op) platform sc False c m path h1 files1 of
               None \<Rightarrow> None
             | Some (rc, m1, h2, files2) \<Rightarrow>
                 if m_recovery_failed m1 then returned (leave_failed K cdc op temp st m1 h2 files2)
                 else
                   let stopped = (rc = GROUP_STOP_SENTINEL \<or> rc = SNAPSHOT_GROUP_STOP_SKIPPED);
                       w1 = w\<lparr>w_mon := m1, w_group := stopped\<rparr>
                   in Some (Again (s0\<lparr>wl_watch := w1, wl_signal := if stopped then 0 else rc, wl_seq := seq\<rparr>), h2, files2)))"

section \<open>The main loop\<close>

text \<open>What the last dump left behind: the target's end, a failure, a crash, a signal to hand on.\<close>

definition signal_turn ::
    "kern \<Rightarrow> ('e, 'd) lz4_codec \<Rightarrow> outputs \<Rightarrow> string \<Rightarrow> ('e, 'd) stream \<Rightarrow> watch_loop \<Rightarrow> history \<Rightarrow> fs \<Rightarrow>
     (turn \<times> history \<times> fs) option" where
  "signal_turn K cdc op temp st s h files =
     (let sig = wl_signal s; w = wl_watch s; m = w_mon w; s0 = s\<lparr>wl_signal := 0\<rparr> in
      if sig = - 2 then returned (leave_tidy K cdc op False temp st m h files)
      else if sig < 0 then Some (Again s0, h, files)
      else if is_core_dump_signal sig then
        Some (Collect (s\<lparr>wl_watch := w\<lparr>w_exit := sig, w_mon := if m_crash_tid m = 0 then m\<lparr>m_crash_tid := m_pid m\<rparr> else m\<rparr>\<rparr>), h, files)
      else
        case sys_ctl K (m_pid m) (CONT sig) h of
          (r, h1) \<Rightarrow>
            if bad_request r then returned (leave_failed K cdc op temp st m h1 files) else Some (Again s0, h1, files))"

partial_function (option) await_signal :: "kern \<Rightarrow> history \<Rightarrow> ((err + int) \<times> history) option" where
  "await_signal K h =
     (case sys_sigwait K h of
        (Inl e, h1) \<Rightarrow> if e = EINTR then await_signal K h1 else Some (Inl e, h1)
      | (Inr sig, h1) \<Rightarrow> Some (Inr sig, h1))"

definition wait_turn ::
    "kern \<Rightarrow> ('e, 'd) lz4_codec \<Rightarrow> outputs \<Rightarrow> string \<Rightarrow> ('e, 'd) stream \<Rightarrow> watch_loop \<Rightarrow> history \<Rightarrow> fs \<Rightarrow>
     (turn \<times> history \<times> fs) option" where
  "wait_turn K cdc op temp st s h files =
     (let m = w_mon (wl_watch s) in
      case await_signal K h of
        None \<Rightarrow> None
      | Some (Inl _, h1) \<Rightarrow> returned (leave_failed K cdc op temp st m h1 files)
      | Some (Inr sig, h1) \<Rightarrow>
          if sig = SIGUSR1 then Some (Again (s\<lparr>wl_dump := True\<rparr>), h1, files)
          else if sig = SIGTERM \<or> sig = SIGINT then returned (leave_tidy K cdc op True temp st m h1 files)
          else Some (Again s, h1, files))"

definition monitor_turn ::
    "kern \<Rightarrow> ('e, 'd) lz4_codec \<Rightarrow> outputs \<Rightarrow> nat \<Rightarrow> shellcode \<Rightarrow> core \<Rightarrow> string \<Rightarrow> ('e, 'd) stream \<Rightarrow> watch_loop \<Rightarrow>
     history \<Rightarrow> fs \<Rightarrow> (turn \<times> history \<times> fs) option" where
  "monitor_turn K cdc op platform sc c temp st s h files =
     (case drain_monitor_events K (wl_watch s) h of
        None \<Rightarrow> None
      | Some (d, w, h1) \<Rightarrow>
          let s1 = s\<lparr>wl_watch := w\<rparr> in
          (case d of
             Broken \<Rightarrow> returned (leave_failed K cdc op temp st (w_mon w) h1 files)
           | Ended \<Rightarrow>
               (case remove_output cdc (op_os op h1) temp st files of
                  (_, removed, files1) \<Rightarrow> Some (Return (if removed then 0 else - 1) (w_mon w), h1, files1))
           | Crashed \<Rightarrow> Some (Collect s1, h1, files)
           | Calm \<Rightarrow>
               if wl_signal s1 \<noteq> 0 then signal_turn K cdc op temp st s1 h1 files
               else if wl_dump s1 then dump_turn K cdc op platform sc c temp st s1 h1 files
               else wait_turn K cdc op temp st s1 h1 files))"

text \<open>The loop ends with a result or with the crash to collect.\<close>

partial_function (option) monitor_loop ::
    "kern \<Rightarrow> ('e, 'd) lz4_codec \<Rightarrow> outputs \<Rightarrow> nat \<Rightarrow> shellcode \<Rightarrow> core \<Rightarrow> string \<Rightarrow> ('e, 'd) stream \<Rightarrow> watch_loop \<Rightarrow>
     history \<Rightarrow> fs \<Rightarrow> ((int \<times> mon + watch_loop) \<times> history \<times> fs) option" where
  "monitor_loop K cdc op platform sc c temp st s h files =
     (case monitor_turn K cdc op platform sc c temp st s h files of
        None \<Rightarrow> None
      | Some (Again s1, h1, files1) \<Rightarrow> monitor_loop K cdc op platform sc c temp st s1 h1 files1
      | Some (Return rc m, h1, files1) \<Rightarrow> Some (Inl (rc, m), h1, files1)
      | Some (Collect s1, h1, files1) \<Rightarrow> Some (Inr s1, h1, files1))"

section \<open>The acore of a crash\<close>

text \<open>Every thread is released with the signal, so that the process dies of it.\<close>

fun release_crashed :: "kern \<Rightarrow> mon \<Rightarrow> int \<Rightarrow> int list \<Rightarrow> history \<Rightarrow> bool \<times> history" where
  "release_crashed K m sig [] h = (True, h)"
| "release_crashed K m sig (tid # tids) h =
     (if m_leader_exited m \<and> tid = m_pid m then release_crashed K m sig tids h
      else
        let (r, h1) = pt_detach K tid sig h; (ok, h2) = release_crashed K m sig tids h1
        in (\<not> bad_request r \<and> ok, h2))"

definition kill_crashed :: "kern \<Rightarrow> int \<Rightarrow> mon \<Rightarrow> history \<Rightarrow> bool \<times> mon \<times> history" where
  "kill_crashed K sig m h =
     (let (ok, h1) = release_crashed K m sig (if m_tids m \<noteq> [] then m_tids m else m_thrd m) h
      in (ok, m\<lparr>m_tids := []\<rparr>, if ok then h1 else snd (sys_kill K (m_pid m) sig h1)))"

text \<open>The crashing thread, then the leader, then the others.\<close>

definition crash_order :: "mon \<Rightarrow> int list \<Rightarrow> int list" where
  "crash_order m tids =
     m_crash_tid m # (if \<not> m_leader_exited m \<and> m_crash_tid m \<noteq> m_pid m then [m_pid m] else [])
       @ filter (\<lambda>tid. tid \<noteq> m_pid m \<and> tid \<noteq> m_crash_tid m) tids"

definition crash_core :: "core \<Rightarrow> int \<Rightarrow> mon \<Rightarrow> core" where
  "crash_core c sig m = (capture_core c (m_thrd m))\<lparr>c_crash_sig := sig, c_crash_tid := m_crash_tid m\<rparr>"

definition write_crash ::
    "kern \<Rightarrow> ('e, 'd) lz4_codec \<Rightarrow> nat \<Rightarrow> core \<Rightarrow> mon \<Rightarrow> ('e, 'd) stream \<Rightarrow> history \<Rightarrow> (bool \<times> ('e, 'd) stream) option" where
  "write_crash K cdc platform c m st h =
     (let source = (if m_leader_exited m then m_crash_tid m else m_pid m); env = k_capture K h in
      case WriteProcessMeta cdc env source c st of
        (Inl _, _, st1) \<Rightarrow> Some (False, st1)
      | (Inr maps, c1, st1) \<Rightarrow>
          if m_crash_tid m \<notin> set (pd_thrd_pid (c_process c1)) then Some (False, st1)
          else
            (case WriteThreads cdc env (k_threads K h) c1 (crash_order m (pd_thrd_pid (c_process c1))) st1 of
               (Inl _, st2) \<Rightarrow> Some (False, st2)
             | (Inr _, st2) \<Rightarrow>
                 (case write_image cdc (k_mem K h) platform source maps c1 st2 of
                    None \<Rightarrow> None
                  | Some (r, _, st3) \<Rightarrow> Some (succeeds r, st3))))"

definition collect_crash ::
    "kern \<Rightarrow> ('e, 'd) lz4_codec \<Rightarrow> outputs \<Rightarrow> nat \<Rightarrow> core \<Rightarrow> string \<Rightarrow> AtomicOutputState \<Rightarrow> string \<Rightarrow> ('e, 'd) stream \<Rightarrow>
     watch \<Rightarrow> history \<Rightarrow> fs \<Rightarrow> (int \<times> mon \<times> history \<times> fs) option" where
  "collect_crash K cdc op platform c temp state corefile st w h files =
     (let sig = w_exit w in
      case collect_threads K (m_pid (w_mon w)) 0 (w_mon w) h of
        None \<Rightarrow> None
      | Some (r, m1, h1) \<Rightarrow>
     (case (if r \<noteq> Collected then Some (False, st) else write_crash K cdc platform (crash_core c sig m1) m1 st h1) of
        None \<Rightarrow> None
      | Some (full, st1) \<Rightarrow>
     (case kill_crashed K sig m1 h1 of
        (released, m2, h2) \<Rightarrow>
          if \<not> full \<or> \<not> released then Some (- 1, m2, h2, discard_output cdc (op_os op h2) temp st1 files)
          else
            (case commit_atomic_lz4 cdc (op_os op h2) st1 temp corefile state files of
               (r, files1) \<Rightarrow> Some (if succeeds r then 0 else - 1, m2, h2, files1)))))"

section \<open>monitor\<close>

definition monitor ::
    "kern \<Rightarrow> ('e, 'd) lz4_codec \<Rightarrow> outputs \<Rightarrow> nat \<Rightarrow> shellcode \<Rightarrow> core \<Rightarrow> mon \<Rightarrow> string \<Rightarrow> history \<Rightarrow> fs \<Rightarrow>
     (int \<times> mon \<times> history \<times> fs) option" where
  "monitor K cdc op platform sc c m corefile h files =
     (let m0 = m\<lparr>m_leader_exited := False\<rparr>; h0 = Asked # h in
      if isl (k_block K h) then Some (- 1, m0, h0, files)
      else
        case open_atomic_lz4 cdc (op_os op h0) (op_fresh op h0) (op_info op h0) (op_fd op) corefile (Lz4Stream_new LZ4_Compress) files of
          (Inl e, _, files1) \<Rightarrow> Some (- 1, m0, h0, files1)
        | (Inr (temp, state), st, files1) \<Rightarrow>
       (case WriteFileHeader cdc platform st of
          (Inl e, st1) \<Rightarrow> Some (- 1, m0, h0, discard_output cdc (op_os op h0) temp st1 files1)
        | (Inr _, st1) \<Rightarrow>
       (case monitor_threads K (m_pid m) m0 h0 of
          None \<Rightarrow> None
        | Some (False, m1, h1) \<Rightarrow> Some (- 1, m1, h1, discard_output cdc (op_os op h1) temp st1 files1)
        | Some (True, m1, h1) \<Rightarrow>
            let s = \<lparr>wl_watch = \<lparr>w_mon = m1, w_exit = 0, w_group = False\<rparr>, wl_signal = 0, wl_seq = 0, wl_dump = False\<rparr> in
            (case monitor_loop K cdc op platform sc c temp st1 s h1 files1 of
               None \<Rightarrow> None
             | Some (Inl (rc, m2), h2, files2) \<Rightarrow> Some (rc, m2, h2, files2)
             | Some (Inr s2, h2, files2) \<Rightarrow>
                 collect_crash K cdc op platform c temp state corefile st1 (wl_watch s2) h2 files2))))"

end
