(* ===== verification/PtraceProps.thy ===== *)
theory PtraceProps
  imports Ptrace "HOL-Library.Sublist"
begin

text \<open>
  What the ptrace layer guarantees: a wait that succeeds has seen a stop, every wait ends, and
  a call in the target that does not report a failed recovery leaves the stack and the
  extended registers of the target as they were.
\<close>

section \<open>Waiting\<close>

lemma wait_loop_stopped: "wait_loop K pid t0 h = Some r \<Longrightarrow> fst r = Inr s \<longrightarrow> WIFSTOPPED s"
proof (induction rule: wait_loop.raw_induct [rotated, consumes 1, case_names Step])
  case (Step wl K pid t0 h r)
  from Step(2) show ?case
    by (auto split: if_splits sum.splits option.splits prod.splits) (metis Step(1))+
qed

lemma pt_wait_stopped: "pt_wait K pid h = Some (Inr s, h') \<Longrightarrow> WIFSTOPPED s"
  using wait_loop_stopped [of K pid _ h "(Inr s, h')"] by (simp add: pt_wait_def)

text \<open>System calls take time: the clock passes every bound after finitely many of them.\<close>

definition clock_runs :: "kern \<Rightarrow> bool" where
  "clock_runs K \<longleftrightarrow> (\<forall>t. \<exists>n. \<forall>h. n \<le> length h \<longrightarrow> t < k_clock K h)"

lemma wait_loop_ends:
  assumes "\<forall>h. n \<le> length h \<longrightarrow> t0 + 10000 < k_clock K h"
  shows "\<exists>r. wait_loop K pid t0 h = Some r"
proof (induction "n - length h" arbitrary: h rule: less_induct)
  case less
  show ?case
  proof (cases "10000 < k_clock K h - t0")
    case True
    then show ?thesis by (subst wait_loop.simps) simp
  next
    case False
    then have "length h < n" using assms by (auto simp: not_less not_le [symmetric])
    then have IH: "\<exists>r. wait_loop K pid t0 (Waited p x # h) = Some r" "\<exists>r. wait_loop K pid t0 (Slept # Waited p x # h) = Some r" for p x
      by (intro less; simp)+
    show ?thesis using False IH
      by (subst wait_loop.simps) (auto simp: sys_waitpid_def Let_def split: sum.splits option.splits)
  qed
qed

lemma pt_wait_ends: "clock_runs K \<Longrightarrow> \<exists>r. pt_wait K pid h = Some r"
  using wait_loop_ends by (metis clock_runs_def pt_wait_def not_None_eq)


section \<open>Histories grow\<close>

lemma suffix_step [intro]: "suffix h h' \<Longrightarrow> suffix h (e # h')"
  by (rule suffix_ConsI)

lemma wait_loop_grows: "wait_loop K pid t0 h = Some r \<Longrightarrow> suffix h (snd r)"
proof (induction rule: wait_loop.raw_induct [rotated, consumes 1, case_names Step])
  case (Step wl K pid t0 h r)
  have IH: "suffix h h'" if "wl K pid t0 h1 = Some (x, h')" "suffix h h1" for h1 x h'
    using Step(1) [OF that(1)] that(2) suffix_order.trans by fastforce
  from Step(2) show ?case
    by (cases r) (auto simp: sys_waitpid_def Let_def split: if_splits sum.splits option.splits intro: IH suffix_ConsI)
qed

lemma pt_wait_grows: "pt_wait K pid h = Some (r, h') \<Longrightarrow> suffix h h'"
  using wait_loop_grows by (fastforce simp: pt_wait_def)

lemma pt_stop_if_running_grows: "pt_stop_if_running K pid h = Some (r, h') \<Longrightarrow> suffix h h'"
  by (auto simp: pt_stop_if_running_def sys_ctl_def sys_kill_def Let_def split: sum.splits
      dest!: pt_wait_grows intro: suffix_ConsD)

lemma pt_stop_if_running_ends: "clock_runs K \<Longrightarrow> \<exists>r. pt_stop_if_running K pid h = Some r"
  using pt_wait_ends [of K pid] by (auto simp: pt_stop_if_running_def split: sum.splits prod.splits)

lemma ask_grows: "suffix h (snd (sys_getregs K pid h))" "suffix h (snd (sys_getxstate K pid h))" "suffix h (snd (sys_peek K pid a h))"
    "suffix h (snd (sys_siginfo K pid h))" "suffix h (snd (sys_eventmsg K pid h))" "suffix h (snd (disposition K pid sig h))"
  by (auto simp: sys_ask_defs disposition_def intro: suffix_ConsI)

text \<open>A verdict only looks: the events it adds are all \<open>Asked\<close>.\<close>

definition asks :: "history \<Rightarrow> history \<Rightarrow> bool" where
  "asks h h' \<longleftrightarrow> (\<exists>n. h' = replicate n Asked @ h)"

lemma asks_refl [simp]: "asks h h"
  unfolding asks_def by (rule exI [of _ 0]) simp

lemma asks_Cons [simp, intro]: "asks h h' \<Longrightarrow> asks h (Asked # h')"
  unfolding asks_def by (metis append_Cons replicate_Suc)

lemma asks_suffix: "asks h h' \<Longrightarrow> suffix h h'"
  by (auto simp: asks_def suffix_def)

lemma asks_trans: "asks h h1 \<Longrightarrow> asks h1 h2 \<Longrightarrow> asks h h2"
  unfolding asks_def by (metis append.assoc replicate_add)

lemma is_default_snapshot_exit_asks: "is_default_snapshot_exit K pid c h = (b, h') \<Longrightarrow> asks h h'"
  by (auto simp: is_default_snapshot_exit_def disposition_def sys_ask_defs Let_def split: if_splits sum.splits)

lemma fork_event_asks: "fork_event K pid s out h = (v, out', h') \<Longrightarrow> asks h h' \<and> v \<noteq> Finished"
  by (auto simp: fork_event_def sys_ask_defs split: if_splits sum.splits)

lemma stop_verdict_asks: "stop_verdict K pid rc s out h = (v, out', h') \<Longrightarrow> asks h h'"
  by (auto simp: stop_verdict_def crash_verdict_def sys_ask_defs Let_def
      split: if_splits sum.splits prod.splits dest: fork_event_asks is_default_snapshot_exit_asks asks_trans)

lemma inject_loop_ends:
  assumes "clock_runs K" "\<forall>h. n \<le> length h \<longrightarrow> t0 + 10000 < k_clock K h"
  shows "\<exists>r. inject_loop K pid rc t0 status out h = Some r"
proof (induction "n - length h" arbitrary: status out h rule: less_induct)
  case less
  show ?case
  proof (cases "10000 < k_clock K h - t0")
    case True
    then show ?thesis using pt_stop_if_running_ends [OF assms(1)]
      by (subst inject_loop.simps) (auto split: option.splits)
  next
    case False
    then have lt: "length h < n" using assms(2) by (auto simp: not_less not_le [symmetric])
    obtain v out1 h1 where v: "stop_verdict K pid rc status out h = (v, out1, h1)" by (metis prod.exhaust)
    obtain c h2 where c: "sys_ctl K pid (CONT 0) h1 = (c, h2)" by fastforce
    obtain w h3 where w: "pt_wait K pid h2 = Some (w, h3)" using pt_wait_ends [OF assms(1)] by fastforce
    have "length h \<le> length h1" using stop_verdict_asks [OF v] by (auto simp: asks_def)
    moreover have "length h2 = length h1 + 1" using c by (auto simp: sys_ctl_def Let_def)
    moreover have "length h2 \<le> length h3" using pt_wait_grows [OF w] by (rule suffix_length_le)
    ultimately have "n - length h3 < n - length h" using lt by simp
    note IH = less [OF this]
    obtain r4 where "pt_stop_if_running K pid h3 = Some r4" using pt_stop_if_running_ends [OF assms(1)] by blast
    then show ?thesis using False v c w IH
      by (subst inject_loop.simps) (auto simp: Let_def split: verdict.splits sum.splits prod.splits)
  qed
qed

lemma pt_call_ends: "clock_runs K \<Longrightarrow> \<exists>r. pt_call K pid func argv rc h = Some r"
proof -
  assume c: "clock_runs K"
  show ?thesis
  proof (cases "prepare_call K pid func argv h")
    case (fields ok sv out h1)
    obtain n where "\<forall>h'. n \<le> length h' \<longrightarrow> k_clock K h1 + 10000 < k_clock K h'" using c by (auto simp: clock_runs_def)
    then obtain r where "inject_loop K pid rc (k_clock K h1) 0 out h1 = Some r" using inject_loop_ends [OF c] by blast
    then show ?thesis using fields by (auto simp: pt_call_def split: prod.splits bool.splits sum.splits)
  qed
qed

section \<open>What ptrace promises about a stopped tracee\<close>

text \<open>
  The documented behaviour of the requests, as a relation between the kernel's answers, the
  set \<open>S\<close> of stopped tracees, their memory \<open>M\<close> and extended state \<open>X\<close> after each history: a
  word that is read is the one in memory; a write that succeeds is to a stopped tracee and
  changes that word or that state only; a tracee stays stopped, and nothing else of it
  changes, until it is resumed.
\<close>

definition quiet :: "call \<Rightarrow> bool" where
  "quiet e \<longleftrightarrow> e = Asked \<or> (\<exists>p a w ok. e = Ctl p (POKEDATA a w) ok) \<or> (\<exists>p r ok. e = Ctl p (SETREGS r) ok) \<or>
     (\<exists>p x ok. e = Ctl p (SETXSTATE x) ok)"

definition ptrace_laws ::
    "kern \<Rightarrow> (history \<Rightarrow> int \<Rightarrow> bool) \<Rightarrow> (history \<Rightarrow> int \<Rightarrow> u64 \<Rightarrow> char) \<Rightarrow> (history \<Rightarrow> int \<Rightarrow> bytes) \<Rightarrow> bool" where
  "ptrace_laws K S M X \<longleftrightarrow>
     (\<forall>h p a w i. k_peek K h p a = Inr w \<longrightarrow> i < 8 \<longrightarrow> M h p (a + word_of_nat i) = put64 w ! i) \<and>
     (\<forall>h p x. k_getxstate K h p = Inr x \<longrightarrow> x = X h p) \<and>
     (\<forall>h p a w. k_ctl K h p (POKEDATA a w) = Inr () \<longrightarrow> S h p \<and>
        M (Ctl p (POKEDATA a w) True # h) p = (\<lambda>b. if unat (b - a) < 8 then put64 w ! unat (b - a) else M h p b)) \<and>
     (\<forall>h p x. k_ctl K h p (SETXSTATE x) = Inr () \<longrightarrow> S h p \<and> X (Ctl p (SETXSTATE x) True # h) p = x) \<and>
     (\<forall>h p e. S h p \<longrightarrow> quiet e \<longrightarrow> S (e # h) p \<and>
        ((\<forall>a w. e \<noteq> Ctl p (POKEDATA a w) True) \<longrightarrow> M (e # h) p = M h p) \<and>
        ((\<forall>x. e \<noteq> Ctl p (SETXSTATE x) True) \<longrightarrow> X (e # h) p = X h p))"


text \<open>The bytes of a list of words; \<open>holding\<close> that they are those of a memory.\<close>

definition covered :: "(u64 \<times> u64) list \<Rightarrow> u64 set" where
  "covered ws = {x. \<exists>(a, w) \<in> set ws. unat (x - a) < 8}"

definition holding :: "(u64 \<Rightarrow> char) \<Rightarrow> (u64 \<times> u64) list \<Rightarrow> bool" where
  "holding m ws \<longleftrightarrow> (\<forall>(a, w) \<in> set ws. \<forall>i < 8. m (a + word_of_nat i) = put64 w ! i)"

lemma covered_simps [simp]: "covered [] = {}" "x \<in> covered ((a, w) # ws) \<longleftrightarrow> unat (x - a) < 8 \<or> x \<in> covered ws"
    "covered (vs @ ws) = covered vs \<union> covered ws"
  by (auto simp: covered_def)

lemma holding_simps [simp]: "holding m []" "holding m (vs @ ws) \<longleftrightarrow> holding m vs \<and> holding m ws"
  by (auto simp: holding_def)

lemma holding_Cons: "holding m ((a, w) # ws) \<longleftrightarrow> (\<forall>x. unat (x - a) < 8 \<longrightarrow> m x = put64 w ! unat (x - a)) \<and> holding m ws"
proof -
  have "(\<forall>i < 8. m (a + word_of_nat i) = put64 w ! i) \<longleftrightarrow> (\<forall>x. unat (x - a) < 8 \<longrightarrow> m x = put64 w ! unat (x - a))"
  proof safe
    fix x assume "\<forall>i < 8. m (a + word_of_nat i) = put64 w ! i" "unat (x - a) < 8"
    then have "m (a + word_of_nat (unat (x - a))) = put64 w ! unat (x - a)" by blast
    then show "m x = put64 w ! unat (x - a)" by simp
  next
    fix i :: nat assume a: "\<forall>x. unat (x - a) < 8 \<longrightarrow> m x = put64 w ! unat (x - a)" and i: "i < 8"
    have "unat (word_of_nat i :: u64) = i" using i by (simp add: unat_of_nat)
    then show "m (a + word_of_nat i) = put64 w ! i" using a [rule_format, of "a + word_of_nat i"] i by simp
  qed
  then show ?thesis by (simp add: holding_def)
qed

lemma peek_holds: "ptrace_laws K S M X \<Longrightarrow> k_peek K h p a = Inr w \<Longrightarrow> holding (M h p) [(a, w)]"
  by (simp add: ptrace_laws_def holding_def)

lemma poke_law:
  "ptrace_laws K S M X \<Longrightarrow> k_ctl K h p (POKEDATA a w) = Inr () \<Longrightarrow>
   S h p \<and> M (Ctl p (POKEDATA a w) True # h) p = (\<lambda>b. if unat (b - a) < 8 then put64 w ! unat (b - a) else M h p b)"
  "ptrace_laws K S M X \<Longrightarrow> k_ctl K h p (SETXSTATE x) = Inr () \<Longrightarrow> S h p \<and> X (Ctl p (SETXSTATE x) True # h) p = x"
  by (simp_all add: ptrace_laws_def)

lemma quiet_law:
  "ptrace_laws K S M X \<Longrightarrow> S h p \<Longrightarrow> quiet e \<Longrightarrow>
   S (e # h) p \<and> ((\<forall>a w. e \<noteq> Ctl p (POKEDATA a w) True) \<longrightarrow> M (e # h) p = M h p) \<and>
   ((\<forall>x. e \<noteq> Ctl p (SETXSTATE x) True) \<longrightarrow> X (e # h) p = X h p)"
  unfolding ptrace_laws_def by blast

lemma asked_law: "ptrace_laws K S M X \<Longrightarrow> S h p \<Longrightarrow> S (Asked # h) p \<and> M (Asked # h) p = M h p \<and> X (Asked # h) p = X h p"
  using quiet_law [of K S M X h p Asked] by (simp add: quiet_def)

lemma poke_words_restores:
  assumes L: "ptrace_laws K S M X"
  shows "poke_words K p ws h = (True, h') \<Longrightarrow> ws \<noteq> [] \<or> S h p \<Longrightarrow> holding m ws \<Longrightarrow>
    S h' p \<and> (\<forall>x. M h' p x = (if x \<in> covered ws then m x else M h p x)) \<and> X h' p = X h p"
proof (induction ws arbitrary: h)
  case Nil
  then show ?case by simp
next
  case (Cons v ws)
  obtain a w where v: "v = (a, w)" by (cases v)
  let ?e = "Ctl p (POKEDATA a w) True"
  have k: "k_ctl K h p (POKEDATA a w) = Inr ()" and p: "poke_words K p ws (?e # h) = (True, h')"
    using Cons.prems(1) by (auto simp: v sys_ctl_def Let_def succeeds_def split: sum.splits prod.splits)
  have S: "S h p" "M (?e # h) p = (\<lambda>b. if unat (b - a) < 8 then put64 w ! unat (b - a) else M h p b)"
    using poke_law(1) [OF L k] by auto
  have q: "S (?e # h) p" "X (?e # h) p = X h p" using quiet_law [OF L S(1), of ?e] by (auto simp: quiet_def)
  have m: "\<forall>x. unat (x - a) < 8 \<longrightarrow> m x = put64 w ! unat (x - a)" "holding m ws" using Cons.prems(3) by (simp_all add: v holding_Cons)
  from Cons.IH [OF p _ m(2)] q m(1) show ?case by (auto simp: v S(2))
qed

lemma peek_words_holds:
  assumes L: "ptrace_laws K S M X"
  shows "peek_words K p as h = (r, h') \<Longrightarrow> S h p \<Longrightarrow>
    S h' p \<and> M h' p = M h p \<and> X h' p = X h p \<and> (\<forall>ws. r = Inr ws \<longrightarrow> holding (M h p) ws \<and> map fst ws = as)"
proof (induction as arbitrary: h r h')
  case Nil
  then show ?case by auto
next
  case (Cons a as)
  note A = asked_law [OF L Cons.prems(2)]
  show ?case
  proof (cases "k_peek K h p a")
    case (Inl e)
    then show ?thesis using Cons.prems A by (auto simp: sys_peek_def)
  next
    case (Inr w)
    obtain r1 h1 where r1: "peek_words K p as (Asked # h) = (r1, h1)" by fastforce
    note IH = Cons.IH [OF r1 conjunct1 [OF A]]
    then show ?thesis using Cons.prems(1) A peek_holds [OF L Inr] r1
      by (auto simp: sys_peek_def Inr holding_Cons split: sum.splits)
  qed
qed

lemma pt_setregs_quiet:
  assumes L: "ptrace_laws K S M X" and S: "S h p" and r: "pt_setregs K p regs h = (x, h')"
  shows "S h' p \<and> M h' p = M h p \<and> X h' p = X h p"
proof -
  have 1: "S (Ctl p (SETREGS regs) ok # g) p \<and> M (Ctl p (SETREGS regs) ok # g) p = M g p \<and> X (Ctl p (SETREGS regs) ok # g) p = X g p"
    if "S g p" for ok g using quiet_law [OF L that, of "Ctl p (SETREGS regs) ok"] by (auto simp: quiet_def)
  show ?thesis using r 1 [OF S] 1 by (auto simp: pt_setregs_def sys_ctl_def Let_def split: sum.splits if_splits)
qed

lemma restore_saved_restores:
  assumes L: "ptrace_laws K S M X" and r: "restore_saved K p sv h = (True, h')" and s: "sv_slot sv \<noteq> [] \<or> S h p"
    and m: "holding m (sv_slot sv @ sv_red sv)"
  shows "S h' p \<and> (\<forall>x. M h' p x = (if x \<in> covered (sv_slot sv @ sv_red sv) then m x else M h p x)) \<and>
    X h' p = (case sv_xstate sv of None \<Rightarrow> X h p | Some x \<Rightarrow> x)"
proof -
  obtain h1 h2 where p: "poke_words K p (sv_slot sv) h = (True, h1)" "poke_words K p (sv_red sv) h1 = (True, h2)"
    and x: "case sv_xstate sv of None \<Rightarrow> h' = h2 | Some x \<Rightarrow> k_ctl K h2 p (SETXSTATE x) = Inr () \<and> h' = Ctl p (SETXSTATE x) True # h2"
    using r by (auto simp: restore_saved_def sys_ctl_def Let_def succeeds_def split: prod.splits option.splits sum.splits)
  have 1: "S h1 p \<and> (\<forall>x. M h1 p x = (if x \<in> covered (sv_slot sv) then m x else M h p x)) \<and> X h1 p = X h p"
    by (rule poke_words_restores [OF L p(1) s]) (use m in simp)
  have 2: "S h2 p \<and> (\<forall>x. M h2 p x = (if x \<in> covered (sv_red sv) then m x else M h1 p x)) \<and> X h2 p = X h1 p"
    by (rule poke_words_restores [OF L p(2)]) (use m 1 in simp_all)
  show ?thesis
  proof (cases "sv_xstate sv")
    case None
    then show ?thesis using x 1 2 by auto
  next
    case (Some y)
    let ?e = "Ctl p (SETXSTATE y) True"
    have y: "k_ctl K h2 p (SETXSTATE y) = Inr ()" "h' = ?e # h2" using x Some by simp_all
    have "S (?e # h2) p" "M (?e # h2) p = M h2 p" using quiet_law [OF L, of h2 p ?e] 2 by (auto simp: quiet_def)
    then show ?thesis using poke_law(2) [OF L y(1)] 1 2 Some y(2) by auto
  qed
qed


section \<open>A call leaves no trace\<close>

definition red_zone :: "u64 \<Rightarrow> u64 set" where
  "red_zone sp = {x. unat (x - (sp - 128)) < 128 \<or> unat (x - inject_slot sp) < 8}"

lemma red_zone_covered:
  assumes "map fst ws = red_zone_words sp" "unat (x - (sp - 128)) < 128"
  shows "x \<in> covered ws"
proof -
  let ?d = "unat (x - (sp - 128))" and ?i = "unat (x - (sp - 128)) div 8"
  have i: "?i < 16" using assms(2) by simp
  have "sp - 128 + word_of_nat ?i * 8 \<in> set (map fst ws)"
    using i by (auto simp: assms(1) red_zone_words_def intro!: image_eqI [of _ _ ?i])
  then obtain w where w: "(sp - 128 + word_of_nat ?i * 8, w) \<in> set ws" by auto
  have "x - (sp - 128 + word_of_nat ?i * 8) = word_of_nat (?d - ?i * 8)"
    by (simp add: of_nat_diff algebra_simps)
  also have "?d - ?i * 8 = ?d mod 8" by (simp add: minus_div_mult_eq_mod)
  finally have "unat (x - (sp - 128 + word_of_nat ?i * 8)) < 8" by (simp add: unat_of_nat)
  then show ?thesis using w by (auto simp: covered_def)
qed

text \<open>The state in which the target is prepared: nothing has changed but the return slot.\<close>

lemma prepare_call_saves:
  assumes L: "ptrace_laws K S M X" and S: "S h p" and r: "k_getregs K h p = Inr regs"
    and c: "prepare_call K p func argv h = (ok, sv, out, h1)"
  shows "S h1 p \<and> X h1 p = X h p \<and> holding (M h p) (sv_slot sv @ sv_red sv) \<and> sv_xstate sv \<in> {None, Some (X h p)} \<and>
    (\<forall>x. x \<notin> covered (sv_slot sv) \<longrightarrow> M h1 p x = M h p x) \<and>
    (ok \<longrightarrow> sv_slot sv \<noteq> [] \<and> sv_xstate sv \<noteq> None \<and> map fst (sv_slot sv) = [inject_slot (rsp regs)] \<and>
       map fst (sv_red sv) = red_zone_words (rsp regs))"
proof -
  let ?h1 = "Asked # h" and ?h2 = "Asked # Asked # h" and ?h3 = "Asked # Asked # Asked # h" and ?a = "inject_slot (rsp regs)"
  have 1: "S ?h1 p" "M ?h1 p = M h p" "X ?h1 p = X h p" using asked_law [OF L S] by auto
  have 2: "S ?h2 p" "M ?h2 p = M h p" "X ?h2 p = X h p" using asked_law [OF L 1(1)] 1 by auto
  have 3: "S ?h3 p" "M ?h3 p = M h p" "X ?h3 p = X h p" using asked_law [OF L 2(1)] 2 by auto
  have x: "k_getxstate K ?h1 p = Inr y \<Longrightarrow> y = X h p" for y using L 1(3) by (simp add: ptrace_laws_def)
  show ?thesis
  proof (cases "k_getxstate K ?h1 p")
    case (Inl e)
    then show ?thesis using c 2 by (auto simp: prepare_call_def sys_ask_defs r Let_def)
  next
    case xs: (Inr y)
    show ?thesis
    proof (cases "k_peek K ?h2 p ?a")
      case (Inl e)
      then show ?thesis using c 3 xs x by (auto simp: prepare_call_def sys_ask_defs r Let_def)
    next
      case w: (Inr word)
      have hw: "holding (M h p) [(?a, word)]" using peek_holds [OF L w] 2 by simp
      obtain red h4 where red: "peek_words K p (red_zone_words (rsp regs)) ?h3 = (red, h4)" by fastforce
      have 4: "S h4 p" "M h4 p = M h p" "X h4 p = X h p"
        "\<And>ws. red = Inr ws \<Longrightarrow> holding (M h p) ws \<and> map fst ws = red_zone_words (rsp regs)"
        using peek_words_holds [OF L red 3(1)] 3 by auto
      show ?thesis
      proof (cases red)
        case (Inl e)
        then show ?thesis using c 4(1-3) xs x w hw red by (auto simp: prepare_call_def sys_ask_defs r Let_def)
      next
        case ws: (Inr ws)
        let ?e = "\<lambda>ok. Ctl p (POKEDATA ?a 0) ok"
        have q: "S (?e b # h4) p" "X (?e b # h4) p = X h p" for b using quiet_law [OF L 4(1), of "?e b"] 4 by (auto simp: quiet_def)
        show ?thesis
        proof (cases "k_ctl K h4 p (POKEDATA ?a 0)")
          case (Inl e)
          have "M (?e False # h4) p = M h p" using quiet_law [OF L 4(1), of "?e False"] 4 by (auto simp: quiet_def)
          then show ?thesis using c 4(4) q xs x w hw red ws Inl by (auto simp: prepare_call_def sys_ask_defs r Let_def sys_ctl_def)
        next
          case pk: (Inr u)
          obtain rr h6 where rr: "pt_setregs K p (set_args argv (set_pc func (regs\<lparr>rsp := ?a\<rparr>))) (?e True # h4) = (rr, h6)" by fastforce
          have 6: "S h6 p" "M h6 p = M (?e True # h4) p" "X h6 p = X h p" using pt_setregs_quiet [OF L q(1) rr] q by auto
          have "M h6 p x = M h p x" if "x \<notin> covered [(?a, word)]" for x
            using that poke_law(1) [OF L, of h4 p ?a 0] pk 4(2) 6(2) by simp
          then show ?thesis using c 4(4) 6 xs x w hw red ws pk rr
            by (cases rr) (auto simp: prepare_call_def sys_ask_defs r Let_def sys_ctl_def)
        qed
      qed
    qed
  qed
qed


lemma pt_call_keeps:
  assumes L: "ptrace_laws K S M X" and S: "S h p" and r: "k_getregs K h p = Inr regs"
    and c: "pt_call K p func argv rc h = Some (res, out, h')" and ok: "res \<noteq> RecoveryFailed"
  shows "S h' p \<and> (\<forall>x \<in> red_zone (rsp regs). M h' p x = M h p x) \<and> X h' p = X h p"
proof -
  obtain b sv out0 h1 where pr: "prepare_call K p func argv h = (b, sv, out0, h1)" by (metis prod.exhaust)
  note P = prepare_call_saves [OF L S r pr]
  have fail: "restore_saved K p sv g = (True, g')" if "call_fail K p sv g = (res, g')" for g g'
    using that ok by (auto simp: call_fail_def Let_def split: prod.splits if_splits)
  have zone: "x \<in> covered (sv_slot sv @ sv_red sv)" if "x \<in> red_zone (rsp regs)" b for x
  proof -
    have "map fst (sv_slot sv) = [inject_slot (rsp regs)]" "map fst (sv_red sv) = red_zone_words (rsp regs)" using P that(2) by auto
    then show ?thesis using that(1) red_zone_covered [of "sv_red sv" "rsp regs" x]
      by (cases "sv_slot sv") (auto simp: red_zone_def covered_def)
  qed
  show ?thesis
  proof (cases b)
    case False
    then have "restore_saved K p sv h1 = (True, h')" using c fail by (auto simp: pt_call_def pr split: prod.splits)
    from restore_saved_restores [OF L this, of "M h p"] P show ?thesis by (auto split: if_splits)
  next
    case True
    then obtain g where "restore_saved K p sv g = (True, h')"
      using c fail ok by (auto simp: pt_call_def pr split: prod.splits option.splits bool.splits sum.splits if_splits)
    from restore_saved_restores [OF L this, of "M h p"] P True zone show ?thesis by auto
  qed
qed

lemma pt_call_never_unrestored:
  assumes "\<And>g req. k_ctl K g p req = Inr ()" "pt_call K p func argv rc h = Some (res, out, h')"
  shows "res \<noteq> RecoveryFailed"
proof -
  have p: "fst (poke_words K p ws g)" for ws g
    by (induction ws arbitrary: g) (auto simp: sys_ctl_def assms(1) Let_def split_beta)
  have r: "fst (restore_saved K p sv g)" for sv g
    using p by (auto simp: restore_saved_def sys_ctl_def assms(1) Let_def split_beta split: option.splits)
  have f: "fst (call_fail K p sv g) = CallFailed" for sv g
    using r [of sv g] by (auto simp: call_fail_def Let_def split_beta)
  show ?thesis using assms(2) f r
    by (auto simp: pt_call_def split_beta split: option.splits bool.splits sum.splits)
qed

text \<open>
  C8: A call of a function in a stopped target returns, and unless it reports that recovery
  failed, whatever happened meanwhile (a crash, a signal, a timeout, a failed request), the
  target is stopped again with its extended registers, the 128 bytes of its red zone and the
  word of the injected return address exactly as they were before the call.
\<close>

theorem pt_call_restores:
  assumes "ptrace_laws K S M X" "clock_runs K" "S h p" "k_getregs K h p = Inr regs"
  shows "\<exists>res out h'. pt_call K p func argv rc h = Some (res, out, h') \<and>
    (res \<noteq> RecoveryFailed \<longrightarrow> S h' p \<and> (\<forall>x \<in> red_zone (rsp regs). M h' p x = M h p x) \<and> X h' p = X h p)"
proof -
  obtain res out h' where "pt_call K p func argv rc h = Some (res, out, h')"
    using pt_call_ends [OF assms(2), of p func argv rc h] by auto
  with pt_call_keeps [OF assms(1,3,4) this] show ?thesis by blast
qed

subsection \<open>A kernel whose tracee overwrites everything when it runs\<close>

fun sim_mem :: "history \<Rightarrow> int \<Rightarrow> u64 \<Rightarrow> char" where
  "sim_mem [] p x = char_of (unat x mod 256)"
| "sim_mem (Ctl q (POKEDATA a w) True # h) p x =
     (if q = p \<and> unat (x - a) < 8 then put64 w ! unat (x - a) else sim_mem h p x)"
| "sim_mem (Ctl q (CONT s) ok # h) p x = CHR ''!''"
| "sim_mem (e # h) p x = sim_mem h p x"

fun sim_x :: "history \<Rightarrow> int \<Rightarrow> bytes" where
  "sim_x [] p = ''state''"
| "sim_x (Ctl q (SETXSTATE x) True # h) p = (if q = p then x else sim_x h p)"
| "sim_x (Ctl q (CONT s) ok # h) p = ''overwritten''"
| "sim_x (e # h) p = sim_x h p"

definition sim_regs :: x64_regs where
  "sim_regs = \<lparr>r15 = 0, r14 = 0, r13 = 0, r12 = 0, rbp = 0, rbx = 0, r11 = 0, r10 = 0, r9 = 0, r8 = 0, rax = 7, rcx = 0, rdx = 0,
     rsi = 0, rdi = 0, orig_rax = 0, rip = 0x1000, cs = 0, eflags = 0, rsp = 0x7ff8, ss = 0, fs_base = 0, gs_base = 0, ds = 0,
     es = 0, fs = 0, gs = 0\<rparr>"

definition sim_kern :: kern where
  "sim_kern =
     \<lparr>k_clock = \<lambda>h. int (length h), k_self = 1, k_ctl = \<lambda>h p req. Inr (), k_getregs = \<lambda>h p. Inr sim_regs,
      k_getxstate = \<lambda>h p. Inr (sim_x h p), k_peek = \<lambda>h p a. Inr (get64 (map (\<lambda>i. sim_mem h p (a + word_of_nat i)) [0..<8])),
      k_siginfo = \<lambda>h p. Inr \<lparr>sg_signo = 11, sg_code = 1, sg_pid = 0, sg_status = 0\<rparr>, k_eventmsg = \<lambda>h p. Inr 0,
      k_waitpid = \<lambda>h p. Inr (Some (stopped_status 11 0)), k_waitid = \<lambda>h p. Inr None, k_kill = \<lambda>h p s. Inr (),
      k_write = \<lambda>h p a bs. Inr (length bs), k_status = \<lambda>h p. Inl ENOENT, k_tasks = \<lambda>h p. Inl ENOENT, k_access = \<lambda>h p t. Inl ENOENT,
      k_capture = \<lambda>h. \<lparr>ce_open = \<lambda>s. None, ce_time = None, ce_uname = None, ce_host_page = 4096\<rparr>,
      k_threads = \<lambda>h p. \<lparr>te_regs = None, te_fpregs = None, te_siginfo = None, te_xstate = None\<rparr>, k_mem = \<lambda>h p. None,
      k_text = \<lambda>h f. None, k_now = \<lambda>h. 0, k_block = \<lambda>h. Inr (), k_sigwait = \<lambda>h. Inr 15\<rparr>"

lemma sim_quiet:
  "quiet e \<Longrightarrow> \<forall>a w. e \<noteq> Ctl p (POKEDATA a w) True \<Longrightarrow> sim_mem (e # h) p x = sim_mem h p x"
  "quiet e \<Longrightarrow> \<forall>y. e \<noteq> Ctl p (SETXSTATE y) True \<Longrightarrow> sim_x (e # h) p = sim_x h p"
  by (cases "(e # h, p, x)" rule: sim_mem.cases; auto simp: quiet_def)
    (cases "(e # h, p)" rule: sim_x.cases; auto simp: quiet_def)

lemma sim_laws: "ptrace_laws sim_kern (\<lambda>h p. True) sim_mem sim_x"
proof -
  have "put64 (get64 (map f [0..<8])) ! i = f i" if "i < 8" for i and f :: "nat \<Rightarrow> char"
    using that c64.enc_dec [of "map f [0..<8]"] by (simp del: upt_Suc upt_rec_numeral)
  then show ?thesis using sim_quiet by (auto simp: ptrace_laws_def sim_kern_def fun_eq_iff simp del: upt_Suc upt_rec_numeral)
qed

lemma sim_clock: "clock_runs sim_kern"
  unfolding clock_runs_def
proof
  fix t show "\<exists>n. \<forall>h. n \<le> length h \<longrightarrow> t < k_clock sim_kern h" by (rule exI [of _ "nat t + 1"]) (auto simp: sim_kern_def)
qed

theorem pt_call_restores_witness:
  "ptrace_laws sim_kern (\<lambda>h p. True) sim_mem sim_x \<and> clock_runs sim_kern \<and> k_getregs sim_kern [] 42 = Inr sim_regs \<and>
   (\<exists>res out h'. pt_call sim_kern 42 0x5000 [1, 2] 0 [] = Some (res, out, h') \<and> res \<noteq> RecoveryFailed \<and>
      (\<forall>x \<in> red_zone 0x7ff8. sim_mem h' 42 x = char_of (unat x mod 256)) \<and> sim_x h' 42 = ''state'')"
proof -
  have g: "k_getregs sim_kern [] 42 = Inr sim_regs" "rsp sim_regs = 0x7ff8" by (simp_all add: sim_kern_def sim_regs_def)
  obtain res out h' where c: "pt_call sim_kern 42 0x5000 [1, 2] 0 [] = Some (res, out, h')"
    "res \<noteq> RecoveryFailed \<longrightarrow> (\<forall>x \<in> red_zone 0x7ff8. sim_mem h' 42 x = sim_mem [] 42 x) \<and> sim_x h' 42 = sim_x [] 42"
    using pt_call_restores [OF sim_laws sim_clock TrueI g(1), where func = "0x5000" and argv = "[1, 2]" and rc = 0] g(2) by auto
  moreover have "res \<noteq> RecoveryFailed" by (rule pt_call_never_unrestored [OF _ c(1)]) (simp add: sim_kern_def)
  ultimately show ?thesis using sim_laws sim_clock g(1) by auto
qed

end
