(* ===== verification/Attached.thy ===== *)
theory Attached
  imports Generate PtraceProps
begin

text \<open>
  Which threads the dumper holds, read off the history: attached by \<^verbatim>\<open>PTRACE_ATTACH\<close> and not
  given back, stopped and not woken; and when the kernel is to blame for a thread that was
  not given back. Shown for \<^verbatim>\<open>pt_attach\<close> and \<^verbatim>\<open>pt_detach\<close> on every path.
\<close>

section \<open>What a history says of a thread\<close>

text \<open>
  A thread is attached by a successful \<^verbatim>\<open>PTRACE_ATTACH\<close> until a detach of it has succeeded or
  its end is reported; a detach that fails leaves it attached.
\<close>

fun attached :: "int \<Rightarrow> history \<Rightarrow> bool" where
  "attached t [] = False"
| "attached t (Ctl p ATTACH True # h) = (p = t \<or> attached t h)"
| "attached t (Ctl p (DETACH s) True # h) = (p \<noteq> t \<and> attached t h)"
| "attached t (Waited p (Some s) # h) = ((p \<noteq> t \<or> WIFSTOPPED s) \<and> attached t h)"
| "attached t (e # h) = attached t h"

text \<open>
  The calls that let a stopped thread run, or report its end. It is seen stopped when its stop
  was waited for, or its registers could be read (which the kernel allows of a stopped thread only).
\<close>

fun wakes :: "int \<Rightarrow> call \<Rightarrow> bool" where
  "wakes t (Ctl p (CONT s) ok) = (ok \<and> p = t)"
| "wakes t (Ctl p (DETACH s) ok) = (ok \<and> p = t)"
| "wakes t (Ctl p LISTEN ok) = (ok \<and> p = t)"
| "wakes t (Waited p (Some s)) = (p = t \<and> \<not> WIFSTOPPED s)"
| "wakes t (Killed p sig ok) = (ok \<and> p = t \<and> sig = SIGKILL)"
| "wakes t e = False"

definition seen_stopped :: "kern \<Rightarrow> int \<Rightarrow> history \<Rightarrow> bool" where
  "seen_stopped K t h \<longleftrightarrow>
     (case h of
        Waited p (Some s) # _ \<Rightarrow> p = t \<and> WIFSTOPPED s
      | Asked # g \<Rightarrow> (\<exists>regs. k_getregs K g t = Inr regs)
      | _ \<Rightarrow> False)"

text \<open>It was seen stopped at some point of the history and has not been woken since.\<close>

definition stopped_at :: "kern \<Rightarrow> int \<Rightarrow> history \<Rightarrow> bool" where
  "stopped_at K t h \<longleftrightarrow> (\<exists>xs g. h = xs @ g \<and> (\<forall>e \<in> set xs. \<not> wakes t e) \<and> seen_stopped K t g)"

text \<open>The kernel has refused a detach of the thread, with an error, after its last attach.\<close>

definition refused :: "kern \<Rightarrow> err \<Rightarrow> int \<Rightarrow> history \<Rightarrow> bool" where
  "refused K e t h \<longleftrightarrow>
     (\<exists>xs g s. h = xs @ Ctl t (DETACH s) False # g \<and> Ctl t ATTACH True \<notin> set xs \<and> k_ctl K g t (DETACH s) = Inl e)"

text \<open>It was refused with \<^verbatim>\<open>ESRCH\<close>, and \<^verbatim>\<open>/proc\<close> then said that the thread is gone or traced by another.\<close>

definition disowned :: "kern \<Rightarrow> int \<Rightarrow> history \<Rightarrow> bool" where
  "disowned K t h \<longleftrightarrow>
     (\<exists>xs g s. h = xs @ Asked # Ctl t (DETACH s) False # g \<and> Ctl t ATTACH True \<notin> set xs \<and> k_ctl K g t (DETACH s) = Inl ESRCH \<and>
        fst (trace_ownership K t (Ctl t (DETACH s) False # g)) = Some False)"

text \<open>The attach was granted, but the thread could not be stopped, or not be inspected.\<close>

definition unstoppable :: "kern \<Rightarrow> int \<Rightarrow> history \<Rightarrow> bool" where
  "unstoppable K t h \<longleftrightarrow>
     (\<exists>xs g g' e. h = xs @ g' \<and> Ctl t ATTACH True \<notin> set xs \<and> k_ctl K g t ATTACH = Inr () \<and> pt_attach K t g = Some (Inl e, g'))"

text \<open>
  A thread is clear if it is not attached, or the kernel refused to take it back; where all
  is said to have gone well, it must then be disowned, or one that could not be stopped.
\<close>

definition clear :: "kern \<Rightarrow> bool \<Rightarrow> int \<Rightarrow> history \<Rightarrow> bool" where
  "clear K ok t h \<longleftrightarrow> (attached t h \<longrightarrow> (\<exists>e. refused K e t h) \<and> (ok \<longrightarrow> disowned K t h \<or> unstoppable K t h))"

text \<open>\<^verbatim>\<open>waitpid\<close> of one process fails with \<^verbatim>\<open>ECHILD\<close>, \<^verbatim>\<open>EINTR\<close> or \<^verbatim>\<open>EINVAL\<close>.\<close>

definition wait_errors :: "kern \<Rightarrow> bool" where
  "wait_errors K \<longleftrightarrow> (\<forall>h p. k_waitpid K h p \<noteq> Inl ESRCH)"

section \<open>Longer histories\<close>

lemma attached_Waited: "attached t (Waited p x # h) \<Longrightarrow> attached t h"
  by (cases x) auto

lemma attached_Cons: "attached t (e # h) \<Longrightarrow> e \<noteq> Ctl t ATTACH True \<Longrightarrow> attached t h"
proof (cases e)
  case (Ctl p req ok)
  then show "attached t (e # h) \<Longrightarrow> e \<noteq> Ctl t ATTACH True \<Longrightarrow> attached t h" by (cases req; cases ok) auto
next
  case (Waited p s)
  then show "attached t (e # h) \<Longrightarrow> e \<noteq> Ctl t ATTACH True \<Longrightarrow> attached t h" using attached_Waited by simp
qed simp_all

lemma attached_append: "attached t (xs @ h) \<Longrightarrow> Ctl t ATTACH True \<notin> set xs \<Longrightarrow> attached t h"
  by (induction xs) (auto dest: attached_Cons)

lemma refused_append: "refused K e t h \<Longrightarrow> Ctl t ATTACH True \<notin> set xs \<Longrightarrow> refused K e t (xs @ h)"
  unfolding refused_def by (metis append.assoc Un_iff set_append)

lemma disowned_append: "disowned K t h \<Longrightarrow> Ctl t ATTACH True \<notin> set xs \<Longrightarrow> disowned K t (xs @ h)"
  unfolding disowned_def by (metis append.assoc Un_iff set_append)

lemma unstoppable_append: "unstoppable K t h \<Longrightarrow> Ctl t ATTACH True \<notin> set xs \<Longrightarrow> unstoppable K t (xs @ h)"
proof -
  assume "unstoppable K t h" and xs: "Ctl t ATTACH True \<notin> set xs"
  then obtain ys g g' e where "h = ys @ g'" "Ctl t ATTACH True \<notin> set ys" "k_ctl K g t ATTACH = Inr ()" "pt_attach K t g = Some (Inl e, g')"
    unfolding unstoppable_def by blast
  then show "unstoppable K t (xs @ h)" unfolding unstoppable_def
    by (intro exI [of _ "xs @ ys"] exI [of _ g] exI [of _ g'] exI [of _ e]) (use xs in simp)
qed

lemma clear_append: "clear K ok t h \<Longrightarrow> Ctl t ATTACH True \<notin> set xs \<Longrightarrow> clear K ok t (xs @ h)"
  unfolding clear_def by (blast dest: attached_append intro: refused_append disowned_append unstoppable_append)

lemma clear_weaken: "clear K ok t h \<Longrightarrow> (ok' \<Longrightarrow> ok) \<Longrightarrow> clear K ok' t h"
  by (auto simp: clear_def)

lemma clear_free: "\<not> attached t h \<Longrightarrow> clear K ok t h"
  by (simp add: clear_def)

lemma stopped_append: "stopped_at K t h \<Longrightarrow> \<forall>e \<in> set xs. \<not> wakes t e \<Longrightarrow> stopped_at K t (xs @ h)"
  unfolding stopped_at_def by (metis append.assoc Un_iff set_append)

lemma stopped_Cons: "stopped_at K t h \<Longrightarrow> \<not> wakes t e \<Longrightarrow> stopped_at K t (e # h)"
  using stopped_append [of K t h "[e]"] by simp

lemma stopped_now: "seen_stopped K t h \<Longrightarrow> stopped_at K t h"
  unfolding stopped_at_def by (rule exI [of _ "[]"]) simp

section \<open>Calls about one thread\<close>

fun about :: "int \<Rightarrow> call \<Rightarrow> bool" where
  "about p (Ctl q req ok) = (q = p)"
| "about p (Waited q s) = (q = p)"
| "about p (Killed q sig ok) = (q = p)"
| "about p (Wrote q a bs n) = (q = p)"
| "about p e = True"

lemma about_other: "about p e \<Longrightarrow> t \<noteq> p \<Longrightarrow> \<not> wakes t e \<and> e \<noteq> Ctl t ATTACH ok"
  by (cases "(t, e)" rule: wakes.cases) auto

definition works_on :: "int \<Rightarrow> history \<Rightarrow> history \<Rightarrow> bool" where
  "works_on p h h' \<longleftrightarrow> (\<exists>xs. h' = xs @ h \<and> (\<forall>e \<in> set xs. about p e))"

lemma works_refl [simp]: "works_on p h h"
  by (simp add: works_on_def)

lemma works_trans: "works_on p g h \<Longrightarrow> works_on p h h' \<Longrightarrow> works_on p g h'"
  by (auto simp: works_on_def)

lemma works_Cons [simp]: "about p e \<Longrightarrow> works_on p h h' \<Longrightarrow> works_on p h (e # h')"
  unfolding works_on_def by (metis append_Cons set_ConsD)

lemma works_suffix: "works_on p h h' \<Longrightarrow> suffix h h'"
  by (auto simp: works_on_def suffix_def)

lemma works_clear: "works_on p h h' \<Longrightarrow> t \<noteq> p \<Longrightarrow> clear K ok t h \<Longrightarrow> clear K ok t h'"
  by (auto simp: works_on_def intro!: clear_append dest: about_other)

lemma works_stopped: "works_on p h h' \<Longrightarrow> t \<noteq> p \<Longrightarrow> stopped_at K t h \<Longrightarrow> stopped_at K t h'"
  by (auto simp: works_on_def intro!: stopped_append dest: about_other)

lemma wait_loop_works:
  "wait_loop K p t0 h = Some r \<Longrightarrow> works_on p h (snd r) \<and> (\<forall>s. fst r = Inr s \<longrightarrow> WIFSTOPPED s \<and> hd (snd r) = Waited p (Some s) \<and> snd r \<noteq> []) \<and>
     (attached t (snd r) \<longrightarrow> attached t h) \<and> (wait_errors K \<longrightarrow> (\<forall>x. fst r = Inl (ESRCH, x) \<longrightarrow> \<not> attached p (snd r)))"
proof (induction rule: wait_loop.raw_induct [rotated, consumes 1, case_names Step])
  case (Step wl K p t0 h r)
  let ?w = "Waited p None # h"
  have w: "works_on p h ?w" "works_on p h (Slept # ?w)" by simp_all
  note IH = Step(1)
  show ?case
  proof (cases "10000 < k_clock K h - t0")
    case True
    then show ?thesis using Step(2) by auto
  next
    case False
    show ?thesis
    proof (cases "k_waitpid K h p")
      case (Inl e)
      show ?thesis
      proof (cases "e = EINTR")
        case True
        then have "wl K p t0 ?w = Some r" using Step(2) False Inl by (simp add: sys_waitpid_def Let_def)
        from IH [OF this] show ?thesis using works_trans [OF w(1)] by simp
      next
        case ne: False
        then have "r = (Inl (e, None), ?w)" using Step(2) False Inl by (simp add: sys_waitpid_def Let_def)
        then show ?thesis using Inl by (auto simp: wait_errors_def)
      qed
    next
      case (Inr s)
      show ?thesis
      proof (cases s)
        case None
        then have "wl K p t0 (Slept # ?w) = Some r" using Step(2) False Inr by (simp add: sys_waitpid_def Let_def)
        from IH [OF this] show ?thesis using works_trans [OF w(2)] by simp
      next
        case (Some st)
        then show ?thesis using Step(2) False Inr by (auto simp: sys_waitpid_def Let_def split: if_splits)
      qed
    qed
  qed
qed

lemma pt_wait_works:
  assumes "pt_wait K p h = Some (r, h')"
  shows "works_on p h h'" "r = Inr s \<Longrightarrow> seen_stopped K p h'" "attached t h' \<Longrightarrow> attached t h"
    "wait_errors K \<Longrightarrow> r = Inl (ESRCH, x) \<Longrightarrow> \<not> attached p h'"
proof -
  note W = wait_loop_works [of K p _ h "(r, h')" t, OF assms [unfolded pt_wait_def], simplified]
  show "works_on p h h'" "attached t h' \<Longrightarrow> attached t h" "wait_errors K \<Longrightarrow> r = Inl (ESRCH, x) \<Longrightarrow> \<not> attached p h'"
    using W by blast+
  assume "r = Inr s"
  then have "WIFSTOPPED s" "hd h' = Waited p (Some s)" "h' \<noteq> []" using W by blast+
  then show "seen_stopped K p h'" by (cases h') (simp_all add: seen_stopped_def)
qed

section \<open>Giving a thread back\<close>

lemma detach_failed_events: "detach_failed K p e h = (r, h') \<Longrightarrow> h' \<in> {h, Asked # h} \<and> \<not> succeeds r"
  by (auto simp: detach_failed_def trace_ownership_def split: sum.splits if_splits prod.splits option.splits bool.splits)

lemma detach_failed_ESRCH:
  "detach_failed K p e h = (Inl ESRCH, h') \<Longrightarrow> e = ESRCH \<and> h' = Asked # h \<and> fst (trace_ownership K p h) = Some False"
  by (auto simp: detach_failed_def trace_ownership_def split: if_splits prod.splits option.splits bool.splits)

lemma refused_now: "k_ctl K g t (DETACH s) = Inl e \<Longrightarrow> refused K e t (Ctl t (DETACH s) False # g)"
  unfolding refused_def by (intro exI [of _ "[]"] exI [of _ g] exI [of _ s]) simp

text \<open>A detach has either succeeded, or the kernel has refused it; \<^verbatim>\<open>ESRCH\<close> is only said of a thread that is not ours.\<close>

lemma pt_detach_cases:
  assumes "pt_detach K p sig h = (r, h')"
  obtains (detached) g where "h' = Ctl p (DETACH sig) True # g" "works_on p h g" "r = Inr ()"
  | (failed) g e where "h' \<in> {Ctl p (DETACH sig) False # g, Asked # Ctl p (DETACH sig) False # g}" "works_on p h g"
      "k_ctl K g p (DETACH sig) = Inl e" "\<not> succeeds r"
      "r = Inl ESRCH \<Longrightarrow> e = ESRCH \<and> h' = Asked # Ctl p (DETACH sig) False # g \<and> fst (trace_ownership K p (Ctl p (DETACH sig) False # g)) = Some False"
proof -
  have end_: thesis if "k_ctl K g p (DETACH sig) = Inl e" "detach_failed K p e (Ctl p (DETACH sig) False # g) = (r, h')" "works_on p h g" for e g
    using failed [OF _ that(3,1)] detach_failed_events [OF that(2)] detach_failed_ESRCH [of K p e "Ctl p (DETACH sig) False # g" h'] that(2) by blast
  show thesis
  proof (cases "k_ctl K h p (DETACH sig)")
    case (Inr u)
    then show thesis using assms detached [of h] by (simp add: pt_detach_def sys_ctl_def)
  next
    case (Inl e)
    let ?h = "Ctl p (DETACH sig) False # h"
    show thesis
    proof (cases "e = EINTR \<or> e = EIO")
      case False
      then show thesis using assms Inl end_ [OF Inl] by (auto simp: pt_detach_def sys_ctl_def Let_def)
    next
      case True
      show thesis
      proof (cases "k_ctl K ?h p (DETACH sig)")
        case (Inr u)
        then show thesis using assms Inl True detached [of ?h] by (auto simp: pt_detach_def sys_ctl_def Let_def)
      next
        case e2: (Inl e2)
        then show thesis using assms Inl True end_ [OF e2] by (auto simp: pt_detach_def sys_ctl_def Let_def)
      qed
    qed
  qed
qed

lemma pt_detach_works: "pt_detach K p sig h = (r, h') \<Longrightarrow> works_on p h h'"
  by (erule pt_detach_cases) auto

lemma pt_detach_refused: "pt_detach K p sig h = (r, h') \<Longrightarrow> attached p h' \<Longrightarrow> \<exists>e. refused K e p h'"
proof (erule pt_detach_cases)
  fix g e
  assume h: "h' \<in> {Ctl p (DETACH sig) False # g, Asked # Ctl p (DETACH sig) False # g}" and k: "k_ctl K g p (DETACH sig) = Inl e"
  have "refused K e p (Ctl p (DETACH sig) False # g)" using k by (rule refused_now)
  moreover from this have "refused K e p (Asked # Ctl p (DETACH sig) False # g)" using refused_append [of K e p _ "[Asked]"] by simp
  ultimately show "\<exists>e. refused K e p h'" using h by blast
qed simp

lemma pt_detach_clear: "pt_detach K p sig h = (r, h') \<Longrightarrow> clear K (succeeds r \<or> r = Inl ESRCH) p h'"
proof -
  assume d: "pt_detach K p sig h = (r, h')"
  then show "clear K (succeeds r \<or> r = Inl ESRCH) p h'"
  proof (cases rule: pt_detach_cases)
    case (failed g e)
    have "disowned K p h'" if "r = Inl ESRCH"
      unfolding disowned_def by (intro exI [of _ "[]"] exI [of _ g] exI [of _ sig]) (use failed(3) failed(5) [OF that] in simp)
    then show ?thesis using pt_detach_refused [OF d] failed(4) by (auto simp: clear_def)
  qed (simp add: clear_def)
qed

lemma pt_detach_events:
  "pt_detach K p sig h = (r, h') \<Longrightarrow>
   (\<exists>evs ok. h' = evs @ Ctl p (DETACH sig) ok # h \<and> set evs \<subseteq> {Asked, Ctl p (DETACH sig) True, Ctl p (DETACH sig) False}) \<and>
   (succeeds r \<longrightarrow> hd h' = Ctl p (DETACH sig) True)"
proof -
  assume d: "pt_detach K p sig h = (r, h')"
  let ?D = "\<lambda>ok. Ctl p (DETACH sig) ok"
  obtain evs ok where "h' = evs @ ?D ok # h" "set evs \<subseteq> {Asked, ?D True, ?D False}" "succeeds r \<longrightarrow> hd h' = ?D True"
  proof (cases "k_ctl K h p (DETACH sig)")
    case (Inr u)
    then show thesis using that [of "[]" True] d by (auto simp: pt_detach_def sys_ctl_def)
  next
    case (Inl e)
    show thesis
    proof (cases "e = EINTR \<or> e = EIO")
      case False
      then have f: "detach_failed K p e (?D False # h) = (r, h')" using d Inl by (auto simp: pt_detach_def sys_ctl_def Let_def)
      from detach_failed_events [OF f] show thesis using that [of "[]" False] that [of "[Asked]" False] by auto
    next
      case True
      show thesis
      proof (cases "k_ctl K (?D False # h) p (DETACH sig)")
        case (Inr u)
        then show thesis using that [of "[?D True]" False] d Inl True by (auto simp: pt_detach_def sys_ctl_def Let_def)
      next
        case e2: (Inl e2)
        then have f: "detach_failed K p e2 (?D False # ?D False # h) = (r, h')"
          using d Inl True by (auto simp: pt_detach_def sys_ctl_def Let_def)
        from detach_failed_events [OF f] show thesis using that [of "[?D False]" False] that [of "[Asked, ?D False]" False] by auto
      qed
    qed
  qed
  then show ?thesis by blast
qed

lemma pt_detach_keeps_clear: "pt_detach K p sig h = (r, h') \<Longrightarrow> clear K ok t h \<Longrightarrow> clear K ok t h'"
proof -
  assume "pt_detach K p sig h = (r, h')"
  then obtain evs ok' where e: "h' = evs @ Ctl p (DETACH sig) ok' # h"
    "set evs \<subseteq> {Asked, Ctl p (DETACH sig) True, Ctl p (DETACH sig) False}" using pt_detach_events by blast
  then have "h' = (evs @ [Ctl p (DETACH sig) ok']) @ h" "Ctl t ATTACH True \<notin> set (evs @ [Ctl p (DETACH sig) ok'])" by auto
  then show "clear K ok t h \<Longrightarrow> clear K ok t h'" by (metis clear_append)
qed

section \<open>Attaching a thread\<close>

lemma attach_signal_asks: "attach_signal K p s h = (x, h') \<Longrightarrow> h' \<in> {h, Asked # h}"
  by (auto simp: attach_signal_def sys_ask_defs split: if_splits sum.splits)

lemma attach_stopped_works:
  assumes "attach_stopped K p w s h = (r, h')"
  shows "works_on p h h'" "r = Inl e \<Longrightarrow> attached p h' \<Longrightarrow> \<exists>e. refused K e p h'" "r = Inr relay \<Longrightarrow> h' \<in> {h, Asked # h} \<and> w = None"
proof -
  obtain x h1 where x: "attach_signal K p s h = (x, h1)" by fastforce
  have h1: "h1 \<in> {h, Asked # h}" using attach_signal_asks [OF x] .
  then have w: "works_on p h h1" by auto
  have "(works_on p h h') \<and> (\<forall>e. r = Inl e \<longrightarrow> attached p h' \<longrightarrow> (\<exists>e. refused K e p h')) \<and> (\<forall>relay. r = Inr relay \<longrightarrow> h' = h1 \<and> w = None)"
  proof (cases "\<exists>e sig. r = Inl e \<and> h' = snd (pt_detach K p sig h1)")
    case True
    then obtain e sig d where "r = Inl e" "pt_detach K p sig h1 = (d, h')" by (metis prod.collapse)
    then show ?thesis using pt_detach_works works_trans [OF w] pt_detach_refused by blast
  next
    case False
    then show ?thesis using assms w by (auto simp: attach_stopped_def x split: sum.splits option.splits)
  qed
  then show "works_on p h h'" "r = Inl e \<Longrightarrow> attached p h' \<Longrightarrow> \<exists>e. refused K e p h'" "r = Inr relay \<Longrightarrow> h' \<in> {h, Asked # h} \<and> w = None"
    using h1 by blast+
qed

lemma attach_cleanup_works:
  "works_on p h (attach_cleanup K p w e h)"
  "w \<noteq> ESRCH \<Longrightarrow> e \<noteq> ESRCH \<Longrightarrow> attached p (attach_cleanup K p w e h) \<Longrightarrow> \<exists>x. refused K x p (attach_cleanup K p w e h)"
proof -
  show "works_on p h (attach_cleanup K p w e h)" by (simp add: attach_cleanup_def sys_ctl_def sys_kill_def Let_def)
  assume "w \<noteq> ESRCH" "e \<noteq> ESRCH"
  then obtain g where g: "attach_cleanup K p w e h = snd (sys_ctl K p (DETACH 0) g)" by (simp add: attach_cleanup_def Let_def)
  assume a: "attached p (attach_cleanup K p w e h)"
  show "\<exists>x. refused K x p (attach_cleanup K p w e h)" using a refused_now [of K g p 0] by (cases "k_ctl K g p (DETACH 0)") (auto simp: g sys_ctl_def Let_def)
qed

text \<open>The three ways a \<^verbatim>\<open>pt_attach\<close> can go.\<close>

lemma pt_attach_cases:
  assumes W: "wait_errors K" and a: "pt_attach K p h = Some (r, h')"
  obtains (denied) e where "r = Inl e" "h' = Ctl p ATTACH False # h" "k_ctl K h p ATTACH = Inl e"
  | (given_up) e where "r = Inl e" "k_ctl K h p ATTACH = Inr ()" "works_on p h h'" "attached p h' \<Longrightarrow> \<exists>e. refused K e p h'"
  | (stopped) relay where "r = Inr relay" "works_on p h h'" "stopped_at K p h'"
proof (cases "k_ctl K h p ATTACH")
  case (Inl e)
  then show thesis using a denied by (auto simp: pt_attach_def sys_ctl_def)
next
  case (Inr u)
  let ?h1 = "Ctl p ATTACH True # h"
  obtain w h2 where w: "pt_wait K p ?h1 = Some (w, h2)"
    using a Inr by (auto simp: pt_attach_def sys_ctl_def split: option.splits)
  note W2 = pt_wait_works [OF w]
  have h2: "works_on p h h2" using W2(1) works_trans [of p h ?h1 h2] by simp
  have clean: thesis if "r = Inl e0" "h' = attach_cleanup K p e e' g" "works_on p h g" "e = ESRCH \<or> e' = ESRCH \<Longrightarrow> \<not> attached p g" for e0 e e' g
  proof (rule given_up [OF that(1)])
    show "works_on p h h'" using works_trans [OF that(3) attach_cleanup_works(1)] that(2) by simp
    show "\<exists>e. refused K e p h'" if "attached p h'"
      using attach_cleanup_works(2) [of e e' p K g] \<open>e = ESRCH \<or> e' = ESRCH \<Longrightarrow> \<not> attached p g\<close> \<open>attached p h'\<close> \<open>h' = attach_cleanup K p e e' g\<close>
      by (cases "e = ESRCH \<or> e' = ESRCH") (auto simp: attach_cleanup_def)
  qed (use Inr in simp)
  show thesis
  proof (cases w)
    case s: (Inr s)
    then have as: "attach_stopped K p None s h2 = (r, h')" using a Inr w by (simp add: pt_attach_def sys_ctl_def)
    note A = attach_stopped_works [OF as]
    have seen: "stopped_at K p h2" using W2(2) [OF s] by (rule stopped_now)
    show thesis
    proof (cases r)
      case (Inl e)
      then show thesis using given_up [OF Inl _ works_trans [OF h2 A(1)]] A(2) Inr by auto
    next
      case r: (Inr relay)
      then have "stopped_at K p h'" using A(3) seen stopped_Cons [OF seen] by auto
      then show thesis using stopped [OF r works_trans [OF h2 A(1)]] by simp
    qed
  next
    case wl: (Inl ex)
    obtain e x where ex: "w = Inl (e, x)" using wl by (cases ex) auto
    show thesis
    proof (cases "e = ESRCH \<or> e = ETIMEDOUT")
      case True
      have "r = Inl (if e = ETIMEDOUT then EAGAIN else e) \<and> h' = attach_cleanup K p e e h2"
        using a Inr w True by (auto simp: pt_attach_def sys_ctl_def ex Let_def)
      then show thesis using clean [OF _ _ h2] W2(4) [OF W, of x] ex by blast
    next
      case False
      then obtain w2 h3 where w2: "pt_wait K p h2 = Some (w2, h3)"
        using a Inr w by (auto simp: pt_attach_def sys_ctl_def ex Let_def split: option.splits)
      note W3 = pt_wait_works [OF w2]
      have h3: "works_on p h h3" using works_trans [OF h2 W3(1)] .
      show thesis
      proof (cases w2)
        case s: (Inr s)
        then have as: "attach_stopped K p (Some e) s h3 = (r, h')" using a Inr w w2 False by (auto simp: pt_attach_def sys_ctl_def ex Let_def)
        note A = attach_stopped_works [OF as]
        obtain e0 where "r = Inl e0" using A(3) by (cases r) auto
        then show thesis using given_up [OF _ _ works_trans [OF h3 A(1)]] A(2) Inr by auto
      next
        case el: (Inl e2)
        obtain e' x' where e': "w2 = Inl (e', x')" using el by (cases e2) auto
        have "r = Inl e \<and> h' = attach_cleanup K p e e' h3" using a Inr w w2 False by (auto simp: pt_attach_def sys_ctl_def ex e' Let_def)
        then show thesis using clean [OF _ _ h3] W3(4) [OF W, of x'] e' False by blast
      qed
    qed
  qed
qed

lemma pt_attach_works: "wait_errors K \<Longrightarrow> pt_attach K p h = Some (r, h') \<Longrightarrow> works_on p h h'"
  by (erule (1) pt_attach_cases) auto

lemma pt_attach_stops: "wait_errors K \<Longrightarrow> pt_attach K p h = Some (Inr relay, h') \<Longrightarrow> stopped_at K p h'"
  by (erule (1) pt_attach_cases) auto

text \<open>Only the thread it has stopped is not clear after it.\<close>

lemma pt_attach_clear:
  assumes W: "wait_errors K" and a: "pt_attach K p h = Some (r, h')" and c: "clear K ok t h"
  shows "clear K ok t h' \<or> t = p \<and> succeeds r"
  using W a
proof (cases rule: pt_attach_cases)
  case (denied e)
  then show ?thesis using clear_append [OF c, of "[Ctl p ATTACH False]"] by simp
next
  case (given_up e)
  show ?thesis
  proof (cases "t = p")
    case True
    have "unstoppable K p h'" unfolding unstoppable_def
      by (intro exI [of _ "[]"] exI [of _ h] exI [of _ h'] exI [of _ e]) (use given_up a in simp)
    then show ?thesis using given_up(4) True by (auto simp: clear_def)
  next
    case False
    then show ?thesis using works_clear [OF given_up(3)] c by simp
  qed
next
  case (stopped relay)
  then show ?thesis using works_clear [OF stopped(2)] c by (cases "t = p") auto
qed

end
