(* ===== verification/GenerateProps.thy ===== *)
theory GenerateProps
  imports Attached
begin

text \<open>
  What a mode-1 dump guarantees about the target and about its threads: whatever fails,
  every thread it attached is given back or the kernel has refused to take it; and a collection
  that succeeds has every thread of the last listing of the run.
\<close>

section \<open>Collecting\<close>

lemma set_relay_simps [simp]: "m_thrd (set_relay t s m) = m_thrd m" "m_tids (set_relay t s m) = m_tids m"
    "m_pid (set_relay t s m) = m_pid m"
  by (simp_all add: set_relay_def)

lemma set_tid_insert [simp]: "set (tid_insert t ts) = insert t (set ts)"
  by (simp add: tid_insert_def set_insort_insert)

text \<open>An attach in this run, after \<open>h0\<close>, has found that the thread cannot be stopped.\<close>

definition unattachable :: "kern \<Rightarrow> int \<Rightarrow> history \<Rightarrow> history \<Rightarrow> bool" where
  "unattachable K t h0 h \<longleftrightarrow> (\<exists>g g'. pt_attach K t g = Some (Inl EAGAIN, g') \<and> suffix h0 g \<and> suffix g' h)"

lemma unattachable_later: "unattachable K t h0 h \<Longrightarrow> suffix h h' \<Longrightarrow> unattachable K t h0 h'"
  unfolding unattachable_def by (meson suffix_order.trans)

text \<open>The threads found so far: those of the record, without repetition, are stopped at this point of the run.\<close>

definition collecting :: "kern \<Rightarrow> int \<Rightarrow> int \<Rightarrow> history \<Rightarrow> int list \<times> int list \<times> mon \<Rightarrow> history \<Rightarrow> bool" where
  "collecting K leader control h0 s h \<longleftrightarrow>
     (case s of (stopped, unavailable, m) \<Rightarrow>
        set stopped = set (m_thrd m) \<and> distinct (m_thrd m) \<and> control \<in> set (m_thrd m) \<and> m_tids m = [] \<and> suffix h0 h \<and>
        (\<forall>t \<in> set (m_thrd m). stopped_at K t h) \<and>
        (\<forall>t \<in> set unavailable. t = leader \<and> control \<noteq> leader \<or> unattachable K t h0 h))"

lemma collecting_asks: "collecting K leader control h0 s h \<Longrightarrow> collecting K leader control h0 s (Asked # h)"
  by (cases s) (auto simp: collecting_def intro: stopped_Cons unattachable_later suffix_ConsI)

lemma collecting_works:
  assumes "collecting K leader control h0 (stopped, un, m) h" "works_on p h h'" "p \<notin> set stopped"
  shows "collecting K leader control h0 (stopped, un, m) h'"
proof -
  have "stopped_at K t h'" if "t \<in> set (m_thrd m)" for t
    using works_stopped [OF assms(2), of t] that assms(1,3) by (auto simp: collecting_def)
  then show ?thesis using assms(1) works_suffix [OF assms(2)]
    by (auto simp: collecting_def intro: unattachable_later suffix_order.trans)
qed

lemma attach_new_step:
  assumes W: "wait_errors K"
  shows "attach_new K tids s h = Some (ok, s', h') \<Longrightarrow> collecting K leader control h0 s h \<Longrightarrow>
    collecting K leader control h0 s' h' \<and> set (m_thrd (snd (snd s))) \<subseteq> set (m_thrd (snd (snd s'))) \<and>
    (clear K x t h \<longrightarrow> clear K x t h' \<or> t \<in> set (m_thrd (snd (snd s'))))"
proof (induction tids arbitrary: s h)
  case Nil
  then show ?case by (cases s) auto
next
  case (Cons tid tids)
  obtain stopped un m where s: "s = (stopped, un, m)" by (cases s)
  note C = Cons.prems(2)
  show ?case
  proof (cases "tid \<in> set stopped \<or> tid \<in> set un")
    case True
    then show ?thesis using Cons.IH [of s h] Cons.prems by (simp add: s)
  next
    case False
    then obtain r h1 where r: "pt_attach K tid h = Some (r, h1)"
      using Cons.prems(1) by (auto simp: s split: option.splits)
    note A = pt_attach_clear [OF W r, of x t]
    have C1: "collecting K leader control h0 s h1" using collecting_works [OF C [unfolded s] pt_attach_works [OF W r]] False s by simp
    show ?thesis
    proof (cases r)
      case (Inl e)
      then have A: "clear K x t h \<longrightarrow> clear K x t h1" using A by auto
      consider "e = ESRCH" | "e = EAGAIN" | "e \<noteq> ESRCH" "e \<noteq> EAGAIN" by blast
      then show ?thesis
      proof cases
        case 1
        then show ?thesis using Cons.IH [of s h1] Cons.prems False r Inl A C1 by (auto simp: s)
      next
        case 2
        have "unattachable K tid h0 h1" unfolding unattachable_def using r Inl 2 C by (auto simp: s collecting_def)
        then have "collecting K leader control h0 (stopped, tid_insert tid un, m) h1" using C1 by (auto simp: s collecting_def)
        then show ?thesis using Cons.IH [of "(stopped, tid_insert tid un, m)" h1] Cons.prems False r Inl A 2 by (auto simp: s)
      next
        case 3
        then show ?thesis using Cons.prems False r Inl A C1 by (auto simp: s)
      qed
    next
      case (Inr relay)
      let ?m1 = "m\<lparr>m_thrd := m_thrd m @ [tid]\<rparr>"
      let ?s = "(tid_insert tid stopped, un, if relay \<noteq> 0 then set_relay tid relay ?m1 else ?m1)"
      have "collecting K leader control h0 ?s h1"
        using C1 False pt_attach_stops [OF W r [unfolded Inr]] by (auto simp: s collecting_def)
      moreover have "attach_new K tids ?s h1 = Some (ok, s', h')" using Cons.prems(1) False r Inr by (simp add: s Let_def)
      ultimately show ?thesis using Cons.IH [of ?s h1] A by (auto simp: s split: if_splits)
    qed
  qed
qed

lemma list_task_tids_asks: "list_task_tids K leader h = (r, h') \<Longrightarrow> h' = Asked # h"
  by (simp add: list_task_tids_def)

lemma task_is_zombie_asks: "task_is_zombie K leader h = (r, h') \<Longrightarrow> h' = Asked # h"
  by (simp add: task_is_zombie_def)

text \<open>
  The confirming listing, the last thing the collection does but for a look at the leader: it
  is taken in the run (after \<open>h0\<close>), at a point where every captured thread is stopped, and
  every thread in it is captured, or an attach in the run has found that it cannot be stopped,
  or it is the leader, which has exited. \<open>hx\<close> is the history at which the writing starts.
\<close>

definition thread_set_complete :: "kern \<Rightarrow> int \<Rightarrow> int \<Rightarrow> mon \<Rightarrow> history \<Rightarrow> history \<Rightarrow> bool" where
  "thread_set_complete K leader control m h0 hx \<longleftrightarrow>
     (\<exists>listed g. list_task_tids K leader g = (Inr listed, Asked # g) \<and> suffix h0 g \<and>
        (if control = leader then hx = Asked # g else task_is_zombie K leader (Asked # g) = (Inr True, hx)) \<and>
        (\<forall>t \<in> set (m_thrd m). stopped_at K t g) \<and>
        (\<forall>t \<in> set listed. t \<in> set (m_thrd m) \<or> unattachable K t h0 g \<or> t = leader \<and> control \<noteq> leader))"

lemma attach_rounds_collects:
  assumes W: "wait_errors K"
  shows "attach_rounds n K leader control s h = Some (r, m', h') \<Longrightarrow> collecting K leader control h0 s h \<Longrightarrow>
    distinct (m_thrd m') \<and> set (m_thrd (snd (snd s))) \<subseteq> set (m_thrd m') \<and> m_tids m' = [] \<and>
    (clear K x t h \<longrightarrow> clear K x t h' \<or> t \<in> set (m_thrd m')) \<and>
    (r = Collected \<longrightarrow> thread_set_complete K leader control m' h0 h')"
proof (induction n arbitrary: s h)
  case 0
  then show ?case by (cases s) (auto simp: collecting_def)
next
  case (Suc n)
  have ask: "clear K x t g \<Longrightarrow> clear K x t (Asked # g)" for g using clear_append [of K x t g "[Asked]"] by simp
  obtain stopped un m where s: "s = (stopped, un, m)" by (cases s)
  have C: "distinct (m_thrd m)" "control \<in> set (m_thrd m)" "m_tids m = []" using Suc.prems(2) by (auto simp: s collecting_def)
  obtain l1 where l1: "list_task_tids K leader h = (l1, Asked # h)" by (metis list_task_tids_asks prod.exhaust)
  show ?case
  proof (cases "\<exists>obs. l1 = Inr obs \<and> control \<in> set obs")
    case False
    then have "r = CollectFailed \<and> m' = m \<and> h' = Asked # h" using Suc.prems(1) l1 by (auto simp: s split: sum.splits if_splits)
    then show ?thesis using C ask [of h] by (auto simp: s)
  next
    case True
    then obtain obs where obs: "l1 = Inr obs" "control \<in> set obs" by blast
    then obtain ok s1 h2 where a: "attach_new K obs s (Asked # h) = Some (ok, s1, h2)"
      using Suc.prems(1) l1 by (auto simp: s split: option.splits)
    obtain stopped1 un1 m1 where s1: "s1 = (stopped1, un1, m1)" by (cases s1)
    note N = attach_new_step [OF W a collecting_asks [OF Suc.prems(2)], of x t]
    have C1: "collecting K leader control h0 (stopped1, un1, m1) h2" "clear K x t h \<longrightarrow> clear K x t h2 \<or> t \<in> set (m_thrd m1)"
      using N ask [of h] by (auto simp: s1)
    then have D: "distinct (m_thrd m1)" "control \<in> set (m_thrd m1)" "m_tids m1 = []" "set stopped1 = set (m_thrd m1)"
      by (auto simp: collecting_def)
    obtain l2 where l2: "list_task_tids K leader h2 = (l2, Asked # h2)" by (metis list_task_tids_asks prod.exhaust)
    show ?thesis
    proof (cases "ok \<and> (\<exists>con. l2 = Inr con \<and> control \<in> set con)")
      case False
      then have "r = CollectFailed \<and> m' = m1 \<and> h' \<in> {h2, Asked # h2}"
        using Suc.prems(1) l1 obs a l2 by (auto simp: s s1 split: sum.splits if_splits bool.splits)
      then show ?thesis using C1(2) D N ask [of h2] by (auto simp: s s1)
    next
      case True
      then obtain con where con: "l2 = Inr con" "control \<in> set con" and ok by blast
      show ?thesis
      proof (cases "\<forall>tid \<in> set con. tid \<in> set stopped1 \<or> tid \<in> set un1")
        case no: False
        have "attach_rounds n K leader control (stopped1, un1, m1) (Asked # h2) = Some (r, m', h')"
          using Suc.prems(1) l1 obs a l2 con \<open>ok\<close> no by (auto simp: s s1 split: if_splits)
        from Suc.IH [OF this collecting_asks [OF C1(1)]] N show ?thesis using C1(2) ask [of h2] by (auto simp: s s1)
      next
        case all: True
        obtain z where z: "task_is_zombie K leader (Asked # h2) = (z, Asked # Asked # h2)" by (metis task_is_zombie_asks prod.exhaust)
        have r: "m' = m1 \<and> h' = (if control = leader then Asked # h2 else Asked # Asked # h2) \<and> (r = Collected \<longrightarrow> control \<noteq> leader \<longrightarrow> z = Inr True)"
          using Suc.prems(1) l1 obs a l2 con \<open>ok\<close> all z by (auto simp: s s1 Let_def split: if_splits)
        have "thread_set_complete K leader control m1 h0 h'" if "r = Collected"
          unfolding thread_set_complete_def
        proof (intro exI conjI)
          show "list_task_tids K leader h2 = (Inr con, Asked # h2)" using l2 con by simp
          show "suffix h0 h2" "\<forall>t \<in> set (m_thrd m1). stopped_at K t h2" using C1(1) by (simp_all add: collecting_def)
          show "if control = leader then h' = Asked # h2 else task_is_zombie K leader (Asked # h2) = (Inr True, h')"
            using r z that by simp
          show "\<forall>t \<in> set con. t \<in> set (m_thrd m1) \<or> unattachable K t h0 h2 \<or> t = leader \<and> control \<noteq> leader"
            using all C1(1) by (auto simp: collecting_def)
        qed
        then show ?thesis using r C1(2) D N ask [of h2] ask [of "Asked # h2"] by (auto simp: s s1)
      qed
    qed
  qed
qed

lemma collect_threads_attached:
  assumes W: "wait_errors K" and m: "m_tids m = []" and c: "control \<noteq> 0" "stopped_at K control h" "suffix h0 h"
    and r: "collect_threads K leader control m h = Some (r, m', h')"
  shows "distinct (m_thrd m')" "control \<in> set (m_thrd m')" "m_tids m' = []" "clear K x t h \<Longrightarrow> clear K x t h' \<or> t \<in> set (m_thrd m')"
    "r = Collected \<Longrightarrow> thread_set_complete K leader control m' h0 h'"
proof -
  let ?s = "([control], if control \<noteq> leader then [leader] else [], m\<lparr>m_thrd := [control]\<rparr>)"
  have run: "attach_rounds 64 K leader control ?s h = Some (r, m', h')" using r m c by (simp add: collect_threads_def Let_def)
  have "collecting K leader control h0 ?s h" using m c by (simp add: collecting_def)
  note R = attach_rounds_collects [OF W run this]
  show "distinct (m_thrd m')" "control \<in> set (m_thrd m')" "m_tids m' = []" "clear K x t h \<Longrightarrow> clear K x t h' \<or> t \<in> set (m_thrd m')"
    "r = Collected \<Longrightarrow> thread_set_complete K leader control m' h0 h'" using R by auto
qed

section \<open>Releasing\<close>

lemma detach_all_clear:
  "detach_all K m tids h = (ok, h') \<Longrightarrow> (t \<in> set tids \<longrightarrow> clear K ok t h') \<and> (clear K x t h \<longrightarrow> clear K x t h')"
proof (induction tids arbitrary: h ok h' x t)
  case Nil
  then show ?case by simp
next
  case (Cons p tids)
  obtain r h1 where d: "pt_detach K p (relay_of m p) h = (r, h1)" by fastforce
  obtain ok2 where a: "detach_all K m tids h1 = (ok2, h')" using Cons.prems by (auto simp: d Let_def split: prod.splits)
  have ok: "ok \<Longrightarrow> succeeds r \<or> r = Inl ESRCH" "ok \<Longrightarrow> ok2" using Cons.prems by (simp_all add: d a Let_def)
  have "clear K (succeeds r \<or> r = Inl ESRCH) p h'" using Cons.IH [OF a] pt_detach_clear [OF d] by blast
  then have "clear K ok p h'" by (rule clear_weaken) (rule ok)
  moreover have "clear K ok t h'" if "t \<in> set tids" by (rule clear_weaken [OF _ ok(2)]) (use Cons.IH [OF a] that in blast)
  moreover have "clear K x t h \<longrightarrow> clear K x t h'" using Cons.IH [OF a] pt_detach_keeps_clear [OF d] by blast
  ultimately show ?case by auto
qed

lemma detach_collected_clear:
  "detach_collected_threads K m h = (ok, m', h') \<Longrightarrow> (t \<in> set (m_thrd m) \<longrightarrow> clear K ok t h') \<and> (clear K x t h \<longrightarrow> clear K x t h')"
  by (auto simp: detach_collected_threads_def Let_def split: prod.splits dest: detach_all_clear)

lemma ask_clear: "clear K x t g \<Longrightarrow> clear K x t (Asked # g)"
  using clear_append [of K x t g "[Asked]"] by simp

lemma attach_worker_clear:
  assumes W: "wait_errors K"
  shows "attach_worker K pid tids h = Some (r, h') \<Longrightarrow>
    suffix h h' \<and> (\<forall>c relay. r = Inr (c, relay) \<longrightarrow> stopped_at K c h') \<and>
    (clear K x t h \<longrightarrow> clear K x t h' \<or> (\<exists>relay. r = Inr (t, relay)))"
proof (induction tids arbitrary: h)
  case Nil
  then show ?case by auto
next
  case (Cons tid tids)
  show ?case
  proof (cases "tid = pid")
    case True
    then show ?thesis using Cons by simp
  next
    case False
    obtain z where z: "task_is_zombie K tid h = (z, Asked # h)" by (metis task_is_zombie_asks prod.exhaust)
    have sx: "suffix (Asked # h) g \<Longrightarrow> suffix h g" for g by (metis suffix_ConsD)
    show ?thesis
    proof (cases "z = Inr True")
      case True
      then show ?thesis using Cons.IH [of "Asked # h"] Cons.prems False z ask_clear [of K x t h] sx by auto
    next
      case zn: False
      then obtain y h1 where y: "pt_attach K tid (Asked # h) = Some (y, h1)"
        using Cons.prems(1) False z by (auto split: option.splits)
      note A = pt_attach_clear [OF W y, of x t] and S = sx [OF works_suffix [OF pt_attach_works [OF W y]]]
      show ?thesis
      proof (cases y)
        case (Inl e)
        then have c: "clear K x t h \<longrightarrow> clear K x t h1" using A ask_clear by auto
        show ?thesis
        proof (cases "e = ESRCH \<or> e = EAGAIN")
          case True
          then have "attach_worker K pid tids h1 = Some (r, h')" using Cons.prems False z zn y Inl by (auto split: if_splits)
          note I = Cons.IH [OF this]
          then have "suffix h h'" using S suffix_order.trans by blast
          then show ?thesis using c I by blast
        next
          case nf: False
          then have "r = Inl e \<and> h' = h1" using Cons.prems False z zn y Inl by (auto split: if_splits)
          then show ?thesis using c S by simp
        qed
      next
        case (Inr relay)
        then have "r = Inr (tid, relay) \<and> h' = h1" using Cons.prems False z zn y by (auto split: if_splits)
        then show ?thesis using A S ask_clear pt_attach_stops [OF W y [unfolded Inr]] by auto
      qed
    qed
  qed
qed

lemma attach_control_clear:
  assumes W: "wait_errors K" and a: "attach_control K pid h = Some (r, h')"
  shows "suffix h h'" "r = Inr (c, relay) \<Longrightarrow> stopped_at K c h'" "clear K x t h \<Longrightarrow> clear K x t h' \<or> (\<exists>relay. r = Inr (t, relay))"
proof -
  have "suffix h h' \<and> (\<forall>c relay. r = Inr (c, relay) \<longrightarrow> stopped_at K c h') \<and>
    (clear K x t h \<longrightarrow> clear K x t h' \<or> (\<exists>relay. r = Inr (t, relay)))"
  proof -
    obtain z where z: "task_is_zombie K pid h = (z, Asked # h)" by (metis task_is_zombie_asks prod.exhaust)
    obtain l where l: "list_task_tids K pid (Asked # h) = (l, Asked # Asked # h)" by (metis list_task_tids_asks prod.exhaust)
    have c: "clear K x t h \<longrightarrow> clear K x t (Asked # h)" "clear K x t h \<longrightarrow> clear K x t (Asked # Asked # h)" using ask_clear by blast+
    show ?thesis
    proof (cases "z = Inr True")
      case zt: True
      show ?thesis
      proof (cases l)
        case (Inl e)
        then show ?thesis using a z zt l c by (auto simp: attach_control_def intro: suffix_ConsI)
      next
        case (Inr ts)
        then have "attach_worker K pid ts (Asked # Asked # h) = Some (r, h')" using a z zt l by (simp add: attach_control_def)
        note I = attach_worker_clear [OF W this, of x t]
        then have "suffix h h'" by (meson suffix_ConsD)
        then show ?thesis using c I by blast
      qed
    next
      case False
      then obtain y where y: "pt_attach K pid (Asked # h) = Some (y, h')" "r = (case y of Inl e \<Rightarrow> Inl e | Inr s \<Rightarrow> Inr (pid, s))"
        using a z by (auto simp: attach_control_def split: option.splits sum.splits)
      note A = pt_attach_clear [OF W y(1), of x t] and S = suffix_ConsD [OF works_suffix [OF pt_attach_works [OF W y(1)]]]
      show ?thesis using A S c(1) y pt_attach_stops [OF W, of pid "Asked # h" _ h'] by (cases y) auto
    qed
  qed
  then show "suffix h h'" "r = Inr (c, relay) \<Longrightarrow> stopped_at K c h'" "clear K x t h \<Longrightarrow> clear K x t h' \<or> (\<exists>relay. r = Inr (t, relay))"
    by blast+
qed

lemma attach_worker_listed: "attach_worker K pid tids h = Some (Inr (c, relay), h') \<Longrightarrow> c \<in> set tids"
  by (induction tids arbitrary: h) (auto split: if_splits prod.splits option.splits sum.splits)

lemma list_task_tids_pos: "list_task_tids K pid h = (Inr ts, h') \<Longrightarrow> t \<in> set ts \<Longrightarrow> 0 < t"
proof -
  have set: "set (foldr tid_insert xs []) = set xs" for xs by (induction xs) auto
  have pos: "task_tid n = Some v \<Longrightarrow> 0 < v" for n v by (auto simp: task_tid_def Let_def split: if_splits)
  show "list_task_tids K pid h = (Inr ts, h') \<Longrightarrow> t \<in> set ts \<Longrightarrow> 0 < t"
    by (auto simp: list_task_tids_def set List.map_filter_def pos split: sum.splits prod.splits option.splits)
qed

lemma attach_control_pos:
  assumes "attach_control K pid h = Some (Inr (c, relay), h')" "0 < pid"
  shows "0 < c"
proof -
  have "pt_attach K pid g = Some (x, h') \<Longrightarrow> Inr (c, relay) = (case x of Inl e \<Rightarrow> Inl e | Inr r \<Rightarrow> Inr (pid, r)) \<Longrightarrow> c = pid"
    for g and x :: "err + int" by (auto split: sum.splits)
  then show ?thesis
    using assms by (auto simp: attach_control_def dest: attach_worker_listed list_task_tids_pos
        split: prod.splits if_splits sum.splits option.splits)
qed

lemma capture_clear:
  assumes W: "wait_errors K" and m: "m_tids m = []" and pid: "0 < m_pid m"
    and c: "capture K cdc platform co m st h = Some (ok, st', m', h')" and t: "clear K True t h"
  shows "clear K ok t h'"
proof -
  obtain r h1 where a: "attach_control K (m_pid m) h = Some (r, h1)" using c by (auto simp: capture_def split: option.splits)
  note A = attach_control_clear [OF W a]
  show ?thesis
  proof (cases r)
    case (Inl e)
    then have "\<not> ok \<and> h' = h1" using c a by (auto simp: capture_def)
    then show ?thesis using A(3) [OF t] clear_weaken Inl by blast
  next
    case (Inr cr)
    obtain control relay where cr: "cr = (control, relay)" by (cases cr)
    let ?m1 = "if relay \<noteq> 0 then set_relay control relay m else m"
    obtain x m2 h2 where col: "collect_threads K (m_pid m) control ?m1 h1 = Some (x, m2, h2)"
      using c a Inr cr by (auto simp: capture_def Let_def split: option.splits)
    have c0: "control \<noteq> 0" using attach_control_pos [of K "m_pid m" h control relay h1] a Inr cr pid by simp
    have s: "stopped_at K control h1" using A(2) Inr cr by blast
    have mt: "m_tids ?m1 = []" using m by simp
    note C = collect_threads_attached [OF W mt c0 s A(1) col]
    obtain ok2 m3 h3 where d: "detach_collected_threads K m2 h2 = (ok2, m3, h3)" by (metis prod.exhaust)
    have e: "h' = h3 \<and> (ok \<longrightarrow> ok2)"
      using c a Inr cr col by (auto simp: capture_def Let_def d split: option.splits if_splits prod.splits sum.splits)
    note D = detach_collected_clear [OF d, of t]
    show ?thesis
    proof (cases "t \<in> set (m_thrd m2)")
      case True
      then show ?thesis using D clear_weaken [of K ok2 t h' ok] e by blast
    next
      case False
      then have "t \<noteq> control" using C(2) by auto
      then have "clear K True t h1" using A(3) [OF t] Inr cr by auto
      then have "clear K True t h'" using C(4) False D e by blast
      then show ?thesis by (rule clear_weaken) simp
    qed
  qed
qed

lemma generate_clear:
  assumes W: "wait_errors K" and m: "m_tids m = []" and pid: "0 < m_pid m"
    and g: "generate K cdc os fresh info fd platform co m corefile h files = Some (r, m', h', files')"
    and t: "clear K True t h"
  shows "clear K (r = Inr ()) t h'"
proof -
  let ?m = "m\<lparr>m_relay := []\<rparr>"
  have "r \<noteq> Inr () \<and> h' = h \<or> (\<exists>st1 ok st2 m1. capture K cdc platform co ?m st1 h = Some (ok, st2, m1, h') \<and> (r = Inr () \<longrightarrow> ok))"
    using g by (auto simp: generate_def Let_def split: prod.splits sum.splits option.splits bool.splits)
  then show ?thesis
  proof
    assume "\<exists>st1 ok st2 m1. capture K cdc platform co ?m st1 h = Some (ok, st2, m1, h') \<and> (r = Inr () \<longrightarrow> ok)"
    then obtain st1 ok st2 m1 where c: "capture K cdc platform co ?m st1 h = Some (ok, st2, m1, h')" "r = Inr () \<longrightarrow> ok" by blast
    have mm: "m_tids ?m = []" "0 < m_pid ?m" using m pid by simp_all
    show ?thesis using capture_clear [OF W mm c(1) t] c(2) clear_weaken by blast
  qed (use t clear_weaken in blast)
qed

end
