(* ===== verification/WriterSink.thy ===== *)
theory WriterSink
  imports EndToEnd
begin

text \<open>
  No operation of the writer changes what the output file will answer to \<^verbatim>\<open>fflush\<close>,
  \<^verbatim>\<open>fsync\<close> and \<^verbatim>\<open>fclose\<close>: from the stream operations up to a whole acore.
\<close>

section \<open>Stream operations\<close>

text \<open>What \<^verbatim>\<open>fflush\<close>, \<^verbatim>\<open>fsync\<close> and \<^verbatim>\<open>fclose\<close> will say is not changed by writing.\<close>

definition sink :: "('e, 'd) stream \<Rightarrow> (bool \<times> bool \<times> bool) option" where
  "sink st = map_option (\<lambda>f. (fl_flush_ok f, fl_sync_ok f, fl_close_ok f)) (s_file st)"

lemma sink_set_block [simp]: "sink (set_block b st) = sink st"
  by (simp add: sink_def)

lemma fwrite_flags: "fwrite bs f = (n, f') \<Longrightarrow>
    fl_flush_ok f' = fl_flush_ok f \<and> fl_sync_ok f' = fl_sync_ok f \<and> fl_close_ok f' = fl_close_ok f"
  using fwrite_frame by blast

lemma sink_Compress: "Compress cdc hdr st = (r, st') \<Longrightarrow> sink st' = sink st"
  by (auto simp: Compress_def sink_def Let_def split: if_splits option.splits prod.splits dest!: fwrite_flags)

lemma sink_Flush: "Flush cdc st = (r, st') \<Longrightarrow> sink st' = sink st"
  by (auto simp: Flush_def split: if_splits option.splits prod.splits sum.splits dest!: sink_Compress)

lemma sink_block_put: "block_put s st = (r, st') \<Longrightarrow> sink st' = sink st"
  by (auto simp: block_put_def split: sum.splits prod.splits)

lemma sink_write_chunks: "write_chunks cdc s st = (r, st') \<Longrightarrow> sink st' = sink st"
proof (induction cdc s st arbitrary: r st' rule: write_chunks.induct)
  case (1 cdc s st)
  then show ?case
    by (subst (asm) (2) write_chunks.simps)
      (auto simp: Let_def split: if_splits sum.splits prod.splits dest!: sink_Flush)
qed

lemma sink_Write: "Write cdc s st = (r, st') \<Longrightarrow> sink st' = sink st"
  by (auto simp: Write_def split: if_splits option.splits prod.splits sum.splits
      dest!: sink_Flush sink_block_put sink_write_chunks)

lemma sink_WriteRaw: "WriteRaw cdc s st = (r, st') \<Longrightarrow> sink st' = sink st"
  by (auto simp: WriteRaw_def Let_def split: if_splits option.splits prod.splits sum.splits dest!: sink_Flush fwrite_flags)
    (auto simp: sink_def dest: fwrite_flags)


lemma sink_EnableBlockChecksums: "EnableBlockChecksums b st = (r, st') \<Longrightarrow> sink st' = sink st"
  by (auto simp: EnableBlockChecksums_def sink_def split: if_splits)

lemma sink_SetBlock: "SetBlock cdc t st = (r, st') \<Longrightarrow> sink st' = sink st"
  by (auto simp: SetBlock_def split: if_splits sum.splits prod.splits dest!: sink_Flush) (auto simp: sink_def)

lemma sink_block_chunks: "block_chunks cdc hdr s st = (r, st') \<Longrightarrow> sink st' = sink st"
proof (induction cdc hdr s st arbitrary: r st' rule: block_chunks.induct)
  case (1 cdc hdr s st)
  then show ?case
    by (subst (asm) (2) block_chunks.simps) (auto simp: Let_def split: if_splits sum.splits prod.splits dest!: sink_Compress)
qed

lemma sink_WriteBlock: "WriteBlock cdc s t st = (r, st') \<Longrightarrow> sink st' = sink st"
  by (auto simp: WriteBlock_def split: if_splits option.splits sum.splits prod.splits dest!: sink_Flush sink_block_chunks)

lemma sink_PutFile: "PutFile cdc pf st = (r, st') \<Longrightarrow> sink st' = sink st"
  by (auto simp: PutFile_def Let_def split: if_splits option.splits sum.splits prod.splits
      dest!: sink_Flush sink_WriteRaw sink_WriteBlock)

section \<open>An acore\<close>

lemma sink_WriteFileHeader: "WriteFileHeader cdc platform st = (r, st') \<Longrightarrow> sink st' = sink st"
  by (auto simp: WriteFileHeader_def Let_def split: if_splits sum.splits prod.splits dest!: sink_WriteRaw sink_EnableBlockChecksums)

lemma sink_wr [simp]: "sink (snd (wr cdc items s)) = sink (snd s)"
  by (induction cdc items s rule: wr.induct) (auto split: if_splits sum.splits prod.splits dest!: sink_Write)

lemma sink_wr_pair: "wr cdc items s = (ok, st) \<Longrightarrow> sink st = sink (snd s)"
  using sink_wr [of cdc items s] by (simp del: sink_wr)

lemma sink_write_process_block: "write_process_block cdc env c st = (r, st') \<Longrightarrow> sink st' = sink st"
  by (auto simp: write_process_block_def Let_def simp del: wr.simps split: option.splits if_splits sum.splits prod.splits
      dest!: sink_SetBlock sink_Flush sink_wr_pair)

lemma sink_put_checked: "put_checked cdc env pid source ts st = (r, st') \<Longrightarrow> sink st' = sink st"
  by (induction ts arbitrary: st) (auto split: sum.splits prod.splits dest!: sink_PutFile)

lemma sink_WriteProcessMeta: "WriteProcessMeta cdc env source c st = (r, c', st') \<Longrightarrow> sink st' = sink st"
  by (auto simp: WriteProcessMeta_def Let_def simp del: put_checked.simps split: if_splits sum.splits prod.splits
      dest!: sink_write_process_block sink_put_checked sink_PutFile)

lemma sink_WriteThreadMeta: "WriteThreadMeta cdc env te c pid st = (r, st') \<Longrightarrow> sink st' = sink st"
  by (auto simp: WriteThreadMeta_def Let_def simp del: wr.simps split: if_splits sum.splits prod.splits
      dest!: sink_SetBlock sink_Flush sink_PutFile sink_wr_pair)

lemma sink_WriteThreads: "WriteThreads cdc env te c tids st = (r, st') \<Longrightarrow> sink st' = sink st"
  by (induction tids arbitrary: st) (auto split: sum.splits prod.splits dest!: sink_WriteThreadMeta)

lemma sink_write_chunk: "write_chunk cdc bs sz st = (r, st') \<Longrightarrow> sink st' = sink st"
proof (induction cdc bs sz st arbitrary: r st' rule: write_chunk.induct)
  case (1 cdc bs sz st)
  then show ?case
    by (subst (asm) (2) write_chunk.simps) (auto split: if_splits sum.splits prod.splits dest!: sink_WriteBlock)
qed

lemma sink_write_region: "write_region cdc addr end_a sz ms fd st = Some r \<Longrightarrow> sink (snd (snd r)) = sink st"
proof (induction rule: write_region.raw_induct [rotated, consumes 1, case_names Step])
  case (Step wr cdc addr end_a sz ms fd st r)
  show ?case
    using Step(2) by (auto simp: Let_def split: if_splits sum.splits prod.splits dest!: sink_write_chunk Step(1))
qed

lemma sink_write_regions: "write_regions cdc rs phs a b fd c st = Some (r, c', st') \<Longrightarrow> sink st' = sink st"
  by (induction cdc rs phs a b fd c st rule: write_regions.induct)
    (auto split: if_splits option.splits sum.splits prod.splits dest!: sink_write_region)

lemma sink_WriteLoads: "WriteLoads cdc om pid maps c st = Some (r, c', st') \<Longrightarrow> sink st' = sink st"
  by (auto simp: WriteLoads_def split: if_splits option.splits sum.splits prod.splits dest!: sink_SetBlock sink_write_regions)

lemma sink_write_phdrs: "write_phdrs cdc phs st = (r, st') \<Longrightarrow> sink st' = sink st"
  by (induction phs arbitrary: st) (auto split: sum.splits prod.splits dest!: sink_Write)

lemma sink_WriteElfHeader: "WriteElfHeader cdc platform c st = (r, st') \<Longrightarrow> sink st' = sink st"
  by (auto simp: WriteElfHeader_def split: if_splits sum.splits prod.splits
      dest!: sink_SetBlock sink_Write sink_write_phdrs sink_Flush)

lemma sink_WriteTailMark: "WriteTailMark cdc st = (r, st') \<Longrightarrow> sink st' = sink st"
  by (auto simp: WriteTailMark_def split: if_splits sum.splits prod.splits dest!: sink_WriteRaw)

lemma sink_write_acore: "write_acore cdc env te om platform control c st = Some (r, c', st') \<Longrightarrow> sink st' = sink st"
  by (auto simp: write_acore_def split: option.splits sum.splits prod.splits
      dest!: sink_WriteProcessMeta sink_WriteThreads sink_WriteLoads sink_WriteElfHeader sink_WriteTailMark)

end
