(* ===== verification/TestProps.thy ===== *)
theory TestProps
  imports TestStream LoadsRoom AtomicProps WriterSink
begin

text \<open>
  Compressing a file and decompressing it again restores it.
\<close>

section \<open>The compressed stream\<close>

lemma write_pieces_Inr:
  "write_pieces cdc buf st = (Inr (), st') \<Longrightarrow> writer st \<Longrightarrow> writer st' \<and> emits cdc st buf st'"
proof (induction cdc buf st arbitrary: st' rule: write_pieces.induct)
  case (1 cdc buf st)
  show ?case
  proof (cases "buf = []")
    case True
    then show ?thesis using "1.prems" emits_refl by (subst (asm) write_pieces.simps) auto
  next
    case False
    obtain x st1 where w: "Write cdc (Some (take BLOCK_SIZE buf)) st = (x, st1)" by fastforce
    then obtain n where n: "x = Inr n" "n \<noteq> 0" "write_pieces cdc (drop BLOCK_SIZE buf) st1 = (Inr (), st')"
      using "1.prems"(1) False by (subst (asm) write_pieces.simps) (auto split: sum.splits if_splits)
    note W = Write_Inr [OF "1.prems"(2) w [unfolded n(1)]]
    have "writer st' \<and> emits cdc st1 (drop BLOCK_SIZE buf) st'"
      by (rule "1.IH" [OF False w [symmetric] n(1,2,3)]) (use W in blast)
    then show ?thesis using W emits_trans [of cdc st "take BLOCK_SIZE buf" st1 "drop BLOCK_SIZE buf" st'] by simp
  qed
qed

lemma compress_loop_Inr:
  "compress_loop cdc fin st = (Inr (), st') \<Longrightarrow> writer st \<Longrightarrow> healthy fin \<Longrightarrow> writer st' \<and> emits cdc st (unread fin) st'"
proof (induction cdc fin st arbitrary: st' rule: compress_loop.induct)
  case (1 cdc fin st)
  obtain buf fin1 where r: "fread COPY_BUF fin = (buf, fin1)" by fastforce
  note R = fread_healthy [OF "1.prems"(3) r]
  show ?case
  proof (cases "buf = []")
    case True
    then have "st' = st" "unread fin = []" using "1.prems"(1) r R by (subst (asm) compress_loop.simps, auto split: if_splits)+
    then show ?thesis using emits_refl "1.prems"(2) by auto
  next
    case False
    obtain x st1 where w: "write_pieces cdc buf st = (x, st1)" by fastforce
    have x: "x = Inr ()" using "1.prems"(1) r False w by (subst (asm) compress_loop.simps) (auto split: sum.splits)
    note W = write_pieces_Inr [OF w [unfolded x] "1.prems"(2)]
    show ?thesis
    proof (cases "length buf < COPY_BUF")
      case True
      then have "st' = st1" using "1.prems"(1) r False w x by (subst (asm) compress_loop.simps) (auto split: if_splits)
      moreover have "unread fin = buf" using R True by auto
      ultimately show ?thesis using W by simp
    next
      case full: False
      then have l: "compress_loop cdc fin1 st1 = (Inr (), st')"
        using "1.prems"(1) r False w x by (subst (asm) compress_loop.simps) auto
      have "writer st' \<and> emits cdc st1 (unread fin1) st'"
        by (rule "1.IH" [OF r [symmetric] False w [symmetric] x full l]) (use W R in blast)+
      moreover have "buf @ unread fin1 = unread fin" using R by simp
      ultimately show ?thesis using W emits_trans [of cdc st buf st1 "unread fin1" st'] by auto
    qed
  qed
qed

lemma compress_stream_Inr:
  assumes "compress_stream cdc fin st = (Inr (), st')" "idle st" "s_index st = 0" "\<not> s_sums st" "healthy fin"
  obtains s3 s5 blks where "idle st'" "grows st st'" "new_bytes st st' = TEST_STREAM_MAGIC @ new_bytes s3 s5 @ put_hdr TailMark"
    "appended cdc s3 blks s5" "sound_blocks blks" "concat (map lb_raw blks) = unread fin"
    "\<forall>b \<in> set blks. fst (snd b) = 0" "s_sums s3" "s_enc s3 = s_enc st" "cur_ix s3 = cur_ix st"
proof -
  have w: "writer st" "pending st = []" using assms(2) by (simp_all add: idle_def)
  obtain f where f: "s_file st = Some f" "at_end f" using w by (auto simp: writer_def)
  obtain s1 where raw: "WriteRaw cdc (Some TEST_STREAM_MAGIC) st = (Inr 8, s1)"
    using assms(1) by (auto simp: compress_stream_def Let_def TEST_STREAM_MAGIC_def split: prod.splits sum.splits if_splits)
  have "TEST_STREAM_MAGIC \<noteq> []" and l8: "length TEST_STREAM_MAGIC = 8" by (simp_all add: TEST_STREAM_MAGIC_def)
  then obtain f1 where fw: "fwrite TEST_STREAM_MAGIC f = (8, f1)" "s1 = st\<lparr>s_file := Some f1, s_fsize := s_fsize st + of_nat 8\<rparr>"
    using WriteRaw_sealed [OF w f(1) _ raw] by metis
  note F = fwrite_full [OF fw(1) [folded l8] f(2)]
  have emp: "Block_isEmpty (CurrentBlock s1)" using w(2) by (simp add: fw(2) pending_def Block_isEmpty_def CurrentBlock_def)
  define s2 where "s2 = s1\<lparr>s_sums := True\<rparr>"
  have e: "EnableBlockChecksums True s1 = (Inr 0, s2)"
    using w assms(3,4) emp by (auto simp: EnableBlockChecksums_def fw(2) writer_def s2_def)
  have i2: "idle s2" "grows st s2" "new_bytes st s2 = TEST_STREAM_MAGIC" "s_sums s2" "s_enc s2 = s_enc st" "cur_ix s2 = cur_ix st"
    using assms(2) F f(1) by (auto simp: s2_def fw(2) idle_def writer_def pending_def CurrentBlock_def new_bytes_def grows_def cur_ix_def)
  then have "SetBlock cdc 0 s2 = (Inr 0, s2\<lparr>s_type := 0\<rparr>)"
    by (auto simp: SetBlock_def idle_def writer_def pending_def Block_isEmpty_def)
  then have c: "(case compress_loop cdc fin (s2\<lparr>s_type := 0\<rparr>) of (Inl e, st4) \<Rightarrow> (Inl e, st4)
      | (Inr _, st4) \<Rightarrow> (case Flush cdc st4 of (Inl e, st5) \<Rightarrow> (Inl e, st5) | (Inr _, st5) \<Rightarrow> WriteTailMark cdc st5)) = (Inr (), st')"
    using assms(1) raw e l8 by (simp add: compress_stream_def)
  let ?s3 = "s2\<lparr>s_type := 0\<rparr>"
  have i3: "idle ?s3" using idle_update [OF i2(1)] by simp
  obtain s4 where l: "compress_loop cdc fin ?s3 = (Inr (), s4)" using c by (auto split: prod.splits sum.splits)
  obtain n s5 where s5: "Flush cdc s4 = (Inr n, s5)" "WriteTailMark cdc s5 = (Inr (), st')"
    using c l by (auto split: prod.splits sum.splits)
  have "writer ?s3" "pending ?s3 = []" using i3 by (simp_all add: idle_def)
  note L = compress_loop_Inr [OF l this(1) assms(5)]
  have L1: "writer s4" "emits cdc ?s3 (unread fin) s4" using L by auto
  from L1(2) obtain xs where x: "appended cdc ?s3 xs s4" "unread fin = concat (map lb_raw xs) @ pending s4"
    "sound_blocks xs" "\<forall>b \<in> set xs. fst b = 0 \<and> fst (snd b) = 0" "s_type s4 = 0"
    using \<open>pending ?s3 = []\<close> by (auto simp: emits_def)
  note Fl = Flush_Inr [OF L1(1) s5(1)]
  have a: "appended cdc ?s3 (xs @ sealed s4) s5" by (rule appended_trans [OF x(1) Fl(3)])
  have i5: "idle s5" using Fl by (simp add: idle_def)
  note T = WriteTailMark_Inr [OF s5(2) i5]
  have g: "grows st ?s3" "new_bytes st ?s3 = TEST_STREAM_MAGIC" using i2 by (simp_all add: grows_def new_bytes_def)
  have g5: "grows ?s3 s5" by (rule appended_grows [OF a])
  show ?thesis
  proof (rule that [OF T(1) _ _ a])
    show "grows st st'" using grows_trans [OF grows_trans [OF g(1) g5] T(3)] .
    show "new_bytes st st' = TEST_STREAM_MAGIC @ new_bytes ?s3 s5 @ put_hdr TailMark"
      using new_bytes_trans [OF g(1) grows_trans [OF g5 T(3)]] new_bytes_trans [OF g5 T(3)] g(2) T(2) by simp
    show "sound_blocks (xs @ sealed s4)" using x(3) sealed_sound [OF L1(1)] by simp
    show "concat (map lb_raw (xs @ sealed s4)) = unread fin" using x(2) by simp
    show "\<forall>b \<in> set (xs @ sealed s4). fst (snd b) = 0" using x(4,5) by (auto simp: sealed_def)
    show "s_sums ?s3" "s_enc ?s3 = s_enc st" "cur_ix ?s3 = cur_ix st" using i2 by simp_all
  qed
qed

section \<open>Reading it\<close>

lemma stream_header_fed:
  assumes "fed cdc sync False e ix rd (TEST_STREAM_MAGIC @ rest)" "seekable rd" "s_index rd = 0" "s_enc rd = None"
  obtains rd' where "stream_header rd = (Inr True, rd')" "fed cdc sync True e ix rd' rest" "s_mode rd' = s_mode rd"
proof -
  have l8: "length TEST_STREAM_MAGIC = 8" by (simp add: TEST_STREAM_MAGIC_def)
  obtain r1 where p: "Peek 8 rd = (Inr (take 8 (TEST_STREAM_MAGIC @ rest)), r1)"
    "fed cdc sync False e ix r1 (TEST_STREAM_MAGIC @ rest)" "seekable r1" "s_index r1 = s_index rd" "s_enc r1 = s_enc rd" "s_mode r1 = s_mode rd"
    by (rule Peek_fed_any [OF assms(1,2), of 8]) auto
  from p(2) obtain f d where st: "reader cdc r1" "\<not> s_sums r1" "s_file r1 = Some f" "unread f = TEST_STREAM_MAGIC @ rest"
    "s_dec r1 = Some d" "sync e ix d (s_off r1)" by (auto simp: fed_def)
  then have "healthy f" by (auto simp: reader_def)
  from fread_exact [OF this st(4) l8] obtain f' where
    f': "fread 8 f = (TEST_STREAM_MAGIC, f')" "healthy f'" "unread f' = rest" by auto
  let ?r2 = "r1\<lparr>s_file := Some f'\<rparr>"
  have r: "ReadRaw 8 r1 = (Inr TEST_STREAM_MAGIC, ?r2)" using st f' by (simp add: ReadRaw_def)
  have e: "EnableBlockChecksums True ?r2 = (Inr 0, ?r2\<lparr>s_sums := True\<rparr>)"
    using st p(4,5) assms(3,4) by (simp add: EnableBlockChecksums_def)
  have "stream_header rd = (Inr True, ?r2\<lparr>s_sums := True\<rparr>)"
    using p(1) r e by (simp add: stream_header_def l8)
  moreover have "fed cdc sync True e ix (?r2\<lparr>s_sums := True\<rparr>) rest"
    using st f' by (simp add: fed_def reader_def ring_ok_def)
  ultimately show ?thesis using that p(6) by simp
qed

lemma decompress_loop_fed:
  assumes ok: "codec_ok cdc sync"
  shows "fed cdc sync ck e ix rd (out @ put_hdr TailMark) \<Longrightarrow> s_mode rd = LZ4_Decompress \<Longrightarrow>
    encode_blocks cdc ck ix e blks = Some (out, e') \<Longrightarrow> ix < 2 \<Longrightarrow> sound_blocks blks \<Longrightarrow>
    \<forall>b \<in> set blks. fst (snd b) = 0 \<Longrightarrow> open_out fout (length (concat (map lb_raw blks))) \<Longrightarrow>
    \<exists>fout' rd'. decompress_loop cdc typed fout rd = (Inr (), fout', rd') \<and>
      fl_data fout' = fl_data fout @ concat (map lb_raw blks) \<and> same_sink fout fout'"
proof (induction blks arbitrary: e ix rd out fout)
  case Nil
  then have "fed cdc sync ck e ix rd (put_hdr TailMark @ [])" by simp
  then obtain rd' f where r: "ReadBlock cdc rd = (None, rd')" "s_tail rd'" "s_clean rd'" "s_file rd' = Some f"
    "healthy f" "unread f = []" "s_mode rd' = s_mode rd" by (rule ReadBlock_tail)
  have "\<not> isl (fst (VerifyPhysicalEof rd'))" using VerifyPhysicalEof_iff [OF r(4,5) _ r(2,3)] r Nil.prems(2) by simp
  then obtain rd2 where "VerifyPhysicalEof rd' = (Inr (), rd2)" by (cases "VerifyPhysicalEof rd'"; cases "fst (VerifyPhysicalEof rd')") auto
  then show ?case using r by (subst decompress_loop.simps) simp
next
  case (Cons b blks)
  obtain c t x where b: "b = (c, t, x)" by (metis surj_pair)
  obtain o1 e1 o2 where enc: "encode_block cdc ck ix e (c, t, x) = Some (o1, e1)"
    "encode_blocks cdc ck (Suc ix mod 2) e1 blks = Some (o2, e')" "out = o1 @ o2"
    using Cons.prems(3) by (auto simp: b simp del: encode_block.simps split: option.splits)
  have f: "fed cdc sync ck e ix rd (o1 @ (o2 @ put_hdr TailMark))" using Cons.prems(1) enc(3) by simp
  have x: "x \<noteq> []" "length x \<le> BLOCK_SIZE" "t = 0" using Cons.prems(5,6) by (auto simp: b)
  obtain k rd2 where rb: "ReadBlock cdc rd = (Some (block_hdr c t k, \<lparr>b_cur = 0, b_buf = x\<rparr>), rd2)"
    "fed cdc sync ck e1 (Suc ix mod 2) rd2 (o2 @ put_hdr TailMark)"
    by (rule ReadBlock_fed [OF f ok enc(1) x(1,2)])
  have bs: "Block_Size \<lparr>b_cur = 0, b_buf = x\<rparr> = length x" "block_rest \<lparr>b_cur = 0, b_buf = x\<rparr> = x"
    by (simp_all add: Block_Size_def block_rest_def)
  have "open_out fout (length x + length (concat (map lb_raw blks)))" using Cons.prems(7) by (simp add: b)
  then obtain fout1 where w: "fwrite x fout = (length x, fout1)" "open_out fout1 (length (concat (map lb_raw blks)))"
    "fl_data fout1 = fl_data fout @ x" "same_sink fout fout1" by (rule fwrite_out)
  have "s_mode rd2 = LZ4_Decompress" using s_mode_ReadBlock [OF rb(1)] Cons.prems(2) by simp
  from Cons.IH [OF rb(2) this enc(2) _ _ _ w(2)] Cons.prems(5,6) obtain fout' rd' where
    "decompress_loop cdc typed fout1 rd2 = (Inr (), fout', rd')" "fl_data fout' = fl_data fout1 @ concat (map lb_raw blks)"
    "same_sink fout1 fout'" by auto
  moreover have "decompress_loop cdc typed fout rd = decompress_loop cdc typed fout1 rd2"
    using x(3) by (subst decompress_loop.simps) (simp add: rb(1) bs w(1) block_hdr_def)
  ultimately show ?case using w(3,4) same_sink_trans by (auto simp: b)
qed

section \<open>Files\<close>

lemma Flush_idle_Inr: "idle st \<Longrightarrow> Flush cdc st = (Inr n, st') \<Longrightarrow> st' = st"
  by (auto simp: idle_def writer_def Flush_def pending_def Block_isEmpty_def split: if_splits)

lemma commit_lz4_alone:
  assumes os: "alone os" "temp \<noteq> final" "m temp = Some n" and st: "idle st" "s_file st = Some f"
    and r: "commit_atomic_lz4 cdc os st temp final state m = (Inr (), m')"
  shows "m' final = Some (n\<lparr>fn_data := fl_data f\<rparr>)"
proof -
  obtain a st1 where a: "Sync cdc st = (a, st1)" by fastforce
  obtain b fo st2 where b: "Close cdc st1 = (b, fo, st2)" by (metis surj_pair)
  have ok: "a = Inr ()" "b = Inr ()" using r a b by (cases a; cases b; simp add: commit_atomic_lz4_def Let_def)+
  have e: "s_enc st \<noteq> None" using st(1) by (auto simp: idle_def writer_def)
  obtain k s' where fl: "Flush cdc st = (Inr k, s')" using a ok(1) e st(2)
    by (auto simp: Sync_def split: if_splits prod.splits sum.splits)
  have st1: "st1 = st" "Flush cdc st = (Inr k, st)"
    using a ok(1) e st(2) fl Flush_idle_Inr [OF st(1) fl] by (auto simp: Sync_def split: if_splits option.splits)
  have fo: "fo = Some f" using b e st(2) by (simp add: Close_def st1 Let_def)
  let ?m = "m(temp := Some (n\<lparr>fn_data := fl_data f\<rparr>))"
  have "store_closed temp fo m = ?m" by (simp add: store_closed_def fo store_file_def os(3))
  then have "commit_atomic_path os temp final state ?m = (Inr (), m')"
    using r a b ok by (simp add: commit_atomic_lz4_def)
  from commit_path_settled [OF os(1,2) this] show ?thesis using os(2) by simp
qed

lemma test_compress_Inr:
  assumes "test_compress cdc env info fd in_file z m = (Inr (), m')" "alone (cv_os env)"
    and "cv_in env = Some fin" "healthy fin" "fi_fdopen info = Some f0" "at_end f0" "fl_data f0 = []"
    and "\<And>temp. temp_name (cv_os env) z = Inr temp \<Longrightarrow> temp \<noteq> z"
  obtains st st' node where "OpenFd cdc info (int fd) (Lz4Stream_new LZ4_Compress) = (Inr (), st)"
    "compress_stream cdc fin st = (Inr (), st')" "m' z = Some node" "fn_data node = new_bytes st st'"
proof -
  obtain a st m1 where a: "open_atomic_lz4 cdc (cv_os env) (cv_fresh env) info fd z (Lz4Stream_new LZ4_Compress) m = (a, st, m1)"
    by (metis surj_pair)
  obtain q st' where q: "compress_stream cdc fin st = (q, st')" by fastforce
  obtain temp state where ok: "a = Inr (temp, state)" "q = Inr ()"
    and cm: "commit_atomic_lz4 cdc (cv_os env) st' temp z state m1 = (Inr (), m')"
    using assms(1,3) a q by (auto simp: test_compress_def Let_def split: if_splits sum.splits prod.splits)
  obtain c m2 where c: "create_atomic_output (cv_os env) (cv_fresh env) z m = (c, m2)" by fastforce
  note C = create_alone [OF assms(2) c]
  have o: "OpenFd cdc info (int fd) (Lz4Stream_new LZ4_Compress) = (Inr (), st)" "c = Inr (temp, state)" "m1 = m2"
    using a ok(1) c by (auto simp: open_atomic_lz4_def split: sum.splits prod.splits)
  note O = opened_out [OF o(1) assms(5,6)]
  obtain s3 s5 blks where S: "idle st'" "grows st st'" by (rule compress_stream_Inr [OF q [unfolded ok(2)] O(1-3) assms(4)])
  have "m1 temp = Some (fresh_node (fst (cv_fresh env)) (snd (cv_fresh env)))" "temp_name (cv_os env) z = Inr temp"
    using C o(2,3) by auto
  moreover obtain f where f: "s_file st' = Some f" using S(1) by (auto simp: idle_def writer_def)
  ultimately have "m' z = Some ((fresh_node (fst (cv_fresh env)) (snd (cv_fresh env)))\<lparr>fn_data := fl_data f\<rparr>)"
    using commit_lz4_alone [OF assms(2) _ _ S(1) f cm] assms(8) by blast
  moreover have "new_bytes st st' = fl_data f" using O(4) f assms(7) by (simp add: new_bytes_def)
  ultimately show ?thesis using that [OF o(1) q [unfolded ok(2)]] by simp
qed

section \<open>With room on the disk\<close>

lemma compress_loop_room:
  assumes ct: "codec_total cdc"
  shows "healthy fin \<Longrightarrow> writer st \<Longrightarrow> room st (BLOCK_COST * (length (unread fin) div 4096 + 1) + k) \<Longrightarrow>
    \<exists>st'. compress_loop cdc fin st = (Inr (), st') \<and> writer st' \<and> room st' k"
proof (induction "length (unread fin)" arbitrary: fin st rule: less_induct)
  case less
  obtain buf fin1 where r: "fread COPY_BUF fin = (buf, fin1)" by fastforce
  note R = fread_healthy [OF less.prems(1) r]
  show ?case
  proof (cases "buf = []")
    case True
    moreover have "room st k" using room_mono [OF less.prems(3)] by simp
    ultimately show ?thesis using less.prems(2) r R by (subst compress_loop.simps) (auto simp: healthy_def)
  next
    case False
    have "length buf < BLOCK_SIZE" using R by auto
    moreover have "room st (BLOCK_COST + (BLOCK_COST * (length (unread fin) div 4096) + k))"
      using less.prems(3) by (simp add: algebra_simps)
    ultimately obtain st1 where w: "Write cdc (Some buf) st = (Inr (length buf), st1)" "writer st1"
      "room st1 (BLOCK_COST * (length (unread fin) div 4096) + k)" using Write_item_room [OF less.prems(2) ct _ False] by blast
    have p: "write_pieces cdc buf st = (Inr (), st1)"
      using False w(1) \<open>length buf < BLOCK_SIZE\<close> by (subst write_pieces.simps) (simp add: write_pieces.simps [of cdc "[]"])
    show ?thesis
    proof (cases "length buf < COPY_BUF")
      case True
      then have "compress_loop cdc fin st = (Inr (), st1)"
        using r p False R by (subst compress_loop.simps) (auto simp: healthy_def)
      moreover have "room st1 k" by (rule room_mono [OF w(3)]) simp
      ultimately show ?thesis using w by auto
    next
      case full: False
      then have l: "4096 \<le> length (unread fin)" "length (unread fin1) = length (unread fin) - 4096" using R by auto
      then have "length (unread fin) div 4096 = length (unread fin1) div 4096 + 1" by (simp add: le_div_geq)
      then have "room st1 (BLOCK_COST * (length (unread fin1) div 4096 + 1) + k)" using w(3) by simp
      moreover have "length (unread fin1) < length (unread fin)" using l by simp
      ultimately obtain st' where "compress_loop cdc fin1 st1 = (Inr (), st')" "writer st'" "room st' k"
        using less.hyps [of fin1 st1] R w(2) by blast
      then show ?thesis using r p False full by (subst compress_loop.simps) simp
    qed
  qed
qed

lemma compress_stream_room:
  assumes "codec_total cdc" "idle st" "s_index st = 0" "\<not> s_sums st" "healthy fin"
    and "room st (11 + BLOCK_COST * (length (unread fin) div 4096 + 2))"
  shows "\<exists>st'. compress_stream cdc fin st = (Inr (), st') \<and> idle st' \<and> room st' 0"
proof -
  let ?k = "BLOCK_COST * (length (unread fin) div 4096 + 1) + (BLOCK_COST + 3)"
  have w: "writer st" "pending st = []" using assms(2) by (simp_all add: idle_def)
  obtain f e where f: "s_file st = Some f" "at_end f" "s_enc st = Some e" using w by (auto simp: writer_def)
  have l8: "length TEST_STREAM_MAGIC = 8" by (simp add: TEST_STREAM_MAGIC_def)
  have "length (fl_data f) + length TEST_STREAM_MAGIC + ?k \<le> fl_limit f" "\<not> fl_err f"
    using assms(6) f(1) l8 by (auto simp: room_def algebra_simps)
  from fwrite_room [OF f(2) this] l8 obtain f1 where
    f1: "fwrite TEST_STREAM_MAGIC f = (8, f1)" "at_end f1" "\<not> fl_err f1" "length (fl_data f1) + ?k \<le> fl_limit f1" by auto
  let ?s1 = "st\<lparr>s_file := Some f1, s_fsize := s_fsize st + 8\<rparr>" and ?s3 = "st\<lparr>s_file := Some f1, s_fsize := s_fsize st + 8, s_sums := True, s_type := 0\<rparr>"
  have emp: "Block_isEmpty (CurrentBlock st)" using w(2) by (simp add: pending_def Block_isEmpty_def)
  have raw: "WriteRaw cdc (Some TEST_STREAM_MAGIC) st = (Inr 8, ?s1)"
    using f f1 l8 emp \<open>\<not> fl_err f\<close> by (simp add: WriteRaw_def TEST_STREAM_MAGIC_def)
  have e: "EnableBlockChecksums True ?s1 = (Inr 0, ?s1\<lparr>s_sums := True\<rparr>)"
    using f assms(3,4) emp by (simp add: EnableBlockChecksums_def CurrentBlock_def cur_ix_def)
  have i2: "idle (?s1\<lparr>s_sums := True\<rparr>)"
    using assms(2) f1 by (auto simp: idle_def writer_def pending_def CurrentBlock_def cur_ix_def)
  have b: "SetBlock cdc 0 (?s1\<lparr>s_sums := True\<rparr>) = (Inr 0, ?s3)" using SetBlock_idle [OF i2, of 0 cdc] by simp
  have i3: "writer ?s3" using idle_update [OF i2, of 0] by (simp add: idle_def)
  have rm3: "room ?s3 ?k" using f1 by (simp add: room_def)
  obtain s4 where l: "compress_loop cdc fin ?s3 = (Inr (), s4)" "writer s4" "room s4 (BLOCK_COST + 3)"
    using compress_loop_room [OF assms(1,5) i3 rm3] by blast
  obtain s5 where s5: "Flush cdc s4 = (Inr 0, s5)" "room s5 3" using Flush_room [OF l(2) assms(1) l(3)] by blast
  have "idle s5" using Flush_Inr [OF l(2) s5(1)] by (simp add: idle_def)
  from WriteTailMark_room [OF this, of 0] s5(2) obtain s6 where "WriteTailMark cdc s5 = (Inr (), s6)" "idle s6" "room s6 0" by auto
  then show ?thesis using raw e b l(1) s5(1) l8 by (simp add: compress_stream_def)
qed

lemma sink_write_pieces: "write_pieces cdc s st = (r, st') \<Longrightarrow> sink st' = sink st"
proof (induction cdc s st arbitrary: r st' rule: write_pieces.induct)
  case (1 cdc s st)
  then show ?case
    by (subst (asm) (2) write_pieces.simps) (auto split: if_splits sum.splits prod.splits dest!: sink_Write)
qed

lemma sink_compress_loop: "compress_loop cdc fin st = (r, st') \<Longrightarrow> sink st' = sink st"
proof (induction cdc fin st arbitrary: r st' rule: compress_loop.induct)
  case (1 cdc fin st)
  then show ?case
    by (subst (asm) (2) compress_loop.simps) (auto split: if_splits sum.splits prod.splits dest!: sink_write_pieces)
qed

lemma sink_compress_stream: "compress_stream cdc fin st = (r, st') \<Longrightarrow> sink st' = sink st"
  by (auto simp: compress_stream_def Let_def split: if_splits sum.splits prod.splits
      dest!: sink_WriteRaw sink_Flush sink_compress_loop sink_EnableBlockChecksums sink_SetBlock sink_WriteTailMark)

lemma commit_lz4_quiet:
  assumes "quiet os" "temp \<noteq> z" "m temp = None" "fits_output m z" "idle st" "room st 0" "s_file st = Some g"
    and "fl_flush_ok g" "fl_sync_ok g" "fl_close_ok g"
  shows "commit_atomic_lz4 cdc os st temp z (output_state m z) (m(temp := Some node)) = (Inr (), m(z := Some (node\<lparr>fn_data := fl_data g\<rparr>)))"
proof -
  obtain e where e: "s_enc st = Some e" "\<not> fl_err g" using assms(5-7) by (auto simp: idle_def writer_def room_def)
  have fl: "Flush cdc st = (Inr 0, st)" by (rule Flush_idle [OF assms(5,6)])
  obtain st2 where cl: "Close cdc st = (Inr (), Some g, st2)" using assms(7-10) e fl by (simp add: Close_def)
  have sy: "Sync cdc st = (Inr (), st)" using assms(7-10) e fl by (simp add: Sync_def)
  have "commit_atomic_lz4 cdc os st temp z (output_state m z) (m(temp := Some node)) =
      commit_atomic_path os temp z (output_state m z) (m(temp := Some (node\<lparr>fn_data := fl_data g\<rparr>)))"
    by (simp add: commit_atomic_lz4_def sy cl store_closed_def store_file_def)
  also have "\<dots> = (Inr (), m(z := Some (node\<lparr>fn_data := fl_data g\<rparr>)))"
    by (rule commit_path_quiet [OF assms(1-4)])
  finally show ?thesis .
qed

lemma test_compress_succeeds:
  assumes "codec_total cdc" "quiet (cv_os env)" "temp_name (cv_os env) z = Inr temp" "temp \<noteq> z" "m temp = None" "fits_output m z"
    and "\<not> same_file (cv_stat env) in_file z" "cv_in env = Some fin" "healthy fin"
    and "OpenFd cdc info (int fd) (Lz4Stream_new LZ4_Compress) = (Inr (), st)" "fi_fdopen info = Some f" "at_end f" "\<not> fl_err f"
    and "length (fl_data f) + (11 + BLOCK_COST * (length (unread fin) div 4096 + 2)) \<le> fl_limit f"
    and "fl_flush_ok f" "fl_sync_ok f" "fl_close_ok f"
  shows "\<exists>m'. test_compress cdc env info fd in_file z m = (Inr (), m')"
proof -
  note O = opened_out [OF assms(10-12)]
  have "room st (11 + BLOCK_COST * (length (unread fin) div 4096 + 2))" using O(4) assms(13,14) by (simp add: room_def)
  from compress_stream_room [OF assms(1) O(1-3) assms(9) this] obtain st' where
    c: "compress_stream cdc fin st = (Inr (), st')" "idle st'" "room st' 0" by blast
  then obtain g e where g: "s_file st' = Some g" "s_enc st' = Some e" "\<not> fl_err g" by (auto simp: idle_def writer_def room_def)
  have fg: "fl_flush_ok g" "fl_sync_ok g" "fl_close_ok g"
    using sink_compress_stream [OF c(1)] assms(15-17) g(1) O(4) by (simp_all add: sink_def)
  let ?node = "fresh_node (fst (cv_fresh env)) (snd (cv_fresh env))"
  have o: "open_atomic_lz4 cdc (cv_os env) (cv_fresh env) info fd z (Lz4Stream_new LZ4_Compress) m =
      (Inr (temp, output_state m z), st, m(temp := Some ?node))"
    using create_quiet [OF assms(2,3,6), of "cv_fresh env"] assms(10) by (simp add: open_atomic_lz4_def)
  have "commit_atomic_lz4 cdc (cv_os env) st' temp z (output_state m z) (m(temp := Some ?node)) =
      (Inr (), m(z := Some (?node\<lparr>fn_data := fl_data g\<rparr>)))"
    by (rule commit_lz4_quiet [OF assms(2,4-6) c(2,3) g(1) fg])
  then show ?thesis using assms(7,8) o c(1) by (simp add: test_compress_def)
qed

section \<open>The property\<close>

text \<open>What the two hosts provide.\<close>

definition compress_host :: "convert_env \<Rightarrow> fd_info \<Rightarrow> string \<Rightarrow> FILE \<Rightarrow> bool" where
  "compress_host env info z fin \<longleftrightarrow>
     alone (cv_os env) \<and> cv_in env = Some fin \<and> healthy fin \<and>
     (\<exists>f. fi_fdopen info = Some f \<and> at_end f \<and> fl_data f = []) \<and> temp_name (cv_os env) z \<noteq> Inr z"

definition decompress_host :: "convert_env \<Rightarrow> string \<Rightarrow> string \<Rightarrow> fs \<Rightarrow> nat \<Rightarrow> bool" where
  "decompress_host env z out m n \<longleftrightarrow>
     quiet (cv_os env) \<and> \<not> same_file (cv_stat env) z out \<and> fits_output m out \<and>
     (\<exists>temp. temp_name (cv_os env) out = Inr temp \<and> temp \<noteq> out \<and> m temp = None) \<and>
     (\<exists>f. cv_out env = Some f \<and> fl_data f = [] \<and> open_out f n \<and> fl_flush_ok f \<and> fl_sync_ok f \<and> fl_close_ok f)"

text \<open>
  C15: Compressing is lossless. When \<^verbatim>\<open>test_compress\<close> reports success on a readable file, the
  output exists, and \<^verbatim>\<open>test_decompress\<close> of that output restores the file byte for byte,
  whatever its length and contents - the empty file included - provided the second host
  can allocate the decoder, has the disk space, and no other process interferes.
\<close>

theorem compress_round_trip:
  assumes "codec_ok cdc sync" "compress_host env info z fin"
    and "test_compress cdc env info fd in_file z m = (Inr (), m1)"
    and "cv_in env2 = Some g" "healthy g" "fl_seekable g" "unread g = fn_data (the (m1 z))"
    and "Open cdc (Some g) (Some z) (Lz4Stream_new LZ4_Decompress) = (Inr (), rd)"
    and "decompress_host env2 z out m2 (length (unread fin))"
  shows "m1 z \<noteq> None \<and> test_decompress cdc env2 z out m2 =
    (Inr (), m2(out := Some ((fresh_node (fst (cv_fresh env2)) (snd (cv_fresh env2)))\<lparr>fn_data := unread fin\<rparr>)))"
proof -
  obtain f0 where h: "alone (cv_os env)" "cv_in env = Some fin" "healthy fin" "fi_fdopen info = Some f0" "at_end f0" "fl_data f0 = []"
    and tn: "temp_name (cv_os env) z \<noteq> Inr z" using assms(2) by (auto simp: compress_host_def)
  obtain st st' node' where T: "OpenFd cdc info (int fd) (Lz4Stream_new LZ4_Compress) = (Inr (), st)"
    "compress_stream cdc fin st = (Inr (), st')" "m1 z = Some node'" "fn_data node' = new_bytes st st'"
    by (rule test_compress_Inr [OF assms(3) h]) (use tn in auto)
  note O = opened_out [OF T(1) h(4,5)]
  obtain s3 s5 blks where S: "new_bytes st st' = TEST_STREAM_MAGIC @ new_bytes s3 s5 @ put_hdr TailMark"
    "appended cdc s3 blks s5" "sound_blocks blks" "concat (map lb_raw blks) = unread fin"
    "\<forall>b \<in> set blks. fst (snd b) = 0" "s_sums s3" "s_enc s3 = s_enc st" "cur_ix s3 = cur_ix st"
    by (rule compress_stream_Inr [OF T(2) O(1-3) h(3)])
  have g: "unread g = new_bytes st st'" using assms(7) T(3,4) by simp
  have cb: "codec_bounds cdc" using assms(1) by (simp add: codec_ok_def)
  note I = opened_in [OF assms(8,5) cb]
  have "in_step cdc sync st rd (unread g)" by (rule opened_in_step [OF T(1) h(4,5) assms(8,5,1)])
  then obtain e where e: "s_enc st = Some e"
    "fed cdc sync False e (cur_ix st) rd (TEST_STREAM_MAGIC @ (new_bytes s3 s5 @ put_hdr TailMark))"
    using O(3) by (auto simp: in_step_def g S(1))
  obtain rd1 where r: "stream_header rd = (Inr True, rd1)"
    "fed cdc sync True e (cur_ix st) rd1 (new_bytes s3 s5 @ put_hdr TailMark)" "s_mode rd1 = s_mode rd"
    by (rule stream_header_fed [OF e(2) I(7) [OF assms(6)] I(2,5)])
  have "in_step cdc sync s3 rd1 (new_bytes s3 s5 @ put_hdr TailMark)" using e(1) r(2) S(6-8) by (simp add: in_step_def)
  then obtain e' out' e'' where a: "s_enc s3 = Some e'" "encode_blocks cdc (s_sums s3) (cur_ix s3) e' blks = Some (out', e'')"
    "fed cdc sync (s_sums s3) e' (cur_ix s3) rd1 (out' @ put_hdr TailMark)"
    by (rule appended_in_step [OF S(2)])
  obtain temp fout where E: "quiet (cv_os env2)" "\<not> same_file (cv_stat env2) z out" "fits_output m2 out"
    "temp_name (cv_os env2) out = Inr temp" "temp \<noteq> out" "m2 temp = None" "cv_out env2 = Some fout" "fl_data fout = []"
    "open_out fout (length (unread fin))" "fl_flush_ok fout" "fl_sync_ok fout" "fl_close_ok fout"
    using assms(9) by (auto simp: decompress_host_def)
  have "open_out fout (length (concat (map lb_raw blks)))" using E(9) S(4) by simp
  from decompress_loop_fed [OF assms(1) a(3) _ a(2) _ S(3,5) this, of True] r(3) I(6) obtain fout' rd2 where
    L: "decompress_loop cdc True fout rd1 = (Inr (), fout', rd2)" "fl_data fout' = unread fin" "same_sink fout fout'"
    using E(8) S(4) by auto
  let ?node = "fresh_node (fst (cv_fresh env2)) (snd (cv_fresh env2))"
  have op: "open_atomic_file (cv_os env2) (cv_fresh env2) (cv_out env2) out m2 =
      (Inr (fout, temp, output_state m2 out), m2(temp := Some ?node))"
    using create_quiet [OF E(1,4,3), of "cv_fresh env2"] by (simp add: open_atomic_file_def E(7))
  have cm: "commit_atomic_file (cv_os env2) fout' temp out (output_state m2 out) (m2(temp := Some ?node)) =
      (Inr (), m2(out := Some (?node\<lparr>fn_data := fl_data fout'\<rparr>)))"
    by (rule commit_file_quiet [OF E(1,5,6,3)]) (use L(3) E(10-12) in \<open>simp_all add: same_sink_def\<close>)
  have "test_decompress cdc env2 z out m2 = (Inr (), m2(out := Some (?node\<lparr>fn_data := unread fin\<rparr>)))"
    using E(2) L(2) by (simp add: test_decompress_def assms(4,8) r(1) op L(1) cm)
  then show ?thesis using T(3) by simp
qed


definition tiny_host :: "bytes \<Rightarrow> convert_env" where
  "tiny_host bs = \<lparr>cv_in = Some (disk bs), cv_out = Some (disk []), cv_fresh = (1, 5), cv_stat = \<lambda>p. None, cv_os = calm_os,
     cv_mem = \<lambda>n. True, cv_clk_tck = 100, cv_host_page = 4096\<rparr>"

definition tiny_info :: fd_info where
  "tiny_info = \<lparr>fi_flags = Some (O_WRONLY, False), fi_fdopen = Some (disk [])\<rparr>"

definition tiny_compressed :: "(err + unit) \<times> fs" where
  "tiny_compressed = test_compress counted (tiny_host ''hello'') tiny_info 3 ''in'' ''in.z4'' Map.empty"

theorem compress_round_trip_witness:
  "fst tiny_compressed = Inr () \<and> snd tiny_compressed ''in.z4'' \<noteq> None \<and>
   map_option fn_data (snd (test_decompress counted (tiny_host (fn_data (the (snd tiny_compressed ''in.z4'')))) ''in.z4'' ''out''
     Map.empty) ''out'') = Some ''hello''"
proof -
  have q: "quiet calm_os" by (simp add: quiet_def alone_def calm_os_def)
  have n: "temp_name calm_os ''in.z4'' = Inr ''in.z4.tmp.XXXXXX1''" "temp_name calm_os ''out'' = Inr ''out.tmp.XXXXXX1''" by code_simp+
  have "OpenFd counted tiny_info (int 3) (Lz4Stream_new LZ4_Compress) = (Inr (), new_out)"
    by (simp add: new_out_eq OpenFd_def tiny_info_def open_eval numeral_2_eq_2)
  then have "\<exists>m'. test_compress counted (tiny_host ''hello'') tiny_info 3 ''in'' ''in.z4'' Map.empty = (Inr (), m')"
    using q n counted_total
    by (intro test_compress_succeeds [where temp = "''in.z4.tmp.XXXXXX1''" and fin = "disk ''hello''" and f = "disk []" and st = new_out])
      (simp_all add: tiny_host_def tiny_info_def fits_output_def same_file_def healthy_def
      at_end_def disk_def unread_def)
  then have c: "fst tiny_compressed = Inr ()" by (auto simp: tiny_compressed_def)
  then have t: "test_compress counted (tiny_host ''hello'') tiny_info 3 ''in'' ''in.z4'' Map.empty = (Inr (), snd tiny_compressed)"
    by (simp add: tiny_compressed_def prod_eq_iff)
  let ?z = "fn_data (the (snd tiny_compressed ''in.z4''))"
  have h1: "compress_host (tiny_host ''hello'') tiny_info ''in.z4'' (disk ''hello'')"
    using q n by (simp add: compress_host_def tiny_host_def tiny_info_def quiet_def disk_def healthy_def at_end_def)
  have h2: "decompress_host (tiny_host ?z) ''in.z4'' ''out'' Map.empty (length (unread (disk ''hello'')))"
    using q n by (simp add: decompress_host_def tiny_host_def same_file_def fits_output_def disk_def open_out_def at_end_def unread_def)
  have o: "Open counted (Some (disk ?z)) (Some ''in.z4'') (Lz4Stream_new LZ4_Decompress) = (Inr (), new_in ?z)"
    by (simp add: new_in_eq open_eval numeral_2_eq_2)
  have "cv_in (tiny_host ?z) = Some (disk ?z)" "healthy (disk ?z)" "fl_seekable (disk ?z)" "unread (disk ?z) = ?z"
    by (simp_all add: tiny_host_def disk_def healthy_def unread_def)
  from compress_round_trip [OF counted_ok h1 t this o h2] c show ?thesis by (simp add: disk_def unread_def)
qed
end
