(* ===== verification/GenerateEnd.thy ===== *)
theory GenerateEnd
  imports GenerateProps DumpProps TestProps WriterSink
begin

text \<open>
  A whole dump: when \<^verbatim>\<open>generate\<close> reports success, the file it installed is the acore of the
  target as it was with every thread stopped, and converts to a core file.
\<close>

section \<open>The stages of a successful run\<close>

text \<open>Where the writing starts: the control thread, the threads, the history at that point.\<close>

definition capture_point :: "kern \<Rightarrow> mon \<Rightarrow> history \<Rightarrow> (int \<times> mon \<times> history) option" where
  "capture_point K m h =
     (case attach_control K (m_pid m) h of
        Some (Inr (control, relay), h1) \<Rightarrow>
          (case collect_threads K (m_pid m) control (if relay \<noteq> 0 then set_relay control relay m else m) h1 of
             Some (r, m2, h2) \<Rightarrow> if r = Collected then Some (control, m2, h2) else None
           | None \<Rightarrow> None)
      | _ \<Rightarrow> None)"

lemma capture_Inr:
  assumes "capture K cdc platform c m st h = Some (True, st', m', h')"
  obtains control m2 h2 c' where "capture_point K m h = Some (control, m2, h2)"
    "write_acore cdc (k_capture K h2) (k_threads K h2) (k_mem K h2) platform control (capture_core c (m_thrd m2)) st = Some (Inr (), c', st')"
    "detach_collected_threads K m2 h2 = (True, m', h')"
proof -
  obtain control relay h1 where a: "attach_control K (m_pid m) h = Some (Inr (control, relay), h1)"
    using assms by (auto simp: capture_def split: option.splits sum.splits)
  obtain m2 h2 where b: "collect_threads K (m_pid m) control (if relay \<noteq> 0 then set_relay control relay m else m) h1 = Some (Collected, m2, h2)"
    using assms a by (auto simp: capture_def Let_def split: option.splits if_splits)
  have "capture_point K m h = Some (control, m2, h2)" by (simp only: capture_point_def a b option.case sum.case prod.case simp_thms if_True)
  with that show thesis using assms unfolding capture_def a
    by (simp only: option.case sum.case prod.case Let_def b simp_thms if_False not_True_eq_False) (auto split: option.splits sum.splits prod.splits)
qed

lemma generate_Inr:
  assumes "generate K cdc os fresh info fd platform c m path h files = Some (Inr (), m', h', files')"
  obtains temp state st0 files1 st1 control m2 h2 c' st2 where
    "open_atomic_lz4 cdc os fresh info fd path (Lz4Stream_new LZ4_Compress) files = (Inr (temp, state), st0, files1)"
    "WriteFileHeader cdc platform st0 = (Inr (), st1)" "capture_point K (m\<lparr>m_relay := []\<rparr>) h = Some (control, m2, h2)"
    "write_acore cdc (k_capture K h2) (k_threads K h2) (k_mem K h2) platform control (capture_core c (m_thrd m2)) st1 = Some (Inr (), c', st2)"
    "commit_atomic_lz4 cdc os st2 temp path state files1 = (Inr (), files')"
proof -
  obtain temp state st0 files1 where o: "open_atomic_lz4 cdc os fresh info fd path (Lz4Stream_new LZ4_Compress) files = (Inr (temp, state), st0, files1)"
    using assms by (auto simp: generate_def Let_def split: sum.splits prod.splits)
  obtain st1 where f: "WriteFileHeader cdc platform st0 = (Inr (), st1)"
    using assms o by (auto simp: generate_def Let_def split: sum.splits prod.splits)
  obtain st2 m1 h1 where c: "capture K cdc platform c (m\<lparr>m_relay := []\<rparr>) st1 h = Some (True, st2, m1, h1)"
    using assms o f by (auto simp: generate_def Let_def split: option.splits bool.splits)
  have "commit_atomic_lz4 cdc os st2 temp path state files1 = (Inr (), files')"
    using assms o f c by (auto simp: generate_def Let_def split: prod.splits)
  then show thesis using capture_Inr [OF c] that [OF o f] by metis
qed

section \<open>The property\<close>

text \<open>The host of the dump: no other process touches the output path, and the new file is empty.\<close>

definition dump_host :: "os_env \<Rightarrow> fd_info \<Rightarrow> string \<Rightarrow> bool" where
  "dump_host os info path \<longleftrightarrow>
     alone os \<and> (\<exists>f. fi_fdopen info = Some f \<and> at_end f \<and> fl_data f = []) \<and> temp_name os path \<noteq> Inr path"

definition setup_at :: "kern \<Rightarrow> nat \<Rightarrow> int \<Rightarrow> history \<Rightarrow> capture_setup" where
  "setup_at K platform control h =
     \<lparr>cs_env = k_capture K h, cs_te = k_threads K h, cs_mem = k_mem K h, cs_platform = platform, cs_control = control, cs_order = thread_order control\<rparr>"

lemma setup_at_simps [simp]:
  "cs_env (setup_at K p c h) = k_capture K h" "cs_te (setup_at K p c h) = k_threads K h" "cs_mem (setup_at K p c h) = k_mem K h"
  "cs_platform (setup_at K p c h) = p" "cs_control (setup_at K p c h) = c" "cs_order (setup_at K p c h) = thread_order c"
  by (simp_all add: setup_at_def)

text \<open>The file as the converter opens it.\<close>

definition reads_back :: "('e, 'd) lz4_codec \<Rightarrow> convert_env \<Rightarrow> string \<Rightarrow> fs_node option \<Rightarrow> bool" where
  "reads_back cdc env path node \<longleftrightarrow>
     (\<exists>acore rd. cv_in env = Some acore \<and> healthy acore \<and> fl_seekable acore \<and> map_option fn_data node = Some (unread acore) \<and>
        Open cdc (cv_in env) (Some path) (Lz4Stream_new LZ4_Decompress) = (Inr (), rd))"

lemma capture_point_threads:
  assumes W: "wait_errors K" and m: "m_tids m = []" and pid: "0 < m_pid m" and c: "capture_point K m h = Some (control, m2, h2)"
  shows "distinct (m_thrd m2)" "control \<in> set (m_thrd m2)" "thread_set_complete K (m_pid m) control m2 h h2"
proof -
  obtain relay h1 where a: "attach_control K (m_pid m) h = Some (Inr (control, relay), h1)"
    and b: "collect_threads K (m_pid m) control (if relay \<noteq> 0 then set_relay control relay m else m) h1 = Some (Collected, m2, h2)"
    using c by (auto simp: capture_point_def split: option.splits sum.splits if_splits)
  have t: "m_tids (if relay \<noteq> 0 then set_relay control relay m else m) = []" using m by simp
  have c0: "control \<noteq> 0" using attach_control_pos [OF a pid] by simp
  note A = attach_control_clear [OF W a]
  from collect_threads_attached [OF W t c0 A(2) [OF refl] A(1) b] show "distinct (m_thrd m2)" "control \<in> set (m_thrd m2)"
    "thread_set_complete K (m_pid m) control m2 h h2" by simp_all
qed

text \<open>A file that was opened, written as an acore and committed: what it holds.\<close>

lemma acore_installed:
  assumes "open_atomic_lz4 cdc os fresh info fd path (Lz4Stream_new LZ4_Compress) files = (Inr (temp, state), st0, files1)"
    and "WriteFileHeader cdc (cs_platform s) st0 = (Inr (), st1)"
    and "acore_stream cdc s co st1 c' st2"
    and "commit_atomic_lz4 cdc os st2 temp path state files1 = (Inr (), files')"
    and "dump_host os info path" "codec_ok cdc sync" "allocates cdc" "capture_sound s co" "threads_fit s co"
  obtains g f where "OpenFd cdc info (int fd) (Lz4Stream_new LZ4_Compress) = (Inr (), st0)"
    "fi_fdopen info = Some f" "at_end f" "fl_data f = []" "s_file st2 = Some g" "map_option fn_data (files' path) = Some (fl_data g)"
proof -
  obtain f where f: "fi_fdopen info = Some f" "at_end f" "fl_data f = []" and os: "alone os" "temp_name os path \<noteq> Inr path"
    using assms(5) by (auto simp: dump_host_def)
  obtain r files2 where cr: "create_atomic_output os fresh path files = (r, files2)" by fastforce
  have op: "OpenFd cdc info (int fd) (Lz4Stream_new LZ4_Compress) = (Inr (), st0)" "r = Inr (temp, state)" "files1 = files2"
    using assms(1) cr by (auto simp: open_atomic_lz4_def split: sum.splits prod.splits)
  have t: "temp_name os path = Inr temp" "files1 temp = Some (fresh_node (fst fresh) (snd fresh))"
    using create_alone [OF os(1) cr] op(2,3) by simp_all
  note O = opened_out [OF op(1) f(1,2)]
  have i: "idle st2"
    by (rule acore_idle [OF assms(6,7) O(1-3) assms(8,9), where ?c0.0 = "Coredump_new 0 0"])
      (use assms(2,3) in \<open>simp_all add: Coredump_new_def ProcessData_new_def\<close>)
  then obtain g where g: "s_file st2 = Some g" by (auto simp: idle_def writer_def)
  have "files' path = Some ((fresh_node (fst fresh) (snd fresh))\<lparr>fn_data := fl_data g\<rparr>)"
    by (rule commit_lz4_alone [OF os(1) _ t(2) i g assms(4)]) (use os(2) t(1) in auto)
  then show thesis using that [OF op(1) f g] by simp
qed

lemma generate_writes:
  assumes "generate K cdc os fresh info fd platform c m path h files = Some (Inr (), m', h', files')" "dump_host os info path"
    and "capture_point K (m\<lparr>m_relay := []\<rparr>) h = Some (control, m2, h2)"
    and "codec_ok cdc sync" "allocates cdc" "capture_sound (setup_at K platform control h2) (capture_core c (m_thrd m2))"
      "threads_fit (setup_at K platform control h2) (capture_core c (m_thrd m2))"
  obtains st0 st1 c' st2 g f where
    "OpenFd cdc info (int fd) (Lz4Stream_new LZ4_Compress) = (Inr (), st0)" "fi_fdopen info = Some f" "at_end f" "fl_data f = []"
    "WriteFileHeader cdc platform st0 = (Inr (), st1)"
    "write_acore cdc (k_capture K h2) (k_threads K h2) (k_mem K h2) platform control (capture_core c (m_thrd m2)) st1 = Some (Inr (), c', st2)"
    "s_file st2 = Some g" "map_option fn_data (files' path) = Some (fl_data g)"
proof -
  obtain temp state st0 files1 st1 cp mp hp c' st2 where
    o: "open_atomic_lz4 cdc os fresh info fd path (Lz4Stream_new LZ4_Compress) files = (Inr (temp, state), st0, files1)" and
    w: "WriteFileHeader cdc platform st0 = (Inr (), st1)" "capture_point K (m\<lparr>m_relay := []\<rparr>) h = Some (cp, mp, hp)"
      "write_acore cdc (k_capture K hp) (k_threads K hp) (k_mem K hp) platform cp (capture_core c (m_thrd mp)) st1 = Some (Inr (), c', st2)" and
    cm: "commit_atomic_lz4 cdc os st2 temp path state files1 = (Inr (), files')"
    by (rule generate_Inr [OF assms(1)])
  have eq: "cp = control" "mp = m2" "hp = h2" using w(2) assms(3) by simp_all
  have a: "acore_stream cdc (setup_at K platform control h2) (capture_core c (m_thrd m2)) st1 c' st2"
    by (rule write_acore_stream [OF _ _ assms(6)]) (use w(3) in \<open>simp_all add: eq\<close>)
  obtain g f where "OpenFd cdc info (int fd) (Lz4Stream_new LZ4_Compress) = (Inr (), st0)"
    "fi_fdopen info = Some f" "at_end f" "fl_data f = []" "s_file st2 = Some g" "map_option fn_data (files' path) = Some (fl_data g)"
    by (rule acore_installed [OF o _ a cm assms(2,4-7)]) (use w in simp_all)
  then show thesis using that w(1) w(3) [unfolded eq] by blast
qed

text \<open>
  C1: A dump is complete, end to end. Take any run of the kernel in which \<^verbatim>\<open>generate\<close> reports
  success: attach, collection of the threads, writing, release and installation of the file,
  whatever the other processes did meanwhile. Then the threads captured are distinct, and the
  last thing the run did before it began to write was to list the threads once more (and, if
  the control thread is not the leader, to see that the leader is a zombie): at that point
  of the run every captured thread had been seen stopped and not been woken since, and every
  thread listed is captured, but for an exited leader and threads that an attach in this run
  found not to stop; and when \<^verbatim>\<open>decompress\<close> is given the installed
  file, it succeeds and leaves at its output path an ELF core of the right machine whose
  \<^verbatim>\<open>LOAD\<close> segments are the mappings of the stopped process, one for one, with their addresses,
  sizes and permissions and the bytes of its memory - all of them, if no read of the memory
  failed - and whose notes list the process, its auxiliary vector, its file mappings and
  every thread with the registers captured. Assumed: what the kernel answers has the
  kernel's format, there are at most 65533 mappings and 131072 threads, no process touches
  the output path, the converting host has memory and disk space.
\<close>

theorem generate_converts:
  assumes "codec_ok cdc sync" "allocates cdc" "wait_errors K" "m_tids m = []" "0 < m_pid m" "dump_host os info path"
    and "generate K cdc os fresh info fd platform c m path h files = Some (Inr (), m', h', files')"
    and "capture_point K (m\<lparr>m_relay := []\<rparr>) h = Some (control, m2, h2)"
    and "s = setup_at K platform control h2" "co = capture_core c (m_thrd m2)"
    and "capture_sound s co" "threads_fit s co" "convertible s co"
    and "reads_back cdc env in_file (files' path)" "converter_sound env in_file out s co fs2" "pd_threads (c_process c0) = []"
  shows "distinct (m_thrd m2) \<and> control \<in> set (m_thrd m2) \<and> thread_set_complete K (m_pid m) control m2 h h2 \<and>
    (\<exists>maps mem sp img node. decompress cdc env in_file (Some out) c0 fs2 = (Inr (), cleanup_decompress node, fs2(out :=
        Some ((fresh_node (fst (cv_fresh env)) (snd (cv_fresh env)))\<lparr>fn_data := img\<rparr>))) \<and>
      source_maps (k_capture K h2) co control = Inr maps \<and> k_mem K h2 control = Some mem \<and>
      notes_tell s co (cv_mem env) (cv_clk_tck env) maps sp \<and>
      core_shows (undisturbed mem \<and> readable_maps (mf_byte mem) maps) platform (mf_byte mem) maps sp img)"
proof -
  obtain st0 st1 c' st2 g f where G:
    "OpenFd cdc info (int fd) (Lz4Stream_new LZ4_Compress) = (Inr (), st0)" "fi_fdopen info = Some f" "at_end f" "fl_data f = []"
    "WriteFileHeader cdc platform st0 = (Inr (), st1)"
    "write_acore cdc (k_capture K h2) (k_threads K h2) (k_mem K h2) platform control co st1 = Some (Inr (), c', st2)"
    "s_file st2 = Some g" "map_option fn_data (files' path) = Some (fl_data g)"
    by (rule generate_writes [OF assms(7,6,8,1,2)]) (use assms(9-12) in auto)
  obtain acore rd where R: "cv_in env = Some acore" "healthy acore" "fl_seekable acore" "unread acore = fl_data g"
    "Open cdc (cv_in env) (Some in_file) (Lz4Stream_new LZ4_Decompress) = (Inr (), rd)"
    using assms(14) G(8) by (auto simp: reads_back_def)
  note T = capture_point_threads [OF assms(3) _ _ assms(8)]
  have a: "acore_stream cdc s co st1 c' st2" by (rule write_acore_stream [OF _ _ assms(11)]) (use G(6) assms(9) in simp_all)
  from acore_converts [OF assms(1,2,11-13) G(1-4) _ a G(7) R assms(15,16)] show ?thesis
    using T assms(4,5,9) G(5) by simp
qed


section \<open>Success\<close>

lemma capture_runs:
  assumes "capture_point K m h = Some (control, m2, h2)" "fst (detach_collected_threads K m2 h2)"
    and "write_acore cdc (k_capture K h2) (k_threads K h2) (k_mem K h2) platform control (capture_core c (m_thrd m2)) st = Some (Inr (), c', st')"
  shows "\<exists>m' h'. capture K cdc platform c m st h = Some (True, st', m', h')"
proof -
  obtain relay h1 where a: "attach_control K (m_pid m) h = Some (Inr (control, relay), h1)"
    and b: "collect_threads K (m_pid m) control (if relay \<noteq> 0 then set_relay control relay m else m) h1 = Some (Collected, m2, h2)"
    using assms(1) by (auto simp: capture_point_def split: option.splits sum.splits if_splits)
  obtain m3 h3 where d: "detach_collected_threads K m2 h2 = (True, m3, h3)" using assms(2) by (cases "detach_collected_threads K m2 h2") auto
  show ?thesis by (simp add: capture_def a Let_def b assms(3) d)
qed

text \<open>An output path that can be written, and a stopped target that can be captured.\<close>

definition output_ready ::
    "('e, 'd) lz4_codec \<Rightarrow> os_env \<Rightarrow> fd_info \<Rightarrow> nat \<Rightarrow> string \<Rightarrow> fs \<Rightarrow> ('e, 'd) stream \<Rightarrow> bool" where
  "output_ready cdc os info fd path files st0 \<longleftrightarrow>
     quiet os \<and> fits_output files path \<and> (\<exists>temp. temp_name os path = Inr temp \<and> temp \<noteq> path \<and> files temp = None) \<and>
     OpenFd cdc info (int fd) (Lz4Stream_new LZ4_Compress) = (Inr (), st0) \<and>
     (\<exists>f. fi_fdopen info = Some f \<and> at_end f \<and> fl_flush_ok f \<and> fl_sync_ok f \<and> fl_close_ok f)"

definition capturable :: "capture_setup \<Rightarrow> core \<Rightarrow> Phdr list \<Rightarrow> bool" where
  "capturable s co phs \<longleftrightarrow>
     (let tids = pd_thrd_pid (c_process co); control = cs_control s in
      capture_sound s co \<and> proc_readable (cs_env s) co control \<and> tids_ok tids \<and>
      (\<forall>tid \<in> set tids. \<not> isl (stored_thread (cs_env s) (cs_te s tid) co tid)) \<and> length phs < 65535 \<and>
      (\<exists>maps n mem. source_maps (cs_env s) co control = Inr maps \<and> expected_load_phdrs maps = Inr (phs, n) \<and> 0 < n \<and>
         cs_mem s control = Some mem \<and> undisturbed mem \<and> readable_maps (mf_byte mem) maps))"

text \<open>A file that can be created, written and installed.\<close>

lemma acore_delivered:
  assumes ct: "codec_total cdc" and out: "output_ready cdc os info fd path files st0"
    and hd: "WriteFileHeader cdc (cs_platform s) st0 = (Inr (), st1)"
    and rm: "room st1 (dump_cost (length (pd_thrd_pid (c_process co))) phs)" and cap: "capturable s co phs"
  obtains temp state files1 c' st2 files' where
    "open_atomic_lz4 cdc os fresh info fd path (Lz4Stream_new LZ4_Compress) files = (Inr (temp, state), st0, files1)"
    "write_acore cdc (cs_env s) (cs_te s) (cs_mem s) (cs_platform s) (cs_control s) co st1 = Some (Inr (), c', st2)"
    "commit_atomic_lz4 cdc os st2 temp path state files1 = (Inr (), files')" "files' path \<noteq> None"
proof -
  obtain temp f where os: "quiet os" "fits_output files path" "temp_name os path = Inr temp" "temp \<noteq> path" "files temp = None"
    and op: "OpenFd cdc info (int fd) (Lz4Stream_new LZ4_Compress) = (Inr (), st0)"
    and f: "fi_fdopen info = Some f" "at_end f" "fl_flush_ok f" "fl_sync_ok f" "fl_close_ok f"
    using out by (auto simp: output_ready_def)
  note O = opened_out [OF op f(1,2)]
  have i1: "idle st1" by (rule WriteFileHeader_Inr [OF hd O(1-3)])
  have rm0: "room st1 (dump_cost (length (pd_thrd_pid (c_process co))) phs + 0)" using rm by simp
  obtain c' st2 where w: "write_acore cdc (cs_env s) (cs_te s) (cs_mem s) (cs_platform s) (cs_control s) co st1 = Some (Inr (), c', st2)"
    "idle st2" "room st2 0"
    using write_acore_room [OF i1 ct rm0, of s] cap by (force simp: capturable_def Let_def)
  then obtain g where g: "s_file st2 = Some g" by (auto simp: idle_def writer_def)
  have "sink st2 = sink st0" using sink_write_acore [OF w(1)] sink_WriteFileHeader [OF hd] by simp
  then have fg: "fl_flush_ok g" "fl_sync_ok g" "fl_close_ok g" using f(3-5) g O(4) by (simp_all add: sink_def)
  let ?node = "fresh_node (fst fresh) (snd fresh)"
  have o: "open_atomic_lz4 cdc os fresh info fd path (Lz4Stream_new LZ4_Compress) files =
      (Inr (temp, output_state files path), st0, files(temp := Some ?node))"
    using create_quiet [OF os(1,3,2), of fresh] op by (simp add: open_atomic_lz4_def)
  have "commit_atomic_lz4 cdc os st2 temp path (output_state files path) (files(temp := Some ?node)) =
      (Inr (), files(path := Some (?node\<lparr>fn_data := fl_data g\<rparr>)))"
    by (rule commit_lz4_quiet [OF os(1,4,5,2) w(2,3) g fg])
  then show thesis using that [OF o w(1)] by simp
qed

lemma generate_runs:
  assumes ct: "codec_total cdc" and out: "output_ready cdc os info fd path files st0"
    and hd: "WriteFileHeader cdc platform st0 = (Inr (), st1)" and rm: "room st1 (dump_cost (length (m_thrd m2)) phs)"
    and cp: "capture_point K (m\<lparr>m_relay := []\<rparr>) h = Some (control, m2, h2)" "fst (detach_collected_threads K m2 h2)"
    and cap: "capturable (setup_at K platform control h2) (capture_core c (m_thrd m2)) phs"
  shows "\<exists>m' h' files'. generate K cdc os fresh info fd platform c m path h files = Some (Inr (), m', h', files') \<and> files' path \<noteq> None"
proof -
  have tids: "pd_thrd_pid (c_process (capture_core c (m_thrd m2))) = m_thrd m2" by (simp add: capture_core_def)
  obtain temp state files1 c' st2 files' where
    o: "open_atomic_lz4 cdc os fresh info fd path (Lz4Stream_new LZ4_Compress) files = (Inr (temp, state), st0, files1)" and
    w: "write_acore cdc (k_capture K h2) (k_threads K h2) (k_mem K h2) platform control (capture_core c (m_thrd m2)) st1 = Some (Inr (), c', st2)" and
    cm: "commit_atomic_lz4 cdc os st2 temp path state files1 = (Inr (), files')" "files' path \<noteq> None"
    by (rule acore_delivered [OF ct out, of "setup_at K platform control h2" st1 "capture_core c (m_thrd m2)" phs fresh])
      (use hd rm cap tids in auto)
  obtain m1 h1 where c: "capture K cdc platform c (m\<lparr>m_relay := []\<rparr>) st1 h = Some (True, st2, m1, h1)"
    using capture_runs [OF cp w] by auto
  show ?thesis using cm by (simp add: generate_def Let_def o hd c)
qed

text \<open>
  C11: Nothing in a dump fails or runs for ever of itself. Assume all of the following: the
  threads of the target have been stopped and every detach goes well; its \<^verbatim>\<open>/proc\<close> files and
  the registers of its threads can be read and have the kernel's format; its mappings can be
  read without error, are fewer than 65535 and not all empty; no file-system call fails and
  no other process touches the file system; the name drawn for the temporary file is free and
  the output path is free or a regular file; the new file can be opened as a stream, its
  header has been written, flush, sync and close of it succeed; the compressor compresses
  every block; and the disk has room for the metadata, every started 64 KiB of each mapping
  and the program headers. Then \<^verbatim>\<open>generate\<close> runs to its end, reports success and leaves a file
  at the output path: no check of its own stands in the way in the metadata, the threads, the
  memory, the ELF block, the tail mark or the commit, and the room stated is enough.
\<close>

theorem generate_succeeds:
  assumes "codec_total cdc" "output_ready cdc os info fd path files st0" "WriteFileHeader cdc platform st0 = (Inr (), st1)"
    and "room st1 (dump_cost (length (m_thrd m2)) phs)" "capture_point K (m\<lparr>m_relay := []\<rparr>) h = Some (control, m2, h2)"
    and "fst (detach_collected_threads K m2 h2)" "capturable (setup_at K platform control h2) (capture_core c (m_thrd m2)) phs"
  shows "\<exists>m' h' files'. generate K cdc os fresh info fd platform c m path h files = Some (Inr (), m', h', files') \<and> files' path \<noteq> None"
  by (rule generate_runs [OF assms])

section \<open>A run\<close>

text \<open>The process of \<open>sample_env\<close> on a kernel that stops its one thread.\<close>

definition gen_kern :: kern where
  "gen_kern = sim_kern\<lparr>k_waitpid := \<lambda>h p. Inr (Some (stopped_status 19 0)),
     k_siginfo := \<lambda>h p. Inr \<lparr>sg_signo = 19, sg_code = SI_KERNEL, sg_pid = 0, sg_status = 0\<rparr>,
     k_tasks := \<lambda>h p. Inr ([''.'', ''..'', ''7''], None), k_capture := \<lambda>h. sample_env, k_threads := \<lambda>h. sample_te,
     k_mem := \<lambda>h p. Some sample_mem\<rparr>"

lemma gen_kern_simps [simp]:
  "k_capture gen_kern h = sample_env" "k_threads gen_kern h = sample_te" "k_mem gen_kern h p = Some sample_mem"
  "k_tasks gen_kern h p = Inr ([''.'', ''..'', ''7''], None)" "wait_errors gen_kern"
  by (simp_all add: gen_kern_def wait_errors_def)

lemma gen_attach: "pt_attach gen_kern p h = Some (Inr 0, Asked # Waited p (Some (stopped_status 19 0)) # Ctl p ATTACH True # h)"
  by (simp add: pt_attach_def sys_ctl_def pt_wait_def wait_loop.simps sys_waitpid_def sys_siginfo_def attach_stopped_def attach_signal_def
      gen_kern_def sim_kern_def Let_def)

lemma gen_detach: "pt_detach gen_kern p sig h = (Inr (), Ctl p (DETACH sig) True # h)"
  by (simp add: pt_detach_def sys_ctl_def gen_kern_def sim_kern_def)

lemma gen_tasks: "list_task_tids gen_kern p h = (Inr [7], Asked # h)"
proof -
  have "foldr tid_insert (List.map_filter task_tid [''.'', ''..'', ''7'']) [] = [7]" by code_simp
  then show ?thesis by (simp add: list_task_tids_def)
qed

lemma gen_zombie: "task_is_zombie gen_kern 7 h = (Inr False, Asked # h)"
proof -
  have "fst (task_is_zombie gen_kern 7 []) = Inr False" by code_simp
  then show ?thesis unfolding task_is_zombie_def gen_kern_simps by simp
qed

lemma gen_point:
  "\<exists>m2 h2. capture_point gen_kern (mon_new 7) [] = Some (7, m2, h2) \<and> m_thrd m2 = [7] \<and> m_relay m2 = [] \<and> attached 7 h2"
proof -
  have "attach_control gen_kern 7 [] = Some (Inr (7, 0), Asked # Waited 7 (Some (stopped_status 19 0)) # Ctl 7 ATTACH True # [Asked])"
    by (simp add: attach_control_def gen_zombie gen_attach)
  then show ?thesis
    by (simp add: capture_point_def mon_new_def collect_threads_def gen_tasks Let_def numeral_eq_Suc del: Suc_eq_numeral)
qed


lemma gen_core: "capture_core (Coredump_new ARCH_AARCH64 7) [7] = sample_core"
  by (simp add: capture_core_def sample_core_def Coredump_new_def)

lemma gen_setup: "setup_at gen_kern ARCH_AARCH64 7 h = sample_setup"
  by (simp add: setup_at_def sample_setup_def fun_eq_iff)

definition gen_info :: fd_info where
  "gen_info = \<lparr>fi_flags = Some (O_RDWR, False), fi_fdopen = Some (disk [])\<rparr>"

lemma gen_ready: "output_ready counted calm_os gen_info 3 ''acore'' Map.empty new_out"
proof -
  have "OpenFd counted gen_info 3 (Lz4Stream_new LZ4_Compress) = (Inr (), new_out)"
    by (simp add: new_out_eq OpenFd_def open_eval numeral_2_eq_2 gen_info_def)
  moreover have "temp_name calm_os ''acore'' = Inr ''acore.tmp.XXXXXX1''" by code_simp
  ultimately show ?thesis by (simp add: output_ready_def quiet_def alone_def calm_os_def fits_output_def gen_info_def disk_def at_end_def)
qed

lemma gen_capturable: "capturable sample_setup sample_core [load_phdr 0 sample_region]"
  using sample_dump_premises sample_setup_facts(1,5) sample_facts(5) sample_phdrs(1)
  by (auto simp: capturable_def Let_def)

lemma gen_premises:
  obtains m2 h2 where "capture_point gen_kern ((mon_new 7)\<lparr>m_relay := []\<rparr>) [] = Some (7, m2, h2)" "m_thrd m2 = [7]" "attached 7 h2"
    "fst (detach_collected_threads gen_kern m2 h2)"
proof -
  obtain m2 h2 where p: "capture_point gen_kern (mon_new 7) [] = Some (7, m2, h2)" "m_thrd m2 = [7]" "attached 7 h2" using gen_point by blast
  moreover have "(mon_new 7)\<lparr>m_relay := []\<rparr> = mon_new 7" by (simp add: mon_new_def)
  moreover have "fst (detach_collected_threads gen_kern m2 h2)" by (simp add: detach_collected_threads_def p(2) gen_detach)
  ultimately show ?thesis using that by simp
qed

lemma gen_room: "room sample_start (dump_cost 1 [load_phdr 0 sample_region])"
  using sample_dump_premises(1) by (simp add: sample_setup_facts(5))

definition gen_run :: "((err + unit) \<times> mon \<times> history \<times> fs) option" where
  "gen_run = generate gen_kern counted calm_os (1, 5) gen_info 3 ARCH_AARCH64 (Coredump_new ARCH_AARCH64 7) (mon_new 7) ''acore'' [] Map.empty"

lemma new_out_header: "WriteFileHeader counted ARCH_AARCH64 new_out = (Inr (), sample_start)"
  by (rule sample_start_facts)

theorem generate_succeeds_witness:
  "\<exists>m' h' files'. gen_run = Some (Inr (), m', h', files') \<and> files' ''acore'' \<noteq> None"
proof -
  obtain m2 h2 where P: "capture_point gen_kern ((mon_new 7)\<lparr>m_relay := []\<rparr>) [] = Some (7, m2, h2)" "m_thrd m2 = [7]"
    "fst (detach_collected_threads gen_kern m2 h2)" by (rule gen_premises)
  have "capturable (setup_at gen_kern ARCH_AARCH64 7 h2) (capture_core (Coredump_new ARCH_AARCH64 7) (m_thrd m2)) [load_phdr 0 sample_region]"
    by (simp only: P(2) gen_core gen_setup gen_capturable)
  then show ?thesis unfolding gen_run_def
    by (intro generate_succeeds [OF sample_facts(1) gen_ready new_out_header _ P(1,3)]) (use gen_room P(2) in simp_all)
qed

lemma gen_run_ends: "\<exists>m' h' files'. gen_run = Some (Inr (), m', h', files') \<and> files' ''acore'' \<noteq> None"
proof -
  obtain m2 h2 where P: "capture_point gen_kern ((mon_new 7)\<lparr>m_relay := []\<rparr>) [] = Some (7, m2, h2)" "m_thrd m2 = [7]"
    "fst (detach_collected_threads gen_kern m2 h2)" by (rule gen_premises)
  have "capturable (setup_at gen_kern ARCH_AARCH64 7 h2) (capture_core (Coredump_new ARCH_AARCH64 7) (m_thrd m2)) [load_phdr 0 sample_region]"
    by (simp only: P(2) gen_core gen_setup gen_capturable)
  then show ?thesis unfolding gen_run_def
    by (intro generate_runs [OF sample_facts(1) gen_ready new_out_header _ P(1,3)]) (use gen_room P(2) in simp_all)
qed

lemma gen_host: "dump_host calm_os gen_info ''acore''"
proof -
  have "temp_name calm_os ''acore'' = Inr ''acore.tmp.XXXXXX1''" by code_simp
  then show ?thesis by (simp add: dump_host_def alone_def calm_os_def gen_info_def disk_def at_end_def)
qed

lemma sample_reads: "reads_back counted (sample_convert (fn_data node)) ''acore'' (Some node)"
proof -
  have "Open counted (cv_in (sample_convert (fn_data node))) (Some ''acore'') (Lz4Stream_new LZ4_Decompress) = (Inr (), new_in (fn_data node))"
    by (simp add: new_in_eq sample_convert_def open_eval numeral_2_eq_2)
  then show ?thesis by (simp add: reads_back_def) (simp add: sample_convert_def disk_def healthy_def unread_def)
qed

theorem generate_converts_witness:
  "\<exists>m' h' files' acore core img m''. gen_run = Some (Inr (), m', h', files') \<and> files' ''acore'' = Some acore \<and>
     decompress counted (sample_convert (fn_data acore)) ''acore'' (Some ''core'') (Coredump_new ARCH_AARCH64 0) Map.empty =
       (Inr (), core, m'') \<and> map_option fn_data (m'' ''core'') = Some img \<and> elf_core_of ARCH_AARCH64 img \<and> length (elf_phdrs img) = 2"
proof -
  obtain m' h' files' node where g: "gen_run = Some (Inr (), m', h', files')" "files' ''acore'' = Some node" using gen_run_ends by auto
  obtain m2 h2 where P: "capture_point gen_kern ((mon_new 7)\<lparr>m_relay := []\<rparr>) [] = Some (7, m2, h2)" "m_thrd m2 = [7]" by (rule gen_premises)
  let ?env = "sample_convert (fn_data node)"
  have r: "reads_back counted ?env ''acore'' (files' ''acore'')" using g(2) sample_reads by simp
  have z: "sample_setup = setup_at gen_kern ARCH_AARCH64 7 h2" "sample_core = capture_core (Coredump_new ARCH_AARCH64 7) (m_thrd m2)"
    by (simp_all only: gen_setup gen_core P(2))
  have m: "m_tids (mon_new 7) = []" "0 < m_pid (mon_new 7)" "pd_threads (c_process (Coredump_new ARCH_AARCH64 0)) = []"
    by (simp_all add: mon_new_def Coredump_new_def ProcessData_new_def)
  from generate_converts [OF counted_ok sample_facts(2) gen_kern_simps(5) m(1,2) gen_host g(1) [unfolded gen_run_def] P(1) z
      sample_setup_facts(1-3) r sample_converter m(3)]
  obtain maps mem sp img core where R: "decompress counted ?env ''acore'' (Some ''core'') (Coredump_new ARCH_AARCH64 0) Map.empty =
      (Inr (), cleanup_decompress core, Map.empty(''core'' := Some ((fresh_node (fst (cv_fresh ?env)) (snd (cv_fresh ?env)))\<lparr>fn_data := img\<rparr>)))"
    "source_maps (k_capture gen_kern h2) sample_core 7 = Inr maps"
    "core_shows (undisturbed mem \<and> readable_maps (mf_byte mem) maps) ARCH_AARCH64 (mf_byte mem) maps sp img" by blast
  have "maps = [sample_region]" using R(2) sample_source_maps by simp
  with R(3) have "elf_core_of ARCH_AARCH64 img" "length (elf_phdrs img) = 2" using core_shows_one by blast+
  with g R(1) show ?thesis by (intro exI conjI) (assumption | simp)+
qed

section \<open>What stays attached\<close>

text \<open>
  C2: A dump gives the target back. However \<^verbatim>\<open>generate\<close> ends - success, a thread that
  cannot be attached, a listing that fails, a thread that dies under the tracer, an error of
  any stage of the writing or of the commit - a thread that was not attached before and is
  attached afterwards is one whose detach the kernel has refused with an error, and that after
  its last attach: every other thread that was attached has been detached with success or
  reported its end. And when \<^verbatim>\<open>generate\<close> reports success, then either that refusal was \<^verbatim>\<open>ESRCH\<close>
  and \<^verbatim>\<open>/proc\<close>, asked right after it, said that the thread is gone or traced by another
  process; or it is a thread whose attach was granted, but which could not be stopped. So a
  captured thread that Arthur still owns is never passed over. (Assumed: \<^verbatim>\<open>waitpid\<close> itself does
  not fail with \<^verbatim>\<open>ESRCH\<close>.)
\<close>

theorem generate_releases:
  assumes "wait_errors K" "m_tids m = []" "0 < m_pid m"
    and "generate K cdc os fresh info fd platform c m path h files = Some (r, m', h', files')" "attached t h'"
  shows "attached t h \<or> (\<exists>e. refused K e t h') \<and> (r = Inr () \<longrightarrow> disowned K t h' \<or> unstoppable K t h')"
  using generate_clear [OF assms(1-4) clear_free] assms(5) by (auto simp: clear_def)

lemma gen_refused: "\<not> refused gen_kern e t h"
  by (simp add: refused_def gen_kern_def sim_kern_def)

theorem generate_releases_witness:
  "\<exists>m2 h2 m' h' files'. capture_point gen_kern ((mon_new 7)\<lparr>m_relay := []\<rparr>) [] = Some (7, m2, h2) \<and> attached 7 h2 \<and>
     gen_run = Some (Inr (), m', h', files') \<and> (\<forall>t. \<not> attached t h')"
proof -
  obtain m2 h2 where P: "capture_point gen_kern ((mon_new 7)\<lparr>m_relay := []\<rparr>) [] = Some (7, m2, h2)" "attached 7 h2" by (rule gen_premises)
  obtain m' h' files' where g: "gen_run = Some (Inr (), m', h', files')" using gen_run_ends by auto
  have m: "m_tids (mon_new 7) = []" "0 < m_pid (mon_new 7)" by (simp_all add: mon_new_def)
  have "\<not> attached t h'" for t using generate_releases [OF gen_kern_simps(5) m g [unfolded gen_run_def]] gen_refused by auto
  with P g show ?thesis by blast
qed

end
