(* ===== verification/ForkProps.thy ===== *)
theory ForkProps
  imports ForkcoreM GenerateEnd
begin

text \<open>
  The dump through a forked child: whatever fails, every thread is released or the kernel
  has refused to release it.
\<close>

section \<open>Operations that attach nothing\<close>

text \<open>The history after an operation that makes no \<^verbatim>\<open>PTRACE_ATTACH\<close>.\<close>

inductive keeps :: "history \<Rightarrow> history \<Rightarrow> bool" where
  keeps_refl [simp, intro!]: "keeps h h"
| keeps_Cons: "keeps h h' \<Longrightarrow> (\<forall>t ok. e \<noteq> Ctl t ATTACH ok) \<Longrightarrow> keeps h (e # h')"

inductive_cases keeps_ConsE: "keeps h (e # h')"

named_theorems keeps_fwd \<open>an operation attaches nothing\<close>

lemma keeps_events [simp]:
  "keeps h h' \<Longrightarrow> keeps h (Asked # h')" "keeps h h' \<Longrightarrow> keeps h (Slept # h')" "keeps h h' \<Longrightarrow> keeps h (Waited p s # h')"
  "keeps h h' \<Longrightarrow> keeps h (Killed p sig ok # h')" "keeps h h' \<Longrightarrow> keeps h (Wrote p a bs n # h')"
  "keeps h h' \<Longrightarrow> req \<noteq> ATTACH \<Longrightarrow> keeps h (Ctl p req ok # h')"
  by (auto intro: keeps_Cons)

lemma keeps_append: "keeps h h' \<Longrightarrow> \<exists>xs. h' = xs @ h \<and> (\<forall>t ok. Ctl t ATTACH ok \<notin> set xs)"
proof (induction rule: keeps.induct)
  case (keeps_Cons h h' e)
  then obtain xs where "h' = xs @ h" "\<forall>t ok. Ctl t ATTACH ok \<notin> set xs" by blast
  then show ?case by (intro exI [of _ "e # xs"]) (use keeps_Cons.hyps(2) in auto)
qed simp

lemma keeps_clear: "keeps h h' \<Longrightarrow> clear K x t h \<Longrightarrow> clear K x t h'"
  using keeps_append clear_append by metis

lemma keeps_suffix: "keeps h h' \<Longrightarrow> suffix h h'"
  using keeps_append by (auto simp: suffix_def)

text \<open>
  Each rule takes the equation of a call and moves the fact \<open>keeps g h\<close> to the history after it.
\<close>

lemma sys_ctl_keeps: "sys_ctl K p req h = (r, h') \<Longrightarrow> keeps g h \<Longrightarrow> req \<noteq> ATTACH \<Longrightarrow> keeps g h'"
  by (auto simp: sys_ctl_def Let_def)

lemma requests_keep [keeps_fwd]:
  "sys_ctl K p (DETACH s) h = (r, h') \<Longrightarrow> keeps g h \<Longrightarrow> keeps g h'"
  "sys_ctl K p (SEIZE n) h = (r, h') \<Longrightarrow> keeps g h \<Longrightarrow> keeps g h'"
  "sys_ctl K p (CONT s) h = (r, h') \<Longrightarrow> keeps g h \<Longrightarrow> keeps g h'"
  "sys_ctl K p INTERRUPT h = (r, h') \<Longrightarrow> keeps g h \<Longrightarrow> keeps g h'"
  "sys_ctl K p LISTEN h = (r, h') \<Longrightarrow> keeps g h \<Longrightarrow> keeps g h'"
  "sys_ctl K p (SETOPTIONS n) h = (r, h') \<Longrightarrow> keeps g h \<Longrightarrow> keeps g h'"
  "sys_ctl K p (POKEDATA a w) h = (r, h') \<Longrightarrow> keeps g h \<Longrightarrow> keeps g h'"
  "sys_ctl K p (SETREGS regs) h = (r, h') \<Longrightarrow> keeps g h \<Longrightarrow> keeps g h'"
  "sys_ctl K p (SETXSTATE x) h = (r, h') \<Longrightarrow> keeps g h \<Longrightarrow> keeps g h'"
  by (simp_all add: sys_ctl_keeps)

lemma sys_keeps [keeps_fwd]:
  "sys_kill K p sig h = (q1, h') \<Longrightarrow> keeps g h \<Longrightarrow> keeps g h'"
  "sys_getregs K p h = (q2, h') \<Longrightarrow> keeps g h \<Longrightarrow> keeps g h'"
  "sys_getxstate K p h = (q3, h') \<Longrightarrow> keeps g h \<Longrightarrow> keeps g h'"
  "sys_peek K p a h = (q4, h') \<Longrightarrow> keeps g h \<Longrightarrow> keeps g h'"
  "sys_siginfo K p h = (q5, h') \<Longrightarrow> keeps g h \<Longrightarrow> keeps g h'"
  "sys_eventmsg K p h = (q6, h') \<Longrightarrow> keeps g h \<Longrightarrow> keeps g h'"
  "sys_waitpid K p h = (q7, h') \<Longrightarrow> keeps g h \<Longrightarrow> keeps g h'"
  "sys_waitid K p h = (q8, h') \<Longrightarrow> keeps g h \<Longrightarrow> keeps g h'"
  "sys_write K p a bs h = (q9, h') \<Longrightarrow> keeps g h \<Longrightarrow> keeps g h'"
  "disposition K p sig h = (q10, h') \<Longrightarrow> keeps g h \<Longrightarrow> keeps g h'"
  "trace_ownership K p h = (q11, h') \<Longrightarrow> keeps g h \<Longrightarrow> keeps g h'"
  "task_is_zombie K p h = (q12, h') \<Longrightarrow> keeps g h \<Longrightarrow> keeps g h'"
  "not_ours K p h = (q13, h') \<Longrightarrow> keeps g h \<Longrightarrow> keeps g h'"
  by (auto simp: sys_kill_def sys_ask_defs sys_waitpid_def sys_write_def Let_def disposition_def trace_ownership_def
      task_is_zombie_def not_ours_def)

lemma detach_failed_keeps [keeps_fwd]: "detach_failed K p e h = (r, h') \<Longrightarrow> keeps g h \<Longrightarrow> keeps g h'"
  by (auto simp: detach_failed_def split: if_splits prod.splits option.splits bool.splits; ((drule (1) keeps_fwd)+)?; simp)

lemma pt_detach_keeps [keeps_fwd]: "pt_detach K p sig h = (r, h') \<Longrightarrow> keeps g h \<Longrightarrow> keeps g h'"
  by (auto simp: pt_detach_def split: if_splits prod.splits sum.splits; ((drule (1) keeps_fwd)+)?; simp)

lemma pt_setregs_keeps [keeps_fwd]: "pt_setregs K p regs h = (r, h') \<Longrightarrow> keeps g h \<Longrightarrow> keeps g h'"
  by (auto simp: pt_setregs_def split: if_splits prod.splits sum.splits; ((drule (1) keeps_fwd)+)?; simp)

lemma snd_keeps [simp]:
  "keeps g h \<Longrightarrow> keeps g (snd (pt_setregs K p regs h))" "keeps g h \<Longrightarrow> keeps g (snd (pt_detach K p sig h))"
  "keeps g h \<Longrightarrow> keeps g (snd (sys_getregs K p h))" "req \<noteq> ATTACH \<Longrightarrow> keeps g h \<Longrightarrow> keeps g (snd (sys_ctl K p req h))"
  by (metis pt_setregs_keeps prod.collapse, metis pt_detach_keeps prod.collapse, simp add: sys_getregs_def,
      simp add: sys_ctl_def Let_def)

lemma skip_keeps [simp]: "keeps g h \<Longrightarrow> keeps g (pt_child_skip_int3 K p page off h)"
  by (auto simp: pt_child_skip_int3_def split: prod.splits sum.splits; ((drule (1) keeps_fwd)+)?; simp)

lemma reap_killed_keeps [keeps_fwd]: "reap_killed K p n h = (r, h') \<Longrightarrow> keeps g h \<Longrightarrow> keeps g h'"
proof (induction n arbitrary: h)
  case (Suc n)
  obtain w h1 where w: "sys_waitpid K p h = (w, h1)" by fastforce
  have g1: "keeps g h1" using w Suc.prems(2) by (rule sys_keeps)
  obtain x h2 where x: "sys_ctl K p (CONT SIGKILL) h1 = (x, h2)" by fastforce
  have g2: "keeps g h2" using x g1 by (rule requests_keep)
  show ?case using Suc.prems(1) Suc.IH [OF _ g1] Suc.IH [OF _ g2] Suc.IH [OF _ keeps_events(2) [OF g1]] g1 g2
    by (auto simp: w x split: if_splits sum.splits option.splits)
qed simp

lemma pt_terminate_keeps [keeps_fwd]: "pt_terminate_tracee K p h = (r, h') \<Longrightarrow> keeps g h \<Longrightarrow> keeps g h'"
  by (auto simp: pt_terminate_tracee_def kill_and_reap_def split: if_splits prod.splits sum.splits bool.splits;
      ((drule (1) keeps_fwd)+)?; simp)

lemma pt_write_keeps [keeps_fwd]: "pt_write K p a bs h = (r, h') \<Longrightarrow> keeps g h \<Longrightarrow> keeps g h'"
  by (auto simp: pt_write_def split: if_splits prod.splits sum.splits; ((drule (1) keeps_fwd)+)?; simp)

lemma is_default_snapshot_exit_keeps [keeps_fwd]: "is_default_snapshot_exit K p c h = (r, h') \<Longrightarrow> keeps g h \<Longrightarrow> keeps g h'"
  by (auto simp: is_default_snapshot_exit_def Let_def split: if_splits prod.splits sum.splits; ((drule (1) keeps_fwd)+)?; simp)

lemma probe_keeps [keeps_fwd]:
  "probe_siginfo K p h = (s, h') \<Longrightarrow> keeps g h \<Longrightarrow> keeps g h'"
  "probe_crash_stop K p h = (s, h') \<Longrightarrow> keeps g h \<Longrightarrow> keeps g h'"
proof -
  show p: "probe_siginfo K p h = (s, h') \<Longrightarrow> keeps g h \<Longrightarrow> keeps g h'" for h
    by (auto simp: probe_siginfo_def split: prod.splits sum.splits; ((drule (1) keeps_fwd)+)?; simp)
  show "probe_crash_stop K p h = (s, h') \<Longrightarrow> keeps g h \<Longrightarrow> keeps g h'"
    by (auto simp: probe_crash_stop_def Let_def split: prod.splits sum.splits option.splits if_splits;
        ((drule (1) keeps_fwd p)+)?; simp)
qed

lemma wait_loop_keeps: "wait_loop K p t0 h = Some r \<Longrightarrow> keeps g h \<longrightarrow> keeps g (snd r)"
proof (induction rule: wait_loop.raw_induct [rotated, consumes 1, case_names Step])
  case (Step wl K p t0 h r)
  obtain w h1 where w: "sys_waitpid K p h = (w, h1)" by fastforce
  have "keeps g h \<Longrightarrow> keeps g h1" using w by (rule sys_keeps)
  then show ?case using Step(2) Step(1) [of K p t0 h1] Step(1) [of K p t0 "Slept # h1"]
    by (auto simp: w split: if_splits sum.splits option.splits)
qed

lemma pt_wait_keeps [keeps_fwd]: "pt_wait K p h = Some (r, h') \<Longrightarrow> keeps g h \<Longrightarrow> keeps g h'"
  using wait_loop_keeps [of K p _ h "(r, h')" g] by (simp add: pt_wait_def)

lemma pt_stop_keeps [keeps_fwd]: "pt_stop_if_running K p h = Some (r, h') \<Longrightarrow> keeps g h \<Longrightarrow> keeps g h'"
  by (auto simp: pt_stop_if_running_def split: prod.splits sum.splits; ((drule (1) keeps_fwd)+)?; simp)

lemma verdict_keeps [keeps_fwd]:
  "fork_event K p s out h = (v, out', h') \<Longrightarrow> keeps g h \<Longrightarrow> keeps g h'"
  "stop_verdict K p c s out h = (v, out', h') \<Longrightarrow> keeps g h \<Longrightarrow> keeps g h'"
proof -
  show f: "fork_event K p s out h = (v, out', h') \<Longrightarrow> keeps g h \<Longrightarrow> keeps g h'" for h
    by (auto simp: fork_event_def split: if_splits prod.splits sum.splits; ((drule (1) keeps_fwd)+)?; simp)
  have c: "crash_verdict K p h = (v, h') \<Longrightarrow> keeps g h \<Longrightarrow> keeps g h'" for v h'
    by (auto simp: crash_verdict_def split: prod.splits sum.splits; ((drule (1) keeps_fwd)+)?; simp)
  show "stop_verdict K p c s out h = (v, out', h') \<Longrightarrow> keeps g h \<Longrightarrow> keeps g h'"
    by (auto simp: stop_verdict_def Let_def split: if_splits prod.splits; ((drule (1) keeps_fwd f c)+)?; simp)
qed

lemma inject_loop_keeps: "inject_loop K p c t0 s out h = Some r \<Longrightarrow> keeps g h \<longrightarrow> keeps g (snd (snd r))"
proof (induction rule: inject_loop.raw_induct [rotated, consumes 1, case_names Step])
  case (Step il K p c t0 s out h r)
  show ?case
  proof
    assume h: "keeps g h"
    have IH: "il K p c t0 s o1 b = Some y \<Longrightarrow> keeps g b \<Longrightarrow> keeps g (snd (snd y))" for s o1 b y using Step(1) by blast
    obtain v out1 h1 where v: "stop_verdict K p c s out h = (v, out1, h1)" by (metis prod.exhaust)
    obtain x h2 where x: "sys_ctl K p (CONT 0) h1 = (x, h2)" by fastforce
    have h1: "keeps g h1" using v h by (rule verdict_keeps)
    have h2: "keeps g h2" using x h1 by (rule requests_keep)
    show "keeps g (snd (snd r))"
      using Step(2) h1 h2 h
      by - (auto simp: v x Let_def split: if_splits verdict.splits sum.splits option.splits; ((drule (1) keeps_fwd IH)+)?; simp)
  qed
qed

lemma poke_words_keeps [keeps_fwd]: "poke_words K p ws h = (ok, h') \<Longrightarrow> keeps g h \<Longrightarrow> keeps g h'"
proof (induction ws arbitrary: h ok h')
  case (Cons w ws)
  obtain a v where w: "w = (a, v)" by (cases w)
  obtain x h1 where x: "sys_ctl K p (POKEDATA a v) h = (x, h1)" by fastforce
  obtain ok1 h2 where o: "poke_words K p ws h1 = (ok1, h2)" by fastforce
  have "keeps g h1" using x Cons.prems(2) by (rule requests_keep)
  then show ?case using Cons.prems(1) Cons.IH [OF o] by (auto simp: w x o Let_def)
qed simp

lemma peek_words_keeps [keeps_fwd]: "peek_words K p as h = (x, h') \<Longrightarrow> keeps g h \<Longrightarrow> keeps g h'"
proof (induction as arbitrary: h x)
  case (Cons a as)
  obtain w h1 where w: "sys_peek K p a h = (w, h1)" by fastforce
  have "keeps g h1" using w Cons.prems(2) by (rule sys_keeps)
  then show ?case using Cons.prems(1) Cons.IH [of h1] by (auto simp: w split: prod.splits sum.splits)
qed simp

lemma restore_saved_keeps [keeps_fwd]:
  "restore_saved K p sv h = (ok, h') \<Longrightarrow> keeps g h \<Longrightarrow> keeps g h'"
  "call_fail K p sv h = (r, h') \<Longrightarrow> keeps g h \<Longrightarrow> keeps g h'"
proof -
  show r: "restore_saved K p sv h = (ok, h') \<Longrightarrow> keeps g h \<Longrightarrow> keeps g h'" for ok
    by (auto simp: restore_saved_def Let_def split: prod.splits option.splits; ((drule (1) keeps_fwd)+)?; simp)
  show "call_fail K p sv h = (r, h') \<Longrightarrow> keeps g h \<Longrightarrow> keeps g h'"
    by (auto simp: call_fail_def Let_def split: prod.splits; ((drule (1) r)+)?; simp)
qed

lemma prepare_call_keeps [keeps_fwd]: "prepare_call K p f argv h = (ok, sv, out, h') \<Longrightarrow> keeps g h \<Longrightarrow> keeps g h'"
  by (auto simp: prepare_call_def Let_def split: prod.splits sum.splits; ((drule (1) keeps_fwd)+)?; simp)

lemma pt_call_keeps_attached [keeps_fwd]: "pt_call K p f argv c h = Some (r, out, h') \<Longrightarrow> keeps g h \<Longrightarrow> keeps g h'"
proof -
  assume a: "pt_call K p f argv c h = Some (r, out, h')" and h: "keeps g h"
  obtain ok sv o1 h1 where p: "prepare_call K p f argv h = (ok, sv, o1, h1)" by (metis prod.exhaust)
  have h1: "keeps g h1" using p h by (rule prepare_call_keeps)
  have i: "inject_loop K p c t s o1 h1 = Some (b, o2, h2) \<Longrightarrow> keeps g h2" for t s b o2 h2
    using inject_loop_keeps [of K p c t s o1 h1 "(b, o2, h2)" g] h1 by simp
  show ?thesis using a h1
    by - (auto simp: pt_call_def p split: bool.splits prod.splits sum.splits option.splits; (drule i)?; ((drule (1) keeps_fwd)+)?; simp)
qed

section \<open>The target is released\<close>

text \<open>
  Every thread of a list is clear, and as clear as \<open>ok\<close> says; every other one is as it was.
\<close>

definition frees :: "kern \<Rightarrow> bool \<Rightarrow> int list \<Rightarrow> history \<Rightarrow> history \<Rightarrow> bool" where
  "frees K ok tids h h' \<longleftrightarrow> (\<forall>t x. (t \<in> set tids \<longrightarrow> x \<longrightarrow> ok) \<and> (t \<notin> set tids \<longrightarrow> clear K x t h) \<longrightarrow> clear K x t h')"

lemma frees_weaken: "frees K ok tids h h' \<Longrightarrow> (ok' \<Longrightarrow> ok) \<Longrightarrow> frees K ok' tids h h'"
  by (auto simp: frees_def)

lemma keeps_trans: "keeps h1 h2 \<Longrightarrow> keeps h h1 \<Longrightarrow> keeps h h2"
  by (induction rule: keeps.induct) (auto intro: keeps_Cons)

lemma frees_keeps: "keeps h h' \<Longrightarrow> frees K ok tids g h \<Longrightarrow> frees K ok tids g h'"
  by (auto simp: frees_def dest: keeps_clear)

lemma keeps_frees: "keeps g h \<Longrightarrow> frees K ok tids h h' \<Longrightarrow> frees K ok tids g h'"
  by (auto simp: frees_def dest: keeps_clear)

lemma detach_all_keeps [keeps_fwd]: "detach_all K m tids h = (ok, h') \<Longrightarrow> keeps g h \<Longrightarrow> keeps g h'"
proof (induction tids arbitrary: h ok)
  case (Cons p tids)
  obtain r h1 where d: "pt_detach K p (relay_of m p) h = (r, h1)" by fastforce
  obtain ok1 h2 where o: "detach_all K m tids h1 = (ok1, h2)" by fastforce
  have "keeps g h1" using d Cons.prems(2) by (rule pt_detach_keeps)
  moreover have "h2 = h'" using Cons.prems(1) by (simp add: d o Let_def)
  ultimately show ?case using Cons.IH o by simp
qed simp

lemma detach_all_frees: "detach_all K m tids h = (ok, h') \<Longrightarrow> keeps g h \<Longrightarrow> frees K ok tids g h'"
proof -
  assume d: "detach_all K m tids h = (ok, h')" and g: "keeps g h"
  have "clear K x t h'" if "t \<in> set tids" "x \<longrightarrow> ok" for t x
    by (rule clear_weaken [of K ok]) (use detach_all_clear [OF d] that in auto)
  then show "frees K ok tids g h'" using detach_all_clear [OF d] keeps_clear [OF g] unfolding frees_def by blast
qed

lemma restore_frees:
  "restore_target_after_fail K m h = (m', h') \<Longrightarrow> keeps g h \<Longrightarrow> m_tids m = [] \<Longrightarrow> frees K False (m_thrd m) g h'"
  using detach_all_frees [of K m "m_thrd m" h _ h' g]
  by (cases "detach_all K m (m_thrd m) h") (auto simp: restore_target_after_fail_def intro: frees_weaken)

lemma restore_simps [simp]:
  "m_tids m = [] \<Longrightarrow> restore_target_after_fail K m h = (m', h') \<Longrightarrow> m' = m\<lparr>m_thrd := [], m_relay := []\<rparr>"
  by (simp add: restore_target_after_fail_def)

lemma restore_pid: "restore_target_after_fail K m h = (m', h') \<Longrightarrow> m_tids m = [] \<Longrightarrow> m_pid m' = m_pid m"
  by (auto simp: restore_target_after_fail_def)

lemma implausible_keeps [keeps_fwd]: "implausible_page K page m h = (b, m', h') \<Longrightarrow> keeps g h \<Longrightarrow> keeps g h'"
  by (auto simp: implausible_page_def arthur_max_user_va_def Let_def split: if_splits)

lemma implausible_mon:
  "implausible_page K page m h = (b, m', h') \<Longrightarrow> m_thrd m' = m_thrd m \<and> m_tids m' = m_tids m \<and> m_pid m' = m_pid m"
  by (auto simp: implausible_page_def arthur_max_user_va_def Let_def split: if_splits)

text \<open>A dump that is given up has freed the target; one that goes on has left it as it was.\<close>

definition same_target :: "mon \<Rightarrow> mon \<Rightarrow> bool" where
  "same_target m m' \<longleftrightarrow> m_thrd m' = m_thrd m \<and> m_tids m' = m_tids m \<and> m_pid m' = m_pid m"

lemma inject_abort_frees:
  "inject_abort K saved sig m h = (m', h') \<Longrightarrow> keeps g h \<Longrightarrow> m_tids m = [] \<Longrightarrow> frees K False (m_thrd m) g h' \<and> m_pid m' = m_pid m"
  by (auto simp: inject_abort_def Let_def split: prod.splits if_splits; ((drule (1) keeps_fwd)+)?;
      frule (1) restore_frees; force dest: restore_simps [rotated])

lemma inject_undo_frees:
  "inject_undo K saved m h = (m', h') \<Longrightarrow> keeps g h \<Longrightarrow> m_tids m = [] \<Longrightarrow> frees K False (m_thrd m) g h' \<and> m_pid m' = m_pid m"
  by (auto simp: inject_undo_def Let_def split: prod.splits if_splits; ((drule (1) keeps_fwd)+)?;
      frule (1) restore_frees; force dest: restore_simps [rotated])

lemma inject_mmap_frees:
  assumes "inject_mmap K f saved m h = Some (p, m', h')" "keeps g h" "m_tids m = []"
  shows "p = None \<Longrightarrow> frees K False (m_thrd m) g h'" "p \<noteq> None \<Longrightarrow> keeps g h' \<and> same_target m m'" "m_pid m' = m_pid m"
proof -
  obtain r out h1 where c: "pt_call K (m_pid m) f MMAP_ARGS 0 h = Some (r, out, h1)"
    using assms(1) by (auto simp: inject_mmap_def split: option.splits)
  have k: "keeps g h1" using c assms(2) by (rule pt_call_keeps_attached)
  have "(p = None \<longrightarrow> frees K False (m_thrd m) g h') \<and> (p \<noteq> None \<longrightarrow> keeps g h' \<and> same_target m m') \<and> m_pid m' = m_pid m"
  proof (cases r)
    case (Called regs)
    obtain b m1 h2 where b: "implausible_page K (get_rc regs) m h1 = (b, m1, h2)" by (metis prod.exhaust)
    have k2: "keeps g h2" using b k by (rule implausible_keeps)
    note M = implausible_mon [OF b]
    show ?thesis
    proof (cases b)
      case True
      then have u: "p = None" "inject_undo K saved m1 h2 = (m', h')" using assms(1) b by (auto simp: inject_mmap_def c Called)
      show ?thesis using inject_undo_frees [OF u(2) k2] u(1) M assms(3) by simp
    next
      case False
      then show ?thesis using assms(1) b k2 M by (auto simp: inject_mmap_def c Called same_target_def)
    qed
  qed (use assms(1) in \<open>auto simp: inject_mmap_def c dest!: inject_abort_frees [OF _ k assms(3)]\<close>)
  then show "p = None \<Longrightarrow> frees K False (m_thrd m) g h'" "p \<noteq> None \<Longrightarrow> keeps g h' \<and> same_target m m'" "m_pid m' = m_pid m" by auto
qed

lemma inject_fork_frees:
  assumes "inject_fork K sc sys_core page saved m h = Some (p, m', h')" "keeps g h" "m_tids m = []"
  shows "p = None \<Longrightarrow> frees K False (m_thrd m) g h'" "p \<noteq> None \<Longrightarrow> keeps g h' \<and> m' = m" "m_pid m' = m_pid m"
proof -
  obtain w h1 where w: "pt_write K (m_pid m) page (sc_code sc) h = (w, h1)" by fastforce
  have k1: "keeps g h1" using w assms(2) by (rule pt_write_keeps)
  have "(p = None \<longrightarrow> frees K False (m_thrd m) g h') \<and> (p \<noteq> None \<longrightarrow> keeps g h' \<and> m' = m) \<and> m_pid m' = m_pid m"
  proof (cases w)
    case (Inl e)
    then show ?thesis using assms(1) by (auto simp: inject_fork_def w dest!: inject_undo_frees [OF _ k1 assms(3)])
  next
    case (Inr u)
    obtain r out h2 where c: "pt_call K (m_pid m) page [] 0 h1 = Some (r, out, h2)"
      using assms(1) Inr by (auto simp: inject_fork_def w split: option.splits)
    have k2: "keeps g h2" using c k1 by (rule pt_call_keeps_attached)
    note U = inject_undo_frees [OF _ _ assms(3), where g = g] and A = inject_abort_frees [OF _ _ assms(3), where g = g]
    have T: "keeps g h \<Longrightarrow> keeps g (snd (pt_terminate_tracee K child h))" for child h
      by (metis pt_terminate_keeps prod.collapse)
    show ?thesis
    proof (cases r)
      case (Called regs)
      let ?child = "as_pid (get_rc regs)"
      obtain q h3 where q: "sys_ctl K ?child (POKEDATA (co_rsp out) (co_word out)) h2 = (q, h3)" by fastforce
      have k3: "keeps g h3" using q k2 by (rule requests_keep)
      show ?thesis using assms(1) k2 k3
        by (auto simp: inject_fork_def w Inr c Called q Let_def T split: if_splits sum.splits dest!: U)
    qed (use assms(1) k2 in \<open>auto simp: inject_fork_def w Inr c T split: if_splits dest!: A\<close>)
  qed
  then show "p = None \<Longrightarrow> frees K False (m_thrd m) g h'" "p \<noteq> None \<Longrightarrow> keeps g h' \<and> m' = m" "m_pid m' = m_pid m" by auto
qed

lemma inject_munmap_keeps [keeps_fwd]: "inject_munmap K f page m h = Some (sig, h') \<Longrightarrow> keeps g h \<Longrightarrow> keeps g h'"
  by (auto simp: inject_munmap_def split: option.splits prod.splits call_result.splits if_splits; ((drule (1) keeps_fwd)+)?; simp)

lemma end_child_keeps [keeps_fwd]: "end_child K sys_core child h = (ok, h') \<Longrightarrow> keeps g h \<Longrightarrow> keeps g h'"
  by (auto simp: end_child_def split: prod.splits if_splits; ((drule (1) keeps_fwd)+)?; simp)

lemma snd_end_child_keeps: "keeps g h \<Longrightarrow> keeps g (snd (end_child K sys_core child h))"
  by (metis end_child_keeps prod.collapse)

lemma fork_release_frees:
  assumes "fork_release K sys_core child saved sig m h = (ok, m', h')" "keeps g h" "m_tids m = []"
  shows "frees K ok (m_thrd m) g h' \<and> m_pid m' = m_pid m"
proof -
  obtain r h1 where r: "pt_setregs K (m_pid m) saved h = (r, h1)" by fastforce
  have k1: "keeps g h1" using r assms(2) by (rule pt_setregs_keeps)
  show ?thesis
  proof (cases r)
    case (Inl e)
    then have "ok = False" "restore_target_after_fail K m (snd (end_child K sys_core child h1)) = (m', h')"
      using assms(1) by (auto simp: fork_release_def r)
    then show ?thesis using restore_frees [OF _ snd_end_child_keeps [OF k1] assms(3)] restore_pid [OF _ assms(3)] by simp
  next
    case (Inr u)
    let ?m = "if sig \<noteq> 0 then set_relay (m_pid m) sig m else m"
    obtain d h2 where d: "detach_all K ?m (m_thrd m) h1 = (d, h2)" by fastforce
    have f: "frees K d (m_thrd m) g h2" using d k1 by (rule detach_all_frees)
    have "h' = h2 \<or> h' = snd (end_child K sys_core child h2)" "m_pid m' = m_pid m" "ok = d"
      using assms(1) by (auto simp: fork_release_def r Inr Let_def d split: if_splits)
    then show ?thesis using f frees_keeps [OF snd_end_child_keeps [OF keeps_refl] f] by auto
  qed
qed

lemma fork_target_frees:
  assumes "fork_target K sc sys_core syms m h = Some (p, m', h')" "keeps g h" "m_tids m = []"
  shows "frees K (p \<noteq> None) (m_thrd m) g h' \<and> m_pid m' = m_pid m"
proof -
  obtain o1 h1 where o: "(if sys_core then (Inr (), h) else sys_ctl K (m_pid m) (SETOPTIONS (m_options m OR TRACEFORK)) h) = (o1, h1)"
    by fastforce
  have k1: "keeps g h1" using o assms(2) by (auto split: if_splits dest: requests_keep)
  note give_up = restore_frees [OF _ _ assms(3), where g = g] and pid = restore_pid [OF _ assms(3)]
  obtain s h2 where s: "sys_getregs K (m_pid m) h1 = (s, h2)" by fastforce
  have k2: "keeps g h2" using s k1 by (rule sys_keeps)
  show ?thesis
  proof (cases "isl o1 \<or> isl s")
    case True
    then show ?thesis
      using assms(1) k1 k2 by (cases o1; cases s) (auto simp: fork_target_def Let_def o s dest: give_up pid)
  next
    case False
    then obtain saved where o1: "o1 = Inr ()" and saved: "s = Inr saved" by (cases o1; cases s) auto
    obtain p1 m1 h3 where i: "inject_mmap K (fst syms) saved m h2 = Some (p1, m1, h3)"
      using assms(1) by (auto simp: fork_target_def Let_def o s o1 saved split: option.splits)
    note I = inject_mmap_frees [OF i k2 assms(3)]
    show ?thesis
    proof (cases p1)
      case None
      then show ?thesis using assms(1) I by (auto simp: fork_target_def Let_def o s o1 saved i)
    next
      case (Some page)
      have m1: "keeps g h3" "m_tids m1 = []" "m_thrd m1 = m_thrd m" "m_pid m1 = m_pid m"
        using I(2) Some assms(3) by (auto simp: same_target_def)
      obtain p2 m2 h4 where j: "inject_fork K sc sys_core page saved m1 h3 = Some (p2, m2, h4)"
        using assms(1) by (auto simp: fork_target_def Let_def o s o1 saved i Some split: option.splits)
      note J = inject_fork_frees [OF j m1(1,2)]
      show ?thesis
      proof (cases p2)
        case None
        then show ?thesis using assms(1) J m1 by (auto simp: fork_target_def Let_def o s o1 saved i Some j)
      next
        case child: (Some child)
        obtain sig h5 where u: "inject_munmap K (fst (snd syms)) page m2 h4 = Some (sig, h5)"
          using assms(1) by (auto simp: fork_target_def Let_def o s o1 saved i Some j child split: option.splits)
        have k5: "keeps g h5" "m2 = m1" using inject_munmap_keeps [OF u] J(2) child by auto
        obtain ok where rel: "fork_release K sys_core child saved sig m2 h5 = (ok, m', h')" "p = (if ok then Some (child, page) else None)"
          using assms(1) by (auto simp: fork_target_def Let_def o s o1 saved i Some j child u split: prod.splits)
        from fork_release_frees [OF rel(1) k5(1)] show ?thesis using k5(2) m1 rel(2) by (cases ok) simp_all
      qed
    qed
  qed
qed

section \<open>The child is waited for\<close>

lemma pt_detach_frees: "pt_detach K p sig h = (r, h') \<Longrightarrow> keeps g h \<Longrightarrow> frees K (succeeds r \<or> r = Inl ESRCH) [p] g h'"
proof -
  assume d: "pt_detach K p sig h = (r, h')" and g: "keeps g h"
  have "clear K x p h'" if "x \<longrightarrow> succeeds r \<or> r = Inl ESRCH" for x
    by (rule clear_weaken [OF pt_detach_clear [OF d]]) (use that in blast)
  then show ?thesis using pt_detach_keeps_clear [OF d] keeps_clear [OF g] by (auto simp: frees_def)
qed

text \<open>A successful release ends in a detach that went well.\<close>

definition released :: "kern \<Rightarrow> bool \<Rightarrow> int \<Rightarrow> history \<Rightarrow> history \<Rightarrow> bool" where
  "released K ok p g h' \<longleftrightarrow> (\<exists>sig h d. pt_detach K p sig h = (d, h') \<and> keeps g h \<and> (ok \<longrightarrow> succeeds d \<or> d = Inl ESRCH))"

lemma releasedI:
  "pt_detach K p sig h = (d, h') \<Longrightarrow> keeps g h \<Longrightarrow> (ok \<longrightarrow> succeeds d \<or> d = Inl ESRCH) \<Longrightarrow> released K ok p g h'"
  unfolding released_def by blast

lemma released_frees: "released K ok p g h' \<Longrightarrow> frees K ok [p] g h'"
  unfolding released_def using frees_weaken [OF pt_detach_frees] by blast

lemma reap_call_released:
  assumes "reap_call K sys_core f p child saved h = Some (ok, h')" "keeps g h"
  shows "released K ok p g h'"
proof -
  have f: "\<lbrakk>pt_setregs K p saved h0 = (r, h1); pt_detach K p sig h1 = (d, h'); keeps g h0; ok = (succeeds r \<and> (succeeds d \<or> d = Inl ESRCH))\<rbrakk> \<Longrightarrow>
      released K ok p g h'" for h0 h1 r sig d
    by (rule releasedI [of K p sig h1 d]) (auto dest: pt_setregs_keeps)
  show ?thesis
  proof (cases "regs_has_restart_return saved")
    case True
    obtain r h1 d h2 where e: "pt_setregs K p saved h = (r, h1)" "pt_detach K p 0 h1 = (d, h2)" by fastforce
    then show ?thesis using assms True f [OF e(1) _ assms(2), of 0 d] by (simp add: reap_call_def Let_def)
  next
    case False
    obtain r out h1 where c: "pt_call K p f [word_of_int child, 0, 0] (if sys_core then 0 else child) h = Some (r, out, h1)"
      using assms(1) False by (auto simp: reap_call_def Let_def split: option.splits)
    have k: "keeps g h1" using c assms(2) by (rule pt_call_keeps_attached)
    obtain s h2 where s: "(if co_signal out = 0 then probe_crash_stop K p h1 else (co_signal out, h1)) = (s, h2)" by fastforce
    have k2: "keeps g h2" using s k by (auto split: if_splits dest: probe_keeps)
    have "\<exists>sig h0. keeps g h0 \<and> (let (r, h1) = pt_setregs K p saved h0; (d, h2) = pt_detach K p sig h1
        in Some (succeeds r \<and> (succeeds d \<or> d = Inl ESRCH), h2)) = Some (ok, h')"
      using assms(1) False k k2 by (cases r) (auto simp: reap_call_def Let_def c s)
    then obtain sig h0 where h0: "keeps g h0" "(let (r, h1) = pt_setregs K p saved h0; (d, h2) = pt_detach K p sig h1
        in Some (succeeds r \<and> (succeeds d \<or> d = Inl ESRCH), h2)) = Some (ok, h')" by blast
    obtain r2 h3 d h4 where e: "pt_setregs K p saved h0 = (r2, h3)" "pt_detach K p sig h3 = (d, h4)" by fastforce
    then show ?thesis using f [OF e(1) _ h0(1), of sig d] h0(2) by simp
  qed
qed

lemma reap_child_clear:
  assumes W: "wait_errors K" and r: "reap_child K sys_core f p child h = Some (ok, h')" and t: "clear K x t h" "x \<Longrightarrow> ok"
  shows "clear K x t h'"
proof -
  obtain y h1 where y: "pt_attach K p h = Some (y, h1)" using r by (auto simp: reap_child_def Let_def split: option.splits)
  note A = pt_attach_clear [OF W y t(1)]
  show ?thesis
  proof (cases y)
    case (Inl e)
    then show ?thesis using r y A by (auto simp: reap_child_def Let_def)
  next
    case (Inr relay)
    obtain e h2 where e: "(if relay \<noteq> 0 \<and> \<not> sys_core \<and> relay = SIGCHLD then is_default_snapshot_exit K p child h1 else (False, h1)) = (e, h2)"
      by fastforce
    have k2: "keeps h1 h2" using e by (auto split: if_splits dest: is_default_snapshot_exit_keeps)
    obtain s h3 where s: "sys_getregs K p h2 = (s, h3)" by fastforce
    have k3: "keeps h1 h3" using s k2 by (rule sys_keeps)
    have f: "released K ok p h1 h'" if "(let (d, h1) = pt_detach K p sig g in Some (succeeds d \<or> d = Inl ESRCH, h1)) = Some (ok, h')" "keeps h1 g" for sig g
    proof -
      obtain d h4 where d: "pt_detach K p sig g = (d, h4)" by fastforce
      show ?thesis by (rule releasedI [of K p sig g d]) (use that d in auto)
    qed
    have "released K ok p h1 h'"
    proof (cases "relay \<noteq> 0 \<and> \<not> e")
      case True
      show ?thesis by (rule f [OF _ k2, of relay])
        (use r [unfolded reap_child_def y Inr e Let_def option.case sum.case prod.case] True in \<open>simp add: Let_def\<close>)
    next
      case False
      note run = r [unfolded reap_child_def y Inr e s Let_def option.case sum.case prod.case]
      show ?thesis
      proof (cases s)
        case Inl
        show ?thesis by (rule f [OF _ k3, of 0]) (use run False Inl in \<open>auto simp: Let_def\<close>)
      next
        case (Inr saved)
        then show ?thesis using run False reap_call_released [OF _ k3] by auto
      qed
    qed
    then have "frees K ok [p] h1 h'" by (rule released_frees)
    then show ?thesis using A t(2) by (auto simp: frees_def)
  qed
qed


section \<open>A dump frees the target\<close>

lemma fork_collect_clear:
  assumes W: "wait_errors K" and m: "m_tids m = []" and pid: "0 < m_pid m" and c: "fork_collect K m h = Some (ok, m', h')"
  shows "\<not> ok \<Longrightarrow> clear K True t h \<Longrightarrow> clear K False t h'"
    "ok \<Longrightarrow> clear K x t h \<Longrightarrow> clear K x t h' \<or> t \<in> set (m_thrd m')"
    "ok \<Longrightarrow> m_tids m' = [] \<and> distinct (m_thrd m') \<and> m_pid m \<in> set (m_thrd m') \<and> thread_set_complete K (m_pid m) (m_pid m) m' h h'"
proof -
  obtain y h1 where y: "pt_attach K (m_pid m) h = Some (y, h1)" using c by (auto simp: fork_collect_def Let_def split: option.splits)
  note A = pt_attach_clear [OF W y, of x t]
  have "(\<not> ok \<longrightarrow> clear K x t h \<longrightarrow> clear K False t h') \<and> (ok \<longrightarrow> clear K x t h \<longrightarrow> clear K x t h' \<or> t \<in> set (m_thrd m')) \<and>
    (ok \<longrightarrow> m_tids m' = [] \<and> distinct (m_thrd m') \<and> m_pid m \<in> set (m_thrd m') \<and> thread_set_complete K (m_pid m) (m_pid m) m' h h')" for x
  proof (cases y)
    case (Inl e)
    then show ?thesis using c y pt_attach_clear [OF W y, of x t] clear_weaken [of K x t h' False] by (auto simp: fork_collect_def Let_def)
  next
    case (Inr relay)
    let ?m1 = "if relay \<noteq> 0 then set_relay (m_pid m) relay m else m"
    obtain r m2 h2 where r: "collect_threads K (m_pid m) 0 ?m1 h1 = Some (r, m2, h2)"
      using c Inr by (auto simp: fork_collect_def Let_def y split: option.splits)
    have t: "m_tids ?m1 = []" using m by simp
    have r1: "collect_threads K (m_pid m) (m_pid m) ?m1 h1 = Some (r, m2, h2)" using r pid t by (simp add: collect_threads_def)
    have p0: "m_pid m \<noteq> 0" using pid by simp
    note C = collect_threads_attached [OF W t p0 pt_attach_stops [OF W y [unfolded Inr]] works_suffix [OF pt_attach_works [OF W y]] r1]
    obtain m3 h3 where rs: "restore_target_after_fail K m2 h2 = (m3, h3)" by fastforce
    have T: "distinct (m_thrd m2)" "m_pid m \<in> set (m_thrd m2)" "m_tids m2 = []" "clear K x t h1 \<Longrightarrow> clear K x t h2 \<or> t \<in> set (m_thrd m2)"
      "r = Collected \<Longrightarrow> thread_set_complete K (m_pid m) (m_pid m) m2 h h2"
      using C by blast+
    have f: "frees K False (m_thrd m2) h2 h3" using rs T(3) by (intro restore_frees) auto
    have start: "clear K x t h \<longrightarrow> clear K x t h2 \<or> t \<in> set (m_thrd m2)"
      using pt_attach_clear [OF W y, of x t] T(2,4) by auto
    show ?thesis
    proof (cases ok)
      case True
      then have "r = Collected" "m' = m2" "h' = h2" using c r by (auto simp: fork_collect_def Let_def y Inr split: if_splits)
      then show ?thesis using True T start by simp
    next
      case False
      then have "h' = h3" using c r rs by (auto simp: fork_collect_def Let_def y Inr split: if_splits)
      moreover have "clear K x t h2 \<Longrightarrow> clear K False t h2" using clear_weaken [of K x t h2 False] by simp
      ultimately show ?thesis using False f start by (auto simp: frees_def)
    qed
  qed
  then show "\<not> ok \<Longrightarrow> clear K True t h \<Longrightarrow> clear K False t h'" "ok \<Longrightarrow> clear K x t h \<Longrightarrow> clear K x t h' \<or> t \<in> set (m_thrd m')"
    "ok \<Longrightarrow> m_tids m' = [] \<and> distinct (m_thrd m') \<and> m_pid m \<in> set (m_thrd m') \<and> thread_set_complete K (m_pid m) (m_pid m) m' h h'"
    by blast+
qed

lemma fork_direct_frees:
  "fork_direct K cdc platform maps c m st h = Some (ok, st', m', h') \<Longrightarrow> frees K ok (m_thrd m) h h'"
  by (auto simp: fork_direct_def split: option.splits prod.splits dest: detach_all_frees [OF _ keeps_refl] intro: frees_weaken)

lemma fork_image_clear:
  assumes W: "wait_errors K" and i: "fork_image K cdc platform sc sys_core f cp maps c m st h = Some (ok, st', m', h')"
    and t: "clear K True t h"
  shows "clear K ok t h'"
proof -
  obtain child page where cp: "cp = (child, page)" by (cases cp)
  let ?skip = "pt_child_skip_int3 K child page (sc_exit sc) h"
  obtain e h1 where e: "end_child K sys_core child ?skip = (e, h1)" by fastforce
  have k: "keeps h h1" using e by (rule end_child_keeps) simp
  have t1: "clear K ok t h1" by (rule clear_weaken [OF keeps_clear [OF k t]]) simp
  have "h' = h1 \<or> (\<exists>restored. reap_child K sys_core f (m_pid m) child h1 = Some (restored, h') \<and> (ok \<longrightarrow> restored))"
    using i by (auto simp: fork_image_def cp e Let_def split: option.splits sum.splits prod.splits if_splits)
  then show ?thesis using t1 reap_child_clear [OF W] by blast
qed

lemma snapshot_test_keeps: "fork_snapshot_requires_direct_capture K pid maps h = (b, h') \<Longrightarrow> keeps g h \<Longrightarrow> keeps g h'"
  by (auto simp: fork_snapshot_requires_direct_capture_def split: prod.splits sum.splits if_splits; ((drule (1) keeps_fwd)+)?; simp)

lemma fork_capture_clear:
  assumes W: "wait_errors K" and m: "m_tids m = []" and pid: "0 < m_pid m"
    and c: "fork_capture K cdc platform sc sys_core co m st h = Some (ok, st', m', h')" and t: "clear K True t h"
  shows "clear K ok t h'"
proof -
  obtain b m1 h1 where b: "fork_collect K m h = Some (b, m1, h1)" using c by (auto simp: fork_capture_def split: option.splits)
  note C = fork_collect_clear [OF W m pid b]
  show ?thesis
  proof (cases b)
    case False
    then have "\<not> ok" "h' = h1" using c b by (auto simp: fork_capture_def)
    then show ?thesis using C(1) [OF False t] by simp
  next
    case True
    have bT: "fork_collect K m h = Some (True, m1, h1)" using b True by simp
    have tids: "m_tids m1 = []" using C(3) True by simp
    have done_: "clear K y t h2" if "frees K y (m_thrd m1) h1 h2" for h2 y
    proof -
      have "clear K y t h1" if "t \<notin> set (m_thrd m1)" by (rule clear_weaken [of K True]) (use C(2) [OF True t] that in auto)
      then show ?thesis using that by (auto simp: frees_def)
    qed
    have restore: "frees K False (m_thrd m1) h1 h2" if "restore_target_after_fail K m1 h0 = (m2, h2)" "keeps h1 h0" for m2 h2 h0
      using restore_frees [OF that tids] .
    obtain r c1 st1 where w: "write_meta cdc (k_capture K h1) (k_threads K h1) 0 (\<lambda>_. m_pid m) (capture_core co (m_thrd m1)) st = (r, c1, st1)"
      by (metis prod.exhaust)
    show ?thesis
    proof (cases r)
      case (Inl e)
      then have "\<not> ok" "restore_target_after_fail K m1 h1 = (m', h')" using c b True by (auto simp: fork_capture_def w)
      then show ?thesis using done_ [OF restore [OF _ keeps_refl]] by simp
    next
      case (Inr maps)
      obtain direct h2 where d: "(if sys_core then (False, h1) else fork_snapshot_requires_direct_capture K (m_pid m) maps h1) = (direct, h2)"
        by fastforce
      have k2: "keeps h1 h2" using d by (auto split: if_splits intro: snapshot_test_keeps)
      obtain syms h3 where s: "(if direct then ((0, 0, 0), h2) else inject_symbols K (m_pid m) h2) = (syms, h3)" by fastforce
      have k3: "keeps h1 h3" using s k2 by (auto simp: inject_symbols_def Let_def split: if_splits)
      let ?missing = "fst syms = 0 \<or> fst (snd syms) = 0 \<or> snd (snd syms) = 0"
      note run = c [unfolded fork_capture_def bT option.case prod.case bool.case w Inr sum.case d s Let_def]
      consider "direct \<or> ?missing \<and> \<not> sys_core" | "\<not> direct" "?missing" "sys_core" | "\<not> direct" "\<not> ?missing" by blast
      then show ?thesis
      proof cases
        case 1
        then have "fork_direct K cdc platform maps c1 m1 st1 h3 = Some (ok, st', m', h')" using run True by (simp only: if_True simp_thms bool.case)
        from keeps_frees [OF k3 fork_direct_frees [OF this]] show ?thesis by (rule done_)
      next
        case 2
        then have "\<not> ok" "restore_target_after_fail K m1 h3 = (m', h')" using run by auto
        then show ?thesis using done_ [OF restore [OF _ k3]] by simp
      next
        case 3
        then obtain p m2 h4 where ft: "fork_target K sc sys_core syms m1 h3 = Some (p, m2, h4)"
          using run by (auto split: option.splits)
        have f: "frees K (p \<noteq> None) (m_thrd m1) h1 h4" using fork_target_frees [OF ft k3 tids] by simp
        show ?thesis
        proof (cases p)
          case None
          then have "\<not> ok" "h' = h4" using run 3 ft by auto
          then show ?thesis using done_ [OF f] None by simp
        next
          case (Some cp)
          then have i: "fork_image K cdc platform sc sys_core (snd (snd syms)) cp maps (c1\<lparr>c_core_pid := fst cp\<rparr>) m2 st1 h4 = Some (ok, st', m', h')"
            using run 3 ft by auto
          have "clear K True t h4" using done_ [OF f] Some by simp
          then show ?thesis by (rule fork_image_clear [OF W i])
        qed
      qed
    qed
  qed
qed

lemma forkcore_clear:
  assumes W: "wait_errors K" and m: "m_tids m = []" and pid: "0 < m_pid m"
    and f: "forkcore K cdc os fresh info fd platform sc sys_core co m corefile h files = Some (r, m', h', files')"
    and t: "clear K True t h"
  shows "clear K (r = Inr ()) t h'"
proof -
  obtain z h0 where z: "(if sys_core then (Inr False, h) else task_is_zombie K (m_pid m) h) = (z, h0)" by fastforce
  have k: "keeps h h0" using z by (auto split: if_splits dest: sys_keeps)
  have t0: "clear K True t h0" using keeps_clear [OF k t] .
  show ?thesis
  proof (cases "z = Inr True")
    case True
    then have "generate K cdc os fresh info fd platform co m corefile h0 files = Some (r, m', h', files')"
      using f by (simp add: forkcore_def z)
    from generate_clear [OF W m pid this t0] show ?thesis .
  next
    case False
    let ?m = "m\<lparr>m_relay := []\<rparr>"
    have "r \<noteq> Inr () \<and> h' = h0 \<or>
        (\<exists>st1 ok st2 m1. fork_capture K cdc platform sc sys_core co ?m st1 h0 = Some (ok, st2, m1, h') \<and> (r = Inr () \<longrightarrow> ok))"
      using f False by (auto simp: forkcore_def z Let_def split: prod.splits sum.splits option.splits bool.splits)
    then show ?thesis
    proof
      assume "\<exists>st1 ok st2 m1. fork_capture K cdc platform sc sys_core co ?m st1 h0 = Some (ok, st2, m1, h') \<and> (r = Inr () \<longrightarrow> ok)"
      then obtain st1 ok st2 m1 where c: "fork_capture K cdc platform sc sys_core co ?m st1 h0 = Some (ok, st2, m1, h')" "r = Inr () \<longrightarrow> ok" by blast
      have mm: "m_tids ?m = []" "0 < m_pid ?m" using m pid by simp_all
      show ?thesis by (rule clear_weaken [OF fork_capture_clear [OF W mm c(1) t0]]) (use c(2) in simp)
    qed (use t0 clear_weaken in blast)
  qed
qed
end
