(* ===== verification/ForkEnd.thy ===== *)
theory ForkEnd
  imports ForkProps
begin

text \<open>
  The file of a dump through a forked child is the acore of the target, with the metadata of
  the stopped target and the memory of the child.
\<close>

section \<open>Where the memory comes from\<close>

text \<open>The task whose memory is written, and the history at which that starts.\<close>

definition memory_source ::
    "kern \<Rightarrow> shellcode \<Rightarrow> MemRegion list \<Rightarrow> mon \<Rightarrow> history \<Rightarrow> (int \<times> history) option" where
  "memory_source K sc maps m h =
     (let (direct, h1) = fork_snapshot_requires_direct_capture K (m_pid m) maps h;
          (syms, h2) = (if direct then ((0, 0, 0), h1) else inject_symbols K (m_pid m) h1)
      in if direct \<or> fst syms = 0 \<or> fst (snd syms) = 0 \<or> snd (snd syms) = 0 then Some (m_pid m, h2)
         else
           case fork_target K sc False syms m h2 of
             Some (Some (child, _), _, h3) \<Rightarrow> Some (child, h3)
           | _ \<Rightarrow> None)"

definition fork_point ::
    "kern \<Rightarrow> shellcode \<Rightarrow> core \<Rightarrow> mon \<Rightarrow> history \<Rightarrow> (mon \<times> history \<times> int \<times> history) option" where
  "fork_point K sc c m h =
     (case fork_collect K m h of
        Some (True, m1, h1) \<Rightarrow>
          (case source_maps (k_capture K h1) (capture_core c (m_thrd m1)) (m_pid m) of
             Inr maps \<Rightarrow> (case memory_source K sc maps m1 h1 of Some (src, hm) \<Rightarrow> Some (m1, h1, src, hm) | None \<Rightarrow> None)
           | Inl _ \<Rightarrow> None)
      | _ \<Rightarrow> None)"

section \<open>The acore that is written\<close>

lemma attach_new_pid: "attach_new K tids s h = Some (ok, s', h') \<Longrightarrow> m_pid (snd (snd s')) = m_pid (snd (snd s))"
  by (induction tids arbitrary: s h) (auto simp: Let_def split: if_splits option.splits sum.splits prod.splits)

lemma attach_rounds_pid: "attach_rounds n K leader control s h = Some (r, m', h') \<Longrightarrow> m_pid m' = m_pid (snd (snd s))"
  by (induction n arbitrary: s h)
    (auto simp: Let_def split: if_splits option.splits sum.splits prod.splits bool.splits dest!: attach_new_pid)

lemma fork_collect_pid:
  assumes "fork_collect K m h = Some (True, m', h')" "m_tids m = []"
  shows "m_pid m' = m_pid m"
  using assms by (auto simp: fork_collect_def collect_threads_def Let_def split: option.splits sum.splits if_splits dest!: attach_rounds_pid)

lemma write_regions_core_pid:
  "write_regions cdc rs phs a b fd (c\<lparr>c_core_pid := x\<rparr>) st =
     map_option (\<lambda>(r, c', st'). (r, c'\<lparr>c_core_pid := x\<rparr>, st')) (write_regions cdc rs phs a b fd c st)"
proof (induction rs arbitrary: phs a b fd c st)
  case (Cons r rs)
  show ?case
  proof (cases phs)
    case (Cons ph phs')
    have IH: "write_regions cdc rs phs' a b fd (c\<lparr>c_core_pid := x, c_phdrs := p\<rparr>) st =
        map_option (\<lambda>(r, c', st'). (r, c'\<lparr>c_core_pid := x\<rparr>, st')) (write_regions cdc rs phs' a b fd (c\<lparr>c_phdrs := p\<rparr>) st)"
      for a b fd p st
    proof -
      have "c\<lparr>c_core_pid := x, c_phdrs := p\<rparr> = c\<lparr>c_phdrs := p, c_core_pid := x\<rparr>" by simp
      then show ?thesis by (simp only: Cons.IH)
    qed
    show ?thesis by (auto simp: Cons IH split: option.splits sum.splits prod.splits)
  qed simp
qed simp

lemma WriteElfHeader_core_pid: "WriteElfHeader cdc platform (c\<lparr>c_core_pid := x\<rparr>) st = WriteElfHeader cdc platform c st"
proof -
  have "c_phdrs (c\<lparr>c_core_pid := x\<rparr>) = c_phdrs c" by simp
  then show ?thesis by (simp only: WriteElfHeader_def)
qed

lemma image_as_loads:
  assumes "write_image cdc om platform child maps (c\<lparr>c_core_pid := x\<rparr>) st = Some (Inr (), c2, st2)"
  obtains c' st3 st4 where "WriteLoads cdc (\<lambda>_. om child) control maps c st = Some (Inr (), c', st3)"
    "WriteElfHeader cdc platform c' st3 = (Inr (), st4)" "WriteTailMark cdc st4 = (Inr (), st2)"
proof -
  obtain ce st3 st4 where W: "WriteLoads cdc om child maps (c\<lparr>c_core_pid := x\<rparr>) st = Some (Inr (), ce, st3)"
    "WriteElfHeader cdc platform ce st3 = (Inr (), st4)" "WriteTailMark cdc st4 = (Inr (), st2)"
    using assms by (auto simp: write_image_def split: option.splits sum.splits prod.splits)
  obtain c' where "WriteLoads cdc (\<lambda>_. om child) control maps c st = Some (Inr (), c', st3)" "ce = c'\<lparr>c_core_pid := x\<rparr>"
    using W(1) by (auto simp: WriteLoads_def write_regions_core_pid split: sum.splits prod.splits option.splits if_splits)
  then show thesis using that W(2,3) by (simp add: WriteElfHeader_core_pid)
qed

lemma write_meta_as_acore:
  assumes m: "write_meta cdc env te 0 (\<lambda>_. pid) c st = (Inr maps, c1, st1)" and c: "c_pid c = pid" "pid \<noteq> 0"
    and i: "write_image cdc om platform child maps (c1\<lparr>c_core_pid := x\<rparr>) st1 = Some (Inr (), c2, st2)"
  shows "\<exists>c'. write_acore cdc env te (\<lambda>_. om child) platform pid c st = Some (Inr (), c', st2)" "source_maps env c pid = Inr maps"
proof -
  have p: "WriteProcessMeta cdc env 0 c st = WriteProcessMeta cdc env pid c st" using c by (simp add: WriteProcessMeta_def)
  obtain sa where P: "WriteProcessMeta cdc env pid c st = (Inr maps, c1, sa)"
    "WriteThreads cdc env te c1 (pid # filter (\<lambda>tid. tid \<noteq> pid) (pd_thrd_pid (c_process c1))) sa = (Inr (), st1)"
    using m by (auto simp: write_meta_def p Let_def split: prod.splits sum.splits)
  have o: "thread_order pid (pd_thrd_pid (c_process c1)) = pid # filter (\<lambda>tid. tid \<noteq> pid) (pd_thrd_pid (c_process c1))"
    by (simp add: thread_order_def)
  obtain c' st3 st4 where W: "WriteLoads cdc (\<lambda>_. om child) pid maps c1 st1 = Some (Inr (), c', st3)"
    "WriteElfHeader cdc platform c' st3 = (Inr (), st4)" "WriteTailMark cdc st4 = (Inr (), st2)"
    by (rule image_as_loads [OF i])
  show "\<exists>c'. write_acore cdc env te (\<lambda>_. om child) platform pid c st = Some (Inr (), c', st2)"
    by (simp add: write_acore_def P(1) o P(2) W del: WriteThreads.simps)
  show "source_maps env c pid = Inr maps"
    by (rule WriteProcessMeta_Inr [OF P(1)]) (use c in \<open>simp add: source_maps_def source_of_def\<close>)
qed


lemma fork_capture_writes:
  assumes c: "fork_capture K cdc platform sc False c m st h = Some (True, st', m', h')" and pid: "c_pid c = m_pid m" "0 < m_pid m"
    and W: "wait_errors K" "m_tids m = []"
  obtains m1 h1 src hm c' where "fork_point K sc c m h = Some (m1, h1, src, hm)"
    "write_acore cdc (k_capture K h1) (k_threads K h1) (\<lambda>_. k_mem K hm src) platform (m_pid m) (capture_core c (m_thrd m1)) st =
       Some (Inr (), c', st')"
proof -
  obtain m1 h1 where b: "fork_collect K m h = Some (True, m1, h1)"
    using c by (auto simp: fork_capture_def split: option.splits bool.splits)
  have p1: "m_pid m1 = m_pid m" using fork_collect_pid [OF b W(2)] .
  let ?co = "capture_core c (m_thrd m1)"
  have co: "c_pid ?co = m_pid m" "m_pid m \<noteq> 0" using pid by (simp_all add: capture_core_def)
  obtain maps c1 st1 where w: "write_meta cdc (k_capture K h1) (k_threads K h1) 0 (\<lambda>_. m_pid m) ?co st = (Inr maps, c1, st1)"
    using c b by (auto simp: fork_capture_def split: sum.splits prod.splits)
  note A = write_meta_as_acore [OF w co]
  obtain direct h2 where d: "fork_snapshot_requires_direct_capture K (m_pid m) maps h1 = (direct, h2)" by fastforce
  obtain syms h3 where s: "(if direct then ((0, 0, 0), h2) else inject_symbols K (m_pid m) h2) = (syms, h3)" by fastforce
  let ?missing = "fst syms = 0 \<or> fst (snd syms) = 0 \<or> snd (snd syms) = 0"
  note run = c [unfolded fork_capture_def b option.case prod.case bool.case w sum.case d s Let_def if_False simp_thms]
  have point: "fork_point K sc c m h = Some (m1, h1, src, hm)"
    if "source_maps (k_capture K h1) ?co (m_pid m) = Inr maps" "memory_source K sc maps m1 h1 = Some (src, hm)" for src hm
    using that by (simp add: fork_point_def b)
  show thesis
  proof (cases "direct \<or> ?missing")
    case True
    have "fork_direct K cdc platform maps c1 m1 st1 h3 = Some (True, st', m', h')" using run True by (simp only: if_True simp_thms)
    then obtain c2 where i: "write_image cdc (k_mem K h3) platform (m_pid m) maps (c1\<lparr>c_core_pid := c_core_pid c1\<rparr>) st1 = Some (Inr (), c2, st')"
      by (auto simp: fork_direct_def p1 succeeds_def split: option.splits prod.splits sum.splits)
    have "memory_source K sc maps m1 h1 = Some (m_pid m, h3)" using True by (simp only: memory_source_def p1 d s Let_def prod.case) simp
    from that [OF point [OF A(2) [OF i] this]] A(1) [OF i] show thesis by blast
  next
    case False
    then obtain cp m2 h4 where f: "fork_target K sc False syms m1 h3 = Some (Some cp, m2, h4)"
      "fork_image K cdc platform sc False (snd (snd syms)) cp maps (c1\<lparr>c_core_pid := fst cp\<rparr>) m2 st1 h4 = Some (True, st', m', h')"
      using run by (auto split: option.splits)
    obtain child page where cp: "cp = (child, page)" by (cases cp)
    obtain c2 where i: "write_image cdc (k_mem K h4) platform child maps (c1\<lparr>c_core_pid := child\<rparr>) st1 = Some (Inr (), c2, st')"
      using f(2) by (auto simp: fork_image_def cp Let_def split: option.splits sum.splits prod.splits)
    have "memory_source K sc maps m1 h1 = Some (child, h4)" using False f(1) by (simp only: memory_source_def p1 d s Let_def prod.case cp) simp
    from that [OF point [OF A(2) [OF i] this]] A(1) [OF i] show thesis by blast
  qed
qed

text \<open>The converse: an acore that can be written is written.\<close>

lemma loads_as_image:
  assumes "WriteLoads cdc (\<lambda>_. om child) control maps c st = Some (Inr (), c', st3)"
    and "WriteElfHeader cdc platform c' st3 = (Inr (), st4)" "WriteTailMark cdc st4 = (Inr (), st2)"
  shows "\<exists>c2. write_image cdc om platform child maps (c\<lparr>c_core_pid := x\<rparr>) st = Some (Inr (), c2, st2)"
proof -
  have "WriteLoads cdc om child maps (c\<lparr>c_core_pid := x\<rparr>) st = Some (Inr (), c'\<lparr>c_core_pid := x\<rparr>, st3)"
    using assms(1) by (auto simp: WriteLoads_def write_regions_core_pid split: sum.splits prod.splits option.splits if_splits)
  then show ?thesis using assms(2,3) by (simp add: write_image_def WriteElfHeader_core_pid)
qed

lemma acore_as_meta:
  assumes w: "write_acore cdc env te (\<lambda>_. om child) platform pid c st = Some (Inr (), c', st2)" and c: "c_pid c = pid" "pid \<noteq> 0"
  obtains maps c1 st1 c2 where "write_meta cdc env te 0 (\<lambda>_. pid) c st = (Inr maps, c1, st1)" "source_maps env c pid = Inr maps"
    "write_image cdc om platform child maps (c1\<lparr>c_core_pid := x\<rparr>) st1 = Some (Inr (), c2, st2)"
proof -
  obtain maps c1 sa st1 st3 st4 where W: "WriteProcessMeta cdc env pid c st = (Inr maps, c1, sa)"
    "WriteThreads cdc env te c1 (thread_order pid (pd_thrd_pid (c_process c1))) sa = (Inr (), st1)"
    "WriteLoads cdc (\<lambda>_. om child) pid maps c1 st1 = Some (Inr (), c', st3)" "WriteElfHeader cdc platform c' st3 = (Inr (), st4)"
    "WriteTailMark cdc st4 = (Inr (), st2)" by (rule write_acore_Inr [OF w])
  have "WriteProcessMeta cdc env 0 c st = (Inr maps, c1, sa)" using W(1) c by (simp add: WriteProcessMeta_def)
  then have m: "write_meta cdc env te 0 (\<lambda>_. pid) c st = (Inr maps, c1, st1)"
    using W(2) by (simp add: write_meta_def thread_order_def del: WriteThreads.simps)
  obtain c2 where i: "write_image cdc om platform child maps (c1\<lparr>c_core_pid := x\<rparr>) st1 = Some (Inr (), c2, st2)"
    using loads_as_image [where om = om and child = child, OF W(3-5)] by blast
  show thesis by (rule that [OF m write_meta_as_acore(2) [OF m c i] i])
qed

section \<open>A successful run\<close>

lemma forkcore_Inr:
  assumes "forkcore K cdc os fresh info fd platform sc False c m path h files = Some (Inr (), m', h', files')"
    and "task_is_zombie K (m_pid m) h = (z, h0)" "z \<noteq> Inr True"
  obtains temp state st0 files1 st1 st2 m1 h1 where
    "open_atomic_lz4 cdc os fresh info fd path (Lz4Stream_new LZ4_Compress) files = (Inr (temp, state), st0, files1)"
    "WriteFileHeader cdc platform st0 = (Inr (), st1)"
    "fork_capture K cdc platform sc False c (m\<lparr>m_relay := []\<rparr>) st1 h0 = Some (True, st2, m1, h1)"
    "commit_atomic_lz4 cdc os st2 temp path state files1 = (Inr (), files')"
proof -
  note run = assms(1) [unfolded forkcore_def assms(2) if_False prod.case Let_def]
  obtain temp state st0 files1 where o: "open_atomic_lz4 cdc os fresh info fd path (Lz4Stream_new LZ4_Compress) files = (Inr (temp, state), st0, files1)"
    using run assms(3) by (auto split: sum.splits prod.splits)
  obtain st1 where f: "WriteFileHeader cdc platform st0 = (Inr (), st1)" using run assms(3) o by (auto split: sum.splits prod.splits)
  obtain st2 m1 h1 where c: "fork_capture K cdc platform sc False c (m\<lparr>m_relay := []\<rparr>) st1 h0 = Some (True, st2, m1, h1)"
    using run assms(3) o f by (auto split: option.splits bool.splits)
  have "commit_atomic_lz4 cdc os st2 temp path state files1 = (Inr (), files')"
    using run assms(3) o f c by (auto split: prod.splits)
  then show thesis using that [OF o f c] by simp
qed

text \<open>The metadata is that of the stopped target, the memory that of the task it was read from.\<close>

definition fork_setup :: "kern \<Rightarrow> nat \<Rightarrow> int \<Rightarrow> history \<Rightarrow> int \<Rightarrow> history \<Rightarrow> capture_setup" where
  "fork_setup K platform pid h src hm =
     \<lparr>cs_env = k_capture K h, cs_te = k_threads K h, cs_mem = \<lambda>_. k_mem K hm src, cs_platform = platform, cs_control = pid,
      cs_order = thread_order pid\<rparr>"

lemma fork_setup_simps [simp]:
  "cs_env (fork_setup K p c h s hm) = k_capture K h" "cs_te (fork_setup K p c h s hm) = k_threads K h"
  "cs_mem (fork_setup K p c h s hm) = (\<lambda>_. k_mem K hm s)" "cs_platform (fork_setup K p c h s hm) = p"
  "cs_control (fork_setup K p c h s hm) = c" "cs_order (fork_setup K p c h s hm) = thread_order c"
  by (simp_all add: fork_setup_def)

lemma fork_point_collect:
  "fork_point K sc c m h = Some (m1, h1, src, hm) \<Longrightarrow> fork_collect K m h = Some (True, m1, h1)"
  by (auto simp: fork_point_def split: option.splits bool.splits sum.splits)

end
