(* ===== verification/RemoteProps.thy ===== *)
theory RemoteProps
  imports RemoteSym
begin

text \<open>
  What the search for a remote function guarantees: an address it returns is that of the
  first matching symbol of the target's tables, and in a well-formed loaded library it
  finds every function.
\<close>

section \<open>Reading memory\<close>

definition holds :: "memory \<Rightarrow> u64 \<Rightarrow> bytes \<Rightarrow> bool" where
  "holds mem a bs \<longleftrightarrow> (\<forall>i < length bs. mem (a + word_of_nat i) = Some (bs ! i))"

lemma read_all_iff: "read_all mem a n = Some bs \<longleftrightarrow> holds mem a bs \<and> length bs = n"
proof -
  let ?xs = "map (\<lambda>i. mem (a + word_of_nat i)) [0..<n]"
  let ?t = "takeWhile (\<lambda>x. x \<noteq> None) ?xs"
  have r: "readable_bytes mem a n = map the ?t" by (simp add: readable_bytes_def)
  show ?thesis
  proof
    assume "read_all mem a n = Some bs"
    then have bs: "bs = map the ?t" "length ?t = n" by (auto simp: read_all_def r split: if_splits)
    then have eq: "?t = ?xs" using takeWhile_eq_take [of "\<lambda>x. x \<noteq> None" ?xs] by simp
    then have "\<forall>i < n. mem (a + word_of_nat i) \<noteq> None" by (subst (asm) takeWhile_eq_all_conv) auto
    moreover have "bs = map the ?xs" using bs(1) by (simp only: eq)
    ultimately have "length bs = n" "\<forall>i < n. mem (a + word_of_nat i) = Some (bs ! i)" by auto
    then show "holds mem a bs \<and> length bs = n" by (auto simp: holds_def)
  next
    assume h: "holds mem a bs \<and> length bs = n"
    then have x: "?xs = map Some bs" by (auto simp: holds_def list_eq_iff_nth_eq)
    have "takeWhile (\<lambda>x. x \<noteq> None) (map Some bs) = map Some bs" by (simp only: takeWhile_eq_all_conv) auto
    then have "readable_bytes mem a n = bs" unfolding r x by (simp only:) (simp add: comp_def)
    then show "read_all mem a n = Some bs" using h by (simp add: read_all_def)
  qed
qed

lemma holds_append: "holds mem a (xs @ ys) \<longleftrightarrow> holds mem a xs \<and> holds mem (a + word_of_nat (length xs)) ys"
proof -
  have "holds mem a (xs @ ys) \<longleftrightarrow> (\<forall>i < length xs. mem (a + word_of_nat i) = Some (xs ! i)) \<and>
      (\<forall>j < length ys. mem (a + word_of_nat (length xs + j)) = Some (ys ! j))"
    unfolding holds_def
  proof safe
    fix i assume a: "\<forall>i < length (xs @ ys). mem (a + word_of_nat i) = Some ((xs @ ys) ! i)" and i: "i < length xs"
    with a [rule_format, of i] show "mem (a + word_of_nat i) = Some (xs ! i)" by (simp add: nth_append)
  next
    fix j assume a: "\<forall>i < length (xs @ ys). mem (a + word_of_nat i) = Some ((xs @ ys) ! i)" and j: "j < length ys"
    with a [rule_format, of "length xs + j"] show "mem (a + word_of_nat (length xs + j)) = Some (ys ! j)" by simp
  next
    fix i assume a: "\<forall>i < length xs. mem (a + word_of_nat i) = Some (xs ! i)"
      "\<forall>j < length ys. mem (a + word_of_nat (length xs + j)) = Some (ys ! j)" and i: "i < length (xs @ ys)"
    show "mem (a + word_of_nat i) = Some ((xs @ ys) ! i)"
      using a(1) a(2) [rule_format, of "i - length xs"] i by (cases "i < length xs") (auto simp: nth_append)
  qed
  then show ?thesis by (simp add: holds_def add.assoc)
qed

text \<open>The \<open>i\<close>-th element of a table of \<open>w\<close>-byte elements.\<close>

lemma holds_table:
  assumes "holds mem a (concat (map enc xs))" "\<And>x. x \<in> set xs \<Longrightarrow> length (enc x) = w" "i < length xs"
  shows "holds mem (a + word_of_nat i * word_of_nat w) (enc (xs ! i))"
proof -
  have "concat (map enc xs) = concat (map enc (take i xs)) @ enc (xs ! i) @ concat (map enc (drop (Suc i) xs))"
    using assms(3) by (subst id_take_nth_drop [of i xs]) simp_all
  moreover have "length (concat (map enc (take i xs))) = i * w"
  proof -
    have "map (length \<circ> enc) (take i xs) = replicate i w"
      by (rule replicate_eqI) (use assms(2,3) in_set_takeD [of _ i xs] in auto)
    then show ?thesis by (simp add: length_concat map_map sum_list_replicate)
  qed
  ultimately show ?thesis using assms(1) by (simp add: holds_append)
qed

section \<open>Sums that fit\<close>

lemma overflow_iff: "(UINT64_MAX - b < a) = (2 ^ 64 \<le> unat a + unat b)"
proof -
  have m: "UINT64_MAX = (- 1 :: u64)" by simp
  have "unat (UINT64_MAX - b) = 2 ^ 64 - 1 - unat b"
    unfolding m by (subst unat_sub) (simp_all add: unsigned_minus_1_eq_mask mask_eq_exp_minus_1)
  then show ?thesis using unsigned_less [of b, where ?'a = nat] unsigned_less [of a, where ?'a = nat]
    by (auto simp: word_less_nat_alt)
qed

lemma unat_add_fits: "unat (a :: u64) + unat b < 2 ^ 64 \<Longrightarrow> unat (a + b) = unat a + unat b"
  by (simp add: unat_word_ariths)

lemma table_addr: "unat a + i * unat w < 2 ^ 64 \<Longrightarrow> unat (a + word_of_nat i * w :: u64) = unat a + i * unat w"
proof -
  assume f: "unat a + i * unat w < 2 ^ 64"
  have "a + word_of_nat i * w = word_of_nat (unat a + i * unat w)" by simp
  then show ?thesis using f by (simp only: word64_less_of_nat)
qed

lemma ucast_small: "i < 2 ^ 32 \<Longrightarrow> ucast (word_of_nat i :: u32) = (word_of_nat i :: u64)"
  by (simp add: unsigned_of_nat take_bit_nat_eq_self)

lemma unat_div_ge: "unat ((UINT64_MAX - a) div b) = (2 ^ 64 - 1 - unat a) div unat b"
proof -
  have m: "UINT64_MAX = (- 1 :: u64)" by simp
  have "unat (UINT64_MAX - a) = 2 ^ 64 - 1 - unat a"
    unfolding m by (subst unat_sub) (simp_all add: unsigned_minus_1_eq_mask mask_eq_exp_minus_1)
  then show ?thesis by (simp add: unat_div)
qed

section \<open>The search is the first match\<close>

definition symbol_at :: "memory \<Rightarrow> dyn_info \<Rightarrow> nat \<Rightarrow> Elf64_Sym option" where
  "symbol_at mem di i = map_option get_sym (read_all mem (symtab di + word_of_nat i * syment di) sizeof_Sym)"

definition matches :: "memory \<Rightarrow> dyn_info \<Rightarrow> string \<Rightarrow> Elf64_Sym \<Rightarrow> bool" where
  "matches mem di f s \<longleftrightarrow> defined_function s \<and> symbol_name mem di (st_name s) = Some f"

lemma symbol_loop_sound:
  "symbol_loop mem di bias f n i = a \<Longrightarrow> a \<noteq> 0 \<Longrightarrow>
   \<exists>j s. i \<le> j \<and> j < n \<and> symbol_at mem di j = Some s \<and> matches mem di f s \<and> a = bias + st_val s \<and>
     unat a = unat bias + unat (st_val s) \<and> (\<forall>k. i \<le> k \<longrightarrow> k < j \<longrightarrow> (\<exists>t. symbol_at mem di k = Some t \<and> \<not> matches mem di f t))"
proof (induction mem di bias f n i rule: symbol_loop.induct)
  case (1 mem di bias f n i)
  show ?case
  proof (cases "i \<ge> n \<or> i > unat ((UINT64_MAX - symtab di) div syment di) \<or>
      read_all mem (symtab di + word_of_nat i * syment di) sizeof_Sym = None")
    case True
    then have "a = 0" using "1.prems"(1) by (subst (asm) symbol_loop.simps) (auto split: option.splits)
    then show ?thesis using "1.prems"(2) by simp
  next
    case False
    then obtain bs where bs: "read_all mem (symtab di + word_of_nat i * syment di) sizeof_Sym = Some bs" by auto
    then have at: "symbol_at mem di i = Some (get_sym bs)" by (simp add: symbol_at_def)
    show ?thesis
    proof (cases "matches mem di f (get_sym bs)")
      case True
      then have a: "a = (if bias > UINT64_MAX - st_val (get_sym bs) then 0 else bias + st_val (get_sym bs))"
        using "1.prems"(1) False bs by (subst (asm) symbol_loop.simps) (simp add: matches_def Let_def)
      then have le: "\<not> bias > UINT64_MAX - st_val (get_sym bs)" "a = bias + st_val (get_sym bs)" using "1.prems"(2) by (auto split: if_splits)
      have "unat a = unat bias + unat (st_val (get_sym bs))" using le by (simp add: overflow_iff unat_add_fits)
      then show ?thesis using True at le(2) False by (intro exI [of _ i]) auto
    next
      case no: False
      then have "symbol_loop mem di bias f n (i + 1) = a"
        using "1.prems"(1) False bs by (subst (asm) symbol_loop.simps) (auto simp: matches_def Let_def split: if_splits)
      moreover have "\<not> (defined_function (get_sym bs) \<and> symbol_name mem di (st_name (get_sym bs)) = Some f)"
        using no by (simp add: matches_def)
      ultimately obtain j s where js: "i + 1 \<le> j" "j < n" "symbol_at mem di j = Some s" "matches mem di f s" "a = bias + st_val s"
        "unat a = unat bias + unat (st_val s)"
        "\<forall>k. i + 1 \<le> k \<longrightarrow> k < j \<longrightarrow> (\<exists>t. symbol_at mem di k = Some t \<and> \<not> matches mem di f t)"
        using "1.IH" [OF _ bs refl] False "1.prems"(2) by auto
      have "\<exists>t. symbol_at mem di k = Some t \<and> \<not> matches mem di f t" if "i \<le> k" "k < j" for k
        using js(7) that at no by (cases "k = i") auto
      then show ?thesis using js(1-6) by (intro exI [of _ j] exI [of _ s]) auto
    qed
  qed
qed

lemma symbol_count_bound: "symbol_count mem di = Some n \<Longrightarrow> n \<le> ARTHUR_MAX_SYM"
  by (auto simp: symbol_count_def sysv_count_def gnu_count_def Let_def split: if_splits option.splits prod.splits)


lemma sym_lookup_stages:
  assumes "get_remote_sym_address opened base f = a" "a \<noteq> 0"
  obtains mem phdrs bias sec di n where "base \<noteq> 0" "opened = Some mem" "remote_phdrs mem base = Some phdrs"
    "load_bias base phdrs = Some bias" "dynamic_section bias phdrs = Some sec" "read_dynamic mem base bias sec = Some di"
    "symbol_count mem di = Some n" "tables_complete mem di n" "symbol_loop mem di bias f n 0 = a"
  using assms by (auto simp: get_remote_sym_address_def split: if_splits option.splits)

text \<open>
  C18: An address that the lookup returns comes from the target's own tables: every stage
  (headers, dynamic section, hash table, table ends) was read and within its bounds, the
  symbol table has at most \<open>2 ^ 20\<close> entries, and the address is the load bias plus the value,
  with no wrap-around, of the first entry that is a defined function of that name.
\<close>

theorem sym_lookup_sound:
  assumes "get_remote_sym_address opened base f = a" "a \<noteq> 0"
  shows "\<exists>mem phdrs bias sec di n j s. opened = Some mem \<and> remote_phdrs mem base = Some phdrs \<and>
    load_bias base phdrs = Some bias \<and> dynamic_section bias phdrs = Some sec \<and> read_dynamic mem base bias sec = Some di \<and>
    symbol_count mem di = Some n \<and> n \<le> 2 ^ 20 \<and> tables_complete mem di n \<and> j < n \<and> symbol_at mem di j = Some s \<and>
    matches mem di f s \<and> unat a = unat bias + unat (st_val s) \<and>
    (\<forall>k < j. \<exists>t. symbol_at mem di k = Some t \<and> \<not> matches mem di f t)"
proof -
  obtain mem phdrs bias sec di n where s: "opened = Some mem" "remote_phdrs mem base = Some phdrs"
    "load_bias base phdrs = Some bias" "dynamic_section bias phdrs = Some sec" "read_dynamic mem base bias sec = Some di"
    "symbol_count mem di = Some n" "tables_complete mem di n" "symbol_loop mem di bias f n 0 = a"
    using sym_lookup_stages [OF assms] by metis
  moreover obtain j t where j: "j < n" "symbol_at mem di j = Some t" "matches mem di f t" "unat a = unat bias + unat (st_val t)"
    "\<forall>k < j. \<exists>t. symbol_at mem di k = Some t \<and> \<not> matches mem di f t" using symbol_loop_sound [OF s(8) assms(2)] by auto
  moreover have "n \<le> 2 ^ 20" using symbol_count_bound [OF s(6)] by simp
  ultimately have "opened = Some mem \<and> remote_phdrs mem base = Some phdrs \<and>
    load_bias base phdrs = Some bias \<and> dynamic_section bias phdrs = Some sec \<and> read_dynamic mem base bias sec = Some di \<and>
    symbol_count mem di = Some n \<and> n \<le> 2 ^ 20 \<and> tables_complete mem di n \<and> j < n \<and> symbol_at mem di j = Some t \<and>
    matches mem di f t \<and> unat a = unat bias + unat (st_val t) \<and>
    (\<forall>k < j. \<exists>t. symbol_at mem di k = Some t \<and> \<not> matches mem di f t)" by (intro conjI)
  then show ?thesis by (intro exI)
qed

section \<open>The tables of a loaded library\<close>

lemma holds_read: "holds mem a bs \<Longrightarrow> length bs = n \<Longrightarrow> read_all mem a n = Some bs"
  by (simp add: read_all_iff)

lemma holds_get32: "holds mem a (put32 x) \<Longrightarrow> read_u32 mem a = Some x"
  by (simp add: read_u32_def holds_read)

lemma holds_words: "holds mem a (concat (map put32 ws)) \<Longrightarrow> i < length ws \<Longrightarrow> read_u32 mem (a + word_of_nat i * 4) = Some (ws ! i)"
  using holds_table [of mem a put32 ws 4 i] by (simp add: holds_get32)

lemma get_ehdr_ident: "wf_ehdr e \<Longrightarrow> get_ehdr (put_ehdr e) = e"
  by (rule cehdr.dec_enc)

text \<open>
  What the linker writes: the hash values of each bucket's symbols, in the order of the symbol
  table from \<open>symoffset\<close> on; the last of a chain has the end bit.
\<close>

definition chain_words :: "u32 list \<Rightarrow> u32 list" where
  "chain_words hs = (if hs = [] then [] else map (\<lambda>h. h AND NOT 1) (butlast hs) @ [last hs OR 1])"

fun bucket_words :: "nat \<Rightarrow> u32 list list \<Rightarrow> u32 list" where
  "bucket_words k [] = []"
| "bucket_words k (g # gs) = (if g = [] then 0 else word_of_nat k) # bucket_words (k + length g) gs"

lemma length_chain_words [simp]: "length (chain_words hs) = length hs"
  by (simp add: chain_words_def)

lemma length_bucket_words [simp]: "length (bucket_words k gs) = length gs"
  by (induction gs arbitrary: k) auto

lemma chain_words_bit: "i < length hs \<Longrightarrow> chain_words hs ! i AND 1 = 0 \<longleftrightarrow> i + 1 < length hs"
proof -
  assume i: "i < length hs"
  have "(h AND NOT 1) AND 1 = (0 :: u32)" for h by (rule bit_word_eqI) (auto simp: bit_simps)
  moreover have "(h OR 1) AND 1 = (1 :: u32)" for h by (rule bit_word_eqI) (auto simp: bit_simps)
  ultimately show ?thesis using i by (auto simp: chain_words_def nth_append nth_butlast)
qed

lemma bucket_words_nth:
  "b < length gs \<Longrightarrow> bucket_words k gs ! b = (if gs ! b = [] then 0 else word_of_nat (k + length (concat (take b gs))))"
  by (induction gs arbitrary: k b) (auto simp: nth_Cons' take_Cons' add.assoc)

lemma gnu_chain_run:
  assumes h: "holds mem ct (concat (map put32 cw))" and ct: "unat ct + 4 * length cw \<le> 2 ^ 64"
    and k0: "k0 + length cw \<le> 2 ^ 20" and pg: "p + g \<le> length cw"
    and bit: "\<And>j. j < g \<Longrightarrow> (cw ! (p + j) AND 1 = 0) = (j + 1 < g)"
  shows "j < g \<Longrightarrow> m < 2 ^ 20 \<Longrightarrow> ts + (g - j) \<le> 2 ^ 20 \<Longrightarrow>
    gnu_chain mem ct (word_of_nat k0) (word_of_nat (k0 + p + j)) j (word_of_nat m) ts =
    Some (word_of_nat (max m (p + g - 1)), ts + (g - j))"
proof (induction "g - j" arbitrary: j m ts)
  case 0
  then show ?case by simp
next
  case (Suc n)
  define m' where "m' = max m (p + j)"
  have lt: "p + j < length cw" "j < 2 ^ 20" "k0 + p + j < 2 ^ 20" using Suc.prems(1) pg k0 by auto
  have c: "word_of_nat (k0 + p + j) - word_of_nat k0 = (word_of_nat (p + j) :: u32)" by (simp add: algebra_simps)
  have ge: "\<not> (word_of_nat (k0 + p + j) :: u32) < word_of_nat k0"
    using lt by (simp add: word_less_nat_alt unat_of_nat del: of_nat_add)
  have mc: "(if (word_of_nat m :: u32) < word_of_nat (p + j) then word_of_nat (p + j) else word_of_nat m) = (word_of_nat m' :: u32)"
    using lt Suc.prems(2) by (auto simp: m'_def word_less_nat_alt unat_of_nat simp del: of_nat_add)
  have uc: "ucast (word_of_nat (p + j) :: u32) = (word_of_nat (p + j) :: u64)"
    by (rule ucast_small) (use lt in simp)
  have ad: "\<not> ct + word_of_nat (p + j) * 4 < ct" using table_addr [of ct "p + j" 4] ct lt(1) by (simp add: word_less_nat_alt)
  have rd: "read_u32 mem (ct + word_of_nat (p + j) * 4) = Some (cw ! (p + j))" by (rule holds_words [OF h lt(1)])
  show ?case
  proof (cases "j + 1 < g")
    case True
    have "gnu_chain mem ct (word_of_nat k0) (word_of_nat (k0 + p + (j + 1))) (j + 1) (word_of_nat m') (ts + 1) =
        Some (word_of_nat (max m' (p + g - 1)), (ts + 1) + (g - (j + 1)))"
      by (rule Suc.hyps(1)) (use Suc.hyps(2) Suc.prems True lt in \<open>auto simp: m'_def\<close>)
    moreover have "max m' (p + g - 1) = max m (p + g - 1)" "(ts + 1) + (g - (j + 1)) = ts + (g - j)"
      using True by (auto simp: m'_def)
    moreover have "word_of_nat (k0 + p + j) + 1 = (word_of_nat (k0 + p + (j + 1)) :: u32)" by simp
    moreover have "cw ! (p + j) AND 1 = 0" using bit [OF Suc.prems(1)] True by simp
    ultimately show ?thesis using ge lt Suc.prems(3) ad rd
      by (subst gnu_chain.simps) (simp only: Let_def c mc uc, simp del: of_nat_add)
  next
    case False
    then have e: "p + g - 1 = p + j" "g - j = 1" using Suc.prems(1) by auto
    have "cw ! (p + j) AND 1 \<noteq> 0" using bit [OF Suc.prems(1)] False by simp
    then show ?thesis using ge lt Suc.prems(3) ad rd
      by (subst gnu_chain.simps) (simp only: Let_def c mc uc e, simp add: m'_def del: of_nat_add)
  qed
qed

lemma concat_chain_nth:
  "b < length gs \<Longrightarrow> j < length (gs ! b) \<Longrightarrow>
   concat (map chain_words gs) ! (length (concat (take b gs)) + j) = chain_words (gs ! b) ! j"
proof (induction gs arbitrary: b)
  case (Cons g gs)
  then show ?case by (cases b) (auto simp: nth_append add.assoc)
qed simp

lemma length_concat_chain [simp]: "length (concat (map chain_words gs)) = length (concat gs)"
  by (induction gs) auto

lemma length_concat_take: "b < length gs \<Longrightarrow> length (concat (take b gs)) + length (gs ! b) \<le> length (concat gs)"
proof -
  assume b: "b < length gs"
  have "concat gs = concat (take b gs) @ gs ! b @ concat (drop (Suc b) gs)"
    using b by (subst id_take_nth_drop [of b gs]) simp_all
  then show ?thesis by (metis length_append add.assoc le_add1)
qed

lemma gnu_buckets_run:
  assumes hb: "holds mem bu (concat (map put32 (bucket_words k0 gs)))" and bu: "unat bu + 4 * length gs \<le> 2 ^ 64"
    and hc: "holds mem ct (concat (map put32 (concat (map chain_words gs))))" and ct: "unat ct + 4 * length (concat gs) \<le> 2 ^ 64"
    and k0: "0 < k0" "k0 + length (concat gs) \<le> 2 ^ 20" and n: "length gs \<le> 2 ^ 20"
  shows "b \<le> length gs \<Longrightarrow> k = length (concat (take b gs)) \<Longrightarrow>
    gnu_buckets mem bu ct (word_of_nat k0) (length gs) b (0 < k, word_of_nat (k - 1), k) =
    Some (0 < length (concat gs), word_of_nat (length (concat gs) - 1))"
proof (induction "length gs - b" arbitrary: b k)
  case 0
  then show ?case by (subst gnu_buckets.simps) simp
next
  case (Suc d)
  then have b: "b < length gs" by simp
  have ad: "\<not> bu + word_of_nat b * 4 < bu" using table_addr [of bu b 4] bu b by (simp add: word_less_nat_alt)
  have rd: "read_u32 mem (bu + word_of_nat b * 4) = Some (if gs ! b = [] then 0 else word_of_nat (k0 + k))"
    using holds_words [OF hb] b Suc.prems(2) by (simp add: bucket_words_nth)
  have kl: "k + length (gs ! b) \<le> length (concat gs)" using length_concat_take [OF b] Suc.prems(2) by simp
  have k': "length (concat (take (b + 1) gs)) = k + length (gs ! b)" using b Suc.prems(2) by (simp add: take_Suc_conv_app_nth)
  note IH = Suc.hyps(1) [of "b + 1" "k + length (gs ! b)", OF _ _ k' [symmetric]]
  show ?case
  proof (cases "gs ! b = []")
    case True
    then show ?thesis using IH b ad rd Suc.hyps(2) by (subst gnu_buckets.simps) simp
  next
    case False
    let ?g = "length (gs ! b)"
    have g: "0 < ?g" using False by simp
    have run: "gnu_chain mem ct (word_of_nat k0) (word_of_nat (k0 + k + 0)) 0 (word_of_nat (k - 1)) k =
        Some (word_of_nat (max (k - 1) (k + ?g - 1)), k + (?g - 0))"
    proof (rule gnu_chain_run [OF hc])
      show "(concat (map chain_words gs) ! (k + j) AND 1 = 0) = (j + 1 < ?g)" if "j < ?g" for j
        using concat_chain_nth [OF b that] chain_words_bit [OF that] Suc.prems(2) by simp
    qed (use ct k0 kl g in auto)
    have nz: "(word_of_nat (k0 + k) :: u32) \<noteq> 0" "\<not> (word_of_nat (k0 + k) :: u32) < word_of_nat k0"
      using k0 kl g by (auto simp: word_less_nat_alt unat_of_nat unat_eq_0 [symmetric] simp del: of_nat_add unat_eq_0)
    have "max (k - 1) (k + ?g - 1) = k + ?g - 1" using g by simp
    then show ?thesis using IH b ad rd Suc.hyps(2) False run nz g
      by (subst gnu_buckets.simps) (simp add: Let_def del: of_nat_add)
  qed
qed

definition gnu_table :: "nat \<Rightarrow> u64 list \<Rightarrow> u32 \<Rightarrow> u32 list list \<Rightarrow> bytes" where
  "gnu_table k0 bloom shift gs =
     (put32 (word_of_nat (length gs)) @ put32 (word_of_nat k0) @ put32 (word_of_nat (length bloom)) @ put32 shift) @
     concat (map put64 bloom) @ concat (map put32 (bucket_words k0 gs)) @ concat (map put32 (concat (map chain_words gs)))"

lemma length_words [simp]: "length (concat (map put32 ws)) = 4 * length ws" "length (concat (map put64 ds)) = 8 * length ds"
  by (simp_all add: length_concat comp_def sum_list_triv)

lemma gnu_count_exact:
  assumes h: "holds mem g (gnu_table k0 bloom shift gs)" and fit: "unat g + length (gnu_table k0 bloom shift gs) < 2 ^ 64"
    and n: "0 < length gs" "length gs \<le> 2 ^ 20" and bl: "0 < length bloom" "length bloom \<le> 2 ^ 20"
    and k0: "0 < k0" "k0 + length (concat gs) \<le> 2 ^ 20"
  shows "gnu_count mem g = Some (k0 + length (concat gs))"
proof -
  let ?hd = "put32 (word_of_nat (length gs)) @ put32 (word_of_nat k0) @ put32 (word_of_nat (length bloom)) @ put32 shift"
  let ?bu = "g + 16 + word_of_nat (length bloom) * 8"
  let ?ct = "?bu + word_of_nat (length gs) * 4"
  have len: "unat g + 16 + 8 * length bloom + 4 * length gs + 4 * length (concat gs) < 2 ^ 64"
    using fit by (simp add: gnu_table_def)
  have a: "unat (g + 16) = unat g + 16" "unat ?bu = unat g + 16 + 8 * length bloom"
    "unat ?ct = unat g + 16 + 8 * length bloom + 4 * length gs"
    using table_addr [of g 1 16] table_addr [of "g + 16" "length bloom" 8] table_addr [of ?bu "length gs" 4] len by simp_all
  have rd: "read_all mem g 16 = Some ?hd" using h by (auto simp: gnu_table_def holds_append intro!: holds_read)
  have f: "get32 (field_at 4 0 ?hd) = word_of_nat (length gs)" "get32 (field_at 4 4 ?hd) = word_of_nat k0"
    "get32 (field_at 4 8 ?hd) = word_of_nat (length bloom)" by (simp_all add: field_at_def)
  have hb: "holds mem ?bu (concat (map put32 (bucket_words k0 gs)))"
    and hc: "holds mem ?ct (concat (map put32 (concat (map chain_words gs))))"
    using h by (simp_all add: gnu_table_def holds_append add.assoc mult.commute)
  have run: "gnu_buckets mem ?bu ?ct (word_of_nat k0) (length gs) 0 (False, 0, 0) =
      Some (0 < length (concat gs), word_of_nat (length (concat gs) - 1))"
    using gnu_buckets_run [OF hb _ hc _ k0 n(2), of 0 0] a len by simp
  have u: "unat (word_of_nat (length gs) :: u32) = length gs" "unat (word_of_nat k0 :: u32) = k0"
    "unat (word_of_nat (length bloom) :: u32) = length bloom" "unat (word_of_nat (length (concat gs) - 1) :: u32) = length (concat gs) - 1"
    using n bl k0 by (simp_all add: unat_of_nat)
  have uc: "ucast (word_of_nat (length gs) :: u32) = (word_of_nat (length gs) :: u64)"
    "ucast (word_of_nat (length bloom) :: u32) = (word_of_nat (length bloom) :: u64)"
    using n bl by (simp_all add: ucast_small)
  have ov: "\<not> UINT64_MAX - 16 < g" "\<not> UINT64_MAX - (g + 16) < word_of_nat (length bloom) * 8"
    "\<not> UINT64_MAX - ?bu < word_of_nat (length gs) * 4"
    using len a table_addr [of 0 "length bloom" 8] table_addr [of 0 "length gs" 4] unfolding overflow_iff by simp_all
  have nz: "(word_of_nat (length gs) :: u32) \<noteq> 0" "(word_of_nat k0 :: u32) \<noteq> 0" "(word_of_nat (length bloom) :: u32) \<noteq> 0"
    using u n(1) bl(1) k0(1) by (metis unsigned_0 less_irrefl)+
  show ?thesis
  proof (cases "length (concat gs)")
    case 0
    show ?thesis unfolding gnu_count_def rd
      using n bl k0 ov nz by (simp add: Let_def f u(1-3) uc run [unfolded 0] 0 del: length_greater_0_conv length_0_conv)
  next
    case (Suc t)
    then show ?thesis unfolding gnu_count_def rd
      using n bl k0 ov nz u(4) by (simp add: Let_def f u(1-3) uc run [unfolded Suc] del: length_greater_0_conv)
  qed
qed

section \<open>The lookup refines a search of the library's symbols\<close>

text \<open>
  A library by its contents: headers, dynamic entries (without the final \<^verbatim>\<open>DT_NULL\<close>), symbols,
  strings. \<open>lib_lookup\<close> is what looking up a function in it means.
\<close>

record library =
  li_ehdr :: Ehdr
  li_phdrs :: "Phdr list"
  li_dyn :: "Elf64_Dyn list"
  li_syms :: "Elf64_Sym list"
  li_strs :: bytes

definition string_at :: "bytes \<Rightarrow> nat \<Rightarrow> string option" where
  "string_at strs n =
     (let t = take 255 (drop n strs)
      in if n \<noteq> 0 \<and> NUL \<in> set t then Some (takeWhile (\<lambda>c. c \<noteq> NUL) t) else None)"

definition lib_lookup :: "library \<Rightarrow> string \<Rightarrow> Elf64_Sym option" where
  "lib_lookup lib f = find (\<lambda>s. defined_function s \<and> string_at (li_strs lib) (unat (st_name s)) = Some f) (li_syms lib)"

lemma holds_readable: "holds mem a bs \<Longrightarrow> readable_bytes mem a (length bs) = bs"
  using holds_read [of mem a bs "length bs"] by (simp add: read_all_def Let_def split: if_splits)

lemma holds_sub: "holds mem a bs \<Longrightarrow> n \<le> length bs \<Longrightarrow> holds mem (a + word_of_nat n) (take k (drop n bs))"
  using holds_append [of mem a "take n bs" "drop n bs"] holds_append [of mem "a + word_of_nat n" "take k (drop n bs)" "drop k (drop n bs)"]
  by (simp add: min_absorb2 del: drop_drop)

text \<open>What the lookup uses of the tables it has found.\<close>

definition tables_hold :: "memory \<Rightarrow> dyn_info \<Rightarrow> Elf64_Sym list \<Rightarrow> bytes \<Rightarrow> bool" where
  "tables_hold mem di syms strs \<longleftrightarrow>
     syment di = 24 \<and> unat (strsz di) = length strs \<and> 0 < length strs \<and> 0 < length syms \<and>
     unat (symtab di) + 24 * length syms \<le> 2 ^ 64 \<and> unat (strtab di) + length strs \<le> 2 ^ 64 \<and>
     holds mem (symtab di) (concat (map put_sym syms)) \<and> holds mem (strtab di) strs"

lemma symbol_name_exact:
  assumes "tables_hold mem di syms strs"
  shows "symbol_name mem di n = string_at strs (unat n)"
proof -
  have t: "unat (strsz di) = length strs" "unat (strtab di) + length strs \<le> 2 ^ 64" "holds mem (strtab di) strs"
    using assms by (simp_all add: tables_hold_def)
  have off: "unat (ucast n :: u64) = unat n" using unsigned_less [of n, where ?'a = nat] by (simp add: unsigned_ucast_eq take_bit_nat_eq_self)
  have z: "(ucast n :: u64) = 0 \<longleftrightarrow> unat n = 0" using off unsigned_eq_0_iff [of "ucast n :: u64", where ?'a = nat] by simp
  have ge: "strsz di \<le> ucast n \<longleftrightarrow> length strs \<le> unat n" using off t(1) by (simp add: word_le_nat_alt)
  show ?thesis
  proof (cases "unat n = 0 \<or> length strs \<le> unat n")
    case True
    then show ?thesis by (auto simp: symbol_name_def string_at_def Let_def z ge)
  next
    case False
    let ?k = "min (length strs - unat n) 255"
    have s: "unat (strsz di - ucast n) = length strs - unat n" using False t(1) off by (subst unat_sub) (simp_all add: word_le_nat_alt)
    have ov: "\<not> UINT64_MAX - ucast n < strtab di" unfolding overflow_iff off using False t(2) by simp
    have a: "(word_of_nat (unat n) :: u64) = ucast n" by (simp add: unsigned_ucast_eq word_eq_iff_unsigned [where ?'a = nat] unat_of_nat off)
    have len: "length (take 255 (drop (unat n) strs)) = ?k" by simp
    from holds_readable [OF holds_sub [OF t(3), of "unat n" 255]] False
    have "readable_bytes mem (strtab di + ucast n) ?k = take 255 (drop (unat n) strs)" by (simp only: len a) simp
    then show ?thesis using False by (simp add: symbol_name_def string_at_def Let_def z ge s linorder_not_le ov)
  qed
qed

lemma symbol_at_exact:
  assumes "tables_hold mem di syms strs" "i < length syms"
  shows "read_all mem (symtab di + word_of_nat i * syment di) sizeof_Sym = Some (put_sym (syms ! i))"
    "\<not> i > unat ((UINT64_MAX - symtab di) div syment di)"
proof -
  have t: "syment di = 24" "unat (symtab di) + 24 * length syms \<le> 2 ^ 64" "holds mem (symtab di) (concat (map put_sym syms))"
    using assms(1) by (simp_all add: tables_hold_def)
  have "holds mem (symtab di + word_of_nat i * word_of_nat 24) (put_sym (syms ! i))"
    by (rule holds_table [OF t(3)]) (use assms(2) in simp_all)
  then show "read_all mem (symtab di + word_of_nat i * syment di) sizeof_Sym = Some (put_sym (syms ! i))"
    by (simp add: t(1) holds_read)
  show "\<not> i > unat ((UINT64_MAX - symtab di) div syment di)"
    using assms(2) t(2) by (simp add: unat_div_ge t(1) not_less less_eq_div_iff_mult_less_eq)
qed

lemma symbol_loop_exact:
  assumes t: "tables_hold mem di syms strs"
    and fit: "\<And>s. s \<in> set syms \<Longrightarrow> unat bias + unat (st_val s) < 2 ^ 64"
  shows "i \<le> length syms \<Longrightarrow> symbol_loop mem di bias f (length syms) i =
    (case find (\<lambda>s. defined_function s \<and> string_at strs (unat (st_name s)) = Some f) (drop i syms) of
       None \<Rightarrow> 0 | Some s \<Rightarrow> bias + st_val s)"
proof (induction "length syms - i" arbitrary: i)
  case 0
  then show ?case by (subst symbol_loop.simps) simp
next
  case (Suc n)
  then have i: "i < length syms" by simp
  have d: "drop i syms = syms ! i # drop (i + 1) syms" using i by (simp add: Cons_nth_drop_Suc)
  have ov: "\<not> UINT64_MAX - st_val (syms ! i) < bias" unfolding overflow_iff using fit [of "syms ! i"] i by (simp add: not_le)
  note IH = Suc.hyps(1) [of "i + 1"]
  show ?case using symbol_at_exact [OF t i] i IH Suc.hyps(2) ov
    by (subst symbol_loop.simps) (simp add: d Let_def symbol_name_exact [OF t])
qed

lemma holds_byte: "holds mem a bs \<Longrightarrow> n < length bs \<Longrightarrow> read_all mem (a + word_of_nat n) 1 \<noteq> None"
  using holds_read [OF holds_sub [of mem a bs n 1]] by simp

lemma tables_hold_complete:
  assumes "tables_hold mem di syms strs"
  shows "tables_complete mem di (length syms)"
proof -
  have t: "syment di = 24" "unat (symtab di) + 24 * length syms \<le> 2 ^ 64" "unat (strtab di) + length strs \<le> 2 ^ 64"
    "0 < length syms" "0 < length strs" "unat (strsz di) = length strs" "holds mem (strtab di) strs"
    using assms by (simp_all add: tables_hold_def)
  let ?j = "length syms - 1"
  have j: "?j < length syms" using t(4) by simp
  have w: "unat (symtab di + word_of_nat ?j * 24) = unat (symtab di) + ?j * 24"
    using table_addr [of "symtab di" ?j 24] t(2) j by simp
  have "holds mem (symtab di + word_of_nat ?j * 24) (put_sym (syms ! ?j))"
    using symbol_at_exact(1) [OF assms j] by (simp add: t(1) read_all_iff)
  from holds_byte [OF this, of 23] have 1: "read_all mem (symtab di + word_of_nat ?j * 24 + 23) 1 \<noteq> None"
    by simp
  have 2: "\<not> symtab di + word_of_nat ?j * 24 > UINT64_MAX - 23" unfolding overflow_iff w using t(2) j by simp
  have s1: "unat (strsz di - 1) = length strs - 1" using t(5,6) by (subst unat_sub) (auto simp: word_le_nat_alt Suc_le_eq)
  have 3: "\<not> strtab di > UINT64_MAX - (strsz di - 1)" unfolding overflow_iff s1 using t(3,5) by (cases strs) simp_all
  have "word_of_nat (length strs - 1) = strsz di - 1" by (simp only: s1 [symmetric] of_nat_unat) simp
  with holds_byte [OF t(7), of "length strs - 1"] t(5) have "read_all mem (strtab di + strsz di - 1) 1 \<noteq> None"
    by (simp only: add_diff_eq) (simp add: add_diff_eq)
  with 1 2 3 symbol_at_exact(2) [OF assms j] show ?thesis by (simp add: tables_complete_def t(1))
qed

text \<open>The dynamic section: values below the base are addresses the linker has not relocated.\<close>

definition relocated :: "u64 \<Rightarrow> u64 \<Rightarrow> u64 \<Rightarrow> u64" where
  "relocated base bias v = (if v \<noteq> 0 \<and> v < base then v + bias else v)"

definition dyn_view :: "u64 \<Rightarrow> u64 \<Rightarrow> Elf64_Dyn list \<Rightarrow> dyn_info \<Rightarrow> dyn_info" where
  "dyn_view base bias ds di = foldl (\<lambda>di d. dyn_set (d_tag d) (relocated base bias (d_un d)) (d_un d) di) di ds"

definition wf_dyn :: "u64 \<Rightarrow> u64 \<Rightarrow> Elf64_Dyn \<Rightarrow> bool" where
  "wf_dyn base bias d \<longleftrightarrow> d_tag d \<noteq> 0 \<and> (d_un d \<noteq> 0 \<longrightarrow> d_un d < base \<longrightarrow> unat bias + unat (d_un d) < 2 ^ 64)"

definition dyn_null :: Elf64_Dyn where "dyn_null = \<lparr>d_tag = 0, d_un = 0\<rparr>"

lemma dyn_loop_exact:
  assumes h: "holds mem dv (concat (map put_dyn (ds @ [dyn_null])))" and fit: "unat dv + 16 * (length ds + 1) \<le> 2 ^ 64"
    and n: "length ds < n" and wf: "list_all (wf_dyn base bias) ds"
  shows "i \<le> length ds \<Longrightarrow> dyn_loop mem base bias dv n i di = Some (dyn_view base bias (drop i ds) di)"
proof (induction "length ds - i" arbitrary: i di)
  case 0
  then have i: "i = length ds" by simp
  have "holds mem (dv + word_of_nat i * word_of_nat 16) (put_dyn ((ds @ [dyn_null]) ! i))"
    by (rule holds_table [OF h]) (simp_all add: i)
  then have "read_all mem (dv + word_of_nat i * 16) sizeof_Dyn = Some (put_dyn dyn_null)" by (simp add: holds_read i)
  moreover have "\<not> i > unat ((UINT64_MAX - dv) div 16)" using fit by (simp add: unat_div_ge i not_less less_eq_div_iff_mult_less_eq)
  ultimately show ?case using n by (subst dyn_loop.simps) (simp add: i Let_def dyn_null_def dyn_view_def)
next
  case (Suc k)
  then have i: "i < length ds" by simp
  have "holds mem (dv + word_of_nat i * word_of_nat 16) (put_dyn ((ds @ [dyn_null]) ! i))"
    by (rule holds_table [OF h]) (use i in simp_all)
  then have rd: "read_all mem (dv + word_of_nat i * 16) sizeof_Dyn = Some (put_dyn (ds ! i))" using i by (simp add: holds_read nth_append)
  have ov: "\<not> i > unat ((UINT64_MAX - dv) div 16)" using fit i by (simp add: unat_div_ge not_less less_eq_div_iff_mult_less_eq)
  have w: "wf_dyn base bias (ds ! i)" using wf i by (simp add: list_all_length)
  have d: "drop i ds = ds ! i # drop (i + 1) ds" using i by (simp add: Cons_nth_drop_Suc)
  have re: "\<not> UINT64_MAX - d_un (ds ! i) < bias" if "d_un (ds ! i) \<noteq> 0" "d_un (ds ! i) < base"
    unfolding overflow_iff using w that by (simp add: wf_dyn_def not_le)
  note IH = Suc.hyps(1) [of "i + 1"]
  show ?case using rd ov w re IH i n Suc.hyps(2)
    by (subst dyn_loop.simps) (simp add: d Let_def wf_dyn_def dyn_view_def relocated_def)
qed

lemma field_at_table:
  assumes "\<And>x. x \<in> set xs \<Longrightarrow> length (enc x) = w" "i < length xs"
  shows "field_at w (i * w) (concat (map enc xs)) = enc (xs ! i)"
  using assms
proof (induction xs arbitrary: i)
  case (Cons x xs)
  then show ?case by (cases i) (simp_all add: field_at_def)
qed simp

lemma remote_phdrs_exact:
  assumes e: "holds mem base (put_ehdr eh)" "wf_ehdr eh" "take 4 (e_ident eh) = ELFMAG" "unat (e_phentsize eh) = 56"
      "unat (e_phnum eh) = length phs" "unat base + unat (e_phoff eh) < 2 ^ 64"
    and p: "holds mem (base + e_phoff eh) (concat (map put_phdr phs))"
  shows "remote_phdrs mem base = Some phs"
proof -
  have 1: "read_all mem base sizeof_Ehdr = Some (put_ehdr eh)" using e(1) by (rule holds_read) (rule cehdr.enc_length [OF e(2)])
  have 2: "read_all mem (base + e_phoff eh) (length phs * sizeof_Phdr) = Some (concat (map put_phdr phs))"
    by (rule holds_read [OF p]) (simp add: cphdr.length_concat_enc)
  have 3: "\<not> UINT64_MAX - e_phoff eh < base" unfolding overflow_iff using e(6) by simp
  have "map (\<lambda>i. get_phdr (field_at sizeof_Phdr (i * sizeof_Phdr) (concat (map put_phdr phs)))) [0..<length phs] = phs"
    by (rule nth_equalityI) (simp_all add: field_at_table)
  then show ?thesis using e(3-5) 3 by (simp add: remote_phdrs_def 1 2 cehdr.dec_enc [OF e(2)])
qed

text \<open>
  A library mapped at \<open>base\<close>: its headers, its dynamic section, its tables and one of the two
  hash tables are in memory where they say they are, and nothing wraps around.
\<close>

definition hash_holds :: "memory \<Rightarrow> dyn_info \<Rightarrow> nat \<Rightarrow> bool" where
  "hash_holds mem di n \<longleftrightarrow>
     (\<exists>nb. hash di \<noteq> 0 \<and> unat (hash di) + 4 < 2 ^ 64 \<and> nb \<noteq> 0 \<and> unat nb \<le> 2 ^ 20 \<and>
        holds mem (hash di) (put32 nb @ put32 (word_of_nat n))) \<or>
     (\<exists>k0 bloom shift gs. hash di = 0 \<and> gnu_hash di \<noteq> 0 \<and> 0 < k0 \<and> n = k0 + length (concat gs) \<and> 0 < length gs \<and> length gs \<le> 2 ^ 20 \<and>
        0 < length bloom \<and> length bloom \<le> 2 ^ 20 \<and> unat (gnu_hash di) + length (gnu_table k0 bloom shift gs) < 2 ^ 64 \<and>
        holds mem (gnu_hash di) (gnu_table k0 bloom shift gs))"

lemma symbol_count_exact:
  assumes "hash_holds mem di n" "0 < n" "n \<le> 2 ^ 20"
  shows "symbol_count mem di = Some n"
  using assms(1) unfolding hash_holds_def
proof (elim disjE exE conjE)
  fix nb assume h: "hash di \<noteq> 0" "unat (hash di) + 4 < 2 ^ 64" "nb \<noteq> 0" "unat nb \<le> 2 ^ 20"
    "holds mem (hash di) (put32 nb @ put32 (word_of_nat n))"
  have u: "unat (word_of_nat n :: u32) = n" using assms(3) by (simp add: unat_of_nat)
  then have nz: "(word_of_nat n :: u32) \<noteq> 0" using assms(2) by (metis unsigned_0 less_irrefl)
  have ov: "\<not> UINT64_MAX - 4 < hash di" unfolding overflow_iff using h(2) by simp
  have "read_u32 mem (hash di) = Some nb" "read_u32 mem (hash di + 4) = Some (word_of_nat n)"
    using h(5) by (simp_all add: holds_append holds_get32)
  then show ?thesis using h(1,3,4) ov u nz assms(3) by (simp add: symbol_count_def sysv_count_def)
next
  fix k0 bloom shift gs
  assume "hash di = 0" "gnu_hash di \<noteq> 0" "0 < k0" "n = k0 + length (concat gs)" "0 < length gs" "length gs \<le> 2 ^ 20"
    "0 < length bloom" "length bloom \<le> 2 ^ 20" "unat (gnu_hash di) + length (gnu_table k0 bloom shift gs) < 2 ^ 64"
    "holds mem (gnu_hash di) (gnu_table k0 bloom shift gs)"
  then show ?thesis using gnu_count_exact [of mem "gnu_hash di" k0 bloom shift gs] assms(3) by (simp add: symbol_count_def)
qed

definition loaded :: "memory \<Rightarrow> u64 \<Rightarrow> library \<Rightarrow> u64 \<Rightarrow> bool" where
  "loaded mem base lib bias \<longleftrightarrow>
     base \<noteq> 0 \<and> wf_ehdr (li_ehdr lib) \<and> take 4 (e_ident (li_ehdr lib)) = ELFMAG \<and> unat (e_phentsize (li_ehdr lib)) = 56 \<and>
     unat (e_phnum (li_ehdr lib)) = length (li_phdrs lib) \<and> unat base + unat (e_phoff (li_ehdr lib)) < 2 ^ 64 \<and>
     holds mem base (put_ehdr (li_ehdr lib)) \<and> holds mem (base + e_phoff (li_ehdr lib)) (concat (map put_phdr (li_phdrs lib))) \<and>
     load_bias base (li_phdrs lib) = Some bias \<and>
     (\<exists>dv dsz. dynamic_section bias (li_phdrs lib) = Some (dv, dsz) \<and> unat dv + 16 * (length (li_dyn lib) + 1) \<le> 2 ^ 64 \<and>
        16 * (length (li_dyn lib) + 1) \<le> unat dsz \<and> length (li_dyn lib) < 4096 \<and>
        holds mem dv (concat (map put_dyn (li_dyn lib @ [dyn_null]))) \<and> list_all (wf_dyn base bias) (li_dyn lib)) \<and>
     (\<forall>s \<in> set (li_syms lib). unat bias + unat (st_val s) < 2 ^ 64) \<and> length (li_syms lib) \<le> 2 ^ 20 \<and>
     (let di = dyn_view base bias (li_dyn lib) dyn_none in
        symtab di \<noteq> 0 \<and> strtab di \<noteq> 0 \<and> unat (strsz di) \<le> 2 ^ 26 \<and>
        tables_hold mem di (li_syms lib) (li_strs lib) \<and> hash_holds mem di (length (li_syms lib)))"

lemma sym_lookup_exact:
  assumes "loaded mem base lib bias"
  shows "get_remote_sym_address (Some mem) base f = (case lib_lookup lib f of None \<Rightarrow> 0 | Some s \<Rightarrow> bias + st_val s)"
proof -
  define di where "di = dyn_view base bias (li_dyn lib) dyn_none"
  have l: "base \<noteq> 0" "load_bias base (li_phdrs lib) = Some bias" "\<And>s. s \<in> set (li_syms lib) \<Longrightarrow> unat bias + unat (st_val s) < 2 ^ 64"
    "length (li_syms lib) \<le> 2 ^ 20" "symtab di \<noteq> 0" "strtab di \<noteq> 0" "unat (strsz di) \<le> 2 ^ 26"
    "tables_hold mem di (li_syms lib) (li_strs lib)" "hash_holds mem di (length (li_syms lib))"
    and ph: "remote_phdrs mem base = Some (li_phdrs lib)"
    using assms by (auto simp: loaded_def Let_def di_def intro!: remote_phdrs_exact)
  obtain dv dsz where d: "dynamic_section bias (li_phdrs lib) = Some (dv, dsz)" "unat dv + 16 * (length (li_dyn lib) + 1) \<le> 2 ^ 64"
    "16 * (length (li_dyn lib) + 1) \<le> unat dsz" "length (li_dyn lib) < 4096"
    "holds mem dv (concat (map put_dyn (li_dyn lib @ [dyn_null])))" "list_all (wf_dyn base bias) (li_dyn lib)"
    using assms unfolding loaded_def by blast
  have n: "0 < length (li_syms lib)" "syment di = 24" "strsz di \<noteq> 0" using l(8) by (auto simp: tables_hold_def)
  have "length (li_dyn lib) < min (unat dsz div 16) ARTHUR_MAX_DYN" using d(3,4) by (simp add: less_eq_div_iff_mult_less_eq Suc_le_eq [symmetric])
  from dyn_loop_exact [OF d(5,2) this d(6), of 0] have "dyn_loop mem base bias dv (min (unat dsz div 16) ARTHUR_MAX_DYN) 0 dyn_none = Some di"
    by (simp add: di_def)
  then have dyn: "read_dynamic mem base bias (dv, dsz) = Some di"
    using l(5-7) n by (simp add: read_dynamic_def word_less_nat_alt not_less)
  show ?thesis using l(1) n(1) tables_hold_complete [OF l(8)] symbol_loop_exact [OF l(8,3), of 0 f]
    by (simp add: get_remote_sym_address_def ph l(2) d(1) dyn symbol_count_exact [OF l(9) n(1) l(4)] lib_lookup_def)
qed
text \<open>
  C17: For a library loaded in the target's memory, with either kind of hash table, the lookup
  computes the abstract search: the load bias plus the value of the first defined function of
  that name in the library's symbols, and 0 when there is none.
\<close>

theorem sym_lookup_refines:
  assumes "loaded mem base lib bias"
  shows "get_remote_sym_address (Some mem) base f = (case lib_lookup lib f of None \<Rightarrow> 0 | Some s \<Rightarrow> bias + st_val s)"
  by (rule sym_lookup_exact [OF assms])

subsection \<open>A library with one function\<close>

definition image_at :: "u64 \<Rightarrow> bytes \<Rightarrow> memory" where
  "image_at base img a = (if unat (a - base) < length img then Some (img ! unat (a - base)) else None)"

lemma holds_image: "length img \<le> 2 ^ 64 \<Longrightarrow> holds (image_at base img) base img"
  by (simp add: holds_def image_at_def unat_of_nat)

definition lib1 :: library where
  "lib1 =
     \<lparr>li_ehdr = Ehdr_new\<lparr>e_phnum := 2\<rparr>,
      li_phdrs = [Phdr_zero\<lparr>p_type := 1\<rparr>, Phdr_zero\<lparr>p_type := 2, p_vaddr := 176, p_memsz := 96\<rparr>],
      li_dyn = [\<lparr>d_tag = 6, d_un = 304\<rparr>, \<lparr>d_tag = 5, d_un = 352\<rparr>, \<lparr>d_tag = 10, d_un = 6\<rparr>, \<lparr>d_tag = 11, d_un = 24\<rparr>,
                \<lparr>d_tag = 0x6ffffef5, d_un = 272\<rparr>],
      li_syms = [\<lparr>st_name = 0, st_info = 0, st_other = 0, st_shndx = 0, st_val = 0, st_size = 0\<rparr>,
                 \<lparr>st_name = 1, st_info = 0x12, st_other = 0, st_shndx = 7, st_val = 2048, st_size = 16\<rparr>],
      li_strs = NUL # ''fork'' @ [NUL]\<rparr>"

definition image1 :: bytes where
  "image1 = put_ehdr (li_ehdr lib1) @ concat (map put_phdr (li_phdrs lib1)) @ concat (map put_dyn (li_dyn lib1 @ [dyn_null])) @
     gnu_table 1 [0] 6 [[7]] @ concat (map put_sym (li_syms lib1)) @ li_strs lib1"

lemma loaded_lib1: "loaded (image_at 4096 image1) 4096 lib1 4096"
proof -
  have e: "length (put_ehdr (Ehdr_new\<lparr>e_phnum := 2\<rparr>)) = 64" by (rule cehdr.enc_length) (simp add: wf_ehdr_def Ehdr_new_def)
  have g: "length (gnu_table 1 [0] 6 [[7]]) = 32" by (simp add: gnu_table_def)
  have "holds (image_at 4096 image1) 4096 image1" by (rule holds_image) (simp add: image1_def lib1_def e g [unfolded One_nat_def])
  then have h: "holds (image_at 4096 image1) 4096 (put_ehdr (li_ehdr lib1))"
    "holds (image_at 4096 image1) 4160 (concat (map put_phdr (li_phdrs lib1)))"
    "holds (image_at 4096 image1) 4272 (concat (map put_dyn (li_dyn lib1 @ [dyn_null])))"
    "holds (image_at 4096 image1) 4368 (gnu_table 1 [0] 6 [[7]])"
    "holds (image_at 4096 image1) 4400 (concat (map put_sym (li_syms lib1)))"
    "holds (image_at 4096 image1) 4448 (li_strs lib1)"
    unfolding image1_def holds_append by (simp_all add: lib1_def e g [unfolded One_nat_def])
  have di: "dyn_view 4096 4096 (li_dyn lib1) dyn_none =
      \<lparr>symtab = 4400, strtab = 4448, strsz = 6, syment = 24, hash = 0, gnu_hash = 4368\<rparr>"
    by (simp add: dyn_view_def dyn_none_def dyn_set_def relocated_def lib1_def)
  have "hash_holds (image_at 4096 image1) \<lparr>symtab = 4400, strtab = 4448, strsz = 6, syment = 24, hash = 0, gnu_hash = 4368\<rparr> (length (li_syms lib1))"
    unfolding hash_holds_def
    by (rule disjI2, rule exI [of _ 1], rule exI [of _ "[0]"], rule exI [of _ 6], rule exI [of _ "[[7]]"]) (use h(4) g in \<open>simp add: lib1_def del: One_nat_def\<close>)
  then show ?thesis using h(1,2,3,5,6) unfolding loaded_def di Let_def
    by (simp add: lib1_def wf_ehdr_def Ehdr_new_def load_bias_def dynamic_section_def Phdr_zero_def wf_dyn_def tables_hold_def)
qed

theorem sym_lookup_refines_witness:
  "loaded (image_at 4096 image1) 4096 lib1 4096 \<and>
   get_remote_sym_address (Some (image_at 4096 image1)) 4096 ''fork'' = 6144 \<and>
   get_remote_sym_address (Some (image_at 4096 image1)) 4096 ''exec'' = 0"
  unfolding sym_lookup_refines [OF loaded_lib1]
  by (rule conjI [OF loaded_lib1]) (simp add: lib_lookup_def lib1_def string_at_def defined_function_def)

lemma sym_lookup_lib1: "get_remote_sym_address (Some (image_at 4096 image1)) 4096 ''fork'' = 6144"
  unfolding sym_lookup_exact [OF loaded_lib1] by (simp add: lib_lookup_def lib1_def string_at_def defined_function_def)

theorem sym_lookup_sound_witness:
  "get_remote_sym_address (Some (image_at 4096 image1)) 4096 ''fork'' = 6144 \<and>
   (\<exists>(bias :: u64) di n j s. symbol_count (image_at 4096 image1) di = Some n \<and> n \<le> 2 ^ 20 \<and> j < n \<and>
      symbol_at (image_at 4096 image1) di j = Some s \<and> matches (image_at 4096 image1) di ''fork'' s \<and>
      unat bias + unat (st_val s) = 6144)"
proof
  show "get_remote_sym_address (Some (image_at 4096 image1)) 4096 ''fork'' = 6144" by (rule sym_lookup_lib1)
  have "(6144 :: u64) \<noteq> 0" by simp
  from sym_lookup_sound [OF sym_lookup_lib1 this] obtain mem and bias :: u64 and di n j s where "Some (image_at 4096 image1) = Some mem"
    "symbol_count mem di = Some n" "n \<le> 2 ^ 20" "j < n" "symbol_at mem di j = Some s" "matches mem di ''fork'' s"
    "unat (6144 :: u64) = unat bias + unat (st_val s)" by blast
  then show "\<exists>(bias :: u64) di n j s. symbol_count (image_at 4096 image1) di = Some n \<and> n \<le> 2 ^ 20 \<and> j < n \<and>
      symbol_at (image_at 4096 image1) di j = Some s \<and> matches (image_at 4096 image1) di ''fork'' s \<and>
      unat bias + unat (st_val s) = 6144" by (intro exI [of _ bias] exI [of _ di] exI [of _ n] exI [of _ j] exI [of _ s]) simp
qed

end
