(* ===== verification/ForkRun.thy ===== *)
theory ForkRun
  imports ForkEnd RemoteProps
begin

text \<open>
  The properties of \<^verbatim>\<open>forkcore\<close>, with a run of it on a kernel whose target has one thread and
  a C library with the three functions to inject.
\<close>

section \<open>A target with a C library\<close>

definition libc3 :: library where
  "libc3 =
     \<lparr>li_ehdr = Ehdr_new\<lparr>e_phnum := 2\<rparr>,
      li_phdrs = [Phdr_zero\<lparr>p_type := 1\<rparr>, Phdr_zero\<lparr>p_type := 2, p_vaddr := 176, p_memsz := 96\<rparr>],
      li_dyn = [\<lparr>d_tag = 6, d_un = 312\<rparr>, \<lparr>d_tag = 5, d_un = 408\<rparr>, \<lparr>d_tag = 10, d_un = 21\<rparr>, \<lparr>d_tag = 11, d_un = 24\<rparr>,
                \<lparr>d_tag = 0x6ffffef5, d_un = 272\<rparr>],
      li_syms = [\<lparr>st_name = 0, st_info = 0, st_other = 0, st_shndx = 0, st_val = 0, st_size = 0\<rparr>,
                 \<lparr>st_name = 1, st_info = 0x12, st_other = 0, st_shndx = 7, st_val = 2048, st_size = 16\<rparr>,
                 \<lparr>st_name = 6, st_info = 0x12, st_other = 0, st_shndx = 7, st_val = 2064, st_size = 16\<rparr>,
                 \<lparr>st_name = 13, st_info = 0x12, st_other = 0, st_shndx = 7, st_val = 2080, st_size = 16\<rparr>],
      li_strs = NUL # ''mmap'' @ NUL # ''munmap'' @ NUL # ''waitpid'' @ [NUL]\<rparr>"

definition libc_image :: bytes where
  "libc_image = put_ehdr (li_ehdr libc3) @ concat (map put_phdr (li_phdrs libc3)) @ concat (map put_dyn (li_dyn libc3 @ [dyn_null])) @
     gnu_table 1 [0] 6 [[6, 6, 7]] @ concat (map put_sym (li_syms libc3)) @ li_strs libc3"

lemma loaded_libc: "loaded (image_at 4096 libc_image) 4096 libc3 4096"
proof -
  have e: "length (put_ehdr (Ehdr_new\<lparr>e_phnum := 2\<rparr>)) = 64" by (rule cehdr.enc_length) (simp add: wf_ehdr_def Ehdr_new_def)
  have g: "length (gnu_table 1 [0] 6 [[6, 6, 7]]) = 40" by (simp add: gnu_table_def)
  have "holds (image_at 4096 libc_image) 4096 libc_image" by (rule holds_image) (simp add: libc_image_def libc3_def e g [unfolded One_nat_def])
  then have h: "holds (image_at 4096 libc_image) 4096 (put_ehdr (li_ehdr libc3))"
    "holds (image_at 4096 libc_image) 4160 (concat (map put_phdr (li_phdrs libc3)))"
    "holds (image_at 4096 libc_image) 4272 (concat (map put_dyn (li_dyn libc3 @ [dyn_null])))"
    "holds (image_at 4096 libc_image) 4368 (gnu_table 1 [0] 6 [[6, 6, 7]])"
    "holds (image_at 4096 libc_image) 4408 (concat (map put_sym (li_syms libc3)))"
    "holds (image_at 4096 libc_image) 4504 (li_strs libc3)"
    unfolding libc_image_def holds_append by (simp_all add: libc3_def e g [unfolded One_nat_def])
  let ?di = "\<lparr>symtab = 4408, strtab = 4504, strsz = 21, syment = 24, hash = 0, gnu_hash = 4368\<rparr>"
  have di: "dyn_view 4096 4096 (li_dyn libc3) dyn_none = ?di"
    by (simp add: dyn_view_def dyn_none_def dyn_set_def relocated_def libc3_def)
  have "hash_holds (image_at 4096 libc_image) ?di (length (li_syms libc3))"
    unfolding hash_holds_def
    by (rule disjI2, rule exI [of _ 1], rule exI [of _ "[0]"], rule exI [of _ 6], rule exI [of _ "[[6, 6, 7]]"])
      (use h(4) g in \<open>simp add: libc3_def del: One_nat_def\<close>)
  then show ?thesis using h(1,2,3,5,6) unfolding loaded_def di Let_def
    by (simp add: libc3_def wf_ehdr_def Ehdr_new_def load_bias_def dynamic_section_def Phdr_zero_def wf_dyn_def tables_hold_def)
qed

lemma libc_symbols:
  "get_remote_sym_address (Some (image_at 4096 libc_image)) 4096 ''mmap'' = 6144"
  "get_remote_sym_address (Some (image_at 4096 libc_image)) 4096 ''munmap'' = 6160"
  "get_remote_sym_address (Some (image_at 4096 libc_image)) 4096 ''waitpid'' = 6176"
  unfolding sym_lookup_exact [OF loaded_libc]
  by (simp_all add: lib_lookup_def libc3_def string_at_def defined_function_def)

text \<open>
  The target of \<open>gen_kern\<close>, with that library; every injected call ends in the fault that
  marks its end and returns \<open>0x10000\<close>, as an address and as a process id.
\<close>

definition fork_regs :: x64_regs where "fork_regs = sim_regs\<lparr>rax := 0x10000\<rparr>"

definition fork_smaps :: string where "fork_smaps = ''1000-3000 rw-p 00000000 00:00 0'' @ NL # ''VmFlags: rd wr mr'' @ [NL]"
definition fork_maps :: string where "fork_maps = ''1000-3000 r-xp 00000000 00:00 0 /lib/libc.so.6'' @ [NL]"

definition fork_kern :: kern where
  "fork_kern = gen_kern\<lparr>k_getregs := \<lambda>h p. Inr fork_regs,
     k_waitpid := \<lambda>h p. Inr (Some (stopped_status (case h of Ctl _ (CONT _) _ # _ \<Rightarrow> 11 | _ \<Rightarrow> 19) 0)),
     k_text := \<lambda>h f. if f = ''/proc/7/smaps'' then Some (fork_smaps, False)
                else if f = ''/proc/7/maps'' then Some (fork_maps, False) else None,
     k_mem := \<lambda>h p. Some (if p = 7 then sample_mem\<lparr>mf_byte := image_at 4096 libc_image\<rparr> else sample_mem)\<rparr>"


lemma fork_kern_simps [simp]:
  "k_capture fork_kern h = sample_env" "k_threads fork_kern h = sample_te" "k_ctl fork_kern h p req = Inr ()"
  "k_getregs fork_kern h p = Inr fork_regs" "k_getxstate fork_kern h p = Inr (sim_x h p)"
  "k_tasks fork_kern h p = Inr ([''.'', ''..'', ''7''], None)" "wait_errors fork_kern" "k_clock fork_kern h = int (length h)"
  "k_siginfo fork_kern h p = Inr \<lparr>sg_signo = 19, sg_code = SI_KERNEL, sg_pid = 0, sg_status = 0\<rparr>"
  "k_write fork_kern h p a bs = Inr (length bs)" "k_mem fork_kern h 65536 = Some sample_mem"
  by (simp_all add: fork_kern_def gen_kern_def sim_kern_def wait_errors_def)

lemma fork_sys [simp]:
  "sys_ctl fork_kern p req h = (Inr (), Ctl p req True # h)" "sys_getregs fork_kern p h = (Inr fork_regs, Asked # h)"
  "sys_getxstate fork_kern p h = (Inr (sim_x h p), Asked # h)"
  "sys_siginfo fork_kern p h = (Inr \<lparr>sg_signo = 19, sg_code = SI_KERNEL, sg_pid = 0, sg_status = 0\<rparr>, Asked # h)"
  "sys_waitpid fork_kern p (Ctl q ATTACH ok # h) = (Inr (Some (stopped_status 19 0)), Waited p (Some (stopped_status 19 0)) # Ctl q ATTACH ok # h)"
  "sys_waitpid fork_kern p (Ctl q (CONT s) ok # h) = (Inr (Some (stopped_status 11 0)), Waited p (Some (stopped_status 11 0)) # Ctl q (CONT s) ok # h)"
  "sys_write fork_kern p a bs h = (Inr (length bs), Wrote p a bs (length bs) # h)"
  by (simp_all add: sys_ctl_def sys_getregs_def sys_getxstate_def sys_siginfo_def sys_waitpid_def sys_write_def Let_def)
    (simp_all add: fork_kern_def)

lemma fork_peek: "\<exists>w. sys_peek fork_kern p a h = (Inr w, Asked # h)"
  by (simp add: sys_peek_def fork_kern_def gen_kern_def sim_kern_def)

lemma fork_peeks: "\<exists>ws h'. peek_words fork_kern p as h = (Inr ws, h')"
proof (induction as arbitrary: h)
  case (Cons a as)
  obtain w where "sys_peek fork_kern p a h = (Inr w, Asked # h)" using fork_peek by blast
  moreover obtain ws h' where "peek_words fork_kern p as (Asked # h) = (Inr ws, h')" using Cons by blast
  ultimately show ?case by simp
qed simp

lemma fork_pokes: "\<exists>h'. poke_words fork_kern p ws h = (True, h')"
proof (induction ws arbitrary: h)
  case (Cons w ws)
  obtain a v where "w = (a, v)" by (cases w)
  moreover obtain h' where "poke_words fork_kern p ws (Ctl p (POKEDATA a v) True # h) = (True, h')" using Cons by blast
  ultimately show ?case by simp
qed simp

lemma fork_restores: "\<exists>h'. restore_saved fork_kern p sv h = (True, h')"
proof -
  obtain h1 where 1: "poke_words fork_kern p (sv_slot sv) h = (True, h1)" using fork_pokes by blast
  obtain h2 where 2: "poke_words fork_kern p (sv_red sv) h1 = (True, h2)" using fork_pokes by blast
  show ?thesis by (simp add: restore_saved_def 1 2 split: option.split)
qed

lemma fork_waits: "pt_wait fork_kern p (Ctl q (CONT s) ok # h) =
    Some (Inr (stopped_status 11 0), Waited p (Some (stopped_status 11 0)) # Ctl q (CONT s) ok # h)"
  by (simp add: pt_wait_def wait_loop.simps)

lemma fork_injects: "\<exists>h'. inject_loop fork_kern p c (k_clock fork_kern h) 0 out h = Some (True, out, h')"
proof -
  have "\<not> WIFSTOPPED 0" by (simp add: WIFSTOPPED_def)
  then show ?thesis
    by (simp add: inject_loop.simps [of _ _ _ _ 0] stop_verdict_def fork_waits)
      (simp add: inject_loop.simps stop_verdict_def crash_verdict_def)
qed

lemma fork_calls:
  obtains out h' where "pt_call fork_kern p f argv c h = Some (Called fork_regs, out, h')" "co_rsp out = 0x7fe8"
proof -
  have rsp: "rsp fork_regs = 0x7ff8" by (simp add: fork_regs_def sim_regs_def)
  have slot: "inject_slot 0x7ff8 = 0x7fe8" by (simp add: inject_slot_def)
  obtain w where w: "sys_peek fork_kern p 0x7fe8 (Asked # Asked # h) = (Inr w, Asked # Asked # Asked # h)" using fork_peek by blast
  obtain ws h4 where ws: "peek_words fork_kern p (red_zone_words 0x7ff8) (Asked # Asked # Asked # h) = (Inr ws, h4)" using fork_peeks by blast
  obtain sv out h1 where p: "prepare_call fork_kern p f argv h = (True, sv, out, h1)" "co_rsp out = 0x7fe8"
    by (simp add: prepare_call_def pt_setregs_def rsp slot w ws Let_def call_out_none_def)
  obtain h2 where i: "inject_loop fork_kern p c (k_clock fork_kern h1) 0 out h1 = Some (True, out, h2)" using fork_injects by blast
  obtain h3 where r: "restore_saved fork_kern p sv (Asked # h2) = (True, h3)" using fork_restores by blast
  show thesis by (rule that [of out h3]) (use i in \<open>simp_all add: pt_call_def p r\<close>)
qed

section \<open>The run\<close>

lemma fork_attach: "pt_attach fork_kern p h = Some (Inr 0, Asked # Waited p (Some (stopped_status 19 0)) # Ctl p ATTACH True # h)"
  by (simp add: pt_attach_def pt_wait_def wait_loop.simps attach_stopped_def attach_signal_def Let_def)

lemma fork_detach: "pt_detach fork_kern p sig h = (Inr (), Ctl p (DETACH sig) True # h)"
  by (simp add: pt_detach_def)

lemma fork_tasks: "list_task_tids fork_kern p h = (Inr [7], Asked # h)"
proof -
  have "foldr tid_insert (List.map_filter task_tid [''.'', ''..'', ''7'']) [] = [7]" by code_simp
  then show ?thesis by (simp add: list_task_tids_def)
qed

lemma fork_zombie: "task_is_zombie fork_kern 7 h = (Inr False, Asked # h)"
  using gen_zombie [of h] unfolding task_is_zombie_def gen_kern_simps fork_kern_simps .

lemma fork_stopped: "\<exists>m1 h1. fork_collect fork_kern (mon_new 7) h = Some (True, m1, h1) \<and> m_thrd m1 = [7] \<and> m_bound m1 = 0 \<and> m_pid m1 = 7"
  by (simp add: fork_collect_def mon_new_def fork_attach collect_threads_def fork_tasks Let_def numeral_eq_Suc del: Suc_eq_numeral)

lemma fork_texts:
  "k_text fork_kern h ''/proc/7/smaps'' = Some (fork_smaps, False)" "k_text fork_kern h ''/proc/7/maps'' = Some (fork_maps, False)"
  "k_text fork_kern h ''/proc/self/maps'' = None"
  "map_option mf_byte (k_mem fork_kern h 7) = Some (image_at 4096 libc_image)" "k_self fork_kern = 1"
  by (simp_all add: fork_kern_def gen_kern_def sim_kern_def)

lemma fork_paths: "proc_path 7 ''smaps'' = ''/proc/7/smaps''" "proc_path 7 ''maps'' = ''/proc/7/maps''"
  by code_simp+

lemma fork_not_direct: "fork_snapshot_requires_direct_capture fork_kern 7 [sample_region] h = (False, Asked # Asked # h)"
proof -
  have "\<not> regs_has_restart_return fork_regs" by code_simp
  moreover have "\<not> is_shared sample_region" by code_simp
  moreover have "smaps_loop (text_lines fork_smaps) (0, 0, False) = Some (1, 1)" by code_simp
  ultimately show ?thesis by (simp add: fork_snapshot_requires_direct_capture_def fork_paths fork_texts)
qed

lemma fork_symbols: "inject_symbols fork_kern 7 h = ((6144, 6160, 6176), Asked # h)"
proof -
  have "get_module_address (Some (text_lines fork_maps)) ''libc'' = 4096" by code_simp
  then show ?thesis by (simp add: inject_symbols_def fork_paths fork_texts libc_symbols Let_def)
qed

definition fork_code :: shellcode where "fork_code = \<lparr>sc_code = replicate 24 NUL, sc_exit = 12\<rparr>"

lemma fork_page: "get_rc fork_regs = 0x10000" "as_pid 0x10000 = 65536" "\<not> regs_has_restart_return fork_regs"
  by code_simp+

lemma fork_forks:
  assumes m: "m_pid m = 7" "m_thrd m = [7]" "m_bound m = 0"
  shows "\<exists>m2 h2. fork_target fork_kern fork_code False (6144, 6160, 6176) m h = Some (Some (65536, 0x10000), m2, h2) \<and> m_pid m2 = 7"
proof -
  let ?h1 = "Ctl 7 (SETOPTIONS (m_options m OR TRACEFORK)) True # h"
  obtain o1 h3 where c1: "pt_call fork_kern 7 6144 MMAP_ARGS 0 (Asked # ?h1) = Some (Called fork_regs, o1, h3)" by (rule fork_calls)
  have b: "arthur_max_user_va fork_kern m h3 = (0x00007FFFFFFFFFFF, m\<lparr>m_bound := 0x00007FFFFFFFFFFF\<rparr>, Asked # h3)"
    using m(3) by (simp add: arthur_max_user_va_def fork_texts)
  have i: "implausible_page fork_kern 0x10000 m h3 = (False, m\<lparr>m_bound := 0x00007FFFFFFFFFFF\<rparr>, Asked # h3)"
    by (simp add: implausible_page_def b)
  have i1: "inject_mmap fork_kern 6144 fork_regs m (Asked # ?h1) = Some (Some 0x10000, m\<lparr>m_bound := 0x00007FFFFFFFFFFF\<rparr>, Asked # Asked # h3)"
    using m(1) by (simp add: inject_mmap_def c1 fork_page i)
  let ?m = "m\<lparr>m_bound := 0x00007FFFFFFFFFFF\<rparr>"
  let ?h4 = "Wrote 7 0x10000 (sc_code fork_code) (length (sc_code fork_code)) # Asked # Asked # h3"
  obtain o2 h5 where c2: "pt_call fork_kern 7 0x10000 [] 0 ?h4 = Some (Called fork_regs, o2, h5)" "co_rsp o2 = 0x7fe8" by (rule fork_calls)
  have w: "pt_write fork_kern 7 0x10000 (sc_code fork_code) (Asked # Asked # h3) = (Inr (), ?h4)" by (simp add: pt_write_def)
  have i2: "inject_fork fork_kern fork_code False 0x10000 fork_regs ?m (Asked # Asked # h3) =
      Some (Some 65536, ?m, Ctl 65536 (POKEDATA 0x7fe8 (co_word o2)) True # h5)"
    using m(1) by (simp add: inject_fork_def w c2 fork_page Let_def)
  obtain o3 h7 where c3: "pt_call fork_kern 7 6160 [0x10000, 0x1000] 0 (Ctl 65536 (POKEDATA 0x7fe8 (co_word o2)) True # h5) = Some (Called fork_regs, o3, h7)"
    by (rule fork_calls)
  have i3: "inject_munmap fork_kern 6160 0x10000 ?m (Ctl 65536 (POKEDATA 0x7fe8 (co_word o2)) True # h5) = Some (0, h7)"
    using m(1) by (simp add: inject_munmap_def c3)
  show ?thesis using m
    by (simp add: fork_target_def Let_def i1 i2 i3 fork_release_def pt_setregs_def fork_detach)
qed

lemma fork_ends: "end_child fork_kern False 65536 h = (True, Ctl 65536 (DETACH SIGKILL) True # h)"
  by (simp add: end_child_def pt_terminate_tracee_def fork_detach)

lemma fork_reaps: "\<exists>h'. reap_child fork_kern False 6176 7 65536 h = Some (True, h')"
proof -
  let ?h1 = "Asked # Asked # Waited 7 (Some (stopped_status 19 0)) # Ctl 7 ATTACH True # h"
  obtain out h2 where c: "pt_call fork_kern 7 6176 [word_of_int 65536, 0, 0] 65536 ?h1 = Some (Called fork_regs, out, h2)" by (rule fork_calls)
  show ?thesis using c by (simp add: reap_child_def fork_attach Let_def reap_call_def fork_page pt_setregs_def fork_detach)
qed


definition fork_run :: "((err + unit) \<times> mon \<times> history \<times> fs) option" where
  "fork_run = forkcore fork_kern counted calm_os (1, 5) gen_info 3 ARCH_AARCH64 fork_code False (Coredump_new ARCH_AARCH64 7) (mon_new 7)
     ''acore'' [] Map.empty"

lemma fork_setup_eq: "fork_setup fork_kern ARCH_AARCH64 7 h1 65536 hm = sample_setup"
  by (simp add: fork_setup_def sample_setup_def fun_eq_iff)

lemma fork_run_ends:
  obtains m1 h1 hm m' h' files' where
    "fork_point fork_kern fork_code (Coredump_new ARCH_AARCH64 7) ((mon_new 7)\<lparr>m_relay := []\<rparr>) [Asked] = Some (m1, h1, 65536, hm)"
    "m_thrd m1 = [7]" "fork_run = Some (Inr (), m', h', files')" "files' ''acore'' \<noteq> None"
proof -
  let ?c = "Coredump_new ARCH_AARCH64 7" and ?m = "(mon_new 7)\<lparr>m_relay := []\<rparr>"
  have m: "?m = mon_new 7" "m_pid (mon_new 7) = 7" by (simp_all add: mon_new_def)
  obtain m1 h1 where col: "fork_collect fork_kern ?m [Asked] = Some (True, m1, h1)" "m_thrd m1 = [7]" "m_bound m1 = 0" "m_pid m1 = 7"
    using fork_stopped m by force
  let ?h2 = "Asked # Asked # Asked # h1"
  obtain m2 hm where ft: "fork_target fork_kern fork_code False (6144, 6160, 6176) m1 ?h2 = Some (Some (65536, 0x10000), m2, hm)" "m_pid m2 = 7"
    using fork_forks [OF col(4,2,3)] by blast
  let ?s = "fork_setup fork_kern ARCH_AARCH64 7 h1 65536 hm" and ?co = "capture_core ?c (m_thrd m1)"
  have co: "?co = sample_core" "?s = sample_setup" using gen_core col(2) fork_setup_eq by simp_all
  have hd: "WriteFileHeader counted (cs_platform ?s) new_out = (Inr (), sample_start)" by (simp only: fork_setup_simps new_out_header)
  have "length (pd_thrd_pid (c_process ?co)) = 1" by (simp add: capture_core_def col(2))
  then have rm: "room sample_start (dump_cost (length (pd_thrd_pid (c_process ?co))) [load_phdr 0 sample_region])" by (simp only: gen_room)
  have cap: "capturable ?s ?co [load_phdr 0 sample_region]" by (simp only: co gen_capturable)
  obtain temp state files1 c' st2 files' where
    o: "open_atomic_lz4 counted calm_os (1, 5) gen_info 3 ''acore'' (Lz4Stream_new LZ4_Compress) Map.empty = (Inr (temp, state), new_out, files1)" and
    w: "write_acore counted (cs_env ?s) (cs_te ?s) (cs_mem ?s) (cs_platform ?s) (cs_control ?s) ?co sample_start = Some (Inr (), c', st2)" and
    cm: "commit_atomic_lz4 counted calm_os st2 temp ''acore'' state files1 = (Inr (), files')" "files' ''acore'' \<noteq> None"
    by (rule acore_delivered [OF sample_facts(1) gen_ready hd rm cap, of "(1, 5)"])
  have pid: "c_pid ?co = 7" "(7 :: int) \<noteq> 0" by (simp_all add: capture_core_def Coredump_new_def)
  obtain maps c1 st1 c2 where M: "write_meta counted sample_env sample_te 0 (\<lambda>_. 7) ?co sample_start = (Inr maps, c1, st1)"
    "source_maps sample_env ?co 7 = Inr maps"
    "write_image counted (k_mem fork_kern hm) ARCH_AARCH64 65536 maps (c1\<lparr>c_core_pid := 65536\<rparr>) st1 = Some (Inr (), c2, st2)"
    by (rule acore_as_meta [where om = "k_mem fork_kern hm" and child = 65536 and x = 65536, OF _ pid, of counted sample_env sample_te ARCH_AARCH64 sample_start c' st2])
      (use w in simp_all)
  have maps: "maps = [sample_region]" using M(2) co(1) sample_source_maps by simp
  have src: "memory_source fork_kern fork_code maps m1 h1 = Some (65536, hm)"
    by (simp add: memory_source_def maps col(4) fork_not_direct fork_symbols ft)
  have fp: "fork_point fork_kern fork_code ?c ?m [Asked] = Some (m1, h1, 65536, hm)"
    using col(1) M(2) src m by (simp add: fork_point_def)
  let ?skip = "pt_child_skip_int3 fork_kern 65536 0x10000 (sc_exit fork_code) hm"
  obtain h5 where r: "reap_child fork_kern False 6176 7 65536 (Ctl 65536 (DETACH SIGKILL) True # ?skip) = Some (True, h5)" using fork_reaps by blast
  have i: "fork_image fork_kern counted ARCH_AARCH64 fork_code False 6176 (65536, 0x10000) maps (c1\<lparr>c_core_pid := 65536\<rparr>) m2 st1 hm =
      Some (True, st2, m2, h5)"
    by (simp add: fork_image_def M(3) fork_ends r ft(2) del: One_nat_def)
  have "fork_capture fork_kern counted ARCH_AARCH64 fork_code False ?c ?m sample_start [Asked] = Some (True, st2, m2, h5)"
    using col M(1) i by (simp add: fork_capture_def m maps fork_not_direct fork_symbols ft del: One_nat_def)
  then have "fork_run = Some (Inr (), m2, h5, files')"
    using cm(1) by (simp add: fork_run_def forkcore_def m fork_zombie Let_def o new_out_header del: One_nat_def)
  then show thesis using that [OF fp col(2)] cm(2) by simp
qed

section \<open>The properties\<close>

text \<open>
  C3: The default dump is complete, end to end. Take any run of the kernel in which
  \<^verbatim>\<open>forkcore\<close> reports success on a target whose leader is alive: all threads stopped, metadata
  written, \<^verbatim>\<open>mmap\<close>, \<^verbatim>\<open>fork\<close> and \<^verbatim>\<open>munmap\<close> injected (or, if a fork would not do, nothing), target
  released, memory written, child ended and waited for, file installed. Then the threads
  captured are distinct, and the last thing the run did before it began to write was to list
  the threads once more: at that point of the run every captured thread had been seen stopped
  and not been woken since, and every thread listed is captured, or an attach in this run
  found that it does not stop; and \<^verbatim>\<open>decompress\<close> makes of the installed file an ELF core
  with the notes of the target as it was stopped, and whose \<^verbatim>\<open>LOAD\<close> segments are the mappings of
  the stopped target with the bytes of the task the memory was read from: the child as it is
  once the target has been released, or the stopped target itself. Assumed: what the kernel
  answers has the kernel's format, there are at most 65533 mappings and 131072 threads, no
  process touches the output path, the converting host has memory and disk space.
\<close>

theorem forkcore_converts:
  assumes "codec_ok cdc sync" "allocates cdc" "wait_errors K" "m_tids m = []" "0 < m_pid m" "c_pid c = m_pid m" "dump_host os info path"
    and "task_is_zombie K (m_pid m) h = (z, h0)" "z \<noteq> Inr True"
    and "forkcore K cdc os fresh info fd platform sc False c m path h files = Some (Inr (), m', h', files')"
    and "fork_point K sc c (m\<lparr>m_relay := []\<rparr>) h0 = Some (m1, h1, src, hm)"
    and "s = fork_setup K platform (m_pid m) h1 src hm" "co = capture_core c (m_thrd m1)"
    and "capture_sound s co" "threads_fit s co" "convertible s co"
    and "reads_back cdc env in_file (files' path)" "converter_sound env in_file out s co fs2" "pd_threads (c_process c0) = []"
  shows "distinct (m_thrd m1) \<and> m_pid m \<in> set (m_thrd m1) \<and> thread_set_complete K (m_pid m) (m_pid m) m1 h0 h1 \<and>
    (\<exists>maps mem sp img node. decompress cdc env in_file (Some out) c0 fs2 = (Inr (), cleanup_decompress node, fs2(out :=
        Some ((fresh_node (fst (cv_fresh env)) (snd (cv_fresh env)))\<lparr>fn_data := img\<rparr>))) \<and>
      source_maps (k_capture K h1) co (m_pid m) = Inr maps \<and> k_mem K hm src = Some mem \<and>
      notes_tell s co (cv_mem env) (cv_clk_tck env) maps sp \<and>
      core_shows (undisturbed mem \<and> readable_maps (mf_byte mem) maps) platform (mf_byte mem) maps sp img)"
proof -
  let ?m = "m\<lparr>m_relay := []\<rparr>"
  obtain temp state st0 files1 st1 st2 mx hx where F:
    "open_atomic_lz4 cdc os fresh info fd path (Lz4Stream_new LZ4_Compress) files = (Inr (temp, state), st0, files1)"
    "WriteFileHeader cdc platform st0 = (Inr (), st1)"
    "fork_capture K cdc platform sc False c ?m st1 h0 = Some (True, st2, mx, hx)"
    "commit_atomic_lz4 cdc os st2 temp path state files1 = (Inr (), files')" by (rule forkcore_Inr [OF assms(10,8,9)])
  have m: "c_pid c = m_pid ?m" "0 < m_pid ?m" "m_tids ?m = []" using assms(4-6) by simp_all
  obtain m1' h1' src' hm' c' where "fork_point K sc c ?m h0 = Some (m1', h1', src', hm')"
    "write_acore cdc (k_capture K h1') (k_threads K h1') (\<lambda>_. k_mem K hm' src') platform (m_pid ?m) (capture_core c (m_thrd m1')) st1 =
       Some (Inr (), c', st2)" by (rule fork_capture_writes [OF F(3) m(1,2) assms(3) m(3)])
  then have "write_acore cdc (cs_env s) (cs_te s) (cs_mem s) (cs_platform s) (cs_control s) co st1 = Some (Inr (), c', st2)"
    using assms(11-13) by simp
  then have W: "acore_stream cdc s co st1 c' st2" by (rule write_acore_stream) (use assms(12,14) in simp_all)
  have H: "WriteFileHeader cdc (cs_platform s) st0 = (Inr (), st1)" using F(2) assms(12) by simp
  obtain g f where G: "OpenFd cdc info (int fd) (Lz4Stream_new LZ4_Compress) = (Inr (), st0)" "fi_fdopen info = Some f" "at_end f"
    "fl_data f = []" "s_file st2 = Some g" "map_option fn_data (files' path) = Some (fl_data g)"
    by (rule acore_installed [OF F(1) H W F(4) assms(7,1,2,14,15)])
  obtain acore rd where R: "cv_in env = Some acore" "healthy acore" "fl_seekable acore" "unread acore = fl_data g"
    "Open cdc (cv_in env) (Some in_file) (Lz4Stream_new LZ4_Decompress) = (Inr (), rd)"
    using assms(17) G(6) by (auto simp: reads_back_def)
  from acore_converts [OF assms(1,2,14-16) G(1-4) H W G(5) R assms(18,19)]
    fork_collect_clear(3) [OF assms(3) m(3,2) fork_point_collect [OF assms(11)]] show ?thesis
    using assms(12) by simp
qed
theorem forkcore_converts_witness:
  "\<exists>m' h' files' acore core img m''. fork_run = Some (Inr (), m', h', files') \<and> files' ''acore'' = Some acore \<and>
     decompress counted (sample_convert (fn_data acore)) ''acore'' (Some ''core'') (Coredump_new ARCH_AARCH64 0) Map.empty =
       (Inr (), core, m'') \<and> map_option fn_data (m'' ''core'') = Some img \<and> elf_core_of ARCH_AARCH64 img \<and> length (elf_phdrs img) = 2"
proof -
  obtain m1 h1 hm m' h' files' where P:
    "fork_point fork_kern fork_code (Coredump_new ARCH_AARCH64 7) ((mon_new 7)\<lparr>m_relay := []\<rparr>) [Asked] = Some (m1, h1, 65536, hm)"
    "m_thrd m1 = [7]" "fork_run = Some (Inr (), m', h', files')" "files' ''acore'' \<noteq> None" by (rule fork_run_ends)
  then obtain node where n: "files' ''acore'' = Some node" by auto
  let ?env = "sample_convert (fn_data node)"
  have r: "reads_back counted ?env ''acore'' (files' ''acore'')" using n sample_reads by simp
  have z: "sample_setup = fork_setup fork_kern ARCH_AARCH64 (m_pid (mon_new 7)) h1 65536 hm"
    by (simp only: mon_new_def mon.simps fork_setup_eq)
  have c: "sample_core = capture_core (Coredump_new ARCH_AARCH64 7) (m_thrd m1)" by (simp only: gen_core P(2))
  have m: "m_tids (mon_new 7) = []" "0 < m_pid (mon_new 7)" "c_pid (Coredump_new ARCH_AARCH64 7) = m_pid (mon_new 7)"
    "pd_threads (c_process (Coredump_new ARCH_AARCH64 0)) = []"
    by (simp_all add: mon_new_def Coredump_new_def ProcessData_new_def)
  have t: "task_is_zombie fork_kern (m_pid (mon_new 7)) [] = (Inr False, [Asked])" using fork_zombie by (simp add: mon_new_def)
  have "(Inr False :: err + bool) \<noteq> Inr True" by simp
  from forkcore_converts [OF counted_ok sample_facts(2) fork_kern_simps(7) m(1-3) gen_host t this P(3) [unfolded fork_run_def] P(1) z c
      sample_setup_facts(1-3) r sample_converter m(4)]
  obtain maps mem sp img core where R: "decompress counted ?env ''acore'' (Some ''core'') (Coredump_new ARCH_AARCH64 0) Map.empty =
      (Inr (), cleanup_decompress core, Map.empty(''core'' := Some ((fresh_node (fst (cv_fresh ?env)) (snd (cv_fresh ?env)))\<lparr>fn_data := img\<rparr>)))"
    "source_maps (k_capture fork_kern h1) sample_core (m_pid (mon_new 7)) = Inr maps"
    "core_shows (undisturbed mem \<and> readable_maps (mf_byte mem) maps) ARCH_AARCH64 (mf_byte mem) maps sp img" by blast
  have "maps = [sample_region]" using R(2) sample_source_maps by (simp add: mon_new_def)
  with R(3) have "elf_core_of ARCH_AARCH64 img" "length (elf_phdrs img) = 2" using core_shows_one by blast+
  with P(3) n R(1) show ?thesis by (intro exI conjI) (assumption | simp)+
qed

text \<open>
  C6: The default dump gives the target back. However \<^verbatim>\<open>forkcore\<close> ends, in either of its modes -
  success, the direct fallback, a thread that cannot be attached, an injected call that fails
  at any of its steps or meets a signal, registers that cannot be restored, an error of the
  writing, a child that cannot be ended - a thread that was not attached before and is
  attached afterwards is one whose detach the kernel has refused with an error after its last
  attach, also if that is the second attach, which waits for the child. And when \<^verbatim>\<open>forkcore\<close>
  reports success, then either that refusal was \<^verbatim>\<open>ESRCH\<close> and \<^verbatim>\<open>/proc\<close>, asked right after it, said
  that the thread is gone or traced by another process; or it is a thread whose attach was
  granted, but which could not be stopped. (Assumed: \<^verbatim>\<open>waitpid\<close> itself does not fail with \<^verbatim>\<open>ESRCH\<close>.)
\<close>

theorem forkcore_releases:
  assumes "wait_errors K" "m_tids m = []" "0 < m_pid m"
    and "forkcore K cdc os fresh info fd platform sc sys_core c m path h files = Some (r, m', h', files')" "attached t h'"
  shows "attached t h \<or> (\<exists>e. refused K e t h') \<and> (r = Inr () \<longrightarrow> disowned K t h' \<or> unstoppable K t h')"
  using forkcore_clear [OF assms(1-4) clear_free] assms(5) by (auto simp: clear_def)

theorem forkcore_releases_witness:
  "\<exists>m1 h1 hm m' h' files'. fork_point fork_kern fork_code (Coredump_new ARCH_AARCH64 7) ((mon_new 7)\<lparr>m_relay := []\<rparr>) [Asked] =
       Some (m1, h1, 65536, hm) \<and> fork_run = Some (Inr (), m', h', files') \<and> (\<forall>t. \<not> attached t h')"
proof -
  obtain m1 h1 hm m' h' files' where P:
    "fork_point fork_kern fork_code (Coredump_new ARCH_AARCH64 7) ((mon_new 7)\<lparr>m_relay := []\<rparr>) [Asked] = Some (m1, h1, 65536, hm)"
    "fork_run = Some (Inr (), m', h', files')" by (rule fork_run_ends)
  have m: "m_tids (mon_new 7) = []" "0 < m_pid (mon_new 7)" by (simp_all add: mon_new_def)
  have "\<not> attached t h'" for t 
    using forkcore_releases [OF fork_kern_simps(7) m P(2) [unfolded fork_run_def]] by (auto simp: refused_def)
  with P show ?thesis by blast
qed
end
