(* ===== verification/MonitorProps.thy ===== *)
theory MonitorProps
  imports MonitorRun ForkRun
begin

text \<open>
  What the drain of the wait statuses guarantees: invariants of a drain in general, and that no
  signal of a monitored thread is lost, repeated or made up.
\<close>

section \<open>Invariants of a drain\<close>

lemma drain_pass_leave: "drain_pass K tids p w h = Some (Some d, p', w', h') \<Longrightarrow> \<exists>tid w0 h0. drain_one K tid w0 h0 = Some (Leave d, w', h')"
proof (induction tids arbitrary: p w h)
  case (Cons tid tids)
  obtain s w1 h1 where o: "drain_one K tid w h = Some (s, w1, h1)"
    using Cons.prems(1) by (auto split: option.splits)
  show ?case using Cons o by (cases s) auto
qed simp

lemma drain_one_leave: "drain_one K tid w h = Some (Leave d, w', h') \<Longrightarrow> d = Broken \<or> d = Ended"
  by (auto simp: drain_one_def drain_status_def wait_error_def thread_gone_def exec_event_def clone_event_def other_event_def signal_stop_def
      go_on_def resume_tid_def Let_def split: option.splits sum.splits prod.splits if_splits bool.splits drain_step.splits)

text \<open>
  A property \<open>P\<close> of the state and the history that every status and the reconciliation keep,
  as long as the drain goes on; \<open>Q\<close> is what is left of it when an error ends the drain.
\<close>

locale drain_invariant =
  fixes K :: kern and P Q :: "watch \<Rightarrow> history \<Rightarrow> bool"
  assumes one: "drain_one K tid w h = Some (d, w', h') \<Longrightarrow> P w h \<Longrightarrow> (if \<exists>x. d = Leave x then Q w' h' else P w' h')"
    and reconciled: "reconcile K (w_mon w) h = (x, m', h') \<Longrightarrow> P w h \<Longrightarrow> P (w\<lparr>w_mon := m'\<rparr>) h'"
    and weaken: "P w h \<Longrightarrow> Q w h"
begin

lemma pass: "drain_pass K tids progress w h = Some (d, p, w', h') \<Longrightarrow> P w h \<Longrightarrow> (if d = None then P w' h' else Q w' h')"
proof (induction tids arbitrary: progress w h)
  case (Cons tid tids)
  obtain s w1 h1 where o: "drain_one K tid w h = Some (s, w1, h1)"
    using Cons.prems(1) by (auto split: option.splits)
  note k = one [OF o Cons.prems(2)]
  show ?case using Cons.prems(1) Cons.IH [of _ w1 h1] k by (cases s) (auto simp: o)
qed simp

lemma drain_keeps:
  "drain_monitor_events L w h = Some r \<Longrightarrow> L = K \<longrightarrow> P w h \<longrightarrow>
     Q (fst (snd r)) (snd (snd r)) \<and> (fst r = Calm \<or> fst r = Crashed \<longrightarrow> P (fst (snd r)) (snd (snd r)))"
proof (induction rule: drain_monitor_events.raw_induct [rotated, consumes 1, case_names Step])
  case (Step dm L w h r)
  show ?case
  proof (intro impI)
    assume L: "L = K" and w: "P w h"
    obtain d p w1 h1 where ps: "drain_pass K (m_tids (w_mon w)) False w h = Some (d, p, w1, h1)"
      using Step(2) L by (auto split: option.splits)
    have w1: "if d = None then P w1 h1 else Q w1 h1" by (rule pass [OF ps w])
    obtain x m2 h2 where rc: "reconcile K (w_mon w1) h1 = (x, m2, h2)" by (metis prod.exhaust)
    have w2: "d = None \<Longrightarrow> P (w1\<lparr>w_mon := m2\<rparr>) h2" using reconciled [OF rc] w1 by simp
    have d: "d \<noteq> Some Calm \<and> d \<noteq> Some Crashed" using drain_pass_leave [of K _ False w h _ p w1 h1] ps drain_one_leave by fastforce
    have x: "x \<noteq> Some Calm \<and> x \<noteq> Some Crashed" using rc by (auto simp: reconcile_def split: sum.splits prod.splits bool.splits if_splits)
    show "Q (fst (snd r)) (snd (snd r)) \<and> (fst r = Calm \<or> fst r = Crashed \<longrightarrow> P (fst (snd r)) (snd (snd r)))"
      using Step(2) Step(1) [of K "w1\<lparr>w_mon := m2\<rparr>" h2] Step(1) [of K w1 h1] L w1 w2 weaken d x
      by (auto simp: ps rc split: option.splits if_splits)
  qed
qed

lemma drain:
  assumes "drain_monitor_events K w h = Some (d, w', h')" "P w h"
  shows "Q w' h'" "d = Calm \<or> d = Crashed \<Longrightarrow> P w' h'"
  using drain_keeps [of K w h "(d, w', h')"] assms by simp_all

end

text \<open>A drain that finds nothing ends without a crash.\<close>

lemma drain_calm: "drain_monitor_events K w h = Some r \<Longrightarrow> fst r = Calm \<longrightarrow> \<not> crash_found (fst (snd r))"
proof (induction rule: drain_monitor_events.raw_induct [rotated, consumes 1, case_names Step])
  case (Step dm K w h r)
  obtain d p w1 h1 where pass: "drain_pass K (m_tids (w_mon w)) False w h = Some (d, p, w1, h1)"
    using Step(2) by (auto split: option.splits)
  obtain x m2 h2 where rc: "reconcile K (w_mon w1) h1 = (x, m2, h2)" by (metis prod.exhaust)
  have d: "d \<noteq> Some Calm" using drain_pass_leave [of K _ False w h Calm p w1 h1] pass drain_one_leave by fastforce
  have x: "x \<noteq> Some Calm" using rc by (auto simp: reconcile_def split: sum.splits prod.splits bool.splits if_splits)
  show ?case using Step(2) Step(1) [of K "w1\<lparr>w_mon := m2\<rparr>" h2] Step(1) [of K w1 h1] d x
    by (auto simp: pass rc split: option.splits if_splits)
qed


section \<open>Signals\<close>

text \<open>The signal a thread is stopped for and that has not been handed on, 0 for none.\<close>

fun owed :: "int \<Rightarrow> history \<Rightarrow> int" where
  "owed t [] = 0"
| "owed t (Waited p (Some s) # h) =
     (if p = t then (if WIFSTOPPED s \<and> stop_event s = 0 then WSTOPSIG s else 0) else owed t h)"
| "owed t (Ctl p (CONT sig) True # h) = (if p = t then 0 else owed t h)"
| "owed t (Ctl p (DETACH sig) True # h) = (if p = t then 0 else owed t h)"
| "owed t (e # h) = owed t h"

text \<open>Every thread is continued and released with exactly the signal it is owed.\<close>

fun delivers_all :: "history \<Rightarrow> bool" where
  "delivers_all [] = True"
| "delivers_all (Ctl p (CONT sig) True # h) = (sig = owed p h \<and> delivers_all h)"
| "delivers_all (Ctl p (DETACH sig) True # h) = (sig = owed p h \<and> delivers_all h)"
| "delivers_all (e # h) = delivers_all h"

text \<open>
  What \<^verbatim>\<open>ptrace\<close> promises of a clone event under \<^verbatim>\<open>PTRACE_SEIZE\<close>: the message is the thread id of
  another task, and the first status of it is not the delivery of a signal.
\<close>

definition clone_law :: "kern \<Rightarrow> bool" where
  "clone_law K \<longleftrightarrow>
     (\<forall>h tid msg. k_eventmsg K h tid = Inr msg \<longrightarrow> as_pid msg \<noteq> tid \<and>
        (\<forall>evs s. (\<forall>e \<in> set evs. e = Slept \<or> e = Waited (as_pid msg) None) \<longrightarrow>
           k_waitpid K (evs @ Asked # h) (as_pid msg) = Inr (Some s) \<longrightarrow> stop_event s \<noteq> 0 \<or> \<not> WIFSTOPPED s))"

lemma asked_owed [simp]: "owed t (Asked # h) = owed t h" "delivers_all (Asked # h) = delivers_all h"
  by simp_all

lemma asks_owed: "asks h h' \<Longrightarrow> owed t h' = owed t h \<and> delivers_all h' = delivers_all h"
proof -
  have "owed t (replicate n Asked @ h) = owed t h \<and> delivers_all (replicate n Asked @ h) = delivers_all h" for n
    by (induction n) auto
  then show "asks h h' \<Longrightarrow> owed t h' = owed t h \<and> delivers_all h' = delivers_all h" by (auto simp: asks_def)
qed

text \<open>What a wait for the child of a clone event leaves.\<close>

lemma wait_loop_events:
  "wait_loop K p t0 h = Some r \<Longrightarrow>
     \<exists>evs. (\<forall>e \<in> set evs. e = Slept \<or> e = Waited p None) \<and>
       (snd r = evs @ h \<and> isl (fst r) \<or>
        (\<exists>s. k_waitpid K (evs @ h) p = Inr (Some s) \<and> snd r = Waited p (Some s) # evs @ h \<and> (fst r = Inr s \<or> isl (fst r))))"
proof (induction rule: wait_loop.raw_induct [rotated, consumes 1, case_names Step])
  case (Step wl K p t0 h r)
  let ?Q = "\<lambda>g evs. (\<forall>e \<in> set evs. e = Slept \<or> e = Waited p None) \<and>
       (snd r = evs @ g \<and> isl (fst r) \<or>
        (\<exists>s. k_waitpid K (evs @ g) p = Inr (Some s) \<and> snd r = Waited p (Some s) # evs @ g \<and> (fst r = Inr s \<or> isl (fst r))))"
  have ext: "\<exists>evs. ?Q h evs" if "?Q (pre @ h) evs" "\<forall>e \<in> set pre. e = Slept \<or> e = Waited p None" for pre evs
    by (rule exI [of _ "evs @ pre"]) (use that in auto)
  show ?case
  proof (cases "k_clock K h - t0 > 10000")
    case True
    then show ?thesis using Step(2) by (intro exI [of _ "[]"]) auto
  next
    case False
    show ?thesis
    proof (cases "k_waitpid K h p")
      case (Inl e)
      show ?thesis
      proof (cases "e = EINTR")
        case True
        then have "wl K p t0 (Waited p None # h) = Some r" using Step(2) False Inl by (simp add: sys_waitpid_def)
        from Step(1) [OF this] obtain evs where "?Q ([Waited p None] @ h) evs" by auto
        then show ?thesis by (rule ext) simp
      next
        case ne: False
        then show ?thesis using Step(2) False Inl by (intro exI [of _ "[Waited p None]"]) (auto simp: sys_waitpid_def)
      qed
    next
      case (Inr s)
      show ?thesis
      proof (cases s)
        case None
        then have "wl K p t0 (Slept # Waited p None # h) = Some r" using Step(2) False Inr by (simp add: sys_waitpid_def)
        from Step(1) [OF this] obtain evs where "?Q ([Slept, Waited p None] @ h) evs" by auto
        then show ?thesis by (rule ext) simp
      next
        case (Some s)
        then show ?thesis using Step(2) False Inr by (intro exI [of _ "[]"]) (auto simp: sys_waitpid_def split: if_splits)
      qed
    qed
  qed
qed

definition signals_ok :: "watch \<Rightarrow> history \<Rightarrow> bool" where
  "signals_ok w h \<longleftrightarrow> delivers_all h \<and> (crash_found w \<or> (\<forall>t. owed t h = 0))"

text \<open>A history that owes and hands over the same.\<close>

definition same_debts :: "history \<Rightarrow> history \<Rightarrow> bool" where
  "same_debts h h' \<longleftrightarrow> (\<forall>t. owed t h' = owed t h) \<and> (delivers_all h \<longrightarrow> delivers_all h')"

lemma same_debts_simps [simp]: "same_debts h h" "same_debts g h \<Longrightarrow> same_debts g (Asked # h)" "same_debts g h \<Longrightarrow> same_debts g (Killed p s b # h)"
  "same_debts g h \<Longrightarrow> same_debts g (Slept # h)" "same_debts g h \<Longrightarrow> same_debts g (Waited p None # h)"
  by (simp_all add: same_debts_def)

lemma same_debts_trans: "same_debts g h \<Longrightarrow> same_debts h h' \<Longrightarrow> same_debts g h'"
  by (simp add: same_debts_def)

lemma signals_ok_same: "same_debts h h' \<Longrightarrow> signals_ok w h \<Longrightarrow> crash_found w' = crash_found w \<Longrightarrow> signals_ok w' h'"
  by (simp add: signals_ok_def same_debts_def)

lemma same_debts_ask:
  "belongs_to_thread_group K p t h = (b, h') \<Longrightarrow> same_debts h h'" "task_is_zombie K t h = (z, h') \<Longrightarrow> same_debts h h'"
  "traced_by_self K t h = (m, h') \<Longrightarrow> same_debts h h'" "list_task_tids K p h = (l, h') \<Longrightarrow> same_debts h h'"
  "sys_kill K t s h = (k, h') \<Longrightarrow> same_debts h h'" "disposition K p s h = (d, h') \<Longrightarrow> same_debts h h'"
  "sys_eventmsg K p h = (e, h') \<Longrightarrow> same_debts h h'"
  by (auto simp: belongs_to_thread_group_def task_is_zombie_def traced_by_self_def trace_ownership_def list_task_tids_def sys_kill_def
      disposition_def sys_eventmsg_def Let_def)

lemma reconcile_debts: "reconcile K m h = (x, m', h') \<Longrightarrow> same_debts h h'"
proof -
  have adopt: "adopt K ts m g = (b, m', g') \<Longrightarrow> same_debts g g'" for ts m g b g' m'
  proof (induction ts arbitrary: m g)
    case (Cons t ts)
    obtain b1 g1 where b: "traced_by_self K t g = (b1, g1)" by fastforce
    obtain z g2 where z: "task_is_zombie K t g1 = (z, g2)" by fastforce
    note d = same_debts_ask(3) [OF b] same_debts_ask(2) [OF z]
    show ?case using Cons.prems Cons.IH [of _ g1] Cons.IH [of _ g2] d
      by (auto simp: b z split: bool.splits if_splits intro: same_debts_trans)
  qed simp
  show "reconcile K m h = (x, m', h') \<Longrightarrow> same_debts h h'"
    by (auto simp: reconcile_def split: sum.splits prod.splits bool.splits if_splits dest!: adopt same_debts_ask(4) intro: same_debts_trans)
qed

text \<open>A thread that is owed a signal is continued with it.\<close>

lemma cont_pays:
  assumes "sys_ctl K p (CONT sig) h = (r, h')" "sig = owed p h" "delivers_all h"
  shows "delivers_all h'" "succeeds r \<Longrightarrow> owed t h' = (if t = p then 0 else owed t h)" "\<not> succeeds r \<Longrightarrow> owed t h' = owed t h"
  using assms by (cases "k_ctl K h p (CONT sig)"; auto simp: sys_ctl_def Let_def)+

lemma detach_debts:
  assumes "pt_detach K p sig h = (r, h')" "sig = owed p h" "sig = 0" "delivers_all h"
  shows "same_debts h h' \<and> delivers_all h'"
proof -
  obtain evs ok where e: "h' = evs @ Ctl p (DETACH sig) ok # h" "set evs \<subseteq> {Asked, Ctl p (DETACH sig) True, Ctl p (DETACH sig) False}"
    using pt_detach_events [OF assms(1)] by blast
  have "same_debts h g \<and> delivers_all g \<Longrightarrow> e \<in> {Asked, Ctl p (DETACH sig) True, Ctl p (DETACH sig) False} \<Longrightarrow>
      same_debts h (e # g) \<and> delivers_all (e # g)" for e g using assms(2,3) by (auto simp: same_debts_def)
  moreover have "same_debts h (Ctl p (DETACH sig) ok # h) \<and> delivers_all (Ctl p (DETACH sig) ok # h)"
    using assms(2-4) by (cases ok) (auto simp: same_debts_def)
  ultimately have "set evs \<subseteq> {Asked, Ctl p (DETACH sig) True, Ctl p (DETACH sig) False} \<Longrightarrow>
      same_debts h (evs @ Ctl p (DETACH sig) ok # h) \<and> delivers_all (evs @ Ctl p (DETACH sig) ok # h)"
    by (induction evs) auto
  then show ?thesis using e by simp
qed

text \<open>The result of a resumption, in terms of the invariant.\<close>

definition step_ok :: "drain_step \<Rightarrow> watch \<Rightarrow> history \<Rightarrow> bool" where
  "step_ok d w h \<longleftrightarrow> (if \<exists>x. d = Leave x then delivers_all h else signals_ok w h)"

lemma resume_ok:
  assumes "resume_tid K p sig w h = (d, w', h')" "sig = owed p h" "delivers_all h" "crash_found w \<or> (\<forall>t. t \<noteq> p \<longrightarrow> owed t h = 0)"
  shows "step_ok d w' h'" "w' = w" "d = Progress \<Longrightarrow> owed p h' = 0 \<and> (\<forall>t. t \<noteq> p \<longrightarrow> owed t h' = owed t h)"
proof -
  obtain r h1 where r: "sys_ctl K p (CONT sig) h = (r, h1)" by fastforce
  note c = cont_pays [OF r assms(2,3)]
  have e: "d = (if succeeds r then Progress else Leave Broken)" "w' = w" "h' = h1" using assms(1) r by (auto simp: resume_tid_def)
  then show "w' = w" "d = Progress \<Longrightarrow> owed p h' = 0 \<and> (\<forall>t. t \<noteq> p \<longrightarrow> owed t h' = owed t h)" using c(2) by (auto split: if_splits)
  show "step_ok d w' h'" using e c assms(4) by (auto simp: step_ok_def signals_ok_def)
qed

lemma go_on_ok:
  assumes "go_on K p sig w h = (d, w', h')" "sig = owed p h" "delivers_all h" "crash_found w \<or> (\<forall>t. t \<noteq> p \<longrightarrow> owed t h = 0)"
  shows "step_ok d w' h'" "w' = w" "d = Progress \<Longrightarrow> \<not> crash_found w \<Longrightarrow> owed p h' = 0 \<and> (\<forall>t. t \<noteq> p \<longrightarrow> owed t h' = owed t h)"
proof -
  have "step_ok d w' h' \<and> w' = w \<and> (d = Progress \<longrightarrow> \<not> crash_found w \<longrightarrow> owed p h' = 0 \<and> (\<forall>t. t \<noteq> p \<longrightarrow> owed t h' = owed t h))"
  proof (cases "crash_found w")
    case True
    then have "d = Progress" "w' = w" "h' = h" using assms(1) by (simp_all add: go_on_def)
    then show ?thesis using True assms(3) by (simp add: step_ok_def signals_ok_def)
  next
    case False
    then have r: "resume_tid K p sig w h = (d, w', h')" using assms(1) by (simp add: go_on_def)
    from resume_ok [OF r assms(2-4)] show ?thesis by blast
  qed
  then show "step_ok d w' h'" "w' = w" "d = Progress \<Longrightarrow> \<not> crash_found w \<Longrightarrow> owed p h' = 0 \<and> (\<forall>t. t \<noteq> p \<longrightarrow> owed t h' = owed t h)"
    by blast+
qed

text \<open>A thread stopped by an event is owed nothing, so that it goes on without a signal.\<close>

lemma owed_nothing: "\<forall>t. t \<noteq> p \<longrightarrow> owed t g = owed t h \<Longrightarrow> signals_ok w h \<Longrightarrow> crash_found w \<or> (\<forall>t. t \<noteq> p \<longrightarrow> owed t g = 0)"
  by (auto simp: signals_ok_def)

lemma clone_ok:
  assumes L: "clone_law K" and c: "clone_event K p w h = Some (d, w', h')" and w: "signals_ok w h" "owed p h = 0"
  shows "step_ok d w' h'"
proof -
  have D: "delivers_all h" using w(1) by (simp add: signals_ok_def)
  have broken: "step_ok (Leave Broken) v g" if "delivers_all g" for v g using that by (simp add: step_ok_def)
  show ?thesis
  proof (cases "k_eventmsg K h p")
    case (Inl e)
    then show ?thesis using c broken D by (auto simp: clone_event_def sys_eventmsg_def)
  next
    case (Inr msg)
    show ?thesis
    proof (cases "msg = 0")
      case True
      then show ?thesis using c broken D Inr by (auto simp: clone_event_def sys_eventmsg_def)
    next
      case nz: False
      let ?c = "as_pid msg" and ?w = "w\<lparr>w_mon := add_tid (as_pid msg) (w_mon w)\<rparr>"
      have cp: "?c \<noteq> p" and law: "\<And>evs s. \<forall>e \<in> set evs. e = Slept \<or> e = Waited ?c None \<Longrightarrow>
          k_waitpid K (evs @ Asked # h) ?c = Inr (Some s) \<Longrightarrow> stop_event s \<noteq> 0 \<or> \<not> WIFSTOPPED s"
        using L Inr by (auto simp: clone_law_def)
      obtain x h2 where pw: "pt_wait K ?c (Asked # h) = Some (x, h2)"
        using c Inr nz by (auto simp: clone_event_def sys_eventmsg_def Let_def split: option.splits)
      have wl: "wait_loop K ?c (k_clock K (Asked # h)) (Asked # h) = Some (x, h2)" using pw by (simp add: pt_wait_def)
      obtain evs where evs: "\<forall>e \<in> set evs. e = Slept \<or> e = Waited ?c None"
        "h2 = evs @ Asked # h \<and> isl x \<or> (\<exists>s. k_waitpid K (evs @ Asked # h) ?c = Inr (Some s) \<and> h2 = Waited ?c (Some s) # evs @ Asked # h)"
        using wait_loop_events [OF wl] by fastforce
      have quiet: "owed t (es @ Asked # h) = owed t h \<and> delivers_all (es @ Asked # h)"
        if "\<forall>e \<in> set es. e = Slept \<or> e = Waited ?c None" for t es
        using that D by (induction es) auto
      have d2: "delivers_all h2" "\<forall>t. t \<noteq> ?c \<longrightarrow> owed t h2 = owed t h" "isl x \<or> owed ?c h2 = 0"
        using evs(2) quiet [OF evs(1)] law [OF evs(1)] by auto
      show ?thesis
      proof (cases x)
        case (Inl e)
        then show ?thesis using c Inr nz broken pw d2 by (auto simp: clone_event_def sys_eventmsg_def Let_def)
      next
        case st: (Inr s)
        have o: "owed ?c h2 = 0" "owed p h2 = 0" using d2 st w(2) cp by auto
        have all: "crash_found w \<or> (\<forall>t. owed t h2 = 0)" using d2(2) o(1) w(1) unfolding signals_ok_def by metis
        obtain b h3 where b: "belongs_to_thread_group K (m_pid (w_mon w)) ?c h2 = (b, h3)" by fastforce
        note s3 = same_debts_ask(1) [OF b]
        have o3: "owed ?c h3 = 0" "owed p h3 = 0" "delivers_all h3" "crash_found w \<or> (\<forall>t. owed t h3 = 0)"
          using s3 o all d2(1) by (auto simp: same_debts_def)
        note run = c [unfolded clone_event_def sys_eventmsg_def Inr prod.case sum.case Let_def pw option.case st b]
        have cf: "crash_found ?w = crash_found w" by (simp add: crash_found_def)
        show ?thesis
        proof (cases b)
          case None
          then show ?thesis using run nz broken o3 by simp
        next
          case (Some own)
          show ?thesis
          proof (cases own)
            case True
            obtain d1 w1 h4 where g: "go_on K p 0 ?w h3 = (d1, w1, h4)" by (metis prod.exhaust)
            note G = go_on_ok [OF g _ o3(3), unfolded cf]
            have g1: "step_ok d1 w1 h4" "w1 = ?w" using G(1,2) o3 by auto
            show ?thesis
            proof (cases "d1 = Progress")
              case pr: True
              have r: "go_on K ?c 0 w1 h4 = (d, w', h')" using run nz Some True g pr by simp
              have "owed ?c h4 = 0 \<and> (crash_found w \<or> (\<forall>t. t \<noteq> ?c \<longrightarrow> owed t h4 = 0))"
              proof (cases "crash_found w")
                case True
                then have "h4 = h3" using g cf by (simp add: go_on_def)
                then show ?thesis using o3 True by simp
              next
                case False
                then show ?thesis using G(3) pr o3 cp by (metis cf)
              qed
              then show ?thesis using go_on_ok(1) [OF r] g1 pr cf by (auto simp: step_ok_def signals_ok_def)
            next
              case False
              then have "(d, w', h') = (d1, w1, h4)" using run nz Some True g by (cases d1) auto
              then show ?thesis using g1 by simp
            qed
          next
            case False
            obtain r h4 where r: "pt_detach K ?c 0 h3 = (r, h4)" by fastforce
            have s4: "same_debts h3 h4 \<and> delivers_all h4" by (rule detach_debts [OF r]) (use o3 in simp_all)
            show ?thesis
            proof (cases "bad_request r")
              case True
              then show ?thesis using run nz Some False r broken s4 by simp
            next
              case ok: False
              let ?v = "?w\<lparr>w_mon := drop_tid ?c (w_mon ?w)\<rparr>"
              have g: "go_on K p 0 ?v h4 = (d, w', h')" using run nz Some False r ok by simp
              have cv: "crash_found ?v = crash_found w" by (simp add: crash_found_def)
              show ?thesis by (rule go_on_ok(1) [OF g]) (use s4 o3 cv in \<open>auto simp: same_debts_def\<close>)
            qed
          qed
        qed
      qed
    qed
  qed
qed

lemma step_ok_same: "same_debts h h' \<Longrightarrow> signals_ok w h \<Longrightarrow> crash_found w' = crash_found w \<Longrightarrow> step_ok d w' h'"
  by (auto simp: step_ok_def signals_ok_def same_debts_def)

lemma crash_found_mon [simp]: "crash_found (w\<lparr>w_mon := m\<rparr>) = crash_found w" "crash_found (w\<lparr>w_group := g\<rparr>) = crash_found w"
  by (simp_all add: crash_found_def)

lemma wait_error_ok: "wait_error K tid e w h = (d, w', h') \<Longrightarrow> signals_ok w h \<Longrightarrow> step_ok d w' h'"
  by (rule step_ok_same [of h h' w])
    (auto simp: wait_error_def Let_def split: if_splits prod.splits dest!: same_debts_ask(1,5) intro: same_debts_trans)

lemma exec_event_ok: "exec_event K tid w h = (d, w', h') \<Longrightarrow> signals_ok w h \<Longrightarrow> owed tid h = 0 \<Longrightarrow> step_ok d w' h'"
proof -
  assume e: "exec_event K tid w h = (d, w', h')" and w: "signals_ok w h" "owed tid h = 0"
  let ?w = "w\<lparr>w_mon := (w_mon w)\<lparr>m_tids := [m_pid (w_mon w)], m_leader_exited := False, m_relay := []\<rparr>, w_group := False\<rparr>"
  obtain d1 w1 h1 where g: "go_on K tid 0 ?w h = (d1, w1, h1)" by (metis prod.exhaust)
  have "step_ok d1 w1 h1" by (rule go_on_ok(1) [OF g]) (use w in \<open>auto simp: signals_ok_def\<close>)
  then show "step_ok d w' h'" using e g by (cases d1) (auto simp: exec_event_def Let_def step_ok_def)
qed

lemma other_event_ok: "other_event K tid ev sig w h = (d, w', h') \<Longrightarrow> signals_ok w h \<Longrightarrow> owed tid h = 0 \<Longrightarrow> step_ok d w' h'"
proof -
  assume e: "other_event K tid ev sig w h = (d, w', h')" and w: "signals_ok w h" "owed tid h = 0"
  have listen: "sys_ctl K tid LISTEN h = (r, g) \<Longrightarrow> same_debts h g" for r g
    by (cases "isl r") (auto simp: sys_ctl_def Let_def same_debts_def)
  have res: "resume_tid K tid 0 v h = (d, w', h') \<Longrightarrow> crash_found v = crash_found w \<Longrightarrow> step_ok d w' h'" for v
    by (rule resume_ok(1)) (use w in \<open>auto simp: signals_ok_def\<close>)
  show "step_ok d w' h'"
    using e res w listen step_ok_same [OF _ w(1)] by (auto simp: other_event_def split: if_splits sum.splits prod.splits)
qed

text \<open>A signal is owed by the time it is looked at, and handed on or kept for the crash.\<close>

lemma signal_stop_ok:
  assumes e: "signal_stop K tid sig w h = (d, w', h')" and o: "owed tid h = sig" "delivers_all h"
    and w: "crash_found w \<or> (\<forall>t. t \<noteq> tid \<longrightarrow> owed t h = 0)"
  shows "step_ok d w' h'"
proof (cases "is_core_dump_signal sig")
  case True
  then have nz: "sig \<noteq> 0" by (auto simp: is_core_dump_signal_def)
  obtain b h1 where b: "disposition K (m_pid (w_mon w)) sig h = (b, h1)" by fastforce
  have s1: "same_debts h h1" by (rule same_debts_ask(6) [OF b])
  then have o1: "sig = owed tid h1" "delivers_all h1" "crash_found w \<or> (\<forall>t. t \<noteq> tid \<longrightarrow> owed t h1 = 0)"
    using o w by (auto simp: same_debts_def)
  show ?thesis
  proof (cases b)
    case (Inl x)
    obtain r h2 where r: "sys_ctl K tid (CONT sig) h1 = (r, h2)" by fastforce
    show ?thesis using e True b Inl r cont_pays(1) [OF r o1(1,2)] by (auto simp: signal_stop_def step_ok_def)
  next
    case (Inr ign)
    show ?thesis
    proof (cases ign)
      case True
      have "resume_tid K tid sig w h1 = (d, w', h')" using e \<open>is_core_dump_signal sig\<close> b Inr True by (simp add: signal_stop_def)
      then show ?thesis by (rule resume_ok(1)) (use o1 in auto)
    next
      case False
      then show ?thesis using e \<open>is_core_dump_signal sig\<close> b Inr o1 nz by (auto simp: signal_stop_def step_ok_def signals_ok_def crash_found_def split: if_splits)
    qed
  qed
next
  case False
  then have "go_on K tid sig (if sig = SIGCONT \<and> \<not> crash_found w then w\<lparr>w_group := False\<rparr> else w) h = (d, w', h')"
    using e by (simp add: signal_stop_def)
  then show ?thesis by (rule go_on_ok(1)) (use o w in auto)
qed

lemma drain_status_ok:
  assumes L: "clone_law K" and dr: "drain_status K tid s w (Waited tid (Some s) # h) = Some (d, w', h')" and w: "signals_ok w h"
  shows "step_ok d w' h'"
proof -
  let ?h = "Waited tid (Some s) # h"
  have o: "delivers_all ?h" "crash_found w \<or> (\<forall>t. t \<noteq> tid \<longrightarrow> owed t ?h = 0)" using w by (auto simp: signals_ok_def)
  have quiet: "signals_ok w ?h \<and> owed tid ?h = 0" if "\<not> (WIFSTOPPED s \<and> stop_event s = 0)"
    using that w by (auto simp: signals_ok_def)
  show ?thesis
  proof (cases "WIFSTOPPED s")
    case False
    then have "signals_ok w ?h" using quiet by blast
    then show ?thesis using False dr
      by (auto simp: drain_status_def thread_gone_def Let_def step_ok_def signals_ok_def split: if_splits)
  next
    case st: True
    note alive = stopped_not_dead [OF st]
    show ?thesis
    proof (cases "stop_event s = 0")
      case True
      then have "signal_stop K tid (WSTOPSIG s) w ?h = (d, w', h')" using dr st alive by (simp add: drain_status_def Let_def)
      then show ?thesis by (rule signal_stop_ok) (use st True o in auto)
    next
      case ev: False
      have q: "signals_ok w ?h" "owed tid ?h = 0" using quiet ev by auto
      have exit: "step_ok d w' h'" if "go_on K tid 0 v ?h = (d, w', h')" "crash_found v = crash_found w" for v
        by (rule go_on_ok(1) [OF that(1)]) (use q(2) o that(2) in auto)
      show ?thesis
        using dr st alive ev exec_event_ok [OF _ q] clone_ok [OF L _ q] other_event_ok [OF _ q] exit
        by (auto simp: drain_status_def Let_def simp del: owed.simps split: if_splits)
    qed
  qed
qed

lemma drain_one_ok:
  assumes "clone_law K" "drain_one K tid w h = Some (d, w', h')" "signals_ok w h"
  shows "step_ok d w' h'"
proof (cases "k_waitpid K h tid")
  case (Inl e)
  have "signals_ok w (Waited tid None # h)" using assms(3) by (simp add: signals_ok_def)
  then show ?thesis using assms(2) Inl wait_error_ok [of K tid e w "Waited tid None # h"]
    by (auto simp: drain_one_def sys_waitpid_def step_ok_def split: if_splits)
next
  case (Inr s)
  show ?thesis
  proof (cases s)
    case None
    then show ?thesis using Inr assms(2,3) by (auto simp: drain_one_def sys_waitpid_def step_ok_def signals_ok_def)
  next
    case (Some a)
    have "drain_status K tid a w (Waited tid (Some a) # h) = Some (d, w', h')"
      using Inr Some assms(2) by (simp add: drain_one_def sys_waitpid_def)
    then show ?thesis by (rule drain_status_ok [OF assms(1) _ assms(3)])
  qed
qed

interpretation debts: drain_invariant K "\<lambda>w h. clone_law K \<longrightarrow> signals_ok w h" "\<lambda>w h. clone_law K \<longrightarrow> delivers_all h" for K
proof (unfold_locales, goal_cases)
  case (1 tid w h d w' h')
  then show ?case using drain_one_ok [of K tid w h d w' h'] by (auto simp: step_ok_def)
next
  case (2 w h x m' h')
  then show ?case using reconcile_debts [of K "w_mon w" h x m' h'] by (auto intro: signals_ok_same)
next
  case (3 w h)
  then show ?case by (auto simp: signals_ok_def)
qed


definition usr1_kern :: kern where
  "usr1_kern = sim_kern\<lparr>k_waitpid := \<lambda>h p. Inr (if h = [] then Some (stopped_status 10 0) else None), k_eventmsg := \<lambda>h p. Inl ESRCH\<rparr>"

definition usr1_watch :: watch where
  "usr1_watch = \<lparr>w_mon = (mon_new 7)\<lparr>m_tids := [7]\<rparr>, w_exit = 0, w_group = False\<rparr>"

lemma usr1_run:
  "drain_monitor_events usr1_kern usr1_watch [] =
     Some (Calm, usr1_watch, [Waited 7 None, Ctl 7 (CONT 10) True, Waited 7 (Some (stopped_status 10 0))])"
proof -
  have st: "WIFSTOPPED (stopped_status 10 0)" "WSTOPSIG (stopped_status 10 0) = 10" "stop_event (stopped_status 10 0) = 0"
    "\<not> WIFEXITED (stopped_status 10 0)" "\<not> WIFSIGNALED (stopped_status 10 0)"
    by (simp_all add: WIFSTOPPED_def WSTOPSIG_def stop_event_def WIFEXITED_def WIFSIGNALED_def stopped_status_def)
  have t: "m_tids (w_mon usr1_watch) = [7]" "\<not> crash_found usr1_watch" by (simp_all add: usr1_watch_def crash_found_def)
  have one: "drain_one usr1_kern 7 usr1_watch [] = Some (Progress, usr1_watch, [Ctl 7 (CONT 10) True, Waited 7 (Some (stopped_status 10 0))])"
    using st t by (simp add: drain_one_def drain_status_def signal_stop_def is_core_dump_signal_def go_on_def resume_tid_def sys_waitpid_def
        sys_ctl_def usr1_kern_def sim_kern_def Let_def)
  have two: "drain_one usr1_kern 7 usr1_watch (Ctl 7 (CONT 10) True # h) = Some (Skip, usr1_watch, Waited 7 None # Ctl 7 (CONT 10) True # h)" for h
    by (simp add: drain_one_def sys_waitpid_def usr1_kern_def Let_def)
  show ?thesis
    by (subst drain_monitor_events.simps, simp add: t one, subst drain_monitor_events.simps, simp add: t two)
qed


end
