(* ===== verification/MonitorEnd.thy ===== *)
theory MonitorEnd
  imports MonitorProps
begin

text \<open>
  How the monitor ends: the release of the threads, the state it keeps, and the signals it
  dumps for.
\<close>

section \<open>The release\<close>

text \<open>What happens while one thread is looked after: nobody else's signals are touched.\<close>

definition tends :: "int \<Rightarrow> history \<Rightarrow> history \<Rightarrow> bool" where
  "tends t h h' \<longleftrightarrow> (\<exists>evs. h' = evs @ h) \<and> (\<forall>u. u \<noteq> t \<longrightarrow> owed u h' = owed u h) \<and> (delivers_all h \<longrightarrow> delivers_all h')"

lemma tends_refl [simp]: "tends t h h" by (simp add: tends_def)

lemma tends_trans: "tends t g h \<Longrightarrow> tends t h h' \<Longrightarrow> tends t g h'"
  by (auto simp: tends_def)

lemma tends_asks: "asks h h' \<Longrightarrow> tends t h h' \<and> owed t h' = owed t h"
  using asks_owed [of h h'] by (auto simp: tends_def asks_def)

lemma tends_Waited [simp]: "tends t h (Waited t x # h)"
  by (cases x) (auto simp: tends_def)

lemma tends_one [simp]: "tends t h (Asked # h)" "tends t h (Slept # h)" "tends t h (Ctl p INTERRUPT b # h)"
  by (auto simp: tends_def)

text \<open>The signal a status of a stop stands for.\<close>

definition status_owes :: "nat \<Rightarrow> int" where
  "status_owes s = (if WIFSTOPPED s \<and> stop_event s = 0 then WSTOPSIG s else 0)"

lemma poll_status_owes:
  "poll_status K p h = Some r \<Longrightarrow> tends p h (snd r) \<and>
     owed p (snd r) = (case fst r of Inr (Some s) \<Rightarrow> status_owes s | _ \<Rightarrow> owed p h)"
proof (induction rule: poll_status.raw_induct [rotated, consumes 1, case_names Step])
  case (Step ps K p h r)
  show ?case
  proof (cases "k_waitpid K h p")
    case (Inl e)
    then show ?thesis using Step(2) Step(1) [of K p "Waited p None # h" r] tends_trans [of p h "Waited p None # h"]
      by (auto simp: sys_waitpid_def split: if_splits sum.splits option.splits)
  next
    case (Inr s)
    then show ?thesis using Step(2) by (auto simp: sys_waitpid_def status_owes_def split: option.splits)
  qed
qed

lemma pt_wait_owes:
  assumes "pt_wait K p h = Some (r, h')"
  shows "tends p h h'" "r = Inr s \<Longrightarrow> owed p h' = status_owes s"
proof -
  have w: "wait_loop K p (k_clock K h) h = Some (r, h')" using assms by (simp add: pt_wait_def)
  obtain evs where e: "\<forall>e \<in> set evs. e = Slept \<or> e = Waited p None"
    "h' = evs @ h \<and> isl r \<or> (\<exists>s. h' = Waited p (Some s) # evs @ h \<and> (r = Inr s \<or> isl r))"
    using wait_loop_events [OF w] by fastforce
  have "tends p h (evs @ h)" using e(1)
    by (induction evs) (auto simp: tends_def)
  then show "tends p h h'" "r = Inr s \<Longrightarrow> owed p h' = status_owes s"
    using e(2) tends_trans [of p h "evs @ h"] by (auto simp: status_owes_def)
qed

text \<open>It is not stopped, and an interrupt says that there is no such thread.\<close>

definition ended :: "kern \<Rightarrow> int \<Rightarrow> history \<Rightarrow> history \<Rightarrow> bool" where
  "ended K t h h' \<longleftrightarrow> h' = Ctl t INTERRUPT False # Asked # h \<and> isl (k_getregs K h t) \<and> k_ctl K (Asked # h) t INTERRUPT = Inl ESRCH"

lemma stop_for_detach_owes:
  assumes "stop_for_detach K t h = Some (x, False, h')" "owed t h = 0"
  shows "tends t h h'" "x = Some s \<Longrightarrow> detach_relay s = owed t h'" "x = None \<Longrightarrow> ended K t h h'"
proof -
  have "tends t h h' \<and> (\<forall>s. x = Some s \<longrightarrow> detach_relay s = owed t h') \<and> (x = None \<longrightarrow> ended K t h h')"
  proof (cases "k_getregs K h t")
    case (Inr v)
    obtain s where s: "read_stopped_status K t (Asked # h) = Some (s, False, h')" "x = Some s"
      using assms(1) Inr by (auto simp: stop_for_detach_def sys_getregs_def split: option.splits)
    obtain r where r: "poll_status K t (Asked # h) = Some (r, h')"
      "case r of Inr (Some n) \<Rightarrow> s = (n, False) | Inr None \<Rightarrow> s = (stopped_status 19 0, True) | Inl _ \<Rightarrow> False"
      using s(1) by (auto simp: read_stopped_status_def split: option.splits sum.splits)
    have "tends t h h'" using poll_status_owes [OF r(1)] tends_trans [of t h "Asked # h" h'] by simp
    moreover have "detach_relay s = owed t h'"
      using poll_status_owes [OF r(1)] r(2) assms(2) by (auto simp: detach_relay_def status_owes_def split: sum.splits option.splits)
    ultimately show ?thesis using s(2) by simp
  next
    case (Inl e)
    let ?h = "\<lambda>b. Ctl t INTERRUPT b # Asked # h"
    have a: "tends t h (?h b)" for b by (rule tends_trans [of t h "Asked # h"]) simp_all
    show ?thesis
    proof (cases "k_ctl K (Asked # h) t INTERRUPT")
      case (Inl e2)
      then show ?thesis using assms(1) \<open>k_getregs K h t = Inl e\<close> a by (auto simp: stop_for_detach_def sys_getregs_def sys_ctl_def ended_def)
    next
      case (Inr u)
      obtain y where y: "wait_stopped_for_detach K t (?h True) = Some (y, False, h')" "x = map_option (\<lambda>s. (s, False)) y"
        using assms(1) \<open>k_getregs K h t = Inl e\<close> Inr by (auto simp: stop_for_detach_def sys_getregs_def sys_ctl_def split: option.splits)
      obtain s where s: "pt_wait K t (?h True) = Some (Inr s, h')" "y = Some s"
        using y(1) by (auto simp: wait_stopped_for_detach_def split: option.splits sum.splits if_splits)
      show ?thesis using tends_trans [OF a pt_wait_owes(1) [OF s(1)]] pt_wait_owes(2) [OF s(1) refl] y(2) s(2)
        by (simp add: detach_relay_def status_owes_def)
    qed
  qed
  then show "tends t h h'" "x = Some s \<Longrightarrow> detach_relay s = owed t h'" "x = None \<Longrightarrow> ended K t h h'" by blast+
qed

text \<open>
  A thread has been let go between two points of the history: by a detach that succeeded, or
  one that failed with \<^verbatim>\<open>ESRCH\<close> when \<^verbatim>\<open>/proc\<close>, asked right after it, said that the thread is gone or
  traced by another process; or it had ended; or it is the leader, known to have exited and
  seen to be a zombie (so that no \<^verbatim>\<open>exec\<close> has put another thread in its place).
\<close>

definition let_go :: "kern \<Rightarrow> mon \<Rightarrow> int \<Rightarrow> history \<Rightarrow> history \<Rightarrow> bool" where
  "let_go K m t h h' \<longleftrightarrow>
     (\<exists>g sig. suffix h g \<and> suffix (Ctl t (DETACH sig) True # g) h') \<or>
     (\<exists>g sig. suffix h g \<and> suffix (Asked # Ctl t (DETACH sig) False # g) h' \<and> k_ctl K g t (DETACH sig) = Inl ESRCH \<and>
        fst (trace_ownership K t (Ctl t (DETACH sig) False # g)) = Some False) \<or>
     (\<exists>g g'. suffix h g \<and> suffix g' h' \<and> ended K t g g') \<or>
     t = m_pid m \<and> m_leader_exited m \<and> (\<exists>g g'. suffix h g \<and> suffix g' h' \<and> task_is_zombie K t g = (Inr True, g'))"

lemma let_go_widen: "let_go K m t g g' \<Longrightarrow> suffix h g \<Longrightarrow> suffix g' h' \<Longrightarrow> let_go K m t h h'"
  unfolding let_go_def by (meson suffix_order.trans)

lemma tends_suffix: "tends t h h' \<Longrightarrow> suffix h h'"
  by (auto simp: tends_def suffix_def)

lemma detach_status_owes:
  assumes "detach_status K m t h = Some (x, False, h')" "owed t h = 0"
  shows "tends t h h'" "x = Some s \<Longrightarrow> detach_relay s = owed t h'" "x = None \<Longrightarrow> let_go K m t h h'"
proof -
  let ?h = "Waited t None # h"
  have stop: "tends t h h' \<and> (x = Some s \<longrightarrow> detach_relay s = owed t h') \<and> (x = None \<longrightarrow> let_go K m t h h')"
    if st: "stop_for_detach K t g = Some (x, False, h')" and g: "tends t h g" "owed t g = 0" for g
  proof -
    note S = stop_for_detach_owes [OF st g(2)]
    have "let_go K m t h h'" if "x = None"
      unfolding let_go_def using S(3) [OF that] tends_suffix [OF g(1)] by blast
    then show ?thesis using S tends_trans [OF g(1)] by blast
  qed
  have q: "owed t ?h = 0" "tends t h ?h" using assms(2) by simp_all
  show "tends t h h'" "x = Some s \<Longrightarrow> detach_relay s = owed t h'" "x = None \<Longrightarrow> let_go K m t h h'"
  proof -
    have "tends t h h' \<and> (x = Some s \<longrightarrow> detach_relay s = owed t h') \<and> (x = None \<longrightarrow> let_go K m t h h')"
    proof (cases "k_waitpid K h t")
      case (Inl e)
      obtain b where "stop_for_detach K t ?h = Some (x, b, h')" "\<not> b"
        using assms(1) Inl by (auto simp: detach_status_def sys_waitpid_def split: option.splits)
      then show ?thesis using stop [of ?h] q by simp
    next
      case (Inr y)
      show ?thesis
      proof (cases y)
        case (Some n)
        then have "x = Some (n, False)" "h' = Waited t (Some n) # h" using assms(1) Inr by (simp_all add: detach_status_def sys_waitpid_def)
        then show ?thesis by (auto simp: detach_relay_def)
      next
        case None
        obtain z h2 where z: "task_is_zombie K t ?h = (z, h2)" by fastforce
        have z2: "tends t h h2 \<and> owed t h2 = 0"
          using same_debts_ask(2) [OF z] z q tends_trans [of t h ?h] by (auto simp: task_is_zombie_def same_debts_def)
        note run = assms(1) [unfolded detach_status_def sys_waitpid_def Let_def Inr None prod.case sum.case option.case z]
        show ?thesis
        proof (cases "t = m_pid m \<and> m_leader_exited m")
          case True
          show ?thesis
          proof (cases "z = Inr True")
            case True
            then have "x = None" "h' = h2" using run \<open>t = m_pid m \<and> m_leader_exited m\<close> by simp_all
            moreover have "let_go K m t h h2" unfolding let_go_def
              using z \<open>z = Inr True\<close> \<open>t = m_pid m \<and> m_leader_exited m\<close> tends_suffix [OF q(2)] suffix_order.refl by blast
            ultimately show ?thesis using z2 by auto
          next
            case False
            then show ?thesis using run True stop [of h2] z2 by simp
          qed
        next
          case False
          then have "stop_for_detach K t ?h = Some (x, False, h')" using run by auto
          then show ?thesis using stop [of ?h] q by simp
        qed
      qed
    qed
    then show "tends t h h'" "x = Some s \<Longrightarrow> detach_relay s = owed t h'" "x = None \<Longrightarrow> let_go K m t h h'" by blast+
  qed
qed

lemma pt_detach_pays:
  assumes "pt_detach K p sig h = (r, h')" "sig = owed p h"
  shows "tends p h h'" "\<not> bad_request r \<Longrightarrow> let_go K m p h h'"
proof -
  show "let_go K m p h h'" if "\<not> bad_request r"
    using assms(1)
  proof (cases rule: pt_detach_cases)
    case (detached g)
    then show ?thesis unfolding let_go_def using works_suffix [OF detached(2)] by blast
  next
    case (failed g e)
    then have "r = Inl ESRCH" using that by (simp add: bad_request_def)
    note F = failed(5) [OF this]
    have "suffix (Asked # Ctl p (DETACH sig) False # g) h'" using F by simp
    then show ?thesis unfolding let_go_def using F failed(3) works_suffix [OF failed(2)] by blast
  qed
  have failed: "tends p g g'" if "detach_failed K p e g = (r, g')" for e g g'
    using that by (auto simp: detach_failed_def trace_ownership_def Let_def split: if_splits option.splits bool.splits prod.splits)
  have one: "tends p g (Ctl p (DETACH sig) b # g)" "\<not> b \<Longrightarrow> owed p (Ctl p (DETACH sig) b # g) = owed p g" if "sig = owed p g" for g b
    using that by (cases b; auto simp: tends_def)+
  show "tends p h h'"
  proof (cases "k_ctl K h p (DETACH sig)")
    case (Inr u)
    then show ?thesis using assms one(1) by (auto simp: pt_detach_def sys_ctl_def)
  next
    case (Inl e)
    let ?h = "Ctl p (DETACH sig) False # h"
    have f: "tends p h ?h" "sig = owed p ?h" using one [OF assms(2), of False] assms(2) by auto
    show ?thesis
    proof (cases "e = EINTR \<or> e = EIO")
      case True
      then show ?thesis
        using assms(1) Inl tends_trans [OF f(1)] one(1) [OF f(2)] tends_trans [OF tends_trans [OF f(1) one(1) [OF f(2)]]]
        by (cases "k_ctl K ?h p (DETACH sig)") (auto simp: pt_detach_def sys_ctl_def dest!: failed)
    next
      case False
      then show ?thesis using assms(1) Inl failed tends_trans [OF f(1)] by (auto simp: pt_detach_def sys_ctl_def)
    qed
  qed
qed

text \<open>The child of a clone event is another task, and no status of it has been taken.\<close>

definition clone_fresh :: "kern \<Rightarrow> bool" where
  "clone_fresh K \<longleftrightarrow> (\<forall>h tid msg. k_eventmsg K h tid = Inr msg \<longrightarrow> as_pid msg \<noteq> tid \<and> owed (as_pid msg) h = 0)"

lemma detach_clone_owes:
  assumes "detach_clone K t s h = (child, b, h')"
  shows "tends t h h' \<and> owed t h' = owed t h" "clone_fresh K \<Longrightarrow> child = Some c \<Longrightarrow> c \<noteq> t \<and> owed c h' = 0"
  using assms by (auto simp: detach_clone_def sys_eventmsg_def clone_fresh_def tends_def split: if_splits sum.splits)


lemma tid_insert_set [simp]: "set (tid_insert t ts) = insert t (set ts)"
  by (simp add: tid_insert_def set_insort_insert)

lemma tid_insert_distinct: "distinct ts \<Longrightarrow> distinct (tid_insert t ts)"
  by (simp add: tid_insert_def distinct_insort_insert)

lemma let_go_add_tid [simp]: "let_go K (add_tid c m) = let_go K m"
  by (simp add: let_go_def add_tid_def fun_eq_iff)

text \<open>One thread of the release.\<close>

lemma detach_one_owes:
  assumes st: "detach_status K m t h = Some (Some s, False, h1)" and cl: "detach_clone K t (fst s) h1 = (child, False, h2)"
    and d: "pt_detach K t (detach_relay s) h2 = (r, h3)" and o: "owed t h = 0"
  shows "tends t h h3" "\<not> bad_request r \<Longrightarrow> let_go K m t h h3" "clone_fresh K \<Longrightarrow> child = Some c \<Longrightarrow> c \<noteq> t \<and> owed c h3 = 0"
proof -
  note S = detach_status_owes [OF st o] and C = detach_clone_owes [OF cl]
  have sig: "detach_relay s = owed t h2" using S(2) [OF refl] C(1) by simp
  note P = pt_detach_pays [OF d sig]
  have t2: "tends t h h2" using tends_trans [OF S(1)] C(1) by blast
  show "tends t h h3" by (rule tends_trans [OF t2 P(1)])
  show "\<not> bad_request r \<Longrightarrow> let_go K m t h h3" using let_go_widen [OF P(2) tends_suffix [OF t2]] by simp
  show "clone_fresh K \<Longrightarrow> child = Some c \<Longrightarrow> c \<noteq> t \<and> owed c h3 = 0" using C(2) P(1) by (auto simp: tends_def)
qed

lemma detach_pending_lets_go:
  "detach_pending K tids m bad h = Some r \<Longrightarrow> (bad \<longrightarrow> fst r) \<and>
     (\<not> fst r \<longrightarrow> clone_fresh K \<longrightarrow> distinct tids \<longrightarrow> (\<forall>t \<in> set tids. owed t h = 0) \<longrightarrow> delivers_all h \<longrightarrow>
        delivers_all (snd (snd r)) \<and> suffix h (snd (snd r)) \<and> (\<forall>t \<in> set tids. let_go K m t h (snd (snd r))))"
proof (induction rule: detach_pending.raw_induct [rotated, consumes 1, case_names Step])
  case (Step dp K tids m bad h r)
  let ?G = "\<lambda>ts g. suffix g (snd (snd r)) \<and> (\<forall>t \<in> set ts. let_go K m t g (snd (snd r)))"
  let ?Q = "(bad \<longrightarrow> fst r) \<and> (\<not> fst r \<longrightarrow> clone_fresh K \<longrightarrow> distinct tids \<longrightarrow> (\<forall>t \<in> set tids. owed t h = 0) \<longrightarrow> delivers_all h \<longrightarrow>
        delivers_all (snd (snd r)) \<and> ?G tids h)"
  show ?Q
  proof (cases tids)
    case Nil
    then show ?thesis using Step(2) by auto
  next
    case (Cons t rest)
    have go: ?Q if run: "dp K ts m' (bad \<or> b) g = Some r" and m: "let_go K m' = let_go K m" "set rest \<subseteq> set ts"
        and b: "\<not> b \<Longrightarrow> owed t h = 0 \<Longrightarrow> tends t h g \<and> let_go K m t h g"
        and o: "\<not> b \<Longrightarrow> clone_fresh K \<Longrightarrow> distinct tids \<Longrightarrow> \<forall>t \<in> set tids. owed t h = 0 \<Longrightarrow> distinct ts \<and> (\<forall>u \<in> set ts. owed u g = 0)"
      for ts m' b g
    proof -
      note I = Step(1) [OF run]
      have "delivers_all (snd (snd r)) \<and> ?G tids h"
        if r: "\<not> fst r" and K: "clone_fresh K" and ts: "distinct tids" "\<forall>t \<in> set tids. owed t h = 0" and D: "delivers_all h"
      proof -
        have nb: "\<not> b" using I r by blast
        have "owed t h = 0" using ts(2) Cons by simp
        from b [OF nb this] have as: "tends t h g" "let_go K m t h g" by blast+
        have g: "delivers_all g" using as(1) D by (simp add: tends_def)
        have "delivers_all (snd (snd r)) \<and> ?G ts g" using I r K o [OF nb K ts] g m(1) by simp
        then have G: "delivers_all (snd (snd r))" "suffix g (snd (snd r))" "\<forall>t \<in> set ts. let_go K m t g (snd (snd r))" by blast+
        have sx: "suffix h g" using as(1) by (rule tends_suffix)
        have "let_go K m t h (snd (snd r))" by (rule let_go_widen [OF as(2) suffix_order.refl G(2)])
        moreover have "let_go K m u h (snd (snd r))" if "u \<in> set rest" for u
          using let_go_widen [OF _ sx suffix_order.refl] G(3) m(2) that by blast
        ultimately show ?thesis using G(1) suffix_order.trans [OF sx G(2)] Cons by auto
      qed
      then show ?thesis using I by blast
    qed
    have rest: "u \<in> set rest \<Longrightarrow> owed u g = 0 \<and> u \<noteq> t"
      if "distinct tids" "\<forall>t \<in> set tids. owed t h = 0" "tends t h g" for u g using that Cons by (auto simp: tends_def)
    obtain x b h1 where st: "detach_status K m t h = Some (x, b, h1)" using Step(2) Cons by (auto split: option.splits)
    show ?thesis
    proof (cases x)
      case None
      have run: "dp K rest m (bad \<or> b) h1 = Some r" using Step(2) by (simp add: Cons st None)
      show ?thesis
      proof (rule go [OF run])
        show "\<not> b \<Longrightarrow> owed t h = 0 \<Longrightarrow> tends t h h1 \<and> let_go K m t h h1"
          using detach_status_owes(1,3) [of K m t h x h1] st None by auto
        show "distinct rest \<and> (\<forall>u \<in> set rest. owed u h1 = 0)"
          if "\<not> b" "clone_fresh K" "distinct tids" "\<forall>t \<in> set tids. owed t h = 0"
          using detach_status_owes(1) [of K m t h x h1] st None that Cons rest [OF that(3,4)] by auto
      qed simp_all
    next
      case (Some s)
      obtain child b1 h2 where cl: "detach_clone K t (fst s) h1 = (child, b1, h2)" by (metis prod.exhaust)
      obtain d h3 where d: "pt_detach K t (detach_relay s) h2 = (d, h3)" by fastforce
      let ?b = "b \<or> b1 \<or> bad_request d"
      let ?ts = "case child of None \<Rightarrow> rest | Some c \<Rightarrow> tid_insert c rest" and ?m = "case child of None \<Rightarrow> m | Some c \<Rightarrow> add_tid c m"
      have run: "dp K ?ts ?m (bad \<or> ?b) h3 = Some r" using Step(2) by (simp add: Cons st Some cl d split: option.splits)
      have one: "tends t h h3 \<and> let_go K m t h h3 \<and> (clone_fresh K \<longrightarrow> (\<forall>c. child = Some c \<longrightarrow> c \<noteq> t \<and> owed c h3 = 0))"
        if "\<not> ?b" "owed t h = 0"
      proof -
        have "detach_status K m t h = Some (Some s, False, h1)" "detach_clone K t (fst s) h1 = (child, False, h2)"
          using st Some cl that(1) by auto
        from detach_one_owes [OF this d that(2)] that(1) show ?thesis by blast
      qed
      show ?thesis
      proof (rule go [OF run])
        show "let_go K ?m = let_go K m" "set rest \<subseteq> set ?ts" by (auto split: option.splits)
        show "\<not> ?b \<Longrightarrow> owed t h = 0 \<Longrightarrow> tends t h h3 \<and> let_go K m t h h3" using one by blast
        show "distinct ?ts \<and> (\<forall>u \<in> set ?ts. owed u h3 = 0)"
          if "\<not> ?b" "clone_fresh K" "distinct tids" "\<forall>t \<in> set tids. owed t h = 0"
        proof -
          have "owed t h = 0" "distinct rest" using that(3,4) Cons by auto
          with one [OF that(1)] rest [OF that(3,4)] that(2) show ?thesis
            by (auto split: option.splits intro: tid_insert_distinct)
        qed
      qed
    qed
  qed
qed


lemma usr1_release:
  "detach_monitored_threads usr1_kern (w_mon usr1_watch) [] =
     Some (False, mon_new 7, [Ctl 7 (DETACH 10) True, Waited 7 (Some (stopped_status 10 0))])"
proof -
  have st: "WIFSTOPPED (stopped_status 10 0)" "WSTOPSIG (stopped_status 10 0) = 10" "stop_event (stopped_status 10 0) = 0"
    by (simp_all add: WIFSTOPPED_def WSTOPSIG_def stop_event_def stopped_status_def)
  show ?thesis
    by (simp add: detach_monitored_threads_def usr1_watch_def detach_pending.simps detach_status_def detach_clone_def detach_relay_def st
        sys_waitpid_def pt_detach_def sys_ctl_def bad_request_def usr1_kern_def sim_kern_def mon_new_def Let_def)
qed



section \<open>The state of the monitor\<close>

text \<open>\<^verbatim>\<open>_monitor_tids\<close> is a set, and the signal of the crash is one that dumps core.\<close>

definition mon_tids_ok :: "mon \<Rightarrow> bool" where "mon_tids_ok m \<longleftrightarrow> sorted (m_tids m) \<and> distinct (m_tids m)"

definition watch_ok :: "watch \<Rightarrow> bool" where
  "watch_ok w \<longleftrightarrow> mon_tids_ok (w_mon w) \<and> (w_exit w = 0 \<or> is_core_dump_signal (w_exit w))"

lemma mon_tids_ok_simps [simp]:
  "mon_tids_ok m \<Longrightarrow> mon_tids_ok (add_tid t m)" "mon_tids_ok m \<Longrightarrow> mon_tids_ok (drop_tid t m)" "mon_tids_ok (m\<lparr>m_tids := [t]\<rparr>)"
  "mon_tids_ok (m\<lparr>m_leader_exited := b\<rparr>) = mon_tids_ok m" "mon_tids_ok (m\<lparr>m_relay := r\<rparr>) = mon_tids_ok m" "mon_tids_ok (m\<lparr>m_crash_tid := t\<rparr>) = mon_tids_ok m"
  using sorted_filter [of "\<lambda>x. x" "m_tids m"]
  by (simp_all add: mon_tids_ok_def add_tid_def drop_tid_def tid_insert_def tid_erase_def sorted_insort_insert distinct_insort_insert)

lemma watch_ok_update [simp]:
  "watch_ok w \<Longrightarrow> mon_tids_ok m \<Longrightarrow> watch_ok (w\<lparr>w_mon := m\<rparr>)" "watch_ok (w\<lparr>w_group := g\<rparr>) = watch_ok w" "watch_ok w \<Longrightarrow> mon_tids_ok (w_mon w)"
  by (auto simp: watch_ok_def)

lemma unchanged_watch: "go_on K t sig w h = (d, w', h') \<Longrightarrow> w' = w" "resume_tid K t sig w h = (d, w', h') \<Longrightarrow> w' = w"
  by (auto simp: go_on_def resume_tid_def Let_def split: if_splits prod.splits)

lemma watch_ok_clone: "clone_event K t w h = Some (d, w', h') \<Longrightarrow> watch_ok w \<Longrightarrow> watch_ok w'"
  by (auto simp: clone_event_def Let_def split: sum.splits option.splits prod.splits if_splits bool.splits drain_step.splits
      dest!: unchanged_watch)

lemma watch_ok_status: "drain_status K t s w h = Some (d, w', h') \<Longrightarrow> watch_ok w \<Longrightarrow> watch_ok w'"
proof -
  assume dr: "drain_status K t s w h = Some (d, w', h')" and w: "watch_ok w"
  have exec: "exec_event K t w h = (d, w', h') \<Longrightarrow> watch_ok w'"
    using w by (auto simp: exec_event_def Let_def watch_ok_def mon_tids_ok_def split: prod.splits drain_step.splits dest!: unchanged_watch)
  have sig: "signal_stop K t (WSTOPSIG s) w h = (d, w', h') \<Longrightarrow> watch_ok w'"
    using w by (auto simp: signal_stop_def split: prod.splits sum.splits bool.splits if_splits dest!: unchanged_watch) (auto simp: watch_ok_def)
  have other: "other_event K t (stop_event s) (WSTOPSIG s) w h = (d, w', h') \<Longrightarrow> watch_ok w'"
    using w by (auto simp: other_event_def split: prod.splits sum.splits if_splits dest!: unchanged_watch)
  show "watch_ok w'"
    using dr w exec sig other watch_ok_clone [OF _ w]
    by (auto simp: drain_status_def thread_gone_def Let_def split: if_splits dest!: unchanged_watch)
qed

lemma watch_ok_one: "drain_one K t w h = Some (d, w', h') \<Longrightarrow> watch_ok w \<Longrightarrow> watch_ok w'"
  by (auto simp: drain_one_def wait_error_def Let_def split: prod.splits sum.splits option.splits if_splits dest: watch_ok_status)

lemma reconcile_ok: "reconcile K m h = (x, m', h') \<Longrightarrow> mon_tids_ok m \<Longrightarrow> mon_tids_ok m'"
proof -
  have adopt: "adopt K ts m g = (b, m', g') \<Longrightarrow> mon_tids_ok m \<Longrightarrow> mon_tids_ok m'" for ts m g b g' m'
    by (induction ts arbitrary: m g) (auto split: prod.splits bool.splits if_splits)
  show "reconcile K m h = (x, m', h') \<Longrightarrow> mon_tids_ok m \<Longrightarrow> mon_tids_ok m'"
    by (auto simp: reconcile_def split: sum.splits prod.splits bool.splits if_splits dest: adopt)
qed

interpretation form: drain_invariant K "\<lambda>w h. watch_ok w" "\<lambda>w h. watch_ok w" for K
  by unfold_locales (auto dest: watch_ok_one reconcile_ok)

lemma drain_well_formed:
  "drain_monitor_events K w h = Some (d, w', h') \<Longrightarrow> watch_ok w \<Longrightarrow> watch_ok w'"
  by (rule form.drain(1))

text \<open>A drain that reports a crash has found one.\<close>

lemma drain_crashed: "drain_monitor_events K w h = Some r \<Longrightarrow> fst r = Crashed \<longrightarrow> crash_found (fst (snd r))"
proof (induction rule: drain_monitor_events.raw_induct [rotated, consumes 1, case_names Step])
  case (Step dm K w h r)
  obtain d p w1 h1 where pass: "drain_pass K (m_tids (w_mon w)) False w h = Some (d, p, w1, h1)"
    using Step(2) by (auto split: option.splits)
  obtain x m2 h2 where rc: "reconcile K (w_mon w1) h1 = (x, m2, h2)" by (metis prod.exhaust)
  have d: "d \<noteq> Some Crashed" using drain_pass_leave [of K _ False w h Crashed p w1 h1] pass drain_one_leave by fastforce
  have x: "x \<noteq> Some Crashed" using rc by (auto simp: reconcile_def split: sum.splits prod.splits bool.splits if_splits)
  show ?case using Step(2) Step(1) [of K "w1\<lparr>w_mon := m2\<rparr>" h2] Step(1) [of K w1 h1] d x
    by (auto simp: pass rc split: option.splits if_splits)
qed


lemma exit_clone: "clone_event K t w h = Some (d, w', h') \<Longrightarrow> w_exit w' = w_exit w"
  by (auto simp: clone_event_def Let_def split: sum.splits option.splits prod.splits if_splits bool.splits drain_step.splits
      dest!: unchanged_watch)

lemma exit_one: "drain_one K t w h = Some (d, w', h') \<Longrightarrow> w_exit w' = w_exit w \<or> is_core_dump_signal (w_exit w')"
proof -
  have exec: "exec_event K t w h = (d, w', h') \<Longrightarrow> w_exit w' = w_exit w" for h
    by (auto simp: exec_event_def Let_def split: prod.splits drain_step.splits dest!: unchanged_watch)
  have sig: "signal_stop K t s w h = (d, w', h') \<Longrightarrow> w_exit w' = w_exit w \<or> is_core_dump_signal (w_exit w')" for s h
    by (auto simp: signal_stop_def split: prod.splits sum.splits bool.splits if_splits dest!: unchanged_watch)
  have other: "other_event K t ev s w h = (d, w', h') \<Longrightarrow> w_exit w' = w_exit w" for ev s h
    by (auto simp: other_event_def split: prod.splits sum.splits if_splits dest!: unchanged_watch)
  have status: "drain_status K t s w h = Some (d, w', h') \<Longrightarrow> w_exit w' = w_exit w \<or> is_core_dump_signal (w_exit w')" for s h
    using exec sig other exit_clone [of K t w h d w' h']
    by (auto simp: drain_status_def thread_gone_def Let_def split: if_splits dest!: unchanged_watch)
  show "drain_one K t w h = Some (d, w', h') \<Longrightarrow> w_exit w' = w_exit w \<or> is_core_dump_signal (w_exit w')"
    by (auto simp: drain_one_def wait_error_def Let_def split: prod.splits sum.splits option.splits if_splits dest: status)
qed

interpretation fatal: drain_invariant K "\<lambda>w h. w_exit w = 0 \<or> is_core_dump_signal (w_exit w)"
    "\<lambda>w h. w_exit w = 0 \<or> is_core_dump_signal (w_exit w)" for K
  by unfold_locales (auto dest: exit_one)

lemma drain_fatal:
  assumes "drain_monitor_events K w h = Some (d, w', h')" "w_exit w = 0 \<or> is_core_dump_signal (w_exit w)"
  shows "(w_exit w' = 0 \<or> is_core_dump_signal (w_exit w')) \<and> (d = Crashed \<longrightarrow> is_core_dump_signal (w_exit w'))"
  using fatal.drain(1) [OF assms] drain_crashed [OF assms(1)] by (auto simp: crash_found_def)

text \<open>What a turn of the loop makes of \<^verbatim>\<open>exit_sig\<close>.\<close>

lemma returned_turn [simp]: "returned r \<noteq> Some (Again s, x)" "returned r \<noteq> Some (Collect s, x)"
  by (auto simp: returned_def split: option.splits)

lemma dump_turn_exit:
  "dump_turn K cdc op pl sc c temp st s h files = Some (Again s', x) \<Longrightarrow> w_exit (wl_watch s') = w_exit (wl_watch s)"
  "dump_turn K cdc op pl sc c temp st s h files \<noteq> Some (Collect s', x)"
  by (auto simp: dump_turn_def Let_def split: if_splits option.splits prod.splits)

lemma monitor_turn_exit:
  assumes "w_exit (wl_watch s) = 0 \<or> is_core_dump_signal (w_exit (wl_watch s))"
  shows "monitor_turn K cdc op pl sc c temp st s h files = Some (Again s', x) \<Longrightarrow>
      w_exit (wl_watch s') = 0 \<or> is_core_dump_signal (w_exit (wl_watch s'))"
    "monitor_turn K cdc op pl sc c temp st s h files = Some (Collect s', x) \<Longrightarrow> is_core_dump_signal (w_exit (wl_watch s'))"
  by (auto simp: monitor_turn_def signal_turn_def wait_turn_def Let_def dump_turn_exit
      split: option.splits prod.splits drained.splits if_splits sum.splits dest!: drain_fatal [OF _ assms] dump_turn_exit(1))

lemma monitor_loop_exit:
  "monitor_loop K cdc op pl sc c temp st s h files = Some r \<Longrightarrow> w_exit (wl_watch s) = 0 \<or> is_core_dump_signal (w_exit (wl_watch s)) \<longrightarrow>
     (\<forall>s'. fst r = Inr s' \<longrightarrow> is_core_dump_signal (w_exit (wl_watch s')))"
proof (induction rule: monitor_loop.raw_induct [rotated, consumes 1, case_names Step])
  case (Step ml K cdc op pl sc c temp st s h files r)
  show ?case
  proof (intro impI allI)
    fix s' assume s: "w_exit (wl_watch s) = 0 \<or> is_core_dump_signal (w_exit (wl_watch s))" and r: "fst r = Inr s'"
    obtain t x where t: "monitor_turn K cdc op pl sc c temp st s h files = Some (t, x)" using Step(2) by (auto split: option.splits)
    show "is_core_dump_signal (w_exit (wl_watch s'))"
    proof (cases t)
      case (Again s1)
      obtain h1 files1 where x: "x = (h1, files1)" by (cases x)
      have "ml K cdc op pl sc c temp st s1 h1 files1 = Some r" using Step(2) by (simp add: t Again x)
      then show ?thesis using Step(1) monitor_turn_exit(1) [OF s t [unfolded Again]] r by blast
    next
      case (Return rc m)
      then show ?thesis using Step(2) r t by (auto split: prod.splits)
    next
      case (Collect s1)
      then show ?thesis using Step(2) r t monitor_turn_exit(2) [OF s t [unfolded Collect]] by (auto split: prod.splits)
    qed
  qed
qed

text \<open>
  C21: Only a crash is dumped as a crash: if the monitor's loop, whatever dumps it makes on
  request in between, comes to write the acore of a crash, the signal that ended the process
  is one of the signals whose default action dumps core.
\<close>

theorem monitor_crash_fatal:
  assumes "monitor_loop K cdc op platform sc c temp st s h files = Some (Inr s', h', files')" "w_exit (wl_watch s) = 0"
  shows "is_core_dump_signal (w_exit (wl_watch s'))"
  using monitor_loop_exit [OF assms(1)] assms(2) by simp

text \<open>The loop as the last dump left it, with a \<^verbatim>\<open>SIGSEGV\<close> that has not been handed on.\<close>

definition segv_loop :: watch_loop where
  "segv_loop = \<lparr>wl_watch = usr1_watch, wl_signal = 11, wl_seq = 0, wl_dump = False\<rparr>"

lemma segv_run:
  "monitor_loop usr1_kern counted op 0 sc c temp st segv_loop [Asked] files =
     Some (Inr (segv_loop\<lparr>wl_watch := usr1_watch\<lparr>w_exit := 11, w_mon := (w_mon usr1_watch)\<lparr>m_crash_tid := 7\<rparr>\<rparr>\<rparr>), [Waited 7 None, Asked], files)"
proof -
  have t: "m_tids (w_mon usr1_watch) = [7]" "\<not> crash_found usr1_watch" "m_crash_tid (w_mon usr1_watch) = 0" "m_pid (w_mon usr1_watch) = 7"
    by (simp_all add: usr1_watch_def crash_found_def mon_new_def)
  have one: "drain_one usr1_kern 7 usr1_watch [Asked] = Some (Skip, usr1_watch, [Waited 7 None, Asked])"
    by (simp add: drain_one_def sys_waitpid_def usr1_kern_def Let_def)
  have d: "drain_monitor_events usr1_kern usr1_watch [Asked] = Some (Calm, usr1_watch, [Waited 7 None, Asked])"
    by (subst drain_monitor_events.simps) (simp add: t one)
  have l: "wl_watch segv_loop = usr1_watch" "wl_signal segv_loop = 11" "segv_loop\<lparr>wl_watch := usr1_watch\<rparr> = segv_loop"
    by (simp_all add: segv_loop_def)
  have "is_core_dump_signal 11" by (simp add: is_core_dump_signal_def)
  then show ?thesis
    by (subst monitor_loop.simps) (simp add: monitor_turn_def d l signal_turn_def t Let_def)
qed

theorem monitor_crash_fatal_witness:
  "\<exists>s'. monitor_loop usr1_kern counted \<lparr>op_os = \<lambda>h. calm_os, op_fresh = \<lambda>h. (0, 0), op_info = \<lambda>h. gen_info, op_fd = 3\<rparr> 0 fork_code
       (Coredump_new ARCH_AARCH64 7) ''temp'' (Lz4Stream_new LZ4_Compress) segv_loop [Asked] Map.empty =
       Some (Inr s', [Waited 7 None, Asked], Map.empty) \<and> w_exit (wl_watch s') = 11 \<and> is_core_dump_signal (w_exit (wl_watch s'))"
proof -
  have "w_exit (wl_watch segv_loop) = 0" by (simp add: segv_loop_def usr1_watch_def)
  from monitor_crash_fatal [OF segv_run this] show ?thesis by (simp add: segv_run)
qed
end
