(* ===== verification/CrashProps.thy ===== *)
theory CrashProps
  imports MonitorEnd
begin

text \<open>
  The acore the monitor writes when the target dies of a signal: it has every thread of the
  target, the crashing one first, and converts to a core file that tells the signal.
\<close>

section \<open>The threads\<close>

lemma list_task_tids_distinct: "list_task_tids K leader h = (Inr ts, h') \<Longrightarrow> distinct ts"
proof -
  have "distinct (foldr tid_insert xs [])" for xs by (induction xs) (auto intro: tid_insert_distinct)
  then show "list_task_tids K leader h = (Inr ts, h') \<Longrightarrow> distinct ts"
    by (auto simp: list_task_tids_def split: sum.splits option.splits)
qed

text \<open>The kernel has said, in this part of the run, that a task is no thread of the target.\<close>

definition disclaimed :: "kern \<Rightarrow> int \<Rightarrow> int \<Rightarrow> history \<Rightarrow> history \<Rightarrow> bool" where
  "disclaimed K leader t h h' \<longleftrightarrow>
     (\<exists>g. suffix h g \<and> suffix (Asked # g) h' \<and> belongs_to_thread_group K leader t g = (Some False, Asked # g))"

text \<open>
  A thread of the collection is stopped: it is the one the monitor holds in the stop of its
  crash, or has been seen stopped and not been woken since. (Only the child of a clone event
  that is no thread of the target is let go in between.)
\<close>

definition held :: "kern \<Rightarrow> int \<Rightarrow> int \<Rightarrow> int \<Rightarrow> history \<Rightarrow> history \<Rightarrow> bool" where
  "held K leader crash t h h' \<longleftrightarrow> t = crash \<or> stopped_at K t h' \<or> disclaimed K leader t h h'"

text \<open>
  Under the monitor, the threads captured are exactly those of the confirming listing, but
  for an exited leader. The listing is the last thing the collection does: it is taken in the
  run (after \<open>h0\<close>), when every captured thread is stopped; \<open>hx\<close> is the history right after it.
\<close>

definition thread_set_exact :: "kern \<Rightarrow> int \<Rightarrow> mon \<Rightarrow> history \<Rightarrow> history \<Rightarrow> bool" where
  "thread_set_exact K leader m h0 hx \<longleftrightarrow>
     (\<exists>g listed. list_task_tids K leader g = (Inr listed, hx) \<and> suffix h0 g \<and> distinct listed \<and> m_thrd m = live_tids leader m listed \<and>
        (\<forall>t \<in> set (m_thrd m). held K leader (m_crash_tid m) t h0 g))"

text \<open>What a step of the collection leaves stopped: all threads but those of a set, and clone children let go.\<close>

definition spares :: "kern \<Rightarrow> int \<Rightarrow> int set \<Rightarrow> history \<Rightarrow> history \<Rightarrow> bool" where
  "spares K leader X h h' \<longleftrightarrow> suffix h h' \<and> (\<forall>t. t \<notin> X \<longrightarrow> stopped_at K t h \<longrightarrow> stopped_at K t h' \<or> disclaimed K leader t h h')"

lemma disclaimed_widen: "disclaimed K leader t g g' \<Longrightarrow> suffix h g \<Longrightarrow> suffix g' h' \<Longrightarrow> disclaimed K leader t h h'"
  unfolding disclaimed_def by (meson suffix_order.trans)

lemma spares_refl [simp]: "spares K leader X h h"
  by (simp add: spares_def)

lemma spares_trans: "spares K leader X h g \<Longrightarrow> spares K leader X g h' \<Longrightarrow> spares K leader X h h'"
  unfolding spares_def using disclaimed_widen suffix_order.trans suffix_order.refl by metis

lemma spares_Cons: "spares K leader X h h' \<Longrightarrow> (\<And>t. t \<notin> X \<Longrightarrow> \<not> wakes t e) \<Longrightarrow> spares K leader X h (e # h')"
proof -
  assume s: "spares K leader X h h'" and e: "\<And>t. t \<notin> X \<Longrightarrow> \<not> wakes t e"
  have "spares K leader X h' (e # h')" using e stopped_Cons by (simp add: spares_def suffix_ConsI)
  then show "spares K leader X h (e # h')" by (rule spares_trans [OF s])
qed

lemma spares_simps [simp]:
  "spares K leader X h h' \<Longrightarrow> spares K leader X h (Asked # h')"
  "spares K leader X h h' \<Longrightarrow> spares K leader X h (Ctl p INTERRUPT ok # h')"
  "spares K leader X h h' \<Longrightarrow> spares K leader X h (Ctl p (SEIZE n) ok # h')"
  "spares K leader X h h' \<Longrightarrow> spares K leader X h (Killed p 0 ok # h')"
  "spares K leader X h h' \<Longrightarrow> p \<in> X \<Longrightarrow> spares K leader X h (Waited p s # h')"
  by (rule spares_Cons; assumption?; (cases s)?; auto)+

lemma spares_works: "works_on p h h' \<Longrightarrow> p \<in> X \<Longrightarrow> spares K leader X h h'"
  unfolding spares_def using works_suffix works_stopped by metis

lemma spares_mono: "spares K leader X h h' \<Longrightarrow> X \<subseteq> Y \<Longrightarrow> spares K leader Y h h'"
  by (auto simp: spares_def)

lemma finish_collect_exact:
  assumes "finish_collect K leader confirm sm h = (Collected, m', h')" "confirm = live_tids leader (snd sm) listed"
  shows "m_thrd m' = live_tids leader m' listed"
  using assms by (cases sm) (auto simp: finish_collect_def live_tids_def Let_def split: if_splits prod.splits)

text \<open>A collection that meets no further crash leaves the one that was found.\<close>

definition same_crash :: "stop_state \<times> mon \<Rightarrow> stop_state \<times> mon \<Rightarrow> bool" where
  "same_crash a b \<longleftrightarrow> m_pid (snd b) = m_pid (snd a) \<and> m_leader_exited (snd b) = m_leader_exited (snd a) \<and>
     (s_fatal (fst b) = 0 \<longrightarrow> s_fatal (fst a) = 0 \<and> m_crash_tid (snd b) = m_crash_tid (snd a))"

lemma same_crash_refl [simp]: "same_crash a a" by (simp add: same_crash_def)

lemma same_crash_trans: "same_crash a b \<Longrightarrow> same_crash b c \<Longrightarrow> same_crash a c"
  by (auto simp: same_crash_def)

lemma record_clone_crash: "record_clone K leader t sm h = Some (sm', h') \<Longrightarrow> same_crash sm sm'"
  by (auto simp: record_clone_def stop_failed_def same_crash_def Let_def split: sum.splits option.splits prod.splits bool.splits if_splits)

lemma record_signal_crash: "record_signal K leader t sig sm h = (sm', h') \<Longrightarrow> same_crash sm sm'"
  by (auto simp: record_signal_def set_relay_def stop_failed_def same_crash_def is_core_dump_signal_def Let_def
      split: sum.splits prod.splits bool.splits if_splits)

lemma record_stop_crash: "record_stop K leader t status sm h = Some (sm', h') \<Longrightarrow> same_crash sm sm'"
proof -
  assume r: "record_stop K leader t status sm h = Some (sm', h')"
  let ?s = "if stop_event status = PTRACE_EVENT_STOP \<and> job_control_signal (WSTOPSIG status)
    then (fst sm\<lparr>s_group := tid_insert t (s_group (fst sm))\<rparr>, snd sm) else sm"
  have s: "same_crash sm ?s" by (simp add: same_crash_def)
  show "same_crash sm sm'"
  proof (cases "WIFSTOPPED status")
    case True
    obtain st m where x: "(if stop_event status = PTRACE_EVENT_CLONE then record_clone K leader t ?s h
        else if stop_event status = 0 \<and> t \<noteq> m_crash_tid (snd ?s) then Some (record_signal K leader t (WSTOPSIG status) ?s h)
        else Some (?s, h)) = Some ((st, m), h')" "sm' = (st\<lparr>s_stopped := tid_insert t (s_stopped st)\<rparr>, m)"
      using r True by (auto simp: record_stop_def Let_def split: option.splits)
    have "same_crash ?s (st, m)"
      using x(1) record_clone_crash [of K leader t ?s h "(st, m)" h'] record_signal_crash [of K leader t "WSTOPSIG status" ?s h "(st, m)" h']
      by (metis option.inject prod.inject same_crash_refl)
    then have "same_crash sm (st, m)" by (rule same_crash_trans [OF s])
    then show ?thesis by (simp add: x(2) same_crash_def)
  qed (use r in \<open>simp add: record_stop_def\<close>)
qed

lemma stop_running_crash: "stop_running K leader t sm h = Some (b, sm', h') \<Longrightarrow> same_crash sm sm'"
  by (cases sm) (auto simp: stop_running_def Let_def split: sum.splits option.splits prod.splits if_splits dest: record_stop_crash;
      simp add: same_crash_def)

lemma stop_one_crash: "stop_one K leader t sm h = Some (b, sm', h') \<Longrightarrow> same_crash sm sm'"
  by (cases sm) (auto simp: stop_one_def split: sum.splits option.splits prod.splits if_splits dest: record_stop_crash stop_running_crash;
      simp add: same_crash_def)

lemma stop_all_crash: "stop_all K leader ts sm h = Some (b, sm', h') \<Longrightarrow> same_crash sm sm'"
  by (induction ts arbitrary: sm h)
    (auto split: option.splits bool.splits dest!: stop_one_crash intro: same_crash_trans)

lemma seize_new_crash: "seize_new K ts m h = (b, m', h') \<Longrightarrow> same_crash (st, m) (st, m')"
  by (induction ts arbitrary: m h) (auto simp: same_crash_def Let_def split: if_splits sum.splits prod.splits)

text \<open>What the steps do to the stops of the threads found so far.\<close>

lemma stop_failed_stopped [simp]: "s_stopped (fst (stop_failed sm)) = s_stopped (fst sm)"
  by (cases sm) (simp add: stop_failed_def)

lemma record_clone_spares: "record_clone K leader t sm h = Some (sm', h') \<Longrightarrow> spares K leader {} h h' \<and> s_stopped (fst sm') = s_stopped (fst sm)"
proof -
  assume r: "record_clone K leader t sm h = Some (sm', h')"
  show ?thesis
  proof (cases "k_eventmsg K h t")
    case (Inl e)
    then show ?thesis using r by (auto simp: record_clone_def sys_eventmsg_def)
  next
    case (Inr msg)
    let ?c = "as_pid msg" and ?h1 = "Asked # h"
    obtain b where b: "belongs_to_thread_group K leader ?c ?h1 = (b, Asked # ?h1)" by (simp add: belongs_to_thread_group_def)
    show ?thesis
    proof (cases "msg \<noteq> 0 \<and> b = Some False")
      case True
      then obtain w h3 where w: "pt_wait K ?c (Asked # ?h1) = Some (w, h3)"
        using r Inr b by (auto simp: record_clone_def sys_eventmsg_def Let_def split: option.splits)
      have h': "h' = h3 \<or> (\<exists>d. pt_detach K ?c 0 h3 = (d, h'))" "s_stopped (fst sm') = s_stopped (fst sm)"
        using r Inr b True w by (auto simp: record_clone_def sys_eventmsg_def Let_def split: sum.splits prod.splits)
      have wk: "works_on ?c (Asked # ?h1) h'"
        using h'(1) pt_wait_works(1) [OF w] pt_detach_works works_trans by blast
      have "disclaimed K leader ?c h h'" unfolding disclaimed_def
        using b True works_suffix [OF wk] by (intro exI [of _ ?h1]) (auto intro: suffix_ConsI)
      moreover have "stopped_at K u h'" if "stopped_at K u h" "u \<noteq> ?c" for u
        by (rule works_stopped [OF wk that(2)]) (simp add: stopped_Cons that(1))
      moreover have "suffix h h'" using works_suffix [OF wk] by (meson suffix_ConsD)
      ultimately show ?thesis using h'(2) by (auto simp: spares_def)
    next
      case False
      then show ?thesis using r Inr b
        by (auto simp: record_clone_def sys_eventmsg_def Let_def split: if_splits option.splits bool.splits)
    qed
  qed
qed

lemma record_signal_spares: "record_signal K leader t sig sm h = (sm', h') \<Longrightarrow> spares K leader {} h h' \<and> s_stopped (fst sm') = s_stopped (fst sm)"
  by (auto simp: record_signal_def disposition_def stop_failed_def Let_def split: sum.splits prod.splits bool.splits if_splits)

lemma record_stop_spares:
  assumes "record_stop K leader t status sm h = Some (sm', h')"
  shows "spares K leader {} h h'" "set (s_stopped (fst sm')) \<subseteq> insert t (set (s_stopped (fst sm)))"
    "t \<in> set (s_stopped (fst sm')) \<Longrightarrow> t \<in> set (s_stopped (fst sm)) \<or> WIFSTOPPED status"
proof -
  let ?s = "if stop_event status = PTRACE_EVENT_STOP \<and> job_control_signal (WSTOPSIG status)
    then (fst sm\<lparr>s_group := tid_insert t (s_group (fst sm))\<rparr>, snd sm) else sm"
  have "spares K leader {} h h' \<and> set (s_stopped (fst sm')) \<subseteq> insert t (set (s_stopped (fst sm))) \<and>
    (t \<in> set (s_stopped (fst sm')) \<longrightarrow> t \<in> set (s_stopped (fst sm)) \<or> WIFSTOPPED status)"
  proof (cases "WIFSTOPPED status")
    case True
    obtain st m where x: "(if stop_event status = PTRACE_EVENT_CLONE then record_clone K leader t ?s h
        else if stop_event status = 0 \<and> t \<noteq> m_crash_tid (snd ?s) then Some (record_signal K leader t (WSTOPSIG status) ?s h)
        else Some (?s, h)) = Some ((st, m), h')" "sm' = (st\<lparr>s_stopped := tid_insert t (s_stopped st)\<rparr>, m)"
      using assms True by (auto simp: record_stop_def Let_def split: option.splits)
    have "spares K leader {} h h' \<and> s_stopped st = s_stopped (fst ?s)"
      using x(1) record_clone_spares [of K leader t ?s h "(st, m)" h'] record_signal_spares [of K leader t "WSTOPSIG status" ?s h "(st, m)" h']
      by (auto split: if_splits)
    then show ?thesis using True by (auto simp: x(2))
  qed (use assms in \<open>auto simp: record_stop_def\<close>)
  then show "spares K leader {} h h'" "set (s_stopped (fst sm')) \<subseteq> insert t (set (s_stopped (fst sm)))"
    "t \<in> set (s_stopped (fst sm')) \<Longrightarrow> t \<in> set (s_stopped (fst sm)) \<or> WIFSTOPPED status" by blast+
qed

text \<open>A step for one thread: it is held if it was added, and the others stay as they were.\<close>

definition stop_step :: "kern \<Rightarrow> int \<Rightarrow> int \<Rightarrow> stop_state \<times> mon \<Rightarrow> stop_state \<times> mon \<Rightarrow> history \<Rightarrow> history \<Rightarrow> bool" where
  "stop_step K leader t sm sm' h h' \<longleftrightarrow> spares K leader {t} h h' \<and> set (s_stopped (fst sm')) \<subseteq> insert t (set (s_stopped (fst sm))) \<and>
     (t \<in> set (s_stopped (fst sm')) \<longrightarrow> t \<in> set (s_stopped (fst sm)) \<or> stopped_at K t h' \<or> disclaimed K leader t h h')"

lemma stop_step_same: "spares K leader {t} h h' \<Longrightarrow> s_stopped (fst sm') = s_stopped (fst sm) \<Longrightarrow> stop_step K leader t sm sm' h h'"
  by (auto simp: stop_step_def)

lemma stop_step_record:
  assumes "spares K leader {t} h g" "WIFSTOPPED status \<Longrightarrow> seen_stopped K t g" "record_stop K leader t status sm g = Some (sm', h')"
  shows "stop_step K leader t sm sm' h h'"
proof -
  note R = record_stop_spares [OF assms(3)]
  have "stopped_at K t h' \<or> disclaimed K leader t h h'" if "WIFSTOPPED status"
    using R(1) stopped_now [OF assms(2) [OF that]] assms(1) disclaimed_widen [of K leader t g h' h h'] by (auto simp: spares_def)
  then show ?thesis using R(2,3) spares_trans [OF assms(1) spares_mono [OF R(1)]] by (auto simp: stop_step_def)
qed

lemma stop_running_step: "stop_running K leader t sm h = Some (b, sm', h') \<Longrightarrow> stop_step K leader t sm sm' h h'"
proof -
  assume r: "stop_running K leader t sm h = Some (b, sm', h')"
  obtain st m where sm: "sm = (st, m)" by (cases sm)
  have same: "stop_step K leader t sm sm' h h'" if "spares K leader {t} h h'" "fst sm' = st" using stop_step_same that sm by simp
  have killed: "vanished K t g = (v, g') \<Longrightarrow> spares K leader {t} h g \<Longrightarrow> spares K leader {t} h g'" for g v g'
    by (auto simp: vanished_def sys_kill_def Let_def)
  show ?thesis
  proof (cases "k_getregs K h t")
    case (Inr regs)
    then have "sm' = (st\<lparr>s_stopped := tid_insert t (s_stopped st)\<rparr>, m)" "h' = Asked # h"
      using r by (auto simp: stop_running_def sm sys_getregs_def)
    moreover have "stopped_at K t (Asked # h)" by (rule stopped_now) (simp add: seen_stopped_def Inr)
    ultimately show ?thesis by (simp add: stop_step_def sm)
  next
    case (Inl e)
    let ?h = "\<lambda>ok. Ctl t INTERRUPT ok # Asked # h"
    have sp: "spares K leader {t} h (?h ok)" for ok by simp
    show ?thesis
    proof (cases "k_ctl K (Asked # h) t INTERRUPT")
      case i: (Inl e2)
      then have "spares K leader {t} h h' \<and> fst sm' = st"
        using r Inl sp [of False] killed [of "?h False"] by (auto simp: stop_running_def sm sys_getregs_def sys_ctl_def Let_def split: if_splits prod.splits)
      then show ?thesis using same by blast
    next
      case i: (Inr u)
      obtain w h3 where w: "pt_wait K t (?h True) = Some (w, h3)"
        using r Inl i by (auto simp: stop_running_def sm sys_getregs_def sys_ctl_def split: option.splits)
      have sp3: "spares K leader {t} h h3" using spares_trans [OF sp spares_works [OF pt_wait_works(1) [OF w]]] by simp
      show ?thesis
      proof (cases w)
        case wl: (Inl x)
        have "spares K leader {t} h h' \<and> fst sm' = st"
          using r Inl i w wl killed [OF _ sp3] by (auto simp: stop_running_def sm sys_getregs_def sys_ctl_def split: prod.splits if_splits)
        then show ?thesis using same by blast
      next
        case wr: (Inr s)
        then obtain sm1 where "record_stop K leader t s sm h3 = Some (sm', h')"
          using r Inl i w by (auto simp: stop_running_def sm sys_getregs_def sys_ctl_def split: option.splits)
        then show ?thesis using pt_wait_works(2) [OF w wr] by (intro stop_step_record [OF sp3])
      qed
    qed
  qed
qed

lemma stop_one_step:
  assumes "stop_one K leader t sm h = Some (b, sm', h')" "t \<notin> set (s_stopped (fst sm))"
  shows "stop_step K leader t sm sm' h h' \<or> t = m_crash_tid (snd sm) \<and> h' = h \<and> set (s_stopped (fst sm')) = insert t (set (s_stopped (fst sm)))"
proof -
  obtain st m where sm: "sm = (st, m)" by (cases sm)
  show ?thesis
  proof (cases "m_leader_exited m \<and> t = leader")
    case True
    then show ?thesis using assms stop_step_same [of K leader t h h sm sm] by (auto simp: stop_one_def sm)
  next
    case False
    show ?thesis
    proof (cases "t = m_crash_tid m")
      case True
      then show ?thesis using assms False by (auto simp: stop_one_def sm)
    next
      case nc: False
      note run = assms(1) [unfolded stop_one_def sm prod.case Let_def]
      have notin: "\<not> (t \<in> set (s_stopped st) \<or> m_leader_exited m \<and> t = leader)" using assms(2) False sm by auto
      have stop: "stop_step K leader t sm sm' h h'" if "stop_running K leader t sm (Waited t None # h) = Some (b, sm', h')"
        using stop_running_step [OF that] spares_trans [of K leader "{t}" h "Waited t None # h" h'] disclaimed_widen [of K leader t "Waited t None # h" h' h h']
        by (auto simp: stop_step_def suffix_ConsI)
      have "stop_step K leader t sm sm' h h'"
      proof (cases "\<exists>status. k_waitpid K h t = Inr (Some status)")
        case True
        then obtain status where k: "k_waitpid K h t = Inr (Some status)" by blast
        let ?h = "Waited t (Some status) # h"
        have sp: "spares K leader {t} h ?h" by simp
        show ?thesis
        proof (cases "WIFEXITED status \<or> WIFSIGNALED status")
          case True
          then have "fst sm' = st" "h' = ?h" using run notin nc k by (auto simp: sys_waitpid_def Let_def)
          then show ?thesis using sp stop_step_same [of K leader t h ?h sm' sm] by (simp add: sm)
        next
          case False
          then have "record_stop K leader t status sm ?h = Some (sm', h')"
            using run notin nc k by (auto simp: sys_waitpid_def Let_def sm split: option.splits)
          then show ?thesis by (intro stop_step_record [OF sp]) (auto simp: seen_stopped_def)
        qed
      next
        case no: False
        have "stop_running K leader t sm (Waited t None # h) = Some (b, sm', h')"
          using run notin nc no sm by (cases "k_waitpid K h t") (auto simp: sys_waitpid_def Let_def split: option.splits)
        then show ?thesis by (rule stop)
      qed
      then show ?thesis ..
    qed
  qed
qed

text \<open>The threads recorded as stopped are held, as long as no crash is found.\<close>

definition stopping :: "kern \<Rightarrow> int \<Rightarrow> history \<Rightarrow> stop_state \<times> mon \<Rightarrow> history \<Rightarrow> bool" where
  "stopping K leader h0 sm h \<longleftrightarrow> suffix h0 h \<and>
     (s_fatal (fst sm) = 0 \<longrightarrow> (\<forall>t \<in> set (s_stopped (fst sm)). held K leader (m_crash_tid (snd sm)) t h0 h))"

lemma held_spared: "held K leader c t h0 h \<Longrightarrow> spares K leader X h h' \<Longrightarrow> t \<notin> X \<Longrightarrow> suffix h0 h \<Longrightarrow> held K leader c t h0 h'"
  unfolding held_def spares_def using disclaimed_widen suffix_order.refl by blast

lemma stopping_spared:
  "stopping K leader h0 sm h \<Longrightarrow> spares K leader {} h h' \<Longrightarrow> same_crash sm sm' \<Longrightarrow> s_stopped (fst sm') = s_stopped (fst sm) \<Longrightarrow>
    stopping K leader h0 sm' h'"
  using held_spared [of K leader "m_crash_tid (snd sm)" _ h0 h "{}" h'] suffix_order.trans
  by (fastforce simp: stopping_def same_crash_def spares_def)

lemma stopping_step:
  assumes "stopping K leader h0 sm h" "stop_one K leader t sm h = Some (b, sm', h')"
  shows "stopping K leader h0 sm' h'"
proof (cases "t \<in> set (s_stopped (fst sm))")
  case True
  then show ?thesis using assms by (cases sm) (auto simp: stop_one_def)
next
  case False
  note S = stop_one_step [OF assms(2) False] and C = stop_one_crash [OF assms(2)]
  have h0: "suffix h0 h" using assms(1) by (simp add: stopping_def)
  have sx: "suffix h h'" using S by (auto simp: stop_step_def spares_def)
  have "held K leader (m_crash_tid (snd sm')) u h0 h'" if f: "s_fatal (fst sm') = 0" and u: "u \<in> set (s_stopped (fst sm'))" for u
  proof -
    have c: "s_fatal (fst sm) = 0" "m_crash_tid (snd sm') = m_crash_tid (snd sm)" using C f by (auto simp: same_crash_def)
    have old: "held K leader (m_crash_tid (snd sm)) v h0 h" if "v \<in> set (s_stopped (fst sm))" for v
      using assms(1) c(1) that by (simp add: stopping_def)
    from S show ?thesis
    proof
      assume st: "stop_step K leader t sm sm' h h'"
      show ?thesis
      proof (cases "u = t")
        case True
        then have "stopped_at K t h' \<or> disclaimed K leader t h h'" using st u False by (auto simp: stop_step_def)
        then show ?thesis using True h0 disclaimed_widen by (auto simp: held_def)
      next
        case ne: False
        then have "u \<in> set (s_stopped (fst sm))" using st u by (auto simp: stop_step_def)
        from held_spared [OF old [OF this] _ _ h0] st ne c(2) show ?thesis by (auto simp: stop_step_def)
      qed
    next
      assume "t = m_crash_tid (snd sm) \<and> h' = h \<and> set (s_stopped (fst sm')) = insert t (set (s_stopped (fst sm)))"
      then show ?thesis using u old c(2) by (auto simp: held_def)
    qed
  qed
  then show ?thesis using suffix_order.trans [OF h0 sx] by (simp add: stopping_def)
qed

lemma stop_all_stopping: "stop_all K leader ts sm h = Some (b, sm', h') \<Longrightarrow> stopping K leader h0 sm h \<Longrightarrow> stopping K leader h0 sm' h'"
  by (induction ts arbitrary: sm h) (auto split: option.splits bool.splits dest: stopping_step)

lemma seize_new_spares: "seize_new K ts m h = (b, m', h') \<Longrightarrow> spares K leader {} h h'"
proof (induction ts arbitrary: m h)
  case (Cons t ts)
  have tr: "traced_by_self K t g = (x, Asked # g)" if "traced_by_self K t g = (x, g')" for g x g'
    using that by (auto simp: traced_by_self_def trace_ownership_def Let_def)
  have go: "seize_new K ts m1 g = (b, m', h') \<Longrightarrow> spares K leader {} h g \<Longrightarrow> spares K leader {} h h'" for m1 g
    using Cons.IH spares_trans by blast
  show ?case
  proof (cases "t \<in> set (m_tids m)")
    case True
    then show ?thesis using Cons by simp
  next
    case False
    show ?thesis
    proof (cases "k_ctl K h t (SEIZE (m_options m))")
      case (Inr u)
      then show ?thesis using Cons.prems False go by (simp add: sys_ctl_def Let_def)
    next
      case (Inl e)
      obtain mine where tr: "traced_by_self K t (Ctl t (SEIZE (m_options m)) False # h) = (mine, Asked # Ctl t (SEIZE (m_options m)) False # h)"
        by (simp add: traced_by_self_def trace_ownership_def Let_def)
      show ?thesis using Cons.prems False Inl tr by (auto simp: sys_ctl_def Let_def split: if_splits intro: go)
    qed
  qed
qed simp

lemma collect_rounds_crash:
  "collect_rounds n K leader sm h = Some (Collected, m', h') \<Longrightarrow> stopping K leader h0 sm h \<Longrightarrow>
     thread_set_exact K leader m' h0 h' \<and> s_fatal (fst sm) = 0 \<and> m_pid m' = m_pid (snd sm) \<and> m_leader_exited m' = m_leader_exited (snd sm) \<and>
       m_crash_tid m' = m_crash_tid (snd sm)"
proof (induction n arbitrary: sm h)
  case (Suc n)
  obtain observed h1 where a: "list_task_tids K leader h = (Inr observed, h1)" using Suc.prems by (auto split: prod.splits sum.splits)
  obtain m1 h2 where b: "seize_new K (live_tids leader (snd sm) observed) (snd sm) h1 = (True, m1, h2)"
    using Suc.prems a by (auto split: prod.splits bool.splits)
  obtain sm2 h3 where c: "stop_all K leader (m_tids m1) (fst sm, m1) h2 = Some (True, sm2, h3)"
    using Suc.prems a b by (auto split: option.splits bool.splits)
  obtain listed h4 where d: "list_task_tids K leader h3 = (Inr listed, h4)" using Suc.prems a b c by (auto split: prod.splits sum.splits)
  have s1: "same_crash sm (fst sm, m1)" using seize_new_crash [OF b, of "fst sm"] by simp
  have s: "same_crash sm sm2" using same_crash_trans [OF s1 stop_all_crash [OF c]] .
  have ask: "spares K leader {} g (Asked # g)" for g by simp
  have "stopping K leader h0 sm h1" using stopping_spared [OF Suc.prems(2) ask same_crash_refl refl] list_task_tids_asks [OF a] by simp
  then have "stopping K leader h0 (fst sm, m1) h2" by (rule stopping_spared [OF _ seize_new_spares [OF b] s1]) simp
  then have st: "stopping K leader h0 sm2 h3" by (rule stop_all_stopping [OF c])
  let ?confirm = "live_tids leader (snd sm2) listed"
  note run = Suc.prems(1) [unfolded collect_rounds.simps a prod.case sum.case b bool.case c option.case d Let_def]
  show ?case
  proof (cases "\<forall>tid \<in> set ?confirm. tid \<in> set (m_tids (snd sm2)) \<and> tid \<in> set (s_stopped (fst sm2))")
    case True
    then have f: "finish_collect K leader ?confirm sm2 h4 = (Collected, m', h')" using run by simp
    have F: "s_fatal (fst sm2) = 0" "h' = h4" "m_thrd m' = ?confirm"
      "m_pid m' = m_pid (snd sm2) \<and> m_leader_exited m' = m_leader_exited (snd sm2) \<and> m_crash_tid m' = m_crash_tid (snd sm2)"
      using f by (cases sm2; auto simp: finish_collect_def Let_def split: if_splits prod.splits)+
    have "thread_set_exact K leader m' h0 h'" unfolding thread_set_exact_def
    proof (intro exI conjI)
      show "list_task_tids K leader h3 = (Inr listed, h')" using d F(2) by simp
      show "suffix h0 h3" using st by (simp add: stopping_def)
      show "distinct listed" by (rule list_task_tids_distinct [OF d])
      show "m_thrd m' = live_tids leader m' listed" using finish_collect_exact [OF f refl] .
      show "\<forall>t \<in> set (m_thrd m'). held K leader (m_crash_tid m') t h0 h3" using st True F(1,3,4) by (auto simp: stopping_def)
    qed
    then show ?thesis using s F(1,4) by (simp add: same_crash_def)
  next
    case False
    have st4: "stopping K leader h0 sm2 h4" using stopping_spared [OF st ask same_crash_refl refl] list_task_tids_asks [OF d] by simp
    have "collect_rounds n K leader sm2 h4 = Some (Collected, m', h')" using run False by (simp only: if_False)
    from Suc.IH [OF this st4] show ?thesis using s by (simp add: same_crash_def)
  qed
qed simp

lemma collect_threads_crash:
  assumes "collect_threads K leader a m h = Some (Collected, m', h')" "m_tids m \<noteq> []"
  shows "thread_set_exact K leader m' h h'" "m_pid m' = m_pid m" "m_leader_exited m' = m_leader_exited m" "m_crash_tid m' = m_crash_tid m"
proof -
  let ?sm = "(stops_none, m\<lparr>m_thrd := [], m_relay := []\<rparr>)"
  have "stopping K leader h ?sm h" by (simp add: stopping_def stops_none_def)
  note C = collect_rounds_crash [of 64 K leader ?sm h m' h' h, OF _ this]
  have "collect_rounds 64 K leader ?sm h = Some (Collected, m', h')" using assms by (simp add: collect_threads_def Let_def)
  from C [OF this] show "thread_set_exact K leader m' h h'" "m_pid m' = m_pid m" "m_leader_exited m' = m_leader_exited m" "m_crash_tid m' = m_crash_tid m"
    by simp_all
qed

lemma exact_threads:
  assumes "thread_set_exact K leader m h0 hx"
  shows "distinct (m_thrd m)" "m_leader_exited m \<Longrightarrow> leader \<notin> set (m_thrd m)"
  using assms by (auto simp: thread_set_exact_def live_tids_def tid_erase_def)

lemma crash_order_mset:
  assumes "distinct tids" "m_crash_tid m \<in> set tids" "m_leader_exited m \<Longrightarrow> m_pid m \<notin> set tids" "\<not> m_leader_exited m \<Longrightarrow> m_pid m \<in> set tids"
  shows "mset (crash_order m tids) = mset tids"
proof -
  have "distinct (crash_order m tids)" using assms(1) by (auto simp: crash_order_def)
  moreover have "set (crash_order m tids) = set tids" using assms(2-4) by (auto simp: crash_order_def)
  ultimately show ?thesis using assms(1) by (simp add: set_eq_iff_mset_eq_distinct)
qed

section \<open>The file\<close>

definition crash_setup :: "kern \<Rightarrow> nat \<Rightarrow> mon \<Rightarrow> history \<Rightarrow> capture_setup" where
  "crash_setup K platform m h =
     \<lparr>cs_env = k_capture K h, cs_te = k_threads K h, cs_mem = k_mem K h, cs_platform = platform,
      cs_control = (if m_leader_exited m then m_crash_tid m else m_pid m), cs_order = crash_order m\<rparr>"

lemma crash_setup_simps [simp]:
  "cs_env (crash_setup K p m h) = k_capture K h" "cs_te (crash_setup K p m h) = k_threads K h" "cs_mem (crash_setup K p m h) = k_mem K h"
  "cs_platform (crash_setup K p m h) = p" "cs_order (crash_setup K p m h) = crash_order m"
  "cs_control (crash_setup K p m h) = (if m_leader_exited m then m_crash_tid m else m_pid m)"
  by (simp_all add: crash_setup_def)

lemma image_Inr:
  assumes "write_image cdc om platform pid maps c st = Some (r, c', st')" "succeeds r"
  obtains st1 st2 where "WriteLoads cdc om pid maps c st = Some (Inr (), c', st1)" "WriteElfHeader cdc platform c' st1 = (Inr (), st2)"
    "WriteTailMark cdc st2 = (Inr (), st')"
  using assms by (auto simp: write_image_def succeeds_def split: option.splits sum.splits prod.splits)

lemma write_crash_stream:
  assumes w: "write_crash K cdc platform c m st h = Some (True, st')" and t: "pd_thrd_pid (c_process c) = m_thrd m"
    and x: "thread_set_exact K (m_pid m) m h0 hx" "capture_sound (crash_setup K platform m h) c"
  shows "\<exists>c'. acore_stream cdc (crash_setup K platform m h) c st c' st'" "m_crash_tid m \<in> set (m_thrd m)"
proof -
  let ?source = "if m_leader_exited m then m_crash_tid m else m_pid m"
  obtain maps c1 st1 where a: "WriteProcessMeta cdc (k_capture K h) ?source c st = (Inr maps, c1, st1)"
    using w by (auto simp: write_crash_def Let_def split: sum.splits prod.splits)
  have tids: "pd_thrd_pid (c_process c1) = m_thrd m" by (rule WriteProcessMeta_Inr [OF a]) (simp add: t)
  note run = w [unfolded write_crash_def Let_def a prod.case sum.case tids]
  show crash: "m_crash_tid m \<in> set (m_thrd m)" using run by (auto split: if_splits)
  obtain st2 where b: "WriteThreads cdc (k_capture K h) (k_threads K h) c1 (crash_order m (m_thrd m)) st1 = (Inr (), st2)"
    using run crash by (auto split: sum.splits prod.splits)
  obtain r c2 st3 where i: "write_image cdc (k_mem K h) platform ?source maps c1 st2 = Some (r, c2, st3)" "succeeds r" "st3 = st'"
    using run crash b by (auto split: option.splits prod.splits)
  obtain st4 st5 where "WriteLoads cdc (k_mem K h) ?source maps c1 st2 = Some (Inr (), c2, st4)"
    "WriteElfHeader cdc platform c2 st4 = (Inr (), st5)" "WriteTailMark cdc st5 = (Inr (), st')"
    using image_Inr [OF i(1,2)] i(3) by blast
  moreover have "\<not> m_leader_exited m \<Longrightarrow> m_pid m \<in> set (m_thrd m)" using x(2) t by (auto simp: capture_sound_def)
  then have "mset (crash_order m (m_thrd m)) = mset (m_thrd m)"
    using exact_threads [OF x(1)] crash by (intro crash_order_mset)
  ultimately show "\<exists>c'. acore_stream cdc (crash_setup K platform m h) c st c' st'"
    using a b tids t by (auto simp: acore_stream_def)
qed


lemma collect_crash_0:
  assumes "collect_crash K cdc op platform c temp state corefile st w h files = Some (0, m', h', files')"
  obtains m1 h1 st1 h2 where "collect_threads K (m_pid (w_mon w)) 0 (w_mon w) h = Some (Collected, m1, h1)"
    "write_crash K cdc platform (crash_core c (w_exit w) m1) m1 st h1 = Some (True, st1)"
    "kill_crashed K (w_exit w) m1 h1 = (True, m', h2)"
    "commit_atomic_lz4 cdc (op_os op h2) st1 temp corefile state files = (Inr (), files')"
proof -
  obtain r m1 h1 where a: "collect_threads K (m_pid (w_mon w)) 0 (w_mon w) h = Some (r, m1, h1)"
    using assms by (auto simp: collect_crash_def Let_def split: option.splits)
  obtain full st1 where b: "(if r \<noteq> Collected then Some (False, st) else write_crash K cdc platform (crash_core c (w_exit w) m1) m1 st h1) = Some (full, st1)"
    using assms a by (auto simp: collect_crash_def Let_def split: option.splits if_splits)
  obtain released m2 h2 where k: "kill_crashed K (w_exit w) m1 h1 = (released, m2, h2)" by (metis prod.exhaust)
  note run = assms [unfolded collect_crash_def Let_def a option.case prod.case b k]
  have ok: "full" "released" using run by (auto split: if_splits)
  then obtain x where x: "commit_atomic_lz4 cdc (op_os op h2) st1 temp corefile state files = (x, files')" "succeeds x" "m2 = m'"
    using run by (auto split: if_splits prod.splits)
  have r: "r = Collected" using b ok(1) by (auto split: if_splits)
  have "x = Inr ()" using x(2) by (cases x) simp_all
  then show thesis using that [of m1 h1 st1 h2] a b k x(1,3) ok r by simp
qed

lemma crash_core_threads: "pd_thrd_pid (c_process (crash_core c sig m)) = m_thrd m" "c_crash_sig (crash_core c sig m) = sig"
  "c_crash_tid (crash_core c sig m) = m_crash_tid m"
  by (simp_all add: crash_core_def capture_core_def)

section \<open>The property\<close>

text \<open>
  C4: A crash is dumped completely. When the monitor, having found a crash, reports success,
  the last thing it did before it began to write was to list the threads once more, and the
  threads captured are exactly those of that listing (an exited leader apart), the crashing
  one among them; when it was taken, every captured thread but the crashing one, which the
  monitor holds, had been seen stopped in this run and not been woken since (unless the
  kernel said meanwhile that it is no thread of the target). And the file at the output path
  converts to an ELF core file with the mappings and the memory of the process at the crash,
  whose notes carry the signal of the crash and list the crashing thread first, then the
  leader if it is alive, then the others in the order of the listing, each with its
  registers. Assumed: the stream is the one the monitor opened, with the file header written,
  and nobody has touched the temporary file since; what the kernel answers has the kernel's
  format; the converting host has memory and disk space.
\<close>

theorem crash_converts:
  assumes "codec_ok cdc sync" "allocates cdc"
    and "OpenFd cdc info fd (Lz4Stream_new LZ4_Compress) = (Inr (), st0)" "fi_fdopen info = Some f" "at_end f" "fl_data f = []"
    and "WriteFileHeader cdc platform st0 = (Inr (), st1)"
    and "\<forall>h. alone (op_os op h)" "temp \<noteq> corefile" "files temp = Some node" "m_tids (w_mon w) \<noteq> []"
    and "collect_crash K cdc op platform c temp state corefile st1 w h files = Some (0, m', h', files')"
    and "collect_threads K (m_pid (w_mon w)) 0 (w_mon w) h = Some (r, m1, h1)"
    and "s = crash_setup K platform m1 h1" "co = crash_core c (w_exit w) m1"
    and "capture_sound s co" "threads_fit s co" "convertible s co"
    and "reads_back cdc env in_file (files' corefile)" "converter_sound env in_file out s co fs2" "pd_threads (c_process c0) = []"
  shows "thread_set_exact K (m_pid (w_mon w)) m1 h h1 \<and> m_crash_tid (w_mon w) \<in> set (m_thrd m1) \<and>
    cs_order s (m_thrd m1) =
      (let pid = m_pid (w_mon w); crash = m_crash_tid (w_mon w)
       in [crash] @ (if m_leader_exited (w_mon w) \<or> crash = pid then [] else [pid]) @ removeAll pid (removeAll crash (m_thrd m1))) \<and>
    c_crash_sig co = w_exit w \<and>
    (\<exists>maps mem sp img node. decompress cdc env in_file (Some out) c0 fs2 = (Inr (), cleanup_decompress node, fs2(out :=
        Some ((fresh_node (fst (cv_fresh env)) (snd (cv_fresh env)))\<lparr>fn_data := img\<rparr>))) \<and>
      source_maps (k_capture K h1) co (cs_control s) = Inr maps \<and> k_mem K h1 (cs_control s) = Some mem \<and>
      notes_tell s co (cv_mem env) (cv_clk_tck env) maps sp \<and>
      core_shows (undisturbed mem \<and> readable_maps (mf_byte mem) maps) platform (mf_byte mem) maps sp img)"
proof -
  obtain st2 h2 where C: "r = Collected" "write_crash K cdc platform co m1 st1 h1 = Some (True, st2)"
    "commit_atomic_lz4 cdc (op_os op h2) st2 temp corefile state files = (Inr (), files')"
    using collect_crash_0 [OF assms(12)] assms(13,15) by (metis option.inject prod.inject)
  note T = collect_threads_crash [OF assms(13) [unfolded C(1)] assms(11)]
  have x: "thread_set_exact K (m_pid m1) m1 h h1" using T(1,2) by simp
  have S: "capture_sound (crash_setup K platform m1 h1) co" using assms(14,16) by simp
  have th: "pd_thrd_pid (c_process co) = m_thrd m1" using assms(15) by (simp add: crash_core_threads)
  obtain c' where a: "acore_stream cdc s co st1 c' st2" using write_crash_stream(1) [OF C(2) th x S] assms(14) by blast
  have crash: "m_crash_tid m1 \<in> set (m_thrd m1)" by (rule write_crash_stream(2) [OF C(2) th x S])
  note O = opened_out [OF assms(3-5)]
  have H: "WriteFileHeader cdc (cs_platform s) st0 = (Inr (), st1)" using assms(7,14) by simp
  have i: "idle st2"
    by (rule acore_idle [OF assms(1,2) O(1-3) assms(16,17) H a, where ?c0.0 = "Coredump_new 0 0"])
      (simp add: Coredump_new_def ProcessData_new_def)
  then obtain g where g: "s_file st2 = Some g" by (auto simp: idle_def writer_def)
  have "files' corefile = Some (node\<lparr>fn_data := fl_data g\<rparr>)"
    by (rule commit_lz4_alone [OF _ assms(9,10) i g C(3)]) (use assms(8) in simp)
  then obtain acore rd where R: "cv_in env = Some acore" "healthy acore" "fl_seekable acore" "unread acore = fl_data g"
    "Open cdc (cv_in env) (Some in_file) (Lz4Stream_new LZ4_Decompress) = (Inr (), rd)"
    using assms(19) by (auto simp: reads_back_def)
  have "removeAll (m_pid m1) (removeAll (m_crash_tid m1) ts) = filter (\<lambda>tid. tid \<noteq> m_pid m1 \<and> tid \<noteq> m_crash_tid m1) ts" for ts
    by (induction ts) auto
  then have order: "cs_order s (m_thrd m1) = (let pid = m_pid (w_mon w); crash = m_crash_tid (w_mon w)
       in [crash] @ (if m_leader_exited (w_mon w) \<or> crash = pid then [] else [pid]) @ removeAll pid (removeAll crash (m_thrd m1)))"
    using T(2-4) assms(14) by (simp add: crash_order_def Let_def)
  from acore_converts [OF assms(1,2,16-18) assms(3-6) H a g R assms(20,21)] show ?thesis
    using T(1) crash assms(14,15) order T(4) by (simp add: crash_core_threads)
qed

section \<open>A run\<close>

text \<open>The process of \<open>sample_env\<close>, whose one thread has a \<^verbatim>\<open>SIGSEGV\<close> pending.\<close>

definition crash_te :: "int \<Rightarrow> thread_env" where
  "crash_te tid = (sample_te tid)\<lparr>te_siginfo := Some (put32 11 @ replicate 124 NUL)\<rparr>"

definition crash_kern :: kern where
  "crash_kern = gen_kern\<lparr>k_threads := \<lambda>h. crash_te\<rparr>"

definition crash_watch :: watch where
  "crash_watch = \<lparr>w_mon = (mon_new 7)\<lparr>m_tids := [7], m_crash_tid := 7\<rparr>, w_exit = 11, w_group = False\<rparr>"

definition crash_mon :: mon where
  "crash_mon = (mon_new 7)\<lparr>m_tids := [7], m_crash_tid := 7, m_thrd := [7]\<rparr>"

definition crashed_core :: core where
  "crashed_core = sample_core\<lparr>c_crash_sig := 11, c_crash_tid := 7\<rparr>"

definition crashed_setup :: capture_setup where
  "crashed_setup = sample_setup\<lparr>cs_te := crash_te, cs_order := crash_order crash_mon\<rparr>"

lemma crash_kern_simps [simp]:
  "k_capture crash_kern h = sample_env" "k_threads crash_kern h = crash_te" "k_mem crash_kern h p = Some sample_mem"
  "k_tasks crash_kern h p = Inr ([''.'', ''..'', ''7''], None)"
  by (simp_all add: crash_kern_def)

lemma crash_tasks: "list_task_tids crash_kern p h = (Inr [7], Asked # h)"
  using gen_tasks [of p h] by (simp add: list_task_tids_def)

lemma crash_mon_simps [simp]:
  "m_thrd crash_mon = [7]" "m_tids crash_mon = [7]" "m_crash_tid crash_mon = 7" "m_pid crash_mon = 7" "\<not> m_leader_exited crash_mon"
  "crash_order crash_mon [7] = [7]"
  by (simp_all add: crash_mon_def mon_new_def crash_order_def)

lemma crash_collected:
  "collect_threads crash_kern 7 0 (w_mon crash_watch) h = Some (Collected, crash_mon, Asked # Asked # h)"
  by (simp add: collect_threads_def crash_watch_def mon_new_def crash_mon_def numeral_eq_Suc crash_tasks live_tids_def stop_one_def stops_none_def
      finish_collect_def Let_def del: Suc_eq_numeral)

lemma crash_core_eq: "crash_core (Coredump_new ARCH_AARCH64 7) 11 crash_mon = crashed_core"
  by (simp add: crash_core_def gen_core crashed_core_def del: One_nat_def)

lemma crash_setup_eq: "crash_setup crash_kern ARCH_AARCH64 crash_mon h = crashed_setup"
  by (simp add: crash_setup_def crashed_setup_def sample_setup_def fun_eq_iff)

lemma crashed_thread:
  "\<exists>t. stored_thread sample_env (crash_te 7) crashed_core 7 = Inr t \<and> signal_fits crashed_core 0 t \<and> thread_cost (c_arch crashed_core) t \<le> 2000"
proof -
  have c: "c_arch crashed_core = ARCH_AARCH64" "c_crash_sig crashed_core = 11"
    by (simp_all add: crashed_core_def sample_core_def Coredump_new_def)
  from sample_thread_any [OF c(1) crash_te_def] obtain t where t: "stored_thread sample_env (crash_te 7) crashed_core 7 = Inr t"
    "td_siginfo t = put32 11 @ replicate 124 NUL" "thread_cost (c_arch crashed_core) t \<le> 2000" by (auto simp: zeroed_def)
  have "si_signo t = 11" by (simp add: si_signo_def field_at_def t(2))
  with t(1,3) c(2) show ?thesis by (simp add: signal_fits_def)
qed

lemma crashed_core_simps:
  "pd_thrd_pid (c_process crashed_core) = [7]" "c_arch crashed_core = c_arch sample_core" "c_pid crashed_core = c_pid sample_core"
  "c_phdrs crashed_core = c_phdrs sample_core" "c_process crashed_core = c_process sample_core" "c_core_pid crashed_core = c_core_pid sample_core"
  "c_version crashed_core = c_version sample_core"
  using sample_setup_facts(5) by (simp_all add: crashed_core_def)

lemma crashed_setup_simps:
  "cs_env crashed_setup = sample_env" "cs_te crashed_setup = crash_te" "cs_control crashed_setup = 7"
  "cs_mem crashed_setup = (\<lambda>pid. Some sample_mem)" "cs_platform crashed_setup = ARCH_AARCH64" "cs_order crashed_setup = crash_order crash_mon"
  by (simp_all add: crashed_setup_def sample_dump_facts)

lemma crashed_source [simp]: "source_maps e crashed_core p = source_maps e sample_core p"
  by (simp add: source_maps_def crashed_core_simps source_of_def)

lemma crashed_facts:
  "capture_sound crashed_setup crashed_core" "threads_fit crashed_setup crashed_core" "convertible crashed_setup crashed_core"
  "proc_readable sample_env crashed_core 7"
proof -
  have sig: "is_core_dump_signal (c_crash_sig crashed_core)" by (simp add: crashed_core_def is_core_dump_signal_def)
  have te: "sized_thread (c_arch sample_core) (crash_te 7)"
    using sample_facts(6) by (simp add: crash_te_def sized_thread_def)
  show "capture_sound crashed_setup crashed_core"
    using sample_setup_facts(1) te sig
    by (simp add: capture_sound_def crashed_setup_simps sample_dump_facts crashed_core_simps sample_setup_facts(5) valid_core_def)
  show "threads_fit crashed_setup crashed_core"
    using crashed_thread
    by (auto simp: threads_fit_def crashed_setup_simps crashed_core_simps sample_setup_facts(5) signals_fit_def stored_cost_def)
  show "convertible crashed_setup crashed_core"
    using sample_setup_facts(3) by (simp add: convertible_def crashed_setup_simps sample_dump_facts crashed_core_simps)
  show "proc_readable sample_env crashed_core 7"
    using sample_setup_facts(4) by (simp add: proc_readable_def crashed_core_simps source_of_def)
qed

lemma crash_detach: "pt_detach crash_kern p sig h = (Inr (), Ctl p (DETACH sig) True # h)"
  by (simp add: pt_detach_def sys_ctl_def crash_kern_def gen_kern_def sim_kern_def)

definition crash_outputs :: outputs where
  "crash_outputs = \<lparr>op_os = \<lambda>h. calm_os, op_fresh = \<lambda>h. (1, 5), op_info = \<lambda>h. gen_info, op_fd = 3\<rparr>"

definition crash_node :: fs_node where "crash_node = fresh_node 1 5"

definition crash_run :: "(int \<times> mon \<times> history \<times> fs) option" where
  "crash_run = collect_crash crash_kern counted crash_outputs ARCH_AARCH64 (Coredump_new ARCH_AARCH64 7) ''acore.tmp''
     AtomicOutputState_new ''acore'' sample_start crash_watch [] [''acore.tmp'' \<mapsto> crash_node]"

lemma crash_writes:
  obtains c' st2 where "write_crash crash_kern counted ARCH_AARCH64 crashed_core crash_mon sample_start h = Some (True, st2)"
    "idle st2" "room st2 0" "sink st2 = sink sample_start"
proof -
  have rm: "room sample_start (dump_cost (length (pd_thrd_pid (c_process crashed_core))) [load_phdr 0 sample_region] + 0)"
    using sample_dump_premises(1) by (simp only: crashed_core_simps(5))
  have thr: "\<not> isl (stored_thread (cs_env crashed_setup) (cs_te crashed_setup tid) crashed_core tid)"
    if "tid \<in> set (pd_thrd_pid (c_process crashed_core))" for tid
    using that crashed_thread by (auto simp: crashed_core_simps crashed_setup_simps sample_setup_facts(5))
  have "\<exists>c' st'. write_acore counted (cs_env crashed_setup) (cs_te crashed_setup) (cs_mem crashed_setup) (cs_platform crashed_setup)
      (cs_control crashed_setup) crashed_core sample_start = Some (Inr (), c', st') \<and> idle st' \<and> room st' 0"
    by (rule write_acore_room [OF sample_start_facts(2) sample_facts(1) rm crashed_facts(1) _ _ thr _ sample_phdrs(1)])
      (use crashed_facts(4) sample_facts(5) sample_dump_premises(4-7) sample_source_maps in
        \<open>simp_all add: crashed_setup_simps sample_dump_facts crashed_core_simps\<close>)
  then obtain c' st2 where w: "write_acore counted sample_env crash_te (\<lambda>pid. Some sample_mem) ARCH_AARCH64 7 crashed_core sample_start =
      Some (Inr (), c', st2)" "idle st2" "room st2 0" by (auto simp: crashed_setup_simps)
  obtain maps c1 sa sb sc sd where W: "WriteProcessMeta counted sample_env 7 crashed_core sample_start = (Inr maps, c1, sa)"
    "WriteThreads counted sample_env crash_te c1 (thread_order 7 (pd_thrd_pid (c_process c1))) sa = (Inr (), sb)"
    "WriteLoads counted (\<lambda>pid. Some sample_mem) 7 maps c1 sb = Some (Inr (), c', sc)" "WriteElfHeader counted ARCH_AARCH64 c' sc = (Inr (), sd)"
    "WriteTailMark counted sd = (Inr (), st2)" by (rule write_acore_Inr [OF w(1)])
  have tids: "pd_thrd_pid (c_process c1) = [7]" by (rule WriteProcessMeta_Inr [OF W(1)]) (simp add: crashed_core_simps sample_setup_facts(5))
  have b: "WriteThreads counted sample_env crash_te c1 [7] sa = (Inr (), sb)" using W(2) by (simp add: tids thread_order_def del: WriteThreads.simps)
  have m: "k_mem crash_kern h = (\<lambda>pid. Some sample_mem)" by (simp add: fun_eq_iff)
  have "write_image counted (k_mem crash_kern h) ARCH_AARCH64 7 maps c1 sb = Some (Inr (), c', st2)"
    unfolding write_image_def m by (simp only: W(3-5) option.case prod.case sum.case)
  then have "write_crash crash_kern counted ARCH_AARCH64 crashed_core crash_mon sample_start h = Some (True, st2)"
    by (simp add: write_crash_def W(1) tids b del: WriteThreads.simps)
  then show thesis using that w(2,3) sink_write_acore [OF w(1)] by blast
qed

lemma crash_run_ends: "\<exists>m' h' files'. crash_run = Some (0, m', h', files') \<and> files' ''acore'' \<noteq> None"
proof -
  obtain c' st2 where w: "write_crash crash_kern counted ARCH_AARCH64 crashed_core crash_mon sample_start [Asked, Asked] = Some (True, st2)"
    "idle st2" "room st2 0" "sink st2 = sink sample_start" by (rule crash_writes)
  obtain g where g: "s_file st2 = Some g" using w(2) by (auto simp: idle_def writer_def)
  have os: "quiet calm_os" by (simp add: quiet_def alone_def calm_os_def)
  have nw: "map_option (\<lambda>f. (fl_flush_ok f, fl_sync_ok f, fl_close_ok f)) (s_file sample_start) = Some (True, True, True)" by code_simp
  then have fg: "fl_flush_ok g" "fl_sync_ok g" "fl_close_ok g" using w(4) g by (auto simp: sink_def)
  have ini: "AtomicOutputState_new = output_state Map.empty ''acore''" by (simp add: AtomicOutputState_new_def output_state_def)
  have "commit_atomic_lz4 counted calm_os st2 ''acore.tmp'' ''acore'' (output_state Map.empty ''acore'') (Map.empty(''acore.tmp'' := Some crash_node)) =
      (Inr (), Map.empty(''acore'' := Some (crash_node\<lparr>fn_data := fl_data g\<rparr>)))"
    by (rule commit_lz4_quiet [OF os _ _ _ w(2,3) g fg]) (simp_all add: fits_output_def)
  then have cm: "commit_atomic_lz4 counted calm_os st2 ''acore.tmp'' ''acore'' AtomicOutputState_new [''acore.tmp'' \<mapsto> crash_node] =
      (Inr (), [''acore'' \<mapsto> crash_node\<lparr>fn_data := fl_data g\<rparr>])" by (simp add: ini)
  have p: "m_pid (w_mon crash_watch) = 7" "w_exit crash_watch = 11" by (simp_all add: crash_watch_def mon_new_def)
  have "kill_crashed crash_kern 11 crash_mon [Asked, Asked] = (True, crash_mon\<lparr>m_tids := []\<rparr>, [Ctl 7 (DETACH 11) True, Asked, Asked])"
    by (simp add: kill_crashed_def crash_detach bad_request_def Let_def)
  then have "crash_run = Some (0, crash_mon\<lparr>m_tids := []\<rparr>, [Ctl 7 (DETACH 11) True, Asked, Asked], [''acore'' \<mapsto> crash_node\<lparr>fn_data := fl_data g\<rparr>])"
    unfolding crash_run_def
    by (simp add: collect_crash_def Let_def p crash_collected crash_core_eq w(1) crash_outputs_def cm del: One_nat_def)
  then show ?thesis by (intro exI conjI) (assumption | simp)+
qed

lemma crashed_converter: "converter_sound (sample_convert bs) ''acore'' ''core'' crashed_setup crashed_core Map.empty"
  using sample_converter [of bs] by (simp add: converter_sound_def crashed_setup_simps sample_dump_facts)

theorem crash_converts_witness:
  "\<exists>m' h' files' acore core img m''. crash_run = Some (0, m', h', files') \<and> files' ''acore'' = Some acore \<and>
     decompress counted (sample_convert (fn_data acore)) ''acore'' (Some ''core'') (Coredump_new ARCH_AARCH64 0) Map.empty =
       (Inr (), core, m'') \<and> map_option fn_data (m'' ''core'') = Some img \<and> elf_core_of ARCH_AARCH64 img \<and> length (elf_phdrs img) = 2"
proof -
  obtain m' h' files' node where g: "crash_run = Some (0, m', h', files')" "files' ''acore'' = Some node" using crash_run_ends by auto
  let ?env = "sample_convert (fn_data node)"
  have r: "reads_back counted ?env ''acore'' (files' ''acore'')" using g(2) sample_reads by simp
  have op: "OpenFd counted gen_info 3 (Lz4Stream_new LZ4_Compress) = (Inr (), new_out)" using gen_ready by (auto simp: output_ready_def)
  have f: "fi_fdopen gen_info = Some (disk [])" "at_end (disk [])" "fl_data (disk []) = []"
    by (simp_all add: gen_info_def disk_def at_end_def)
  have os: "\<forall>h. alone (op_os crash_outputs h)" by (simp add: crash_outputs_def alone_def calm_os_def)
  have t: "''acore.tmp'' \<noteq> ''acore''" "[''acore.tmp'' \<mapsto> crash_node] ''acore.tmp'' = Some crash_node" "m_tids (w_mon crash_watch) \<noteq> []"
    "pd_threads (c_process (Coredump_new ARCH_AARCH64 0)) = []"
    by (simp_all add: crash_watch_def Coredump_new_def ProcessData_new_def)
  have c: "collect_threads crash_kern (m_pid (w_mon crash_watch)) 0 (w_mon crash_watch) [] = Some (Collected, crash_mon, [Asked, Asked])"
    using crash_collected [of "[]"] by (simp add: crash_watch_def mon_new_def)
  have z: "crashed_setup = crash_setup crash_kern ARCH_AARCH64 crash_mon [Asked, Asked]"
    "crashed_core = crash_core (Coredump_new ARCH_AARCH64 7) (w_exit crash_watch) crash_mon"
    by (simp_all only: crash_setup_eq crash_watch_def watch.simps crash_core_eq)
  from crash_converts [OF counted_ok sample_facts(2) op f new_out_header os t(1-3) g(1) [unfolded crash_run_def] c z crashed_facts(1-3) r
      crashed_converter t(4)]
  obtain maps mem sp img core where R: "decompress counted ?env ''acore'' (Some ''core'') (Coredump_new ARCH_AARCH64 0) Map.empty =
      (Inr (), cleanup_decompress core, Map.empty(''core'' := Some ((fresh_node (fst (cv_fresh ?env)) (snd (cv_fresh ?env)))\<lparr>fn_data := img\<rparr>)))"
    "source_maps (k_capture crash_kern [Asked, Asked]) crashed_core (cs_control crashed_setup) = Inr maps"
    "core_shows (undisturbed mem \<and> readable_maps (mf_byte mem) maps) ARCH_AARCH64 (mf_byte mem) maps sp img" by blast
  have "maps = [sample_region]" using R(2) sample_source_maps by (simp add: crashed_setup_simps)
  with R(3) have "elf_core_of ARCH_AARCH64 img" "length (elf_phdrs img) = 2" using core_shows_one by blast+
  with g R(1) show ?thesis by (intro exI conjI) (assumption | simp)+
qed
end
