(* ===== verification/RequestProps.thy ===== *)
theory RequestProps
  imports CrashProps
begin

text \<open>
  A dump the monitor makes on request (\<^verbatim>\<open>forkcore_m\<close>): the file it installs is the acore of the
  whole target, although the target goes on while the memory of its copy is written.
\<close>

section \<open>What a kept snapshot wrote\<close>

definition first_of :: "int \<Rightarrow> int list \<Rightarrow> int" where
  "first_of tid tids = (if tid \<in> set tids then tid else hd tids)"

text \<open>
  The task whose memory is written, and the history at which that starts: the child that the
  injected fork has returned, once the target has been resumed, or the process of the stopped
  control thread if a fork would not show the memory or the target cannot be injected.
\<close>

definition child_m :: "kern \<Rightarrow> shellcode \<Rightarrow> u64 \<times> u64 \<times> u64 \<Rightarrow> mon \<Rightarrow> history \<Rightarrow> (int \<times> history) option" where
  "child_m K sc syms m h =
     (case sys_ctl K (m_pid m) (SETOPTIONS (m_options m OR TRACEFORK)) h of
        (Inl _, h1) \<Rightarrow> None
      | (Inr _, h1) \<Rightarrow>
     (case sys_getregs K (m_pid m) h1 of
        (Inl _, h2) \<Rightarrow> None
      | (Inr saved, h2) \<Rightarrow>
     (case inject_mmap_m K (fst syms) saved m h2 of
        Some (Inr page, m1, h3) \<Rightarrow>
          (case inject_fork_m K sc False page saved m1 h3 of
             Some (Inr child, m2, h4) \<Rightarrow>
               (case inject_munmap_m K sc False (fst (snd syms)) page child saved m2 h4 of
                  Some (None, m3, h5) \<Rightarrow>
                    (case resume_target K False child saved m3 h5 of
                       (True, _, h6) \<Rightarrow> Some (child, h6)
                     | _ \<Rightarrow> None)
                | _ \<Rightarrow> None)
           | _ \<Rightarrow> None)
      | _ \<Rightarrow> None)))"

definition memory_source_m ::
    "kern \<Rightarrow> shellcode \<Rightarrow> MemRegion list \<Rightarrow> int \<Rightarrow> mon \<Rightarrow> history \<Rightarrow> (int \<times> history) option" where
  "memory_source_m K sc maps tid m h =
     (let (direct, h1) = (if m_leader_exited m then (True, h) else fork_snapshot_requires_direct_capture K (m_pid m) maps h);
          (syms, h2) = (if direct then ((0, 0, 0), h1) else inject_symbols K (m_pid m) h1)
      in if direct \<or> fst syms = 0 \<or> fst (snd syms) = 0 \<or> snd (snd syms) = 0 then Some (first_of tid (m_thrd m), h2)
         else child_m K sc syms m h2)"

definition request_point ::
    "kern \<Rightarrow> shellcode \<Rightarrow> core \<Rightarrow> mon \<Rightarrow> history \<Rightarrow> (mon \<times> history \<times> int \<times> history) option" where
  "request_point K sc c m h =
     (case collect_m K m h of
        Some (Inr _, m1, h1) \<Rightarrow>
          (case source_maps (k_capture K h1) (capture_core c (m_thrd m1)) (snapshot_tid m) of
             Inr maps \<Rightarrow>
               (case memory_source_m K sc maps (snapshot_tid m) m1 h1 of Some (src, hm) \<Rightarrow> Some (m1, h1, src, hm) | None \<Rightarrow> None)
           | Inl _ \<Rightarrow> None)
      | _ \<Rightarrow> None)"

lemma image_m_Keep:
  assumes "image_m K cdc platform sc False r_waitpid child page maps c st m h = Some (Keep rc, st', m', h')"
  shows "\<exists>c2. write_image cdc (k_mem K h) platform child maps c st = Some (Inr (), c2, st')"
  using assms by (auto simp: image_m_def Let_def split: option.splits sum.splits prod.splits)

lemma fork_m_Keep:
  assumes "fork_m K cdc platform sc False syms maps c st m h = Some (Keep rc, st', m', h')"
  obtains src hm c2 where "child_m K sc syms m h = Some (src, hm)"
    "write_image cdc (k_mem K hm) platform src maps (c\<lparr>c_core_pid := src\<rparr>) st = Some (Inr (), c2, st')"
proof -
  note run = assms [unfolded fork_m_def Let_def if_False]
  obtain h1 where a: "sys_ctl K (m_pid m) (SETOPTIONS (m_options m OR TRACEFORK)) h = (Inr (), h1)"
    using run by (auto split: sum.splits prod.splits)
  obtain saved h2 where b: "sys_getregs K (m_pid m) h1 = (Inr saved, h2)" using run a by (auto split: sum.splits prod.splits)
  obtain page m1 h3 where e: "inject_mmap_m K (fst syms) saved m h2 = Some (Inr page, m1, h3)"
    using run a b by (auto split: option.splits sum.splits prod.splits)
  obtain child m2 h4 where f: "inject_fork_m K sc False page saved m1 h3 = Some (Inr child, m2, h4)"
    using run a b e by (auto split: option.splits sum.splits prod.splits)
  obtain m3 h5 where u: "inject_munmap_m K sc False (fst (snd syms)) page child saved m2 h4 = Some (None, m3, h5)"
    using run a b e f by (auto split: option.splits prod.splits)
  obtain m4 h6 where r: "resume_target K False child saved m3 h5 = (True, m4, h6)"
    using run a b e f u by (auto split: prod.splits bool.splits)
  have i: "image_m K cdc platform sc False (snd (snd syms)) child page maps (c\<lparr>c_core_pid := child\<rparr>) st m4 h6 = Some (Keep rc, st', m', h')"
    using run by (simp add: a b e f u r)
  from image_m_Keep [OF i] show thesis using that [of child h6] by (auto simp: child_m_def a b e f u r)
qed

lemma direct_m_Keep:
  assumes "direct_m K cdc platform tid maps c st m h = Some (Keep rc, st', m', h')"
  shows "\<exists>c2. write_image cdc (k_mem K h) platform tid maps c st = Some (Inr (), c2, st')"
  using assms by (auto simp: direct_m_def Let_def split: option.splits sum.splits prod.splits if_splits)

lemma snapshot_m_Keep:
  assumes "snapshot_m K cdc platform sc False c m st h = Some (Keep rc, st', m', h')"
  obtains m1 h1 maps c1 st1 src hm x c2 where "collect_m K m h = Some (Inr (), m1, h1)"
    "write_meta cdc (k_capture K h1) (k_threads K h1) (snapshot_tid m) (first_of (snapshot_tid m)) (capture_core c (m_thrd m1)) st = (Inr maps, c1, st1)"
    "memory_source_m K sc maps (snapshot_tid m) m1 h1 = Some (src, hm)"
    "write_image cdc (k_mem K hm) platform src maps (c1\<lparr>c_core_pid := x\<rparr>) st1 = Some (Inr (), c2, st')"
proof -
  obtain m1 h1 where a: "collect_m K m h = Some (Inr (), m1, h1)"
    using assms by (auto simp: snapshot_m_def split: option.splits sum.splits)
  have fo: "(\<lambda>tids. if snapshot_tid m \<in> set tids then snapshot_tid m else hd tids) = first_of (snapshot_tid m)"
    by (simp add: first_of_def fun_eq_iff)
  obtain maps c1 st1 where b: "write_meta cdc (k_capture K h1) (k_threads K h1) (snapshot_tid m) (first_of (snapshot_tid m))
      (capture_core c (m_thrd m1)) st = (Inr maps, c1, st1)"
    using assms a by (auto simp: snapshot_m_def fo Let_def split: option.splits sum.splits prod.splits)
  obtain direct h2 where d: "(if m_leader_exited m1 then (True, h1) else fork_snapshot_requires_direct_capture K (m_pid m1) maps h1) = (direct, h2)"
    by (metis prod.exhaust)
  obtain syms h3 where s: "(if direct then ((0, 0, 0), h2) else inject_symbols K (m_pid m1) h2) = (syms, h3)" by fastforce
  let ?missing = "fst syms = 0 \<or> fst (snd syms) = 0 \<or> snd (snd syms) = 0"
  note run = assms [unfolded snapshot_m_def a option.case prod.case sum.case Let_def fo b if_False d s]
  show thesis
  proof (cases "direct \<or> ?missing")
    case True
    then have "direct_m K cdc platform (first_of (snapshot_tid m) (m_thrd m1)) maps c1 st1 m1 h3 = Some (Keep rc, st', m', h')"
      using run by (simp only: if_True simp_thms first_of_def)
    from direct_m_Keep [OF this] obtain c2 where
      i: "write_image cdc (k_mem K h3) platform (first_of (snapshot_tid m) (m_thrd m1)) maps (c1\<lparr>c_core_pid := c_core_pid c1\<rparr>) st1 = Some (Inr (), c2, st')"
      by auto
    have "memory_source_m K sc maps (snapshot_tid m) m1 h1 = Some (first_of (snapshot_tid m) (m_thrd m1), h3)"
      using True by (simp only: memory_source_m_def d s Let_def prod.case) simp
    then show thesis using that [OF a b _ i] by blast
  next
    case False
    then have nm: "\<not> direct" "\<not> ?missing" by blast+
    have f: "fork_m K cdc platform sc False syms maps c1 st1 m1 h3 = Some (Keep rc, st', m', h')"
      using run by (simp only: nm if_False simp_thms)
    obtain src hm c2 where i: "child_m K sc syms m1 h3 = Some (src, hm)"
      "write_image cdc (k_mem K hm) platform src maps (c1\<lparr>c_core_pid := src\<rparr>) st1 = Some (Inr (), c2, st')"
      by (rule fork_m_Keep [OF f])
    have "memory_source_m K sc maps (snapshot_tid m) m1 h1 = Some (src, hm)"
      unfolding memory_source_m_def d s Let_def prod.case using nm i(1) by simp
    from that [OF a b this i(2)] show thesis .
  qed
qed

text \<open>
  In plain words: either nothing was done but look since the threads were stopped, and the
  memory is that of one of them; or it is a child returned by a fork injected in between.
\<close>

definition memory_from :: "kern \<Rightarrow> shellcode \<Rightarrow> mon \<Rightarrow> history \<Rightarrow> int \<Rightarrow> history \<Rightarrow> bool" where
  "memory_from K sc m h src hm \<longleftrightarrow>
     src \<in> set (m_thrd m) \<and> asks h hm \<or>
     (\<exists>page saved m1 g m2 g'. inject_fork_m K sc False page saved m1 g = Some (Inr src, m2, g') \<and> suffix h g \<and> suffix g' hm)"

lemma direct_test_asks: "fork_snapshot_requires_direct_capture K pid maps h = (b, h') \<Longrightarrow> asks h h'"
  by (auto simp: fork_snapshot_requires_direct_capture_def sys_getregs_def split: sum.splits if_splits)

lemma inject_mmap_m_keeps: "inject_mmap_m K f saved m h = Some (Inr page, m', h') \<Longrightarrow> keeps h h'"
  by (auto simp: inject_mmap_m_def split: option.splits prod.splits call_result.splits bool.splits;
      (drule pt_call_keeps_attached [OF _ keeps_refl])?; (drule (1) implausible_keeps)?; simp)

lemma inject_munmap_m_keeps: "inject_munmap_m K sc sys_core f page child saved m h = Some (None, m', h') \<Longrightarrow> keeps h h'"
proof -
  assume a: "inject_munmap_m K sc sys_core f page child saved m h = Some (None, m', h')"
  obtain r out h1 where c: "pt_call K (m_pid m) f [page, 0x1000] 0 h = Some (r, out, h1)"
    using a by (auto simp: inject_munmap_m_def split: option.splits)
  have k: "keeps h h1" using c keeps_refl by (rule pt_call_keeps_attached)
  obtain s h2 where s: "(if co_signal out = 0 then probe_crash_stop K (m_pid m) h1 else (co_signal out, h1)) = (s, h2)" by fastforce
  have k2: "keeps h h2" using s k by (auto split: if_splits dest: probe_keeps)
  show ?thesis using a k k2
    by (cases r) (auto simp: inject_munmap_m_def c s Let_def split: if_splits prod.splits)
qed

lemma resume_others_keeps: "resume_others K ts m h = (m', h') \<Longrightarrow> keeps g h \<Longrightarrow> keeps g h'"
proof (induction ts arbitrary: m h)
  case (Cons t ts)
  obtain r h1 where r: "(if m_tids m = [] then pt_detach K t (relay_of m t) h else sys_ctl K t (CONT (relay_of m t)) h) = (r, h1)" by fastforce
  have "keeps g h1" using r Cons.prems(2) by (auto split: if_splits dest: pt_detach_keeps requests_keep)
  then show ?case using Cons r by (auto split: if_splits)
qed simp

lemma resume_target_keeps: "resume_target K sys_core child saved m h = (True, m', h') \<Longrightarrow> keeps h h'"
proof -
  assume a: "resume_target K sys_core child saved m h = (True, m', h')"
  obtain r h1 where r: "pt_setregs K (m_pid m) saved h = (r, h1)" by fastforce
  obtain m1 h2 where o: "resume_others K (m_thrd m) m h1 = (m1, h2)" by fastforce
  obtain d h3 where d: "pt_cont K (m_pid m) h2 = (d, h3)" by fastforce
  have "keeps h h3" using requests_keep(3) [OF d [unfolded pt_cont_def] resume_others_keeps [OF o pt_setregs_keeps [OF r keeps_refl]]] .
  moreover have "h' = h3" using a by (auto simp: resume_target_def r o d Let_def split: sum.splits if_splits)
  ultimately show ?thesis by simp
qed

lemma child_m_from:
  assumes "child_m K sc syms m h = Some (src, hm)"
  shows "\<exists>page saved m1 g m2 g'. inject_fork_m K sc False page saved m1 g = Some (Inr src, m2, g') \<and> suffix h g \<and> suffix g' hm"
proof -
  obtain h1 where a: "sys_ctl K (m_pid m) (SETOPTIONS (m_options m OR TRACEFORK)) h = (Inr (), h1)"
    using assms by (auto simp: child_m_def split: sum.splits prod.splits)
  obtain saved h2 where b: "sys_getregs K (m_pid m) h1 = (Inr saved, h2)" using assms a by (auto simp: child_m_def split: sum.splits prod.splits)
  obtain page m1 h3 where e: "inject_mmap_m K (fst syms) saved m h2 = Some (Inr page, m1, h3)"
    using assms a b by (auto simp: child_m_def split: option.splits sum.splits prod.splits)
  obtain child m2 h4 where f: "inject_fork_m K sc False page saved m1 h3 = Some (Inr child, m2, h4)"
    using assms a b e by (auto simp: child_m_def split: option.splits sum.splits prod.splits)
  obtain m3 h5 where u: "inject_munmap_m K sc False (fst (snd syms)) page child saved m2 h4 = Some (None, m3, h5)"
    using assms a b e f by (auto simp: child_m_def split: option.splits prod.splits)
  obtain m4 where r: "resume_target K False child saved m3 h5 = (True, m4, hm)" "child = src"
    using assms a b e f u by (auto simp: child_m_def split: prod.splits bool.splits)
  have "keeps h h3" using keeps_trans [OF inject_mmap_m_keeps [OF e]] a b by (simp add: sys_ctl_def sys_getregs_def Let_def) (metis keeps_events(1,6) keeps_refl request.distinct(11))
  moreover have "keeps h4 hm" using keeps_trans [OF resume_target_keeps [OF r(1)] inject_munmap_m_keeps [OF u]] .
  ultimately show ?thesis using f r(2) keeps_suffix by blast
qed

lemma request_point_from:
  assumes "request_point K sc c m h = Some (m1, h1, src, hm)" "m_thrd m1 \<noteq> []"
  shows "collect_m K m h = Some (Inr (), m1, h1)" "memory_from K sc m1 h1 src hm"
proof -
  obtain maps where M: "memory_source_m K sc maps (snapshot_tid m) m1 h1 = Some (src, hm)" and c: "collect_m K m h = Some (Inr (), m1, h1)"
    using assms(1) by (auto simp: request_point_def split: option.splits sum.splits)
  show "collect_m K m h = Some (Inr (), m1, h1)" by (rule c)
  obtain direct h2 where d: "(if m_leader_exited m1 then (True, h1) else fork_snapshot_requires_direct_capture K (m_pid m1) maps h1) = (direct, h2)"
    by (metis prod.exhaust)
  obtain syms h3 where s: "(if direct then ((0, 0, 0), h2) else inject_symbols K (m_pid m1) h2) = (syms, h3)" by fastforce
  have "asks h1 h2" using d by (auto split: if_splits dest: direct_test_asks)
  then have k: "asks h1 h3" using s by (auto simp: inject_symbols_def Let_def split: if_splits)
  have first: "first_of (snapshot_tid m) (m_thrd m1) \<in> set (m_thrd m1)" using assms(2) by (simp add: first_of_def)
  show "memory_from K sc m1 h1 src hm"
  proof (cases "direct \<or> fst syms = 0 \<or> fst (snd syms) = 0 \<or> snd (snd syms) = 0")
    case True
    then have "src = first_of (snapshot_tid m) (m_thrd m1) \<and> hm = h3" using M by (simp only: memory_source_m_def d s Let_def prod.case) simp
    then show ?thesis using k first by (simp add: memory_from_def)
  next
    case False
    then have "child_m K sc syms m1 h3 = Some (src, hm)" using M by (simp only: memory_source_m_def d s Let_def prod.case) simp
    from child_m_from [OF this] show ?thesis unfolding memory_from_def using asks_suffix [OF k] suffix_order.trans by blast
  qed
qed

lemma exact_widen: "thread_set_exact K leader m h0 hx \<Longrightarrow> suffix h h0 \<Longrightarrow> thread_set_exact K leader m h hx"
  unfolding thread_set_exact_def held_def using disclaimed_widen suffix_order.refl suffix_order.trans by metis

lemma collect_m_threads:
  assumes "collect_m K m h = Some (Inr u, m1, h1)" "m_tids m \<noteq> []"
  shows "thread_set_exact K (m_pid m) m1 h h1"
proof -
  have "collect_threads K (m_pid m) 0 m (Ctl (snapshot_tid m) INTERRUPT True # h) = Some (Collected, m1, h1)"
    using assms(1) by (auto simp: collect_m_def sys_ctl_def Let_def split: if_splits sum.splits prod.splits option.splits collected.splits)
  from exact_widen [OF collect_threads_crash(1) [OF this assms(2)]] show ?thesis by (simp add: suffix_ConsI)
qed

section \<open>The file\<close>

definition request_setup :: "kern \<Rightarrow> nat \<Rightarrow> mon \<Rightarrow> history \<Rightarrow> int \<Rightarrow> history \<Rightarrow> capture_setup" where
  "request_setup K platform m h src hm =
     \<lparr>cs_env = k_capture K h, cs_te = k_threads K h, cs_mem = \<lambda>_. k_mem K hm src, cs_platform = platform, cs_control = snapshot_tid m,
      cs_order = \<lambda>tids. thread_order (first_of (snapshot_tid m) tids) tids\<rparr>"

lemma request_setup_simps [simp]:
  "cs_env (request_setup K p m h src hm) = k_capture K h" "cs_te (request_setup K p m h src hm) = k_threads K h"
  "cs_mem (request_setup K p m h src hm) = (\<lambda>_. k_mem K hm src)"
  "cs_platform (request_setup K p m h src hm) = p" "cs_control (request_setup K p m h src hm) = snapshot_tid m"
  "cs_order (request_setup K p m h src hm) = (\<lambda>tids. thread_order (first_of (snapshot_tid m) tids) tids)"
  by (simp_all add: request_setup_def)

text \<open>The order of the threads is not looked at by what the converter needs.\<close>

lemma order_independent [simp]:
  "capture_sound (s\<lparr>cs_order := f\<rparr>) c = capture_sound s c" "convertible (s\<lparr>cs_order := f\<rparr>) c = convertible s c"
  "converter_sound env i out (s\<lparr>cs_order := f\<rparr>) c m = converter_sound env i out s c m"
  by (simp_all add: capture_sound_def convertible_def converter_sound_def)

lemma meta_stream:
  assumes m: "write_meta cdc (cs_env s) (cs_te s) (cs_control s) first c st = (Inr maps, c1, st1)"
    and i: "write_image cdc om (cs_platform s) src maps (c1\<lparr>c_core_pid := x\<rparr>) st1 = Some (Inr (), c2, st2)"
    and o: "\<forall>tids. cs_order s tids = thread_order (first tids) tids" "\<And>tids. tids \<noteq> [] \<Longrightarrow> first tids \<in> set tids"
  shows "\<exists>c'. acore_stream cdc (s\<lparr>cs_mem := \<lambda>_. om src\<rparr>) c st c' st2"
proof -
  obtain sa where P: "WriteProcessMeta cdc (cs_env s) (cs_control s) c st = (Inr maps, c1, sa)"
    "WriteThreads cdc (cs_env s) (cs_te s) c1 (cs_order s (pd_thrd_pid (c_process c1))) sa = (Inr (), st1)"
    using m by (auto simp: write_meta_def o(1) thread_order_def Let_def split: prod.splits sum.splits)
  obtain c' st3 st4 where W: "WriteLoads cdc (\<lambda>_. om src) (cs_control s) maps c1 st1 = Some (Inr (), c', st3)"
    "WriteElfHeader cdc (cs_platform s) c' st3 = (Inr (), st4)" "WriteTailMark cdc st4 = (Inr (), st2)"
    by (rule image_as_loads [OF i])
  have t: "pd_thrd_pid (c_process c) \<noteq> []" "distinct (pd_thrd_pid (c_process c))" by (rule WriteProcessMeta_Inr [OF P(1)], blast)+
  have "mset (cs_order s (pd_thrd_pid (c_process c))) = mset (pd_thrd_pid (c_process c))"
    using thread_order_mset [OF t(2) o(2) [OF t(1)]] by (simp add: o(1))
  then show ?thesis using P W by (auto simp: acore_stream_def)
qed

lemma discard_output_path:
  assumes "alone os" "temp \<noteq> path" shows "discard_output cdc os temp st m path = m path"
proof -
  obtain rc f st1 where c: "Close cdc st = (rc, f, st1)" by (metis prod.exhaust)
  have "store_closed temp f m path = m path" using assms(2) by (auto simp: store_closed_def store_file_def split: option.splits)
  moreover obtain r m2 where u: "os_call os UnlinkAborted (fs_unlink temp) (store_closed temp f m) = (r, m2)" by fastforce
  ultimately have "m2 path = m path" using os_call_alone [OF assms(1) u] assms(2) by (auto simp: fs_unlink_def split: option.splits if_splits)
  then show ?thesis by (simp add: discard_output_def c u)
qed

lemma write_meta_maps:
  "write_meta cdc env te control first c st = (Inr maps, c1, st1) \<Longrightarrow> source_maps env c control = Inr maps"
proof -
  assume "write_meta cdc env te control first c st = (Inr maps, c1, st1)"
  then obtain sa where P: "WriteProcessMeta cdc env control c st = (Inr maps, c1, sa)"
    by (auto simp: write_meta_def Let_def split: prod.splits sum.splits)
  show ?thesis by (rule WriteProcessMeta_Inr [OF P]) (simp add: source_maps_def)
qed

text \<open>A file that \<^verbatim>\<open>forkcore_m\<close> installs is that of a kept snapshot.\<close>

lemma forkcore_m_installs:
  assumes "forkcore_m K cdc os fresh info fd platform sc False c m path h files = Some (rc, m', h', files')" "rc \<noteq> - 1" "files' path \<noteq> files path"
    and "dump_host os info path"
  obtains temp state st0 files1 st1 st2 where
    "open_atomic_lz4 cdc os fresh info fd path (Lz4Stream_new LZ4_Compress) files = (Inr (temp, state), st0, files1)"
    "WriteFileHeader cdc platform st0 = (Inr (), st1)"
    "snapshot_m K cdc platform sc False c (m\<lparr>m_recovery_failed := False\<rparr>) st1 h = Some (Keep rc, st2, m', h')"
    "commit_atomic_lz4 cdc os st2 temp path state files1 = (Inr (), files')"
proof -
  note run = assms(1) [unfolded forkcore_m_def Let_def if_False]
  obtain temp state st0 files1 where o: "open_atomic_lz4 cdc os fresh info fd path (Lz4Stream_new LZ4_Compress) files = (Inr (temp, state), st0, files1)"
    using run assms(2) by (auto split: sum.splits prod.splits)
  obtain st1 where f: "WriteFileHeader cdc platform st0 = (Inr (), st1)" using run assms(2) o by (auto split: sum.splits prod.splits)
  obtain e st2 where s: "snapshot_m K cdc platform sc False c (m\<lparr>m_recovery_failed := False\<rparr>) st1 h = Some (e, st2, m', h')"
    using run o f by (auto split: option.splits snap_end.splits sum.splits prod.splits)
  have os: "alone os" "temp_name os path \<noteq> Inr path" using assms(4) by (auto simp: dump_host_def)
  obtain r files2 where cr: "create_atomic_output os fresh path files = (r, files2)" by fastforce
  have "r = Inr (temp, state)" "files1 = files2" using o cr by (auto simp: open_atomic_lz4_def split: sum.splits prod.splits)
  then have t: "temp_name os path = Inr temp" "files1 path = files path" "temp \<noteq> path" using create_alone [OF os(1) cr] os(2) by auto
  have keep: "e = Keep rc \<and> commit_atomic_lz4 cdc os st2 temp path state files1 = (Inr (), files')"
    using run assms(2,3) o f s t discard_output_path [OF os(1) t(3), of cdc st2 files1]
    by (auto split: snap_end.splits sum.splits prod.splits)
  then show thesis using that [OF o f] s by blast
qed

section \<open>The property\<close>

text \<open>
  C5: A dump on request is complete. Whatever file \<^verbatim>\<open>forkcore_m\<close> installs for the monitor, with
  a result that is not an error: the last thing the run did before it began to write was to
  list the threads once more, the threads captured are exactly those of that listing (an
  exited leader apart), and each had been seen stopped in this run and not been woken since,
  or is the one the monitor holds in the stop of a crash (unless the kernel said meanwhile
  that it is no thread of the target). And the file converts to an ELF core file with the
  mappings of the target, those threads with their registers, and the memory of exactly one
  task at one point of the run: of the child, when a fork was injected after the threads were
  stopped, as it is once the target has been resumed; or, where a fork would not show the
  memory or the target cannot be injected, of the control thread's process, and then nothing
  has been done to the target between the stop and the writing. Assumed: the snapshot's control thread is
  still there once the threads are stopped, no process touches the output path, what the
  kernel answers has the kernel's format, the converting host has memory and disk space.
\<close>

theorem request_converts:
  assumes "codec_ok cdc sync" "allocates cdc" "m_tids m \<noteq> []" "dump_host os info path"
    and "forkcore_m K cdc os fresh info fd platform sc False c m path h files = Some (rc, m', h', files')" "rc \<noteq> - 1" "files' path \<noteq> files path"
    and "request_point K sc c (m\<lparr>m_recovery_failed := False\<rparr>) h = Some (m1, h1, src, hm)"
    and "s = request_setup K platform m h1 src hm" "co = capture_core c (m_thrd m1)"
    and "capture_sound s co" "threads_fit s co" "convertible s co"
    and "reads_back cdc env in_file (files' path)" "converter_sound env in_file out s co fs2" "pd_threads (c_process c0) = []"
  shows "thread_set_exact K (m_pid m) m1 h h1 \<and> memory_from K sc m1 h1 src hm \<and>
    (\<exists>maps mem sp img node. decompress cdc env in_file (Some out) c0 fs2 = (Inr (), cleanup_decompress node, fs2(out :=
        Some ((fresh_node (fst (cv_fresh env)) (snd (cv_fresh env)))\<lparr>fn_data := img\<rparr>))) \<and>
      source_maps (k_capture K h1) co (snapshot_tid m) = Inr maps \<and> k_mem K hm src = Some mem \<and>
      notes_tell s co (cv_mem env) (cv_clk_tck env) maps sp \<and>
      core_shows (undisturbed mem \<and> readable_maps (mf_byte mem) maps) platform (mf_byte mem) maps sp img)"
proof -
  let ?m = "m\<lparr>m_recovery_failed := False\<rparr>"
  have tid: "snapshot_tid ?m = snapshot_tid m" by (simp add: snapshot_tid_def)
  have ne: "m_thrd m1 \<noteq> []" using assms(9-11) by (auto simp: capture_sound_def capture_core_def)
  note P = request_point_from [OF assms(8) ne]
  obtain temp state st0 files1 st1 st2 where F:
    "open_atomic_lz4 cdc os fresh info fd path (Lz4Stream_new LZ4_Compress) files = (Inr (temp, state), st0, files1)"
    "WriteFileHeader cdc platform st0 = (Inr (), st1)"
    "snapshot_m K cdc platform sc False c ?m st1 h = Some (Keep rc, st2, m', h')"
    "commit_atomic_lz4 cdc os st2 temp path state files1 = (Inr (), files')" by (rule forkcore_m_installs [OF assms(5-7,4)])
  obtain ma ha maps0 c1 sta src' hm' x c2 where S: "collect_m K ?m h = Some (Inr (), ma, ha)"
    "write_meta cdc (k_capture K ha) (k_threads K ha) (snapshot_tid m) (first_of (snapshot_tid m)) (capture_core c (m_thrd ma)) st1 = (Inr maps0, c1, sta)"
    "memory_source_m K sc maps0 (snapshot_tid m) ma ha = Some (src', hm')"
    "write_image cdc (k_mem K hm') platform src' maps0 (c1\<lparr>c_core_pid := x\<rparr>) sta = Some (Inr (), c2, st2)"
    by (rule snapshot_m_Keep [OF F(3), unfolded tid])
  have eq: "ma = m1" "ha = h1" using S(1) P(1) by simp_all
  have maps: "source_maps (k_capture K h1) co (snapshot_tid m) = Inr maps0"
    using write_meta_maps [OF S(2)] by (simp add: eq assms(10))
  have "memory_source_m K sc maps0 (snapshot_tid m) m1 h1 = Some (src, hm)"
    using assms(8) maps by (auto simp: request_point_def P(1) assms(10) tid split: option.splits)
  then have src: "src' = src" "hm' = hm" using S(3) by (simp_all add: eq)
  have first: "tids \<noteq> [] \<Longrightarrow> first_of (snapshot_tid m) tids \<in> set tids" for tids by (simp add: first_of_def)
  have mem: "s\<lparr>cs_mem := \<lambda>_. k_mem K hm src\<rparr> = s" using assms(9) by (simp add: request_setup_def)
  have a: "\<exists>c'. acore_stream cdc s co st1 c' st2"
    using meta_stream [of cdc s "first_of (snapshot_tid m)" co st1 maps0 c1 sta "k_mem K hm" src x c2 st2] S(2,4) first
    by (simp add: eq assms(9,10) src mem [unfolded assms(9)])
  then obtain c' where a: "acore_stream cdc s co st1 c' st2" by blast
  have H: "WriteFileHeader cdc (cs_platform s) st0 = (Inr (), st1)" using F(2) assms(9) by simp
  obtain g f where G: "OpenFd cdc info (int fd) (Lz4Stream_new LZ4_Compress) = (Inr (), st0)" "fi_fdopen info = Some f" "at_end f"
    "fl_data f = []" "s_file st2 = Some g" "map_option fn_data (files' path) = Some (fl_data g)"
    by (rule acore_installed [OF F(1) H a F(4) assms(4,1,2,11,12)])
  obtain acore rd where R: "cv_in env = Some acore" "healthy acore" "fl_seekable acore" "unread acore = fl_data g"
    "Open cdc (cv_in env) (Some in_file) (Lz4Stream_new LZ4_Decompress) = (Inr (), rd)"
    using assms(14) G(6) by (auto simp: reads_back_def)
  have T: "thread_set_exact K (m_pid m) m1 h h1" using collect_m_threads [OF P(1)] assms(3) by simp
  from acore_converts [OF assms(1,2,11-13) G(1-4) H a G(5) R assms(15,16)] show ?thesis
    using T P(2) assms(9) by simp
qed

section \<open>A run\<close>

text \<open>The monitored process of \<open>sample_env\<close>; its memory map cannot be read as text, so it is dumped directly.\<close>

definition request_kern :: kern where
  "request_kern = gen_kern\<lparr>k_waitpid := \<lambda>h p. Inr (Some (stopped_status 5 128))\<rparr>"

definition watched :: mon where "watched = (mon_new 7)\<lparr>m_tids := [7]\<rparr>"

definition request_run :: "(int \<times> mon \<times> history \<times> fs) option" where
  "request_run = forkcore_m request_kern counted calm_os (1, 5) gen_info 3 ARCH_AARCH64 fork_code False (Coredump_new ARCH_AARCH64 7) watched
     ''acore'' [] Map.empty"

lemma request_kern_simps [simp]:
  "k_capture request_kern h = sample_env" "k_threads request_kern h = sample_te" "k_mem request_kern h = (\<lambda>p. Some sample_mem)"
  "k_tasks request_kern h p = Inr ([''.'', ''..'', ''7''], None)"
  by (simp_all add: request_kern_def fun_eq_iff)

lemma request_tasks: "list_task_tids request_kern p h = (Inr [7], Asked # h)"
  using gen_tasks [of p h] by (simp add: list_task_tids_def)

lemma watched_simps [simp]:
  "m_tids watched = [7]" "m_pid watched = 7" "\<not> m_leader_exited watched" "m_relay watched = []" "m_crash_tid watched = 0"
  "watched\<lparr>m_recovery_failed := False\<rparr> = watched" "snapshot_tid watched = 7" "\<not> m_recovery_failed watched"
  by (simp_all add: watched_def mon_new_def snapshot_tid_def)

lemma request_collected:
  obtains h1 where "collect_m request_kern watched [] = Some (Inr (), watched\<lparr>m_thrd := [7]\<rparr>, h1)"
proof -
  have st: "WIFSTOPPED (stopped_status 5 128)" "\<not> WIFEXITED (stopped_status 5 128)" "\<not> WIFSIGNALED (stopped_status 5 128)"
    "WSTOPSIG (stopped_status 5 128) = 5" "stop_event (stopped_status 5 128) = 128"
    by (simp_all add: WIFSTOPPED_def WIFEXITED_def WIFSIGNALED_def WSTOPSIG_def stop_event_def stopped_status_def)
  have w: "sys_waitpid request_kern p h = (Inr (Some (stopped_status 5 128)), Waited p (Some (stopped_status 5 128)) # h)" for p h
    by (simp add: sys_waitpid_def request_kern_def Let_def)
  have i: "sys_ctl request_kern p req h = (Inr (), Ctl p req True # h)" for p req h
    by (simp add: sys_ctl_def request_kern_def gen_kern_def sim_kern_def Let_def)
  have n: "(64 :: nat) = Suc 63" by simp
  have one: "\<exists>g. stop_one request_kern 7 7 (stops_none, watched) h = Some (True, (stops_none\<lparr>s_stopped := [7]\<rparr>, watched), g)" for h
    by (simp add: stop_one_def stops_none_def w st record_stop_def job_control_signal_def tid_insert_def insort_insert_key_def Let_def)
  have m: "watched\<lparr>m_thrd := [], m_relay := []\<rparr> = watched" by (simp add: watched_def mon_new_def)
  have fin: "finish_collect request_kern 7 [7] (stops_none\<lparr>s_stopped := [7]\<rparr>, watched) h = (Collected, watched\<lparr>m_thrd := [7]\<rparr>, h)" for h
    by (simp add: finish_collect_def stops_none_def Let_def)
  have "\<exists>g. collect_rounds 64 request_kern 7 (stops_none, watched) h = Some (Collected, watched\<lparr>m_thrd := [7]\<rparr>, g)" for h
  proof -
    obtain g where g: "stop_one request_kern 7 7 (stops_none, watched) (Asked # h) = Some (True, (stops_none\<lparr>s_stopped := [7]\<rparr>, watched), g)"
      using one by blast
    have s: "set (s_stopped (stops_none\<lparr>s_stopped := [7]\<rparr>)) = {7}" by simp
    show ?thesis unfolding n collect_rounds.simps(2) by (simp add: request_tasks live_tids_def g fin s)
  qed
  then obtain g where "collect_rounds 64 request_kern 7 (stops_none, watched) [Ctl 7 INTERRUPT True] = Some (Collected, watched\<lparr>m_thrd := [7]\<rparr>, g)"
    by blast
  then have "\<exists>h1. collect_m request_kern watched [] = Some (Inr (), watched\<lparr>m_thrd := [7]\<rparr>, h1)"
    by (simp add: collect_m_def i collect_threads_def m Let_def)
  then show thesis using that by blast
qed

lemma request_setup_eq: "request_setup request_kern ARCH_AARCH64 watched h 7 hm =
    sample_setup\<lparr>cs_order := \<lambda>tids. thread_order (first_of 7 tids) tids\<rparr>"
  by (simp add: request_setup_def sample_setup_def fun_eq_iff)

lemma request_facts:
  assumes "s = request_setup request_kern ARCH_AARCH64 watched h 7 hm"
  shows "capture_sound s sample_core" "threads_fit s sample_core" "convertible s sample_core"
    "converter_sound (sample_convert bs) ''acore'' ''core'' s sample_core Map.empty"
proof -
  have o: "thread_order (first_of 7 [7]) [7] = thread_order 7 [7]" by (simp add: first_of_def)
  show "capture_sound s sample_core" "convertible s sample_core" "converter_sound (sample_convert bs) ''acore'' ''core'' s sample_core Map.empty"
    using sample_setup_facts(1,3) sample_converter [of bs] by (simp_all add: assms request_setup_eq del: One_nat_def)
  show "threads_fit s sample_core"
    using sample_setup_facts(2) by (simp add: assms request_setup_eq threads_fit_def sample_setup_facts(5) o sample_setup_def)
qed

lemma request_direct: "\<exists>h2. fork_snapshot_requires_direct_capture request_kern 7 maps h1 = (True, h2)"
proof -
  have k: "sys_getregs request_kern p h = (Inr sim_regs, Asked # h)" "k_text request_kern h f = None" for p h f
    by (simp_all add: sys_getregs_def request_kern_def gen_kern_def sim_kern_def)
  have "fst (fork_snapshot_requires_direct_capture request_kern 7 maps h1)" by (auto simp: fork_snapshot_requires_direct_capture_def k)
  then show ?thesis by (metis prod.collapse)
qed

lemma request_pointed:
  obtains h1 hm where "request_point request_kern fork_code (Coredump_new ARCH_AARCH64 7) watched [] = Some (watched\<lparr>m_thrd := [7]\<rparr>, h1, 7, hm)"
proof -
  obtain h1 where col: "collect_m request_kern watched [] = Some (Inr (), watched\<lparr>m_thrd := [7]\<rparr>, h1)" by (rule request_collected)
  obtain h2 where d: "fork_snapshot_requires_direct_capture request_kern 7 [sample_region] h1 = (True, h2)" using request_direct by blast
  have "memory_source_m request_kern fork_code [sample_region] 7 (watched\<lparr>m_thrd := [7]\<rparr>) h1 = Some (7, h2)"
    by (simp add: memory_source_m_def d first_of_def Let_def)
  then have "request_point request_kern fork_code (Coredump_new ARCH_AARCH64 7) watched [] = Some (watched\<lparr>m_thrd := [7]\<rparr>, h1, 7, h2)"
    by (simp add: request_point_def col gen_core sample_source_maps del: One_nat_def)
  then show thesis by (rule that)
qed

lemma request_run_ends: "\<exists>m' h' files'. request_run = Some (0, m', h', files') \<and> files' ''acore'' \<noteq> None"
proof -
  let ?c = "Coredump_new ARCH_AARCH64 7" and ?m1 = "watched\<lparr>m_thrd := [7]\<rparr>"
  obtain h1 where col: "collect_m request_kern watched [] = Some (Inr (), ?m1, h1)" by (rule request_collected)
  have co: "capture_core ?c (m_thrd ?m1) = sample_core" using gen_core by simp
  have rm: "room sample_start (dump_cost (length (pd_thrd_pid (c_process sample_core))) [load_phdr 0 sample_region])"
    using gen_room by (simp only: sample_setup_facts(5) list.size add_0 One_nat_def [symmetric])
  have hd: "WriteFileHeader counted (cs_platform sample_setup) new_out = (Inr (), sample_start)" by (simp add: sample_dump_facts sample_start_facts del: One_nat_def)
  obtain temp state files1 c' st2 files' where
    o: "open_atomic_lz4 counted calm_os (1, 5) gen_info 3 ''acore'' (Lz4Stream_new LZ4_Compress) Map.empty = (Inr (temp, state), new_out, files1)" and
    w: "write_acore counted (cs_env sample_setup) (cs_te sample_setup) (cs_mem sample_setup) (cs_platform sample_setup) (cs_control sample_setup) sample_core sample_start = Some (Inr (), c', st2)" and
    cm: "commit_atomic_lz4 counted calm_os st2 temp ''acore'' state files1 = (Inr (), files')" "files' ''acore'' \<noteq> None"
    by (rule acore_delivered [OF sample_facts(1) gen_ready hd rm gen_capturable, of "(1, 5)"])
  obtain maps c1 sa sb sc sd where W: "WriteProcessMeta counted sample_env 7 sample_core sample_start = (Inr maps, c1, sa)"
    "WriteThreads counted sample_env sample_te c1 (thread_order 7 (pd_thrd_pid (c_process c1))) sa = (Inr (), sb)"
    "WriteLoads counted (\<lambda>pid. Some sample_mem) 7 maps c1 sb = Some (Inr (), c', sc)" "WriteElfHeader counted ARCH_AARCH64 c' sc = (Inr (), sd)"
    "WriteTailMark counted sd = (Inr (), st2)" by (rule write_acore_Inr [OF w [unfolded sample_dump_facts]])
  have tids: "pd_thrd_pid (c_process c1) = [7]" by (rule WriteProcessMeta_Inr [OF W(1)]) (simp add: sample_setup_facts(5))
  have b: "WriteThreads counted sample_env sample_te c1 [7] sa = (Inr (), sb)" using W(2) by (simp add: tids thread_order_def del: WriteThreads.simps)
  have meta: "write_meta counted sample_env sample_te 7 f sample_core sample_start = (Inr maps, c1, sb)" if "f [7] = 7" for f
    using that by (simp add: write_meta_def W(1) tids b del: WriteThreads.simps)
  have image: "write_image counted (\<lambda>pid. Some sample_mem) ARCH_AARCH64 7 maps c1 sb = Some (Inr (), c', st2)"
    unfolding write_image_def by (simp only: W(3-5) option.case prod.case sum.case)
  obtain h2 where dr: "fork_snapshot_requires_direct_capture request_kern 7 maps h1 = (True, h2)" using request_direct by blast
  have i: "sys_ctl request_kern p req h = (Inr (), Ctl p req True # h)" for p req h
    by (simp add: sys_ctl_def request_kern_def gen_kern_def sim_kern_def Let_def)
  have "\<exists>m' h'. snapshot_m request_kern counted ARCH_AARCH64 fork_code False ?c watched sample_start [] = Some (Keep 0, st2, m', h')"
    by (simp add: snapshot_m_def col gen_core meta dr direct_m_def image i bad_request_def flag_if_def Let_def del: One_nat_def)
  then show ?thesis using cm by (auto simp: request_run_def forkcore_m_def Let_def o new_out_header simp del: One_nat_def)
qed

theorem request_converts_witness:
  "\<exists>m' h' files' acore core img m''. request_run = Some (0, m', h', files') \<and> files' ''acore'' = Some acore \<and>
     decompress counted (sample_convert (fn_data acore)) ''acore'' (Some ''core'') (Coredump_new ARCH_AARCH64 0) Map.empty =
       (Inr (), core, m'') \<and> map_option fn_data (m'' ''core'') = Some img \<and> elf_core_of ARCH_AARCH64 img \<and> length (elf_phdrs img) = 2"
proof -
  obtain m' h' files' node where g: "request_run = Some (0, m', h', files')" "files' ''acore'' = Some node" using request_run_ends by auto
  obtain h1 hm where pt: "request_point request_kern fork_code (Coredump_new ARCH_AARCH64 7) (watched\<lparr>m_recovery_failed := False\<rparr>) [] =
      Some (watched\<lparr>m_thrd := [7]\<rparr>, h1, 7, hm)" using request_pointed by auto
  let ?env = "sample_convert (fn_data node)"
  have r: "reads_back counted ?env ''acore'' (files' ''acore'')" using g(2) sample_reads by simp
  have z: "request_setup request_kern ARCH_AARCH64 watched h1 7 hm = request_setup request_kern ARCH_AARCH64 watched h1 7 hm" by (rule refl)
  have co: "sample_core = capture_core (Coredump_new ARCH_AARCH64 7) (m_thrd (watched\<lparr>m_thrd := [7]\<rparr>))" using gen_core by simp
  have m: "m_tids watched \<noteq> []" "(0 :: int) \<noteq> - 1" "files' ''acore'' \<noteq> Map.empty ''acore''" "pd_threads (c_process (Coredump_new ARCH_AARCH64 0)) = []"
    using g(2) by (simp_all add: Coredump_new_def ProcessData_new_def)
  from request_converts [OF counted_ok sample_facts(2) m(1) gen_host g(1) [unfolded request_run_def] m(2,3) pt z co request_facts(1-3) [OF z] r
      request_facts(4) [OF z] m(4)]
  obtain maps mem sp img core where R: "decompress counted ?env ''acore'' (Some ''core'') (Coredump_new ARCH_AARCH64 0) Map.empty =
      (Inr (), cleanup_decompress core, Map.empty(''core'' := Some ((fresh_node (fst (cv_fresh ?env)) (snd (cv_fresh ?env)))\<lparr>fn_data := img\<rparr>)))"
    "source_maps (k_capture request_kern h1) sample_core (snapshot_tid watched) = Inr maps"
    "core_shows (undisturbed mem \<and> readable_maps (mf_byte mem) maps) ARCH_AARCH64 (mf_byte mem) maps sp img" by blast
  have "maps = [sample_region]" using R(2) sample_source_maps by simp
  with R(3) have "elf_core_of ARCH_AARCH64 img" "length (elf_phdrs img) = 2" using core_shows_one by blast+
  with g R(1) show ?thesis by (intro exI conjI) (assumption | simp)+
qed
end
